(* ===== verification/Prelude.thy ===== *)
theory Prelude
  imports Main "HOL-Library.Word" "HOL-Library.Multiset" "HOL-Library.Char_ord"
    "HOL-Library.List_Lexorder" "HOL-Library.Sublist"
begin

text \<open>
  Shared ground of the development: the types the TypeScript sources use
  everywhere (results of fallible code, byte arrays, JavaScript numbers,
  insertion-ordered \<open>Map\<close>s), the decimal printing and parsing of \<open>bigint\<close>,
  the arithmetic helpers (\<open>Math.ceil\<close>, truncated \<open>bigint\<close> division), and the
  generic list, option and word lemmas that the component theories share.
\<close>

named_theorems res_simps \<open>unfolding the result monad\<close>
named_theorems jmap_simps \<open>insertion-ordered maps\<close>
named_theorems js_text \<open>printing and parsing of numbers\<close>


section \<open>Results of fallible code\<close>

type_synonym ('e, 'a) result = "'e + 'a"

abbreviation Throw :: "'e \<Rightarrow> ('e, 'a) result" where
  "Throw \<equiv> Inl"

abbreviation Ok :: "'a \<Rightarrow> ('e, 'a) result" where
  "Ok \<equiv> Inr"

definition res_bind :: "('e, 'a) result \<Rightarrow> ('a \<Rightarrow> ('e, 'b) result) \<Rightarrow> ('e, 'b) result" where
  "res_bind r f = (case r of Inl e \<Rightarrow> Inl e | Inr a \<Rightarrow> f a)"

definition is_ok :: "('e, 'a) result \<Rightarrow> bool" where
  "is_ok r = (case r of Inl _ \<Rightarrow> False | Inr _ \<Rightarrow> True)"

lemma res_bind_simps [simp, res_simps]:
  "res_bind (Inl e) f = Inl e"
  "res_bind (Inr a) f = f a"
  by (simp_all add: res_bind_def)

lemma res_bind_eq_Inr [res_simps]:
  "res_bind r f = Inr b \<longleftrightarrow> (\<exists>a. r = Inr a \<and> f a = Inr b)"
  by (cases r) auto

lemma is_ok_simps [simp, res_simps]:
  "\<not> is_ok (Inl e)"
  "is_ok (Inr a)"
  by (simp_all add: is_ok_def)

lemma is_ok_iff: "is_ok r \<longleftrightarrow> (\<exists>a. r = Inr a)"
  by (cases r) simp_all

text \<open>\<open>for (const x of xs) ...\<close> where the body may throw.\<close>

fun map_res :: "('a \<Rightarrow> ('e, 'b) result) \<Rightarrow> 'a list \<Rightarrow> ('e, 'b list) result" where
  "map_res f [] = Inr []"
| "map_res f (x # xs) = res_bind (f x) (\<lambda>y. res_bind (map_res f xs) (\<lambda>ys. Inr (y # ys)))"

lemma map_res_Inr:
  "map_res f xs = Inr ys \<longleftrightarrow> list_all2 (\<lambda>x y. f x = Inr y) xs ys"
  by (induction xs arbitrary: ys) (auto simp: res_simps list_all2_Cons1)

lemma map_res_is_ok: "(\<And>x. x \<in> set xs \<Longrightarrow> is_ok (f x)) \<Longrightarrow> is_ok (map_res f xs)"
proof (induction xs)
  case (Cons x xs)
  then have "is_ok (f x)" "is_ok (map_res f xs)" by simp_all
  then show ?case by (cases "f x"; cases "map_res f xs") auto
qed simp

lemma map_res_total:
  assumes "\<And>x. x \<in> set xs \<Longrightarrow> f x = Inr (g x)"
  shows "map_res f xs = Inr (map g xs)"
  using assms by (auto simp: map_res_Inr list_all2_map2 list_all2_same)


section \<open>Bytes and numbers\<close>

type_synonym bytes = "8 word list"

text \<open>
  A JavaScript \<open>number\<close>: an integer, or a value the sources treat as \<open>not an
  integer\<close> (kept with its literal text), or \<open>NaN\<close>.
\<close>

datatype jsnum = NInt int | NFrac string | NaN

text \<open>\<open>BigInt(n)\<close> of a number: a \<open>RangeError\<close> unless it is an integer.\<close>

fun num_BigInt :: "jsnum \<Rightarrow> int option" where
  "num_BigInt (NInt i) = Some i"
| "num_BigInt _ = None"

definition char_byte :: "char \<Rightarrow> 8 word" where
  "char_byte c = of_nat (of_char c)"

definition byte_char :: "8 word \<Rightarrow> char" where
  "byte_char b = char_of (unat b)"

lemma byte_char_inverse [simp]: "char_byte (byte_char b) = b"
proof -
  have "unat b mod 256 = unat b"
    using unsigned_less [of b, where 'a = nat] by simp
  then show ?thesis
    by (simp add: char_byte_def byte_char_def)
qed

lemma char_byte_inverse [simp]: "byte_char (char_byte c) = c"
proof -
  have "(of_char c :: nat) < 256"
    by simp
  then show ?thesis
    by (simp add: char_byte_def byte_char_def unat_of_nat)
qed

text \<open>\<open>Buffer.from(s, "utf8")\<close>: strings are kept as their UTF-8 code units.\<close>

definition utf8 :: "string \<Rightarrow> bytes" where
  "utf8 s = map char_byte s"

definition utf8_decode :: "bytes \<Rightarrow> string" where
  "utf8_decode bs = map byte_char bs"

lemma utf8_roundtrip [simp]: "utf8_decode (utf8 s) = s"
  by (simp add: utf8_def utf8_decode_def comp_def)

lemma utf8_decode_roundtrip [simp]: "utf8 (utf8_decode bs) = bs"
  by (simp add: utf8_def utf8_decode_def comp_def)

text \<open>\<open>Math.ceil((2 * n) / 3)\<close>, the committee threshold.\<close>

definition ceil_two_thirds :: "nat \<Rightarrow> nat" where
  "ceil_two_thirds n = (2 * n + 2) div 3"

lemma ceil_two_thirds_bounds:
  "2 * n \<le> 3 * ceil_two_thirds n" "3 * ceil_two_thirds n < 2 * n + 3" "ceil_two_thirds n \<le> n"
  unfolding ceil_two_thirds_def by linarith+

text \<open>\<open>a / b\<close> and \<open>a % b\<close> on \<open>bigint\<close> truncate towards zero.\<close>

definition js_div :: "int \<Rightarrow> int \<Rightarrow> int" where
  "js_div a b = sgn a * sgn b * (\<bar>a\<bar> div \<bar>b\<bar>)"

definition js_mod :: "int \<Rightarrow> int \<Rightarrow> int" where
  "js_mod a b = sgn a * (\<bar>a\<bar> mod \<bar>b\<bar>)"

lemma js_div_nonneg [simp]: "0 \<le> a \<Longrightarrow> 0 < b \<Longrightarrow> js_div a b = a div b"
  by (cases "a = 0") (auto simp: js_div_def sgn_if)

lemma js_mod_nonneg [simp]: "0 \<le> a \<Longrightarrow> 0 < b \<Longrightarrow> js_mod a b = a mod b"
  by (cases "a = 0") (auto simp: js_mod_def sgn_if)

lemma js_div_mod: "b \<noteq> 0 \<Longrightarrow> js_div a b * b + js_mod a b = a"
proof -
  assume "b \<noteq> 0"
  have "js_div a b * b + js_mod a b = sgn a * (\<bar>a\<bar> div \<bar>b\<bar> * (sgn b * b)) + sgn a * (\<bar>a\<bar> mod \<bar>b\<bar>)"
    by (simp add: js_div_def js_mod_def)
  also have "\<dots> = sgn a * (\<bar>a\<bar> div \<bar>b\<bar> * \<bar>b\<bar> + \<bar>a\<bar> mod \<bar>b\<bar>)"
    by (simp add: abs_sgn algebra_simps mult_sgn_abs)
  also have "\<dots> = a"
    by (metis abs_ge_zero div_mult_mod_eq sgn_mult_abs)
  finally show ?thesis .
qed


section \<open>Decimal text\<close>

definition digit_char :: "nat \<Rightarrow> char" where
  "digit_char d = char_of (48 + d)"

definition digit_val :: "char \<Rightarrow> nat option" where
  "digit_val c = (let n = of_char c in if 48 \<le> n \<and> n \<le> 57 then Some (n - 48) else None)"

lemma digit_val_char [simp]: "d < 10 \<Longrightarrow> digit_val (digit_char d) = Some d"
  by (simp add: digit_val_def digit_char_def Let_def)

fun nat_to_string :: "nat \<Rightarrow> string" where
  "nat_to_string n =
    (if n < 10 then [digit_char n] else nat_to_string (n div 10) @ [digit_char (n mod 10)])"

declare nat_to_string.simps [simp del]

fun digits_value :: "nat \<Rightarrow> string \<Rightarrow> nat option" where
  "digits_value acc [] = Some acc"
| "digits_value acc (c # cs) =
    (case digit_val c of None \<Rightarrow> None | Some d \<Rightarrow> digits_value (10 * acc + d) cs)"

definition parse_nat :: "string \<Rightarrow> nat option" where
  "parse_nat s = (if s = [] then None else digits_value 0 s)"

lemma digits_value_append:
  "digits_value acc (s @ t) =
    (case digits_value acc s of None \<Rightarrow> None | Some a \<Rightarrow> digits_value a t)"
  by (induction s arbitrary: acc) (auto split: option.splits)

lemma nat_to_string_not_Nil [simp]: "nat_to_string n \<noteq> []"
  by (subst nat_to_string.simps) simp

lemma digits_value_nat_to_string [simp, js_text]: "digits_value 0 (nat_to_string n) = Some n"
proof (induction n rule: nat_to_string.induct)
  case (1 n)
  show ?case
  proof (cases "n < 10")
    case True
    then show ?thesis by (subst nat_to_string.simps) simp
  next
    case False
    then show ?thesis
      using 1 by (subst nat_to_string.simps) (simp add: digits_value_append)
  qed
qed

lemma parse_nat_to_string [simp, js_text]: "parse_nat (nat_to_string n) = Some n"
  by (simp add: parse_nat_def)

lemma nat_to_string_inject [simp]: "nat_to_string m = nat_to_string n \<longleftrightarrow> m = n"
  by (metis option.inject parse_nat_to_string)

definition is_digit :: "char \<Rightarrow> bool" where
  "is_digit c = (digit_val c \<noteq> None)"

lemma is_digit_digit_char [simp]: "d < 10 \<Longrightarrow> is_digit (digit_char d)"
  by (simp add: is_digit_def)

lemma nat_to_string_digits: "c \<in> set (nat_to_string n) \<Longrightarrow> is_digit c"
proof (induction n rule: nat_to_string.induct)
  case (1 n)
  then show ?case
    by (subst (asm) (2) nat_to_string.simps) (auto split: if_splits)
qed

lemma nat_to_string_no_sign: "nat_to_string n \<noteq> CHR ''-'' # s"
proof
  assume "nat_to_string n = CHR ''-'' # s"
  then have "is_digit (CHR ''-'')"
    using nat_to_string_digits [of "CHR ''-''" n] by simp
  then show False
    by (simp add: is_digit_def digit_val_def)
qed

text \<open>\<open>bigint.toString()\<close>\<close>

definition int_to_string :: "int \<Rightarrow> string" where
  "int_to_string i =
    (if i < 0 then CHR ''-'' # nat_to_string (nat (- i)) else nat_to_string (nat i))"

lemma int_to_string_inject [simp]: "int_to_string i = int_to_string j \<longleftrightarrow> i = j"
  using nat_to_string_no_sign nat_to_string_no_sign [symmetric]
  by (auto simp: int_to_string_def split: if_splits)

text \<open>
  \<open>BigInt(s)\<close> of a string: white space is stripped, the empty string is 0, a
  prefix \<open>0x\<close>, \<open>0o\<close>, \<open>0b\<close> selects the base of an unsigned literal, otherwise
  a signed decimal; \<open>None\<close> is the \<open>SyntaxError\<close>.
\<close>

definition is_space :: "char \<Rightarrow> bool" where
  "is_space c = (of_char c \<in> {9, 10, 11, 12, 13, 32 :: nat})"

definition js_trim :: "string \<Rightarrow> string" where
  "js_trim s = rev (dropWhile is_space (rev (dropWhile is_space s)))"

definition hex_val :: "char \<Rightarrow> nat option" where
  "hex_val c = (let n = of_char c in
     if 48 \<le> n \<and> n \<le> 57 then Some (n - 48)
     else if 97 \<le> n \<and> n \<le> 102 then Some (n - 87)
     else if 65 \<le> n \<and> n \<le> 70 then Some (n - 55)
     else None)"

fun base_value :: "nat \<Rightarrow> nat \<Rightarrow> string \<Rightarrow> nat option" where
  "base_value b acc [] = Some acc"
| "base_value b acc (c # cs) =
    (case hex_val c of None \<Rightarrow> None
     | Some d \<Rightarrow> if d < b then base_value b (b * acc + d) cs else None)"

definition parse_base :: "nat \<Rightarrow> string \<Rightarrow> nat option" where
  "parse_base b s = (if s = [] then None else base_value b 0 s)"

definition parse_signed :: "string \<Rightarrow> int option" where
  "parse_signed s =
    (case s of
       [] \<Rightarrow> None
     | c # cs \<Rightarrow>
         if c = CHR ''-'' then map_option (\<lambda>n. - int n) (parse_nat cs)
         else if c = CHR ''+'' then map_option int (parse_nat cs)
         else map_option int (parse_nat s))"

definition big_int_of_string :: "string \<Rightarrow> int option" where
  "big_int_of_string s0 =
    (let s = js_trim s0 in
     if s = [] then Some 0
     else if take 2 s \<in> {''0x'', ''0X''} then map_option int (parse_base 16 (drop 2 s))
     else if take 2 s \<in> {''0o'', ''0O''} then map_option int (parse_base 8 (drop 2 s))
     else if take 2 s \<in> {''0b'', ''0B''} then map_option int (parse_base 2 (drop 2 s))
     else parse_signed s)"

lemma is_digit_not_space: "is_digit c \<Longrightarrow> \<not> is_space c"
  by (auto simp: is_digit_def digit_val_def is_space_def Let_def split: if_splits)

lemma js_trim_id:
  assumes "\<And>c. c \<in> set s \<Longrightarrow> \<not> is_space c"
  shows "js_trim s = s"
proof -
  have "dropWhile is_space t = t" if "set t \<subseteq> set s" for t
    using that assms by (cases t) auto
  then show ?thesis by (simp add: js_trim_def)
qed

lemma parse_signed_int_to_string [simp, js_text]: "parse_signed (int_to_string i) = Some i"
proof (cases "i < 0")
  case True
  then show ?thesis by (simp add: int_to_string_def parse_signed_def)
next
  case False
  obtain c cs where c: "nat_to_string (nat i) = c # cs"
    by (cases "nat_to_string (nat i)") auto
  then have "is_digit c"
    using nat_to_string_digits [of c "nat i"] by simp
  then have "c \<noteq> CHR ''-''" "c \<noteq> CHR ''+''"
    by (auto simp: is_digit_def digit_val_def)
  then show ?thesis
    using False c parse_nat_to_string [of "nat i"] by (simp add: int_to_string_def parse_signed_def)
qed

lemma int_to_string_chars: "c \<in> set (int_to_string i) \<Longrightarrow> is_digit c \<or> c = CHR ''-''"
  by (auto simp: int_to_string_def nat_to_string_digits split: if_splits)

lemma int_to_string_take2:
  assumes "\<not> is_digit c" "c \<noteq> CHR ''-''"
  shows "take 2 (int_to_string i) \<noteq> [d, c]"
proof
  assume "take 2 (int_to_string i) = [d, c]"
  then have "c \<in> set (int_to_string i)"
    by (metis in_set_takeD list.set_intros(1) list.set_intros(2))
  then show False
    using assms int_to_string_chars by blast
qed

lemma big_int_of_string_to_string [simp, js_text]: "big_int_of_string (int_to_string i) = Some i"
proof -
  have "\<not> is_space c" if "c \<in> set (int_to_string i)" for c
    using int_to_string_chars [OF that] is_digit_not_space by (auto simp: is_space_def)
  then have trim: "js_trim (int_to_string i) = int_to_string i"
    by (rule js_trim_id)
  have ne: "int_to_string i \<noteq> []"
    by (simp add: int_to_string_def)
  have pre: "take 2 (int_to_string i) \<noteq> [CHR ''0'', c]"
    if "c \<in> set ''xXoObB''" for c
    by (rule int_to_string_take2) (use that in \<open>auto simp: is_digit_def digit_val_def\<close>)
  show ?thesis
    using pre ne by (simp add: big_int_of_string_def trim Let_def)
qed


section \<open>Insertion-ordered maps\<close>

text \<open>
  A JavaScript \<open>Map\<close>: iteration follows the order in which keys were first
  set, \<open>set\<close> on a present key keeps its place.
\<close>

type_synonym ('k, 'v) jmap = "('k \<times> 'v) list"

definition jm_get :: "('k, 'v) jmap \<Rightarrow> 'k \<Rightarrow> 'v option" where
  "jm_get m k = map_of m k"

fun jm_set :: "('k, 'v) jmap \<Rightarrow> 'k \<Rightarrow> 'v \<Rightarrow> ('k, 'v) jmap" where
  "jm_set [] k v = [(k, v)]"
| "jm_set ((k', v') # m) k v = (if k' = k then (k, v) # m else (k', v') # jm_set m k v)"

definition jm_has :: "('k, 'v) jmap \<Rightarrow> 'k \<Rightarrow> bool" where
  "jm_has m k = (jm_get m k \<noteq> None)"

definition jm_values :: "('k, 'v) jmap \<Rightarrow> 'v list" where
  "jm_values m = map snd m"

definition jm_keys :: "('k, 'v) jmap \<Rightarrow> 'k list" where
  "jm_keys m = map fst m"

definition jm_inv :: "('k, 'v) jmap \<Rightarrow> bool" where
  "jm_inv m = distinct (map fst m)"

lemma jm_get_set [simp, jmap_simps]:
  "jm_get (jm_set m k v) k' = (if k' = k then Some v else jm_get m k')"
  by (induction m k v rule: jm_set.induct) (auto simp: jm_get_def)

lemma jm_get_Nil [simp]: "jm_get [] k = None"
  by (simp add: jm_get_def)

lemma jm_set_keys: "set (map fst (jm_set m k v)) = insert k (set (map fst m))"
  by (induction m k v rule: jm_set.induct) auto

lemma jm_inv_set [simp, jmap_simps]: "jm_inv m \<Longrightarrow> jm_inv (jm_set m k v)"
  unfolding jm_inv_def
proof (induction m k v rule: jm_set.induct)
  case (2 k' v' m k v)
  then show ?case using jm_set_keys [of m k v] by auto
qed simp

lemma jm_inv_Nil [simp]: "jm_inv []"
  by (simp add: jm_inv_def)

lemma jm_values_get: "jm_inv m \<Longrightarrow> v \<in> set (jm_values m) \<longleftrightarrow> (\<exists>k. jm_get m k = Some v)"
  by (force simp: jm_inv_def jm_values_def jm_get_def)

lemma jm_set_length:
  "length (jm_set m k v) = (if jm_has m k then length m else Suc (length m))"
  by (induction m k v rule: jm_set.induct) (auto simp: jm_has_def jm_get_def)


section \<open>Lists\<close>

text \<open>\<open>xs.find(p)\<close>\<close>

fun find_first :: "('a \<Rightarrow> bool) \<Rightarrow> 'a list \<Rightarrow> 'a option" where
  "find_first p [] = None"
| "find_first p (x # xs) = (if p x then Some x else find_first p xs)"

lemma find_first_Some: "find_first p xs = Some x \<Longrightarrow> x \<in> set xs \<and> p x"
  by (induction xs) (auto split: if_splits)

lemma find_first_None [simp]: "find_first p xs = None \<longleftrightarrow> (\<forall>x\<in>set xs. \<not> p x)"
  by (induction xs) auto

lemma find_first_unique:
  assumes "x \<in> set xs" "p x" "\<And>y. y \<in> set xs \<Longrightarrow> p y \<Longrightarrow> y = x"
  shows "find_first p xs = Some x"
proof (cases "find_first p xs")
  case None
  then show ?thesis using assms(1,2) by auto
next
  case (Some y)
  then show ?thesis using find_first_Some [OF Some] assms(3) by blast
qed


section \<open>Statements on a state that may throw\<close>

text \<open>
  A statement takes the state and returns its outcome and the state it leaves; what ran before a
  throw stays done, as without a transaction.
\<close>

type_synonym ('s, 'e, 'a) stmt = "'s \<Rightarrow> ('e, 'a) result \<times> 's"

definition andThen :: "('s, 'e, 'a) stmt \<Rightarrow> ('a \<Rightarrow> ('s, 'e, 'b) stmt) \<Rightarrow> ('s, 'e, 'b) stmt" where
  "andThen m f s = (case m s of (Inl e, s') \<Rightarrow> (Inl e, s') | (Inr a, s') \<Rightarrow> f a s')"

fun each :: "('a \<Rightarrow> ('s, 'e, unit) stmt) \<Rightarrow> 'a list \<Rightarrow> ('s, 'e, unit) stmt" where
  "each f [] s = (Inr (), s)"
| "each f (x # xs) s = andThen (f x) (\<lambda>_. each f xs) s"

lemma andThen_Inr [simp]: "fst (m s) = Inr a \<Longrightarrow> andThen m f s = f a (snd (m s))"
  by (cases "m s") (simp add: andThen_def)

lemma andThen_Inl [simp]: "fst (m s) = Inl e \<Longrightarrow> andThen m f s = (Inl e, snd (m s))"
  by (cases "m s") (simp add: andThen_def)

lemma andThen_inv:
  assumes "P s" "\<And>s. P s \<Longrightarrow> P (snd (m s))" "\<And>a s. P s \<Longrightarrow> P (snd (f a s))"
  shows "P (snd (andThen m f s))"
  using assms(2) [OF assms(1)] assms(3) by (auto simp: andThen_def split: prod.split sum.split)

lemma each_inv:
  assumes "P s" "\<And>x s. x \<in> set xs \<Longrightarrow> P s \<Longrightarrow> P (snd (f x s))"
  shows "P (snd (each f xs s))"
  using assms
proof (induction xs arbitrary: s)
  case (Cons x xs)
  have "P (snd (f x s))" using Cons.prems by simp
  then have "P (snd (each f xs (snd (f x s))))" using Cons.IH Cons.prems(2) by simp
  with \<open>P (snd (f x s))\<close> show ?case by (cases "f x s"; cases "fst (f x s)") simp_all
qed simp

lemma each_total:
  assumes "\<And>x s. x \<in> set xs \<Longrightarrow> fst (f x s) = Inr ()"
  shows "each f xs s = (Inr (), fold (\<lambda>x s. snd (f x s)) xs s)"
  using assms by (induction xs arbitrary: s) simp_all

end
