(* ===== verification/Streams.thy ===== *)
theory Streams
  imports Prelude
begin

text \<open>
  The voucher SDK of Shade Streams, \<open>packages/sdk/src/streams.ts\<close>: payer keys,
  vouchers, signing and verification, and the choice of the highest voucher.

  The circomlibjs primitives (Poseidon and EdDSA over Baby Jubjub) are not in
  the repository: they are the fields of \<open>eddsa_lib\<close>, an argument of every
  operation that calls them. \<open>eddsa_correct\<close> states what circomlibjs documents
  of them: a signature made with a private key verifies under the public key
  of that private key, and coordinates are reduced field elements.
\<close>

named_theorems stream_simps \<open>unfolding the stream agents\<close>

section \<open>Keys and vouchers\<close>

record eddsa_lib =
  poseidon :: "int list \<Rightarrow> int"
  prv2pub :: "bytes \<Rightarrow> int \<times> int"
  signPoseidon :: "bytes \<Rightarrow> int \<Rightarrow> (int \<times> int) \<times> int"
  verifyPoseidon :: "int \<Rightarrow> (int \<times> int) \<times> int \<Rightarrow> int \<times> int \<Rightarrow> bool"

record eddsa_keypair =
  k_prvKey :: bytes
  k_Ax :: int
  k_Ay :: int

record voucher =
  v_channelId :: int
  v_cumulative :: int
  v_seq :: jsnum
  v_R8x :: int
  v_R8y :: int
  v_S :: int
  v_Ax :: int
  v_Ay :: int

datatype streams_error = SeedLength | SeqRangeError

text \<open>The scalar field of BN254; \<open>F.e\<close> reduces into it.\<close>

definition bn254_r :: int where
  "bn254_r = 21888242871839275222246405745257275088548364400416034343698204186575808495617"

definition fe :: "int \<Rightarrow> int" where
  "fe x = x mod bn254_r"

definition field_elem :: "int \<Rightarrow> bool" where
  "field_elem x = (0 \<le> x \<and> x < bn254_r)"

lemma fe_id [simp]: "field_elem x \<Longrightarrow> fe x = x"
  by (simp add: fe_def field_elem_def)

definition eddsa_correct :: "eddsa_lib \<Rightarrow> bool" where
  "eddsa_correct lib =
    ((\<forall>prv m. verifyPoseidon lib m (signPoseidon lib prv m) (prv2pub lib prv)) \<and>
     (\<forall>prv. field_elem (fst (prv2pub lib prv)) \<and> field_elem (snd (prv2pub lib prv))) \<and>
     (\<forall>prv m. field_elem (fst (fst (signPoseidon lib prv m))) \<and>
              field_elem (snd (fst (signPoseidon lib prv m)))))"

text \<open>\<open>rnd\<close> is the outcome of \<open>randomBytes(32)\<close>.\<close>

definition generatePayerKey ::
  "eddsa_lib \<Rightarrow> bytes \<Rightarrow> bytes option \<Rightarrow> (streams_error, eddsa_keypair) result" where
  "generatePayerKey lib rnd seed =
    (let prvKey = (case seed of Some s \<Rightarrow> s | None \<Rightarrow> rnd) in
     if length prvKey \<noteq> 32 then Throw SeedLength
     else let pub = prv2pub lib prvKey in
       Ok \<lparr> k_prvKey = prvKey, k_Ax = fst pub, k_Ay = snd pub \<rparr>)"

definition voucherMessage ::
  "eddsa_lib \<Rightarrow> int \<Rightarrow> int \<Rightarrow> jsnum \<Rightarrow> (streams_error, int) result" where
  "voucherMessage lib channelId cumulative seq =
    (case num_BigInt seq of
       None \<Rightarrow> Throw SeqRangeError
     | Some s \<Rightarrow> Ok (poseidon lib [channelId, cumulative, s]))"

definition signVoucher ::
  "eddsa_lib \<Rightarrow> eddsa_keypair \<Rightarrow> int \<Rightarrow> int \<Rightarrow> jsnum \<Rightarrow> (streams_error, voucher) result" where
  "signVoucher lib key channelId cumulative seq =
    (case num_BigInt seq of
       None \<Rightarrow> Throw SeqRangeError
     | Some s \<Rightarrow>
         let msg = poseidon lib [channelId, cumulative, s];
             sig = signPoseidon lib (k_prvKey key) msg
         in Ok \<lparr> v_channelId = channelId, v_cumulative = cumulative, v_seq = seq,
                 v_R8x = fst (fst sig), v_R8y = snd (fst sig), v_S = snd sig,
                 v_Ax = k_Ax key, v_Ay = k_Ay key \<rparr>)"

definition verifyVoucher :: "eddsa_lib \<Rightarrow> voucher \<Rightarrow> (streams_error, bool) result" where
  "verifyVoucher lib v =
    (case num_BigInt (v_seq v) of
       None \<Rightarrow> Throw SeqRangeError
     | Some s \<Rightarrow>
         let msg = poseidon lib [v_channelId v, v_cumulative v, s];
             pub = (fe (v_Ax v), fe (v_Ay v));
             sig = ((fe (v_R8x v), fe (v_R8y v)), v_S v)
         in Ok (verifyPoseidon lib msg sig pub))"

lemma signVoucher_NInt [stream_simps]:
  "signVoucher lib key ch c (NInt s) =
    Ok (let sig = signPoseidon lib (k_prvKey key) (poseidon lib [ch, c, s]) in
        \<lparr> v_channelId = ch, v_cumulative = c, v_seq = NInt s,
          v_R8x = fst (fst sig), v_R8y = snd (fst sig), v_S = snd sig,
          v_Ax = k_Ax key, v_Ay = k_Ay key \<rparr>)"
  by (simp add: signVoucher_def Let_def)

text \<open>A key made by \<open>generatePayerKey\<close> carries the public key of its private key.\<close>

definition key_wf :: "eddsa_lib \<Rightarrow> eddsa_keypair \<Rightarrow> bool" where
  "key_wf lib key = ((k_Ax key, k_Ay key) = prv2pub lib (k_prvKey key))"

lemma generatePayerKey_wf:
  "generatePayerKey lib rnd seed = Ok key \<Longrightarrow> key_wf lib key \<and> length (k_prvKey key) = 32"
  by (auto simp: generatePayerKey_def key_wf_def Let_def split: if_splits option.splits)

lemma verify_signVoucher:
  assumes "eddsa_correct lib" "key_wf lib key" "signVoucher lib key ch c seq = Ok v"
  shows "verifyVoucher lib v = Ok True"
proof -
  let ?pub = "prv2pub lib (k_prvKey key)"
  have "field_elem (k_Ax key)" "field_elem (k_Ay key)"
    using assms(1,2) unfolding eddsa_correct_def key_wf_def by (metis fst_conv, metis snd_conv)
  moreover have "field_elem (fst (fst (signPoseidon lib p m)))"
    "field_elem (snd (fst (signPoseidon lib p m)))" for p m
    using assms(1) unfolding eddsa_correct_def by blast+
  moreover have "verifyPoseidon lib m (signPoseidon lib (k_prvKey key) m) (k_Ax key, k_Ay key)" for m
    using assms(1,2) unfolding eddsa_correct_def key_wf_def by metis
  ultimately show ?thesis
    using assms(3)
    by (auto simp: signVoucher_def verifyVoucher_def Let_def split: option.splits)
qed

text \<open>
  A concrete instance of the library, for evaluation: the signature of a
  message carries the message and the public key.
\<close>

definition demo_lib :: eddsa_lib where
  "demo_lib = \<lparr>
     poseidon = (\<lambda>xs. foldr (\<lambda>x h. fe (x + 31 * h)) xs 7),
     prv2pub = (\<lambda>prv. (fe (int (length prv)), 5)),
     signPoseidon = (\<lambda>prv m. ((fe m, fe (int (length prv))), m)),
     verifyPoseidon = (\<lambda>m sig pub. sig = ((fe m, fst pub), m) \<and> snd pub = 5) \<rparr>"

definition demo_key :: eddsa_keypair where
  "demo_key = \<lparr> k_prvKey = replicate 32 1, k_Ax = 32, k_Ay = 5 \<rparr>"

lemma field_elem_fe [simp]: "field_elem (fe x)"
  by (simp add: field_elem_def fe_def bn254_r_def)

lemma eddsa_correct_demo [simp]: "eddsa_correct demo_lib"
  by (simp add: eddsa_correct_def demo_lib_def) (simp add: field_elem_def bn254_r_def)

lemma demo_key_generated:
  "generatePayerKey demo_lib rnd (Some (replicate 32 1)) = Ok demo_key"
  by (simp add: generatePayerKey_def demo_key_def demo_lib_def fe_def bn254_r_def)


section \<open>The highest voucher\<close>

fun highest_loop :: "voucher option \<Rightarrow> voucher list \<Rightarrow> voucher option" where
  "highest_loop best [] = best"
| "highest_loop best (v # vs) =
    (case best of
       None \<Rightarrow> highest_loop (Some v) vs
     | Some b \<Rightarrow> highest_loop (if v_cumulative v > v_cumulative b then Some v else best) vs)"

definition highestVoucher :: "voucher list \<Rightarrow> voucher option" where
  "highestVoucher vouchers = highest_loop None vouchers"

lemma highest_loop_append:
  "highest_loop b (vs @ ws) = highest_loop (highest_loop b vs) ws"
  by (induction vs arbitrary: b) (auto split: option.split)

lemma highestVoucher_snoc:
  "highestVoucher (vs @ [v]) =
    (case highestVoucher vs of
       None \<Rightarrow> Some v
     | Some b \<Rightarrow> if v_cumulative v > v_cumulative b then Some v else Some b)"
  by (simp add: highestVoucher_def highest_loop_append split: option.split)

lemma highestVoucher_Nil [simp]: "highestVoucher [] = None"
  by (simp add: highestVoucher_def)

lemma highestVoucher_single [simp]: "highestVoucher [v] = Some v"
  by (simp add: highestVoucher_def)

lemma highestVoucher_None [simp]: "highestVoucher vs = None \<longleftrightarrow> vs = []"
  by (cases vs rule: rev_cases) (auto simp: highestVoucher_snoc split: option.splits)

lemma highestVoucher_max:
  "highestVoucher vs = Some b \<Longrightarrow>
    b \<in> set vs \<and> (\<forall>v\<in>set vs. v_cumulative v \<le> v_cumulative b)"
proof (induction vs arbitrary: b rule: rev_induct)
  case (snoc v vs)
  then show ?case
    by (cases "highestVoucher vs") (force simp: highestVoucher_snoc split: if_splits)+
qed simp

lemma highestVoucher_strict_mono:
  "sorted_wrt (<) (map v_cumulative vs) \<Longrightarrow> vs \<noteq> [] \<Longrightarrow> highestVoucher vs = Some (last vs)"
proof (induction vs rule: rev_induct)
  case (snoc v vs)
  then show ?case
    by (cases "vs = []")
       (auto simp: highestVoucher_snoc sorted_wrt_append split: option.split)
qed simp

text \<open>
  The first of the vouchers with the greatest cumulative is chosen: the ones
  before it are strictly lower.
\<close>

lemma highestVoucher_first:
  "highestVoucher vs = Some b \<Longrightarrow>
    \<exists>us ws. vs = us @ b # ws \<and> (\<forall>v\<in>set us. v_cumulative v < v_cumulative b)
            \<and> (\<forall>v\<in>set ws. v_cumulative v \<le> v_cumulative b)"
proof (induction vs arbitrary: b rule: rev_induct)
  case (snoc v vs)
  show ?case
  proof (cases "highestVoucher vs")
    case None
    then have "vs = []" "b = v" using snoc.prems by auto
    then show ?thesis by (intro exI [of _ "[]"]) simp
  next
    case (Some a)
    show ?thesis
    proof (cases "v_cumulative v > v_cumulative a")
      case True
      then have "b = v" using snoc.prems Some by (simp add: highestVoucher_snoc)
      then show ?thesis
        using highestVoucher_max [OF Some] True
        by (intro exI [of _ vs] exI [of _ "[]"]) force
    next
      case False
      then have "b = a" using snoc.prems Some by (simp add: highestVoucher_snoc)
      with snoc.IH [OF Some] obtain us ws where "vs = us @ b # ws"
        "\<forall>v\<in>set us. v_cumulative v < v_cumulative b" "\<forall>v\<in>set ws. v_cumulative v \<le> v_cumulative b"
        by blast
      with False \<open>b = a\<close> show ?thesis
        by (intro exI [of _ us] exI [of _ "ws @ [v]"]) auto
    qed
  qed
qed simp

end
