(* ===== verification/Agents.thy ===== *)
theory Agents
  imports Streams
begin

text \<open>
  The agent layer, \<open>packages/sdk/src/agents.ts\<close>: \<open>PayerAgent\<close> authorises payment
  up to a budget, \<open>PayeeAgent\<close> verifies vouchers and keeps the highest. Each
  class is a record of its private fields, each method a function from the
  agent to its outcome and the agent after the call; a method that throws
  keeps the assignments it made before.
\<close>

section \<open>PayerAgent\<close>

record payer_config =
  pc_key :: eddsa_keypair
  pc_channelId :: int
  pc_cap :: int
  pc_ratePerUnit :: int
  pc_budget :: int

record payer_agent =
  pa_cfg :: payer_config
  pa_cumulative :: int
  pa_seq :: int
  pa_paused :: bool

datatype payer_error =
    BudgetExceedsCap
  | PayerPaused
  | UnitsNotPositive
  | ExceedsBudget int int
  | ExceedsCap int int
  | SignFailed streams_error

definition new_PayerAgent :: "payer_config \<Rightarrow> (payer_error, payer_agent) result" where
  "new_PayerAgent cfg =
    (if pc_budget cfg > pc_cap cfg then Throw BudgetExceedsCap
     else Ok \<lparr> pa_cfg = cfg, pa_cumulative = 0, pa_seq = 0, pa_paused = False \<rparr>)"

definition pay ::
  "eddsa_lib \<Rightarrow> int \<Rightarrow> payer_agent \<Rightarrow> (payer_error, voucher) result \<times> payer_agent" where
  "pay lib units a =
    (if pa_paused a then (Throw PayerPaused, a)
     else if units \<le> 0 then (Throw UnitsNotPositive, a)
     else let cfg = pa_cfg a; nxt = pa_cumulative a + pc_ratePerUnit cfg * units in
       if nxt > pc_budget cfg then (Throw (ExceedsBudget nxt (pc_budget cfg)), a)
       else if nxt > pc_cap cfg then (Throw (ExceedsCap nxt (pc_cap cfg)), a)
       else let a' = a \<lparr> pa_cumulative := nxt, pa_seq := pa_seq a + 1 \<rparr> in
         (case signVoucher lib (pc_key cfg) (pc_channelId cfg) (pa_cumulative a') (NInt (pa_seq a')) of
            Inl e \<Rightarrow> (Throw (SignFailed e), a')
          | Inr v \<Rightarrow> (Ok v, a')))"

definition pause :: "payer_agent \<Rightarrow> payer_agent" where
  "pause a = a \<lparr> pa_paused := True \<rparr>"

definition resume :: "payer_agent \<Rightarrow> payer_agent" where
  "resume a = a \<lparr> pa_paused := False \<rparr>"

definition isPaused :: "payer_agent \<Rightarrow> bool" where
  "isPaused a = pa_paused a"

definition spent :: "payer_agent \<Rightarrow> int" where
  "spent a = pa_cumulative a"

definition remainingBudget :: "payer_agent \<Rightarrow> int" where
  "remainingBudget a = pc_budget (pa_cfg a) - pa_cumulative a"

text \<open>The method calls a client can make, and the step each of them is.\<close>

datatype payer_op = OpPay int | OpPause | OpResume

inductive payer_step ::
  "eddsa_lib \<Rightarrow> payer_agent \<Rightarrow> payer_op \<Rightarrow> voucher list \<Rightarrow> payer_agent \<Rightarrow> bool" where
  step_pay: "pay lib u a = (Ok v, a') \<Longrightarrow> payer_step lib a (OpPay u) [v] a'"
| step_pay_throws: "pay lib u a = (Throw e, a') \<Longrightarrow> payer_step lib a (OpPay u) [] a'"
| step_pause: "payer_step lib a OpPause [] (pause a)"
| step_resume: "payer_step lib a OpResume [] (resume a)"

inductive_cases payer_step_cases: "payer_step lib a op vs a'"

text \<open>A whole session: the vouchers issued, in order, by a sequence of calls.\<close>

inductive payer_trace ::
  "eddsa_lib \<Rightarrow> payer_agent \<Rightarrow> payer_op list \<Rightarrow> voucher list \<Rightarrow> payer_agent \<Rightarrow> bool" where
  trace_nil: "payer_trace lib a [] [] a"
| trace_snoc: "payer_trace lib a ops vs a' \<Longrightarrow> payer_step lib a' op ws a'' \<Longrightarrow>
    payer_trace lib a (ops @ [op]) (vs @ ws) a''"

text \<open>The same sessions, computed.\<close>

fun payer_run :: "eddsa_lib \<Rightarrow> payer_op list \<Rightarrow> payer_agent \<Rightarrow> voucher list \<times> payer_agent" where
  "payer_run lib [] a = ([], a)"
| "payer_run lib (OpPay u # ops) a =
    (case pay lib u a of
       (Inl e, a') \<Rightarrow> payer_run lib ops a'
     | (Inr v, a') \<Rightarrow> (let (vs, a'') = payer_run lib ops a' in (v # vs, a'')))"
| "payer_run lib (OpPause # ops) a = payer_run lib ops (pause a)"
| "payer_run lib (OpResume # ops) a = payer_run lib ops (resume a)"

lemma pay_throws_same: "pay lib u a = (Inl e, a') \<Longrightarrow> a' = a"
  by (auto simp: pay_def Let_def stream_simps split: if_splits)

lemma pay_ok:
  assumes "pay lib u a = (Inr v, a')"
  shows "\<not> pa_paused a" "0 < u"
    "pa_cfg a' = pa_cfg a" "pa_paused a' = pa_paused a"
    "pa_cumulative a' = pa_cumulative a + pc_ratePerUnit (pa_cfg a) * u"
    "pa_cumulative a' \<le> pc_budget (pa_cfg a)" "pa_cumulative a' \<le> pc_cap (pa_cfg a)"
    "pa_seq a' = pa_seq a + 1"
    "signVoucher lib (pc_key (pa_cfg a)) (pc_channelId (pa_cfg a)) (pa_cumulative a') (NInt (pa_seq a')) = Ok v"
  using assms by (auto simp: pay_def Let_def stream_simps split: if_splits)

lemma signVoucher_fields:
  assumes "signVoucher lib key ch c seq = Ok v"
  shows "v_channelId v = ch" "v_cumulative v = c" "v_seq v = seq" "v_Ax v = k_Ax key" "v_Ay v = k_Ay key"
  using assms by (auto simp: signVoucher_def Let_def split: option.splits)

lemma payer_step_run:
  "payer_step lib a op ws a' \<Longrightarrow> payer_run lib (op # ops) a =
    (ws @ fst (payer_run lib ops a'), snd (payer_run lib ops a'))"
  by (erule payer_step.cases) (auto split: prod.split)

lemma payer_step_total: "\<exists>ws a'. payer_step lib a op ws a'"
proof (cases op)
  case (OpPay u)
  then show ?thesis
    by (cases "pay lib u a"; cases "fst (pay lib u a)") (auto intro: payer_step.intros)
qed (auto intro: payer_step.intros)

lemma payer_run_append:
  "payer_run lib (ops @ ops') a =
    (fst (payer_run lib ops a) @ fst (payer_run lib ops' (snd (payer_run lib ops a))),
     snd (payer_run lib ops' (snd (payer_run lib ops a))))"
proof (induction ops arbitrary: a)
  case (Cons op ops)
  obtain ws a' where "payer_step lib a op ws a'"
    using payer_step_total by blast
  then show ?case
    using Cons by (simp add: payer_step_run)
qed simp

lemma payer_trace_run:
  "payer_trace lib a ops vs a' \<longleftrightarrow> payer_run lib ops a = (vs, a')"
proof
  assume "payer_trace lib a ops vs a'"
  then show "payer_run lib ops a = (vs, a')"
    by (induction rule: payer_trace.induct)
       (auto simp: payer_run_append payer_step_run [where ops = "[]", simplified])
next
  show "payer_run lib ops a = (vs, a') \<Longrightarrow> payer_trace lib a ops vs a'"
  proof (induction ops arbitrary: vs a' rule: rev_induct)
    case Nil
    then show ?case by (auto intro: trace_nil)
  next
    case (snoc op ops)
    obtain ws a'' where st: "payer_step lib (snd (payer_run lib ops a)) op ws a''"
      using payer_step_total by blast
    have "payer_trace lib a ops (fst (payer_run lib ops a)) (snd (payer_run lib ops a))"
      by (rule snoc.IH) simp
    from trace_snoc [OF this st] show ?case
      using snoc.prems payer_step_run [OF st, of "[]"] by (simp add: payer_run_append)
  qed
qed

text \<open>
  The session invariant: what the issued vouchers and the agent's private
  fields say to each other at every moment.
\<close>

definition payer_inv :: "eddsa_lib \<Rightarrow> payer_config \<Rightarrow> voucher list \<Rightarrow> payer_agent \<Rightarrow> bool" where
  "payer_inv lib cfg vs a =
    (pa_cfg a = cfg \<and> pc_budget cfg \<le> pc_cap cfg \<and>
     pa_seq a = int (length vs) \<and>
     pa_cumulative a = (if vs = [] then 0 else v_cumulative (last vs)) \<and>
     map v_seq vs = map NInt [1..int (length vs)] \<and>
     (\<forall>v\<in>set vs. v_cumulative v \<le> pc_budget cfg \<and> pc_ratePerUnit cfg dvd v_cumulative v \<and>
        signVoucher lib (pc_key cfg) (pc_channelId cfg) (v_cumulative v) (v_seq v) = Ok v) \<and>
     (0 < pc_ratePerUnit cfg \<longrightarrow> sorted_wrt (<) (0 # map v_cumulative vs)))"

lemma payer_inv_init: "new_PayerAgent cfg = Ok a \<Longrightarrow> payer_inv lib cfg [] a"
  by (auto simp: new_PayerAgent_def payer_inv_def split: if_splits)

lemma payer_inv_last_dvd:
  "payer_inv lib cfg vs a \<Longrightarrow> pc_ratePerUnit cfg dvd pa_cumulative a"
  by (auto simp: payer_inv_def)

lemma upto_snoc_int: "[1..1 + int n] = [1..int n] @ [1 + int n]"
  using upto_rec2 [of 1 "1 + int n"] by simp

lemma sorted_wrt_less_snoc:
  assumes "sorted_wrt (<) (x # xs)" "last (x # xs) < (y :: int)"
  shows "sorted_wrt (<) (x # xs @ [y])"
proof -
  have "z < y" if "z \<in> set (x # xs)" for z
  proof -
    have "z \<le> last (x # xs)"
      using that assms(1)
      by (induction xs arbitrary: x rule: rev_induct) (auto simp: sorted_wrt_append)
    with assms(2) show ?thesis by simp
  qed
  with assms(1) show ?thesis by (auto simp: sorted_wrt_append)
qed

lemma payer_inv_pay:
  assumes inv: "payer_inv lib cfg vs a" and p: "pay lib u a = (Inr v, a')"
  shows "payer_inv lib cfg (vs @ [v]) a'"
proof -
  note ok = pay_ok [OF p] and f = signVoucher_fields [OF pay_ok(9) [OF p]]
  have cfg: "pa_cfg a = cfg" using inv by (simp add: payer_inv_def)
  have mono: "0 < pc_ratePerUnit cfg \<longrightarrow> sorted_wrt (<) (0 # map v_cumulative (vs @ [v]))"
  proof
    assume pos: "0 < pc_ratePerUnit cfg"
    then have "pa_cumulative a < v_cumulative v"
      using ok(2,5) cfg f(2) by simp
    moreover have "last (0 # map v_cumulative vs) = pa_cumulative a"
      using inv by (auto simp: payer_inv_def last_map)
    moreover have "sorted_wrt (<) (0 # map v_cumulative vs)"
      using inv pos by (simp add: payer_inv_def)
    ultimately show "sorted_wrt (<) (0 # map v_cumulative (vs @ [v]))"
      using sorted_wrt_less_snoc [of 0 "map v_cumulative vs" "v_cumulative v"] by simp
  qed
  have dvd: "pc_ratePerUnit cfg dvd v_cumulative v"
    using payer_inv_last_dvd [OF inv] ok(5) cfg f(2) by simp
  show ?thesis
    using inv ok f dvd mono cfg unfolding payer_inv_def
    by (simp add: upto_snoc_int)
qed

lemma payer_inv_step:
  assumes "payer_inv lib cfg vs a" "payer_step lib a op ws a'"
  shows "payer_inv lib cfg (vs @ ws) a'"
  using assms(2,1)
proof cases
  case (step_pay u v)
  then show ?thesis using payer_inv_pay assms(1) by blast
next
  case (step_pay_throws u e)
  then show ?thesis using pay_throws_same [of lib u a e a'] assms(1) by simp
qed (use assms(1) in \<open>auto simp: payer_inv_def pause_def resume_def\<close>)

lemma payer_inv_trace:
  "payer_trace lib a ops vs a' \<Longrightarrow> payer_inv lib cfg [] a \<Longrightarrow> payer_inv lib cfg vs a'"
  by (induction rule: payer_trace.induct) (auto intro: payer_inv_step)


section \<open>PayeeAgent\<close>

record payee_config =
  ec_payerAx :: int
  ec_payerAy :: int
  ec_channelId :: int
  ec_cap :: int
  ec_ratePerUnit :: int

datatype receive_reason =
    WrongChannel
  | NotSignedByPayer
  | InvalidSignature
  | VoucherExceedsCap
  | Underpaid int int
  | StaleKeptBest

record receive_result =
  rr_accepted :: bool
  rr_reason :: "receive_reason option"

record payee_agent =
  pe_cfg :: payee_config
  pe_best :: "voucher option"
  pe_unitsServed :: int

definition new_PayeeAgent :: "payee_config \<Rightarrow> payee_agent" where
  "new_PayeeAgent cfg = \<lparr> pe_cfg = cfg, pe_best = None, pe_unitsServed = 0 \<rparr>"

definition reject :: "receive_reason \<Rightarrow> receive_result" where
  "reject r = \<lparr> rr_accepted = False, rr_reason = Some r \<rparr>"

definition receive ::
  "eddsa_lib \<Rightarrow> voucher \<Rightarrow> int \<Rightarrow> payee_agent \<Rightarrow>
     (streams_error, receive_result) result \<times> payee_agent" where
  "receive lib v totalUnitsServed e0 =
    (let e = e0 \<lparr> pe_unitsServed := totalUnitsServed \<rparr>; cfg = pe_cfg e in
     if v_channelId v \<noteq> ec_channelId cfg then (Ok (reject WrongChannel), e)
     else if v_Ax v \<noteq> ec_payerAx cfg \<or> v_Ay v \<noteq> ec_payerAy cfg then (Ok (reject NotSignedByPayer), e)
     else case verifyVoucher lib v of
       Inl err \<Rightarrow> (Throw err, e)
     | Inr valid \<Rightarrow>
         if \<not> valid then (Ok (reject InvalidSignature), e)
         else if v_cumulative v > ec_cap cfg then (Ok (reject VoucherExceedsCap), e)
         else let owed = ec_ratePerUnit cfg * totalUnitsServed in
           if v_cumulative v < owed then (Ok (reject (Underpaid (v_cumulative v) owed)), e)
           else if (case pe_best e of None \<Rightarrow> False | Some b \<Rightarrow> v_cumulative v \<le> v_cumulative b)
             then (Ok \<lparr> rr_accepted = True, rr_reason = Some StaleKeptBest \<rparr>, e)
           else (Ok \<lparr> rr_accepted = True, rr_reason = None \<rparr>, e \<lparr> pe_best := Some v \<rparr>))"

definition highest :: "payee_agent \<Rightarrow> voucher option" where
  "highest e = pe_best e"

definition shouldSettle :: "int \<Rightarrow> payee_agent \<Rightarrow> bool" where
  "shouldSettle threshold e =
    (case pe_best e of None \<Rightarrow> False | Some b \<Rightarrow> v_cumulative b \<ge> threshold)"

definition isUnderpaid :: "payee_agent \<Rightarrow> bool" where
  "isUnderpaid e =
    (let owed = ec_ratePerUnit (pe_cfg e) * pe_unitsServed e in
     (case pe_best e of None \<Rightarrow> 0 | Some b \<Rightarrow> v_cumulative b) < owed)"

fun payee_run :: "eddsa_lib \<Rightarrow> (voucher \<times> int) list \<Rightarrow> payee_agent \<Rightarrow> payee_agent" where
  "payee_run lib [] e = e"
| "payee_run lib ((v, u) # ins) e = payee_run lib ins (snd (receive lib v u e))"

text \<open>What the doc comment of \<open>receive\<close> promises: when a voucher is accepted. Its last item, that the voucher beats the best one
  so far, depends on the run and is what the maximum below expresses.\<close>

definition acceptable :: "eddsa_lib \<Rightarrow> payee_config \<Rightarrow> voucher \<times> int \<Rightarrow> bool" where
  "acceptable lib cfg = (\<lambda>(v, units).
     v_channelId v = ec_channelId cfg \<and>
     v_Ax v = ec_payerAx cfg \<and> v_Ay v = ec_payerAy cfg \<and>
     verifyVoucher lib v = Ok True \<and>
     v_cumulative v \<le> ec_cap cfg \<and>
     ec_ratePerUnit cfg * units \<le> v_cumulative v)"

lemma receive_acceptable:
  "acceptable lib (pe_cfg e) (v, u) \<longleftrightarrow>
    (\<exists>r. fst (receive lib v u e) = Ok r \<and> rr_accepted r)"
  by (auto simp: receive_def acceptable_def reject_def Let_def split: sum.splits option.splits)

lemma receive_state:
  "snd (receive lib v u e) =
    e \<lparr> pe_unitsServed := u,
       pe_best := (if acceptable lib (pe_cfg e) (v, u) then
                     (case pe_best e of
                        None \<Rightarrow> Some v
                      | Some b \<Rightarrow> if v_cumulative v > v_cumulative b then Some v else Some b)
                   else pe_best e) \<rparr>"
  by (auto simp: receive_def acceptable_def Let_def split: sum.splits option.splits)

lemma receive_cfg [simp]: "pe_cfg (snd (receive lib v u e)) = pe_cfg e"
  by (simp add: receive_state)

lemma payee_run_append:
  "payee_run lib (ins @ ins') e = payee_run lib ins' (payee_run lib ins e)"
  by (induction lib ins e rule: payee_run.induct) auto

lemma payee_run_cfg [simp]: "pe_cfg (payee_run lib ins e) = pe_cfg e"
  by (induction lib ins e rule: payee_run.induct) auto

lemma payee_run_highest:
  "pe_best (payee_run lib ins (new_PayeeAgent cfg)) =
    highestVoucher (map fst (filter (acceptable lib cfg) ins))"
proof (induction ins rule: rev_induct)
  case Nil
  show ?case by (simp add: new_PayeeAgent_def)
next
  case (snoc vu ins)
  obtain v u where "vu = (v, u)" by fastforce
  then show ?case
    using snoc
    by (auto simp: payee_run_append receive_state highestVoucher_snoc new_PayeeAgent_def
             split: option.splits)
qed

lemma payee_run_units:
  "pe_unitsServed (payee_run lib ins (new_PayeeAgent cfg)) = (if ins = [] then 0 else snd (last ins))"
  by (induction ins rule: rev_induct)
     (auto simp: payee_run_append receive_state new_PayeeAgent_def)


section \<open>A payer and its payee\<close>

text \<open>The payee's configuration for a payer's channel.\<close>

definition payee_for :: "payer_config \<Rightarrow> payee_config" where
  "payee_for c = \<lparr> ec_payerAx = k_Ax (pc_key c), ec_payerAy = k_Ay (pc_key c),
     ec_channelId = pc_channelId c, ec_cap = pc_cap c, ec_ratePerUnit = pc_ratePerUnit c \<rparr>"

lemma payer_inv_acceptable:
  assumes "eddsa_correct lib" "key_wf lib (pc_key cfg)" "payer_inv lib cfg vs a" "v \<in> set vs"
    "pc_ratePerUnit cfg * u \<le> v_cumulative v"
  shows "acceptable lib (payee_for cfg) (v, u)"
proof -
  have sv: "signVoucher lib (pc_key cfg) (pc_channelId cfg) (v_cumulative v) (v_seq v) = Ok v"
    and "v_cumulative v \<le> pc_cap cfg"
    using assms(3,4) by (auto simp: payer_inv_def)
  then show ?thesis
    using signVoucher_fields [OF sv] verify_signVoucher [OF assms(1,2) sv] assms(5)
    by (simp add: acceptable_def payee_for_def)
qed


section \<open>Properties\<close>

text \<open>C5: whatever a client does with a \<open>PayerAgent\<close> (pays, failed pays, pauses and
  resumes in any order), the vouchers it issues are numbered 1, 2, 3, ... without a gap, are for
  its channel, never authorise more than the budget nor the channel cap, \<open>spent()\<close> is the amount
  of the latest one, and with a positive rate their cumulative amounts strictly increase.\<close>

theorem payer_session_vouchers:
  assumes "new_PayerAgent cfg = Ok a0" "payer_trace lib a0 ops vs a"
  shows "map v_seq vs = map NInt [1..int (length vs)] \<and>
    (\<forall>v\<in>set vs. v_channelId v = pc_channelId cfg \<and>
       v_cumulative v \<le> pc_budget cfg \<and> v_cumulative v \<le> pc_cap cfg) \<and>
    spent a = (if vs = [] then 0 else v_cumulative (last vs)) \<and>
    (0 < pc_ratePerUnit cfg \<longrightarrow> sorted_wrt (<) (0 # map v_cumulative vs))"
proof -
  have inv: "payer_inv lib cfg vs a"
    using payer_inv_trace [OF assms(2)] payer_inv_init [OF assms(1)] by blast
  then have "v_channelId v = pc_channelId cfg" if "v \<in> set vs" for v
    using that signVoucher_fields(1) by (fastforce simp: payer_inv_def)
  with inv show ?thesis
    by (auto simp: payer_inv_def spent_def)
qed

definition demo_payer :: payer_config where
  "demo_payer = \<lparr> pc_key = demo_key, pc_channelId = 9, pc_cap = 100, pc_ratePerUnit = 7, pc_budget = 50 \<rparr>"

definition demo_agent :: payer_agent where
  "demo_agent = \<lparr> pa_cfg = demo_payer, pa_cumulative = 0, pa_seq = 0, pa_paused = False \<rparr>"

definition demo_ops :: "payer_op list" where
  "demo_ops = [OpPay 2, OpPause, OpPay 1, OpResume, OpPay 3, OpPay 9]"

definition demo_vouchers :: "voucher list" where
  "demo_vouchers = fst (payer_run demo_lib demo_ops demo_agent)"

definition demo_agent_end :: payer_agent where
  "demo_agent_end = snd (payer_run demo_lib demo_ops demo_agent)"

lemma demo_agent_new: "new_PayerAgent demo_payer = Ok demo_agent"
  by (simp add: new_PayerAgent_def demo_payer_def demo_agent_def)

lemma demo_trace: "payer_trace demo_lib demo_agent demo_ops demo_vouchers demo_agent_end"
  by (simp add: payer_trace_run demo_vouchers_def demo_agent_end_def)

lemma demo_vouchers_amounts: "map v_cumulative demo_vouchers = [14, 35]"
  by (simp add: demo_vouchers_def demo_ops_def demo_agent_def demo_payer_def pay_def pause_def
        resume_def stream_simps Let_def)

theorem payer_session_vouchers_witness:
  "map v_cumulative demo_vouchers = [14, 35] \<and> map v_seq demo_vouchers = map NInt [1..int (length demo_vouchers)] \<and>
   list_all (\<lambda>v. v_cumulative v \<le> 50) demo_vouchers"
  using payer_session_vouchers [OF demo_agent_new demo_trace] demo_vouchers_amounts
  by (simp add: demo_payer_def list_all_iff)

text \<open>C10: after any sequence of incoming vouchers, valid or not, stale, replayed or out of order,
  the voucher a \<open>PayeeAgent\<close> would settle is exactly the highest of those its documented acceptance
  rule admits (signed by the channel's payer, on the channel, within cap, covering the units served
  so far), the first such if amounts tie.\<close>

theorem payee_keeps_highest_acceptable:
  "highest (payee_run lib ins (new_PayeeAgent cfg)) =
    highestVoucher (map fst (filter (acceptable lib cfg) ins))"
  by (simp add: highest_def payee_run_highest)

text \<open>C11: a payee configured for a payer's channel accepts every voucher that payer issues, at the
  units it pays for; after the whole session it holds the payer's latest voucher, does not consider
  itself underpaid, and \<open>shouldSettle\<close> agrees with the payer's own \<open>spent()\<close>. This needs only that
  EdDSA signatures of the library verify.\<close>

theorem payer_to_payee_flow:
  assumes "eddsa_correct lib" "generatePayerKey lib rnd seed = Ok (pc_key cfg)"
    "new_PayerAgent cfg = Ok a0" "0 < pc_ratePerUnit cfg"
    "payer_trace lib a0 ops vs a" "vs \<noteq> []"
    "e = payee_run lib (map (\<lambda>v. (v, v_cumulative v div pc_ratePerUnit cfg)) vs) (new_PayeeAgent (payee_for cfg))"
  shows "(\<forall>v\<in>set vs. acceptable lib (payee_for cfg) (v, v_cumulative v div pc_ratePerUnit cfg)) \<and>
    highest e = Some (last vs) \<and> \<not> isUnderpaid e \<and> (shouldSettle t e \<longleftrightarrow> t \<le> spent a)"
proof -
  let ?u = "\<lambda>v. v_cumulative v div pc_ratePerUnit cfg"
  have inv: "payer_inv lib cfg vs a"
    using payer_inv_trace [OF assms(5)] payer_inv_init [OF assms(3)] by blast
  have key: "key_wf lib (pc_key cfg)"
    using generatePayerKey_wf [OF assms(2)] by simp
  have paid: "pc_ratePerUnit cfg * ?u v = v_cumulative v" if "v \<in> set vs" for v
    using inv that by (auto simp: payer_inv_def)
  have acc: "acceptable lib (payee_for cfg) (v, ?u v)" if "v \<in> set vs" for v
    using payer_inv_acceptable [OF assms(1) key inv that] paid [OF that] by simp
  then have flt: "filter (acceptable lib (payee_for cfg)) (map (\<lambda>v. (v, ?u v)) vs) = map (\<lambda>v. (v, ?u v)) vs"
    by (auto simp: filter_id_conv)
  have best: "pe_best e = Some (last vs)"
    using inv assms(4,6) highestVoucher_strict_mono [of vs]
    by (simp add: assms(7) payee_run_highest flt comp_def payer_inv_def)
  have "pe_unitsServed e = ?u (last vs)" "ec_ratePerUnit (pe_cfg e) = pc_ratePerUnit cfg"
    using assms(6) by (simp_all add: assms(7) payee_run_units last_map)
      (simp add: payee_for_def new_PayeeAgent_def)
  then have "\<not> isUnderpaid e"
    using paid [of "last vs"] assms(6) by (simp add: isUnderpaid_def best)
  then show ?thesis
    using acc best inv assms(6) by (simp add: highest_def shouldSettle_def spent_def payer_inv_def)
qed

theorem payer_to_payee_flow_witness:
  "map v_cumulative demo_vouchers = [14, 35] \<and>
   highest (payee_run demo_lib (map (\<lambda>v. (v, v_cumulative v div 7)) demo_vouchers)
     (new_PayeeAgent (payee_for demo_payer))) = Some (last demo_vouchers)"
proof -
  have rate: "pc_ratePerUnit demo_payer = 7" and key: "pc_key demo_payer = demo_key"
    by (simp_all add: demo_payer_def)
  have ne: "demo_vouchers \<noteq> []" using demo_vouchers_amounts by auto
  show ?thesis
    using payer_to_payee_flow [OF eddsa_correct_demo, of "[]" "Some (replicate 32 1)" demo_payer
        demo_agent demo_ops demo_vouchers demo_agent_end, OF _ demo_agent_new _ demo_trace ne refl]
      demo_key_generated demo_vouchers_amounts
    by (simp add: rate key)
qed

end
