(* ===== verification/Json.thy ===== *)
theory Json
  imports Prelude
begin

text \<open>
  The part of the JavaScript value world the services exchange: plain values,
  \<open>JSON.stringify\<close>, \<open>JSON.parse\<close>, the coercions \<open>BigInt(x)\<close>, \<open>Number(x)\<close>,
  \<open>String(x)\<close> the sources apply to parsed values, and base64. Objects keep their
  members in insertion order. Strings hold UTF-8 code units; a \<open>\<backslash>u\<close> escape is
  decoded to the UTF-8 form of its 16-bit code (surrogate pairs are not joined).
  A numeral that does not denote an integer is kept as its text (\<open>NFrac\<close>);
  integers are rounded to double precision as the language does.
\<close>

named_theorems json_simps \<open>member access on concrete objects\<close>

datatype jsval =
    VUndef
  | VNull
  | VBool bool
  | VNum jsnum
  | VStr string
  | VArr "jsval list"
  | VObj "(string \<times> jsval) list"


section \<open>Member access and truthiness\<close>

fun js_get :: "jsval \<Rightarrow> string \<Rightarrow> jsval" where
  "js_get (VObj ms) k = (case map_of ms k of None \<Rightarrow> VUndef | Some v \<Rightarrow> v)"
| "js_get _ k = VUndef"

fun truthy :: "jsval \<Rightarrow> bool" where
  "truthy VUndef = False"
| "truthy VNull = False"
| "truthy (VBool b) = b"
| "truthy (VNum n) = (n \<noteq> NInt 0 \<and> n \<noteq> NaN)"
| "truthy (VStr s) = (s \<noteq> [])"
| "truthy (VArr _) = True"
| "truthy (VObj _) = True"

text \<open>\<open>{ ...a, ...b }\<close>: later members replace earlier ones in place.\<close>

fun spread :: "(string \<times> jsval) list \<Rightarrow> (string \<times> jsval) list \<Rightarrow> (string \<times> jsval) list" where
  "spread ms [] = ms"
| "spread ms ((k, v) # ns) = spread (jm_set ms k v) ns"

lemma map_of_jm_set: "map_of (jm_set ms k v) = (map_of ms)(k \<mapsto> v)"
  by (induction ms k v rule: jm_set.induct) auto

lemma map_of_spread: "map_of (spread ms ns) = map_of ms ++ map_of (rev ns)"
  by (induction ms ns rule: spread.induct) (auto simp: map_of_jm_set map_add_def fun_eq_iff split: option.split)


section \<open>Numbers\<close>

fun bit_count :: "nat \<Rightarrow> nat" where
  "bit_count n = (if n = 0 then 0 else Suc (bit_count (n div 2)))"

declare bit_count.simps [simp del]

definition max_safe :: int where
  "max_safe = 9007199254740991"

text \<open>Round to 53 significant bits, ties to even; beyond the range of doubles: infinity.\<close>

definition double_of_int :: "int \<Rightarrow> jsnum" where
  "double_of_int i =
    (if \<bar>i\<bar> \<le> max_safe then NInt i
     else let n = nat \<bar>i\<bar>; k = bit_count n - 53; q = n div 2 ^ k; r = n mod 2 ^ k; half = 2 ^ (k - 1);
              q' = (if r > half \<or> r = half \<and> odd q then q + 1 else q);
              m = int (q' * 2 ^ k)
          in if m \<ge> 2 ^ 1024 then NFrac (if i < 0 then ''-Infinity'' else ''Infinity'')
             else NInt (sgn i * m))"

lemma double_of_int_safe [simp]: "\<bar>i\<bar> \<le> max_safe \<Longrightarrow> double_of_int i = NInt i"
  by (simp add: double_of_int_def)

text \<open>A decimal numeral \<open>m * 10 ^ e\<close>, with its text in case it is no integer.\<close>

definition number_of_decimal :: "int \<Rightarrow> int \<Rightarrow> string \<Rightarrow> jsnum" where
  "number_of_decimal m e txt =
    (if 0 \<le> e then double_of_int (m * 10 ^ nat e)
     else if 10 ^ nat (- e) dvd m then double_of_int (m div 10 ^ nat (- e))
     else NFrac txt)"


section \<open>JSON.stringify\<close>

definition hex_digit :: "nat \<Rightarrow> char" where
  "hex_digit d = (if d < 10 then char_of (48 + d) else char_of (87 + d))"

definition escape_char :: "char \<Rightarrow> string" where
  "escape_char c = (let n = of_char c :: nat in
     if n = 34 then [CHR 0x5C, CHR 0x22]
     else if n = 92 then [CHR 0x5C, CHR 0x5C]
     else if n = 8 then [CHR 0x5C, CHR ''b'']
     else if n = 9 then [CHR 0x5C, CHR ''t'']
     else if n = 10 then [CHR 0x5C, CHR ''n'']
     else if n = 12 then [CHR 0x5C, CHR ''f'']
     else if n = 13 then [CHR 0x5C, CHR ''r'']
     else if n < 32 then [CHR 0x5C, CHR ''u'', CHR ''0'', CHR ''0'', hex_digit (n div 16), hex_digit (n mod 16)]
     else [c])"

definition quote :: "string \<Rightarrow> string" where
  "quote s = CHR 0x22 # concat (map escape_char s) @ [CHR 0x22]"

fun num_text :: "jsnum \<Rightarrow> string" where
  "num_text (NInt i) = int_to_string i"
| "num_text (NFrac s) = s"
| "num_text NaN = ''null''"

fun sep_by :: "string list \<Rightarrow> string" where
  "sep_by [] = []"
| "sep_by [x] = x"
| "sep_by (x # y # ys) = x @ CHR '','' # sep_by (y # ys)"

fun stringify :: "jsval \<Rightarrow> string" where
  "stringify VUndef = ''null''"
| "stringify VNull = ''null''"
| "stringify (VBool b) = (if b then ''true'' else ''false'')"
| "stringify (VNum n) = num_text n"
| "stringify (VStr s) = quote s"
| "stringify (VArr vs) = CHR ''['' # sep_by (map stringify vs) @ '']''"
| "stringify (VObj ms) =
    CHR ''{'' # sep_by (map (\<lambda>(k, t). quote k @ CHR '':'' # t)
      (map (map_prod id stringify) (filter (\<lambda>m. snd m \<noteq> VUndef) ms))) @ ''}''"


section \<open>JSON.parse\<close>

fun skip_ws :: "string \<Rightarrow> string" where
  "skip_ws [] = []"
| "skip_ws (c # cs) = (if of_char c \<in> {9, 10, 13, 32 :: nat} then skip_ws cs else c # cs)"

text \<open>The UTF-8 form of a 16-bit code.\<close>

definition utf8_code :: "nat \<Rightarrow> string" where
  "utf8_code n =
    (if n < 128 then [char_of n]
     else if n < 2048 then [char_of (192 + n div 64), char_of (128 + n mod 64)]
     else [char_of (224 + n div 4096), char_of (128 + n div 64 mod 64), char_of (128 + n mod 64)])"

definition simple_escape :: "char \<Rightarrow> char option" where
  "simple_escape c =
    (if c = CHR 0x22 then Some (CHR 0x22) else if c = CHR 0x5C then Some (CHR 0x5C)
     else if c = CHR ''/'' then Some (CHR ''/'') else if c = CHR ''b'' then Some (CHR 0x08)
     else if c = CHR ''f'' then Some (CHR 0x0C) else if c = CHR ''n'' then Some (CHR 0x0A)
     else if c = CHR ''r'' then Some (CHR 0x0D) else if c = CHR ''t'' then Some (CHR 0x09)
     else None)"

text \<open>The rest of a string literal after its opening quote.\<close>

fun parse_chars :: "string \<Rightarrow> (string \<times> string) option" where
  "parse_chars [] = None"
| "parse_chars (c # cs) =
    (if c = CHR 0x22 then Some ([], cs)
     else if c = CHR 0x5C then
       (case cs of
          [] \<Rightarrow> None
        | d # ds \<Rightarrow>
            if d = CHR ''u'' then
              (case parse_base 16 (take 4 ds) of
                 None \<Rightarrow> None
               | Some n \<Rightarrow>
                   if length (take 4 ds) < 4 then None
                   else map_option (\<lambda>(s, r). (utf8_code n @ s, r)) (parse_chars (drop 4 ds)))
            else (case simple_escape d of
                    None \<Rightarrow> None
                  | Some x \<Rightarrow> map_option (apfst (\<lambda>s. x # s)) (parse_chars ds)))
     else if (of_char c :: nat) < 32 then None
     else map_option (apfst (\<lambda>s. c # s)) (parse_chars cs))"

text \<open>A numeral: sign, integer part without leading zeros, fraction, exponent.\<close>

definition parse_frac :: "string \<Rightarrow> (string \<times> string) option" where
  "parse_frac s =
    (case s of
       c # cs \<Rightarrow> if c = CHR ''.'' then
           (let ds = takeWhile is_digit cs in
            if ds = [] then None else Some (ds, dropWhile is_digit cs))
         else Some ([], s)
     | [] \<Rightarrow> Some ([], s))"

definition parse_exp :: "string \<Rightarrow> (int \<times> string) option" where
  "parse_exp s =
    (case s of
       c # cs \<Rightarrow> if c = CHR ''e'' \<or> c = CHR ''E'' then
           (let neg = (case cs of d # _ \<Rightarrow> d = CHR ''-'' | [] \<Rightarrow> False);
                cs' = (case cs of d # ds \<Rightarrow> if d = CHR ''-'' \<or> d = CHR ''+'' then ds else cs | [] \<Rightarrow> []);
                ds = takeWhile is_digit cs'
            in case parse_nat ds of
                 None \<Rightarrow> None
               | Some e \<Rightarrow> Some (if neg then - int e else int e, dropWhile is_digit cs'))
         else Some (0, s)
     | [] \<Rightarrow> Some (0, s))"

definition parse_unsigned :: "bool \<Rightarrow> string \<Rightarrow> (jsnum \<times> string) option" where
  "parse_unsigned neg s =
    (let ip = takeWhile is_digit s; r0 = dropWhile is_digit s in
     if ip = [] \<or> (length ip > 1 \<and> hd ip = CHR ''0'') then None
     else case parse_frac r0 of
       None \<Rightarrow> None
     | Some (fp, r1) \<Rightarrow>
         (case parse_exp r1 of
            None \<Rightarrow> None
          | Some (e, r2) \<Rightarrow>
              (case parse_nat (ip @ fp) of
                 None \<Rightarrow> None
               | Some m \<Rightarrow> Some (number_of_decimal (if neg then - int m else int m) (e - int (length fp))
                    ((if neg then ''-'' else []) @ take (length s - length r2) s), r2))))"

definition parse_num :: "string \<Rightarrow> (jsnum \<times> string) option" where
  "parse_num s =
    (case s of
       [] \<Rightarrow> None
     | c # cs \<Rightarrow> if c = CHR ''-'' then parse_unsigned True cs else parse_unsigned False s)"

definition expect :: "string \<Rightarrow> 'a \<Rightarrow> string \<Rightarrow> ('a \<times> string) option" where
  "expect lit v s = (if take (length lit) s = lit then Some (v, drop (length lit) s) else None)"

text \<open>The fuel bounds nesting and length; the text's length always suffices.\<close>

fun parse_value :: "nat \<Rightarrow> string \<Rightarrow> (jsval \<times> string) option"
and parse_elems :: "nat \<Rightarrow> string \<Rightarrow> (jsval list \<times> string) option"
and parse_members :: "nat \<Rightarrow> string \<Rightarrow> ((string \<times> jsval) list \<times> string) option" where
  "parse_value 0 s = None"
| "parse_value (Suc n) s0 =
    (case skip_ws s0 of
       [] \<Rightarrow> None
     | c # cs \<Rightarrow>
         if c = CHR 0x22 then map_option (apfst VStr) (parse_chars cs)
         else if c = CHR ''['' then
           (case skip_ws cs of
              [] \<Rightarrow> None
            | d # ds \<Rightarrow> if d = CHR '']'' then Some (VArr [], ds)
                else map_option (apfst VArr) (parse_elems n (d # ds)))
         else if c = CHR ''{'' then
           (case skip_ws cs of
              [] \<Rightarrow> None
            | d # ds \<Rightarrow> if d = CHR ''}'' then Some (VObj [], ds)
                else map_option (apfst (\<lambda>ms. VObj (spread [] ms))) (parse_members n (d # ds)))
         else if c = CHR ''t'' then expect ''true'' (VBool True) (c # cs)
         else if c = CHR ''f'' then expect ''false'' (VBool False) (c # cs)
         else if c = CHR ''n'' then expect ''null'' VNull (c # cs)
         else map_option (apfst VNum) (parse_num (c # cs)))"
| "parse_elems 0 s = None"
| "parse_elems (Suc n) s =
    (case parse_value n s of
       None \<Rightarrow> None
     | Some (v, r) \<Rightarrow>
         (case skip_ws r of
            [] \<Rightarrow> None
          | c # cs \<Rightarrow>
              if c = CHR '']'' then Some ([v], cs)
              else if c = CHR '','' then map_option (apfst (\<lambda>vs. v # vs)) (parse_elems n cs)
              else None))"
| "parse_members 0 s = None"
| "parse_members (Suc n) s =
    (case skip_ws s of
       [] \<Rightarrow> None
     | q # qs \<Rightarrow>
       if q \<noteq> CHR 0x22 then None
       else case parse_chars qs of
         None \<Rightarrow> None
       | Some (k, r0) \<Rightarrow>
         (case skip_ws r0 of
            [] \<Rightarrow> None
          | p # ps \<Rightarrow>
            if p \<noteq> CHR '':'' then None
            else case parse_value n ps of
              None \<Rightarrow> None
            | Some (v, r) \<Rightarrow>
              (case skip_ws r of
                 [] \<Rightarrow> None
               | c # cs \<Rightarrow>
                   if c = CHR ''}'' then Some ([(k, v)], cs)
                   else if c = CHR '','' then map_option (apfst (\<lambda>ms. (k, v) # ms)) (parse_members n cs)
                   else None)))"

definition json_parse :: "string \<Rightarrow> jsval option" where
  "json_parse s =
    (case parse_value (Suc (length s)) s of
       None \<Rightarrow> None
     | Some (v, r) \<Rightarrow> if skip_ws r = [] then Some v else None)"


section \<open>Round trip\<close>

text \<open>Values that JSON can carry without loss.\<close>

fun json_pure :: "jsval \<Rightarrow> bool" where
  "json_pure VUndef = False"
| "json_pure VNull = True"
| "json_pure (VBool _) = True"
| "json_pure (VNum n) = (case n of NInt i \<Rightarrow> \<bar>i\<bar> \<le> max_safe | _ \<Rightarrow> False)"
| "json_pure (VStr _) = True"
| "json_pure (VArr vs) = list_all json_pure vs"
| "json_pure (VObj ms) = (distinct (map fst ms) \<and> list_all json_pure (map snd ms))"

definition follow :: "string \<Rightarrow> bool" where
  "follow r = (r = [] \<or> hd r \<in> {CHR '','', CHR '']'', CHR ''}''})"

lemma follow_skip_ws [simp]: "follow r \<Longrightarrow> skip_ws r = r"
  by (cases r) (auto simp: follow_def)

lemma skip_ws_length: "length (skip_ws s) \<le> length s"
  by (induction s) auto

lemma follow_simps [simp]:
  "follow []" "follow (CHR '','' # r)" "follow (CHR '']'' # r)" "follow (CHR ''}'' # r)"
  by (simp_all add: follow_def)

lemma hex_val_digit [simp]: "d < 16 \<Longrightarrow> hex_val (hex_digit d) = Some d"
  by (auto simp: hex_val_def hex_digit_def Let_def)

lemma hex_val_zero [simp]: "hex_val CHR ''0'' = Some 0"
  by (simp add: hex_val_def)

lemma parse_chars_escape:
  "parse_chars (escape_char c @ t) = map_option (apfst (\<lambda>s. c # s)) (parse_chars t)"
proof -
  define n :: nat where "n = of_char c"
  have c: "c = char_of n" by (simp add: n_def)
  have lt: "n < 256" by (simp add: n_def)
  consider "n \<in> {34, 92, 8, 9, 10, 12, 13}" | "n < 32" "n \<notin> {8, 9, 10, 12, 13}"
    | "32 \<le> n" "n \<notin> {34, 92}"
    by force
  then show ?thesis
  proof cases
    case 1
    then have "c \<in> {CHR 0x22, CHR 0x5C, CHR 0x08, CHR 0x09, CHR 0x0A, CHR 0x0C, CHR 0x0D}"
      unfolding n_def of_char_eq_iff [of c, where 'a = nat, symmetric] insert_iff empty_iff
      by simp
    then show ?thesis
      by (elim insertE emptyE) (simp_all add: escape_char_def simple_escape_def Let_def)
  next
    case 2
    have hx: "parse_base 16 [CHR ''0'', CHR ''0'', hex_digit (n div 16), hex_digit (n mod 16)] = Some n"
      using 2 by (simp add: parse_base_def)
    show ?thesis
      using 2 lt by (simp add: c escape_char_def Let_def hx utf8_code_def apfst_def map_prod_def case_prod_unfold)
  next
    case 3
    then have "c \<noteq> CHR 0x22" "c \<noteq> CHR 0x5C"
      by (auto simp: n_def)
    with 3 show ?thesis
      by (auto simp: escape_char_def Let_def n_def [symmetric])
  qed
qed

declare parse_chars.simps(2) [simp del]

lemma parse_chars_close [simp]: "parse_chars (CHR 0x22 # r) = Some ([], r)"
  by (simp add: parse_chars.simps)

lemma parse_chars_quote: "parse_chars (concat (map escape_char s) @ CHR 0x22 # r) = Some (s, r)"
  by (induction s) (auto simp: parse_chars_escape)

lemma nat_to_string_hd_zero:
  "length (nat_to_string n) > 1 \<Longrightarrow> hd (nat_to_string n) \<noteq> CHR ''0''"
proof (induction n rule: nat_to_string.induct)
  case (1 n)
  have ge: "\<not> n < 10"
    using 1(2) by (subst (asm) nat_to_string.simps) (auto split: if_splits)
  then have eq: "nat_to_string n = nat_to_string (n div 10) @ [digit_char (n mod 10)]"
    by (subst nat_to_string.simps) simp
  show ?case
  proof (cases "n div 10 < 10")
    case True
    then have "nat_to_string (n div 10) = [digit_char (n div 10)]"
      by (subst nat_to_string.simps) simp
    moreover have "digit_char (n div 10) \<noteq> CHR ''0''"
    proof
      assume "digit_char (n div 10) = CHR ''0''"
      then have "digit_val (CHR ''0'') = Some (n div 10)"
        using digit_val_char [of "n div 10"] True by simp
      then show False using ge by (simp add: digit_val_def)
    qed
    ultimately show ?thesis by (simp add: eq)
  next
    case False
    then have "length (nat_to_string (n div 10)) > 1"
      by (subst nat_to_string.simps) simp
    then show ?thesis using 1(1) ge eq by (simp add: hd_append)
  qed
qed

lemma parse_unsigned_text:
  assumes "follow r" "int n \<le> max_safe"
  shows "parse_unsigned neg (nat_to_string n @ r) = Some (NInt (if neg then - int n else int n), r)"
proof -
  have dig: "\<forall>c\<in>set (nat_to_string n). is_digit c"
    using nat_to_string_digits by blast
  have r: "takeWhile is_digit r = []" "dropWhile is_digit r = r"
    using assms(1) by (cases r; auto simp: follow_def is_digit_def digit_val_def)+
  have tw: "takeWhile is_digit (nat_to_string n @ r) = nat_to_string n"
    "dropWhile is_digit (nat_to_string n @ r) = r"
    using dig r by auto
  have fr: "parse_frac r = Some ([], r)" "parse_exp r = Some (0, r)"
    using assms(1) by (cases r; auto simp: follow_def parse_frac_def parse_exp_def)+
  show ?thesis
    using nat_to_string_hd_zero [of n] assms(2)
    by (auto simp: parse_unsigned_def tw fr Let_def number_of_decimal_def)
qed

lemma parse_num_text:
  assumes "follow r" "\<bar>i\<bar> \<le> max_safe"
  shows "parse_num (int_to_string i @ r) = Some (NInt i, r)"
proof (cases "i < 0")
  case True
  then show ?thesis
    using parse_unsigned_text [OF assms(1), of "nat (- i)" True] assms(2)
    by (simp add: parse_num_def int_to_string_def)
next
  case False
  obtain c cs where c: "nat_to_string (nat i) = c # cs"
    by (cases "nat_to_string (nat i)") auto
  then have "c \<noteq> CHR ''-''"
    using nat_to_string_no_sign by metis
  then show ?thesis
    using parse_unsigned_text [OF assms(1), of "nat i" False] assms(2) False c
    by (simp add: parse_num_def int_to_string_def)
qed

text \<open>The first character of a text decides which branch of the parser runs.\<close>

lemma int_to_string_hd:
  obtains c cs where "int_to_string i = c # cs" "is_digit c \<or> c = CHR ''-''"
  by (metis int_to_string_chars int_to_string_def list.exhaust list.set_intros(1) list.simps(3)
      nat_to_string_not_Nil)

lemma stringify_hd:
  assumes "json_pure v"
  obtains c cs where "stringify v = c # cs" "skip_ws (c # cs) = c # cs" "c \<noteq> CHR '']''"
proof -
  have num: "of_char c \<notin> {9, 10, 13, 32 :: nat} \<and> c \<noteq> CHR '']''" if "is_digit c \<or> c = CHR ''-''" for c
    using that by (auto simp: is_digit_def digit_val_def Let_def split: if_splits)
  have "\<exists>c cs. stringify v = c # cs \<and> skip_ws (c # cs) = c # cs \<and> c \<noteq> CHR '']''"
  proof (cases v)
    case (VNum n)
    with assms obtain i where "n = NInt i" by (auto split: jsnum.splits)
    with VNum num show ?thesis by (cases rule: int_to_string_hd [of i]) auto
  qed (use assms in \<open>auto simp: quote_def\<close>)
  then show ?thesis using that by blast
qed

lemma stringify_length [simp]: "0 < length (stringify v)" if "json_pure v"
  using that by (rule stringify_hd) simp

definition reads_back :: "jsval \<Rightarrow> bool" where
  "reads_back v \<longleftrightarrow> (\<forall>n r. follow r \<longrightarrow> length (stringify v) \<le> n \<longrightarrow>
     parse_value n (stringify v @ r) = Some (v, r))"

lemma reads_backD:
  "reads_back v \<Longrightarrow> follow r \<Longrightarrow> length (stringify v) \<le> n \<Longrightarrow>
    parse_value n (stringify v @ r) = Some (v, r)"
  by (simp add: reads_back_def)

lemma parse_elems_text:
  assumes "\<forall>v\<in>set vs. reads_back v" "vs \<noteq> []" "length (sep_by (map stringify vs)) < n"
  shows "parse_elems n (sep_by (map stringify vs) @ CHR '']'' # r) = Some (vs, r)"
  using assms
proof (induction vs arbitrary: n)
  case (Cons v vs)
  then obtain m where n: "n = Suc m" by (cases n) auto
  show ?case
  proof (cases vs)
    case Nil
    then show ?thesis using Cons.prems by (simp add: n reads_backD)
  next
    case (Cons w ws)
    then show ?thesis using Cons.prems Cons.IH [of m] by (simp add: n reads_backD)
  qed
qed simp

abbreviation member_text :: "string \<times> jsval \<Rightarrow> string" where
  "member_text m \<equiv> quote (fst m) @ CHR '':'' # stringify (snd m)"

lemma parse_members_text:
  assumes "\<forall>m\<in>set ms. reads_back (snd m)" "ms \<noteq> []" "length (sep_by (map member_text ms)) < n"
  shows "parse_members n (sep_by (map member_text ms) @ CHR ''}'' # r) = Some (ms, r)"
  using assms
proof (induction ms arbitrary: n)
  case (Cons m ms)
  obtain k v where m: "m = (k, v)" by fastforce
  from Cons.prems obtain j where n: "n = Suc j" by (cases n) auto
  show ?case
  proof (cases ms)
    case Nil
    then show ?thesis using Cons.prems
      by (simp add: n m quote_def parse_chars_quote reads_backD)
  next
    case (Cons w ws)
    then show ?thesis using Cons.prems Cons.IH [of j]
      by (simp add: n m quote_def parse_chars_quote reads_backD)
  qed
qed simp

lemma jm_set_new: "k \<notin> fst ` set ms \<Longrightarrow> jm_set ms k v = ms @ [(k, v)]"
  by (induction ms k v rule: jm_set.induct) auto

lemma spread_distinct:
  "distinct (map fst (acc @ ms)) \<Longrightarrow> spread acc ms = acc @ ms"
proof (induction acc ms rule: spread.induct)
  case (2 acc k v ns)
  then show ?case by (auto simp: jm_set_new)
qed simp

lemma reads_back_pure: "json_pure v \<Longrightarrow> reads_back v"
proof (induction v)
  case (VNum n)
  then obtain i where i: "n = NInt i" "\<bar>i\<bar> \<le> max_safe" by (auto split: jsnum.splits)
  obtain c cs where c: "int_to_string i = c # cs" "is_digit c \<or> c = CHR ''-''"
    by (rule int_to_string_hd)
  then have "skip_ws (c # t) = c # t" "c \<notin> set [CHR 0x22, CHR ''['', CHR ''{'', CHR ''t'', CHR ''f'', CHR ''n'']" for t
    by (auto simp: is_digit_def digit_val_def Let_def split: if_splits)
  then show ?case
    using c(1) parse_num_text [OF _ i(2)]
    by (auto simp: reads_back_def i(1) dest!: Suc_le_D simp del: skip_ws.simps)
next
  case (VStr s)
  then show ?case
    by (auto simp: reads_back_def quote_def parse_chars_quote dest!: Suc_le_D)
next
  case (VArr vs)
  then have rb: "\<forall>v\<in>set vs. reads_back v" by (simp add: list_all_iff)
  show ?case
  proof (cases vs)
    case Nil
    then show ?thesis by (auto simp: reads_back_def dest!: Suc_le_D)
  next
    case (Cons w ws)
    have "json_pure w" using VArr.prems Cons by simp
    then obtain c cs where c: "stringify w = c # cs" "skip_ws (c # cs) = c # cs" "c \<noteq> CHR '']''"
      by (rule stringify_hd)
    have nws: "skip_ws (c # t) = c # t" for t
      using c(2) skip_ws_length [of cs] by (auto split: if_splits)
    then obtain t where sep: "sep_by (map stringify vs) = c # t"
      using Cons c(1) by (cases ws) auto
    show ?thesis
      unfolding reads_back_def
    proof (intro allI impI)
      fix n r assume "follow r" and len: "length (stringify (VArr vs)) \<le> n"
      then obtain j where j: "n = Suc j" by (cases n) auto
      have "parse_elems j (sep_by (map stringify vs) @ CHR '']'' # r) = Some (vs, r)"
        by (rule parse_elems_text [OF rb]) (use len j Cons in auto)
      then show "parse_value n (stringify (VArr vs) @ r) = Some (VArr vs, r)"
        using sep nws c(3) by (simp add: j)
    qed
  qed
next
  case (VObj ms)
  have rb: "\<forall>m\<in>set ms. reads_back (snd m)"
    using VObj by (fastforce simp: list_all_iff)
  have defd: "filter (\<lambda>m. snd m \<noteq> VUndef) ms = ms"
    using VObj.prems by (auto simp: filter_id_conv list_all_iff)
  have shape: "stringify (VObj ms) = CHR ''{'' # sep_by (map member_text ms) @ ''}''"
    by (simp add: defd comp_def case_prod_unfold del: stringify.simps(1-6))
  show ?case
  proof (cases ms)
    case Nil
    then show ?thesis by (auto simp: reads_back_def dest!: Suc_le_D)
  next
    case (Cons w ws)
    obtain t where sep: "sep_by (map member_text ms) = CHR 0x22 # t"
      using Cons by (cases ws) (auto simp: quote_def)
    show ?thesis
      unfolding reads_back_def
    proof (intro allI impI)
      fix n r assume "follow r" and len: "length (stringify (VObj ms)) \<le> n"
      then obtain j where j: "n = Suc j" by (cases n) auto
      have "parse_members j (sep_by (map member_text ms) @ CHR ''}'' # r) = Some (ms, r)"
        by (rule parse_members_text [OF rb]) (use len j Cons shape in auto)
      then show "parse_value n (stringify (VObj ms) @ r) = Some (VObj ms, r)"
        using sep VObj.prems unfolding shape by (simp add: j spread_distinct)
    qed
  qed
qed (auto simp: reads_back_def expect_def dest!: Suc_le_D)

lemma json_parse_stringify [js_text]:
  assumes "json_pure v"
  shows "json_parse (stringify v) = Some v"
  using reads_backD [OF reads_back_pure [OF assms], of "[]" "Suc (length (stringify v))"]
  by (simp add: json_parse_def)

lemma stringify_inject:
  "json_pure v \<Longrightarrow> json_pure w \<Longrightarrow> stringify v = stringify w \<longleftrightarrow> v = w"
  by (metis json_parse_stringify option.inject)


section \<open>Coercions\<close>

fun num_to_string :: "jsnum \<Rightarrow> string" where
  "num_to_string (NInt i) = int_to_string i"
| "num_to_string (NFrac s) = s"
| "num_to_string NaN = ''NaN''"

text \<open>\<open>String(x)\<close>; an array joins its elements, \<open>null\<close> and \<open>undefined\<close> as empty.\<close>

fun to_String :: "jsval \<Rightarrow> string" where
  "to_String VUndef = ''undefined''"
| "to_String VNull = ''null''"
| "to_String (VBool b) = (if b then ''true'' else ''false'')"
| "to_String (VNum n) = num_to_string n"
| "to_String (VStr s) = s"
| "to_String (VArr vs) = sep_by (map (\<lambda>v. if v = VUndef \<or> v = VNull then [] else to_String v) vs)"
| "to_String (VObj _) = ''[object Object]''"

text \<open>\<open>BigInt(x)\<close>; \<open>None\<close> is the thrown \<open>TypeError\<close>, \<open>RangeError\<close> or \<open>SyntaxError\<close>.\<close>

fun to_BigInt :: "jsval \<Rightarrow> int option" where
  "to_BigInt VUndef = None"
| "to_BigInt VNull = None"
| "to_BigInt (VBool b) = Some (if b then 1 else 0)"
| "to_BigInt (VNum n) = num_BigInt n"
| "to_BigInt (VStr s) = big_int_of_string s"
| "to_BigInt (VArr vs) = big_int_of_string (to_String (VArr vs))"
| "to_BigInt (VObj _) = None"

text \<open>\<open>Number(s)\<close> of a string.\<close>

definition str_decimal :: "bool \<Rightarrow> string \<Rightarrow> jsnum" where
  "str_decimal neg s =
    (let ip = takeWhile is_digit s; r0 = dropWhile is_digit s;
         pt = (case r0 of c # _ \<Rightarrow> c = CHR ''.'' | [] \<Rightarrow> False);
         fp = (if pt then takeWhile is_digit (tl r0) else []);
         r1 = (if pt then dropWhile is_digit (tl r0) else r0)
     in case (parse_nat (ip @ fp), parse_exp r1) of
          (Some m, Some (e, [])) \<Rightarrow>
            number_of_decimal (if neg then - int m else int m) (e - int (length fp))
              ((if neg then ''-'' else []) @ s)
        | _ \<Rightarrow> if s = ''Infinity'' then NFrac ((if neg then ''-'' else []) @ s) else NaN)"

definition number_of_string :: "string \<Rightarrow> jsnum" where
  "number_of_string s0 =
    (let s = js_trim s0 in
     if s = [] then NInt 0
     else if take 2 s \<in> {''0x'', ''0X''} then (case parse_base 16 (drop 2 s) of None \<Rightarrow> NaN | Some n \<Rightarrow> double_of_int (int n))
     else if take 2 s \<in> {''0o'', ''0O''} then (case parse_base 8 (drop 2 s) of None \<Rightarrow> NaN | Some n \<Rightarrow> double_of_int (int n))
     else if take 2 s \<in> {''0b'', ''0B''} then (case parse_base 2 (drop 2 s) of None \<Rightarrow> NaN | Some n \<Rightarrow> double_of_int (int n))
     else if hd s = CHR ''-'' then str_decimal True (tl s)
     else if hd s = CHR ''+'' then str_decimal False (tl s)
     else str_decimal False s)"

fun to_Number :: "jsval \<Rightarrow> jsnum" where
  "to_Number VUndef = NaN"
| "to_Number VNull = NInt 0"
| "to_Number (VBool b) = NInt (if b then 1 else 0)"
| "to_Number (VNum n) = n"
| "to_Number (VStr s) = number_of_string s"
| "to_Number (VArr vs) = number_of_string (to_String (VArr vs))"
| "to_Number (VObj _) = NaN"


section \<open>Base64\<close>

definition b64_char :: "nat \<Rightarrow> char" where
  "b64_char d =
    (if d < 26 then char_of (65 + d) else if d < 52 then char_of (71 + d)
     else if d < 62 then char_of (d - 4) else if d = 62 then CHR ''+'' else CHR ''/'')"

text \<open>Both alphabets are read; any other character is skipped by the decoder.\<close>

definition b64_val :: "char \<Rightarrow> nat option" where
  "b64_val c = (let n = of_char c in
     if 65 \<le> n \<and> n \<le> 90 then Some (n - 65)
     else if 97 \<le> n \<and> n \<le> 122 then Some (n - 71)
     else if 48 \<le> n \<and> n \<le> 57 then Some (n + 4)
     else if n = 43 \<or> n = 45 then Some 62
     else if n = 47 \<or> n = 95 then Some 63
     else None)"

fun b64_groups :: "nat list \<Rightarrow> string" where
  "b64_groups (a # b # c # bs) =
    (let n = a * 65536 + b * 256 + c in
     [b64_char (n div 262144), b64_char (n div 4096 mod 64), b64_char (n div 64 mod 64), b64_char (n mod 64)]
       @ b64_groups bs)"
| "b64_groups [a, b] =
    (let n = a * 256 + b in [b64_char (n div 1024), b64_char (n div 16 mod 64), b64_char (n mod 16 * 4), CHR ''=''])"
| "b64_groups [a] = [b64_char (a div 4), b64_char (a mod 4 * 16), CHR ''='', CHR ''='']"
| "b64_groups [] = []"

definition base64_encode :: "bytes \<Rightarrow> string" where
  "base64_encode bs = b64_groups (map unat bs)"

fun b64_ungroup :: "nat list \<Rightarrow> nat list" where
  "b64_ungroup (w # x # y # z # ds) =
    (let n = ((w * 64 + x) * 64 + y) * 64 + z in
     [n div 65536, n div 256 mod 256, n mod 256] @ b64_ungroup ds)"
| "b64_ungroup [w, x, y] = (let n = (w * 64 + x) * 64 + y in [n div 1024, n div 4 mod 256])"
| "b64_ungroup [w, x] = [(w * 64 + x) div 16]"
| "b64_ungroup _ = []"

definition base64_decode :: "string \<Rightarrow> bytes" where
  "base64_decode s = map of_nat (b64_ungroup (List.map_filter b64_val s))"

lemma b64_val_char [simp]: "d < 64 \<Longrightarrow> b64_val (b64_char d) = Some d"
  by (auto simp: b64_val_def b64_char_def Let_def)

lemma b64_val_pad [simp]: "b64_val (CHR ''='') = None"
  by (simp add: b64_val_def)

lemma split64: "(n div 64 * 64 + n mod 64) = (n :: nat)"
  by simp

lemma b64_three:
  assumes "a < 256" "b < 256" "c < (256 :: nat)"
  shows "let n = a * 65536 + b * 256 + c;
             m = ((n div 262144 * 64 + n div 4096 mod 64) * 64 + n div 64 mod 64) * 64 + n mod 64
         in n div 262144 < 64 \<and> m div 65536 = a \<and> m div 256 mod 256 = b \<and> m mod 256 = c"
proof -
  define n where "n = a * 65536 + b * 256 + c"
  have e: "n div 4096 = n div 64 div 64" "n div 262144 = n div 64 div 64 div 64"
    by (simp_all add: div_mult2_eq [symmetric])
  have m: "((n div 262144 * 64 + n div 4096 mod 64) * 64 + n div 64 mod 64) * 64 + n mod 64 = n"
    unfolding e split64 by simp
  have lo: "b * 256 + c < 65536" using assms by linarith
  have hi: "n div 65536 = a"
    using lo div_mult_self3 [of 65536 a "b * 256 + c"] by (simp add: n_def add.assoc)
  have n: "n = (a * 256 + b) * 256 + c" by (simp add: n_def)
  have "n div 256 = a * 256 + b" "n mod 256 = c"
    unfolding n using assms div_mult_self3 [of 256 "a * 256 + b" c] mod_mult_self3 [of "a * 256 + b" 256 c]
    by simp_all
  moreover have "n div 262144 < 64"
    using assms by (simp add: n_def less_mult_imp_div_less)
  ultimately show ?thesis unfolding Let_def n_def [symmetric] m using hi assms by simp
qed

lemma b64_two:
  assumes "a < 256" "b < (256 :: nat)"
  shows "let n = a * 256 + b; m = (n div 1024 * 64 + n div 16 mod 64) * 64 + n mod 16 * 4
         in n div 1024 < 64 \<and> n mod 16 * 4 < 64 \<and> m div 1024 = a \<and> m div 4 mod 256 = b"
proof -
  define n where "n = a * 256 + b"
  have e: "n div 1024 = n div 16 div 64"
    by (simp add: div_mult2_eq [symmetric])
  have m: "(n div 1024 * 64 + n div 16 mod 64) * 64 + n mod 16 * 4 = n * 4"
    unfolding e split64 using div_mult_mod_eq [of n 16] by linarith
  have "n * 4 div 1024 = n div 256"
    using div_mult_mult2 [of 4 n 256] by simp
  then have "n * 4 div 1024 = a" "n * 4 div 4 mod 256 = b"
    using assms by (simp_all add: n_def)
  moreover have "n div 1024 < 64"
    using assms by (simp add: n_def less_mult_imp_div_less)
  moreover have "n mod 16 * 4 < 64"
    using mod_less_divisor [of 16 n] by linarith
  ultimately show ?thesis unfolding Let_def n_def [symmetric] m by simp
qed

lemma b64_one:
  assumes "a < (256 :: nat)"
  shows "a div 4 < 64" "a mod 4 * 16 < 64" "(a div 4 * 64 + a mod 4 * 16) div 16 = a"
proof -
  have "a div 4 * 64 + a mod 4 * 16 = a * 16"
    using div_mult_mod_eq [of a 4] by linarith
  then show "(a div 4 * 64 + a mod 4 * 16) div 16 = a" by simp
  show "a div 4 < 64" using assms by (simp add: less_mult_imp_div_less)
  show "a mod 4 * 16 < 64" using mod_less_divisor [of 4 a] by linarith
qed

lemma b64_roundtrip:
  "\<forall>b\<in>set bs. b < 256 \<Longrightarrow> b64_ungroup (List.map_filter b64_val (b64_groups bs)) = bs"
proof (induction bs rule: b64_groups.induct)
  case (1 a b c bs)
  define n where "n = a * 65536 + b * 256 + c"
  have g: "b64_groups (a # b # c # bs) =
    [b64_char (n div 262144), b64_char (n div 4096 mod 64), b64_char (n div 64 mod 64), b64_char (n mod 64)]
      @ b64_groups bs"
    by (simp only: b64_groups.simps Let_def n_def)
  have "a < 256" "b < 256" "c < 256" using 1(2) by simp_all
  note b64_three [OF this, unfolded Let_def, folded n_def]
  then show ?case
    unfolding g using 1 by (simp add: Let_def List.map_filter_simps)
next
  case (2 a b)
  then show ?case
    using b64_two [of a b] by (simp add: Let_def List.map_filter_simps)
next
  case (3 a)
  then show ?case
    using b64_one [of a] by (simp add: List.map_filter_simps)
qed (simp add: List.map_filter_simps)

lemma base64_roundtrip [simp, js_text]: "base64_decode (base64_encode bs) = bs"
proof -
  have "\<forall>b\<in>set (map unat bs). b < 256"
    using unsigned_less [where 'a = nat and 'b = 8] by auto
  then show ?thesis
    by (simp add: base64_decode_def base64_encode_def b64_roundtrip comp_def)
qed

lemma base64_encode_Nil [simp]: "base64_encode bs = [] \<longleftrightarrow> bs = []"
proof
  assume "base64_encode bs = []"
  then have "bs = base64_decode []"
    using base64_roundtrip [of bs] by simp
  then show "bs = []"
    by (simp add: base64_decode_def List.map_filter_simps)
qed (simp add: base64_encode_def)

end
