(* ===== verification/Receipts.thy ===== *)
theory Receipts
  imports Json
begin

text \<open>
  Per-channel receipts, \<open>packages/sdk/src/receipts.ts\<close>: a channel's history is
  rebuilt from the \<open>StreamEscrow\<close> events it emitted. The three event types are
  the constructors of \<open>channel_event\<close>; the two thrown errors are values of
  \<open>receipt_error\<close>.
\<close>

datatype channel_event =
    ChannelOpened (ev_channelId: int) (ev_cap: int) (ev_expiry: int) (ev_changeCommitment: int) (ev_txHash: string)
  | ChannelSettled (ev_channelId: int) (ev_cumulative: int) (ev_payeeCommitment: int) (ev_refundCommitment: int) (ev_txHash: string)
  | ChannelReclaimed (ev_channelId: int) (ev_cap: int) (ev_reclaimCommitment: int) (ev_txHash: string)

datatype channel_state = ChOpen | ChSettled | ChReclaimed

datatype recipient = Payee | Payer

record split_entry =
  sp_recipient :: recipient
  sp_amount :: int
  sp_commitment :: int

record stream_receipt =
  sr_channelId :: int
  sr_state :: channel_state
  sr_cap :: int
  sr_gross :: int
  sr_split :: "split_entry list"
  sr_openTxHash :: string
  sr_closeTxHash :: "string option"

datatype receipt_error = NoChannelOpened int | BothSettleAndReclaim int

definition reconstructChannelReceipt ::
  "int \<Rightarrow> channel_event list \<Rightarrow> (receipt_error, stream_receipt) result" where
  "reconstructChannelReceipt channelId events =
    (let forChannel = filter (\<lambda>e. ev_channelId e = channelId) events in
     case find_first is_ChannelOpened forChannel of
       None \<Rightarrow> Throw (NoChannelOpened channelId)
     | Some opened \<Rightarrow>
       (case (find_first is_ChannelSettled forChannel, find_first is_ChannelReclaimed forChannel) of
          (Some _, Some _) \<Rightarrow> Throw (BothSettleAndReclaim channelId)
        | (Some settled, None) \<Rightarrow>
            let refund = ev_cap opened - ev_cumulative settled in
            Ok \<lparr> sr_channelId = channelId, sr_state = ChSettled, sr_cap = ev_cap opened,
                 sr_gross = ev_cumulative settled,
                 sr_split = [\<lparr> sp_recipient = Payee, sp_amount = ev_cumulative settled,
                               sp_commitment = ev_payeeCommitment settled \<rparr>,
                             \<lparr> sp_recipient = Payer, sp_amount = refund,
                               sp_commitment = ev_refundCommitment settled \<rparr>],
                 sr_openTxHash = ev_txHash opened, sr_closeTxHash = Some (ev_txHash settled) \<rparr>
        | (None, Some reclaimed) \<Rightarrow>
            Ok \<lparr> sr_channelId = channelId, sr_state = ChReclaimed, sr_cap = ev_cap opened, sr_gross = 0,
                 sr_split = [\<lparr> sp_recipient = Payer, sp_amount = ev_cap reclaimed,
                               sp_commitment = ev_reclaimCommitment reclaimed \<rparr>],
                 sr_openTxHash = ev_txHash opened, sr_closeTxHash = Some (ev_txHash reclaimed) \<rparr>
        | (None, None) \<Rightarrow>
            Ok \<lparr> sr_channelId = channelId, sr_state = ChOpen, sr_cap = ev_cap opened, sr_gross = 0,
                 sr_split = [], sr_openTxHash = ev_txHash opened, sr_closeTxHash = None \<rparr>))"

fun state_text :: "channel_state \<Rightarrow> string" where
  "state_text ChOpen = ''open''"
| "state_text ChSettled = ''settled''"
| "state_text ChReclaimed = ''reclaimed''"

fun recipient_text :: "recipient \<Rightarrow> string" where
  "recipient_text Payee = ''payee''"
| "recipient_text Payer = ''payer''"

definition split_json :: "split_entry \<Rightarrow> jsval" where
  "split_json s = VObj [(''recipient'', VStr (recipient_text (sp_recipient s))),
     (''amount'', VStr (int_to_string (sp_amount s))),
     (''commitment'', VStr (int_to_string (sp_commitment s)))]"

definition receiptToJson :: "stream_receipt \<Rightarrow> jsval" where
  "receiptToJson r = VObj [
     (''channelId'', VStr (int_to_string (sr_channelId r))),
     (''state'', VStr (state_text (sr_state r))),
     (''cap'', VStr (int_to_string (sr_cap r))),
     (''gross'', VStr (int_to_string (sr_gross r))),
     (''split'', VArr (map split_json (sr_split r))),
     (''openTxHash'', VStr (sr_openTxHash r)),
     (''closeTxHash'', case sr_closeTxHash r of None \<Rightarrow> VUndef | Some h \<Rightarrow> VStr h)]"


section \<open>Lemmas\<close>

abbreviation events_of :: "int \<Rightarrow> channel_event list \<Rightarrow> channel_event list" where
  "events_of ch evs \<equiv> filter (\<lambda>e. ev_channelId e = ch) evs"

text \<open>What the contract guarantees of a channel: it is opened once and consumed at most once.\<close>

definition one_event_each :: "int \<Rightarrow> channel_event list \<Rightarrow> bool" where
  "one_event_each ch evs =
    (length (filter is_ChannelOpened (events_of ch evs)) \<le> 1 \<and>
     length (filter is_ChannelSettled (events_of ch evs)) \<le> 1 \<and>
     length (filter is_ChannelReclaimed (events_of ch evs)) \<le> 1)"

lemma find_first_hd: "find_first p xs = (case filter p xs of [] \<Rightarrow> None | x # _ \<Rightarrow> Some x)"
  by (induction xs) auto

lemma short_list_mset_eq: "mset xs = mset ys \<Longrightarrow> length xs \<le> 1 \<Longrightarrow> xs = ys"
proof (cases xs)
  case (Cons x xs')
  moreover assume "mset xs = mset ys" "length xs \<le> 1"
  ultimately show ?thesis by (auto dest: sym)
qed auto

lemma find_first_perm:
  assumes "mset xs = mset ys" "length (filter p (filter q xs)) \<le> 1"
  shows "find_first p (filter q xs) = find_first p (filter q ys)"
proof -
  have "mset (filter p (filter q xs)) = mset (filter p (filter q ys))"
    using assms(1) by (metis mset_filter)
  then have "filter p (filter q xs) = filter p (filter q ys)"
    using short_list_mset_eq assms(2) by blast
  then show ?thesis by (simp add: find_first_hd)
qed

lemma stringify_drop_undef:
  "stringify (VObj (ms @ [(k, VUndef)])) = stringify (VObj ms)"
  by simp

definition receipt_members :: "stream_receipt \<Rightarrow> (string \<times> jsval) list" where
  "receipt_members r = (case receiptToJson r of VObj ms \<Rightarrow> filter (\<lambda>m. snd m \<noteq> VUndef) ms | _ \<Rightarrow> [])"

lemma receipt_members_pure: "json_pure (VObj (receipt_members r))"
  by (auto simp: receipt_members_def receiptToJson_def split_json_def list_all_iff split: option.split)

lemma stringify_receipt: "stringify (receiptToJson r) = stringify (VObj (receipt_members r))"
  by (simp add: receipt_members_def receiptToJson_def)

lemma state_text_inject [simp]: "state_text s = state_text t \<longleftrightarrow> s = t"
  by (cases s; cases t) auto

lemma recipient_text_inject [simp]: "recipient_text s = recipient_text t \<longleftrightarrow> s = t"
  by (cases s; cases t) auto

lemma split_json_inject [simp]: "split_json s = split_json t \<longleftrightarrow> s = t"
  by (auto simp: split_json_def intro: split_entry.equality)

lemma map_split_json_inject [simp]: "map split_json xs = map split_json ys \<longleftrightarrow> xs = ys"
  by (simp add: inj_map_eq_map inj_def)

lemma receipt_members_inject: "receipt_members r = receipt_members q \<Longrightarrow> r = q"
  by (auto simp: receipt_members_def receiptToJson_def split: option.splits
      intro!: stream_receipt.equality)


section \<open>Properties\<close>

text \<open>A receipt accounts for the whole reserve. It exists exactly when the channel was opened and
  was not both settled and reclaimed; after a settlement the gross is the settled cumulative and payee
  and payer shares add up to the cap; after a reclaim nothing went to the payee; an open channel
  has no split. The transaction hashes are those of the events.\<close>

theorem receipt_accounts_for_cap:
  "(is_ok (reconstructChannelReceipt ch evs) \<longleftrightarrow>
      (\<exists>e\<in>set (events_of ch evs). is_ChannelOpened e) \<and>
      \<not> ((\<exists>e\<in>set (events_of ch evs). is_ChannelSettled e) \<and>
         (\<exists>e\<in>set (events_of ch evs). is_ChannelReclaimed e))) \<and>
   (\<forall>r. reconstructChannelReceipt ch evs = Ok r \<longrightarrow>
      (\<exists>opened\<in>set (events_of ch evs). is_ChannelOpened opened \<and>
         sr_cap r = ev_cap opened \<and> sr_openTxHash r = ev_txHash opened) \<and>
      (sr_state r = ChSettled \<longrightarrow> (\<exists>s\<in>set (events_of ch evs). is_ChannelSettled s \<and>
         sr_gross r = ev_cumulative s \<and> sr_closeTxHash r = Some (ev_txHash s) \<and>
         sum_list (map sp_amount (sr_split r)) = sr_cap r \<and>
         map sp_recipient (sr_split r) = [Payee, Payer])) \<and>
      (sr_state r = ChReclaimed \<longrightarrow> sr_gross r = 0 \<and> map sp_recipient (sr_split r) = [Payer]) \<and>
      (sr_state r = ChOpen \<longrightarrow> sr_gross r = 0 \<and> sr_split r = [] \<and> sr_closeTxHash r = None))"
  (is "?A \<and> ?B")
proof
  show ?A
    by (auto simp: reconstructChannelReceipt_def Let_def is_ok_def find_first_None
        split: option.splits dest!: find_first_Some)
  show ?B
    by (auto simp: reconstructChannelReceipt_def Let_def split: option.splits dest!: find_first_Some)
qed

definition demo_events :: "channel_event list" where
  "demo_events = [ChannelSettled 4 60 11 12 ''0xb'', ChannelOpened 5 9 1 2 ''0xc'',
     ChannelOpened 4 100 900 7 ''0xa'']"

theorem receipt_accounts_for_cap_witness:
  "is_ok (reconstructChannelReceipt 4 demo_events) \<and> \<not> is_ok (reconstructChannelReceipt 6 demo_events) \<and>
   (\<exists>r. reconstructChannelReceipt 4 demo_events = Ok r \<and> sr_state r = ChSettled \<and>
     sum_list (map sp_amount (sr_split r)) = sr_cap r)"
proof -
  have "\<exists>r. reconstructChannelReceipt 4 demo_events = Ok r \<and> sr_state r = ChSettled"
    by (simp add: demo_events_def reconstructChannelReceipt_def Let_def)
  then show ?thesis
    using receipt_accounts_for_cap [of 4 demo_events] receipt_accounts_for_cap [of 6 demo_events]
    by (auto simp: demo_events_def)
qed

text \<open>The receipt does not depend on the order in which the events arrive, when the channel was
  opened, settled and reclaimed at most once each.\<close>

theorem receipt_order_independent:
  assumes "mset evs = mset evs'" "one_event_each ch evs"
  shows "reconstructChannelReceipt ch evs = reconstructChannelReceipt ch evs'"
proof -
  have "find_first is_ChannelOpened (events_of ch evs) = find_first is_ChannelOpened (events_of ch evs')"
    "find_first is_ChannelSettled (events_of ch evs) = find_first is_ChannelSettled (events_of ch evs')"
    "find_first is_ChannelReclaimed (events_of ch evs) = find_first is_ChannelReclaimed (events_of ch evs')"
    using assms(2) unfolding one_event_each_def by (blast intro: find_first_perm [OF assms(1)])+
  then show ?thesis
    by (simp only: reconstructChannelReceipt_def Let_def)
qed

theorem receipt_order_independent_witness:
  "reconstructChannelReceipt 4 demo_events = reconstructChannelReceipt 4 (rev demo_events) \<and>
   map_sum id sr_gross (reconstructChannelReceipt 4 demo_events) = Ok 60"
  using receipt_order_independent [of demo_events "rev demo_events" 4]
  by (simp add: demo_events_def one_event_each_def reconstructChannelReceipt_def Let_def)

text \<open>The JSON form of a receipt loses nothing: receipts with the same serialised text are
  equal.\<close>

theorem receipt_json_injective:
  "stringify (receiptToJson r) = stringify (receiptToJson q) \<longleftrightarrow> r = q"
  using stringify_inject [OF receipt_members_pure receipt_members_pure] receipt_members_inject
  by (auto simp: stringify_receipt)

end
