(* ===== verification/X402.thy ===== *)
theory X402
  imports Streams Json
begin

text \<open>
  HTTP 402 gating, \<open>apps/api/src/x402.ts\<close>: the voucher header (base64 of a JSON
  object of decimal strings) and the decision whether a voucher opens a paid
  resource. The channel lookup and the current block are the callbacks of the
  caller's configuration.
\<close>

record channel_info =
  ci_cap :: int
  ci_payerAx :: int
  ci_payerAy :: int
  ci_consumed :: bool
  ci_expiryBlock :: int

record x402_config =
  xc_requiredCumulative :: int
  xc_lookupChannel :: "int \<Rightarrow> channel_info option"
  xc_currentBlock :: "int option"
  xc_paymentInstructions :: "(string \<times> jsval) list"

datatype x402_result =
    X402Ok voucher
  | X402Reject nat "(string \<times> jsval) list"


section \<open>The voucher header\<close>

definition voucher_wire :: "voucher \<Rightarrow> jsval" where
  "voucher_wire v = VObj [
     (''channelId'', VStr (int_to_string (v_channelId v))),
     (''cumulative'', VStr (int_to_string (v_cumulative v))),
     (''seq'', VNum (v_seq v)),
     (''R8x'', VStr (int_to_string (v_R8x v))),
     (''R8y'', VStr (int_to_string (v_R8y v))),
     (''S'', VStr (int_to_string (v_S v))),
     (''Ax'', VStr (int_to_string (v_Ax v))),
     (''Ay'', VStr (int_to_string (v_Ay v)))]"

definition serializeVoucherHeader :: "voucher \<Rightarrow> string" where
  "serializeVoucherHeader v = base64_encode (utf8 (stringify (voucher_wire v)))"

definition voucher_of_wire :: "jsval \<Rightarrow> voucher option" where
  "voucher_of_wire w =
    (case (to_BigInt (js_get w ''channelId''), to_BigInt (js_get w ''cumulative'')) of
       (Some ch, Some cu) \<Rightarrow>
         (case (to_BigInt (js_get w ''R8x''), to_BigInt (js_get w ''R8y''), to_BigInt (js_get w ''S'')) of
            (Some x, Some y, Some s) \<Rightarrow>
              (case (to_BigInt (js_get w ''Ax''), to_BigInt (js_get w ''Ay'')) of
                 (Some ax, Some ay) \<Rightarrow>
                   Some \<lparr> v_channelId = ch, v_cumulative = cu, v_seq = to_Number (js_get w ''seq''),
                          v_R8x = x, v_R8y = y, v_S = s, v_Ax = ax, v_Ay = ay \<rparr>
               | _ \<Rightarrow> None)
          | _ \<Rightarrow> None)
     | _ \<Rightarrow> None)"

text \<open>A missing field, a text that is no JSON and a failing \<open>BigInt\<close> all give \<open>undefined\<close>.\<close>

definition parseVoucherHeader :: "string option \<Rightarrow> voucher option" where
  "parseVoucherHeader headerValue =
    (case headerValue of
       None \<Rightarrow> None
     | Some h \<Rightarrow>
         if h = [] then None
         else case json_parse (utf8_decode (base64_decode h)) of
           None \<Rightarrow> None
         | Some w \<Rightarrow>
             if list_ex (\<lambda>k. js_get w k = VUndef)
                  [''channelId'', ''cumulative'', ''seq'', ''R8x'', ''R8y'', ''S'', ''Ax'', ''Ay'']
             then None
             else voucher_of_wire w)"


section \<open>The gate\<close>

definition checkX402 ::
  "eddsa_lib \<Rightarrow> voucher option \<Rightarrow> x402_config \<Rightarrow> (streams_error, x402_result) result" where
  "checkX402 lib voucher config =
    (let instructions = xc_paymentInstructions config;
         required = VStr (int_to_string (xc_requiredCumulative config)) in
     case voucher of
       None \<Rightarrow> Ok (X402Reject 402
         (spread (spread [(''error'', VStr ''payment required'')] instructions) [(''requiredCumulative'', required)]))
     | Some v \<Rightarrow>
       (case xc_lookupChannel config (v_channelId v) of
          None \<Rightarrow> Ok (X402Reject 402 (spread [(''error'', VStr ''channel not open'')] instructions))
        | Some ch \<Rightarrow>
            if ci_consumed ch then
              Ok (X402Reject 403 [(''error'', VStr ''channel already settled or reclaimed'')])
            else if (case xc_currentBlock config of None \<Rightarrow> False | Some b \<Rightarrow> b > ci_expiryBlock ch) then
              Ok (X402Reject 403 [(''error'', VStr ''channel expired'')])
            else case verifyVoucher lib v of
              Inl e \<Rightarrow> Throw e
            | Inr valid \<Rightarrow>
                if \<not> valid then Ok (X402Reject 403 [(''error'', VStr ''invalid voucher signature'')])
                else if v_Ax v \<noteq> ci_payerAx ch \<or> v_Ay v \<noteq> ci_payerAy ch then
                  Ok (X402Reject 403 [(''error'', VStr ''voucher not signed by channel payer'')])
                else if v_cumulative v > ci_cap ch then
                  Ok (X402Reject 403 [(''error'', VStr ''voucher exceeds channel cap'')])
                else if v_cumulative v < xc_requiredCumulative config then
                  Ok (X402Reject 402 (spread [(''error'', VStr ''insufficient payment''),
                    (''requiredCumulative'', required),
                    (''providedCumulative'', VStr (int_to_string (v_cumulative v)))] instructions))
                else Ok (X402Ok v)))"

text \<open>The channel can still be paid on: open, not consumed, not expired.\<close>

definition channel_live :: "x402_config \<Rightarrow> voucher \<Rightarrow> channel_info \<Rightarrow> bool" where
  "channel_live config v ch =
    (xc_lookupChannel config (v_channelId v) = Some ch \<and> \<not> ci_consumed ch \<and>
     (\<forall>b. xc_currentBlock config = Some b \<longrightarrow> b \<le> ci_expiryBlock ch))"

lemma verifyVoucher_throws: "verifyVoucher lib v = Inl e \<longleftrightarrow> num_BigInt (v_seq v) = None \<and> e = SeqRangeError"
  by (auto simp: verifyVoucher_def Let_def split: option.splits)

lemma voucher_wire_pure:
  "v_seq v = NInt s \<Longrightarrow> \<bar>s\<bar> \<le> max_safe \<Longrightarrow> json_pure (voucher_wire v)"
  by (simp add: voucher_wire_def)

lemma voucher_of_wire_inverse: "voucher_of_wire (voucher_wire v) = Some v"
  by (simp add: voucher_of_wire_def voucher_wire_def)


section \<open>Properties\<close>

text \<open>C12: the gate opens for a voucher exactly when its channel is open, not consumed and not expired,
  its signature verifies under the channel payer's key, and its cumulative amount reaches the required
  amount without exceeding the cap; what it hands on is that voucher.\<close>

theorem x402_allows_iff:
  "checkX402 lib voucher config = Ok (X402Ok v) \<longleftrightarrow>
    voucher = Some v \<and>
    (\<exists>ch. channel_live config v ch \<and> verifyVoucher lib v = Ok True \<and>
       v_Ax v = ci_payerAx ch \<and> v_Ay v = ci_payerAy ch \<and>
       xc_requiredCumulative config \<le> v_cumulative v \<and> v_cumulative v \<le> ci_cap ch)"
  by (cases voucher)
     (auto simp: checkX402_def channel_live_def Let_def not_less split: option.splits sum.splits if_splits)

text \<open>The gate answers 402 (pay, then retry) exactly when there is no voucher, its channel is
  unknown, or a valid voucher falls short of the required amount; every other refusal is a 403.\<close>

theorem x402_status:
  "checkX402 lib voucher config = Ok (X402Reject st body) \<Longrightarrow>
    st = (if (\<forall>v. voucher = Some v \<longrightarrow>
                xc_lookupChannel config (v_channelId v) = None \<or>
                (\<exists>ch. channel_live config v ch \<and> verifyVoucher lib v = Ok True \<and>
                   v_Ax v = ci_payerAx ch \<and> v_Ay v = ci_payerAy ch \<and> v_cumulative v \<le> ci_cap ch \<and>
                   v_cumulative v < xc_requiredCumulative config))
          then 402 else 403)"
  by (cases voucher)
     (auto simp: checkX402_def channel_live_def Let_def not_less split: option.splits sum.splits if_splits)

definition demo_voucher :: "int \<Rightarrow> jsnum \<Rightarrow> voucher" where
  "demo_voucher c s = \<lparr> v_channelId = 9, v_cumulative = c, v_seq = s, v_R8x = fe (poseidon demo_lib [9, c, 1]),
     v_R8y = 32, v_S = poseidon demo_lib [9, c, 1], v_Ax = 32, v_Ay = 5 \<rparr>"

text \<open>A voucher whose sequence number is no integer makes the gate throw instead of answering:
  this happens exactly on a live channel, where the signature check converts the number with
  \<open>BigInt\<close>.\<close>

theorem x402_throws_iff:
  "\<not> is_ok (checkX402 lib voucher config) \<longleftrightarrow>
    (\<exists>v ch. voucher = Some v \<and> channel_live config v ch \<and> num_BigInt (v_seq v) = None)"
  by (cases voucher)
     (auto simp: checkX402_def channel_live_def verifyVoucher_def Let_def is_ok_def not_less
        split: option.splits sum.splits if_splits)

text \<open>Parsing a serialised voucher header gives back the voucher, for every sequence number a
  JSON number can carry.\<close>

theorem voucher_header_roundtrip:
  assumes "v_seq v = NInt s" "\<bar>s\<bar> \<le> max_safe"
  shows "parseVoucherHeader (Some (serializeVoucherHeader v)) = Some v"
proof -
  have "stringify (voucher_wire v) \<noteq> []"
    using stringify_length [OF voucher_wire_pure [OF assms]] by simp
  then have ne: "serializeVoucherHeader v \<noteq> []"
    by (simp add: serializeVoucherHeader_def utf8_def)
  have "json_parse (utf8_decode (base64_decode (serializeVoucherHeader v))) = Some (voucher_wire v)"
    using json_parse_stringify [OF voucher_wire_pure [OF assms]] by (simp add: serializeVoucherHeader_def)
  moreover have "\<not> list_ex (\<lambda>k. js_get (voucher_wire v) k = VUndef)
      [''channelId'', ''cumulative'', ''seq'', ''R8x'', ''R8y'', ''S'', ''Ax'', ''Ay'']"
    by (simp add: voucher_wire_def)
  ultimately show ?thesis
    using ne by (simp only: parseVoucherHeader_def option.case if_False voucher_of_wire_inverse)
qed

theorem voucher_header_roundtrip_witness:
  "parseVoucherHeader (Some (serializeVoucherHeader (demo_voucher 14 (NInt 1)))) = Some (demo_voucher 14 (NInt 1))"
  by (rule voucher_header_roundtrip [where s = 1]) (simp_all add: demo_voucher_def max_safe_def)

end
