(* ===== verification/StreamRelayer.thy ===== *)
theory StreamRelayer
  imports Prelude
begin

text \<open>
  The streaming relayer, \<open>apps/relayer/src/stream-relayer.ts\<close>: which pending
  settlements are closed now, in which order and in which batches, and the
  submission of one batch. The Groth16 call data is carried, never inspected:
  it is the type parameter. The chain call \<open>arcInvoke\<close> is a parameter.
\<close>

record 'p pending_settlement =
  ps_channelId :: int
  ps_proof :: 'p
  ps_publicSignals :: "string list"
  ps_expiryBlock :: int
  ps_cumulative :: int

record batch_policy =
  bp_closeBeforeExpiryBlocks :: int
  bp_minValueToClose :: int
  bp_maxBatchSize :: int

definition settlement_ready :: "int \<Rightarrow> batch_policy \<Rightarrow> 'p pending_settlement \<Rightarrow> bool" where
  "settlement_ready currentBlock policy s =
    (currentBlock \<ge> ps_expiryBlock s - bp_closeBeforeExpiryBlocks policy \<or>
     ps_cumulative s \<ge> bp_minValueToClose policy)"

text \<open>\<open>xs.slice(i, j)\<close>, negative indices counting from the end.\<close>

definition js_index :: "'a list \<Rightarrow> int \<Rightarrow> nat" where
  "js_index xs i = (if i < 0 then nat (int (length xs) + i) else min (nat i) (length xs))"

definition js_slice :: "'a list \<Rightarrow> int \<Rightarrow> int \<Rightarrow> 'a list" where
  "js_slice xs i j = drop (js_index xs i) (take (js_index xs j) xs)"

text \<open>
  The batching loop \<open>for (i = 0; i < ready.length; i += maxBatchSize)\<close>: it may not
  end, so not returning is the value \<open>None\<close>.
\<close>

partial_function (option) batch_loop :: "int \<Rightarrow> 'a list \<Rightarrow> int \<Rightarrow> 'a list list option" where
  [code]: "batch_loop m ready i =
    (if i < int (length ready) then
       Option.bind (batch_loop m ready (i + m)) (\<lambda>rest. Some (js_slice ready i (i + m) # rest))
     else Some [])"

definition selectSettlementBatches ::
  "'p pending_settlement list \<Rightarrow> int \<Rightarrow> batch_policy \<Rightarrow> 'p pending_settlement list list option" where
  "selectSettlementBatches pending currentBlock policy =
    (let ready = sort_key ps_expiryBlock (filter (settlement_ready currentBlock policy) pending)
     in batch_loop (bp_maxBatchSize policy) ready 0)"

record submit_opts =
  so_arcRpcUrl :: string
  so_arcChainId :: "int option"
  so_escrowAddress :: string
  so_relayerPrivateKey :: string

record 'p arc_call =
  ac_rpcUrl :: string
  ac_chainId :: "int option"
  ac_contractAddress :: string
  ac_method :: string
  ac_proofs :: "'p list"
  ac_publicSignals :: "string list list"
  ac_privateKey :: string

definition submitSettlementBatch ::
  "('p arc_call \<Rightarrow> ('e, string) result) \<Rightarrow> 'p pending_settlement list \<Rightarrow> submit_opts \<Rightarrow>
     ('e, string \<times> nat) result" where
  "submitSettlementBatch arcInvoke batch opts =
    res_bind (arcInvoke \<lparr> ac_rpcUrl = so_arcRpcUrl opts, ac_chainId = so_arcChainId opts,
        ac_contractAddress = so_escrowAddress opts, ac_method = ''settleBatch'',
        ac_proofs = map ps_proof batch, ac_publicSignals = map ps_publicSignals batch,
        ac_privateKey = so_relayerPrivateKey opts \<rparr>)
      (\<lambda>hash. Ok (hash, length batch))"


section \<open>Batches\<close>

text \<open>The reference: cut a list into pieces of \<open>k\<close> elements.\<close>

function chunks :: "nat \<Rightarrow> 'a list \<Rightarrow> 'a list list" where
  "chunks k xs = (if xs = [] \<or> k = 0 then [] else take k xs # chunks k (drop k xs))"
  by auto
termination
  by (relation "measure (\<lambda>(k, xs). length xs)") auto

declare chunks.simps [simp del]

lemma chunks_concat: "0 < k \<Longrightarrow> concat (chunks k xs) = xs"
  by (induction k xs rule: chunks.induct) (subst chunks.simps, auto)

lemma chunks_length: "b \<in> set (chunks k xs) \<Longrightarrow> b \<noteq> [] \<and> length b \<le> k"
proof (induction k xs rule: chunks.induct)
  case (1 k xs)
  then show ?case by (subst (asm) (2) chunks.simps) (auto split: if_splits)
qed

text \<open>No batch is wasted: only the last one may be smaller than the limit.\<close>

lemma chunks_full: "b \<in> set (butlast (chunks k xs)) \<Longrightarrow> length b = k"
proof (induction k xs rule: chunks.induct)
  case (1 k xs)
  show ?case
  proof (cases "xs = [] \<or> k = 0 \<or> chunks k (drop k xs) = []")
    case True
    then show ?thesis using 1(2) by (subst (asm) chunks.simps) (auto split: if_splits)
  next
    case False
    then have ne: "drop k xs \<noteq> []" by (auto simp: chunks.simps)
    have "chunks k xs = take k xs # chunks k (drop k xs)"
      using False by (subst chunks.simps) simp
    then have "b = take k xs \<or> b \<in> set (butlast (chunks k (drop k xs)))"
      using 1(2) False by auto
    then show ?thesis using 1(1) False ne by auto
  qed
qed

lemma js_slice_nonneg:
  "0 \<le> i \<Longrightarrow> 0 \<le> m \<Longrightarrow> js_slice xs i (i + m) = take (nat m) (drop (nat i) xs)"
  by (simp add: js_slice_def js_index_def min_def nat_add_distrib take_drop add.commute)

lemma batch_loop_chunks:
  "0 < k \<Longrightarrow> batch_loop (int k) xs (int i) = Some (chunks k (drop i xs))"
proof (induction "length xs - i" arbitrary: i rule: less_induct)
  case less
  show ?case
  proof (cases "i < length xs")
    case True
    have "batch_loop (int k) xs (int (i + k)) = Some (chunks k (drop (i + k) xs))"
      by (rule less(1)) (use True less(2) in auto)
    moreover have "chunks k (drop i xs) = take k (drop i xs) # chunks k (drop (i + k) xs)"
      using True less(2) by (subst chunks.simps) (simp add: add.commute)
    ultimately show ?thesis
      using True js_slice_nonneg [of "int i" "int k" xs] by (subst batch_loop.simps) (simp add: add.commute)
  next
    case False
    then show ?thesis by (subst batch_loop.simps) (simp add: chunks.simps)
  qed
qed

lemma batch_loop_diverges:
  assumes "m \<le> 0" "i < int (length xs)"
  shows "batch_loop m xs i = None"
proof -
  have "\<not> (m \<le> 0 \<and> i < int (length xs))" if "batch_loop m xs i = Some y" for y
  proof (rule batch_loop.raw_induct [where P = "\<lambda>m xs i y. \<not> (m \<le> 0 \<and> i < int (length xs))", OF _ that])
    fix f :: "int \<Rightarrow> 'a list \<Rightarrow> int \<Rightarrow> 'a list list option" and m ready i y
    assume IH: "\<And>m ready i y. f m ready i = Some y \<Longrightarrow> \<not> (m \<le> 0 \<and> i < int (length ready))"
      and "(if i < int (length ready)
            then Option.bind (f m ready (i + m)) (\<lambda>rest. Some (js_slice ready i (i + m) # rest))
            else Some []) = Some y"
    then show "\<not> (m \<le> 0 \<and> i < int (length ready))"
      by (cases "f m ready (i + m)") (auto split: if_splits dest!: IH)
  qed
  with assms show ?thesis by (cases "batch_loop m xs i") auto
qed


section \<open>Properties\<close>

text \<open>C13: with a positive batch size the selection always returns; the batches, one after the other,
  are exactly the ready settlements (near expiry or worth closing), each once, sorted by expiry with
  ties in arrival order; every batch is non-empty and within the limit, and only the last may be
  smaller than the limit.\<close>

theorem settlement_batches_correct:
  assumes "bp_maxBatchSize policy = int k" "0 < k"
  shows "\<exists>bs. selectSettlementBatches pending currentBlock policy = Some bs \<and>
    concat bs = sort_key ps_expiryBlock (filter (settlement_ready currentBlock policy) pending) \<and>
    (\<forall>b\<in>set bs. b \<noteq> [] \<and> length b \<le> k) \<and> (\<forall>b\<in>set (butlast bs). length b = k)"
proof -
  let ?ready = "sort_key ps_expiryBlock (filter (settlement_ready currentBlock policy) pending)"
  have "selectSettlementBatches pending currentBlock policy = Some (chunks k ?ready)"
    using batch_loop_chunks [OF assms(2), of ?ready 0]
    by (simp add: selectSettlementBatches_def Let_def assms(1))
  then show ?thesis
    using chunks_concat [OF assms(2)] chunks_length chunks_full by (intro exI conjI) blast+
qed

definition demo_pending :: "unit pending_settlement list" where
  "demo_pending = map (\<lambda>(c, e, a). \<lparr> ps_channelId = c, ps_proof = (), ps_publicSignals = [],
      ps_expiryBlock = e, ps_cumulative = a \<rparr>)
    [(1, 500, 10), (2, 120, 3), (3, 900, 1), (4, 105, 2)]"

definition demo_policy :: batch_policy where
  "demo_policy = \<lparr> bp_closeBeforeExpiryBlocks = 20, bp_minValueToClose = 10, bp_maxBatchSize = 2 \<rparr>"

theorem settlement_batches_correct_witness:
  "\<exists>bs. selectSettlementBatches demo_pending 100 demo_policy = Some bs \<and>
     map ps_channelId (concat bs) = [4, 2, 1] \<and> list_all (\<lambda>b. length b \<le> 2) bs"
proof -
  have "bp_maxBatchSize demo_policy = int 2" by (simp add: demo_policy_def)
  from settlement_batches_correct [OF this, of demo_pending 100]
  obtain bs where bs: "selectSettlementBatches demo_pending 100 demo_policy = Some bs"
    "concat bs = sort_key ps_expiryBlock (filter (settlement_ready 100 demo_policy) demo_pending)"
    "\<forall>b\<in>set bs. b \<noteq> [] \<and> length b \<le> 2" by auto
  moreover have "map ps_channelId (sort_key ps_expiryBlock (filter (settlement_ready 100 demo_policy) demo_pending)) = [4, 2, 1]"
    by (simp add: demo_pending_def demo_policy_def settlement_ready_def)
  ultimately show ?thesis by (auto simp: list_all_iff)
qed

text \<open>With a batch size that is not positive the loop never advances past the ready
  settlements: the selection does not return as soon as one settlement is ready.\<close>

theorem settlement_batches_diverge:
  assumes "bp_maxBatchSize policy \<le> 0" "s \<in> set pending" "settlement_ready currentBlock policy s"
  shows "selectSettlementBatches pending currentBlock policy = None"
proof -
  let ?ready = "sort_key ps_expiryBlock (filter (settlement_ready currentBlock policy) pending)"
  have "s \<in> set ?ready" using assms(2,3) by simp
  then have "0 < int (length ?ready)" by (metis length_pos_if_in_set of_nat_0_less_iff)
  then show ?thesis
    by (simp only: selectSettlementBatches_def Let_def batch_loop_diverges [OF assms(1)])
qed

theorem settlement_batches_diverge_witness:
  "selectSettlementBatches demo_pending 100 (demo_policy \<lparr> bp_maxBatchSize := 0 \<rparr>) = None"
  by (rule settlement_batches_diverge [where s = "hd demo_pending"])
     (simp_all add: demo_policy_def demo_pending_def settlement_ready_def)

end
