(* ===== verification/ModPoly.thy ===== *)
theory ModPoly
  imports Prelude
begin

text \<open>
  Arithmetic behind the secret sharing: congruence modulo an integer, integer
  polynomials as coefficient lists, and the two facts Shamir's scheme rests on.
  A polynomial that vanishes modulo \<open>M\<close> at as many points as it has
  coefficients is zero modulo \<open>M\<close>, and every assignment of values to points is
  met by one polynomial. Neither needs \<open>M\<close> to be prime: it is enough that the
  differences of the points are units modulo \<open>M\<close>.
\<close>

section \<open>Congruence\<close>

definition eqm :: "int \<Rightarrow> int \<Rightarrow> int \<Rightarrow> bool" where
  "eqm M a b = (M dvd (a - b))"

lemma eqm_mod: "eqm M a b \<longleftrightarrow> a mod M = b mod M"
  by (simp add: eqm_def mod_eq_dvd_iff)

lemma eqm_refl [simp, intro]: "eqm M a a"
  by (simp add: eqm_def)

lemma eqm_sym: "eqm M a b \<Longrightarrow> eqm M b a"
  by (simp add: eqm_mod)

lemma eqm_trans [trans]: "eqm M a b \<Longrightarrow> eqm M b c \<Longrightarrow> eqm M a c"
  by (simp add: eqm_mod)

lemma eqm_mod_left [simp]: "eqm M (a mod M) b \<longleftrightarrow> eqm M a b"
  by (simp add: eqm_mod)

lemma eqm_mod_right [simp]: "eqm M a (b mod M) \<longleftrightarrow> eqm M a b"
  by (simp add: eqm_mod)

lemma eqm_add: "eqm M a b \<Longrightarrow> eqm M c d \<Longrightarrow> eqm M (a + c) (b + d)"
  unfolding eqm_mod by (rule mod_add_cong)

lemma eqm_mult: "eqm M a b \<Longrightarrow> eqm M c d \<Longrightarrow> eqm M (a * c) (b * d)"
  unfolding eqm_mod by (rule mod_mult_cong)

lemma eqm_diff: "eqm M a b \<Longrightarrow> eqm M c d \<Longrightarrow> eqm M (a - c) (b - d)"
  unfolding eqm_mod by (rule mod_diff_cong)

lemma eqm_sum: "(\<And>i. i \<in> A \<Longrightarrow> eqm M (f i) (g i)) \<Longrightarrow> eqm M (sum f A) (sum g A)"
  by (induction A rule: infinite_finite_induct) (auto intro: eqm_add)

lemma eqm_prod: "(\<And>i. i \<in> A \<Longrightarrow> eqm M (f i) (g i)) \<Longrightarrow> eqm M (prod f A) (prod g A)"
  by (induction A rule: infinite_finite_induct) (auto intro: eqm_mult)

lemma eqm_cancel: "coprime u M \<Longrightarrow> eqm M (u * a) 0 \<Longrightarrow> eqm M a 0"
  by (simp add: eqm_def coprime_dvd_mult_right_iff coprime_commute)


section \<open>Polynomials as coefficient lists\<close>

fun pv :: "int list \<Rightarrow> int \<Rightarrow> int" where
  "pv [] x = 0"
| "pv (c # cs) x = c + x * pv cs x"

text \<open>The quotient of synthetic division by \<open>x - a\<close>.\<close>

fun pquot :: "int \<Rightarrow> int list \<Rightarrow> int list" where
  "pquot a [] = []"
| "pquot a [c] = []"
| "pquot a (c # d # cs) = pv (d # cs) a # pquot a (d # cs)"

lemma pquot_length: "length (pquot a cs) = length cs - 1"
  by (induction a cs rule: pquot.induct) auto

lemma pv_pquot: "pv cs x = pv cs a + (x - a) * pv (pquot a cs) x"
proof (induction a cs rule: pquot.induct)
  case (3 a c d cs)
  let ?p = "pv (d # cs)" and ?q = "pv (pquot a (d # cs)) x"
  have "c + x * ?p x = c + x * (?p a + (x - a) * ?q)"
    using 3 by simp
  also have "\<dots> = c + a * ?p a + (x - a) * (?p a + x * ?q)"
    by (simp only: algebra_simps)
  finally show ?case by simp
qed auto

lemma pquot_zero_coeffs:
  "list_all (\<lambda>c. eqm M c 0) (pquot a cs) \<Longrightarrow> eqm M (pv cs a) 0 \<Longrightarrow> list_all (\<lambda>c. eqm M c 0) cs"
proof (induction a cs rule: pquot.induct)
  case (3 a c d cs)
  then have tl: "eqm M (pv (d # cs) a) 0" "list_all (\<lambda>c. eqm M c 0) (d # cs)"
    by simp_all
  have "eqm M (pv (c # d # cs) a - a * pv (d # cs) a) (0 - a * 0)"
    by (intro eqm_diff eqm_mult eqm_refl tl 3(3))
  then show ?case using tl(2) by simp
qed auto

definition units_apart :: "int \<Rightarrow> int list \<Rightarrow> bool" where
  "units_apart M xs = sorted_wrt (\<lambda>x y. coprime (x - y) M) xs"

lemma coprime_diff_sym: "coprime (x - y) (M :: int) \<longleftrightarrow> coprime (y - x) M"
  by (metis coprime_minus_left_iff minus_diff_eq)

lemma units_apart_nth:
  assumes "units_apart M xs" "i < length xs" "j < length xs" "i \<noteq> j"
  shows "coprime (xs ! i - xs ! j) M"
proof (cases "i < j")
  case True
  then show ?thesis using assms by (simp add: units_apart_def sorted_wrt_iff_nth_less)
next
  case False
  then have "coprime (xs ! j - xs ! i) M"
    using assms by (simp add: units_apart_def sorted_wrt_iff_nth_less)
  then show ?thesis by (simp add: coprime_diff_sym)
qed

lemma vanishing_polynomial:
  assumes "units_apart M xs" "length cs \<le> length xs" "\<forall>x\<in>set xs. eqm M (pv cs x) 0"
  shows "list_all (\<lambda>c. eqm M c 0) cs"
  using assms
proof (induction xs arbitrary: cs)
  case (Cons a xs)
  have "eqm M (pv (pquot a cs) x) 0" if "x \<in> set xs" for x
  proof -
    have "coprime (x - a) M"
      using Cons.prems(1) that by (auto simp: units_apart_def coprime_diff_sym)
    moreover have "eqm M (pv cs x - pv cs a) (0 - 0)"
      by (intro eqm_diff) (use Cons.prems(3) that in auto)
    then have "eqm M ((x - a) * pv (pquot a cs) x) 0"
      using pv_pquot [of cs x a] by simp
    ultimately show ?thesis by (rule eqm_cancel)
  qed
  then have "list_all (\<lambda>c. eqm M c 0) (pquot a cs)"
    using Cons.IH [of "pquot a cs"] Cons.prems by (auto simp: units_apart_def pquot_length)
  then show ?case
    using pquot_zero_coeffs Cons.prems(3) by auto
qed simp

lemma pv_zero_coeffs: "list_all (\<lambda>c. eqm M c 0) cs \<Longrightarrow> eqm M (pv cs x) 0"
proof (induction cs)
  case (Cons c cs)
  then have "eqm M (c + x * pv cs x) (0 + x * 0)"
    by (intro eqm_add eqm_mult eqm_refl) auto
  then show ?case by simp
qed simp

text \<open>Functions that are polynomials with at most \<open>n\<close> coefficients.\<close>

definition polyfun :: "nat \<Rightarrow> (int \<Rightarrow> int) \<Rightarrow> bool" where
  "polyfun n f = (\<exists>cs. length cs \<le> n \<and> f = pv cs)"

fun padd :: "int list \<Rightarrow> int list \<Rightarrow> int list" where
  "padd [] ds = ds"
| "padd cs [] = cs"
| "padd (c # cs) (d # ds) = (c + d) # padd cs ds"

lemma pv_padd: "pv (padd cs ds) x = pv cs x + pv ds x"
  by (induction cs ds rule: padd.induct) (auto simp: algebra_simps)

lemma padd_length: "length (padd cs ds) = max (length cs) (length ds)"
  by (induction cs ds rule: padd.induct) auto

lemma pv_scale: "pv (map ((*) k) cs) x = k * pv cs x"
  by (induction cs) (auto simp: algebra_simps)

lemma polyfun_add: "polyfun n f \<Longrightarrow> polyfun n g \<Longrightarrow> polyfun n (\<lambda>x. f x + g x)"
  unfolding polyfun_def
  by (metis (no_types, lifting) ext max.bounded_iff padd_length pv_padd)

lemma polyfun_scale: "polyfun n f \<Longrightarrow> polyfun n (\<lambda>x. k * f x)"
  unfolding polyfun_def by (metis (no_types, lifting) ext length_map pv_scale)

lemma polyfun_const: "polyfun (Suc n) (\<lambda>x. k)"
  unfolding polyfun_def by (intro exI [of _ "[k]"]) (auto simp: fun_eq_iff)

lemma polyfun_linear:
  assumes "polyfun n f"
  shows "polyfun (Suc n) (\<lambda>x. (x - a) * f x)"
proof -
  obtain cs where cs: "length cs \<le> n" "f = pv cs"
    using assms by (auto simp: polyfun_def)
  have "(\<lambda>x. (x - a) * f x) = pv (padd (0 # cs) (map ((*) (- a)) cs))"
    by (auto simp: fun_eq_iff pv_padd pv_scale cs(2) algebra_simps)
  moreover have "length (padd (0 # cs) (map ((*) (- a)) cs)) \<le> Suc n"
    using cs(1) by (simp add: padd_length)
  ultimately show ?thesis unfolding polyfun_def by blast
qed

lemma polyfun_sum:
  "finite A \<Longrightarrow> (\<And>i. i \<in> A \<Longrightarrow> polyfun (Suc n) (f i)) \<Longrightarrow> polyfun (Suc n) (\<lambda>x. \<Sum>i\<in>A. f i x)"
  by (induction A rule: finite_induct) (auto intro: polyfun_add polyfun_const)

lemma polyfun_prod:
  "finite A \<Longrightarrow> polyfun (Suc (card A)) (\<lambda>x. \<Prod>j\<in>A. (x - a j))"
  by (induction A rule: finite_induct) (auto intro: polyfun_linear polyfun_const)


section \<open>Lagrange interpolation\<close>

definition lagrange :: "(int \<Rightarrow> int) \<Rightarrow> int list \<Rightarrow> int list \<Rightarrow> int \<Rightarrow> int" where
  "lagrange minv xs ys x =
    (\<Sum>i<length xs. ys ! i * minv (\<Prod>j\<in>{..<length xs} - {i}. (xs ! i - xs ! j)) *
       (\<Prod>j\<in>{..<length xs} - {i}. (x - xs ! j)))"

lemma polyfun_lagrange: "polyfun (length xs) (lagrange minv xs ys)"
proof (cases "xs = []")
  case True
  then show ?thesis by (auto simp: polyfun_def lagrange_def fun_eq_iff)
next
  case False
  then obtain n where n: "length xs = Suc n" by (cases xs) auto
  have "polyfun (Suc n) (\<lambda>x. \<Prod>j\<in>{..<length xs} - {i}. (x - xs ! j))" if "i < length xs" for i
    using polyfun_prod [of "{..<length xs} - {i}" "\<lambda>j. xs ! j"] that n by simp
  then show ?thesis
    unfolding lagrange_def n by (intro polyfun_sum polyfun_scale) (auto simp: n)
qed

lemma lagrange_meets:
  assumes "units_apart M xs" "i < length xs"
    "\<And>a. coprime a M \<Longrightarrow> eqm M (a * minv a) 1"
  shows "eqm M (lagrange minv xs ys (xs ! i)) (ys ! i)"
proof -
  let ?d = "\<lambda>i. \<Prod>j\<in>{..<length xs} - {i}. (xs ! i - xs ! j)"
  let ?t = "\<lambda>k. ys ! k * minv (?d k) * (\<Prod>j\<in>{..<length xs} - {k}. (xs ! i - xs ! j))"
  have "?t k = 0" if "k < length xs" "k \<noteq> i" for k
    using assms(2) that by (auto intro!: prod_zero)
  then have "lagrange minv xs ys (xs ! i) = (\<Sum>k\<in>{i}. ?t k)"
    unfolding lagrange_def using assms(2) by (intro sum.mono_neutral_right) auto
  then have "lagrange minv xs ys (xs ! i) = ys ! i * (?d i * minv (?d i))"
    by (simp add: algebra_simps)
  moreover have "coprime (?d i) M"
    using units_apart_nth [OF assms(1,2)] by (auto intro: prod_coprime_left)
  then have "eqm M (ys ! i * (?d i * minv (?d i))) (ys ! i * 1)"
    using assms(3) by (intro eqm_mult eqm_refl)
  ultimately show ?thesis by simp
qed

lemma lagrange_unique:
  assumes "units_apart M xs" "length cs \<le> length xs" "length ys = length xs"
    "\<And>a. coprime a M \<Longrightarrow> eqm M (a * minv a) 1"
    "\<And>i. i < length xs \<Longrightarrow> eqm M (pv cs (xs ! i)) (ys ! i)"
  shows "eqm M (lagrange minv xs ys x) (pv cs x)"
proof -
  obtain ls where ls: "length ls \<le> length xs" "lagrange minv xs ys = pv ls"
    using polyfun_lagrange [of xs minv ys] by (auto simp: polyfun_def)
  let ?ds = "padd ls (map ((*) (- 1)) cs)"
  have "eqm M (pv ?ds (xs ! i)) 0" if "i < length xs" for i
  proof -
    have "eqm M (pv ls (xs ! i) - pv cs (xs ! i)) (ys ! i - ys ! i)"
      using lagrange_meets [OF assms(1) that assms(4), where ys = ys] assms(5) [OF that] ls(2)
      by (intro eqm_diff) simp_all
    then show ?thesis using pv_scale [of "-1" cs "xs ! i"] by (simp add: pv_padd)
  qed
  then have "\<forall>z\<in>set xs. eqm M (pv ?ds z) 0"
    by (auto simp: in_set_conv_nth)
  then have "list_all (\<lambda>c. eqm M c 0) ?ds"
    using vanishing_polynomial [OF assms(1)] assms(2) ls(1) by (simp add: padd_length)
  from pv_zero_coeffs [OF this, of x] have "eqm M (pv ls x - pv cs x) 0"
    using pv_scale [of "-1" cs x] by (simp add: pv_padd)
  then show ?thesis using ls(2) by (simp add: eqm_def)
qed

end
