(* ===== verification/Shamir.thy ===== *)
theory Shamir
  imports ModPoly Streams Json
begin

text \<open>
  Shamir secret sharing, \<open>packages/mpc-crypto/src/shamir.ts\<close>: reduction modulo the
  BN254 prime, the extended-Euclid inverse, rejection sampling, splitting and
  Lagrange reconstruction, and the transport encoding of shares. The outcomes of
  \<open>randomBytes(32)\<close> are a list of draws that the sampling loops consume; running
  out of draws is the model's own \<open>DrawsExhausted\<close>.
\<close>

record share =
  sh_x :: int
  sh_y :: int

datatype shamir_error = InvalidThreshold | DrawsExhausted

abbreviation field_P :: int where
  "field_P \<equiv> bn254_r"

definition modp :: "int \<Rightarrow> int" where
  "modp x = js_mod (js_mod x field_P + field_P) field_P"

text \<open>The loop of \<open>modinv\<close> on \<open>(old_r, r)\<close> and \<open>(old_s, s)\<close>; it returns \<open>old_s\<close>.\<close>

lemma js_mod_less: "b \<noteq> 0 \<Longrightarrow> \<bar>js_mod a b\<bar> < \<bar>b\<bar>"
  by (auto simp: js_mod_def abs_mult sgn_if)

function egcd_loop :: "int \<Rightarrow> int \<Rightarrow> int \<Rightarrow> int \<Rightarrow> int" where
  "egcd_loop old_r r old_s s =
    (if r = 0 then old_s
     else let q = js_div old_r r in egcd_loop r (old_r - q * r) s (old_s - q * s))"
  by auto
termination
proof (relation "measure (\<lambda>(old_r, r, old_s, s). nat \<bar>r\<bar>)")
  fix old_r r old_s s q :: int
  assume "r \<noteq> 0" "q = js_div old_r r"
  moreover from this have "old_r - q * r = js_mod old_r r"
    using js_div_mod [of r old_r] by simp
  ultimately show "((r, old_r - q * r, s, old_s - q * s), (old_r, r, old_s, s))
      \<in> measure (\<lambda>(old_r, r, old_s, s). nat \<bar>r\<bar>)"
    using js_mod_less [of r old_r] by simp
qed simp

declare egcd_loop.simps [simp del]

definition modinv :: "int \<Rightarrow> int" where
  "modinv a = modp (egcd_loop (modp a) field_P 1 0)"

definition REJECTION_LIMIT :: int where
  "REJECTION_LIMIT = (2 ^ 256 div field_P) * field_P"

text \<open>\<open>BigInt("0x" + buf.toString("hex"))\<close>: the bytes read big-endian.\<close>

definition be_value :: "bytes \<Rightarrow> int" where
  "be_value bs = foldl (\<lambda>acc b. 256 * acc + uint b) 0 bs"

fun randomFieldElement :: "bytes list \<Rightarrow> (shamir_error, int \<times> bytes list) result" where
  "randomFieldElement [] = Throw DrawsExhausted"
| "randomFieldElement (buf # draws) =
    (let raw = be_value buf in
     if raw \<ge> REJECTION_LIMIT then randomFieldElement draws else Ok (js_mod raw field_P, draws))"

text \<open>\<open>for (let i = 1; i < threshold; i++) coeffs.push(randomFieldElement())\<close>\<close>

fun random_coeffs :: "nat \<Rightarrow> bytes list \<Rightarrow> (shamir_error, int list \<times> bytes list) result" where
  "random_coeffs 0 draws = Ok ([], draws)"
| "random_coeffs (Suc n) draws =
    res_bind (randomFieldElement draws) (\<lambda>(c, ds).
      res_bind (random_coeffs n ds) (\<lambda>(cs, ds'). Ok (c # cs, ds')))"

definition eval_share :: "int list \<Rightarrow> int \<Rightarrow> int" where
  "eval_share coeffs x = foldr (\<lambda>c y. modp (y * x + c)) coeffs 0"

definition shamirSplit ::
  "bytes list \<Rightarrow> int \<Rightarrow> nat \<Rightarrow> nat \<Rightarrow> (shamir_error, share list \<times> bytes list) result" where
  "shamirSplit draws secret threshold tot =
    (if threshold < 2 \<or> threshold > tot then Throw InvalidThreshold
     else res_bind (random_coeffs (threshold - 1) draws) (\<lambda>(cs, ds).
       let coeffs = modp secret # cs in
       Ok (map (\<lambda>i. let x = int (i + 1) in \<lparr> sh_x = x, sh_y = eval_share coeffs x \<rparr>) [0..<tot], ds)))"

definition lagrange_num_den :: "share list \<Rightarrow> nat \<Rightarrow> int \<times> int" where
  "lagrange_num_den shares i =
    fold (\<lambda>j (num, den).
        if i = j then (num, den)
        else (modp (num * modp (- sh_x (shares ! j))), modp (den * (sh_x (shares ! i) - sh_x (shares ! j)))))
      [0..<length shares] (1, 1)"

definition shamirReconstruct :: "share list \<Rightarrow> int" where
  "shamirReconstruct shares =
    fold (\<lambda>i secret. let (num, den) = lagrange_num_den shares i in
        modp (secret + modp (sh_y (shares ! i) * modp (num * modinv den))))
      [0..<length shares] 0"

definition encodeShare :: "share \<Rightarrow> jsval" where
  "encodeShare s = VObj [(''x'', VStr (int_to_string (sh_x s))), (''y'', VStr (int_to_string (sh_y s)))]"

text \<open>\<open>None\<close> is the error thrown by \<open>BigInt\<close>.\<close>

definition decodeShare :: "jsval \<Rightarrow> share option" where
  "decodeShare e =
    (case (to_BigInt (js_get e ''x''), to_BigInt (js_get e ''y'')) of
       (Some x, Some y) \<Rightarrow> Some \<lparr> sh_x = x, sh_y = y \<rparr>
     | _ \<Rightarrow> None)"


section \<open>Field arithmetic\<close>

lemma field_P_pos [simp]: "0 < field_P" "field_P \<noteq> 0" "\<not> field_P \<le> 0" "\<not> field_P < 0" "0 \<le> field_P"
  by (simp_all add: bn254_r_def)

lemma js_mod_cases: "0 < b \<Longrightarrow> js_mod a b = (if 0 \<le> a then a mod b else - ((- a) mod b))"
  by (auto simp: js_mod_def sgn_if)

lemma modp_mod: "modp x = x mod field_P"
proof (cases "0 \<le> x")
  case True
  then show ?thesis by (simp add: modp_def js_mod_cases pos_mod_sign add_nonneg_nonneg)
next
  case False
  have lt: "(- x) mod field_P < field_P" by simp
  then have "modp x = (- ((- x) mod field_P) + field_P) mod field_P"
    using False by (simp add: modp_def js_mod_cases less_imp_le)
  also have "\<dots> = x mod field_P"
    by (metis add.inverse_inverse mod_add_self2 mod_minus_eq)
  finally show ?thesis .
qed

lemma modp_range: "0 \<le> modp x" "modp x < field_P"
  by (simp_all add: modp_mod)

lemma modp_id: "0 \<le> x \<Longrightarrow> x < field_P \<Longrightarrow> modp x = x"
  by (simp add: modp_mod)

lemma eqm_modp [simp]: "eqm field_P (modp a) b \<longleftrightarrow> eqm field_P a b" "eqm field_P b (modp a) \<longleftrightarrow> eqm field_P b a"
  by (simp_all add: modp_mod)

lemma modp_eq_iff: "modp a = modp b \<longleftrightarrow> eqm field_P a b"
  by (simp add: modp_mod eqm_mod)

text \<open>The loop keeps \<open>old_r = old_s * a\<close> modulo \<open>P\<close> and ends with the gcd.\<close>

lemma egcd_loop_correct:
  assumes "0 \<le> old_r" "0 \<le> r" "eqm M old_r (old_s * a)" "eqm M r (s * a)"
  shows "eqm M (egcd_loop old_r r old_s s * a) (gcd old_r r)"
  using assms
proof (induction old_r r old_s s rule: egcd_loop.induct)
  case (1 old_r r old_s s)
  show ?case
  proof (cases "r = 0")
    case True
    then show ?thesis using 1(2,4) by (subst egcd_loop.simps) (simp add: eqm_sym)
  next
    case False
    let ?q = "js_div old_r r"
    have m: "old_r - ?q * r = old_r mod r"
      using 1(2,3) False by (simp add: minus_div_mult_eq_mod)
    have "eqm M (old_r - ?q * r) (old_s * a - ?q * (s * a))"
      using 1(4,5) by (intro eqm_diff eqm_mult eqm_refl)
    moreover have "0 \<le> old_r - ?q * r"
      using 1(3) False m by simp
    ultimately have "eqm M (egcd_loop r (old_r - ?q * r) s (old_s - ?q * s) * a) (gcd r (old_r - ?q * r))"
      using 1(3,5) False by (intro 1(1)) (simp_all only: left_diff_distrib mult.assoc refl not_False_eq_True)
    moreover have "gcd r (old_r - ?q * r) = gcd old_r r"
      using m gcd_red_int [of old_r r] by simp
    ultimately show ?thesis
      using False by (subst egcd_loop.simps) (simp add: Let_def)
  qed
qed

lemma modinv_correct:
  assumes "coprime a field_P"
  shows "eqm field_P (a * modinv a) 1"
proof -
  have "eqm field_P (egcd_loop (modp a) field_P 1 0 * modp a) (gcd (modp a) field_P)"
    by (rule egcd_loop_correct) (auto simp: modp_range eqm_def)
  moreover have "gcd (modp a) field_P = 1"
    using assms by (simp add: modp_mod gcd.commute [of _ field_P] gcd_red_int [symmetric] coprime_iff_gcd_eq_1)
  ultimately have "eqm field_P (modp a * egcd_loop (modp a) field_P 1 0) 1"
    by (simp add: mult.commute)
  moreover have "eqm field_P (a * modinv a) (modp a * egcd_loop (modp a) field_P 1 0)"
    unfolding modinv_def by (intro eqm_mult) auto
  ultimately show ?thesis by (rule eqm_trans [rotated])
qed

lemma modinv_range: "0 \<le> modinv a" "modinv a < field_P"
  by (simp_all add: modinv_def modp_range)


section \<open>Splitting and reconstruction\<close>

lemma eval_share_pv: "eqm field_P (eval_share cs x) (pv cs x)"
proof (induction cs)
  case (Cons c cs)
  have "eqm field_P (eval_share cs x * x + c) (pv cs x * x + c)"
    using Cons by (intro eqm_add eqm_mult eqm_refl)
  then show ?case by (simp add: eval_share_def mult.commute add.commute)
qed (simp add: eval_share_def)

lemma eval_share_range: "cs \<noteq> [] \<Longrightarrow> 0 \<le> eval_share cs x \<and> eval_share cs x < field_P"
  by (cases cs) (simp_all add: eval_share_def modp_range)

lemma eval_share_eq: "cs \<noteq> [] \<Longrightarrow> eval_share cs x = modp (pv cs x)"
  using eval_share_pv [of cs x] eval_share_range [of cs x] by (simp add: modp_mod eqm_mod)

lemma num_den_fold:
  assumes "i < length shares" "n \<le> length shares"
  shows "let (num, den) = fold (\<lambda>j (num, den).
        if i = j then (num, den)
        else (modp (num * modp (- sh_x (shares ! j))), modp (den * (sh_x (shares ! i) - sh_x (shares ! j)))))
      [0..<n] (1, 1)
    in eqm field_P num (\<Prod>j\<in>{..<n} - {i}. (0 - sh_x (shares ! j))) \<and>
       eqm field_P den (\<Prod>j\<in>{..<n} - {i}. (sh_x (shares ! i) - sh_x (shares ! j)))"
  using assms(2)
proof (induction n)
  case (Suc n)
  let ?f = "\<lambda>j (num, den). if i = j then (num, den)
        else (modp (num * modp (- sh_x (shares ! j))), modp (den * (sh_x (shares ! i) - sh_x (shares ! j))))"
  obtain num den where nd: "fold ?f [0..<n] (1, 1) = (num, den)" by fastforce
  have ih: "eqm field_P num (\<Prod>j\<in>{..<n} - {i}. (0 - sh_x (shares ! j)))"
    "eqm field_P den (\<Prod>j\<in>{..<n} - {i}. (sh_x (shares ! i) - sh_x (shares ! j)))"
    using Suc nd by simp_all
  show ?case
  proof (cases "i = n")
    case True
    then have "{..<Suc n} - {i} = {..<n} - {i}" by auto
    then show ?thesis using True nd ih by simp
  next
    case False
    then have set: "{..<Suc n} - {i} = insert n ({..<n} - {i})" by auto
    have "eqm field_P (num * modp (- sh_x (shares ! n))) ((\<Prod>j\<in>{..<n} - {i}. (0 - sh_x (shares ! j))) * (0 - sh_x (shares ! n)))"
      by (intro eqm_mult ih) simp
    moreover have "eqm field_P (den * (sh_x (shares ! i) - sh_x (shares ! n)))
        ((\<Prod>j\<in>{..<n} - {i}. (sh_x (shares ! i) - sh_x (shares ! j))) * (sh_x (shares ! i) - sh_x (shares ! n)))"
      by (intro eqm_mult ih eqm_refl)
    ultimately show ?thesis using False nd unfolding set by (simp add: mult.commute)
  qed
qed simp

lemma reconstruct_fold:
  assumes "units_apart field_P (map sh_x shares)" "n \<le> length shares"
  shows "eqm field_P
    (fold (\<lambda>i secret. let (num, den) = lagrange_num_den shares i in
        modp (secret + modp (sh_y (shares ! i) * modp (num * modinv den)))) [0..<n] 0)
    (\<Sum>i<n. sh_y (shares ! i) * modinv (\<Prod>j\<in>{..<length shares} - {i}. (sh_x (shares ! i) - sh_x (shares ! j))) *
       (\<Prod>j\<in>{..<length shares} - {i}. (0 - sh_x (shares ! j))))"
  using assms(2)
proof (induction n)
  case (Suc n)
  obtain num den where nd: "lagrange_num_den shares n = (num, den)" by fastforce
  let ?N = "\<Prod>j\<in>{..<length shares} - {n}. (0 - sh_x (shares ! j))"
  let ?D = "\<Prod>j\<in>{..<length shares} - {n}. (sh_x (shares ! n) - sh_x (shares ! j))"
  have "eqm field_P num ?N" and D: "eqm field_P den ?D"
    using num_den_fold [of n shares "length shares"] Suc.prems nd by (simp_all add: lagrange_num_den_def)
  moreover have "modinv den = modinv ?D"
    using D by (simp add: modinv_def modp_eq_iff [symmetric])
  ultimately have tm: "eqm field_P (modp (sh_y (shares ! n) * modp (num * modinv den))) (sh_y (shares ! n) * (?N * modinv ?D))"
    by (simp add: eqm_mult)
  show ?case
    using eqm_add [OF Suc.IH tm] Suc.prems nd by (simp add: algebra_simps)
qed simp

lemma reconstruct_lagrange:
  assumes "units_apart field_P (map sh_x shares)"
  shows "eqm field_P (shamirReconstruct shares) (lagrange modinv (map sh_x shares) (map sh_y shares) 0)"
proof -
  have "lagrange modinv (map sh_x shares) (map sh_y shares) 0 =
    (\<Sum>i<length shares. sh_y (shares ! i) * modinv (\<Prod>j\<in>{..<length shares} - {i}. (sh_x (shares ! i) - sh_x (shares ! j))) *
       (\<Prod>j\<in>{..<length shares} - {i}. (0 - sh_x (shares ! j))))"
    unfolding lagrange_def by (intro sum.cong prod.cong arg_cong2 [where f = "(*)"] arg_cong [where f = modinv]) auto
  then show ?thesis
    using reconstruct_fold [OF assms order_refl] by (simp add: shamirReconstruct_def)
qed

lemma reconstruct_range: "0 \<le> shamirReconstruct shares \<and> shamirReconstruct shares < field_P"
proof -
  have "0 \<le> fold (\<lambda>i a. modp (g i a)) is z \<and> fold (\<lambda>i a. modp (g i a)) is z < field_P"
    if "0 \<le> z" "z < field_P" for g :: "nat \<Rightarrow> int \<Rightarrow> int" and "is" z
    using that by (induction "is" arbitrary: z) (auto simp: modp_range)
  from this [of 0 "\<lambda>i secret. secret + modp (sh_y (shares ! i) *
      modp (fst (lagrange_num_den shares i) * modinv (snd (lagrange_num_den shares i))))"]
  show ?thesis by (simp add: shamirReconstruct_def case_prod_unfold Let_def)
qed

lemma reconstruct_pv:
  assumes "units_apart field_P (map sh_x shares)" "length cs \<le> length shares"
    "\<forall>s\<in>set shares. eqm field_P (sh_y s) (pv cs (sh_x s))"
  shows "shamirReconstruct shares = modp (pv cs 0)"
proof -
  have "eqm field_P (lagrange modinv (map sh_x shares) (map sh_y shares) 0) (pv cs 0)"
    using assms modinv_correct
    by (intro lagrange_unique) (auto simp: eqm_sym)
  with reconstruct_lagrange [OF assms(1)] have "eqm field_P (shamirReconstruct shares) (pv cs 0)"
    by (rule eqm_trans)
  then show ?thesis
    using reconstruct_range by (metis modp_eq_iff modp_id)
qed


section \<open>Shares of a split\<close>

lemma randomFieldElement_range:
  "randomFieldElement draws = Ok (c, ds) \<Longrightarrow> 0 \<le> c \<and> c < field_P"
proof (induction draws rule: randomFieldElement.induct)
  case (2 buf draws)
  have "0 \<le> be_value buf"
    unfolding be_value_def by (induction buf rule: rev_induct) auto
  then show ?case using 2 by (auto simp: Let_def split: if_splits)
qed simp

lemma random_coeffs_ok:
  "random_coeffs n draws = Ok (cs, ds) \<Longrightarrow> length cs = n \<and> (\<forall>c\<in>set cs. 0 \<le> c \<and> c < field_P)"
proof (induction n arbitrary: draws cs)
  case (Suc n)
  then show ?case by (force simp: res_simps dest: randomFieldElement_range)
qed simp

definition shares_of :: "int list \<Rightarrow> nat \<Rightarrow> share list" where
  "shares_of coeffs n = map (\<lambda>i. \<lparr> sh_x = int (i + 1), sh_y = eval_share coeffs (int (i + 1)) \<rparr>) [0..<n]"

lemma shamirSplit_Ok:
  "shamirSplit draws v t n = Ok (shs, ds) \<longleftrightarrow>
    2 \<le> t \<and> t \<le> n \<and> (\<exists>cs. random_coeffs (t - 1) draws = Ok (cs, ds) \<and> shs = shares_of (modp v # cs) n)"
  by (auto simp: shamirSplit_def shares_of_def res_simps Let_def not_less)

lemma shares_of_members: "s \<in> set (shares_of cs n) \<longleftrightarrow>
    1 \<le> sh_x s \<and> sh_x s \<le> int n \<and> sh_y s = eval_share cs (sh_x s)"
proof
  assume r: "1 \<le> sh_x s \<and> sh_x s \<le> int n \<and> sh_y s = eval_share cs (sh_x s)"
  then have "s = \<lparr> sh_x = int (nat (sh_x s - 1) + 1), sh_y = eval_share cs (int (nat (sh_x s - 1) + 1)) \<rparr>"
    by (intro share.equality) auto
  moreover have "nat (sh_x s - 1) < n" using r by linarith
  ultimately show "s \<in> set (shares_of cs n)"
    unfolding shares_of_def by (metis (no_types, lifting) atLeastLessThan_iff image_eqI list.set_map set_upt zero_le)
qed (auto simp: shares_of_def)

lemma shares_of_distinct: "distinct (shares_of cs n)"
  by (auto simp: shares_of_def distinct_map inj_on_def)

lemma shares_of_x_inj: "s \<in> set (shares_of cs n) \<Longrightarrow> s' \<in> set (shares_of cs n) \<Longrightarrow> sh_x s = sh_x s' \<Longrightarrow> s = s'"
  by (auto simp: shares_of_members intro: share.equality)

text \<open>Committees of up to 64 nodes: every non-zero difference of their indices is a unit.\<close>

definition max_committee :: nat where
  "max_committee = 64"

text \<open>The least common multiple of 1, ..., 63, and its quotients by 2, ..., 63.\<close>

definition small_lcm :: int where
  "small_lcm = 591133442051411133755680800"

definition small_cofactors :: "int list" where
  "small_cofactors =
    [295566721025705566877840400, 197044480683803711251893600, 147783360512852783438920200,
     118226688410282226751136160, 98522240341901855625946800, 84447634578773019107954400,
     73891680256426391719460100, 65681493561267903750631200, 59113344205141113375568080,
     53739403822855557614152800, 49261120170950927812973400, 45471803234723933365821600,
     42223817289386509553977200, 39408896136760742250378720, 36945840128213195859730050,
     34772555414788890220922400, 32840746780633951875315600, 31112286423758480723983200,
     29556672102570556687784040, 28149211526257673035984800, 26869701911427778807076400,
     25701454002235266685029600, 24630560085475463906486700, 23645337682056445350227232,
     22735901617361966682910800, 21893831187089301250210400, 21111908644693254776988600,
     20383911794876245991575200, 19704448068380371125189360, 19068820711335843024376800,
     18472920064106597929865025, 17913134607618519204717600, 17386277707394445110461200,
     16889526915754603821590880, 16420373390316975937657800, 15976579514903003615018400,
     15556143211879240361991600, 15157267744907977788607200, 14778336051285278343892020,
     14417888830522222774528800, 14074605763128836517992400, 13747289350032817064085600,
     13434850955713889403538200, 13136298712253580750126240, 12850727001117633342514800,
     12577307277689598590546400, 12315280042737731953243350, 12063947796967574158279200,
     11822668841028222675113616, 11590851804929630073640800, 11367950808680983341455400,
     11153461170781342146333600, 10946915593544650625105200, 10747880764571111522830560,
     10555954322346627388494300, 10370762141252826907994400, 10191955897438122995787600,
     10019210882227307351791200, 9852224034190185562594680, 9690712164777231700912800,
     9534410355667921512188400, 9383070508752557678661600]"

lemma coprime_small_lcm: "coprime small_lcm field_P"
proof (rule coprimeI)
  have bezout: "field_P * 443600074225912605163561153 =
      1 + 16425438778979204739803883176177230191496595264918867760239569290145954593158 * small_lcm"
    by (simp add: bn254_r_def small_lcm_def)
  fix c assume "c dvd small_lcm" "c dvd field_P"
  then show "is_unit c"
    using bezout by (metis dvd_add_left_iff dvd_mult dvd_mult2)
qed

lemma small_cofactors_ok:
  "list_all (\<lambda>(d, e). d * e = small_lcm) (zip [2..63] small_cofactors)"
  by (simp add: small_cofactors_def small_lcm_def)

lemma small_units: "d \<noteq> 0 \<Longrightarrow> \<bar>d\<bar> < int max_committee \<Longrightarrow> coprime d field_P"
proof -
  assume d: "d \<noteq> 0" "\<bar>d\<bar> < int max_committee"
  have "coprime \<bar>d\<bar> field_P"
  proof (cases "\<bar>d\<bar> = 1")
    case False
    define i where "i = nat (\<bar>d\<bar> - 2)"
    have "2 \<le> \<bar>d\<bar>" using d(1) False by linarith
    then have i: "i < 62" "2 + int i = \<bar>d\<bar>"
      using d(2) by (simp_all add: i_def max_committee_def)
    then have nth: "[2..63] ! i = \<bar>d\<bar>"
      by (subst nth_upto) simp_all
    have "length small_cofactors = 62" by (simp add: small_cofactors_def)
    then have "(\<bar>d\<bar>, small_cofactors ! i) \<in> set (zip [2..63] small_cofactors)"
      unfolding in_set_zip using i nth by (intro exI [of _ i]) simp
    then have "\<bar>d\<bar> * small_cofactors ! i = small_lcm"
      using small_cofactors_ok unfolding list_all_iff by blast
    then have "\<bar>d\<bar> dvd small_lcm" by (metis dvd_triv_left)
    then show ?thesis
      using coprime_small_lcm by (meson coprime_common_divisor coprimeI dvd_trans)
  qed simp
  then show ?thesis by simp
qed

lemma units_apart_small:
  assumes "distinct xs" "\<forall>x\<in>set xs. 0 \<le> x \<and> x < int max_committee"
  shows "units_apart field_P xs"
  unfolding units_apart_def sorted_wrt_iff_nth_less
proof (intro allI impI)
  fix i j assume ij: "i < j" "j < length xs"
  then have "xs ! i \<noteq> xs ! j" using assms(1) by (simp add: nth_eq_iff_index_eq)
  moreover have "0 \<le> xs ! i" "xs ! i < int max_committee" "0 \<le> xs ! j" "xs ! j < int max_committee"
    using assms(2) ij by auto
  ultimately show "coprime (xs ! i - xs ! j) field_P"
    by (intro small_units) linarith+
qed

lemma quorum_units:
  assumes "distinct q" "set q \<subseteq> set (shares_of cs n)" "n < max_committee"
  shows "units_apart field_P (map sh_x q)"
proof (rule units_apart_small)
  show "distinct (map sh_x q)"
    using assms(1,2) shares_of_x_inj [of _ cs n] by (simp add: distinct_map inj_on_def subset_eq)
  show "\<forall>x\<in>set (map sh_x q). 0 \<le> x \<and> x < int max_committee"
    using assms(2,3) by (fastforce simp: shares_of_members subset_eq)
qed

lemma reconstruct_shares_of:
  assumes "distinct q" "set q \<subseteq> set (shares_of cs n)" "n < max_committee" "length cs \<le> length q" "cs \<noteq> []"
  shows "shamirReconstruct q = modp (hd cs)"
proof -
  have "shamirReconstruct q = modp (pv cs 0)"
    using assms by (intro reconstruct_pv quorum_units) (auto simp: shares_of_members eval_share_pv)
  then show ?thesis using assms(5) by (cases cs) auto
qed


section \<open>The contract of a threshold scheme\<close>

locale threshold_sharing =
  fixes split :: "'r \<Rightarrow> int \<Rightarrow> nat \<Rightarrow> nat \<Rightarrow> ('e, 's list \<times> 'r) result"
    and reconstruct :: "'s list \<Rightarrow> int"
    and modulus :: int
    and limit :: nat
  assumes split_shape: "split r v t n = Ok (shs, r') \<Longrightarrow> length shs = n \<and> distinct shs \<and> 0 < t \<and> t \<le> n"
    and quorum_reconstructs: "split r v t n = Ok (shs, r') \<Longrightarrow> n < limit \<Longrightarrow> distinct q \<Longrightarrow>
      set q \<subseteq> set shs \<Longrightarrow> t \<le> length q \<Longrightarrow> reconstruct q = v mod modulus"
begin

lemma quorums_agree:
  assumes "split r v t n = Ok (shs, r')" "n < limit" "distinct q" "distinct q'"
    "set q \<subseteq> set shs" "set q' \<subseteq> set shs" "t \<le> length q" "t \<le> length q'"
  shows "reconstruct q = reconstruct q'"
  using assms quorum_reconstructs by metis

lemma amount_recovered:
  assumes "split r v t n = Ok (shs, r')" "n < limit" "0 \<le> v" "v < modulus"
    "distinct q" "set q \<subseteq> set shs" "t \<le> length q"
  shows "reconstruct q = v"
  using quorum_reconstructs [OF assms(1,2,5,6,7)] assms(3,4) by simp

lemma responding_nodes_recover:
  assumes "split r v t n = Ok (shs, r')" "n < limit" "0 \<le> v" "v < modulus"
    "distinct ks" "\<forall>k\<in>set ks. k < n" "t \<le> length ks"
  shows "reconstruct (map (nth shs) ks) = v"
proof (rule amount_recovered [OF assms(1-4)])
  note shape = split_shape [OF assms(1)]
  show "distinct (map ((!) shs) ks)"
    using assms(5,6) shape by (auto simp: distinct_map inj_on_def nth_eq_iff_index_eq)
  show "set (map ((!) shs) ks) \<subseteq> set shs"
    using assms(6) shape by auto
qed (use assms(7) in simp)

end

interpretation shamir: threshold_sharing shamirSplit shamirReconstruct field_P max_committee
proof
  fix draws v t n shs ds
  assume "shamirSplit draws v t n = Ok (shs, ds)"
  then show "length shs = n \<and> distinct shs \<and> 0 < t \<and> t \<le> n"
    using shares_of_distinct by (auto simp: shamirSplit_Ok shares_of_def)
next
  fix draws v t n shs ds q
  assume split: "shamirSplit draws v t n = Ok (shs, ds)" and q: "n < max_committee" "distinct q"
    "set q \<subseteq> set shs" "t \<le> length q"
  then obtain cs where "random_coeffs (t - 1) draws = Ok (cs, ds)" "shs = shares_of (modp v # cs) n" "2 \<le> t"
    by (auto simp: shamirSplit_Ok)
  then show "shamirReconstruct q = v mod field_P"
    using reconstruct_shares_of [of q "modp v # cs" n] q random_coeffs_ok [of "t - 1" draws cs ds]
    by (simp add: modp_mod)
qed


section \<open>Secrecy\<close>

definition coeffs_ok :: "nat \<Rightarrow> int list \<Rightarrow> bool" where
  "coeffs_ok n cs = (length cs = n \<and> (\<forall>c\<in>set cs. 0 \<le> c \<and> c < field_P))"

lemma pv_replicate_zero: "pv (cs @ replicate k 0) x = pv cs x"
proof (induction cs)
  case Nil
  show ?case by (induction k) auto
qed auto

lemma pv_map_modp: "eqm field_P (pv (map modp cs) x) (pv cs x)"
  by (induction cs) (auto intro!: eqm_add eqm_mult)

lemma interpolation_exists:
  assumes "units_apart field_P xs" "length ys = length xs" "xs \<noteq> []"
  shows "\<exists>cs. coeffs_ok (length xs) cs \<and> (\<forall>i<length xs. eqm field_P (pv cs (xs ! i)) (ys ! i))"
proof -
  obtain ls where ls: "length ls \<le> length xs" "lagrange modinv xs ys = pv ls"
    using polyfun_lagrange [of xs modinv ys] by (auto simp: polyfun_def)
  let ?cs = "map modp (ls @ replicate (length xs - length ls) 0)"
  have "eqm field_P (pv ?cs (xs ! i)) (ys ! i)" if "i < length xs" for i
  proof -
    have "eqm field_P (pv ?cs (xs ! i)) (pv ls (xs ! i))"
      using pv_map_modp [of "ls @ replicate (length xs - length ls) 0"] by (simp only: pv_replicate_zero)
    also have "eqm field_P (pv ls (xs ! i)) (ys ! i)"
      using lagrange_meets [OF assms(1) that modinv_correct, where ys = ys] ls(2) by simp
    finally show ?thesis .
  qed
  moreover have "coeffs_ok (length xs) ?cs"
    using ls(1) by (auto simp: coeffs_ok_def modp_range)
  ultimately show ?thesis by blast
qed

lemma interpolation_unique:
  assumes "units_apart field_P xs" "coeffs_ok (length xs) cs" "coeffs_ok (length xs) ds"
    "\<forall>x\<in>set xs. eqm field_P (pv cs x) (pv ds x)"
  shows "cs = ds"
proof -
  let ?z = "padd cs (map ((*) (- 1)) ds)"
  have len: "length cs = length ds" "length ?z \<le> length xs"
    using assms(2,3) by (simp_all add: coeffs_ok_def padd_length)
  have "eqm field_P (pv ?z x) 0" if "x \<in> set xs" for x
    using eqm_diff [OF assms(4) [rule_format, OF that] eqm_refl [of _ "pv ds x"]] pv_scale [of "-1" ds x]
    by (simp add: pv_padd)
  then have "list_all (\<lambda>c. eqm field_P c 0) ?z"
    using vanishing_polynomial [OF assms(1) len(2)] by blast
  with len(1) have "list_all2 (eqm field_P) cs ds"
    by (induction cs ds rule: list_induct2) (auto simp: eqm_def)
  then have "list_all2 (=) cs ds"
    by (rule list.rel_mono_strong) (use assms(2,3) in \<open>auto simp: coeffs_ok_def eqm_mod\<close>)
  then show ?thesis by (simp add: list.rel_eq)
qed

lemma decode_encodeShare [simp]: "decodeShare (encodeShare s) = Some s"
  by (simp add: decodeShare_def encodeShare_def)

text \<open>The bytes of a draw are a number below \<open>2 ^ 256\<close>; the limit is a multiple of \<open>P\<close>.\<close>

lemma REJECTION_LIMIT_bound: "REJECTION_LIMIT \<le> 2 ^ 256" "0 < REJECTION_LIMIT"
  by (simp_all add: REJECTION_LIMIT_def bn254_r_def)

lemma randomFieldElement_returns:
  "\<exists>buf\<in>set draws. be_value buf < REJECTION_LIMIT \<Longrightarrow> is_ok (randomFieldElement draws)"
  by (induction draws) (auto simp: Let_def)

lemma residues_card:
  assumes "0 \<le> v" "v < (m :: int)" "0 \<le> k"
  shows "card {raw. 0 \<le> raw \<and> raw < k * m \<and> raw mod m = v} = nat k"
proof -
  have "{raw. 0 \<le> raw \<and> raw < k * m \<and> raw mod m = v} = (\<lambda>q. q * m + v) ` {0..<k}" (is "?L = ?R")
  proof (intro equalityI subsetI)
    fix raw assume raw: "raw \<in> ?L"
    then have "raw = raw div m * m + v" using div_mult_mod_eq [of raw m] by simp
    moreover have "0 \<le> raw div m"
      using raw assms by (simp add: pos_imp_zdiv_nonneg_iff)
    moreover have "raw div m < k"
    proof (rule ccontr)
      assume "\<not> raw div m < k"
      then have "k * m \<le> raw div m * m" using assms by (intro mult_right_mono) auto
      with raw \<open>raw = raw div m * m + v\<close> assms(1) show False by auto
    qed
    ultimately show "raw \<in> ?R" by (auto simp: image_iff)
  next
    fix raw assume "raw \<in> ?R"
    then obtain q where q: "0 \<le> q" "q < k" "raw = q * m + v" by auto
    have "(q + 1) * m \<le> k * m" using q assms by (intro mult_right_mono) auto
    then have "q * m + m \<le> k * m" by (simp add: distrib_right)
    then show "raw \<in> ?L" using q assms by auto
  qed
  moreover have "inj_on (\<lambda>q. q * m + v) {0..<k}" using assms by (auto simp: inj_on_def)
  ultimately show ?thesis by (simp add: card_image)
qed


text \<open>Through fewer shares than coefficients pass polynomials for every secret: exactly one when there are as many random coefficients as
  shares.\<close>

lemma coeffs_of_shares:
  assumes "distinct xs" "\<forall>x\<in>set xs. 1 \<le> x \<and> x < int max_committee"
    "length ys = length xs" "\<forall>y\<in>set ys. 0 \<le> y \<and> y < field_P" "0 \<le> secret" "secret < field_P"
  shows "\<exists>!cs. coeffs_ok (length xs) cs \<and> map (eval_share (secret # cs)) xs = ys"
proof -
  have units: "units_apart field_P (0 # xs)"
    by (rule units_apart_small) (use assms(1,2) in \<open>auto simp: max_committee_def\<close>)
  have meets: "map (eval_share (secret # cs)) xs = ys \<longleftrightarrow>
      (\<forall>i<length xs. eqm field_P (pv (secret # cs) (xs ! i)) (ys ! i))" for cs
  proof -
    have "eval_share (secret # cs) x = y \<longleftrightarrow> eqm field_P (pv (secret # cs) x) y"
      if "0 \<le> y" "y < field_P" for x y
      using that by (subst eval_share_eq) (simp_all add: modp_mod eqm_mod)
    then show ?thesis
      using assms(3,4) by (auto simp: list_eq_iff_nth_eq)
  qed
  obtain ds where ds: "coeffs_ok (Suc (length xs)) ds"
    "\<forall>i<Suc (length xs). eqm field_P (pv ds ((0 # xs) ! i)) ((secret # ys) ! i)"
    using interpolation_exists [OF units, of "secret # ys"] assms(3) by auto
  then obtain c cs where c: "ds = c # cs" by (cases ds) (auto simp: coeffs_ok_def)
  have "eqm field_P c secret" using ds(2) [rule_format, of 0] c by simp
  then have "c = secret" using ds(1) assms(5,6) c by (simp add: coeffs_ok_def eqm_mod)
  then have ex: "coeffs_ok (length xs) cs \<and> map (eval_share (secret # cs)) xs = ys"
    using ds c unfolding meets by (fastforce simp: coeffs_ok_def)
  moreover have "bs = cs" if "coeffs_ok (length xs) bs \<and> map (eval_share (secret # bs)) xs = ys" for bs
  proof -
    have "secret # bs = secret # cs"
    proof (rule interpolation_unique [OF units])
      show "\<forall>x\<in>set (0 # xs). eqm field_P (pv (secret # bs) x) (pv (secret # cs) x)"
        using that ex unfolding meets by (auto simp: in_set_conv_nth) (metis eqm_sym eqm_trans)
    qed (use that ex assms(5,6) in \<open>auto simp: coeffs_ok_def\<close>)
    then show ?thesis by simp
  qed
  ultimately show ?thesis by blast
qed


section \<open>Counting the draws\<close>

text \<open>The outcomes of \<open>m\<close> calls of \<open>randomBytes(32)\<close>, all equally likely, and those of them on which the sampling returns given coefficients.\<close>

definition byte_draws :: "nat \<Rightarrow> bytes list set" where
  "byte_draws m = {draws. length draws = m \<and> (\<forall>buf\<in>set draws. length buf = 32)}"

definition coeff_draws :: "nat \<Rightarrow> int list \<Rightarrow> bytes list set" where
  "coeff_draws m cs = {draws \<in> byte_draws m. \<exists>rest. random_coeffs (length cs) draws = Ok (cs, rest)}"

definition kept_bufs :: "int \<Rightarrow> bytes set" where
  "kept_bufs c = {buf. length buf = 32 \<and> be_value buf < REJECTION_LIMIT \<and> js_mod (be_value buf) field_P = c}"

definition rejected_bufs :: "bytes set" where
  "rejected_bufs = {buf. length buf = 32 \<and> REJECTION_LIMIT \<le> be_value buf}"

lemma finite_bufs [simp]: "finite {buf :: bytes. length buf = n}"
  using finite_lists_length_eq [of "UNIV :: 8 word set" n] by simp

lemma finite_drawn [simp]: "finite (byte_draws m)" "finite (coeff_draws m cs)"
proof -
  have "byte_draws m = {draws. set draws \<subseteq> {buf. length buf = 32} \<and> length draws = m}" by (auto simp: byte_draws_def)
  then show "finite (byte_draws m)" using finite_lists_length_eq [OF finite_bufs] by simp
  then show "finite (coeff_draws m cs)" by (rule finite_subset [rotated]) (auto simp: coeff_draws_def)
qed

lemma be_value_snoc: "be_value (bs @ [b]) = 256 * be_value bs + uint b"
  by (simp add: be_value_def)

lemma be_value_bounds: "0 \<le> be_value bs \<and> be_value bs < 256 ^ length bs"
proof (induction bs rule: rev_induct)
  case (snoc b bs)
  then show ?case using uint_lt2p [of b] by (simp add: be_value_snoc)
qed (simp add: be_value_def)

lemma be_value_inj: "length bs = length cs \<Longrightarrow> be_value bs = be_value cs \<Longrightarrow> bs = cs"
proof (induction bs arbitrary: cs rule: rev_induct)
  case (snoc b bs)
  then obtain c cs' where cs: "cs = cs' @ [c]" by (cases cs rule: rev_cases) auto
  have r: "0 \<le> uint b" "uint b < 256" "0 \<le> uint c" "uint c < 256" using uint_lt2p [of b] uint_lt2p [of c] by simp_all
  have eq: "be_value bs * 256 + uint b = be_value cs' * 256 + uint c" using snoc.prems(2) unfolding cs be_value_snoc by (simp add: mult.commute)
  have "be_value bs = be_value cs'" using arg_cong [OF eq, of "\<lambda>z. z div 256"] r by simp
  with eq have "be_value bs = be_value cs' \<and> b = c" by (simp add: word_uint_eq_iff)
  then show ?case using snoc.IH [of cs'] snoc.prems(1) cs by simp
qed simp

lemma be_value_bij: "bij_betw be_value {buf. length buf = n} {0..<256 ^ n}"
proof -
  have inj: "inj_on be_value {buf. length buf = n}" by (auto intro!: inj_onI be_value_inj)
  have "card {buf :: bytes. length buf = n} = 256 ^ n" using card_lists_length_eq [of "UNIV :: 8 word set" n] by (simp add: card_word)
  then have "card (be_value ` {buf. length buf = n}) = card {0..<256 ^ n :: int}" by (simp add: card_image [OF inj] nat_power_eq)
  moreover have "be_value ` {buf. length buf = n} \<subseteq> {0..<256 ^ n}" using be_value_bounds by fastforce
  ultimately have "be_value ` {buf. length buf = n} = {0..<256 ^ n}" by (intro card_subset_eq) simp_all
  with inj show ?thesis by (simp add: bij_betw_def)
qed

text \<open>Each field element is the residue of the same number of kept draws.\<close>

lemma card_kept:
  assumes "0 \<le> c" "c < field_P"
  shows "card (kept_bufs c) = nat (2 ^ 256 div field_P)"
proof -
  have lim: "REJECTION_LIMIT \<le> 256 ^ 32" using REJECTION_LIMIT_bound(1) by simp
  have "be_value ` kept_bufs c = {raw. 0 \<le> raw \<and> raw < REJECTION_LIMIT \<and> raw mod field_P = c}"
  proof (intro equalityI subsetI)
    fix raw assume raw: "raw \<in> {raw. 0 \<le> raw \<and> raw < REJECTION_LIMIT \<and> raw mod field_P = c}"
    then have "raw \<in> {0..<256 ^ 32}" using lim by auto
    then obtain buf where "length buf = 32" "be_value buf = raw"
      using be_value_bij [of 32] unfolding bij_betw_def by (metis (mono_tags, lifting) imageE mem_Collect_eq)
    with raw show "raw \<in> be_value ` kept_bufs c" by (auto simp: kept_bufs_def js_mod_cases image_iff)
  qed (use be_value_bounds in \<open>auto simp: kept_bufs_def js_mod_cases\<close>)
  moreover have "card (be_value ` kept_bufs c) = card (kept_bufs c)"
    by (rule card_image, rule inj_onI, rule be_value_inj) (simp_all add: kept_bufs_def)
  ultimately have "card (kept_bufs c) = card {raw. 0 \<le> raw \<and> raw < REJECTION_LIMIT \<and> raw mod field_P = c}" by simp
  moreover have "0 \<le> 2 ^ 256 div field_P" by (simp add: bn254_r_def)
  ultimately show ?thesis using residues_card [OF assms] by (simp only: REJECTION_LIMIT_def)
qed

lemma finite_kept [simp]: "finite (kept_bufs c)" "finite rejected_bufs"
  by (rule finite_subset [OF _ finite_bufs [of 32]], auto simp: kept_bufs_def rejected_bufs_def)+

lemma random_coeffs_Cons:
  "random_coeffs (Suc k) (buf # draws) =
    (if REJECTION_LIMIT \<le> be_value buf then random_coeffs (Suc k) draws
     else res_bind (random_coeffs k draws) (\<lambda>(cs, rest). Ok (js_mod (be_value buf) field_P # cs, rest)))"
  by (simp add: Let_def)

text \<open>The first draw is kept for the first coefficient, or rejected.\<close>

lemma coeff_draws_Suc:
  "coeff_draws (Suc m) (c # cs) =
    (\<lambda>(buf, draws). buf # draws) ` (kept_bufs c \<times> coeff_draws m cs) \<union> (\<lambda>(buf, draws). buf # draws) ` (rejected_bufs \<times> coeff_draws m (c # cs))"
proof (intro equalityI subsetI)
  fix draws assume "draws \<in> coeff_draws (Suc m) (c # cs)"
  then obtain buf ds rest where d: "draws = buf # ds" "ds \<in> byte_draws m" "length buf = 32" "random_coeffs (Suc (length cs)) (buf # ds) = Ok (c # cs, rest)"
    by (auto simp: coeff_draws_def byte_draws_def length_Suc_conv)
  show "draws \<in> (\<lambda>(buf, draws). buf # draws) ` (kept_bufs c \<times> coeff_draws m cs) \<union> (\<lambda>(buf, draws). buf # draws) ` (rejected_bufs \<times> coeff_draws m (c # cs))"
  proof (cases "REJECTION_LIMIT \<le> be_value buf")
    case True
    then show ?thesis using d by (force simp: rejected_bufs_def coeff_draws_def random_coeffs_Cons simp del: random_coeffs.simps)
  next
    case False
    then have "buf \<in> kept_bufs c" "ds \<in> coeff_draws m cs"
      using d unfolding random_coeffs_Cons by (auto simp: kept_bufs_def coeff_draws_def res_bind_eq_Inr)
    then show ?thesis using d(1) by force
  qed
next
  fix draws
  assume "draws \<in> (\<lambda>(buf, draws). buf # draws) ` (kept_bufs c \<times> coeff_draws m cs) \<union> (\<lambda>(buf, draws). buf # draws) ` (rejected_bufs \<times> coeff_draws m (c # cs))"
  then show "draws \<in> coeff_draws (Suc m) (c # cs)"
    by (auto simp: kept_bufs_def rejected_bufs_def coeff_draws_def byte_draws_def random_coeffs_Cons simp del: random_coeffs.simps)
qed

lemma card_coeff_draws_Suc:
  assumes "0 \<le> c" "c < field_P"
  shows "card (coeff_draws (Suc m) (c # cs)) = nat (2 ^ 256 div field_P) * card (coeff_draws m cs) + card rejected_bufs * card (coeff_draws m (c # cs))"
proof -
  have inj: "inj_on (\<lambda>(buf, draws). buf # draws) A" for A :: "(bytes \<times> bytes list) set" by (auto simp: inj_on_def)
  have disjoint: "(\<lambda>(buf, draws). buf # draws) ` (kept_bufs c \<times> A) \<inter> (\<lambda>(buf, draws). buf # draws) ` (rejected_bufs \<times> B) = {}" for A B
    by (auto simp: kept_bufs_def rejected_bufs_def)
  show ?thesis unfolding coeff_draws_Suc
    by (subst card_Un_disjoint) (simp_all add: card_image [OF inj] card_cartesian_product card_kept [OF assms] disjoint)
qed

text \<open>So all coefficient lists of one length are drawn equally often, and are drawn at all when there are draws enough.\<close>

lemma coeff_draws_uniform:
  assumes "coeffs_ok k cs" "coeffs_ok k cs'"
  shows "card (coeff_draws m cs) = card (coeff_draws m cs')"
  using assms
proof (induction m arbitrary: k cs cs')
  case 0
  have "coeff_draws 0 bs = (if bs = [] then {[]} else {})" for bs
    by (cases bs) (auto simp: coeff_draws_def byte_draws_def)
  with 0 show ?case by (auto simp: coeffs_ok_def)
next
  case (Suc m)
  show ?case
  proof (cases cs)
    case Nil
    then show ?thesis using Suc.prems by (auto simp: coeffs_ok_def)
  next
    case (Cons c ds)
    then obtain c' ds' where cs': "cs' = c' # ds'" using Suc.prems by (cases cs') (auto simp: coeffs_ok_def)
    have "card (coeff_draws m ds) = card (coeff_draws m ds')" "card (coeff_draws m cs) = card (coeff_draws m cs')"
      using Suc.IH [of "k - 1" ds ds'] Suc.IH [of k cs cs'] Suc.prems unfolding Cons cs' by (auto simp: coeffs_ok_def)
    then show ?thesis using Suc.prems unfolding Cons cs' by (simp add: card_coeff_draws_Suc coeffs_ok_def)
  qed
qed

lemma kept_positive: "0 < nat (2 ^ 256 div field_P)"
  by (simp add: bn254_r_def)

lemma coeff_draws_positive:
  "coeffs_ok k cs \<Longrightarrow> k \<le> m \<Longrightarrow> 0 < card (coeff_draws m cs)"
proof (induction m arbitrary: k cs)
  case 0
  then have "[] \<in> coeff_draws 0 cs" by (simp add: coeff_draws_def byte_draws_def coeffs_ok_def)
  then show ?case by (metis card_gt_0_iff empty_iff finite_drawn(2))
next
  case (Suc m)
  show ?case
  proof (cases cs)
    case Nil
    have "replicate (Suc m) (replicate 32 0) \<in> coeff_draws (Suc m) cs" by (auto simp: Nil coeff_draws_def byte_draws_def)
    then show ?thesis by (metis card_gt_0_iff empty_iff finite_drawn(2))
  next
    case (Cons c ds)
    then have "0 < card (coeff_draws m ds)" using Suc.IH [of "k - 1" ds] Suc.prems by (auto simp: coeffs_ok_def)
    then show ?thesis using Suc.prems kept_positive unfolding Cons by (simp add: card_coeff_draws_Suc coeffs_ok_def)
  qed
qed


section \<open>Properties\<close>

text \<open>C19: the Shamir shares a secret is split into determine it: any \<open>threshold\<close> or more distinct
  shares, in any order, reconstruct the secret modulo the field prime. The committee has fewer than 64
  members; no primality of the modulus is assumed.\<close>

theorem shamir_quorum_reconstructs:
  assumes "shamirSplit draws secret t n = Ok (shs, ds)" "n < max_committee"
    "distinct q" "set q \<subseteq> set shs" "t \<le> length q"
  shows "shamirReconstruct q = secret mod field_P"
  using shamir.quorum_reconstructs assms by blast

definition demo_draws :: "bytes list" where
  "demo_draws = [replicate 32 255, replicate 31 0 @ [5]]"

lemma be_value_zeros: "be_value (replicate n 0 @ bs) = be_value bs"
  unfolding be_value_def by (induction n) auto

lemma be_value_ones: "be_value (replicate n 255) = 256 ^ n - 1"
  unfolding be_value_def by (induction n) (simp_all flip: replicate_append_same)

lemma demo_draws_values: "map be_value demo_draws = [256 ^ 32 - 1, 5]"
  unfolding demo_draws_def list.map be_value_ones be_value_zeros by (simp add: be_value_def)

lemma demo_random: "random_coeffs 1 demo_draws = Ok ([5], [])"
proof -
  obtain b1 b2 where b: "demo_draws = [b1, b2]" "be_value b1 = 256 ^ 32 - 1" "be_value b2 = 5"
    using demo_draws_values by (auto simp: demo_draws_def)
  have "\<not> 256 ^ 32 - 1 < REJECTION_LIMIT" "5 < REJECTION_LIMIT" "js_mod 5 field_P = 5"
    by (simp_all add: REJECTION_LIMIT_def bn254_r_def)
  with b(2,3) show ?thesis unfolding b(1) by (simp add: Let_def)
qed

lemma demo_split:
  "shamirSplit demo_draws 1000 2 3 = Ok ([\<lparr> sh_x = 1, sh_y = 1005 \<rparr>, \<lparr> sh_x = 2, sh_y = 1010 \<rparr>, \<lparr> sh_x = 3, sh_y = 1015 \<rparr>], [])"
proof -
  have "[0..<3] = [0, 1, 2]" by (simp add: upt_rec)
  then show ?thesis
    using demo_random by (simp add: shamirSplit_def Let_def bn254_r_def eval_share_def modp_mod)
qed

theorem shamir_quorum_reconstructs_witness:
  "shamirReconstruct [\<lparr> sh_x = 3, sh_y = 1015 \<rparr>, \<lparr> sh_x = 1, sh_y = 1005 \<rparr>] = 1000"
proof -
  have "shamirReconstruct [\<lparr> sh_x = 3, sh_y = 1015 \<rparr>, \<lparr> sh_x = 1, sh_y = 1005 \<rparr>] = 1000 mod field_P"
    by (rule shamir_quorum_reconstructs [OF demo_split]) (simp_all add: max_committee_def)
  then show ?thesis by (simp add: bn254_r_def)
qed

text \<open>What an observer of the shares at the positions \<open>I\<close> sees of a split.\<close>

definition seen_shares :: "nat list \<Rightarrow> (shamir_error, share list \<times> bytes list) result \<Rightarrow> share list option" where
  "seen_shares I r = (case r of Inl _ \<Rightarrow> None | Inr (shs, _) \<Rightarrow> Some (map (nth shs) I))"

definition view_draws :: "nat \<Rightarrow> int \<Rightarrow> nat \<Rightarrow> nat \<Rightarrow> nat list \<Rightarrow> share list \<Rightarrow> bytes list set" where
  "view_draws m secret t n I view = {draws \<in> byte_draws m. seen_shares I (shamirSplit draws secret t n) = Some view}"

definition plausible_view :: "nat list \<Rightarrow> share list \<Rightarrow> bool" where
  "plausible_view I view \<longleftrightarrow> list_all2 (\<lambda>i s. sh_x s = int (i + 1) \<and> 0 \<le> sh_y s \<and> sh_y s < field_P) I view"

lemma view_draws_iff:
  assumes "2 \<le> t" "t \<le> n" "set I \<subseteq> {..<n}"
  shows "draws \<in> view_draws m secret t n I view \<longleftrightarrow>
    draws \<in> byte_draws m \<and> (\<exists>cs rest. random_coeffs (t - 1) draws = Ok (cs, rest) \<and>
      view = map (\<lambda>i. \<lparr> sh_x = int (i + 1), sh_y = eval_share (modp secret # cs) (int (i + 1)) \<rparr>) I)"
proof -
  have "map (nth (shares_of cs n)) I = map (\<lambda>i. \<lparr> sh_x = int (i + 1), sh_y = eval_share cs (int (i + 1)) \<rparr>) I" for cs
    using assms(3) by (auto simp: shares_of_def)
  moreover have "seen_shares I (shamirSplit draws secret t n) = Some view \<longleftrightarrow>
      (\<exists>shs rest. shamirSplit draws secret t n = Ok (shs, rest) \<and> view = map (nth shs) I)"
    by (auto simp: seen_shares_def split: sum.splits prod.splits)
  ultimately show ?thesis using assms(1,2) by (auto simp: view_draws_def shamirSplit_Ok)
qed

text \<open>One share less than the threshold: the draws behind a view are those of one coefficient list.\<close>

lemma view_draws_full:
  assumes "2 \<le> t" "t \<le> n" "n < max_committee" "distinct I" "set I \<subseteq> {..<n}" "length I = t - 1" "plausible_view I view"
  shows "\<exists>cs. coeffs_ok (t - 1) cs \<and> view_draws m secret t n I view = coeff_draws m cs"
proof -
  let ?xs = "map (\<lambda>i. int (i + 1)) I" and ?ys = "map sh_y view"
  have pl: "length view = length I" "\<And>k. k < length I \<Longrightarrow> sh_x (view ! k) = int (I ! k + 1) \<and> 0 \<le> sh_y (view ! k) \<and> sh_y (view ! k) < field_P"
    using assms(7) by (auto simp: plausible_view_def list_all2_conv_all_nth)
  have "\<exists>!cs. coeffs_ok (length ?xs) cs \<and> map (eval_share (modp secret # cs)) ?xs = ?ys"
  proof (rule coeffs_of_shares)
    show "distinct ?xs" using assms(4) by (simp add: distinct_map inj_on_def)
    show "\<forall>x\<in>set ?xs. 1 \<le> x \<and> x < int max_committee" using assms(3,5) by auto
    show "\<forall>y\<in>set ?ys. 0 \<le> y \<and> y < field_P" using pl by (auto simp: in_set_conv_nth)
  qed (use pl in \<open>simp_all add: modp_range\<close>)
  then obtain cs where cs: "coeffs_ok (t - 1) cs" "map (eval_share (modp secret # cs)) ?xs = ?ys"
    "\<And>ds. coeffs_ok (t - 1) ds \<Longrightarrow> map (eval_share (modp secret # ds)) ?xs = ?ys \<Longrightarrow> ds = cs"
    using assms(6) by (auto dest: ex1_implies_ex)
  have view: "view = map (\<lambda>i. \<lparr> sh_x = int (i + 1), sh_y = eval_share (modp secret # ds) (int (i + 1)) \<rparr>) I \<longleftrightarrow>
      map (eval_share (modp secret # ds)) ?xs = ?ys" for ds
    using pl by (auto simp: list_eq_iff_nth_eq)
  have len: "length cs = t - 1" using cs(1) by (simp add: coeffs_ok_def)
  have only: "ds = cs" if "random_coeffs (t - 1) draws = Ok (ds, rest)" "map (eval_share (modp secret # ds)) ?xs = ?ys" for draws ds rest
    using random_coeffs_ok [OF that(1)] that(2) by (intro cs(3)) (simp_all add: coeffs_ok_def)
  have "view_draws m secret t n I view = coeff_draws m cs"
  proof (intro equalityI subsetI)
    fix draws assume "draws \<in> view_draws m secret t n I view"
    then show "draws \<in> coeff_draws m cs"
      using only unfolding view_draws_iff [OF assms(1,2,5)] view coeff_draws_def len by blast
  next
    fix draws assume "draws \<in> coeff_draws m cs"
    then show "draws \<in> view_draws m secret t n I view"
      using cs(2) unfolding view_draws_iff [OF assms(1,2,5)] view coeff_draws_def len by blast
  qed
  with cs(1) show ?thesis by blast
qed

lemma view_draws_empty:
  assumes "2 \<le> t" "t \<le> n" "set I \<subseteq> {..<n}" "\<not> plausible_view I view"
  shows "view_draws m secret t n I view = {}"
proof -
  have "plausible_view I view" if "draws \<in> view_draws m secret t n I view" for draws
    using that unfolding view_draws_iff [OF assms(1-3)] plausible_view_def
    by (auto simp: list_all2_conv_all_nth eval_share_range)
  then show ?thesis using assms(4) by blast
qed

lemma view_draws_same:
  assumes "2 \<le> t" "t \<le> n" "n < max_committee" "distinct I" "set I \<subseteq> {..<n}" "length I = t - 1"
  shows "card (view_draws m secret t n I view) = card (view_draws m secret' t n I view)"
proof (cases "plausible_view I view")
  case True
  from view_draws_full [OF assms True] coeff_draws_uniform show ?thesis by metis
qed (simp add: view_draws_empty assms)


text \<open>Fewer shares: complete the positions to one less than the threshold and sum over what the added positions show.\<close>

lemma positions_extend:
  assumes "distinct I" "set I \<subseteq> {..<n}" "length I \<le> k" "k \<le> (n :: nat)"
  shows "\<exists>J. distinct (I @ J) \<and> set (I @ J) \<subseteq> {..<n} \<and> length (I @ J) = k"
proof -
  let ?R = "filter (\<lambda>i. i \<notin> set I) [0..<n]" and ?J = "take (k - length I) (filter (\<lambda>i. i \<notin> set I) [0..<n])"
  have "card (set ?R) = card ({..<n} - set I)" by (rule arg_cong [where f = card]) auto
  then have "length ?R = n - length I"
    using assms(1,2) by (simp add: card_Diff_subset distinct_card flip: distinct_card [of ?R])
  then have "length (I @ ?J) = k" using assms(3,4) by simp
  moreover have "distinct (I @ ?J)" using assms(1) by (auto dest!: in_set_takeD)
  moreover have "set (I @ ?J) \<subseteq> {..<n}" using assms(2) by (auto dest!: in_set_takeD)
  ultimately show ?thesis by blast
qed

lemma card_fibres:
  assumes "finite A" "finite T" "g ` A \<subseteq> T"
  shows "card A = (\<Sum>w\<in>T. card {a \<in> A. g a = w})"
  using sum.group [OF assms, of "\<lambda>_. 1 :: nat"] by simp

lemma finite_view_draws [simp]: "finite (view_draws m secret t n I view)"
  by (rule finite_subset [OF _ finite_drawn(1) [of m]]) (auto simp: view_draws_def)

lemma view_draws_split:
  assumes "length view = length I"
  shows "{draws \<in> view_draws m secret t n I view. seen_shares J (shamirSplit draws secret t n) = Some w} =
    view_draws m secret t n (I @ J) (view @ w)"
  using assms by (auto simp: view_draws_def seen_shares_def split: sum.splits prod.splits)

text \<open>C20: fewer than \<open>threshold\<close> shares reveal nothing. For a committee of fewer than 64 members, any set of fewer than \<open>threshold\<close>
  positions and any shares an observer may see there, the number of outcomes of the random draws that show these shares is the same
  for any two secrets, so what is seen does not depend on the secret. When there are draws enough, this number is positive for all shares
  with the right \<open>x\<close> and a field element as \<open>y\<close>: no secret is ruled out.\<close>

theorem shamir_secrecy:
  assumes "2 \<le> t" "t \<le> n" "n < max_committee" "distinct I" "set I \<subseteq> {..<n}" "length I < t"
  shows "card {draws \<in> byte_draws m. seen_shares I (shamirSplit draws secret t n) = Some view} =
      card {draws \<in> byte_draws m. seen_shares I (shamirSplit draws secret' t n) = Some view} \<and>
    (t - 1 \<le> m \<and> plausible_view I view \<longrightarrow> 0 < card {draws \<in> byte_draws m. seen_shares I (shamirSplit draws secret t n) = Some view})"
proof -
  have "length I \<le> t - 1" "t - 1 \<le> n" using assms(1,2,6) by linarith+
  from positions_extend [OF assms(4,5) this] obtain J where J: "distinct (I @ J)" "set (I @ J) \<subseteq> {..<n}" "length (I @ J) = t - 1" by blast
  let ?A = "\<lambda>s. view_draws m s t n I view" and ?g = "\<lambda>s draws. seen_shares J (shamirSplit draws s t n)"
  let ?T = "?g secret ` ?A secret \<union> ?g secret' ` ?A secret'"
  have "card {d \<in> ?A secret. ?g secret d = w} = card {d \<in> ?A secret'. ?g secret' d = w}" if w_in: "w \<in> ?T" for w
  proof -
    obtain v where w: "w = Some v" and len: "length view = length I"
      using w_in by (auto simp: view_draws_def seen_shares_def split: sum.splits prod.splits)
    show ?thesis unfolding w view_draws_split [OF len] by (rule view_draws_same [OF assms(1-3) J])
  qed
  then have "card (?A secret) = card (?A secret')"
    using card_fibres [of "?A secret" ?T "?g secret"] card_fibres [of "?A secret'" ?T "?g secret'"] by simp
  moreover have "0 < card (?A secret)" if m: "t - 1 \<le> m" and pl: "plausible_view I view"
  proof -
    let ?w = "map (\<lambda>i. \<lparr> sh_x = int (i + 1), sh_y = 0 \<rparr>) J"
    have len: "length view = length I" using pl by (auto simp: plausible_view_def list_all2_lengthD)
    have "plausible_view (I @ J) (view @ ?w)"
      using pl by (auto simp: plausible_view_def list_all2_append list_all2_lengthD list.rel_map intro!: list.rel_refl_strong)
    from view_draws_full [OF assms(1-3) J this] obtain cs where
      "coeffs_ok (t - 1) cs" "view_draws m secret t n (I @ J) (view @ ?w) = coeff_draws m cs" by blast
    then have "0 < card (view_draws m secret t n (I @ J) (view @ ?w))" using coeff_draws_positive [OF _ m] by simp
    also have "\<dots> \<le> card (?A secret)" unfolding view_draws_split [OF len, symmetric] by (rule card_mono) auto
    finally show ?thesis .
  qed
  ultimately show ?thesis unfolding view_draws_def by blast
qed

theorem shamir_secrecy_witness:
  "card {draws \<in> byte_draws 2. seen_shares [1] (shamirSplit draws 1000 2 3) = Some [\<lparr> sh_x = 2, sh_y = 1010 \<rparr>]} =
     card {draws \<in> byte_draws 2. seen_shares [1] (shamirSplit draws 77 2 3) = Some [\<lparr> sh_x = 2, sh_y = 1010 \<rparr>]} \<and>
   0 < card {draws \<in> byte_draws 2. seen_shares [1] (shamirSplit draws 1000 2 3) = Some [\<lparr> sh_x = 2, sh_y = 1010 \<rparr>]}"
  using shamir_secrecy [of 2 3 "[1]" 2 1000 "[\<lparr> sh_x = 2, sh_y = 1010 \<rparr>]" 77]
  by (simp add: max_committee_def plausible_view_def bn254_r_def)

text \<open>C23: rejection sampling is exactly uniform. Over all outcomes of any number \<open>m\<close> of draws of 32 bytes, every two field elements are
  returned equally often, and at least once when there is a draw; the sampling returns exactly when some draw is below the rejection limit,
  and what it returns is a field element.\<close>

theorem random_field_element_uniform:
  assumes "0 \<le> v" "v < field_P" "0 \<le> w" "w < field_P"
  shows "card {draws \<in> byte_draws m. \<exists>rest. randomFieldElement draws = Ok (v, rest)} =
      card {draws \<in> byte_draws m. \<exists>rest. randomFieldElement draws = Ok (w, rest)} \<and>
    (0 < m \<longrightarrow> 0 < card {draws \<in> byte_draws m. \<exists>rest. randomFieldElement draws = Ok (v, rest)}) \<and>
    (is_ok (randomFieldElement draws) \<longleftrightarrow> (\<exists>buf\<in>set draws. be_value buf < REJECTION_LIMIT)) \<and>
    (randomFieldElement draws = Ok (c, rest) \<longrightarrow> 0 \<le> c \<and> c < field_P)"
proof (intro conjI impI)
  have one: "{draws \<in> byte_draws m. \<exists>rest. randomFieldElement draws = Ok (x, rest)} = coeff_draws m [x]" for x
    by (auto simp: coeff_draws_def res_bind_eq_Inr)
  have ok: "coeffs_ok 1 [v]" "coeffs_ok 1 [w]" using assms by (simp_all add: coeffs_ok_def)
  show "card {draws \<in> byte_draws m. \<exists>rest. randomFieldElement draws = Ok (v, rest)} =
      card {draws \<in> byte_draws m. \<exists>rest. randomFieldElement draws = Ok (w, rest)}"
    unfolding one by (rule coeff_draws_uniform [OF ok])
  show "0 < card {draws \<in> byte_draws m. \<exists>rest. randomFieldElement draws = Ok (v, rest)}" if "0 < m"
    unfolding one by (rule coeff_draws_positive [OF ok(1)]) (use that in simp)
  show "is_ok (randomFieldElement draws) \<longleftrightarrow> (\<exists>buf\<in>set draws. be_value buf < REJECTION_LIMIT)"
    by (induction draws) (auto simp: Let_def)
qed (use randomFieldElement_range in blast)+

theorem random_field_element_uniform_witness:
  "card {draws \<in> byte_draws 1. \<exists>rest. randomFieldElement draws = Ok (12, rest)} =
     card {draws \<in> byte_draws 1. \<exists>rest. randomFieldElement draws = Ok (bn254_r - 1, rest)} \<and>
   0 < card {draws \<in> byte_draws 1. \<exists>rest. randomFieldElement draws = Ok (12, rest)}"
proof -
  have v: "(0 :: int) \<le> 12" "12 < field_P" "0 \<le> field_P - 1" "field_P - 1 < field_P" by (simp_all add: bn254_r_def)
  show ?thesis using random_field_element_uniform [OF v, of 1] zero_less_one by blast
qed

end
