(* ===== verification/Hex.thy ===== *)
theory Hex
  imports Json
begin

text \<open>
  Hexadecimal text of byte arrays: \<open>Buffer.toString("hex")\<close>, Node's
  \<open>Buffer.from(s, "hex")\<close>, which stops at the first pair that is no byte, and the
  browser helper \<open>fromHex\<close> of \<open>packages/sdk/src/mpc.ts\<close>, which skips a \<open>0x\<close> prefix.
\<close>

definition byte_hex :: "8 word \<Rightarrow> string" where
  "byte_hex b = [hex_digit (unat b div 16), hex_digit (unat b mod 16)]"

definition to_hex :: "bytes \<Rightarrow> string" where
  "to_hex bs = concat (map byte_hex bs)"

fun from_hex :: "string \<Rightarrow> bytes" where
  "from_hex (c # d # cs) =
    (case (hex_val c, hex_val d) of
       (Some h, Some l) \<Rightarrow> of_nat (16 * h + l) # from_hex cs
     | _ \<Rightarrow> [])"
| "from_hex _ = []"

lemma byte_split: "unat b div 16 < 16" "unat b mod 16 < 16" "of_nat (16 * (unat b div 16) + unat b mod 16) = (b :: 8 word)"
proof -
  have "unat b < 256" using unsigned_less [of b, where 'a = nat] by simp
  then show "unat b div 16 < 16" by (simp add: less_mult_imp_div_less)
  show "unat b mod 16 < 16" by simp
  have "16 * (unat b div 16) + unat b mod 16 = unat b" by (rule mult_div_mod_eq)
  then show "of_nat (16 * (unat b div 16) + unat b mod 16) = b"
    by (simp only:) simp
qed

lemma from_to_hex [simp, js_text]: "from_hex (to_hex bs) = bs"
  by (induction bs) (simp_all add: to_hex_def byte_hex_def byte_split)

lemma to_hex_inject [simp]: "to_hex a = to_hex b \<longleftrightarrow> a = b"
  by (metis from_to_hex)

lemma to_hex_Nil [simp]: "to_hex [] = []"
  by (simp add: to_hex_def)

text \<open>\<open>fromHex\<close>: pairs of characters, \<open>parseInt(pair, 16)\<close> stored in a \<open>Uint8Array\<close>.\<close>

definition parse_int16 :: "char \<Rightarrow> char \<Rightarrow> nat" where
  "parse_int16 c d =
    (case hex_val c of
       None \<Rightarrow> 0
     | Some h \<Rightarrow> (case hex_val d of None \<Rightarrow> h | Some l \<Rightarrow> 16 * h + l))"

fun hex_pairs :: "string \<Rightarrow> bytes" where
  "hex_pairs (c # d # cs) = of_nat (parse_int16 c d) # hex_pairs cs"
| "hex_pairs _ = []"

definition fromHex :: "string \<Rightarrow> bytes" where
  "fromHex h = hex_pairs (if take 2 h = ''0x'' then drop 2 h else h)"

lemma hex_pairs_to_hex: "hex_pairs (to_hex bs) = bs"
  by (induction bs) (simp_all add: to_hex_def byte_hex_def parse_int16_def byte_split)

lemma hex_digit_not_x: "d < 16 \<Longrightarrow> hex_digit d \<noteq> CHR ''x''"
proof
  assume "d < 16" "hex_digit d = CHR ''x''"
  then have "hex_val (CHR ''x'') = Some d" by (metis hex_val_digit)
  then show False by (simp add: hex_val_def)
qed

lemma fromHex_to_hex [simp]: "fromHex (to_hex bs) = bs"
proof (cases bs)
  case (Cons b bs')
  have "take 2 (to_hex bs) \<noteq> ''0x''"
    using hex_digit_not_x [OF byte_split(2) [of b]] by (simp add: Cons to_hex_def byte_hex_def)
  then show ?thesis by (simp add: fromHex_def hex_pairs_to_hex)
qed (simp add: fromHex_def)

end
