(* ===== verification/Committee.thy ===== *)
theory Committee
  imports Shamir Hex
begin

text \<open>
  The committee's cryptographic operations, \<open>packages/mpc-crypto/src/committee.ts\<close> and
  \<open>types.ts\<close>: encrypting and decrypting shares, reconstructing an amount, the hash of a
  match batch, signing it and verifying a signed batch.

  TweetNaCl and SHA-256 are the fields of \<open>nacl_lib\<close> and the argument \<open>sha\<close>; an
  operation of TweetNaCl that throws (wrong sizes) is \<open>None\<close>. \<open>box_correct\<close> and
  \<open>sign_correct\<close> state what TweetNaCl documents. Fresh randomness (ephemeral keys,
  nonces) is passed in.
\<close>

record nacl_lib =
  nl_box :: "bytes \<Rightarrow> bytes \<Rightarrow> bytes \<Rightarrow> bytes \<Rightarrow> bytes option"
  nl_box_open :: "bytes \<Rightarrow> bytes \<Rightarrow> bytes \<Rightarrow> bytes \<Rightarrow> bytes option option"
  nl_box_public :: "bytes \<Rightarrow> bytes"
  nl_sign :: "bytes \<Rightarrow> bytes \<Rightarrow> bytes option"
  nl_verify :: "bytes \<Rightarrow> bytes \<Rightarrow> bytes \<Rightarrow> bool option"
  nl_sign_public :: "bytes \<Rightarrow> bytes"

record committee_node_key_pair =
  kp_nodeId :: string
  kp_boxPublic :: bytes
  kp_boxSecret :: bytes
  kp_signPublic :: bytes
  kp_signSecret :: bytes

record committee_node_info =
  ni_nodeId :: string
  ni_encryptionPubkey :: string
  ni_signingPubkey :: string

record encrypted_share =
  es_nodeId :: string
  es_ciphertext :: string
  es_nonce :: string
  es_senderPubkey :: string

record mpc_intent =
  in_intentId :: string
  in_userId :: string
  in_inputAsset :: string
  in_outputAsset :: string
  in_expiryLedger :: int
  in_policyId :: string
  in_noteNullifier :: string
  in_noteCommitment :: string
  in_recipientCommitment :: string
  in_encryptedShares :: "encrypted_share list"
  in_submittedAt :: int

text \<open>The fields after \<open>outputAsset\<close> are the optional ones of cross-asset matches.\<close>

record match_result =
  mr_intentAId :: string
  mr_intentBId :: string
  mr_matchedAmount7dp :: string
  mr_inputAsset :: string
  mr_outputAsset :: string
  mr_priceScaled :: "string option"
  mr_assetIn :: "string option"
  mr_assetOut :: "string option"

record node_signature =
  ns_nodeId :: string
  ns_signingPubkey :: string
  ns_signature :: string

record signed_match_batch =
  sb_batchId :: string
  sb_sessionId :: string
  sb_matches :: "match_result list"
  sb_batchHash :: string
  sb_signatures :: "node_signature list"

datatype committee_error =
    NaclThrows
  | AuthenticationFailed
  | ShareNotJson
  | ShareNotInteger
  | SplitFailed shamir_error
  | AmountNotInteger


section \<open>Keys and shares\<close>

text \<open>\<open>boxSk\<close> and \<open>signSk\<close> are the secret keys TweetNaCl draws.\<close>

definition generateNodeKeyPair :: "nacl_lib \<Rightarrow> bytes \<Rightarrow> bytes \<Rightarrow> string \<Rightarrow> committee_node_key_pair" where
  "generateNodeKeyPair lib boxSk signSk nodeId =
    \<lparr> kp_nodeId = nodeId, kp_boxPublic = nl_box_public lib boxSk, kp_boxSecret = boxSk,
      kp_signPublic = nl_sign_public lib signSk, kp_signSecret = signSk \<rparr>"

definition nodePublicInfo :: "committee_node_key_pair \<Rightarrow> committee_node_info" where
  "nodePublicInfo kp = \<lparr> ni_nodeId = kp_nodeId kp, ni_encryptionPubkey = to_hex (kp_boxPublic kp),
     ni_signingPubkey = to_hex (kp_signPublic kp) \<rparr>"

definition encryptShareForNode ::
  "nacl_lib \<Rightarrow> bytes \<Rightarrow> bytes \<Rightarrow> jsval \<Rightarrow> string \<Rightarrow> string \<Rightarrow> (committee_error, encrypted_share) result" where
  "encryptShareForNode lib ephSk nonce share recipientPubkeyHex nodeId =
    (let recipientPk = from_hex recipientPubkeyHex; plaintext = utf8 (stringify share) in
     case nl_box lib plaintext nonce recipientPk ephSk of
       None \<Rightarrow> Throw NaclThrows
     | Some ciphertext \<Rightarrow>
         Ok \<lparr> es_nodeId = nodeId, es_ciphertext = to_hex ciphertext, es_nonce = to_hex nonce,
              es_senderPubkey = to_hex (nl_box_public lib ephSk) \<rparr>)"

text \<open>\<open>eph\<close> gives the ephemeral key and the nonce drawn for each node.\<close>

definition splitAmountForCommittee ::
  "nacl_lib \<Rightarrow> (bytes \<times> bytes) list \<Rightarrow> bytes list \<Rightarrow> string \<Rightarrow> committee_node_info list \<Rightarrow> nat \<Rightarrow>
     (committee_error, encrypted_share list) result" where
  "splitAmountForCommittee lib eph draws amount7dpStr nodes threshold =
    (case big_int_of_string amount7dpStr of
       None \<Rightarrow> Throw AmountNotInteger
     | Some amount \<Rightarrow>
       (case shamirSplit draws amount threshold (length nodes) of
          Inl e \<Rightarrow> Throw (SplitFailed e)
        | Inr (rawShares, _) \<Rightarrow>
            map_res (\<lambda>i. encryptShareForNode lib (fst (eph ! i)) (snd (eph ! i)) (encodeShare (rawShares ! i))
                (ni_encryptionPubkey (nodes ! i)) (ni_nodeId (nodes ! i)))
              [0..<length nodes]))"

definition decryptShare :: "nacl_lib \<Rightarrow> encrypted_share \<Rightarrow> bytes \<Rightarrow> (committee_error, jsval) result" where
  "decryptShare lib e nodeSecret =
    (case nl_box_open lib (from_hex (es_ciphertext e)) (from_hex (es_nonce e)) (from_hex (es_senderPubkey e)) nodeSecret of
       None \<Rightarrow> Throw NaclThrows
     | Some None \<Rightarrow> Throw AuthenticationFailed
     | Some (Some plaintext) \<Rightarrow>
         (case json_parse (utf8_decode plaintext) of
            None \<Rightarrow> Throw ShareNotJson
          | Some v \<Rightarrow> Ok v))"

definition decode_share_res :: "jsval \<Rightarrow> (committee_error, share) result" where
  "decode_share_res v = (case decodeShare v of None \<Rightarrow> Throw ShareNotInteger | Some s \<Rightarrow> Ok s)"

definition reconstructAmount :: "jsval list \<Rightarrow> (committee_error, int) result" where
  "reconstructAmount decryptedShares =
    res_bind (map_res decode_share_res decryptedShares) (\<lambda>shares. Ok (shamirReconstruct shares))"


section \<open>Match batches\<close>

definition or_empty :: "string option \<Rightarrow> string" where
  "or_empty x = (case x of None \<Rightarrow> [] | Some s \<Rightarrow> s)"

text \<open>A row of the canonical payload: the eight signed fields in order.\<close>

definition row_fields :: "match_result \<Rightarrow> string list" where
  "row_fields m = [mr_intentAId m, mr_intentBId m, mr_matchedAmount7dp m, mr_inputAsset m, mr_outputAsset m,
     or_empty (mr_priceScaled m), or_empty (mr_assetIn m), or_empty (mr_assetOut m)]"

fun join_space :: "string list \<Rightarrow> string" where
  "join_space [] = []"
| "join_space [x] = x"
| "join_space (x # y # ys) = x @ CHR '' '' # join_space (y # ys)"

definition row_key :: "string list \<Rightarrow> string" where
  "row_key fs = join_space fs"

definition row_json :: "string list \<Rightarrow> jsval" where
  "row_json fs = VObj [(''a'', VStr (fs ! 0)), (''b'', VStr (fs ! 1)), (''amt'', VStr (fs ! 2)),
     (''in'', VStr (fs ! 3)), (''out'', VStr (fs ! 4)), (''price'', VStr (fs ! 5)),
     (''assetIn'', VStr (fs ! 6)), (''assetOut'', VStr (fs ! 7))]"

definition sorted_rows :: "match_result list \<Rightarrow> string list list" where
  "sorted_rows matches = sort_key row_key (map row_fields matches)"

definition batch_canonical :: "string \<Rightarrow> match_result list \<Rightarrow> string" where
  "batch_canonical batchId matches =
    stringify (VObj [(''batchId'', VStr batchId), (''matches'', VArr (map row_json (sorted_rows matches)))])"

definition computeBatchHash :: "(bytes \<Rightarrow> bytes) \<Rightarrow> string \<Rightarrow> match_result list \<Rightarrow> string" where
  "computeBatchHash sha batchId matches = to_hex (sha (utf8 (batch_canonical batchId matches)))"

definition signBatch ::
  "nacl_lib \<Rightarrow> (bytes \<Rightarrow> bytes) \<Rightarrow> string \<Rightarrow> match_result list \<Rightarrow> committee_node_key_pair \<Rightarrow>
     (committee_error, node_signature) result" where
  "signBatch lib sha batchId matches kp =
    (let msg = from_hex (computeBatchHash sha batchId matches) in
     case nl_sign lib msg (kp_signSecret kp) of
       None \<Rightarrow> Throw NaclThrows
     | Some sig \<Rightarrow> Ok \<lparr> ns_nodeId = kp_nodeId kp, ns_signingPubkey = to_hex (kp_signPublic kp), ns_signature = to_hex sig \<rparr>)"

text \<open>\<open>None\<close>: TweetNaCl throws on a key or signature of the wrong size.\<close>

definition verifyNodeSignature ::
  "nacl_lib \<Rightarrow> (bytes \<Rightarrow> bytes) \<Rightarrow> string \<Rightarrow> match_result list \<Rightarrow> node_signature \<Rightarrow> bool option" where
  "verifyNodeSignature lib sha batchId matches sig =
    (let msg = from_hex (computeBatchHash sha batchId matches) in
     nl_verify lib msg (from_hex (ns_signature sig)) (from_hex (ns_signingPubkey sig)))"

fun verify_signatures ::
  "nacl_lib \<Rightarrow> (bytes \<Rightarrow> bytes) \<Rightarrow> signed_match_batch \<Rightarrow> string set \<Rightarrow> string list \<Rightarrow> node_signature list \<Rightarrow>
     string list option option" where
  "verify_signatures lib sha batch expected seen [] = Some (Some seen)"
| "verify_signatures lib sha batch expected seen (sig # sigs) =
    (if ns_signingPubkey sig \<notin> expected then Some None
     else if ns_signingPubkey sig \<in> set seen then Some None
     else case verifyNodeSignature lib sha (sb_batchId batch) (sb_matches batch) sig of
       None \<Rightarrow> None
     | Some False \<Rightarrow> Some None
     | Some True \<Rightarrow> verify_signatures lib sha batch expected (ns_signingPubkey sig # seen) sigs)"

text \<open>\<open>None\<close>: a signature check threw. The distinct signers seen are counted at the end.\<close>

definition verifySignedBatch ::
  "nacl_lib \<Rightarrow> (bytes \<Rightarrow> bytes) \<Rightarrow> signed_match_batch \<Rightarrow> committee_node_info list \<Rightarrow> bool option" where
  "verifySignedBatch lib sha batch committee =
    (case verify_signatures lib sha batch (set (map ni_signingPubkey committee)) [] (sb_signatures batch) of
       None \<Rightarrow> None
     | Some None \<Rightarrow> Some False
     | Some (Some seen) \<Rightarrow> Some (length seen \<ge> ceil_two_thirds (length committee)))"


section \<open>What TweetNaCl documents\<close>

definition box_correct :: "nacl_lib \<Rightarrow> bool" where
  "box_correct lib =
    (\<forall>m nonce sk sk'. length nonce = 24 \<longrightarrow> length sk = 32 \<longrightarrow> length sk' = 32 \<longrightarrow>
       (\<exists>c. nl_box lib m nonce (nl_box_public lib sk') sk = Some c \<and>
            nl_box_open lib c nonce (nl_box_public lib sk) sk' = Some (Some m)))"

definition sign_correct :: "nacl_lib \<Rightarrow> bool" where
  "sign_correct lib =
    (\<forall>m sk. length sk = 64 \<longrightarrow> (\<exists>s. nl_sign lib m sk = Some s \<and> nl_verify lib m s (nl_sign_public lib sk) = Some True))"

text \<open>A key pair whose public halves belong to its secret halves, with keys of the documented sizes.\<close>

definition kp_wf :: "nacl_lib \<Rightarrow> committee_node_key_pair \<Rightarrow> bool" where
  "kp_wf lib kp = (kp_boxPublic kp = nl_box_public lib (kp_boxSecret kp) \<and> length (kp_boxSecret kp) = 32 \<and>
     kp_signPublic kp = nl_sign_public lib (kp_signSecret kp) \<and> length (kp_signSecret kp) = 64)"

lemma generateNodeKeyPair_wf:
  "length boxSk = 32 \<Longrightarrow> length signSk = 64 \<Longrightarrow> kp_wf lib (generateNodeKeyPair lib boxSk signSk nodeId)"
  by (simp add: kp_wf_def generateNodeKeyPair_def)

text \<open>A concrete instance, for evaluation.\<close>

definition demo_nacl :: nacl_lib where
  "demo_nacl = \<lparr>
     nl_box = (\<lambda>m nonce pk sk. if length nonce = 24 \<and> length sk = 32 then Some (nonce @ m) else None),
     nl_box_open = (\<lambda>c nonce pk sk. if length nonce = 24 \<and> length sk = 32
        then Some (if take 24 c = nonce then Some (drop 24 c) else None) else None),
     nl_box_public = (\<lambda>sk. sk),
     nl_sign = (\<lambda>m sk. if length sk = 64 then Some (take 32 sk @ take 32 m) else None),
     nl_verify = (\<lambda>m s pk. if length pk = 32 then Some (s = pk @ take 32 m) else None),
     nl_sign_public = (\<lambda>sk. take 32 sk) \<rparr>"

lemma demo_nacl_correct: "box_correct demo_nacl" "sign_correct demo_nacl"
  by (auto simp: box_correct_def sign_correct_def demo_nacl_def)



section \<open>Shares reach the nodes\<close>

lemma encodeShare_pure [simp]: "json_pure (encodeShare s)"
  by (simp add: encodeShare_def)

lemma decrypt_encrypt_share:
  assumes "box_correct lib" "kp_wf lib kp" "length ephSk = 32" "length nonce = 24" "json_pure share"
    "encryptShareForNode lib ephSk nonce share (ni_encryptionPubkey (nodePublicInfo kp)) nodeId = Ok e"
  shows "decryptShare lib e (kp_boxSecret kp) = Ok share"
proof -
  have "\<exists>c. nl_box lib m nonce (kp_boxPublic kp) ephSk = Some c \<and>
      nl_box_open lib c nonce (nl_box_public lib ephSk) (kp_boxSecret kp) = Some (Some m)" for m
    using assms(1-4) by (simp add: box_correct_def kp_wf_def)
  from this [of "utf8 (stringify share)"] show ?thesis
    using assms(6) json_parse_stringify [OF assms(5)]
    by (auto simp: encryptShareForNode_def decryptShare_def nodePublicInfo_def Let_def)
qed

lemma decode_encode_res [simp]: "decode_share_res (encodeShare s) = Ok s"
  by (simp add: decode_share_res_def)

lemma reconstructAmount_encoded: "reconstructAmount (map encodeShare shs) = Ok (shamirReconstruct shs)"
proof -
  have "map_res decode_share_res (map encodeShare shs) = Ok shs"
    by (simp add: map_res_Inr list_all2_map1 list_all2_same)
  then show ?thesis unfolding reconstructAmount_def by (simp only: res_bind_simps)
qed

text \<open>Randomness of the documented sizes for \<open>n\<close> encryptions.\<close>

definition eph_ok :: "nat \<Rightarrow> (bytes \<times> bytes) list \<Rightarrow> bool" where
  "eph_ok n eph = (length eph = n \<and> (\<forall>e\<in>set eph. length (fst e) = 32 \<and> length (snd e) = 24))"

lemma split_node_decrypts:
  assumes "box_correct lib" "\<forall>kp\<in>set kps. kp_wf lib kp" "eph_ok (length kps) eph"
    "shamirSplit draws amount t (length kps) = Ok (shs, ds)"
    "splitAmountForCommittee lib eph draws (int_to_string amount) (map nodePublicInfo kps) t = Ok es"
    "k < length kps"
  shows "decryptShare lib (es ! k) (kp_boxSecret (kps ! k)) = Ok (encodeShare (shs ! k))"
proof -
  have len: "length shs = length kps" using shamir.split_shape [OF assms(4)] by simp
  have "encryptShareForNode lib (fst (eph ! k)) (snd (eph ! k)) (encodeShare (shs ! k))
      (ni_encryptionPubkey (nodePublicInfo (kps ! k))) (ni_nodeId (nodePublicInfo (kps ! k))) = Ok (es ! k)"
    using assms(4-6) by (simp add: splitAmountForCommittee_def map_res_Inr list_all2_conv_all_nth)
  moreover have "length (fst (eph ! k)) = 32" "length (snd (eph ! k)) = 24"
    using assms(3,6) by (auto simp: eph_ok_def)
  ultimately show ?thesis
    using assms(1,2,6) by (intro decrypt_encrypt_share) auto
qed


section \<open>The batch hash\<close>

lemma append_sep_inject:
  assumes "c \<notin> set x" "c \<notin> set y"
  shows "x @ c # a = y @ c # b \<longleftrightarrow> x = y \<and> a = b"
  using assms
proof (induction x arbitrary: y)
  case (Cons z x)
  then show ?case by (cases y) auto
next
  case Nil
  then show ?case by (cases y) auto
qed

lemma join_space_inject:
  assumes "length xs = length ys" "\<forall>s\<in>set xs \<union> set ys. CHR '' '' \<notin> set s"
  shows "join_space xs = join_space ys \<longleftrightarrow> xs = ys"
  using assms
proof (induction xs ys rule: list_induct2)
  case (Cons x xs y ys)
  show ?case
  proof (cases xs)
    case Nil
    then show ?thesis using Cons by simp
  next
    case (Cons x' xs')
    then obtain y' ys' where "ys = y' # ys'" using \<open>length xs = length ys\<close> by (cases ys) auto
    then show ?thesis
      using Cons Cons.prems Cons.IH append_sep_inject [of "CHR '' ''" x y "join_space xs" "join_space ys"] by auto
  qed
qed simp

definition no_spaces :: "match_result list \<Rightarrow> bool" where
  "no_spaces ms = (\<forall>m\<in>set ms. \<forall>f\<in>set (row_fields m). CHR '' '' \<notin> set f)"

lemma row_key_inj: "no_spaces ms \<Longrightarrow> inj_on row_key (set (map row_fields ms))"
  unfolding inj_on_def row_key_def
proof (intro ballI impI)
  fix x y assume sp: "no_spaces ms" and xy: "x \<in> set (map row_fields ms)" "y \<in> set (map row_fields ms)"
    and eq: "join_space x = join_space y"
  have "length x = length y" using xy by (auto simp: row_fields_def)
  then show "x = y" using join_space_inject [of x y] sp xy eq by (auto simp: no_spaces_def)
qed

lemma sort_key_perm:
  assumes "mset xs = mset ys" "inj_on f (set xs)"
  shows "sort_key f xs = sort_key f ys"
  by (rule sort_key_inj_key_eq) (use assms in auto)

lemma sorted_rows_perm:
  assumes "mset ms = mset ms'" "no_spaces ms"
  shows "sorted_rows ms = sorted_rows ms'"
  unfolding sorted_rows_def
proof (rule sort_key_perm)
  show "mset (map row_fields ms) = mset (map row_fields ms')"
    using assms(1) by (metis mset_map)
qed (use assms(2) row_key_inj in blast)

lemma row_json_inject:
  "length x = 8 \<Longrightarrow> length y = 8 \<Longrightarrow> row_json x = row_json y \<longleftrightarrow> x = y"
proof
  assume len: "length x = 8" "length y = 8" and "row_json x = row_json y"
  then have "\<forall>i\<in>{0, 1, 2, 3, 4, 5, 6, 7}. x ! i = y ! i" by (simp add: row_json_def)
  moreover have "i \<in> {0, 1, 2, 3, 4, 5, 6, 7}" if "i < 8" for i :: nat using that by auto
  ultimately have "x ! i = y ! i" if "i < 8" for i using that by blast
  then show "x = y" using len by (simp add: list_eq_iff_nth_eq)
qed simp

lemma row_json_pure: "json_pure (row_json x)"
  by (simp add: row_json_def)


lemma sorted_rows_length: "r \<in> set (sorted_rows ms) \<Longrightarrow> length r = 8"
  by (auto simp: sorted_rows_def row_fields_def)

lemma map_row_json_inject:
  "map row_json (sorted_rows ms) = map row_json (sorted_rows ms') \<longleftrightarrow> sorted_rows ms = sorted_rows ms'"
  using sorted_rows_length row_json_inject
  by (intro iffI list.inj_map_strong [of "sorted_rows ms" "sorted_rows ms'" row_json row_json]) metis+

lemma batch_canonical_inject:
  "batch_canonical b ms = batch_canonical b' ms' \<longleftrightarrow> b = b' \<and> sorted_rows ms = sorted_rows ms'"
  unfolding batch_canonical_def
  by (subst stringify_inject) (auto simp: list_all_iff row_json_pure map_row_json_inject)

lemma sorted_rows_mset: "mset (sorted_rows ms) = image_mset row_fields (mset ms)"
  by (simp add: sorted_rows_def)


section \<open>Signed batches\<close>

lemma verify_signatures_iff:
  "verify_signatures lib sha b E seen sigs = Some (Some seen') \<longleftrightarrow>
    seen' = rev (map ns_signingPubkey sigs) @ seen \<and> distinct (map ns_signingPubkey sigs) \<and>
    set (map ns_signingPubkey sigs) \<inter> set seen = {} \<and> set (map ns_signingPubkey sigs) \<subseteq> E \<and>
    (\<forall>sig\<in>set sigs. verifyNodeSignature lib sha (sb_batchId b) (sb_matches b) sig = Some True)"
  by (induction sigs arbitrary: seen) (auto split: option.splits bool.splits)

lemma verifySignedBatch_True:
  "verifySignedBatch lib sha batch committee = Some True \<longleftrightarrow>
    distinct (map ns_signingPubkey (sb_signatures batch)) \<and>
    set (map ns_signingPubkey (sb_signatures batch)) \<subseteq> set (map ni_signingPubkey committee) \<and>
    (\<forall>sig\<in>set (sb_signatures batch). verifyNodeSignature lib sha (sb_batchId batch) (sb_matches batch) sig = Some True) \<and>
    ceil_two_thirds (length committee) \<le> length (sb_signatures batch)"
proof -
  let ?r = "verify_signatures lib sha batch (set (map ni_signingPubkey committee)) [] (sb_signatures batch)"
  have "verifySignedBatch lib sha batch committee = Some True \<longleftrightarrow>
      (\<exists>seen. ?r = Some (Some seen) \<and> ceil_two_thirds (length committee) \<le> length seen)"
    by (auto simp: verifySignedBatch_def split: option.splits)
  then show ?thesis by (auto simp: verify_signatures_iff)
qed

lemma signBatch_verifies:
  assumes "sign_correct lib" "kp_wf lib kp" "signBatch lib sha b ms kp = Ok sig"
  shows "verifyNodeSignature lib sha b ms sig = Some True" "ns_signingPubkey sig = ni_signingPubkey (nodePublicInfo kp)"
proof -
  let ?m = "from_hex (computeBatchHash sha b ms)"
  obtain s where "nl_sign lib ?m (kp_signSecret kp) = Some s" "nl_verify lib ?m s (kp_signPublic kp) = Some True"
    using assms(1,2) by (auto simp: sign_correct_def kp_wf_def)
  then show "verifyNodeSignature lib sha b ms sig = Some True" "ns_signingPubkey sig = ni_signingPubkey (nodePublicInfo kp)"
    using assms(3) by (auto simp: signBatch_def verifyNodeSignature_def nodePublicInfo_def Let_def)
qed

lemma signBatch_total: "sign_correct lib \<Longrightarrow> kp_wf lib kp \<Longrightarrow> is_ok (signBatch lib sha b ms kp)"
  by (auto simp: sign_correct_def kp_wf_def signBatch_def is_ok_def Let_def split: option.split)

lemma signed_by_quorum_verifies:
  assumes "sign_correct lib" "\<forall>kp\<in>set kps. kp_wf lib kp" "distinct (map kp_signPublic kps)"
    "set signers \<subseteq> set kps" "distinct signers" "ceil_two_thirds (length kps) \<le> length signers"
    "list_all2 (\<lambda>kp sig. signBatch lib sha (sb_batchId batch) (sb_matches batch) kp = Ok sig) signers (sb_signatures batch)"
  shows "verifySignedBatch lib sha batch (map nodePublicInfo kps) = Some True"
proof -
  note l = list_all2_lengthD [OF assms(7)]
  have nth: "signBatch lib sha (sb_batchId batch) (sb_matches batch) (signers ! i) = Ok (sb_signatures batch ! i)"
    "kp_wf lib (signers ! i)" "signers ! i \<in> set kps" if "i < length signers" for i
    using that assms(2,7) subsetD [OF assms(4) nth_mem [OF that]] by (auto simp: list_all2_conv_all_nth)
  have pubs: "map ns_signingPubkey (sb_signatures batch) = map (to_hex \<circ> kp_signPublic) signers"
  proof (rule nth_equalityI)
    fix i assume "i < length (map ns_signingPubkey (sb_signatures batch))"
    then show "map ns_signingPubkey (sb_signatures batch) ! i = map (to_hex \<circ> kp_signPublic) signers ! i"
      using l signBatch_verifies(2) [OF assms(1) nth(2,1), of i] by (simp add: nodePublicInfo_def)
  qed (use l in simp)
  have "distinct (map kp_signPublic signers)"
    using assms(3,4,5) by (meson distinct_map inj_on_subset)
  then have "distinct (map ns_signingPubkey (sb_signatures batch))"
    unfolding pubs by (simp add: distinct_map inj_on_def)
  moreover have "\<forall>sig\<in>set (sb_signatures batch). verifyNodeSignature lib sha (sb_batchId batch) (sb_matches batch) sig = Some True"
    using l signBatch_verifies(1) [OF assms(1) nth(2,1)] by (metis in_set_conv_nth)
  moreover have "set (map ns_signingPubkey (sb_signatures batch)) \<subseteq> set (map ni_signingPubkey (map nodePublicInfo kps))"
    unfolding pubs using assms(4) by (auto simp: nodePublicInfo_def)
  ultimately show ?thesis
    unfolding verifySignedBatch_True using assms(6) l by simp
qed

lemma quorum_intersection_card:
  assumes "A \<subseteq> C" "B \<subseteq> C" "finite C" "card C \<le> n" "ceil_two_thirds n \<le> card A" "ceil_two_thirds n \<le> card B"
  shows "n \<le> 3 * card (A \<inter> B)"
proof -
  have "card A + card B = card (A \<union> B) + card (A \<inter> B)"
    using assms(1-3) by (intro card_Un_Int) (auto intro: finite_subset)
  moreover have "card (A \<union> B) \<le> n"
    using assms(1-4) card_mono [of C "A \<union> B"] by auto
  ultimately show ?thesis
    using assms(5,6) ceil_two_thirds_bounds(1) [of n] by linarith
qed



section \<open>Properties\<close>

text \<open>An amount split for a committee is recovered by any \<open>threshold\<close> of its nodes: when each of
  the responding nodes decrypts the share addressed to it and the coordinator reconstructs from
  what they answer, in any order, the result is the amount that was split. It rests on NaCl box opening
  what it sealed.\<close>

theorem committee_recovers_amount:
  assumes "box_correct lib" "\<forall>kp\<in>set kps. kp_wf lib kp" "eph_ok (length kps) eph" "length kps < max_committee"
    "splitAmountForCommittee lib eph draws (int_to_string amount) (map nodePublicInfo kps) t = Ok es"
    "0 \<le> amount" "amount < field_P"
    "distinct ks" "\<forall>k\<in>set ks. k < length kps" "t \<le> length ks"
  shows "res_bind (map_res (\<lambda>k. decryptShare lib (es ! k) (kp_boxSecret (kps ! k))) ks) reconstructAmount = Ok amount"
proof -
  obtain shs ds where split: "shamirSplit draws amount t (length kps) = Ok (shs, ds)"
    using assms(5) by (auto simp: splitAmountForCommittee_def split: sum.splits)
  have "map_res (\<lambda>k. decryptShare lib (es ! k) (kp_boxSecret (kps ! k))) ks = Ok (map (\<lambda>k. encodeShare (shs ! k)) ks)"
    by (rule map_res_total) (use split_node_decrypts [OF assms(1-3) split assms(5)] assms(9) in auto)
  moreover have "reconstructAmount (map (\<lambda>k. encodeShare (shs ! k)) ks) = Ok amount"
    using reconstructAmount_encoded [of "map ((!) shs) ks"]
      shamir.responding_nodes_recover [OF split assms(4,6,7,8,9,10)] by (simp add: comp_def)
  ultimately show ?thesis by (simp only: res_bind_simps)
qed

definition demo_kps :: "committee_node_key_pair list" where
  "demo_kps = map (\<lambda>i. generateNodeKeyPair demo_nacl (replicate 32 (of_nat i)) (replicate 64 (of_nat i)) [digit_char i]) [1, 2, 3]"

definition demo_eph :: "(bytes \<times> bytes) list" where
  "demo_eph = replicate 3 (replicate 32 9, replicate 24 7)"

lemma demo_kps_wf: "\<forall>kp\<in>set demo_kps. kp_wf demo_nacl kp" "length demo_kps = 3"
  by (auto simp: demo_kps_def generateNodeKeyPair_wf)

lemma demo_committee_split:
  "\<exists>es. splitAmountForCommittee demo_nacl demo_eph demo_draws (int_to_string 1000) (map nodePublicInfo demo_kps) 2 = Ok es"
proof -
  have "length (fst (demo_eph ! i)) = 32 \<and> length (snd (demo_eph ! i)) = 24" if "i < 3" for i
    using that by (simp add: demo_eph_def)
  then have "is_ok (map_res (\<lambda>i. encryptShareForNode demo_nacl (fst (demo_eph ! i)) (snd (demo_eph ! i)) (f i) (g i) (h i)) [0..<3])"
    for f g h
    by (intro map_res_is_ok) (simp add: encryptShareForNode_def demo_nacl_def Let_def)
  then show ?thesis
    unfolding splitAmountForCommittee_def length_map demo_kps_wf(2) demo_split big_int_of_string_to_string
      option.case sum.case prod.case is_ok_iff .
qed

theorem committee_recovers_amount_witness:
  "\<exists>es. splitAmountForCommittee demo_nacl demo_eph demo_draws (int_to_string 1000) (map nodePublicInfo demo_kps) 2 = Ok es \<and>
     res_bind (map_res (\<lambda>k. decryptShare demo_nacl (es ! k) (kp_boxSecret (demo_kps ! k))) [2, 0]) reconstructAmount = Ok 1000"
proof -
  obtain es where es: "splitAmountForCommittee demo_nacl demo_eph demo_draws (int_to_string 1000) (map nodePublicInfo demo_kps) 2 = Ok es"
    using demo_committee_split by blast
  moreover have "res_bind (map_res (\<lambda>k. decryptShare demo_nacl (es ! k) (kp_boxSecret (demo_kps ! k))) [2, 0]) reconstructAmount = Ok 1000"
    by (rule committee_recovers_amount [OF demo_nacl_correct(1) demo_kps_wf(1) _ _ es])
       (simp_all add: demo_kps_wf(2) eph_ok_def demo_eph_def max_committee_def bn254_r_def)
  ultimately show ?thesis by blast
qed

text \<open>C22: a batch is verified exactly when its signers are distinct members of the committee, every
  signature verifies for the batch's own id and matches, and they are at least two thirds of the
  committee; a repeated or foreign signature makes it fail.\<close>

theorem signed_batch_verified_iff:
  "verifySignedBatch lib sha batch committee = Some True \<longleftrightarrow>
    distinct (map ns_signingPubkey (sb_signatures batch)) \<and>
    set (map ns_signingPubkey (sb_signatures batch)) \<subseteq> set (map ni_signingPubkey committee) \<and>
    list_all (\<lambda>sig. verifyNodeSignature lib sha (sb_batchId batch) (sb_matches batch) sig = Some True) (sb_signatures batch) \<and>
    2 * length committee \<le> 3 * length (sb_signatures batch)"
  using ceil_two_thirds_bounds [of "length committee"]
  by (auto simp: verifySignedBatch_True list_all_iff)

text \<open>Any two batches verified against the same committee have at least a third of the committee
  among their common signers, so a committee with fewer than a third of double-signers never verifies
  two conflicting batches.\<close>

theorem verified_batches_share_signers:
  assumes "verifySignedBatch lib sha b1 committee = Some True" "verifySignedBatch lib sha b2 committee = Some True"
  shows "length committee \<le> 3 * card (set (map ns_signingPubkey (sb_signatures b1)) \<inter> set (map ns_signingPubkey (sb_signatures b2)))"
proof (rule quorum_intersection_card)
  show "card (set (map ni_signingPubkey committee)) \<le> length committee"
    by (metis card_length length_map)
  show "ceil_two_thirds (length committee) \<le> card (set (map ns_signingPubkey (sb_signatures b1)))"
    "ceil_two_thirds (length committee) \<le> card (set (map ns_signingPubkey (sb_signatures b2)))"
    using assms by (simp_all add: verifySignedBatch_True distinct_card del: set_map)
qed (use assms in \<open>auto simp: verifySignedBatch_True\<close>)

definition demo_match :: "string \<Rightarrow> string \<Rightarrow> match_result" where
  "demo_match a b = \<lparr> mr_intentAId = a, mr_intentBId = b, mr_matchedAmount7dp = ''5'', mr_inputAsset = ''USDC'',
     mr_outputAsset = ''EURC'', mr_priceScaled = None, mr_assetIn = None, mr_assetOut = None \<rparr>"

definition demo_sha :: "bytes \<Rightarrow> bytes" where
  "demo_sha bs = [of_nat (length bs)]"

definition demo_batch :: "nat list \<Rightarrow> signed_match_batch" where
  "demo_batch ks = \<lparr> sb_batchId = ''b1'', sb_sessionId = ''s1'', sb_matches = [demo_match ''i1'' ''i2''],
     sb_batchHash = computeBatchHash demo_sha ''b1'' [demo_match ''i1'' ''i2''],
     sb_signatures = map (\<lambda>k. \<lparr> ns_nodeId = kp_nodeId (demo_kps ! k), ns_signingPubkey = to_hex (kp_signPublic (demo_kps ! k)),
        ns_signature = to_hex (the (nl_sign demo_nacl (from_hex (computeBatchHash demo_sha ''b1'' [demo_match ''i1'' ''i2'']))
          (kp_signSecret (demo_kps ! k)))) \<rparr>) ks \<rparr>"

lemma demo_batch_verifies:
  assumes "distinct ks" "set ks \<subseteq> {0, 1, 2}" "2 \<le> length ks"
  shows "verifySignedBatch demo_nacl demo_sha (demo_batch ks) (map nodePublicInfo demo_kps) = Some True"
proof (rule signed_by_quorum_verifies [OF demo_nacl_correct(2) demo_kps_wf(1), where signers = "map ((!) demo_kps) ks"])
  show "distinct (map kp_signPublic demo_kps)"
    by (simp add: demo_kps_def generateNodeKeyPair_def demo_nacl_def)
  have pub: "distinct demo_kps"
    using \<open>distinct (map kp_signPublic demo_kps)\<close> by (auto simp: distinct_map)
  have lt: "\<forall>k\<in>set ks. k < length demo_kps" using assms(2) by (auto simp: demo_kps_wf(2))
  then show "set (map ((!) demo_kps) ks) \<subseteq> set demo_kps" by auto
  show "distinct (map ((!) demo_kps) ks)"
    using assms(1) lt pub by (auto simp: distinct_map inj_on_def nth_eq_iff_index_eq)
  show "ceil_two_thirds (length demo_kps) \<le> length (map ((!) demo_kps) ks)"
    using assms(3) by (simp add: demo_kps_wf(2) ceil_two_thirds_def)
  have "kp_wf demo_nacl (demo_kps ! k)" if "k \<in> set ks" for k
    using that lt demo_kps_wf(1) by auto
  then show "list_all2 (\<lambda>kp sig. signBatch demo_nacl demo_sha (sb_batchId (demo_batch ks)) (sb_matches (demo_batch ks)) kp = Ok sig)
      (map ((!) demo_kps) ks) (sb_signatures (demo_batch ks))"
    by (auto simp: demo_batch_def list_all2_map1 list_all2_map2 list_all2_same signBatch_def Let_def
        kp_wf_def demo_nacl_def)
qed

theorem verified_batches_share_signers_witness:
  "3 \<le> 3 * card (set (map ns_signingPubkey (sb_signatures (demo_batch [0, 1]))) \<inter> set (map ns_signingPubkey (sb_signatures (demo_batch [2, 1]))))"
  using verified_batches_share_signers [OF demo_batch_verifies [of "[0, 1]"] demo_batch_verifies [of "[2, 1]"]]
  by (simp add: demo_kps_wf(2))

text \<open>The batch hash does not depend on the order of the matches, and it binds them: with a
  hash function that separates the two canonical texts, equal hashes mean the same batch id and the same
  multiset of signed rows. Order independence needs that no signed field contains a space.\<close>

theorem batch_hash_order_and_binding:
  assumes "no_spaces ms"
  shows "(mset ms = mset ms' \<longrightarrow> computeBatchHash sha b ms = computeBatchHash sha b ms') \<and>
    ((sha (utf8 (batch_canonical b ms)) = sha (utf8 (batch_canonical b' ms')) \<longrightarrow> batch_canonical b ms = batch_canonical b' ms') \<longrightarrow>
      computeBatchHash sha b ms = computeBatchHash sha b' ms' \<longrightarrow>
      b = b' \<and> image_mset row_fields (mset ms) = image_mset row_fields (mset ms'))"
proof (intro conjI impI)
  show "computeBatchHash sha b ms = computeBatchHash sha b ms'" if "mset ms = mset ms'"
    using sorted_rows_perm [OF that assms] by (simp add: computeBatchHash_def batch_canonical_def)
next
  assume "sha (utf8 (batch_canonical b ms)) = sha (utf8 (batch_canonical b' ms')) \<longrightarrow> batch_canonical b ms = batch_canonical b' ms'"
    "computeBatchHash sha b ms = computeBatchHash sha b' ms'"
  then have "b = b' \<and> sorted_rows ms = sorted_rows ms'"
    by (simp add: computeBatchHash_def batch_canonical_inject)
  then show "b = b'" "image_mset row_fields (mset ms) = image_mset row_fields (mset ms')"
    using sorted_rows_mset by metis+
qed

theorem batch_hash_order_and_binding_witness:
  "computeBatchHash demo_sha ''b'' [demo_match ''i1'' ''i2'', demo_match ''i3'' ''i4''] =
   computeBatchHash demo_sha ''b'' [demo_match ''i3'' ''i4'', demo_match ''i1'' ''i2'']"
  using batch_hash_order_and_binding [of "[demo_match ''i1'' ''i2'', demo_match ''i3'' ''i4'']"
      "[demo_match ''i3'' ''i4'', demo_match ''i1'' ''i2'']" demo_sha "''b''" "''b''"]
  by (simp add: no_spaces_def row_fields_def demo_match_def or_empty_def)

text \<open>When a field contains a space the sort key is not a total order on the signed content: two
  different matches share a key, and the canonical text that is hashed depends on the order in which
  they are given.\<close>

theorem batch_hash_tie_order_dependent:
  "row_key (row_fields (demo_match ''x y'' ''z'')) = row_key (row_fields (demo_match ''x'' ''y z'')) \<and>
   batch_canonical b [demo_match ''x y'' ''z'', demo_match ''x'' ''y z''] \<noteq>
   batch_canonical b [demo_match ''x'' ''y z'', demo_match ''x y'' ''z'']"
  unfolding batch_canonical_inject
  by (simp add: sorted_rows_def row_key_def row_fields_def demo_match_def or_empty_def)

end
