(* ===== verification/Sessions.thy ===== *)
theory Sessions
  imports Committee
begin

text \<open>
  The committee's in-memory state, \<open>apps/mpc-committee/src/state.ts\<close>: sessions, the
  intents they collect and the per-node share slots. The \<open>Map\<close>s are
  insertion-ordered maps; a session object that the code mutates in place is
  written back under its id. \<open>now\<close> is \<open>Date.now()\<close>.
\<close>

datatype session_status = StOpen | StMatching | StSigned | StFailed

text \<open>\<open>nse_decryptedShare\<close> is \<open>null\<close> until a matching round decrypts it.\<close>

record node_share_entry =
  nse_intentId :: string
  nse_nodeId :: string
  nse_ciphertext :: string
  nse_nonce :: string
  nse_senderPubkey :: string
  nse_decryptedShare :: jsval

type_synonym share_slots = "(string, (string, node_share_entry) jmap) jmap"

record session_state =
  ss_sessionId :: string
  ss_startedAt :: int
  ss_status :: session_status
  ss_intents :: "(string, mpc_intent) jmap"
  ss_shares :: share_slots
  ss_signedBatch :: "signed_match_batch option"

record committee_state =
  cs_sessions :: "(string, session_state) jmap"
  cs_intentToSession :: "(string, string) jmap"

definition empty_state :: committee_state where
  "empty_state = \<lparr> cs_sessions = [], cs_intentToSession = [] \<rparr>"

definition fresh_session :: "int \<Rightarrow> string \<Rightarrow> session_state" where
  "fresh_session now sessionId = \<lparr> ss_sessionId = sessionId, ss_startedAt = now, ss_status = StOpen,
     ss_intents = [], ss_shares = [], ss_signedBatch = None \<rparr>"

definition put_session :: "session_state \<Rightarrow> committee_state \<Rightarrow> committee_state" where
  "put_session s st = st \<lparr> cs_sessions := jm_set (cs_sessions st) (ss_sessionId s) s \<rparr>"

definition createSession :: "int \<Rightarrow> string \<Rightarrow> committee_state \<Rightarrow> session_state \<times> committee_state" where
  "createSession now sessionId st = (let s = fresh_session now sessionId in (s, put_session s st))"

definition session_id_at :: "int \<Rightarrow> string" where
  "session_id_at now = ''session-'' @ int_to_string now"

definition getOrCreateOpenSession :: "int \<Rightarrow> committee_state \<Rightarrow> session_state \<times> committee_state" where
  "getOrCreateOpenSession now st =
    (case find_first (\<lambda>s. ss_status s = StOpen) (jm_values (cs_sessions st)) of
       Some s \<Rightarrow> (s, st)
     | None \<Rightarrow> createSession now (session_id_at now) st)"

definition share_entry :: "string \<Rightarrow> encrypted_share \<Rightarrow> node_share_entry" where
  "share_entry intentId e = \<lparr> nse_intentId = intentId, nse_nodeId = es_nodeId e, nse_ciphertext = es_ciphertext e,
     nse_nonce = es_nonce e, nse_senderPubkey = es_senderPubkey e, nse_decryptedShare = VNull \<rparr>"

definition store_share :: "string \<Rightarrow> encrypted_share \<Rightarrow> share_slots \<Rightarrow> share_slots" where
  "store_share intentId e shares =
    jm_set shares (es_nodeId e)
      (jm_set (case jm_get shares (es_nodeId e) of None \<Rightarrow> [] | Some m \<Rightarrow> m) intentId (share_entry intentId e))"

definition add_to_session :: "mpc_intent \<Rightarrow> session_state \<Rightarrow> session_state" where
  "add_to_session intent s =
    s \<lparr> ss_intents := jm_set (ss_intents s) (in_intentId intent) intent,
       ss_shares := fold (store_share (in_intentId intent)) (in_encryptedShares intent) (ss_shares s) \<rparr>"

definition addIntent :: "int \<Rightarrow> mpc_intent \<Rightarrow> committee_state \<Rightarrow> string \<times> committee_state" where
  "addIntent now intent st =
    (let (session, st1) = getOrCreateOpenSession now st;
         session' = add_to_session intent session;
         st2 = put_session session' st1
     in (ss_sessionId session',
         st2 \<lparr> cs_intentToSession := jm_set (cs_intentToSession st2) (in_intentId intent) (ss_sessionId session') \<rparr>))"

definition getSession :: "string \<Rightarrow> committee_state \<Rightarrow> session_state option" where
  "getSession sessionId st = jm_get (cs_sessions st) sessionId"

definition getSessionForIntent :: "string \<Rightarrow> committee_state \<Rightarrow> session_state option" where
  "getSessionForIntent intentId st =
    (case jm_get (cs_intentToSession st) intentId of
       None \<Rightarrow> None
     | Some sid \<Rightarrow> if sid = [] then None else jm_get (cs_sessions st) sid)"

definition getOpenSessions :: "committee_state \<Rightarrow> session_state list" where
  "getOpenSessions st = filter (\<lambda>s. ss_status s = StOpen) (jm_values (cs_sessions st))"

definition allSessions :: "committee_state \<Rightarrow> session_state list" where
  "allSessions st = jm_values (cs_sessions st)"


section \<open>The state invariant\<close>

text \<open>Sessions are filed under their own id, and at most one of them is open.\<close>

definition state_inv :: "committee_state \<Rightarrow> bool" where
  "state_inv st = (jm_inv (cs_sessions st) \<and> list_all (\<lambda>(k, s). ss_sessionId s = k) (cs_sessions st) \<and>
     length (getOpenSessions st) \<le> 1)"

lemma state_inv_empty [simp]: "state_inv empty_state"
  by (simp add: state_inv_def empty_state_def getOpenSessions_def jm_values_def)

lemma jm_set_present:
  "jm_get m k = Some v0 \<Longrightarrow> \<exists>xs ys. m = xs @ (k, v0) # ys \<and> jm_set m k v = xs @ (k, v) # ys"
proof (induction m k v rule: jm_set.induct)
  case (2 k' v' m k v)
  show ?case
  proof (cases "k' = k")
    case True
    then show ?thesis using 2(2) by (intro exI [of _ "[]"] exI [of _ m]) (simp add: jm_get_def)
  next
    case False
    then obtain xs ys where "m = xs @ (k, v0) # ys" "jm_set m k v = xs @ (k, v) # ys"
      using 2 by (auto simp: jm_get_def)
    then show ?thesis using False by (intro exI [of _ "(k', v') # xs"] exI [of _ ys]) simp
  qed
qed simp

lemma jm_set_absent: "jm_get m k = None \<Longrightarrow> jm_set m k v = m @ [(k, v)]"
  by (induction m k v rule: jm_set.induct) (auto simp: jm_get_def split: if_splits)

abbreviation open_count :: "(string, session_state) jmap \<Rightarrow> nat" where
  "open_count m \<equiv> length (filter (\<lambda>s. ss_status s = StOpen) (jm_values m))"

lemma open_count_set:
  "open_count (jm_set m k s) + (case jm_get m k of Some s0 \<Rightarrow> of_bool (ss_status s0 = StOpen) | None \<Rightarrow> 0) =
    open_count m + of_bool (ss_status s = StOpen)"
proof (cases "jm_get m k")
  case None
  then show ?thesis by (simp add: jm_set_absent jm_values_def)
next
  case (Some s0)
  from jm_set_present [OF Some, of s] obtain xs ys where
    "m = xs @ (k, s0) # ys" "jm_set m k s = xs @ (k, s) # ys" by blast
  then show ?thesis using Some by (simp add: jm_values_def)
qed

lemma list_all_jm_set: "list_all P m \<Longrightarrow> P (k, v) \<Longrightarrow> list_all P (jm_set m k v)"
  by (induction m k v rule: jm_set.induct) auto

text \<open>Writing back a session keeps the invariant when it does not reopen a closed one.\<close>

lemma state_inv_put:
  assumes "state_inv st" "getSession (ss_sessionId s) st = Some s0" "ss_status s = StOpen \<Longrightarrow> ss_status s0 = StOpen"
  shows "state_inv (put_session s st)"
proof -
  have "open_count (jm_set (cs_sessions st) (ss_sessionId s) s) \<le> open_count (cs_sessions st)"
    using open_count_set [of "cs_sessions st" "ss_sessionId s" s] assms(2,3)
    by (auto simp: getSession_def of_bool_def split: if_splits)
  then show ?thesis
    using assms(1) by (auto simp: state_inv_def put_session_def getOpenSessions_def list_all_jm_set)
qed

lemma no_open_session:
  "find_first (\<lambda>s. ss_status s = StOpen) (jm_values (cs_sessions st)) = None \<Longrightarrow> open_count (cs_sessions st) = 0"
  by (simp add: filter_empty_conv)

lemma state_inv_create:
  assumes "state_inv st" "find_first (\<lambda>s. ss_status s = StOpen) (jm_values (cs_sessions st)) = None"
  shows "state_inv (snd (createSession now sid st))"
proof -
  have "open_count (jm_set (cs_sessions st) sid (fresh_session now sid)) \<le> 1"
    using open_count_set [of "cs_sessions st" sid "fresh_session now sid"] no_open_session [OF assms(2)]
    by (simp add: fresh_session_def)
  then show ?thesis
    using assms(1)
    by (auto simp: createSession_def Let_def put_session_def state_inv_def getOpenSessions_def list_all_jm_set fresh_session_def)
qed

lemma getSession_put [simp]:
  "getSession sid (put_session s st) = (if sid = ss_sessionId s then Some s else getSession sid st)"
  by (simp add: getSession_def put_session_def)

lemma open_session_stored:
  assumes "state_inv st" "getOrCreateOpenSession now st = (s, st')"
  shows "getSession (ss_sessionId s) st' = Some s" "ss_status s = StOpen" "state_inv st'"
proof -
  consider (found) "find_first (\<lambda>s. ss_status s = StOpen) (jm_values (cs_sessions st)) = Some s" "st' = st"
    | (created) "find_first (\<lambda>s. ss_status s = StOpen) (jm_values (cs_sessions st)) = None"
        "(s, st') = createSession now (session_id_at now) st"
    using assms(2) by (cases "find_first (\<lambda>s. ss_status s = StOpen) (jm_values (cs_sessions st))")
      (simp_all add: getOrCreateOpenSession_def)
  then have "getSession (ss_sessionId s) st' = Some s \<and> ss_status s = StOpen \<and> state_inv st'"
  proof cases
    case found
    then have "s \<in> set (jm_values (cs_sessions st))" "ss_status s = StOpen"
      using find_first_Some [OF found(1)] by simp_all
    moreover from this obtain k where k: "(k, s) \<in> set (cs_sessions st)" by (auto simp: jm_values_def)
    moreover have "k = ss_sessionId s" using k assms(1) by (auto simp: state_inv_def list_all_iff)
    ultimately show ?thesis using assms(1) found by (auto simp: getSession_def jm_get_def state_inv_def jm_inv_def)
  next
    case created
    then show ?thesis
      using state_inv_create [OF assms(1) created(1), of now "session_id_at now"]
      by (auto simp: createSession_def Let_def fresh_session_def)
  qed
  then show "getSession (ss_sessionId s) st' = Some s" "ss_status s = StOpen" "state_inv st'" by auto
qed

lemma add_to_session_simps [simp]:
  "ss_sessionId (add_to_session i s) = ss_sessionId s" "ss_status (add_to_session i s) = ss_status s"
  "ss_signedBatch (add_to_session i s) = ss_signedBatch s"
  by (simp_all add: add_to_session_def)

lemma addIntent_inv:
  assumes "state_inv st"
  shows "state_inv (snd (addIntent now intent st))"
proof -
  obtain s st1 where s: "getOrCreateOpenSession now st = (s, st1)" by fastforce
  note o = open_session_stored [OF assms s]
  have "state_inv (put_session (add_to_session intent s) st1)"
    by (rule state_inv_put [OF o(3)]) (use o in auto)
  then show ?thesis
    by (simp add: addIntent_def s Let_def state_inv_def getOpenSessions_def)
qed

lemma addIntent_spec:
  assumes "state_inv st" "addIntent now intent st = (sid, st')"
  shows "\<exists>s. getSession sid st' = Some s \<and> ss_status s = StOpen \<and>
    jm_get (ss_intents s) (in_intentId intent) = Some intent \<and>
    jm_get (cs_intentToSession st') (in_intentId intent) = Some sid"
proof -
  obtain s st1 where s: "getOrCreateOpenSession now st = (s, st1)" by fastforce
  note o = open_session_stored [OF assms(1) s]
  from assms(2) have sid: "sid = ss_sessionId s" and
    st': "st' = put_session (add_to_session intent s) st1 \<lparr> cs_intentToSession :=
      jm_set (cs_intentToSession (put_session (add_to_session intent s) st1)) (in_intentId intent) sid \<rparr>"
    by (auto simp: addIntent_def s Let_def)
  have "getSession sid st' = Some (add_to_session intent s)"
    unfolding st' by (simp add: getSession_def put_session_def sid)
  moreover have "jm_get (ss_intents (add_to_session intent s)) (in_intentId intent) = Some intent"
    by (simp add: add_to_session_def)
  ultimately show ?thesis using o(2) by (simp add: st')
qed

text \<open>Adding an intent leaves every session that is not open as it was, unless a new session is created
  under the id of an existing one.\<close>

lemma addIntent_frame:
  assumes "state_inv st" "getSession k st = Some s0" "ss_status s0 \<noteq> StOpen"
    "getOpenSessions st \<noteq> [] \<or> k \<noteq> session_id_at now"
  shows "getSession k (snd (addIntent now intent st)) = Some s0"
proof -
  obtain s st1 where s: "getOrCreateOpenSession now st = (s, st1)" by fastforce
  note o = open_session_stored [OF assms(1) s]
  have k1: "getSession k st1 = Some s0"
  proof (cases "find_first (\<lambda>s. ss_status s = StOpen) (jm_values (cs_sessions st))")
    case None
    then have "getOpenSessions st = []" by (simp add: getOpenSessions_def filter_empty_conv)
    then have "k \<noteq> session_id_at now" using assms(4) by simp
    then show ?thesis
      using s None assms(2) by (auto simp: getOrCreateOpenSession_def createSession_def Let_def fresh_session_def)
  next
    case (Some x)
    then show ?thesis using s assms(2) by (simp add: getOrCreateOpenSession_def)
  qed
  have "k \<noteq> ss_sessionId s" using o(1,2) k1 assms(3) by auto
  then show ?thesis
    using k1 by (simp add: addIntent_def s Let_def getSession_def put_session_def)
qed


section \<open>Share slots\<close>

text \<open>Looking up a share of an intent at a node.\<close>

definition slot :: "share_slots \<Rightarrow> string \<Rightarrow> string \<Rightarrow> node_share_entry option" where
  "slot shares nodeId intentId = (case jm_get shares nodeId of None \<Rightarrow> None | Some m \<Rightarrow> jm_get m intentId)"

lemma slot_store:
  "slot (store_share i e shares) n k =
    (if n = es_nodeId e \<and> k = i then Some (share_entry i e) else slot shares n k)"
  by (auto simp: slot_def store_share_def split: option.split)

lemma slot_fold_other:
  "(\<forall>e\<in>set es. es_nodeId e \<noteq> n) \<or> k \<noteq> i \<Longrightarrow> slot (fold (store_share i) es shares) n k = slot shares n k"
  by (induction es arbitrary: shares) (auto simp: slot_store)

lemma slot_fold:
  assumes "distinct (map es_nodeId es)" "e \<in> set es"
  shows "slot (fold (store_share i) es shares) (es_nodeId e) i = Some (share_entry i e)"
  using assms
proof (induction es arbitrary: shares)
  case (Cons f es)
  show ?case
  proof (cases "e = f")
    case True
    have "\<forall>e'\<in>set es. es_nodeId e' \<noteq> es_nodeId e" using Cons.prems(1) True by (auto simp: image_iff)
    then show ?thesis by (simp add: slot_fold_other slot_store True)
  next
    case False
    then show ?thesis using Cons by simp
  qed
qed simp


section \<open>Properties\<close>

text \<open>The requests that change the committee state between matching rounds.\<close>

fun submit_all :: "(int \<times> mpc_intent) list \<Rightarrow> committee_state \<Rightarrow> committee_state" where
  "submit_all [] st = st"
| "submit_all ((now, intent) # rest) st = submit_all rest (snd (addIntent now intent st))"

text \<open>The committee keeps at most one open session, filed under its own id, and an accepted
  intent is in that session and findable by its id; sessions already closed (matching, signed or
  failed) keep their intents, shares and signed batch, except when a new session is created in the
  millisecond whose id an older session already has.\<close>

theorem intents_join_the_open_session:
  assumes "state_inv st" "addIntent now intent st = (sid, st')"
  shows "state_inv st' \<and> length (getOpenSessions st') = 1 \<and>
    (\<exists>s. getSession sid st' = Some s \<and> ss_status s = StOpen \<and>
       jm_get (ss_intents s) (in_intentId intent) = Some intent) \<and>
    (\<forall>k s0. getSession k st = Some s0 \<longrightarrow> ss_status s0 \<noteq> StOpen \<longrightarrow>
       getOpenSessions st \<noteq> [] \<or> k \<noteq> session_id_at now \<longrightarrow> getSession k st' = Some s0)"
proof -
  have inv: "state_inv st'" using addIntent_inv [OF assms(1), of now intent] assms(2) by simp
  obtain s where s: "getSession sid st' = Some s" "ss_status s = StOpen"
    "jm_get (ss_intents s) (in_intentId intent) = Some intent"
    using addIntent_spec [OF assms] by blast
  have "s \<in> set (jm_values (cs_sessions st'))"
    using s(1) inv by (auto simp: getSession_def jm_values_get state_inv_def)
  then have "s \<in> set (getOpenSessions st')" using s(2) by (simp add: getOpenSessions_def)
  then have "getOpenSessions st' \<noteq> []" by auto
  then have "length (getOpenSessions st') = 1"
    using inv by (cases "getOpenSessions st'") (auto simp: state_inv_def)
  then show ?thesis using inv s addIntent_frame [OF assms(1)] assms(2) by (metis snd_conv)
qed

definition demo_intent :: "string \<Rightarrow> mpc_intent" where
  "demo_intent i = \<lparr> in_intentId = i, in_userId = ''u'', in_inputAsset = ''USDC'', in_outputAsset = ''USDC'',
     in_expiryLedger = 9, in_policyId = ''p'', in_noteNullifier = ''n'', in_noteCommitment = ''c'',
     in_recipientCommitment = ''r'', in_encryptedShares = [], in_submittedAt = 1 \<rparr>"

theorem intents_join_the_open_session_witness:
  "length (getOpenSessions (snd (addIntent 5 (demo_intent ''i1'') empty_state))) = 1 \<and>
   fst (addIntent 5 (demo_intent ''i1'') empty_state) = session_id_at 5"
proof -
  have "addIntent 5 (demo_intent ''i1'') empty_state =
      (fst (addIntent 5 (demo_intent ''i1'') empty_state), snd (addIntent 5 (demo_intent ''i1'') empty_state))" by simp
  from intents_join_the_open_session [OF state_inv_empty this]
  have "length (getOpenSessions (snd (addIntent 5 (demo_intent ''i1'') empty_state))) = 1" by blast
  moreover have "fst (addIntent 5 (demo_intent ''i1'') empty_state) = session_id_at 5"
    by (simp add: addIntent_def getOrCreateOpenSession_def createSession_def fresh_session_def put_session_def empty_state_def
        jm_values_def Let_def)
  ultimately show ?thesis by simp
qed

text \<open>Session ids are millisecond time stamps: when no session is open and a session closed
  earlier carries the id of the current millisecond, accepting an intent replaces that session, and its
  signed batch is no longer in the committee's memory.\<close>

theorem session_id_collision_replaces:
  assumes "getOpenSessions st = []" "getSession (session_id_at now) st = Some s0" "ss_signedBatch s0 = Some b"
  shows "\<exists>s. getSession (session_id_at now) (snd (addIntent now intent st)) = Some s \<and> ss_signedBatch s = None \<and> ss_status s = StOpen"
proof -
  have none: "find_first (\<lambda>s. ss_status s = StOpen) (jm_values (cs_sessions st)) = None"
    using assms(1) by (simp add: getOpenSessions_def filter_empty_conv)
  have "getOrCreateOpenSession now st = createSession now (session_id_at now) st"
    by (simp only: getOrCreateOpenSession_def none option.case)
  then show ?thesis
    by (simp add: addIntent_def createSession_def Let_def getSession_def put_session_def fresh_session_def)
qed

theorem session_id_collision_replaces_witness:
  "\<exists>s. getSession (session_id_at 5) (snd (addIntent 5 (demo_intent ''i2'')
      (put_session (fresh_session 5 (session_id_at 5) \<lparr> ss_status := StSigned, ss_signedBatch := Some (demo_batch [0, 1]) \<rparr>) empty_state))) = Some s
    \<and> ss_signedBatch s = None \<and> ss_status s = StOpen"
  by (rule session_id_collision_replaces)
     (auto simp: getOpenSessions_def put_session_def empty_state_def fresh_session_def getSession_def jm_values_def jm_get_def)

end
