(* ===== verification/Matcher.thy ===== *)
theory Matcher
  imports Committee
begin

text \<open>
  The matching algorithms of \<open>apps/mpc-committee/src/coordinator.ts\<close>: netting of
  complementary intents (\<open>matchIntents\<close>) and priced cross-asset matching
  (\<open>matchPricedPair\<close>, \<open>matchPricedIntents\<close>).

  \<open>matchIntents\<close> sorts with a comparator that never answers 0, so the order of
  equal amounts is left to the engine: the sort is the parameter \<open>srt\<close>, of which
  the results use only that it permutes its input.
\<close>

record match_intent =
  mi_intentId :: string
  mi_amount7dp :: int
  mi_inputAsset :: string
  mi_outputAsset :: string

definition bar_key :: "string \<Rightarrow> string \<Rightarrow> string" where
  "bar_key a b = a @ CHR ''|'' # b"

text \<open>\<open>key.split("|")\<close>\<close>

fun split_bar :: "string \<Rightarrow> string list" where
  "split_bar [] = [[]]"
| "split_bar (c # cs) =
    (if c = CHR ''|'' then [] # split_bar cs
     else case split_bar cs of [] \<Rightarrow> [[c]] | p # ps \<Rightarrow> (c # p) # ps)"

definition group_intents :: "match_intent list \<Rightarrow> (string, match_intent list) jmap" where
  "group_intents intents =
    fold (\<lambda>i groups. let key = bar_key (mi_inputAsset i) (mi_outputAsset i) in
        jm_set groups key ((case jm_get groups key of None \<Rightarrow> [] | Some g \<Rightarrow> g) @ [i]))
      intents []"

text \<open>The two-pointer loop; the lists are what is left from \<open>ai\<close> and from \<open>bi\<close>.\<close>

function pair_loop ::
  "string \<Rightarrow> string \<Rightarrow> string list \<Rightarrow> match_intent list \<Rightarrow> match_intent list \<Rightarrow> match_result list \<times> string list" where
  "pair_loop inA outA used [] bs = ([], used)"
| "pair_loop inA outA used (a # as) [] = ([], used)"
| "pair_loop inA outA used (a # as) (b # bs) =
    (if mi_intentId a \<in> set used then pair_loop inA outA used as (b # bs)
     else if mi_intentId b \<in> set used \<or> mi_intentId a = mi_intentId b then pair_loop inA outA used (a # as) bs
     else let matchAmt = (if mi_amount7dp a < mi_amount7dp b then mi_amount7dp a else mi_amount7dp b);
              m = \<lparr> mr_intentAId = mi_intentId a, mr_intentBId = mi_intentId b,
                    mr_matchedAmount7dp = int_to_string matchAmt, mr_inputAsset = inA, mr_outputAsset = outA,
                    mr_priceScaled = None, mr_assetIn = None, mr_assetOut = None \<rparr>;
              (ms, used') = pair_loop inA outA (mi_intentId b # mi_intentId a # used) as bs
          in (m # ms, used'))"
  by pat_completeness auto
termination
  by (relation "measure (\<lambda>(_, _, _, as, bs). length as + length bs)") auto

definition match_group ::
  "(match_intent list \<Rightarrow> match_intent list) \<Rightarrow> (string, match_intent list) jmap \<Rightarrow> string \<times> match_intent list \<Rightarrow>
     match_result list \<times> string list \<Rightarrow> match_result list \<times> string list" where
  "match_group srt groups entry st =
    (let (key, group) = entry; (matches, used) = st;
         inAsset = split_bar key ! 0; outAsset = split_bar key ! 1 in
     case jm_get groups (bar_key outAsset inAsset) of
       None \<Rightarrow> (matches, used)
     | Some reverseGroup \<Rightarrow>
         let (ms, used') = pair_loop inAsset outAsset used (srt group) (srt reverseGroup)
         in (matches @ ms, used'))"

definition matchIntents :: "(match_intent list \<Rightarrow> match_intent list) \<Rightarrow> match_intent list \<Rightarrow> match_result list" where
  "matchIntents srt intents =
    (let groups = group_intents intents in fst (fold (match_group srt groups) groups ([], [])))"


section \<open>Priced matching\<close>

definition PRICE_SCALE :: int where
  "PRICE_SCALE = 1000000000"

record priced_intent =
  pi_intentId :: string
  pi_inputAsset :: string
  pi_outputAsset :: string
  pi_amount :: int
  pi_minOutput :: int
  pi_limitPriceScaled :: int

record priced_match =
  pm_intentAId :: string
  pm_intentBId :: string
  pm_inputAssetA :: string
  pm_outputAssetA :: string
  pm_inputAssetB :: string
  pm_outputAssetB :: string
  pm_matchedAmountA :: string
  pm_matchedAmountB :: string
  pm_priceScaled :: string
  pm_minOutputA :: string
  pm_minOutputB :: string

datatype matcher_error = DivisionByZero

definition matchPricedPair :: "priced_intent \<Rightarrow> priced_intent \<Rightarrow> (matcher_error, priced_match option) result" where
  "matchPricedPair a b =
    (if pi_inputAsset a \<noteq> pi_outputAsset b then Ok None
     else if pi_outputAsset a \<noteq> pi_inputAsset b then Ok None
     else if pi_inputAsset a = pi_outputAsset a then Ok None
     else let priceScaled = pi_limitPriceScaled a;
              outputForA = js_div (pi_amount a * priceScaled) PRICE_SCALE;
              outputForB = pi_amount a in
       if pi_amount b \<noteq> outputForA then Ok None
       else if outputForA < pi_minOutput a then Ok None
       else if outputForB < pi_minOutput b then Ok None
       else if pi_amount b = 0 then Throw DivisionByZero
       else let rateForB = js_div (outputForB * PRICE_SCALE) (pi_amount b) in
         if rateForB < pi_limitPriceScaled b then Ok None
         else Ok (Some \<lparr> pm_intentAId = pi_intentId a, pm_intentBId = pi_intentId b,
           pm_inputAssetA = pi_inputAsset a, pm_outputAssetA = pi_outputAsset a,
           pm_inputAssetB = pi_inputAsset b, pm_outputAssetB = pi_outputAsset b,
           pm_matchedAmountA = int_to_string (pi_amount a), pm_matchedAmountB = int_to_string outputForA,
           pm_priceScaled = int_to_string priceScaled,
           pm_minOutputA = int_to_string (pi_minOutput a), pm_minOutputB = int_to_string (pi_minOutput b) \<rparr>))"

text \<open>The inner loop over \<open>j\<close>: the first partner that crosses, if any.\<close>

fun find_partner ::
  "priced_intent list \<Rightarrow> nat \<Rightarrow> string list \<Rightarrow> nat list \<Rightarrow> (matcher_error, (nat \<times> priced_match) option) result" where
  "find_partner intents i used [] = Ok None"
| "find_partner intents i used (j # js) =
    (if i = j \<or> pi_intentId (intents ! j) \<in> set used \<or> pi_intentId (intents ! i) \<in> set used
     then find_partner intents i used js
     else case matchPricedPair (intents ! i) (intents ! j) of
       Inl e \<Rightarrow> Throw e
     | Inr None \<Rightarrow> find_partner intents i used js
     | Inr (Some m) \<Rightarrow> Ok (Some (j, m)))"

fun priced_loop ::
  "priced_intent list \<Rightarrow> string list \<Rightarrow> nat list \<Rightarrow> (matcher_error, priced_match list) result" where
  "priced_loop intents used [] = Ok []"
| "priced_loop intents used (i # is) =
    (if pi_intentId (intents ! i) \<in> set used then priced_loop intents used is
     else case find_partner intents i used [0..<length intents] of
       Inl e \<Rightarrow> Throw e
     | Inr None \<Rightarrow> priced_loop intents used is
     | Inr (Some (j, m)) \<Rightarrow>
         res_bind (priced_loop intents (pi_intentId (intents ! j) # pi_intentId (intents ! i) # used) is)
           (\<lambda>ms. Ok (m # ms)))"

definition matchPricedIntents :: "priced_intent list \<Rightarrow> (matcher_error, priced_match list) result" where
  "matchPricedIntents intents = priced_loop intents [] [0..<length intents]"


section \<open>Grouping\<close>

definition no_bar :: "match_intent list \<Rightarrow> bool" where
  "no_bar intents = (\<forall>i\<in>set intents. CHR ''|'' \<notin> set (mi_inputAsset i) \<and> CHR ''|'' \<notin> set (mi_outputAsset i))"

abbreviation key_of :: "match_intent \<Rightarrow> string" where
  "key_of i \<equiv> bar_key (mi_inputAsset i) (mi_outputAsset i)"

lemma split_bar_plain: "CHR ''|'' \<notin> set s \<Longrightarrow> split_bar s = [s]"
  by (induction s) auto

lemma split_bar_key: "CHR ''|'' \<notin> set a \<Longrightarrow> CHR ''|'' \<notin> set b \<Longrightarrow> split_bar (bar_key a b) = [a, b]"
  unfolding bar_key_def by (induction a) (auto simp: split_bar_plain)

lemma bar_key_inject:
  "CHR ''|'' \<notin> set a \<Longrightarrow> CHR ''|'' \<notin> set c \<Longrightarrow> bar_key a b = bar_key c d \<longleftrightarrow> a = c \<and> b = d"
  unfolding bar_key_def by (rule append_sep_inject)

lemma group_intents_snoc:
  "group_intents (is @ [i]) = jm_set (group_intents is) (key_of i)
     ((case jm_get (group_intents is) (key_of i) of None \<Rightarrow> [] | Some g \<Rightarrow> g) @ [i])"
  by (simp add: group_intents_def Let_def)

lemma group_intents_get:
  "jm_get (group_intents intents) k =
    (if \<exists>i\<in>set intents. key_of i = k then Some (filter (\<lambda>i. key_of i = k) intents) else None)"
proof (induction intents rule: rev_induct)
  case Nil
  then show ?case by (simp add: group_intents_def)
next
  case (snoc i intents)
  then show ?case by (auto simp: group_intents_snoc filter_empty_conv)
qed

lemma group_intents_inv: "jm_inv (group_intents intents)"
  by (induction intents rule: rev_induct) (simp_all add: group_intents_snoc, simp add: group_intents_def)

lemma group_intents_entries:
  "(k, g) \<in> set (group_intents intents) \<longleftrightarrow> jm_get (group_intents intents) k = Some g"
  using group_intents_inv [of intents] by (simp add: jm_inv_def jm_get_def)


section \<open>The pairing loop\<close>

abbreviation match_ids :: "match_result list \<Rightarrow> string list" where
  "match_ids ms \<equiv> concat (map (\<lambda>m. [mr_intentAId m, mr_intentBId m]) ms)"

text \<open>A match produced for \<open>a\<close> out of \<open>as\<close> and \<open>b\<close> out of \<open>bs\<close>.\<close>

definition pairs_from :: "string \<Rightarrow> string \<Rightarrow> match_intent set \<Rightarrow> match_intent set \<Rightarrow> match_result \<Rightarrow> bool" where
  "pairs_from inA outA A B m =
    (\<exists>a\<in>A. \<exists>b\<in>B. mi_intentId a \<noteq> mi_intentId b \<and> mr_intentAId m = mi_intentId a \<and> mr_intentBId m = mi_intentId b \<and>
       mr_matchedAmount7dp m = int_to_string (min (mi_amount7dp a) (mi_amount7dp b)) \<and>
       mr_inputAsset m = inA \<and> mr_outputAsset m = outA)"

lemma pairs_from_mono: "pairs_from i o' A B m \<Longrightarrow> A \<subseteq> A' \<Longrightarrow> B \<subseteq> B' \<Longrightarrow> pairs_from i o' A' B' m"
  unfolding pairs_from_def by blast

lemma pair_loop_correct:
  assumes "pair_loop inA outA used as bs = (ms, used')"
  shows "set used' = set used \<union> set (match_ids ms) \<and> distinct (match_ids ms) \<and>
    set (match_ids ms) \<inter> set used = {} \<and> (\<forall>m\<in>set ms. pairs_from inA outA (set as) (set bs) m)"
  using assms
proof (induction inA outA used as bs arbitrary: ms used' rule: pair_loop.induct)
  case (3 inA outA used a as b bs)
  consider "mi_intentId a \<in> set used" | "mi_intentId a \<notin> set used" "mi_intentId b \<in> set used \<or> mi_intentId a = mi_intentId b"
    | "mi_intentId a \<notin> set used" "\<not> (mi_intentId b \<in> set used \<or> mi_intentId a = mi_intentId b)" by blast
  then show ?case
  proof cases
    case 1
    then have "pair_loop inA outA used as (b # bs) = (ms, used')" using 3(4) by simp
    note ih = 3(1) [OF 1 this]
    moreover have "\<forall>m\<in>set ms. pairs_from inA outA (set (a # as)) (set (b # bs)) m"
      using ih by (meson pairs_from_mono set_subset_Cons order_refl)
    ultimately show ?thesis by blast
  next
    case 2
    then have "pair_loop inA outA used (a # as) bs = (ms, used')" using 3(4) by simp
    note ih = 3(2) [OF 2 this]
    moreover have "\<forall>m\<in>set ms. pairs_from inA outA (set (a # as)) (set (b # bs)) m"
      using ih by (meson pairs_from_mono set_subset_Cons order_refl)
    ultimately show ?thesis by blast
  next
    case 3
    note new = 3
    obtain ns u where rec: "pair_loop inA outA (mi_intentId b # mi_intentId a # used) as bs = (ns, u)"
      by fastforce
    from "3.IH"(3) [OF new refl refl rec] have
      ih: "set u = set (mi_intentId b # mi_intentId a # used) \<union> set (match_ids ns)" "distinct (match_ids ns)"
        "set (match_ids ns) \<inter> set (mi_intentId b # mi_intentId a # used) = {}"
        "\<forall>m\<in>set ns. pairs_from inA outA (set as) (set bs) m" by auto
    obtain m where m: "ms = m # ns" "used' = u" "mr_intentAId m = mi_intentId a" "mr_intentBId m = mi_intentId b"
      "pairs_from inA outA (set (a # as)) (set (b # bs)) m"
      using "3.prems" new rec by (auto simp: Let_def pairs_from_def min_def)
    moreover have "\<forall>m\<in>set ns. pairs_from inA outA (set (a # as)) (set (b # bs)) m"
      using ih(4) by (meson pairs_from_mono set_subset_Cons)
    ultimately show ?thesis using ih new by auto
  qed
qed auto

text \<open>What the loop leaves: the first list is used up, or only a namesake of one of its elements is
  left of the second.\<close>

lemma pair_loop_exhausts:
  assumes "pair_loop inA outA used as bs = (ms, used')"
  shows "(\<forall>a\<in>set as. mi_intentId a \<in> set used') \<or>
    (\<exists>pre a post. as = pre @ a # post \<and> (\<forall>x\<in>set pre. mi_intentId x \<in> set used') \<and>
       (\<forall>b\<in>set bs. mi_intentId b \<in> set used' \<or> mi_intentId b = mi_intentId a))"
  using assms
proof (induction inA outA used as bs arbitrary: ms used' rule: pair_loop.induct)
  case (2 inA outA used a as)
  then show ?case by (intro disjI2 exI [of _ "[]"]) auto
next
  case (3 inA outA used a as b bs)
  have mono: "set used \<subseteq> set used'"
    using pair_loop_correct [OF 3(4)] by blast
  consider "mi_intentId a \<in> set used" | "mi_intentId a \<notin> set used" "mi_intentId b \<in> set used \<or> mi_intentId a = mi_intentId b"
    | "mi_intentId a \<notin> set used" "\<not> (mi_intentId b \<in> set used \<or> mi_intentId a = mi_intentId b)" by blast
  then show ?case
  proof cases
    case 1
    then have "pair_loop inA outA used as (b # bs) = (ms, used')" using 3(4) by simp
    from 3(1) [OF 1 this] show ?thesis
    proof (elim disjE exE conjE)
      fix pre x post
      assume "as = pre @ x # post" "\<forall>y\<in>set pre. mi_intentId y \<in> set used'"
        "\<forall>b\<in>set (b # bs). mi_intentId b \<in> set used' \<or> mi_intentId b = mi_intentId x"
      then show ?thesis
        using 1 mono by (intro disjI2 exI [of _ "a # pre"] exI [of _ x] exI [of _ post]) auto
    qed (use 1 mono in auto)
  next
    case 2
    then have "pair_loop inA outA used (a # as) bs = (ms, used')" using 3(4) by simp
    from 3(2) [OF 2 this] show ?thesis
    proof (elim disjE exE conjE)
      fix pre x post
      assume x: "a # as = pre @ x # post" "\<forall>y\<in>set pre. mi_intentId y \<in> set used'"
        "\<forall>b\<in>set bs. mi_intentId b \<in> set used' \<or> mi_intentId b = mi_intentId x"
      have "mi_intentId b \<in> set used' \<or> mi_intentId b = mi_intentId x"
        using 2(2) mono x(1,2) by (cases pre) auto
      then show ?thesis using x by (intro disjI2 exI [of _ pre] exI [of _ x] exI [of _ post]) auto
    qed simp
  next
    case 3
    obtain ns u where rec: "pair_loop inA outA (mi_intentId b # mi_intentId a # used) as bs = (ns, u)"
      by fastforce
    then have u: "used' = u" "mi_intentId a \<in> set u" "mi_intentId b \<in> set u"
      using "3.prems" 3 pair_loop_correct [OF rec] by (auto simp: Let_def)
    from "3.IH"(3) [OF 3 refl refl rec] show ?thesis
    proof (elim disjE exE conjE)
      fix pre x post
      assume "as = pre @ x # post" "\<forall>y\<in>set pre. mi_intentId y \<in> set u"
        "\<forall>b\<in>set bs. mi_intentId b \<in> set u \<or> mi_intentId b = mi_intentId x"
      then show ?thesis
        using u by (intro disjI2 exI [of _ "a # pre"] exI [of _ x] exI [of _ post]) auto
    qed (use u in auto)
  qed
qed simp



section \<open>Matching with any permuting sort\<close>

text \<open>Two intents that can be netted against each other.\<close>

definition complementary :: "match_intent \<Rightarrow> match_intent \<Rightarrow> bool" where
  "complementary a b = (mi_intentId a \<noteq> mi_intentId b \<and>
     mi_inputAsset a = mi_outputAsset b \<and> mi_outputAsset a = mi_inputAsset b)"

definition valid_match :: "match_intent list \<Rightarrow> match_result \<Rightarrow> bool" where
  "valid_match intents m =
    (\<exists>a\<in>set intents. \<exists>b\<in>set intents. complementary a b \<and>
       mr_intentAId m = mi_intentId a \<and> mr_intentBId m = mi_intentId b \<and>
       mr_inputAsset m = mi_inputAsset a \<and> mr_outputAsset m = mi_outputAsset a \<and>
       mr_matchedAmount7dp m = int_to_string (min (mi_amount7dp a) (mi_amount7dp b)))"

definition match_inv :: "match_intent list \<Rightarrow> match_result list \<times> string list \<Rightarrow> bool" where
  "match_inv intents st = (set (snd st) = set (match_ids (fst st)) \<and> distinct (match_ids (fst st)) \<and>
     (\<forall>m\<in>set (fst st). valid_match intents m))"

definition settled_key :: "match_intent list \<Rightarrow> string list \<Rightarrow> string \<Rightarrow> bool" where
  "settled_key intents used k =
    (\<forall>a\<in>set intents. \<forall>b\<in>set intents. key_of a = k \<longrightarrow> complementary a b \<longrightarrow>
       mi_intentId a \<in> set used \<or> mi_intentId b \<in> set used)"

lemma settled_key_mono: "settled_key intents used k \<Longrightarrow> set used \<subseteq> set used' \<Longrightarrow> settled_key intents used' k"
  unfolding settled_key_def by blast

locale permuting_sort =
  fixes srt :: "match_intent list \<Rightarrow> match_intent list"
  assumes mset_srt: "mset (srt xs) = mset xs"
begin

lemma set_srt [simp]: "set (srt xs) = set xs"
  using mset_srt by (metis set_mset_mset)

lemma match_group_step:
  assumes bar: "no_bar intents" and ids: "distinct (map mi_intentId intents)"
    and entry: "(k, g) \<in> set (group_intents intents)" and inv: "match_inv intents st"
  shows "match_inv intents (match_group srt (group_intents intents) (k, g) st) \<and>
    set (snd st) \<subseteq> set (snd (match_group srt (group_intents intents) (k, g) st)) \<and>
    settled_key intents (snd (match_group srt (group_intents intents) (k, g) st)) k"
proof -
  have g: "g = filter (\<lambda>i. key_of i = k) intents" and "\<exists>i\<in>set intents. key_of i = k"
    using entry by (auto simp: group_intents_entries group_intents_get split: if_splits)
  then obtain i where i: "i \<in> set intents" "key_of i = k" by blast
  define p q where pq: "p = mi_inputAsset i" "q = mi_outputAsset i"
  have nb: "CHR ''|'' \<notin> set p" "CHR ''|'' \<notin> set q"
    using bar i(1) by (auto simp: no_bar_def pq)
  have k: "k = bar_key p q" "split_bar (bar_key p q) = [p, q]"
    using i(2) split_bar_key [OF nb] by (auto simp: pq)
  have key: "key_of x = bar_key u v \<longleftrightarrow> mi_inputAsset x = u \<and> mi_outputAsset x = v"
    if "x \<in> set intents" "CHR ''|'' \<notin> set u" for x u v
    using bar that by (intro bar_key_inject) (auto simp: no_bar_def)
  obtain ms used where st: "st = (ms, used)" by fastforce
  show ?thesis
  proof (cases "jm_get (group_intents intents) (bar_key q p)")
    case None
    then have "\<forall>b\<in>set intents. key_of b \<noteq> bar_key q p"
      by (auto simp: group_intents_get split: if_splits)
    then have "settled_key intents used k"
      unfolding settled_key_def complementary_def k(1) using key nb by metis
    then show ?thesis
      using None inv by (simp add: match_group_def st k Let_def)
  next
    case (Some rg)
    then have rg: "rg = filter (\<lambda>i. key_of i = bar_key q p) intents"
      by (auto simp: group_intents_get split: if_splits)
    obtain ns used' where loop: "pair_loop p q used (srt g) (srt rg) = (ns, used')" by fastforce
    have step: "match_group srt (group_intents intents) (k, g) st = (ms @ ns, used')"
      using Some loop by (simp add: match_group_def st k Let_def)
    note lc = pair_loop_correct [OF loop]
    have valid: "valid_match intents m" if "m \<in> set ns" for m
    proof -
      have "pairs_from p q (set g) (set rg) m" using lc that by simp
      then obtain a b where ab: "a \<in> set g" "b \<in> set rg" "mi_intentId a \<noteq> mi_intentId b"
        "mr_intentAId m = mi_intentId a" "mr_intentBId m = mi_intentId b"
        "mr_matchedAmount7dp m = int_to_string (min (mi_amount7dp a) (mi_amount7dp b))"
        "mr_inputAsset m = p" "mr_outputAsset m = q" by (auto simp: pairs_from_def)
      then have "a \<in> set intents" "b \<in> set intents" "mi_inputAsset a = p" "mi_outputAsset a = q"
        "mi_inputAsset b = q" "mi_outputAsset b = p"
        using key nb by (auto simp: g rg k(1))
      then show ?thesis
        using ab unfolding valid_match_def complementary_def by (intro bexI [of _ a] bexI [of _ b]) simp_all
    qed
    have settled: "settled_key intents used' k"
      unfolding settled_key_def
    proof (intro ballI impI)
      fix a b assume a: "a \<in> set intents" "key_of a = k" and b: "b \<in> set intents" and c: "complementary a b"
      have ag: "a \<in> set g" using a by (simp add: g)
      have in_rg: "x \<in> set rg" if "x \<in> set intents" "mi_inputAsset x = q" "mi_outputAsset x = p" for x
        using that by (simp add: rg)
      have ap: "mi_inputAsset a = p" "mi_outputAsset a = q" using a key nb k(1) by auto
      have brg: "b \<in> set rg" using b c ap in_rg by (simp add: complementary_def)
      from pair_loop_exhausts [OF loop] show "mi_intentId a \<in> set used' \<or> mi_intentId b \<in> set used'"
      proof (elim disjE exE conjE)
        assume "\<forall>a\<in>set (srt g). mi_intentId a \<in> set used'"
        then show ?thesis using ag by simp
      next
        fix pre x post
        assume x: "srt g = pre @ x # post"
          "\<forall>b\<in>set (srt rg). mi_intentId b \<in> set used' \<or> mi_intentId b = mi_intentId x"
        have xi: "x \<in> set g" using x(1) by (metis in_set_conv_decomp set_srt)
        show ?thesis
        proof (cases "mi_intentId b = mi_intentId x")
          case True
          then have "b = x" using xi b ids by (auto simp: g distinct_map inj_on_def)
          then have "p = q" using xi c ap key nb by (auto simp: g k(1) complementary_def)
          then have "a \<in> set rg" using a ap in_rg by simp
          then show ?thesis using x(2) c \<open>b = x\<close> by (auto simp: complementary_def)
        qed (use x(2) brg in auto)
      qed
    qed
    show ?thesis
      unfolding step using inv lc valid settled by (auto simp: match_inv_def st)
  qed
qed

lemma match_groups_fold:
  assumes "no_bar intents" "distinct (map mi_intentId intents)" "set es \<subseteq> set (group_intents intents)"
    "match_inv intents st"
  shows "match_inv intents (fold (match_group srt (group_intents intents)) es st) \<and>
    set (snd st) \<subseteq> set (snd (fold (match_group srt (group_intents intents)) es st)) \<and>
    (\<forall>e\<in>set es. settled_key intents (snd (fold (match_group srt (group_intents intents)) es st)) (fst e))"
  using assms(3,4)
proof (induction es arbitrary: st)
  case (Cons e es)
  obtain k g where e: "e = (k, g)" by fastforce
  let ?st' = "match_group srt (group_intents intents) (k, g) st"
  have step: "match_inv intents ?st'" "set (snd st) \<subseteq> set (snd ?st')" "settled_key intents (snd ?st') k"
    using match_group_step [OF assms(1,2), of k g st] Cons.prems e by auto
  show ?case
    using Cons.IH [OF _ step(1)] step(2,3) Cons.prems settled_key_mono by (fastforce simp: e)
qed simp

lemma matchIntents_correct:
  assumes "no_bar intents" "distinct (map mi_intentId intents)"
  shows "distinct (match_ids (matchIntents srt intents)) \<and>
    (\<forall>m\<in>set (matchIntents srt intents). valid_match intents m) \<and>
    (\<forall>a\<in>set intents. \<forall>b\<in>set intents. complementary a b \<longrightarrow>
       mi_intentId a \<in> set (match_ids (matchIntents srt intents)) \<or> mi_intentId b \<in> set (match_ids (matchIntents srt intents)))"
proof -
  let ?gs = "group_intents intents"
  let ?st = "fold (match_group srt ?gs) ?gs ([], [])"
  have "match_inv intents ([], [])" by (simp add: match_inv_def)
  from match_groups_fold [OF assms order_refl this]
  have inv: "match_inv intents ?st" and all: "\<forall>e\<in>set ?gs. settled_key intents (snd ?st) (fst e)" by auto
  have "settled_key intents (snd ?st) (key_of a)" if "a \<in> set intents" for a
  proof -
    have "jm_get ?gs (key_of a) = Some (filter (\<lambda>i. key_of i = key_of a) intents)"
      using that by (auto simp: group_intents_get)
    then have "(key_of a, filter (\<lambda>i. key_of i = key_of a) intents) \<in> set ?gs"
      by (simp only: group_intents_entries)
    then show ?thesis using all by force
  qed
  moreover have "set (snd ?st) = set (match_ids (matchIntents srt intents))"
    using inv by (simp only: match_inv_def matchIntents_def Let_def)
  ultimately have "mi_intentId a \<in> set (match_ids (matchIntents srt intents)) \<or> mi_intentId b \<in> set (match_ids (matchIntents srt intents))"
    if "a \<in> set intents" "b \<in> set intents" "complementary a b" for a b
    using that unfolding settled_key_def by blast
  then show ?thesis using inv by (simp only: match_inv_def matchIntents_def Let_def) blast
qed

end

interpretation stable_sort: permuting_sort "sort_key mi_amount7dp"
  by unfold_locales simp



section \<open>Priced pairs\<close>

text \<open>What a fill promises its two parties: full amounts at the price of \<open>a\<close>, rounded down for \<open>a\<close>,
  both minimum outputs met, and a rate \<open>b\<close> accepts.\<close>

definition fair_fill :: "priced_intent \<Rightarrow> priced_intent \<Rightarrow> priced_match \<Rightarrow> bool" where
  "fair_fill a b m =
    (pi_inputAsset a = pi_outputAsset b \<and> pi_outputAsset a = pi_inputAsset b \<and> pi_inputAsset a \<noteq> pi_outputAsset a \<and>
     pi_amount b = js_div (pi_amount a * pi_limitPriceScaled a) PRICE_SCALE \<and>
     pi_minOutput a \<le> pi_amount b \<and> pi_minOutput b \<le> pi_amount a \<and>
     pi_limitPriceScaled b \<le> js_div (pi_amount a * PRICE_SCALE) (pi_amount b) \<and>
     pm_intentAId m = pi_intentId a \<and> pm_intentBId m = pi_intentId b \<and>
     pm_matchedAmountA m = int_to_string (pi_amount a) \<and> pm_matchedAmountB m = int_to_string (pi_amount b) \<and>
     pm_priceScaled m = int_to_string (pi_limitPriceScaled a))"

lemma matchPricedPair_fair: "matchPricedPair a b = Ok (Some m) \<Longrightarrow> fair_fill a b m"
  by (auto simp: matchPricedPair_def fair_fill_def Let_def split: if_splits)

lemma matchPricedPair_throws: "matchPricedPair a b = Inl e \<Longrightarrow> pi_amount b = 0"
  by (auto simp: matchPricedPair_def Let_def split: if_splits)

lemma find_partner_Some:
  "find_partner intents i used js = Ok (Some (j, m)) \<Longrightarrow>
    j \<in> set js \<and> i \<noteq> j \<and> pi_intentId (intents ! j) \<notin> set used \<and> pi_intentId (intents ! i) \<notin> set used \<and>
    fair_fill (intents ! i) (intents ! j) m"
proof (induction js)
  case (Cons k js)
  then show ?case
    using matchPricedPair_fair by (auto split: if_splits sum.splits option.splits)
qed simp

lemma find_partner_throws: "find_partner intents i used js = Inl e \<Longrightarrow> \<exists>j\<in>set js. pi_amount (intents ! j) = 0"
  by (induction js) (auto dest: matchPricedPair_throws split: if_splits sum.splits option.splits)

abbreviation priced_ids :: "priced_match list \<Rightarrow> string list" where
  "priced_ids ms \<equiv> concat (map (\<lambda>m. [pm_intentAId m, pm_intentBId m]) ms)"

lemma priced_loop_correct:
  assumes "priced_loop intents used is = Ok ms" "\<forall>i\<in>set is. i < length intents" "distinct (map pi_intentId intents)"
  shows "distinct (priced_ids ms) \<and> set (priced_ids ms) \<inter> set used = {} \<and>
    (\<forall>m\<in>set ms. \<exists>a\<in>set intents. \<exists>b\<in>set intents. fair_fill a b m)"
  using assms
proof (induction intents used "is" arbitrary: ms rule: priced_loop.induct)
  case (2 intents used i "is")
  show ?case
  proof (cases "pi_intentId (intents ! i) \<in> set used")
    case True
    then show ?thesis using 2 by simp
  next
    case False
    note new = False
    show ?thesis
    proof (cases "find_partner intents i used [0..<length intents]")
      case (Inl e)
      then show ?thesis using 2 new by simp
    next
      case (Inr r)
      show ?thesis
      proof (cases r)
        case None
        then show ?thesis using 2 new Inr by simp
      next
        case (Some jm)
        obtain j m where jm: "jm = (j, m)" by fastforce
        note f = find_partner_Some [of intents i used "[0..<length intents]" j m]
        have f: "j < length intents" "i \<noteq> j" "pi_intentId (intents ! j) \<notin> set used" "fair_fill (intents ! i) (intents ! j) m"
          using f Inr Some jm by auto
        obtain ns where ns: "ms = m # ns"
          "priced_loop intents (pi_intentId (intents ! j) # pi_intentId (intents ! i) # used) is = Ok ns"
          using "2.prems"(1) new Inr Some jm by (auto simp: res_simps)
        have i: "i < length intents" using "2.prems"(2) by simp
        have "pi_intentId (intents ! i) \<noteq> pi_intentId (intents ! j)"
          using "2.prems"(3) f(1,2) i by (metis length_map nth_eq_iff_index_eq nth_map)
        moreover have "distinct (priced_ids ns) \<and>
            set (priced_ids ns) \<inter> set (pi_intentId (intents ! j) # pi_intentId (intents ! i) # used) = {} \<and>
            (\<forall>m\<in>set ns. \<exists>a\<in>set intents. \<exists>b\<in>set intents. fair_fill a b m)"
          using "2.IH"(3) [OF new Inr Some jm [symmetric] ns(2)] "2.prems"(2,3) by simp
        moreover have "pm_intentAId m = pi_intentId (intents ! i)" "pm_intentBId m = pi_intentId (intents ! j)"
          using f(4) by (simp_all add: fair_fill_def)
        moreover have "\<exists>a\<in>set intents. \<exists>b\<in>set intents. fair_fill a b m"
          using f(1,4) i nth_mem by blast
        ultimately show ?thesis using new f(3) unfolding ns(1) by auto
      qed
    qed
  qed
qed simp

lemma priced_loop_total:
  assumes "\<forall>x\<in>set intents. pi_amount x \<noteq> 0"
  shows "\<exists>ms. priced_loop intents used is = Ok ms"
proof (induction "is" arbitrary: used)
  case (Cons i "is")
  have "find_partner intents i used [0..<length intents] \<noteq> Inl e" for e
    using find_partner_throws [of intents i used "[0..<length intents]" e] assms by force
  then obtain r where r: "find_partner intents i used [0..<length intents] = Ok r"
    by (cases "find_partner intents i used [0..<length intents]") auto
  obtain f where "priced_loop intents u is = Ok (f u)" for u
    using Cons.IH by metis
  then show ?case by (auto simp: r split: option.split prod.split)
qed simp


section \<open>Properties\<close>

text \<open>C24: netting is sound and leaves nothing on the table. For distinct intent ids and asset names
  without the separator, and whatever order the engine gives equal amounts: no intent is used twice, no intent
  is matched with itself, every match nets two intents of the batch with opposite assets at the smaller
  of their amounts, and any two complementary intents that remain have at least one of them
  matched.\<close>

theorem matchIntents_sound_maximal:
  assumes "\<forall>xs. mset (srt xs) = mset xs" "no_bar intents" "distinct (map mi_intentId intents)"
  shows "distinct (match_ids (matchIntents srt intents)) \<and>
    (\<forall>m\<in>set (matchIntents srt intents). valid_match intents m) \<and>
    (\<forall>a\<in>set intents. \<forall>b\<in>set intents. complementary a b \<longrightarrow>
       mi_intentId a \<in> set (match_ids (matchIntents srt intents)) \<or> mi_intentId b \<in> set (match_ids (matchIntents srt intents)))"
  by (rule permuting_sort.matchIntents_correct) (use assms in \<open>simp_all add: permuting_sort_def\<close>)

definition demo_intents :: "match_intent list" where
  "demo_intents = map (\<lambda>(i, a, x, y). \<lparr> mi_intentId = i, mi_amount7dp = a, mi_inputAsset = x, mi_outputAsset = y \<rparr>)
    [(''i1'', 50, ''USDC'', ''EURC''), (''i2'', 40, ''EURC'', ''USDC''), (''i3'', 70, ''USDC'', ''USDC''), (''i4'', 9, ''USDC'', ''USDC'')]"

theorem matchIntents_sound_maximal_witness:
  "distinct (match_ids (matchIntents (sort_key mi_amount7dp) demo_intents)) \<and>
   list_all (valid_match demo_intents) (matchIntents (sort_key mi_amount7dp) demo_intents)"
  using matchIntents_sound_maximal [of "sort_key mi_amount7dp" demo_intents]
  by (simp add: no_bar_def demo_intents_def list_all_iff)

text \<open>C27: priced matching gives fair fills. For distinct ids every intent is used at most once and every
  match is between two intents of opposite assets, in full, at the first party's limit price (rounded
  down), meeting both minimum outputs and the second party's limit; if no amount is zero it always
  returns.\<close>

theorem matchPricedIntents_fair:
  assumes "distinct (map pi_intentId intents)"
  shows "(matchPricedIntents intents = Ok ms \<longrightarrow> distinct (priced_ids ms) \<and>
      (\<forall>m\<in>set ms. \<exists>a\<in>set intents. \<exists>b\<in>set intents. fair_fill a b m)) \<and>
    ((\<forall>x\<in>set intents. pi_amount x \<noteq> 0) \<longrightarrow> (\<exists>ms. matchPricedIntents intents = Ok ms))"
  using priced_loop_correct [of intents "[]" "[0..<length intents]" ms] priced_loop_total [of intents "[]"] assms
  by (simp add: matchPricedIntents_def)

definition demo_priced :: "priced_intent list" where
  "demo_priced = [\<lparr> pi_intentId = ''p1'', pi_inputAsset = ''USDC'', pi_outputAsset = ''EURC'', pi_amount = 1000,
       pi_minOutput = 900, pi_limitPriceScaled = 920000000 \<rparr>,
     \<lparr> pi_intentId = ''p2'', pi_inputAsset = ''EURC'', pi_outputAsset = ''USDC'', pi_amount = 920,
       pi_minOutput = 1000, pi_limitPriceScaled = 1080000000 \<rparr>]"

theorem matchPricedIntents_fair_witness:
  "\<exists>ms. matchPricedIntents demo_priced = Ok ms \<and> distinct (priced_ids ms)"
proof -
  have "distinct (map pi_intentId demo_priced)" "\<forall>x\<in>set demo_priced. pi_amount x \<noteq> 0"
    by (simp_all add: demo_priced_def)
  with matchPricedIntents_fair [of demo_priced] show ?thesis by blast
qed

text \<open>A pair that crosses with a zero amount makes the priced matcher throw: the rate check
  divides by the second party's amount before anything excludes zero.\<close>

theorem matchPricedPair_division_by_zero:
  "matchPricedPair a b = Throw DivisionByZero \<longleftrightarrow>
    pi_inputAsset a = pi_outputAsset b \<and> pi_outputAsset a = pi_inputAsset b \<and> pi_inputAsset a \<noteq> pi_outputAsset a \<and>
    pi_amount b = 0 \<and> js_div (pi_amount a * pi_limitPriceScaled a) PRICE_SCALE = 0 \<and>
    pi_minOutput a \<le> 0 \<and> pi_minOutput b \<le> pi_amount a"
  by (auto simp: matchPricedPair_def Let_def)

end
