(* ===== verification/Rounds.thy ===== *)
theory Rounds
  imports Sessions Matcher
begin

text \<open>
  Matching rounds and the servers that run them: \<open>runMatchingRound\<close> of
  \<open>apps/mpc-committee/src/coordinator.ts\<close> (all nodes in one process),
  \<open>runMatchingRoundRemote\<close> of \<open>remote-coordinator.ts\<close> (nodes behind HTTP), the node
  server \<open>node-server.ts\<close>, and the request handlers of \<open>server.ts\<close> and
  \<open>coordinator-server.ts\<close>.

  \<open>batchId\<close> is the drawn UUID. A round returns an outcome and the session it leaves
  behind; what an exception interrupts keeps the mutations made so far. HTTP calls
  to nodes are functions from the request to the answer or to \<open>null\<close>.
\<close>

datatype round_failure =
    NeedTwoIntents
  | DecryptFailed string string committee_error
  | NotEnoughShares string
  | TooFewResponded nat nat nat
  | TooFewSigned nat nat nat

datatype round_outcome =
    RoundOk signed_match_batch
  | RoundFailed round_failure
  | RoundThrows committee_error


section \<open>The in-process round\<close>

definition entry_share :: "string \<Rightarrow> node_share_entry \<Rightarrow> encrypted_share" where
  "entry_share nodeId e = \<lparr> es_nodeId = nodeId, es_ciphertext = nse_ciphertext e, es_nonce = nse_nonce e,
     es_senderPubkey = nse_senderPubkey e \<rparr>"

text \<open>Step 1: a node decrypts its entries; the first failure stops, with the entries before it decrypted.\<close>

fun decrypt_entries ::
  "nacl_lib \<Rightarrow> committee_node_key_pair \<Rightarrow> (string, node_share_entry) jmap \<Rightarrow>
     (string \<times> committee_error) option \<times> (string, node_share_entry) jmap" where
  "decrypt_entries lib node [] = (None, [])"
| "decrypt_entries lib node ((k, e) # es) =
    (case decryptShare lib (entry_share (kp_nodeId node) e) (kp_boxSecret node) of
       Inl err \<Rightarrow> (Some (nse_intentId e, err), (k, e) # es)
     | Inr v \<Rightarrow> (let (r, es') = decrypt_entries lib node es in (r, (k, e \<lparr> nse_decryptedShare := v \<rparr>) # es')))"

fun decrypt_nodes ::
  "nacl_lib \<Rightarrow> committee_node_key_pair list \<Rightarrow> share_slots \<Rightarrow> round_failure option \<times> share_slots" where
  "decrypt_nodes lib [] shares = (None, shares)"
| "decrypt_nodes lib (node # nodes) shares =
    (case jm_get shares (kp_nodeId node) of
       None \<Rightarrow> decrypt_nodes lib nodes shares
     | Some entries \<Rightarrow>
         (case decrypt_entries lib node entries of
            (Some (i, err), es) \<Rightarrow> (Some (DecryptFailed (kp_nodeId node) i err), jm_set shares (kp_nodeId node) es)
          | (None, es) \<Rightarrow> decrypt_nodes lib nodes (jm_set shares (kp_nodeId node) es)))"

text \<open>Step 2: the first two decrypted shares of an intent, in node order.\<close>

definition available_shares :: "string list \<Rightarrow> share_slots \<Rightarrow> string \<Rightarrow> jsval list" where
  "available_shares nodeIds shares intentId =
    take 2 (filter truthy (map (\<lambda>n. case slot shares n intentId of None \<Rightarrow> VUndef | Some e \<Rightarrow> nse_decryptedShare e) nodeIds))"

datatype reconstruct_result =
    Reconstructed "match_intent list"
  | Short string
  | Threw committee_error

fun reconstruct_intents :: "string list \<Rightarrow> share_slots \<Rightarrow> (string, mpc_intent) jmap \<Rightarrow> reconstruct_result" where
  "reconstruct_intents nodeIds shares [] = Reconstructed []"
| "reconstruct_intents nodeIds shares ((intentId, intent) # rest) =
    (let av = available_shares nodeIds shares intentId in
     if length av < 2 then Short intentId
     else case reconstructAmount av of
       Inl err \<Rightarrow> Threw err
     | Inr amount \<Rightarrow>
         (case reconstruct_intents nodeIds shares rest of
            Reconstructed ms \<Rightarrow> Reconstructed (\<lparr> mi_intentId = intentId, mi_amount7dp = amount,
              mi_inputAsset = in_inputAsset intent, mi_outputAsset = in_outputAsset intent \<rparr> # ms)
          | r \<Rightarrow> r))"

definition clear_entries :: "(string, node_share_entry) jmap \<Rightarrow> (string, node_share_entry) jmap" where
  "clear_entries m = map (map_prod id (\<lambda>e. e \<lparr> nse_decryptedShare := VNull \<rparr>)) m"

definition clear_shares :: "string list \<Rightarrow> share_slots \<Rightarrow> share_slots" where
  "clear_shares nodeIds shares =
    fold (\<lambda>n sh. case jm_get sh n of None \<Rightarrow> sh | Some m \<Rightarrow> jm_set sh n (clear_entries m)) nodeIds shares"

definition runMatchingRound ::
  "nacl_lib \<Rightarrow> (bytes \<Rightarrow> bytes) \<Rightarrow> (match_intent list \<Rightarrow> match_intent list) \<Rightarrow> string \<Rightarrow> session_state \<Rightarrow>
     committee_node_key_pair list \<Rightarrow> round_outcome \<times> session_state" where
  "runMatchingRound lib sha srt batchId session nodes =
    (if length (ss_intents session) < 2 then (RoundFailed NeedTwoIntents, session)
     else let s1 = session \<lparr> ss_status := StMatching \<rparr> in
       case decrypt_nodes lib nodes (ss_shares s1) of
         (Some f, sh) \<Rightarrow> (RoundFailed f, s1 \<lparr> ss_shares := sh, ss_status := StFailed \<rparr>)
       | (None, sh) \<Rightarrow>
         (let s2 = s1 \<lparr> ss_shares := sh \<rparr> in
          case reconstruct_intents (map kp_nodeId nodes) sh (ss_intents s2) of
            Short i \<Rightarrow> (RoundFailed (NotEnoughShares i), s2 \<lparr> ss_status := StFailed \<rparr>)
          | Threw err \<Rightarrow> (RoundThrows err, s2)
          | Reconstructed ms \<Rightarrow>
            (let s3 = s2 \<lparr> ss_shares := clear_shares (map kp_nodeId nodes) sh \<rparr>;
                 matches = matchIntents srt ms in
             case map_res (signBatch lib sha batchId matches) nodes of
               Inl err \<Rightarrow> (RoundThrows err, s3)
             | Inr sigs \<Rightarrow>
                 let batch = \<lparr> sb_batchId = batchId, sb_sessionId = ss_sessionId session, sb_matches = matches,
                       sb_batchHash = computeBatchHash sha batchId matches, sb_signatures = sigs \<rparr>
                 in (RoundOk batch, s3 \<lparr> ss_signedBatch := Some batch, ss_status := StSigned \<rparr>))))"


section \<open>The networked round\<close>

record node_endpoint =
  ep_nodeId :: string
  ep_url :: string

text \<open>The answer to \<open>POST /internal/decrypt\<close>.\<close>

record decrypt_answer =
  da_nodeId :: string
  da_shares :: "(string \<times> jsval) list"

definition threshold :: "nat \<Rightarrow> nat" where
  "threshold n = ceil_two_thirds n"

fun record_shares :: "(string \<times> jsval) list \<Rightarrow> (string, node_share_entry) jmap \<Rightarrow> (string, node_share_entry) jmap" where
  "record_shares [] m = m"
| "record_shares ((i, v) # rest) m =
    record_shares rest (case jm_get m i of None \<Rightarrow> m | Some e \<Rightarrow> jm_set m i (e \<lparr> nse_decryptedShare := v \<rparr>))"

definition record_answer :: "decrypt_answer \<Rightarrow> share_slots \<Rightarrow> share_slots" where
  "record_answer a shares =
    (case jm_get shares (da_nodeId a) of
       None \<Rightarrow> shares
     | Some m \<Rightarrow> jm_set shares (da_nodeId a) (record_shares (da_shares a) m))"

definition runMatchingRoundRemote ::
  "(bytes \<Rightarrow> bytes) \<Rightarrow> (match_intent list \<Rightarrow> match_intent list) \<Rightarrow> string \<Rightarrow>
   (node_endpoint \<Rightarrow> string list \<Rightarrow> decrypt_answer option) \<Rightarrow>
   (node_endpoint \<Rightarrow> string \<Rightarrow> match_result list \<Rightarrow> node_signature option) \<Rightarrow>
   session_state \<Rightarrow> node_endpoint list \<Rightarrow> round_outcome \<times> session_state" where
  "runMatchingRoundRemote sha srt batchId post_decrypt post_sign session endpoints =
    (if length (ss_intents session) < 2 then (RoundFailed NeedTwoIntents, session)
     else let need = threshold (length endpoints);
              s1 = session \<lparr> ss_status := StMatching \<rparr>;
              intentIds = jm_keys (ss_intents session);
              answers = List.map_filter (\<lambda>n. post_decrypt n intentIds) endpoints in
       if length answers < need then
         (RoundFailed (TooFewResponded (length answers) (length endpoints) need), s1 \<lparr> ss_status := StFailed \<rparr>)
       else let sh = fold record_answer answers (ss_shares s1); s2 = s1 \<lparr> ss_shares := sh \<rparr> in
         case reconstruct_intents (map ep_nodeId endpoints) sh (ss_intents s2) of
           Short i \<Rightarrow> (RoundFailed (NotEnoughShares i), s2 \<lparr> ss_status := StFailed \<rparr>)
         | Threw err \<Rightarrow> (RoundThrows err, s2)
         | Reconstructed ms \<Rightarrow>
             let s3 = s2 \<lparr> ss_shares := clear_shares (map ep_nodeId endpoints) sh \<rparr>;
                 matches = matchIntents srt ms;
                 sigs = List.map_filter (\<lambda>n. post_sign n batchId matches) endpoints in
             if length sigs < need then
               (RoundFailed (TooFewSigned (length sigs) (length endpoints) need), s3 \<lparr> ss_status := StFailed \<rparr>)
             else let batch = \<lparr> sb_batchId = batchId, sb_sessionId = ss_sessionId session, sb_matches = matches,
                       sb_batchHash = computeBatchHash sha batchId matches, sb_signatures = sigs \<rparr>
               in (RoundOk batch, s3 \<lparr> ss_signedBatch := Some batch, ss_status := StSigned \<rparr>))"


section \<open>The node server\<close>

record node_server =
  nd_keys :: committee_node_key_pair
  nd_token :: string
  nd_shares :: "(string, encrypted_share) jmap"

datatype 'a http = Http200 'a | HttpError nat string

definition requireInternalAuth :: "node_server \<Rightarrow> jsval \<Rightarrow> bool" where
  "requireInternalAuth nd provided = (case provided of VStr s \<Rightarrow> length s = length (nd_token nd) \<and> s = nd_token nd | _ \<Rightarrow> False)"

definition node_post_share :: "jsval \<Rightarrow> string \<Rightarrow> encrypted_share \<Rightarrow> node_server \<Rightarrow> (string \<times> string) http \<times> node_server" where
  "node_post_share token intentId encShare nd =
    (if \<not> requireInternalAuth nd token then (HttpError 401 ''unauthorized'', nd)
     else if es_nodeId encShare \<noteq> kp_nodeId (nd_keys nd) then (HttpError 400 ''share addressed to wrong node'', nd)
     else (Http200 (kp_nodeId (nd_keys nd), intentId), nd \<lparr> nd_shares := jm_set (nd_shares nd) intentId encShare \<rparr>))"

definition decrypt_one :: "nacl_lib \<Rightarrow> node_server \<Rightarrow> string \<Rightarrow> jsval" where
  "decrypt_one lib nd intentId =
    (case jm_get (nd_shares nd) intentId of
       None \<Rightarrow> VNull
     | Some enc \<Rightarrow> (case decryptShare lib enc (kp_boxSecret (nd_keys nd)) of Inl _ \<Rightarrow> VNull | Inr v \<Rightarrow> v))"

definition node_post_decrypt :: "nacl_lib \<Rightarrow> jsval \<Rightarrow> string list \<Rightarrow> node_server \<Rightarrow> decrypt_answer http" where
  "node_post_decrypt lib token intentIds nd =
    (if \<not> requireInternalAuth nd token then HttpError 401 ''unauthorized''
     else Http200 \<lparr> da_nodeId = kp_nodeId (nd_keys nd),
       da_shares = fold (\<lambda>i r. jm_set r i (decrypt_one lib nd i)) intentIds [] \<rparr>)"

definition node_post_sign_batch ::
  "nacl_lib \<Rightarrow> (bytes \<Rightarrow> bytes) \<Rightarrow> jsval \<Rightarrow> string \<Rightarrow> match_result list \<Rightarrow> node_server \<Rightarrow> node_signature http" where
  "node_post_sign_batch lib sha token batchId matches nd =
    (if \<not> requireInternalAuth nd token then HttpError 401 ''unauthorized''
     else case signBatch lib sha batchId matches (nd_keys nd) of Inl _ \<Rightarrow> HttpError 500 [] | Inr s \<Rightarrow> Http200 s)"


section \<open>The coordinator's request handlers\<close>

definition post_intent :: "nat \<Rightarrow> int \<Rightarrow> mpc_intent \<Rightarrow> committee_state \<Rightarrow> (string \<times> string) http \<times> committee_state" where
  "post_intent nodeCount now intent st =
    (if in_intentId intent = [] then (HttpError 400 ''intentId required'', st)
     else if length (in_encryptedShares intent) \<noteq> nodeCount then (HttpError 400 ''must supply encrypted shares, one per committee node'', st)
     else let (sessionId, st') = addIntent now intent st in (Http200 (in_intentId intent, sessionId), st'))"

datatype match_answer = MatchDone round_outcome | AlreadyClosed session_status

definition post_match ::
  "(session_state \<Rightarrow> round_outcome \<times> session_state) \<Rightarrow> string \<Rightarrow> committee_state \<Rightarrow> match_answer http \<times> committee_state" where
  "post_match run sessionId st =
    (case getSession sessionId st of
       None \<Rightarrow> (HttpError 404 ''session not found'', st)
     | Some session \<Rightarrow>
         if ss_status session \<noteq> StOpen then (Http200 (AlreadyClosed (ss_status session)), st)
         else let (outcome, session') = run session in (Http200 (MatchDone outcome), put_session session' st))"

definition get_batches :: "committee_state \<Rightarrow> signed_match_batch list" where
  "get_batches st = List.map_filter (\<lambda>s. if ss_status s = StSigned then ss_signedBatch s else None) (allSessions st)"

definition batch_timer ::
  "(session_state \<Rightarrow> round_outcome \<times> session_state) \<Rightarrow> committee_state \<Rightarrow> committee_state" where
  "batch_timer run st =
    fold (\<lambda>s st'. if length (ss_intents s) < 2 then st' else put_session (snd (run s)) st') (getOpenSessions st) st"

text \<open>\<open>POST /shares/:intentId\<close> of the combined server: a delivered share replaces the slot's ciphertext.\<close>

definition server_post_share ::
  "string \<Rightarrow> string \<Rightarrow> encrypted_share \<Rightarrow> committee_state \<Rightarrow> (string \<times> string) http \<times> committee_state" where
  "server_post_share nodeId intentId encShare st =
    (if es_nodeId encShare \<noteq> nodeId then (HttpError 400 ''share addressed to wrong node'', st)
     else case getSessionForIntent intentId st of
       None \<Rightarrow> (HttpError 404 ''intent not registered'', st)
     | Some session \<Rightarrow>
         (case jm_get (ss_shares session) nodeId of
            None \<Rightarrow> (HttpError 404 ''share slot not found for this intent'', st)
          | Some m \<Rightarrow>
              (case jm_get m intentId of
                 None \<Rightarrow> (HttpError 404 ''share slot not found for this intent'', st)
               | Some e \<Rightarrow>
                   (Http200 (nodeId, intentId),
                    put_session (session \<lparr> ss_shares := jm_set (ss_shares session) nodeId
                      (jm_set m intentId (e \<lparr> nse_ciphertext := es_ciphertext encShare, nse_nonce := es_nonce encShare,
                         nse_senderPubkey := es_senderPubkey encShare \<rparr>)) \<rparr>) st))))"



section \<open>Decryption and clearing of share slots\<close>

lemma jm_get_map_values: "jm_get (map (map_prod id f) m) k = map_option f (jm_get m k)"
  by (induction m) (auto simp: jm_get_def)

definition opened :: "nacl_lib \<Rightarrow> committee_node_key_pair \<Rightarrow> node_share_entry \<Rightarrow> node_share_entry" where
  "opened lib node e = e \<lparr> nse_decryptedShare :=
     (case decryptShare lib (entry_share (kp_nodeId node) e) (kp_boxSecret node) of Inl _ \<Rightarrow> VNull | Inr v \<Rightarrow> v) \<rparr>"

lemma decrypt_entries_ok:
  "(\<forall>(k, e)\<in>set m. is_ok (decryptShare lib (entry_share (kp_nodeId node) e) (kp_boxSecret node))) \<Longrightarrow>
    decrypt_entries lib node m = (None, map (map_prod id (opened lib node)) m)"
  by (induction m) (auto simp: opened_def is_ok_iff)

definition decryptable :: "nacl_lib \<Rightarrow> committee_node_key_pair \<Rightarrow> share_slots \<Rightarrow> bool" where
  "decryptable lib node shares =
    (\<forall>m. jm_get shares (kp_nodeId node) = Some m \<longrightarrow>
       (\<forall>(k, e)\<in>set m. is_ok (decryptShare lib (entry_share (kp_nodeId node) e) (kp_boxSecret node))))"

lemma decrypt_nodes_ok:
  assumes "distinct (map kp_nodeId nodes)" "\<forall>node\<in>set nodes. decryptable lib node shares"
  shows "\<exists>sh. decrypt_nodes lib nodes shares = (None, sh) \<and>
    (\<forall>node\<in>set nodes. \<forall>i. slot sh (kp_nodeId node) i = map_option (opened lib node) (slot shares (kp_nodeId node) i)) \<and>
    (\<forall>n i. n \<notin> kp_nodeId ` set nodes \<longrightarrow> slot sh n i = slot shares n i)"
  using assms
proof (induction nodes arbitrary: shares)
  case (Cons node nodes)
  define shares' where "shares' = (case jm_get shares (kp_nodeId node) of None \<Rightarrow> shares
      | Some m \<Rightarrow> jm_set shares (kp_nodeId node) (map (map_prod id (opened lib node)) m))"
  have step: "decrypt_nodes lib (node # nodes) shares = decrypt_nodes lib nodes shares'"
    using Cons.prems(2) by (auto simp: shares'_def decryptable_def decrypt_entries_ok split: option.split)
  have own: "slot shares' (kp_nodeId node) i = map_option (opened lib node) (slot shares (kp_nodeId node) i)" for i
    by (auto simp: shares'_def slot_def jm_get_map_values split: option.split)
  have other: "jm_get shares' n = jm_get shares n" if "n \<noteq> kp_nodeId node" for n
    using that by (auto simp: shares'_def split: option.split)
  have fresh: "kp_nodeId node \<notin> kp_nodeId ` set nodes" using Cons.prems(1) by simp
  have "\<forall>nd\<in>set nodes. decryptable lib nd shares'"
    using Cons.prems(2) other fresh unfolding decryptable_def by (metis imageI list.set_intros(2))
  then obtain sh where sh: "decrypt_nodes lib nodes shares' = (None, sh)"
    "\<forall>nd\<in>set nodes. \<forall>i. slot sh (kp_nodeId nd) i = map_option (opened lib nd) (slot shares' (kp_nodeId nd) i)"
    "\<forall>n i. n \<notin> kp_nodeId ` set nodes \<longrightarrow> slot sh n i = slot shares' n i"
    using Cons.IH [of shares'] Cons.prems(1) by auto
  have "slot shares' n i = slot shares n i" if "n \<noteq> kp_nodeId node" for n i
    using other [OF that] by (simp add: slot_def)
  then show ?case using sh own fresh step by (metis (no_types, lifting) image_insert insert_iff list.simps(15) imageI)
qed simp

lemma clear_shares_snoc:
  "clear_shares (ns @ [n]) sh =
    (case jm_get (clear_shares ns sh) n of None \<Rightarrow> clear_shares ns sh
     | Some m \<Rightarrow> jm_set (clear_shares ns sh) n (clear_entries m))"
  by (simp add: clear_shares_def split: option.split)

lemma slot_clear:
  "slot (clear_shares ns sh) n i =
    (if n \<in> set ns then map_option (\<lambda>e. e \<lparr> nse_decryptedShare := VNull \<rparr>) (slot sh n i) else slot sh n i)"
proof (induction ns rule: rev_induct)
  case (snoc k ns)
  then show ?case
    by (auto simp: clear_shares_snoc slot_def clear_entries_def jm_get_map_values option.map_comp comp_def
        split: option.splits if_splits)
qed (simp add: clear_shares_def)


section \<open>Honest sessions\<close>

text \<open>
  \<open>vs\<close> are the share values behind the encrypted shares \<open>es\<close>: node \<open>k\<close> decrypts the
  \<open>k\<close>-th to \<open>vs ! k\<close>, and any two of them reconstruct the amount.
\<close>

definition honest_shares ::
  "nacl_lib \<Rightarrow> committee_node_key_pair list \<Rightarrow> int \<Rightarrow> jsval list \<Rightarrow> encrypted_share list \<Rightarrow> bool" where
  "honest_shares lib kps amount vs es =
    (length es = length kps \<and> length vs = length kps \<and>
     (\<forall>k<length kps. es_nodeId (es ! k) = kp_nodeId (kps ! k) \<and>
        decryptShare lib (es ! k) (kp_boxSecret (kps ! k)) = Ok (vs ! k) \<and> truthy (vs ! k)) \<and>
     (\<forall>i j. i < j \<longrightarrow> j < length kps \<longrightarrow> reconstructAmount [vs ! i, vs ! j] = Ok amount))"

text \<open>A client that follows the protocol: its shares come from \<open>splitAmountForCommittee\<close>.\<close>

definition honest_intent :: "nacl_lib \<Rightarrow> committee_node_key_pair list \<Rightarrow> int \<Rightarrow> mpc_intent \<Rightarrow> bool" where
  "honest_intent lib kps amount intent =
    (0 \<le> amount \<and> amount < field_P \<and>
     (\<exists>eph draws. eph_ok (length kps) eph \<and>
        splitAmountForCommittee lib eph draws (int_to_string amount) (map nodePublicInfo kps) 2 = Ok (in_encryptedShares intent)))"

lemma encryptShareForNode_nodeId: "encryptShareForNode lib sk n v pk i = Ok e \<Longrightarrow> es_nodeId e = i"
  by (auto simp: encryptShareForNode_def Let_def split: option.splits)

lemma truthy_encodeShare [simp]: "truthy (encodeShare s)"
  by (simp add: encodeShare_def)

lemma honest_intent_shares:
  assumes "box_correct lib" "\<forall>kp\<in>set kps. kp_wf lib kp" "length kps < max_committee" "honest_intent lib kps amount intent"
  shows "\<exists>vs. honest_shares lib kps amount vs (in_encryptedShares intent)"
proof -
  obtain eph draws where eph: "eph_ok (length kps) eph" and amt: "0 \<le> amount" "amount < field_P"
    and es: "splitAmountForCommittee lib eph draws (int_to_string amount) (map nodePublicInfo kps) 2 = Ok (in_encryptedShares intent)"
    using assms(4) by (auto simp: honest_intent_def)
  obtain shs ds where split: "shamirSplit draws amount 2 (length kps) = Ok (shs, ds)"
    using es by (auto simp: splitAmountForCommittee_def split: sum.splits)
  note shape = shamir.split_shape [OF split]
  have enc: "list_all2 (\<lambda>i e. encryptShareForNode lib (fst (eph ! i)) (snd (eph ! i)) (encodeShare (shs ! i))
      (ni_encryptionPubkey (map nodePublicInfo kps ! i)) (ni_nodeId (map nodePublicInfo kps ! i)) = Ok e)
      [0..<length kps] (in_encryptedShares intent)"
    using es split by (simp add: splitAmountForCommittee_def map_res_Inr)
  have len: "length (in_encryptedShares intent) = length kps"
    using list_all2_lengthD [OF enc] by simp
  have ids: "es_nodeId (in_encryptedShares intent ! k) = kp_nodeId (kps ! k)" if "k < length kps" for k
    using enc that len encryptShareForNode_nodeId by (fastforce simp: list_all2_conv_all_nth nodePublicInfo_def)
  have rec: "reconstructAmount [encodeShare (shs ! i), encodeShare (shs ! j)] = Ok amount"
    if "i < j" "j < length kps" for i j
    using reconstructAmount_encoded [of "[shs ! i, shs ! j]"]
      shamir.responding_nodes_recover [OF split assms(3) amt, of "[i, j]"] that by simp
  have "honest_shares lib kps amount (map encodeShare shs) (in_encryptedShares intent)"
    unfolding honest_shares_def
    using len shape ids rec split_node_decrypts [OF assms(1,2) eph split es] by auto
  then show ?thesis by blast
qed

definition slots_honest ::
  "nacl_lib \<Rightarrow> committee_node_key_pair list \<Rightarrow> (string \<Rightarrow> int) \<Rightarrow> session_state \<Rightarrow> bool" where
  "slots_honest lib kps amounts s =
    (\<forall>(i, intent)\<in>set (ss_intents s). in_intentId intent = i \<and>
       (\<exists>vs. honest_shares lib kps (amounts i) vs (in_encryptedShares intent)) \<and>
       (\<forall>k<length kps. slot (ss_shares s) (kp_nodeId (kps ! k)) i = Some (share_entry i (in_encryptedShares intent ! k))))"

definition session_honest ::
  "nacl_lib \<Rightarrow> committee_node_key_pair list \<Rightarrow> (string \<Rightarrow> int) \<Rightarrow> session_state \<Rightarrow> bool" where
  "session_honest lib kps amounts s =
    (jm_inv (ss_intents s) \<and> slots_honest lib kps amounts s \<and>
     (\<forall>kp\<in>set kps. \<forall>m. jm_get (ss_shares s) (kp_nodeId kp) = Some m \<longrightarrow> jm_inv m \<and> set (map fst m) \<subseteq> set (map fst (ss_intents s))))"

lemma session_honest_fresh [simp]: "session_honest lib kps amounts (fresh_session now sid)"
  by (simp add: session_honest_def slots_honest_def fresh_session_def)

lemma store_share_fold_keys:
  assumes "jm_get (fold (store_share i) es shares) n = Some m"
    "\<And>m0. jm_get shares n = Some m0 \<Longrightarrow> jm_inv m0 \<and> set (map fst m0) \<subseteq> K"
  shows "jm_inv m \<and> set (map fst m) \<subseteq> insert i K"
  using assms
proof (induction es arbitrary: shares K)
  case (Cons e es)
  have inv: "jm_inv m0 \<and> set (map fst m0) \<subseteq> insert i K" if "jm_get (store_share i e shares) n = Some m0" for m0
  proof (cases "n = es_nodeId e")
    case True
    have "jm_inv (case jm_get shares n of None \<Rightarrow> [] | Some m \<Rightarrow> m) \<and>
        set (map fst (case jm_get shares n of None \<Rightarrow> [] | Some m \<Rightarrow> m)) \<subseteq> K"
      using Cons.prems(2) by (auto split: option.split)
    then show ?thesis
      using that True jm_set_keys [of "case jm_get shares n of None \<Rightarrow> [] | Some m \<Rightarrow> m" i "share_entry i e"]
      by (auto simp: store_share_def)
  qed (use that Cons.prems(2) in \<open>auto simp: store_share_def\<close>)
  have "jm_inv m \<and> set (map fst m) \<subseteq> insert i (insert i K)"
    using Cons.IH [of "store_share i e shares" "insert i K"] Cons.prems(1) inv by simp
  then show ?case by simp
qed auto


lemma honest_shares_ids: "honest_shares lib kps a vs es \<Longrightarrow> map es_nodeId es = map kp_nodeId kps"
  by (auto simp: honest_shares_def intro: nth_equalityI)

lemma session_honest_add:
  assumes "session_honest lib kps amounts s" "distinct (map kp_nodeId kps)"
    "honest_shares lib kps (amounts (in_intentId intent)) vs (in_encryptedShares intent)"
  shows "session_honest lib kps amounts (add_to_session intent s)"
proof -
  let ?i = "in_intentId intent" and ?es = "in_encryptedShares intent" and ?s = "add_to_session intent s"
  have ids: "map es_nodeId ?es = map kp_nodeId kps" using honest_shares_ids [OF assms(3)] .
  have new: "slot (ss_shares ?s) (kp_nodeId (kps ! k)) ?i = Some (share_entry ?i (?es ! k))" if "k < length kps" for k
  proof -
    have "es_nodeId (?es ! k) = kp_nodeId (kps ! k)" "?es ! k \<in> set ?es"
      using assms(3) that by (auto simp: honest_shares_def)
    then show ?thesis
      using slot_fold [of ?es "?es ! k" ?i "ss_shares s"] ids assms(2) by (simp add: add_to_session_def)
  qed
  have old: "slot (ss_shares ?s) n i = slot (ss_shares s) n i" if "i \<noteq> ?i" for n i
    using that by (simp add: add_to_session_def slot_fold_other)
  have "slots_honest lib kps amounts ?s"
    unfolding slots_honest_def
  proof (clarify)
    fix i x assume "(i, x) \<in> set (ss_intents ?s)"
    then have "(i, x) = (?i, intent) \<or> (i \<noteq> ?i \<and> (i, x) \<in> set (ss_intents s))"
      using assms(1) jm_inv_set [of "ss_intents s" ?i intent] jm_get_set [of "ss_intents s" ?i intent i]
      by (auto simp: add_to_session_def session_honest_def jm_inv_def jm_get_def split: if_splits)
    then show "in_intentId x = i \<and> (\<exists>vs. honest_shares lib kps (amounts i) vs (in_encryptedShares x)) \<and>
        (\<forall>k<length kps. slot (ss_shares ?s) (kp_nodeId (kps ! k)) i = Some (share_entry i (in_encryptedShares x ! k)))"
      using assms(1,3) new old by (auto simp: session_honest_def slots_honest_def)
  qed
  moreover have "jm_inv m \<and> set (map fst m) \<subseteq> set (map fst (ss_intents ?s))"
    if "kp \<in> set kps" "jm_get (ss_shares ?s) (kp_nodeId kp) = Some m" for kp m
    using store_share_fold_keys [of ?i ?es "ss_shares s" "kp_nodeId kp" m "set (map fst (ss_intents s))"] that assms(1)
      jm_set_keys [of "ss_intents s" ?i intent]
    by (simp add: add_to_session_def session_honest_def)
  ultimately show ?thesis
    using assms(1) by (simp add: session_honest_def add_to_session_def)
qed

lemma entry_share_entry [simp]: "es_nodeId e = n \<Longrightarrow> entry_share n (share_entry i e) = e"
  by (auto simp: entry_share_def share_entry_def)

lemma session_honest_slot:
  assumes "session_honest lib kps amounts s" "k < length kps" "slot (ss_shares s) (kp_nodeId (kps ! k)) i = Some e"
  shows "\<exists>intent vs. (i, intent) \<in> set (ss_intents s) \<and> honest_shares lib kps (amounts i) vs (in_encryptedShares intent) \<and>
    e = share_entry i (in_encryptedShares intent ! k) \<and>
    decryptShare lib (entry_share (kp_nodeId (kps ! k)) e) (kp_boxSecret (kps ! k)) = Ok (vs ! k)"
proof -
  obtain m where m: "jm_get (ss_shares s) (kp_nodeId (kps ! k)) = Some m" "jm_get m i = Some e"
    using assms(3) by (auto simp: slot_def split: option.splits)
  have "kps ! k \<in> set kps" using assms(2) by simp
  then have sub: "set (map fst m) \<subseteq> set (map fst (ss_intents s))"
    using assms(1) m(1) unfolding session_honest_def by blast
  have "i \<in> set (map fst m)" using m(2) by (force simp: jm_get_def dest: map_of_SomeD)
  then obtain intent where i: "(i, intent) \<in> set (ss_intents s)" using sub by auto
  then obtain vs where vs: "honest_shares lib kps (amounts i) vs (in_encryptedShares intent)"
    "slot (ss_shares s) (kp_nodeId (kps ! k)) i = Some (share_entry i (in_encryptedShares intent ! k))"
    using assms(1,2) by (auto simp: session_honest_def slots_honest_def)
  then have "e = share_entry i (in_encryptedShares intent ! k)" using assms(3) by simp
  moreover have "es_nodeId (in_encryptedShares intent ! k) = kp_nodeId (kps ! k)"
    "decryptShare lib (in_encryptedShares intent ! k) (kp_boxSecret (kps ! k)) = Ok (vs ! k)"
    using vs(1) assms(2) by (auto simp: honest_shares_def)
  ultimately show ?thesis using i vs(1) by (intro exI [of _ intent] exI [of _ vs]) simp
qed

lemma session_honest_decryptable:
  assumes "session_honest lib kps amounts s" "kp \<in> set kps"
  shows "decryptable lib kp (ss_shares s)"
  unfolding decryptable_def
proof (intro allI impI, clarify)
  fix m i e assume m: "jm_get (ss_shares s) (kp_nodeId kp) = Some m" and e: "(i, e) \<in> set m"
  obtain k where k: "k < length kps" "kps ! k = kp" using assms(2) by (auto simp: in_set_conv_nth)
  have "jm_inv m" using assms m by (auto simp: session_honest_def)
  then have "slot (ss_shares s) (kp_nodeId (kps ! k)) i = Some e"
    using m e k by (simp add: slot_def jm_get_def jm_inv_def)
  from session_honest_slot [OF assms(1) k(1) this]
  show "is_ok (decryptShare lib (entry_share (kp_nodeId kp) e) (kp_boxSecret kp))"
    using k(2) by (auto simp: is_ok_iff)
qed

text \<open>Whatever nodes \<open>U\<close> contributed a share, two of them are enough.\<close>

lemma two_shares_reconstruct:
  assumes "honest_shares lib kps amount vs es" "2 \<le> length (filter U [0..<length kps])"
    "\<forall>k<length kps. \<exists>e. slot sh (kp_nodeId (kps ! k)) i = Some e \<and> nse_decryptedShare e = (if U k then vs ! k else VNull)"
  shows "length (available_shares (map kp_nodeId kps) sh i) = 2"
    "reconstructAmount (available_shares (map kp_nodeId kps) sh i) = Ok amount"
proof -
  let ?n = "length kps"
  let ?f = "\<lambda>n. case slot sh n i of None \<Rightarrow> VUndef | Some e \<Rightarrow> nse_decryptedShare e"
  have "map ?f (map kp_nodeId kps) = map (\<lambda>k. if U k then vs ! k else VNull) [0..<?n]"
    using assms(3) by (intro nth_equalityI) fastforce+
  moreover have "filter truthy (map (\<lambda>k. if U k then vs ! k else VNull) [0..<?n]) = map ((!) vs) (filter U [0..<?n])"
  proof -
    have "filter (truthy \<circ> (\<lambda>k. if U k then vs ! k else VNull)) [0..<?n] = filter U [0..<?n]"
      using assms(1) by (intro filter_cong) (auto simp: honest_shares_def)
    then show ?thesis by (simp add: filter_map)
  qed
  ultimately have av: "available_shares (map kp_nodeId kps) sh i = take 2 (map ((!) vs) (filter U [0..<?n]))"
    by (simp only: available_shares_def)
  obtain a b r where ab: "filter U [0..<?n] = a # b # r"
    using assms(2) by (cases "filter U [0..<?n]"; cases "tl (filter U [0..<?n])") auto
  have "sorted_wrt (<) (filter U [0..<?n])" by (simp add: sorted_wrt_filter)
  moreover have "set (filter U [0..<?n]) \<subseteq> {..<?n}" by auto
  ultimately have "a < b" "b < ?n" using ab by auto
  then show "length (available_shares (map kp_nodeId kps) sh i) = 2"
    "reconstructAmount (available_shares (map kp_nodeId kps) sh i) = Ok amount"
    using assms(1) by (simp_all add: av ab honest_shares_def)
qed

definition revealed :: "(string \<Rightarrow> int) \<Rightarrow> session_state \<Rightarrow> match_intent list" where
  "revealed amounts s = map (\<lambda>(i, intent). \<lparr> mi_intentId = i, mi_amount7dp = amounts i,
     mi_inputAsset = in_inputAsset intent, mi_outputAsset = in_outputAsset intent \<rparr>) (ss_intents s)"

lemma reconstruct_intents_all:
  assumes "\<forall>(i, intent)\<in>set ints. length (available_shares ids sh i) = 2 \<and> reconstructAmount (available_shares ids sh i) = Ok (amounts i)"
  shows "reconstruct_intents ids sh ints = Reconstructed (map (\<lambda>(i, intent). \<lparr> mi_intentId = i, mi_amount7dp = amounts i,
     mi_inputAsset = in_inputAsset intent, mi_outputAsset = in_outputAsset intent \<rparr>) ints)"
  using assms by (induction ints) (auto simp: Let_def)



section \<open>Rounds on honest sessions\<close>

text \<open>The committee's keys are sound: pairs of the documented shape, distinct ids and signing keys,
  at least two and fewer than 64 nodes.\<close>

definition committee_ok :: "nacl_lib \<Rightarrow> committee_node_key_pair list \<Rightarrow> bool" where
  "committee_ok lib kps = ((\<forall>kp\<in>set kps. kp_wf lib kp) \<and> distinct (map kp_nodeId kps) \<and>
     distinct (map kp_signPublic kps) \<and> 2 \<le> length kps \<and> length kps < max_committee)"

lemma filter_all_upt: "filter (\<lambda>k. True) [0..<n] = [0..<n]"
  by simp

lemma round_amounts:
  assumes "committee_ok lib kps" "session_honest lib kps amounts s"
    "decrypt_nodes lib kps (ss_shares s) = (r, sh)"
  shows "r = None" "reconstruct_intents (map kp_nodeId kps) sh (ss_intents s) = Reconstructed (revealed amounts s)"
proof -
  obtain sh' where sh': "decrypt_nodes lib kps (ss_shares s) = (None, sh')"
    "\<forall>kp\<in>set kps. \<forall>i. slot sh' (kp_nodeId kp) i = map_option (opened lib kp) (slot (ss_shares s) (kp_nodeId kp) i)"
    using decrypt_nodes_ok [of kps lib "ss_shares s"] session_honest_decryptable [OF assms(2)] assms(1)
    by (auto simp: committee_ok_def)
  then show "r = None" using assms(3) by simp
  have [simp]: "sh' = sh" using sh'(1) assms(3) by simp
  have "length (available_shares (map kp_nodeId kps) sh i) = 2 \<and>
      reconstructAmount (available_shares (map kp_nodeId kps) sh i) = Ok (amounts i)"
    if i: "(i, intent) \<in> set (ss_intents s)" for i intent
  proof -
    obtain vs where vs: "honest_shares lib kps (amounts i) vs (in_encryptedShares intent)"
      "\<forall>k<length kps. slot (ss_shares s) (kp_nodeId (kps ! k)) i = Some (share_entry i (in_encryptedShares intent ! k))"
      using i assms(2) by (auto simp: session_honest_def slots_honest_def)
    have "\<exists>e. slot sh (kp_nodeId (kps ! k)) i = Some e \<and> nse_decryptedShare e = (if True then vs ! k else VNull)"
      if "k < length kps" for k
      using that vs sh'(2) by (auto simp: opened_def honest_shares_def)
    then show ?thesis
      using two_shares_reconstruct [OF vs(1), of "\<lambda>k. True" sh i] assms(1) by (simp add: committee_ok_def)
  qed
  then show "reconstruct_intents (map kp_nodeId kps) sh (ss_intents s) = Reconstructed (revealed amounts s)"
    unfolding revealed_def by (intro reconstruct_intents_all) auto
qed

lemma all_nodes_sign:
  assumes "sign_correct lib" "\<forall>kp\<in>set kps. kp_wf lib kp"
  shows "\<exists>sigs. map_res (signBatch lib sha b ms) kps = Ok sigs"
  using map_res_is_ok [of kps "signBatch lib sha b ms"] signBatch_total [OF assms(1)] assms(2) by (auto simp: is_ok_iff)

lemma signed_by_all_verifies:
  assumes "sign_correct lib" "committee_ok lib kps" "map_res (signBatch lib sha (sb_batchId b) (sb_matches b)) kps = Ok (sb_signatures b)"
  shows "verifySignedBatch lib sha b (map nodePublicInfo kps) = Some True"
proof (rule signed_by_quorum_verifies [OF assms(1), where signers = kps])
  show "ceil_two_thirds (length kps) \<le> length kps" by (rule ceil_two_thirds_bounds)
  show "distinct kps" using assms(2) by (auto simp: committee_ok_def distinct_map)
qed (use assms(2,3) in \<open>auto simp: committee_ok_def map_res_Inr\<close>)

lemma cleared_slots:
  "kp \<in> set kps \<Longrightarrow> slot (clear_shares (map kp_nodeId kps) sh) (kp_nodeId kp) i = Some e \<Longrightarrow> nse_decryptedShare e = VNull"
  by (auto simp: slot_clear)

text \<open>Nodes that answer and nodes that do not.\<close>

definition node_answers ::
  "nacl_lib \<Rightarrow> (nat \<Rightarrow> bool) \<Rightarrow> node_server list \<Rightarrow> node_endpoint list \<Rightarrow> (node_endpoint \<Rightarrow> string list \<Rightarrow> decrypt_answer option) \<Rightarrow> bool" where
  "node_answers lib up nds eps post =
    (\<forall>k<length eps. \<forall>ids. post (eps ! k) ids =
       (if up k then (case node_post_decrypt lib (VStr (nd_token (nds ! k))) ids (nds ! k) of Http200 a \<Rightarrow> Some a | _ \<Rightarrow> None) else None))"

definition node_signs ::
  "nacl_lib \<Rightarrow> (bytes \<Rightarrow> bytes) \<Rightarrow> (nat \<Rightarrow> bool) \<Rightarrow> node_server list \<Rightarrow> node_endpoint list \<Rightarrow>
     (node_endpoint \<Rightarrow> string \<Rightarrow> match_result list \<Rightarrow> node_signature option) \<Rightarrow> bool" where
  "node_signs lib sha up nds eps post =
    (\<forall>k<length eps. \<forall>b ms. post (eps ! k) b ms =
       (if up k then (case node_post_sign_batch lib sha (VStr (nd_token (nds ! k))) b ms (nds ! k) of Http200 a \<Rightarrow> Some a | _ \<Rightarrow> None) else None))"

lemma map_filter_nth:
  assumes "\<forall>k<length xs. f (xs ! k) = (if up k then Some (g k) else None)"
  shows "List.map_filter f xs = map g (filter up [0..<length xs])"
  using assms
proof (induction xs rule: rev_induct)
  case (snoc x xs)
  have "\<forall>k<length xs. f (xs ! k) = (if up k then Some (g k) else None)"
    using snoc.prems by (auto simp: nth_append dest: less_SucI)
  moreover have "f x = (if up (length xs) then Some (g (length xs)) else None)"
    using snoc.prems [rule_format, of "length xs"] by simp
  ultimately show ?case
    using snoc.IH by (simp add: List.map_filter_def)
qed (simp add: List.map_filter_def)

lemma jm_get_fold_set:
  "distinct ids \<Longrightarrow> jm_get (fold (\<lambda>i r. jm_set r i (g i)) ids m) k = (if k \<in> set ids then Some (g k) else jm_get m k)"
  by (induction ids arbitrary: m) auto

lemma fold_set_inv: "jm_inv m \<Longrightarrow> jm_inv (fold (\<lambda>i r. jm_set r i (g i)) ids m)"
  by (induction ids arbitrary: m) auto

lemma record_shares_get:
  "jm_inv xs \<Longrightarrow> jm_get (record_shares xs m) k =
    map_option (\<lambda>e. case jm_get xs k of None \<Rightarrow> e | Some v \<Rightarrow> e \<lparr> nse_decryptedShare := v \<rparr>) (jm_get m k)"
proof (induction xs arbitrary: m)
  case (Cons x xs)
  obtain i v where x: "x = (i, v)" by fastforce
  have "jm_inv xs" "jm_get xs i = None"
    using Cons.prems x by (auto simp: jm_inv_def jm_get_def map_of_eq_None_iff)
  then show ?case
    using Cons.IH by (auto simp: x jm_get_def [of "_ # _"] jm_get_def [of xs, symmetric] option.map_comp comp_def
        split: option.split)
qed (simp add: jm_get_def option.map_ident)

lemma slot_record_answer:
  assumes "jm_inv (da_shares a)"
  shows "slot (record_answer a sh) n i =
    (if n = da_nodeId a then map_option (\<lambda>e. case jm_get (da_shares a) i of None \<Rightarrow> e | Some v \<Rightarrow> e \<lparr> nse_decryptedShare := v \<rparr>) (slot sh n i)
     else slot sh n i)"
  by (auto simp: record_answer_def slot_def record_shares_get [OF assms] split: option.split)

lemma slot_record_answers:
  assumes "\<forall>a\<in>set as. jm_inv (da_shares a)" "distinct (map da_nodeId as)"
  shows "slot (fold record_answer as sh) n i =
    (case find_first (\<lambda>a. da_nodeId a = n) as of
       None \<Rightarrow> slot sh n i
     | Some a \<Rightarrow> map_option (\<lambda>e. case jm_get (da_shares a) i of None \<Rightarrow> e | Some v \<Rightarrow> e \<lparr> nse_decryptedShare := v \<rparr>) (slot sh n i))"
  using assms
proof (induction as arbitrary: sh)
  case (Cons a as)
  show ?case
  proof (cases "da_nodeId a = n")
    case True
    then have none: "find_first (\<lambda>a. da_nodeId a = n) as = None" using Cons.prems(2) by (auto simp: image_iff)
    have "slot (fold record_answer (a # as) sh) n i = slot (record_answer a sh) n i"
      using Cons.IH [of "record_answer a sh"] Cons.prems unfolding none by simp
    then show ?thesis using Cons.prems(1) True by (simp add: slot_record_answer)
  next
    case False
    then show ?thesis
      using Cons by (cases "find_first (\<lambda>a. da_nodeId a = n) as") (simp_all add: slot_record_answer del: find_first_None)
  qed
qed simp


text \<open>What the coordinator has after asking the nodes that are up.\<close>

lemma remote_amounts:
  assumes ok: "committee_ok lib kps" and hon: "session_honest lib kps amounts s"
    and eps: "map ep_nodeId eps = map kp_nodeId kps" and nds: "map nd_keys nds = kps"
    and up: "2 \<le> length (filter up [0..<length kps])"
    and post: "node_answers lib up nds eps post"
    and stored: "\<forall>(i, intent)\<in>set (ss_intents s). \<forall>k<length kps. up k \<longrightarrow>
      jm_get (nd_shares (nds ! k)) i = Some (in_encryptedShares intent ! k)"
  shows "length (List.map_filter (\<lambda>n. post n (jm_keys (ss_intents s))) eps) = length (filter up [0..<length kps])"
    "reconstruct_intents (map ep_nodeId eps)
       (fold record_answer (List.map_filter (\<lambda>n. post n (jm_keys (ss_intents s))) eps) (ss_shares s)) (ss_intents s) =
     Reconstructed (revealed amounts s)"
proof -
  let ?ids = "jm_keys (ss_intents s)" and ?n = "length kps"
  define ans where "ans k = \<lparr> da_nodeId = kp_nodeId (kps ! k), da_shares = fold (\<lambda>i r. jm_set r i (decrypt_one lib (nds ! k) i)) ?ids [] \<rparr>" for k
  have len: "length eps = ?n" "length nds = ?n" using eps nds by (metis length_map)+
  have keys: "nd_keys (nds ! k) = kps ! k" if "k < ?n" for k using that nds len by (metis nth_map)
  have "\<forall>k<length eps. post (eps ! k) ?ids = (if up k then Some (ans k) else None)"
    using post len keys by (auto simp: node_answers_def node_post_decrypt_def requireInternalAuth_def ans_def)
  then have answers: "List.map_filter (\<lambda>n. post n ?ids) eps = map ans (filter up [0..<?n])"
    using map_filter_nth [of eps "\<lambda>n. post n ?ids" up ans] len by simp
  then show "length (List.map_filter (\<lambda>n. post n ?ids) eps) = length (filter up [0..<?n])" by simp
  have dist: "distinct ?ids" using hon by (simp add: session_honest_def jm_inv_def jm_keys_def)
  let ?as = "map ans (filter up [0..<?n])"
  have inv: "\<forall>a\<in>set ?as. jm_inv (da_shares a)" by (auto simp: ans_def fold_set_inv)
  have idinj: "kp_nodeId (kps ! a) = kp_nodeId (kps ! b) \<longleftrightarrow> a = b" if "a < ?n" "b < ?n" for a b
    using ok that by (metis committee_ok_def length_map nth_eq_iff_index_eq nth_map)
  have "distinct (map da_nodeId ?as)"
    using idinj by (auto simp: distinct_map inj_on_def ans_def)
  note slots = slot_record_answers [OF inv this, of "ss_shares s"]
  have "length (available_shares (map kp_nodeId kps) (fold record_answer ?as (ss_shares s)) i) = 2 \<and>
      reconstructAmount (available_shares (map kp_nodeId kps) (fold record_answer ?as (ss_shares s)) i) = Ok (amounts i)"
    if i: "(i, intent) \<in> set (ss_intents s)" for i intent
  proof -
    obtain vs where vs: "honest_shares lib kps (amounts i) vs (in_encryptedShares intent)"
      "\<forall>k<?n. slot (ss_shares s) (kp_nodeId (kps ! k)) i = Some (share_entry i (in_encryptedShares intent ! k))"
      using i hon by (auto simp: session_honest_def slots_honest_def)
    have "\<exists>e. slot (fold record_answer ?as (ss_shares s)) (kp_nodeId (kps ! k)) i = Some e \<and>
        nse_decryptedShare e = (if up k then vs ! k else VNull)" if k: "k < ?n" for k
    proof (cases "up k")
      case True
      have "find_first (\<lambda>a. da_nodeId a = kp_nodeId (kps ! k)) ?as = Some (ans k)"
        by (rule find_first_unique) (use True k idinj in \<open>auto simp: ans_def\<close>)
      moreover have "jm_get (da_shares (ans k)) i = Some (vs ! k)"
      proof -
        have "i \<in> set ?ids" using i by (force simp: jm_keys_def)
        moreover have "jm_get (nd_shares (nds ! k)) i = Some (in_encryptedShares intent ! k)"
          using stored i True k by auto
        moreover have "decryptShare lib (in_encryptedShares intent ! k) (kp_boxSecret (kps ! k)) = Ok (vs ! k)"
          using vs(1) k by (simp add: honest_shares_def)
        ultimately show ?thesis using dist keys [OF k] by (simp add: ans_def jm_get_fold_set decrypt_one_def)
      qed
      ultimately show ?thesis using slots vs(2) k True by simp
    next
      case False
      then have "find_first (\<lambda>a. da_nodeId a = kp_nodeId (kps ! k)) ?as = None"
        using k idinj by (auto simp: ans_def)
      then show ?thesis using slots vs(2) k False by (simp add: share_entry_def del: find_first_None)
    qed
    then show ?thesis using two_shares_reconstruct [OF vs(1) up] by blast
  qed
  then show "reconstruct_intents (map ep_nodeId eps)
       (fold record_answer (List.map_filter (\<lambda>n. post n ?ids) eps) (ss_shares s)) (ss_intents s) =
     Reconstructed (revealed amounts s)"
    unfolding answers eps revealed_def by (intro reconstruct_intents_all) auto
qed

lemma remote_signatures:
  assumes "sign_correct lib" "committee_ok lib kps" "map nd_keys nds = kps" "length eps = length kps"
    "node_signs lib sha up nds eps post"
  shows "\<exists>sigs. List.map_filter (\<lambda>n. post n b ms) eps = sigs \<and>
    list_all2 (\<lambda>kp sig. signBatch lib sha b ms kp = Ok sig) (map ((!) kps) (filter up [0..<length kps])) sigs"
proof -
  have keys: "nd_keys (nds ! k) = kps ! k" if "k < length kps" for k using that assms(3) by (metis length_map nth_map)
  define g where "g k = projr (signBatch lib sha b ms (kps ! k))" for k
  have g: "signBatch lib sha b ms (kps ! k) = Ok (g k)" if "k < length kps" for k
    using signBatch_total [OF assms(1), of "kps ! k" sha b ms] assms(2) that by (auto simp: g_def is_ok_iff committee_ok_def)
  have "\<forall>k<length eps. post (eps ! k) b ms = (if up k then Some (g k) else None)"
    using assms(4,5) keys g by (auto simp: node_signs_def node_post_sign_batch_def requireInternalAuth_def)
  then have "List.map_filter (\<lambda>n. post n b ms) eps = map g (filter up [0..<length kps])"
    using map_filter_nth [of eps "\<lambda>n. post n b ms" up g] assms(4) by simp
  moreover have "list_all2 (\<lambda>kp sig. signBatch lib sha b ms kp = Ok sig) (map ((!) kps) (filter up [0..<length kps])) (map g (filter up [0..<length kps]))"
    using g by (auto simp: list_all2_map1 list_all2_map2 list_all2_same)
  ultimately show ?thesis by blast
qed



section \<open>The life of a session\<close>

lemma runMatchingRound_frame:
  assumes "runMatchingRound lib sha srt b s nodes = (out, s')"
  shows "ss_sessionId s' = ss_sessionId s" "ss_intents s' = ss_intents s"
    "2 \<le> length (ss_intents s) \<Longrightarrow> ss_status s' \<noteq> StOpen" "length (ss_intents s) < 2 \<Longrightarrow> s' = s"
  using assms
  by (auto simp: runMatchingRound_def Let_def split: if_splits option.splits prod.splits reconstruct_result.splits sum.splits)

lemma runMatchingRoundRemote_frame:
  assumes "runMatchingRoundRemote sha srt b pd ps s eps = (out, s')"
  shows "ss_sessionId s' = ss_sessionId s" "ss_intents s' = ss_intents s"
    "2 \<le> length (ss_intents s) \<Longrightarrow> ss_status s' \<noteq> StOpen" "length (ss_intents s) < 2 \<Longrightarrow> s' = s"
  using assms
  by (auto simp: runMatchingRoundRemote_def Let_def split: if_splits reconstruct_result.splits)

text \<open>
  What a server needs of a round, whichever of the two it runs: it works on the session it is
  given, never reopens it, and leaves a session with fewer than two intents alone.
\<close>

locale matching_round =
  fixes run :: "session_state \<Rightarrow> round_outcome \<times> session_state"
  assumes run_id: "ss_sessionId (snd (run s)) = ss_sessionId s"
    and run_intents: "ss_intents (snd (run s)) = ss_intents s"
    and run_closes: "2 \<le> length (ss_intents s) \<Longrightarrow> ss_status (snd (run s)) \<noteq> StOpen"
    and run_waits: "length (ss_intents s) < 2 \<Longrightarrow> snd (run s) = s"
begin

lemma run_not_reopen: "ss_status (snd (run s)) = StOpen \<Longrightarrow> ss_status s = StOpen"
  using run_closes [of s] run_waits [of s] by (cases "2 \<le> length (ss_intents s)") auto

lemma put_run_inv:
  assumes "state_inv st" "getSession k st = Some s"
  shows "state_inv (put_session (snd (run s)) st)"
proof (rule state_inv_put [OF assms(1), of _ s])
  have "ss_sessionId s = k"
    using assms by (auto simp: state_inv_def getSession_def jm_get_def list_all_iff dest: map_of_SomeD)
  then show "getSession (ss_sessionId (snd (run s))) st = Some s" using assms(2) run_id by simp
qed (rule run_not_reopen)

lemma post_match_inv:
  assumes "state_inv st"
  shows "state_inv (snd (post_match run sid st))"
  using assms put_run_inv [OF assms]
  by (auto simp: post_match_def case_prod_unfold Let_def split: option.split)

lemma post_match_closed:
  assumes "getSession sid st = Some s" "ss_status s \<noteq> StOpen"
  shows "post_match run sid st = (Http200 (AlreadyClosed (ss_status s)), st)"
  using assms by (simp add: post_match_def)

end

interpretation local_round: matching_round "\<lambda>s. runMatchingRound lib sha srt b s nodes" for lib sha srt b nodes
  by unfold_locales (use runMatchingRound_frame prod.collapse in metis)+

interpretation remote_round: matching_round "\<lambda>s. runMatchingRoundRemote sha srt b pd ps s eps" for sha srt b pd ps eps
  by unfold_locales (use runMatchingRoundRemote_frame prod.collapse in metis)+

text \<open>The combined server as a transition system: intents arrive, rounds are requested or the timer fires
  (with some fresh batch id), shares are delivered.\<close>

inductive server_step :: "nacl_lib \<Rightarrow> (bytes \<Rightarrow> bytes) \<Rightarrow> (match_intent list \<Rightarrow> match_intent list) \<Rightarrow>
    committee_node_key_pair list \<Rightarrow> committee_state \<Rightarrow> committee_state \<Rightarrow> bool" where
  step_intent: "server_step lib sha srt nodes st (snd (post_intent (length nodes) now intent st))"
| step_match: "server_step lib sha srt nodes st (snd (post_match (\<lambda>s. runMatchingRound lib sha srt b s nodes) sid st))"
| step_timer: "server_step lib sha srt nodes st (batch_timer (\<lambda>s. runMatchingRound lib sha srt b s nodes) st)"
| step_share: "server_step lib sha srt nodes st (snd (server_post_share nodeId intentId enc st))"

inductive server_reachable :: "nacl_lib \<Rightarrow> (bytes \<Rightarrow> bytes) \<Rightarrow> (match_intent list \<Rightarrow> match_intent list) \<Rightarrow>
    committee_node_key_pair list \<Rightarrow> committee_state \<Rightarrow> bool" where
  reach_start: "server_reachable lib sha srt nodes empty_state"
| reach_step: "server_reachable lib sha srt nodes st \<Longrightarrow> server_step lib sha srt nodes st st' \<Longrightarrow>
    server_reachable lib sha srt nodes st'"

inductive_cases server_step_cases: "server_step lib sha srt nodes st st'"

lemma post_intent_inv: "state_inv st \<Longrightarrow> state_inv (snd (post_intent n now intent st))"
  using addIntent_inv [of st now intent] by (auto simp: post_intent_def case_prod_unfold Let_def)

lemma open_session_found:
  assumes "state_inv st" "s \<in> set (getOpenSessions st)"
  shows "getSession (ss_sessionId s) st = Some s"
proof -
  obtain k where k: "(k, s) \<in> set (cs_sessions st)" using assms(2) by (auto simp: getOpenSessions_def jm_values_def)
  then have "k = ss_sessionId s" using assms(1) by (auto simp: state_inv_def list_all_iff)
  with k assms(1) show ?thesis by (simp add: getSession_def jm_get_def state_inv_def jm_inv_def)
qed

lemma batch_timer_inv:
  assumes "state_inv st"
  shows "state_inv (batch_timer (\<lambda>s. runMatchingRound lib sha srt b s nodes) st)"
proof (cases "getOpenSessions st")
  case Nil
  then show ?thesis using assms by (simp add: batch_timer_def)
next
  case (Cons s ss)
  then have "ss = []" using assms by (cases ss) (auto simp: state_inv_def)
  moreover have "getSession (ss_sessionId s) st = Some s" using open_session_found [OF assms] Cons by simp
  ultimately show ?thesis
    using assms Cons local_round.put_run_inv [OF assms, of "ss_sessionId s" s lib sha srt b nodes] by (simp add: batch_timer_def)
qed

lemma server_post_share_inv:
  assumes "state_inv st"
  shows "state_inv (snd (server_post_share nodeId intentId enc st))"
proof -
  have "state_inv (put_session (s \<lparr> ss_shares := x \<rparr>) st)" if g: "getSessionForIntent intentId st = Some s" for s x
  proof (rule state_inv_put [OF assms, of _ s])
    obtain sid where "getSession sid st = Some s"
      using g by (auto simp: getSessionForIntent_def getSession_def split: option.splits if_splits)
    moreover from this have "ss_sessionId s = sid"
      using assms by (auto simp: state_inv_def getSession_def jm_get_def list_all_iff dest: map_of_SomeD)
    ultimately show "getSession (ss_sessionId (s \<lparr> ss_shares := x \<rparr>)) st = Some s" by simp
  qed simp
  then show ?thesis using assms by (auto simp: server_post_share_def split: option.split)
qed

lemma server_reachable_inv: "server_reachable lib sha srt nodes st \<Longrightarrow> state_inv st"
proof (induction rule: server_reachable.induct)
  case (reach_step lib sha srt nodes st st')
  from reach_step(2,3) show ?case
    by (auto elim!: server_step_cases intro: post_intent_inv local_round.post_match_inv batch_timer_inv server_post_share_inv)
qed simp


section \<open>Properties\<close>

text \<open>C25: a matching round over intents whose clients split their amounts correctly succeeds, whatever the
  amounts: the matches it signs are the netting of the true amounts, the signed batch verifies against
  the committee's public keys, the session ends signed with that batch, and no decrypted share is left in any
  node's slots.\<close>

theorem matching_round_correct:
  assumes "box_correct lib" "sign_correct lib" "committee_ok lib kps" "session_honest lib kps amounts s"
    "2 \<le> length (ss_intents s)" "runMatchingRound lib sha srt batchId s kps = (out, s')"
  shows "\<exists>batch. out = RoundOk batch \<and> sb_matches batch = matchIntents srt (revealed amounts s) \<and>
    verifySignedBatch lib sha batch (map nodePublicInfo kps) = Some True \<and>
    ss_status s' = StSigned \<and> ss_signedBatch s' = Some batch \<and>
    (\<forall>kp\<in>set kps. \<forall>i e. slot (ss_shares s') (kp_nodeId kp) i = Some e \<longrightarrow> nse_decryptedShare e = VNull)"
proof -
  obtain r sh where dec: "decrypt_nodes lib kps (ss_shares s) = (r, sh)" by fastforce
  note amounts = round_amounts [OF assms(3,4) dec]
  let ?ms = "matchIntents srt (revealed amounts s)"
  obtain sigs where sigs: "map_res (signBatch lib sha batchId ?ms) kps = Ok sigs"
    using all_nodes_sign [OF assms(2), of kps sha batchId ?ms] assms(3) unfolding committee_ok_def by blast
  define batch where "batch = \<lparr> sb_batchId = batchId, sb_sessionId = ss_sessionId s, sb_matches = ?ms,
    sb_batchHash = computeBatchHash sha batchId ?ms, sb_signatures = sigs \<rparr>"
  have out: "out = RoundOk batch" "ss_status s' = StSigned" "ss_signedBatch s' = Some batch"
    "ss_shares s' = clear_shares (map kp_nodeId kps) sh"
    using assms(5,6) dec amounts sigs by (auto simp: runMatchingRound_def Let_def batch_def)
  moreover have "verifySignedBatch lib sha batch (map nodePublicInfo kps) = Some True"
    by (rule signed_by_all_verifies [OF assms(2,3)]) (simp add: batch_def sigs)
  moreover have "sb_matches batch = ?ms" by (simp add: batch_def)
  ultimately show ?thesis using cleared_slots by auto
qed

definition demo_session :: "encrypted_share list \<Rightarrow> session_state" where
  "demo_session es = add_to_session (demo_intent ''i2'' \<lparr> in_encryptedShares := es \<rparr>)
     (add_to_session (demo_intent ''i1'' \<lparr> in_encryptedShares := es \<rparr>) (fresh_session 5 ''s''))"

lemma demo_committee_ok: "committee_ok demo_nacl demo_kps"
proof -
  have "distinct (map kp_nodeId demo_kps)" "distinct (map kp_signPublic demo_kps)"
    by (simp_all add: demo_kps_def generateNodeKeyPair_def demo_nacl_def digit_char_def)
  then show ?thesis using demo_kps_wf by (simp add: committee_ok_def max_committee_def)
qed

lemma demo_session_honest:
  "\<exists>es. session_honest demo_nacl demo_kps (\<lambda>_. 1000) (demo_session es) \<and> 2 \<le> length (ss_intents (demo_session es)) \<and>
    honest_intent demo_nacl demo_kps 1000 (demo_intent ''i1'' \<lparr> in_encryptedShares := es \<rparr>)"
proof -
  obtain es where "splitAmountForCommittee demo_nacl demo_eph demo_draws (int_to_string 1000) (map nodePublicInfo demo_kps) 2 = Ok es"
    using demo_committee_split by blast
  then have hon: "honest_intent demo_nacl demo_kps 1000 (demo_intent i \<lparr> in_encryptedShares := es \<rparr>)" for i
    unfolding honest_intent_def
    by (auto simp: bn254_r_def demo_kps_wf(2) eph_ok_def demo_eph_def intro!: exI [of _ demo_eph] exI [of _ demo_draws])
  obtain vs where vs: "honest_shares demo_nacl demo_kps 1000 vs es"
    using honest_intent_shares [OF demo_nacl_correct(1) demo_kps_wf(1) _ hon [of "''i1''"]] demo_kps_wf(2)
    by (auto simp: max_committee_def)
  have dist: "distinct (map kp_nodeId demo_kps)" using demo_committee_ok by (simp add: committee_ok_def)
  have "session_honest demo_nacl demo_kps (\<lambda>_. 1000) (demo_session es)"
    unfolding demo_session_def by (intro session_honest_add [OF _ dist] session_honest_fresh) (use vs in simp_all)
  moreover have "2 \<le> length (ss_intents (demo_session es))"
    by (simp add: demo_session_def add_to_session_def fresh_session_def demo_intent_def)
  ultimately show ?thesis using hon by blast
qed

theorem matching_round_correct_witness:
  "\<exists>es batch s'. runMatchingRound demo_nacl demo_sha (sort_key mi_amount7dp) ''b'' (demo_session es) demo_kps = (RoundOk batch, s') \<and>
     verifySignedBatch demo_nacl demo_sha batch (map nodePublicInfo demo_kps) = Some True \<and> ss_status s' = StSigned"
proof -
  obtain es where es: "session_honest demo_nacl demo_kps (\<lambda>_. 1000) (demo_session es)" "2 \<le> length (ss_intents (demo_session es))"
    using demo_session_honest by blast
  obtain out s' where run: "runMatchingRound demo_nacl demo_sha (sort_key mi_amount7dp) ''b'' (demo_session es) demo_kps = (out, s')"
    by fastforce
  from matching_round_correct [OF demo_nacl_correct demo_committee_ok es run] run show ?thesis by blast
qed

text \<open>The outcome of the networked round when enough nodes that hold their shares answer.\<close>

lemma remote_round_outcome:
  assumes "sign_correct lib" "committee_ok lib kps" "session_honest lib kps amounts s" "2 \<le> length (ss_intents s)"
    "map ep_nodeId eps = map kp_nodeId kps" "map nd_keys nds = kps"
    "2 \<le> length (filter up [0..<length kps])" "threshold (length kps) \<le> length (filter up [0..<length kps])"
    "node_answers lib up nds eps post_decrypt" "node_signs lib sha up nds eps post_sign"
    "\<forall>(i, intent)\<in>set (ss_intents s). \<forall>k<length kps. up k \<longrightarrow> jm_get (nd_shares (nds ! k)) i = Some (in_encryptedShares intent ! k)"
    "runMatchingRoundRemote sha srt batchId post_decrypt post_sign s eps = (out, s')"
  obtains batch where "out = RoundOk batch" "sb_matches batch = matchIntents srt (revealed amounts s)" "sb_batchId batch = batchId"
    "sb_batchHash batch = computeBatchHash sha batchId (sb_matches batch)"
    "list_all2 (\<lambda>kp sig. signBatch lib sha batchId (sb_matches batch) kp = Ok sig) (map ((!) kps) (filter up [0..<length kps])) (sb_signatures batch)"
    "ss_status s' = StSigned" "ss_signedBatch s' = Some batch"
proof -
  let ?ms = "matchIntents srt (revealed amounts s)" and ?up = "filter up [0..<length kps]"
  note amounts = remote_amounts [OF assms(2,3,5,6,7,9,11)]
  have len: "length eps = length kps" using assms(5) by (metis length_map)
  obtain sigs where sigs: "List.map_filter (\<lambda>n. post_sign n batchId ?ms) eps = sigs"
    "list_all2 (\<lambda>kp sig. signBatch lib sha batchId ?ms kp = Ok sig) (map ((!) kps) ?up) sigs"
    using remote_signatures [OF assms(1,2,6) len assms(10)] by blast
  define batch where "batch = \<lparr> sb_batchId = batchId, sb_sessionId = ss_sessionId s, sb_matches = ?ms,
    sb_batchHash = computeBatchHash sha batchId ?ms, sb_signatures = sigs \<rparr>"
  have enough: "threshold (length eps) \<le> length sigs" using list_all2_lengthD [OF sigs(2)] assms(8) len by simp
  have "out = RoundOk batch" "ss_status s' = StSigned" "ss_signedBatch s' = Some batch"
    using assms(4,8,12) amounts sigs(1) enough len by (auto simp: runMatchingRoundRemote_def Let_def batch_def)
  then show thesis using that [of batch] sigs(2) by (simp add: batch_def)
qed

text \<open>C26: the networked round tolerates unreachable nodes: as long as two thirds of the nodes (and at
  least two) are up and hold the shares they were sent, it succeeds with the same matches as the in-process
  round, and its batch, signed by the nodes that are up, verifies against the whole committee.\<close>

theorem remote_round_tolerates_failures:
  assumes "box_correct lib" "sign_correct lib" "committee_ok lib kps" "session_honest lib kps amounts s"
    "2 \<le> length (ss_intents s)"
    "map ep_nodeId eps = map kp_nodeId kps" "map nd_keys nds = kps"
    "2 \<le> length (filter up [0..<length kps])" "threshold (length kps) \<le> length (filter up [0..<length kps])"
    "node_answers lib up nds eps post_decrypt" "node_signs lib sha up nds eps post_sign"
    "\<forall>(i, intent)\<in>set (ss_intents s). \<forall>k<length kps. up k \<longrightarrow> jm_get (nd_shares (nds ! k)) i = Some (in_encryptedShares intent ! k)"
    "runMatchingRoundRemote sha srt batchId post_decrypt post_sign s eps = (out, s')"
  shows "\<exists>batch. out = RoundOk batch \<and> sb_matches batch = matchIntents srt (revealed amounts s) \<and>
    verifySignedBatch lib sha batch (map nodePublicInfo kps) = Some True \<and>
    ss_status s' = StSigned \<and> ss_signedBatch s' = Some batch"
proof -
  let ?up = "filter up [0..<length kps]"
  obtain batch where b: "out = RoundOk batch" "sb_matches batch = matchIntents srt (revealed amounts s)" "sb_batchId batch = batchId"
    "sb_batchHash batch = computeBatchHash sha batchId (sb_matches batch)"
    "list_all2 (\<lambda>kp sig. signBatch lib sha batchId (sb_matches batch) kp = Ok sig) (map ((!) kps) ?up) (sb_signatures batch)"
    "ss_status s' = StSigned" "ss_signedBatch s' = Some batch"
    by (rule remote_round_outcome [OF assms(2-13)])
  have "verifySignedBatch lib sha batch (map nodePublicInfo kps) = Some True"
  proof (rule signed_by_quorum_verifies [OF assms(2), where signers = "map ((!) kps) ?up"])
    have "distinct kps" using assms(3) by (auto simp: committee_ok_def distinct_map)
    then show "distinct (map ((!) kps) ?up)"
      by (auto simp: distinct_map inj_on_def nth_eq_iff_index_eq)
    show "ceil_two_thirds (length kps) \<le> length (map ((!) kps) ?up)" using assms(9) by (simp add: threshold_def)
  qed (use assms(3) b(3-5) in \<open>auto simp: committee_ok_def\<close>)
  then show ?thesis using b by simp
qed

definition demo_nodes :: "encrypted_share list \<Rightarrow> node_server list" where
  "demo_nodes es = map (\<lambda>k. \<lparr> nd_keys = demo_kps ! k, nd_token = ''tok'', nd_shares = [(''i1'', es ! k), (''i2'', es ! k)] \<rparr>) [0, 1, 2]"

definition demo_eps :: "node_endpoint list" where
  "demo_eps = map (\<lambda>k. \<lparr> ep_nodeId = kp_nodeId (demo_kps ! k), ep_url = [digit_char k] \<rparr>) [0, 1, 2]"

text \<open>Node 0 is down; the others answer.\<close>

definition demo_post :: "encrypted_share list \<Rightarrow> node_endpoint \<Rightarrow> string list \<Rightarrow> decrypt_answer option" where
  "demo_post es ep ids = (let k = (if ep = demo_eps ! 1 then 1 else 2) in
     if ep = demo_eps ! 0 then None
     else case node_post_decrypt demo_nacl (VStr ''tok'') ids (demo_nodes es ! k) of Http200 a \<Rightarrow> Some a | _ \<Rightarrow> None)"

definition demo_sign :: "encrypted_share list \<Rightarrow> node_endpoint \<Rightarrow> string \<Rightarrow> match_result list \<Rightarrow> node_signature option" where
  "demo_sign es ep b ms = (let k = (if ep = demo_eps ! 1 then 1 else 2) in
     if ep = demo_eps ! 0 then None
     else case node_post_sign_batch demo_nacl demo_sha (VStr ''tok'') b ms (demo_nodes es ! k) of Http200 a \<Rightarrow> Some a | _ \<Rightarrow> None)"

lemma less_three: "k < 3 \<longleftrightarrow> k = 0 \<or> k = 1 \<or> k = (2 :: nat)"
  by auto

lemma demo_eps_distinct: "demo_eps ! 0 \<noteq> demo_eps ! 1" "demo_eps ! 0 \<noteq> demo_eps ! 2" "demo_eps ! 1 \<noteq> demo_eps ! 2" "length demo_eps = 3"
  by (simp_all add: demo_eps_def digit_char_def)

lemma demo_nodes_nth: "k < 3 \<Longrightarrow> nd_token (demo_nodes es ! k) = ''tok''" "k < 3 \<Longrightarrow> nd_keys (demo_nodes es ! k) = demo_kps ! k"
  "k < 3 \<Longrightarrow> jm_get (nd_shares (demo_nodes es ! k)) ''i1'' = Some (es ! k)" "k < 3 \<Longrightarrow> jm_get (nd_shares (demo_nodes es ! k)) ''i2'' = Some (es ! k)"
  by (auto simp: demo_nodes_def less_three jm_get_def)

lemma demo_round:
  obtains es where "session_honest demo_nacl demo_kps (\<lambda>_. 1000) (demo_session es)" "2 \<le> length (ss_intents (demo_session es))"
    "map ep_nodeId demo_eps = map kp_nodeId demo_kps" "map nd_keys (demo_nodes es) = demo_kps"
    "2 \<le> length (filter (\<lambda>k. k \<noteq> 0) [0..<length demo_kps])" "threshold (length demo_kps) \<le> length (filter (\<lambda>k. k \<noteq> 0) [0..<length demo_kps])"
    "node_answers demo_nacl (\<lambda>k. k \<noteq> 0) (demo_nodes es) demo_eps (demo_post es)"
    "node_signs demo_nacl demo_sha (\<lambda>k. k \<noteq> 0) (demo_nodes es) demo_eps (demo_sign es)"
    "\<forall>(i, intent)\<in>set (ss_intents (demo_session es)). \<forall>k<length demo_kps. k \<noteq> 0 \<longrightarrow>
      jm_get (nd_shares (demo_nodes es ! k)) i = Some (in_encryptedShares intent ! k)"
proof -
  obtain es where es: "session_honest demo_nacl demo_kps (\<lambda>_. 1000) (demo_session es)" "2 \<le> length (ss_intents (demo_session es))"
    using demo_session_honest by blast
  have kps3: "demo_kps = map ((!) demo_kps) [0, 1, 2]"
    by (rule nth_equalityI) (auto simp: demo_kps_wf(2) less_three)
  have up: "filter (\<lambda>k. k \<noteq> 0) [0..<length demo_kps] = [1, 2]" by (simp add: demo_kps_wf(2) upt_rec)
  have up2: "2 \<le> length (filter (\<lambda>k. k \<noteq> 0) [0..<length demo_kps])" unfolding up by simp
  have up3: "threshold (length demo_kps) \<le> length (filter (\<lambda>k. k \<noteq> 0) [0..<length demo_kps])"
    unfolding up by (simp add: demo_kps_wf(2) threshold_def ceil_two_thirds_def)
  have ids: "map ep_nodeId demo_eps = map kp_nodeId demo_kps"
    by (subst kps3) (simp add: demo_eps_def)
  have keys: "map nd_keys (demo_nodes es) = demo_kps"
    by (rule trans [OF _ kps3 [symmetric]]) (simp add: demo_nodes_def)
  have answers: "node_answers demo_nacl (\<lambda>k. k \<noteq> 0) (demo_nodes es) demo_eps (demo_post es)"
    "node_signs demo_nacl demo_sha (\<lambda>k. k \<noteq> 0) (demo_nodes es) demo_eps (demo_sign es)"
    using demo_eps_distinct by (auto simp: node_answers_def node_signs_def demo_post_def demo_sign_def Let_def less_three demo_nodes_nth)
  have stored: "\<forall>(i, intent)\<in>set (ss_intents (demo_session es)). \<forall>k<length demo_kps. k \<noteq> 0 \<longrightarrow>
      jm_get (nd_shares (demo_nodes es ! k)) i = Some (in_encryptedShares intent ! k)"
    by (auto simp: demo_session_def add_to_session_def fresh_session_def demo_intent_def demo_kps_wf(2) demo_nodes_nth)
  show thesis by (rule that [OF es ids keys up2 up3 answers stored])
qed

theorem remote_round_tolerates_failures_witness:
  "\<exists>es batch s'. runMatchingRoundRemote demo_sha (sort_key mi_amount7dp) ''b'' (demo_post es) (demo_sign es) (demo_session es) demo_eps = (RoundOk batch, s') \<and>
     verifySignedBatch demo_nacl demo_sha batch (map nodePublicInfo demo_kps) = Some True"
proof -
  obtain es where es: "session_honest demo_nacl demo_kps (\<lambda>_. 1000) (demo_session es)" "2 \<le> length (ss_intents (demo_session es))"
    "map ep_nodeId demo_eps = map kp_nodeId demo_kps" "map nd_keys (demo_nodes es) = demo_kps"
    "2 \<le> length (filter (\<lambda>k. k \<noteq> 0) [0..<length demo_kps])" "threshold (length demo_kps) \<le> length (filter (\<lambda>k. k \<noteq> 0) [0..<length demo_kps])"
    "node_answers demo_nacl (\<lambda>k. k \<noteq> 0) (demo_nodes es) demo_eps (demo_post es)"
    "node_signs demo_nacl demo_sha (\<lambda>k. k \<noteq> 0) (demo_nodes es) demo_eps (demo_sign es)"
    "\<forall>(i, intent)\<in>set (ss_intents (demo_session es)). \<forall>k<length demo_kps. k \<noteq> 0 \<longrightarrow>
      jm_get (nd_shares (demo_nodes es ! k)) i = Some (in_encryptedShares intent ! k)" by (rule demo_round)
  obtain out s' where run: "runMatchingRoundRemote demo_sha (sort_key mi_amount7dp) ''b'' (demo_post es) (demo_sign es) (demo_session es) demo_eps = (out, s')"
    by fastforce
  from remote_round_tolerates_failures [OF demo_nacl_correct demo_committee_ok es run] run
  show ?thesis by blast
qed

text \<open>In every state the combined server can reach, at most one session is open, and a request to
  match a session that is not open answers its status and changes nothing: a session is matched at
  most once.\<close>

theorem sessions_matched_once:
  assumes "server_reachable lib sha srt nodes st" "getSession sid st = Some s" "ss_status s \<noteq> StOpen"
  shows "length (getOpenSessions st) \<le> 1 \<and>
    post_match (\<lambda>s. runMatchingRound lib sha srt b s nodes) sid st = (Http200 (AlreadyClosed (ss_status s)), st) \<and>
    getSession sid (batch_timer (\<lambda>s. runMatchingRound lib sha srt b s nodes) st) = Some s"
proof -
  have inv: "state_inv st" using server_reachable_inv [OF assms(1)] .
  have "getSession sid (batch_timer (\<lambda>s. runMatchingRound lib sha srt b s nodes) st) = Some s"
  proof (cases "getOpenSessions st")
    case (Cons o' os)
    then have "os = []" using inv by (cases os) (auto simp: state_inv_def)
    have "ss_status o' = StOpen" using Cons by (auto simp: getOpenSessions_def filter_eq_Cons_iff)
    moreover have "getSession (ss_sessionId o') st = Some o'" using open_session_found [OF inv] Cons by simp
    ultimately have "sid \<noteq> ss_sessionId o'" using assms(2,3) by auto
    then show ?thesis using assms(2) Cons \<open>os = []\<close> local_round.run_id by (simp add: batch_timer_def)
  qed (use assms(2) in \<open>simp add: batch_timer_def\<close>)
  then show ?thesis
    using inv local_round.post_match_closed [OF assms(2,3)] by (simp add: state_inv_def)
qed

definition demo_closed :: committee_state where
  "demo_closed =
    snd (post_match (\<lambda>s. runMatchingRound demo_nacl demo_sha id ''b'' s []) (session_id_at 5)
      (snd (post_intent 0 5 (demo_intent ''i2'') (snd (post_intent 0 5 (demo_intent ''i1'') empty_state)))))"

lemma demo_closed_reachable: "server_reachable demo_nacl demo_sha id [] demo_closed"
  unfolding demo_closed_def
  by (rule reach_step [OF reach_step [OF reach_step [OF reach_start]]])
     (rule step_intent [of _ _ _ "[]", simplified] step_match)+

lemma demo_closed_session: "\<exists>s. getSession (session_id_at 5) demo_closed = Some s \<and> ss_status s \<noteq> StOpen"
  by (simp add: demo_closed_def post_match_def post_intent_def addIntent_def getOrCreateOpenSession_def createSession_def
      fresh_session_def put_session_def empty_state_def add_to_session_def demo_intent_def jm_values_def getSession_def
      jm_get_def runMatchingRound_def available_shares_def Let_def)

theorem sessions_matched_once_witness:
  "\<exists>s. getSession (session_id_at 5) demo_closed = Some s \<and>
     post_match (\<lambda>s. runMatchingRound demo_nacl demo_sha id ''b'' s []) (session_id_at 5) demo_closed = (Http200 (AlreadyClosed (ss_status s)), demo_closed)"
  using demo_closed_session sessions_matched_once [OF demo_closed_reachable] by blast

end
