(* ===== verification/JobQueue.thy ===== *)
theory JobQueue
  imports Json
begin

text \<open>
  The durable job queue, \<open>packages/queue/src/index.ts\<close>, over the tables
  \<open>service_jobs\<close> and \<open>service_events\<close>: a list of rows in insertion order. The
  statements are modelled as the database executes them: \<open>idempotency_key\<close> is unique
  (several nulls allowed), events reference an existing job, ids are drawn by the
  database (a counter here). \<open>now\<close> is the database clock, in seconds.
\<close>

named_theorems queue_simps \<open>unfolding queue operations\<close>

datatype queue_name = QProver | QRelayer

record service_job =
  j_job_id :: nat
  j_job_type :: string
  j_queue :: queue_name
  j_idempotency_key :: "string option"
  j_payload :: jsval
  j_status :: string
  j_attempts :: nat
  j_max_attempts :: nat
  j_result :: "jsval option"
  j_error :: "string option"
  j_available_at :: int
  j_created_at :: int

record service_event =
  e_job_id :: nat
  e_status :: string
  e_detail :: "string option"

record queue_state =
  q_jobs :: "service_job list"
  q_events :: "service_event list"
  q_next :: nat

datatype db_error = UniqueViolation | ForeignKeyViolation

definition empty_queue :: queue_state where
  "empty_queue = \<lparr> q_jobs = [], q_events = [], q_next = 0 \<rparr>"

definition getJob :: "nat \<Rightarrow> queue_state \<Rightarrow> service_job option" where
  "getJob jobId st = find_first (\<lambda>j. j_job_id j = jobId) (q_jobs st)"

definition job_for_key :: "string \<Rightarrow> queue_state \<Rightarrow> service_job option" where
  "job_for_key k st = find_first (\<lambda>j. j_idempotency_key j = Some k) (q_jobs st)"

definition event :: "nat \<Rightarrow> string \<Rightarrow> string option \<Rightarrow> queue_state \<Rightarrow> (db_error, unit) result \<times> queue_state" where
  "event jobId status detail st =
    (if getJob jobId st = None then (Throw ForeignKeyViolation, st)
     else (Ok (), st \<lparr> q_events := q_events st @ [\<lparr> e_job_id = jobId, e_status = status, e_detail = detail \<rparr>] \<rparr>))"

definition new_job :: "int \<Rightarrow> nat \<Rightarrow> queue_name \<Rightarrow> string \<Rightarrow> jsval \<Rightarrow> string option \<Rightarrow> service_job" where
  "new_job now jid queue jobType payload key =
    \<lparr> j_job_id = jid, j_job_type = jobType, j_queue = queue, j_idempotency_key = key, j_payload = payload,
      j_status = ''queued'', j_attempts = 0, j_max_attempts = 3, j_result = None, j_error = None,
      j_available_at = now, j_created_at = now \<rparr>"

lemma new_job_sel [simp]:
  "j_idempotency_key (new_job now i q t p k) = k" "j_payload (new_job now i q t p k) = p"
  "j_job_id (new_job now i q t p k) = i"
  by (simp_all add: new_job_def)

text \<open>An empty key is falsy: it skips the lookup but is still inserted.\<close>

definition enqueue ::
  "int \<Rightarrow> queue_name \<Rightarrow> string \<Rightarrow> jsval \<Rightarrow> string option \<Rightarrow> queue_state \<Rightarrow> (db_error, service_job) result \<times> queue_state" where
  "enqueue now queue jobType payload key st =
    (case (case key of None \<Rightarrow> None | Some k \<Rightarrow> if k = [] then None else job_for_key k st) of
       Some existing \<Rightarrow> (Ok existing, st)
     | None \<Rightarrow>
         if (case key of None \<Rightarrow> False | Some k \<Rightarrow> job_for_key k st \<noteq> None) then (Throw UniqueViolation, st)
         else let j = new_job now (q_next st) queue jobType payload key;
                  st1 = st \<lparr> q_jobs := q_jobs st @ [j], q_next := Suc (q_next st) \<rparr>;
                  st2 = snd (event (j_job_id j) ''queued'' (Some (''enqueued '' @ jobType)) st1)
              in (Ok j, st2))"

definition update_job :: "nat \<Rightarrow> (service_job \<Rightarrow> service_job) \<Rightarrow> queue_state \<Rightarrow> queue_state" where
  "update_job jobId f st = st \<lparr> q_jobs := map (\<lambda>j. if j_job_id j = jobId then f j else j) (q_jobs st) \<rparr>"

definition claimable :: "int \<Rightarrow> queue_name \<Rightarrow> string list \<Rightarrow> service_job \<Rightarrow> bool" where
  "claimable now queue jobTypes j =
    (j_queue j = queue \<and> (j_status j = ''queued'' \<or> j_status j = ''failed_retry'') \<and> j_available_at j \<le> now \<and>
     (jobTypes = [] \<or> j_job_type j \<in> set jobTypes))"

text \<open>The atomic claim: the oldest claimable job; no or an empty type list filters nothing.\<close>

definition claimNext :: "int \<Rightarrow> queue_name \<Rightarrow> string list \<Rightarrow> queue_state \<Rightarrow> service_job option \<times> queue_state" where
  "claimNext now queue jobTypes st =
    (case sort_key j_created_at (filter (claimable now queue jobTypes) (q_jobs st)) of
       [] \<Rightarrow> (None, st)
     | j # _ \<Rightarrow>
         let f = (\<lambda>j. j \<lparr> j_status := ''claimed'', j_attempts := j_attempts j + 1 \<rparr>)
         in (Some (f j), update_job (j_job_id j) f st))"

definition setStatus :: "nat \<Rightarrow> string \<Rightarrow> string option \<Rightarrow> queue_state \<Rightarrow> (db_error, unit) result \<times> queue_state" where
  "setStatus jobId status detail st =
    event jobId status detail (update_job jobId (\<lambda>j. j \<lparr> j_status := status \<rparr>) st)"

definition complete :: "nat \<Rightarrow> jsval \<Rightarrow> string \<Rightarrow> queue_state \<Rightarrow> (db_error, unit) result \<times> queue_state" where
  "complete jobId res status st =
    event jobId status (Some ''completed'')
      (update_job jobId (\<lambda>j. j \<lparr> j_status := status, j_result := Some res, j_error := None \<rparr>) st)"

definition fail :: "int \<Rightarrow> nat \<Rightarrow> string \<Rightarrow> int \<Rightarrow> queue_state \<Rightarrow> (db_error, unit) result \<times> queue_state" where
  "fail now jobId error backoffSeconds st =
    (let terminal = (case getJob jobId st of None \<Rightarrow> True | Some j \<Rightarrow> j_attempts j \<ge> j_max_attempts j) in
     if terminal then
       event jobId ''failed'' (Some (take 500 error))
         (update_job jobId (\<lambda>j. j \<lparr> j_status := ''failed'', j_error := Some (take 2000 error) \<rparr>) st)
     else
       event jobId ''failed_retry'' (Some (take 500 error))
         (update_job jobId (\<lambda>j. j \<lparr> j_status := ''failed_retry'', j_error := Some (take 2000 error),
            j_available_at := now + backoffSeconds \<rparr>) st))"

definition getEvents :: "nat \<Rightarrow> queue_state \<Rightarrow> service_event list" where
  "getEvents jobId st = filter (\<lambda>e. e_job_id e = jobId) (q_events st)"


section \<open>The queue invariant\<close>

text \<open>
  Ids below the counter and distinct, idempotency keys distinct, and a job that can be claimed
  still has attempts left.
\<close>

definition waiting :: "service_job \<Rightarrow> bool" where
  "waiting j = (j_status j = ''queued'' \<or> j_status j = ''failed_retry'')"

definition job_ok :: "service_job \<Rightarrow> bool" where
  "job_ok j = (j_attempts j \<le> j_max_attempts j \<and> (waiting j \<longrightarrow> j_attempts j < j_max_attempts j))"

definition queue_inv :: "queue_state \<Rightarrow> bool" where
  "queue_inv st = (distinct (map j_job_id (q_jobs st)) \<and> list_all (\<lambda>j. j_job_id j < q_next st) (q_jobs st) \<and>
     distinct (map j_idempotency_key (filter (\<lambda>j. j_idempotency_key j \<noteq> None) (q_jobs st))) \<and>
     list_all job_ok (q_jobs st))"

lemma queue_inv_empty [simp]: "queue_inv empty_queue"
  by (simp add: queue_inv_def empty_queue_def)

lemma event_jobs [simp]: "q_jobs (snd (event i s d st)) = q_jobs st" "q_next (snd (event i s d st)) = q_next st"
  by (simp_all add: event_def)

lemma queue_inv_event [simp]: "queue_inv (snd (event i s d st)) = queue_inv st"
  by (simp add: queue_inv_def)

lemma getJob_Some: "getJob i st = Some j \<Longrightarrow> j \<in> set (q_jobs st) \<and> j_job_id j = i"
  unfolding getJob_def by (rule find_first_Some)

lemma queue_inv_update:
  assumes "queue_inv st" "\<And>j. j_job_id (f j) = j_job_id j" "\<And>j. j_idempotency_key (f j) = j_idempotency_key j"
    "\<And>j. j \<in> set (q_jobs st) \<Longrightarrow> j_job_id j = i \<Longrightarrow> job_ok (f j)"
  shows "queue_inv (update_job i f st)"
proof -
  let ?g = "\<lambda>j. if j_job_id j = i then f j else j"
  have rows: "q_jobs (update_job i f st) = map ?g (q_jobs st)" "q_next (update_job i f st) = q_next st"
    by (simp_all add: update_job_def)
  have ids: "map j_job_id (map ?g js) = map j_job_id js" for js
    using assms(2) by (induction js) auto
  have keys: "map j_idempotency_key (filter (\<lambda>j. j_idempotency_key j \<noteq> None) (map ?g js)) =
      map j_idempotency_key (filter (\<lambda>j. j_idempotency_key j \<noteq> None) js)" for js
    using assms(3) by (induction js) auto
  have "list_all (\<lambda>j. j_job_id j < q_next st) (map ?g (q_jobs st))"
    using assms(1,2) by (auto simp: queue_inv_def list_all_iff)
  moreover have "list_all job_ok (map ?g (q_jobs st))"
    using assms(1,4) by (auto simp: queue_inv_def list_all_iff)
  ultimately show ?thesis
    using assms(1) unfolding queue_inv_def rows ids keys by blast
qed

lemma job_for_key_none: "job_for_key k st = None \<longleftrightarrow> Some k \<notin> j_idempotency_key ` set (q_jobs st)"
  by (force simp: job_for_key_def)

lemma enqueue_inserts:
  assumes "key = None \<or> (\<exists>k. key = Some k \<and> job_for_key k st = None)"
  shows "q_jobs (snd (enqueue now q t p key st)) = q_jobs st @ [new_job now (q_next st) q t p key]"
    "q_next (snd (enqueue now q t p key st)) = Suc (q_next st)"
    "fst (enqueue now q t p key st) = Ok (new_job now (q_next st) q t p key)"
  using assms by (auto simp: enqueue_def Let_def split: option.splits)

lemma enqueue_existing:
  "job_for_key k st = Some j \<Longrightarrow> k \<noteq> [] \<Longrightarrow> enqueue now q t p (Some k) st = (Ok j, st)"
  by (simp add: enqueue_def)

lemma enqueue_cases:
  obtains (fresh) "key = None \<or> (\<exists>k. key = Some k \<and> job_for_key k st = None)"
  | (known) k j where "key = Some k" "k \<noteq> []" "job_for_key k st = Some j"
  | (empty) j where "key = Some []" "job_for_key [] st = Some j"
  by (cases key; cases "job_for_key (the key) st") auto

lemma queue_inv_enqueue:
  assumes "queue_inv st"
  shows "queue_inv (snd (enqueue now q t p key st))"
proof (cases rule: enqueue_cases [of key st])
  case fresh
  note ins = enqueue_inserts [OF fresh, of now q t p]
  have "q_next st \<notin> j_job_id ` set (q_jobs st)" using assms by (auto simp: queue_inv_def list_all_iff)
  moreover have "key \<noteq> None \<Longrightarrow> key \<notin> j_idempotency_key ` set (q_jobs st)"
    using fresh by (auto simp: job_for_key_none)
  ultimately show ?thesis
    using assms unfolding queue_inv_def ins
    by (auto simp: list_all_iff new_job_def job_ok_def intro: less_SucI)
next
  case (known k j)
  then show ?thesis using assms by (simp add: enqueue_existing)
next
  case (empty j)
  then show ?thesis using assms by (simp add: enqueue_def)
qed

lemma claimNext_inv:
  assumes "queue_inv st"
  shows "queue_inv (snd (claimNext now q ts st))"
proof (cases "sort_key j_created_at (filter (claimable now q ts) (q_jobs st))")
  case Nil
  then show ?thesis using assms by (simp add: claimNext_def)
next
  case (Cons j js)
  have "j \<in> set (sort_key j_created_at (filter (claimable now q ts) (q_jobs st)))" unfolding Cons by simp
  then have j: "j \<in> set (q_jobs st)" "claimable now q ts j" by simp_all
  have left: "j_attempts j < j_max_attempts j"
    using assms j by (auto simp: queue_inv_def list_all_iff job_ok_def waiting_def claimable_def)
  have "queue_inv (update_job (j_job_id j) (\<lambda>j. j \<lparr> j_status := ''claimed'', j_attempts := j_attempts j + 1 \<rparr>) st)"
  proof (rule queue_inv_update [OF assms])
    fix x assume "x \<in> set (q_jobs st)" "j_job_id x = j_job_id j"
    then have "x = j" using assms j(1) by (auto simp: queue_inv_def distinct_map inj_on_def)
    then show "job_ok (x \<lparr> j_status := ''claimed'', j_attempts := j_attempts x + 1 \<rparr>)"
      using left by (simp add: job_ok_def waiting_def)
  qed simp_all
  then show ?thesis by (simp add: claimNext_def Cons Let_def)
qed

lemma fail_inv: "queue_inv st \<Longrightarrow> queue_inv (snd (fail now i e b st))"
proof -
  assume inv: "queue_inv st"
  have uniq: "getJob i st = Some j" if "j \<in> set (q_jobs st)" "j_job_id j = i" for j
    unfolding getJob_def by (rule find_first_unique) (use that inv in \<open>auto simp: queue_inv_def distinct_map inj_on_def\<close>)
  have ok: "j_attempts j \<le> j_max_attempts j" if "j \<in> set (q_jobs st)" for j
    using inv that by (auto simp: queue_inv_def list_all_iff job_ok_def)
  show ?thesis
  proof (cases "case getJob i st of None \<Rightarrow> True | Some j \<Rightarrow> j_attempts j \<ge> j_max_attempts j")
    case True
    then show ?thesis
      unfolding fail_def Let_def using ok by (auto intro!: queue_inv_update inv simp: job_ok_def waiting_def)
  next
    case False
    then have "j_attempts j < j_max_attempts j" if "j \<in> set (q_jobs st)" "j_job_id j = i" for j
      using uniq [OF that] by simp
    with False show ?thesis
      unfolding fail_def Let_def using ok by (auto intro!: queue_inv_update inv simp: job_ok_def)
  qed
qed

lemma setStatus_inv:
  "queue_inv st \<Longrightarrow> s \<notin> {''queued'', ''failed_retry''} \<Longrightarrow> queue_inv (snd (setStatus i s d st))"
  unfolding setStatus_def
  by (auto intro!: queue_inv_update simp: job_ok_def waiting_def) (auto simp: queue_inv_def list_all_iff job_ok_def)

lemma complete_inv:
  "queue_inv st \<Longrightarrow> s \<notin> {''queued'', ''failed_retry''} \<Longrightarrow> queue_inv (snd (complete i r s st))"
  unfolding complete_def
  by (auto intro!: queue_inv_update simp: job_ok_def waiting_def) (auto simp: queue_inv_def list_all_iff job_ok_def)


section \<open>Runs of the queue\<close>

text \<open>The calls API, workers and settler make; workers set in-progress and final states, never a waiting
  one.\<close>

datatype queue_op =
    OpEnqueue int queue_name string jsval "string option"
  | OpClaim int queue_name "string list"
  | OpSetStatus nat string "string option"
  | OpComplete nat jsval string
  | OpFail int nat string int

fun op_ok :: "queue_op \<Rightarrow> bool" where
  "op_ok (OpSetStatus i s d) = (s \<notin> {''queued'', ''failed_retry''})"
| "op_ok (OpComplete i r s) = (s \<notin> {''queued'', ''failed_retry''})"
| "op_ok _ = True"

fun run_op :: "queue_op \<Rightarrow> queue_state \<Rightarrow> queue_state" where
  "run_op (OpEnqueue now q t p k) st = snd (enqueue now q t p k st)"
| "run_op (OpClaim now q ts) st = snd (claimNext now q ts st)"
| "run_op (OpSetStatus i s d) st = snd (setStatus i s d st)"
| "run_op (OpComplete i r s) st = snd (complete i r s st)"
| "run_op (OpFail now i e b) st = snd (fail now i e b st)"

lemma run_op_inv: "queue_inv st \<Longrightarrow> op_ok op \<Longrightarrow> queue_inv (run_op op st)"
  by (cases op) (auto simp: queue_inv_enqueue claimNext_inv fail_inv intro: setStatus_inv complete_inv)

lemma run_ops_inv: "queue_inv st \<Longrightarrow> list_all op_ok ops \<Longrightarrow> queue_inv (fold run_op ops st)"
  by (induction ops arbitrary: st) (auto simp: run_op_inv)


section \<open>Idempotent enqueueing\<close>

text \<open>
  What a client that enqueues under deterministic keys relies on: the first payload filed under a
  key stays, and nothing else changes.
\<close>

locale keyed_queue =
  fixes enq :: "string \<Rightarrow> 'p \<Rightarrow> 'st \<Rightarrow> 'st"
    and filed :: "'st \<Rightarrow> string \<Rightarrow> 'p option"
  assumes enq_filed: "k \<noteq> [] \<Longrightarrow> filed (enq k p st) k' =
    (if k' = k then Some (case filed st k of None \<Rightarrow> p | Some p0 \<Rightarrow> p0) else filed st k')"
begin

lemma enq_known: "k \<noteq> [] \<Longrightarrow> filed st k = Some p0 \<Longrightarrow> filed (enq k p st) = filed st"
  by (auto simp: enq_filed fun_eq_iff)

lemma enq_all:
  assumes "list_all (\<lambda>(k, p). k \<noteq> []) kps" "distinct (map fst kps)"
  shows "filed (fold (\<lambda>(k, p). enq k p) kps st) k' =
    (case filed st k' of Some p0 \<Rightarrow> Some p0 | None \<Rightarrow> map_of kps k')"
  using assms
proof (induction kps arbitrary: st)
  case (Cons kp kps)
  obtain k p where kp: "kp = (k, p)" by fastforce
  have "map_of kps k = None" using Cons.prems(2) kp by (simp add: map_of_eq_None_iff)
  then show ?case
    using Cons kp by (auto simp: enq_filed split: option.split)
qed (simp split: option.split)

lemma enq_all_again:
  assumes "list_all (\<lambda>(k, p). k \<noteq> []) kps" "distinct (map fst kps)"
  shows "filed (fold (\<lambda>(k, p). enq k p) kps (fold (\<lambda>(k, p). enq k p) kps st)) = filed (fold (\<lambda>(k, p). enq k p) kps st)"
  by (rule ext) (auto simp: enq_all [OF assms] split: option.split)

end

definition filed_payload :: "queue_state \<Rightarrow> string \<Rightarrow> jsval option" where
  "filed_payload st k = map_option j_payload (job_for_key k st)"

lemma find_first_append: "find_first p (xs @ ys) = (case find_first p xs of Some x \<Rightarrow> Some x | None \<Rightarrow> find_first p ys)"
  by (induction xs) auto

interpretation jobs: keyed_queue "\<lambda>k p st. snd (enqueue now q t p (Some k) st)" filed_payload for now q t
proof
  fix k k' p st assume k: "(k :: string) \<noteq> []"
  show "filed_payload (snd (enqueue now q t p (Some k) st)) k' =
    (if k' = k then Some (case filed_payload st k of None \<Rightarrow> p | Some p0 \<Rightarrow> p0) else filed_payload st k')"
  proof (cases "job_for_key k st")
    case None
    then have "q_jobs (snd (enqueue now q t p (Some k) st)) = q_jobs st @ [new_job now (q_next st) q t p (Some k)]"
      by (intro enqueue_inserts) simp
    then have "job_for_key k' (snd (enqueue now q t p (Some k) st)) =
        (case job_for_key k' st of Some j \<Rightarrow> Some j | None \<Rightarrow> if k = k' then Some (new_job now (q_next st) q t p (Some k)) else None)"
      by (simp add: job_for_key_def find_first_append split: option.split del: find_first_None)
    then show ?thesis using None by (auto simp: filed_payload_def split: option.split)
  next
    case (Some j)
    then show ?thesis using k by (simp add: enqueue_existing filed_payload_def)
  qed
qed


section \<open>Properties\<close>

text \<open>C31: over every sequence of queue calls in which workers never set a waiting status themselves,
  no job is attempted more than \<open>max_attempts\<close> times, no two jobs have the same idempotency key, and a
  claim hands out a job that was waiting and due, the oldest of those, which is then no longer
  claimable.\<close>

theorem queue_attempts_and_claims:
  assumes "list_all op_ok ops" "st = fold run_op ops empty_queue"
  shows "(\<forall>j\<in>set (q_jobs st). j_attempts j \<le> j_max_attempts j) \<and>
    distinct (map j_idempotency_key (filter (\<lambda>j. j_idempotency_key j \<noteq> None) (q_jobs st))) \<and>
    (\<forall>j st'. claimNext now q ts st = (Some j, st') \<longrightarrow>
      (\<exists>j0\<in>set (q_jobs st). claimable now q ts j0 \<and> j = j0 \<lparr> j_status := ''claimed'', j_attempts := j_attempts j0 + 1 \<rparr> \<and>
         (\<forall>x\<in>set (q_jobs st). claimable now q ts x \<longrightarrow> j_created_at j0 \<le> j_created_at x)) \<and>
      (\<forall>x\<in>set (q_jobs st'). j_job_id x = j_job_id j \<longrightarrow> \<not> claimable now' q' ts' x))"
proof (intro conjI allI impI)
  have inv: "queue_inv st" using run_ops_inv [OF queue_inv_empty assms(1)] assms(2) by simp
  then show "\<forall>j\<in>set (q_jobs st). j_attempts j \<le> j_max_attempts j"
    "distinct (map j_idempotency_key (filter (\<lambda>j. j_idempotency_key j \<noteq> None) (q_jobs st)))"
    by (auto simp: queue_inv_def list_all_iff job_ok_def)
  fix j st' assume c: "claimNext now q ts st = (Some j, st')"
  then obtain j0 js where j0: "sort_key j_created_at (filter (claimable now q ts) (q_jobs st)) = j0 # js"
    and j: "j = j0 \<lparr> j_status := ''claimed'', j_attempts := j_attempts j0 + 1 \<rparr>"
    and st': "st' = update_job (j_job_id j0) (\<lambda>j. j \<lparr> j_status := ''claimed'', j_attempts := j_attempts j + 1 \<rparr>) st"
    by (auto simp: claimNext_def Let_def split: list.splits)
  have "sorted (map j_created_at (j0 # js))" unfolding j0 [symmetric] by (rule sorted_sort_key)
  moreover have set: "set (j0 # js) = set (filter (claimable now q ts) (q_jobs st))" unfolding j0 [symmetric] by simp
  ultimately have "j_created_at j0 \<le> j_created_at x" if "x \<in> set (q_jobs st)" "claimable now q ts x" for x
  proof -
    have "x \<in> set (j0 # js)" using that set by simp
    then show ?thesis using \<open>sorted (map j_created_at (j0 # js))\<close> by auto
  qed
  moreover have "j0 \<in> set (q_jobs st) \<and> claimable now q ts j0" using set by auto
  ultimately show "\<exists>j0\<in>set (q_jobs st). claimable now q ts j0 \<and> j = j0 \<lparr> j_status := ''claimed'', j_attempts := j_attempts j0 + 1 \<rparr> \<and>
         (\<forall>x\<in>set (q_jobs st). claimable now q ts x \<longrightarrow> j_created_at j0 \<le> j_created_at x)"
    using j by blast
  show "\<forall>x\<in>set (q_jobs st'). j_job_id x = j_job_id j \<longrightarrow> \<not> claimable now' q' ts' x"
    by (auto simp: st' j update_job_def claimable_def)
qed

definition demo_queue_ops :: "queue_op list" where
  "demo_queue_ops = [OpEnqueue 1 QRelayer ''A'' VNull (Some ''k''), OpEnqueue 2 QRelayer ''A'' VNull (Some ''k''),
     OpEnqueue 3 QRelayer ''B'' VNull None, OpClaim 4 QRelayer [], OpFail 5 0 ''boom'' 10]"

theorem queue_attempts_and_claims_witness:
  "length (q_jobs (fold run_op demo_queue_ops empty_queue)) = 2 \<and>
   list_all (\<lambda>j. j_attempts j \<le> j_max_attempts j) (q_jobs (fold run_op demo_queue_ops empty_queue)) \<and>
   map_option j_job_type (fst (claimNext 6 QRelayer [] (fold run_op demo_queue_ops empty_queue))) = Some ''B''"
proof -
  have "list_all op_ok demo_queue_ops" by (simp add: demo_queue_ops_def)
  from queue_attempts_and_claims [OF this refl]
  have "list_all (\<lambda>j. j_attempts j \<le> j_max_attempts j) (q_jobs (fold run_op demo_queue_ops empty_queue))"
    by (simp add: list_all_iff)
  then show ?thesis
    by (simp add: demo_queue_ops_def empty_queue_def enqueue_def job_for_key_def new_job_def event_def getJob_def Let_def
        claimNext_def claimable_def update_job_def fail_def)
qed

end
