(* ===== verification/Settler.thy ===== *)
theory Settler
  imports JobQueue Committee
begin

text \<open>
  Persistence and dispatch of signed batches, \<open>apps/mpc-committee/src/persist.ts\<close> and
  \<open>settler.ts\<close>. The database is a record of the tables they touch; each statement is atomic,
  and a statement that violates a constraint of \<open>db/migrations/007_mpc.sql\<close> throws.
  A \<open>JSONB\<close> column is read back as the value that was written. \<open>d_rfq_hashes\<close> is the column
  \<open>intents.intent_hash\<close>.
\<close>

record batch_row =
  b_batch_id :: string
  b_session_id :: string
  b_batch_hash :: string
  b_match_count :: nat
  b_matches_json :: "match_result list"
  b_signatures_json :: "node_signature list"
  b_settlement_status :: string
  b_created_at :: int

record intent_row =
  i_intent_id :: string
  i_session_id :: string
  i_user_id :: "nat option"
  i_input_asset :: string
  i_output_asset :: string
  i_expiry_ledger :: jsval
  i_policy_id :: string
  i_note_nullifier :: string
  i_note_commitment :: string
  i_recipient_commitment :: string
  i_status :: string
  i_matched_with :: "string option"

record session_row =
  sr_session_id :: string
  sr_status :: string
  sr_match_count :: nat

record settle_db =
  d_sessions :: "session_row list"
  d_intents :: "intent_row list"
  d_batches :: "batch_row list"
  d_signatures :: "(string \<times> node_signature) list"
  d_rfq_hashes :: "string list"
  d_queue :: queue_state


section \<open>Persisting a signed batch\<close>

definition insert_batch :: "int \<Rightarrow> string \<Rightarrow> signed_match_batch \<Rightarrow> (settle_db, db_error, unit) stmt" where
  "insert_batch now sessionId batch db =
    (if sb_batchId batch \<in> b_batch_id ` set (d_batches db) then (Ok (), db)
     else if sessionId \<notin> sr_session_id ` set (d_sessions db) then (Throw ForeignKeyViolation, db)
     else (Ok (), db \<lparr> d_batches := d_batches db @
       [\<lparr> b_batch_id = sb_batchId batch, b_session_id = sessionId, b_batch_hash = sb_batchHash batch,
          b_match_count = length (sb_matches batch), b_matches_json = sb_matches batch,
          b_signatures_json = sb_signatures batch, b_settlement_status = ''pending'', b_created_at = now \<rparr>] \<rparr>))"

definition insert_signature :: "string \<Rightarrow> node_signature \<Rightarrow> (settle_db, db_error, unit) stmt" where
  "insert_signature batchId sig db =
    (if (\<exists>r\<in>set (d_signatures db). fst r = batchId \<and> ns_nodeId (snd r) = ns_nodeId sig) then (Ok (), db)
     else (Ok (), db \<lparr> d_signatures := d_signatures db @ [(batchId, sig)] \<rparr>))"

definition close_session :: "string \<Rightarrow> nat \<Rightarrow> (settle_db, db_error, unit) stmt" where
  "close_session sessionId n db = (Ok (), db \<lparr> d_sessions :=
    map (\<lambda>r. if sr_session_id r = sessionId then r \<lparr> sr_status := ''signed'', sr_match_count := n \<rparr> else r) (d_sessions db) \<rparr>)"

definition mark_matched :: "string \<Rightarrow> string \<Rightarrow> (settle_db, db_error, unit) stmt" where
  "mark_matched intentId other db =
    (if intentId \<in> i_intent_id ` set (d_intents db) \<and> other \<notin> i_intent_id ` set (d_intents db)
     then (Throw ForeignKeyViolation, db)
     else (Ok (), db \<lparr> d_intents :=
       map (\<lambda>r. if i_intent_id r = intentId then r \<lparr> i_status := ''matched'', i_matched_with := Some other \<rparr> else r)
         (d_intents db) \<rparr>))"

definition persistSignedBatch :: "int \<Rightarrow> string \<Rightarrow> signed_match_batch \<Rightarrow> (settle_db, db_error, unit) stmt" where
  "persistSignedBatch now sessionId batch =
    andThen (insert_batch now sessionId batch) (\<lambda>_.
    andThen (each (insert_signature (sb_batchId batch)) (sb_signatures batch)) (\<lambda>_.
    andThen (close_session sessionId (length (sb_matches batch))) (\<lambda>_.
    each (\<lambda>m. andThen (mark_matched (mr_intentAId m) (mr_intentBId m)) (\<lambda>_.
               mark_matched (mr_intentBId m) (mr_intentAId m))) (sb_matches batch))))"


section \<open>The settler\<close>

definition fetchIntentNote :: "settle_db \<Rightarrow> string \<Rightarrow> intent_row option" where
  "fetchIntentNote db intentId = find_first (\<lambda>r. i_intent_id r = intentId) (d_intents db)"

definition isRfqRouted :: "settle_db \<Rightarrow> string \<Rightarrow> bool" where
  "isRfqRouted db intentId = (intentId \<in> set (d_rfq_hashes db))"

definition settle_key :: "string \<Rightarrow> nat \<Rightarrow> string" where
  "settle_key batchId i = ''mpc_settle:'' @ batchId @ '':'' @ nat_to_string i"

definition sig_value :: "node_signature \<Rightarrow> jsval" where
  "sig_value s = VObj [(''nodeId'', VStr (ns_nodeId s)), (''signingPubkey'', VStr (ns_signingPubkey s)),
     (''signature'', VStr (ns_signature s))]"

definition str_or_null :: "string option \<Rightarrow> jsval" where
  "str_or_null v = (case v of None \<Rightarrow> VNull | Some s \<Rightarrow> VStr s)"

definition settle_payload :: "settle_db \<Rightarrow> batch_row \<Rightarrow> nat \<Rightarrow> match_result \<Rightarrow> jsval" where
  "settle_payload db batch i m =
    (let noteA = fetchIntentNote db (mr_intentAId m); noteB = fetchIntentNote db (mr_intentBId m) in
     VObj [(''batchId'', VStr (b_batch_id batch)), (''batchHash'', VStr (b_batch_hash batch)),
       (''signatures'', VArr (map sig_value (b_signatures_json batch))), (''matchIndex'', VNum (NInt (int i))),
       (''sessionId'', VStr (b_session_id batch)), (''intentAId'', VStr (mr_intentAId m)), (''intentBId'', VStr (mr_intentBId m)),
       (''matchedAmount7dp'', VStr (mr_matchedAmount7dp m)), (''inputAsset'', VStr (mr_inputAsset m)),
       (''outputAsset'', VStr (mr_outputAsset m)),
       (''nullifierA'', str_or_null (map_option i_note_nullifier noteA)),
       (''nullifierB'', str_or_null (map_option i_note_nullifier noteB)),
       (''outputCommitmentA'', str_or_null (map_option i_recipient_commitment noteA)),
       (''outputCommitmentB'', str_or_null (map_option i_recipient_commitment noteB))])"

definition match_routed :: "settle_db \<Rightarrow> match_result \<Rightarrow> bool" where
  "match_routed db m = (isRfqRouted db (mr_intentAId m) \<or> isRfqRouted db (mr_intentBId m))"

text \<open>The loop over the matches, from index \<open>i\<close>; returns the number of matches queued.\<close>

fun queue_matches :: "int \<Rightarrow> batch_row \<Rightarrow> nat \<Rightarrow> match_result list \<Rightarrow> (settle_db, db_error, nat) stmt" where
  "queue_matches now batch i [] db = (Ok 0, db)"
| "queue_matches now batch i (m # ms) db =
    (if match_routed db m then queue_matches now batch (Suc i) ms db
     else case enqueue now QRelayer ''MPC_SETTLE_SUBMIT'' (settle_payload db batch i m)
                 (Some (settle_key (b_batch_id batch) i)) (d_queue db) of
       (Inl e, q) \<Rightarrow> (Throw e, db \<lparr> d_queue := q \<rparr>)
     | (Inr _, q) \<Rightarrow>
         (case queue_matches now batch (Suc i) ms (db \<lparr> d_queue := q \<rparr>) of
            (Inl e, db') \<Rightarrow> (Throw e, db')
          | (Inr n, db') \<Rightarrow> (Ok (Suc n), db')))"

definition set_settlement_status :: "string \<Rightarrow> string \<Rightarrow> settle_db \<Rightarrow> settle_db" where
  "set_settlement_status batchId status db = db \<lparr> d_batches :=
    map (\<lambda>b. if b_batch_id b = batchId then b \<lparr> b_settlement_status := status \<rparr> else b) (d_batches db) \<rparr>"

definition queueSettlementJobs :: "int \<Rightarrow> batch_row \<Rightarrow> (settle_db, db_error, unit) stmt" where
  "queueSettlementJobs now batch =
    andThen (queue_matches now batch 0 (b_matches_json batch)) (\<lambda>queued db.
      (Ok (), set_settlement_status (b_batch_id batch) (if queued > 0 then ''queued'' else ''rfq_routed'') db))"

definition pending_batches :: "settle_db \<Rightarrow> batch_row list" where
  "pending_batches db = sort_key b_created_at (filter (\<lambda>b. b_settlement_status b = ''pending'') (d_batches db))"

definition settleOnce :: "int \<Rightarrow> (settle_db, db_error, nat) stmt" where
  "settleOnce now db =
    (let rows = take 50 (pending_batches db) in
     andThen (each (queueSettlementJobs now) rows) (\<lambda>_ db'. (Ok (length rows), db')) db)"

text \<open>The polls of \<open>runSettlerLoop\<close>, at the given times; an error is logged and the loop goes on.\<close>

definition runSettlerLoop :: "int list \<Rightarrow> settle_db \<Rightarrow> settle_db" where
  "runSettlerLoop nows db = fold (\<lambda>now db. snd (settleOnce now db)) nows db"


section \<open>What a poll does\<close>

abbreviation enq_settle :: "int \<Rightarrow> string \<Rightarrow> jsval \<Rightarrow> queue_state \<Rightarrow> queue_state" where
  "enq_settle now k p q \<equiv> snd (enqueue now QRelayer ''MPC_SETTLE_SUBMIT'' p (Some k) q)"

fun batch_jobs :: "settle_db \<Rightarrow> batch_row \<Rightarrow> nat \<Rightarrow> match_result list \<Rightarrow> (string \<times> jsval) list" where
  "batch_jobs db b i [] = []"
| "batch_jobs db b i (m # ms) =
    (if match_routed db m then [] else [(settle_key (b_batch_id b) i, settle_payload db b i m)]) @ batch_jobs db b (Suc i) ms"

lemma settle_key_not_Nil [simp]: "settle_key b i \<noteq> []"
  by (simp add: settle_key_def)

lemma last_colon: "c \<notin> set x \<Longrightarrow> c \<notin> set y \<Longrightarrow> a @ c # x = b @ c # y \<Longrightarrow> a = b \<and> x = y"
  by (auto simp: append_eq_append_conv2 Cons_eq_append_conv append_eq_Cons_conv)

lemma settle_key_inject [simp]: "settle_key b i = settle_key b' i' \<longleftrightarrow> b = b' \<and> i = i'"
proof -
  have nc: "CHR '':'' \<notin> set (nat_to_string n)" for n
    using nat_to_string_digits [of "CHR '':''" n] by (auto simp: is_digit_def digit_val_def)
  have "b @ CHR '':'' # nat_to_string i = b' @ CHR '':'' # nat_to_string i' \<Longrightarrow> b = b' \<and> nat_to_string i = nat_to_string i'"
    using last_colon [OF nc nc] .
  then show ?thesis by (auto simp: settle_key_def)
qed

lemma enqueue_keyed_ok: "k \<noteq> [] \<Longrightarrow> \<exists>j st'. enqueue now q t p (Some k) st = (Ok j, st')"
  by (auto simp: enqueue_def Let_def split: option.split)

lemma same_tables [simp]:
  "match_routed (db \<lparr> d_queue := q \<rparr>) = match_routed db" "settle_payload (db \<lparr> d_queue := q \<rparr>) = settle_payload db"
  "match_routed (db \<lparr> d_batches := bs \<rparr>) = match_routed db" "settle_payload (db \<lparr> d_batches := bs \<rparr>) = settle_payload db"
  by (auto simp: match_routed_def isRfqRouted_def settle_payload_def fetchIntentNote_def fun_eq_iff)

lemma same_jobs [simp]:
  "batch_jobs (db \<lparr> d_queue := q \<rparr>) b i ms = batch_jobs db b i ms"
  "batch_jobs (db \<lparr> d_batches := bs \<rparr>) b i ms = batch_jobs db b i ms"
  by (induction ms arbitrary: i) auto

lemma queue_matches_eq:
  "queue_matches now b i ms db =
    (Ok (length (batch_jobs db b i ms)), db \<lparr> d_queue := fold (\<lambda>(k, p). enq_settle now k p) (batch_jobs db b i ms) (d_queue db) \<rparr>)"
proof (induction ms arbitrary: i db)
  case (Cons m ms)
  obtain j q where "enqueue now QRelayer ''MPC_SETTLE_SUBMIT'' (settle_payload db b i m) (Some (settle_key (b_batch_id b) i)) (d_queue db) = (Ok j, q)"
    using enqueue_keyed_ok [OF settle_key_not_Nil] by blast
  then show ?case by (simp add: Cons.IH)
qed simp

definition batch_status :: "settle_db \<Rightarrow> batch_row \<Rightarrow> string" where
  "batch_status db b = (if list_all (match_routed db) (b_matches_json b) then ''rfq_routed'' else ''queued'')"

lemma batch_jobs_none: "batch_jobs db b i ms = [] \<longleftrightarrow> list_all (match_routed db) ms"
  by (induction ms arbitrary: i) auto

lemma queueSettlementJobs_eq:
  "queueSettlementJobs now b db = (Ok (), set_settlement_status (b_batch_id b) (batch_status db b)
     (db \<lparr> d_queue := fold (\<lambda>(k, p). enq_settle now k p) (batch_jobs db b 0 (b_matches_json b)) (d_queue db) \<rparr>))"
  using batch_jobs_none [of db b 0 "b_matches_json b"]
  by (simp add: queueSettlementJobs_def andThen_def queue_matches_eq batch_status_def)

definition all_jobs :: "settle_db \<Rightarrow> batch_row list \<Rightarrow> (string \<times> jsval) list" where
  "all_jobs db rows = concat (map (\<lambda>b. batch_jobs db b 0 (b_matches_json b)) rows)"

lemma dispatch_rows:
  "fold (\<lambda>b db. snd (queueSettlementJobs now b db)) rows db =
    db \<lparr> d_queue := fold (\<lambda>(k, p). enq_settle now k p) (all_jobs db rows) (d_queue db),
       d_batches := fold (\<lambda>b. map (\<lambda>x. if b_batch_id x = b_batch_id b then x \<lparr> b_settlement_status := batch_status db b \<rparr> else x))
         rows (d_batches db) \<rparr>"
proof (induction rows arbitrary: db)
  case (Cons b rows)
  have "batch_status (db \<lparr> d_queue := q, d_batches := bs \<rparr>) = batch_status db" for q bs
    by (auto simp: batch_status_def fun_eq_iff)
  moreover have "all_jobs (db \<lparr> d_queue := q, d_batches := bs \<rparr>) rows = all_jobs db rows" for q bs
    by (simp add: all_jobs_def)
  moreover have "all_jobs db (b # rows) = batch_jobs db b 0 (b_matches_json b) @ all_jobs db rows"
    by (simp add: all_jobs_def)
  moreover have "snd (queueSettlementJobs now b db) = db \<lparr>
      d_queue := fold (\<lambda>(k, p). enq_settle now k p) (batch_jobs db b 0 (b_matches_json b)) (d_queue db),
      d_batches := map (\<lambda>x. if b_batch_id x = b_batch_id b then x \<lparr> b_settlement_status := batch_status db b \<rparr> else x) (d_batches db) \<rparr>"
    by (simp add: queueSettlementJobs_eq set_settlement_status_def)
  ultimately show ?case by (simp only: fold_simps Cons.IH) simp
qed (simp add: all_jobs_def)

lemma mark_rows:
  assumes "distinct (map b_batch_id bs)" "set rows \<subseteq> set bs" "distinct rows"
  shows "fold (\<lambda>b. map (\<lambda>x. if b_batch_id x = b_batch_id b then x \<lparr> b_settlement_status := st b \<rparr> else x)) rows bs =
    map (\<lambda>x. if x \<in> set rows then x \<lparr> b_settlement_status := st x \<rparr> else x) bs"
proof -
  let ?f = "\<lambda>rows x. if b_batch_id x \<in> b_batch_id ` set rows
     then x \<lparr> b_settlement_status := st (the (find_first (\<lambda>b. b_batch_id b = b_batch_id x) rows)) \<rparr> else x"
  have a: "fold (\<lambda>b. map (\<lambda>x. if b_batch_id x = b_batch_id b then x \<lparr> b_settlement_status := st b \<rparr> else x)) rows xs = map (?f rows) xs"
    if "distinct (map b_batch_id rows)" for xs
    using that
  proof (induction rows arbitrary: xs)
    case (Cons b rows)
    then show ?case by (auto simp: image_iff)
  qed simp
  have inj: "inj_on b_batch_id (set bs)" using assms(1) by (simp add: distinct_map)
  then have d: "distinct (map b_batch_id rows)" using assms(2,3) by (auto simp: distinct_map intro: inj_on_subset)
  have "?f rows x = (if x \<in> set rows then x \<lparr> b_settlement_status := st x \<rparr> else x)" if "x \<in> set bs" for x
  proof -
    have same: "y = x" if "y \<in> set rows" "b_batch_id y = b_batch_id x" for y
      using inj_onD [OF inj] that assms(2) \<open>x \<in> set bs\<close> by blast
    show ?thesis
    proof (cases "x \<in> set rows")
      case True
      then have "find_first (\<lambda>b. b_batch_id b = b_batch_id x) rows = Some x"
        by (intro find_first_unique) (auto dest: same)
      then show ?thesis using True by auto
    next
      case False
      then have "b_batch_id x \<notin> b_batch_id ` set rows" using same by (metis imageE)
      then show ?thesis using False by simp
    qed
  qed
  then have "map (?f rows) bs = map (\<lambda>x. if x \<in> set rows then x \<lparr> b_settlement_status := st x \<rparr> else x) bs"
    by (intro map_cong) simp_all
  then show ?thesis unfolding a [OF d] .
qed

lemma pending_rows:
  assumes "distinct (map b_batch_id (d_batches db))"
  shows "set (pending_batches db) = {b \<in> set (d_batches db). b_settlement_status b = ''pending''}" "distinct (pending_batches db)"
  using assms by (auto simp: pending_batches_def distinct_map)

lemma settleOnce_eq:
  assumes "distinct (map b_batch_id (d_batches db))"
  shows "settleOnce now db = (let rows = take 50 (pending_batches db) in (Ok (length rows),
    db \<lparr> d_queue := fold (\<lambda>(k, p). enq_settle now k p) (all_jobs db rows) (d_queue db),
       d_batches := map (\<lambda>x. if x \<in> set rows then x \<lparr> b_settlement_status := batch_status db x \<rparr> else x) (d_batches db) \<rparr>))"
proof -
  let ?rows = "take 50 (pending_batches db)"
  have sub: "set ?rows \<subseteq> set (d_batches db)" using pending_rows(1) [OF assms] set_take_subset [of 50 "pending_batches db"] by blast
  have dist: "distinct ?rows" using pending_rows(2) [OF assms] by simp
  have run: "each (queueSettlementJobs now) ?rows db = (Inr (), fold (\<lambda>b db. snd (queueSettlementJobs now b db)) ?rows db)"
    by (rule each_total) (simp add: queueSettlementJobs_eq)
  show ?thesis
    unfolding settleOnce_def Let_def andThen_def run dispatch_rows mark_rows [OF assms sub dist] by (simp only: prod.case sum.case)
qed

lemma batch_jobs_in: "kp \<in> set (batch_jobs db b i ms) \<Longrightarrow> \<exists>n\<ge>i. n < i + length ms \<and> fst kp = settle_key (b_batch_id b) n"
proof (induction ms arbitrary: i)
  case (Cons m ms)
  then consider "fst kp = settle_key (b_batch_id b) i" | "kp \<in> set (batch_jobs db b (Suc i) ms)"
    by (auto split: if_splits)
  then show ?case
  proof cases
    case 1
    then show ?thesis by (intro exI [of _ i]) simp
  next
    case 2
    then obtain n where "n \<ge> Suc i" "n < Suc i + length ms" "fst kp = settle_key (b_batch_id b) n" using Cons.IH by blast
    then show ?thesis by (intro exI [of _ n]) simp
  qed
qed simp

lemma batch_jobs_keys: "fst ` set (batch_jobs db b i ms) \<subseteq> settle_key (b_batch_id b) ` {i..<i + length ms}"
  using batch_jobs_in by fastforce

lemma batch_jobs_distinct: "distinct (map fst (batch_jobs db b i ms))"
proof (induction ms arbitrary: i)
  case (Cons m ms)
  have "settle_key (b_batch_id b) i \<notin> fst ` set (batch_jobs db b (Suc i) ms)"
    using batch_jobs_keys [of db b "Suc i" ms] by auto
  then show ?case using Cons by simp
qed simp

lemma batch_jobs_lookup:
  "map_of (batch_jobs db b i ms) (settle_key (b_batch_id b) (i + n)) =
    (if n < length ms \<and> \<not> match_routed db (ms ! n) then Some (settle_payload db b (i + n) (ms ! n)) else None)"
proof (induction ms arbitrary: i n)
  case (Cons m ms)
  have "map_of (batch_jobs db b (Suc i) ms) (settle_key (b_batch_id b) i) = None"
    using batch_jobs_keys [of db b "Suc i" ms] by (auto simp: map_of_eq_None_iff)
  then show ?case using Cons.IH [of "Suc i" "n - 1"] by (cases n) auto
qed simp

lemma all_jobs_keys:
  assumes "(k, p) \<in> set (all_jobs db rows)"
  shows "\<exists>b\<in>set rows. \<exists>i<length (b_matches_json b). k = settle_key (b_batch_id b) i"
proof -
  obtain b where b: "b \<in> set rows" "(k, p) \<in> set (batch_jobs db b 0 (b_matches_json b))"
    using assms by (auto simp: all_jobs_def)
  then show ?thesis using batch_jobs_keys [of db b 0 "b_matches_json b"] by (force simp: image_iff)
qed

lemma all_jobs_lookup:
  assumes "distinct (map b_batch_id rows)" "b \<in> set rows"
  shows "map_of (all_jobs db rows) (settle_key (b_batch_id b) i) =
    (if i < length (b_matches_json b) \<and> \<not> match_routed db (b_matches_json b ! i)
     then Some (settle_payload db b i (b_matches_json b ! i)) else None)"
  using assms
proof (induction rows)
  case (Cons r rows)
  show ?case
  proof (cases "r = b")
    case True
    have "map_of (all_jobs db rows) (settle_key (b_batch_id b) i) = None"
      using Cons.prems(1) True by (fastforce simp: map_of_eq_None_iff dest: all_jobs_keys)
    then show ?thesis
      using True batch_jobs_lookup [of db b 0 "b_matches_json b" i] by (auto simp: all_jobs_def map_add_def)
  next
    case False
    then have "b \<in> set rows" "b_batch_id r \<noteq> b_batch_id b" using Cons.prems by auto
    then have "map_of (batch_jobs db r 0 (b_matches_json r)) (settle_key (b_batch_id b) i) = None"
      using batch_jobs_keys [of db r 0 "b_matches_json r"] by (auto simp: map_of_eq_None_iff)
    then show ?thesis using Cons \<open>b \<in> set rows\<close> by (simp add: all_jobs_def map_add_def split: option.split)
  qed
qed simp

lemma all_jobs_distinct:
  assumes "distinct (map b_batch_id rows)"
  shows "distinct (map fst (all_jobs db rows))" "list_all (\<lambda>(k, p). k \<noteq> []) (all_jobs db rows)"
proof -
  show "distinct (map fst (all_jobs db rows))"
    using assms
  proof (induction rows)
    case (Cons r rows)
    have "fst ` set (batch_jobs db r 0 (b_matches_json r)) \<inter> fst ` set (all_jobs db rows) = {}"
    proof (rule ccontr)
      assume "fst ` set (batch_jobs db r 0 (b_matches_json r)) \<inter> fst ` set (all_jobs db rows) \<noteq> {}"
      then obtain k p where k: "k \<in> fst ` set (batch_jobs db r 0 (b_matches_json r))" "(k, p) \<in> set (all_jobs db rows)" by force
      then obtain i b j where "k = settle_key (b_batch_id r) i" "b \<in> set rows" "k = settle_key (b_batch_id b) j"
        using batch_jobs_keys [of db r 0 "b_matches_json r"] all_jobs_keys [OF k(2)] by blast
      then show False using Cons.prems by (auto simp: image_iff)
    qed
    then show ?case using Cons by (simp add: all_jobs_def batch_jobs_distinct)
  qed (simp add: all_jobs_def)
  show "list_all (\<lambda>(k, p). k \<noteq> []) (all_jobs db rows)"
    by (auto simp: list_all_iff dest!: all_jobs_keys)
qed

lemma poll_batches:
  assumes "distinct (map b_batch_id (d_batches db))"
  shows "distinct (map b_batch_id (d_batches (snd (settleOnce now db))))"
    "length (pending_batches (snd (settleOnce now db))) = length (pending_batches db) - 50"
    "map (\<lambda>b. b \<lparr> b_settlement_status := s \<rparr>) (d_batches (snd (settleOnce now db))) = map (\<lambda>b. b \<lparr> b_settlement_status := s \<rparr>) (d_batches db)"
proof -
  let ?rows = "take 50 (pending_batches db)"
  let ?f = "\<lambda>x. if x \<in> set ?rows then x \<lparr> b_settlement_status := batch_status db x \<rparr> else x"
  have db': "d_batches (snd (settleOnce now db)) = map ?f (d_batches db)"
    unfolding settleOnce_eq [OF assms] Let_def by simp
  have "map b_batch_id (map ?f xs) = map b_batch_id xs" for xs by (induction xs) auto
  then show "distinct (map b_batch_id (d_batches (snd (settleOnce now db))))" using assms unfolding db' by metis
  show "map (\<lambda>b. b \<lparr> b_settlement_status := s \<rparr>) (d_batches (snd (settleOnce now db))) = map (\<lambda>b. b \<lparr> b_settlement_status := s \<rparr>) (d_batches db)"
    unfolding db' by simp
  let ?p = "\<lambda>b. b_settlement_status b = ''pending''"
  have d: "distinct (d_batches db)" using assms by (simp add: distinct_map)
  have "filter ?p (map ?f xs) = filter (\<lambda>b. ?p b \<and> b \<notin> set ?rows) xs" for xs
    by (induction xs) (auto simp: batch_status_def)
  then have "length (pending_batches (snd (settleOnce now db))) = length (filter (\<lambda>b. ?p b \<and> b \<notin> set ?rows) (d_batches db))"
    unfolding pending_batches_def [of "snd (settleOnce now db)"] db' by simp
  also have "\<dots> = card ({b \<in> set (d_batches db). ?p b} - set ?rows)"
  proof -
    have "{b \<in> set (d_batches db). ?p b} - set ?rows = set (filter (\<lambda>b. ?p b \<and> b \<notin> set ?rows) (d_batches db))" by auto
    then show ?thesis using distinct_card [OF distinct_filter [OF d, of "\<lambda>b. ?p b \<and> b \<notin> set ?rows"]] by (simp only:)
  qed
  also have "\<dots> = card (set (pending_batches db)) - card (set ?rows)"
    using pending_rows(1) [OF assms] set_take_subset [of 50 "pending_batches db"] by (simp add: card_Diff_subset)
  also have "\<dots> = length (pending_batches db) - 50"
    using pending_rows(2) [OF assms] by (simp add: distinct_card)
  finally show "length (pending_batches (snd (settleOnce now db))) = length (pending_batches db) - 50" .
qed

lemma persist_keeps_ids:
  assumes "distinct (map b_batch_id (d_batches db))"
  shows "distinct (map b_batch_id (d_batches (snd (persistSignedBatch now sid batch db))))"
proof -
  let ?P = "\<lambda>db. distinct (map b_batch_id (d_batches db))"
  have "?P (snd (insert_batch now sid batch db))" if "?P db" for db
    using that by (auto simp: insert_batch_def)
  moreover have "?P (snd (insert_signature i sig db))" "?P (snd (close_session sid n db))" "?P (snd (mark_matched a b db))" if "?P db"
    for i sig sid n a b db
    using that by (simp_all add: insert_signature_def close_session_def mark_matched_def)
  ultimately show ?thesis
    unfolding persistSignedBatch_def using assms by (intro andThen_inv [of ?P] each_inv [of ?P]) blast+
qed

lemma all_less_two: "(\<forall>i<Suc (Suc 0). P i) \<longleftrightarrow> P 0 \<and> P (Suc 0)"
  by (auto simp: less_Suc_eq)


text \<open>Enqueueing under fresh and known keys, on the table itself: one new row per key that had none, in order, and no row is touched.\<close>

lemma batch_jobs_enumerate:
  "batch_jobs db b i ms = map (\<lambda>(i, m). (settle_key (b_batch_id b) i, settle_payload db b i m)) (filter (\<lambda>(i, m). \<not> match_routed db m) (enumerate i ms))"
  by (induction ms arbitrary: i) auto

lemma job_for_key_other:
  assumes "job_for_key k q = None" "k' \<noteq> k"
  shows "job_for_key k' (enq_settle now k p q) = None \<longleftrightarrow> job_for_key k' q = None"
  using enqueue_inserts(1) [of "Some k" q now QRelayer "''MPC_SETTLE_SUBMIT''" p] assms by (auto simp: job_for_key_none)

definition settle_job :: "service_job \<Rightarrow> bool" where
  "settle_job j \<longleftrightarrow> j_queue j = QRelayer \<and> j_job_type j = ''MPC_SETTLE_SUBMIT'' \<and> j_status j = ''queued'' \<and> j_attempts j = 0"

lemma enq_fold_jobs:
  assumes "list_all (\<lambda>(k, p). k \<noteq> []) kps" "distinct (map fst kps)"
  shows "\<exists>news. q_jobs (fold (\<lambda>(k, p). enq_settle now k p) kps q) = q_jobs q @ news \<and> list_all settle_job news \<and>
    map (\<lambda>j. (j_idempotency_key j, j_payload j)) news = map (\<lambda>(k, p). (Some k, p)) (filter (\<lambda>(k, p). job_for_key k q = None) kps)"
  using assms
proof (induction kps arbitrary: q)
  case (Cons kp kps)
  obtain k p where kp: "kp = (k, p)" by fastforce
  have k: "k \<noteq> []" "k \<notin> fst ` set kps" and tail: "list_all (\<lambda>(k, p). k \<noteq> []) kps" "distinct (map fst kps)"
    using Cons.prems kp by auto
  let ?q = "enq_settle now k p q"
  obtain news where n: "q_jobs (fold (\<lambda>(k, p). enq_settle now k p) kps ?q) = q_jobs ?q @ news" "list_all settle_job news"
    "map (\<lambda>j. (j_idempotency_key j, j_payload j)) news = map (\<lambda>(k, p). (Some k, p)) (filter (\<lambda>(k, p). job_for_key k ?q = None) kps)"
    using Cons.IH [OF tail, of ?q] by blast
  show ?case
  proof (cases "job_for_key k q")
    case None
    have same: "filter (\<lambda>(k, p). job_for_key k ?q = None) kps = filter (\<lambda>(k, p). job_for_key k q = None) kps"
    proof (rule filter_cong [OF refl])
      fix x assume x: "x \<in> set kps"
      then have "fst x \<noteq> k" using k(2) by force
      from job_for_key_other [OF None this] show "(case x of (k, p) \<Rightarrow> job_for_key k ?q = None) = (case x of (k, p) \<Rightarrow> job_for_key k q = None)"
        by (simp only: case_prod_beta)
    qed
    let ?j = "new_job now (q_next q) QRelayer ''MPC_SETTLE_SUBMIT'' p (Some k)"
    have "q_jobs ?q = q_jobs q @ [?j]" using None by (intro enqueue_inserts) simp
    moreover have "settle_job ?j" by (simp add: settle_job_def new_job_def)
    ultimately show ?thesis using n None kp same by (intro exI [of _ "?j # news"]) simp
  next
    case (Some j)
    then have "?q = q" using k(1) by (simp add: enqueue_existing)
    then show ?thesis using n Some kp by (intro exI [of _ news]) simp
  qed
qed simp

lemma enq_fold_known:
  "list_all (\<lambda>(k, p). k \<noteq> [] \<and> job_for_key k q \<noteq> None) kps \<Longrightarrow> fold (\<lambda>(k, p). enq_settle now k p) kps q = q"
  by (induction kps) (auto simp: enqueue_existing)

lemma enq_fold_again:
  assumes "list_all (\<lambda>(k, p). k \<noteq> []) kps" "distinct (map fst kps)"
  shows "fold (\<lambda>(k, p). enq_settle now' k p) kps (fold (\<lambda>(k, p). enq_settle now k p) kps q) = fold (\<lambda>(k, p). enq_settle now k p) kps q"
proof (rule enq_fold_known)
  let ?q = "fold (\<lambda>(k, p). enq_settle now k p) kps q"
  have "filed_payload ?q k \<noteq> None" if "(k, p) \<in> set kps" for k p
    using that assms by (simp add: jobs.enq_all split: option.split)
  then have "job_for_key k ?q \<noteq> None" if "(k, p) \<in> set kps" for k p
    using that by (fastforce simp: filed_payload_def)
  then show "list_all (\<lambda>(k, p). k \<noteq> [] \<and> job_for_key k ?q \<noteq> None) kps" using assms(1) by (auto simp: list_all_iff)
qed


section \<open>Properties\<close>

text \<open>C28: one poll of the settler takes the at most fifty oldest pending batches and never throws. Every
  match neither of whose intents is RFQ-routed has then a settlement job under its key, with the
  nullifiers and output commitments of the two intents (or the job filed for it earlier); a match with
  an RFQ-routed side gets none, and no other job is filed. The batches taken become \<open>queued\<close>, or
  \<open>rfq_routed\<close> when nothing of them was queued, and the rest stay as they are. On the table of jobs: every row that was there stays, and
  exactly one row is added, in order, for each match without an RFQ-routed side whose key had no row yet; it is a fresh queued
  \<open>MPC_SETTLE_SUBMIT\<close> job of the relayer with that key and payload. If the status updates are lost and the
  poll runs again, also at another time, the whole queue (jobs, events and counter) stays as it is.\<close>

theorem settler_poll_correct:
  assumes "distinct (map b_batch_id (d_batches db))" "rows = take 50 (pending_batches db)" "settleOnce now db = (r, db')"
  shows "r = Ok (length rows) \<and>
    d_batches db' = map (\<lambda>b. if b \<in> set rows then b \<lparr> b_settlement_status :=
        if list_all (match_routed db) (b_matches_json b) then ''rfq_routed'' else ''queued'' \<rparr> else b) (d_batches db) \<and>
    (\<forall>b\<in>set rows. \<forall>i<length (b_matches_json b). filed_payload (d_queue db') (settle_key (b_batch_id b) i) =
       (case filed_payload (d_queue db) (settle_key (b_batch_id b) i) of Some p \<Rightarrow> Some p
        | None \<Rightarrow> if match_routed db (b_matches_json b ! i) then None else Some (settle_payload db b i (b_matches_json b ! i)))) \<and>
    (\<forall>k. (\<forall>b\<in>set rows. \<forall>i<length (b_matches_json b). k \<noteq> settle_key (b_batch_id b) i) \<longrightarrow>
       filed_payload (d_queue db') k = filed_payload (d_queue db) k) \<and>
    (\<exists>news. q_jobs (d_queue db') = q_jobs (d_queue db) @ news \<and> list_all settle_job news \<and>
       map (\<lambda>j. (j_idempotency_key j, j_payload j)) news =
         map (\<lambda>(k, p). (Some k, p)) (filter (\<lambda>(k, p). job_for_key k (d_queue db) = None)
           (concat (map (\<lambda>b. map (\<lambda>(i, m). (settle_key (b_batch_id b) i, settle_payload db b i m))
              (filter (\<lambda>(i, m). \<not> match_routed db m) (enumerate 0 (b_matches_json b)))) rows)))) \<and>
    d_queue (snd (settleOnce later (db' \<lparr> d_batches := d_batches db \<rparr>))) = d_queue db'"
proof (intro conjI ballI allI impI)
  have db': "r = Ok (length rows)" "db' = db \<lparr> d_queue := fold (\<lambda>(k, p). enq_settle now k p) (all_jobs db rows) (d_queue db),
       d_batches := map (\<lambda>x. if x \<in> set rows then x \<lparr> b_settlement_status := batch_status db x \<rparr> else x) (d_batches db) \<rparr>"
    using assms(3) unfolding settleOnce_eq [OF assms(1)] Let_def assms(2) [symmetric] by simp_all
  then show "r = Ok (length rows)"
    "d_batches db' = map (\<lambda>b. if b \<in> set rows then b \<lparr> b_settlement_status :=
        if list_all (match_routed db) (b_matches_json b) then ''rfq_routed'' else ''queued'' \<rparr> else b) (d_batches db)"
    by (simp_all add: batch_status_def)
  have "distinct rows" "set rows \<subseteq> set (d_batches db)"
    using assms(2) pending_rows [OF assms(1)] set_take_subset [of 50 "pending_batches db"] by auto
  then have drows: "distinct (map b_batch_id rows)" using assms(1) by (auto simp: distinct_map intro: inj_on_subset)
  have filed: "filed_payload (d_queue db') k = (case filed_payload (d_queue db) k of Some p \<Rightarrow> Some p | None \<Rightarrow> map_of (all_jobs db rows) k)" for k
    using jobs.enq_all [OF all_jobs_distinct(2,1) [OF drows]] unfolding db' by simp
  show "filed_payload (d_queue db') (settle_key (b_batch_id b) i) =
       (case filed_payload (d_queue db) (settle_key (b_batch_id b) i) of Some p \<Rightarrow> Some p
        | None \<Rightarrow> if match_routed db (b_matches_json b ! i) then None else Some (settle_payload db b i (b_matches_json b ! i)))"
    if "b \<in> set rows" "i < length (b_matches_json b)" for b i
    using that unfolding filed all_jobs_lookup [OF drows that(1)] by (simp split: option.split)
  show "filed_payload (d_queue db') k = filed_payload (d_queue db) k"
    if "\<forall>b\<in>set rows. \<forall>i<length (b_matches_json b). k \<noteq> settle_key (b_batch_id b) i" for k
  proof -
    have "map_of (all_jobs db rows) k = None" using that by (force simp: map_of_eq_None_iff dest: all_jobs_keys)
    then show ?thesis unfolding filed by (simp split: option.split)
  qed
  show "\<exists>news. q_jobs (d_queue db') = q_jobs (d_queue db) @ news \<and> list_all settle_job news \<and>
       map (\<lambda>j. (j_idempotency_key j, j_payload j)) news =
         map (\<lambda>(k, p). (Some k, p)) (filter (\<lambda>(k, p). job_for_key k (d_queue db) = None)
           (concat (map (\<lambda>b. map (\<lambda>(i, m). (settle_key (b_batch_id b) i, settle_payload db b i m))
              (filter (\<lambda>(i, m). \<not> match_routed db m) (enumerate 0 (b_matches_json b)))) rows)))"
    using enq_fold_jobs [OF all_jobs_distinct(2,1) [OF drows], of now db "d_queue db"]
    unfolding db' all_jobs_def batch_jobs_enumerate by simp
  let ?again = "db' \<lparr> d_batches := d_batches db \<rparr>"
  have "pending_batches ?again = pending_batches db" "all_jobs ?again rows = all_jobs db rows"
    by (simp_all add: pending_batches_def all_jobs_def db'(2))
  then have "d_queue (snd (settleOnce later ?again)) = fold (\<lambda>(k, p). enq_settle later k p) (all_jobs db rows) (d_queue db')"
    using settleOnce_eq [of ?again later] assms(1,2) by (simp add: Let_def)
  then show "d_queue (snd (settleOnce later ?again)) = d_queue db'"
    using enq_fold_again [OF all_jobs_distinct(2,1) [OF drows]] unfolding db' by simp
qed


definition demo_match :: "string \<Rightarrow> string \<Rightarrow> match_result" where
  "demo_match a b = \<lparr> mr_intentAId = a, mr_intentBId = b, mr_matchedAmount7dp = ''5'', mr_inputAsset = ''USDC'',
     mr_outputAsset = ''EURC'', mr_priceScaled = None, mr_assetIn = None, mr_assetOut = None \<rparr>"

definition demo_batch_row :: batch_row where
  "demo_batch_row = \<lparr> b_batch_id = ''b'', b_session_id = ''s'', b_batch_hash = ''h'', b_match_count = 2,
     b_matches_json = [demo_match ''i1'' ''i2'', demo_match ''i3'' ''i4''], b_signatures_json = [],
     b_settlement_status = ''pending'', b_created_at = 7 \<rparr>"

definition demo_settle_db :: settle_db where
  "demo_settle_db = \<lparr> d_sessions = [], d_intents = [], d_batches = [demo_batch_row], d_signatures = [],
     d_rfq_hashes = [''i4''], d_queue = empty_queue \<rparr>"

theorem settler_poll_correct_witness:
  "fst (settleOnce 9 demo_settle_db) = Ok 1 \<and>
   filed_payload (d_queue (snd (settleOnce 9 demo_settle_db))) (settle_key ''b'' 0) =
     Some (settle_payload demo_settle_db demo_batch_row 0 (demo_match ''i1'' ''i2'')) \<and>
   filed_payload (d_queue (snd (settleOnce 9 demo_settle_db))) (settle_key ''b'' 1) = None"
proof -
  have rows: "[demo_batch_row] = take 50 (pending_batches demo_settle_db)"
    by (simp add: pending_batches_def demo_settle_db_def demo_batch_row_def)
  have "filed_payload (d_queue demo_settle_db) k = None" for k
    by (simp add: filed_payload_def job_for_key_def demo_settle_db_def empty_queue_def)
  moreover have "\<not> match_routed demo_settle_db (demo_match ''i1'' ''i2'')" "match_routed demo_settle_db (demo_match ''i3'' ''i4'')"
    "b_matches_json demo_batch_row = [demo_match ''i1'' ''i2'', demo_match ''i3'' ''i4'']" "b_batch_id demo_batch_row = ''b''"
    by (simp_all add: match_routed_def isRfqRouted_def demo_match_def demo_settle_db_def demo_batch_row_def)
  moreover have "distinct (map b_batch_id (d_batches demo_settle_db))" by (simp add: demo_settle_db_def)
  ultimately show ?thesis
    using settler_poll_correct [OF _ rows surjective_pairing, of 9] by (simp add: all_less_two)
qed

text \<open>The settler drains its backlog: if no batch arrives meanwhile, every poll takes fifty pending batches (or
  all that are left), so after as many polls as there are fifties no batch is pending, and
  no batch is ever dropped or its contents changed.\<close>

theorem settler_drains:
  assumes "distinct (map b_batch_id (d_batches db))"
  shows "length (pending_batches (runSettlerLoop nows db)) = length (pending_batches db) - 50 * length nows \<and>
    map (\<lambda>b. b \<lparr> b_settlement_status := s \<rparr>) (d_batches (runSettlerLoop nows db)) = map (\<lambda>b. b \<lparr> b_settlement_status := s \<rparr>) (d_batches db)"
  using assms
proof (induction nows arbitrary: db)
  case (Cons now nows)
  let ?db = "snd (settleOnce now db)"
  have "distinct (map b_batch_id (d_batches ?db))"
    "length (pending_batches ?db) = length (pending_batches db) - 50"
    "map (\<lambda>b. b \<lparr> b_settlement_status := s \<rparr>) (d_batches ?db) = map (\<lambda>b. b \<lparr> b_settlement_status := s \<rparr>) (d_batches db)"
    using poll_batches [OF Cons.prems] by auto
  then show ?case using Cons.IH [of ?db] by (simp add: runSettlerLoop_def)
qed (simp add: runSettlerLoop_def)

theorem settler_drains_witness:
  "pending_batches (runSettlerLoop [9] demo_settle_db) = []"
  using settler_drains [of demo_settle_db "[9]"] by (simp add: demo_settle_db_def pending_batches_def demo_batch_row_def)

end
