(* ===== verification/NoteVault.thy ===== *)
theory NoteVault
  imports Hex Json
begin

text \<open>
  The client-side note vault, \<open>packages/note-vault/src/index.ts\<close> (the web app keeps an identical
  copy in \<open>frontend/lib/note-vault.ts\<close>), and the note bookkeeping of \<open>packages/sdk/src/notes.ts\<close>.
  WebCrypto (AES-GCM, HKDF, PBKDF2, SHA-256) is the parameter \<open>webcrypto\<close>; random bytes and
  timestamps are arguments. \<open>None\<close> of an operation is the rejected promise.
\<close>

record webcrypto =
  wc_encrypt :: "bytes \<Rightarrow> bytes \<Rightarrow> bytes option \<Rightarrow> bytes \<Rightarrow> bytes option"
  wc_decrypt :: "bytes \<Rightarrow> bytes \<Rightarrow> bytes option \<Rightarrow> bytes \<Rightarrow> bytes option"
  wc_hkdf :: "bytes \<Rightarrow> bytes \<Rightarrow> string \<Rightarrow> bytes"
  wc_pbkdf2 :: "string \<Rightarrow> bytes \<Rightarrow> nat \<Rightarrow> bytes"
  wc_sha256 :: "bytes \<Rightarrow> bytes"

datatype vault_error =
    CryptoError
  | InvalidCharacter
  | NotJson
  | BadVersion
  | MalformedEnvelope
  | MissingWrappers
  | PlaintextField string


section \<open>Encoding helpers\<close>

definition b64_std :: "char \<Rightarrow> bool" where
  "b64_std c = (b64_val c \<noteq> None \<and> c \<noteq> CHR ''-'' \<and> c \<noteq> CHR ''_'')"

text \<open>\<open>atob\<close>: white space is dropped, padding is optional but must complete a group of four.\<close>

definition atob :: "string \<Rightarrow> bytes option" where
  "atob s =
    (let t = filter (\<lambda>c. c \<notin> {CHR '' '', CHR 0x09, CHR 0x0A, CHR 0x0C, CHR 0x0D}) s;
         u = takeWhile (\<lambda>c. c \<noteq> CHR ''='') t; pad = dropWhile (\<lambda>c. c \<noteq> CHR ''='') t in
     if list_all b64_std u \<and> length u mod 4 \<noteq> 1 \<and> (pad = [] \<or> length t mod 4 = 0 \<and> (pad = ''='' \<or> pad = ''==''))
     then Some (base64_decode u) else None)"

definition toB64 :: "bytes \<Rightarrow> string" where
  "toB64 bs = base64_encode bs"

definition fromB64 :: "string \<Rightarrow> (vault_error, bytes) result" where
  "fromB64 s = (case atob s of None \<Rightarrow> Throw InvalidCharacter | Some bs \<Rightarrow> Ok bs)"


section \<open>Vaults and envelopes\<close>

record note_preimage =
  np_owner_secret :: string
  np_spend_secret :: string
  np_blinding :: string
  np_nonce :: string
  np_memo_commitment :: string
  np_compliance_tag :: string
  np_source_context :: string

datatype note_status = Prepared | Active | Spent

record vault_note =
  vn_commitment :: string
  vn_asset_id :: string
  vn_amount_7dp :: string
  vn_note_preimage :: note_preimage
  vn_deposit_id :: "string option"
  vn_status :: note_status
  vn_created_at :: string

record note_vault =
  nv_vault_id :: string
  nv_created_at :: string
  nv_updated_at :: string
  nv_notes :: "vault_note list"

datatype wrapper_type = PasskeyPrf | StellarEd25519 | RecoveryFileSecret | RecoveryKitPassword | EvmSignature

datatype kdf = HkdfSha256 | Pbkdf2Sha256

record vault_wrapper =
  vw_id :: string
  vw_type :: wrapper_type
  vw_active :: bool
  vw_kdf :: kdf
  vw_salt :: string
  vw_wrapped_key :: string
  vw_diagnostic_only :: "bool option"
  vw_metadata :: "(string \<times> jsval) list"

record vault_aad =
  aad_app :: string
  aad_origin :: string
  aad_vault_id :: string
  aad_privy_user_id :: string
  aad_vault_version :: int

record vault_envelope =
  ve_vault_id :: string
  ve_privy_user_id :: string
  ve_iv :: string
  ve_aad :: vault_aad
  ve_ciphertext :: string
  ve_wrappers :: "vault_wrapper list"

text \<open>The JSON of these values; members are in the order the code writes them.\<close>

definition preimage_value :: "note_preimage \<Rightarrow> jsval" where
  "preimage_value p = VObj [(''owner_secret'', VStr (np_owner_secret p)), (''spend_secret'', VStr (np_spend_secret p)),
     (''blinding'', VStr (np_blinding p)), (''nonce'', VStr (np_nonce p)), (''memo_commitment'', VStr (np_memo_commitment p)),
     (''compliance_tag'', VStr (np_compliance_tag p)), (''source_context'', VStr (np_source_context p))]"

fun status_text :: "note_status \<Rightarrow> string" where
  "status_text Prepared = ''prepared''"
| "status_text Active = ''active''"
| "status_text Spent = ''spent''"

definition opt_member :: "string \<Rightarrow> jsval option \<Rightarrow> (string \<times> jsval) list" where
  "opt_member k v = (case v of None \<Rightarrow> [] | Some x \<Rightarrow> [(k, x)])"

definition note_value :: "vault_note \<Rightarrow> jsval" where
  "note_value n = VObj ([(''commitment'', VStr (vn_commitment n)), (''asset_id'', VStr (vn_asset_id n)),
     (''amount_7dp'', VStr (vn_amount_7dp n)), (''note_preimage'', preimage_value (vn_note_preimage n))]
     @ opt_member ''deposit_id'' (map_option VStr (vn_deposit_id n))
     @ [(''status'', VStr (status_text (vn_status n))), (''created_at'', VStr (vn_created_at n))])"

definition vault_value :: "note_vault \<Rightarrow> jsval" where
  "vault_value v = VObj [(''version'', VStr ''shade-note-vault-v1''), (''vault_id'', VStr (nv_vault_id v)),
     (''created_at'', VStr (nv_created_at v)), (''updated_at'', VStr (nv_updated_at v)),
     (''notes'', VArr (map note_value (nv_notes v)))]"

fun type_text :: "wrapper_type \<Rightarrow> string" where
  "type_text PasskeyPrf = ''passkey_prf''"
| "type_text StellarEd25519 = ''stellar_ed25519_signature''"
| "type_text RecoveryFileSecret = ''recovery_file_secret''"
| "type_text RecoveryKitPassword = ''recovery_kit_password''"
| "type_text EvmSignature = ''evm_signature''"

fun kdf_text :: "kdf \<Rightarrow> string" where
  "kdf_text HkdfSha256 = ''HKDF-SHA256''"
| "kdf_text Pbkdf2Sha256 = ''PBKDF2-SHA256''"

definition wrapper_value :: "vault_wrapper \<Rightarrow> jsval" where
  "wrapper_value w = VObj ([(''id'', VStr (vw_id w)), (''type'', VStr (type_text (vw_type w))),
     (''status'', VStr (if vw_active w then ''active'' else ''revoked'')), (''kdf'', VStr (kdf_text (vw_kdf w))),
     (''salt'', VStr (vw_salt w)), (''wrapped_key'', VStr (vw_wrapped_key w))]
     @ opt_member ''diagnostic_only'' (map_option VBool (vw_diagnostic_only w)) @ [(''metadata'', VObj (vw_metadata w))])"

definition aad_value :: "vault_aad \<Rightarrow> jsval" where
  "aad_value a = VObj [(''app'', VStr (aad_app a)), (''origin'', VStr (aad_origin a)), (''vault_id'', VStr (aad_vault_id a)),
     (''privy_user_id'', VStr (aad_privy_user_id a)), (''vault_version'', VNum (NInt (aad_vault_version a)))]"

definition envelope_value :: "vault_envelope \<Rightarrow> jsval" where
  "envelope_value e = VObj [(''version'', VStr ''shade-encrypted-vault-v1''), (''vault_id'', VStr (ve_vault_id e)),
     (''privy_user_id'', VStr (ve_privy_user_id e)),
     (''cipher'', VObj [(''name'', VStr ''AES-256-GCM''), (''iv'', VStr (ve_iv e)), (''tagLength'', VNum (NInt 128))]),
     (''aad'', aad_value (ve_aad e)), (''ciphertext'', VStr (ve_ciphertext e)),
     (''wrappers'', VArr (map wrapper_value (ve_wrappers e)))]"


section \<open>Core crypto\<close>

text \<open>\<open>iv\<close> is the drawn nonce.\<close>

definition aesGcmEncrypt :: "webcrypto \<Rightarrow> bytes \<Rightarrow> bytes \<Rightarrow> bytes \<Rightarrow> bytes option \<Rightarrow> (vault_error, bytes \<times> bytes) result" where
  "aesGcmEncrypt wc iv rawKey plaintext aad =
    (case wc_encrypt wc rawKey iv aad plaintext of None \<Rightarrow> Throw CryptoError | Some ct \<Rightarrow> Ok (iv, ct))"

definition aesGcmDecrypt :: "webcrypto \<Rightarrow> bytes \<Rightarrow> bytes \<Rightarrow> bytes \<Rightarrow> bytes option \<Rightarrow> (vault_error, bytes) result" where
  "aesGcmDecrypt wc rawKey iv ct aad =
    (case wc_decrypt wc rawKey iv aad ct of None \<Rightarrow> Throw CryptoError | Some pt \<Rightarrow> Ok pt)"

definition generateNotePreimage :: "(nat \<Rightarrow> bytes) \<Rightarrow> note_preimage" where
  "generateNotePreimage draw = \<lparr> np_owner_secret = to_hex (draw 0), np_spend_secret = to_hex (draw 1), np_blinding = to_hex (draw 2),
     np_nonce = to_hex (draw 3), np_memo_commitment = to_hex (draw 4), np_compliance_tag = to_hex (draw 5),
     np_source_context = to_hex (draw 6) \<rparr>"

definition buildNoteCommitment :: "webcrypto \<Rightarrow> note_preimage \<Rightarrow> string" where
  "buildNoteCommitment wc p = ''0x'' @ to_hex (wc_sha256 wc (utf8 (stringify (preimage_value p))))"

definition createEmptyNoteVault :: "string \<Rightarrow> string \<Rightarrow> note_vault" where
  "createEmptyNoteVault vaultId now = \<lparr> nv_vault_id = vaultId, nv_created_at = now, nv_updated_at = now, nv_notes = [] \<rparr>"

definition addNoteToVault :: "note_vault \<Rightarrow> vault_note \<Rightarrow> string \<Rightarrow> note_vault" where
  "addNoteToVault vault note now = vault \<lparr> nv_updated_at := now,
     nv_notes := filter (\<lambda>n. vn_commitment n \<noteq> vn_commitment note) (nv_notes vault) @ [note] \<rparr>"

definition AAD_BYTES :: "jsval \<Rightarrow> bytes" where
  "AAD_BYTES aad = utf8 (stringify aad)"

definition encryptNoteVault :: "webcrypto \<Rightarrow> bytes \<Rightarrow> note_vault \<Rightarrow> bytes \<Rightarrow> vault_aad \<Rightarrow> (vault_error, string \<times> string) result" where
  "encryptNoteVault wc iv vault masterKey aad =
    res_bind (aesGcmEncrypt wc iv masterKey (utf8 (stringify (vault_value vault))) (Some (AAD_BYTES (aad_value aad))))
      (\<lambda>(iv, ct). Ok (toB64 ct, toB64 iv))"

definition decryptNoteVault :: "webcrypto \<Rightarrow> string \<Rightarrow> string \<Rightarrow> bytes \<Rightarrow> jsval \<Rightarrow> (vault_error, jsval) result" where
  "decryptNoteVault wc ciphertext iv masterKey aad =
    res_bind (fromB64 iv) (\<lambda>iv. res_bind (fromB64 ciphertext) (\<lambda>ct.
    res_bind (aesGcmDecrypt wc masterKey iv ct (Some (AAD_BYTES aad))) (\<lambda>pt.
      case json_parse (utf8_decode pt) of None \<Rightarrow> Throw NotJson | Some v \<Rightarrow> Ok v)))"

definition createVaultEnvelope ::
  "webcrypto \<Rightarrow> bytes \<Rightarrow> note_vault \<Rightarrow> bytes \<Rightarrow> string \<Rightarrow> string \<Rightarrow> vault_wrapper list \<Rightarrow> (vault_error, vault_envelope) result" where
  "createVaultEnvelope wc iv vault masterKey privyUserId origin wrappers =
    (let aad = \<lparr> aad_app = ''Shade Protocol'', aad_origin = origin, aad_vault_id = nv_vault_id vault,
                 aad_privy_user_id = privyUserId, aad_vault_version = 1 \<rparr> in
     res_bind (encryptNoteVault wc iv vault masterKey aad) (\<lambda>(ciphertext, iv).
       Ok \<lparr> ve_vault_id = nv_vault_id vault, ve_privy_user_id = privyUserId, ve_iv = iv, ve_aad = aad,
            ve_ciphertext = ciphertext, ve_wrappers = wrappers \<rparr>))"


section \<open>Security gates\<close>

definition PLAINTEXT_FORBIDDEN :: "string list" where
  "PLAINTEXT_FORBIDDEN = [''owner_secret'', ''spend_secret'', ''blinding'', ''nonce'', ''note_preimage'', ''vault_master_key'',
     ''raw_signature'', ''private_key'', ''secret'']"

fun first_some :: "'a option list \<Rightarrow> 'a option" where
  "first_some [] = None"
| "first_some (None # xs) = first_some xs"
| "first_some (Some x # xs) = Some x"

text \<open>The first forbidden key in the order of the walk.\<close>

fun walk :: "jsval \<Rightarrow> string option" where
  "walk (VArr vs) = first_some (map walk vs)"
| "walk (VObj ms) = first_some (map (\<lambda>m. if fst m \<in> set PLAINTEXT_FORBIDDEN then Some (fst m) else walk (snd m)) ms)"
| "walk _ = None"

definition assertNoPlaintextNoteFields :: "jsval \<Rightarrow> (vault_error, unit) result" where
  "assertNoPlaintextNoteFields v = (case walk v of None \<Rightarrow> Ok () | Some k \<Rightarrow> Throw (PlaintextField k))"

fun redactVaultForLogs :: "jsval \<Rightarrow> jsval" where
  "redactVaultForLogs (VArr vs) = VArr (map redactVaultForLogs vs)"
| "redactVaultForLogs (VObj ms) = VObj (map (\<lambda>m. (fst m,
     if fst m \<in> set PLAINTEXT_FORBIDDEN \<or> fst m = ''wrapped_key'' \<or> fst m = ''ciphertext'' then VStr ''[REDACTED]''
     else redactVaultForLogs (snd m))) ms)"
| "redactVaultForLogs v = v"

definition validateVaultEnvelope :: "jsval \<Rightarrow> (vault_error, unit) result" where
  "validateVaultEnvelope env =
    (if js_get env ''version'' \<noteq> VStr ''shade-encrypted-vault-v1'' then Throw BadVersion
     else if \<not> truthy (js_get env ''vault_id'') \<or> \<not> truthy (js_get env ''privy_user_id'') \<or> \<not> truthy (js_get env ''ciphertext'')
             \<or> js_get (js_get env ''cipher'') ''name'' \<noteq> VStr ''AES-256-GCM'' then Throw MalformedEnvelope
     else case js_get env ''wrappers'' of VArr _ \<Rightarrow> assertNoPlaintextNoteFields env | _ \<Rightarrow> Throw MissingWrappers)"

definition parseVaultEnvelope :: "string \<Rightarrow> (vault_error, jsval) result" where
  "parseVaultEnvelope json =
    (case json_parse json of None \<Rightarrow> Throw NotJson
     | Some env \<Rightarrow> res_bind (validateVaultEnvelope env) (\<lambda>_. Ok env))"

text \<open>On an envelope that has passed validation.\<close>

definition decryptEnvelope :: "webcrypto \<Rightarrow> jsval \<Rightarrow> bytes \<Rightarrow> (vault_error, jsval) result" where
  "decryptEnvelope wc env masterKey =
    decryptNoteVault wc (to_String (js_get env ''ciphertext'')) (to_String (js_get (js_get env ''cipher'') ''iv'')) masterKey
      (js_get env ''aad'')"


section \<open>Recovery wrappers\<close>

definition wrapWithKey :: "webcrypto \<Rightarrow> bytes \<Rightarrow> bytes \<Rightarrow> bytes \<Rightarrow> (vault_error, string) result" where
  "wrapWithKey wc iv wrappingKey masterKey =
    res_bind (aesGcmEncrypt wc iv wrappingKey masterKey None) (\<lambda>(iv, ct). Ok (toB64 (iv @ ct)))"

definition unwrapWithKey :: "webcrypto \<Rightarrow> bytes \<Rightarrow> string \<Rightarrow> (vault_error, bytes) result" where
  "unwrapWithKey wc wrappingKey wrappedKeyB64 =
    res_bind (fromB64 wrappedKeyB64) (\<lambda>blob. aesGcmDecrypt wc wrappingKey (take 12 blob) (drop 12 blob) None)"

record wrap_draws =
  wd_salt :: bytes
  wd_iv :: bytes
  wd_id :: bytes

definition build_wrapper ::
  "webcrypto \<Rightarrow> wrap_draws \<Rightarrow> wrapper_type \<Rightarrow> kdf \<Rightarrow> bool option \<Rightarrow> bytes \<Rightarrow> bytes \<Rightarrow> (string \<times> jsval) list \<Rightarrow> (vault_error, vault_wrapper) result" where
  "build_wrapper wc d ty k diag wk masterKey metadata =
    res_bind (wrapWithKey wc (wd_iv d) wk masterKey) (\<lambda>wrapped.
      Ok \<lparr> vw_id = to_hex (wd_id d), vw_type = ty, vw_active = True, vw_kdf = k, vw_salt = toB64 (wd_salt d),
           vw_wrapped_key = wrapped, vw_diagnostic_only = diag, vw_metadata = metadata \<rparr>)"

definition PBKDF2_ITERS :: nat where
  "PBKDF2_ITERS = 310000"

definition wrapVaultKeyWithPasskeyPrf ::
  "webcrypto \<Rightarrow> wrap_draws \<Rightarrow> bytes \<Rightarrow> bytes \<Rightarrow> (string \<times> jsval) list \<Rightarrow> (vault_error, vault_wrapper) result" where
  "wrapVaultKeyWithPasskeyPrf wc d masterKey prfOutput metadata =
    build_wrapper wc d PasskeyPrf HkdfSha256 None (wc_hkdf wc prfOutput (wd_salt d) ''shade-vault-passkey-prf'') masterKey metadata"

definition unwrapVaultKeyWithPasskeyPrf :: "webcrypto \<Rightarrow> vault_wrapper \<Rightarrow> bytes \<Rightarrow> (vault_error, bytes) result" where
  "unwrapVaultKeyWithPasskeyPrf wc w prfOutput =
    res_bind (fromB64 (vw_salt w)) (\<lambda>salt. unwrapWithKey wc (wc_hkdf wc prfOutput salt ''shade-vault-passkey-prf'') (vw_wrapped_key w))"

definition wrapVaultKeyWithStellarSignature ::
  "webcrypto \<Rightarrow> wrap_draws \<Rightarrow> bytes \<Rightarrow> bytes \<Rightarrow> (string \<times> jsval) list \<Rightarrow> (vault_error, vault_wrapper) result" where
  "wrapVaultKeyWithStellarSignature wc d masterKey signatureBytes metadata =
    build_wrapper wc d StellarEd25519 HkdfSha256 None (wc_hkdf wc signatureBytes (wd_salt d) ''shade-vault-stellar-ed25519'') masterKey metadata"

definition unwrapVaultKeyWithStellarSignature :: "webcrypto \<Rightarrow> vault_wrapper \<Rightarrow> bytes \<Rightarrow> (vault_error, bytes) result" where
  "unwrapVaultKeyWithStellarSignature wc w signatureBytes =
    res_bind (fromB64 (vw_salt w)) (\<lambda>salt. unwrapWithKey wc (wc_hkdf wc signatureBytes salt ''shade-vault-stellar-ed25519'') (vw_wrapped_key w))"

definition wrapVaultKeyWithRecoveryKitPassword ::
  "webcrypto \<Rightarrow> wrap_draws \<Rightarrow> bytes \<Rightarrow> string \<Rightarrow> (string \<times> jsval) list \<Rightarrow> (vault_error, vault_wrapper) result" where
  "wrapVaultKeyWithRecoveryKitPassword wc d masterKey password metadata =
    build_wrapper wc d RecoveryKitPassword Pbkdf2Sha256 None (wc_pbkdf2 wc password (wd_salt d) PBKDF2_ITERS) masterKey metadata"

definition unwrapVaultKeyWithRecoveryKitPassword :: "webcrypto \<Rightarrow> vault_wrapper \<Rightarrow> string \<Rightarrow> (vault_error, bytes) result" where
  "unwrapVaultKeyWithRecoveryKitPassword wc w password =
    res_bind (fromB64 (vw_salt w)) (\<lambda>salt. unwrapWithKey wc (wc_pbkdf2 wc password salt PBKDF2_ITERS) (vw_wrapped_key w))"

definition wrapVaultKeyWithRecoveryFileSecret ::
  "webcrypto \<Rightarrow> wrap_draws \<Rightarrow> bytes \<Rightarrow> bytes \<Rightarrow> (string \<times> jsval) list \<Rightarrow> (vault_error, vault_wrapper) result" where
  "wrapVaultKeyWithRecoveryFileSecret wc d masterKey secret metadata =
    build_wrapper wc d RecoveryFileSecret HkdfSha256 None (wc_hkdf wc secret (wd_salt d) ''shade-vault-recovery-file'') masterKey metadata"

definition unwrapVaultKeyWithRecoveryFileSecret :: "webcrypto \<Rightarrow> vault_wrapper \<Rightarrow> bytes \<Rightarrow> (vault_error, bytes) result" where
  "unwrapVaultKeyWithRecoveryFileSecret wc w secret =
    res_bind (fromB64 (vw_salt w)) (\<lambda>salt. unwrapWithKey wc (wc_hkdf wc secret salt ''shade-vault-recovery-file'') (vw_wrapped_key w))"

record recovery_file =
  rf_vault_id :: string
  rf_created_at :: string
  rf_recovery_file_secret :: string
  rf_wrapper :: vault_wrapper

definition buildRecoveryFile :: "string \<Rightarrow> bytes \<Rightarrow> vault_wrapper \<Rightarrow> string \<Rightarrow> recovery_file" where
  "buildRecoveryFile vaultId secret w now =
    \<lparr> rf_vault_id = vaultId, rf_created_at = now, rf_recovery_file_secret = toB64 secret, rf_wrapper = w \<rparr>"

definition diagnosticWrapVaultKeyWithEvmSignature ::
  "webcrypto \<Rightarrow> wrap_draws \<Rightarrow> bytes \<Rightarrow> bytes \<Rightarrow> (string \<times> jsval) list \<Rightarrow> (vault_error, vault_wrapper) result" where
  "diagnosticWrapVaultKeyWithEvmSignature wc d masterKey signatureBytes metadata =
    build_wrapper wc d EvmSignature HkdfSha256 (Some True) (wc_hkdf wc signatureBytes (wd_salt d) ''shade-vault-evm-diagnostic'') masterKey
      (spread metadata [(''diagnostic_only'', VBool True)])"

definition diagnosticVerifyEvmSignatureStability :: "bytes \<Rightarrow> bytes \<Rightarrow> bool" where
  "diagnosticVerifyEvmSignatureStability sigA sigB = (length sigA = length sigB \<and> list_all (\<lambda>i. sigA ! i = sigB ! i) [0..<length sigA])"


section \<open>Recovery policy\<close>

datatype policy_status = Insufficient | Sufficient | Strong

text \<open>\<open>minWrappers\<close> (\<open>opts.min\<close>) is the number read from the environment, \<open>None\<close> when that is not a number: then no
  comparison with it holds.\<close>

definition evaluateRecoveryPolicy :: "vault_wrapper list \<Rightarrow> bool \<Rightarrow> int option \<Rightarrow> bool \<Rightarrow> policy_status" where
  "evaluateRecoveryPolicy wrappers mainnet minWrappers allowEvmOnly =
    (let active = filter vw_active wrappers;
         nonEvm = filter (\<lambda>w. vw_type w \<noteq> EvmSignature \<and> vw_diagnostic_only w \<noteq> Some True) active;
         strong = list_ex (\<lambda>w. vw_type w = PasskeyPrf \<or> vw_type w = StellarEd25519) active in
     if \<not> allowEvmOnly \<and> length nonEvm = 0 then Insufficient
     else if (case minWrappers of None \<Rightarrow> False | Some m \<Rightarrow> int (length nonEvm) < m) then Insufficient
     else if mainnet then (if length nonEvm \<ge> 2 \<and> strong then Strong else Insufficient)
     else if strong \<and> length nonEvm \<ge> 2 then Strong else Sufficient)"


section \<open>Note bookkeeping (NoteManager)\<close>

definition addNote ::
  "string \<Rightarrow> note_vault \<Rightarrow> string \<Rightarrow> string \<Rightarrow> string \<Rightarrow> note_preimage \<Rightarrow> string option \<Rightarrow> note_vault" where
  "addNote now vault commitment asset_id amount_7dp preimage deposit_id =
    addNoteToVault vault \<lparr> vn_commitment = commitment, vn_asset_id = asset_id, vn_amount_7dp = amount_7dp,
      vn_note_preimage = preimage, vn_deposit_id = deposit_id, vn_status = Prepared, vn_created_at = now \<rparr> now"

definition activate :: "string \<Rightarrow> note_vault \<Rightarrow> string \<Rightarrow> note_vault" where
  "activate now vault commitment = vault \<lparr> nv_updated_at := now,
     nv_notes := map (\<lambda>n. if vn_commitment n = commitment then n \<lparr> vn_status := Active \<rparr> else n) (nv_notes vault) \<rparr>"

definition markSpent :: "string \<Rightarrow> note_vault \<Rightarrow> string \<Rightarrow> note_vault" where
  "markSpent now vault commitment = vault \<lparr> nv_updated_at := now,
     nv_notes := map (\<lambda>n. if vn_commitment n = commitment then n \<lparr> vn_status := Spent \<rparr> else n) (nv_notes vault) \<rparr>"

definition list_notes :: "note_vault \<Rightarrow> note_status option \<Rightarrow> vault_note list" where
  "list_notes vault status = (case status of None \<Rightarrow> nv_notes vault | Some s \<Rightarrow> filter (\<lambda>n. vn_status n = s) (nv_notes vault))"

definition find_note :: "note_vault \<Rightarrow> string \<Rightarrow> vault_note option" where
  "find_note vault commitment = find_first (\<lambda>n. vn_commitment n = commitment) (nv_notes vault)"

text \<open>\<open>None\<close> is the \<open>SyntaxError\<close> of \<open>BigInt\<close> on an amount that is not a number.\<close>

definition totalActive7dp :: "note_vault \<Rightarrow> int option" where
  "totalActive7dp vault =
    fold (\<lambda>n acc. case (acc, big_int_of_string (vn_amount_7dp n)) of (Some s, Some a) \<Rightarrow> Some (s + a) | _ \<Rightarrow> None)
      (filter (\<lambda>n. vn_status n = Active) (nv_notes vault)) (Some 0)"


section \<open>Encoding facts\<close>

lemma b64_char_std: "d < 64 \<Longrightarrow> b64_std (b64_char d)"
proof -
  assume d: "d < 64"
  then have val: "b64_val (b64_char d) = Some d" by simp
  have "b64_char d \<noteq> c" if c: "c = CHR ''-'' \<or> c = CHR ''_''" for c
  proof
    assume "b64_char d = c"
    then have "d = 62 \<or> d = 63" using val c by (auto simp: b64_val_def)
    then show False using \<open>b64_char d = c\<close> c by (auto simp: b64_char_def)
  qed
  then show ?thesis using val by (simp add: b64_std_def)
qed

lemma b64_std_plain: "b64_std c \<Longrightarrow> c \<noteq> CHR ''='' \<and> c \<notin> {CHR '' '', CHR 0x09, CHR 0x0A, CHR 0x0C, CHR 0x0D}"
  by (auto simp: b64_std_def b64_val_def)

definition b64_pad :: "string \<Rightarrow> bool" where
  "b64_pad p = (p = [] \<or> p = ''='' \<or> p = ''=='')"

lemma b64_groups_shape:
  assumes "\<forall>b\<in>set bs. b < 256"
  shows "\<exists>u p. b64_groups bs = u @ p \<and> list_all b64_std u \<and> length (u @ p) mod 4 = 0 \<and> b64_pad p"
  using assms
proof (induction bs rule: b64_groups.induct)
  case (1 a b c bs)
  define n where "n = a * 65536 + b * 256 + c"
  let ?g = "[b64_char (n div 262144), b64_char (n div 4096 mod 64), b64_char (n div 64 mod 64), b64_char (n mod 64)]"
  obtain u p where up: "b64_groups bs = u @ p" "list_all b64_std u" "length (u @ p) mod 4 = 0" "b64_pad p"
  proof -
    have "\<forall>b\<in>set bs. b < 256" using 1(2) by simp
    then have "\<exists>u p. b64_groups bs = u @ p \<and> list_all b64_std u \<and> length (u @ p) mod 4 = 0 \<and> b64_pad p"
      by (intro 1(1)) simp_all
    then show thesis by (elim exE conjE) (rule that)
  qed
  have "n div 262144 < 64" using 1(2) b64_three [of a b c] by (simp add: Let_def n_def)
  then have "list_all b64_std (?g @ u)" using up(2) by (simp add: b64_char_std)
  moreover have "b64_groups (a # b # c # bs) = (?g @ u) @ p" using up(1) by (simp add: Let_def n_def)
  moreover have "length ((?g @ u) @ p) mod 4 = 0" using up(3) by simp
  ultimately show ?case using up(4) by (intro exI [of _ "?g @ u"] exI [of _ p] conjI)
next
  case (2 a b)
  define n where "n = a * 256 + b"
  have "n div 1024 < 64" "n mod 16 * 4 < 64" using 2 b64_two [of a b] by (simp_all add: Let_def n_def)
  then show ?case
    by (intro exI [of _ "[b64_char (n div 1024), b64_char (n div 16 mod 64), b64_char (n mod 16 * 4)]"] exI [of _ "''=''"])
      (simp add: Let_def n_def b64_char_std b64_pad_def)
next
  case (3 a)
  then have "a div 4 < 64" "a mod 4 * 16 < 64" using b64_one [of a] by simp_all
  then show ?case
    by (intro exI [of _ "[b64_char (a div 4), b64_char (a mod 4 * 16)]"] exI [of _ "''==''"]) (simp add: b64_char_std b64_pad_def)
qed (simp add: b64_pad_def)

lemma base64_decode_pad: "b64_pad p \<Longrightarrow> base64_decode (u @ p) = base64_decode u"
proof -
  assume "b64_pad p"
  then have "List.map_filter b64_val p = []" by (auto simp: b64_pad_def List.map_filter_simps)
  moreover have "List.map_filter b64_val (u @ p) = List.map_filter b64_val u @ List.map_filter b64_val p"
    by (simp add: List.map_filter_def)
  ultimately show ?thesis by (simp add: base64_decode_def)
qed

lemma atob_btoa [simp, js_text]: "atob (base64_encode bs) = Some bs"
proof -
  have small: "\<forall>b\<in>set (map unat bs). b < 256"
    using unsigned_less [where 'a = nat and 'b = 8] by auto
  obtain u p where up: "base64_encode bs = u @ p" "list_all b64_std u" "length (u @ p) mod 4 = 0" "b64_pad p"
    using b64_groups_shape [OF small, folded base64_encode_def] by (elim exE conjE) (rule that)
  let ?ns = "\<lambda>c. c \<notin> {CHR '' '', CHR 0x09, CHR 0x0A, CHR 0x0C, CHR 0x0D}"
  have plain: "\<And>c. c \<in> set u \<Longrightarrow> c \<noteq> CHR ''='' \<and> ?ns c"
    using up(2) b64_std_plain by (auto simp: list_all_iff)
  then have f: "filter ?ns (u @ p) = u @ p" using up(4) by (auto simp: filter_id_conv b64_pad_def)
  have "takeWhile (\<lambda>c. c \<noteq> CHR ''='') (u @ p) = u @ takeWhile (\<lambda>c. c \<noteq> CHR ''='') p"
    "dropWhile (\<lambda>c. c \<noteq> CHR ''='') (u @ p) = dropWhile (\<lambda>c. c \<noteq> CHR ''='') p"
    using plain by (simp_all add: takeWhile_append2 dropWhile_append2)
  then have w: "takeWhile (\<lambda>c. c \<noteq> CHR ''='') (u @ p) = u" "dropWhile (\<lambda>c. c \<noteq> CHR ''='') (u @ p) = p"
    using up(4) by (auto simp: b64_pad_def)
  have "length u mod 4 \<noteq> 1"
  proof
    assume "length u mod 4 = 1"
    moreover have "(length u + length p) mod 4 = (length u mod 4 + length p) mod 4" by presburger
    ultimately show False using up(3,4) by (auto simp: b64_pad_def) presburger+
  qed
  moreover have "base64_decode u = bs" using base64_decode_pad [OF up(4), of u] up(1) base64_roundtrip [of bs] by simp
  ultimately show ?thesis
    unfolding atob_def Let_def up(1) f w using up(2,3,4) by (auto simp: b64_pad_def)
qed

lemma fromB64_toB64 [simp]: "fromB64 (toB64 bs) = Ok bs"
  by (simp add: fromB64_def toB64_def)


section \<open>The gates\<close>

fun deep_members :: "jsval \<Rightarrow> (string \<times> jsval) list" where
  "deep_members (VArr vs) = concat (map deep_members vs)"
| "deep_members (VObj ms) = concat (map (\<lambda>m. m # deep_members (snd m)) ms)"
| "deep_members _ = []"

lemma first_some_None [simp]: "first_some xs = None \<longleftrightarrow> (\<forall>x\<in>set xs. x = None)"
  by (induction xs rule: first_some.induct) auto

lemma walk_None: "walk v = None \<longleftrightarrow> (\<forall>m\<in>set (deep_members v). fst m \<notin> set PLAINTEXT_FORBIDDEN)"
proof (induction v rule: walk.induct)
  case (2 ms)
  have "walk (VObj ms) = None \<longleftrightarrow> (\<forall>m\<in>set ms. fst m \<notin> set PLAINTEXT_FORBIDDEN \<and> walk (snd m) = None)"
    unfolding walk.simps(2) first_some_None set_map ball_simps(9) by (intro ball_cong) (simp_all split: if_split)
  also have "\<dots> \<longleftrightarrow> (\<forall>m\<in>set ms. fst m \<notin> set PLAINTEXT_FORBIDDEN \<and> (\<forall>x\<in>set (deep_members (snd m)). fst x \<notin> set PLAINTEXT_FORBIDDEN))"
    using 2 by blast
  finally show ?case by auto
qed auto

lemma redact_members:
  "m \<in> set (deep_members (redactVaultForLogs v)) \<Longrightarrow>
    fst m \<in> set PLAINTEXT_FORBIDDEN \<or> fst m = ''wrapped_key'' \<or> fst m = ''ciphertext'' \<Longrightarrow> snd m = VStr ''[REDACTED]''"
proof (induction v rule: redactVaultForLogs.induct)
  case (2 ms)
  then show ?case by (fastforce split: if_splits)
qed auto


section \<open>Recovery\<close>

text \<open>What WebCrypto documents: AES-256-GCM decrypts what it encrypted under the same key, nonce and additional data, a
  ciphertext carries its 16-byte tag, and the derivations asked for 256 bits give 32 bytes.\<close>

definition webcrypto_ok :: "webcrypto \<Rightarrow> bool" where
  "webcrypto_ok wc = ((\<forall>k iv aad pt. length k = 32 \<longrightarrow>
       (\<exists>ct. wc_encrypt wc k iv aad pt = Some ct \<and> length ct = length pt + 16 \<and> wc_decrypt wc k iv aad ct = Some pt)) \<and>
     (\<forall>ikm salt info. length (wc_hkdf wc ikm salt info) = 32) \<and> (\<forall>pw salt n. length (wc_pbkdf2 wc pw salt n) = 32))"

datatype recovery_secret = SPasskey bytes | SStellar bytes | SPassword string | SFile bytes

fun wrap_with :: "webcrypto \<Rightarrow> wrap_draws \<Rightarrow> bytes \<Rightarrow> recovery_secret \<Rightarrow> (string \<times> jsval) list \<Rightarrow> (vault_error, vault_wrapper) result" where
  "wrap_with wc d mk (SPasskey b) md = wrapVaultKeyWithPasskeyPrf wc d mk b md"
| "wrap_with wc d mk (SStellar b) md = wrapVaultKeyWithStellarSignature wc d mk b md"
| "wrap_with wc d mk (SPassword s) md = wrapVaultKeyWithRecoveryKitPassword wc d mk s md"
| "wrap_with wc d mk (SFile b) md = wrapVaultKeyWithRecoveryFileSecret wc d mk b md"

fun unwrap_with :: "webcrypto \<Rightarrow> vault_wrapper \<Rightarrow> recovery_secret \<Rightarrow> (vault_error, bytes) result" where
  "unwrap_with wc w (SPasskey b) = unwrapVaultKeyWithPasskeyPrf wc w b"
| "unwrap_with wc w (SStellar b) = unwrapVaultKeyWithStellarSignature wc w b"
| "unwrap_with wc w (SPassword s) = unwrapVaultKeyWithRecoveryKitPassword wc w s"
| "unwrap_with wc w (SFile b) = unwrapVaultKeyWithRecoveryFileSecret wc w b"

lemma aes_roundtrip:
  assumes "webcrypto_ok wc" "length k = 32"
  obtains ct where "wc_encrypt wc k iv aad pt = Some ct" "length ct = length pt + 16" "wc_decrypt wc k iv aad ct = Some pt"
  using assms unfolding webcrypto_ok_def by blast

lemma wrap_unwrap:
  assumes "webcrypto_ok wc" "length (wd_iv d) = 12" "length wk = 32"
  shows "\<exists>w. build_wrapper wc d ty k diag wk mk md = Ok w \<and> vw_metadata w = md \<and> vw_salt w = toB64 (wd_salt d) \<and>
    unwrapWithKey wc wk (vw_wrapped_key w) = Ok mk"
proof -
  obtain ct where ct: "wc_encrypt wc wk (wd_iv d) None mk = Some ct" "wc_decrypt wc wk (wd_iv d) None ct = Some mk"
    using aes_roundtrip [OF assms(1,3)] by metis
  have "build_wrapper wc d ty k diag wk mk md = Ok \<lparr> vw_id = to_hex (wd_id d), vw_type = ty, vw_active = True, vw_kdf = k,
      vw_salt = toB64 (wd_salt d), vw_wrapped_key = toB64 (wd_iv d @ ct), vw_diagnostic_only = diag, vw_metadata = md \<rparr>"
    using ct(1) by (simp add: build_wrapper_def wrapWithKey_def aesGcmEncrypt_def)
  moreover have "unwrapWithKey wc wk (toB64 (wd_iv d @ ct)) = Ok mk"
    using ct(2) assms(2) by (simp add: unwrapWithKey_def aesGcmDecrypt_def)
  ultimately show ?thesis by simp
qed

lemmas wrapper_defs = wrapVaultKeyWithPasskeyPrf_def unwrapVaultKeyWithPasskeyPrf_def
  wrapVaultKeyWithStellarSignature_def unwrapVaultKeyWithStellarSignature_def
  wrapVaultKeyWithRecoveryKitPassword_def unwrapVaultKeyWithRecoveryKitPassword_def
  wrapVaultKeyWithRecoveryFileSecret_def unwrapVaultKeyWithRecoveryFileSecret_def

lemma wrap_with_unwraps:
  assumes "webcrypto_ok wc" "length (wd_iv d) = 12"
  shows "\<exists>w. wrap_with wc d mk s md = Ok w \<and> vw_metadata w = md \<and> unwrap_with wc w s = Ok mk"
proof -
  have len: "length (wc_hkdf wc x salt info) = 32" "length (wc_pbkdf2 wc pw salt n) = 32" for x salt info pw n
    using assms(1) by (simp_all add: webcrypto_ok_def)
  show ?thesis
  proof (cases s)
    case (SPasskey b)
    show ?thesis
      using wrap_unwrap [OF assms len(1) [of b "wd_salt d" "''shade-vault-passkey-prf''"], of PasskeyPrf HkdfSha256 None mk md]
      unfolding SPasskey by (elim exE conjE) (simp add: wrapper_defs)
  next
    case (SStellar b)
    show ?thesis
      using wrap_unwrap [OF assms len(1) [of b "wd_salt d" "''shade-vault-stellar-ed25519''"], of StellarEd25519 HkdfSha256 None mk md]
      unfolding SStellar by (elim exE conjE) (simp add: wrapper_defs)
  next
    case (SPassword pw)
    show ?thesis
      using wrap_unwrap [OF assms len(2) [of pw "wd_salt d" PBKDF2_ITERS], of RecoveryKitPassword Pbkdf2Sha256 None mk md]
      unfolding SPassword by (elim exE conjE) (simp add: wrapper_defs)
  next
    case (SFile b)
    show ?thesis
      using wrap_unwrap [OF assms len(1) [of b "wd_salt d" "''shade-vault-recovery-file''"], of RecoveryFileSecret HkdfSha256 None mk md]
      unfolding SFile by (elim exE conjE) (simp add: wrapper_defs)
  qed
qed

lemma json_pure_opt [simp]: "list_all json_pure (map snd (opt_member k v)) \<longleftrightarrow> (case v of None \<Rightarrow> True | Some x \<Rightarrow> json_pure x)"
  by (simp add: opt_member_def split: option.split)

lemma opt_member_keys [simp]: "map fst (opt_member k v) = (case v of None \<Rightarrow> [] | Some _ \<Rightarrow> [k])"
  by (simp add: opt_member_def split: option.split)

lemma vault_value_pure: "json_pure (vault_value v)"
proof -
  have "json_pure (preimage_value p)" for p by (simp add: preimage_value_def)
  then have "json_pure (note_value n)" for n by (simp add: note_value_def split: option.split)
  then show ?thesis by (simp add: vault_value_def list_all_iff)
qed

lemma wrapper_value_pure: "json_pure (VObj (vw_metadata w)) \<Longrightarrow> json_pure (wrapper_value w)"
  by (simp add: wrapper_value_def split: option.split)

lemma envelope_value_pure:
  assumes "list_all (\<lambda>w. json_pure (VObj (vw_metadata w))) (ve_wrappers e)" "\<bar>aad_vault_version (ve_aad e)\<bar> \<le> max_safe"
  shows "json_pure (envelope_value e)"
proof -
  have "json_pure (aad_value (ve_aad e))" using assms(2) by (simp add: aad_value_def)
  moreover have "list_all json_pure (map wrapper_value (ve_wrappers e))"
    using assms(1) by (auto simp: list_all_iff intro: wrapper_value_pure)
  moreover have "json_pure (VNum (NInt 128))" by (simp add: max_safe_def)
  ultimately show ?thesis by (simp add: envelope_value_def)
qed

lemma wrapper_value_clean: "walk (VObj (vw_metadata w)) = None \<Longrightarrow> walk (wrapper_value w) = None"
  by (auto simp: wrapper_value_def opt_member_def PLAINTEXT_FORBIDDEN_def simp del: walk.simps(2) split: option.split)
    (auto simp: PLAINTEXT_FORBIDDEN_def)

lemma envelope_value_clean:
  assumes "list_all (\<lambda>w. walk (VObj (vw_metadata w)) = None) (ve_wrappers e)"
  shows "walk (envelope_value e) = None"
proof -
  have "walk (VArr (map wrapper_value (ve_wrappers e))) = None"
    using assms by (auto simp: list_all_iff intro: wrapper_value_clean)
  moreover have "walk (aad_value a) = None" for a by (simp add: aad_value_def PLAINTEXT_FORBIDDEN_def)
  ultimately show ?thesis by (simp add: envelope_value_def PLAINTEXT_FORBIDDEN_def del: walk.simps(1))
qed

lemma vault_value_rejected: "nv_notes v \<noteq> [] \<Longrightarrow> walk (vault_value v) = Some ''note_preimage''"
proof -
  assume "nv_notes v \<noteq> []"
  then obtain n ns where "nv_notes v = n # ns" by (cases "nv_notes v") auto
  then show ?thesis by (simp add: vault_value_def note_value_def PLAINTEXT_FORBIDDEN_def)
qed


lemma createVaultEnvelope_total:
  assumes "webcrypto_ok wc" "length mk = 32"
  shows "\<exists>env. createVaultEnvelope wc iv vault mk privyUserId origin ws = Ok env"
proof -
  let ?aad = "\<lparr> aad_app = ''Shade Protocol'', aad_origin = origin, aad_vault_id = nv_vault_id vault, aad_privy_user_id = privyUserId, aad_vault_version = 1 \<rparr>"
  obtain ct where "wc_encrypt wc mk iv (Some (AAD_BYTES (aad_value ?aad))) (utf8 (stringify (vault_value vault))) = Some ct"
    by (rule aes_roundtrip [OF assms])
  then show ?thesis by (simp add: createVaultEnvelope_def Let_def encryptNoteVault_def aesGcmEncrypt_def)
qed

lemma created_envelope:
  assumes "webcrypto_ok wc" "length mk = 32" "nv_vault_id vault \<noteq> []" "privyUserId \<noteq> []"
    "list_all (\<lambda>w. json_pure (VObj (vw_metadata w)) \<and> walk (VObj (vw_metadata w)) = None) ws"
    "createVaultEnvelope wc iv vault mk privyUserId origin ws = Ok env"
  shows "json_pure (envelope_value env) \<and> validateVaultEnvelope (envelope_value env) = Ok () \<and>
    decryptEnvelope wc (envelope_value env) mk = Ok (vault_value vault) \<and> ve_wrappers env = ws \<and> ve_vault_id env = nv_vault_id vault"
proof -
  define aad where "aad = \<lparr> aad_app = ''Shade Protocol'', aad_origin = origin, aad_vault_id = nv_vault_id vault,
     aad_privy_user_id = privyUserId, aad_vault_version = 1 \<rparr>"
  let ?ad = "Some (AAD_BYTES (aad_value aad))" and ?pt = "utf8 (stringify (vault_value vault))"
  obtain ct where ct: "wc_encrypt wc mk iv ?ad ?pt = Some ct" "length ct = length ?pt + 16" "wc_decrypt wc mk iv ?ad ct = Some ?pt"
    by (rule aes_roundtrip [OF assms(1,2)])
  have env: "env = \<lparr> ve_vault_id = nv_vault_id vault, ve_privy_user_id = privyUserId, ve_iv = toB64 iv, ve_aad = aad,
     ve_ciphertext = toB64 ct, ve_wrappers = ws \<rparr>"
    using assms(6) ct(1) by (simp add: createVaultEnvelope_def Let_def encryptNoteVault_def aesGcmEncrypt_def aad_def)
  have "json_pure (envelope_value env)"
    using assms(5) by (intro envelope_value_pure) (simp_all add: env aad_def max_safe_def list_all_iff)
  moreover have "walk (envelope_value env) = None"
    using assms(5) by (intro envelope_value_clean) (simp add: env list_all_iff)
  then have "validateVaultEnvelope (envelope_value env) = Ok ()"
    using assms(3,4) ct(2) by (auto simp: validateVaultEnvelope_def assertNoPlaintextNoteFields_def envelope_value_def env toB64_def)
  moreover have "decryptEnvelope wc (envelope_value env) mk = Ok (vault_value vault)"
    using ct(3) json_parse_stringify [OF vault_value_pure, of vault]
    by (simp add: decryptEnvelope_def decryptNoteVault_def envelope_value_def env aesGcmDecrypt_def)
  ultimately show ?thesis by (simp add: env)
qed


section \<open>Properties\<close>

text \<open>A vault survives the loss of the client. Wrap the 256-bit master key with any of the four recovery methods,
  build the envelope, send it to the server as JSON and read it back: the envelope passes validation (so it carries no
  plaintext note field), the same recovery secret unwraps the master key, and the key decrypts the very vault that was encrypted.\<close>

theorem vault_recovery_roundtrip:
  assumes "webcrypto_ok wc" "length mk = 32" "length (wd_iv d) = 12" "nv_vault_id vault \<noteq> []" "privyUserId \<noteq> []"
    "json_pure (VObj md)" "walk (VObj md) = None"
  shows "\<exists>w env. wrap_with wc d mk s md = Ok w \<and> createVaultEnvelope wc iv vault mk privyUserId origin [w] = Ok env \<and>
    parseVaultEnvelope (stringify (envelope_value env)) = Ok (envelope_value env) \<and>
    unwrap_with wc w s = Ok mk \<and> decryptEnvelope wc (envelope_value env) mk = Ok (vault_value vault)"
proof -
  obtain w where w: "wrap_with wc d mk s md = Ok w" "vw_metadata w = md" "unwrap_with wc w s = Ok mk"
    using wrap_with_unwraps [OF assms(1,3), of mk s md] by (elim exE conjE) (rule that)
  obtain env where env: "createVaultEnvelope wc iv vault mk privyUserId origin [w] = Ok env"
    using createVaultEnvelope_total [OF assms(1,2)] by blast
  have clean: "list_all (\<lambda>w. json_pure (VObj (vw_metadata w)) \<and> walk (VObj (vw_metadata w)) = None) [w]"
    using w(2) assms(6,7) by simp
  note good = created_envelope [OF assms(1,2,4,5) clean env]
  then have "parseVaultEnvelope (stringify (envelope_value env)) = Ok (envelope_value env)"
    by (simp add: parseVaultEnvelope_def json_parse_stringify)
  then show ?thesis using w(1,3) env good by blast
qed

definition demo_crypto :: webcrypto where
  "demo_crypto = \<lparr> wc_encrypt = (\<lambda>k iv aad pt. Some (pt @ replicate 16 0)),
     wc_decrypt = (\<lambda>k iv aad ct. Some (take (length ct - 16) ct)),
     wc_hkdf = (\<lambda>ikm salt info. replicate 32 0), wc_pbkdf2 = (\<lambda>pw salt n. replicate 32 0), wc_sha256 = (\<lambda>b. b) \<rparr>"

definition demo_draws :: wrap_draws where
  "demo_draws = \<lparr> wd_salt = replicate 16 1, wd_iv = replicate 12 2, wd_id = replicate 8 3 \<rparr>"

theorem vault_recovery_roundtrip_witness:
  "\<exists>w env. wrap_with demo_crypto demo_draws (replicate 32 7) (SPassword ''pw'') [(''hint'', VStr ''desk'')] = Ok w \<and>
    createVaultEnvelope demo_crypto [9] (createEmptyNoteVault ''v1'' ''now'') (replicate 32 7) ''did:privy:x'' ''shade.app'' [w] = Ok env \<and>
    parseVaultEnvelope (stringify (envelope_value env)) = Ok (envelope_value env) \<and>
    unwrap_with demo_crypto w (SPassword ''pw'') = Ok (replicate 32 7) \<and>
    decryptEnvelope demo_crypto (envelope_value env) (replicate 32 7) = Ok (vault_value (createEmptyNoteVault ''v1'' ''now''))"
proof (rule vault_recovery_roundtrip)
  show "webcrypto_ok demo_crypto" by (simp add: webcrypto_ok_def demo_crypto_def)
qed (simp_all add: demo_draws_def createEmptyNoteVault_def PLAINTEXT_FORBIDDEN_def)

text \<open>The plaintext gate is exact at every depth: it passes a value if and only if no member anywhere in it has a
  forbidden key, so a decrypted vault with a note in it is always refused; and in a value redacted
  for the logs every member with a forbidden key, a wrapped key or a ciphertext reads \<open>[REDACTED]\<close>.\<close>

theorem plaintext_gate_exact:
  "(assertNoPlaintextNoteFields v = Ok () \<longleftrightarrow> fst ` set (deep_members v) \<inter> set PLAINTEXT_FORBIDDEN = {}) \<and>
   (nv_notes vault = [] \<or> assertNoPlaintextNoteFields (vault_value vault) = Throw (PlaintextField ''note_preimage'')) \<and>
   filter (\<lambda>m. (fst m \<in> set PLAINTEXT_FORBIDDEN \<or> fst m = ''wrapped_key'' \<or> fst m = ''ciphertext'') \<and> snd m \<noteq> VStr ''[REDACTED]'')
     (deep_members (redactVaultForLogs v)) = []"
proof (intro conjI)
  show "assertNoPlaintextNoteFields v = Ok () \<longleftrightarrow> fst ` set (deep_members v) \<inter> set PLAINTEXT_FORBIDDEN = {}"
    using walk_None [of v] by (auto simp: assertNoPlaintextNoteFields_def split: option.splits)
  show "nv_notes vault = [] \<or> assertNoPlaintextNoteFields (vault_value vault) = Throw (PlaintextField ''note_preimage'')"
    using vault_value_rejected [of vault] by (cases "nv_notes vault = []") (simp_all add: assertNoPlaintextNoteFields_def)
  show "filter (\<lambda>m. (fst m \<in> set PLAINTEXT_FORBIDDEN \<or> fst m = ''wrapped_key'' \<or> fst m = ''ciphertext'') \<and> snd m \<noteq> VStr ''[REDACTED]'')
     (deep_members (redactVaultForLogs v)) = []"
    using redact_members [of _ v] by (auto simp: filter_empty_conv)
qed


text \<open>The rank of a policy result.\<close>

fun policy_rank :: "policy_status \<Rightarrow> nat" where
  "policy_rank Insufficient = 0"
| "policy_rank Sufficient = 1"
| "policy_rank Strong = 2"

text \<open>The recovery policy only improves when wrappers are added; revoked wrappers never count; on
  mainnet it is either strong (two non-EVM wrappers, one of them a passkey or Stellar key) or insufficient; and when at least
  one wrapper is required, EVM signature and diagnostic wrappers alone are never enough, whatever
  the flag \<open>allowEvmOnly\<close> says.\<close>

theorem recovery_policy_sound:
  "policy_rank (evaluateRecoveryPolicy ws mainnet mn allow) \<le> policy_rank (evaluateRecoveryPolicy (ws @ ws') mainnet mn allow) \<and>
   evaluateRecoveryPolicy (filter vw_active ws) mainnet mn allow = evaluateRecoveryPolicy ws mainnet mn allow \<and>
   evaluateRecoveryPolicy ws True mn allow \<noteq> Sufficient \<and>
   (filter (\<lambda>w. vw_active w \<and> vw_type w \<noteq> EvmSignature \<and> vw_diagnostic_only w \<noteq> Some True) ws = [] \<and> 1 \<le> m \<longrightarrow>
      evaluateRecoveryPolicy ws mainnet (Some m) allow = Insufficient)"
proof (intro conjI impI)
  let ?good = "\<lambda>w. vw_type w \<noteq> EvmSignature \<and> vw_diagnostic_only w \<noteq> Some True"
  let ?n = "length (filter ?good (filter vw_active ws))" and ?n' = "length (filter ?good (filter vw_active (ws @ ws')))"
  have "?n \<le> ?n'" by simp
  then show "policy_rank (evaluateRecoveryPolicy ws mainnet mn allow) \<le> policy_rank (evaluateRecoveryPolicy (ws @ ws') mainnet mn allow)"
    unfolding evaluateRecoveryPolicy_def Let_def by (auto split: option.split simp del: filter_filter length_0_conv)
  show "evaluateRecoveryPolicy (filter vw_active ws) mainnet mn allow = evaluateRecoveryPolicy ws mainnet mn allow"
    by (simp add: evaluateRecoveryPolicy_def)
  show "evaluateRecoveryPolicy ws True mn allow \<noteq> Sufficient"
    by (simp add: evaluateRecoveryPolicy_def Let_def split: option.split)
  assume a: "filter (\<lambda>w. vw_active w \<and> ?good w) ws = [] \<and> 1 \<le> m"
  then have "filter ?good (filter vw_active ws) = []" by (auto simp: filter_empty_conv)
  then show "evaluateRecoveryPolicy ws mainnet (Some m) allow = Insufficient"
    using a unfolding evaluateRecoveryPolicy_def Let_def by simp
qed

definition demo_wrapper :: "wrapper_type \<Rightarrow> vault_wrapper" where
  "demo_wrapper ty = \<lparr> vw_id = ''w'', vw_type = ty, vw_active = True, vw_kdf = HkdfSha256, vw_salt = [], vw_wrapped_key = [],
     vw_diagnostic_only = None, vw_metadata = [] \<rparr>"

theorem recovery_policy_sound_witness:
  "evaluateRecoveryPolicy [demo_wrapper EvmSignature] False (Some 1) True = Insufficient \<and>
   evaluateRecoveryPolicy [demo_wrapper EvmSignature, demo_wrapper PasskeyPrf] False (Some 1) True = Sufficient"
  using recovery_policy_sound [of "[demo_wrapper EvmSignature]" False "Some 1" True "[]" 1]
  by (simp add: demo_wrapper_def evaluateRecoveryPolicy_def Let_def)

datatype note_op = OpAdd string string string note_preimage "string option" | OpActivate string | OpSpend string

fun run_note_op :: "string \<Rightarrow> note_op \<Rightarrow> note_vault \<Rightarrow> note_vault" where
  "run_note_op now (OpAdd c asset amt pre dep) v = addNote now v c asset amt pre dep"
| "run_note_op now (OpActivate c) v = activate now v c"
| "run_note_op now (OpSpend c) v = markSpent now v c"

text \<open>The ledger a vault stands for: amount and status per commitment.\<close>

definition vault_ledger :: "note_vault \<Rightarrow> string \<Rightarrow> (string \<times> note_status) option" where
  "vault_ledger v c = map_option (\<lambda>n. (vn_amount_7dp n, vn_status n)) (find_note v c)"

fun ledger_op :: "note_op \<Rightarrow> (string \<Rightarrow> (string \<times> note_status) option) \<Rightarrow> (string \<Rightarrow> (string \<times> note_status) option)" where
  "ledger_op (OpAdd c asset amt pre dep) l = l(c \<mapsto> (amt, Prepared))"
| "ledger_op (OpActivate c) l = l(c := map_option (\<lambda>(a, s). (a, Active)) (l c))"
| "ledger_op (OpSpend c) l = l(c := map_option (\<lambda>(a, s). (a, Spent)) (l c))"

lemma find_first_filter_other:
  "(\<And>x. p x \<Longrightarrow> q x) \<Longrightarrow> find_first p (filter q xs) = find_first p xs"
  by (induction xs) auto

lemma find_first_snoc: "find_first p (xs @ [y]) = (case find_first p xs of Some x \<Rightarrow> Some x | None \<Rightarrow> if p y then Some y else None)"
  by (induction xs) auto

lemma find_first_map_same: "(\<And>x. p (f x) = p x) \<Longrightarrow> find_first p (map f xs) = map_option f (find_first p xs)"
  by (induction xs) auto

lemma ledger_step: "vault_ledger (run_note_op now op v) = ledger_op op (vault_ledger v)"
proof (cases op)
  case (OpAdd c asset amt pre dep)
  have "find_first (\<lambda>n. vn_commitment n = c') (filter (\<lambda>n. vn_commitment n \<noteq> c) (nv_notes v)) =
      (if c' = c then None else find_first (\<lambda>n. vn_commitment n = c') (nv_notes v))" for c'
    by (auto intro: find_first_filter_other)
  then show ?thesis
    by (auto simp: OpAdd vault_ledger_def find_note_def addNote_def addNoteToVault_def find_first_snoc fun_eq_iff
        split: option.split simp del: find_first_None)
next
  case (OpActivate c)
  then show ?thesis
    by (auto simp: vault_ledger_def find_note_def activate_def find_first_map_same fun_eq_iff map_option_case dest: find_first_Some
        split: option.split simp del: find_first_None)
next
  case (OpSpend c)
  then show ?thesis
    by (auto simp: vault_ledger_def find_note_def markSpent_def find_first_map_same fun_eq_iff map_option_case dest: find_first_Some
        split: option.split simp del: find_first_None)
qed

lemma commitments_distinct_step:
  "distinct (map vn_commitment (nv_notes v)) \<Longrightarrow> distinct (map vn_commitment (nv_notes (run_note_op now op v)))"
proof (cases op)
  case (OpAdd c asset amt pre dep)
  assume "distinct (map vn_commitment (nv_notes v))"
  then show ?thesis by (auto simp: OpAdd addNote_def addNoteToVault_def distinct_map_filter)
next
  case (OpActivate c)
  have e: "map vn_commitment (nv_notes (activate now v c)) = map vn_commitment (nv_notes v)"
    by (auto simp: activate_def)
  show "distinct (map vn_commitment (nv_notes v)) \<Longrightarrow> ?thesis" by (simp only: OpActivate run_note_op.simps e)
next
  case (OpSpend c)
  have e: "map vn_commitment (nv_notes (markSpent now v c)) = map vn_commitment (nv_notes v)"
    by (auto simp: markSpent_def)
  show "distinct (map vn_commitment (nv_notes v)) \<Longrightarrow> ?thesis" by (simp only: OpSpend run_note_op.simps e)
qed


lemma run_notes:
  "distinct (map vn_commitment (nv_notes v)) \<Longrightarrow>
    distinct (map vn_commitment (nv_notes (fold (run_note_op now) ops v))) \<and>
    vault_ledger (fold (run_note_op now) ops v) = fold ledger_op ops (vault_ledger v)"
  by (induction ops arbitrary: v) (simp_all add: ledger_step commitments_distinct_step)

definition amount_of :: "string \<Rightarrow> int" where
  "amount_of s = the (big_int_of_string s)"

lemma total_fold:
  assumes "list_all (\<lambda>n. big_int_of_string (vn_amount_7dp n) \<noteq> None) ns"
  shows "fold (\<lambda>n acc. case (acc, big_int_of_string (vn_amount_7dp n)) of (Some s, Some a) \<Rightarrow> Some (s + a) | _ \<Rightarrow> None) ns (Some s0) =
    Some (s0 + (\<Sum>n\<leftarrow>ns. amount_of (vn_amount_7dp n)))"
  using assms by (induction ns arbitrary: s0) (auto simp: amount_of_def)

lemma ledger_in:
  assumes "distinct (map vn_commitment (nv_notes v))"
  shows "vault_ledger v c = Some (a, s) \<longleftrightarrow> (\<exists>n\<in>set (nv_notes v). vn_commitment n = c \<and> vn_amount_7dp n = a \<and> vn_status n = s)"
proof
  assume "vault_ledger v c = Some (a, s)"
  then show "\<exists>n\<in>set (nv_notes v). vn_commitment n = c \<and> vn_amount_7dp n = a \<and> vn_status n = s"
    by (auto simp: vault_ledger_def find_note_def dest: find_first_Some)
next
  assume "\<exists>n\<in>set (nv_notes v). vn_commitment n = c \<and> vn_amount_7dp n = a \<and> vn_status n = s"
  then obtain n where n: "n \<in> set (nv_notes v)" "vn_commitment n = c" "vn_amount_7dp n = a" "vn_status n = s" by blast
  have "find_note v c = Some n"
    unfolding find_note_def by (rule find_first_unique) (use n assms in \<open>auto simp: distinct_map inj_on_def\<close>)
  then show "vault_ledger v c = Some (a, s)" using n by (simp add: vault_ledger_def)
qed

text \<open>C33: the note bookkeeping implements a ledger. After any sequence of adding, activating and spending notes on a new
  vault no commitment occurs twice, the vault stands for the ledger with the same
  operations applied, and, all amounts being numbers, the active total is the sum of
  the amounts of exactly the active commitments of that ledger.\<close>

theorem note_manager_refines_ledger:
  assumes "v = fold (run_note_op now) ops (createEmptyNoteVault vid t0)" "l = fold ledger_op ops (\<lambda>_. None)"
    "\<forall>c a s. l c = Some (a, s) \<longrightarrow> big_int_of_string a \<noteq> None"
  shows "distinct (map vn_commitment (nv_notes v)) \<and> vault_ledger v = l \<and>
    totalActive7dp v = Some (\<Sum>c | \<exists>a. l c = Some (a, Active). amount_of (fst (the (l c))))"
proof -
  have "vault_ledger (createEmptyNoteVault vid t0) = (\<lambda>_. None)"
    by (simp add: vault_ledger_def find_note_def createEmptyNoteVault_def fun_eq_iff)
  then have d: "distinct (map vn_commitment (nv_notes v))" and l: "vault_ledger v = l"
    using run_notes [of "createEmptyNoteVault vid t0" now ops] assms(1,2) by (simp_all add: createEmptyNoteVault_def)
  let ?act = "filter (\<lambda>n. vn_status n = Active) (nv_notes v)"
  have entry: "l (vn_commitment n) = Some (vn_amount_7dp n, vn_status n)" if "n \<in> set (nv_notes v)" for n
    using ledger_in [OF d] that l by blast
  then have "list_all (\<lambda>n. big_int_of_string (vn_amount_7dp n) \<noteq> None) ?act"
    using assms(3) by (fastforce simp: list_all_iff)
  then have "totalActive7dp v = Some (\<Sum>n\<leftarrow>?act. amount_of (vn_amount_7dp n))"
    unfolding totalActive7dp_def by (subst total_fold) simp_all
  also have "(\<Sum>n\<leftarrow>?act. amount_of (vn_amount_7dp n)) = (\<Sum>c\<leftarrow>map vn_commitment ?act. amount_of (fst (the (l c))))"
  proof -
    have "map (\<lambda>n. amount_of (vn_amount_7dp n)) ?act = map (\<lambda>n. amount_of (fst (the (l (vn_commitment n))))) ?act"
      by (rule map_cong) (auto simp: entry)
    then show ?thesis by (simp only: map_map comp_def)
  qed
  also have "\<dots> = (\<Sum>c\<in>set (map vn_commitment ?act). amount_of (fst (the (l c))))"
    using d by (intro sum_list_distinct_conv_sum_set) (simp add: distinct_map_filter)
  also have "set (map vn_commitment ?act) = {c. \<exists>a. l c = Some (a, Active)}"
    using ledger_in [OF d] l by auto
  finally show ?thesis using d l by simp
qed

definition demo_preimage :: note_preimage where
  "demo_preimage = generateNotePreimage (\<lambda>i. [of_nat i])"

definition demo_note_ops :: "note_op list" where
  "demo_note_ops = [OpAdd ''c1'' ''USDC'' ''5'' demo_preimage None, OpActivate ''c1'', OpAdd ''c2'' ''USDC'' ''7'' demo_preimage None,
     OpActivate ''c2'', OpSpend ''c1'']"

theorem note_manager_refines_ledger_witness:
  "totalActive7dp (fold (run_note_op ''t'') demo_note_ops (createEmptyNoteVault ''v'' ''t0'')) = Some 7"
proof -
  define l where "l = fold ledger_op demo_note_ops (\<lambda>_. None)"
  have l: "l = (\<lambda>_. None)(''c1'' \<mapsto> (''5'', Spent), ''c2'' \<mapsto> (''7'', Active))"
    by (auto simp: l_def demo_note_ops_def fun_eq_iff)
  have amts: "big_int_of_string ''5'' = Some 5" "big_int_of_string ''7'' = Some 7" by code_simp+
  have "\<forall>c a s. l c = Some (a, s) \<longrightarrow> big_int_of_string a \<noteq> None" using amts by (auto simp: l split: if_splits)
  from note_manager_refines_ledger [OF refl l_def this, of "''t''" "''v''" "''t0''"]
  have "totalActive7dp (fold (run_note_op ''t'') demo_note_ops (createEmptyNoteVault ''v'' ''t0'')) =
    Some (\<Sum>c | \<exists>a. l c = Some (a, Active). amount_of (fst (the (l c))))" by blast
  moreover have "{c. \<exists>a. l c = Some (a, Active)} = {''c2''}" by (auto simp: l split: if_splits)
  ultimately show ?thesis using amts by (simp add: l amount_of_def)
qed

end
