(* ===== verification/Store.thy ===== *)
theory Store
  imports JobQueue Settler
begin

text \<open>
  The API's persistent state, \<open>apps/api/src/db.ts\<close>. The protocol tables that the code
  addresses by name (\<open>getById\<close>, \<open>insertGeneric\<close>, \<open>listByUser\<close>, \<open>setRowUser\<close>) hold rows of
  column-value pairs, oldest first, under the columns and constraints of \<open>db/migrations\<close>; the
  tables with their own statements are records. Column values are kept as the statement passes them. Row ids and
  the clock are the counter \<open>st_next\<close> and the argument \<open>now\<close>. A thrown error is its HTTP status,
  500 when it has none, with a message.
\<close>

named_theorems store_simps \<open>unfolding store statements\<close>

type_synonym row = "(string \<times> jsval) list"

type_synonym api_err = "nat \<times> string"

record transition_row =
  t_entity_type :: string
  t_entity_id :: string
  t_to_state :: string
  t_tx_hash :: "string option"

record activity_row =
  ac_user_id :: "nat option"
  ac_event_type :: string
  ac_entity_type :: "string option"
  ac_entity_id :: "string option"
  ac_tx_hash :: "string option"
  ac_metadata :: jsval

record user_row =
  u_id :: nat
  u_privy_user_id :: "string option"
  u_display_name :: "string option"
  u_email :: "string option"
  u_avatar_url :: "string option"
  u_primary_auth_method :: "string option"
  u_last_login_at :: "int option"
  u_created_at :: int

record wallet_row =
  w_id :: nat
  w_user_id :: nat
  w_privy_user_id :: "string option"
  w_wallet_type :: string
  w_wallet_source :: "string option"
  w_chain :: string
  w_address :: string
  w_privy_wallet_id :: "string option"
  w_is_primary :: bool
  w_verified_at :: "int option"
  w_created_at :: int

record nonce_row =
  n_id :: nat
  n_wallet_type :: string
  n_address :: string
  n_nonce :: string
  n_message :: string
  n_consumed_at :: "int option"
  n_expires_at :: int
  n_created_at :: int

record user_session_row =
  us_user_id :: nat
  us_session_hash :: string
  us_expires_at :: int
  us_revoked_at :: "int option"

record vault_row =
  v_user_id :: nat
  v_privy_user_id :: string
  v_vault_id :: string
  v_envelope :: jsval
  v_ciphertext :: string
  v_aad :: jsval
  v_backup_status :: string
  v_recovery_policy_status :: string
  v_last_backup_verified_at :: "int option"
  v_last_restored_at :: "int option"
  v_last_backup_verification :: "jsval option"
  v_created_at :: int

record wrapper_row =
  wr_id :: nat
  wr_vault_id :: string
  wr_user_id :: nat
  wr_wrapper_type :: string
  wr_metadata :: jsval

record backup_row =
  bk_user_id :: nat
  bk_commitment :: string
  bk_encrypted_payload :: string
  bk_encryption_version :: string

record report_row =
  rp_report_id :: string
  rp_user_id :: nat
  rp_time_range_from :: "string option"
  rp_time_range_to :: "string option"
  rp_note_commitments :: "string list"
  rp_disclosed_nullifiers :: "string list"
  rp_quote_id :: jsval
  rp_policy_id :: jsval
  rp_anchor_id :: "string option"
  rp_amount_disclosed :: bool
  rp_proof_links :: "string list"
  rp_service_pubkey :: string
  rp_service_signature :: string
  rp_encrypted_attachment :: "(string \<times> string \<times> string) option"

text \<open>\<open>st_findings\<close>: the codes of \<open>root_audit_findings\<close>; \<open>st_spent\<close>: \<open>nullifier_spends\<close>; \<open>st_payouts\<close>: settlement and anchor
  transaction of \<open>anchor_payouts\<close>.\<close>

record store =
  st_next :: nat
  st_tables :: "string \<Rightarrow> row list"
  st_transitions :: "transition_row list"
  st_activity :: "activity_row list"
  st_users :: "user_row list"
  st_profiles :: "(nat \<times> jsval) list"
  st_wallets :: "wallet_row list"
  st_nonces :: "nonce_row list"
  st_sessions :: "user_session_row list"
  st_vaults :: "vault_row list"
  st_wrappers :: "wrapper_row list"
  st_backups :: "backup_row list"
  st_reports :: "report_row list"
  st_findings :: "string list"
  st_spent :: "string list"
  st_payouts :: "(string \<times> string option) list"


section \<open>Protocol tables\<close>

text \<open>A user id, a UUID in the database, is a counter here; as a value it is its text.\<close>

definition uid_value :: "nat \<Rightarrow> jsval" where
  "uid_value u = VStr (nat_to_string u)"

definition col :: "row \<Rightarrow> string \<Rightarrow> jsval" where
  "col r k = (case map_of r k of None \<Rightarrow> VNull | Some v \<Rightarrow> v)"

text \<open>Columns, columns that must be given, unique columns and references, from the migrations. References to \<open>users\<close> are
  left out: a user id passed in comes from that table.\<close>

record table_schema =
  ts_columns :: "string list"
  ts_required :: "string list"
  ts_unique :: "string list"
  ts_refs :: "(string \<times> string \<times> string) list"

definition schema :: "string \<Rightarrow> table_schema" where
  "schema t =
    (if t = ''proof_jobs'' then
       \<lparr> ts_columns = [''proof_job_id'', ''idempotency_key'', ''proof_type'', ''public_inputs_hash'', ''artifact_path'', ''status'',
           ''error'', ''created_at'', ''updated_at'', ''user_id''],
         ts_required = [''proof_job_id'', ''idempotency_key'', ''proof_type'', ''public_inputs_hash'', ''status''],
         ts_unique = [''proof_job_id'', ''idempotency_key''], ts_refs = [] \<rparr>
     else if t = ''withdrawals'' then
       \<lparr> ts_columns = [''withdrawal_id'', ''idempotency_key'', ''nullifier'', ''amount_usdc_7dp'', ''recipient'', ''relayer_fee'',
           ''deadline_ledger'', ''proof_job_id'', ''tx_hash'', ''state'', ''created_at'', ''user_id''],
         ts_required = [''withdrawal_id'', ''idempotency_key'', ''nullifier'', ''amount_usdc_7dp'', ''recipient'', ''relayer_fee'',
           ''deadline_ledger'', ''state''],
         ts_unique = [''withdrawal_id'', ''idempotency_key''], ts_refs = [(''proof_job_id'', ''proof_jobs'', ''proof_job_id'')] \<rparr>
     else if t = ''intents'' then
       \<lparr> ts_columns = [''intent_hash'', ''idempotency_key'', ''encrypted_payload'', ''public_commitment'', ''expiry_ledger'', ''policy_id'',
           ''user_signature'', ''state'', ''created_at'', ''user_id'', ''mpc_session_id''],
         ts_required = [''intent_hash'', ''idempotency_key'', ''encrypted_payload'', ''public_commitment'', ''expiry_ledger'', ''policy_id'',
           ''user_signature'', ''state''],
         ts_unique = [''intent_hash'', ''idempotency_key''], ts_refs = [] \<rparr>
     else if t = ''quotes'' then
       \<lparr> ts_columns = [''quote_id'', ''intent_hash'', ''quote_hash'', ''solver_id'', ''payload'', ''quote_signature'', ''valid_until_ledger'',
           ''state'', ''created_at''],
         ts_required = [''quote_id'', ''intent_hash'', ''quote_hash'', ''solver_id'', ''payload'', ''quote_signature'', ''valid_until_ledger'', ''state''],
         ts_unique = [''quote_id'', ''quote_hash''], ts_refs = [(''intent_hash'', ''intents'', ''intent_hash'')] \<rparr>
     else if t = ''quote_acceptances'' then
       \<lparr> ts_columns = [''acceptance_id'', ''quote_id'', ''intent_hash'', ''user_signature_hash'', ''accepted_at'', ''user_id''],
         ts_required = [''acceptance_id'', ''quote_id'', ''intent_hash'', ''user_signature_hash''],
         ts_unique = [''acceptance_id'', ''quote_id''],
         ts_refs = [(''quote_id'', ''quotes'', ''quote_id''), (''intent_hash'', ''intents'', ''intent_hash'')] \<rparr>
     else if t = ''solver_inventory_locks'' then
       \<lparr> ts_columns = [''lock_id'', ''quote_id'', ''solver_id'', ''lock_hash'', ''amount'', ''asset'', ''expires_at_ledger'', ''state'', ''created_at''],
         ts_required = [''lock_id'', ''quote_id'', ''solver_id'', ''lock_hash'', ''amount'', ''asset'', ''expires_at_ledger'', ''state''],
         ts_unique = [''lock_id''], ts_refs = [(''quote_id'', ''quotes'', ''quote_id'')] \<rparr>
     else if t = ''fills'' then
       \<lparr> ts_columns = [''fill_id'', ''quote_id'', ''fill_receipt_hash'', ''destination_tx_hash'', ''amount'', ''recipient'', ''state'', ''created_at''],
         ts_required = [''fill_id'', ''quote_id'', ''fill_receipt_hash'', ''amount'', ''recipient'', ''state''],
         ts_unique = [''fill_id''], ts_refs = [(''quote_id'', ''quotes'', ''quote_id'')] \<rparr>
     else if t = ''settlements'' then
       \<lparr> ts_columns = [''settlement_id'', ''intent_hash'', ''quote_id'', ''fill_id'', ''proof_job_id'', ''nullifier'', ''stellar_tx_hash'',
           ''state'', ''created_at'', ''user_id''],
         ts_required = [''settlement_id'', ''intent_hash'', ''quote_id'', ''nullifier'', ''state''],
         ts_unique = [''settlement_id''],
         ts_refs = [(''intent_hash'', ''intents'', ''intent_hash''), (''quote_id'', ''quotes'', ''quote_id''), (''fill_id'', ''fills'', ''fill_id''),
           (''proof_job_id'', ''proof_jobs'', ''proof_job_id'')] \<rparr>
     else if t = ''cctp_exits'' then
       \<lparr> ts_columns = [''exit_id'', ''idempotency_key'', ''nullifier'', ''destination_domain'', ''destination_recipient'', ''amount_usdc_7dp'',
           ''relayer_fee'', ''proof_job_id'', ''burn_tx_hash'', ''mint_tx_hash'', ''state'', ''created_at'', ''user_id''],
         ts_required = [''exit_id'', ''idempotency_key'', ''nullifier'', ''destination_domain'', ''destination_recipient'', ''amount_usdc_7dp'',
           ''relayer_fee'', ''state''],
         ts_unique = [''exit_id'', ''idempotency_key''], ts_refs = [(''proof_job_id'', ''proof_jobs'', ''proof_job_id'')] \<rparr>
     else \<lparr> ts_columns = [], ts_required = [], ts_unique = [], ts_refs = [] \<rparr>)"

definition add_row :: "string \<Rightarrow> row \<Rightarrow> store \<Rightarrow> store" where
  "add_row t r st = st \<lparr> st_tables := (st_tables st)(t := st_tables st t @ [r]) \<rparr>"

text \<open>What the database does on \<open>insert into t(...) values (...) on conflict do nothing\<close>: the documented checks of Postgres against the
  constraints of \<open>db/migrations\<close>. This stands for the database, not for code of the API, which only issues the statement.\<close>

definition insert_row :: "string \<Rightarrow> row \<Rightarrow> (store, api_err, unit) stmt" where
  "insert_row t r st =
    (let s = schema t in
     if \<not> list_all (\<lambda>k. k \<in> set (ts_columns s)) (map fst r) then (Throw (500, ''undefined column''), st)
     else if \<not> list_all (\<lambda>k. col r k \<noteq> VNull) (ts_required s) then (Throw (500, ''not-null violation''), st)
     else if list_ex (\<lambda>r0. list_ex (\<lambda>k. col r k \<noteq> VNull \<and> col r0 k = col r k) (ts_unique s)) (st_tables st t) then (Ok (), st)
     else if \<not> list_all (\<lambda>(k, t', k'). col r k = VNull \<or> list_ex (\<lambda>r0. col r0 k' = col r k) (st_tables st t')) (ts_refs s)
     then (Throw (500, ''foreign-key violation''), st)
     else (Ok (), add_row t r st))"

definition insert_tables :: "string list" where
  "insert_tables = [''proof_jobs'', ''withdrawals'', ''intents'', ''quotes'', ''quote_acceptances'', ''solver_inventory_locks'',
     ''fills'', ''settlements'', ''cctp_exits'']"

definition insertGeneric :: "string \<Rightarrow> row \<Rightarrow> (store, api_err, unit) stmt" where
  "insertGeneric table r st =
    (if table \<notin> set insert_tables
     then (Throw (500, ''unsafe table '' @ table), st)
     else insert_row table r st)"

definition getById :: "string \<Rightarrow> string \<Rightarrow> string \<Rightarrow> store \<Rightarrow> (api_err, row option) result" where
  "getById table idColumn ident st =
    (if table \<notin> set [''cctp_deposits'', ''proof_jobs'', ''withdrawals'', ''intents'', ''quotes'', ''settlements'', ''cctp_exits'',
          ''note_commitments'']
     then Throw (500, ''unsafe table '' @ table)
     else Ok (find_first (\<lambda>r. col r idColumn = VStr ident) (st_tables st table)))"

text \<open>Newest first, at most 200 rows.\<close>

definition backup_columns :: "backup_row \<Rightarrow> row" where
  "backup_columns b = [(''user_id'', uid_value (bk_user_id b)), (''commitment'', VStr (bk_commitment b)),
     (''encrypted_payload'', VStr (bk_encrypted_payload b)), (''encryption_version'', VStr (bk_encryption_version b))]"

definition rows_of :: "string \<Rightarrow> store \<Rightarrow> row list" where
  "rows_of t st = (if t = ''encrypted_note_backups'' then map backup_columns (st_backups st) else st_tables st t)"

definition listByUser :: "string \<Rightarrow> nat \<Rightarrow> store \<Rightarrow> (api_err, row list) result" where
  "listByUser table userId st =
    (if table \<notin> set [''cctp_deposits'', ''note_commitments'', ''withdrawals'', ''intents'', ''settlements'', ''cctp_exits'',
          ''encrypted_note_backups'']
     then Throw (500, ''unsafe table '' @ table)
     else Ok (take 200 (rev (filter (\<lambda>r. col r ''user_id'' = uid_value userId) (rows_of table st)))))"

definition set_cols :: "string \<Rightarrow> (row \<Rightarrow> bool) \<Rightarrow> row \<Rightarrow> store \<Rightarrow> store" where
  "set_cols t p upd st = st \<lparr> st_tables := (st_tables st)(t := map (\<lambda>r. if p r then spread r upd else r) (st_tables st t)) \<rparr>"

definition setRowUser :: "string \<Rightarrow> string \<Rightarrow> string \<Rightarrow> nat \<Rightarrow> store \<Rightarrow> store" where
  "setRowUser table idColumn ident userId st =
    (if table \<notin> set [''cctp_deposits'', ''withdrawals'', ''intents'', ''settlements'', ''cctp_exits''] then st
     else set_cols table (\<lambda>r. col r idColumn = VStr ident) [(''user_id'', uid_value userId)] st)"

definition transition :: "string \<Rightarrow> string \<Rightarrow> string \<Rightarrow> string option \<Rightarrow> store \<Rightarrow> store" where
  "transition entityType entityId toState txHash st = st \<lparr> st_transitions := st_transitions st @
     [\<lparr> t_entity_type = entityType, t_entity_id = entityId, t_to_state = toState, t_tx_hash = txHash \<rparr>] \<rparr>"

definition logActivity ::
  "nat option \<Rightarrow> string \<Rightarrow> string option \<Rightarrow> string option \<Rightarrow> string option \<Rightarrow> jsval \<Rightarrow> store \<Rightarrow> store" where
  "logActivity userId event_type entity_type entity_id tx_hash metadata st = st \<lparr> st_activity := st_activity st @
     [\<lparr> ac_user_id = userId, ac_event_type = event_type, ac_entity_type = entity_type, ac_entity_id = entity_id,
        ac_tx_hash = tx_hash, ac_metadata = metadata \<rparr>] \<rparr>"

definition listActivity :: "nat \<Rightarrow> nat \<Rightarrow> store \<Rightarrow> activity_row list" where
  "listActivity userId limit st = take limit (rev (filter (\<lambda>a. ac_user_id a = Some userId) (st_activity st)))"

definition criticalRootMismatchCount :: "store \<Rightarrow> nat" where
  "criticalRootMismatchCount st = length (filter (\<lambda>c. c = ''ROOT_MISMATCH_CRITICAL'') (st_findings st))"

definition isNullifierSpent :: "string \<Rightarrow> store \<Rightarrow> bool" where
  "isNullifierSpent n st = (n \<in> set (st_spent st))"


section \<open>Deposits\<close>

text \<open>The older insert, by idempotency key.\<close>

definition upsertDeposit ::
  "string \<Rightarrow> string \<Rightarrow> int \<Rightarrow> int \<Rightarrow> string \<Rightarrow> string \<Rightarrow> string \<Rightarrow> string \<Rightarrow> string \<Rightarrow> string \<Rightarrow> string \<Rightarrow> (store, api_err, unit) stmt" where
  "upsertDeposit depositId key sourceDomain destinationDomain assetId amount6 amount7 commitment payloadHash policyId state st =
    (if list_ex (\<lambda>r. col r ''idempotency_key'' = VStr key) (st_tables st ''cctp_deposits'') then (Ok (), st)
     else if list_ex (\<lambda>r. col r ''deposit_id'' = VStr depositId) (st_tables st ''cctp_deposits'')
     then (Throw (500, ''unique violation''), st)
     else (Ok (), add_row ''cctp_deposits''
       [(''deposit_id'', VStr depositId), (''idempotency_key'', VStr key), (''source_domain'', VNum (NInt sourceDomain)),
        (''destination_domain'', VNum (NInt destinationDomain)), (''asset_id'', VStr assetId), (''amount_usdc_6dp'', VStr amount6),
        (''amount_usdc_7dp'', VStr amount7), (''commitment'', VStr commitment), (''encrypted_note_payload_hash'', VStr payloadHash),
        (''policy_id'', VStr policyId), (''state'', VStr state)] st))"

record user_deposit =
  ud_depositId :: string
  ud_idempotencyKey :: string
  ud_userId :: nat
  ud_sourceChain :: string
  ud_sourceWalletAddress :: string
  ud_vaultId :: string
  ud_sourceDomain :: int
  ud_destinationDomain :: int
  ud_assetId :: string
  ud_amount6 :: string
  ud_amount7Max :: string
  ud_commitment :: string
  ud_encryptedNotePayloadHash :: string
  ud_policyId :: string

definition createUserDeposit :: "user_deposit \<Rightarrow> (store, api_err, unit) stmt" where
  "createUserDeposit d st =
    (if list_ex (\<lambda>r. col r ''deposit_id'' = VStr (ud_depositId d)) (st_tables st ''cctp_deposits'') then (Ok (), st)
     else if list_ex (\<lambda>r. col r ''idempotency_key'' = VStr (ud_idempotencyKey d)) (st_tables st ''cctp_deposits'')
     then (Throw (500, ''unique violation''), st)
     else (Ok (), add_row ''cctp_deposits''
       [(''deposit_id'', VStr (ud_depositId d)), (''idempotency_key'', VStr (ud_idempotencyKey d)), (''user_id'', uid_value (ud_userId d)),
        (''source_chain'', VStr (ud_sourceChain d)), (''source_wallet_address'', VStr (ud_sourceWalletAddress d)),
        (''vault_id'', VStr (ud_vaultId d)), (''source_domain'', VNum (NInt (ud_sourceDomain d))),
        (''destination_domain'', VNum (NInt (ud_destinationDomain d))), (''asset_id'', VStr (ud_assetId d)),
        (''amount_usdc_6dp'', VStr (ud_amount6 d)), (''amount_usdc_7dp'', VStr (ud_amount7Max d)), (''commitment'', VStr (ud_commitment d)),
        (''encrypted_note_payload_hash'', VStr (ud_encryptedNotePayloadHash d)), (''policy_id'', VStr (ud_policyId d)),
        (''state'', VStr ''prepared'')] st))"

definition getDepositForUser :: "nat \<Rightarrow> string \<Rightarrow> store \<Rightarrow> row option" where
  "getDepositForUser userId depositId st =
    find_first (\<lambda>r. col r ''deposit_id'' = VStr depositId \<and> col r ''user_id'' = uid_value userId) (st_tables st ''cctp_deposits'')"

definition setDepositBurnTx :: "string \<Rightarrow> string \<Rightarrow> store \<Rightarrow> store" where
  "setDepositBurnTx depositId burnTxHash st =
    set_cols ''cctp_deposits'' (\<lambda>r. col r ''deposit_id'' = VStr depositId)
      [(''source_tx_hash'', VStr burnTxHash), (''state'', VStr ''burn_submitted'')] st"


section \<open>Users, wallets and sessions\<close>

definition lower_char :: "char \<Rightarrow> char" where
  "lower_char c = (let n = of_char c :: nat in if 65 \<le> n \<and> n \<le> 90 then char_of (n + 32) else c)"

definition lower :: "string \<Rightarrow> string" where
  "lower s = map lower_char s"

definition touch_login :: "int \<Rightarrow> nat \<Rightarrow> store \<Rightarrow> store" where
  "touch_login now uid st = st \<lparr> st_users := map (\<lambda>u. if u_id u = uid then u \<lparr> u_last_login_at := Some now \<rparr> else u) (st_users st) \<rparr>"

definition new_user :: "int \<Rightarrow> string option \<Rightarrow> string option \<Rightarrow> string option \<Rightarrow> store \<Rightarrow> nat \<times> store" where
  "new_user now privy email method st =
    (let uid = st_next st in
     (uid, st \<lparr> st_next := Suc uid, st_users := st_users st @
        [\<lparr> u_id = uid, u_privy_user_id = privy, u_display_name = None, u_email = email, u_avatar_url = None,
           u_primary_auth_method = method, u_last_login_at = Some now, u_created_at = now \<rparr>],
        st_profiles := st_profiles st @ [(uid, VObj [])] \<rparr>))"

definition upsertUserByPrivyId :: "int \<Rightarrow> string \<Rightarrow> store \<Rightarrow> nat \<times> store" where
  "upsertUserByPrivyId now privyUserId st =
    (case find_first (\<lambda>u. u_privy_user_id u = Some privyUserId) (st_users st) of
       Some u \<Rightarrow> (u_id u, touch_login now (u_id u) st)
     | None \<Rightarrow> new_user now (Some privyUserId) None (Some ''privy'') st)"

definition userOwnsWallet :: "nat \<Rightarrow> string \<Rightarrow> string option \<Rightarrow> store \<Rightarrow> bool" where
  "userOwnsWallet userId address chain st =
    list_ex (\<lambda>w. w_user_id w = userId \<and> lower (w_address w) = lower address \<and>
      (case chain of None \<Rightarrow> True | Some c \<Rightarrow> c = [] \<or> w_chain w = c)) (st_wallets st)"

definition createNonce :: "int \<Rightarrow> string \<Rightarrow> string \<Rightarrow> string \<Rightarrow> string \<Rightarrow> int \<Rightarrow> store \<Rightarrow> store" where
  "createNonce now walletType address nonce message expiresAt st = st \<lparr> st_next := Suc (st_next st), st_nonces := st_nonces st @
     [\<lparr> n_id = st_next st, n_wallet_type = walletType, n_address = address, n_nonce = nonce, n_message = message,
        n_consumed_at = None, n_expires_at = expiresAt, n_created_at = now \<rparr>] \<rparr>"

definition live_nonce :: "int \<Rightarrow> string \<Rightarrow> string \<Rightarrow> string \<Rightarrow> nonce_row \<Rightarrow> bool" where
  "live_nonce now walletType address nonce n =
    (n_wallet_type n = walletType \<and> n_address n = address \<and> n_nonce n = nonce \<and> n_consumed_at n = None \<and> n_expires_at n > now)"

text \<open>The newest live nonce is consumed and its message returned.\<close>

definition consumeNonce :: "int \<Rightarrow> string \<Rightarrow> string \<Rightarrow> string \<Rightarrow> store \<Rightarrow> string option \<times> store" where
  "consumeNonce now walletType address nonce st =
    (case sort_key (\<lambda>n. - n_created_at n) (filter (live_nonce now walletType address nonce) (st_nonces st)) of
       [] \<Rightarrow> (None, st)
     | n # _ \<Rightarrow> (Some (n_message n), st \<lparr> st_nonces :=
         map (\<lambda>x. if n_id x = n_id n then x \<lparr> n_consumed_at := Some now \<rparr> else x) (st_nonces st) \<rparr>))"

definition upsertUserByWallet :: "int \<Rightarrow> string \<Rightarrow> string \<Rightarrow> string \<Rightarrow> store \<Rightarrow> nat \<times> store" where
  "upsertUserByWallet now walletType chain address st =
    (case find_first (\<lambda>w. w_wallet_type w = walletType \<and> w_address w = address) (st_wallets st) of
       Some w \<Rightarrow> (w_user_id w, touch_login now (w_user_id w) st)
     | None \<Rightarrow>
         let (uid, st1) = new_user now None None None st in
         (uid, st1 \<lparr> st_next := Suc (st_next st1), st_wallets := st_wallets st1 @
           [\<lparr> w_id = st_next st1, w_user_id = uid, w_privy_user_id = None, w_wallet_type = walletType, w_wallet_source = None,
              w_chain = chain, w_address = address, w_privy_wallet_id = None, w_is_primary = True, w_verified_at = Some now,
              w_created_at = now \<rparr>] \<rparr>))"

definition createSession :: "nat \<Rightarrow> string \<Rightarrow> int \<Rightarrow> (store, api_err, unit) stmt" where
  "createSession userId sessionHash expiresAt st =
    (if list_ex (\<lambda>s. us_session_hash s = sessionHash) (st_sessions st) then (Throw (500, ''unique violation''), st)
     else (Ok (), st \<lparr> st_sessions := st_sessions st @
       [\<lparr> us_user_id = userId, us_session_hash = sessionHash, us_expires_at = expiresAt, us_revoked_at = None \<rparr>] \<rparr>))"

definition userIdForSession :: "int \<Rightarrow> string \<Rightarrow> store \<Rightarrow> nat option" where
  "userIdForSession now sessionHash st =
    map_option us_user_id (find_first (\<lambda>s. us_session_hash s = sessionHash \<and> us_revoked_at s = None \<and> us_expires_at s > now) (st_sessions st))"

definition revokeSession :: "int \<Rightarrow> string \<Rightarrow> store \<Rightarrow> store" where
  "revokeSession now sessionHash st = st \<lparr> st_sessions :=
     map (\<lambda>s. if us_session_hash s = sessionHash then s \<lparr> us_revoked_at := Some now \<rparr> else s) (st_sessions st) \<rparr>"

definition listWallets :: "nat \<Rightarrow> store \<Rightarrow> wallet_row list" where
  "listWallets userId st = sort_key w_created_at (filter (\<lambda>w. w_user_id w = userId) (st_wallets st))"

definition getUser :: "nat \<Rightarrow> store \<Rightarrow> (user_row \<times> jsval option \<times> wallet_row list) option" where
  "getUser userId st =
    (case find_first (\<lambda>u. u_id u = userId) (st_users st) of None \<Rightarrow> None
     | Some u \<Rightarrow> Some (u, map_of (st_profiles st) userId, listWallets userId st))"

record linked_wallet =
  lw_wallet_type :: string
  lw_wallet_source :: "string option"
  lw_chain :: string
  lw_address :: string
  lw_privy_wallet_id :: "string option"

text \<open>\<open>on conflict (wallet_type, address) do update\<close>: the row changes hands.\<close>

definition sync_wallet :: "int \<Rightarrow> nat \<Rightarrow> string \<Rightarrow> linked_wallet \<Rightarrow> store \<Rightarrow> store" where
  "sync_wallet now userId privyUserId lw st =
    (let src = (case lw_wallet_source lw of None \<Rightarrow> ''external'' | Some s \<Rightarrow> s) in
     if list_ex (\<lambda>w. w_wallet_type w = lw_wallet_type lw \<and> w_address w = lw_address lw) (st_wallets st)
     then st \<lparr> st_wallets := map (\<lambda>w. if w_wallet_type w = lw_wallet_type lw \<and> w_address w = lw_address lw
        then w \<lparr> w_user_id := userId, w_privy_user_id := Some privyUserId, w_wallet_source := Some src, w_chain := lw_chain lw,
               w_privy_wallet_id := lw_privy_wallet_id lw, w_verified_at := Some now \<rparr> else w) (st_wallets st) \<rparr>
     else st \<lparr> st_next := Suc (st_next st), st_wallets := st_wallets st @
        [\<lparr> w_id = st_next st, w_user_id = userId, w_privy_user_id = Some privyUserId, w_wallet_type = lw_wallet_type lw,
           w_wallet_source = Some src, w_chain = lw_chain lw, w_address = lw_address lw, w_privy_wallet_id = lw_privy_wallet_id lw,
           w_is_primary = False, w_verified_at = Some now, w_created_at = now \<rparr>] \<rparr>)"

definition syncPrivyWallets :: "int \<Rightarrow> nat \<Rightarrow> string \<Rightarrow> linked_wallet list \<Rightarrow> store \<Rightarrow> nat \<times> store" where
  "syncPrivyWallets now userId privyUserId wallets st = (length wallets, fold (sync_wallet now userId privyUserId) wallets st)"

record me_update =
  me_display_name :: "string option"
  me_email :: "string option"
  me_avatar_url :: "string option"
  me_preferences :: "jsval option"

definition updateUser :: "nat \<Rightarrow> me_update \<Rightarrow> store \<Rightarrow> store" where
  "updateUser userId f st =
    (let st1 = st \<lparr> st_users := map (\<lambda>u. if u_id u = userId then u \<lparr>
            u_display_name := (if me_display_name f = None then u_display_name u else me_display_name f),
            u_email := (if me_email f = None then u_email u else me_email f),
            u_avatar_url := (if me_avatar_url f = None then u_avatar_url u else me_avatar_url f) \<rparr> else u) (st_users st) \<rparr> in
     case me_preferences f of None \<Rightarrow> st1
     | Some p \<Rightarrow> st1 \<lparr> st_profiles := map (\<lambda>(u, q). if u = userId then (u, p) else (u, q)) (st_profiles st1) \<rparr>)"

text \<open>On a conflict only the chain is updated; the wallet stays with its owner and its id is returned.\<close>

definition addWallet :: "int \<Rightarrow> nat \<Rightarrow> string \<Rightarrow> string \<Rightarrow> string \<Rightarrow> store \<Rightarrow> nat \<times> store" where
  "addWallet now userId walletType chain address st =
    (case find_first (\<lambda>w. w_wallet_type w = walletType \<and> w_address w = address) (st_wallets st) of
       Some w \<Rightarrow> (w_id w, st \<lparr> st_wallets := map (\<lambda>x. if w_wallet_type x = walletType \<and> w_address x = address
                   then x \<lparr> w_chain := chain \<rparr> else x) (st_wallets st) \<rparr>)
     | None \<Rightarrow> (st_next st, st \<lparr> st_next := Suc (st_next st), st_wallets := st_wallets st @
           [\<lparr> w_id = st_next st, w_user_id = userId, w_privy_user_id = None, w_wallet_type = walletType, w_wallet_source = None,
              w_chain = chain, w_address = address, w_privy_wallet_id = None, w_is_primary = False, w_verified_at = None,
              w_created_at = now \<rparr>] \<rparr>))"

definition deleteWallet :: "nat \<Rightarrow> nat \<Rightarrow> store \<Rightarrow> bool \<times> store" where
  "deleteWallet userId walletId st =
    (let hit = (\<lambda>w. w_id w = walletId \<and> w_user_id w = userId \<and> \<not> w_is_primary w) in
     (list_ex hit (st_wallets st), st \<lparr> st_wallets := filter (\<lambda>w. \<not> hit w) (st_wallets st) \<rparr>))"


section \<open>Note vaults\<close>

definition userOwnsVault :: "nat \<Rightarrow> string \<Rightarrow> store \<Rightarrow> bool" where
  "userOwnsVault userId vaultId st = list_ex (\<lambda>v. v_user_id v = userId \<and> v_vault_id v = vaultId) (st_vaults st)"

record vault_input =
  vi_envelope :: jsval
  vi_ciphertext :: string
  vi_aad :: jsval
  vi_recoveryPolicyStatus :: string

definition put_vault :: "vault_input \<Rightarrow> vault_row \<Rightarrow> vault_row" where
  "put_vault i v = v \<lparr> v_envelope := vi_envelope i, v_ciphertext := vi_ciphertext i, v_aad := vi_aad i,
     v_recovery_policy_status := vi_recoveryPolicyStatus i \<rparr>"

text \<open>\<open>on conflict (vault_id) do update\<close>: whoever owns the row.\<close>

definition createNoteVault :: "int \<Rightarrow> nat \<Rightarrow> string \<Rightarrow> string \<Rightarrow> vault_input \<Rightarrow> store \<Rightarrow> store" where
  "createNoteVault now userId privyUserId vaultId i st =
    (if list_ex (\<lambda>v. v_vault_id v = vaultId) (st_vaults st)
     then st \<lparr> st_vaults := map (\<lambda>v. if v_vault_id v = vaultId then put_vault i v else v) (st_vaults st) \<rparr>
     else st \<lparr> st_vaults := st_vaults st @
       [\<lparr> v_user_id = userId, v_privy_user_id = privyUserId, v_vault_id = vaultId, v_envelope = vi_envelope i,
          v_ciphertext = vi_ciphertext i, v_aad = vi_aad i, v_backup_status = ''created'',
          v_recovery_policy_status = vi_recoveryPolicyStatus i, v_last_backup_verified_at = None, v_last_restored_at = None,
          v_last_backup_verification = None, v_created_at = now \<rparr>] \<rparr>)"

definition listNoteVaults :: "nat \<Rightarrow> store \<Rightarrow> vault_row list" where
  "listNoteVaults userId st = sort_key (\<lambda>v. - v_created_at v) (filter (\<lambda>v. v_user_id v = userId) (st_vaults st))"

definition listNoteVaultsForRecovery :: "nat \<Rightarrow> string option \<Rightarrow> store \<Rightarrow> vault_row list" where
  "listNoteVaultsForRecovery userId vaultId st =
    filter (\<lambda>v. case vaultId of None \<Rightarrow> True | Some i \<Rightarrow> i = [] \<or> v_vault_id v = i) (listNoteVaults userId st)"

definition getNoteVault :: "nat \<Rightarrow> string \<Rightarrow> store \<Rightarrow> vault_row option" where
  "getNoteVault userId vaultId st = find_first (\<lambda>v. v_user_id v = userId \<and> v_vault_id v = vaultId) (st_vaults st)"

definition update_vaults :: "nat \<Rightarrow> string \<Rightarrow> (vault_row \<Rightarrow> vault_row) \<Rightarrow> store \<Rightarrow> bool \<times> store" where
  "update_vaults userId vaultId f st =
    (userOwnsVault userId vaultId st,
     st \<lparr> st_vaults := map (\<lambda>v. if v_user_id v = userId \<and> v_vault_id v = vaultId then f v else v) (st_vaults st) \<rparr>)"

definition updateNoteVault :: "nat \<Rightarrow> string \<Rightarrow> vault_input \<Rightarrow> store \<Rightarrow> bool \<times> store" where
  "updateNoteVault userId vaultId i = update_vaults userId vaultId (put_vault i)"

definition setVaultBackupStatus :: "int \<Rightarrow> nat \<Rightarrow> string \<Rightarrow> string \<Rightarrow> store \<Rightarrow> bool \<times> store" where
  "setVaultBackupStatus now userId vaultId status = update_vaults userId vaultId (\<lambda>v.
     if status = ''verified'' then v \<lparr> v_backup_status := status, v_last_backup_verified_at := Some now \<rparr>
     else if status = ''restored'' then v \<lparr> v_backup_status := status, v_last_restored_at := Some now \<rparr>
     else v \<lparr> v_backup_status := status \<rparr>)"

definition setVaultBackupVerified :: "int \<Rightarrow> nat \<Rightarrow> string \<Rightarrow> jsval \<Rightarrow> store \<Rightarrow> bool \<times> store" where
  "setVaultBackupVerified now userId vaultId verification = update_vaults userId vaultId (\<lambda>v.
     v \<lparr> v_backup_status := ''verified'', v_last_backup_verified_at := Some now, v_last_backup_verification := Some verification \<rparr>)"

definition policy_ok :: "string \<Rightarrow> bool" where
  "policy_ok s = (s = ''sufficient'' \<or> s = ''strong'')"

text \<open>Ready flag, backup status and recovery policy.\<close>

definition vaultDepositReady :: "nat \<Rightarrow> string \<Rightarrow> store \<Rightarrow> (bool \<times> string \<times> string) option" where
  "vaultDepositReady userId vaultId st =
    map_option (\<lambda>v. (v_backup_status v = ''verified'' \<and> policy_ok (v_recovery_policy_status v), v_backup_status v,
       v_recovery_policy_status v)) (getNoteVault userId vaultId st)"

definition setVaultRecoveryPolicy :: "string \<Rightarrow> string \<Rightarrow> store \<Rightarrow> store" where
  "setVaultRecoveryPolicy vaultId status st = st \<lparr> st_vaults :=
     map (\<lambda>v. if v_vault_id v = vaultId then v \<lparr> v_recovery_policy_status := status \<rparr> else v) (st_vaults st) \<rparr>"

definition listVaultWrappers :: "string \<Rightarrow> store \<Rightarrow> wrapper_row list" where
  "listVaultWrappers vaultId st = filter (\<lambda>w. wr_vault_id w = vaultId) (st_wrappers st)"

definition addVaultWrapper :: "nat \<Rightarrow> string \<Rightarrow> string \<Rightarrow> jsval \<Rightarrow> (store, api_err, nat) stmt" where
  "addVaultWrapper userId vaultId wrapperType metadata st =
    (if \<not> list_ex (\<lambda>v. v_vault_id v = vaultId) (st_vaults st) then (Throw (500, ''foreign-key violation''), st)
     else (Ok (st_next st), st \<lparr> st_next := Suc (st_next st), st_wrappers := st_wrappers st @
       [\<lparr> wr_id = st_next st, wr_vault_id = vaultId, wr_user_id = userId, wr_wrapper_type = wrapperType, wr_metadata = metadata \<rparr>] \<rparr>))"

definition deleteVaultWrapper :: "nat \<Rightarrow> string \<Rightarrow> nat \<Rightarrow> store \<Rightarrow> bool \<times> store" where
  "deleteVaultWrapper userId vaultId wrapperId st =
    (let hit = (\<lambda>w. wr_id w = wrapperId \<and> wr_vault_id w = vaultId \<and> wr_user_id w = userId) in
     (list_ex hit (st_wrappers st), st \<lparr> st_wrappers := filter (\<lambda>w. \<not> hit w) (st_wrappers st) \<rparr>))"

definition addNoteBackup :: "nat \<Rightarrow> string \<Rightarrow> string \<Rightarrow> string \<Rightarrow> store \<Rightarrow> store" where
  "addNoteBackup userId commitment payload version st =
    (if list_ex (\<lambda>b. bk_user_id b = userId \<and> bk_commitment b = commitment) (st_backups st)
     then st \<lparr> st_backups := map (\<lambda>b. if bk_user_id b = userId \<and> bk_commitment b = commitment
            then b \<lparr> bk_encrypted_payload := payload \<rparr> else b) (st_backups st) \<rparr>
     else st \<lparr> st_backups := st_backups st @ [\<lparr> bk_user_id = userId, bk_commitment = commitment,
            bk_encrypted_payload = payload, bk_encryption_version = version \<rparr>] \<rparr>)"


section \<open>RFQ and reports\<close>

record rfq_lifecycle =
  lc_intent :: "row option"
  lc_quote :: "row option"
  lc_accepted :: bool
  lc_fill :: "row option"

text \<open>The fill is the newest one of the quote.\<close>

definition rfqLifecycle :: "string \<Rightarrow> string \<Rightarrow> store \<Rightarrow> rfq_lifecycle" where
  "rfqLifecycle intentHash quoteId st =
    \<lparr> lc_intent = find_first (\<lambda>r. col r ''intent_hash'' = VStr intentHash) (st_tables st ''intents''),
      lc_quote = find_first (\<lambda>r. col r ''quote_id'' = VStr quoteId) (st_tables st ''quotes''),
      lc_accepted = list_ex (\<lambda>r. col r ''quote_id'' = VStr quoteId) (st_tables st ''quote_acceptances''),
      lc_fill = find_first (\<lambda>r. col r ''quote_id'' = VStr quoteId) (rev (st_tables st ''fills'')) \<rparr>"

definition listQuotesByIntent :: "string \<Rightarrow> store \<Rightarrow> row list" where
  "listQuotesByIntent intentHash st = filter (\<lambda>r. col r ''intent_hash'' = VStr intentHash) (st_tables st ''quotes'')"

definition executeFill :: "string \<Rightarrow> string \<Rightarrow> store \<Rightarrow> bool \<times> store" where
  "executeFill fillId destinationTxHash st =
    (list_ex (\<lambda>r. col r ''fill_id'' = VStr fillId) (st_tables st ''fills''),
     set_cols ''fills'' (\<lambda>r. col r ''fill_id'' = VStr fillId)
       [(''destination_tx_hash'', VStr destinationTxHash), (''state'', VStr ''EXECUTED'')] st)"

definition getOwnedSettlements :: "nat \<Rightarrow> string list \<Rightarrow> store \<Rightarrow> row list" where
  "getOwnedSettlements userId ids st =
    (if ids = [] then []
     else filter (\<lambda>r. col r ''user_id'' = uid_value userId \<and> list_ex (\<lambda>i. col r ''settlement_id'' = VStr i) ids)
       (st_tables st ''settlements''))"

definition getOwnedNoteCommitments :: "nat \<Rightarrow> string list \<Rightarrow> store \<Rightarrow> row list" where
  "getOwnedNoteCommitments userId cs st =
    (if cs = [] then []
     else filter (\<lambda>r. col r ''user_id'' = uid_value userId \<and> list_ex (\<lambda>c. col r ''commitment'' = VStr c) cs)
       (st_tables st ''note_commitments''))"

definition getAnchorIdsForSettlements :: "string list \<Rightarrow> store \<Rightarrow> string list" where
  "getAnchorIdsForSettlements ids st =
    (if ids = [] then []
     else remdups (List.map_filter (\<lambda>(s, a). if s \<in> set ids then a else None) (st_payouts st)))"

definition insertViewKeyReport :: "report_row \<Rightarrow> (store, api_err, unit) stmt" where
  "insertViewKeyReport r st =
    (if list_ex (\<lambda>x. rp_report_id x = rp_report_id r) (st_reports st) then (Throw (500, ''unique violation''), st)
     else (Ok (), st \<lparr> st_reports := st_reports st @ [r] \<rparr>))"

definition getViewKeyReport :: "nat \<Rightarrow> string \<Rightarrow> store \<Rightarrow> report_row option" where
  "getViewKeyReport userId reportId st = find_first (\<lambda>r. rp_report_id r = reportId \<and> rp_user_id r = userId) (st_reports st)"

end
