(* ===== verification/Privy.thy ===== *)
theory Privy
  imports Store NoteVault
begin

text \<open>
  Authentication: the Privy access token check of \<open>packages/auth-privy/src/index.ts\<close> and the wallet
  login and sessions of \<open>apps/api/src/auth.ts\<close>. ECDSA, address recovery, Ed25519 and SHA-256 are parameters; \<open>None\<close> is a
  call that throws. \<open>es256\<close> selects the verification key by the \<open>kid\<close> of the token header and
  verifies a signature over the signing input.
\<close>


section \<open>Text helpers\<close>

fun split_on :: "char \<Rightarrow> string \<Rightarrow> string list" where
  "split_on d [] = [[]]"
| "split_on d (c # cs) =
    (if c = d then [] # split_on d cs
     else case split_on d cs of p # ps \<Rightarrow> (c # p) # ps | [] \<Rightarrow> [[c]])"

definition hex_byte :: "string \<Rightarrow> nat option" where
  "hex_byte s = (case s of [a, b] \<Rightarrow> (case (hex_val a, hex_val b) of (Some x, Some y) \<Rightarrow> Some (16 * x + y) | _ \<Rightarrow> None) | _ \<Rightarrow> None)"

text \<open>The value of \<open>%XX\<close> at the head of a text.\<close>

definition escape_at :: "string \<Rightarrow> nat option" where
  "escape_at s = (case s of c # cs \<Rightarrow> if c = CHR ''%'' then hex_byte (take 2 cs) else None | [] \<Rightarrow> None)"

definition utf8_tail_ok :: "nat \<Rightarrow> nat list \<Rightarrow> bool" where
  "utf8_tail_ok b0 bs = (list_all (\<lambda>b. 128 \<le> b \<and> b < 192) bs \<and>
     (b0 = 224 \<longrightarrow> 160 \<le> hd bs) \<and> (b0 = 237 \<longrightarrow> hd bs < 160) \<and> (b0 = 240 \<longrightarrow> 144 \<le> hd bs) \<and> (b0 = 244 \<longrightarrow> hd bs < 144))"

text \<open>\<open>decodeURIComponent\<close>; \<open>None\<close> is the \<open>URIError\<close>. Text is kept in UTF-8, so an escape stands for its byte, and
  only whole UTF-8 sequences are accepted.\<close>

function decode_uri :: "string \<Rightarrow> string option" where
  "decode_uri [] = Some []"
| "decode_uri (c # cs) =
    (if c \<noteq> CHR ''%'' then map_option (\<lambda>r. c # r) (decode_uri cs)
     else case escape_at (c # cs) of
       None \<Rightarrow> None
     | Some b \<Rightarrow>
         if b < 128 then map_option (\<lambda>r. char_of b # r) (decode_uri (drop 2 cs))
         else if b < 194 \<or> b > 244 then None
         else let k = (if b < 224 then 1 else if b < 240 then 2 else 3);
                  more = map (\<lambda>i. escape_at (drop (2 + 3 * i) cs)) [0..<k] in
           if list_all (\<lambda>x. x \<noteq> None) more \<and> utf8_tail_ok b (map the more)
           then map_option (\<lambda>r. char_of b # map (\<lambda>x. char_of (the x)) more @ r) (decode_uri (drop (2 + 3 * k) cs))
           else None)"
  by pat_completeness auto
termination by (relation "measure length") auto

text \<open>A cookie of the \<open>Cookie\<close> header; the first one with that name and a non-empty value counts.\<close>

fun find_cookie :: "string \<Rightarrow> string list \<Rightarrow> string option option" where
  "find_cookie name [] = Some None"
| "find_cookie name (p # ps) =
    (let kv = split_on (CHR ''='') (js_trim p) in
     if hd kv = name \<and> length kv > 1 \<and> kv ! 1 \<noteq> []
     then (case decode_uri (kv ! 1) of None \<Rightarrow> None | Some v \<Rightarrow> Some (Some v))
     else find_cookie name ps)"

record request =
  rq_authorization :: "string option"
  rq_cookie :: "string option"
  rq_idempotency_key :: "string option"

text \<open>The bearer token of the header, else the cookie; outer \<open>None\<close> is the \<open>URIError\<close> of a malformed cookie.\<close>

definition read_token :: "string \<Rightarrow> request \<Rightarrow> string option option" where
  "read_token cookieName rq =
    (case rq_authorization rq of
       Some a \<Rightarrow> if take 7 a = ''Bearer '' then Some (Some (js_trim (drop 7 a)))
                 else (case rq_cookie rq of None \<Rightarrow> Some None | Some c \<Rightarrow> find_cookie cookieName (split_on (CHR '';'') c))
     | None \<Rightarrow> (case rq_cookie rq of None \<Rightarrow> Some None | Some c \<Rightarrow> find_cookie cookieName (split_on (CHR '';'') c)))"


section \<open>Privy access tokens\<close>

definition extractPrivyAccessToken :: "request \<Rightarrow> string option option" where
  "extractPrivyAccessToken rq = read_token ''privy-token'' rq"

definition b64urlToBytes :: "string \<Rightarrow> bytes option" where
  "b64urlToBytes s = atob (map (\<lambda>c. if c = CHR ''-'' then CHR ''+'' else if c = CHR ''_'' then CHR ''/'' else c) s
     @ drop ((length s + 3) mod 4) ''==='')"

datatype jwt_error =
    MalformedJwt
  | BadEncoding
  | UnexpectedAlg jsval
  | KeyUnavailable
  | InvalidSignature
  | BadIssuer
  | AudienceMismatch
  | TokenExpired

record privy_claims =
  pc_userId :: jsval
  pc_appId :: jsval
  pc_expiration :: jsval

definition b64url_json :: "string \<Rightarrow> (jwt_error, jsval) result" where
  "b64url_json s = (case b64urlToBytes s of None \<Rightarrow> Throw BadEncoding
     | Some bs \<Rightarrow> (case json_parse (utf8_decode bs) of None \<Rightarrow> Throw BadEncoding | Some v \<Rightarrow> Ok v))"

text \<open>\<open>x <= n\<close> of a number and an integer; a comparison with \<open>NaN\<close> is false.\<close>

fun num_le_int :: "jsnum \<Rightarrow> int \<Rightarrow> bool" where
  "num_le_int (NInt i) n = (i \<le> n)"
| "num_le_int NaN n = False"
| "num_le_int (NFrac s) n =
    (let neg = (take 1 s = ''-''); t = (if neg then drop 1 s else s); ip = takeWhile is_digit t in
     case parse_frac (dropWhile is_digit t) of
       Some (fp, r) \<Rightarrow>
         (case (parse_exp r, parse_nat (ip @ fp)) of
            (Some (e, _), Some m) \<Rightarrow>
              (let v = (if neg then - int m else int m); e' = e - int (length fp) in
               if 0 \<le> e' then v * 10 ^ nat e' \<le> n else v \<le> n * 10 ^ nat (- e'))
          | _ \<Rightarrow> s = ''-Infinity'')
     | None \<Rightarrow> s = ''-Infinity'')"

definition verifyPrivyAccessToken ::
  "(jsval \<Rightarrow> bytes \<Rightarrow> bytes \<Rightarrow> bool option) \<Rightarrow> string option \<Rightarrow> int \<Rightarrow> string \<Rightarrow> (jwt_error, privy_claims) result" where
  "verifyPrivyAccessToken es256 appId now token =
    (case split_on (CHR ''.'') token of
       [headerB64, payloadB64, sigB64] \<Rightarrow>
         res_bind (b64url_json headerB64) (\<lambda>header.
         if js_get header ''alg'' \<noteq> VStr ''ES256'' then Throw (UnexpectedAlg (js_get header ''alg''))
         else case b64urlToBytes sigB64 of
           None \<Rightarrow> Throw BadEncoding
         | Some sig \<Rightarrow>
             (case es256 (js_get header ''kid'') sig (utf8 (headerB64 @ ''.'' @ payloadB64)) of
                None \<Rightarrow> Throw KeyUnavailable
              | Some False \<Rightarrow> Throw InvalidSignature
              | Some True \<Rightarrow>
                  res_bind (b64url_json payloadB64) (\<lambda>payload.
                  if js_get payload ''iss'' \<noteq> VStr ''privy.io'' then Throw BadIssuer
                  else if (case appId of None \<Rightarrow> False | Some a \<Rightarrow> a \<noteq> [] \<and> js_get payload ''aud'' \<noteq> VStr a) then Throw AudienceMismatch
                  else if num_le_int (to_Number (js_get payload ''exp'')) now then Throw TokenExpired
                  else Ok \<lparr> pc_userId = js_get payload ''sub'', pc_appId = js_get payload ''aud'',
                            pc_expiration = js_get payload ''exp'' \<rparr>)))
     | _ \<Rightarrow> Throw MalformedJwt)"

text \<open>A missing \<open>sub\<close> is stored as null, which matches no row.\<close>

definition privy_db_user :: "int \<Rightarrow> jsval \<Rightarrow> store \<Rightarrow> nat \<times> store" where
  "privy_db_user now sub st =
    (if sub = VUndef \<or> sub = VNull then new_user now None None (Some ''privy'') st
     else upsertUserByPrivyId now (to_String sub) st)"

definition requirePrivyUser ::
  "(jsval \<Rightarrow> bytes \<Rightarrow> bytes \<Rightarrow> bool option) \<Rightarrow> string option \<Rightarrow> int \<Rightarrow> request \<Rightarrow> (store, api_err, nat \<times> jsval) stmt" where
  "requirePrivyUser es256 appId now rq st =
    (case extractPrivyAccessToken rq of
       None \<Rightarrow> (Throw (500, ''URI malformed''), st)
     | Some None \<Rightarrow> (Throw (401, ''Privy authentication required''), st)
     | Some (Some token) \<Rightarrow>
         if token = [] then (Throw (401, ''Privy authentication required''), st)
         else case verifyPrivyAccessToken es256 appId (now div 1000) token of
           Inl e \<Rightarrow> (Throw (401, ''invalid Privy token''), st)
         | Inr claims \<Rightarrow>
             (case privy_db_user now (pc_userId claims) st of (uid, st') \<Rightarrow> (Ok (uid, pc_userId claims), st')))"

definition optionalPrivyUser ::
  "(jsval \<Rightarrow> bytes \<Rightarrow> bytes \<Rightarrow> bool option) \<Rightarrow> string option \<Rightarrow> int \<Rightarrow> request \<Rightarrow> (store, api_err, nat option) stmt" where
  "optionalPrivyUser es256 appId now rq st =
    (case extractPrivyAccessToken rq of
       None \<Rightarrow> (Throw (500, ''URI malformed''), st)
     | Some None \<Rightarrow> (Ok None, st)
     | Some (Some token) \<Rightarrow>
         if token = [] then (Ok None, st)
         else case verifyPrivyAccessToken es256 appId (now div 1000) token of
           Inl e \<Rightarrow> (Ok None, st)
         | Inr claims \<Rightarrow> (case privy_db_user now (pc_userId claims) st of (uid, st') \<Rightarrow> (Ok (Some uid), st')))"


section \<open>Wallet login and sessions\<close>

datatype wallet_type = EVM | STELLAR

fun wallet_type_text :: "wallet_type \<Rightarrow> string" where
  "wallet_type_text EVM = ''EVM''"
| "wallet_type_text STELLAR = ''STELLAR''"

record wallet_lib =
  wl_getAddress :: "string \<Rightarrow> string option"
  wl_recover :: "string \<Rightarrow> string \<Rightarrow> string option"
  wl_stellar_verify :: "string \<Rightarrow> bytes \<Rightarrow> bytes \<Rightarrow> bool option"
  wl_sha256 :: "bytes \<Rightarrow> bytes"

definition sha256Hex :: "wallet_lib \<Rightarrow> string \<Rightarrow> string" where
  "sha256Hex lib s = to_hex (wl_sha256 lib (utf8 s))"

definition authMessage :: "wallet_type \<Rightarrow> string \<Rightarrow> string \<Rightarrow> string" where
  "authMessage walletType address nonce =
    ''Shade Protocol Testnet wants you to sign in with your '' @ wallet_type_text walletType @ '' wallet:'' @ [CHR 0x0A] @ address
      @ [CHR 0x0A, CHR 0x0A] @ ''Nonce: '' @ nonce"

definition normalizeAddress :: "wallet_lib \<Rightarrow> wallet_type \<Rightarrow> string \<Rightarrow> string option" where
  "normalizeAddress lib walletType address = (case walletType of EVM \<Rightarrow> wl_getAddress lib address | STELLAR \<Rightarrow> Some address)"

definition is_hex_text :: "string \<Rightarrow> bool" where
  "is_hex_text s = (s \<noteq> [] \<and> list_all (\<lambda>c. hex_val c \<noteq> None) s)"

definition verifyWalletSignature :: "wallet_lib \<Rightarrow> wallet_type \<Rightarrow> string \<Rightarrow> string \<Rightarrow> string \<Rightarrow> bool" where
  "verifyWalletSignature lib walletType address message signature =
    (case walletType of
       EVM \<Rightarrow> (case wl_recover lib message signature of None \<Rightarrow> False
              | Some rec \<Rightarrow> (case (wl_getAddress lib rec, wl_getAddress lib address) of (Some a, Some b) \<Rightarrow> a = b | _ \<Rightarrow> False))
     | STELLAR \<Rightarrow>
         (let sig = (if is_hex_text signature \<and> length signature = 128 then from_hex signature else base64_decode signature) in
          wl_stellar_verify lib address (utf8 message) sig = Some True))"

definition readSessionToken :: "request \<Rightarrow> string option option" where
  "readSessionToken rq = read_token ''shade_session'' rq"

definition SESSION_TTL :: int where
  "SESSION_TTL = 604800000"

definition NONCE_TTL :: int where
  "NONCE_TTL = 600000"

definition requireUser :: "wallet_lib \<Rightarrow> int \<Rightarrow> request \<Rightarrow> store \<Rightarrow> (api_err, nat) result" where
  "requireUser lib now rq st =
    (case readSessionToken rq of
       None \<Rightarrow> Throw (500, ''URI malformed'')
     | Some None \<Rightarrow> Throw (401, ''authentication required'')
     | Some (Some token) \<Rightarrow>
         if token = [] then Throw (401, ''authentication required'')
         else case userIdForSession now (sha256Hex lib token) st of
           None \<Rightarrow> Throw (401, ''invalid or expired session'')
         | Some uid \<Rightarrow> Ok uid)"

definition optionalUser :: "wallet_lib \<Rightarrow> int \<Rightarrow> request \<Rightarrow> store \<Rightarrow> (api_err, nat option) result" where
  "optionalUser lib now rq st =
    (case readSessionToken rq of
       None \<Rightarrow> Throw (500, ''URI malformed'')
     | Some None \<Rightarrow> Ok None
     | Some (Some token) \<Rightarrow> if token = [] then Ok None else Ok (userIdForSession now (sha256Hex lib token) st))"

end
