(* ===== verification/Cctp.thy ===== *)
theory Cctp
  imports Store
begin

text \<open>
  The CCTP bridge code: \<open>packages/cctp-utils/src/index.ts\<close>, the route builders of
  \<open>packages/sdk/src/cctp.ts\<close>, and the inbound flows of \<open>packages/cctp/src/cctp-inbound.ts\<close>. Stellar's
  \<open>StrKey\<close>, the decoding of EVM calldata and the answers of the two chains and of Circle are parameters;
  what the relayer submits is recorded as a list of calls.
\<close>

record strkey_lib =
  sk_isValidContract :: "string \<Rightarrow> bool"
  sk_decodeContract :: "string \<Rightarrow> bytes"

datatype cctp_error =
    NotAContract
  | WrongDomain
  | WrongMintRecipient
  | WrongDestinationCaller
  | NotRepresentable
  | BurnNotFound
  | BurnReverted
  | BurnMismatch string
  | IrisFailed
  | AttestationTimeout
  | MissingSecret
  | InsufficientUsdc
  | BadBalance
  | InvokeFailed
  | BadDelta
  | CoinRequired
  | ProofNotVerified
  | RootRequired


section \<open>Routes and amounts\<close>

definition arbitrumSepoliaDomain :: int where "arbitrumSepoliaDomain = 3"
definition stellarDomain :: int where "stellarDomain = 27"
definition FINALITY_THRESHOLD_FINALIZED :: int where "FINALITY_THRESHOLD_FINALIZED = 2000"
definition FINALITY_THRESHOLD_CONFIRMED :: int where "FINALITY_THRESHOLD_CONFIRMED = 1000"

definition arbitrumSepoliaUsdc :: string where
  "arbitrumSepoliaUsdc = ''0x75faf114eafb1BDbe2F0316DF893fd58CE46AA4d''"

definition arbitrumSepoliaTokenMessenger :: string where
  "arbitrumSepoliaTokenMessenger = ''0x8FE6B999Dc680CcFDD5Bf7EB0974218be2542DAA''"

definition stellarCctpForwarder :: string where
  "stellarCctpForwarder = ''CA66Q2WFBND6V4UEB7RD4SAXSVIWMD6RA4X3U32ELVFGXV5PJK4T4VSZ''"

definition stellarContractToBytes32 :: "strkey_lib \<Rightarrow> string \<Rightarrow> (cctp_error, string) result" where
  "stellarContractToBytes32 sk contractId =
    (if \<not> sk_isValidContract sk contractId then Throw NotAContract
     else Ok (''0x'' @ to_hex (sk_decodeContract sk contractId)))"

record inbound_route =
  ir_destinationDomain :: int
  ir_mintRecipient :: string
  ir_destinationCaller :: string
  ir_forwardRecipient :: string

definition validateInboundRoute :: "strkey_lib \<Rightarrow> inbound_route \<Rightarrow> string \<Rightarrow> (cctp_error, unit) result" where
  "validateInboundRoute sk r expectedForwarder =
    (if ir_destinationDomain r \<noteq> stellarDomain then Throw WrongDomain
     else if \<not> sk_isValidContract sk (ir_mintRecipient r) then Throw NotAContract
     else if \<not> sk_isValidContract sk (ir_destinationCaller r) then Throw NotAContract
     else if ir_mintRecipient r \<noteq> expectedForwarder then Throw WrongMintRecipient
     else if ir_destinationCaller r \<noteq> expectedForwarder then Throw WrongDestinationCaller
     else if \<not> sk_isValidContract sk (ir_forwardRecipient r) then Throw NotAContract
     else Ok ())"

definition uint32_be :: "nat \<Rightarrow> bytes" where
  "uint32_be n = [of_nat (n div 16777216), of_nat (n div 65536), of_nat (n div 256), of_nat n]"

definition encodeStellarForwardHook :: "strkey_lib \<Rightarrow> string \<Rightarrow> (cctp_error, string) result" where
  "encodeStellarForwardHook sk forwardRecipient =
    (if \<not> sk_isValidContract sk forwardRecipient then Throw NotAContract
     else Ok (''0x'' @ to_hex (replicate 24 0 @ replicate 4 0 @ uint32_be (length forwardRecipient) @ utf8 forwardRecipient)))"

definition usdc6ToStellar7 :: "int \<Rightarrow> int" where
  "usdc6ToStellar7 amount6 = amount6 * 10"

definition stellar7ToUsdc6 :: "int \<Rightarrow> (cctp_error, int) result" where
  "stellar7ToUsdc6 amount7 = (if js_mod amount7 10 \<noteq> 0 then Throw NotRepresentable else Ok (js_div amount7 10))"

text \<open>The arguments of \<open>depositForBurnWithHook\<close>.\<close>

record burn_call =
  bc_amount :: int
  bc_destinationDomain :: int
  bc_mintRecipient :: string
  bc_burnToken :: string
  bc_destinationCaller :: string
  bc_maxFee :: int
  bc_minFinalityThreshold :: int
  bc_hookData :: string

record deposit_route =
  dr_tokenMessenger :: string
  dr_burn :: burn_call
  dr_amount7dp :: int

definition buildDepositRoute :: "strkey_lib \<Rightarrow> string \<Rightarrow> int \<Rightarrow> bool option \<Rightarrow> int option \<Rightarrow> (cctp_error, deposit_route) result" where
  "buildDepositRoute sk pool amount6 fastOpt maxFee6 =
    res_bind (validateInboundRoute sk \<lparr> ir_destinationDomain = stellarDomain, ir_mintRecipient = stellarCctpForwarder,
        ir_destinationCaller = stellarCctpForwarder, ir_forwardRecipient = pool \<rparr> stellarCctpForwarder) (\<lambda>_.
    res_bind (stellarContractToBytes32 sk stellarCctpForwarder) (\<lambda>mintRecipient.
    res_bind (encodeStellarForwardHook sk pool) (\<lambda>hookData.
      let fast = (case fastOpt of None \<Rightarrow> True | Some b \<Rightarrow> b);
          maxFee = (if fast then (case maxFee6 of None \<Rightarrow> js_div amount6 1000 | Some m \<Rightarrow> m) else 0) in
      Ok \<lparr> dr_tokenMessenger = arbitrumSepoliaTokenMessenger,
           dr_burn = \<lparr> bc_amount = amount6, bc_destinationDomain = stellarDomain, bc_mintRecipient = mintRecipient,
             bc_burnToken = arbitrumSepoliaUsdc, bc_destinationCaller = mintRecipient, bc_maxFee = maxFee,
             bc_minFinalityThreshold = (if fast then 1000 else 2000), bc_hookData = hookData \<rparr>,
           dr_amount7dp = usdc6ToStellar7 amount6 \<rparr>)))"

record exit_route =
  er_pool :: string
  er_destinationDomain :: int
  er_destinationRecipient :: string
  er_maxFee :: int
  er_minFinalityThreshold :: int

definition pad_start :: "nat \<Rightarrow> char \<Rightarrow> string \<Rightarrow> string" where
  "pad_start n c s = replicate (n - length s) c @ s"

definition buildExitRoute :: "string \<Rightarrow> string \<Rightarrow> int \<Rightarrow> bool option \<Rightarrow> exit_route" where
  "buildExitRoute pool recipientEvm maxFee7 fastOpt =
    \<lparr> er_pool = pool, er_destinationDomain = arbitrumSepoliaDomain,
      er_destinationRecipient = ''0x'' @ concat (replicate 12 ''00'') @ pad_start 40 (CHR ''0'') (lower (drop 2 recipientEvm)),
      er_maxFee = maxFee7, er_minFinalityThreshold = (if fastOpt = Some False then 2000 else 1000) \<rparr>"


section \<open>Attestations\<close>

record attestation =
  at_status :: string
  at_message :: jsval
  at_attestation :: jsval

datatype iris_answer = IrisStatus nat | IrisBody jsval

text \<open>\<open>fetchAttestationByTx\<close> on Circle's answer: an HTTP error status, or the body of a success.\<close>

definition fetchAttestationByTx :: "iris_answer \<Rightarrow> (cctp_error, attestation option) result" where
  "fetchAttestationByTx a =
    (case a of
       IrisStatus n \<Rightarrow> if n = 404 then Ok None else Throw IrisFailed
     | IrisBody body \<Rightarrow>
         (case js_get body ''messages'' of
            VArr (msg # _) \<Rightarrow>
              if truthy msg then Ok (Some \<lparr> at_status = to_String (js_get msg ''status''), at_message = js_get msg ''message'',
                                          at_attestation = js_get msg ''attestation'' \<rparr>)
              else Ok None
          | _ \<Rightarrow> Ok None))"

definition att_complete :: "attestation \<Rightarrow> bool" where
  "att_complete att = (at_status att = ''complete'' \<and> truthy (at_attestation att) \<and> at_attestation att \<noteq> VStr ''0x'' \<and>
     at_attestation att \<noteq> VStr ''PENDING'')"

text \<open>\<open>pollAttestation\<close>: each round is the answer and the milliseconds since the start when it was handled; \<open>None\<close> when the
  rounds given end before the loop does.\<close>

fun pollAttestation :: "int \<Rightarrow> (iris_answer \<times> int) list \<Rightarrow> (cctp_error, attestation) result option" where
  "pollAttestation timeoutMs [] = None"
| "pollAttestation timeoutMs ((a, elapsed) # rounds) =
    (case fetchAttestationByTx a of
       Inl e \<Rightarrow> Some (Throw e)
     | Inr att \<Rightarrow>
         (case att of
            Some x \<Rightarrow> if att_complete x then Some (Ok x)
                      else if elapsed > timeoutMs then Some (Throw AttestationTimeout) else pollAttestation timeoutMs rounds
          | None \<Rightarrow> if elapsed > timeoutMs then Some (Throw AttestationTimeout) else pollAttestation timeoutMs rounds))"


section \<open>Validating a burn of the user\<close>

record cctp_env =
  ce_tokenMessenger :: "string option"
  ce_usdc :: "string option"
  ce_forwarder :: "string option"
  ce_expectedFinality :: "int option"

definition env_or :: "string option \<Rightarrow> string \<Rightarrow> string" where
  "env_or v d = (case v of None \<Rightarrow> d | Some s \<Rightarrow> s)"

record evm_tx =
  et_from :: string
  et_to :: "string option"
  et_data :: string

text \<open>\<open>tx\<close>: the transaction and its receipt status; \<open>decode\<close>: the ABI decoding of the calldata.\<close>

definition validateInboundBurnTx ::
  "strkey_lib \<Rightarrow> cctp_env \<Rightarrow> (string \<Rightarrow> burn_call option) \<Rightarrow> (evm_tx \<times> int) option \<Rightarrow>
   string \<Rightarrow> int \<Rightarrow> string \<Rightarrow> int option \<Rightarrow> int option \<Rightarrow> (cctp_error, burn_call) result" where
  "validateInboundBurnTx sk env decode txr expectedSender expectedAmount6 pool expectedMaxFee6 expectedFinality =
    (case txr of
       None \<Rightarrow> Throw BurnNotFound
     | Some (tx, status) \<Rightarrow>
         if status \<noteq> 1 then Throw BurnReverted
         else if lower (et_from tx) \<noteq> lower expectedSender then Throw (BurnMismatch ''sender'')
         else if lower (env_or (et_to tx) []) \<noteq> lower (env_or (ce_tokenMessenger env) arbitrumSepoliaTokenMessenger)
         then Throw (BurnMismatch ''target'')
         else case decode (et_data tx) of
           None \<Rightarrow> Throw (BurnMismatch ''calldata'')
         | Some d \<Rightarrow>
             res_bind (stellarContractToBytes32 sk (env_or (ce_forwarder env) stellarCctpForwarder)) (\<lambda>mint.
             res_bind (encodeStellarForwardHook sk pool) (\<lambda>hook.
               let expMint = lower mint; expHook = lower hook;
                   finality = (case expectedFinality of Some f \<Rightarrow> f
                     | None \<Rightarrow> (case ce_expectedFinality env of Some f \<Rightarrow> f | None \<Rightarrow> FINALITY_THRESHOLD_CONFIRMED)) in
               if bc_amount d \<noteq> expectedAmount6 then Throw (BurnMismatch ''amount'')
               else if bc_destinationDomain d \<noteq> stellarDomain then Throw (BurnMismatch ''domain'')
               else if lower (bc_mintRecipient d) \<noteq> expMint then Throw (BurnMismatch ''mintRecipient'')
               else if lower (bc_burnToken d) \<noteq> lower (env_or (ce_usdc env) arbitrumSepoliaUsdc) then Throw (BurnMismatch ''burnToken'')
               else if lower (bc_destinationCaller d) \<noteq> expMint then Throw (BurnMismatch ''destinationCaller'')
               else if (case expectedMaxFee6 of None \<Rightarrow> False | Some m \<Rightarrow> bc_maxFee d > m) then Throw (BurnMismatch ''maxFee'')
               else if bc_minFinalityThreshold d \<noteq> finality then Throw (BurnMismatch ''finality'')
               else if lower (bc_hookData d) \<noteq> expHook then Throw (BurnMismatch ''hookData'')
               else Ok d)))"


section \<open>The inbound flows\<close>

text \<open>
  What the chains and services answer: the outcome of the attestation poll (\<open>None\<close>: it throws), the
  hash of a message, the \<open>n\<close>-th read of the USDC balance, the transaction hash of an invocation (\<open>None\<close>: it fails), and the
  deposit proof for an amount (its verification flag, proof and public signals; \<open>None\<close>: the prover fails).
\<close>

record inbound_world =
  iw_attestation :: "attestation option"
  iw_keccak :: "string \<Rightarrow> string"
  iw_balance :: "nat \<Rightarrow> string"
  iw_mint :: "string option"
  iw_prove :: "int \<Rightarrow> (bool \<times> string \<times> string) option"
  iw_receive :: "(string \<times> string) option"
  iw_root :: "string option"

datatype chain_call =
    Approve int
  | Burn burn_call
  | MintAndForward jsval jsval
  | ReceiveDeposit string int string

definition clean :: "string \<Rightarrow> string" where
  "clean s = js_trim (filter (\<lambda>c. c \<noteq> CHR 0x22) s)"

text \<open>\<open>sacBalance\<close>: five reads at most, from read number \<open>n\<close>; an empty answer is read again, and at the end counts as zero.\<close>

fun sac_tries :: "nat \<Rightarrow> (nat \<Rightarrow> string) \<Rightarrow> nat \<Rightarrow> (cctp_error, int) result \<times> nat" where
  "sac_tries 0 rd n = (Ok 0, n)"
| "sac_tries (Suc k) rd n =
    (if clean (rd n) \<noteq> [] then (case big_int_of_string (clean (rd n)) of None \<Rightarrow> (Throw BadBalance, Suc n) | Some b \<Rightarrow> (Ok b, Suc n))
     else sac_tries k rd (Suc n))"

definition sacBalance :: "(nat \<Rightarrow> string) \<Rightarrow> nat \<Rightarrow> (cctp_error, int) result \<times> nat" where
  "sacBalance rd n = sac_tries 5 rd n"

text \<open>The wait for the balance to grow: \<open>after\<close>, re-read up to \<open>k\<close> times while it has not.\<close>

fun await_growth :: "nat \<Rightarrow> (nat \<Rightarrow> string) \<Rightarrow> nat \<Rightarrow> int \<Rightarrow> int \<Rightarrow> (cctp_error, int) result" where
  "await_growth 0 rd n before after = Ok after"
| "await_growth (Suc k) rd n before after =
    (if after \<le> before
     then (case sacBalance rd n of (Inl e, _) \<Rightarrow> Throw e | (Inr b, n') \<Rightarrow> await_growth k rd n' before b)
     else Ok after)"

text \<open>The minted amount: balance before and after \<open>mint_and_forward\<close>.\<close>

definition minted_delta :: "inbound_world \<Rightarrow> (cctp_error, int) result" where
  "minted_delta w =
    (case sacBalance (iw_balance w) 0 of
       (Inl e, _) \<Rightarrow> Throw e
     | (Inr before, n) \<Rightarrow>
         (case iw_mint w of None \<Rightarrow> Throw InvokeFailed
          | Some _ \<Rightarrow>
              (case sacBalance (iw_balance w) n of
                 (Inl e, _) \<Rightarrow> Throw e
               | (Inr after, n') \<Rightarrow> res_bind (await_growth 10 (iw_balance w) n' before after) (\<lambda>a. Ok (a - before)))))"

record inbound_result =
  rs_cctpNonceHex :: string
  rs_amount7 :: int
  rs_leafIndex :: string
  rs_root :: string

text \<open>The note registration: \<open>receive_cctp_deposit\<close> and the read of the new root.\<close>

definition register_note ::
  "inbound_world \<Rightarrow> chain_call list \<Rightarrow> string \<Rightarrow> int \<Rightarrow> string \<Rightarrow> (cctp_error, inbound_result) result \<times> chain_call list" where
  "register_note w calls cctpNonce amount7 commitment =
    (case iw_receive w of
       None \<Rightarrow> (Throw InvokeFailed, calls)
     | Some (_, leaf) \<Rightarrow>
         let calls' = calls @ [ReceiveDeposit cctpNonce amount7 commitment] in
         case iw_root w of
           None \<Rightarrow> (Throw InvokeFailed, calls')
         | Some r \<Rightarrow> (Ok \<lparr> rs_cctpNonceHex = cctpNonce, rs_amount7 = amount7, rs_leafIndex = clean leaf, rs_root = clean r \<rparr>, calls'))"

record inbound_params =
  ip_amount6 :: int
  ip_commitmentHex :: string
  ip_fast :: "bool option"
  ip_maxFee6 :: "int option"
  ip_targetContract :: "string option"
  ip_newRootHex :: "string option"
  ip_has_coin :: bool

text \<open>Steps 3 to 6, after the burn of \<open>calls1\<close>: attestation, \<open>mint_and_forward\<close>, the check of the minted amount, the deposit
  proof when the target is the pool, and the registration.\<close>

definition complete_inbound ::
  "inbound_world \<Rightarrow> inbound_params \<Rightarrow> chain_call list \<Rightarrow> (cctp_error, inbound_result) result \<times> chain_call list" where
  "complete_inbound w p calls1 =
    (case iw_attestation w of
       None \<Rightarrow> (Throw AttestationTimeout, calls1)
     | Some att \<Rightarrow>
         let nonce = iw_keccak w (to_String (at_message att));
             calls2 = calls1 @ [MintAndForward (at_message att) (at_attestation att)] in
         case minted_delta w of
           Inl e \<Rightarrow> (Throw e, if iw_mint w = None then calls1 else calls2)
         | Inr amount7 \<Rightarrow>
             if amount7 \<le> 0 \<or> amount7 > usdc6ToStellar7 (ip_amount6 p) then (Throw BadDelta, calls2)
             else if ip_targetContract p = None then register_note w calls2 nonce amount7 (ip_commitmentHex p)
             else if \<not> ip_has_coin p then (Throw CoinRequired, calls2)
             else case iw_prove w amount7 of
               None \<Rightarrow> (Throw ProofNotVerified, calls2)
             | Some (verified, _, _) \<Rightarrow>
                 if \<not> verified then (Throw ProofNotVerified, calls2)
                 else if ip_newRootHex p = None then (Throw RootRequired, calls2)
                 else register_note w calls2 nonce amount7 (ip_commitmentHex p))"

definition own_burn :: "string \<Rightarrow> inbound_params \<Rightarrow> string \<Rightarrow> string \<Rightarrow> burn_call" where
  "own_burn usdcAddr p mintRecipient hookData =
    (let fast = (case ip_fast p of None \<Rightarrow> True | Some b \<Rightarrow> b);
         dflt = (if js_div (ip_amount6 p) 1000 > 0 then js_div (ip_amount6 p) 1000 else 1) in
     \<lparr> bc_amount = ip_amount6 p, bc_destinationDomain = stellarDomain, bc_mintRecipient = mintRecipient,
       bc_burnToken = usdcAddr, bc_destinationCaller = mintRecipient,
       bc_maxFee = (if fast then (case ip_maxFee6 p of None \<Rightarrow> dflt | Some m \<Rightarrow> m) else 0),
       bc_minFinalityThreshold = (if fast then FINALITY_THRESHOLD_CONFIRMED else FINALITY_THRESHOLD_FINALIZED),
       bc_hookData = hookData \<rparr>)"

text \<open>The relayer's own burn. \<open>usdcBalance\<close> and \<open>allowance\<close> are the service wallet's; \<open>vaultDefault\<close> is the configured vault; the
  burn transaction itself may fail (\<open>burnOk\<close>).\<close>

definition runCctpInbound ::
  "strkey_lib \<Rightarrow> inbound_world \<Rightarrow> bool \<Rightarrow> string \<Rightarrow> string \<Rightarrow> string \<Rightarrow> int \<Rightarrow> int \<Rightarrow> bool \<Rightarrow> inbound_params \<Rightarrow>
   (cctp_error, inbound_result) result \<times> chain_call list" where
  "runCctpInbound sk w hasKey forwarder vaultDefault usdcAddr usdcBalance allowance burnOk p =
    (if \<not> hasKey then (Throw MissingSecret, [])
     else if usdcBalance < ip_amount6 p then (Throw InsufficientUsdc, [])
     else
       let calls0 = (if allowance < ip_amount6 p then [Approve (ip_amount6 p * 100)] else []);
           vault = env_or (ip_targetContract p) vaultDefault in
       case (stellarContractToBytes32 sk forwarder, encodeStellarForwardHook sk vault) of
         (Inr mintRecipient, Inr hookData) \<Rightarrow>
           if \<not> burnOk then (Throw InvokeFailed, calls0)
           else complete_inbound w p (calls0 @ [Burn (own_burn usdcAddr p mintRecipient hookData)])
       | _ \<Rightarrow> (Throw NotAContract, calls0))"

definition runPostUserBurnCctpInbound ::
  "inbound_world \<Rightarrow> string \<Rightarrow> bool \<Rightarrow> (cctp_error, inbound_result) result \<times> chain_call list" where
  "runPostUserBurnCctpInbound w commitment has_coin =
    (case iw_attestation w of
       None \<Rightarrow> (Throw AttestationTimeout, [])
     | Some att \<Rightarrow>
         let nonce = iw_keccak w (to_String (at_message att)); calls = [MintAndForward (at_message att) (at_attestation att)] in
         case minted_delta w of
           Inl e \<Rightarrow> (Throw e, if iw_mint w = None then [] else calls)
         | Inr amount7 \<Rightarrow>
             if amount7 \<le> 0 then (Throw BadDelta, calls)
             else if \<not> has_coin then (Throw CoinRequired, calls)
             else case iw_prove w amount7 of
               None \<Rightarrow> (Throw ProofNotVerified, calls)
             | Some (verified, _, _) \<Rightarrow>
                 if \<not> verified then (Throw ProofNotVerified, calls)
                 else register_note w calls nonce amount7 commitment)"


section \<open>Facts\<close>

lemma lower_hex_digit: "d < 16 \<Longrightarrow> lower_char (hex_digit d) = hex_digit d"
proof -
  assume "d < 16"
  then have "d \<in> set [0..<16]" by simp
  then show ?thesis by (simp add: upt_rec lower_char_def hex_digit_def) auto
qed

lemma lower_to_hex [simp]: "lower (to_hex bs) = to_hex bs"
proof -
  have "lower (byte_hex b) = byte_hex b" for b
    by (simp add: byte_hex_def lower_def lower_hex_digit byte_split)
  then show ?thesis by (induction bs) (simp_all add: to_hex_def lower_def)
qed

lemma lower_0x [simp]: "lower (''0x'' @ s) = ''0x'' @ lower s"
  by (simp add: lower_def lower_char_def)

lemma lower_hook:
  "encodeStellarForwardHook sk pool = Ok h \<Longrightarrow> lower h = h"
  by (auto simp: encodeStellarForwardHook_def split: if_splits simp del: append_Cons)

lemma lower_bytes32: "stellarContractToBytes32 sk c = Ok h \<Longrightarrow> lower h = h"
  by (auto simp: stellarContractToBytes32_def split: if_splits simp del: append_Cons)

lemma hook_inject:
  assumes "encodeStellarForwardHook sk p = Ok h" "encodeStellarForwardHook sk q = Ok h"
  shows "p = q"
proof -
  have "uint32_be (length p) @ utf8 p = uint32_be (length q) @ utf8 q"
    using assms by (auto simp: encodeStellarForwardHook_def split: if_splits)
  then have "utf8 p = utf8 q" by (simp add: uint32_be_def)
  then show ?thesis by (metis utf8_roundtrip)
qed

lemma validate_terms:
  assumes "validateInboundBurnTx sk env decode txr sender amt pool mf fin = Ok d"
  obtains tx mint hook where "txr = Some (tx, 1)" "lower (et_from tx) = lower sender" "decode (et_data tx) = Some d"
    "stellarContractToBytes32 sk (env_or (ce_forwarder env) stellarCctpForwarder) = Ok mint" "encodeStellarForwardHook sk pool = Ok hook"
    "bc_amount d = amt" "bc_destinationDomain d = stellarDomain" "lower (bc_mintRecipient d) = mint" "lower (bc_destinationCaller d) = mint"
    "lower (bc_hookData d) = hook" "\<And>m. mf = Some m \<Longrightarrow> bc_maxFee d \<le> m"
proof -
  obtain tx where tx: "txr = Some (tx, 1)" using assms by (auto simp: validateInboundBurnTx_def split: option.splits if_splits)
  obtain d' where d': "decode (et_data tx) = Some d'" using assms by (auto simp: tx validateInboundBurnTx_def split: option.splits if_splits)
  obtain mint hook where mh: "stellarContractToBytes32 sk (env_or (ce_forwarder env) stellarCctpForwarder) = Ok mint"
    "encodeStellarForwardHook sk pool = Ok hook"
    using assms by (auto simp: tx d' validateInboundBurnTx_def res_simps split: if_splits)
  note low = lower_bytes32 [OF mh(1)] lower_hook [OF mh(2)]
  have "d' = d \<and> lower (et_from tx) = lower sender \<and> bc_amount d = amt \<and> bc_destinationDomain d = stellarDomain \<and>
      lower (bc_mintRecipient d) = mint \<and> lower (bc_destinationCaller d) = mint \<and> lower (bc_hookData d) = hook \<and>
      (case mf of None \<Rightarrow> True | Some m \<Rightarrow> bc_maxFee d \<le> m)"
    using assms unfolding validateInboundBurnTx_def tx option.case prod.case d' mh res_bind_simps Let_def low
    by (auto split: if_splits option.splits)
  then show thesis using that tx d' mh by (auto split: option.splits)
qed

lemma register_note_calls:
  "set (snd (register_note w calls nonce a c)) \<subseteq> set calls \<union> {ReceiveDeposit nonce a c}"
  by (auto simp: register_note_def Let_def split: option.splits)

lemma register_note_result: "fst (register_note w calls nonce a c) = Ok r \<Longrightarrow> rs_amount7 r = a \<and> rs_cctpNonceHex r = nonce"
  by (auto simp: register_note_def Let_def split: option.splits)

lemma complete_inbound_receives:
  assumes "ReceiveDeposit n a c \<in> set (snd (complete_inbound w p calls1))" "ReceiveDeposit n a c \<notin> set calls1"
  shows "minted_delta w = Ok a \<and> 0 < a \<and> a \<le> usdc6ToStellar7 (ip_amount6 p) \<and> c = ip_commitmentHex p \<and>
    (ip_targetContract p = None \<or> ip_has_coin p \<and> (\<exists>x. iw_prove w a = Some (True, x))) \<and>
    (\<exists>att. iw_attestation w = Some att \<and> n = iw_keccak w (to_String (at_message att)) \<and>
       snd (complete_inbound w p calls1) = calls1 @ [MintAndForward (at_message att) (at_attestation att), ReceiveDeposit n a c])"
  using assms by (auto simp: complete_inbound_def Let_def register_note_def split: option.splits sum.splits if_splits prod.splits)

lemma post_user_burn_receives:
  assumes "ReceiveDeposit n a c \<in> set (snd (runPostUserBurnCctpInbound w commitment coin))"
  shows "minted_delta w = Ok a \<and> 0 < a \<and> c = commitment \<and> coin \<and> (\<exists>x. iw_prove w a = Some (True, x)) \<and>
    (\<exists>att. iw_attestation w = Some att \<and> n = iw_keccak w (to_String (at_message att)) \<and>
       snd (runPostUserBurnCctpInbound w commitment coin) = [MintAndForward (at_message att) (at_attestation att), ReceiveDeposit n a c])"
  using assms by (auto simp: runPostUserBurnCctpInbound_def Let_def register_note_def split: option.splits sum.splits if_splits prod.splits)

text \<open>What one call of \<open>sacBalance\<close> makes of the answers \<open>i, \<dots>, j - 1\<close>: the last one when it is not empty, zero after five empty ones.\<close>

definition reads_balance :: "(nat \<Rightarrow> string) \<Rightarrow> nat \<Rightarrow> nat \<Rightarrow> int \<Rightarrow> bool" where
  "reads_balance rd i j b \<longleftrightarrow> i < j \<and> j \<le> i + 5 \<and> (\<forall>k. i \<le> k \<and> Suc k < j \<longrightarrow> clean (rd k) = []) \<and>
     (if clean (rd (j - 1)) = [] then j = i + 5 \<and> b = 0 else big_int_of_string (clean (rd (j - 1))) = Some b)"

lemma sac_tries_reads:
  assumes "sac_tries k rd n = (Ok b, n')" "0 < k"
  shows "n < n' \<and> n' \<le> n + k \<and> (\<forall>m. n \<le> m \<and> Suc m < n' \<longrightarrow> clean (rd m) = []) \<and>
    (if clean (rd (n' - 1)) = [] then n' = n + k \<and> b = 0 else big_int_of_string (clean (rd (n' - 1))) = Some b)"
  using assms
proof (induction k arbitrary: n)
  case (Suc k)
  show ?case
  proof (cases "clean (rd n) = []")
    case False
    then show ?thesis using Suc.prems(1) by (auto split: option.splits)
  next
    case True
    then have r: "sac_tries k rd (Suc n) = (Ok b, n')" using Suc.prems(1) by simp
    show ?thesis
    proof (cases k)
      case 0
      then show ?thesis using r True by auto
    next
      case (Suc j)
      then have ih: "Suc n < n' \<and> n' \<le> Suc n + k \<and> (\<forall>m. Suc n \<le> m \<and> Suc m < n' \<longrightarrow> clean (rd m) = []) \<and>
        (if clean (rd (n' - 1)) = [] then n' = Suc n + k \<and> b = 0 else big_int_of_string (clean (rd (n' - 1))) = Some b)"
        by (intro Suc.IH [OF r]) simp
      moreover have "clean (rd m) = []" if "n \<le> m" "Suc m < n'" for m
        using that ih True by (cases "m = n") auto
      ultimately show ?thesis by auto
    qed
  qed
qed simp

lemma sacBalance_reads: "sacBalance rd n = (Ok b, n') \<Longrightarrow> reads_balance rd n n' b"
  using sac_tries_reads [of 5 rd n b n', OF _ zero_less_numeral] unfolding sacBalance_def reads_balance_def by blast

lemma await_growth_reads:
  "await_growth k rd n before after = Ok a \<Longrightarrow> a = after \<or> (\<exists>i j. n \<le> i \<and> reads_balance rd i j a)"
proof (induction k arbitrary: n after)
  case (Suc k)
  show ?case
  proof (cases "after \<le> before")
    case True
    then obtain b n' where b: "sacBalance rd n = (Ok b, n')" "await_growth k rd n' before b = Ok a"
      using Suc.prems by (auto split: prod.splits sum.splits)
    have r: "reads_balance rd n n' b" by (rule sacBalance_reads [OF b(1)])
    then have "n \<le> n'" by (simp add: reads_balance_def)
    with Suc.IH [OF b(2)] r show ?thesis by (meson le_trans order_refl)
  qed (use Suc.prems in simp)
qed simp

text \<open>The reads behind the minted amount: one balance before \<open>mint_and_forward\<close>, one after it.\<close>

lemma minted_delta_reads:
  assumes "minted_delta w = Ok a"
  shows "\<exists>before after i j k. reads_balance (iw_balance w) 0 i before \<and> i \<le> j \<and> reads_balance (iw_balance w) j k after \<and> a = after - before"
proof -
  obtain before n where b: "sacBalance (iw_balance w) 0 = (Ok before, n)"
    using assms by (auto simp: minted_delta_def split: prod.splits sum.splits)
  obtain x n' after where c: "sacBalance (iw_balance w) n = (Ok x, n')" "await_growth 10 (iw_balance w) n' before x = Ok after" "a = after - before"
    using assms b by (auto simp: minted_delta_def res_bind_eq_Inr split: prod.splits sum.splits option.splits)
  have r: "reads_balance (iw_balance w) 0 n before" "reads_balance (iw_balance w) n n' x"
    using sacBalance_reads b c(1) by blast+
  then have "n \<le> n'" by (simp add: reads_balance_def)
  with await_growth_reads [OF c(2)] r obtain j m where "n \<le> j" "reads_balance (iw_balance w) j m after" by (meson le_trans order_refl)
  with r(1) c(3) show ?thesis by blast
qed

lemma complete_inbound_burns: "Burn b \<in> set (snd (complete_inbound w p calls1)) \<Longrightarrow> Burn b \<in> set calls1"
  by (auto simp: complete_inbound_def Let_def register_note_def split: option.splits sum.splits if_splits prod.splits)

lemma route_parts:
  assumes "buildDepositRoute sk pool amt fast mf6 = Ok r"
  obtains mint hook where "stellarContractToBytes32 sk stellarCctpForwarder = Ok mint" "encodeStellarForwardHook sk pool = Ok hook"
    "dr_tokenMessenger r = arbitrumSepoliaTokenMessenger" "bc_amount (dr_burn r) = amt" "bc_destinationDomain (dr_burn r) = stellarDomain"
    "bc_mintRecipient (dr_burn r) = mint" "bc_destinationCaller (dr_burn r) = mint" "bc_burnToken (dr_burn r) = arbitrumSepoliaUsdc"
    "bc_hookData (dr_burn r) = hook" "bc_minFinalityThreshold (dr_burn r) = (if fast = Some False then 2000 else 1000)"
  using assms by (auto simp: buildDepositRoute_def Let_def res_simps split: option.splits)


section \<open>Properties\<close>

text \<open>A burn built from the SDK's route passes the relayer's validation for exactly its own deposit: with the locked
  addresses and the default finality the relayer accepts it for its sender, amount and pool
  and for no other sender, amount or pool; a route built for standard finality (\<open>fast: false\<close>) is refused because the relayer
  expects the confirmed threshold.\<close>

theorem sdk_burn_validates_only_its_deposit:
  assumes "buildDepositRoute sk pool amt fast mf6 = Ok r" "decode (et_data tx) = Some (dr_burn r)" "et_to tx = Some (dr_tokenMessenger r)"
    "env = \<lparr> ce_tokenMessenger = None, ce_usdc = None, ce_forwarder = None, ce_expectedFinality = None \<rparr>"
  shows "validateInboundBurnTx sk env decode (Some (tx, 1)) (et_from tx) amt pool None None =
      (if fast = Some False then Throw (BurnMismatch ''finality'') else Ok (dr_burn r)) \<and>
    (\<forall>sender amt' pool' mf fin d. validateInboundBurnTx sk env decode (Some (tx, 1)) sender amt' pool' mf fin = Ok d \<longrightarrow>
       lower sender = lower (et_from tx) \<and> amt' = amt \<and> pool' = pool)"
proof (intro conjI allI impI)
  obtain mint hook where r: "stellarContractToBytes32 sk stellarCctpForwarder = Ok mint" "encodeStellarForwardHook sk pool = Ok hook"
    "dr_tokenMessenger r = arbitrumSepoliaTokenMessenger" "bc_amount (dr_burn r) = amt" "bc_destinationDomain (dr_burn r) = stellarDomain"
    "bc_mintRecipient (dr_burn r) = mint" "bc_destinationCaller (dr_burn r) = mint" "bc_burnToken (dr_burn r) = arbitrumSepoliaUsdc"
    "bc_hookData (dr_burn r) = hook" "bc_minFinalityThreshold (dr_burn r) = (if fast = Some False then 2000 else 1000)"
    by (rule route_parts [OF assms(1)])
  show "validateInboundBurnTx sk env decode (Some (tx, 1)) (et_from tx) amt pool None None =
      (if fast = Some False then Throw (BurnMismatch ''finality'') else Ok (dr_burn r))"
    by (simp add: validateInboundBurnTx_def assms(2,3,4) r env_or_def Let_def FINALITY_THRESHOLD_CONFIRMED_def)
  fix sender amt' pool' mf fin d
  assume v: "validateInboundBurnTx sk env decode (Some (tx, 1)) sender amt' pool' mf fin = Ok d"
  obtain hook' where h: "lower (et_from tx) = lower sender" "d = dr_burn r" "encodeStellarForwardHook sk pool' = Ok hook'"
    "bc_amount d = amt'" "lower (bc_hookData d) = hook'"
    by (rule validate_terms [OF v]) (use assms(2) in auto)
  show "lower sender = lower (et_from tx)" "amt' = amt" using h r(4) by simp_all
  show "pool' = pool" using h r(2,9) lower_hook [OF r(2)] hook_inject [of sk pool' hook pool] by simp
qed

definition demo_strkey :: strkey_lib where
  "demo_strkey = \<lparr> sk_isValidContract = (\<lambda>s. take 1 s = ''C''), sk_decodeContract = (\<lambda>s. replicate 32 7) \<rparr>"

definition demo_env :: cctp_env where
  "demo_env = \<lparr> ce_tokenMessenger = None, ce_usdc = None, ce_forwarder = None, ce_expectedFinality = None \<rparr>"

theorem sdk_burn_validates_only_its_deposit_witness:
  "\<exists>r. buildDepositRoute demo_strkey ''CPOOL'' 5000 None None = Ok r \<and>
     validateInboundBurnTx demo_strkey demo_env (\<lambda>_. Some (dr_burn r))
       (Some (\<lparr> et_from = ''0xAb'', et_to = Some arbitrumSepoliaTokenMessenger, et_data = [] \<rparr>, 1)) ''0xAb'' 5000 ''CPOOL'' None None = Ok (dr_burn r)"
proof -
  have "is_ok (buildDepositRoute demo_strkey ''CPOOL'' 5000 None None)"
    by (simp add: buildDepositRoute_def validateInboundRoute_def stellarContractToBytes32_def encodeStellarForwardHook_def demo_strkey_def
        stellarCctpForwarder_def Let_def)
  then obtain r where r: "buildDepositRoute demo_strkey ''CPOOL'' 5000 None None = Ok r" by (auto simp: is_ok_iff)
  have m: "dr_tokenMessenger r = arbitrumSepoliaTokenMessenger" by (rule route_parts [OF r])
  show ?thesis
    using sdk_burn_validates_only_its_deposit [OF r, of "\<lambda>_. Some (dr_burn r)"
      "\<lparr> et_from = ''0xAb'', et_to = Some arbitrumSepoliaTokenMessenger, et_data = [] \<rparr>" demo_env] r m
    by (simp add: demo_env_def)
qed


text \<open>The other side of counting five empty answers as zero: when the reads before the mint fail, a user's deposit is registered for the whole
  balance of the pool.\<close>

theorem failed_reads_register_whole_balance:
  assumes "\<forall>i<5. clean (iw_balance w i) = []" "clean (iw_balance w 5) \<noteq> []" "big_int_of_string (clean (iw_balance w 5)) = Some b" "0 < b"
    and "iw_attestation w = Some att" "iw_mint w = Some tx" "iw_prove w b = Some (True, x)" "iw_receive w = Some y"
  shows "ReceiveDeposit (iw_keccak w (to_String (at_message att))) b commitment \<in> set (snd (runPostUserBurnCctpInbound w commitment True))"
proof -
  have e: "clean (iw_balance w 0) = []" "clean (iw_balance w 1) = []" "clean (iw_balance w 2) = []" "clean (iw_balance w 3) = []" "clean (iw_balance w 4) = []"
    using assms(1) by simp_all
  have five: "(5 :: nat) = Suc (Suc (Suc (Suc (Suc 0))))" "(10 :: nat) = Suc 9" by simp_all
  have "sacBalance (iw_balance w) 0 = (Ok 0, 5)" using e unfolding sacBalance_def five(1) by (simp add: numeral_eq_Suc)
  moreover have "sacBalance (iw_balance w) 5 = (Ok b, 6)"
    unfolding sacBalance_def using assms(2,3) sac_tries.simps(2) [of 4 "iw_balance w" 5] by simp
  ultimately have "minted_delta w = Ok b" using assms(4,6) await_growth.simps(2) [of 9] by (simp add: minted_delta_def)
  then show ?thesis
    using assms(4-8) by (auto simp: runPostUserBurnCctpInbound_def register_note_def Let_def split: option.split prod.split)
qed

definition demo_world :: inbound_world where
  "demo_world = \<lparr> iw_attestation = Some \<lparr> at_status = ''complete'', at_message = VStr ''0x01'', at_attestation = VStr ''0x02'' \<rparr>,
     iw_keccak = (\<lambda>s. s), iw_balance = (\<lambda>n. if n = 0 then ''100'' else ''149''), iw_mint = Some ''tx'',
     iw_prove = (\<lambda>_. None), iw_receive = Some (''rx'', ''3''), iw_root = Some ''root'' \<rparr>"

definition demo_params :: inbound_params where
  "demo_params = \<lparr> ip_amount6 = 5, ip_commitmentHex = ''0xcc'', ip_fast = None, ip_maxFee6 = None, ip_targetContract = None,
     ip_newRootHex = None, ip_has_coin = False \<rparr>"


end
