(* ===== verification/Api.thy ===== *)
theory Api
  imports Privy Cctp
begin

text \<open>
  The HTTP API, \<open>apps/api/src/routes.ts\<close>, first part: request plumbing, identifiers
  (\<open>packages/shared-types/src/ids.ts\<close>), authentication and wallets, user-signed deposits, note backups and
  note vaults. A handler takes the request and what the code draws or reads outside
  (clock, nonces, environment) and is a statement on the API's state. A body is given as the outcome of
  its zod schema: \<open>None\<close> is the \<open>ZodError\<close>, which the error handler answers with 400. A reply with an
  error code is the thrown error with that code.
\<close>

named_theorems api_simps \<open>unfolding statements of handlers\<close>

record api_env =
  en_es256 :: "jsval \<Rightarrow> bytes \<Rightarrow> bytes \<Rightarrow> bool option"
  en_privyAppId :: "string option"
  en_privyKey :: bool
  en_legacyWalletAuth :: bool
  en_wallet :: wallet_lib
  en_mainnet :: bool
  en_min_mainnet :: "int option"
  en_min_testnet :: "int option"
  en_allowEvmOnly :: bool
  en_sha256 :: "bytes \<Rightarrow> bytes"
  en_collate :: "string \<Rightarrow> nat list"
  en_strkey :: strkey_lib
  en_usdc :: "string option"
  en_tokenMessenger :: "string option"
  en_forwarder :: "string option"
  en_pool :: "string option"

text \<open>The database the services share: the API's own tables, and the committee's tables with the job queue.\<close>

record api =
  ap_store :: store
  ap_mpc :: settle_db
  ap_shares :: "(string \<times> encrypted_share) list"

definition with_store :: "(store, api_err, 'a) stmt \<Rightarrow> (api, api_err, 'a) stmt" where
  "with_store m a = (case m (ap_store a) of (r, st) \<Rightarrow> (r, a \<lparr> ap_store := st \<rparr>))"

definition do_store :: "(store \<Rightarrow> store) \<Rightarrow> (api, api_err, unit) stmt" where
  "do_store f a = (Ok (), a \<lparr> ap_store := f (ap_store a) \<rparr>)"

definition get_store :: "(store \<Rightarrow> 'a) \<Rightarrow> (api, api_err, 'a) stmt" where
  "get_store f a = (Ok (f (ap_store a)), a)"

definition run_store :: "(store \<Rightarrow> 'a \<times> store) \<Rightarrow> (api, api_err, 'a) stmt" where
  "run_store f a = (case f (ap_store a) of (x, st) \<Rightarrow> (Ok x, a \<lparr> ap_store := st \<rparr>))"

definition ret :: "'a \<Rightarrow> (api, api_err, 'a) stmt" where
  "ret x a = (Ok x, a)"

definition raise :: "nat \<Rightarrow> string \<Rightarrow> (api, api_err, 'a) stmt" where
  "raise code msg a = (Throw (code, msg), a)"

definition require :: "bool \<Rightarrow> nat \<Rightarrow> string \<Rightarrow> (api, api_err, unit) stmt" where
  "require b code msg a = (if b then (Ok (), a) else (Throw (code, msg), a))"

definition parsed :: "'a option \<Rightarrow> (api, api_err, 'a) stmt" where
  "parsed body a = (case body of None \<Rightarrow> (Throw (400, ''invalid request body''), a) | Some b \<Rightarrow> (Ok b, a))"

definition from_result :: "(api_err, 'a) result \<Rightarrow> (api, api_err, 'a) stmt" where
  "from_result r a = (r, a)"

text \<open>\<open>idempotencyHeader\<close>: a string of at least eight characters.\<close>

definition idem :: "request \<Rightarrow> (api, api_err, string) stmt" where
  "idem rq a = (case rq_idempotency_key rq of None \<Rightarrow> (Throw (400, ''invalid request body''), a)
     | Some k \<Rightarrow> if length k \<ge> 8 then (Ok k, a) else (Throw (400, ''invalid request body''), a))"

definition enqueue_job :: "int \<Rightarrow> queue_name \<Rightarrow> string \<Rightarrow> jsval \<Rightarrow> string option \<Rightarrow> (api, api_err, service_job) stmt" where
  "enqueue_job now q jobType payload key a =
    (case enqueue now q jobType payload key (d_queue (ap_mpc a)) of
       (Inl e, qs) \<Rightarrow> (Throw (500, ''database error''), a \<lparr> ap_mpc := (ap_mpc a) \<lparr> d_queue := qs \<rparr> \<rparr>)
     | (Inr j, qs) \<Rightarrow> (Ok j, a \<lparr> ap_mpc := (ap_mpc a) \<lparr> d_queue := qs \<rparr> \<rparr>))"


section \<open>Identifiers\<close>

definition json_text :: "jsval \<Rightarrow> string" where
  "json_text v = (if v = VUndef then ''undefined'' else stringify v)"

text \<open>Members sorted by \<open>localeCompare\<close>, through the collation key \<open>coll\<close>.\<close>

fun stableStringify :: "(string \<Rightarrow> nat list) \<Rightarrow> jsval \<Rightarrow> string" where
  "stableStringify coll (VArr vs) = CHR ''['' # sep_by (map (stableStringify coll) vs) @ '']''"
| "stableStringify coll (VObj ms) =
    CHR ''{'' # sep_by (map (\<lambda>(k, t). quote k @ CHR '':'' # t)
      (sort_key (\<lambda>m. coll (fst m)) (map (\<lambda>m. (fst m, stableStringify coll (snd m))) ms))) @ ''}''"
| "stableStringify coll v = json_text v"

definition hashJson :: "api_env \<Rightarrow> jsval \<Rightarrow> string" where
  "hashJson env v = ''0x'' @ to_hex (en_sha256 env (utf8 (stableStringify (en_collate env) v)))"

fun join_nul :: "string list \<Rightarrow> string" where
  "join_nul [] = []"
| "join_nul [x] = x"
| "join_nul (x # y # ys) = x @ CHR 0x00 # join_nul (y # ys)"

definition deterministicId :: "api_env \<Rightarrow> string \<Rightarrow> string list \<Rightarrow> string" where
  "deterministicId env ns parts = ns @ ''_'' @ take 32 (to_hex (en_sha256 env (utf8 (ns @ CHR 0x00 # join_nul parts))))"


section \<open>Authentication\<close>

definition or_default :: "string option \<Rightarrow> string \<Rightarrow> string" where
  "or_default v d = (case v of None \<Rightarrow> d | Some s \<Rightarrow> if s = [] then d else s)"

definition privyEnabled :: "api_env \<Rightarrow> bool" where
  "privyEnabled env = (or_default (en_privyAppId env) [] \<noteq> [] \<or> en_privyKey env)"

definition require_privy :: "api_env \<Rightarrow> int \<Rightarrow> request \<Rightarrow> (api, api_err, nat \<times> jsval) stmt" where
  "require_privy env now rq = with_store (requirePrivyUser (en_es256 env) (en_privyAppId env) now rq)"

definition authedUser :: "api_env \<Rightarrow> int \<Rightarrow> request \<Rightarrow> (api, api_err, nat) stmt" where
  "authedUser env now rq =
    (if privyEnabled env then andThen (require_privy env now rq) (\<lambda>p. ret (fst p))
     else if en_legacyWalletAuth env then andThen (get_store (requireUser (en_wallet env) now rq)) from_result
     else raise 401 ''authentication not configured'')"

definition authedUserOptional :: "api_env \<Rightarrow> int \<Rightarrow> request \<Rightarrow> (api, api_err, nat option) stmt" where
  "authedUserOptional env now rq =
    (if privyEnabled env then with_store (optionalPrivyUser (en_es256 env) (en_privyAppId env) now rq)
     else if en_legacyWalletAuth env then andThen (get_store (optionalUser (en_wallet env) now rq)) from_result
     else ret None)"

definition assertRootHealthy :: "(api, api_err, unit) stmt" where
  "assertRootHealthy = andThen (get_store criticalRootMismatchCount) (\<lambda>n. require (n = 0) 409 ''ROOT_MISMATCH_CRITICAL'')"

definition log :: "nat \<Rightarrow> string \<Rightarrow> string option \<Rightarrow> string option \<Rightarrow> string option \<Rightarrow> (string \<times> jsval) list \<Rightarrow> (api, api_err, unit) stmt" where
  "log userId ev et eid tx md = do_store (logActivity (Some userId) ev et eid tx (VObj md))"

definition CHAIN_FOR :: "wallet_type \<Rightarrow> string" where
  "CHAIN_FOR t = (case t of EVM \<Rightarrow> ''arbitrum-sepolia'' | STELLAR \<Rightarrow> ''stellar-testnet'')"

record nonce_body =
  nb_wallet_type :: wallet_type
  nb_address :: string

definition post_auth_nonce :: "api_env \<Rightarrow> int \<Rightarrow> string \<Rightarrow> nonce_body option \<Rightarrow> (api, api_err, string \<times> string) stmt" where
  "post_auth_nonce env now nonce body =
    andThen (parsed body) (\<lambda>b.
    case normalizeAddress (en_wallet env) (nb_wallet_type b) (nb_address b) of
      None \<Rightarrow> raise 500 ''invalid address''
    | Some address \<Rightarrow>
        let message = authMessage (nb_wallet_type b) address nonce in
        andThen (do_store (createNonce now (wallet_type_text (nb_wallet_type b)) address nonce message (now + NONCE_TTL))) (\<lambda>_.
        ret (address, message)))"

record verify_body =
  vb_address :: string
  vb_signature :: string
  vb_nonce :: string

text \<open>The login: \<open>token\<close> is the drawn session token.\<close>

definition verifyHandler :: "api_env \<Rightarrow> int \<Rightarrow> string \<Rightarrow> wallet_type \<Rightarrow> verify_body option \<Rightarrow> (api, api_err, nat \<times> string) stmt" where
  "verifyHandler env now token walletType body =
    andThen (parsed body) (\<lambda>b.
    case normalizeAddress (en_wallet env) walletType (vb_address b) of
      None \<Rightarrow> raise 500 ''invalid address''
    | Some address \<Rightarrow>
        andThen (run_store (consumeNonce now (wallet_type_text walletType) address (vb_nonce b))) (\<lambda>m.
        case m of
          None \<Rightarrow> raise 401 ''invalid or expired nonce''
        | Some message \<Rightarrow>
            if message = [] then raise 401 ''invalid or expired nonce''
            else if \<not> verifyWalletSignature (en_wallet env) walletType address message (vb_signature b)
            then raise 401 ''signature verification failed''
            else
              andThen (run_store (upsertUserByWallet now (wallet_type_text walletType) (CHAIN_FOR walletType) address)) (\<lambda>userId.
              andThen (with_store (createSession userId (sha256Hex (en_wallet env) token) (now + SESSION_TTL))) (\<lambda>_.
              andThen (log userId ''auth.login'' (Some ''wallet'') (Some address) None
                [(''walletType'', VStr (wallet_type_text walletType))]) (\<lambda>_.
              ret (userId, token))))))"

definition get_auth_session :: "api_env \<Rightarrow> int \<Rightarrow> request \<Rightarrow> (api, api_err, nat option) stmt" where
  "get_auth_session env now rq = authedUserOptional env now rq"

definition post_auth_logout :: "api_env \<Rightarrow> int \<Rightarrow> request \<Rightarrow> (api, api_err, unit) stmt" where
  "post_auth_logout env now rq =
    (case readSessionToken rq of
       None \<Rightarrow> raise 500 ''URI malformed''
     | Some None \<Rightarrow> ret ()
     | Some (Some token) \<Rightarrow> if token = [] then ret () else do_store (revokeSession now (sha256Hex (en_wallet env) token)))"


section \<open>Profile and wallets\<close>

definition get_me :: "api_env \<Rightarrow> int \<Rightarrow> request \<Rightarrow> (api, api_err, (user_row \<times> jsval option \<times> wallet_row list) option) stmt" where
  "get_me env now rq = andThen (authedUser env now rq) (\<lambda>u. get_store (getUser u))"

definition patch_me ::
  "api_env \<Rightarrow> int \<Rightarrow> request \<Rightarrow> me_update option \<Rightarrow> (api, api_err, (user_row \<times> jsval option \<times> wallet_row list) option) stmt" where
  "patch_me env now rq body =
    andThen (authedUser env now rq) (\<lambda>u. andThen (parsed body) (\<lambda>b. andThen (do_store (updateUser u b)) (\<lambda>_. get_store (getUser u))))"

definition get_me_wallets :: "api_env \<Rightarrow> int \<Rightarrow> request \<Rightarrow> (api, api_err, wallet_row list) stmt" where
  "get_me_wallets env now rq = andThen (authedUser env now rq) (\<lambda>u. get_store (listWallets u))"

definition post_sync_privy ::
  "api_env \<Rightarrow> int \<Rightarrow> request \<Rightarrow> linked_wallet list option \<Rightarrow> (api, api_err, nat \<times> wallet_row list) stmt" where
  "post_sync_privy env now rq body =
    andThen (require_privy env now rq) (\<lambda>(u, did).
    andThen (parsed body) (\<lambda>ws.
    andThen (run_store (syncPrivyWallets now u (to_String did) ws)) (\<lambda>n.
    andThen (log u ''wallet.sync_privy'' None None None [(''count'', VNum (NInt (int n)))]) (\<lambda>_.
    andThen (get_store (listWallets u)) (\<lambda>l. ret (n, l))))))"

record add_wallet_body =
  aw_wallet_type :: wallet_type
  aw_address :: string
  aw_signature :: string
  aw_nonce :: string

definition post_me_wallets :: "api_env \<Rightarrow> int \<Rightarrow> request \<Rightarrow> add_wallet_body option \<Rightarrow> (api, api_err, nat) stmt" where
  "post_me_wallets env now rq body =
    andThen (authedUser env now rq) (\<lambda>u.
    andThen (parsed body) (\<lambda>b.
    case normalizeAddress (en_wallet env) (aw_wallet_type b) (aw_address b) of
      None \<Rightarrow> raise 500 ''invalid address''
    | Some address \<Rightarrow>
        andThen (run_store (consumeNonce now (wallet_type_text (aw_wallet_type b)) address (aw_nonce b))) (\<lambda>m.
        andThen (require (case m of None \<Rightarrow> False
            | Some msg \<Rightarrow> msg \<noteq> [] \<and> verifyWalletSignature (en_wallet env) (aw_wallet_type b) address msg (aw_signature b))
          401 ''wallet signature verification failed'') (\<lambda>_.
        andThen (run_store (addWallet now u (wallet_type_text (aw_wallet_type b)) (CHAIN_FOR (aw_wallet_type b)) address)) (\<lambda>wid.
        andThen (log u ''wallet.add'' (Some ''wallet'') (Some address) None []) (\<lambda>_. ret wid))))))"

definition delete_me_wallet :: "api_env \<Rightarrow> int \<Rightarrow> request \<Rightarrow> nat \<Rightarrow> (api, api_err, unit) stmt" where
  "delete_me_wallet env now rq walletId =
    andThen (authedUser env now rq) (\<lambda>u.
    andThen (run_store (deleteWallet u walletId)) (\<lambda>ok. require ok 409 ''cannot delete (not found or primary)''))"

definition get_me_rows :: "api_env \<Rightarrow> int \<Rightarrow> request \<Rightarrow> string \<Rightarrow> (api, api_err, row list) stmt" where
  "get_me_rows env now rq table = andThen (authedUser env now rq) (\<lambda>u. andThen (get_store (listByUser table u)) from_result)"


section \<open>User-signed deposits\<close>

record deposit_body =
  db_amount_usdc_6dp :: string
  db_source_chain :: string
  db_source_wallet_address :: string
  db_vault_id :: string
  db_commitment :: string
  db_encrypted_note_payload_hash :: string
  db_policy_id :: string

record prepare_reply =
  pr_deposit_id :: string
  pr_approve_to :: string
  pr_approve_amount :: string
  pr_burn_to :: string
  pr_burn :: burn_call
  pr_forward_recipient :: string
  pr_expected_amount_7dp_max :: string

definition big_or_500 :: "string \<Rightarrow> (api, api_err, int) stmt" where
  "big_or_500 s = (case big_int_of_string s of None \<Rightarrow> raise 500 ''Cannot convert to a BigInt'' | Some i \<Rightarrow> ret i)"

definition cctp_or_500 :: "(cctp_error, 'a) result \<Rightarrow> (api, api_err, 'a) stmt" where
  "cctp_or_500 r = (case r of Inl _ \<Rightarrow> raise 500 ''not a Stellar contract'' | Inr x \<Rightarrow> ret x)"

text \<open>The gates before anything is prepared.\<close>

definition deposit_gates :: "nat \<Rightarrow> deposit_body \<Rightarrow> int \<Rightarrow> (api, api_err, unit) stmt" where
  "deposit_gates u b amount6 =
    andThen (require (amount6 > 0) 400 ''amount must be positive'') (\<lambda>_.
    andThen (get_store (userOwnsWallet u (db_source_wallet_address b) None)) (\<lambda>ow.
    andThen (require ow 403 ''source wallet not linked to user'') (\<lambda>_.
    andThen (get_store (userOwnsVault u (db_vault_id b))) (\<lambda>ov.
    andThen (require ov 403 ''vault not owned by user'') (\<lambda>_.
    andThen (get_store (vaultDepositReady u (db_vault_id b))) (\<lambda>ready.
    andThen (require (case ready of None \<Rightarrow> False | Some (r, _) \<Rightarrow> r) 409 ''vault not deposit-ready'') (\<lambda>_.
    assertRootHealthy)))))))"

definition post_deposits_prepare ::
  "api_env \<Rightarrow> int \<Rightarrow> request \<Rightarrow> deposit_body option \<Rightarrow> (api, api_err, prepare_reply) stmt" where
  "post_deposits_prepare env now rq body =
    andThen (require_privy env now rq) (\<lambda>(u, did).
    andThen (parsed body) (\<lambda>b.
    andThen (idem rq) (\<lambda>key.
    andThen (require (db_source_chain b = ''arbitrum-sepolia'') 400 ''unsupported source_chain'') (\<lambda>_.
    andThen (big_or_500 (db_amount_usdc_6dp b)) (\<lambda>amount6.
    andThen (deposit_gates u b amount6) (\<lambda>_.
    let usdc = or_default (en_usdc env) arbitrumSepoliaUsdc;
        messenger = or_default (en_tokenMessenger env) arbitrumSepoliaTokenMessenger;
        forwarder = or_default (en_forwarder env) stellarCctpForwarder;
        pool = or_default (en_pool env) [] in
    andThen (cctp_or_500 (stellarContractToBytes32 (en_strkey env) forwarder)) (\<lambda>mintRecipient.
    andThen (cctp_or_500 (encodeStellarForwardHook (en_strkey env) pool)) (\<lambda>hookData.
    let maxFee = (if js_div amount6 1000 > 0 then js_div amount6 1000 else 1);
        amount7Max = usdc6ToStellar7 amount6;
        depositId = deterministicId env ''udep'' [key, db_commitment b] in
    andThen (with_store (createUserDeposit
      \<lparr> ud_depositId = depositId, ud_idempotencyKey = key, ud_userId = u, ud_sourceChain = db_source_chain b,
        ud_sourceWalletAddress = db_source_wallet_address b, ud_vaultId = db_vault_id b, ud_sourceDomain = arbitrumSepoliaDomain,
        ud_destinationDomain = stellarDomain, ud_assetId = usdc, ud_amount6 = int_to_string amount6,
        ud_amount7Max = int_to_string amount7Max, ud_commitment = db_commitment b,
        ud_encryptedNotePayloadHash = db_encrypted_note_payload_hash b, ud_policyId = db_policy_id b \<rparr>)) (\<lambda>_.
    andThen (log u ''deposit.prepare'' (Some ''deposit'') (Some depositId) None []) (\<lambda>_.
    ret \<lparr> pr_deposit_id = depositId, pr_approve_to = usdc, pr_approve_amount = int_to_string amount6, pr_burn_to = messenger,
          pr_burn = \<lparr> bc_amount = amount6, bc_destinationDomain = stellarDomain, bc_mintRecipient = mintRecipient, bc_burnToken = usdc,
            bc_destinationCaller = mintRecipient, bc_maxFee = maxFee, bc_minFinalityThreshold = FINALITY_THRESHOLD_CONFIRMED,
            bc_hookData = hookData \<rparr>,
          pr_forward_recipient = pool, pr_expected_amount_7dp_max = int_to_string amount7Max \<rparr>))))))))))"

record burn_body =
  bb_burn_tx_hash :: string
  bb_source_wallet_address :: string

text \<open>A null column is left out of the job payload.\<close>

definition burn_payload :: "row \<Rightarrow> string \<Rightarrow> burn_body \<Rightarrow> jsval" where
  "burn_payload dep depositId b = VObj ([(''deposit_id'', VStr depositId), (''burn_tx_hash'', VStr (bb_burn_tx_hash b)),
     (''source_wallet_address'', VStr (bb_source_wallet_address b)), (''expected_amount6'', col dep ''amount_usdc_6dp''),
     (''commitment'', col dep ''commitment''), (''vault_id'', col dep ''vault_id''),
     (''expected_finality'', VNum (NInt FINALITY_THRESHOLD_CONFIRMED))]
     @ (if col dep ''max_fee'' = VNull then [] else [(''expected_max_fee6'', col dep ''max_fee'')])
     @ [(''encryptedNotePayloadHashHex'', col dep ''encrypted_note_payload_hash''), (''policyIdHex'', col dep ''policy_id'')])"

definition post_burn_submitted :: "api_env \<Rightarrow> int \<Rightarrow> request \<Rightarrow> string \<Rightarrow> burn_body option \<Rightarrow> (api, api_err, nat) stmt" where
  "post_burn_submitted env now rq depositId body =
    andThen (require_privy env now rq) (\<lambda>(u, did).
    andThen (parsed body) (\<lambda>b.
    andThen (get_store (getDepositForUser u depositId)) (\<lambda>d.
    case d of
      None \<Rightarrow> raise 404 ''deposit not found''
    | Some dep \<Rightarrow>
        andThen (require (lower (to_String (col dep ''source_wallet_address'')) = lower (bb_source_wallet_address b)) 403 ''wallet mismatch'') (\<lambda>_.
        andThen (do_store (setDepositBurnTx depositId (bb_burn_tx_hash b))) (\<lambda>_.
        andThen (enqueue_job now QRelayer ''CCTP_INBOUND_AFTER_USER_BURN'' (burn_payload dep depositId b) (Some (''user-burn:'' @ depositId))) (\<lambda>j.
        andThen (log u ''deposit.burn_submitted'' (Some ''deposit'') (Some depositId) (Some (bb_burn_tx_hash b)) []) (\<lambda>_.
        ret (j_job_id j))))))))"

text \<open>The granular steps; \<open>body\<close> is spread over the deposit id. They authenticate nobody.\<close>

definition depositStep :: "int \<Rightarrow> string \<Rightarrow> string \<Rightarrow> (string \<times> jsval) list \<Rightarrow> (api, api_err, nat) stmt" where
  "depositStep now jobType depositId body =
    andThen (enqueue_job now QRelayer jobType (VObj (spread [(''deposit_id'', VStr depositId)] body)) (Some (jobType @ '':'' @ depositId))) (\<lambda>j.
    ret (j_job_id j))"

end
