(* ===== verification/ApiVault.thy ===== *)
theory ApiVault
  imports Api
begin

text \<open>
  The HTTP API, second part: note backups, recovery and note vaults, with the zod schemas of the
  envelope (\<open>apps/api/src/schemas.ts\<close>). The raw body is a JSON value, \<open>VUndef\<close> when there is none;
  a parsed object keeps only the members of its schema, in the order of the schema.
\<close>

section \<open>Schemas\<close>

fun z_string :: "jsval \<Rightarrow> string option" where
  "z_string (VStr s) = Some s"
| "z_string _ = None"

definition z_nonempty :: "jsval \<Rightarrow> string option" where
  "z_nonempty v = (case z_string v of Some s \<Rightarrow> if s = [] then None else Some s | None \<Rightarrow> None)"

fun z_record :: "jsval \<Rightarrow> (string \<times> jsval) list option" where
  "z_record (VObj ms) = Some ms"
| "z_record _ = None"

fun z_bool_optional :: "jsval \<Rightarrow> bool option option" where
  "z_bool_optional VUndef = Some None"
| "z_bool_optional (VBool b) = Some (Some b)"
| "z_bool_optional _ = None"

definition z_enum :: "('a \<Rightarrow> string) \<Rightarrow> 'a list \<Rightarrow> jsval \<Rightarrow> 'a option" where
  "z_enum name xs v = find_first (\<lambda>x. v = VStr (name x)) xs"

fun z_array :: "(jsval \<Rightarrow> 'a option) \<Rightarrow> jsval \<Rightarrow> 'a list option" where
  "z_array f (VArr vs) = (if list_all (\<lambda>v. f v \<noteq> None) vs then Some (map (\<lambda>v. the (f v)) vs) else None)"
| "z_array f _ = None"

fun active_text :: "bool \<Rightarrow> string" where
  "active_text True = ''active''"
| "active_text False = ''revoked''"

definition vaultWrapperSchema :: "jsval \<Rightarrow> vault_wrapper option" where
  "vaultWrapperSchema v =
    (case (z_string (js_get v ''id''),
           z_enum type_text [PasskeyPrf, StellarEd25519, RecoveryFileSecret, RecoveryKitPassword, EvmSignature] (js_get v ''type''),
           z_enum active_text [True, False] (js_get v ''status''), z_enum kdf_text [HkdfSha256, Pbkdf2Sha256] (js_get v ''kdf''),
           z_string (js_get v ''salt''), z_string (js_get v ''wrapped_key''), z_bool_optional (js_get v ''diagnostic_only''),
           z_record (js_get v ''metadata'')) of
       (Some i, Some t, Some a, Some k, Some s, Some wk, Some d, Some m) \<Rightarrow>
         Some \<lparr> vw_id = i, vw_type = t, vw_active = a, vw_kdf = k, vw_salt = s, vw_wrapped_key = wk, vw_diagnostic_only = d, vw_metadata = m \<rparr>
     | _ \<Rightarrow> None)"

record api_envelope =
  ae_vault_id :: string
  ae_privy_user_id :: string
  ae_iv :: string
  ae_aad :: "(string \<times> jsval) list"
  ae_ciphertext :: string
  ae_wrappers :: "vault_wrapper list"

definition encryptedVaultEnvelopeSchema :: "jsval \<Rightarrow> api_envelope option" where
  "encryptedVaultEnvelopeSchema v =
    (if js_get v ''version'' \<noteq> VStr ''shade-encrypted-vault-v1'' \<or> js_get (js_get v ''cipher'') ''name'' \<noteq> VStr ''AES-256-GCM''
        \<or> js_get (js_get v ''cipher'') ''tagLength'' \<noteq> VNum (NInt 128) then None
     else case (z_nonempty (js_get v ''vault_id''), z_nonempty (js_get v ''privy_user_id''), z_string (js_get (js_get v ''cipher'') ''iv''),
                z_record (js_get v ''aad''), z_nonempty (js_get v ''ciphertext''), z_array vaultWrapperSchema (js_get v ''wrappers'')) of
       (Some i, Some p, Some iv, Some aad, Some c, Some ws) \<Rightarrow>
         Some \<lparr> ae_vault_id = i, ae_privy_user_id = p, ae_iv = iv, ae_aad = aad, ae_ciphertext = c, ae_wrappers = ws \<rparr>
     | _ \<Rightarrow> None)"

definition api_envelope_value :: "api_envelope \<Rightarrow> jsval" where
  "api_envelope_value e = VObj
    [(''version'', VStr ''shade-encrypted-vault-v1''), (''vault_id'', VStr (ae_vault_id e)), (''privy_user_id'', VStr (ae_privy_user_id e)),
     (''cipher'', VObj [(''name'', VStr ''AES-256-GCM''), (''iv'', VStr (ae_iv e)), (''tagLength'', VNum (NInt 128))]),
     (''aad'', VObj (ae_aad e)), (''ciphertext'', VStr (ae_ciphertext e)), (''wrappers'', VArr (map wrapper_value (ae_wrappers e)))]"

record backup_verification =
  bv_vault_id :: string
  bv_decrypted_vault_hash :: string
  bv_commitments_hash :: string
  bv_method :: wrapper_type
  bv_verified_at_client :: string

definition verification_value :: "backup_verification \<Rightarrow> jsval" where
  "verification_value b = VObj [(''vault_id'', VStr (bv_vault_id b)), (''decrypted_vault_hash'', VStr (bv_decrypted_vault_hash b)),
     (''commitments_hash'', VStr (bv_commitments_hash b)), (''method'', VStr (type_text (bv_method b))),
     (''verified_at_client'', VStr (bv_verified_at_client b))]"


section \<open>Note backups and recovery\<close>

record backup_body =
  nk_commitment :: string
  nk_encrypted_payload :: string
  nk_encryption_version :: string

definition post_encrypted_backup :: "api_env \<Rightarrow> int \<Rightarrow> request \<Rightarrow> backup_body option \<Rightarrow> (api, api_err, string) stmt" where
  "post_encrypted_backup env now rq body =
    andThen (authedUser env now rq) (\<lambda>u.
    andThen (parsed body) (\<lambda>b.
    andThen (do_store (addNoteBackup u (nk_commitment b) (nk_encrypted_payload b) (nk_encryption_version b))) (\<lambda>_.
    andThen (log u ''note.backup'' (Some ''note'') (Some (nk_commitment b)) None []) (\<lambda>_.
    ret (nk_commitment b)))))"

text \<open>The plaintext scan; an error of the note-vault package carries no status.\<close>

definition scan :: "jsval \<Rightarrow> (api, api_err, unit) stmt" where
  "scan v = require (assertNoPlaintextNoteFields v = Ok ()) 500 ''plaintext note field rejected''"

definition opt_str_value :: "string option \<Rightarrow> jsval" where
  "opt_str_value x = (case x of None \<Rightarrow> VNull | Some s \<Rightarrow> VStr s)"

text \<open>Vaults with id, envelope, backup status and recovery policy, and the note backups.\<close>

definition post_notes_recover ::
  "api_env \<Rightarrow> int \<Rightarrow> request \<Rightarrow> string option option \<Rightarrow> (api, api_err, (string \<times> jsval \<times> string \<times> string) list \<times> row list) stmt" where
  "post_notes_recover env now rq body =
    andThen (require_privy env now rq) (\<lambda>(u, did).
    andThen (parsed body) (\<lambda>vaultId.
    andThen (get_store (listNoteVaultsForRecovery u vaultId)) (\<lambda>vaults.
    andThen (each (\<lambda>v. scan (v_envelope v)) vaults) (\<lambda>_.
    andThen (get_store (listByUser ''encrypted_note_backups'' u)) (\<lambda>r.
    andThen (from_result r) (\<lambda>backups.
    andThen (log u ''notes.recover'' None None None
      [(''vault_count'', VNum (NInt (int (length vaults)))), (''backup_count'', VNum (NInt (int (length backups)))),
       (''vault_id'', opt_str_value vaultId)]) (\<lambda>_.
    ret (map (\<lambda>v. (v_vault_id v, v_envelope v, v_backup_status v, v_recovery_policy_status v)) vaults, backups))))))))"


section \<open>Note vaults\<close>

fun policy_text :: "policy_status \<Rightarrow> string" where
  "policy_text Insufficient = ''insufficient''"
| "policy_text Sufficient = ''sufficient''"
| "policy_text Strong = ''strong''"

text \<open>The configured minimums are whole numbers, 2 and 1 when unset.\<close>

definition recoveryPolicyFor :: "api_env \<Rightarrow> vault_wrapper list \<Rightarrow> string" where
  "recoveryPolicyFor env ws = policy_text (evaluateRecoveryPolicy ws (en_mainnet env)
     (Some (if en_mainnet env then (case en_min_mainnet env of None \<Rightarrow> 2 | Some m \<Rightarrow> m) else (case en_min_testnet env of None \<Rightarrow> 1 | Some m \<Rightarrow> m)))
     (en_allowEvmOnly env))"

definition ingestEnvelope :: "api_env \<Rightarrow> api_envelope \<Rightarrow> (api, api_err, string) stmt" where
  "ingestEnvelope env e =
    andThen (require (validateVaultEnvelope (api_envelope_value e) = Ok ()) 500 ''malformed envelope'') (\<lambda>_.
    andThen (scan (api_envelope_value e)) (\<lambda>_.
    ret (recoveryPolicyFor env (ae_wrappers e))))"

text \<open>\<open>request.body.envelope\<close>\<close>

definition body_member :: "jsval \<Rightarrow> string \<Rightarrow> (api, api_err, jsval) stmt" where
  "body_member body k = (if body = VUndef \<or> body = VNull then raise 500 ''Cannot read properties'' else ret (js_get body k))"

definition vault_input_of :: "api_envelope \<Rightarrow> string \<Rightarrow> vault_input" where
  "vault_input_of e policy = \<lparr> vi_envelope = api_envelope_value e, vi_ciphertext = ae_ciphertext e, vi_aad = VObj (ae_aad e),
     vi_recoveryPolicyStatus = policy \<rparr>"

definition add_wrapper :: "nat \<Rightarrow> string \<Rightarrow> vault_wrapper \<Rightarrow> (api, api_err, nat) stmt" where
  "add_wrapper u vaultId w = with_store (addVaultWrapper u vaultId (type_text (vw_type w)) (VObj (vw_metadata w)))"

definition post_note_vaults :: "api_env \<Rightarrow> int \<Rightarrow> request \<Rightarrow> jsval \<Rightarrow> (api, api_err, string \<times> string) stmt" where
  "post_note_vaults env now rq body =
    andThen (require_privy env now rq) (\<lambda>(u, did).
    andThen (scan body) (\<lambda>_.
    andThen (body_member body ''envelope'') (\<lambda>raw.
    andThen (parsed (encryptedVaultEnvelopeSchema raw)) (\<lambda>e.
    andThen (require (VStr (ae_privy_user_id e) = did) 403 ''envelope privy_user_id mismatch'') (\<lambda>_.
    andThen (ingestEnvelope env e) (\<lambda>policy.
    andThen (do_store (createNoteVault now u (to_String did) (ae_vault_id e) (vault_input_of e policy))) (\<lambda>_.
    andThen (each (\<lambda>w. andThen (add_wrapper u (ae_vault_id e) w) (\<lambda>_. ret ())) (ae_wrappers e)) (\<lambda>_.
    andThen (log u ''vault.create'' (Some ''vault'') (Some (ae_vault_id e)) None [(''recovery_policy_status'', VStr policy)]) (\<lambda>_.
    ret (ae_vault_id e, policy))))))))))"

definition get_note_vaults :: "api_env \<Rightarrow> int \<Rightarrow> request \<Rightarrow> (api, api_err, vault_row list) stmt" where
  "get_note_vaults env now rq = andThen (require_privy env now rq) (\<lambda>(u, did). get_store (listNoteVaults u))"

definition get_note_vault :: "api_env \<Rightarrow> int \<Rightarrow> request \<Rightarrow> string \<Rightarrow> (api, api_err, vault_row) stmt" where
  "get_note_vault env now rq vaultId =
    andThen (require_privy env now rq) (\<lambda>(u, did).
    andThen (get_store (getNoteVault u vaultId)) (\<lambda>v.
    case v of None \<Rightarrow> raise 404 ''vault not found'' | Some x \<Rightarrow> ret x))"

definition put_note_vault :: "api_env \<Rightarrow> int \<Rightarrow> request \<Rightarrow> string \<Rightarrow> jsval \<Rightarrow> (api, api_err, string) stmt" where
  "put_note_vault env now rq vaultId body =
    andThen (require_privy env now rq) (\<lambda>(u, did).
    andThen (scan body) (\<lambda>_.
    andThen (body_member body ''envelope'') (\<lambda>raw.
    andThen (parsed (encryptedVaultEnvelopeSchema raw)) (\<lambda>e.
    andThen (require (ae_vault_id e = vaultId \<and> VStr (ae_privy_user_id e) = did) 403 ''vault id / identity mismatch'') (\<lambda>_.
    andThen (ingestEnvelope env e) (\<lambda>policy.
    andThen (run_store (updateNoteVault u vaultId (vault_input_of e policy))) (\<lambda>ok.
    andThen (require ok 404 ''vault not found'') (\<lambda>_.
    ret policy))))))))"

definition post_verify_backup ::
  "api_env \<Rightarrow> int \<Rightarrow> request \<Rightarrow> string \<Rightarrow> backup_verification option \<Rightarrow> (api, api_err, (bool \<times> string \<times> string) option) stmt" where
  "post_verify_backup env now rq vaultId body =
    andThen (require_privy env now rq) (\<lambda>(u, did).
    andThen (parsed body) (\<lambda>b.
    andThen (require (bv_vault_id b = vaultId) 400 ''verification vault_id mismatch'') (\<lambda>_.
    andThen (get_store (getNoteVault u vaultId)) (\<lambda>v.
    case v of
      None \<Rightarrow> raise 404 ''vault not found''
    | Some vault \<Rightarrow>
        andThen (require (policy_ok (v_recovery_policy_status vault)) 409 ''recovery policy insufficient'') (\<lambda>_.
        andThen (run_store (setVaultBackupVerified now u vaultId (verification_value b))) (\<lambda>_.
        andThen (log u ''vault.backup_verified'' (Some ''vault'') (Some vaultId) None [(''method'', VStr (type_text (bv_method b)))]) (\<lambda>_.
        get_store (vaultDepositReady u vaultId))))))))"

definition post_mark_restored :: "api_env \<Rightarrow> int \<Rightarrow> request \<Rightarrow> string \<Rightarrow> (api, api_err, unit) stmt" where
  "post_mark_restored env now rq vaultId =
    andThen (require_privy env now rq) (\<lambda>(u, did).
    andThen (run_store (setVaultBackupStatus now u vaultId ''restored'')) (\<lambda>ok.
    andThen (require ok 404 ''vault not found'') (\<lambda>_.
    log u ''vault.restored'' (Some ''vault'') (Some vaultId) None [])))"

text \<open>\<open>addWrapperSchema\<close>: the new wrapper and the re-encrypted envelope. Whether the update found the vault is not looked at.\<close>

definition post_wrappers :: "api_env \<Rightarrow> int \<Rightarrow> request \<Rightarrow> string \<Rightarrow> jsval \<Rightarrow> (api, api_err, nat \<times> string) stmt" where
  "post_wrappers env now rq vaultId body =
    andThen (require_privy env now rq) (\<lambda>(u, did).
    andThen (scan body) (\<lambda>_.
    andThen (parsed (vaultWrapperSchema (js_get body ''wrapper''))) (\<lambda>w.
    andThen (parsed (encryptedVaultEnvelopeSchema (js_get body ''envelope''))) (\<lambda>e.
    andThen (require (ae_vault_id e = vaultId) 403 ''vault id mismatch'') (\<lambda>_.
    andThen (ingestEnvelope env e) (\<lambda>policy.
    andThen (run_store (updateNoteVault u vaultId (vault_input_of e policy))) (\<lambda>_.
    andThen (add_wrapper u vaultId w) (\<lambda>wid.
    ret (wid, policy)))))))))"

definition delete_wrapper :: "api_env \<Rightarrow> int \<Rightarrow> request \<Rightarrow> string \<Rightarrow> nat \<Rightarrow> (api, api_err, unit) stmt" where
  "delete_wrapper env now rq vaultId wrapperId =
    andThen (require_privy env now rq) (\<lambda>(u, did).
    andThen (run_store (deleteVaultWrapper u vaultId wrapperId)) (\<lambda>ok. require ok 404 ''wrapper not found''))"

end
