(* ===== verification/Rfq.thy ===== *)
theory Rfq
  imports ApiVault
begin

text \<open>
  The HTTP API, third part: proof jobs, withdrawals, and the RFQ lifecycle from the intent to
  the settlement, with the hand-over to the MPC committee. The committee's tables and the job
  queue are \<open>ap_mpc\<close>; its field \<open>d_rfq_hashes\<close> is the column \<open>intents.intent_hash\<close> and is brought up to date with
  each insert into \<open>intents\<close>. What a service answers is an argument of the handler.
\<close>

section \<open>Plumbing\<close>

text \<open>An HTTP call: not reachable, or a status and a body (\<open>None\<close>: not JSON).\<close>

datatype http_answer = Unreachable | Answer nat "jsval option"

definition http_ok :: "nat \<Rightarrow> bool" where
  "http_ok code = (200 \<le> code \<and> code < 300)"

definition nullish :: "jsval \<Rightarrow> jsval \<Rightarrow> jsval" where
  "nullish a b = (if a = VUndef \<or> a = VNull then b else a)"

text \<open>A value bound to a text column.\<close>

definition pg_text :: "jsval \<Rightarrow> string" where
  "pg_text v = (case v of VStr s \<Rightarrow> s | _ \<Rightarrow> json_text v)"

definition with_mpc :: "(settle_db, db_error, 'a) stmt \<Rightarrow> (api, api_err, 'a) stmt" where
  "with_mpc m a = (case m (ap_mpc a) of (Inl e, db) \<Rightarrow> (Throw (500, ''database error''), a \<lparr> ap_mpc := db \<rparr>)
     | (Inr x, db) \<Rightarrow> (Ok x, a \<lparr> ap_mpc := db \<rparr>))"

definition intent_hashes :: "store \<Rightarrow> string list" where
  "intent_hashes st = List.map_filter (\<lambda>r. z_string (col r ''intent_hash'')) (st_tables st ''intents'')"

definition sync_hashes :: "(api, api_err, unit) stmt" where
  "sync_hashes a = (Ok (), a \<lparr> ap_mpc := (ap_mpc a) \<lparr> d_rfq_hashes := intent_hashes (ap_store a) \<rparr> \<rparr>)"

definition moved :: "string \<Rightarrow> string \<Rightarrow> string \<Rightarrow> string option \<Rightarrow> (api, api_err, unit) stmt" where
  "moved entityType entityId toState txHash = do_store (transition entityType entityId toState txHash)"

definition find_row :: "string \<Rightarrow> string \<Rightarrow> string \<Rightarrow> (api, api_err, row option) stmt" where
  "find_row table idColumn ident = andThen (get_store (getById table idColumn ident)) from_result"

text \<open>\<open>row.user_id && row.user_id !== userId\<close>; an id is never falsy.\<close>

definition foreign_row :: "nat \<Rightarrow> row \<Rightarrow> bool" where
  "foreign_row u r = (col r ''user_id'' \<noteq> VNull \<and> col r ''user_id'' \<noteq> uid_value u)"

definition requireOwned :: "string \<Rightarrow> string \<Rightarrow> string \<Rightarrow> nat \<Rightarrow> string \<Rightarrow> (api, api_err, unit) stmt" where
  "requireOwned what table idColumn u ident =
    andThen (find_row table idColumn ident) (\<lambda>r.
    case r of
      None \<Rightarrow> raise 404 (what @ '' not found'')
    | Some x \<Rightarrow> require (\<not> foreign_row u x) 403 (what @ '' not owned by user''))"

definition requireOwnedIntent :: "nat \<Rightarrow> string \<Rightarrow> (api, api_err, unit) stmt" where
  "requireOwnedIntent u h = requireOwned ''intent'' ''intents'' ''intent_hash'' u h"

definition requireOwnedExit :: "nat \<Rightarrow> string \<Rightarrow> (api, api_err, unit) stmt" where
  "requireOwnedExit u e = requireOwned ''exit'' ''cctp_exits'' ''exit_id'' u e"


section \<open>Proof jobs and job status\<close>

datatype proof_type = DepositNoteMint | WithdrawPublic | WithdrawCctp | RfqSettlement | PrivateTransfer

fun proof_type_text :: "proof_type \<Rightarrow> string" where
  "proof_type_text DepositNoteMint = ''deposit_note_mint''"
| "proof_type_text WithdrawPublic = ''withdraw_public''"
| "proof_type_text WithdrawCctp = ''withdraw_cctp''"
| "proof_type_text RfqSettlement = ''rfq_settlement''"
| "proof_type_text PrivateTransfer = ''private_transfer''"

record proof_body =
  pb_proof_type :: proof_type
  pb_public_inputs :: "(string \<times> jsval) list"
  pb_witness :: "(string \<times> jsval) list option"

definition proof_row :: "api_env \<Rightarrow> nat \<Rightarrow> string \<Rightarrow> string \<Rightarrow> proof_body \<Rightarrow> row" where
  "proof_row env u key proofJobId b =
    [(''proof_job_id'', VStr proofJobId), (''idempotency_key'', VStr key), (''proof_type'', VStr (proof_type_text (pb_proof_type b))),
     (''public_inputs_hash'', VStr (hashJson env (VObj (pb_public_inputs b)))), (''user_id'', uid_value u), (''status'', VStr ''queued'')]"

definition post_proof_request :: "api_env \<Rightarrow> int \<Rightarrow> request \<Rightarrow> proof_body option \<Rightarrow> (api, api_err, string \<times> nat) stmt" where
  "post_proof_request env now rq body =
    andThen (authedUser env now rq) (\<lambda>u.
    andThen (parsed body) (\<lambda>b.
    andThen (idem rq) (\<lambda>key.
    let proofJobId = deterministicId env ''proof''
          [key, proof_type_text (pb_proof_type b), hashJson env (VObj (pb_public_inputs b))] in
    andThen (with_store (insertGeneric ''proof_jobs'' (proof_row env u key proofJobId b))) (\<lambda>_.
    andThen (moved ''proof_job'' proofJobId ''queued'' None) (\<lambda>_.
    andThen (enqueue_job now QProver (proof_type_text (pb_proof_type b))
      (VObj (spread (case pb_witness b of None \<Rightarrow> [] | Some w \<Rightarrow> w) [(''user_id'', uid_value u)]))
      (Some (''proof:'' @ proofJobId))) (\<lambda>j.
    ret (proofJobId, j_job_id j)))))))"

definition get_proof :: "api_env \<Rightarrow> int \<Rightarrow> request \<Rightarrow> string \<Rightarrow> (api, api_err, row option) stmt" where
  "get_proof env now rq proofJobId =
    andThen (authedUser env now rq) (\<lambda>u.
    andThen (find_row ''proof_jobs'' ''proof_job_id'' proofJobId) (\<lambda>pj.
    andThen (require (case pj of None \<Rightarrow> True | Some r \<Rightarrow> \<not> foreign_row u r) 403 ''not your proof job'') (\<lambda>_.
    ret pj)))"

definition get_job :: "api_env \<Rightarrow> int \<Rightarrow> request \<Rightarrow> nat \<Rightarrow> (api, api_err, service_job \<times> service_event list) stmt" where
  "get_job env now rq jobId =
    andThen (authedUser env now rq) (\<lambda>_ a.
    (case getJob jobId (d_queue (ap_mpc a)) of
       None \<Rightarrow> raise 404 ''job not found'' a
     | Some j \<Rightarrow> ret (j, getEvents jobId (d_queue (ap_mpc a))) a))"


section \<open>Withdrawals\<close>

record withdrawal_body =
  wb_nullifier :: string
  wb_amount_public :: string
  wb_recipient :: string
  wb_relayer_fee :: string
  wb_deadline_ledger :: int

definition createWithdrawal :: "api_env \<Rightarrow> request \<Rightarrow> withdrawal_body option \<Rightarrow> nat \<Rightarrow> (api, api_err, string) stmt" where
  "createWithdrawal env rq body u =
    andThen (parsed body) (\<lambda>b.
    andThen (idem rq) (\<lambda>key.
    let withdrawalId = deterministicId env ''wd'' [key, wb_nullifier b] in
    andThen (with_store (insertGeneric ''withdrawals''
      [(''withdrawal_id'', VStr withdrawalId), (''idempotency_key'', VStr key), (''nullifier'', VStr (wb_nullifier b)),
       (''amount_usdc_7dp'', VStr (wb_amount_public b)), (''recipient'', VStr (wb_recipient b)), (''relayer_fee'', VStr (wb_relayer_fee b)),
       (''deadline_ledger'', VNum (NInt (wb_deadline_ledger b))), (''user_id'', uid_value u), (''state'', VStr ''prepared'')])) (\<lambda>_.
    andThen (moved ''withdrawal'' withdrawalId ''prepared'' None) (\<lambda>_.
    andThen (log u ''withdrawal.prepare'' (Some ''withdrawal'') (Some withdrawalId) None []) (\<lambda>_.
    ret withdrawalId)))))"

definition post_withdrawals_prepare :: "api_env \<Rightarrow> int \<Rightarrow> request \<Rightarrow> withdrawal_body option \<Rightarrow> (api, api_err, string) stmt" where
  "post_withdrawals_prepare env now rq body =
    andThen (authedUser env now rq) (\<lambda>u. andThen assertRootHealthy (\<lambda>_. createWithdrawal env rq body u))"

text \<open>A template literal with a member of the body, or no key when it is falsy.\<close>

definition body_key :: "string \<Rightarrow> (string \<times> jsval) list \<Rightarrow> string option" where
  "body_key pre b = (let v = js_get (VObj b) ''idempotency_key'' in if truthy v then Some (pre @ to_String v) else None)"

definition post_withdrawals_submit :: "api_env \<Rightarrow> int \<Rightarrow> request \<Rightarrow> (string \<times> jsval) list \<Rightarrow> (api, api_err, nat) stmt" where
  "post_withdrawals_submit env now rq b =
    andThen (authedUser env now rq) (\<lambda>u.
    andThen assertRootHealthy (\<lambda>_.
    andThen (enqueue_job now QRelayer ''WITHDRAW_PUBLIC_SUBMIT'' (VObj b) (body_key ''wd-submit:'' b)) (\<lambda>j.
    ret (j_job_id j))))"


section \<open>Intents\<close>

record private_intent =
  pi_user_pubkey_commitment :: string
  pi_input_asset :: string
  pi_output_asset :: string
  pi_amount_mode :: string
  pi_amount_commitment :: string
  pi_min_output_commitment :: string
  pi_expiry_ledger :: int
  pi_allowed_solvers_root :: string
  pi_compliance_policy_id :: string
  pi_destination_commitment :: string
  pi_signature :: string
  pi_note_nullifier :: "string option"
  pi_note_commitment :: "string option"
  pi_recipient_commitment :: "string option"
  pi_encrypted_shares :: "encrypted_share list option"

definition share_value :: "encrypted_share \<Rightarrow> jsval" where
  "share_value s = VObj [(''nodeId'', VStr (es_nodeId s)), (''ciphertext'', VStr (es_ciphertext s)), (''nonce'', VStr (es_nonce s)),
     (''senderPubkey'', VStr (es_senderPubkey s))]"

definition intent_value :: "private_intent \<Rightarrow> jsval" where
  "intent_value b = VObj ([(''intent_type'', VStr ''PRIVATE_RFQ''), (''version'', VStr ''1.0''),
     (''user_pubkey_commitment'', VStr (pi_user_pubkey_commitment b)), (''input_asset'', VStr (pi_input_asset b)),
     (''output_asset'', VStr (pi_output_asset b)), (''amount_mode'', VStr (pi_amount_mode b)),
     (''amount_commitment'', VStr (pi_amount_commitment b)), (''min_output_commitment'', VStr (pi_min_output_commitment b)),
     (''expiry_ledger'', VNum (NInt (pi_expiry_ledger b))), (''allowed_solvers_root'', VStr (pi_allowed_solvers_root b)),
     (''compliance_policy_id'', VStr (pi_compliance_policy_id b)), (''destination_commitment'', VStr (pi_destination_commitment b)),
     (''replay_domain'', VStr ''shade:stellar:testnet:rfq:v1''), (''signature'', VStr (pi_signature b))]
     @ opt_member ''note_nullifier'' (map_option VStr (pi_note_nullifier b))
     @ opt_member ''note_commitment'' (map_option VStr (pi_note_commitment b))
     @ opt_member ''recipient_commitment'' (map_option VStr (pi_recipient_commitment b))
     @ opt_member ''encrypted_shares'' (map_option (\<lambda>ss. VArr (map share_value ss)) (pi_encrypted_shares b)))"

definition intent_row_of :: "nat \<Rightarrow> string \<Rightarrow> string \<Rightarrow> private_intent \<Rightarrow> row" where
  "intent_row_of u key intentHash b =
    [(''intent_hash'', VStr intentHash), (''idempotency_key'', VStr key),
     (''encrypted_payload'', VStr (stringify (VObj [(''ciphertext'', VStr ''client-encrypted-payload-required'')]))),
     (''public_commitment'', intent_value b), (''expiry_ledger'', VNum (NInt (pi_expiry_ledger b))),
     (''policy_id'', VStr (pi_compliance_policy_id b)), (''user_signature'', VStr (pi_signature b)), (''user_id'', uid_value u),
     (''state'', VStr ''INTENT_CREATED'')]"

text \<open>The statements on the committee's tables: a session row is made if missing; an intent row refers to a session, and on a conflict
  moves to the new session; one share per intent and node.\<close>

definition ensure_session :: "string \<Rightarrow> (settle_db, db_error, unit) stmt" where
  "ensure_session sid db =
    (if sid \<in> sr_session_id ` set (d_sessions db) then (Ok (), db)
     else (Ok (), db \<lparr> d_sessions := d_sessions db @ [\<lparr> sr_session_id = sid, sr_status = ''open'', sr_match_count = 0 \<rparr>] \<rparr>))"

definition upsert_mpc_intent :: "intent_row \<Rightarrow> (settle_db, db_error, unit) stmt" where
  "upsert_mpc_intent r db =
    (if i_session_id r \<notin> sr_session_id ` set (d_sessions db) then (Throw ForeignKeyViolation, db)
     else if i_intent_id r \<in> i_intent_id ` set (d_intents db)
     then (Ok (), db \<lparr> d_intents := map (\<lambda>x. if i_intent_id x = i_intent_id r then x \<lparr> i_session_id := i_session_id r \<rparr> else x) (d_intents db) \<rparr>)
     else (Ok (), db \<lparr> d_intents := d_intents db @ [r] \<rparr>))"

definition insert_share :: "string \<Rightarrow> encrypted_share \<Rightarrow> (api, api_err, unit) stmt" where
  "insert_share intentId s a =
    (if intentId \<notin> i_intent_id ` set (d_intents (ap_mpc a)) then (Throw (500, ''database error''), a)
     else if list_ex (\<lambda>(i, x). i = intentId \<and> es_nodeId x = es_nodeId s) (ap_shares a) then (Ok (), a)
     else (Ok (), a \<lparr> ap_shares := ap_shares a @ [(intentId, s)] \<rparr>))"

definition mpc_row_of :: "nat \<Rightarrow> string \<Rightarrow> jsval \<Rightarrow> private_intent \<Rightarrow> intent_row" where
  "mpc_row_of u intentHash sid b =
    \<lparr> i_intent_id = intentHash, i_session_id = pg_text (nullish sid (VStr ''unknown'')), i_user_id = Some u,
      i_input_asset = pi_input_asset b, i_output_asset = pi_output_asset b, i_expiry_ledger = VNum (NInt (pi_expiry_ledger b)),
      i_policy_id = pi_compliance_policy_id b, i_note_nullifier = env_or (pi_note_nullifier b) [],
      i_note_commitment = env_or (pi_note_commitment b) [], i_recipient_commitment = env_or (pi_recipient_commitment b) [],
      i_status = ''pending'', i_matched_with = None \<rparr>"

text \<open>What follows an accepting answer of the committee.\<close>

definition persist_routing :: "nat \<Rightarrow> string \<Rightarrow> jsval \<Rightarrow> private_intent \<Rightarrow> (api, api_err, unit) stmt" where
  "persist_routing u intentHash sid b =
    andThen (if truthy sid then with_mpc (ensure_session (pg_text sid)) else ret ()) (\<lambda>_.
    andThen (with_mpc (upsert_mpc_intent (mpc_row_of u intentHash sid b))) (\<lambda>_.
    andThen (each (insert_share intentHash) (case pi_encrypted_shares b of None \<Rightarrow> [] | Some ss \<Rightarrow> ss)) (\<lambda>_.
    andThen (do_store (set_cols ''intents'' (\<lambda>r. col r ''intent_hash'' = VStr intentHash)
      [(''mpc_session_id'', if nullish sid VNull = VNull then VNull else VStr (pg_text sid))])) (\<lambda>_.
    log u ''mpc.intent.routed'' (Some ''intent'') (Some intentHash) None [(''mpcSessionId'', sid)]))))"

text \<open>The fields that route an intent to the committee.\<close>

definition hasMpcFields :: "private_intent \<Rightarrow> bool" where
  "hasMpcFields b = ((case pi_encrypted_shares b of None \<Rightarrow> False | Some ss \<Rightarrow> ss \<noteq> []) \<and>
     (case pi_note_nullifier b of None \<Rightarrow> False | Some n \<Rightarrow> n \<noteq> []) \<and> (case pi_note_commitment b of None \<Rightarrow> False | Some n \<Rightarrow> n \<noteq> []))"

text \<open>The session the committee assigned, and the state after the attempt to record it: errors in the \<open>try\<close> block are
  swallowed, with what ran before them kept.\<close>

definition route_to_mpc :: "http_answer \<Rightarrow> nat \<Rightarrow> string \<Rightarrow> private_intent \<Rightarrow> (api, api_err, jsval) stmt" where
  "route_to_mpc ans u intentHash b a =
    (case ans of
       Answer code (Some data) \<Rightarrow>
         if http_ok code \<and> data \<noteq> VNull
         then let sid = nullish (js_get data ''sessionId'') (js_get data ''session_id'') in
              (Ok sid, snd (persist_routing u intentHash sid b a))
         else (Ok VUndef, a)
     | _ \<Rightarrow> (Ok VUndef, a))"

text \<open>The hash of the intent and, when routed, its session.\<close>

definition post_intents :: "api_env \<Rightarrow> int \<Rightarrow> http_answer \<Rightarrow> request \<Rightarrow> private_intent option \<Rightarrow> (api, api_err, string \<times> jsval) stmt" where
  "post_intents env now ans rq body =
    andThen (authedUser env now rq) (\<lambda>u.
    andThen (parsed body) (\<lambda>b.
    andThen (idem rq) (\<lambda>key.
    let intentHash = hashJson env (intent_value b) in
    andThen (with_store (insertGeneric ''intents'' (intent_row_of u key intentHash b))) (\<lambda>_.
    andThen sync_hashes (\<lambda>_.
    andThen (moved ''intent'' intentHash ''INTENT_CREATED'' None) (\<lambda>_.
    andThen (log u ''intent.create'' (Some ''intent'') (Some intentHash) None []) (\<lambda>_.
    andThen (if hasMpcFields b then route_to_mpc ans u intentHash b else ret VUndef) (\<lambda>sid.
    ret (intentHash, if truthy sid then sid else VUndef)))))))))"


section \<open>Quotes and fills\<close>

record solver_quote =
  sq_quote_id :: string
  sq_intent_hash :: string
  sq_solver_id :: string
  sq_input_asset :: string
  sq_output_asset :: string
  sq_gross_input :: string
  sq_net_output :: string
  sq_fee :: string
  sq_valid_until_ledger :: int
  sq_solver_inventory_commitment :: string
  sq_settlement_method :: string
  sq_quote_signature :: string

definition quote_value :: "solver_quote \<Rightarrow> jsval" where
  "quote_value q = VObj [(''quote_id'', VStr (sq_quote_id q)), (''intent_hash'', VStr (sq_intent_hash q)), (''solver_id'', VStr (sq_solver_id q)),
     (''input_asset'', VStr (sq_input_asset q)), (''output_asset'', VStr (sq_output_asset q)), (''gross_input'', VStr (sq_gross_input q)),
     (''net_output'', VStr (sq_net_output q)), (''fee'', VStr (sq_fee q)), (''valid_until_ledger'', VNum (NInt (sq_valid_until_ledger q))),
     (''solver_inventory_commitment'', VStr (sq_solver_inventory_commitment q)), (''settlement_method'', VStr (sq_settlement_method q)),
     (''quote_signature'', VStr (sq_quote_signature q))]"

definition post_solver_quotes :: "api_env \<Rightarrow> solver_quote option \<Rightarrow> (api, api_err, string \<times> string) stmt" where
  "post_solver_quotes env body =
    andThen (parsed body) (\<lambda>q.
    let quoteHash = hashJson env (quote_value q) in
    andThen (with_store (insertGeneric ''quotes''
      [(''quote_id'', VStr (sq_quote_id q)), (''intent_hash'', VStr (sq_intent_hash q)), (''quote_hash'', VStr quoteHash),
       (''solver_id'', VStr (sq_solver_id q)), (''payload'', quote_value q), (''quote_signature'', VStr (sq_quote_signature q)),
       (''valid_until_ledger'', VNum (NInt (sq_valid_until_ledger q))), (''state'', VStr ''QUOTE_RECEIVED'')])) (\<lambda>_.
    andThen (moved ''quote'' (sq_quote_id q) ''QUOTE_RECEIVED'' None) (\<lambda>_.
    ret (sq_quote_id q, quoteHash))))"

text \<open>\<open>Inl\<close>: the id of the solver's quote; \<open>Inr\<close>: no solver configured, the quotes on record.\<close>

definition post_request_quotes ::
  "api_env \<Rightarrow> int \<Rightarrow> http_answer option \<Rightarrow> request \<Rightarrow> string \<Rightarrow> unit option \<Rightarrow> (api, api_err, jsval + row list) stmt" where
  "post_request_quotes env now solver rq intentHash body =
    andThen (authedUser env now rq) (\<lambda>u.
    andThen (requireOwnedIntent u intentHash) (\<lambda>_.
    andThen (parsed body) (\<lambda>_.
    case solver of
      None \<Rightarrow> andThen (get_store (listQuotesByIntent intentHash)) (\<lambda>qs. ret (Inr qs))
    | Some Unreachable \<Rightarrow> raise 500 ''fetch failed''
    | Some (Answer code data) \<Rightarrow>
        if \<not> http_ok code then raise 502 ''solver responded''
        else (case data of
            None \<Rightarrow> raise 500 ''invalid JSON''
          | Some sq \<Rightarrow>
              if js_get sq ''quote'' = VUndef \<or> js_get sq ''quote'' = VNull then raise 500 ''Cannot read properties''
              else let q = js_get sq ''quote'' in
                andThen (with_store (insertGeneric ''quotes''
                  [(''quote_id'', nullish (js_get q ''quote_id'') VNull), (''intent_hash'', VStr intentHash),
                   (''quote_hash'', nullish (js_get sq ''quote_hash'') VNull), (''solver_id'', nullish (js_get q ''solver_id'') VNull), (''payload'', q),
                   (''quote_signature'', nullish (js_get sq ''solver_sig'') VNull),
                   (''valid_until_ledger'', nullish (js_get q ''valid_until_ledger'') VNull), (''state'', VStr ''QUOTE_RECEIVED'')])) (\<lambda>_.
                ret (Inl (js_get q ''quote_id'')))))))"

record acceptance_body =
  ab_intent_hash :: string
  ab_user_signature_hash :: string

definition post_quote_accept :: "api_env \<Rightarrow> int \<Rightarrow> request \<Rightarrow> string \<Rightarrow> acceptance_body option \<Rightarrow> (api, api_err, string) stmt" where
  "post_quote_accept env now rq quoteId body =
    andThen (authedUser env now rq) (\<lambda>u.
    andThen (parsed body) (\<lambda>b.
    andThen (requireOwnedIntent u (ab_intent_hash b)) (\<lambda>_.
    andThen (get_store (rfqLifecycle (ab_intent_hash b) quoteId)) (\<lambda>lc.
    case lc_quote lc of
      None \<Rightarrow> raise 404 ''quote not found''
    | Some q \<Rightarrow>
        andThen (require (col q ''intent_hash'' = VStr (ab_intent_hash b)) 409 ''quote does not belong to intent'') (\<lambda>_.
        andThen (require (\<not> lc_accepted lc) 409 ''a quote is already accepted for this intent (immutable)'') (\<lambda>_.
        let acceptanceId = deterministicId env ''accept'' [quoteId, ab_user_signature_hash b] in
        andThen (with_store (insertGeneric ''quote_acceptances''
          [(''acceptance_id'', VStr acceptanceId), (''quote_id'', VStr quoteId), (''intent_hash'', VStr (ab_intent_hash b)),
           (''user_signature_hash'', VStr (ab_user_signature_hash b)), (''user_id'', uid_value u)])) (\<lambda>_.
        andThen (moved ''quote'' quoteId ''QUOTE_ACCEPTED'' None) (\<lambda>_.
        ret acceptanceId)))))))) "

record lock_body =
  lb_solver_id :: string
  lb_lock_hash :: string
  lb_amount :: string
  lb_asset :: string
  lb_expires_at_ledger :: int

definition post_quote_lock :: "api_env \<Rightarrow> string \<Rightarrow> lock_body option \<Rightarrow> (api, api_err, string) stmt" where
  "post_quote_lock env quoteId body =
    andThen (parsed body) (\<lambda>b.
    let lockId = deterministicId env ''lock'' [quoteId, lb_lock_hash b] in
    andThen (with_store (insertGeneric ''solver_inventory_locks''
      [(''lock_id'', VStr lockId), (''quote_id'', VStr quoteId), (''solver_id'', VStr (lb_solver_id b)), (''lock_hash'', VStr (lb_lock_hash b)),
       (''amount'', VStr (lb_amount b)), (''asset'', VStr (lb_asset b)), (''expires_at_ledger'', VNum (NInt (lb_expires_at_ledger b))),
       (''state'', VStr ''SOLVER_INVENTORY_LOCKED'')])) (\<lambda>_.
    andThen (moved ''quote'' quoteId ''SOLVER_INVENTORY_LOCKED'' None) (\<lambda>_.
    ret lockId)))"

record fill_body =
  fb_quote_id :: string
  fb_fill_receipt_hash :: string
  fb_destination_tx_hash :: "string option"
  fb_amount :: string
  fb_recipient :: string

definition post_fills :: "api_env \<Rightarrow> fill_body option \<Rightarrow> (api, api_err, string) stmt" where
  "post_fills env body =
    andThen (parsed body) (\<lambda>b.
    let fillId = deterministicId env ''fill'' [fb_quote_id b, fb_fill_receipt_hash b] in
    andThen (with_store (insertGeneric ''fills''
      ([(''fill_id'', VStr fillId), (''quote_id'', VStr (fb_quote_id b)), (''fill_receipt_hash'', VStr (fb_fill_receipt_hash b))]
       @ opt_member ''destination_tx_hash'' (map_option VStr (fb_destination_tx_hash b))
       @ [(''amount'', VStr (fb_amount b)), (''recipient'', VStr (fb_recipient b)), (''state'', VStr ''FILL_CREATED'')]))) (\<lambda>_.
    andThen (moved ''fill'' fillId ''FILL_CREATED'' None) (\<lambda>_.
    ret fillId)))"

text \<open>\<open>tx\<close> is \<open>request.body.destination_tx_hash\<close>, an absent or empty one refused.\<close>

definition post_fill_execute :: "string \<Rightarrow> string option \<Rightarrow> (api, api_err, unit) stmt" where
  "post_fill_execute fillId tx =
    (case tx of
       None \<Rightarrow> raise 400 ''destination_tx_hash required''
     | Some h \<Rightarrow>
         if h = [] then raise 400 ''destination_tx_hash required''
         else
           andThen (run_store (executeFill fillId h)) (\<lambda>ok.
           andThen (require ok 404 ''fill not found'') (\<lambda>_.
           moved ''fill'' fillId ''FILL_EXECUTED'' (Some h))))"


section \<open>Settlement\<close>

record settlement_body =
  sl_intent_hash :: string
  sl_quote_id :: string
  sl_fill_id :: "string option"
  sl_fill_receipt_hash :: "string option"
  sl_proof_job_id :: string
  sl_nullifier :: string

text \<open>The lifecycle checks, in the order of the code.\<close>

definition lifecycle_checks :: "nat \<Rightarrow> settlement_body \<Rightarrow> rfq_lifecycle \<Rightarrow> (api, api_err, unit) stmt" where
  "lifecycle_checks u b lc =
    (case lc_intent lc of
       None \<Rightarrow> raise 404 ''intent not found''
     | Some i \<Rightarrow>
         andThen (require (\<not> foreign_row u i) 403 ''authenticated user does not own this intent'') (\<lambda>_.
         case lc_quote lc of
           None \<Rightarrow> raise 404 ''quote not found''
         | Some q \<Rightarrow>
             andThen (require (col q ''intent_hash'' = VStr (sl_intent_hash b)) 409 ''quote does not belong to intent'') (\<lambda>_.
             andThen (require (lc_accepted lc) 409 ''quote is not accepted'') (\<lambda>_.
             case lc_fill lc of
               None \<Rightarrow> raise 409 ''fill not found for quote''
             | Some f \<Rightarrow>
                 andThen (require (col f ''state'' = VStr ''EXECUTED'') 409 ''fill is not executed'') (\<lambda>_.
                 require (case sl_fill_receipt_hash b of None \<Rightarrow> True | Some h \<Rightarrow> h = [] \<or> col f ''fill_receipt_hash'' = VStr h)
                   409 ''fill receipt hash mismatch'')))))"

definition mpc_gate :: "settlement_body \<Rightarrow> (api, api_err, unit) stmt" where
  "mpc_gate b =
    andThen (find_row ''intents'' ''intent_hash'' (sl_intent_hash b)) (\<lambda>r a.
    (if (case r of None \<Rightarrow> False | Some i \<Rightarrow> truthy (col i ''mpc_session_id'')) then
       require (list_ex (\<lambda>x. i_intent_id x = sl_intent_hash b \<and> i_status x = ''matched'') (d_intents (ap_mpc a))) 409 ''MPC match not yet confirmed'' a
     else ret () a))"

definition settlement_row :: "string \<Rightarrow> settlement_body \<Rightarrow> row" where
  "settlement_row settlementId b =
    [(''settlement_id'', VStr settlementId), (''intent_hash'', VStr (sl_intent_hash b)), (''quote_id'', VStr (sl_quote_id b))]
    @ opt_member ''fill_id'' (map_option VStr (sl_fill_id b)) @ opt_member ''fill_receipt_hash'' (map_option VStr (sl_fill_receipt_hash b))
    @ [(''proof_job_id'', VStr (sl_proof_job_id b)), (''nullifier'', VStr (sl_nullifier b)), (''state'', VStr ''SETTLEMENT_SUBMITTED'')]"

text \<open>Every check before the settlement is recorded.\<close>

definition settle_checks :: "nat \<Rightarrow> settlement_body \<Rightarrow> (api, api_err, unit) stmt" where
  "settle_checks u b =
    andThen (get_store (rfqLifecycle (sl_intent_hash b) (sl_quote_id b))) (\<lambda>lc.
    andThen (lifecycle_checks u b lc) (\<lambda>_.
    andThen (find_row ''proof_jobs'' ''proof_job_id'' (sl_proof_job_id b)) (\<lambda>pj.
    andThen (require (case pj of None \<Rightarrow> False | Some r \<Rightarrow> col r ''status'' = VStr ''ready'') 409 ''proof job is not ready'') (\<lambda>_.
    andThen (get_store (isNullifierSpent (sl_nullifier b))) (\<lambda>spent.
    andThen (require (\<not> spent) 409 ''nullifier already spent'') (\<lambda>_.
    mpc_gate b))))))"

definition post_rfq_settle :: "api_env \<Rightarrow> int \<Rightarrow> request \<Rightarrow> settlement_body option \<Rightarrow> (api, api_err, string) stmt" where
  "post_rfq_settle env now rq body =
    andThen (authedUser env now rq) (\<lambda>u.
    andThen assertRootHealthy (\<lambda>_.
    andThen (parsed body) (\<lambda>b.
    andThen (settle_checks u b) (\<lambda>_.
    let settlementId = deterministicId env ''settle'' [sl_intent_hash b, sl_quote_id b, sl_nullifier b] in
    andThen (with_store (insertGeneric ''settlements'' (settlement_row settlementId b))) (\<lambda>_.
    andThen (moved ''settlement'' settlementId ''SETTLEMENT_SUBMITTED'' None) (\<lambda>_.
    andThen (do_store (setRowUser ''settlements'' ''settlement_id'' settlementId u)) (\<lambda>_.
    andThen (log u ''rfq.settle'' (Some ''settlement'') (Some settlementId) None []) (\<lambda>_.
    ret settlementId))))))))"

end
