(* ===== verification/ApiReports.thy ===== *)
theory ApiReports
  imports Rfq
begin

text \<open>
  The HTTP API, last part: Shade View reports with their signing (\<open>apps/api/src/shade-view.ts\<close>), the
  outbound CCTP routes, the activity timeline, the committee proxies and the anchor routes. Ed25519 keys, SHA-256 and NaCl
  boxes are parameters; random ids, nonces and the time text are arguments.
\<close>

section \<open>Shade View reports\<close>

record view_key_report_input =
  vr_userId :: nat
  vr_timeRangeFrom :: "string option"
  vr_timeRangeTo :: "string option"
  vr_noteCommitments :: "string list"
  vr_disclosedNullifiers :: "string list"
  vr_quoteId :: jsval
  vr_policyId :: jsval
  vr_anchorId :: "string option"
  vr_amountsDisclosed :: "(string \<times> string \<times> string) list option"
  vr_proofLinks :: "string list"

record signed_report = view_key_report_input +
  vr_reportId :: string
  vr_generatedAt :: string
  vr_servicePubkeyHex :: string
  vr_serviceSignatureHex :: string

definition strings :: "string list \<Rightarrow> jsval" where
  "strings xs = VArr (map VStr xs)"

definition amount_value :: "string \<times> string \<times> string \<Rightarrow> jsval" where
  "amount_value x = (case x of (c, n, cur) \<Rightarrow> VObj [(''commitment'', VStr c), (''amount7dp'', VStr n), (''currency'', VStr cur)])"

text \<open>The JSON text that is signed; lists are sorted by code unit.\<close>

definition canonical_value :: "signed_report \<Rightarrow> jsval" where
  "canonical_value r = VObj
    [(''reportId'', VStr (vr_reportId r)), (''userId'', uid_value (vr_userId r)), (''generatedAt'', VStr (vr_generatedAt r)),
     (''timeRangeFrom'', opt_str_value (vr_timeRangeFrom r)), (''timeRangeTo'', opt_str_value (vr_timeRangeTo r)),
     (''noteCommitments'', strings (sort (vr_noteCommitments r))), (''disclosedNullifiers'', strings (sort (vr_disclosedNullifiers r))),
     (''quoteId'', nullish (vr_quoteId r) VNull), (''policyId'', nullish (vr_policyId r) VNull), (''anchorId'', opt_str_value (vr_anchorId r)),
     (''amountsDisclosed'', VArr (map amount_value (case vr_amountsDisclosed r of None \<Rightarrow> [] | Some xs \<Rightarrow> xs))),
     (''proofLinks'', strings (sort (vr_proofLinks r)))]"

definition canonicalReportPayload :: "signed_report \<Rightarrow> string" where
  "canonicalReportPayload r = stringify (canonical_value r)"

text \<open>\<open>Keypair.fromSecret\<close> with its raw public key (\<open>None\<close>: it throws), signing, and verification under a raw public key.\<close>

record report_lib =
  rl_public :: "string \<Rightarrow> bytes option"
  rl_sign :: "string \<Rightarrow> bytes \<Rightarrow> bytes"
  rl_verify :: "bytes \<Rightarrow> bytes \<Rightarrow> bytes \<Rightarrow> bool option"
  rl_sha256 :: "bytes \<Rightarrow> bytes"

definition signViewKeyReport :: "report_lib \<Rightarrow> view_key_report_input \<Rightarrow> string \<Rightarrow> string \<Rightarrow> string \<Rightarrow> signed_report option" where
  "signViewKeyReport lib inp reportId generatedAt secret =
    (case rl_public lib secret of
       None \<Rightarrow> None
     | Some pk \<Rightarrow>
         let unsigned = view_key_report_input.extend inp
               \<lparr> vr_reportId = reportId, vr_generatedAt = generatedAt, vr_servicePubkeyHex = [], vr_serviceSignatureHex = [] \<rparr> in
         Some (unsigned \<lparr> vr_servicePubkeyHex := to_hex pk,
           vr_serviceSignatureHex := to_hex (rl_sign lib secret (rl_sha256 lib (utf8 (canonicalReportPayload unsigned)))) \<rparr>))"

text \<open>\<open>None\<close>: the key or signature encoding is refused by a throw.\<close>

definition verifyViewKeyReport :: "report_lib \<Rightarrow> signed_report \<Rightarrow> bool option" where
  "verifyViewKeyReport lib r =
    rl_verify lib (from_hex (vr_servicePubkeyHex r)) (rl_sha256 lib (utf8 (canonicalReportPayload r))) (from_hex (vr_serviceSignatureHex r))"

text \<open>\<open>JSON.stringify(report)\<close>: the spread of the input, undefined members left out.\<close>

definition report_value :: "signed_report \<Rightarrow> jsval" where
  "report_value r = VObj ([(''userId'', uid_value (vr_userId r))]
     @ opt_member ''timeRangeFrom'' (map_option VStr (vr_timeRangeFrom r)) @ opt_member ''timeRangeTo'' (map_option VStr (vr_timeRangeTo r))
     @ [(''noteCommitments'', strings (vr_noteCommitments r)), (''disclosedNullifiers'', strings (vr_disclosedNullifiers r))]
     @ opt_member ''quoteId'' (if vr_quoteId r = VUndef then None else Some (vr_quoteId r))
     @ opt_member ''policyId'' (if vr_policyId r = VUndef then None else Some (vr_policyId r))
     @ opt_member ''anchorId'' (map_option VStr (vr_anchorId r))
     @ opt_member ''amountsDisclosed'' (map_option (\<lambda>xs. VArr (map amount_value xs)) (vr_amountsDisclosed r))
     @ [(''proofLinks'', strings (vr_proofLinks r)), (''reportId'', VStr (vr_reportId r)), (''generatedAt'', VStr (vr_generatedAt r)),
        (''servicePubkeyHex'', VStr (vr_servicePubkeyHex r)), (''serviceSignatureHex'', VStr (vr_serviceSignatureHex r))])"

text \<open>\<open>eph\<close> is the ephemeral secret key; ciphertext, nonce and sender key in hex.\<close>

definition encryptReportAttachment ::
  "nacl_lib \<Rightarrow> bytes \<Rightarrow> bytes \<Rightarrow> signed_report \<Rightarrow> string \<Rightarrow> (string \<times> string \<times> string) option" where
  "encryptReportAttachment nl eph nonce r recipientHex =
    map_option (\<lambda>ct. (to_hex ct, to_hex nonce, to_hex (nl_box_public nl eph)))
      (nl_box nl (utf8 (stringify (report_value r))) nonce (from_hex recipientHex) eph)"

record view_key_body =
  vk_settlement_ids :: "string list"
  vk_note_commitments :: "string list"
  vk_time_range_from :: "string option"
  vk_time_range_to :: "string option"
  vk_quote_id :: "string option"
  vk_policy_id :: "string option"
  vk_anchor_id :: "string option"
  vk_disclose_amounts :: bool
  vk_attachment_recipient_pubkey :: "string option"

definition explorer_url :: string where
  "explorer_url = ''https://stellar.expert/explorer/testnet/tx/''"

text \<open>A tx hash links when it is a non-empty string.\<close>

definition proof_links :: "row list \<Rightarrow> string list" where
  "proof_links settlements = map (\<lambda>h. explorer_url @ h) (List.map_filter (\<lambda>s. z_nonempty (col s ''stellar_tx_hash'')) settlements)"

definition first_member :: "string option \<Rightarrow> row list \<Rightarrow> string \<Rightarrow> jsval" where
  "first_member given rows k = (case given of Some g \<Rightarrow> VStr g | None \<Rightarrow> (case rows of [] \<Rightarrow> VUndef | r # _ \<Rightarrow> col r k))"

definition report_input_of :: "nat \<Rightarrow> view_key_body \<Rightarrow> row list \<Rightarrow> row list \<Rightarrow> string list \<Rightarrow> view_key_report_input" where
  "report_input_of u b settlements commitments anchorIds =
    \<lparr> vr_userId = u, vr_timeRangeFrom = vk_time_range_from b, vr_timeRangeTo = vk_time_range_to b,
      vr_noteCommitments = map (\<lambda>c. to_String (col c ''commitment'')) commitments,
      vr_disclosedNullifiers = filter (\<lambda>n. n \<noteq> []) (map (\<lambda>s. to_String (col s ''nullifier'')) settlements),
      vr_quoteId = first_member (vk_quote_id b) settlements ''quote_id'',
      vr_policyId = first_member (vk_policy_id b) commitments ''policy_id'',
      vr_anchorId = (case anchorIds of [] \<Rightarrow> None | x # _ \<Rightarrow> Some x),
      vr_amountsDisclosed = (if vk_disclose_amounts b
        then Some (map (\<lambda>c. (to_String (col c ''commitment''), to_String (col c ''amount_usdc_7dp''), ''USDC'')) commitments) else None),
      vr_proofLinks = proof_links settlements \<rparr>"

definition report_row_of :: "view_key_body \<Rightarrow> signed_report \<Rightarrow> (string \<times> string \<times> string) option \<Rightarrow> report_row" where
  "report_row_of b r att =
    \<lparr> rp_report_id = vr_reportId r, rp_user_id = vr_userId r, rp_time_range_from = vk_time_range_from b, rp_time_range_to = vk_time_range_to b,
      rp_note_commitments = vr_noteCommitments r, rp_disclosed_nullifiers = vr_disclosedNullifiers r,
      rp_quote_id = nullish (vr_quoteId r) VNull, rp_policy_id = nullish (vr_policyId r) VNull, rp_anchor_id = vr_anchorId r,
      rp_amount_disclosed = vk_disclose_amounts b, rp_proof_links = vr_proofLinks r, rp_service_pubkey = vr_servicePubkeyHex r,
      rp_service_signature = vr_serviceSignatureHex r, rp_encrypted_attachment = att \<rparr>"

text \<open>\<open>secret\<close>: the configured signing secret; \<open>eph\<close> and \<open>nonce\<close>: the draws of the attachment.\<close>

definition post_view_key_report ::
  "api_env \<Rightarrow> report_lib \<Rightarrow> nacl_lib \<Rightarrow> int \<Rightarrow> string option \<Rightarrow> string \<Rightarrow> string \<Rightarrow> bytes \<Rightarrow> bytes \<Rightarrow> request \<Rightarrow> view_key_body option \<Rightarrow>
   (api, api_err, signed_report \<times> (string \<times> string \<times> string) option) stmt" where
  "post_view_key_report env lib nl now secret reportId generatedAt eph nonce rq body =
    andThen (authedUser env now rq) (\<lambda>u.
    andThen (parsed body) (\<lambda>b.
    andThen (require (or_default secret [] \<noteq> []) 503 ''Shade View service not configured'') (\<lambda>_.
    andThen (get_store (getOwnedSettlements u (vk_settlement_ids b))) (\<lambda>settlements.
    andThen (get_store (getOwnedNoteCommitments u (vk_note_commitments b))) (\<lambda>commitments.
    andThen (case vk_anchor_id b of Some x \<Rightarrow> ret [x]
      | None \<Rightarrow> get_store (getAnchorIdsForSettlements (map (\<lambda>s. to_String (col s ''settlement_id'')) settlements))) (\<lambda>anchorIds.
    case signViewKeyReport lib (report_input_of u b settlements commitments anchorIds) reportId generatedAt (or_default secret []) of
      None \<Rightarrow> raise 500 ''invalid secret''
    | Some rep \<Rightarrow>
        andThen (case vk_attachment_recipient_pubkey b of None \<Rightarrow> ret None
          | Some pk \<Rightarrow> (case encryptReportAttachment nl eph nonce rep pk of None \<Rightarrow> raise 500 ''bad public key size'' | Some x \<Rightarrow> ret (Some x))) (\<lambda>att.
        andThen (with_store (insertViewKeyReport (report_row_of b rep att))) (\<lambda>_.
        andThen (log u ''shade_view.report.generate'' (Some ''view_key_report'') (Some reportId) None []) (\<lambda>_.
        ret (rep, att))))))))))"

definition get_view_key_report :: "api_env \<Rightarrow> int \<Rightarrow> request \<Rightarrow> string \<Rightarrow> (api, api_err, report_row) stmt" where
  "get_view_key_report env now rq reportId =
    andThen (authedUser env now rq) (\<lambda>u.
    andThen (get_store (getViewKeyReport u reportId)) (\<lambda>r.
    case r of None \<Rightarrow> raise 404 ''report not found'' | Some x \<Rightarrow> ret x))"


section \<open>Outbound CCTP\<close>

record exit_body =
  xb_nullifier :: string
  xb_destination_domain :: int
  xb_destination_recipient :: string
  xb_amount_usdc_7dp :: string
  xb_relayer_fee :: string

definition post_outbound_prepare :: "api_env \<Rightarrow> int \<Rightarrow> request \<Rightarrow> exit_body option \<Rightarrow> (api, api_err, string) stmt" where
  "post_outbound_prepare env now rq body =
    andThen (authedUser env now rq) (\<lambda>u.
    andThen assertRootHealthy (\<lambda>_.
    andThen (parsed body) (\<lambda>b.
    andThen (idem rq) (\<lambda>key.
    let exitId = deterministicId env ''exit'' [key, xb_nullifier b] in
    andThen (with_store (insertGeneric ''cctp_exits''
      [(''exit_id'', VStr exitId), (''idempotency_key'', VStr key), (''nullifier'', VStr (xb_nullifier b)),
       (''destination_domain'', VNum (NInt (xb_destination_domain b))), (''destination_recipient'', VStr (xb_destination_recipient b)),
       (''amount_usdc_7dp'', VStr (xb_amount_usdc_7dp b)), (''relayer_fee'', VStr (xb_relayer_fee b)), (''user_id'', uid_value u),
       (''state'', VStr ''prepared'')])) (\<lambda>_.
    andThen (moved ''cctp_exit'' exitId ''prepared'' None) (\<lambda>_.
    andThen (log u ''cctp_exit.prepare'' (Some ''cctp_exit'') (Some exitId) None []) (\<lambda>_.
    ret exitId)))))))"

definition post_outbound_submit :: "api_env \<Rightarrow> int \<Rightarrow> request \<Rightarrow> (string \<times> jsval) list \<Rightarrow> (api, api_err, nat) stmt" where
  "post_outbound_submit env now rq b =
    andThen (authedUser env now rq) (\<lambda>u.
    andThen assertRootHealthy (\<lambda>_.
    andThen (if truthy (js_get (VObj b) ''exit_id'') then requireOwnedExit u (to_String (js_get (VObj b) ''exit_id'')) else ret ()) (\<lambda>_.
    andThen (enqueue_job now QRelayer ''WITHDRAW_CCTP_BURN'' (VObj b) (body_key ''exit-submit:'' b)) (\<lambda>j.
    ret (j_job_id j)))))"

text \<open>The two granular steps, \<open>CCTP_OUTBOUND_ATTESTATION\<close> and \<open>CCTP_OUTBOUND_MINT\<close>.\<close>

definition outboundStep :: "api_env \<Rightarrow> int \<Rightarrow> request \<Rightarrow> string \<Rightarrow> string \<Rightarrow> (string \<times> jsval) list \<Rightarrow> (api, api_err, nat) stmt" where
  "outboundStep env now rq jobType exitId body =
    andThen (authedUser env now rq) (\<lambda>u.
    andThen (requireOwnedExit u exitId) (\<lambda>_.
    andThen (enqueue_job now QRelayer jobType (VObj (spread [(''exit_id'', VStr exitId)] body)) (Some (jobType @ '':'' @ exitId))) (\<lambda>j.
    ret (j_job_id j))))"


section \<open>Activity\<close>

definition get_activity :: "api_env \<Rightarrow> int \<Rightarrow> request \<Rightarrow> (api, api_err, activity_row list) stmt" where
  "get_activity env now rq = andThen (authedUser env now rq) (\<lambda>u. get_store (listActivity u 100))"


section \<open>Committee routes\<close>

text \<open>A proxied answer: 503 when the committee cannot be reached or answers no JSON, \<open>bad\<close> for a refusal.\<close>

definition proxied :: "(nat \<Rightarrow> jsval \<Rightarrow> (api, api_err, 'a) stmt) \<Rightarrow> (jsval \<Rightarrow> (api, api_err, 'a) stmt) \<Rightarrow> http_answer \<Rightarrow> (api, api_err, 'a) stmt" where
  "proxied bad good ans =
    (case ans of
       Answer code (Some data) \<Rightarrow> if http_ok code then good data else bad code data
     | _ \<Rightarrow> raise 503 ''MPC committee unreachable'')"

definition camel :: "(string \<times> jsval) list \<Rightarrow> string \<Rightarrow> string \<Rightarrow> jsval \<Rightarrow> jsval" where
  "camel b k k' d = nullish (js_get (VObj b) k) (nullish (js_get (VObj b) k') d)"

definition mpc_body_row :: "string \<Rightarrow> jsval \<Rightarrow> nat option \<Rightarrow> (string \<times> jsval) list \<Rightarrow> intent_row" where
  "mpc_body_row intentId sid u b =
    \<lparr> i_intent_id = intentId, i_session_id = pg_text (nullish sid (VStr ''unknown'')), i_user_id = u,
      i_input_asset = pg_text (camel b ''inputAsset'' ''input_asset'' VNull), i_output_asset = pg_text (camel b ''outputAsset'' ''output_asset'' VNull),
      i_expiry_ledger = camel b ''expiryLedger'' ''expiry_ledger'' (VNum (NInt 0)),
      i_policy_id = pg_text (camel b ''policyId'' ''policy_id'' (VStr ''default'')),
      i_note_nullifier = pg_text (camel b ''noteNullifier'' ''note_nullifier'' (VStr [])),
      i_note_commitment = pg_text (camel b ''noteCommitment'' ''note_commitment'' (VStr [])),
      i_recipient_commitment = pg_text (camel b ''recipientCommitment'' ''recipient_commitment'' (VStr [])),
      i_status = ''pending'', i_matched_with = None \<rparr>"

text \<open>\<open>shares\<close>: the encrypted shares of the body. An intent without assets violates the not-null columns.\<close>

definition persist_mpc_intent :: "string \<Rightarrow> jsval \<Rightarrow> nat option \<Rightarrow> (string \<times> jsval) list \<Rightarrow> encrypted_share list \<Rightarrow> (api, api_err, unit) stmt" where
  "persist_mpc_intent intentId sid u b shares =
    andThen (if truthy sid then with_mpc (ensure_session (pg_text sid)) else ret ()) (\<lambda>_.
    andThen (require (camel b ''inputAsset'' ''input_asset'' VNull \<noteq> VNull \<and> camel b ''outputAsset'' ''output_asset'' VNull \<noteq> VNull)
      500 ''not-null violation'') (\<lambda>_.
    andThen (with_mpc (upsert_mpc_intent (mpc_body_row intentId sid u b))) (\<lambda>_.
    andThen (each (insert_share intentId) shares) (\<lambda>_.
    case u of None \<Rightarrow> ret () | Some x \<Rightarrow> log x ''mpc.intent.submit'' (Some ''mpc_intent'') (Some intentId) None []))))"

definition post_mpc_intents ::
  "api_env \<Rightarrow> int \<Rightarrow> http_answer \<Rightarrow> request \<Rightarrow> (string \<times> jsval) list \<Rightarrow> encrypted_share list \<Rightarrow> (api, api_err, jsval) stmt" where
  "post_mpc_intents env now ans rq b shares =
    (let intentId = camel b ''intentId'' ''intent_id'' VUndef in
     andThen (require (truthy intentId) 400 ''intentId required'') (\<lambda>_.
     andThen (get_store (optionalUser (en_wallet env) now rq)) (\<lambda>r.
     andThen (from_result r) (\<lambda>u.
     proxied (\<lambda>code data. raise 502 ''committee refused'')
       (\<lambda>data. if data = VNull then raise 500 ''Cannot read properties'' else
          andThen (persist_mpc_intent (pg_text intentId) (nullish (js_get data ''sessionId'') (js_get data ''session_id'')) u b shares) (\<lambda>_. ret data))
       ans))))"

definition get_mpc_intent :: "string \<Rightarrow> (api, api_err, intent_row) stmt" where
  "get_mpc_intent intentId a =
    (case find_first (\<lambda>r. i_intent_id r = intentId) (d_intents (ap_mpc a)) of None \<Rightarrow> raise 404 ''intent not found'' a | Some r \<Rightarrow> ret r a)"

text \<open>The read-only proxies (committee, batches, verify) answer 502 for a refusal; the session proxy passes the status on.\<close>

definition mpc_proxy :: "http_answer \<Rightarrow> (api, api_err, jsval) stmt" where
  "mpc_proxy ans = (case ans of Answer code d \<Rightarrow> if http_ok code then (case d of None \<Rightarrow> raise 500 ''invalid JSON'' | Some x \<Rightarrow> ret x)
       else raise 502 ''committee unavailable''
     | Unreachable \<Rightarrow> raise 503 ''MPC committee unreachable'')"

definition get_mpc_session :: "http_answer \<Rightarrow> (api, api_err, nat \<times> jsval) stmt" where
  "get_mpc_session ans = (case ans of Answer code d \<Rightarrow> (case d of None \<Rightarrow> raise 500 ''invalid JSON'' | Some x \<Rightarrow> ret (code, x))
     | Unreachable \<Rightarrow> raise 503 ''MPC committee unreachable'')"

definition post_mpc_match :: "http_answer \<Rightarrow> (api, api_err, jsval) stmt" where
  "post_mpc_match = proxied (\<lambda>code data. raise 502 ''committee refused'') ret"


section \<open>Anchors\<close>

text \<open>\<open>anchor\<close>: \<open>None\<close> without \<open>ANCHOR_API_BASE\<close>, else the anchor's answer. The reply carries a status and a body.\<close>

definition proxyAnchor :: "http_answer option \<Rightarrow> (api, api_err, nat \<times> jsval) stmt" where
  "proxyAnchor anchor =
    (case anchor of
       None \<Rightarrow> ret (501, VObj [(''error'', VStr ''no anchor adapter configured (set ANCHOR_API_BASE)'')])
     | Some (Answer code (Some d)) \<Rightarrow> ret (code, d)
     | _ \<Rightarrow> raise 500 ''fetch failed'')"

text \<open>\<open>.catch(() => {})\<close>\<close>

definition swallow :: "(api, api_err, unit) stmt \<Rightarrow> (api, api_err, unit) stmt" where
  "swallow m a = (Ok (), snd (m a))"

definition str_member :: "(string \<times> jsval) list \<Rightarrow> string \<Rightarrow> string \<Rightarrow> jsval" where
  "str_member b k d = VStr (to_String (nullish (js_get (VObj b) k) (VStr d)))"

definition post_anchor_quotes ::
  "api_env \<Rightarrow> int \<Rightarrow> http_answer option \<Rightarrow> string \<Rightarrow> request \<Rightarrow> (string \<times> jsval) list \<Rightarrow> (api, api_err, nat \<times> jsval) stmt" where
  "post_anchor_quotes env now anchor quoteId rq b =
    andThen (authedUser env now rq) (\<lambda>u.
    andThen (proxyAnchor anchor) (\<lambda>(code, result).
    andThen (if code < 300 then swallow (with_store (insertGeneric ''anchor_quotes''
        [(''quote_id'', VStr quoteId), (''user_id'', uid_value u), (''asset'', str_member b ''asset'' []),
         (''amount_7dp'', str_member b ''amount7dp'' ''0''), (''destination_currency'', str_member b ''destination_currency'' []),
         (''destination_country'', str_member b ''destination_country'' []), (''anchor_quote_id'', nullish (js_get result ''id'') VNull),
         (''status'', VStr ''quoted''), (''raw'', result)])) else ret ()) (\<lambda>_.
    ret (code, result))))"

definition post_anchor_payouts ::
  "api_env \<Rightarrow> int \<Rightarrow> http_answer option \<Rightarrow> string \<Rightarrow> request \<Rightarrow> (string \<times> jsval) list \<Rightarrow> (api, api_err, string \<times> nat \<times> jsval) stmt" where
  "post_anchor_payouts env now anchor payoutId rq b =
    andThen (authedUser env now rq) (\<lambda>u.
    andThen (proxyAnchor anchor) (\<lambda>(code, result).
    andThen (if code < 300 then swallow (with_store (insertGeneric ''anchor_payouts''
        [(''payout_id'', VStr payoutId), (''user_id'', uid_value u), (''quote_id'', str_member b ''quote_id'' []),
         (''settlement_id'', str_member b ''settlement_id'' []), (''anchor_transaction_id'', nullish (js_get result ''id'') VNull),
         (''status'', VStr ''pending''), (''raw'', result)])) else ret ()) (\<lambda>_.
    ret (payoutId, code, result))))"

definition get_anchor_payout :: "api_env \<Rightarrow> int \<Rightarrow> http_answer option \<Rightarrow> request \<Rightarrow> string \<Rightarrow> (api, api_err, row + nat \<times> jsval) stmt" where
  "get_anchor_payout env now anchor rq payoutId =
    andThen (authedUser env now rq) (\<lambda>u.
    andThen (find_row ''anchor_payouts'' ''payout_id'' payoutId) (\<lambda>r.
    case r of
      None \<Rightarrow> raise 404 ''payout not found''
    | Some x \<Rightarrow> if truthy (col x ''anchor_transaction_id'') then andThen (proxyAnchor anchor) (\<lambda>p. ret (Inr p)) else ret (Inl x)))"

definition post_compliance_package :: "api_env \<Rightarrow> int \<Rightarrow> http_answer option \<Rightarrow> request \<Rightarrow> (string \<times> jsval) list \<Rightarrow> (api, api_err, nat \<times> jsval) stmt" where
  "post_compliance_package env now anchor rq b =
    andThen (authedUser env now rq) (\<lambda>u.
    andThen (find_row ''anchor_payouts'' ''payout_id'' (to_String (nullish (js_get (VObj b) ''payout_id'') (VStr [])))) (\<lambda>r.
    case r of
      None \<Rightarrow> raise 404 ''payout not found''
    | Some x \<Rightarrow> if \<not> truthy (col x ''anchor_transaction_id'') then raise 400 ''payout has no anchor transaction'' else proxyAnchor anchor))"

end
