(* ===== verification/ApiSystem.thy ===== *)
theory ApiSystem
  imports ApiReports
begin

text \<open>
  The API as a system. Every handler is a sequence of store statements; \<open>store_step\<close> has one rule per
  statement the handlers issue, and \<open>api_step\<close> one rule per handler and one for what the other services write. The
  locale \<open>store_invariant\<close> carries an invariant of the statements to every state the API can reach; it is
  interpreted for the integrity of the tables, for the absence of plaintext in stored vaults and for the status of proof jobs.
\<close>

section \<open>Store statements\<close>

text \<open>Proof jobs are only ever inserted as queued, intents only as created.\<close>

definition written :: "string \<Rightarrow> row \<Rightarrow> bool" where
  "written t r = ((t = ''proof_jobs'' \<longrightarrow> col r ''status'' = VStr ''queued'') \<and> (t = ''intents'' \<longrightarrow> col r ''state'' = VStr ''INTENT_CREATED''))"

text \<open>The updates of protocol rows outside \<open>cctp_deposits\<close>: table and columns.\<close>

definition updated :: "string \<Rightarrow> row \<Rightarrow> bool" where
  "updated t upd = ((t, map fst upd) \<in> set [(''intents'', [''mpc_session_id'']), (''fills'', [''destination_tx_hash'', ''state'']),
     (''settlements'', [''user_id''])] \<and> (''state'', VNull) \<notin> set upd)"

inductive store_step :: "store \<Rightarrow> store \<Rightarrow> bool" where
  privy_user: "store_step st (snd (privy_db_user now sub st))"
| nonce: "store_step st (createNonce now wt addr n msg ex st)"
| consume: "store_step st (snd (consumeNonce now wt addr n st))"
| wallet_user: "store_step st (snd (upsertUserByWallet now wt ch addr st))"
| session: "store_step st (snd (Store.createSession u h ex st))"
| revoke: "store_step st (revokeSession now h st)"
| activity: "store_step st (logActivity ou ev et eid tx md st)"
| transit: "store_step st (transition ety ei ts tx st)"
| profile: "store_step st (updateUser u f st)"
| sync: "store_step st (snd (syncPrivyWallets now u did ws st))"
| wallet_add: "store_step st (snd (addWallet now u wt ch addr st))"
| wallet_delete: "store_step st (snd (deleteWallet u wid st))"
| deposit: "store_step st (snd (createUserDeposit d st))"
| burn: "store_step st (setDepositBurnTx did h st)"
| backup: "store_step st (addNoteBackup u c p v st)"
| vault_create: "walk (vi_envelope i) = None \<Longrightarrow> store_step st (createNoteVault now u p vid i st)"
| vault_update: "walk (vi_envelope i) = None \<Longrightarrow> store_step st (snd (updateNoteVault u vid i st))"
| vault_verified: "store_step st (snd (setVaultBackupVerified now u vid vf st))"
| vault_status: "store_step st (snd (setVaultBackupStatus now u vid s st))"
| wrapper_add: "store_step st (snd (addVaultWrapper u vid wt md st))"
| wrapper_delete: "store_step st (snd (deleteVaultWrapper u vid wid st))"
| insert: "written t r \<Longrightarrow> store_step st (snd (insertGeneric t r st))"
| update: "updated t upd \<Longrightarrow> store_step st (set_cols t p upd st)"
| report: "store_step st (snd (insertViewKeyReport rr st))"

text \<open>A statement on the API's state whose effect on the store is a sequence of store statements.\<close>

definition stays :: "(api, api_err, 'a) stmt \<Rightarrow> bool" where
  "stays m = (\<forall>a. store_step\<^sup>*\<^sup>* (ap_store a) (ap_store (snd (m a))))"

named_theorems stays_intros \<open>statements that are sequences of store statements\<close>

lemma staysI: "(\<And>a. store_step\<^sup>*\<^sup>* (ap_store a) (ap_store (snd (m a)))) \<Longrightarrow> stays m"
  by (simp add: stays_def)

lemma stays_andThen_at:
  assumes "stays m" "\<And>x a. fst (m a) = Ok x \<Longrightarrow> stays (f x)"
  shows "stays (andThen m f)"
proof (rule staysI)
  fix a
  show "store_step\<^sup>*\<^sup>* (ap_store a) (ap_store (snd (andThen m f a)))"
  proof (cases "fst (m a)")
    case (Inl e)
    then show ?thesis using assms(1) by (simp add: stays_def)
  next
    case (Inr x)
    have "store_step\<^sup>*\<^sup>* (ap_store a) (ap_store (snd (m a)))" using assms(1) by (simp add: stays_def)
    moreover have "stays (f x)" by (rule assms(2) [OF Inr])
    then have "store_step\<^sup>*\<^sup>* (ap_store (snd (m a))) (ap_store (snd (f x (snd (m a)))))" by (simp add: stays_def)
    ultimately show ?thesis using Inr by (simp add: rtranclp_trans)
  qed
qed

lemma stays_andThen [stays_intros]: "stays m \<Longrightarrow> (\<And>x. stays (f x)) \<Longrightarrow> stays (andThen m f)"
  by (rule stays_andThen_at)

lemma stays_require [stays_intros]: "(b \<Longrightarrow> stays (f ())) \<Longrightarrow> stays (andThen (require b c s) f)"
  by (rule stays_andThen_at) (auto simp: require_def stays_def split: if_splits)

lemma stays_require_last [stays_intros]: "stays (require b c s)"
  by (simp add: stays_def require_def)

lemma stays_plain [stays_intros]:
  "stays (ret x)" "stays (raise c s)" "stays (parsed b)" "stays (from_result r)" "stays (get_store g)" "stays (idem rq)"
  by (auto simp: stays_def ret_def raise_def parsed_def from_result_def get_store_def idem_def split: option.splits)

lemma stays_enqueue [stays_intros]: "stays (enqueue_job now q t p k)"
  by (auto simp: stays_def enqueue_job_def split: prod.split sum.split)

lemma stays_with_mpc [stays_intros]: "stays (with_mpc m)"
  by (auto simp: stays_def with_mpc_def split: prod.split sum.split)

lemma stays_do [stays_intros]: "(\<And>st. store_step st (f st)) \<Longrightarrow> stays (do_store f)"
  by (auto simp: stays_def do_store_def)

lemma stays_run [stays_intros]: "(\<And>st. store_step st (snd (f st))) \<Longrightarrow> stays (run_store f)"
  by (auto simp: stays_def run_store_def split: prod.split) (metis r_into_rtranclp snd_conv)

lemma stays_with [stays_intros]: "(\<And>st. store_step st (snd (f st))) \<Longrightarrow> stays (with_store f)"
  by (auto simp: stays_def with_store_def split: prod.split) (metis r_into_rtranclp snd_conv)

lemma stays_if [stays_intros]: "(b \<Longrightarrow> stays m) \<Longrightarrow> (\<not> b \<Longrightarrow> stays m') \<Longrightarrow> stays (if b then m else m')"
  by simp

lemma stays_case_option [stays_intros]: "(x = None \<Longrightarrow> stays m) \<Longrightarrow> (\<And>y. x = Some y \<Longrightarrow> stays (f y)) \<Longrightarrow> stays (case x of None \<Rightarrow> m | Some y \<Rightarrow> f y)"
  by (cases x) simp_all

lemma stays_case_prod [stays_intros]: "(\<And>x y. stays (f x y)) \<Longrightarrow> stays (case p of (x, y) \<Rightarrow> f x y)"
  by (cases p) simp

lemma stays_case_sum [stays_intros]: "(\<And>x. stays (f x)) \<Longrightarrow> (\<And>y. stays (g y)) \<Longrightarrow> stays (case s of Inl x \<Rightarrow> f x | Inr y \<Rightarrow> g y)"
  by (cases s) simp_all

lemma stays_case_http [stays_intros]:
  "stays m \<Longrightarrow> (\<And>c d. stays (f c d)) \<Longrightarrow> stays (case ans of Unreachable \<Rightarrow> m | Answer c d \<Rightarrow> f c d)"
  by (cases ans) simp_all

lemma stays_each [stays_intros]: "(\<And>x. stays (f x)) \<Longrightarrow> stays (each f xs)"
proof (induction xs)
  case Nil
  then show ?case by (simp add: stays_def)
next
  case (Cons x xs)
  have "each f (x # xs) = andThen (f x) (\<lambda>_. each f xs)" by (rule ext) simp
  then show ?case using Cons stays_andThen [of "f x" "\<lambda>_. each f xs"] by simp
qed

lemmas store_step_intros = store_step.intros


text \<open>The handlers' own helpers.\<close>

lemma stays_log [stays_intros]: "stays (log u ev et eid tx md)"
  unfolding log_def by (intro stays_do activity)

lemma stays_moved [stays_intros]: "stays (moved et ei ts tx)"
  unfolding moved_def by (intro stays_do transit)

lemma stays_find_row [stays_intros]: "stays (find_row t c i)"
  unfolding find_row_def by (intro stays_intros)

lemma stays_sync_hashes [stays_intros]: "stays sync_hashes"
  by (simp add: stays_def sync_hashes_def)

lemma stays_insert_share [stays_intros]: "stays (insert_share i s)"
  by (simp add: stays_def insert_share_def)

lemma stays_privy [stays_intros]: "stays (require_privy env now rq)"
proof -
  have "store_step\<^sup>*\<^sup>* st (snd (requirePrivyUser es aid now rq st))" for es aid st
    by (auto simp: requirePrivyUser_def split: option.splits sum.splits prod.splits)
      (metis r_into_rtranclp snd_conv privy_user)
  then show ?thesis by (auto simp: stays_def require_privy_def with_store_def split: prod.split) (metis snd_conv)
qed

lemma stays_privy_optional [stays_intros]: "stays (with_store (optionalPrivyUser es aid now rq))"
proof -
  have "store_step\<^sup>*\<^sup>* st (snd (optionalPrivyUser es aid now rq st))" for st
    by (auto simp: optionalPrivyUser_def split: option.splits sum.splits prod.splits)
      (metis r_into_rtranclp snd_conv privy_user)
  then show ?thesis by (auto simp: stays_def with_store_def split: prod.split) (metis snd_conv)
qed

lemma stays_authed [stays_intros]: "stays (authedUser env now rq)" "stays (authedUserOptional env now rq)"
  unfolding authedUser_def authedUserOptional_def by (intro stays_intros)+

lemma stays_root [stays_intros]: "stays assertRootHealthy"
  unfolding assertRootHealthy_def by (intro stays_intros)

lemma stays_owned [stays_intros]: "stays (requireOwnedIntent u h)" "stays (requireOwnedExit u h)"
  unfolding requireOwnedIntent_def requireOwnedExit_def requireOwned_def by (intro stays_intros)+

lemma stays_scan [stays_intros]: "(walk v = None \<Longrightarrow> stays (f ())) \<Longrightarrow> stays (andThen (scan v) f)"
  unfolding scan_def by (intro stays_require) (simp add: assertNoPlaintextNoteFields_def split: option.splits)

lemma stays_insert [stays_intros]: "written t r \<Longrightarrow> stays (with_store (insertGeneric t r))"
  by (intro stays_with insert)

lemma stays_ingest:
  "(\<And>p. walk (api_envelope_value e) = None \<Longrightarrow> stays (f p)) \<Longrightarrow> stays (andThen (ingestEnvelope env e) f)"
  by (rule stays_andThen_at)
    (auto simp: ingestEnvelope_def scan_def require_def ret_def andThen_def stays_def assertNoPlaintextNoteFields_def split: if_splits option.splits)


section \<open>Every handler is a sequence of store statements\<close>

lemma stays_login:
  "stays (post_auth_nonce env now nonce b1)" "stays (verifyHandler env now token wt b2)" "stays (post_auth_logout env now rq)"
  "stays (patch_me env now rq b3)" "stays (post_sync_privy env now rq b4)" "stays (post_me_wallets env now rq b5)"
  "stays (delete_me_wallet env now rq wid)"
  unfolding post_auth_nonce_def verifyHandler_def post_auth_logout_def patch_me_def post_sync_privy_def post_me_wallets_def
    delete_me_wallet_def Let_def
  by (intro stays_intros store_step_intros)+

lemma stays_deposits:
  "stays (post_deposits_prepare env now rq b1)" "stays (post_burn_submitted env now rq did b2)" "stays (depositStep now jt did b3)"
  unfolding post_deposits_prepare_def post_burn_submitted_def depositStep_def deposit_gates_def big_or_500_def cctp_or_500_def Let_def
  by (intro stays_intros store_step_intros)+

lemma stays_vaults:
  "stays (post_encrypted_backup env now rq b1)" "stays (post_notes_recover env now rq b2)" "stays (post_note_vaults env now rq b3)"
  "stays (put_note_vault env now rq vid b3)" "stays (post_verify_backup env now rq vid b4)" "stays (post_mark_restored env now rq vid)"
  "stays (post_wrappers env now rq vid b3)" "stays (delete_wrapper env now rq vid wid)"
  unfolding post_encrypted_backup_def post_notes_recover_def post_note_vaults_def put_note_vault_def post_verify_backup_def
    post_mark_restored_def post_wrappers_def delete_wrapper_def body_member_def add_wrapper_def
  by (intro stays_ingest stays_scan stays_intros store_step_intros | simp add: vault_input_of_def scan_def)+

lemma stays_rfq:
  "stays (post_proof_request env now rq b1)" "stays (post_withdrawals_prepare env now rq b2)" "stays (post_withdrawals_submit env now rq b3)"
  "stays (post_solver_quotes env b5)" "stays (post_request_quotes env now solver rq h b6)"
  "stays (post_quote_accept env now rq q b7)" "stays (post_quote_lock env q b8)" "stays (post_fills env b9)"
  unfolding post_proof_request_def post_withdrawals_prepare_def createWithdrawal_def post_withdrawals_submit_def
    post_solver_quotes_def post_request_quotes_def post_quote_accept_def post_quote_lock_def post_fills_def proof_row_def Let_def
  by (intro stays_intros store_step_intros | simp add: written_def col_def)+

lemma stays_persist_routing: "stays (persist_routing u h sid b)"
  unfolding persist_routing_def by (intro stays_intros store_step_intros | simp add: updated_def)+

lemma stays_route [stays_intros]: "stays (route_to_mpc ans u h b)"
  using stays_persist_routing unfolding stays_def route_to_mpc_def Let_def by (auto split: http_answer.split option.split)

lemma stays_mpc_gate [stays_intros]: "stays (mpc_gate b)"
  unfolding mpc_gate_def by (intro stays_andThen stays_find_row) (auto simp: stays_def require_def ret_def)

lemma stays_checks [stays_intros]: "stays (settle_checks u b)"
  unfolding settle_checks_def lifecycle_checks_def by (intro stays_intros)+

lemma stays_fill_execute: "stays (post_fill_execute f tx)"
proof -
  have "store_step st (snd (executeFill f h st))" for st h
    unfolding executeFill_def snd_conv by (rule update) (simp add: updated_def)
  then show ?thesis unfolding post_fill_execute_def by (intro stays_intros)
qed

lemma stays_set_user: "stays (do_store (setRowUser ''settlements'' c i u))"
proof -
  have "store_step st (setRowUser ''settlements'' c i u st)" for st
    unfolding setRowUser_def by (simp, rule update) (simp add: updated_def)
  then show ?thesis by (intro stays_do)
qed

lemma stays_settlement: "stays (post_intents env now ans rq b1)" "stays (post_rfq_settle env now rq b2)"
  unfolding post_intents_def post_rfq_settle_def Let_def
  by (intro stays_set_user stays_intros store_step_intros | simp add: written_def intent_row_of_def col_def)+

lemma stays_swallow [stays_intros]: "stays m \<Longrightarrow> stays (swallow m)"
  by (simp add: stays_def swallow_def)

lemma stays_persist_mpc [stays_intros]: "stays (persist_mpc_intent i sid u b shs)"
  unfolding persist_mpc_intent_def by (intro stays_intros)

lemma stays_anchor [stays_intros]: "stays (proxyAnchor anchor)"
  unfolding proxyAnchor_def by (intro stays_intros)

lemma stays_reports:
  "stays (post_view_key_report env lib nl now sec rid gen eph nonce rq b1)" "stays (post_outbound_prepare env now rq b2)"
  "stays (post_outbound_submit env now rq b3)" "stays (outboundStep env now rq jt x b3)"
  "stays (post_mpc_intents env now ans rq b3 shs)" "stays (post_anchor_quotes env now anchor qid rq b3)"
  "stays (post_anchor_payouts env now anchor pid rq b3)"
  unfolding post_view_key_report_def post_outbound_prepare_def post_outbound_submit_def outboundStep_def post_mpc_intents_def proxied_def
    post_anchor_quotes_def post_anchor_payouts_def Let_def
  by (intro stays_intros store_step_intros | simp add: written_def)+

lemma stays_queries:
  "stays (get_auth_session env now rq)" "stays (get_me env now rq)" "stays (get_me_wallets env now rq)" "stays (get_me_rows env now rq t)"
  "stays (get_note_vaults env now rq)" "stays (get_note_vault env now rq vid)" "stays (get_proof env now rq pid)"
  "stays (get_view_key_report env now rq rid)" "stays (get_activity env now rq)" "stays (get_anchor_payout env now anchor rq pid)"
  "stays (post_compliance_package env now anchor rq b)"
  unfolding get_auth_session_def get_me_def get_me_wallets_def get_me_rows_def get_note_vaults_def get_note_vault_def get_proof_def
    get_view_key_report_def get_activity_def get_anchor_payout_def post_compliance_package_def
  by (intro stays_intros)+

lemmas handlers_stay = stays_login stays_deposits stays_vaults stays_rfq stays_fill_execute stays_settlement stays_reports stays_queries


section \<open>The API's steps\<close>

text \<open>
  A step is one request, or a write of another service: the committee, the settler, the workers and the queue
  own \<open>ap_mpc\<close>; the root auditor the findings; the indexers the spent nullifiers and the payouts.
\<close>

inductive api_step :: "api_env \<Rightarrow> api \<Rightarrow> api \<Rightarrow> bool" for env where
  nonce_: "api_step env a (snd (post_auth_nonce env now nonce b a))"
| verify: "api_step env a (snd (verifyHandler env now token wt b a))"
| session_: "api_step env a (snd (get_auth_session env now rq a))"
| logout: "api_step env a (snd (post_auth_logout env now rq a))"
| me: "api_step env a (snd (get_me env now rq a))"
| me_patch: "api_step env a (snd (patch_me env now rq b a))"
| me_wallets: "api_step env a (snd (get_me_wallets env now rq a))"
| sync_privy: "api_step env a (snd (post_sync_privy env now rq b a))"
| me_wallet_add: "api_step env a (snd (post_me_wallets env now rq b a))"
| me_wallet_delete: "api_step env a (snd (delete_me_wallet env now rq wid a))"
| me_rows: "api_step env a (snd (get_me_rows env now rq t a))"
| deposit_prepare: "api_step env a (snd (post_deposits_prepare env now rq b a))"
| burn_submitted: "api_step env a (snd (post_burn_submitted env now rq did b a))"
| deposit_step: "api_step env a (snd (depositStep now jt did b a))"
| note_backup: "api_step env a (snd (post_encrypted_backup env now rq b a))"
| recover: "api_step env a (snd (post_notes_recover env now rq b a))"
| vault_post: "api_step env a (snd (post_note_vaults env now rq b a))"
| vault_list: "api_step env a (snd (get_note_vaults env now rq a))"
| vault_get: "api_step env a (snd (get_note_vault env now rq vid a))"
| vault_put: "api_step env a (snd (put_note_vault env now rq vid b a))"
| vault_verify: "api_step env a (snd (post_verify_backup env now rq vid b a))"
| vault_restored: "api_step env a (snd (post_mark_restored env now rq vid a))"
| wrapper_post: "api_step env a (snd (post_wrappers env now rq vid b a))"
| wrapper_del: "api_step env a (snd (delete_wrapper env now rq vid wid a))"
| proof_post: "api_step env a (snd (post_proof_request env now rq b a))"
| proof_get: "api_step env a (snd (get_proof env now rq pid a))"
| withdrawal: "api_step env a (snd (post_withdrawals_prepare env now rq b a))"
| withdrawal_submit: "api_step env a (snd (post_withdrawals_submit env now rq b a))"
| intent: "api_step env a (snd (post_intents env now ans rq b a))"
| quotes_request: "api_step env a (snd (post_request_quotes env now solver rq h b a))"
| quote_post: "api_step env a (snd (post_solver_quotes env b a))"
| accept: "api_step env a (snd (post_quote_accept env now rq q b a))"
| lock: "api_step env a (snd (post_quote_lock env q b a))"
| fill: "api_step env a (snd (post_fills env b a))"
| fill_execute: "api_step env a (snd (post_fill_execute f tx a))"
| settle: "api_step env a (snd (post_rfq_settle env now rq b a))"
| report_post: "api_step env a (snd (post_view_key_report env lib nl now sec rid gen eph nonce rq b a))"
| report_get: "api_step env a (snd (get_view_key_report env now rq rid a))"
| exit: "api_step env a (snd (post_outbound_prepare env now rq b a))"
| exit_submit: "api_step env a (snd (post_outbound_submit env now rq b a))"
| exit_step: "api_step env a (snd (outboundStep env now rq jt x b a))"
| timeline: "api_step env a (snd (get_activity env now rq a))"
| mpc_intent: "api_step env a (snd (post_mpc_intents env now ans rq b shs a))"
| anchor_quote: "api_step env a (snd (post_anchor_quotes env now anchor qid rq b a))"
| anchor_payout: "api_step env a (snd (post_anchor_payouts env now anchor pid rq b a))"
| payout_get: "api_step env a (snd (get_anchor_payout env now anchor rq pid a))"
| compliance: "api_step env a (snd (post_compliance_package env now anchor rq b a))"
| others: "api_step env a (a \<lparr> ap_mpc := db, ap_shares := shs,
    ap_store := (ap_store a) \<lparr> st_findings := fs, st_spent := ns, st_payouts := ps \<rparr> \<rparr>)"

definition init_store :: store where
  "init_store = \<lparr> st_next = 0, st_tables = (\<lambda>_. []), st_transitions = [], st_activity = [], st_users = [], st_profiles = [], st_wallets = [],
     st_nonces = [], st_sessions = [], st_vaults = [], st_wrappers = [], st_backups = [], st_reports = [], st_findings = [], st_spent = [],
     st_payouts = [] \<rparr>"

definition api_reach :: "api_env \<Rightarrow> api \<Rightarrow> bool" where
  "api_reach env a = (\<exists>a0. ap_store a0 = init_store \<and> (api_step env)\<^sup>*\<^sup>* a0 a)"

lemma api_step_store:
  "api_step env a a' \<Longrightarrow> store_step\<^sup>*\<^sup>* (ap_store a) (ap_store a') \<or>
    (\<exists>fs ns ps. ap_store a' = (ap_store a) \<lparr> st_findings := fs, st_spent := ns, st_payouts := ps \<rparr>)"
  by (cases rule: api_step.cases, assumption)
    (insert handlers_stay, simp_all add: stays_def, blast)


section \<open>Invariants of the store\<close>

text \<open>A property of the store that holds at the start, that every statement keeps, and that does not look at what
  other services write, holds in every state the API reaches.\<close>

locale store_invariant =
  fixes I :: "store \<Rightarrow> bool"
  assumes start: "I init_store"
    and step: "store_step st st' \<Longrightarrow> I st \<Longrightarrow> I st'"
    and frame: "I (st \<lparr> st_findings := fs, st_spent := ns, st_payouts := ps \<rparr>) = I st"
begin

lemma steps: "store_step\<^sup>*\<^sup>* st st' \<Longrightarrow> I st \<Longrightarrow> I st'"
  by (induction rule: rtranclp_induct) (auto intro: step)

lemma reach: "api_reach env a \<Longrightarrow> I (ap_store a)"
proof -
  assume "api_reach env a"
  then obtain a0 where a0: "ap_store a0 = init_store" and r: "(api_step env)\<^sup>*\<^sup>* a0 a" by (auto simp: api_reach_def)
  from r show ?thesis
  proof (induction rule: rtranclp_induct)
    case base
    then show ?case using a0 start by simp
  next
    case (step y z)
    then show ?case using api_step_store [OF step(2)] steps frame by auto
  qed
qed

end

text \<open>What each statement leaves alone.\<close>

lemmas user_stmts = privy_db_user_def upsertUserByPrivyId_def new_user_def touch_login_def createNonce_def consumeNonce_def
  upsertUserByWallet_def Store.createSession_def revokeSession_def updateUser_def addWallet_def deleteWallet_def

lemmas vault_stmts = createNoteVault_def updateNoteVault_def setVaultBackupVerified_def setVaultBackupStatus_def update_vaults_def
  addVaultWrapper_def deleteVaultWrapper_def addNoteBackup_def

lemmas table_stmts = createUserDeposit_def setDepositBurnTx_def insertGeneric_def insert_row_def add_row_def set_cols_def

lemmas log_stmts = logActivity_def transition_def insertViewKeyReport_def

lemma sync_wallets_keep:
  "st_tables (fold (sync_wallet now u p) ws st) = st_tables st"
  "st_vaults (fold (sync_wallet now u p) ws st) = st_vaults st"
  "st_wrappers (fold (sync_wallet now u p) ws st) = st_wrappers st"
  "st_users (fold (sync_wallet now u p) ws st) = st_users st"
  "st_sessions (fold (sync_wallet now u p) ws st) = st_sessions st"
  "st_nonces (fold (sync_wallet now u p) ws st) = st_nonces st"
  by (induction ws arbitrary: st) (simp_all add: sync_wallet_def Let_def)

lemma user_stmts_tables [simp]:
  "st_tables (snd (privy_db_user now sub st)) = st_tables st" "st_tables (createNonce now wt addr n msg ex st) = st_tables st"
  "st_tables (snd (consumeNonce now wt addr n st)) = st_tables st" "st_tables (snd (upsertUserByWallet now wt ch addr st)) = st_tables st"
  "st_tables (snd (Store.createSession u h ex st)) = st_tables st" "st_tables (revokeSession now h st) = st_tables st"
  "st_tables (updateUser u f st) = st_tables st" "st_tables (snd (syncPrivyWallets now u did ws st)) = st_tables st"
  "st_tables (snd (addWallet now u wt ch addr st)) = st_tables st" "st_tables (snd (deleteWallet u wid st)) = st_tables st"
  by (auto simp: user_stmts syncPrivyWallets_def sync_wallets_keep Let_def split: option.split list.split prod.split)

lemma user_stmts_vaults [simp]:
  "st_vaults (snd (privy_db_user now sub st)) = st_vaults st" "st_vaults (createNonce now wt addr n msg ex st) = st_vaults st"
  "st_vaults (snd (consumeNonce now wt addr n st)) = st_vaults st" "st_vaults (snd (upsertUserByWallet now wt ch addr st)) = st_vaults st"
  "st_vaults (snd (Store.createSession u h ex st)) = st_vaults st" "st_vaults (revokeSession now h st) = st_vaults st"
  "st_vaults (updateUser u f st) = st_vaults st" "st_vaults (snd (syncPrivyWallets now u did ws st)) = st_vaults st"
  "st_vaults (snd (addWallet now u wt ch addr st)) = st_vaults st" "st_vaults (snd (deleteWallet u wid st)) = st_vaults st"
  by (auto simp: user_stmts syncPrivyWallets_def sync_wallets_keep Let_def split: option.split list.split prod.split)

lemma user_stmts_wrappers [simp]:
  "st_wrappers (snd (privy_db_user now sub st)) = st_wrappers st" "st_wrappers (createNonce now wt addr n msg ex st) = st_wrappers st"
  "st_wrappers (snd (consumeNonce now wt addr n st)) = st_wrappers st" "st_wrappers (snd (upsertUserByWallet now wt ch addr st)) = st_wrappers st"
  "st_wrappers (snd (Store.createSession u h ex st)) = st_wrappers st" "st_wrappers (revokeSession now h st) = st_wrappers st"
  "st_wrappers (updateUser u f st) = st_wrappers st" "st_wrappers (snd (syncPrivyWallets now u did ws st)) = st_wrappers st"
  "st_wrappers (snd (addWallet now u wt ch addr st)) = st_wrappers st" "st_wrappers (snd (deleteWallet u wid st)) = st_wrappers st"
  by (auto simp: user_stmts syncPrivyWallets_def sync_wallets_keep Let_def split: option.split list.split prod.split)

lemma vault_stmts_tables [simp]:
  "st_tables (createNoteVault now u p vid i st) = st_tables st" "st_tables (snd (updateNoteVault u vid i st)) = st_tables st"
  "st_tables (snd (setVaultBackupVerified now u vid vf st)) = st_tables st" "st_tables (snd (setVaultBackupStatus now u vid s st)) = st_tables st"
  "st_tables (snd (addVaultWrapper u vid wt md st)) = st_tables st" "st_tables (snd (deleteVaultWrapper u vid wid st)) = st_tables st"
  "st_tables (addNoteBackup u c p v st) = st_tables st"
  by (simp_all add: vault_stmts Let_def)

lemma log_stmts_keep [simp]:
  "st_tables (logActivity ou ev et eid tx md st) = st_tables st" "st_vaults (logActivity ou ev et eid tx md st) = st_vaults st"
  "st_wrappers (logActivity ou ev et eid tx md st) = st_wrappers st"
  "st_tables (transition ety ei ts tx st) = st_tables st" "st_vaults (transition ety ei ts tx st) = st_vaults st"
  "st_wrappers (transition ety ei ts tx st) = st_wrappers st"
  "st_tables (snd (insertViewKeyReport rr st)) = st_tables st" "st_vaults (snd (insertViewKeyReport rr st)) = st_vaults st"
  "st_wrappers (snd (insertViewKeyReport rr st)) = st_wrappers st"
  by (simp_all add: log_stmts)

lemma table_stmts_keep [simp]:
  "st_vaults (snd (createUserDeposit d st)) = st_vaults st" "st_vaults (setDepositBurnTx did h st) = st_vaults st"
  "st_vaults (snd (insertGeneric t r st)) = st_vaults st" "st_vaults (set_cols t p upd st) = st_vaults st"
  "st_wrappers (snd (createUserDeposit d st)) = st_wrappers st" "st_wrappers (setDepositBurnTx did h st) = st_wrappers st"
  "st_wrappers (snd (insertGeneric t r st)) = st_wrappers st" "st_wrappers (set_cols t p upd st) = st_wrappers st"
  by (simp_all add: table_stmts Let_def)

text \<open>When an insert adds its row: every constraint holds and no row conflicts.\<close>

definition fits :: "string \<Rightarrow> row \<Rightarrow> store \<Rightarrow> bool" where
  "fits t r st = (list_all (\<lambda>k. k \<in> set (ts_columns (schema t))) (map fst r) \<and> list_all (\<lambda>k. col r k \<noteq> VNull) (ts_required (schema t)) \<and>
     \<not> list_ex (\<lambda>r0. list_ex (\<lambda>k. col r k \<noteq> VNull \<and> col r0 k = col r k) (ts_unique (schema t))) (st_tables st t) \<and>
     list_all (\<lambda>(k, t', k'). col r k = VNull \<or> list_ex (\<lambda>r0. col r0 k' = col r k) (st_tables st t')) (ts_refs (schema t)))"

lemma insertGeneric_snd: "snd (insertGeneric t r st) = (if t \<in> set insert_tables \<and> fits t r st then add_row t r st else st)"
proof (cases "t \<in> set insert_tables")
  case True
  then show ?thesis unfolding insertGeneric_def insert_row_def Let_def fits_def by simp
next
  case False
  then show ?thesis by (simp add: insertGeneric_def)
qed

lemma step_tables [consumes 1, case_names same deposit burn insert update]:
  assumes "store_step st st'"
  obtains "st_tables st' = st_tables st" | d where "st' = snd (createUserDeposit d st)" | i h where "st' = setDepositBurnTx i h st"
    | t r where "written t r" "st' = snd (insertGeneric t r st)" | t p upd where "updated t upd" "st' = set_cols t p upd st"
  using assms by (cases rule: store_step.cases) simp_all

lemma step_vaults [consumes 1, case_names same create update verified status wrapper unwrapper]:
  assumes "store_step st st'"
  obtains "st_vaults st' = st_vaults st" "st_wrappers st' = st_wrappers st"
    | now u p vid i where "walk (vi_envelope i) = None" "st' = createNoteVault now u p vid i st"
    | u vid i where "walk (vi_envelope i) = None" "st' = snd (updateNoteVault u vid i st)"
    | now u vid vf where "st' = snd (setVaultBackupVerified now u vid vf st)"
    | now u vid s where "st' = snd (setVaultBackupStatus now u vid s st)"
    | u vid wt md where "st' = snd (addVaultWrapper u vid wt md st)"
    | u vid wid where "st' = snd (deleteVaultWrapper u vid wid st)"
  using assms by (cases rule: store_step.cases) (simp_all add: addNoteBackup_def)

text \<open>Proof jobs: no statement makes one anything but queued.\<close>

definition proofs_queued :: "store \<Rightarrow> bool" where
  "proofs_queued st = list_all (\<lambda>r. col r ''status'' = VStr ''queued'') (st_tables st ''proof_jobs'')"

lemma proofs_queued_step: "store_step st st' \<Longrightarrow> proofs_queued st \<Longrightarrow> proofs_queued st'"
proof (induction rule: step_tables)
  case same
  then show ?case by (simp add: proofs_queued_def)
next
  case (deposit d)
  then show ?case by (simp add: proofs_queued_def createUserDeposit_def add_row_def)
next
  case (burn i h)
  then show ?case by (simp add: proofs_queued_def setDepositBurnTx_def set_cols_def)
next
  case (insert t r)
  then show ?case by (auto simp: insertGeneric_snd proofs_queued_def add_row_def written_def)
next
  case (update t p upd)
  then have "t \<noteq> ''proof_jobs''" by (auto simp: updated_def)
  then show ?case using update by (simp add: proofs_queued_def set_cols_def)
qed

interpretation proofs: store_invariant proofs_queued
proof
  show "proofs_queued init_store" by (simp add: proofs_queued_def init_store_def)
qed (rule proofs_queued_step, assumption+, simp add: proofs_queued_def)

text \<open>Intents: no statement moves the row of one out of its first state.\<close>

definition intents_created :: "store \<Rightarrow> bool" where
  "intents_created st = list_all (\<lambda>r. col r ''state'' = VStr ''INTENT_CREATED'') (st_tables st ''intents'')"

lemma intents_created_step: "store_step st st' \<Longrightarrow> intents_created st \<Longrightarrow> intents_created st'"
proof (induction rule: step_tables)
  case same
  then show ?case by (simp add: intents_created_def)
next
  case (deposit d)
  then show ?case by (simp add: intents_created_def createUserDeposit_def add_row_def)
next
  case (burn i h)
  then show ?case by (simp add: intents_created_def setDepositBurnTx_def set_cols_def)
next
  case (insert t r)
  then show ?case by (auto simp: insertGeneric_snd intents_created_def add_row_def written_def)
next
  case (update t p upd)
  show ?case
  proof (cases "t = ''intents''")
    case True
    then have "''state'' \<notin> set (map fst upd)" using update(1) by (auto simp: updated_def)
    then have "col (spread r upd) ''state'' = col r ''state''" for r
      by (simp add: col_def map_of_spread map_add_def map_of_eq_None_iff [THEN iffD2] split: option.split)
    then show ?thesis using update True by (auto simp: intents_created_def set_cols_def list_all_iff)
  qed (use update in \<open>simp add: intents_created_def set_cols_def\<close>)
qed

interpretation created: store_invariant intents_created
proof
  show "intents_created init_store" by (simp add: intents_created_def init_store_def)
qed (rule intents_created_step, assumption+, simp add: intents_created_def)

text \<open>Stored envelopes have passed the plaintext scan.\<close>

definition vaults_clean :: "store \<Rightarrow> bool" where
  "vaults_clean st = list_all (\<lambda>v. walk (v_envelope v) = None) (st_vaults st)"

lemma vaults_clean_step: "store_step st st' \<Longrightarrow> vaults_clean st \<Longrightarrow> vaults_clean st'"
  by (induction rule: step_vaults) (auto simp: vaults_clean_def vault_stmts put_vault_def list_all_iff Let_def)

interpretation clean: store_invariant vaults_clean
proof
  show "vaults_clean init_store" by (simp add: vaults_clean_def init_store_def)
qed (rule vaults_clean_step, assumption+, simp add: vaults_clean_def)


section \<open>Integrity of the tables\<close>

definition row_typed :: "string \<Rightarrow> row \<Rightarrow> bool" where
  "row_typed t r = (list_all (\<lambda>k. k \<in> set (ts_columns (schema t))) (map fst r) \<and> list_all (\<lambda>k. col r k \<noteq> VNull) (ts_required (schema t)))"

definition keys_unique :: "string \<Rightarrow> row list \<Rightarrow> bool" where
  "keys_unique t rs = list_all (\<lambda>k. distinct (filter (\<lambda>v. v \<noteq> VNull) (map (\<lambda>r. col r k) rs))) (ts_unique (schema t))"

definition refs_hold :: "store \<Rightarrow> string \<Rightarrow> row \<Rightarrow> bool" where
  "refs_hold st t r = list_all (\<lambda>(k, t', k'). col r k = VNull \<or> list_ex (\<lambda>r0. col r0 k' = col r k) (st_tables st t')) (ts_refs (schema t))"

text \<open>The tables the API inserts into obey their schema: known columns, required columns given, unique columns
  unique, references resolved.\<close>

definition tables_typed :: "store \<Rightarrow> bool" where
  "tables_typed st = list_all (\<lambda>t. list_all (row_typed t) (st_tables st t) \<and> keys_unique t (st_tables st t) \<and>
     list_all (refs_hold st t) (st_tables st t)) insert_tables"

lemma tables_typedI:
  assumes "\<And>t r. t \<in> set insert_tables \<Longrightarrow> r \<in> set (st_tables st t) \<Longrightarrow> row_typed t r"
    and "\<And>t. t \<in> set insert_tables \<Longrightarrow> keys_unique t (st_tables st t)"
    and "\<And>t r. t \<in> set insert_tables \<Longrightarrow> r \<in> set (st_tables st t) \<Longrightarrow> refs_hold st t r"
  shows "tables_typed st"
  using assms by (simp add: tables_typed_def list_all_iff)

lemma tables_typedD:
  assumes "tables_typed st" "t \<in> set insert_tables"
  shows "r \<in> set (st_tables st t) \<Longrightarrow> row_typed t r" "keys_unique t (st_tables st t)" "r \<in> set (st_tables st t) \<Longrightarrow> refs_hold st t r"
  using assms by (simp_all add: tables_typed_def list_all_iff)

lemma refs_hold_mono:
  assumes "refs_hold st t r" "\<And>t' k v. list_ex (\<lambda>r0. col r0 k = v) (st_tables st t') \<Longrightarrow> list_ex (\<lambda>r0. col r0 k = v) (st_tables st' t')"
  shows "refs_hold st' t r"
  using assms by (fastforce simp: refs_hold_def list_all_iff)

lemma keys_unique_snoc:
  assumes "keys_unique t rs" "\<not> list_ex (\<lambda>r0. list_ex (\<lambda>k. col r k \<noteq> VNull \<and> col r0 k = col r k) (ts_unique (schema t))) rs"
  shows "keys_unique t (rs @ [r])"
  using assms by (fastforce simp: keys_unique_def list_all_iff list_ex_iff)

lemma tables_typed_add:
  assumes "tables_typed st" "t \<in> set insert_tables \<Longrightarrow> fits t r st"
  shows "tables_typed (add_row t r st)"
proof (rule tables_typedI)
  have mono: "refs_hold st t' x \<Longrightarrow> refs_hold (add_row t r st) t' x" for t' x
    by (erule refs_hold_mono) (auto simp: add_row_def)
  fix t' assume t': "t' \<in> set insert_tables"
  note typed = tables_typedD [OF assms(1) t']
  show "keys_unique t' (st_tables (add_row t r st) t')"
    using typed(2) keys_unique_snoc [of t "st_tables st t" r] assms(2) t' by (cases "t' = t") (simp_all add: add_row_def fits_def)
  fix x assume x: "x \<in> set (st_tables (add_row t r st) t')"
  show "row_typed t' x" using x typed(1) [of x] assms(2) t' by (auto simp: add_row_def fits_def row_typed_def split: if_splits)
  have "refs_hold st t' x" using x typed(3) [of x] assms(2) t' by (auto simp: add_row_def fits_def refs_hold_def split: if_splits)
  then show "refs_hold (add_row t r st) t' x" by (rule mono)
qed

lemma col_spread: "k \<notin> set (map fst upd) \<Longrightarrow> col (spread r upd) k = col r k"
  by (simp add: col_def map_of_spread map_add_def map_of_eq_None_iff [THEN iffD2] split: option.split)

lemma keys_spread: "fst ` set (spread r upd) = fst ` set r \<union> fst ` set upd"
  by (induction r upd rule: spread.induct) (simp_all add: jm_set_keys [unfolded list.set_map])

lemma col_spread_in: "k \<in> set (map fst upd) \<Longrightarrow> (k, col (spread r upd) k) \<in> set upd"
proof -
  assume "k \<in> set (map fst upd)"
  then obtain v where v: "map_of (rev upd) k = Some v" by (metis map_of_eq_None_iff not_None_eq rev_map set_rev list.set_map)
  then show ?thesis using map_of_SomeD [OF v] by (simp add: col_def map_of_spread map_add_def)
qed

text \<open>Updates that touch no key: the columns exist, are neither unique nor references nor referred to, and
  required ones stay given.\<close>

definition harmless :: "string \<Rightarrow> row \<Rightarrow> bool" where
  "harmless t upd =
    ((t \<in> set insert_tables \<longrightarrow> list_all (\<lambda>(k, v). k \<in> set (ts_columns (schema t)) \<and> k \<notin> set (ts_unique (schema t)) \<and>
        k \<notin> set (map fst (ts_refs (schema t))) \<and> (k \<in> set (ts_required (schema t)) \<longrightarrow> v \<noteq> VNull)) upd) \<and>
     list_all (\<lambda>t'. list_all (\<lambda>(k, t2, k'). t2 = t \<longrightarrow> k' \<notin> set (map fst upd)) (ts_refs (schema t'))) insert_tables)"

lemma harmless_updated: "updated t upd \<Longrightarrow> harmless t upd"
  unfolding updated_def
proof (elim conjE)
  assume a: "(t, map fst upd) \<in> set [(''intents'', [''mpc_session_id'']), (''fills'', [''destination_tx_hash'', ''state'']), (''settlements'', [''user_id''])]"
    and n: "(''state'', VNull) \<notin> set upd"
  from a consider x where "t = ''intents''" "upd = [(''mpc_session_id'', x)]"
    | x y where "t = ''fills''" "upd = [(''destination_tx_hash'', x), (''state'', y)]" | x where "t = ''settlements''" "upd = [(''user_id'', x)]"
    by (auto simp: map_eq_Cons_conv)
  then show "harmless t upd" using n by cases (simp_all add: harmless_def insert_tables_def schema_def)
qed

lemma harmless_burn: "harmless ''cctp_deposits'' [(''source_tx_hash'', x), (''state'', y)]"
  by (simp add: harmless_def insert_tables_def schema_def)

lemma keys_unique_map:
  assumes "keys_unique t rs" "\<And>k. k \<in> set (ts_unique (schema t)) \<Longrightarrow> k \<notin> set (map fst upd)"
  shows "keys_unique t (map (\<lambda>r. if p r then spread r upd else r) rs)"
proof -
  have "map (\<lambda>r. col r k) (map (\<lambda>r. if p r then spread r upd else r) rs) = map (\<lambda>r. col r k) rs" if "k \<in> set (ts_unique (schema t))" for k
    using col_spread [OF assms(2) [OF that]] by simp
  then have "distinct (filter (\<lambda>v. v \<noteq> VNull) (map (\<lambda>r. col r k) (map (\<lambda>r. if p r then spread r upd else r) rs)))"
    if "k \<in> set (ts_unique (schema t))" for k
    using assms(1) that by (simp only: keys_unique_def list_all_iff)
  then show ?thesis unfolding keys_unique_def list_all_iff by blast
qed

lemma row_typed_spread:
  assumes "row_typed t r" "list_all (\<lambda>(k, v). k \<in> set (ts_columns (schema t)) \<and> (k \<in> set (ts_required (schema t)) \<longrightarrow> v \<noteq> VNull)) upd"
  shows "row_typed t (spread r upd)"
  unfolding row_typed_def list_all_iff
proof (intro conjI ballI)
  fix k assume "k \<in> set (map fst (spread r upd))"
  then show "k \<in> set (ts_columns (schema t))" using assms by (auto simp: keys_spread row_typed_def list_all_iff)
next
  fix k assume k: "k \<in> set (ts_required (schema t))"
  show "col (spread r upd) k \<noteq> VNull"
  proof (cases "k \<in> set (map fst upd)")
    case True
    then show ?thesis using col_spread_in [OF True, of r] assms(2) k by (auto simp: list_all_iff)
  next
    case False
    then show ?thesis using col_spread [OF False, of r] assms(1) k by (simp add: row_typed_def list_all_iff)
  qed
qed

lemma tables_typed_set:
  assumes typed: "tables_typed st" and h: "harmless t upd"
  shows "tables_typed (set_cols t p upd st)"
proof (rule tables_typedI)
  let ?f = "\<lambda>r. if p r then spread r upd else r"
  have target: "list_ex (\<lambda>r0. col r0 k' = v) (st_tables (set_cols t p upd st) t2)"
    if ex: "list_ex (\<lambda>r0. col r0 k' = v) (st_tables st t2)" and free: "t2 = t \<Longrightarrow> k' \<notin> set (map fst upd)" for k' t2 v
  proof -
    obtain r0 where r0: "r0 \<in> set (st_tables st t2)" "col r0 k' = v" using ex by (auto simp: list_ex_iff)
    have "(if t2 = t then ?f r0 else r0) \<in> set (st_tables (set_cols t p upd st) t2)" using r0(1) by (auto simp: set_cols_def)
    moreover have "col (if t2 = t then ?f r0 else r0) k' = v" using r0(2) free by (auto simp: col_spread)
    ultimately show ?thesis unfolding list_ex_iff by blast
  qed
  fix t' assume t': "t' \<in> set insert_tables"
  note ty = tables_typedD [OF typed t']
  show "keys_unique t' (st_tables (set_cols t p upd st) t')"
  proof (cases "t' = t")
    case True
    have "k \<notin> set (map fst upd)" if "k \<in> set (ts_unique (schema t'))" for k
      using h t' that True by (auto simp: harmless_def list_all_iff)
    then show ?thesis using keys_unique_map [OF ty(2)] True by (simp add: set_cols_def)
  qed (simp add: set_cols_def ty(2))
  fix r assume "r \<in> set (st_tables (set_cols t p upd st) t')"
  then obtain x where x: "x \<in> set (st_tables st t')" "r = (if t' = t then ?f x else x)" by (auto simp: set_cols_def split: if_splits)
  have "row_typed t (spread x upd)" if "t' = t"
    using that h t' by (intro row_typed_spread ty(1) [OF x(1), unfolded that]) (auto simp: harmless_def list_all_iff)
  then show "row_typed t' r" using ty(1) [OF x(1)] x(2) by auto
  show "refs_hold (set_cols t p upd st) t' r"
    unfolding refs_hold_def list_all_iff
  proof (clarify)
    fix k t2 k'
    assume ref: "(k, t2, k') \<in> set (ts_refs (schema t'))" and none: "\<not> list_ex (\<lambda>r0. col r0 k' = col r k) (st_tables (set_cols t p upd st) t2)"
    have same: "col r k = col x k"
      using h t' ref x(2) col_spread [of k upd x] by (force simp: harmless_def list_all_iff)
    have "t2 = t \<Longrightarrow> k' \<notin> set (map fst upd)" using h t' ref by (fastforce simp: harmless_def list_all_iff)
    then have "\<not> list_ex (\<lambda>r0. col r0 k' = col x k) (st_tables st t2)" using target none same by auto
    then show "col r k = VNull" using ty(3) [OF x(1)] ref same by (auto simp: refs_hold_def list_all_iff)
  qed
qed

lemma tables_typed_cong: "st_tables st' = st_tables st \<Longrightarrow> tables_typed st' = tables_typed st"
  by (simp add: tables_typed_def refs_hold_def [abs_def])

lemma tables_typed_step: "store_step st st' \<Longrightarrow> tables_typed st \<Longrightarrow> tables_typed st'"
proof (induction rule: step_tables)
  case same
  then show ?case by (simp only: tables_typed_cong [OF same(1)])
next
  case (deposit d)
  have "''cctp_deposits'' \<notin> set insert_tables" by (simp add: insert_tables_def)
  then show ?case using deposit tables_typed_add by (auto simp: createUserDeposit_def)
next
  case (burn i h)
  then show ?case by (simp add: setDepositBurnTx_def tables_typed_set harmless_burn)
next
  case (insert t r)
  then show ?case using tables_typed_add by (auto simp: insertGeneric_snd)
next
  case (update t p upd)
  then show ?case by (simp add: tables_typed_set harmless_updated)
qed

interpretation typed: store_invariant tables_typed
proof
  show "tables_typed init_store" by (simp add: tables_typed_def init_store_def keys_unique_def list_all_iff)
qed (rule tables_typed_step, assumption+, rule tables_typed_cong, simp)


section \<open>Integrity of the accounts\<close>

text \<open>Vault ids are unique and wrappers belong to a vault.\<close>

definition vault_ids :: "store \<Rightarrow> string list" where
  "vault_ids st = map v_vault_id (st_vaults st)"

definition vaults_ok :: "store \<Rightarrow> bool" where
  "vaults_ok st = (distinct (vault_ids st) \<and> list_all (\<lambda>w. wr_vault_id w \<in> set (vault_ids st)) (st_wrappers st))"

lemma vault_ids_update: "(\<And>v. v_vault_id (f v) = v_vault_id v) \<Longrightarrow> vault_ids (snd (update_vaults u vid f st)) = vault_ids st"
  by (simp add: vault_ids_def update_vaults_def)

lemma vault_ids_stmts [simp]:
  "vault_ids (snd (updateNoteVault u vid i st)) = vault_ids st"
  "vault_ids (snd (setVaultBackupVerified now u vid vf st)) = vault_ids st"
  "vault_ids (snd (setVaultBackupStatus now u vid s st)) = vault_ids st"
  "vault_ids (snd (addVaultWrapper u vid wt md st)) = vault_ids st"
  "vault_ids (snd (deleteVaultWrapper u vid wid st)) = vault_ids st"
  "vault_ids (createNoteVault now u p vid i st) = (if vid \<in> set (vault_ids st) then vault_ids st else vault_ids st @ [vid])"
  unfolding updateNoteVault_def setVaultBackupVerified_def setVaultBackupStatus_def
  by (simp_all add: vault_ids_update put_vault_def addVaultWrapper_def deleteVaultWrapper_def createNoteVault_def Let_def)
    (auto simp: vault_ids_def put_vault_def list_ex_iff)

lemma vault_stmts_wrappers [simp]:
  "st_wrappers (snd (updateNoteVault u vid i st)) = st_wrappers st"
  "st_wrappers (snd (setVaultBackupVerified now u vid vf st)) = st_wrappers st"
  "st_wrappers (snd (setVaultBackupStatus now u vid s st)) = st_wrappers st"
  "st_wrappers (createNoteVault now u p vid i st) = st_wrappers st"
  by (simp_all add: vault_stmts)

lemma vaults_ok_step: "store_step st st' \<Longrightarrow> vaults_ok st \<Longrightarrow> vaults_ok st'"
proof (induction rule: step_vaults)
  case same
  then show ?case by (simp add: vaults_ok_def vault_ids_def)
next
  case (create now u p vid i)
  then show ?case by (auto simp: vaults_ok_def list_all_iff)
next
  case (wrapper u vid wt md)
  then show ?case by (auto simp: vaults_ok_def addVaultWrapper_def vault_ids_def list_ex_iff)
next
  case (unwrapper u vid wid)
  then show ?case by (auto simp: vaults_ok_def deleteVaultWrapper_def vault_ids_def list_all_iff Let_def)
qed (simp_all add: vaults_ok_def)

interpretation vaults: store_invariant vaults_ok
proof
  show "vaults_ok init_store" by (simp add: vaults_ok_def vault_ids_def init_store_def)
qed (rule vaults_ok_step, assumption+, simp add: vaults_ok_def vault_ids_def)

text \<open>Users, wallets, sessions and nonces have unique keys; the ids given out are below the counter.\<close>

definition wallet_key :: "wallet_row \<Rightarrow> string \<times> string" where
  "wallet_key w = (w_wallet_type w, w_address w)"

definition user_ids :: "store \<Rightarrow> nat list" where
  "user_ids st = map u_id (st_users st)"

definition privy_ids :: "store \<Rightarrow> string option list" where
  "privy_ids st = map u_privy_user_id (st_users st)"

definition wallet_keys :: "store \<Rightarrow> (string \<times> string) list" where
  "wallet_keys st = map wallet_key (st_wallets st)"

definition session_hashes :: "store \<Rightarrow> string list" where
  "session_hashes st = map us_session_hash (st_sessions st)"

definition nonce_ids :: "store \<Rightarrow> nat list" where
  "nonce_ids st = map n_id (st_nonces st)"

lemmas account_lists = user_ids_def privy_ids_def wallet_keys_def session_hashes_def nonce_ids_def

definition accounts_ok :: "store \<Rightarrow> bool" where
  "accounts_ok st = (distinct (user_ids st) \<and> list_all (\<lambda>i. i < st_next st) (user_ids st) \<and> distinct (filter (\<lambda>x. x \<noteq> None) (privy_ids st)) \<and>
     distinct (wallet_keys st) \<and> distinct (session_hashes st) \<and> distinct (nonce_ids st) \<and> list_all (\<lambda>i. i < st_next st) (nonce_ids st))"

text \<open>The key lists of one state beside those of another.\<close>

definition same_keys :: "store \<Rightarrow> store \<Rightarrow> bool" where
  "same_keys st st' = (st_next st \<le> st_next st' \<and> user_ids st' = user_ids st \<and> privy_ids st' = privy_ids st \<and> wallet_keys st' = wallet_keys st \<and>
     session_hashes st' = session_hashes st \<and> nonce_ids st' = nonce_ids st)"

lemma same_keys_ok: "same_keys st st' \<Longrightarrow> accounts_ok st \<Longrightarrow> accounts_ok st'"
  by (fastforce simp: same_keys_def accounts_ok_def list_all_iff)

lemma same_keys_fields:
  "st_next st \<le> st_next st' \<Longrightarrow> st_users st' = st_users st \<Longrightarrow> st_wallets st' = st_wallets st \<Longrightarrow> st_sessions st' = st_sessions st
    \<Longrightarrow> st_nonces st' = st_nonces st \<Longrightarrow> same_keys st st'"
  by (simp add: same_keys_def account_lists)

lemma same_keys_touch: "same_keys st (touch_login now u st)"
  by (simp add: same_keys_def account_lists touch_login_def)

lemma same_keys_stmts:
  "same_keys st (revokeSession now h st)" "same_keys st (updateUser u f st)" "same_keys st (snd (consumeNonce now wt addr n st))"
  by (auto simp: same_keys_def account_lists revokeSession_def updateUser_def consumeNonce_def Let_def split: option.split list.split)

lemma same_keys_others:
  "same_keys st (logActivity ou ev et eid tx md st)" "same_keys st (transition ety ei ts tx st)" "same_keys st (snd (insertViewKeyReport rr st))"
  "same_keys st (snd (createUserDeposit d st))" "same_keys st (setDepositBurnTx did h st)" "same_keys st (set_cols t p upd st)"
  "same_keys st (addNoteBackup u c pl v st)" "same_keys st (createNoteVault now u pr vid i st)" "same_keys st (snd (updateNoteVault u vid i st))"
  "same_keys st (snd (setVaultBackupVerified now u vid vf st))" "same_keys st (snd (setVaultBackupStatus now u vid s st))"
  "same_keys st (snd (addVaultWrapper u vid wt md st))" "same_keys st (snd (deleteVaultWrapper u vid wid st))"
  by (rule same_keys_fields; simp add: log_stmts vault_stmts createUserDeposit_def setDepositBurnTx_def set_cols_def add_row_def Let_def)+

lemma same_keys_insert: "same_keys st (snd (insertGeneric t r st))"
  by (rule same_keys_fields) (simp_all add: insertGeneric_snd add_row_def)

lemma new_user_ok:
  assumes "accounts_ok st" "p = None \<or> p \<notin> set (privy_ids st)"
  shows "accounts_ok (snd (new_user now p e m st))"
  using assms by (auto simp: accounts_ok_def new_user_def Let_def account_lists list_all_iff less_Suc_eq)

lemma privy_user_ok: "accounts_ok st \<Longrightarrow> accounts_ok (snd (privy_db_user now sub st))"
  unfolding privy_db_user_def upsertUserByPrivyId_def
  by (auto intro!: new_user_ok same_keys_ok [OF same_keys_touch] simp: privy_ids_def split: option.split) (metis)

lemma wallet_snoc_ok:
  assumes "accounts_ok st" "wallet_key w \<notin> set (wallet_keys st)"
  shows "accounts_ok (st \<lparr> st_next := Suc (st_next st), st_wallets := st_wallets st @ [w] \<rparr>)"
  using assms by (auto simp: accounts_ok_def account_lists list_all_iff less_Suc_eq)

lemma wallet_user_ok: "accounts_ok st \<Longrightarrow> accounts_ok (snd (upsertUserByWallet now wt ch addr st))"
proof -
  assume ok: "accounts_ok st"
  have n: "accounts_ok (snd (new_user now None None None st))" by (rule new_user_ok [OF ok]) simp
  have w: "wallet_keys (snd (new_user now None None None st)) = wallet_keys st" by (simp add: new_user_def Let_def wallet_keys_def)
  show ?thesis
  proof (cases "find_first (\<lambda>w. w_wallet_type w = wt \<and> w_address w = addr) (st_wallets st)")
    case None
    then have "(wt, addr) \<notin> set (wallet_keys st)" by (auto simp: wallet_keys_def wallet_key_def)
    then show ?thesis using None wallet_snoc_ok [OF n] w
      by (cases "new_user now None None None st") (simp add: upsertUserByWallet_def wallet_key_def del: find_first_None)
  next
    case (Some x)
    then show ?thesis by (simp add: upsertUserByWallet_def same_keys_ok [OF same_keys_touch ok])
  qed
qed

lemma sync_wallet_ok: "accounts_ok st \<Longrightarrow> accounts_ok (sync_wallet now u p lw st)"
proof (cases "list_ex (\<lambda>w. w_wallet_type w = lw_wallet_type lw \<and> w_address w = lw_address lw) (st_wallets st)")
  case True
  then have "same_keys st (sync_wallet now u p lw st)" by (simp add: same_keys_def account_lists sync_wallet_def wallet_key_def Let_def)
  then show "accounts_ok st \<Longrightarrow> accounts_ok (sync_wallet now u p lw st)" by (rule same_keys_ok)
next
  case False
  assume "accounts_ok st"
  moreover have "(lw_wallet_type lw, lw_address lw) \<notin> set (wallet_keys st)" using False by (auto simp: list_ex_iff wallet_keys_def wallet_key_def)
  ultimately show ?thesis using False by (simp add: sync_wallet_def Let_def wallet_snoc_ok wallet_key_def)
qed

lemma sync_ok: "accounts_ok st \<Longrightarrow> accounts_ok (snd (syncPrivyWallets now u did ws st))"
  unfolding syncPrivyWallets_def snd_conv by (induction ws arbitrary: st) (auto intro: sync_wallet_ok)

lemma add_wallet_ok: "accounts_ok st \<Longrightarrow> accounts_ok (snd (addWallet now u wt ch addr st))"
proof (cases "find_first (\<lambda>w. w_wallet_type w = wt \<and> w_address w = addr) (st_wallets st)")
  case None
  assume "accounts_ok st"
  moreover have "(wt, addr) \<notin> set (wallet_keys st)" using None by (auto simp: wallet_keys_def wallet_key_def)
  ultimately show ?thesis using None by (simp add: addWallet_def wallet_snoc_ok wallet_key_def del: find_first_None)
next
  case (Some w)
  then have "same_keys st (snd (addWallet now u wt ch addr st))" by (simp add: same_keys_def account_lists addWallet_def wallet_key_def)
  then show "accounts_ok st \<Longrightarrow> accounts_ok (snd (addWallet now u wt ch addr st))" by (rule same_keys_ok)
qed

lemma delete_wallet_ok: "accounts_ok st \<Longrightarrow> accounts_ok (snd (deleteWallet u wid st))"
  by (simp add: accounts_ok_def account_lists deleteWallet_def Let_def distinct_map_filter)

lemma nonce_session_ok:
  "accounts_ok st \<Longrightarrow> accounts_ok (createNonce now wt addr n msg ex st)"
  "accounts_ok st \<Longrightarrow> accounts_ok (snd (Store.createSession u h ex st))"
  by (auto simp: accounts_ok_def account_lists createNonce_def Store.createSession_def list_all_iff list_ex_iff less_Suc_eq)

lemma accounts_ok_step: "store_step st st' \<Longrightarrow> accounts_ok st \<Longrightarrow> accounts_ok st'"
  by (induction rule: store_step.induct)
    (auto intro: privy_user_ok wallet_user_ok sync_ok add_wallet_ok delete_wallet_ok nonce_session_ok
      same_keys_ok [OF same_keys_stmts(1)] same_keys_ok [OF same_keys_stmts(2)] same_keys_ok [OF same_keys_stmts(3)]
      same_keys_ok [OF same_keys_insert] same_keys_ok [OF same_keys_others(1)] same_keys_ok [OF same_keys_others(2)]
      same_keys_ok [OF same_keys_others(3)] same_keys_ok [OF same_keys_others(4)] same_keys_ok [OF same_keys_others(5)]
      same_keys_ok [OF same_keys_others(6)] same_keys_ok [OF same_keys_others(7)] same_keys_ok [OF same_keys_others(8)]
      same_keys_ok [OF same_keys_others(9)] same_keys_ok [OF same_keys_others(10)] same_keys_ok [OF same_keys_others(11)]
      same_keys_ok [OF same_keys_others(12)] same_keys_ok [OF same_keys_others(13)])

interpretation accounts: store_invariant accounts_ok
proof
  show "accounts_ok init_store" by (simp add: accounts_ok_def account_lists init_store_def)
qed (rule accounts_ok_step, assumption+, simp add: accounts_ok_def account_lists)

end
