(* ===== verification/ApiGuarantees.thy ===== *)
theory ApiGuarantees
  imports ApiSystem
begin

text \<open>
  What the API guarantees: integrity of the store, no plaintext at rest, the settlement gates, single-use
  login nonces, prepared deposits that the relayer accepts, and Shade View reports that disclose only their owner's rows.
\<close>

section \<open>Outcomes of statements\<close>

lemma andThen_ok [api_simps]: "fst (andThen m f a) = Inr y \<longleftrightarrow> (\<exists>x. fst (m a) = Inr x \<and> fst (f x (snd (m a))) = Inr y)"
  by (cases "fst (m a)") simp_all

lemma andThen_snd: "snd (andThen m f a) = (case fst (m a) of Inl e \<Rightarrow> snd (m a) | Inr x \<Rightarrow> snd (f x (snd (m a))))"
  by (cases "fst (m a)") simp_all

lemma plain_outcomes [api_simps]:
  "fst (require b c s a) = Inr () \<longleftrightarrow> b" "snd (require b c s a) = a" "fst (ret x a) = Inr x" "snd (ret x a) = a"
  "snd (raise c s a) = a" "fst (raise c s a) = Inl (c, s)" "fst (parsed p a) = Inr q \<longleftrightarrow> p = Some q" "snd (parsed p a) = a"
  "fst (get_store g a) = Inr (g (ap_store a))" "snd (get_store g a) = a" "fst (from_result r a) = r" "snd (from_result r a) = a" "snd (idem rq a) = a"
  by (auto simp: require_def ret_def raise_def parsed_def get_store_def from_result_def idem_def split: option.splits)

lemma find_row_outcome [api_simps]:
  "fst (find_row t c i a) = getById t c i (ap_store a)" "snd (find_row t c i a) = a"
  by (simp_all add: find_row_def andThen_def get_store_def from_result_def)

lemma store_outcomes [api_simps]:
  "fst (do_store g a) = Inr ()" "ap_store (snd (do_store g a)) = g (ap_store a)" "ap_mpc (snd (do_store g a)) = ap_mpc a"
  "fst (run_store h a) = Inr (fst (h (ap_store a)))" "ap_store (snd (run_store h a)) = snd (h (ap_store a))"
  "fst (with_store m a) = fst (m (ap_store a))" "ap_store (snd (with_store m a)) = snd (m (ap_store a))"
  by (simp_all add: do_store_def run_store_def with_store_def split: prod.split)


text \<open>Running a statement that only reads or checks.\<close>

lemma andThen_reads [api_simps]:
  "andThen (require b c s) f a = (if b then f () a else (Throw (c, s), a))"
  "andThen (get_store g) h a = h (g (ap_store a)) a"
  "andThen (parsed p) k a = (case p of None \<Rightarrow> (Throw (400, ''invalid request body''), a) | Some x \<Rightarrow> k x a)"
  "andThen (find_row t cl i) r a = (case getById t cl i (ap_store a) of Inl e \<Rightarrow> (Inl e, a) | Inr x \<Rightarrow> r x a)"
  "andThen (from_result res) w a = (case res of Inl e \<Rightarrow> (Inl e, a) | Inr x \<Rightarrow> w x a)"
  by (simp_all add: andThen_def require_def get_store_def parsed_def find_row_def from_result_def split: option.split)


section \<open>Integrity\<close>

definition demo_wallet :: wallet_lib where
  "demo_wallet = \<lparr> wl_getAddress = Some, wl_recover = (\<lambda>m s. Some s), wl_stellar_verify = (\<lambda>pk m s. Some True), wl_sha256 = (\<lambda>b. b) \<rparr>"

definition demo_api_env :: api_env where
  "demo_api_env = \<lparr> en_es256 = (\<lambda>k s m. Some True), en_privyAppId = None, en_privyKey = False, en_legacyWalletAuth = True, en_wallet = demo_wallet,
     en_mainnet = False, en_min_mainnet = None, en_min_testnet = None, en_allowEvmOnly = False, en_sha256 = (\<lambda>b. b),
     en_collate = map of_char, en_strkey = demo_strkey, en_usdc = None, en_tokenMessenger = None, en_forwarder = None, en_pool = Some ''CP'' \<rparr>"

definition demo_init :: api where
  "demo_init = \<lparr> ap_store = init_store, ap_mpc = demo_settle_db, ap_shares = [] \<rparr>"

definition demo_nonce_body :: nonce_body where
  "demo_nonce_body = \<lparr> nb_wallet_type = STELLAR, nb_address = ''GA'' \<rparr>"

definition demo_verify_body :: verify_body where
  "demo_verify_body = \<lparr> vb_address = ''GA'', vb_signature = ''s'', vb_nonce = ''n1'' \<rparr>"

definition demo_issued :: api where
  "demo_issued = snd (post_auth_nonce demo_api_env 5 ''n1'' (Some demo_nonce_body) demo_init)"

definition demo_logged_in :: api where
  "demo_logged_in = snd (verifyHandler demo_api_env 9 ''tok'' STELLAR (Some demo_verify_body) demo_issued)"

lemma demo_reach: "api_reach demo_api_env demo_logged_in"
proof -
  have "api_step demo_api_env demo_init demo_issued" unfolding demo_issued_def by (rule api_step.nonce_)
  moreover have "api_step demo_api_env demo_issued demo_logged_in" unfolding demo_logged_in_def by (rule api_step.verify)
  ultimately have "(api_step demo_api_env)\<^sup>*\<^sup>* demo_init demo_logged_in" by (meson converse_rtranclp_into_rtranclp r_into_rtranclp)
  then show ?thesis unfolding api_reach_def by (intro exI [of _ demo_init]) (simp add: demo_init_def)
qed

lemma demo_login:
  "fst (verifyHandler demo_api_env 9 ''tok'' STELLAR (Some demo_verify_body) demo_issued) = Ok (1, ''tok'')"
  "map u_id (st_users (ap_store demo_logged_in)) = [1]" "map wallet_key (st_wallets (ap_store demo_logged_in)) = [(''STELLAR'', ''GA'')]"
  by (simp_all add: demo_logged_in_def demo_issued_def demo_init_def init_store_def demo_api_env_def demo_wallet_def demo_nonce_body_def demo_verify_body_def
      post_auth_nonce_def verifyHandler_def andThen_def parsed_def normalizeAddress_def do_store_def run_store_def with_store_def ret_def
      createNonce_def consumeNonce_def live_nonce_def NONCE_TTL_def authMessage_def verifyWalletSignature_def upsertUserByWallet_def new_user_def Let_def
      Store.createSession_def log_def logActivity_def wallet_key_def)

text \<open>The constraints of the migrations, which the database enforces at each insert, survive every handler: in every state the API
  can reach the rows of the protocol tables have only columns of their schema with the required ones given, unique columns are
  unique, and references resolve; vault ids are unique and wrappers belong to a vault; users, Privy identities, wallets,
  session hashes and nonces are unique.\<close>

theorem api_store_integrity:
  assumes "api_reach env a"
  shows "tables_typed (ap_store a) \<and> vaults_ok (ap_store a) \<and> accounts_ok (ap_store a)"
  using typed.reach [OF assms] vaults.reach [OF assms] accounts.reach [OF assms] by simp

theorem api_store_integrity_witness:
  "tables_typed (ap_store demo_logged_in) \<and> accounts_ok (ap_store demo_logged_in) \<and> user_ids (ap_store demo_logged_in) = [1] \<and>
   wallet_keys (ap_store demo_logged_in) = [(''STELLAR'', ''GA'')]"
  using api_store_integrity [OF demo_reach] demo_login by (simp add: user_ids_def wallet_keys_def)


section \<open>No plaintext at rest\<close>

lemma scan_ok: "walk v = None \<Longrightarrow> scan v a = (Ok (), a)"
  by (simp add: scan_def require_def assertNoPlaintextNoteFields_def)

lemma scan_all: "list_all (\<lambda>v. walk (v_envelope v) = None) vs \<Longrightarrow> each (\<lambda>v. scan (v_envelope v)) vs a = (Ok (), a)"
  by (induction vs) (simp_all add: scan_ok andThen_def)

lemma privy_keeps_vaults: "st_vaults (ap_store (snd (require_privy env now rq a))) = st_vaults (ap_store a)"
proof -
  have "st_vaults (snd (requirePrivyUser es aid now rq st)) = st_vaults st" for es aid st
    by (auto simp: requirePrivyUser_def split: option.split sum.split prod.split) (metis snd_conv user_stmts_vaults(1))
  then show ?thesis by (simp add: require_privy_def store_outcomes)
qed

lemma privy_error: "fst (require_privy env now rq a) = Inl e \<Longrightarrow> e \<noteq> (500, ''plaintext note field rejected'')"
  by (auto simp: require_privy_def store_outcomes requirePrivyUser_def split: option.splits sum.splits prod.splits if_splits)

lemma listed_clean: "vaults_clean st \<Longrightarrow> list_all (\<lambda>v. walk (v_envelope v) = None) (listNoteVaultsForRecovery u vid st)"
  by (auto simp: listNoteVaultsForRecovery_def listNoteVaults_def vaults_clean_def list_all_iff)

lemma recover_error:
  assumes "vaults_clean (ap_store a)"
  shows "fst (post_notes_recover env now rq body a) \<noteq> Throw (500, ''plaintext note field rejected'')"
proof (cases "fst (require_privy env now rq a)")
  case (Inl e)
  then show ?thesis using privy_error [OF Inl] by (simp add: post_notes_recover_def)
next
  case (Inr p)
  let ?a = "snd (require_privy env now rq a)"
  have "vaults_clean (ap_store ?a)" using assms privy_keeps_vaults by (simp add: vaults_clean_def)
  note clean = scan_all [OF listed_clean [OF this]]
  show ?thesis
    by (cases body; cases p)
      (simp_all add: post_notes_recover_def Inr clean andThen_def [of "parsed _"] andThen_def [of "get_store _"] andThen_def [of "each _ _"]
        andThen_def [of "from_result _"] andThen_def [of "log _ _ _ _ _ _"] parsed_def get_store_def from_result_def listByUser_def log_def
        do_store_def ret_def split: prod.split)
qed

lemma scan_refuses: "walk body \<noteq> None \<Longrightarrow> snd (andThen (scan body) f x) = x"
  by (auto simp: andThen_def scan_def require_def assertNoPlaintextNoteFields_def)

lemma refused_scan:
  assumes "walk body \<noteq> None"
  shows "st_vaults (ap_store (snd (andThen (require_privy env now rq) (\<lambda>(u, did). andThen (scan body) (g u did)) a))) = st_vaults (ap_store a)"
  by (simp add: andThen_snd [of "require_privy env now rq"] scan_refuses [OF assms] privy_keeps_vaults split: sum.split prod.split)

lemma forbidden_body_refused:
  assumes "walk body \<noteq> None"
  shows "st_vaults (ap_store (snd (post_note_vaults env now rq body a))) = st_vaults (ap_store a)"
    "st_vaults (ap_store (snd (put_note_vault env now rq vid body a))) = st_vaults (ap_store a)"
    "st_vaults (ap_store (snd (post_wrappers env now rq vid body a))) = st_vaults (ap_store a)"
  unfolding post_note_vaults_def put_note_vault_def post_wrappers_def by (rule refused_scan [OF assms])+

text \<open>C36: no vault envelope the API stores has, at any depth, a key of a note secret: in every reachable state the stored envelopes are
  free of forbidden keys, so the scan in the recovery route never fires; and a request body with such a
  key, however deep and even in members the schema would drop, changes no stored vault.\<close>

theorem stored_vaults_no_plaintext:
  assumes "api_reach env a"
  shows "list_all (\<lambda>v. fst ` set (deep_members (v_envelope v)) \<inter> set PLAINTEXT_FORBIDDEN = {}) (st_vaults (ap_store a)) \<and>
    fst (post_notes_recover env now rq body a) \<noteq> Throw (500, ''plaintext note field rejected'') \<and>
    (fst ` set (deep_members raw) \<inter> set PLAINTEXT_FORBIDDEN = {} \<or>
      st_vaults (ap_store (snd (post_note_vaults env now rq raw a))) = st_vaults (ap_store a) \<and>
      st_vaults (ap_store (snd (put_note_vault env now rq vid raw a))) = st_vaults (ap_store a) \<and>
      st_vaults (ap_store (snd (post_wrappers env now rq vid raw a))) = st_vaults (ap_store a))"
proof (intro conjI)
  have free: "walk v = None \<longleftrightarrow> fst ` set (deep_members v) \<inter> set PLAINTEXT_FORBIDDEN = {}" for v
    using walk_None [of v] by auto
  have c: "vaults_clean (ap_store a)" by (rule clean.reach [OF assms])
  then show "list_all (\<lambda>v. fst ` set (deep_members (v_envelope v)) \<inter> set PLAINTEXT_FORBIDDEN = {}) (st_vaults (ap_store a))"
    by (simp add: vaults_clean_def free)
  show "fst (post_notes_recover env now rq body a) \<noteq> Throw (500, ''plaintext note field rejected'')" by (rule recover_error [OF c])
  show "fst ` set (deep_members raw) \<inter> set PLAINTEXT_FORBIDDEN = {} \<or>
      st_vaults (ap_store (snd (post_note_vaults env now rq raw a))) = st_vaults (ap_store a) \<and>
      st_vaults (ap_store (snd (put_note_vault env now rq vid raw a))) = st_vaults (ap_store a) \<and>
      st_vaults (ap_store (snd (post_wrappers env now rq vid raw a))) = st_vaults (ap_store a)"
    using forbidden_body_refused [of raw] free [of raw] by blast
qed


definition demo_token :: string where
  "demo_token = ''eyJhbGciOiJFUzI1NiJ9.eyJpc3MiOiJwcml2eS5pbyIsInN1YiI6ImQxIiwiZXhwIjo5OX0.AA''"

definition demo_request :: request where
  "demo_request = \<lparr> rq_authorization = Some (''Bearer '' @ demo_token), rq_cookie = None, rq_idempotency_key = Some ''key-0001'' \<rparr>"

lemma demo_token_parts:
  "split_on (CHR ''.'') demo_token = [''eyJhbGciOiJFUzI1NiJ9'', ''eyJpc3MiOiJwcml2eS5pbyIsInN1YiI6ImQxIiwiZXhwIjo5OX0'', ''AA'']"
  by (simp add: demo_token_def)

lemma b64url_json_of:
  assumes "map (\<lambda>c. if c = CHR ''-'' then CHR ''+'' else if c = CHR ''_'' then CHR ''/'' else c) s @ drop ((length s + 3) mod 4) ''===''
      = base64_encode (utf8 (stringify v))" "json_pure v"
  shows "b64url_json s = Ok v"
  using assms by (simp add: b64url_json_def b64urlToBytes_def json_parse_stringify)

lemma demo_header: "b64url_json ''eyJhbGciOiJFUzI1NiJ9'' = Ok (VObj [(''alg'', VStr ''ES256'')])"
  by (rule b64url_json_of) (simp_all add: base64_encode_def quote_def escape_char_def utf8_def char_byte_def b64_char_def Let_def, code_simp)

lemma text_99: "int_to_string 99 = ''99''"
  by code_simp

lemma demo_payload:
  "b64url_json ''eyJpc3MiOiJwcml2eS5pbyIsInN1YiI6ImQxIiwiZXhwIjo5OX0'' =
    Ok (VObj [(''iss'', VStr ''privy.io''), (''sub'', VStr ''d1''), (''exp'', VNum (NInt 99))])"
  by (rule b64url_json_of)
    (simp_all add: base64_encode_def quote_def escape_char_def utf8_def char_byte_def b64_char_def text_99 max_safe_def Let_def, code_simp)


definition demo_privy_env :: api_env where
  "demo_privy_env = demo_api_env \<lparr> en_privyKey := True \<rparr>"

lemma demo_claims:
  "verifyPrivyAccessToken (\<lambda>k s m. Some True) None 0 demo_token = Ok \<lparr> pc_userId = VStr ''d1'', pc_appId = VUndef, pc_expiration = VNum (NInt 99) \<rparr>"
proof -
  have "b64urlToBytes ''AA'' = Some [0]" by (simp add: b64urlToBytes_def atob_def) code_simp
  then show ?thesis by (simp add: verifyPrivyAccessToken_def demo_token_parts demo_header demo_payload)
qed

lemma demo_privy: "fst (require_privy demo_privy_env 5 demo_request a) = Ok (fst (upsertUserByPrivyId 5 ''d1'' (ap_store a)), VStr ''d1'')"
  "ap_store (snd (require_privy demo_privy_env 5 demo_request a)) = snd (upsertUserByPrivyId 5 ''d1'' (ap_store a))"
proof -
  have t: "extractPrivyAccessToken demo_request = Some (Some demo_token)"
    by code_simp
  have n: "demo_token \<noteq> []" by (simp add: demo_token_def)
  show "fst (require_privy demo_privy_env 5 demo_request a) = Ok (fst (upsertUserByPrivyId 5 ''d1'' (ap_store a)), VStr ''d1'')"
    "ap_store (snd (require_privy demo_privy_env 5 demo_request a)) = snd (upsertUserByPrivyId 5 ''d1'' (ap_store a))"
    using n by (simp_all add: require_privy_def store_outcomes requirePrivyUser_def t demo_privy_env_def demo_api_env_def demo_claims privy_db_user_def
      split: prod.split)
qed


definition demo_api_envelope :: api_envelope where
  "demo_api_envelope = \<lparr> ae_vault_id = ''v1'', ae_privy_user_id = ''d1'', ae_iv = ''aXY='', ae_aad = [(''app'', VStr ''shade'')], ae_ciphertext = ''Y3Q='',
     ae_wrappers = [demo_wrapper PasskeyPrf] \<rparr>"

definition demo_vault_body :: jsval where
  "demo_vault_body = VObj [(''envelope'', api_envelope_value demo_api_envelope)]"

definition demo_vaulted :: api where
  "demo_vaulted = snd (post_note_vaults demo_privy_env 5 demo_request demo_vault_body demo_init)"

lemma demo_vault_body_ok:
  "walk demo_vault_body = None" "js_get demo_vault_body ''envelope'' = api_envelope_value demo_api_envelope"
  "walk (api_envelope_value demo_api_envelope) = None" "validateVaultEnvelope (api_envelope_value demo_api_envelope) = Ok ()"
  "encryptedVaultEnvelopeSchema (api_envelope_value demo_api_envelope) = Some demo_api_envelope"
  by code_simp+

lemma demo_ingest: "ingestEnvelope demo_privy_env demo_api_envelope a = (Ok ''sufficient'', a)"
proof -
  have "recoveryPolicyFor demo_privy_env (ae_wrappers demo_api_envelope) = ''sufficient''" by code_simp
  then show ?thesis using demo_vault_body_ok by (simp add: ingestEnvelope_def andThen_def require_def scan_ok ret_def)
qed

lemma demo_vaulted_vaults: "map v_vault_id (st_vaults (ap_store demo_vaulted)) = [''v1'']"
proof -
  have f: "ae_vault_id demo_api_envelope = ''v1''" "ae_privy_user_id demo_api_envelope = ''d1''"
    "ae_wrappers demo_api_envelope = [demo_wrapper PasskeyPrf]" by (simp_all add: demo_api_envelope_def)
  have b: "demo_vault_body \<noteq> VUndef" "demo_vault_body \<noteq> VNull" by (simp_all add: demo_vault_body_def)
  have v: "st_vaults (snd (upsertUserByPrivyId 5 ''d1'' (ap_store demo_init))) = []"
    by (simp add: demo_init_def init_store_def upsertUserByPrivyId_def new_user_def Let_def)
  show ?thesis
    using demo_vault_body_ok b v
    by (simp add: demo_vaulted_def post_note_vaults_def demo_privy scan_ok body_member_def andThen_snd andThen_def [of "scan _"] parsed_def
        require_def ret_def demo_ingest store_outcomes f add_wrapper_def addVaultWrapper_def createNoteVault_def log_def logActivity_def split: prod.split)
qed

lemma demo_vaulted_reach: "api_reach demo_privy_env demo_vaulted"
proof -
  have "(api_step demo_privy_env)\<^sup>*\<^sup>* demo_init demo_vaulted"
    unfolding demo_vaulted_def by (rule r_into_rtranclp) (rule api_step.vault_post)
  then show ?thesis unfolding api_reach_def by (intro exI [of _ demo_init]) (simp add: demo_init_def)
qed

theorem stored_vaults_no_plaintext_witness:
  "map v_vault_id (st_vaults (ap_store demo_vaulted)) = [''v1''] \<and>
   list_all (\<lambda>v. fst ` set (deep_members (v_envelope v)) \<inter> set PLAINTEXT_FORBIDDEN = {}) (st_vaults (ap_store demo_vaulted))"
  using stored_vaults_no_plaintext [OF demo_vaulted_reach] demo_vaulted_vaults by blast


section \<open>Settlement\<close>

text \<open>The rows a settlement request names.\<close>

definition rfq_intent :: "store \<Rightarrow> settlement_body \<Rightarrow> row option" where
  "rfq_intent st b = find_first (\<lambda>r. col r ''intent_hash'' = VStr (sl_intent_hash b)) (st_tables st ''intents'')"

definition rfq_quote :: "store \<Rightarrow> settlement_body \<Rightarrow> row option" where
  "rfq_quote st b = find_first (\<lambda>r. col r ''quote_id'' = VStr (sl_quote_id b)) (st_tables st ''quotes'')"

definition rfq_fill :: "store \<Rightarrow> settlement_body \<Rightarrow> row option" where
  "rfq_fill st b = find_first (\<lambda>r. col r ''quote_id'' = VStr (sl_quote_id b)) (rev (st_tables st ''fills''))"

definition rfq_proof :: "store \<Rightarrow> settlement_body \<Rightarrow> row option" where
  "rfq_proof st b = find_first (\<lambda>r. col r ''proof_job_id'' = VStr (sl_proof_job_id b)) (st_tables st ''proof_jobs'')"

definition receipt_matches :: "settlement_body \<Rightarrow> row \<Rightarrow> bool" where
  "receipt_matches b f = (case sl_fill_receipt_hash b of None \<Rightarrow> True | Some h \<Rightarrow> h = [] \<or> col f ''fill_receipt_hash'' = VStr h)"

text \<open>The contract of the settlement: the user owns the intent, the quote is for it and accepted, its newest fill is executed with the
  named receipt, the proof is ready, the nullifier unspent, and an intent routed to the committee is matched.\<close>

definition settle_gates :: "nat \<Rightarrow> settlement_body \<Rightarrow> api \<Rightarrow> bool" where
  "settle_gates u b a = (let st = ap_store a in \<exists>i q f pj.
     rfq_intent st b = Some i \<and> rfq_quote st b = Some q \<and> rfq_fill st b = Some f \<and> rfq_proof st b = Some pj \<and>
     (col i ''user_id'' = VNull \<or> col i ''user_id'' = uid_value u) \<and> col q ''intent_hash'' = VStr (sl_intent_hash b) \<and>
     (\<exists>x\<in>set (st_tables st ''quote_acceptances''). col x ''quote_id'' = VStr (sl_quote_id b)) \<and> col f ''state'' = VStr ''EXECUTED'' \<and>
     receipt_matches b f \<and> col pj ''status'' = VStr ''ready'' \<and> sl_nullifier b \<notin> set (st_spent st) \<and>
     (if truthy (col i ''mpc_session_id'')
      then \<exists>x\<in>set (d_intents (ap_mpc a)). i_intent_id x = sl_intent_hash b \<and> i_status x = ''matched'' else True))"

lemma lifecycle_checks_ok:
  "fst (lifecycle_checks u b (rfqLifecycle (sl_intent_hash b) (sl_quote_id b) st) a) = Ok () \<longleftrightarrow>
    (\<exists>i q f. rfq_intent st b = Some i \<and> rfq_quote st b = Some q \<and> rfq_fill st b = Some f \<and> \<not> foreign_row u i \<and>
      col q ''intent_hash'' = VStr (sl_intent_hash b) \<and>
      list_ex (\<lambda>x. col x ''quote_id'' = VStr (sl_quote_id b)) (st_tables st ''quote_acceptances'') \<and> col f ''state'' = VStr ''EXECUTED'' \<and>
      receipt_matches b f)"
proof -
  have lc: "lc_intent (rfqLifecycle (sl_intent_hash b) (sl_quote_id b) st) = rfq_intent st b"
    "lc_quote (rfqLifecycle (sl_intent_hash b) (sl_quote_id b) st) = rfq_quote st b"
    "lc_fill (rfqLifecycle (sl_intent_hash b) (sl_quote_id b) st) = rfq_fill st b"
    "lc_accepted (rfqLifecycle (sl_intent_hash b) (sl_quote_id b) st) = list_ex (\<lambda>x. col x ''quote_id'' = VStr (sl_quote_id b)) (st_tables st ''quote_acceptances'')"
    by (simp_all add: rfqLifecycle_def rfq_intent_def rfq_quote_def rfq_fill_def)
  show ?thesis
    unfolding lifecycle_checks_def lc
    by (cases "rfq_intent st b"; cases "rfq_quote st b"; cases "rfq_fill st b") (simp_all add: andThen_reads plain_outcomes receipt_matches_def)
qed

lemma lifecycle_checks_snd: "snd (lifecycle_checks u b lc a) = a"
  unfolding lifecycle_checks_def
  by (cases "lc_intent lc"; cases "lc_quote lc"; cases "lc_fill lc") (simp_all add: andThen_reads plain_outcomes)

lemma find_proof: "getById ''proof_jobs'' ''proof_job_id'' (sl_proof_job_id b) st = Ok (rfq_proof st b)"
  by (simp add: getById_def rfq_proof_def)

lemma find_intent: "getById ''intents'' ''intent_hash'' (sl_intent_hash b) st = Ok (rfq_intent st b)"
  by (simp add: getById_def rfq_intent_def)

lemma mpc_gate_outcome:
  "fst (mpc_gate b a) = Ok () \<longleftrightarrow> (case rfq_intent (ap_store a) b of None \<Rightarrow> True | Some i \<Rightarrow>
     if truthy (col i ''mpc_session_id'') then list_ex (\<lambda>x. i_intent_id x = sl_intent_hash b \<and> i_status x = ''matched'') (d_intents (ap_mpc a)) else True)"
  "snd (mpc_gate b a) = a"
  by (cases "rfq_intent (ap_store a) b"; simp add: mpc_gate_def andThen_reads find_intent plain_outcomes)+

lemma settle_checks_run:
  "settle_checks u b a =
    (case fst (lifecycle_checks u b (rfqLifecycle (sl_intent_hash b) (sl_quote_id b) (ap_store a)) a) of Inl e \<Rightarrow> (Inl e, a)
     | Inr _ \<Rightarrow>
         if \<not> (case rfq_proof (ap_store a) b of None \<Rightarrow> False | Some r \<Rightarrow> col r ''status'' = VStr ''ready'') then (Throw (409, ''proof job is not ready''), a)
         else if sl_nullifier b \<in> set (st_spent (ap_store a)) then (Throw (409, ''nullifier already spent''), a)
         else mpc_gate b a)"
  by (cases "fst (lifecycle_checks u b (rfqLifecycle (sl_intent_hash b) (sl_quote_id b) (ap_store a)) a)")
    (simp_all add: settle_checks_def andThen_reads find_proof isNullifierSpent_def lifecycle_checks_snd)

lemma settle_checks_iff: "fst (settle_checks u b a) = Ok () \<longleftrightarrow> settle_gates u b a"
proof (cases "fst (lifecycle_checks u b (rfqLifecycle (sl_intent_hash b) (sl_quote_id b) (ap_store a)) a)")
  case (Inl e)
  then have "fst (lifecycle_checks u b (rfqLifecycle (sl_intent_hash b) (sl_quote_id b) (ap_store a)) a) \<noteq> Ok ()" by simp
  then have "\<not> settle_gates u b a"
    unfolding lifecycle_checks_ok settle_gates_def Let_def by (auto simp: foreign_row_def list_ex_iff)
  then show ?thesis by (simp add: settle_checks_run Inl)
next
  case (Inr x)
  then have "fst (lifecycle_checks u b (rfqLifecycle (sl_intent_hash b) (sl_quote_id b) (ap_store a)) a) = Ok ()" by simp
  then obtain i q f where rows: "rfq_intent (ap_store a) b = Some i" "rfq_quote (ap_store a) b = Some q" "rfq_fill (ap_store a) b = Some f"
    and checks: "\<not> foreign_row u i" "col q ''intent_hash'' = VStr (sl_intent_hash b)"
      "list_ex (\<lambda>x. col x ''quote_id'' = VStr (sl_quote_id b)) (st_tables (ap_store a) ''quote_acceptances'')"
      "col f ''state'' = VStr ''EXECUTED''" "receipt_matches b f"
    unfolding lifecycle_checks_ok by (elim exE conjE) (rule that)
  show ?thesis
    unfolding settle_checks_run Inr settle_gates_def Let_def
    using checks by (cases "rfq_proof (ap_store a) b") (auto simp: rows foreign_row_def list_ex_iff mpc_gate_outcome)
qed

lemma settle_checks_snd: "snd (settle_checks u b a) = a"
  by (simp add: settle_checks_run mpc_gate_outcome split: sum.split)

text \<open>The checks of a settlement request succeed exactly when the whole contract of the settlement holds, and they change nothing: neither
  the order of the checks nor an early rejection lets a request through or keeps out one that satisfies it.\<close>

theorem rfq_settle_gates:
  "(fst (settle_checks u b a) = Ok () \<longleftrightarrow> settle_gates u b a) \<and> snd (settle_checks u b a) = a"
  using settle_checks_iff settle_checks_snd by simp

lemma authed_reach_proofs:
  assumes "proofs_queued (ap_store a)"
  shows "proofs_queued (ap_store (snd (authedUser env now rq a)))"
proof -
  have "store_step\<^sup>*\<^sup>* (ap_store a) (ap_store (snd (authedUser env now rq a)))" using stays_authed(1) by (simp add: stays_def)
  then show ?thesis using proofs.steps assms by blast
qed

lemma authed_tables: "st_tables (ap_store (snd (authedUser env now rq a))) = st_tables (ap_store a)"
proof -
  have "st_tables (snd (requirePrivyUser es aid now rq st)) = st_tables st" for es aid st
    by (auto simp: requirePrivyUser_def split: option.split sum.split prod.split) (metis snd_conv user_stmts_tables(1))
  then have "st_tables (ap_store (snd (require_privy env now rq a))) = st_tables (ap_store a)" for a by (simp add: require_privy_def store_outcomes)
  then show ?thesis
    by (simp add: authedUser_def andThen_snd [of "require_privy env now rq"] andThen_reads plain_outcomes split: sum.split)
qed

lemma never_ready: "proofs_queued (ap_store a) \<Longrightarrow> \<not> settle_gates u b a"
  using find_first_Some by (fastforce simp: settle_gates_def Let_def rfq_proof_def proofs_queued_def list_all_iff)

lemma root_health_snd: "snd (assertRootHealthy a) = a"
  by (simp add: assertRootHealthy_def andThen_def get_store_def require_def)

lemma checks_fail:
  assumes "proofs_queued (ap_store a)"
  obtains e where "fst (settle_checks u b a) = Inl e"
proof (cases "fst (settle_checks u b a)")
  case (Inr x)
  then have "settle_gates u b a" using settle_checks_iff by simp
  then show ?thesis using never_ready [OF assms] by blast
qed (rule that)

lemma root_health: "andThen assertRootHealthy f a = (if criticalRootMismatchCount (ap_store a) = 0 then f () a else (Throw (409, ''ROOT_MISMATCH_CRITICAL''), a))"
  by (simp add: assertRootHealthy_def andThen_def get_store_def require_def)

text \<open>Nothing ever makes a proof job ready. In every state the API can reach, whatever the other services do, a settlement
  request fails and records no settlement, although the route is meant to record one.\<close>

theorem rfq_settle_never_succeeds:
  assumes "api_reach env a"
  shows "(\<exists>e. fst (post_rfq_settle env now rq body a) = Inl e) \<and>
    st_tables (ap_store (snd (post_rfq_settle env now rq body a))) ''settlements'' = st_tables (ap_store a) ''settlements''"
proof -
  let ?a = "snd (authedUser env now rq a)"
  have q: "proofs_queued (ap_store ?a)" by (rule authed_reach_proofs [OF proofs.reach [OF assms]])
  have t: "st_tables (ap_store ?a) = st_tables (ap_store a)" by (rule authed_tables)
  show ?thesis
  proof (cases "fst (authedUser env now rq a)")
    case (Inl e)
    then show ?thesis by (simp add: post_rfq_settle_def t)
  next
    case (Inr u)
    show ?thesis
    proof (cases body)
      case None
      then show ?thesis by (simp add: post_rfq_settle_def Inr root_health andThen_reads t)
    next
      case (Some b)
      obtain e where e: "fst (settle_checks u b ?a) = Inl e" by (rule checks_fail [OF q])
      show ?thesis by (simp add: post_rfq_settle_def Inr root_health andThen_reads t Some e settle_checks_snd)
    qed
  qed
qed

theorem rfq_settle_never_succeeds_witness:
  "\<exists>e. fst (post_rfq_settle demo_api_env 9 \<lparr> rq_authorization = Some ''Bearer tok'', rq_cookie = None, rq_idempotency_key = None \<rparr> None demo_logged_in) = Inl e"
  using rfq_settle_never_succeeds [OF demo_reach] by blast


section \<open>Wallet login\<close>

lemma login_keeps_nonces:
  "st_nonces (snd (upsertUserByWallet now wt ch addr st)) = st_nonces st" "st_nonces (snd (Store.createSession u h ex st)) = st_nonces st"
  "st_nonces (logActivity ou ev et eid tx md st) = st_nonces st"
  by (simp_all add: upsertUserByWallet_def touch_login_def new_user_def Store.createSession_def logActivity_def Let_def split: option.split)

text \<open>What a successful login did.\<close>

lemma login_run:
  assumes "fst (verifyHandler env now tok wt (Some b) a) = Ok (u, t)" "normalizeAddress (en_wallet env) wt (vb_address b) = Some addr"
  defines "st1 \<equiv> snd (consumeNonce now (wallet_type_text wt) addr (vb_nonce b) (ap_store a))"
  defines "st2 \<equiv> snd (upsertUserByWallet now (wallet_type_text wt) (CHAIN_FOR wt) addr st1)"
  defines "st3 \<equiv> snd (Store.createSession u (sha256Hex (en_wallet env) tok) (now + SESSION_TTL) st2)"
  defines "a' \<equiv> snd (verifyHandler env now tok wt (Some b) a)"
  shows "\<exists>m. fst (consumeNonce now (wallet_type_text wt) addr (vb_nonce b) (ap_store a)) = Some m \<and> verifyWalletSignature (en_wallet env) wt addr m (vb_signature b)"
    "fst (Store.createSession u (sha256Hex (en_wallet env) tok) (now + SESSION_TTL) st2) = Ok ()"
    "st_sessions (ap_store a') = st_sessions st3" "st_nonces (ap_store a') = st_nonces st1" "t = tok"
proof -
  let ?c = "consumeNonce now (wallet_type_text wt) addr (vb_nonce b) (ap_store a)"
  obtain m where m: "fst ?c = Some m" using assms(1,2) by (cases "fst ?c") (auto simp: verifyHandler_def andThen_reads andThen_ok store_outcomes plain_outcomes)
  have sig: "m \<noteq> []" "verifyWalletSignature (en_wallet env) wt addr m (vb_signature b)"
    using assms(1,2) m by (auto simp: verifyHandler_def andThen_reads andThen_ok store_outcomes plain_outcomes split: if_splits)
  show "\<exists>m. fst ?c = Some m \<and> verifyWalletSignature (en_wallet env) wt addr m (vb_signature b)" using m sig(2) by blast
  have u: "u = fst (upsertUserByWallet now (wallet_type_text wt) (CHAIN_FOR wt) addr st1)" and ses: "fst (Store.createSession u (sha256Hex (en_wallet env) tok) (now + SESSION_TTL) st2) = Ok ()"
    and t: "t = tok"
    using assms(1,2) m sig by (auto simp: verifyHandler_def andThen_reads andThen_ok store_outcomes plain_outcomes log_def st1_def st2_def)
  show "fst (Store.createSession u (sha256Hex (en_wallet env) tok) (now + SESSION_TTL) st2) = Ok ()" "t = tok" by (fact ses, fact t)
  have "ap_store a' = logActivity (Some u) ''auth.login'' (Some ''wallet'') (Some addr) None (VObj [(''walletType'', VStr (wallet_type_text wt))]) st3"
    using ses u m sig assms(2) unfolding a'_def st3_def st2_def st1_def
    by (simp add: verifyHandler_def andThen_reads andThen_snd store_outcomes plain_outcomes log_def)
  then show "st_sessions (ap_store a') = st_sessions st3" "st_nonces (ap_store a') = st_nonces st1"
    by (simp_all add: login_keeps_nonces st3_def st2_def logActivity_def)
qed

definition open_nonce :: "string \<Rightarrow> string \<Rightarrow> string \<Rightarrow> nonce_row \<Rightarrow> bool" where
  "open_nonce wt addr n x = (n_wallet_type x = wt \<and> n_address x = addr \<and> n_nonce x = n \<and> n_consumed_at x = None)"

lemma live_open: "live_nonce now wt addr n x \<Longrightarrow> open_nonce wt addr n x"
  by (simp add: live_nonce_def open_nonce_def)

lemma short_filter_eq:
  assumes "length (filter P xs) \<le> 1" "x \<in> set xs" "P x" "y \<in> set xs" "P y"
  shows "x = y"
proof -
  have "x \<in> set (filter P xs)" "y \<in> set (filter P xs)" using assms by simp_all
  moreover obtain z where "set (filter P xs) \<subseteq> {z}" using assms(1) by (cases "filter P xs") auto
  ultimately show ?thesis by blast
qed

lemma nonce_closed:
  assumes "length (filter (open_nonce wt addr n) (st_nonces st)) \<le> 1"
    and "fst (consumeNonce now wt addr n st) = Some m" "st_nonces st' = st_nonces (snd (consumeNonce now wt addr n st))"
  shows "\<forall>y\<in>set (st_nonces st'). \<not> open_nonce wt addr n y"
proof (intro ballI notI)
  let ?live = "sort_key (\<lambda>x. - n_created_at x) (filter (live_nonce now wt addr n) (st_nonces st))"
  obtain c cs where c: "?live = c # cs" using assms(2) by (cases ?live) (simp_all add: consumeNonce_def)
  have "c \<in> set ?live" unfolding c by simp
  then have cin: "c \<in> set (st_nonces st)" "open_nonce wt addr n c" by (auto intro: live_open)
  have ns: "st_nonces st' = map (\<lambda>x. if n_id x = n_id c then x \<lparr> n_consumed_at := Some now \<rparr> else x) (st_nonces st)"
    using assms(3) c by (simp add: consumeNonce_def)
  fix y assume y: "y \<in> set (st_nonces st')" and o: "open_nonce wt addr n y"
  obtain x where x: "x \<in> set (st_nonces st)" "y = (if n_id x = n_id c then x \<lparr> n_consumed_at := Some now \<rparr> else x)" using y ns by auto
  then have "n_id x \<noteq> n_id c" "y = x" using o by (auto simp: open_nonce_def split: if_splits)
  moreover have "x = c" by (rule short_filter_eq [OF assms(1) x(1) _ cin]) (use o \<open>y = x\<close> in simp)
  ultimately show False by simp
qed

text \<open>How often a nonce was issued to a wallet, and how many of these are still open.\<close>

definition issued :: "string \<Rightarrow> string \<Rightarrow> string \<Rightarrow> store \<Rightarrow> nat" where
  "issued wt addr n st = length (filter (\<lambda>x. n_wallet_type x = wt \<and> n_address x = addr \<and> n_nonce x = n) (st_nonces st))"

definition still_open :: "string \<Rightarrow> string \<Rightarrow> string \<Rightarrow> store \<Rightarrow> nat" where
  "still_open wt addr n st = length (filter (open_nonce wt addr n) (st_nonces st))"

text \<open>The rows of a session hash: there is one, and all satisfy \<open>Q\<close>.\<close>

definition session_is :: "string \<Rightarrow> (user_session_row \<Rightarrow> bool) \<Rightarrow> store \<Rightarrow> bool" where
  "session_is h Q st \<longleftrightarrow> (\<exists>s\<in>set (st_sessions st). us_session_hash s = h) \<and> (\<forall>s\<in>set (st_sessions st). us_session_hash s = h \<longrightarrow> Q s)"

lemma step_logins [consumes 1, case_names same nonce consume session revoke]:
  assumes "store_step st st'"
  obtains "st_nonces st' = st_nonces st" "st_sessions st' = st_sessions st"
    | now wt addr n msg ex where "st' = createNonce now wt addr n msg ex st"
    | now wt addr n where "st' = snd (consumeNonce now wt addr n st)"
    | u h ex where "st' = snd (Store.createSession u h ex st)"
    | now h where "st' = revokeSession now h st"
  using assms
proof (cases rule: store_step.cases)
  case (sync now u did ws)
  then show thesis by (intro that(1)) (simp_all add: syncPrivyWallets_def sync_wallets_keep)
next
  case (insert t r)
  then show thesis by (intro that(1)) (simp_all add: insertGeneric_snd add_row_def)
qed (auto intro: that(2-5) intro!: that(1) simp: privy_db_user_def upsertUserByPrivyId_def new_user_def touch_login_def upsertUserByWallet_def updateUser_def
      addWallet_def deleteWallet_def vault_stmts log_stmts createUserDeposit_def setDepositBurnTx_def set_cols_def add_row_def Let_def split: option.split)

lemma filter_map_le: "(\<And>x. P (f x) \<Longrightarrow> P x) \<Longrightarrow> length (filter P (map f xs)) \<le> length (filter P xs)"
  by (induction xs) (auto intro: le_SucI)

lemma filter_map_same: "(\<And>x. P (f x) = P x) \<Longrightarrow> length (filter P (map f xs)) = length (filter P xs)"
  by (induction xs) auto

lemma open_step:
  assumes "store_step st st'" and le: "still_open wt addr n st + k \<le> issued wt addr n st"
  shows "still_open wt addr n st' + k \<le> issued wt addr n st'"
  using assms(1)
proof (cases rule: step_logins)
  case (consume now wt' addr' n')
  show ?thesis
  proof (cases "sort_key (\<lambda>n. - n_created_at n) (filter (live_nonce now wt' addr' n') (st_nonces st))")
    case Nil
    then show ?thesis using consume le by (simp add: consumeNonce_def)
  next
    case (Cons c cs)
    let ?f = "\<lambda>x. if n_id x = n_id c then x \<lparr> n_consumed_at := Some now \<rparr> else x"
    have ns: "st_nonces st' = map ?f (st_nonces st)" using consume Cons by (simp add: consumeNonce_def)
    have "still_open wt addr n st' \<le> still_open wt addr n st"
      unfolding still_open_def ns by (rule filter_map_le) (auto simp: open_nonce_def split: if_splits)
    moreover have "issued wt addr n st' = issued wt addr n st"
      unfolding issued_def ns by (rule filter_map_same) simp
    ultimately show ?thesis using le by simp
  qed
qed (use le in \<open>auto simp: still_open_def issued_def createNonce_def open_nonce_def Store.createSession_def revokeSession_def\<close>)

lemma session_is_map:
  assumes "session_is h Q st" "st_sessions st' = map f (st_sessions st)" "\<And>s. us_session_hash (f s) = us_session_hash s" "\<And>s. us_session_hash s = h \<Longrightarrow> Q s \<Longrightarrow> R (f s)"
  shows "session_is h R st'"
  unfolding session_is_def assms(2) set_map bex_simps ball_simps assms(3) using assms(1,4) unfolding session_is_def by blast

lemma session_step:
  assumes "store_step st st'" "session_is h Q st" "\<And>s t. Q s \<Longrightarrow> Q (s \<lparr> us_revoked_at := Some t \<rparr>)"
  shows "session_is h Q st'"
  using assms(1)
proof (cases rule: step_logins)
  case (session u h' ex)
  then show ?thesis using assms(2) by (auto simp: session_is_def Store.createSession_def list_ex_iff)
next
  case (revoke now h')
  show ?thesis
    by (rule session_is_map [OF assms(2), where f = "\<lambda>s. if us_session_hash s = h' then s \<lparr> us_revoked_at := Some now \<rparr> else s"])
      (simp_all add: revoke revokeSession_def assms(3))
qed (use assms(2) in \<open>auto simp: session_is_def createNonce_def consumeNonce_def split: list.split\<close>)

lemma api_steps_keep:
  assumes "(api_step env)\<^sup>*\<^sup>* a a'" "I (ap_store a)" "\<And>st st'. store_step st st' \<Longrightarrow> I st \<Longrightarrow> I st'"
    and "\<And>st fs ns ps. I st \<Longrightarrow> I (st \<lparr> st_findings := fs, st_spent := ns, st_payouts := ps \<rparr>)"
  shows "I (ap_store a')"
  using assms(1)
proof (induction rule: rtranclp_induct)
  case (step y z)
  have many: "I st'" if "store_step\<^sup>*\<^sup>* st st'" "I st" for st st' using that by (induction rule: rtranclp_induct) (auto intro: assms(3))
  show ?case using api_step_store [OF step(2)] step(3) many assms(4) by auto
qed (rule assms(2))

lemma session_kept:
  assumes "(api_step env)\<^sup>*\<^sup>* a a'" "session_is h Q (ap_store a)" "\<And>s t. Q s \<Longrightarrow> Q (s \<lparr> us_revoked_at := Some t \<rparr>)"
  shows "session_is h Q (ap_store a')"
proof (rule api_steps_keep [OF assms(1), where I = "session_is h Q"])
  show "session_is h Q (ap_store a)" by (rule assms(2))
  show "session_is h Q st'" if "store_step st st'" "session_is h Q st" for st st' using that by (rule session_step) (rule assms(3))
qed (simp add: session_is_def)

lemma nonce_stays_closed:
  assumes "(api_step env)\<^sup>*\<^sup>* a a'" "still_open wt addr n (ap_store a) = 0" "issued wt addr n (ap_store a') = issued wt addr n (ap_store a)"
  shows "still_open wt addr n (ap_store a') = 0"
proof -
  have "still_open wt addr n (ap_store a') + issued wt addr n (ap_store a) \<le> issued wt addr n (ap_store a')"
    by (rule api_steps_keep [OF assms(1), where I = "\<lambda>st. still_open wt addr n st + issued wt addr n (ap_store a) \<le> issued wt addr n st"])
      (use assms(2) open_step in \<open>auto simp: still_open_def issued_def\<close>)
  then show ?thesis using assms(3) by simp
qed

lemma session_user:
  assumes "session_is (sha256Hex lib tok) (\<lambda>s. us_user_id s = u \<and> us_expires_at s = e) st" "readSessionToken rq = Some (Some tok)" "tok \<noteq> []"
  shows "requireUser lib later rq st \<in> {Ok u, Throw (401, ''invalid or expired session'')}"
    "e \<le> later \<Longrightarrow> requireUser lib later rq st = Throw (401, ''invalid or expired session'')"
  using assms unfolding session_is_def
  by (auto simp: requireUser_def userIdForSession_def split: option.split dest!: find_first_Some)

text \<open>C37: a wallet login succeeds only with a valid signature over the message of a nonce issued to that wallet that is neither consumed nor
  expired. The session it opens identifies the user until its time to live is over and not a moment longer; in every later state of
  the API its token identifies this user or nobody, nobody after the expiry, and nobody ever again after a logout with
  it. The nonce is spent: a login with it is refused in every later state, whatever its signature, unless the same nonce was
  issued to the wallet again.\<close>

theorem wallet_login_single_use:
  fixes env :: api_env and a :: api and rq :: request and now tok wt b
  defines "a1 \<equiv> snd (verifyHandler env now tok wt (Some b) a)"
  defines "refused st later \<equiv> requireUser (en_wallet env) later rq st = Throw (401, ''invalid or expired session'')"
  assumes ok: "fst (verifyHandler env now tok wt (Some b) a) = Ok (u, t)"
    and addr: "normalizeAddress (en_wallet env) wt (vb_address b) = Some addr"
    and fresh: "length (filter (open_nonce (wallet_type_text wt) addr (vb_nonce b)) (st_nonces (ap_store a))) \<le> 1"
    and token: "readSessionToken rq = Some (Some tok)" "tok \<noteq> []"
    and runs: "(api_step env)\<^sup>*\<^sup>* a1 a2" "(api_step env)\<^sup>*\<^sup>* (snd (post_auth_logout env now' rq a2)) a3"
    and again: "vb_address b' = vb_address b" "vb_nonce b' = vb_nonce b"
  shows "(\<exists>n\<in>set (st_nonces (ap_store a)). n_wallet_type n = wallet_type_text wt \<and> n_address n = addr \<and> n_nonce n = vb_nonce b \<and>
      n_consumed_at n = None \<and> now < n_expires_at n \<and> verifyWalletSignature (en_wallet env) wt addr (n_message n) (vb_signature b)) \<and>
    (if later < now + SESSION_TTL then requireUser (en_wallet env) later rq (ap_store a1) = Ok u else refused (ap_store a1) later) \<and>
    (requireUser (en_wallet env) later rq (ap_store a2) = Ok u \<or> refused (ap_store a2) later) \<and>
    (now + SESSION_TTL \<le> later \<longrightarrow> refused (ap_store a2) later) \<and> refused (ap_store a3) later \<and>
    (issued (wallet_type_text wt) addr (vb_nonce b) (ap_store a2) = issued (wallet_type_text wt) addr (vb_nonce b) (ap_store a1) \<longrightarrow>
      fst (verifyHandler env now'' tok' wt (Some b') a2) = Throw (401, ''invalid or expired nonce''))"
proof -
  let ?h = "sha256Hex (en_wallet env) tok" and ?w = "wallet_type_text wt" and ?n = "vb_nonce b"
  note run = login_run [OF ok addr, folded a1_def]
  obtain m where m: "fst (consumeNonce now ?w addr ?n (ap_store a)) = Some m" "verifyWalletSignature (en_wallet env) wt addr m (vb_signature b)" using run(1) by blast
  let ?live = "sort_key (\<lambda>x. - n_created_at x) (filter (live_nonce now ?w addr ?n) (st_nonces (ap_store a)))"
  obtain c cs where c: "?live = c # cs" "m = n_message c" using m(1) by (cases ?live) (simp_all add: consumeNonce_def)
  have "c \<in> set ?live" unfolding c by simp
  then have nonce: "\<exists>n\<in>set (st_nonces (ap_store a)). n_wallet_type n = ?w \<and> n_address n = addr \<and> n_nonce n = ?n \<and>
      n_consumed_at n = None \<and> now < n_expires_at n \<and> verifyWalletSignature (en_wallet env) wt addr (n_message n) (vb_signature b)"
    using m(2) c(2) by (intro bexI [of _ c]) (simp_all add: live_nonce_def)
  define ss where "ss = st_sessions (snd (upsertUserByWallet now ?w (CHAIN_FOR wt) addr (snd (consumeNonce now ?w addr ?n (ap_store a)))))"
  have new: "\<forall>s\<in>set ss. us_session_hash s \<noteq> ?h"
    and sessions: "st_sessions (ap_store a1) = ss @ [\<lparr> us_user_id = u, us_session_hash = ?h, us_expires_at = now + SESSION_TTL, us_revoked_at = None \<rparr>]"
    using run(2,3) by (auto simp: ss_def Store.createSession_def list_ex_iff split: if_splits)
  let ?Q = "\<lambda>s. us_user_id s = u \<and> us_expires_at s = now + SESSION_TTL"
  have is1: "session_is ?h ?Q (ap_store a1)" using new by (auto simp: session_is_def sessions)
  have is2: "session_is ?h ?Q (ap_store a2)" by (rule session_kept [OF runs(1) is1]) simp
  have "find_first (\<lambda>s. us_session_hash s = ?h \<and> us_revoked_at s = None \<and> us_expires_at s > later) ss = None" using new by simp
  then have "userIdForSession later ?h (ap_store a1) = (if later < now + SESSION_TTL then Some u else None)"
    by (simp add: userIdForSession_def sessions find_first_snoc del: find_first_None)
  then have user: "if later < now + SESSION_TTL then requireUser (en_wallet env) later rq (ap_store a1) = Ok u else refused (ap_store a1) later"
    using token by (simp add: requireUser_def refused_def)
  have "ap_store (snd (post_auth_logout env now' rq a2)) = revokeSession now' ?h (ap_store a2)"
    using token by (simp add: post_auth_logout_def store_outcomes)
  then have "session_is ?h (\<lambda>s. us_revoked_at s \<noteq> None) (ap_store (snd (post_auth_logout env now' rq a2)))"
    by (intro session_is_map [OF is2, where f = "\<lambda>s. if us_session_hash s = ?h then s \<lparr> us_revoked_at := Some now' \<rparr> else s"])
      (simp_all add: revokeSession_def)
  from session_kept [OF runs(2) this] have "userIdForSession later ?h (ap_store a3) = None"
    by (auto simp: session_is_def userIdForSession_def)
  then have out: "refused (ap_store a3) later" using token by (simp add: requireUser_def refused_def)
  have "still_open ?w addr ?n (ap_store a1) = 0" using nonce_closed [OF fresh m(1) run(4)] by (simp add: still_open_def filter_empty_conv)
  from nonce_stays_closed [OF runs(1) this] have "filter (live_nonce now'' ?w addr ?n) (st_nonces (ap_store a2)) = []"
    if "issued ?w addr ?n (ap_store a2) = issued ?w addr ?n (ap_store a1)"
    using that live_open [of now'' ?w addr ?n] by (auto simp: still_open_def filter_empty_conv)
  then have "fst (verifyHandler env now'' tok' wt (Some b') a2) = Throw (401, ''invalid or expired nonce'')"
    if "issued ?w addr ?n (ap_store a2) = issued ?w addr ?n (ap_store a1)"
    using that addr again by (simp add: verifyHandler_def andThen_reads store_outcomes plain_outcomes consumeNonce_def)
  with nonce user out session_user [OF is2 token, of later] show ?thesis unfolding refused_def by blast
qed

theorem wallet_login_single_use_witness:
  "requireUser demo_wallet 12 \<lparr> rq_authorization = Some ''Bearer tok'', rq_cookie = None, rq_idempotency_key = None \<rparr> (ap_store demo_logged_in) = Ok 1 \<and>
   requireUser demo_wallet (9 + SESSION_TTL) \<lparr> rq_authorization = Some ''Bearer tok'', rq_cookie = None, rq_idempotency_key = None \<rparr> (ap_store demo_logged_in)
     = Throw (401, ''invalid or expired session'') \<and>
   fst (verifyHandler demo_api_env 13 ''tok2'' STELLAR (Some demo_verify_body) demo_logged_in) = Throw (401, ''invalid or expired nonce'')"
proof -
  let ?rq = "\<lparr> rq_authorization = Some ''Bearer tok'', rq_cookie = None, rq_idempotency_key = None \<rparr>"
  have addr: "normalizeAddress (en_wallet demo_api_env) STELLAR (vb_address demo_verify_body) = Some ''GA''"
    by (simp add: normalizeAddress_def demo_verify_body_def)
  have fresh: "length (filter (open_nonce (wallet_type_text STELLAR) ''GA'' (vb_nonce demo_verify_body)) (st_nonces (ap_store demo_issued))) \<le> 1"
    by (simp add: demo_issued_def post_auth_nonce_def demo_nonce_body_def andThen_reads normalizeAddress_def andThen_snd store_outcomes plain_outcomes
        createNonce_def demo_init_def init_store_def Let_def)
  have tok: "readSessionToken ?rq = Some (Some ''tok'')" by code_simp
  have lib: "en_wallet demo_api_env = demo_wallet" by (simp add: demo_api_env_def)
  note use = wallet_login_single_use [OF demo_login(1) addr fresh tok _ rtranclp.rtrancl_refl rtranclp.rtrancl_refl refl refl, folded demo_logged_in_def, unfolded lib]
  have "(12 :: int) < 9 + SESSION_TTL" "\<not> 9 + SESSION_TTL < 9 + SESSION_TTL" by (simp_all add: SESSION_TTL_def)
  with use [of 12 0 0 "[]"] use [of "9 + SESSION_TTL" 0 13 "''tok2''"] show ?thesis by simp
qed


section \<open>Prepared deposits\<close>

text \<open>The relayer's view of the settings the API prepares burns with.\<close>

definition relayer_env :: "api_env \<Rightarrow> cctp_env" where
  "relayer_env env = \<lparr> ce_tokenMessenger = en_tokenMessenger env, ce_usdc = en_usdc env, ce_forwarder = en_forwarder env, ce_expectedFinality = None \<rparr>"

text \<open>What the user must have before a deposit is prepared.\<close>

definition deposit_allowed :: "nat \<Rightarrow> deposit_body \<Rightarrow> store \<Rightarrow> bool" where
  "deposit_allowed u b st = (userOwnsWallet u (db_source_wallet_address b) None st \<and>
     (\<exists>v. getNoteVault u (db_vault_id b) st = Some v \<and> v_backup_status v = ''verified'' \<and> policy_ok (v_recovery_policy_status v)) \<and>
     ''ROOT_MISMATCH_CRITICAL'' \<notin> set (st_findings st))"

lemma root_outcome:
  "fst (assertRootHealthy a) = Ok () \<longleftrightarrow> ''ROOT_MISMATCH_CRITICAL'' \<notin> set (st_findings (ap_store a))" "snd (assertRootHealthy a) = a"
  by (auto simp: assertRootHealthy_def andThen_reads plain_outcomes criticalRootMismatchCount_def filter_empty_conv)

lemma owns_vault: "userOwnsVault u vid st \<longleftrightarrow> getNoteVault u vid st \<noteq> None"
  by (simp add: getNoteVault_def userOwnsVault_def list_ex_iff)

lemma deposit_gates_run:
  "fst (deposit_gates u b n a) = Ok () \<longleftrightarrow> n > 0 \<and> deposit_allowed u b (ap_store a)" "snd (deposit_gates u b n a) = a"
proof -
  define rootOk where "rootOk = (''ROOT_MISMATCH_CRITICAL'' \<notin> set (st_findings (ap_store a)))"
  define verified where "verified v = (v_backup_status v = ''verified'')" for v :: vault_row
  have root: "fst (assertRootHealthy a) = Ok () \<longleftrightarrow> rootOk" "snd (assertRootHealthy a) = a" by (simp_all add: rootOk_def root_outcome)
  have run: "deposit_gates u b n a =
    (if n > 0 \<and> userOwnsWallet u (db_source_wallet_address b) None (ap_store a) \<and>
        (case getNoteVault u (db_vault_id b) (ap_store a) of None \<Rightarrow> False | Some v \<Rightarrow> verified v \<and> policy_ok (v_recovery_policy_status v))
     then assertRootHealthy a else (fst (deposit_gates u b n a), a)) \<and>
    (n > 0 \<and> userOwnsWallet u (db_source_wallet_address b) None (ap_store a) \<and>
        (case getNoteVault u (db_vault_id b) (ap_store a) of None \<Rightarrow> False | Some v \<Rightarrow> verified v \<and> policy_ok (v_recovery_policy_status v))
     \<or> fst (deposit_gates u b n a) \<noteq> Ok ())"
    unfolding deposit_gates_def andThen_reads vaultDepositReady_def owns_vault verified_def
    by (cases "getNoteVault u (db_vault_id b) (ap_store a)") simp_all
  have allowed: "deposit_allowed u b (ap_store a) \<longleftrightarrow> userOwnsWallet u (db_source_wallet_address b) None (ap_store a) \<and>
      (case getNoteVault u (db_vault_id b) (ap_store a) of None \<Rightarrow> False | Some v \<Rightarrow> verified v \<and> policy_ok (v_recovery_policy_status v)) \<and> rootOk"
    by (cases "getNoteVault u (db_vault_id b) (ap_store a)") (auto simp: deposit_allowed_def verified_def rootOk_def)
  show "fst (deposit_gates u b n a) = Ok () \<longleftrightarrow> n > 0 \<and> deposit_allowed u b (ap_store a)"
    unfolding allowed using run root(1) by metis
  show "snd (deposit_gates u b n a) = a" using run root(2) by (metis snd_conv)
qed

lemma prepare_run:
  assumes "fst (post_deposits_prepare env now rq (Some b) a) = Ok rep"
  obtains u did key n mint hook where "fst (require_privy env now rq a) = Ok (u, did)" "fst (idem rq (snd (require_privy env now rq a))) = Ok key"
    "big_int_of_string (db_amount_usdc_6dp b) = Some n" "n > 0" "deposit_allowed u b (ap_store (snd (require_privy env now rq a)))"
    "stellarContractToBytes32 (en_strkey env) (or_default (en_forwarder env) stellarCctpForwarder) = Ok mint"
    "encodeStellarForwardHook (en_strkey env) (or_default (en_pool env) []) = Ok hook"
    "pr_deposit_id rep = deterministicId env ''udep'' [key, db_commitment b]"
    "pr_burn_to rep = or_default (en_tokenMessenger env) arbitrumSepoliaTokenMessenger" "pr_approve_amount rep = int_to_string n"
    "pr_expected_amount_7dp_max rep = int_to_string (usdc6ToStellar7 n)"
    "pr_burn rep = \<lparr> bc_amount = n, bc_destinationDomain = stellarDomain, bc_mintRecipient = mint,
       bc_burnToken = or_default (en_usdc env) arbitrumSepoliaUsdc, bc_destinationCaller = mint,
       bc_maxFee = (if js_div n 1000 > 0 then js_div n 1000 else 1), bc_minFinalityThreshold = FINALITY_THRESHOLD_CONFIRMED, bc_hookData = hook \<rparr>"
proof -
  let ?a = "snd (require_privy env now rq a)"
  obtain u did where p: "fst (require_privy env now rq a) = Ok (u, did)" using assms by (auto simp: post_deposits_prepare_def andThen_ok)
  obtain key where key: "fst (idem rq ?a) = Ok key"
    using assms p by (cases "fst (idem rq ?a)") (auto simp: post_deposits_prepare_def andThen_reads)
  have ch: "db_source_chain b = ''arbitrum-sepolia''"
    using assms p key by (auto simp: post_deposits_prepare_def andThen_reads plain_outcomes split: if_splits)
  obtain n where n: "big_int_of_string (db_amount_usdc_6dp b) = Some n"
    using assms p key ch by (cases "big_int_of_string (db_amount_usdc_6dp b)") (auto simp: post_deposits_prepare_def andThen_reads plain_outcomes big_or_500_def)
  note start = assms [unfolded post_deposits_prepare_def]
  have big: "fst (big_or_500 (db_amount_usdc_6dp b) ?a) = Ok n" "snd (big_or_500 (db_amount_usdc_6dp b) ?a) = ?a"
    using n by (simp_all add: big_or_500_def plain_outcomes)
  have idem: "snd (idem rq ?a) = ?a" by (rule plain_outcomes)
  have gates: "fst (deposit_gates u b n ?a) = Ok ()"
    using start by (cases "fst (deposit_gates u b n ?a)") (auto simp: p key ch andThen_reads idem big)
  have gate2: "snd (deposit_gates u b n ?a) = ?a" by (rule deposit_gates_run(2))
  obtain mint where mint: "stellarContractToBytes32 (en_strkey env) (or_default (en_forwarder env) stellarCctpForwarder) = Ok mint"
    using start by (cases "stellarContractToBytes32 (en_strkey env) (or_default (en_forwarder env) stellarCctpForwarder)")
      (auto simp: p key ch andThen_reads idem big gates gate2 cctp_or_500_def plain_outcomes andThen_ok Let_def)
  obtain hook where hook: "encodeStellarForwardHook (en_strkey env) (or_default (en_pool env) []) = Ok hook"
    using start by (cases "encodeStellarForwardHook (en_strkey env) (or_default (en_pool env) [])")
      (auto simp: p key ch andThen_reads idem big gates gate2 cctp_or_500_def plain_outcomes andThen_ok Let_def)
  have pos: "n > 0" "deposit_allowed u b (ap_store ?a)" using gates deposit_gates_run(1) by auto
  show thesis
    by (rule that [OF p key n pos mint hook])
      (use start in \<open>auto simp: p key ch andThen_reads idem big gates gate2 mint hook cctp_or_500_def plain_outcomes andThen_ok Let_def\<close>)
qed

text \<open>C35: a prepared deposit fits its user, and its burn passes the relayer for this deposit only. When the API prepares a deposit, the user
  owns the source wallet and the vault, the vault's backup is verified and its recovery policy met, the roots are healthy and the amount is
  positive and equal to the approved one. If the burn it hands out is sent from that wallet to the contract it names and is mined,
  then under the same settings, none of them empty, the relayer's validation accepts it for that wallet, amount and pool, at the default
  finality and whether or not a fee bound of a tenth of a percent is passed on, and accepts it for no other sender, amount or pool.\<close>

theorem prepared_deposit_validates:
  assumes ok: "fst (post_deposits_prepare env now rq (Some b) a) = Ok rep"
    and settings: "en_tokenMessenger env \<noteq> Some []" "en_usdc env \<noteq> Some []" "en_forwarder env \<noteq> Some []"
    and tx: "lower (et_from tx) = lower (db_source_wallet_address b)" "et_to tx = Some (pr_burn_to rep)" "decode (et_data tx) = Some (pr_burn rep)"
  shows "\<exists>u did n. fst (require_privy env now rq a) = Ok (u, did) \<and> big_int_of_string (db_amount_usdc_6dp b) = Some n \<and> 0 < n \<and>
    deposit_allowed u b (ap_store (snd (require_privy env now rq a))) \<and> pr_approve_amount rep = int_to_string n \<and>
    (\<forall>fee fin. fee \<in> {None, Some (if 1000 \<le> n then n div 1000 else 1)} \<and> fin \<in> {None, Some FINALITY_THRESHOLD_CONFIRMED} \<longrightarrow>
      validateInboundBurnTx (en_strkey env) (relayer_env env) decode (Some (tx, 1)) (db_source_wallet_address b) n (or_default (en_pool env) []) fee fin
        = Ok (pr_burn rep)) \<and>
    (\<forall>sender n' pool fee fin d. validateInboundBurnTx (en_strkey env) (relayer_env env) decode (Some (tx, 1)) sender n' pool fee fin = Ok d \<longrightarrow>
      lower sender = lower (db_source_wallet_address b) \<and> n' = n \<and> pool = or_default (en_pool env) [])"
proof -
  have env: "or_default (en_tokenMessenger env) d = env_or (en_tokenMessenger env) d" "or_default (en_usdc env) d = env_or (en_usdc env) d"
    "or_default (en_forwarder env) d = env_or (en_forwarder env) d" for d
    using settings by (auto simp: or_default_def env_or_def split: option.split)
  show ?thesis
  proof (rule prepare_run [OF ok])
    fix u did key n mint hook
    assume p: "fst (require_privy env now rq a) = Ok (u, did)" and n: "big_int_of_string (db_amount_usdc_6dp b) = Some n" "n > 0"
      and allowed: "deposit_allowed u b (ap_store (snd (require_privy env now rq a)))"
      and mint: "stellarContractToBytes32 (en_strkey env) (or_default (en_forwarder env) stellarCctpForwarder) = Ok mint"
      and hook: "encodeStellarForwardHook (en_strkey env) (or_default (en_pool env) []) = Ok hook"
      and "to": "pr_burn_to rep = or_default (en_tokenMessenger env) arbitrumSepoliaTokenMessenger" and appr: "pr_approve_amount rep = int_to_string n"
      and burn: "pr_burn rep = \<lparr> bc_amount = n, bc_destinationDomain = stellarDomain, bc_mintRecipient = mint,
         bc_burnToken = or_default (en_usdc env) arbitrumSepoliaUsdc, bc_destinationCaller = mint,
         bc_maxFee = (if js_div n 1000 > 0 then js_div n 1000 else 1), bc_minFinalityThreshold = FINALITY_THRESHOLD_CONFIRMED, bc_hookData = hook \<rparr>"
    have fee: "(if js_div n 1000 > 0 then js_div n 1000 else 1) = (if 1000 \<le> n then n div 1000 else 1)"
      using n(2) by (simp add: js_div_def pos_imp_zdiv_pos_iff)
    have accepts: "validateInboundBurnTx (en_strkey env) (relayer_env env) decode (Some (tx, 1)) (db_source_wallet_address b) n (or_default (en_pool env) []) fee fin
        = Ok (pr_burn rep)" if "fee \<in> {None, Some (if 1000 \<le> n then n div 1000 else 1)}" "fin \<in> {None, Some FINALITY_THRESHOLD_CONFIRMED}" for fee fin
      using that mint hook
      by (auto simp: validateInboundBurnTx_def tx "to" burn env relayer_env_def env_or_def [of "Some _"] res_bind_simps Let_def fee split: if_splits)
    have only: "lower sender = lower (db_source_wallet_address b) \<and> n' = n \<and> pool = or_default (en_pool env) []"
      if v: "validateInboundBurnTx (en_strkey env) (relayer_env env) decode (Some (tx, 1)) sender n' pool mf fin = Ok d" for sender n' pool mf fin d
    proof -
      obtain hook' where h: "lower (et_from tx) = lower sender" "d = pr_burn rep" "encodeStellarForwardHook (en_strkey env) pool = Ok hook'"
        "bc_amount d = n'" "lower (bc_hookData d) = hook'"
        by (rule validate_terms [OF v]) (use tx(3) in auto)
      then show ?thesis using tx(1) burn lower_hook [OF hook] hook_inject [of "en_strkey env" pool hook "or_default (en_pool env) []"] hook by simp
    qed
    show ?thesis using p n allowed appr accepts only by blast
  qed
qed

definition demo_deposit_body :: deposit_body where
  "demo_deposit_body = \<lparr> db_amount_usdc_6dp = ''5'', db_source_chain = ''arbitrum-sepolia'', db_source_wallet_address = ''0xAb'', db_vault_id = ''v1'',
     db_commitment = ''0xcc'', db_encrypted_note_payload_hash = ''0xee'', db_policy_id = ''p'' \<rparr>"

definition demo_deposit_state :: api where
  "demo_deposit_state = demo_init \<lparr> ap_store := init_store \<lparr> st_next := 1,
     st_users := [\<lparr> u_id = 0, u_privy_user_id = Some ''d1'', u_display_name = None, u_email = None, u_avatar_url = None, u_primary_auth_method = None,
       u_last_login_at = None, u_created_at = 0 \<rparr>],
     st_wallets := [\<lparr> w_id = 0, w_user_id = 0, w_privy_user_id = None, w_wallet_type = ''EVM'', w_wallet_source = None, w_chain = ''arbitrum-sepolia'',
       w_address = ''0xaB'', w_privy_wallet_id = None, w_is_primary = True, w_verified_at = None, w_created_at = 0 \<rparr>],
     st_vaults := [\<lparr> v_user_id = 0, v_privy_user_id = ''d1'', v_vault_id = ''v1'', v_envelope = VNull, v_ciphertext = [], v_aad = VNull,
       v_backup_status = ''verified'', v_recovery_policy_status = ''strong'', v_last_backup_verified_at = None, v_last_restored_at = None,
       v_last_backup_verification = None, v_created_at = 0 \<rparr>] \<rparr> \<rparr>"

lemma demo_prepare: "\<exists>rep. fst (post_deposits_prepare demo_privy_env 5 demo_request (Some demo_deposit_body) demo_deposit_state) = Ok rep"
proof -
  let ?a = "snd (require_privy demo_privy_env 5 demo_request demo_deposit_state)"
  have u: "fst (upsertUserByPrivyId 5 ''d1'' (ap_store demo_deposit_state)) = 0" by (simp add: demo_deposit_state_def upsertUserByPrivyId_def)
  have key: "fst (idem demo_request ?a) = Ok ''key-0001''" "snd (idem demo_request ?a) = ?a" by (simp_all add: idem_def demo_request_def)
  have low: "lower ''0xaB'' = lower ''0xAb''" by code_simp
  have "deposit_allowed 0 demo_deposit_body (ap_store ?a)"
    unfolding demo_privy by (simp add: deposit_allowed_def demo_deposit_state_def demo_deposit_body_def upsertUserByPrivyId_def touch_login_def userOwnsWallet_def
        getNoteVault_def policy_ok_def low init_store_def)
  then have gates: "fst (deposit_gates 0 demo_deposit_body 5 ?a) = Ok ()" by (simp add: deposit_gates_run)
  have big: "big_int_of_string ''5'' = Some 5" by code_simp
  have rows: "st_tables (ap_store ?a) ''cctp_deposits'' = []"
    unfolding demo_privy by (simp add: demo_deposit_state_def upsertUserByPrivyId_def touch_login_def init_store_def)
  have strkey: "stellarContractToBytes32 demo_strkey stellarCctpForwarder \<noteq> Throw e" "encodeStellarForwardHook demo_strkey ''CP'' \<noteq> Throw e" for e
    by (simp_all add: stellarContractToBytes32_def encodeStellarForwardHook_def demo_strkey_def stellarCctpForwarder_def)
  obtain mint hook where mh: "stellarContractToBytes32 demo_strkey stellarCctpForwarder = Ok mint" "encodeStellarForwardHook demo_strkey ''CP'' = Ok hook"
    using strkey by (cases "stellarContractToBytes32 demo_strkey stellarCctpForwarder"; cases "encodeStellarForwardHook demo_strkey ''CP''") auto
  have env: "or_default (en_forwarder demo_privy_env) stellarCctpForwarder = stellarCctpForwarder" "or_default (en_pool demo_privy_env) [] = ''CP''"
    "en_strkey demo_privy_env = demo_strkey" by (simp_all add: or_default_def demo_privy_env_def demo_api_env_def)
  have body: "db_source_chain demo_deposit_body = ''arbitrum-sepolia''" "db_amount_usdc_6dp demo_deposit_body = ''5''" by (simp_all add: demo_deposit_body_def)
  show ?thesis
    unfolding post_deposits_prepare_def
    by (simp add: demo_privy(1) u key andThen_reads body big_or_500_def big plain_outcomes gates deposit_gates_run(2) env mh cctp_or_500_def Let_def
        andThen_ok store_outcomes createUserDeposit_def rows log_def)
qed

theorem prepared_deposit_validates_witness:
  "\<exists>rep n. fst (post_deposits_prepare demo_privy_env 5 demo_request (Some demo_deposit_body) demo_deposit_state) = Ok rep \<and> pr_approve_amount rep = int_to_string n \<and>
    validateInboundBurnTx demo_strkey (relayer_env demo_privy_env) (\<lambda>_. Some (pr_burn rep))
      (Some (\<lparr> et_from = ''0xAB'', et_to = Some (pr_burn_to rep), et_data = [] \<rparr>, 1)) ''0xAb'' n ''CP'' None None = Ok (pr_burn rep)"
proof -
  obtain rep where rep: "fst (post_deposits_prepare demo_privy_env 5 demo_request (Some demo_deposit_body) demo_deposit_state) = Ok rep"
    using demo_prepare by blast
  have env: "en_tokenMessenger demo_privy_env \<noteq> Some []" "en_usdc demo_privy_env \<noteq> Some []" "en_forwarder demo_privy_env \<noteq> Some []"
    "en_strkey demo_privy_env = demo_strkey" "or_default (en_pool demo_privy_env) [] = ''CP''" "db_source_wallet_address demo_deposit_body = ''0xAb''"
    by (simp_all add: demo_privy_env_def demo_api_env_def or_default_def demo_deposit_body_def)
  have low: "lower ''0xAB'' = lower ''0xAb''" by code_simp
  show ?thesis
    using prepared_deposit_validates [OF rep env(1-3), where tx = "\<lparr> et_from = ''0xAB'', et_to = Some (pr_burn_to rep), et_data = [] \<rparr>"
        and decode = "\<lambda>_. Some (pr_burn rep)"] rep low
    by (auto simp: env(4-6))
qed

end
