(* ===== verification/ViewKey.thy ===== *)
theory ViewKey
  imports ApiGuarantees
begin

text \<open>
  Shade View: a report discloses only its owner's rows, is signed by the service, and its signed payload binds
  everything it discloses.
\<close>

text \<open>What Ed25519 promises: a signature verifies under the key of its secret.\<close>

definition report_lib_ok :: "report_lib \<Rightarrow> bool" where
  "report_lib_ok lib = (\<forall>sec pk m. rl_public lib sec = Some pk \<longrightarrow> rl_verify lib pk m (rl_sign lib sec m) = Some True)"

lemma canonical_unsigned: "canonicalReportPayload (r \<lparr> vr_servicePubkeyHex := p, vr_serviceSignatureHex := g \<rparr>) = canonicalReportPayload r"
  by (simp add: canonicalReportPayload_def canonical_value_def)

lemma sign_verifies:
  assumes "report_lib_ok lib" "signViewKeyReport lib inp rid gen sec = Some rep"
  shows "verifyViewKeyReport lib rep = Some True"
proof -
  obtain pk where pk: "rl_public lib sec = Some pk" using assms(2) by (auto simp: signViewKeyReport_def split: option.splits)
  have "rl_verify lib pk m (rl_sign lib sec m) = Some True" for m using assms(1) pk by (simp add: report_lib_ok_def)
  then show ?thesis using assms(2) by (auto simp: signViewKeyReport_def verifyViewKeyReport_def pk Let_def canonical_unsigned)
qed

lemma sign_fields:
  assumes "signViewKeyReport lib inp rid gen sec = Some rep"
  shows "vr_userId rep = vr_userId inp" "vr_noteCommitments rep = vr_noteCommitments inp" "vr_disclosedNullifiers rep = vr_disclosedNullifiers inp"
    "vr_amountsDisclosed rep = vr_amountsDisclosed inp" "vr_proofLinks rep = vr_proofLinks inp" "vr_reportId rep = rid"
  using assms by (auto simp: signViewKeyReport_def Let_def view_key_report_input.defs split: option.splits)

text \<open>The rows of a user that a report may draw on.\<close>

definition owned_commitments :: "nat \<Rightarrow> view_key_body \<Rightarrow> store \<Rightarrow> string set" where
  "owned_commitments u b st = {c \<in> set (vk_note_commitments b). \<exists>r\<in>set (st_tables st ''note_commitments''). col r ''user_id'' = uid_value u \<and> col r ''commitment'' = VStr c}"

definition owned_nullifiers :: "nat \<Rightarrow> view_key_body \<Rightarrow> store \<Rightarrow> string set" where
  "owned_nullifiers u b st = {to_String (col r ''nullifier'') | r. r \<in> set (st_tables st ''settlements'') \<and> col r ''user_id'' = uid_value u \<and>
     col r ''settlement_id'' \<in> VStr ` set (vk_settlement_ids b)}"

lemma commitments_owned:
  "(\<lambda>c. to_String (col c ''commitment'')) ` set (getOwnedNoteCommitments u (vk_note_commitments b) st) = owned_commitments u b st"
  by (force simp: getOwnedNoteCommitments_def owned_commitments_def list_ex_iff image_iff)

lemma nullifiers_owned:
  "(\<lambda>s. to_String (col s ''nullifier'')) ` set (getOwnedSettlements u (vk_settlement_ids b) st) = owned_nullifiers u b st"
  by (force simp: getOwnedSettlements_def owned_nullifiers_def list_ex_iff image_iff)

lemma report_run:
  assumes "fst (post_view_key_report env lib nl now sec rid gen eph nonce rq (Some b) a) = Ok (rep, att)"
  obtains u anchors where "fst (authedUser env now rq a) = Ok u"
    "signViewKeyReport lib (report_input_of u b (getOwnedSettlements u (vk_settlement_ids b) (ap_store (snd (authedUser env now rq a))))
       (getOwnedNoteCommitments u (vk_note_commitments b) (ap_store (snd (authedUser env now rq a)))) anchors) rid gen (or_default sec []) = Some rep"
    "fst (insertViewKeyReport (report_row_of b rep att) (ap_store (snd (authedUser env now rq a)))) = Ok ()"
    "st_reports (ap_store (snd (post_view_key_report env lib nl now sec rid gen eph nonce rq (Some b) a))) =
      st_reports (snd (insertViewKeyReport (report_row_of b rep att) (ap_store (snd (authedUser env now rq a)))))"
proof -
  let ?a = "snd (authedUser env now rq a)"
  obtain u where u: "fst (authedUser env now rq a) = Ok u" using assms by (auto simp: post_view_key_report_def andThen_ok)
  let ?s = "getOwnedSettlements u (vk_settlement_ids b) (ap_store ?a)" and ?c = "getOwnedNoteCommitments u (vk_note_commitments b) (ap_store ?a)"
  note start = assms [unfolded post_view_key_report_def]
  have conf: "or_default sec [] \<noteq> []" using start by (auto simp: u andThen_reads split: if_splits)
  define anchors where "anchors = (case vk_anchor_id b of Some x \<Rightarrow> [x]
    | None \<Rightarrow> getAnchorIdsForSettlements (map (\<lambda>s. to_String (col s ''settlement_id'')) ?s) (ap_store ?a))"
  have anc: "andThen (case vk_anchor_id b of None \<Rightarrow> get_store (getAnchorIdsForSettlements (map (\<lambda>s. to_String (col s ''settlement_id'')) ?s)) | Some x \<Rightarrow> ret [x]) f ?a
      = f anchors ?a" for f :: "string list \<Rightarrow> (api, api_err, signed_report \<times> (string \<times> string \<times> string) option) stmt"
    by (cases "vk_anchor_id b") (simp_all add: anchors_def andThen_reads plain_outcomes)
  obtain rep' where sg: "signViewKeyReport lib (report_input_of u b ?s ?c anchors) rid gen (or_default sec []) = Some rep'"
    using start by (cases "signViewKeyReport lib (report_input_of u b ?s ?c anchors) rid gen (or_default sec [])")
      (auto simp: u andThen_reads conf anc plain_outcomes)
  define enc where "enc = (case vk_attachment_recipient_pubkey b of None \<Rightarrow> ret None
      | Some pk \<Rightarrow> (case encryptReportAttachment nl eph nonce rep' pk of None \<Rightarrow> raise 500 ''bad public key size'' | Some x \<Rightarrow> ret (Some x)))"
  have enc2: "snd (enc ?a) = ?a" by (auto simp: enc_def plain_outcomes split: option.split)
  have fin: "fst (andThen enc (\<lambda>att. andThen (with_store (insertViewKeyReport (report_row_of b rep' att))) (\<lambda>_.
      andThen (log u ''shade_view.report.generate'' (Some ''view_key_report'') (Some rid) None []) (\<lambda>_. ret (rep', att)))) ?a) = Ok (rep, att)"
    using start by (simp add: u andThen_reads conf anc sg enc_def)
  then have e: "fst (enc ?a) = Ok att" and r: "rep' = rep" and ins: "fst (insertViewKeyReport (report_row_of b rep att) (ap_store ?a)) = Ok ()"
    by (auto simp: andThen_ok enc2 store_outcomes plain_outcomes log_def)
  have "snd (post_view_key_report env lib nl now sec rid gen eph nonce rq (Some b) a) =
    snd (andThen enc (\<lambda>att. andThen (with_store (insertViewKeyReport (report_row_of b rep' att))) (\<lambda>_.
      andThen (log u ''shade_view.report.generate'' (Some ''view_key_report'') (Some rid) None []) (\<lambda>_. ret (rep', att)))) ?a)"
    unfolding post_view_key_report_def by (simp add: u andThen_reads conf anc sg enc_def)
  then have rows: "st_reports (ap_store (snd (post_view_key_report env lib nl now sec rid gen eph nonce rq (Some b) a))) =
      st_reports (snd (insertViewKeyReport (report_row_of b rep att) (ap_store ?a)))"
    using e ins r by (simp add: andThen_snd enc2 store_outcomes plain_outcomes log_def logActivity_def)
  show thesis by (rule that [OF u sg [unfolded r] ins rows])
qed

text \<open>A Shade View report verifies under the service key it carries; the commitments and nullifiers it discloses are exactly
  those of the requested rows that belong to the requesting user, ids of other users being dropped; amounts are in
  it only if the user asked for them; and the stored report can be read back by that user and nobody else.\<close>

theorem view_key_report_sound:
  assumes lib: "report_lib_ok lib"
    and ok: "fst (post_view_key_report env lib nl now sec rid gen eph nonce rq (Some b) a) = Ok (rep, att)"
  shows "verifyViewKeyReport lib rep = Some True \<and>
    (\<exists>u. fst (authedUser env now rq a) = Ok u \<and> vr_userId rep = u \<and>
      set (vr_noteCommitments rep) = owned_commitments u b (ap_store (snd (authedUser env now rq a))) \<and>
      set (vr_disclosedNullifiers rep) = owned_nullifiers u b (ap_store (snd (authedUser env now rq a))) - {[]} \<and>
      (vk_disclose_amounts b \<or> vr_amountsDisclosed rep = None) \<and>
      (\<forall>u'. getViewKeyReport u' rid (ap_store (snd (post_view_key_report env lib nl now sec rid gen eph nonce rq (Some b) a))) =
        (if u' = u then Some (report_row_of b rep att) else None)))"
proof (rule report_run [OF ok])
  let ?a = "snd (authedUser env now rq a)"
  fix u anchors
  assume u: "fst (authedUser env now rq a) = Ok u"
    and sg: "signViewKeyReport lib (report_input_of u b (getOwnedSettlements u (vk_settlement_ids b) (ap_store ?a))
       (getOwnedNoteCommitments u (vk_note_commitments b) (ap_store ?a)) anchors) rid gen (or_default sec []) = Some rep"
    and ins: "fst (insertViewKeyReport (report_row_of b rep att) (ap_store ?a)) = Ok ()"
    and rows: "st_reports (ap_store (snd (post_view_key_report env lib nl now sec rid gen eph nonce rq (Some b) a))) =
      st_reports (snd (insertViewKeyReport (report_row_of b rep att) (ap_store ?a)))"
  note f = sign_fields [OF sg]
  have coms: "set (vr_noteCommitments rep) = owned_commitments u b (ap_store ?a)"
    using commitments_owned by (simp add: f report_input_of_def)
  have nuls: "set (vr_disclosedNullifiers rep) = owned_nullifiers u b (ap_store ?a) - {[]}"
    using nullifiers_owned [of u b "ap_store ?a"] by (auto simp: f report_input_of_def)
  have new: "\<forall>x\<in>set (st_reports (ap_store ?a)). rp_report_id x \<noteq> rid"
    and snoc: "st_reports (snd (insertViewKeyReport (report_row_of b rep att) (ap_store ?a))) = st_reports (ap_store ?a) @ [report_row_of b rep att]"
    using ins by (auto simp: insertViewKeyReport_def list_ex_iff report_row_of_def f split: if_splits)
  have ids: "rp_report_id (report_row_of b rep att) = rid" "rp_user_id (report_row_of b rep att) = u" by (simp_all add: report_row_of_def f report_input_of_def)
  have "find_first (\<lambda>r. rp_report_id r = rid \<and> rp_user_id r = u') (st_reports (ap_store ?a)) = None" for u' using new by simp
  then have "getViewKeyReport u' rid (ap_store (snd (post_view_key_report env lib nl now sec rid gen eph nonce rq (Some b) a))) =
        (if u' = u then Some (report_row_of b rep att) else None)" for u'
    using ids by (simp add: getViewKeyReport_def rows snoc find_first_snoc del: find_first_None)
  moreover have "vk_disclose_amounts b \<or> vr_amountsDisclosed rep = None" by (simp add: f report_input_of_def)
  moreover have "vr_userId rep = u" by (simp add: f report_input_of_def)
  ultimately show ?thesis using u coms nuls sign_verifies [OF lib sg] by blast
qed

text \<open>A user's report in the demonstration state, who owns no settlement and asks for one of another user.\<close>

definition demo_report_lib :: report_lib where
  "demo_report_lib = \<lparr> rl_public = (\<lambda>s. Some [1]), rl_sign = (\<lambda>s m. m), rl_verify = (\<lambda>pk m g. Some (m = g)), rl_sha256 = (\<lambda>b. b) \<rparr>"

definition demo_view_body :: view_key_body where
  "demo_view_body = \<lparr> vk_settlement_ids = [''s1''], vk_note_commitments = [''0xc1'', ''0xc2''], vk_time_range_from = None, vk_time_range_to = None,
     vk_quote_id = None, vk_policy_id = None, vk_anchor_id = None, vk_disclose_amounts = False, vk_attachment_recipient_pubkey = None \<rparr>"

definition demo_view_rq :: request where
  "demo_view_rq = \<lparr> rq_authorization = Some ''Bearer tok'', rq_cookie = None, rq_idempotency_key = None \<rparr>"

definition demo_view_state :: api where
  "demo_view_state = demo_logged_in \<lparr> ap_store := (ap_store demo_logged_in) \<lparr> st_tables := (\<lambda>t. if t = ''note_commitments''
     then [[(''commitment'', VStr ''0xc1''), (''user_id'', uid_value 1)], [(''commitment'', VStr ''0xc2''), (''user_id'', uid_value 2)]] else []) \<rparr> \<rparr>"

lemma demo_view_user: "requireUser demo_wallet 12 demo_view_rq (ap_store demo_view_state) = Ok 1"
proof -
  have t: "readSessionToken demo_view_rq = Some (Some ''tok'')" by code_simp
  have "st_sessions (ap_store demo_view_state) =
    [\<lparr> us_user_id = 1, us_session_hash = sha256Hex demo_wallet ''tok'', us_expires_at = 9 + SESSION_TTL, us_revoked_at = None \<rparr>]"
    by (simp add: demo_view_state_def demo_logged_in_def demo_issued_def demo_init_def init_store_def demo_api_env_def demo_wallet_def demo_nonce_body_def demo_verify_body_def
      post_auth_nonce_def verifyHandler_def andThen_def parsed_def normalizeAddress_def do_store_def run_store_def with_store_def ret_def
      createNonce_def consumeNonce_def live_nonce_def NONCE_TTL_def authMessage_def verifyWalletSignature_def upsertUserByWallet_def new_user_def Let_def
      Store.createSession_def log_def logActivity_def)
  then show ?thesis by (simp add: requireUser_def t userIdForSession_def SESSION_TTL_def)
qed

lemma demo_view_authed: "authedUser demo_api_env 12 demo_view_rq demo_view_state = (Ok 1, demo_view_state)"
  using demo_view_user
  by (simp add: authedUser_def privyEnabled_def or_default_def andThen_reads from_result_def demo_api_env_def)

lemma demo_view_report:
  "\<exists>rep att. fst (post_view_key_report demo_api_env demo_report_lib nl 12 (Some ''S'') ''r1'' ''now'' [] [] demo_view_rq (Some demo_view_body) demo_view_state) = Ok (rep, att)"
proof -
  have r: "st_reports (ap_store demo_view_state) = []"
    by (simp add: demo_view_state_def demo_logged_in_def demo_issued_def demo_init_def init_store_def demo_api_env_def demo_wallet_def demo_nonce_body_def demo_verify_body_def
      post_auth_nonce_def verifyHandler_def andThen_def parsed_def normalizeAddress_def do_store_def run_store_def with_store_def ret_def
      createNonce_def consumeNonce_def live_nonce_def NONCE_TTL_def authMessage_def verifyWalletSignature_def upsertUserByWallet_def new_user_def Let_def
      Store.createSession_def log_def logActivity_def)
  have s: "signViewKeyReport demo_report_lib inp rid gen sec \<noteq> None" for inp rid gen sec
    by (simp add: signViewKeyReport_def demo_report_lib_def Let_def)
  show ?thesis
    unfolding post_view_key_report_def
    using s by (simp add: demo_view_authed andThen_reads or_default_def andThen_ok plain_outcomes store_outcomes insertViewKeyReport_def r log_def demo_view_body_def
        split: option.split)
qed

lemma demo_view_owned: "owned_commitments 1 demo_view_body (ap_store demo_view_state) = {''0xc1''}"
  by (auto simp: owned_commitments_def demo_view_body_def demo_view_state_def col_def uid_value_def)

theorem view_key_report_sound_witness:
  "\<exists>rep att. fst (post_view_key_report demo_api_env demo_report_lib demo_nacl 12 (Some ''S'') ''r1'' ''now'' [] [] demo_view_rq (Some demo_view_body) demo_view_state) = Ok (rep, att) \<and>
    verifyViewKeyReport demo_report_lib rep = Some True \<and> set (vr_noteCommitments rep) = {''0xc1''}"
proof -
  obtain rep att where r: "fst (post_view_key_report demo_api_env demo_report_lib demo_nacl 12 (Some ''S'') ''r1'' ''now'' [] [] demo_view_rq (Some demo_view_body) demo_view_state) = Ok (rep, att)"
    using demo_view_report by blast
  have lib: "report_lib_ok demo_report_lib" by (simp add: report_lib_ok_def demo_report_lib_def)
  show ?thesis
    using view_key_report_sound [OF lib r] r demo_view_owned by (auto simp: demo_view_authed)
qed


section \<open>The signed payload\<close>

lemma opt_str_value_inject: "opt_str_value x = opt_str_value y \<longleftrightarrow> x = y"
  by (simp add: opt_str_value_def split: option.split)

lemma sort_eq_mset: "sort xs = sort ys \<longleftrightarrow> mset xs = mset ys"
  by (metis mset_sort properties_for_sort sorted_sort)

lemma amount_value_inject: "amount_value x = amount_value y \<longleftrightarrow> x = y"
  by (cases x; cases y) (auto simp: amount_value_def)

lemma canonical_pure:
  "json_pure (nullish (vr_quoteId r) VNull) \<Longrightarrow> json_pure (nullish (vr_policyId r) VNull) \<Longrightarrow> json_pure (canonical_value r)"
  by (auto simp: canonical_value_def uid_value_def opt_str_value_def strings_def amount_value_def list_all_iff split: option.splits)

text \<open>The signed payload binds everything a report says and nothing else: two reports have the same payload, and so the same
  signature, exactly when they agree on the id, user, generation time, time range, quote, policy, anchor and disclosed amounts, and
  list the same commitments, nullifiers and links in any order. In particular the generation time and the amounts are bound, which the stored
  row does not keep.\<close>

theorem report_payload_binding:
  assumes "json_pure (nullish (vr_quoteId r) VNull)" "json_pure (nullish (vr_policyId r) VNull)"
    and "json_pure (nullish (vr_quoteId s) VNull)" "json_pure (nullish (vr_policyId s) VNull)"
  shows "canonicalReportPayload r = canonicalReportPayload s \<longleftrightarrow>
    vr_reportId r = vr_reportId s \<and> vr_userId r = vr_userId s \<and> vr_generatedAt r = vr_generatedAt s \<and>
    vr_timeRangeFrom r = vr_timeRangeFrom s \<and> vr_timeRangeTo r = vr_timeRangeTo s \<and>
    mset (vr_noteCommitments r) = mset (vr_noteCommitments s) \<and> mset (vr_disclosedNullifiers r) = mset (vr_disclosedNullifiers s) \<and>
    nullish (vr_quoteId r) VNull = nullish (vr_quoteId s) VNull \<and> nullish (vr_policyId r) VNull = nullish (vr_policyId s) VNull \<and>
    vr_anchorId r = vr_anchorId s \<and> (case vr_amountsDisclosed r of None \<Rightarrow> [] | Some x \<Rightarrow> x) = (case vr_amountsDisclosed s of None \<Rightarrow> [] | Some x \<Rightarrow> x) \<and>
    mset (vr_proofLinks r) = mset (vr_proofLinks s)"
proof -
  have inj: "inj VStr" "inj amount_value" by (auto intro: injI simp: amount_value_inject)
  have strs: "strings xs = strings ys \<longleftrightarrow> xs = ys" for xs ys using inj_map_eq_map [OF inj(1)] by (simp add: strings_def)
  have "canonicalReportPayload r = canonicalReportPayload s \<longleftrightarrow> canonical_value r = canonical_value s"
    unfolding canonicalReportPayload_def by (rule stringify_inject [OF canonical_pure [OF assms(1,2)] canonical_pure [OF assms(3,4)]])
  then show ?thesis
    unfolding canonical_value_def
    by (simp only: jsval.inject list.inject prod.inject strs sort_eq_mset opt_str_value_inject uid_value_def nat_to_string_inject
        inj_map_eq_map [OF inj(2)] simp_thms)
qed

theorem report_payload_binding_witness:
  "\<exists>r s. signViewKeyReport demo_report_lib (report_input_of 1 demo_view_body [] [] []) ''r1'' ''t1'' ''S'' = Some r \<and>
    signViewKeyReport demo_report_lib (report_input_of 1 demo_view_body [] [] []) ''r1'' ''t2'' ''S'' = Some s \<and>
    canonicalReportPayload r \<noteq> canonicalReportPayload s"
proof -
  obtain r s where rs: "signViewKeyReport demo_report_lib (report_input_of 1 demo_view_body [] [] []) ''r1'' ''t1'' ''S'' = Some r"
    "signViewKeyReport demo_report_lib (report_input_of 1 demo_view_body [] [] []) ''r1'' ''t2'' ''S'' = Some s"
    by (simp add: signViewKeyReport_def demo_report_lib_def Let_def)
  have f: "vr_quoteId r = VUndef" "vr_policyId r = VUndef" "vr_quoteId s = VUndef" "vr_policyId s = VUndef" "vr_generatedAt r = ''t1''" "vr_generatedAt s = ''t2''"
    using rs by (auto simp: signViewKeyReport_def demo_report_lib_def Let_def view_key_report_input.defs report_input_of_def demo_view_body_def first_member_def)
  have "canonicalReportPayload r \<noteq> canonicalReportPayload s" using report_payload_binding [of r s] by (simp add: f nullish_def)
  then show ?thesis using rs by blast
qed

end
