(* ===== verification/Merkle.thy ===== *)
theory Merkle
  imports Prelude
begin

text \<open>
  The commitment tree of the shielded pool: the BN254 Poseidon commitments and coins of
  \<open>packages/proving/src/bn254/poseidon.ts\<close> and \<open>coin.ts\<close>, the zero-padded fixed-depth tree of
  \<open>merkle.ts\<close>, and the two artefacts its comments say it agrees with: the inclusion check of
  \<open>circuits/lib_bn254/merkleProof.circom\<close> and the frontier tree of
  \<open>contracts/arc/src/IncrementalMerkleTree.sol\<close>. The Poseidon permutation (circomlibjs) is a parameter
  \<open>pos\<close>, a function from the list of inputs to a field element.
\<close>

section \<open>Poseidon commitments\<close>

type_synonym poseidon = "int list \<Rightarrow> int"

definition BN254_FIELD_MODULUS :: int where
  "BN254_FIELD_MODULUS = 21888242871839275222246405745257275088548364400416034343698204186575808495617"

definition poseidonHash :: "poseidon \<Rightarrow> int list \<Rightarrow> int" where
  "poseidonHash pos inputs = pos inputs"

definition makeSyncHash2 :: "poseidon \<Rightarrow> int \<Rightarrow> int \<Rightarrow> int" where
  "makeSyncHash2 pos a b = pos [a, b]"

record commitment_parts =
  cp_commitment :: int
  cp_nullifierHash :: int
  cp_precommitment :: int
  cp_assetValueLabel :: int

definition commitmentHasher :: "poseidon \<Rightarrow> int \<Rightarrow> int \<Rightarrow> int \<Rightarrow> int \<Rightarrow> int \<Rightarrow> commitment_parts" where
  "commitmentHasher pos assetId value label nullifier secret =
    (let precommitment = poseidonHash pos [nullifier, secret];
         assetValueLabel = poseidonHash pos [assetId, value, label];
         commitment = poseidonHash pos [assetValueLabel, precommitment];
         nullifierHash = poseidonHash pos [nullifier] in
     \<lparr> cp_commitment = commitment, cp_nullifierHash = nullifierHash, cp_precommitment = precommitment,
       cp_assetValueLabel = assetValueLabel \<rparr>)"

definition domainNullifierHash :: "poseidon \<Rightarrow> int \<Rightarrow> int \<Rightarrow> int \<Rightarrow> int" where
  "domainNullifierHash pos nullifier poolId chainId = poseidonHash pos [nullifier, poolId, chainId]"


section \<open>Coins\<close>

text \<open>\<open>randomBytes(31)\<close> is an argument: the bytes drawn, read as a big-endian number.\<close>

fun bytes_value :: "bytes \<Rightarrow> int" where
  "bytes_value [] = 0"
| "bytes_value (b # bs) = uint b * 256 ^ length bs + bytes_value bs"

definition randomFieldElement31 :: "bytes \<Rightarrow> int" where
  "randomFieldElement31 drawn = js_mod (bytes_value drawn) BN254_FIELD_MODULUS"

record bn254_coin =
  co_value :: int
  co_assetId :: int
  co_label :: int
  co_nullifier :: int
  co_secret :: int
  co_commitment :: int
  co_nullifierHash :: int

text \<open>The three draws are made in the order nullifier, secret, label (the last only without a label).\<close>

definition generateCoinBn254 :: "poseidon \<Rightarrow> bytes \<Rightarrow> bytes \<Rightarrow> bytes \<Rightarrow> int \<Rightarrow> int \<Rightarrow> int option \<Rightarrow> bn254_coin" where
  "generateCoinBn254 pos d1 d2 d3 value assetId label =
    (let nullifier = randomFieldElement31 d1; secret = randomFieldElement31 d2;
         lbl = (case label of Some l \<Rightarrow> l | None \<Rightarrow> randomFieldElement31 d3);
         parts = commitmentHasher pos assetId value lbl nullifier secret in
     \<lparr> co_value = value, co_assetId = assetId, co_label = lbl, co_nullifier = nullifier, co_secret = secret,
       co_commitment = cp_commitment parts, co_nullifierHash = cp_nullifierHash parts \<rparr>)"

text \<open>The coin invariant: the commitment and the nullifier hash open to the coin's own fields.\<close>

definition coin_ok :: "poseidon \<Rightarrow> bn254_coin \<Rightarrow> bool" where
  "coin_ok pos c \<longleftrightarrow>
    (let parts = commitmentHasher pos (co_assetId c) (co_value c) (co_label c) (co_nullifier c) (co_secret c) in
     co_commitment c = cp_commitment parts \<and> co_nullifierHash c = cp_nullifierHash parts)"

lemma generateCoin_ok [simp]: "coin_ok pos (generateCoinBn254 pos d1 d2 d3 v a l)"
  by (simp add: coin_ok_def generateCoinBn254_def Let_def)

lemma generateCoin_fields [simp]:
  "co_value (generateCoinBn254 pos d1 d2 d3 v a l) = v"
  "co_assetId (generateCoinBn254 pos d1 d2 d3 v a l) = a"
  by (simp_all add: generateCoinBn254_def Let_def)

lemma coin_commitment:
  "coin_ok pos c \<Longrightarrow> co_commitment c =
     pos [pos [co_assetId c, co_value c, co_label c], pos [co_nullifier c, co_secret c]]"
  by (simp add: coin_ok_def commitmentHasher_def poseidonHash_def Let_def)

lemma bytes_value_bounds: "0 \<le> bytes_value bs \<and> bytes_value bs < 256 ^ length bs"
proof (induction bs)
  case (Cons b bs)
  have b: "0 \<le> uint b" "uint b \<le> 255" using uint_lt2p [of b] by simp_all
  then have "uint b * 256 ^ length bs \<le> 255 * 256 ^ length bs" by (intro mult_right_mono) simp_all
  moreover have "(256 :: int) ^ length (b # bs) = 255 * 256 ^ length bs + 256 ^ length bs" by simp
  ultimately have "bytes_value (b # bs) < 256 ^ length (b # bs)" using Cons unfolding bytes_value.simps by linarith
  with Cons b(1) show ?case by simp
qed simp

text \<open>31 bytes stay below the modulus, so the reduction changes nothing: the draw is uniform on 248 bits.\<close>

lemma randomFieldElement31_exact:
  assumes "length drawn = 31"
  shows "randomFieldElement31 drawn = bytes_value drawn" "0 \<le> randomFieldElement31 drawn"
    "randomFieldElement31 drawn < BN254_FIELD_MODULUS"
proof -
  have b: "0 \<le> bytes_value drawn" "bytes_value drawn < 256 ^ 31"
    using bytes_value_bounds [of drawn] assms by simp_all
  then have "bytes_value drawn < BN254_FIELD_MODULUS"
    by (simp add: BN254_FIELD_MODULUS_def)
  with b show "randomFieldElement31 drawn = bytes_value drawn" "0 \<le> randomFieldElement31 drawn"
    "randomFieldElement31 drawn < BN254_FIELD_MODULUS"
    by (simp_all add: randomFieldElement31_def BN254_FIELD_MODULUS_def)
qed


section \<open>The tree of merkle.ts\<close>

datatype merkle_error = TooManyLeaves nat int | InvalidArrayLength | LeafIndexOutOfRange int

record merkle_tree =
  mt_depth :: nat
  mt_levels :: "int list list"
  mt_root :: int

text \<open>\<open>1 << depth\<close> on 32-bit numbers: the shift count is taken modulo 32, bit 31 is the sign.\<close>

definition js_capacity :: "nat \<Rightarrow> int" where
  "js_capacity depth = (if depth mod 32 = 31 then - (2 ^ 31) else 2 ^ (depth mod 32))"

fun pair_up :: "(int \<Rightarrow> int \<Rightarrow> int) \<Rightarrow> int list \<Rightarrow> int list" where
  "pair_up h (a # b # xs) = h a b # pair_up h xs"
| "pair_up h _ = []"

text \<open>\<open>new Array(cur.length / 2)\<close> is a \<open>RangeError\<close> for an odd length.\<close>

definition next_level :: "(int \<Rightarrow> int \<Rightarrow> int) \<Rightarrow> int list \<Rightarrow> (merkle_error, int list) result" where
  "next_level h cur = (if odd (length cur) then Throw InvalidArrayLength else Ok (pair_up h cur))"

fun build_levels :: "(int \<Rightarrow> int \<Rightarrow> int) \<Rightarrow> nat \<Rightarrow> int list \<Rightarrow> (merkle_error, int list list) result" where
  "build_levels h 0 cur = Ok [cur]"
| "build_levels h (Suc n) cur =
    res_bind (next_level h cur) (\<lambda>nxt. res_bind (build_levels h n nxt) (\<lambda>ls. Ok (cur # ls)))"

definition buildMerkleTree :: "poseidon \<Rightarrow> int list \<Rightarrow> nat \<Rightarrow> (merkle_error, merkle_tree) result" where
  "buildMerkleTree pos leaves depth =
    (let capacity = js_capacity depth in
     if int (length leaves) > capacity then Throw (TooManyLeaves (length leaves) capacity)
     else let level = leaves @ replicate (nat capacity - length leaves) 0 in
       res_bind (build_levels (makeSyncHash2 pos) depth level) (\<lambda>levels.
         Ok \<lparr> mt_depth = depth, mt_levels = levels, mt_root = levels ! depth ! 0 \<rparr>))"

record merkle_proof =
  mp_leafIndex :: int
  mp_siblings :: "int list"
  mp_root :: int

unbundle bit_operations_syntax

fun sibling_loop :: "int list list \<Rightarrow> nat \<Rightarrow> int list" where
  "sibling_loop [] idx = []"
| "sibling_loop (lv # lvs) idx = lv ! (idx XOR 1) # sibling_loop lvs (drop_bit 1 idx)"

definition getMerkleProof :: "merkle_tree \<Rightarrow> int \<Rightarrow> (merkle_error, merkle_proof) result" where
  "getMerkleProof tree leafIndex =
    (if leafIndex < 0 \<or> leafIndex \<ge> js_capacity (mt_depth tree) then Throw (LeafIndexOutOfRange leafIndex)
     else Ok \<lparr> mp_leafIndex = leafIndex,
               mp_siblings = sibling_loop (take (mt_depth tree) (mt_levels tree)) (nat leafIndex),
               mp_root = mt_root tree \<rparr>)"

fun computeZeros :: "poseidon \<Rightarrow> nat \<Rightarrow> int list" where
  "computeZeros pos 0 = [0]"
| "computeZeros pos (Suc n) = (let zs = computeZeros pos n in zs @ [poseidonHash pos [last zs, last zs]])"


section \<open>The inclusion check of the circuits\<close>

text \<open>
  \<open>MerkleProof(depth)\<close>: the bits of the index choose the order of each pair. \<open>Num2Bits(depth)\<close> has a
  solution exactly for an index below \<open>2 ^ depth\<close>.
\<close>

fun path_root :: "(int \<Rightarrow> int \<Rightarrow> int) \<Rightarrow> int \<Rightarrow> nat \<Rightarrow> int list \<Rightarrow> int" where
  "path_root h node idx [] = node"
| "path_root h node idx (s # ss) = path_root h (if even idx then h node s else h s node) (idx div 2) ss"

definition merkle_circuit :: "poseidon \<Rightarrow> nat \<Rightarrow> int \<Rightarrow> int \<Rightarrow> int list \<Rightarrow> int option" where
  "merkle_circuit pos depth leaf idx siblings =
    (if 0 \<le> idx \<and> idx < 2 ^ depth \<and> length siblings = depth
     then Some (path_root (makeSyncHash2 pos) leaf (nat idx) siblings) else None)"


section \<open>The frontier tree of the contract\<close>

record frontier =
  fr_levels :: nat
  fr_filled :: "nat \<Rightarrow> int"
  fr_zeros :: "nat \<Rightarrow> int"
  fr_next :: nat
  fr_roots :: "nat \<Rightarrow> int"
  fr_current :: nat
  fr_known :: "int \<Rightarrow> bool"

datatype frontier_error = BadLevels | LeafNotInField | MerkleTreeFull

definition ROOT_HISTORY_SIZE :: nat where
  "ROOT_HISTORY_SIZE = 30"

fun zero_loop :: "(int \<Rightarrow> int \<Rightarrow> int) \<Rightarrow> nat list \<Rightarrow> int \<Rightarrow> (nat \<Rightarrow> int) \<Rightarrow> int \<times> (nat \<Rightarrow> int)" where
  "zero_loop h [] current zs = (current, zs)"
| "zero_loop h (i # is) current zs = zero_loop h is (h current current) (zs (i := h current current))"

definition new_frontier :: "poseidon \<Rightarrow> nat \<Rightarrow> (frontier_error, frontier) result" where
  "new_frontier pos levels =
    (if \<not> (0 < levels \<and> levels < 32) then Throw BadLevels
     else let h = makeSyncHash2 pos; (current, zs) = zero_loop h [1..<levels] 0 (\<lambda>_. 0);
              initialRoot = h current current in
       Ok \<lparr> fr_levels = levels, fr_filled = zs, fr_zeros = zs, fr_next = 0,
            fr_roots = (\<lambda>_. 0) (0 := initialRoot), fr_current = 0, fr_known = (\<lambda>_. False) (initialRoot := True) \<rparr>)"

fun insert_loop :: "(int \<Rightarrow> int \<Rightarrow> int) \<Rightarrow> (nat \<Rightarrow> int) \<Rightarrow> nat list \<Rightarrow> nat \<Rightarrow> int \<Rightarrow> (nat \<Rightarrow> int) \<Rightarrow> int \<times> (nat \<Rightarrow> int)" where
  "insert_loop h zs [] currentIndex currentHash filled = (currentHash, filled)"
| "insert_loop h zs (i # is) currentIndex currentHash filled =
    (if currentIndex mod 2 = 0
     then insert_loop h zs is (currentIndex div 2) (h currentHash (zs i)) (filled (i := currentHash))
     else insert_loop h zs is (currentIndex div 2) (h (filled i) currentHash) filled)"

definition frontier_insert :: "poseidon \<Rightarrow> int \<Rightarrow> frontier \<Rightarrow> (frontier_error, nat \<times> frontier) result" where
  "frontier_insert pos leaf t =
    (if \<not> leaf < BN254_FIELD_MODULUS then Throw LeafNotInField
     else if fr_next t = 2 ^ fr_levels t then Throw MerkleTreeFull
     else let (root, filled) = insert_loop (makeSyncHash2 pos) (fr_zeros t) [0..<fr_levels t] (fr_next t) leaf (fr_filled t);
              newRootIndex = (fr_current t + 1) mod ROOT_HISTORY_SIZE in
       Ok (fr_next t, t \<lparr> fr_filled := filled, fr_current := newRootIndex,
             fr_roots := (fr_roots t) (newRootIndex := root), fr_known := (fr_known t) (root := True),
             fr_next := fr_next t + 1 \<rparr>))"

definition getRoot :: "frontier \<Rightarrow> int" where
  "getRoot t = fr_roots t (fr_current t)"

definition isKnownRoot :: "frontier \<Rightarrow> int \<Rightarrow> bool" where
  "isKnownRoot t root = (if root = 0 then False else fr_known t root)"

fun insert_all :: "poseidon \<Rightarrow> int list \<Rightarrow> frontier \<Rightarrow> (frontier_error, frontier) result" where
  "insert_all pos [] t = Ok t"
| "insert_all pos (x # xs) t = res_bind (frontier_insert pos x t) (\<lambda>(_, t'). insert_all pos xs t')"


section \<open>The reference tree\<close>

text \<open>The value of node \<open>k\<close> at level \<open>d\<close> over a leaf assignment: the specification both trees meet.\<close>

fun node_at :: "(int \<Rightarrow> int \<Rightarrow> int) \<Rightarrow> (nat \<Rightarrow> int) \<Rightarrow> nat \<Rightarrow> nat \<Rightarrow> int" where
  "node_at h f 0 k = f k"
| "node_at h f (Suc d) k = h (node_at h f d (2 * k)) (node_at h f d (2 * k + 1))"

definition leaf_fun :: "int list \<Rightarrow> nat \<Rightarrow> int" where
  "leaf_fun xs i = (if i < length xs then xs ! i else 0)"

lemma node_at_cong:
  "(\<And>i. k * 2 ^ d \<le> i \<Longrightarrow> i < (k + 1) * 2 ^ d \<Longrightarrow> f i = g i) \<Longrightarrow> node_at h f d k = node_at h g d k"
proof (induction d arbitrary: k)
  case (Suc d)
  have "node_at h f d (2 * k) = node_at h g d (2 * k)"
    by (rule Suc.IH, rule Suc.prems) (auto simp: algebra_simps intro: le_trans less_le_trans)
  moreover have "node_at h f d (2 * k + 1) = node_at h g d (2 * k + 1)"
    by (rule Suc.IH, rule Suc.prems) (auto simp: algebra_simps intro: le_trans less_le_trans)
  ultimately show ?case by simp
qed simp

lemma pair_up_length: "even (length xs) \<Longrightarrow> length (pair_up h xs) = length xs div 2"
  by (induction h xs rule: pair_up.induct) simp_all

lemma pair_up_nth: "even (length xs) \<Longrightarrow> k < length xs div 2 \<Longrightarrow> pair_up h xs ! k = h (xs ! (2 * k)) (xs ! (2 * k + 1))"
proof (induction h xs arbitrary: k rule: pair_up.induct)
  case (1 h a b xs)
  then show ?case by (cases k) auto
qed simp_all

lemma build_levels_ok:
  assumes "length xs = 2 ^ n"
  shows "\<exists>ls. build_levels h n xs = Ok ls \<and> length ls = Suc n \<and>
    (\<forall>d\<le>n. length (ls ! d) = 2 ^ (n - d) \<and> (\<forall>k<2 ^ (n - d). ls ! d ! k = node_at h ((!) xs) d k))"
  using assms
proof (induction n arbitrary: xs)
  case (Suc n)
  let ?ys = "pair_up h xs"
  have ev: "even (length xs)" "length xs div 2 = 2 ^ n" using Suc.prems by simp_all
  have len: "length ?ys = 2 ^ n" using ev by (simp add: pair_up_length)
  from Suc.IH [OF len] obtain ls where ls: "build_levels h n ?ys = Ok ls" "length ls = Suc n"
    "\<And>d. d \<le> n \<Longrightarrow> length (ls ! d) = 2 ^ (n - d)"
    "\<And>d k. d \<le> n \<Longrightarrow> k < 2 ^ (n - d) \<Longrightarrow> ls ! d ! k = node_at h ((!) ?ys) d k" by blast
  have up: "node_at h ((!) ?ys) d k = node_at h ((!) xs) (Suc d) k" if "d \<le> n" "k < 2 ^ (n - d)" for d k
    using that
  proof (induction d arbitrary: k)
    case 0
    then show ?case using ev by (simp add: pair_up_nth)
  next
    case (Suc d)
    have "(2 :: nat) ^ (n - d) = 2 * 2 ^ (n - Suc d)" using Suc.prems(1)
      by (simp add: Suc_diff_Suc flip: power_Suc)
    then have "2 * k < 2 ^ (n - d)" "2 * k + 1 < 2 ^ (n - d)" using Suc.prems(2) by linarith+
    then have "node_at h ((!) ?ys) d (2 * k) = node_at h ((!) xs) (Suc d) (2 * k)"
      "node_at h ((!) ?ys) d (2 * k + 1) = node_at h ((!) xs) (Suc d) (2 * k + 1)"
      using Suc.prems(1) by (auto intro: Suc.IH simp del: node_at.simps)
    then show ?case by (metis node_at.simps(2))
  qed
  have "build_levels h (Suc n) xs = Ok (xs # ls)" using ev ls(1) by (simp add: next_level_def)
  moreover have "length ((xs # ls) ! d) = 2 ^ (Suc n - d) \<and>
      (\<forall>k<2 ^ (Suc n - d). (xs # ls) ! d ! k = node_at h ((!) xs) d k)" if "d \<le> Suc n" for d
  proof (cases d)
    case 0
    then show ?thesis using Suc.prems by simp
  next
    case (Suc d')
    then show ?thesis using that ls(3,4) up by (simp del: node_at.simps)
  qed
  ultimately show ?case using ls(2) by auto
qed simp


section \<open>Trees and paths\<close>

abbreviation tree_hash :: "poseidon \<Rightarrow> int \<Rightarrow> int \<Rightarrow> int" where
  "tree_hash pos \<equiv> makeSyncHash2 pos"

lemma js_capacity_small [simp]: "depth < 31 \<Longrightarrow> js_capacity depth = 2 ^ depth"
  by (simp add: js_capacity_def)

lemma padded_leaf_fun:
  "k < length xs + n \<Longrightarrow> (xs @ replicate n 0) ! k = leaf_fun xs k"
  by (simp add: leaf_fun_def nth_append)

definition is_tree_of :: "poseidon \<Rightarrow> int list \<Rightarrow> nat \<Rightarrow> merkle_tree \<Rightarrow> bool" where
  "is_tree_of pos leaves depth t \<longleftrightarrow>
    mt_depth t = depth \<and> length (mt_levels t) = Suc depth \<and>
    (\<forall>d\<le>depth. length (mt_levels t ! d) = 2 ^ (depth - d) \<and>
      (\<forall>k<2 ^ (depth - d). mt_levels t ! d ! k = node_at (tree_hash pos) (leaf_fun leaves) d k)) \<and>
    mt_root t = node_at (tree_hash pos) (leaf_fun leaves) depth 0"

lemma buildMerkleTree_ok:
  assumes "depth < 31" "length leaves \<le> 2 ^ depth"
  shows "\<exists>t. buildMerkleTree pos leaves depth = Ok t \<and> is_tree_of pos leaves depth t"
proof -
  let ?xs = "leaves @ replicate (2 ^ depth - length leaves) 0"
  let ?h = "tree_hash pos"
  have len: "length ?xs = 2 ^ depth" using assms(2) by simp
  obtain ls where ls: "build_levels ?h depth ?xs = Ok ls" "length ls = Suc depth"
    "\<And>d. d \<le> depth \<Longrightarrow> length (ls ! d) = 2 ^ (depth - d)"
    "\<And>d k. d \<le> depth \<Longrightarrow> k < 2 ^ (depth - d) \<Longrightarrow> ls ! d ! k = node_at ?h ((!) ?xs) d k"
    using build_levels_ok [OF len, of ?h] by blast
  have node: "node_at ?h ((!) ?xs) d k = node_at ?h (leaf_fun leaves) d k" if "d \<le> depth" "k < 2 ^ (depth - d)" for d k
  proof (rule node_at_cong)
    fix i assume "i < (k + 1) * 2 ^ d"
    moreover have "(k + 1) * 2 ^ d \<le> 2 ^ (depth - d) * 2 ^ d" using that(2) by (intro mult_right_mono) simp_all
    moreover have "(2 :: nat) ^ (depth - d) * 2 ^ d = 2 ^ depth" using that(1) by (simp flip: power_add)
    ultimately have "i < length leaves + (2 ^ depth - length leaves)" using assms(2) by linarith
    then show "?xs ! i = leaf_fun leaves i" by (rule padded_leaf_fun)
  qed
  let ?t = "\<lparr> mt_depth = depth, mt_levels = ls, mt_root = ls ! depth ! 0 \<rparr>"
  have "buildMerkleTree pos leaves depth = Ok ?t"
    using assms ls(1) by (simp add: buildMerkleTree_def Let_def nat_power_eq)
  moreover have "is_tree_of pos leaves depth ?t"
    using ls(2-4) node by (auto simp: is_tree_of_def)
  ultimately show ?thesis by blast
qed

lemma sibling_loop_nth:
  "d < length lvs \<Longrightarrow> sibling_loop lvs i ! d = lvs ! d ! ((i div 2 ^ d) XOR 1)"
  by (induction lvs arbitrary: i d) (auto simp: nth_Cons' drop_bit_eq_div div_mult2_eq [symmetric] power_Suc [symmetric] simp del: power_Suc split: nat.split)

lemma sibling_loop_length [simp]: "length (sibling_loop lvs i) = length lvs"
  by (induction lvs arbitrary: i) simp_all

lemma xor_one: "j XOR Suc 0 = (if even j then j + 1 else j - 1)"
  by (simp add: xor_Suc_0_eq)

lemma xor_one_less: "j < n \<Longrightarrow> even n \<Longrightarrow> j XOR Suc 0 < n"
  by (auto simp: xor_one intro: Suc_lessI)

lemma path_root_of_siblings:
  assumes "\<And>e. e < length ss \<Longrightarrow> ss ! e = node_at h f (d + e) ((j div 2 ^ e) XOR 1)"
  shows "path_root h (node_at h f d j) j ss = node_at h f (d + length ss) (j div 2 ^ length ss)"
  using assms
proof (induction ss arbitrary: d j)
  case (Cons s ss)
  have s: "s = node_at h f d (j XOR 1)" using Cons.prems [of 0] by simp
  have step: "(if even j then h (node_at h f d j) s else h s (node_at h f d j)) = node_at h f (Suc d) (j div 2)"
    using s by (auto simp: xor_one elim!: oddE)
  have "ss ! e = node_at h f (Suc d + e) ((j div 2 div 2 ^ e) XOR 1)" if "e < length ss" for e
    using Cons.prems [of "Suc e"] that by (simp add: div_mult2_eq)
  from Cons.IH [OF this] show ?case
    by (simp only: path_root.simps step) (simp add: div_mult2_eq)
qed simp

lemma merkle_path_ok:
  assumes "is_tree_of pos leaves depth t" "depth < 31" "i < 2 ^ depth"
  shows "\<exists>pr. getMerkleProof t (int i) = Ok pr \<and> mp_root pr = mt_root t \<and> length (mp_siblings pr) = depth \<and>
    merkle_circuit pos depth (leaf_fun leaves i) (int i) (mp_siblings pr) = Some (mt_root t)"
proof -
  let ?ss = "sibling_loop (take depth (mt_levels t)) i"
  have len: "length (mt_levels t) = Suc depth" "mt_depth t = depth"
    and root: "mt_root t = node_at (tree_hash pos) (leaf_fun leaves) depth 0"
    using assms(1) by (simp_all add: is_tree_of_def)
  have "?ss ! e = node_at (tree_hash pos) (leaf_fun leaves) (0 + e) ((i div 2 ^ e) XOR 1)" if "e < length ?ss" for e
  proof -
    have e: "e < depth" using that len by simp
    then have pw: "(2 :: nat) ^ depth = 2 ^ (depth - e) * 2 ^ e" by (simp flip: power_add)
    have "i div 2 ^ e < 2 ^ (depth - e)" using assms(3) unfolding pw by (simp add: less_mult_imp_div_less)
    moreover have "even ((2 :: nat) ^ (depth - e))" using e by simp
    ultimately have "(i div 2 ^ e) XOR 1 < 2 ^ (depth - e)" by (simp only: One_nat_def xor_one_less)
    then show ?thesis using assms(1) e that len by (simp add: sibling_loop_nth is_tree_of_def)
  qed
  from path_root_of_siblings [OF this] have "path_root (tree_hash pos) (leaf_fun leaves i) i ?ss = mt_root t"
    using assms(3) len root by simp
  moreover have "int i < 2 ^ depth" using assms(3) by (metis of_nat_less_iff of_nat_numeral of_nat_power)
  ultimately show ?thesis
    using assms(2) len by (simp add: getMerkleProof_def merkle_circuit_def)
qed

text \<open>
  The pairs hashed on the way up a path, lowest first. Two paths from one index collide when on some level they hash two
  different pairs to the same value: a collision of the hash between these two paths, not just anywhere in its domain. Two paths
  to one root are the same path or collide.
\<close>

fun path_pairs :: "(int \<Rightarrow> int \<Rightarrow> int) \<Rightarrow> nat \<Rightarrow> int \<Rightarrow> int list \<Rightarrow> (int \<times> int) list" where
  "path_pairs h idx node [] = []"
| "path_pairs h idx node (s # ss) =
    (let (l, r) = (if even idx then (node, s) else (s, node)) in (l, r) # path_pairs h (idx div 2) (h l r) ss)"

definition paths_collide :: "(int \<Rightarrow> int \<Rightarrow> int) \<Rightarrow> nat \<Rightarrow> int \<Rightarrow> int list \<Rightarrow> int \<Rightarrow> int list \<Rightarrow> bool" where
  "paths_collide h idx x ss y ts \<longleftrightarrow>
    list_ex (\<lambda>((a, b), (c, d)). (a, b) \<noteq> (c, d) \<and> h a b = h c d) (zip (path_pairs h idx x ss) (path_pairs h idx y ts))"

lemma path_root_binding:
  "length ss = length ts \<Longrightarrow> path_root h x i ss = path_root h y i ts \<Longrightarrow> x = y \<and> ss = ts \<or> paths_collide h i x ss y ts"
proof (induction ss arbitrary: x y i ts)
  case (Cons s ss)
  then obtain u us where ts: "ts = u # us" "length ss = length us" by (cases ts) auto
  let ?l = "\<lambda>z w. if even i then h z w else h w z"
  have "?l x s = ?l y u \<and> ss = us \<or> paths_collide h (i div 2) (?l x s) ss (?l y u) us"
    using Cons.IH [OF ts(2), of "?l x s" "i div 2" "?l y u"] Cons.prems(2) ts(1) by simp
  then show ?case by (cases "even i") (auto simp: ts(1) paths_collide_def)
qed simp

text \<open>The siblings a tree over the leaf assignment \<open>f\<close> has on the path of an index.\<close>

definition tree_siblings :: "(int \<Rightarrow> int \<Rightarrow> int) \<Rightarrow> (nat \<Rightarrow> int) \<Rightarrow> nat \<Rightarrow> nat \<Rightarrow> int list" where
  "tree_siblings h f depth i = map (\<lambda>e. node_at h f e ((i div 2 ^ e) XOR 1)) [0..<depth]"

lemma tree_path_binding:
  assumes "path_root h x i ss = node_at h f depth 0" "length ss = depth" "i < 2 ^ depth"
  shows "x = f i \<and> ss = tree_siblings h f depth i \<or> paths_collide h i x ss (f i) (tree_siblings h f depth i)"
proof -
  let ?ts = "tree_siblings h f depth i"
  have "path_root h (node_at h f 0 i) i ?ts = node_at h f (0 + length ?ts) (i div 2 ^ length ?ts)"
    by (rule path_root_of_siblings) (simp add: tree_siblings_def)
  then have "path_root h x i ss = path_root h (f i) i ?ts" using assms by (simp add: tree_siblings_def)
  then show ?thesis by (rule path_root_binding [rotated]) (simp add: assms(2) tree_siblings_def)
qed


section \<open>The contract's frontier\<close>

text \<open>What the contract's storage means after the leaves \<open>xs\<close>.\<close>

definition frontier_of :: "poseidon \<Rightarrow> int list \<Rightarrow> frontier \<Rightarrow> bool" where
  "frontier_of pos xs t \<longleftrightarrow>
    0 < fr_levels t \<and> fr_levels t < 32 \<and> fr_next t = length xs \<and> length xs \<le> 2 ^ fr_levels t \<and>
    (\<forall>i<fr_levels t. fr_zeros t i = node_at (tree_hash pos) (\<lambda>_. 0) i 0) \<and>
    (\<forall>i<fr_levels t. odd (length xs div 2 ^ i) \<longrightarrow>
       fr_filled t i = node_at (tree_hash pos) (leaf_fun xs) i (length xs div 2 ^ i - 1)) \<and>
    getRoot t = node_at (tree_hash pos) (leaf_fun xs) (fr_levels t) 0 \<and>
    (\<forall>n\<le>length xs. fr_known t (node_at (tree_hash pos) (leaf_fun (take n xs)) (fr_levels t) 0))"

lemma node_at_zero: "node_at h (\<lambda>_. 0) d k = node_at h (\<lambda>_. 0) d 0"
proof (induction d arbitrary: k)
  case (Suc d)
  have "node_at h (\<lambda>_. 0) d (2 * k) = node_at h (\<lambda>_. 0) d 0" "node_at h (\<lambda>_. 0) d (2 * k + 1) = node_at h (\<lambda>_. 0) d 0"
    "node_at h (\<lambda>_. 0) d 1 = node_at h (\<lambda>_. 0) d 0" by (rule Suc.IH)+
  then show ?case by simp
qed simp

lemma zero_loop_eq:
  assumes "n \<le> m" "current = node_at h (\<lambda>_. 0) n 0" "\<And>i. i \<le> n \<Longrightarrow> zs i = node_at h (\<lambda>_. 0) i 0"
    "zero_loop h [Suc n..<Suc m] current zs = (c, zs')"
  shows "c = node_at h (\<lambda>_. 0) m 0 \<and> (\<forall>i\<le>m. zs' i = node_at h (\<lambda>_. 0) i 0)"
  using assms
proof (induction "m - n" arbitrary: n current zs)
  case 0
  then have "n = m" by simp
  then show ?case using 0 by auto
next
  case (Suc j)
  let ?c = "h current current"
  have c: "?c = node_at h (\<lambda>_. 0) (Suc n) 0"
    using Suc.prems(2) node_at_zero [of h n 1] by simp
  have up: "[Suc n..<Suc m] = Suc n # [Suc (Suc n)..<Suc m]" using Suc.hyps(2) by (simp add: upt_rec)
  show ?case
  proof (rule Suc.hyps(1))
    show "j = m - Suc n" "Suc n \<le> m" using Suc.hyps(2) by simp_all
    show "?c = node_at h (\<lambda>_. 0) (Suc n) 0" by (rule c)
    show "(zs (Suc n := ?c)) i = node_at h (\<lambda>_. 0) i 0" if "i \<le> Suc n" for i
      using that c Suc.prems(3) by (cases "i = Suc n") auto
    show "zero_loop h [Suc (Suc n)..<Suc m] ?c (zs (Suc n := ?c)) = (c, zs')"
      using Suc.prems(4) unfolding up by simp
  qed
qed

text \<open>\<open>computeZeros\<close> lists the roots of the empty subtrees.\<close>

lemma computeZeros_nodes: "computeZeros pos n = map (\<lambda>d. node_at (tree_hash pos) (\<lambda>_. 0) d 0) [0..<Suc n]"
proof (induction n)
  case (Suc n)
  have "node_at (tree_hash pos) (\<lambda>_. 0) n 1 = node_at (tree_hash pos) (\<lambda>_. 0) n 0" by (rule node_at_zero)
  moreover have "poseidonHash pos [a, b] = tree_hash pos a b" for a b
    by (simp add: poseidonHash_def makeSyncHash2_def)
  ultimately show ?case using Suc by (simp add: Let_def)
qed simp

lemma empty_tree_root:
  assumes "depth < 31" "buildMerkleTree pos [] depth = Ok t"
  shows "mt_root t = last (computeZeros pos depth)"
proof -
  have "leaf_fun [] = (\<lambda>_. 0)" by (simp add: fun_eq_iff leaf_fun_def)
  then show ?thesis using buildMerkleTree_ok [OF assms(1), of "[]" pos] assms(2)
    by (auto simp: is_tree_of_def computeZeros_nodes)
qed

lemma new_frontier_of:
  assumes "0 < levels" "levels < 32"
  shows "\<exists>t. new_frontier pos levels = Ok t \<and> frontier_of pos [] t \<and> fr_levels t = levels"
proof -
  let ?h = "tree_hash pos"
  obtain m where m: "levels = Suc m" using assms(1) by (cases levels) auto
  obtain c zs where l: "zero_loop ?h [1..<levels] 0 (\<lambda>_. 0) = (c, zs)" by fastforce
  have l': "zero_loop ?h [Suc 0..<Suc m] 0 (\<lambda>_. 0) = (c, zs)" using l m by simp
  have z: "c = node_at ?h (\<lambda>_. 0) m 0 \<and> (\<forall>i\<le>m. zs i = node_at ?h (\<lambda>_. 0) i 0)"
    by (rule zero_loop_eq [OF _ _ _ l']) simp_all
  have "leaf_fun [] = (\<lambda>_. 0)" by (simp add: fun_eq_iff leaf_fun_def)
  moreover have "node_at ?h (\<lambda>_. 0) m 1 = node_at ?h (\<lambda>_. 0) m 0" by (rule node_at_zero)
  ultimately show ?thesis using assms l m z
    by (auto simp: new_frontier_def frontier_of_def getRoot_def Let_def)
qed

text \<open>
  The insertion loop from level \<open>i\<close> on: the running hash is the node above the new leaf, and a frontier
  entry changes exactly where the running index is even.
\<close>

lemma insert_loop_eq:
  assumes "i \<le> n" "cur = node_at h g i (q div 2 ^ i)"
    "\<And>j. i \<le> j \<Longrightarrow> j < n \<Longrightarrow> even (q div 2 ^ j) \<Longrightarrow> zs j = node_at h g j (q div 2 ^ j + 1)"
    "\<And>j. i \<le> j \<Longrightarrow> j < n \<Longrightarrow> odd (q div 2 ^ j) \<Longrightarrow> filled j = node_at h g j (q div 2 ^ j - 1)"
    "insert_loop h zs [i..<n] (q div 2 ^ i) cur filled = (root, filled')"
  shows "root = node_at h g n (q div 2 ^ n) \<and>
    (\<forall>j. filled' j = (if i \<le> j \<and> j < n \<and> even (q div 2 ^ j) then node_at h g j (q div 2 ^ j) else filled j))"
  using assms
proof (induction "n - i" arbitrary: i cur filled)
  case 0
  then show ?case by auto
next
  case (Suc k)
  let ?q = "q div 2 ^ i"
  have i: "i < n" "k = n - Suc i" "Suc i \<le> n" using Suc.hyps(2) by simp_all
  have up: "[i..<n] = i # [Suc i..<n]" using i(1) by (simp add: upt_conv_Cons)
  have half: "?q div 2 = q div 2 ^ Suc i" by (metis div_mult2_eq power_Suc2)
  let ?cur = "if even ?q then h cur (zs i) else h (filled i) cur"
  let ?filled = "if even ?q then filled (i := cur) else filled"
  have cur: "?cur = node_at h g (Suc i) (q div 2 ^ Suc i)"
    using Suc.prems(2) Suc.prems(3) [of i] Suc.prems(4) [of i] i(1) half [symmetric]
    by (auto elim!: oddE evenE simp del: power_Suc)
  have "insert_loop h zs [Suc i..<n] (q div 2 ^ Suc i) ?cur ?filled = (root, filled')"
    using Suc.prems(5) unfolding up half [symmetric] by (auto simp: even_iff_mod_2_eq_zero odd_iff_mod_2_eq_one)
  from Suc.hyps(1) [OF i(2,3) cur _ _ this]
  have "root = node_at h g n (q div 2 ^ n) \<and>
    (\<forall>j. filled' j = (if Suc i \<le> j \<and> j < n \<and> even (q div 2 ^ j) then node_at h g j (q div 2 ^ j) else ?filled j))"
    using Suc.prems(3,4) by (auto simp: Suc_le_eq)
  then show ?case using Suc.prems(2) i(1) by (auto simp: Suc_le_eq le_less)
qed


lemma leaf_fun_append: "leaf_fun (xs @ [x]) = (leaf_fun xs) (length xs := x)"
  by (auto simp: leaf_fun_def nth_append fun_eq_iff)

lemma node_at_beyond:
  assumes "length xs \<le> k * 2 ^ d"
  shows "node_at h (leaf_fun xs) d k = node_at h (\<lambda>_. 0) d 0"
proof -
  have "node_at h (leaf_fun xs) d k = node_at h (\<lambda>_. 0) d k"
    by (rule node_at_cong) (use assms in \<open>simp add: leaf_fun_def\<close>)
  then show ?thesis by (simp only: node_at_zero [of h d k])
qed

lemma node_at_before:
  assumes "(k + 1) * 2 ^ d \<le> length xs"
  shows "node_at h (leaf_fun (xs @ [x])) d k = node_at h (leaf_fun xs) d k"
  by (rule node_at_cong) (use assms in \<open>simp add: leaf_fun_append\<close>)

lemma frontier_insert_of:
  assumes t: "frontier_of pos xs t" and x: "x < BN254_FIELD_MODULUS" and room: "length xs < 2 ^ fr_levels t"
  shows "\<exists>t'. frontier_insert pos x t = Ok (length xs, t') \<and> frontier_of pos (xs @ [x]) t' \<and> fr_levels t' = fr_levels t"
proof -
  let ?h = "tree_hash pos" and ?q = "length xs" and ?n = "fr_levels t"
  let ?g = "leaf_fun (xs @ [x])"
  obtain root filled' where l: "insert_loop ?h (fr_zeros t) [0..<?n] (?q div 2 ^ 0) x (fr_filled t) = (root, filled')"
    by fastforce
  have odd_before: "node_at ?h ?g j (?q div 2 ^ j - 1) = node_at ?h (leaf_fun xs) j (?q div 2 ^ j - 1)" if "odd (?q div 2 ^ j)" for j
  proof (rule node_at_before)
    have "?q div 2 ^ j - 1 + 1 = ?q div 2 ^ j" using that by (metis le_add_diff_inverse2 odd_pos Suc_leI One_nat_def)
    then show "(?q div 2 ^ j - 1 + 1) * 2 ^ j \<le> ?q" by (simp add: div_times_less_eq_dividend)
  qed
  have zero: "fr_zeros t j = node_at ?h ?g j (?q div 2 ^ j + 1)" if "j < ?n" for j
  proof -
    have "?q < (?q div 2 ^ j + 1) * 2 ^ j" using dividend_less_div_times [of "2 ^ j" ?q] by simp
    then have "node_at ?h ?g j (?q div 2 ^ j + 1) = node_at ?h (\<lambda>_. 0) j 0" by (intro node_at_beyond) simp
    then show ?thesis using t that by (simp add: frontier_of_def)
  qed
  have res: "root = node_at ?h ?g ?n (?q div 2 ^ ?n) \<and>
    (\<forall>j. filled' j = (if 0 \<le> j \<and> j < ?n \<and> even (?q div 2 ^ j) then node_at ?h ?g j (?q div 2 ^ j) else fr_filled t j))"
    by (rule insert_loop_eq [OF _ _ _ _ l]) (use t zero odd_before in \<open>simp_all add: frontier_of_def leaf_fun_append\<close>)
  then have root: "root = node_at ?h ?g ?n 0" using room by simp
  have filled: "filled' j = node_at ?h ?g j ((?q + 1) div 2 ^ j - 1)" if "j < ?n" "odd ((?q + 1) div 2 ^ j)" for j
  proof -
    have "(?q + 1) div 2 ^ j = (if (?q + 1) mod 2 ^ j = 0 then ?q div 2 ^ j + 1 else ?q div 2 ^ j)"
      by (simp add: div_Suc)
    then show ?thesis using that res t odd_before by (auto simp: frontier_of_def split: if_splits)
  qed
  have known: "take n (xs @ [x]) = (if n \<le> ?q then take n xs else xs @ [x])" if "n \<le> Suc ?q" for n using that by simp
  let ?i = "(fr_current t + 1) mod ROOT_HISTORY_SIZE"
  let ?t = "t \<lparr> fr_filled := filled', fr_current := ?i, fr_roots := (fr_roots t) (?i := root),
             fr_known := (fr_known t) (root := True), fr_next := fr_next t + 1 \<rparr>"
  have "frontier_insert pos x t = Ok (?q, ?t)"
    using t x room l by (simp add: frontier_insert_def frontier_of_def Let_def)
  moreover have "frontier_of pos (xs @ [x]) ?t"
    using t room root filled known unfolding frontier_of_def getRoot_def by (auto simp: Suc_le_eq)
  ultimately show ?thesis by simp
qed

lemma insert_all_of:
  assumes "frontier_of pos xs t" "\<forall>y\<in>set ys. y < BN254_FIELD_MODULUS" "length xs + length ys \<le> 2 ^ fr_levels t"
  shows "\<exists>t'. insert_all pos ys t = Ok t' \<and> frontier_of pos (xs @ ys) t' \<and> fr_levels t' = fr_levels t"
  using assms
proof (induction ys arbitrary: xs t)
  case (Cons y ys)
  obtain t1 where t1: "frontier_insert pos y t = Ok (length xs, t1)" "frontier_of pos (xs @ [y]) t1" "fr_levels t1 = fr_levels t"
    using frontier_insert_of [OF Cons.prems(1)] Cons.prems(2,3) by auto
  from Cons.IH [OF t1(2)] t1 Cons.prems(2,3) show ?case by auto
qed simp


lemma getMerkleProof_siblings:
  assumes t: "is_tree_of pos leaves depth t" and depth: "depth < 31" and pr: "getMerkleProof t (int i) = Ok pr"
  shows "mp_siblings pr = tree_siblings (tree_hash pos) (leaf_fun leaves) depth i"
proof (rule nth_equalityI)
  have len: "length (mt_levels t) = Suc depth" "mt_depth t = depth" using t by (simp_all add: is_tree_of_def)
  have i: "i < 2 ^ depth" "mp_siblings pr = sibling_loop (take depth (mt_levels t)) i"
    using pr depth len by (auto simp: getMerkleProof_def split: if_splits)
  show "length (mp_siblings pr) = length (tree_siblings (tree_hash pos) (leaf_fun leaves) depth i)"
    using len by (simp add: i tree_siblings_def)
  show "mp_siblings pr ! e = tree_siblings (tree_hash pos) (leaf_fun leaves) depth i ! e" if "e < length (mp_siblings pr)" for e
  proof -
    have e: "e < depth" using that len by (simp add: i)
    then have pw: "(2 :: nat) ^ depth = 2 ^ (depth - e) * 2 ^ e" by (simp flip: power_add)
    have "i div 2 ^ e < 2 ^ (depth - e)" using i(1) unfolding pw by (simp add: less_mult_imp_div_less)
    moreover have "even ((2 :: nat) ^ (depth - e))" using e by simp
    ultimately have "(i div 2 ^ e) XOR 1 < 2 ^ (depth - e)" by (simp only: One_nat_def xor_one_less)
    then show ?thesis using t e len by (simp add: i sibling_loop_nth is_tree_of_def tree_siblings_def)
  qed
qed

text \<open>A path the inclusion check accepts is the tree's own path, or collides with it.\<close>

lemma merkle_circuit_binding:
  assumes t: "is_tree_of pos leaves depth t" and depth: "depth < 31" and acc: "merkle_circuit pos depth x i ss = Some (mt_root t)"
  shows "\<exists>pr. getMerkleProof t i = Ok pr \<and> (x = leaf_fun leaves (nat i) \<and> ss = mp_siblings pr \<or>
    paths_collide (tree_hash pos) (nat i) x ss (leaf_fun leaves (nat i)) (mp_siblings pr))"
proof -
  have i: "0 \<le> i" "i < 2 ^ depth" "length ss = depth" "path_root (tree_hash pos) x (nat i) ss = mt_root t"
    using acc by (auto simp: merkle_circuit_def split: if_splits)
  then have n: "nat i < 2 ^ depth" by (simp add: nat_less_iff)
  from merkle_path_ok [OF t depth this] i(1) obtain pr where pr: "getMerkleProof t i = Ok pr" by auto
  have "mp_siblings pr = tree_siblings (tree_hash pos) (leaf_fun leaves) depth (nat i)"
    by (rule getMerkleProof_siblings [OF t depth]) (simp add: i(1) pr)
  moreover have "mt_root t = node_at (tree_hash pos) (leaf_fun leaves) depth 0" using t by (simp add: is_tree_of_def)
  ultimately show ?thesis using tree_path_binding [OF _ i(3) n, of "tree_hash pos" x "leaf_fun leaves"] i(4) pr by auto
qed


section \<open>Properties\<close>

text \<open>C15: for at most \<open>2 ^ depth\<close> leaves (depth below 31) the tree is built, every index has a proof of
  length \<open>depth\<close>, and the circuits' inclusion check maps the leaf stored there (0 beyond the last one) to the
  tree's root. Conversely a leaf and siblings the check accepts at an index are the stored leaf and the siblings of the tree's
  own proof, unless on some level of the two paths two different pairs have the same Poseidon hash: a collision that can
  be read off the accepted path and the tree's.\<close>

theorem merkle_paths_complete_and_binding:
  assumes "depth < 31" "length leaves \<le> 2 ^ depth"
  shows "\<exists>t. buildMerkleTree pos leaves depth = Ok t \<and>
    (\<forall>i<2 ^ depth. \<exists>pr. getMerkleProof t (int i) = Ok pr \<and> length (mp_siblings pr) = depth \<and>
       merkle_circuit pos depth (leaf_fun leaves i) (int i) (mp_siblings pr) = Some (mt_root t)) \<and>
    (\<forall>i x ss. merkle_circuit pos depth x i ss = Some (mt_root t) \<longrightarrow>
       (\<exists>pr. getMerkleProof t i = Ok pr \<and> (x = leaf_fun leaves (nat i) \<and> ss = mp_siblings pr \<or>
          paths_collide (makeSyncHash2 pos) (nat i) x ss (leaf_fun leaves (nat i)) (mp_siblings pr))))"
proof -
  obtain t where t: "buildMerkleTree pos leaves depth = Ok t" "is_tree_of pos leaves depth t"
    using buildMerkleTree_ok [OF assms] by blast
  then show ?thesis using merkle_circuit_binding [OF t(2) assms(1)] merkle_path_ok [OF t(2) assms(1)] by blast
qed

text \<open>A toy hash to run the tree on.\<close>

definition demo_poseidon :: poseidon where
  "demo_poseidon xs = foldl (\<lambda>acc x. (7 * acc + x + 1) mod 1009) 3 xs"

theorem merkle_paths_complete_and_binding_witness:
  "\<exists>t pr. buildMerkleTree demo_poseidon [11, 22, 33] 2 = Ok t \<and> getMerkleProof t 2 = Ok pr \<and>
     merkle_circuit demo_poseidon 2 33 2 (mp_siblings pr) = Some (mt_root t)"
proof -
  obtain t where t0: "buildMerkleTree demo_poseidon [11, 22, 33] 2 = Ok t"
    "\<And>i. i < 2 ^ 2 \<Longrightarrow> \<exists>pr. getMerkleProof t (int i) = Ok pr \<and> length (mp_siblings pr) = 2 \<and>
       merkle_circuit demo_poseidon 2 (leaf_fun [11, 22, 33] i) (int i) (mp_siblings pr) = Some (mt_root t)"
    using merkle_paths_complete_and_binding [of 2 "[11, 22, 33]" demo_poseidon] by auto
  from t0(2) [of 2] show ?thesis using t0(1) by (auto simp: leaf_fun_def)
qed

text \<open>The contract's frontier tree and the off-chain tree agree: inserting any field elements that fit
  one after the other never reverts, the contract's root is the root of the off-chain tree over the same
  leaves, and the roots after every earlier insertion stay known to the contract.\<close>

theorem contract_tree_refines_offchain_tree:
  assumes "0 < levels" "levels < 31" "length xs \<le> 2 ^ levels" "\<forall>x\<in>set xs. x < BN254_FIELD_MODULUS"
  shows "\<exists>t0 t tree. new_frontier pos levels = Ok t0 \<and> insert_all pos xs t0 = Ok t \<and>
    buildMerkleTree pos xs levels = Ok tree \<and> getRoot t = mt_root tree \<and> fr_next t = length xs \<and>
    (\<forall>n\<le>length xs. \<exists>past. buildMerkleTree pos (take n xs) levels = Ok past \<and> fr_known t (mt_root past))"
proof -
  obtain t0 where t0: "new_frontier pos levels = Ok t0" "frontier_of pos [] t0" "fr_levels t0 = levels"
    using new_frontier_of [of levels pos] assms(1,2) by auto
  obtain t where t: "insert_all pos xs t0 = Ok t" "frontier_of pos xs t" "fr_levels t = levels"
    using insert_all_of [OF t0(2), of xs] assms(3,4) t0(3) by auto
  have past: "\<exists>past. buildMerkleTree pos (take n xs) levels = Ok past \<and>
      mt_root past = node_at (tree_hash pos) (leaf_fun (take n xs)) levels 0" for n
    using buildMerkleTree_ok [of levels "take n xs" pos] assms(2,3) by (auto simp: is_tree_of_def min.coboundedI1)
  from past [of "length xs"] obtain tree where tree: "buildMerkleTree pos xs levels = Ok tree"
    "mt_root tree = node_at (tree_hash pos) (leaf_fun xs) levels 0" by auto
  have "\<exists>past. buildMerkleTree pos (take n xs) levels = Ok past \<and> fr_known t (mt_root past)" if "n \<le> length xs" for n
    using past [of n] t(2,3) that by (auto simp: frontier_of_def)
  then show ?thesis using t0(1) t tree by (auto simp: frontier_of_def)
qed

theorem contract_tree_refines_offchain_tree_witness:
  "\<exists>t0 t tree. new_frontier demo_poseidon 2 = Ok t0 \<and> insert_all demo_poseidon [11, 22, 33] t0 = Ok t \<and>
    buildMerkleTree demo_poseidon [11, 22, 33] 2 = Ok tree \<and> getRoot t = mt_root tree"
  using contract_tree_refines_offchain_tree [of 2 "[11, 22, 33]" demo_poseidon] by (auto simp: BN254_FIELD_MODULUS_def)

end
