(* ===== verification/Bn254.thy ===== *)
theory Bn254
  imports Merkle Agents
begin

text \<open>
  The BN254 proof builders of \<open>packages/proving/src/bn254/prove.ts\<close> and \<open>stream.ts\<close>, each as the
  checks it makes and the circuit input it assembles, and the circuits of \<open>circuits/*_bn254/main.circom\<close>
  as predicates on such an input. snarkjs is a parameter (\<open>groth_lib\<close>); a circuit input is the object
  literal the builder writes, a list of named decimal texts.
\<close>

section \<open>Circuit inputs and snarkjs\<close>

datatype signal = One string | Many "string list"

type_synonym signals = "(string \<times> signal) list"

definition snum :: "int \<Rightarrow> signal" where
  "snum v = One (int_to_string v)"

definition snums :: "int list \<Rightarrow> signal" where
  "snums vs = Many (map int_to_string vs)"

record groth16_calldata =
  gc_a :: "string \<times> string"
  gc_b :: "(string \<times> string) \<times> (string \<times> string)"
  gc_c :: "string \<times> string"

record bn254_proof_result =
  br_proof :: groth16_calldata
  br_publicSignals :: "string list"
  br_verified :: bool

text \<open>
  What the builders use of snarkjs and of the file system: whether the circuit's artefacts exist, the
  full prover (which throws when the input does not satisfy the circuit), the verifier, and the parsed
  Solidity call data. A proof is kept as an opaque text.
\<close>

record groth_lib =
  gl_built :: "string \<Rightarrow> bool"
  gl_fullProve :: "string \<Rightarrow> signals \<Rightarrow> (string, string \<times> string list) result"
  gl_verify :: "string \<Rightarrow> string list \<Rightarrow> string \<Rightarrow> bool"
  gl_calldata :: "string \<Rightarrow> string list \<Rightarrow> groth16_calldata \<times> string list"

datatype bn_error = Refused string | NotBuilt string | MerkleFailed merkle_error | ProveFailed string | DivideByZero

definition proveBn254Circuit :: "groth_lib \<Rightarrow> string \<Rightarrow> signals \<Rightarrow> (bn_error, bn254_proof_result) result" where
  "proveBn254Circuit lib circuitName input =
    (if \<not> gl_built lib circuitName then Throw (NotBuilt circuitName)
     else case gl_fullProve lib circuitName input of
       Inl e \<Rightarrow> Throw (ProveFailed e)
     | Inr (prf, publicSignals) \<Rightarrow>
         let verified = gl_verify lib circuitName publicSignals prf;
             (calldata, pub) = gl_calldata lib prf publicSignals in
         Ok \<lparr> br_proof = calldata, br_publicSignals = pub, br_verified = verified \<rparr>)"

definition TREE_DEPTH :: nat where
  "TREE_DEPTH = 12"

definition ASSOCIATION_DEPTH :: nat where
  "ASSOCIATION_DEPTH = 2"

text \<open>\<open>xs[i]\<close>, with \<open>undefined\<close> out of range.\<close>

definition js_at :: "'a list \<Rightarrow> int \<Rightarrow> 'a option" where
  "js_at xs i = (if 0 \<le> i \<and> i < int (length xs) then Some (xs ! nat i) else None)"

definition lift_merkle :: "(merkle_error, 'a) result \<Rightarrow> (bn_error, 'a) result" where
  "lift_merkle r = (case r of Inl e \<Rightarrow> Throw (MerkleFailed e) | Inr a \<Rightarrow> Ok a)"

text \<open>\<open>buildMerkleTree\<close> followed by \<open>getMerkleProof\<close> at each index: the root and the siblings.\<close>

definition tree_paths :: "poseidon \<Rightarrow> int list \<Rightarrow> nat \<Rightarrow> int list \<Rightarrow> (bn_error, int \<times> int list list) result" where
  "tree_paths pos leaves depth idxs =
    res_bind (lift_merkle (buildMerkleTree pos leaves depth)) (\<lambda>t.
    res_bind (lift_merkle (map_res (getMerkleProof t) idxs)) (\<lambda>prs.
    Ok (mt_root t, map mp_siblings prs)))"


section \<open>private\_transfer\_bn254\<close>

record transfer_input =
  ti_inCoin :: bn254_coin
  ti_outCoin :: bn254_coin
  ti_stateLeaves :: "int list"
  ti_stateIndex :: int
  ti_assocLabels :: "int list"
  ti_labelIndex :: int
  ti_feePublic :: int
  ti_poolId :: int
  ti_chainId :: int

definition transfer_signals :: "transfer_input \<Rightarrow> int \<Rightarrow> int list \<Rightarrow> int \<Rightarrow> int list \<Rightarrow> signals" where
  "transfer_signals p stateRoot stateSiblings assocRoot assocSiblings =
    (let c = ti_inCoin p; o' = ti_outCoin p in
     [(''outputCommitment'', snum (co_commitment o')), (''feePublic'', snum (ti_feePublic p)),
      (''stateRoot'', snum stateRoot), (''associationRoot'', snum assocRoot),
      (''poolId'', snum (ti_poolId p)), (''chainId'', snum (ti_chainId p)),
      (''inputAssetId'', snum (co_assetId c)), (''outputAssetId'', snum (co_assetId o')),
      (''inValue'', snum (co_value c)), (''inLabel'', snum (co_label c)),
      (''inNullifier'', snum (co_nullifier c)), (''inSecret'', snum (co_secret c)),
      (''stateSiblings'', snums stateSiblings), (''stateIndex'', snum (ti_stateIndex p)),
      (''labelIndex'', snum (ti_labelIndex p)), (''labelSiblings'', snums assocSiblings),
      (''outValue'', snum (co_value o')), (''outLabel'', snum (co_label o')),
      (''outNullifier'', snum (co_nullifier o')), (''outSecret'', snum (co_secret o'))])"

definition transfer_circuit_input :: "poseidon \<Rightarrow> transfer_input \<Rightarrow> (bn_error, signals) result" where
  "transfer_circuit_input pos p =
    (if js_at (ti_stateLeaves p) (ti_stateIndex p) \<noteq> Some (co_commitment (ti_inCoin p))
     then Throw (Refused ''stateLeaves[stateIndex] must equal inCoin.commitment'')
     else if js_at (ti_assocLabels p) (ti_labelIndex p) \<noteq> Some (co_label (ti_inCoin p))
     then Throw (Refused ''assocLabels[labelIndex] must equal inCoin.label'')
     else if co_assetId (ti_outCoin p) \<noteq> co_assetId (ti_inCoin p)
     then Throw (Refused ''same-asset transfer requires outCoin.assetId === inCoin.assetId'')
     else if co_value (ti_outCoin p) \<noteq> co_value (ti_inCoin p) - ti_feePublic p
     then Throw (Refused ''value conservation violated'')
     else res_bind (tree_paths pos (ti_stateLeaves p) TREE_DEPTH [ti_stateIndex p]) (\<lambda>(stateRoot, stateSibs).
       res_bind (tree_paths pos (ti_assocLabels p) ASSOCIATION_DEPTH [ti_labelIndex p]) (\<lambda>(assocRoot, assocSibs).
         Ok (transfer_signals p stateRoot (hd stateSibs) assocRoot (hd assocSibs)))))"

definition buildTransferProofBn254 :: "groth_lib \<Rightarrow> poseidon \<Rightarrow> transfer_input \<Rightarrow> (bn_error, bn254_proof_result) result" where
  "buildTransferProofBn254 lib pos p =
    res_bind (transfer_circuit_input pos p) (proveBn254Circuit lib ''private_transfer_bn254'')"


section \<open>withdraw\_public\_bn254\<close>

definition OP_WITHDRAW_PUBLIC :: int where "OP_WITHDRAW_PUBLIC = 1"

definition OP_WITHDRAW_CCTP :: int where "OP_WITHDRAW_CCTP = 2"

definition OP_RFQ_SETTLEMENT :: int where "OP_RFQ_SETTLEMENT = 3"

record withdraw_binding =
  wb_operationType :: int
  wb_recipientHash :: int
  wb_relayerFee :: int
  wb_deadlineLedger :: int
  wb_quoteHash :: "int option"
  wb_intentHash :: "int option"
  wb_fillReceiptHash :: "int option"
  wb_destinationDomain :: "int option"
  wb_destinationRecipient :: "int option"
  wb_maxFee :: "int option"
  wb_minFinalityThreshold :: "int option"

record withdraw_input =
  wi_coin :: bn254_coin
  wi_withdrawnValue :: int
  wi_stateLeaves :: "int list"
  wi_stateIndex :: int
  wi_assocLabels :: "int list"
  wi_labelIndex :: int
  wi_poolId :: int
  wi_chainId :: int
  wi_binding :: withdraw_binding

definition or_zero :: "int option \<Rightarrow> int" where
  "or_zero x = (case x of Some v \<Rightarrow> v | None \<Rightarrow> 0)"

definition withdraw_signals :: "withdraw_input \<Rightarrow> int \<Rightarrow> int list \<Rightarrow> int \<Rightarrow> int list \<Rightarrow> signals" where
  "withdraw_signals p stateRoot stateSiblings assocRoot assocSiblings =
    (let b = wi_binding p; c = wi_coin p in
     [(''operationType'', snum (wb_operationType b)), (''withdrawnValue'', snum (wi_withdrawnValue p)),
      (''recipientHash'', snum (wb_recipientHash b)), (''relayerFee'', snum (wb_relayerFee b)),
      (''deadlineLedger'', snum (wb_deadlineLedger b)), (''stateRoot'', snum stateRoot),
      (''associationRoot'', snum assocRoot), (''poolId'', snum (wi_poolId p)), (''chainId'', snum (wi_chainId p)),
      (''quoteHash'', snum (or_zero (wb_quoteHash b))), (''intentHash'', snum (or_zero (wb_intentHash b))),
      (''fillReceiptHash'', snum (or_zero (wb_fillReceiptHash b))),
      (''destinationDomain'', snum (or_zero (wb_destinationDomain b))),
      (''destinationRecipient'', snum (or_zero (wb_destinationRecipient b))),
      (''maxFee'', snum (or_zero (wb_maxFee b))),
      (''minFinalityThreshold'', snum (or_zero (wb_minFinalityThreshold b))),
      (''assetId'', snum (co_assetId c)), (''label'', snum (co_label c)), (''value'', snum (co_value c)),
      (''nullifier'', snum (co_nullifier c)), (''secret'', snum (co_secret c)),
      (''stateSiblings'', snums stateSiblings), (''stateIndex'', snum (wi_stateIndex p)),
      (''labelIndex'', snum (wi_labelIndex p)), (''labelSiblings'', snums assocSiblings)])"

definition withdraw_circuit_input :: "poseidon \<Rightarrow> withdraw_input \<Rightarrow> (bn_error, signals) result" where
  "withdraw_circuit_input pos p =
    (if js_at (wi_stateLeaves p) (wi_stateIndex p) \<noteq> Some (co_commitment (wi_coin p))
     then Throw (Refused ''stateLeaves[stateIndex] must equal coin.commitment'')
     else if js_at (wi_assocLabels p) (wi_labelIndex p) \<noteq> Some (co_label (wi_coin p))
     then Throw (Refused ''assocLabels[labelIndex] must equal coin.label'')
     else if wi_withdrawnValue p > co_value (wi_coin p)
     then Throw (Refused ''withdrawnValue exceeds note value'')
     else res_bind (tree_paths pos (wi_stateLeaves p) TREE_DEPTH [wi_stateIndex p]) (\<lambda>(stateRoot, stateSibs).
       res_bind (tree_paths pos (wi_assocLabels p) ASSOCIATION_DEPTH [wi_labelIndex p]) (\<lambda>(assocRoot, assocSibs).
         Ok (withdraw_signals p stateRoot (hd stateSibs) assocRoot (hd assocSibs)))))"

definition buildWithdrawProofBn254 :: "groth_lib \<Rightarrow> poseidon \<Rightarrow> withdraw_input \<Rightarrow> (bn_error, bn254_proof_result) result" where
  "buildWithdrawProofBn254 lib pos p =
    res_bind (withdraw_circuit_input pos p) (proveBn254Circuit lib ''withdraw_public_bn254'')"


section \<open>deposit\_note\_mint\_bn254\<close>

record deposit_binding =
  db_sourceDomain :: int
  db_destinationDomain :: int
  db_cctpNonceHash :: int
  db_burnTxHashHash :: int
  db_amount6dp :: int
  db_amount7dp :: int
  db_assetIdHash :: int
  db_recipientPool :: int
  db_encryptedNotePayloadHash :: int
  db_policyIdHash :: int
  db_poolId :: int
  db_chainId :: int

definition deposit_signals :: "bn254_coin \<Rightarrow> deposit_binding \<Rightarrow> signals" where
  "deposit_signals c b =
     [(''operationType'', One ''4''), (''sourceDomain'', snum (db_sourceDomain b)),
      (''destinationDomain'', snum (db_destinationDomain b)), (''cctpNonceHash'', snum (db_cctpNonceHash b)),
      (''burnTxHashHash'', snum (db_burnTxHashHash b)), (''amount6dp'', snum (db_amount6dp b)),
      (''amount7dp'', snum (db_amount7dp b)), (''assetIdHash'', snum (db_assetIdHash b)),
      (''recipientPool'', snum (db_recipientPool b)),
      (''encryptedNotePayloadHash'', snum (db_encryptedNotePayloadHash b)),
      (''policyIdHash'', snum (db_policyIdHash b)), (''poolId'', snum (db_poolId b)), (''chainId'', snum (db_chainId b)),
      (''value'', snum (co_value c)), (''label'', snum (co_label c)), (''nullifier'', snum (co_nullifier c)),
      (''secret'', snum (co_secret c))]"

definition deposit_circuit_input :: "bn254_coin \<Rightarrow> deposit_binding \<Rightarrow> (bn_error, signals) result" where
  "deposit_circuit_input coin b =
    (if co_value coin > db_amount7dp b then Throw (Refused ''note value exceeds minted amount7dp'')
     else if co_assetId coin \<noteq> db_assetIdHash b then Throw (Refused ''coin.assetId must equal binding.assetIdHash'')
     else Ok (deposit_signals coin b))"

definition buildDepositProofBn254 :: "groth_lib \<Rightarrow> bn254_coin \<Rightarrow> deposit_binding \<Rightarrow> (bn_error, bn254_proof_result) result" where
  "buildDepositProofBn254 lib coin b =
    res_bind (deposit_circuit_input coin b) (proveBn254Circuit lib ''deposit_note_mint_bn254'')"


section \<open>mpc\_settlement\_bn254\<close>

record mpc_settlement_input =
  si_coinA :: bn254_coin
  si_coinB :: bn254_coin
  si_outCoinA :: bn254_coin
  si_outCoinB :: bn254_coin
  si_stateLeaves :: "int list"
  si_stateIndexA :: int
  si_stateIndexB :: int
  si_assocLabels :: "int list"
  si_labelIndexA :: int
  si_labelIndexB :: int
  si_matchedAmount7dp :: int
  si_batchHash :: int
  si_poolId :: int
  si_chainId :: int
  si_deadlineLedger :: int

definition settlement_signals :: "mpc_settlement_input \<Rightarrow> int \<Rightarrow> int list list \<Rightarrow> int \<Rightarrow> int list list \<Rightarrow> signals" where
  "settlement_signals p stateRoot sibs assocRoot asibs =
    (let a = si_coinA p; b = si_coinB p; oa = si_outCoinA p; ob = si_outCoinB p in
     [(''stateRoot'', snum stateRoot), (''associationRoot'', snum assocRoot), (''batchHash'', snum (si_batchHash p)),
      (''poolId'', snum (si_poolId p)), (''chainId'', snum (si_chainId p)),
      (''matchedAmount7dp'', snum (si_matchedAmount7dp p)), (''deadlineLedger'', snum (si_deadlineLedger p)),
      (''assetId'', snum (co_assetId a)),
      (''labelA'', snum (co_label a)), (''valueA'', snum (co_value a)), (''nullifierA'', snum (co_nullifier a)),
      (''secretA'', snum (co_secret a)), (''stateIndexA'', snum (si_stateIndexA p)), (''stateSiblingsA'', snums (sibs ! 0)),
      (''labelIndexA'', snum (si_labelIndexA p)), (''labelSiblingsA'', snums (asibs ! 0)),
      (''outValueA'', snum (co_value oa)), (''outLabelA'', snum (co_label oa)),
      (''outNullifierA'', snum (co_nullifier oa)), (''outSecretA'', snum (co_secret oa)),
      (''labelB'', snum (co_label b)), (''valueB'', snum (co_value b)), (''nullifierB'', snum (co_nullifier b)),
      (''secretB'', snum (co_secret b)), (''stateIndexB'', snum (si_stateIndexB p)), (''stateSiblingsB'', snums (sibs ! 1)),
      (''labelIndexB'', snum (si_labelIndexB p)), (''labelSiblingsB'', snums (asibs ! 1)),
      (''outValueB'', snum (co_value ob)), (''outLabelB'', snum (co_label ob)),
      (''outNullifierB'', snum (co_nullifier ob)), (''outSecretB'', snum (co_secret ob))])"

definition settlement_circuit_input :: "poseidon \<Rightarrow> mpc_settlement_input \<Rightarrow> (bn_error, signals) result" where
  "settlement_circuit_input pos p =
    (let a = si_coinA p; b = si_coinB p; oa = si_outCoinA p; ob = si_outCoinB p in
     if co_assetId a \<noteq> co_assetId b then Throw (Refused ''mpc_settlement is same-asset only'')
     else if co_assetId oa \<noteq> co_assetId a \<or> co_assetId ob \<noteq> co_assetId a
     then Throw (Refused ''outCoinA/outCoinB must share the assetId'')
     else if co_value oa + co_value ob \<noteq> si_matchedAmount7dp p * 2 then Throw (Refused ''value conservation violated'')
     else if js_at (si_stateLeaves p) (si_stateIndexA p) \<noteq> Some (co_commitment a)
     then Throw (Refused ''stateLeaves[stateIndexA] must equal coinA.commitment'')
     else if js_at (si_stateLeaves p) (si_stateIndexB p) \<noteq> Some (co_commitment b)
     then Throw (Refused ''stateLeaves[stateIndexB] must equal coinB.commitment'')
     else if js_at (si_assocLabels p) (si_labelIndexA p) \<noteq> Some (co_label a)
     then Throw (Refused ''assocLabels[labelIndexA] must equal coinA.label'')
     else if js_at (si_assocLabels p) (si_labelIndexB p) \<noteq> Some (co_label b)
     then Throw (Refused ''assocLabels[labelIndexB] must equal coinB.label'')
     else res_bind (tree_paths pos (si_stateLeaves p) TREE_DEPTH [si_stateIndexA p, si_stateIndexB p]) (\<lambda>(stateRoot, sibs).
       res_bind (tree_paths pos (si_assocLabels p) ASSOCIATION_DEPTH [si_labelIndexA p, si_labelIndexB p]) (\<lambda>(assocRoot, asibs).
         Ok (settlement_signals p stateRoot sibs assocRoot asibs))))"

definition buildMpcSettlementProofBn254 ::
  "groth_lib \<Rightarrow> poseidon \<Rightarrow> mpc_settlement_input \<Rightarrow> (bn_error, bn254_proof_result) result" where
  "buildMpcSettlementProofBn254 lib pos p =
    res_bind (settlement_circuit_input pos p) (proveBn254Circuit lib ''mpc_settlement_bn254'')"


section \<open>mpc\_priced\_settlement\_bn254\<close>

record mpc_priced_input =
  pi_coinA :: bn254_coin
  pi_coinB :: bn254_coin
  pi_outCoinA :: bn254_coin
  pi_outCoinB :: bn254_coin
  pi_stateLeaves :: "int list"
  pi_stateIndexA :: int
  pi_stateIndexB :: int
  pi_assocLabels :: "int list"
  pi_labelIndexA :: int
  pi_labelIndexB :: int
  pi_matchedAmountA :: int
  pi_matchedAmountB :: int
  pi_priceScaled :: int
  pi_priceScale :: "int option"
  pi_minOutputA :: int
  pi_minOutputB :: int
  pi_batchHash :: int
  pi_poolId :: int
  pi_chainId :: int
  pi_deadlineLedger :: int

definition price_scale :: "mpc_priced_input \<Rightarrow> int" where
  "price_scale p = (case pi_priceScale p of Some s \<Rightarrow> s | None \<Rightarrow> 1000000000)"

definition priced_signals :: "mpc_priced_input \<Rightarrow> int \<Rightarrow> int list list \<Rightarrow> int \<Rightarrow> int list list \<Rightarrow> signals" where
  "priced_signals p stateRoot sibs assocRoot asibs =
    (let a = pi_coinA p; b = pi_coinB p; oa = pi_outCoinA p; ob = pi_outCoinB p in
     [(''stateRoot'', snum stateRoot), (''associationRoot'', snum assocRoot), (''batchHash'', snum (pi_batchHash p)),
      (''poolId'', snum (pi_poolId p)), (''chainId'', snum (pi_chainId p)), (''deadlineLedger'', snum (pi_deadlineLedger p)),
      (''inputAssetA'', snum (co_assetId a)), (''outputAssetA'', snum (co_assetId oa)),
      (''inputAssetB'', snum (co_assetId b)), (''outputAssetB'', snum (co_assetId ob)),
      (''matchedAmountA'', snum (pi_matchedAmountA p)), (''matchedAmountB'', snum (pi_matchedAmountB p)),
      (''priceScaled'', snum (pi_priceScaled p)), (''priceScale'', snum (price_scale p)),
      (''minOutputA'', snum (pi_minOutputA p)), (''minOutputB'', snum (pi_minOutputB p)),
      (''labelA'', snum (co_label a)), (''nullifierA'', snum (co_nullifier a)), (''secretA'', snum (co_secret a)),
      (''stateIndexA'', snum (pi_stateIndexA p)), (''stateSiblingsA'', snums (sibs ! 0)),
      (''labelIndexA'', snum (pi_labelIndexA p)), (''labelSiblingsA'', snums (asibs ! 0)),
      (''labelB'', snum (co_label b)), (''nullifierB'', snum (co_nullifier b)), (''secretB'', snum (co_secret b)),
      (''stateIndexB'', snum (pi_stateIndexB p)), (''stateSiblingsB'', snums (sibs ! 1)),
      (''labelIndexB'', snum (pi_labelIndexB p)), (''labelSiblingsB'', snums (asibs ! 1)),
      (''outLabelA'', snum (co_label oa)), (''outNullifierA'', snum (co_nullifier oa)), (''outSecretA'', snum (co_secret oa)),
      (''outLabelB'', snum (co_label ob)), (''outNullifierB'', snum (co_nullifier ob)), (''outSecretB'', snum (co_secret ob))])"

text \<open>The checks before the price, the price check (\<open>/\<close> throws on a scale of zero), and those after it.\<close>

definition priced_refusal :: "mpc_priced_input \<Rightarrow> bn_error option" where
  "priced_refusal p =
    (let a = pi_coinA p; b = pi_coinB p; oa = pi_outCoinA p; ob = pi_outCoinB p;
         amtA = pi_matchedAmountA p; amtB = pi_matchedAmountB p in
     if co_assetId a = co_assetId b then Some (Refused ''mpc_priced_settlement requires a genuine cross-asset pair'')
     else if co_assetId oa \<noteq> co_assetId b then Some (Refused ''outCoinA.assetId must equal coinB.assetId'')
     else if co_assetId ob \<noteq> co_assetId a then Some (Refused ''outCoinB.assetId must equal coinA.assetId'')
     else if co_value a \<noteq> amtA then Some (Refused ''coinA.value must equal matchedAmountA'')
     else if co_value b \<noteq> amtB then Some (Refused ''coinB.value must equal matchedAmountB'')
     else if co_value oa \<noteq> amtB then Some (Refused ''outCoinA.value must equal matchedAmountB'')
     else if co_value ob \<noteq> amtA then Some (Refused ''outCoinB.value must equal matchedAmountA'')
     else if price_scale p = 0 then Some DivideByZero
     else if amtB \<noteq> js_div (amtA * pi_priceScaled p) (price_scale p) then Some (Refused ''price mismatch'')
     else if amtB < pi_minOutputA p then Some (Refused ''matchedAmountB is below minOutputA'')
     else if amtA < pi_minOutputB p then Some (Refused ''matchedAmountA is below minOutputB'')
     else if js_at (pi_stateLeaves p) (pi_stateIndexA p) \<noteq> Some (co_commitment a)
     then Some (Refused ''stateLeaves[stateIndexA] must equal coinA.commitment'')
     else if js_at (pi_stateLeaves p) (pi_stateIndexB p) \<noteq> Some (co_commitment b)
     then Some (Refused ''stateLeaves[stateIndexB] must equal coinB.commitment'')
     else if js_at (pi_assocLabels p) (pi_labelIndexA p) \<noteq> Some (co_label a)
     then Some (Refused ''assocLabels[labelIndexA] must equal coinA.label'')
     else if js_at (pi_assocLabels p) (pi_labelIndexB p) \<noteq> Some (co_label b)
     then Some (Refused ''assocLabels[labelIndexB] must equal coinB.label'')
     else None)"

definition priced_circuit_input :: "poseidon \<Rightarrow> mpc_priced_input \<Rightarrow> (bn_error, signals) result" where
  "priced_circuit_input pos p =
    (case priced_refusal p of
       Some e \<Rightarrow> Throw e
     | None \<Rightarrow>
       res_bind (tree_paths pos (pi_stateLeaves p) TREE_DEPTH [pi_stateIndexA p, pi_stateIndexB p]) (\<lambda>(stateRoot, sibs).
       res_bind (tree_paths pos (pi_assocLabels p) ASSOCIATION_DEPTH [pi_labelIndexA p, pi_labelIndexB p]) (\<lambda>(assocRoot, asibs).
         Ok (priced_signals p stateRoot sibs assocRoot asibs))))"

definition buildMpcPricedSettlementProofBn254 ::
  "groth_lib \<Rightarrow> poseidon \<Rightarrow> mpc_priced_input \<Rightarrow> (bn_error, bn254_proof_result) result" where
  "buildMpcPricedSettlementProofBn254 lib pos p =
    res_bind (priced_circuit_input pos p) (proveBn254Circuit lib ''mpc_priced_settlement_bn254'')"


section \<open>stream\_open\_bn254 and stream\_settle\_bn254\<close>

record stream_open_input =
  oi_inCoin :: bn254_coin
  oi_stateLeaves :: "int list"
  oi_stateIndex :: int
  oi_assocLabels :: "int list"
  oi_labelIndex :: int
  oi_channelId :: int
  oi_payerAx :: int
  oi_payerAy :: int
  oi_cap :: int
  oi_expiry :: int
  oi_poolId :: int
  oi_chainId :: int

text \<open>The six draws of the two fresh coins (nullifier, secret, label of each), in order.\<close>

record coin_draws =
  cd_nullifier :: bytes
  cd_secret :: bytes
  cd_label :: bytes

definition fresh_coin :: "poseidon \<Rightarrow> coin_draws \<Rightarrow> int \<Rightarrow> int \<Rightarrow> bn254_coin" where
  "fresh_coin pos d value assetId =
    generateCoinBn254 pos (cd_nullifier d) (cd_secret d) (cd_label d) value assetId None"

definition open_signals ::
  "stream_open_input \<Rightarrow> bn254_coin \<Rightarrow> bn254_coin \<Rightarrow> int \<Rightarrow> int list \<Rightarrow> int \<Rightarrow> int list \<Rightarrow> signals" where
  "open_signals p change reclaim stateRoot stateSiblings assocRoot assocSiblings =
    (let c = oi_inCoin p in
     [(''changeCommitment'', snum (co_commitment change)), (''reclaimCommitment'', snum (co_commitment reclaim)),
      (''stateRoot'', snum stateRoot), (''associationRoot'', snum assocRoot),
      (''poolId'', snum (oi_poolId p)), (''chainId'', snum (oi_chainId p)), (''channelId'', snum (oi_channelId p)),
      (''payerAx'', snum (oi_payerAx p)), (''payerAy'', snum (oi_payerAy p)), (''cap'', snum (oi_cap p)),
      (''expiry'', snum (oi_expiry p)), (''assetId'', snum (co_assetId c)),
      (''inValue'', snum (co_value c)), (''inLabel'', snum (co_label c)), (''inNullifier'', snum (co_nullifier c)),
      (''inSecret'', snum (co_secret c)), (''stateSiblings'', snums stateSiblings), (''stateIndex'', snum (oi_stateIndex p)),
      (''labelIndex'', snum (oi_labelIndex p)), (''labelSiblings'', snums assocSiblings),
      (''changeLabel'', snum (co_label change)), (''changeNullifier'', snum (co_nullifier change)),
      (''changeSecret'', snum (co_secret change)), (''reclaimLabel'', snum (co_label reclaim)),
      (''reclaimNullifier'', snum (co_nullifier reclaim)), (''reclaimSecret'', snum (co_secret reclaim))])"

definition open_circuit_input ::
  "poseidon \<Rightarrow> coin_draws \<Rightarrow> coin_draws \<Rightarrow> stream_open_input \<Rightarrow> (bn_error, signals \<times> bn254_coin \<times> bn254_coin) result" where
  "open_circuit_input pos d1 d2 p =
    (if js_at (oi_stateLeaves p) (oi_stateIndex p) \<noteq> Some (co_commitment (oi_inCoin p))
     then Throw (Refused ''stateLeaves[stateIndex] must equal inCoin.commitment'')
     else if js_at (oi_assocLabels p) (oi_labelIndex p) \<noteq> Some (co_label (oi_inCoin p))
     then Throw (Refused ''assocLabels[labelIndex] must equal inCoin.label'')
     else if oi_cap p > co_value (oi_inCoin p) then Throw (Refused ''cap exceeds input note value'')
     else let change = fresh_coin pos d1 (co_value (oi_inCoin p) - oi_cap p) (co_assetId (oi_inCoin p));
              reclaim = fresh_coin pos d2 (oi_cap p) (co_assetId (oi_inCoin p)) in
       res_bind (tree_paths pos (oi_stateLeaves p) TREE_DEPTH [oi_stateIndex p]) (\<lambda>(stateRoot, stateSibs).
       res_bind (tree_paths pos (oi_assocLabels p) ASSOCIATION_DEPTH [oi_labelIndex p]) (\<lambda>(assocRoot, assocSibs).
         Ok (open_signals p change reclaim stateRoot (hd stateSibs) assocRoot (hd assocSibs), change, reclaim))))"

definition buildStreamOpenProofBn254 ::
  "groth_lib \<Rightarrow> poseidon \<Rightarrow> coin_draws \<Rightarrow> coin_draws \<Rightarrow> stream_open_input \<Rightarrow>
     (bn_error, bn254_proof_result \<times> bn254_coin \<times> bn254_coin) result" where
  "buildStreamOpenProofBn254 lib pos d1 d2 p =
    res_bind (open_circuit_input pos d1 d2 p) (\<lambda>(input, change, reclaim).
    res_bind (proveBn254Circuit lib ''stream_open_bn254'' input) (\<lambda>r. Ok (r, change, reclaim)))"

record stream_settle_input =
  se_voucher :: voucher
  se_cap :: int
  se_assetId :: int
  se_associationRoot :: int
  se_poolId :: int
  se_chainId :: int

text \<open>\<open>seq.toString()\<close> of a number.\<close>

definition jsnum_text :: "jsnum \<Rightarrow> string" where
  "jsnum_text n = (case n of NInt i \<Rightarrow> int_to_string i | NFrac s \<Rightarrow> s | NaN \<Rightarrow> ''NaN'')"

definition settle_signals :: "stream_settle_input \<Rightarrow> bn254_coin \<Rightarrow> bn254_coin \<Rightarrow> signals" where
  "settle_signals p payee refund =
    (let v = se_voucher p in
     [(''associationRoot'', snum (se_associationRoot p)), (''poolId'', snum (se_poolId p)), (''chainId'', snum (se_chainId p)),
      (''channelId'', snum (v_channelId v)), (''payerAx'', snum (v_Ax v)), (''payerAy'', snum (v_Ay v)),
      (''cap'', snum (se_cap p)), (''cumulative'', snum (v_cumulative v)), (''assetId'', snum (se_assetId p)),
      (''seq'', One (jsnum_text (v_seq v))), (''R8x'', snum (v_R8x v)), (''R8y'', snum (v_R8y v)), (''S'', snum (v_S v)),
      (''payeeLabel'', snum (co_label payee)), (''payeeNullifier'', snum (co_nullifier payee)),
      (''payeeSecret'', snum (co_secret payee)), (''refundLabel'', snum (co_label refund)),
      (''refundNullifier'', snum (co_nullifier refund)), (''refundSecret'', snum (co_secret refund))])"

definition settle_circuit_input ::
  "poseidon \<Rightarrow> coin_draws \<Rightarrow> coin_draws \<Rightarrow> stream_settle_input \<Rightarrow> (bn_error, signals \<times> bn254_coin \<times> bn254_coin) result" where
  "settle_circuit_input pos d1 d2 p =
    (let v = se_voucher p in
     if v_cumulative v > se_cap p then Throw (Refused ''voucher cumulative exceeds channel cap'')
     else let payee = fresh_coin pos d1 (v_cumulative v) (se_assetId p);
              refund = fresh_coin pos d2 (se_cap p - v_cumulative v) (se_assetId p) in
       Ok (settle_signals p payee refund, payee, refund))"

definition buildStreamSettleProofBn254 ::
  "groth_lib \<Rightarrow> poseidon \<Rightarrow> coin_draws \<Rightarrow> coin_draws \<Rightarrow> stream_settle_input \<Rightarrow>
     (bn_error, bn254_proof_result \<times> bn254_coin \<times> bn254_coin) result" where
  "buildStreamSettleProofBn254 lib pos d1 d2 p =
    res_bind (settle_circuit_input pos d1 d2 p) (\<lambda>(input, payee, refund).
    res_bind (proveBn254Circuit lib ''stream_settle_bn254'' input) (\<lambda>r. Ok (r, payee, refund)))"

end
