(* ===== verification/Circuits.thy ===== *)
theory Circuits
  imports Bn254
begin

text \<open>
  The BN254 circuits as predicates on the circuit input of a builder, the lemmas that carry a builder's
  bigints into the field, and the properties that connect the two: what the builders assemble the circuits
  accept, and what an accepted input guarantees about the amounts. \<open>EdDSAPoseidonVerifier\<close> of circomlib is
  the verifier of the \<open>eddsa_lib\<close> parameter.
\<close>

named_theorems circuit_defs \<open>the constraint systems\<close>

section \<open>Reading signals\<close>

definition sig1 :: "signals \<Rightarrow> string \<Rightarrow> int" where
  "sig1 i n = (case map_of i n of Some (One s) \<Rightarrow> (case big_int_of_string s of Some v \<Rightarrow> fe v | None \<Rightarrow> 0) | _ \<Rightarrow> 0)"

definition sigN :: "signals \<Rightarrow> string \<Rightarrow> int list" where
  "sigN i n = (case map_of i n of
     Some (Many ss) \<Rightarrow> map (\<lambda>s. case big_int_of_string s of Some v \<Rightarrow> fe v | None \<Rightarrow> 0) ss | _ \<Rightarrow> [])"

text \<open>The witness calculator wants exactly the declared signals, each a number.\<close>

definition one_given :: "signals \<Rightarrow> string \<Rightarrow> bool" where
  "one_given i n = (case map_of i n of Some (One s) \<Rightarrow> big_int_of_string s \<noteq> None | _ \<Rightarrow> False)"

definition many_given :: "signals \<Rightarrow> string \<times> nat \<Rightarrow> bool" where
  "many_given i d = (case map_of i (fst d) of
     Some (Many ss) \<Rightarrow> length ss = snd d \<and> list_all (\<lambda>s. big_int_of_string s \<noteq> None) ss | _ \<Rightarrow> False)"

definition has_inputs :: "string list \<Rightarrow> (string \<times> nat) list \<Rightarrow> signals \<Rightarrow> bool" where
  "has_inputs ones manys i \<longleftrightarrow> length i = length ones + length manys \<and>
     list_all (one_given i) ones \<and> list_all (many_given i) manys"

text \<open>\<open>Num2Bits(n)\<close>, the subtraction of signals, \<open>CommitmentHasher\<close> and the comparators of circomlib.\<close>

definition num2bits :: "nat \<Rightarrow> int \<Rightarrow> bool" where
  "num2bits n x \<longleftrightarrow> 0 \<le> x \<and> x < 2 ^ n"

definition commitment_circuit :: "poseidon \<Rightarrow> int \<Rightarrow> int \<Rightarrow> int \<Rightarrow> int \<Rightarrow> int \<Rightarrow> int" where
  "commitment_circuit pos assetId value label nullifier secret =
    pos [pos [assetId, value, label], pos [nullifier, secret]]"

definition less_than :: "nat \<Rightarrow> int \<Rightarrow> int \<Rightarrow> int option" where
  "less_than n a b = (let z = fe (a + 2 ^ n - b) in
     if num2bits (n + 1) z then Some (if z < 2 ^ n then 1 else 0) else None)"


section \<open>The constraint systems\<close>

definition transfer_circuit :: "poseidon \<Rightarrow> signals \<Rightarrow> bool" where
  [circuit_defs]: "transfer_circuit pos i \<longleftrightarrow>
    has_inputs [''outputCommitment'', ''feePublic'', ''stateRoot'', ''associationRoot'', ''poolId'', ''chainId'',
      ''inputAssetId'', ''outputAssetId'', ''inValue'', ''inLabel'', ''inNullifier'', ''inSecret'', ''stateIndex'',
      ''labelIndex'', ''outValue'', ''outLabel'', ''outNullifier'', ''outSecret'']
      [(''stateSiblings'', 12), (''labelSiblings'', 2)] i \<and>
    sig1 i ''inputAssetId'' = sig1 i ''outputAssetId'' \<and>
    merkle_circuit pos 12 (commitment_circuit pos (sig1 i ''inputAssetId'') (sig1 i ''inValue'') (sig1 i ''inLabel'')
        (sig1 i ''inNullifier'') (sig1 i ''inSecret''))
      (sig1 i ''stateIndex'') (sigN i ''stateSiblings'') = Some (sig1 i ''stateRoot'') \<and>
    sig1 i ''outputCommitment'' = commitment_circuit pos (sig1 i ''outputAssetId'') (sig1 i ''outValue'') (sig1 i ''outLabel'')
        (sig1 i ''outNullifier'') (sig1 i ''outSecret'') \<and>
    sig1 i ''inValue'' = fe (sig1 i ''outValue'' + sig1 i ''feePublic'') \<and>
    num2bits 128 (sig1 i ''outValue'') \<and> num2bits 128 (sig1 i ''feePublic'') \<and>
    merkle_circuit pos 2 (sig1 i ''inLabel'') (sig1 i ''labelIndex'') (sigN i ''labelSiblings'') = Some (sig1 i ''associationRoot'')"

definition withdraw_circuit :: "poseidon \<Rightarrow> signals \<Rightarrow> bool" where
  [circuit_defs]: "withdraw_circuit pos i \<longleftrightarrow>
    has_inputs [''operationType'', ''withdrawnValue'', ''recipientHash'', ''relayerFee'', ''deadlineLedger'', ''stateRoot'',
      ''associationRoot'', ''poolId'', ''chainId'', ''quoteHash'', ''intentHash'', ''fillReceiptHash'', ''destinationDomain'',
      ''destinationRecipient'', ''maxFee'', ''minFinalityThreshold'', ''assetId'', ''label'', ''value'', ''nullifier'', ''secret'',
      ''stateIndex'', ''labelIndex''] [(''stateSiblings'', 12), (''labelSiblings'', 2)] i \<and>
    merkle_circuit pos 12 (commitment_circuit pos (sig1 i ''assetId'') (sig1 i ''value'') (sig1 i ''label'')
        (sig1 i ''nullifier'') (sig1 i ''secret''))
      (sig1 i ''stateIndex'') (sigN i ''stateSiblings'') = Some (sig1 i ''stateRoot'') \<and>
    merkle_circuit pos 2 (sig1 i ''label'') (sig1 i ''labelIndex'') (sigN i ''labelSiblings'') = Some (sig1 i ''associationRoot'') \<and>
    num2bits 128 (fe (sig1 i ''value'' - sig1 i ''withdrawnValue'')) \<and> num2bits 128 (sig1 i ''withdrawnValue'') \<and>
    num2bits 128 (fe (sig1 i ''withdrawnValue'' - sig1 i ''relayerFee'')) \<and> num2bits 128 (sig1 i ''relayerFee'')"

definition deposit_circuit :: "poseidon \<Rightarrow> signals \<Rightarrow> bool" where
  [circuit_defs]: "deposit_circuit pos i \<longleftrightarrow>
    has_inputs [''operationType'', ''sourceDomain'', ''destinationDomain'', ''cctpNonceHash'', ''burnTxHashHash'', ''amount6dp'',
      ''amount7dp'', ''assetIdHash'', ''recipientPool'', ''encryptedNotePayloadHash'', ''policyIdHash'', ''poolId'', ''chainId'',
      ''value'', ''label'', ''nullifier'', ''secret''] [] i \<and>
    num2bits 128 (fe (sig1 i ''amount7dp'' - sig1 i ''value'')) \<and> num2bits 128 (sig1 i ''value'')"

definition deposit_commitment :: "poseidon \<Rightarrow> signals \<Rightarrow> int" where
  "deposit_commitment pos i = commitment_circuit pos (sig1 i ''assetIdHash'') (sig1 i ''value'') (sig1 i ''label'')
     (sig1 i ''nullifier'') (sig1 i ''secret'')"

definition open_circuit :: "poseidon \<Rightarrow> signals \<Rightarrow> bool" where
  [circuit_defs]: "open_circuit pos i \<longleftrightarrow>
    has_inputs [''changeCommitment'', ''reclaimCommitment'', ''stateRoot'', ''associationRoot'', ''poolId'', ''chainId'', ''channelId'',
      ''payerAx'', ''payerAy'', ''cap'', ''expiry'', ''assetId'', ''inValue'', ''inLabel'', ''inNullifier'', ''inSecret'', ''stateIndex'',
      ''labelIndex'', ''changeLabel'', ''changeNullifier'', ''changeSecret'', ''reclaimLabel'', ''reclaimNullifier'', ''reclaimSecret'']
      [(''stateSiblings'', 12), (''labelSiblings'', 2)] i \<and>
    merkle_circuit pos 12 (commitment_circuit pos (sig1 i ''assetId'') (sig1 i ''inValue'') (sig1 i ''inLabel'')
        (sig1 i ''inNullifier'') (sig1 i ''inSecret''))
      (sig1 i ''stateIndex'') (sigN i ''stateSiblings'') = Some (sig1 i ''stateRoot'') \<and>
    merkle_circuit pos 2 (sig1 i ''inLabel'') (sig1 i ''labelIndex'') (sigN i ''labelSiblings'') = Some (sig1 i ''associationRoot'') \<and>
    num2bits 128 (fe (sig1 i ''inValue'' - sig1 i ''cap'')) \<and> num2bits 128 (sig1 i ''cap'') \<and>
    sig1 i ''changeCommitment'' = commitment_circuit pos (sig1 i ''assetId'') (fe (sig1 i ''inValue'' - sig1 i ''cap''))
        (sig1 i ''changeLabel'') (sig1 i ''changeNullifier'') (sig1 i ''changeSecret'') \<and>
    sig1 i ''reclaimCommitment'' = commitment_circuit pos (sig1 i ''assetId'') (sig1 i ''cap'')
        (sig1 i ''reclaimLabel'') (sig1 i ''reclaimNullifier'') (sig1 i ''reclaimSecret'')"

definition settle_circuit :: "eddsa_lib \<Rightarrow> signals \<Rightarrow> bool" where
  [circuit_defs]: "settle_circuit lib i \<longleftrightarrow>
    has_inputs [''associationRoot'', ''poolId'', ''chainId'', ''channelId'', ''payerAx'', ''payerAy'', ''cap'', ''cumulative'', ''assetId'',
      ''seq'', ''R8x'', ''R8y'', ''S'', ''payeeLabel'', ''payeeNullifier'', ''payeeSecret'', ''refundLabel'', ''refundNullifier'',
      ''refundSecret''] [] i \<and>
    verifyPoseidon lib (poseidon lib [sig1 i ''channelId'', sig1 i ''cumulative'', sig1 i ''seq''])
      ((sig1 i ''R8x'', sig1 i ''R8y''), sig1 i ''S'') (sig1 i ''payerAx'', sig1 i ''payerAy'') \<and>
    num2bits 128 (fe (sig1 i ''cap'' - sig1 i ''cumulative'')) \<and> num2bits 128 (sig1 i ''cumulative'')"

definition settle_payee_commitment :: "poseidon \<Rightarrow> signals \<Rightarrow> int" where
  "settle_payee_commitment pos i = commitment_circuit pos (sig1 i ''assetId'') (sig1 i ''cumulative'') (sig1 i ''payeeLabel'')
     (sig1 i ''payeeNullifier'') (sig1 i ''payeeSecret'')"

definition settle_refund_commitment :: "poseidon \<Rightarrow> signals \<Rightarrow> int" where
  "settle_refund_commitment pos i = commitment_circuit pos (sig1 i ''assetId'') (fe (sig1 i ''cap'' - sig1 i ''cumulative''))
     (sig1 i ''refundLabel'') (sig1 i ''refundNullifier'') (sig1 i ''refundSecret'')"

definition settlement_names :: "string list" where
  "settlement_names = [''stateRoot'', ''associationRoot'', ''batchHash'', ''poolId'', ''chainId'', ''matchedAmount7dp'', ''deadlineLedger'',
      ''assetId'', ''labelA'', ''valueA'', ''nullifierA'', ''secretA'', ''stateIndexA'', ''labelIndexA'', ''outValueA'', ''outLabelA'',
      ''outNullifierA'', ''outSecretA'', ''labelB'', ''valueB'', ''nullifierB'', ''secretB'', ''stateIndexB'', ''labelIndexB'',
      ''outValueB'', ''outLabelB'', ''outNullifierB'', ''outSecretB'']"

definition settlement_circuit :: "poseidon \<Rightarrow> signals \<Rightarrow> bool" where
  [circuit_defs]: "settlement_circuit pos i \<longleftrightarrow>
    has_inputs settlement_names
      [(''stateSiblingsA'', 12), (''labelSiblingsA'', 2), (''stateSiblingsB'', 12), (''labelSiblingsB'', 2)] i \<and>
    merkle_circuit pos 12 (commitment_circuit pos (sig1 i ''assetId'') (sig1 i ''valueA'') (sig1 i ''labelA'') (sig1 i ''nullifierA'')
        (sig1 i ''secretA'')) (sig1 i ''stateIndexA'') (sigN i ''stateSiblingsA'') = Some (sig1 i ''stateRoot'') \<and>
    merkle_circuit pos 12 (commitment_circuit pos (sig1 i ''assetId'') (sig1 i ''valueB'') (sig1 i ''labelB'') (sig1 i ''nullifierB'')
        (sig1 i ''secretB'')) (sig1 i ''stateIndexB'') (sigN i ''stateSiblingsB'') = Some (sig1 i ''stateRoot'') \<and>
    merkle_circuit pos 2 (sig1 i ''labelA'') (sig1 i ''labelIndexA'') (sigN i ''labelSiblingsA'') = Some (sig1 i ''associationRoot'') \<and>
    merkle_circuit pos 2 (sig1 i ''labelB'') (sig1 i ''labelIndexB'') (sigN i ''labelSiblingsB'') = Some (sig1 i ''associationRoot'') \<and>
    num2bits 128 (fe (sig1 i ''valueA'' - sig1 i ''matchedAmount7dp'')) \<and>
    num2bits 128 (fe (sig1 i ''valueB'' - sig1 i ''matchedAmount7dp'')) \<and>
    fe (sig1 i ''outValueA'' + sig1 i ''outValueB'') = fe (sig1 i ''matchedAmount7dp'' * 2)"

definition settlement_output_A :: "poseidon \<Rightarrow> signals \<Rightarrow> int" where
  "settlement_output_A pos i = commitment_circuit pos (sig1 i ''assetId'') (sig1 i ''outValueA'') (sig1 i ''outLabelA'')
     (sig1 i ''outNullifierA'') (sig1 i ''outSecretA'')"

definition priced_names :: "string list" where
  "priced_names = [''stateRoot'', ''associationRoot'', ''batchHash'', ''poolId'', ''chainId'', ''deadlineLedger'', ''inputAssetA'',
      ''outputAssetA'', ''inputAssetB'', ''outputAssetB'', ''matchedAmountA'', ''matchedAmountB'', ''priceScaled'', ''priceScale'',
      ''minOutputA'', ''minOutputB'', ''labelA'', ''nullifierA'', ''secretA'', ''stateIndexA'', ''labelIndexA'', ''labelB'', ''nullifierB'',
      ''secretB'', ''stateIndexB'', ''labelIndexB'', ''outLabelA'', ''outNullifierA'', ''outSecretA'', ''outLabelB'', ''outNullifierB'',
      ''outSecretB'']"

definition priced_circuit :: "poseidon \<Rightarrow> signals \<Rightarrow> bool" where
  [circuit_defs]: "priced_circuit pos i \<longleftrightarrow>
    has_inputs priced_names
      [(''stateSiblingsA'', 12), (''labelSiblingsA'', 2), (''stateSiblingsB'', 12), (''labelSiblingsB'', 2)] i \<and>
    sig1 i ''outputAssetA'' = sig1 i ''inputAssetB'' \<and> sig1 i ''outputAssetB'' = sig1 i ''inputAssetA'' \<and>
    sig1 i ''inputAssetA'' \<noteq> sig1 i ''inputAssetB'' \<and> sig1 i ''priceScale'' = 1000000000 \<and>
    merkle_circuit pos 12 (commitment_circuit pos (sig1 i ''inputAssetA'') (sig1 i ''matchedAmountA'') (sig1 i ''labelA'')
        (sig1 i ''nullifierA'') (sig1 i ''secretA'')) (sig1 i ''stateIndexA'') (sigN i ''stateSiblingsA'') = Some (sig1 i ''stateRoot'') \<and>
    merkle_circuit pos 12 (commitment_circuit pos (sig1 i ''inputAssetB'') (sig1 i ''matchedAmountB'') (sig1 i ''labelB'')
        (sig1 i ''nullifierB'') (sig1 i ''secretB'')) (sig1 i ''stateIndexB'') (sigN i ''stateSiblingsB'') = Some (sig1 i ''stateRoot'') \<and>
    merkle_circuit pos 2 (sig1 i ''labelA'') (sig1 i ''labelIndexA'') (sigN i ''labelSiblingsA'') = Some (sig1 i ''associationRoot'') \<and>
    merkle_circuit pos 2 (sig1 i ''labelB'') (sig1 i ''labelIndexB'') (sigN i ''labelSiblingsB'') = Some (sig1 i ''associationRoot'') \<and>
    (let prod = fe (sig1 i ''matchedAmountA'' * sig1 i ''priceScaled''); scaled = fe (sig1 i ''matchedAmountB'' * sig1 i ''priceScale'') in
     less_than 128 scaled (fe (prod + 1)) = Some 1 \<and> less_than 64 (fe (prod - scaled)) (sig1 i ''priceScale'') = Some 1) \<and>
    less_than 64 (sig1 i ''minOutputA'') (fe (sig1 i ''matchedAmountB'' + 1)) = Some 1 \<and>
    less_than 64 (sig1 i ''minOutputB'') (fe (sig1 i ''matchedAmountA'' + 1)) = Some 1"


section \<open>From bigints to signals\<close>

lemma sig1_Cons: "sig1 ((k, snum v) # i) n = (if n = k then fe v else sig1 i n)"
  "sig1 ((k, snums vs) # i) n = (if n = k then 0 else sig1 i n)"
  by (simp_all add: sig1_def snum_def snums_def)

lemma sigN_Cons: "sigN ((k, snum v) # i) n = (if n = k then [] else sigN i n)"
  "sigN ((k, snums vs) # i) n = (if n = k then map fe vs else sigN i n)"
  by (simp_all add: sigN_def snum_def snums_def comp_def)

lemma one_given_Cons: "one_given ((k, snum v) # i) n = (n = k \<or> one_given i n)"
  "one_given ((k, snums vs) # i) n = (n \<noteq> k \<and> one_given i n)"
  by (simp_all add: one_given_def snum_def snums_def)

lemma many_given_Cons: "many_given ((k, snum v) # i) (n, l) = (n \<noteq> k \<and> many_given i (n, l))"
  "many_given ((k, snums vs) # i) (n, l) = (if n = k then length vs = l else many_given i (n, l))"
  by (simp_all add: many_given_def snum_def snums_def list_all_iff)

lemma seq_Cons: "sig1 ((k, One (jsnum_text (NInt v))) # i) n = (if n = k then fe v else sig1 i n)"
  "one_given ((k, One (jsnum_text (NInt v))) # i) n = (n = k \<or> one_given i n)"
  by (simp_all add: sig1_def one_given_def jsnum_text_def)

lemmas signal_reads = has_inputs_def sig1_Cons sigN_Cons one_given_Cons many_given_Cons seq_Cons


section \<open>The field\<close>

text \<open>What circomlibjs documents of Poseidon: inputs are reduced, the output is a field element.\<close>

definition poseidon_ok :: "poseidon \<Rightarrow> bool" where
  "poseidon_ok pos \<longleftrightarrow> (\<forall>xs. field_elem (pos xs) \<and> pos (map fe xs) = pos xs)"

lemma fe_fe [simp]: "fe (fe x) = fe x"
  by (simp add: fe_def)

lemma field_elem_of_fe [simp]: "field_elem (fe x)"
  by (simp add: fe_def field_elem_def bn254_r_def)

lemma pos_field [simp]: "poseidon_ok pos \<Longrightarrow> field_elem (pos xs)" "poseidon_ok pos \<Longrightarrow> fe (pos xs) = pos xs"
  by (auto simp: poseidon_ok_def)

lemma pos_fe: "poseidon_ok pos \<Longrightarrow> pos [fe a, fe b] = pos [a, b]" "poseidon_ok pos \<Longrightarrow> pos [fe a, fe b, fe c] = pos [a, b, c]"
  unfolding poseidon_ok_def by (drule spec [of _ "[a, b]"], simp) (drule spec [of _ "[a, b, c]"], simp)

lemma commitment_fe:
  "poseidon_ok pos \<Longrightarrow> commitment_circuit pos (fe a) (fe v) (fe l) (fe n) (fe s) = commitment_circuit pos a v l n s"
  by (simp add: commitment_circuit_def pos_fe)

lemma coin_commitment_circuit:
  "poseidon_ok pos \<Longrightarrow> coin_ok pos c \<Longrightarrow> co_assetId c = a \<Longrightarrow> co_value c = v \<Longrightarrow>
   commitment_circuit pos (fe a) (fe v) (fe (co_label c)) (fe (co_nullifier c)) (fe (co_secret c)) = co_commitment c"
  by (simp add: commitment_fe) (simp add: commitment_circuit_def coin_commitment)

lemma coin_commitment_field [simp]: "poseidon_ok pos \<Longrightarrow> coin_ok pos c \<Longrightarrow> fe (co_commitment c) = co_commitment c"
  by (simp add: coin_commitment)

lemma path_root_fe:
  "poseidon_ok pos \<Longrightarrow> ss \<noteq> [] \<Longrightarrow>
   path_root (tree_hash pos) (fe x) i (map fe ss) = path_root (tree_hash pos) x i ss \<and> field_elem (path_root (tree_hash pos) x i ss)"
proof (induction ss arbitrary: x i)
  case (Cons s ss)
  let ?y = "if even i then tree_hash pos x s else tree_hash pos s x"
  have y: "(if even i then tree_hash pos (fe x) (fe s) else tree_hash pos (fe s) (fe x)) = ?y" "field_elem ?y" "fe ?y = ?y"
    using Cons.prems(1) by (simp_all add: makeSyncHash2_def pos_fe)
  then show ?case using Cons.IH [OF Cons.prems(1), of ?y "i div 2"] by (cases "ss = []") simp_all
qed simp

lemma merkle_circuit_fe:
  assumes "poseidon_ok pos" "0 < depth" "merkle_circuit pos depth x i ss = Some r"
  shows "merkle_circuit pos depth (fe x) i (map fe ss) = Some (fe r)" "fe r = r"
proof -
  have "0 \<le> i" "i < 2 ^ depth" "length ss = depth" "path_root (tree_hash pos) x (nat i) ss = r"
    using assms(3) by (auto simp: merkle_circuit_def split: if_splits)
  moreover have "ss \<noteq> []" using assms(2) calculation(3) by auto
  ultimately show "merkle_circuit pos depth (fe x) i (map fe ss) = Some (fe r)" "fe r = r"
    using path_root_fe [OF assms(1), of ss x "nat i"] by (auto simp: merkle_circuit_def)
qed

lemma fe_small: "0 \<le> x \<Longrightarrow> x < 2 ^ 253 \<Longrightarrow> fe x = x"
  by (rule fe_id) (simp add: field_elem_def bn254_r_def)


section \<open>Trees and paths of the builders\<close>

lemma js_at_Some: "js_at xs i = Some x \<longleftrightarrow> 0 \<le> i \<and> i < int (length xs) \<and> xs ! nat i = x"
  by (auto simp: js_at_def)

lemma tree_paths_ok:
  assumes "0 < depth" "depth < 31" "length leaves \<le> 2 ^ depth" "\<forall>i\<in>set idxs. js_at leaves i \<noteq> None"
  shows "\<exists>root sibs. tree_paths pos leaves depth idxs = Ok (root, sibs) \<and>
    list_all2 (\<lambda>i ss. length ss = depth \<and> (\<forall>x. js_at leaves i = Some x \<longrightarrow> merkle_circuit pos depth x i ss = Some root)) idxs sibs"
proof -
  obtain t where t: "buildMerkleTree pos leaves depth = Ok t" "is_tree_of pos leaves depth t"
    using buildMerkleTree_ok assms(2,3) by blast
  have path: "\<exists>pr. getMerkleProof t i = Ok pr \<and> length (mp_siblings pr) = depth \<and>
      (\<forall>x. js_at leaves i = Some x \<longrightarrow> merkle_circuit pos depth x i (mp_siblings pr) = Some (mt_root t))" if mem: "i \<in> set idxs" for i
  proof -
    obtain x where x: "js_at leaves i = Some x" using assms(4) mem by blast
    then have "0 \<le> i" "nat i < length leaves" "leaf_fun leaves (nat i) = x"
      by (auto simp: js_at_Some leaf_fun_def)
    then have i: "0 \<le> i" "nat i < 2 ^ depth" "leaf_fun leaves (nat i) = x"
      using assms(3) less_le_trans by blast+
    from merkle_path_ok [OF t(2) assms(2) i(2)] show ?thesis using i(1,3) x by auto
  qed
  define g where "g i = (SOME pr. getMerkleProof t i = Ok pr \<and> length (mp_siblings pr) = depth \<and>
      (\<forall>x. js_at leaves i = Some x \<longrightarrow> merkle_circuit pos depth x i (mp_siblings pr) = Some (mt_root t)))" for i
  have g: "getMerkleProof t i = Ok (g i) \<and> length (mp_siblings (g i)) = depth \<and>
      (\<forall>x. js_at leaves i = Some x \<longrightarrow> merkle_circuit pos depth x i (mp_siblings (g i)) = Some (mt_root t))" if "i \<in> set idxs" for i
    unfolding g_def by (rule someI_ex [OF path [OF that]])
  have "map_res (getMerkleProof t) idxs = Ok (map g idxs)" by (rule map_res_total) (use g in simp)
  then have "tree_paths pos leaves depth idxs = Ok (mt_root t, map (mp_siblings \<circ> g) idxs)"
    using t(1) by (simp add: tree_paths_def lift_merkle_def)
  moreover have "list_all2 (\<lambda>i ss. length ss = depth \<and> (\<forall>x. js_at leaves i = Some x \<longrightarrow> merkle_circuit pos depth x i ss = Some (mt_root t)))
      idxs (map (mp_siblings \<circ> g) idxs)"
    using g by (simp add: list_all2_map2 list_all2_same)
  ultimately show ?thesis by blast
qed

text \<open>The same with every value reduced into the field, as the circuit reads it.\<close>

lemma field_paths:
  assumes "poseidon_ok pos" "0 < depth" "depth < 31" "length leaves \<le> 2 ^ depth" "\<forall>i\<in>set idxs. js_at leaves i \<noteq> None"
  shows "\<exists>root sibs. tree_paths pos leaves depth idxs = Ok (root, sibs) \<and> (idxs \<noteq> [] \<longrightarrow> fe root = root) \<and>
    list_all2 (\<lambda>i ss. length ss = depth \<and> fe i = i \<and>
      (\<forall>x. js_at leaves i = Some x \<longrightarrow> merkle_circuit pos depth (fe x) i (map fe ss) = Some root)) idxs sibs"
proof -
  obtain root sibs where r: "tree_paths pos leaves depth idxs = Ok (root, sibs)"
    "list_all2 (\<lambda>i ss. length ss = depth \<and> (\<forall>x. js_at leaves i = Some x \<longrightarrow> merkle_circuit pos depth x i ss = Some root)) idxs sibs"
    using tree_paths_ok [OF assms(2-5)] by blast
  have "(2 :: nat) ^ depth \<le> 2 ^ 30" using assms(3) by (intro power_increasing) simp_all
  then have short: "length leaves \<le> 2 ^ 30" using assms(4) by linarith
  have idx: "fe i = i" if "i \<in> set idxs" for i
    by (rule fe_small) (use assms(5) that short in \<open>auto simp: js_at_def split: if_splits\<close>)
  have fix_root: "fe root = root" if ne: "idxs \<noteq> []"
  proof -
    obtain i js ss sss where "idxs = i # js" "sibs = ss # sss" using ne r(2) by (cases idxs; cases sibs) auto
    then show ?thesis using r(2) assms(5) merkle_circuit_fe(2) [OF assms(1,2)] by fastforce
  qed
  have "list_all2 (\<lambda>i ss. length ss = depth \<and> fe i = i \<and>
      (\<forall>x. js_at leaves i = Some x \<longrightarrow> merkle_circuit pos depth (fe x) i (map fe ss) = Some root)) idxs sibs"
    using r(2) by (rule list.rel_mono_strong) (use idx merkle_circuit_fe [OF assms(1,2)] in fastforce)
  then show ?thesis using r(1) fix_root by blast
qed

text \<open>The two trees of a spend, at the depths of the circuits, with one note and with two.\<close>

definition paths_to :: "poseidon \<Rightarrow> int \<Rightarrow> int \<Rightarrow> int \<Rightarrow> int list \<Rightarrow> int \<Rightarrow> int \<Rightarrow> int \<Rightarrow> int list \<Rightarrow> bool" where
  "paths_to pos x i sr ss l j ar as \<longleftrightarrow> length ss = 12 \<and> length as = 2 \<and> fe sr = sr \<and> fe ar = ar \<and> fe i = i \<and> fe j = j \<and>
    merkle_circuit pos 12 (fe x) i (map fe ss) = Some sr \<and> merkle_circuit pos 2 (fe l) j (map fe as) = Some ar"

lemma spend_paths:
  assumes "poseidon_ok pos" "length leaves \<le> 2 ^ TREE_DEPTH" "length labels \<le> 2 ^ ASSOCIATION_DEPTH"
    and "js_at leaves i = Some x" "js_at labels j = Some l"
  obtains sr ss ar as where
    "tree_paths pos leaves TREE_DEPTH [i] = Ok (sr, [ss])" "tree_paths pos labels ASSOCIATION_DEPTH [j] = Ok (ar, [as])"
    "paths_to pos x i sr ss l j ar as"
proof -
  have "\<exists>sr ss. tree_paths pos leaves TREE_DEPTH [i] = Ok (sr, [ss]) \<and> length ss = 12 \<and> fe sr = sr \<and> fe i = i \<and>
      merkle_circuit pos 12 (fe x) i (map fe ss) = Some sr"
    using field_paths [OF assms(1) _ _ assms(2), of "[i]"] assms(4) by (force simp: TREE_DEPTH_def list_all2_Cons1)
  moreover have "\<exists>ar as. tree_paths pos labels ASSOCIATION_DEPTH [j] = Ok (ar, [as]) \<and> length as = 2 \<and> fe ar = ar \<and> fe j = j \<and>
      merkle_circuit pos 2 (fe l) j (map fe as) = Some ar"
    using field_paths [OF assms(1) _ _ assms(3), of "[j]"] assms(5) by (force simp: ASSOCIATION_DEPTH_def list_all2_Cons1)
  ultimately show thesis using that unfolding paths_to_def by blast
qed

lemma two_paths:
  assumes "poseidon_ok pos" "0 < depth" "depth < 31" "length leaves \<le> 2 ^ depth" "js_at leaves i = Some x" "js_at leaves j = Some y"
  shows "\<exists>r ss ts. tree_paths pos leaves depth [i, j] = Ok (r, [ss, ts]) \<and> length ss = depth \<and> length ts = depth \<and> fe r = r \<and>
    fe i = i \<and> fe j = j \<and> merkle_circuit pos depth (fe x) i (map fe ss) = Some r \<and> merkle_circuit pos depth (fe y) j (map fe ts) = Some r"
  using field_paths [OF assms(1-4), of "[i, j]"] assms(5,6) by (force simp: list_all2_Cons1)

section \<open>Accepted spends\<close>

lemma num2bits_small: "num2bits 128 (fe x)" if "0 \<le> x" "x < 2 ^ 128"
  using that by (simp add: num2bits_def fe_small)

lemma fe_add: "fe (fe a + fe b) = fe (a + b)" "fe (fe a - fe b) = fe (a - b)"
  by (simp_all add: fe_def mod_simps)

definition transfer_allowed :: "transfer_input \<Rightarrow> bool" where
  "transfer_allowed p \<longleftrightarrow>
    js_at (ti_stateLeaves p) (ti_stateIndex p) = Some (co_commitment (ti_inCoin p)) \<and>
    js_at (ti_assocLabels p) (ti_labelIndex p) = Some (co_label (ti_inCoin p)) \<and>
    co_assetId (ti_outCoin p) = co_assetId (ti_inCoin p) \<and>
    co_value (ti_inCoin p) = co_value (ti_outCoin p) + ti_feePublic p"

lemma transfer_circuit_of_signals:
  assumes "poseidon_ok pos" "coin_ok pos (ti_inCoin p)" "coin_ok pos (ti_outCoin p)"
    and "co_assetId (ti_outCoin p) = co_assetId (ti_inCoin p)" "co_value (ti_inCoin p) = co_value (ti_outCoin p) + ti_feePublic p"
    and "0 \<le> co_value (ti_outCoin p)" "co_value (ti_outCoin p) < 2 ^ 128" "0 \<le> ti_feePublic p" "ti_feePublic p < 2 ^ 128"
    and "paths_to pos (co_commitment (ti_inCoin p)) (ti_stateIndex p) sr ss (co_label (ti_inCoin p)) (ti_labelIndex p) ar as"
  shows "transfer_circuit pos (transfer_signals p sr ss ar as)"
  using assms unfolding transfer_circuit_def transfer_signals_def Let_def paths_to_def
  by (simp add: signal_reads coin_commitment_circuit fe_add num2bits_small)


lemma transfer_input_accepted:
  assumes "poseidon_ok pos" "coin_ok pos (ti_inCoin p)" "coin_ok pos (ti_outCoin p)" "transfer_allowed p"
    and "0 \<le> co_value (ti_outCoin p)" "co_value (ti_outCoin p) < 2 ^ 128" "0 \<le> ti_feePublic p" "ti_feePublic p < 2 ^ 128"
    and "length (ti_stateLeaves p) \<le> 2 ^ TREE_DEPTH" "length (ti_assocLabels p) \<le> 2 ^ ASSOCIATION_DEPTH"
  shows "\<exists>i. transfer_circuit_input pos p = Ok i \<and> transfer_circuit pos i"
proof -
  note al = assms(4) [unfolded transfer_allowed_def]
  then have at: "js_at (ti_stateLeaves p) (ti_stateIndex p) = Some (co_commitment (ti_inCoin p))"
    "js_at (ti_assocLabels p) (ti_labelIndex p) = Some (co_label (ti_inCoin p))" by simp_all
  obtain sr ss ar as where t: "tree_paths pos (ti_stateLeaves p) TREE_DEPTH [ti_stateIndex p] = Ok (sr, [ss])"
    "tree_paths pos (ti_assocLabels p) ASSOCIATION_DEPTH [ti_labelIndex p] = Ok (ar, [as])"
    and paths: "paths_to pos (co_commitment (ti_inCoin p)) (ti_stateIndex p) sr ss (co_label (ti_inCoin p)) (ti_labelIndex p) ar as"
    using spend_paths [OF assms(1,9,10) at] .
  have "transfer_circuit pos (transfer_signals p sr ss ar as)"
    by (rule transfer_circuit_of_signals) (use assms al paths in simp_all)
  then show ?thesis using al t by (simp add: transfer_circuit_input_def)
qed

text \<open>Withdrawals: the circuit also wants the fee within the amount, which the builder does not check.\<close>

definition withdraw_allowed :: "withdraw_input \<Rightarrow> bool" where
  "withdraw_allowed p \<longleftrightarrow>
    js_at (wi_stateLeaves p) (wi_stateIndex p) = Some (co_commitment (wi_coin p)) \<and>
    js_at (wi_assocLabels p) (wi_labelIndex p) = Some (co_label (wi_coin p)) \<and> wi_withdrawnValue p \<le> co_value (wi_coin p)"

lemma withdraw_circuit_of_signals:
  assumes "poseidon_ok pos" "coin_ok pos (wi_coin p)"
    and "0 \<le> wb_relayerFee (wi_binding p)" "wb_relayerFee (wi_binding p) \<le> wi_withdrawnValue p"
    and "wi_withdrawnValue p \<le> co_value (wi_coin p)" "co_value (wi_coin p) < 2 ^ 128"
    and "paths_to pos (co_commitment (wi_coin p)) (wi_stateIndex p) sr ss (co_label (wi_coin p)) (wi_labelIndex p) ar as"
  shows "withdraw_circuit pos (withdraw_signals p sr ss ar as)"
  using assms unfolding withdraw_circuit_def withdraw_signals_def Let_def paths_to_def
  by (simp add: signal_reads coin_commitment_circuit fe_add num2bits_small)

lemma withdraw_input_accepted:
  assumes "poseidon_ok pos" "coin_ok pos (wi_coin p)" "withdraw_allowed p" "co_value (wi_coin p) < 2 ^ 128"
    and "0 \<le> wb_relayerFee (wi_binding p)" "wb_relayerFee (wi_binding p) \<le> wi_withdrawnValue p"
    and "length (wi_stateLeaves p) \<le> 2 ^ TREE_DEPTH" "length (wi_assocLabels p) \<le> 2 ^ ASSOCIATION_DEPTH"
  shows "\<exists>i. withdraw_circuit_input pos p = Ok i \<and> withdraw_circuit pos i"
proof -
  note al = assms(3) [unfolded withdraw_allowed_def]
  then have at: "js_at (wi_stateLeaves p) (wi_stateIndex p) = Some (co_commitment (wi_coin p))"
    "js_at (wi_assocLabels p) (wi_labelIndex p) = Some (co_label (wi_coin p))" by simp_all
  obtain sr ss ar as where t: "tree_paths pos (wi_stateLeaves p) TREE_DEPTH [wi_stateIndex p] = Ok (sr, [ss])"
    "tree_paths pos (wi_assocLabels p) ASSOCIATION_DEPTH [wi_labelIndex p] = Ok (ar, [as])"
    and paths: "paths_to pos (co_commitment (wi_coin p)) (wi_stateIndex p) sr ss (co_label (wi_coin p)) (wi_labelIndex p) ar as"
    using spend_paths [OF assms(1,7,8) at] .
  have "withdraw_circuit pos (withdraw_signals p sr ss ar as)"
    by (rule withdraw_circuit_of_signals) (use assms al paths in simp_all)
  then show ?thesis using al t by (simp add: withdraw_circuit_input_def)
qed

lemma deposit_input_accepted:
  assumes "poseidon_ok pos" "coin_ok pos c" "co_assetId c = db_assetIdHash b"
    and "0 \<le> co_value c" "co_value c \<le> db_amount7dp b" "db_amount7dp b < 2 ^ 128"
  shows "\<exists>i. deposit_circuit_input c b = Ok i \<and> deposit_circuit pos i \<and> deposit_commitment pos i = co_commitment c"
proof -
  have op: "One ''4'' = snum 4" by (simp add: snum_def int_to_string_def) code_simp
  have "deposit_circuit pos (deposit_signals c b) \<and> deposit_commitment pos (deposit_signals c b) = co_commitment c"
    using assms unfolding deposit_circuit_def deposit_commitment_def deposit_signals_def op
    by (simp add: signal_reads coin_commitment_circuit fe_add num2bits_small)
  then show ?thesis using assms by (simp add: deposit_circuit_input_def)
qed


text \<open>Opening a channel.\<close>

lemma fresh_coin_simps [simp]:
  "coin_ok pos (fresh_coin pos d v a)" "co_value (fresh_coin pos d v a) = v" "co_assetId (fresh_coin pos d v a) = a"
  by (simp_all add: fresh_coin_def)

definition open_allowed :: "stream_open_input \<Rightarrow> bool" where
  "open_allowed p \<longleftrightarrow>
    js_at (oi_stateLeaves p) (oi_stateIndex p) = Some (co_commitment (oi_inCoin p)) \<and>
    js_at (oi_assocLabels p) (oi_labelIndex p) = Some (co_label (oi_inCoin p)) \<and> oi_cap p \<le> co_value (oi_inCoin p)"

lemma open_circuit_of_signals:
  assumes "poseidon_ok pos" "coin_ok pos (oi_inCoin p)" "coin_ok pos ch" "coin_ok pos re"
    and "co_assetId ch = co_assetId (oi_inCoin p)" "co_assetId re = co_assetId (oi_inCoin p)"
    and "co_value ch = co_value (oi_inCoin p) - oi_cap p" "co_value re = oi_cap p"
    and "0 \<le> oi_cap p" "oi_cap p \<le> co_value (oi_inCoin p)" "co_value (oi_inCoin p) < 2 ^ 128"
    and "paths_to pos (co_commitment (oi_inCoin p)) (oi_stateIndex p) sr ss (co_label (oi_inCoin p)) (oi_labelIndex p) ar as"
  shows "open_circuit pos (open_signals p ch re sr ss ar as)"
  using assms unfolding open_circuit_def open_signals_def Let_def paths_to_def
  by (simp add: signal_reads coin_commitment_circuit fe_add num2bits_small)

lemma open_input_accepted:
  assumes "poseidon_ok pos" "coin_ok pos (oi_inCoin p)" "open_allowed p" "0 \<le> oi_cap p" "co_value (oi_inCoin p) < 2 ^ 128"
    and "length (oi_stateLeaves p) \<le> 2 ^ TREE_DEPTH" "length (oi_assocLabels p) \<le> 2 ^ ASSOCIATION_DEPTH"
  shows "\<exists>i ch re. open_circuit_input pos d1 d2 p = Ok (i, ch, re) \<and> open_circuit pos i \<and>
    co_value ch + co_value re = co_value (oi_inCoin p) \<and> co_value re = oi_cap p"
proof -
  note al = assms(3) [unfolded open_allowed_def]
  then have at: "js_at (oi_stateLeaves p) (oi_stateIndex p) = Some (co_commitment (oi_inCoin p))"
    "js_at (oi_assocLabels p) (oi_labelIndex p) = Some (co_label (oi_inCoin p))" by simp_all
  obtain sr ss ar as where t: "tree_paths pos (oi_stateLeaves p) TREE_DEPTH [oi_stateIndex p] = Ok (sr, [ss])"
    "tree_paths pos (oi_assocLabels p) ASSOCIATION_DEPTH [oi_labelIndex p] = Ok (ar, [as])"
    and paths: "paths_to pos (co_commitment (oi_inCoin p)) (oi_stateIndex p) sr ss (co_label (oi_inCoin p)) (oi_labelIndex p) ar as"
    using spend_paths [OF assms(1,6,7) at] .
  let ?ch = "fresh_coin pos d1 (co_value (oi_inCoin p) - oi_cap p) (co_assetId (oi_inCoin p))"
  let ?re = "fresh_coin pos d2 (oi_cap p) (co_assetId (oi_inCoin p))"
  have "open_circuit pos (open_signals p ?ch ?re sr ss ar as)"
    by (rule open_circuit_of_signals) (use assms al paths in simp_all)
  then show ?thesis using al t by (simp add: open_circuit_input_def Let_def)
qed

text \<open>Settling a channel with a voucher that verifies off-chain.\<close>

lemma settle_input_accepted:
  assumes "poseidon_ok (poseidon lib)" "verifyVoucher lib (se_voucher p) = Ok True"
    and "0 \<le> v_cumulative (se_voucher p)" "v_cumulative (se_voucher p) \<le> se_cap p" "se_cap p < 2 ^ 128" "field_elem (v_S (se_voucher p))"
  shows "\<exists>i payee refund. settle_circuit_input (poseidon lib) d1 d2 p = Ok (i, payee, refund) \<and> settle_circuit lib i \<and>
    co_value payee = v_cumulative (se_voucher p) \<and> co_value refund = se_cap p - v_cumulative (se_voucher p) \<and>
    settle_payee_commitment (poseidon lib) i = co_commitment payee \<and> settle_refund_commitment (poseidon lib) i = co_commitment refund"
proof -
  let ?v = "se_voucher p" and ?pos = "poseidon lib"
  let ?pa = "fresh_coin ?pos d1 (v_cumulative ?v) (se_assetId p)" and ?rf = "fresh_coin ?pos d2 (se_cap p - v_cumulative ?v) (se_assetId p)"
  let ?i = "settle_signals p ?pa ?rf"
  obtain n where n: "v_seq ?v = NInt n" using assms(2) by (cases "v_seq ?v") (auto simp: verifyVoucher_def)
  have "verifyPoseidon lib (?pos [v_channelId ?v, v_cumulative ?v, n]) ((fe (v_R8x ?v), fe (v_R8y ?v)), v_S ?v) (fe (v_Ax ?v), fe (v_Ay ?v))"
    using assms(2) n by (simp add: verifyVoucher_def Let_def)
  then have "settle_circuit lib ?i"
    using assms n unfolding settle_circuit_def settle_signals_def Let_def
    by (simp add: signal_reads fe_add num2bits_small pos_fe)
  moreover have "settle_payee_commitment ?pos ?i = co_commitment ?pa" "settle_refund_commitment ?pos ?i = co_commitment ?rf"
    using assms(1) n unfolding settle_payee_commitment_def settle_refund_commitment_def settle_signals_def Let_def
    by (simp_all add: signal_reads fe_add coin_commitment_circuit)
  ultimately show ?thesis using assms(4) by (simp add: settle_circuit_input_def Let_def)
qed


section \<open>What an accepted input guarantees\<close>

text \<open>Amounts below \<open>2 ^ 128\<close> cannot wrap around in the field.\<close>

lemma no_wrap_add: "num2bits 128 a \<Longrightarrow> num2bits 128 b \<Longrightarrow> fe (a + b) = a + b"
  by (rule fe_small) (simp_all add: num2bits_def)

lemma no_wrap_sub:
  assumes "field_elem a" "num2bits 128 b" "num2bits 128 (fe (a - b))"
  shows "fe (a - b) = a - b"
proof -
  have "fe (fe (a - b) + b) = fe a" by (simp add: fe_def mod_simps)
  then have "fe (a - b) + b = a" using no_wrap_add [OF assms(3,2)] assms(1) by simp
  then show ?thesis by simp
qed

lemma sig1_field [simp]: "field_elem (sig1 i n)"
  by (auto simp: sig1_def field_elem_def fe_def bn254_r_def split: option.split signal.split)

lemma transfer_circuit_conserves:
  "transfer_circuit pos i \<Longrightarrow> sig1 i ''inValue'' = sig1 i ''outValue'' + sig1 i ''feePublic''"
  unfolding transfer_circuit_def using no_wrap_add by metis

lemma withdraw_circuit_conserves:
  assumes "withdraw_circuit pos i"
  shows "sig1 i ''relayerFee'' \<le> sig1 i ''withdrawnValue'' \<and> sig1 i ''withdrawnValue'' \<le> sig1 i ''value''"
proof -
  have r: "num2bits 128 (fe (sig1 i ''value'' - sig1 i ''withdrawnValue''))" "num2bits 128 (sig1 i ''withdrawnValue'')"
    "num2bits 128 (fe (sig1 i ''withdrawnValue'' - sig1 i ''relayerFee''))" "num2bits 128 (sig1 i ''relayerFee'')"
    using assms unfolding withdraw_circuit_def by simp_all
  show ?thesis using no_wrap_sub [OF sig1_field r(2,1)] no_wrap_sub [OF sig1_field r(4,3)] r(1,3) unfolding num2bits_def by linarith
qed

lemma deposit_circuit_conserves:
  assumes "deposit_circuit pos i"
  shows "0 \<le> sig1 i ''value'' \<and> sig1 i ''value'' \<le> sig1 i ''amount7dp''"
proof -
  have r: "num2bits 128 (fe (sig1 i ''amount7dp'' - sig1 i ''value''))" "num2bits 128 (sig1 i ''value'')"
    using assms unfolding deposit_circuit_def by simp_all
  show ?thesis using no_wrap_sub [OF sig1_field r(2,1)] r unfolding num2bits_def by linarith
qed

lemma open_circuit_conserves:
  assumes "open_circuit pos i"
  shows "0 \<le> sig1 i ''cap'' \<and> sig1 i ''cap'' \<le> sig1 i ''inValue'' \<and> fe (sig1 i ''inValue'' - sig1 i ''cap'') = sig1 i ''inValue'' - sig1 i ''cap''"
proof -
  have r: "num2bits 128 (fe (sig1 i ''inValue'' - sig1 i ''cap''))" "num2bits 128 (sig1 i ''cap'')"
    using assms unfolding open_circuit_def by simp_all
  show ?thesis using no_wrap_sub [OF sig1_field r(2,1)] r unfolding num2bits_def by linarith
qed

lemma settle_circuit_conserves:
  assumes "settle_circuit lib i"
  shows "0 \<le> sig1 i ''cumulative'' \<and> sig1 i ''cumulative'' \<le> sig1 i ''cap'' \<and>
    fe (sig1 i ''cap'' - sig1 i ''cumulative'') = sig1 i ''cap'' - sig1 i ''cumulative''"
proof -
  have r: "num2bits 128 (fe (sig1 i ''cap'' - sig1 i ''cumulative''))" "num2bits 128 (sig1 i ''cumulative'')"
    using assms unfolding settle_circuit_def by simp_all
  show ?thesis using no_wrap_sub [OF sig1_field r(2,1)] r unfolding num2bits_def by linarith
qed


section \<open>Committee settlements\<close>

definition paths2_to ::
  "poseidon \<Rightarrow> int \<times> int \<Rightarrow> int \<times> int \<Rightarrow> int \<Rightarrow> int list list \<Rightarrow> int \<times> int \<Rightarrow> int \<times> int \<Rightarrow> int \<Rightarrow> int list list \<Rightarrow> bool" where
  "paths2_to pos x i sr ss l j ar as \<longleftrightarrow>
     paths_to pos (fst x) (fst i) sr (ss ! 0) (fst l) (fst j) ar (as ! 0) \<and>
     paths_to pos (snd x) (snd i) sr (ss ! 1) (snd l) (snd j) ar (as ! 1)"

lemma spend_paths2:
  assumes "poseidon_ok pos" "length leaves \<le> 2 ^ TREE_DEPTH" "length labels \<le> 2 ^ ASSOCIATION_DEPTH"
    and "js_at leaves i = Some x" "js_at leaves i' = Some x'" "js_at labels j = Some l" "js_at labels j' = Some l'"
  obtains sr ss ar as where
    "tree_paths pos leaves TREE_DEPTH [i, i'] = Ok (sr, ss)" "tree_paths pos labels ASSOCIATION_DEPTH [j, j'] = Ok (ar, as)"
    "paths2_to pos (x, x') (i, i') sr ss (l, l') (j, j') ar as"
proof -
  obtain sr ss ts where s: "tree_paths pos leaves TREE_DEPTH [i, i'] = Ok (sr, [ss, ts])" "length ss = 12" "length ts = 12" "fe sr = sr"
    "fe i = i" "fe i' = i'" "merkle_circuit pos 12 (fe x) i (map fe ss) = Some sr" "merkle_circuit pos 12 (fe x') i' (map fe ts) = Some sr"
    using two_paths [OF assms(1) _ _ assms(2,4,5)] by (auto simp: TREE_DEPTH_def)
  obtain ar as bs where a: "tree_paths pos labels ASSOCIATION_DEPTH [j, j'] = Ok (ar, [as, bs])" "length as = 2" "length bs = 2" "fe ar = ar"
    "fe j = j" "fe j' = j'" "merkle_circuit pos 2 (fe l) j (map fe as) = Some ar" "merkle_circuit pos 2 (fe l') j' (map fe bs) = Some ar"
    using two_paths [OF assms(1) _ _ assms(3,6,7)] by (auto simp: ASSOCIATION_DEPTH_def)
  show thesis by (rule that [OF s(1) a(1)]) (use s a in \<open>simp add: paths2_to_def paths_to_def\<close>)
qed

definition settlement_allowed :: "mpc_settlement_input \<Rightarrow> bool" where
  "settlement_allowed p \<longleftrightarrow>
    co_assetId (si_coinA p) = co_assetId (si_coinB p) \<and> co_assetId (si_outCoinA p) = co_assetId (si_coinA p) \<and>
    co_assetId (si_outCoinB p) = co_assetId (si_coinA p) \<and>
    co_value (si_outCoinA p) + co_value (si_outCoinB p) = si_matchedAmount7dp p * 2 \<and>
    js_at (si_stateLeaves p) (si_stateIndexA p) = Some (co_commitment (si_coinA p)) \<and>
    js_at (si_stateLeaves p) (si_stateIndexB p) = Some (co_commitment (si_coinB p)) \<and>
    js_at (si_assocLabels p) (si_labelIndexA p) = Some (co_label (si_coinA p)) \<and>
    js_at (si_assocLabels p) (si_labelIndexB p) = Some (co_label (si_coinB p))"

lemma settlement_circuit_of_signals:
  assumes "poseidon_ok pos" "coin_ok pos (si_coinA p)" "coin_ok pos (si_coinB p)" "coin_ok pos (si_outCoinA p)"
    and "co_assetId (si_coinB p) = co_assetId (si_coinA p)" "co_assetId (si_outCoinA p) = co_assetId (si_coinA p)"
    and "co_value (si_outCoinA p) + co_value (si_outCoinB p) = si_matchedAmount7dp p * 2"
    and "si_matchedAmount7dp p \<le> co_value (si_coinA p)" "co_value (si_coinA p) < 2 ^ 128 + si_matchedAmount7dp p"
    and "si_matchedAmount7dp p \<le> co_value (si_coinB p)" "co_value (si_coinB p) < 2 ^ 128 + si_matchedAmount7dp p"
    and "paths2_to pos (co_commitment (si_coinA p), co_commitment (si_coinB p)) (si_stateIndexA p, si_stateIndexB p) sr ss
      (co_label (si_coinA p), co_label (si_coinB p)) (si_labelIndexA p, si_labelIndexB p) ar as"
  shows "settlement_circuit pos (settlement_signals p sr ss ar as) \<and>
    settlement_output_A pos (settlement_signals p sr ss ar as) = co_commitment (si_outCoinA p)"
proof -
  have twice: "fe (fe (si_matchedAmount7dp p) * 2) = fe (si_matchedAmount7dp p * 2)" by (simp add: fe_def mod_simps)
  show ?thesis
    using assms unfolding settlement_circuit_def settlement_output_A_def settlement_names_def settlement_signals_def Let_def
      paths2_to_def paths_to_def
    by (simp add: signal_reads coin_commitment_circuit fe_add num2bits_small twice)
qed

lemma settlement_input_accepted:
  assumes "poseidon_ok pos" "coin_ok pos (si_coinA p)" "coin_ok pos (si_coinB p)" "coin_ok pos (si_outCoinA p)" "settlement_allowed p"
    and "0 \<le> si_matchedAmount7dp p" "si_matchedAmount7dp p \<le> co_value (si_coinA p)" "si_matchedAmount7dp p \<le> co_value (si_coinB p)"
    and "co_value (si_coinA p) < 2 ^ 128" "co_value (si_coinB p) < 2 ^ 128"
    and "length (si_stateLeaves p) \<le> 2 ^ TREE_DEPTH" "length (si_assocLabels p) \<le> 2 ^ ASSOCIATION_DEPTH"
  shows "\<exists>i. settlement_circuit_input pos p = Ok i \<and> settlement_circuit pos i \<and> settlement_output_A pos i = co_commitment (si_outCoinA p)"
proof -
  note al = assms(5) [unfolded settlement_allowed_def]
  then have at: "js_at (si_stateLeaves p) (si_stateIndexA p) = Some (co_commitment (si_coinA p))"
    "js_at (si_stateLeaves p) (si_stateIndexB p) = Some (co_commitment (si_coinB p))"
    "js_at (si_assocLabels p) (si_labelIndexA p) = Some (co_label (si_coinA p))"
    "js_at (si_assocLabels p) (si_labelIndexB p) = Some (co_label (si_coinB p))" by simp_all
  obtain sr ss ar as where t: "tree_paths pos (si_stateLeaves p) TREE_DEPTH [si_stateIndexA p, si_stateIndexB p] = Ok (sr, ss)"
    "tree_paths pos (si_assocLabels p) ASSOCIATION_DEPTH [si_labelIndexA p, si_labelIndexB p] = Ok (ar, as)"
    and paths: "paths2_to pos (co_commitment (si_coinA p), co_commitment (si_coinB p)) (si_stateIndexA p, si_stateIndexB p) sr ss
      (co_label (si_coinA p), co_label (si_coinB p)) (si_labelIndexA p, si_labelIndexB p) ar as"
    using spend_paths2 [OF assms(1,11,12) at] .
  have "settlement_circuit pos (settlement_signals p sr ss ar as) \<and>
    settlement_output_A pos (settlement_signals p sr ss ar as) = co_commitment (si_outCoinA p)"
    by (rule settlement_circuit_of_signals) (use assms al paths in simp_all)
  then show ?thesis using al t by (simp add: settlement_circuit_input_def Let_def)
qed

text \<open>The comparators on amounts that fit.\<close>

lemma less_than_ok:
  assumes "a < b" "b - a \<le> 2 ^ n" "n \<le> 128"
  shows "less_than n (fe a) (fe b) = Some 1"
proof -
  have p: "(2 :: int) ^ n \<le> 2 ^ 128" using assms(3) by (intro power_increasing) simp_all
  have "fe (fe a + 2 ^ n - fe b) = fe (a + 2 ^ n - b)"
    unfolding fe_def by (metis add_diff_eq mod_add_left_eq mod_diff_right_eq)
  also have "\<dots> = a + 2 ^ n - b"
  proof (rule fe_small)
    have "a + 2 ^ n - b < 2 ^ 128" using assms(1) p by linarith
    also have "(2 :: int) ^ 128 < 2 ^ 253" by simp
    finally show "a + 2 ^ n - b < 2 ^ 253" .
  qed (use assms(2) in linarith)
  finally show ?thesis using assms by (simp add: less_than_def Let_def num2bits_def)
qed

definition priced_amounts_ok :: "mpc_priced_input \<Rightarrow> bool" where
  "priced_amounts_ok p \<longleftrightarrow>
    price_scale p = 1000000000 \<and> 0 \<le> pi_matchedAmountA p \<and> pi_matchedAmountA p < 2 ^ 64 \<and> pi_matchedAmountB p < 2 ^ 64 \<and>
    0 \<le> pi_priceScaled p \<and> 0 \<le> pi_minOutputA p \<and> 0 \<le> pi_minOutputB p"

lemma price_floor:
  fixes a s :: int
  assumes "0 \<le> a" "0 \<le> s" "b = js_div (a * s) 1000000000"
  shows "b * 1000000000 \<le> a * s" "a * s - b * 1000000000 < 1000000000"
proof -
  have "b = (a * s) div 1000000000" using assms by simp
  then show "b * 1000000000 \<le> a * s" "a * s - b * 1000000000 < 1000000000" by linarith+
qed

lemma priced_circuit_of_signals:
  assumes "poseidon_ok pos" "coin_ok pos (pi_coinA p)" "coin_ok pos (pi_coinB p)" "priced_refusal p = None" "priced_amounts_ok p"
    and "fe (co_assetId (pi_coinA p)) \<noteq> fe (co_assetId (pi_coinB p))"
    and "paths2_to pos (co_commitment (pi_coinA p), co_commitment (pi_coinB p)) (pi_stateIndexA p, pi_stateIndexB p) sr ss
      (co_label (pi_coinA p), co_label (pi_coinB p)) (pi_labelIndexA p, pi_labelIndexB p) ar as"
  shows "priced_circuit pos (priced_signals p sr ss ar as)"
proof -
  let ?A = "pi_matchedAmountA p" and ?B = "pi_matchedAmountB p" and ?s = "pi_priceScaled p"
  have r: "co_assetId (pi_outCoinA p) = co_assetId (pi_coinB p)" "co_assetId (pi_outCoinB p) = co_assetId (pi_coinA p)"
    "co_value (pi_coinA p) = ?A" "co_value (pi_coinB p) = ?B" "?B = js_div (?A * ?s) (price_scale p)"
    "pi_minOutputA p \<le> ?B" "pi_minOutputB p \<le> ?A"
    using assms(4) unfolding priced_refusal_def Let_def by (auto split: if_splits)
  note ok = assms(5) [unfolded priced_amounts_ok_def]
  have fl: "?B * 1000000000 \<le> ?A * ?s" "?A * ?s - ?B * 1000000000 < 1000000000"
    using price_floor [of ?A ?s ?B] ok r(5) by simp_all
  have prods: "fe (fe ?A * fe ?s) = fe (?A * ?s)" "fe (fe ?B * 1000000000) = fe (?B * 1000000000)"
    "fe (fe x + 1) = fe (x + 1)" for x by (simp_all add: fe_def mod_simps)
  have rem: "fe (x - fe ?B * 1000000000) = fe (x - ?B * 1000000000)" for x
    unfolding fe_def by (metis mod_diff_right_eq mod_mult_left_eq)
  have scale: "fe 1000000000 = 1000000000" by (rule fe_small) simp_all
  have c1: "less_than 128 (fe (?B * 1000000000)) (fe (?A * ?s + 1)) = Some 1" by (rule less_than_ok) (use fl in simp_all)
  have c2: "less_than 64 (fe (?A * ?s - ?B * 1000000000)) (fe 1000000000) = Some 1" by (rule less_than_ok) (use fl in simp_all)
  have c3: "less_than 64 (fe (pi_minOutputA p)) (fe (?B + 1)) = Some 1" "less_than 64 (fe (pi_minOutputB p)) (fe (?A + 1)) = Some 1"
    by (rule less_than_ok; use ok r(6,7) in \<open>linarith | simp\<close>)+
  show ?thesis
    using assms(1-3,6,7) r(1-4) ok unfolding priced_circuit_def priced_names_def priced_signals_def Let_def paths2_to_def paths_to_def
    by (simp add: signal_reads coin_commitment_circuit fe_add prods rem scale c1 c2 [unfolded scale] c3)
qed

lemma priced_input_accepted:
  assumes "poseidon_ok pos" "coin_ok pos (pi_coinA p)" "coin_ok pos (pi_coinB p)" "priced_refusal p = None" "priced_amounts_ok p"
    and "fe (co_assetId (pi_coinA p)) \<noteq> fe (co_assetId (pi_coinB p))"
    and "length (pi_stateLeaves p) \<le> 2 ^ TREE_DEPTH" "length (pi_assocLabels p) \<le> 2 ^ ASSOCIATION_DEPTH"
  shows "\<exists>i. priced_circuit_input pos p = Ok i \<and> priced_circuit pos i"
proof -
  have at: "js_at (pi_stateLeaves p) (pi_stateIndexA p) = Some (co_commitment (pi_coinA p))"
    "js_at (pi_stateLeaves p) (pi_stateIndexB p) = Some (co_commitment (pi_coinB p))"
    "js_at (pi_assocLabels p) (pi_labelIndexA p) = Some (co_label (pi_coinA p))"
    "js_at (pi_assocLabels p) (pi_labelIndexB p) = Some (co_label (pi_coinB p))"
    using assms(4) unfolding priced_refusal_def Let_def by (auto split: if_splits)
  obtain sr ss ar as where t: "tree_paths pos (pi_stateLeaves p) TREE_DEPTH [pi_stateIndexA p, pi_stateIndexB p] = Ok (sr, ss)"
    "tree_paths pos (pi_assocLabels p) ASSOCIATION_DEPTH [pi_labelIndexA p, pi_labelIndexB p] = Ok (ar, as)"
    and paths: "paths2_to pos (co_commitment (pi_coinA p), co_commitment (pi_coinB p)) (pi_stateIndexA p, pi_stateIndexB p) sr ss
      (co_label (pi_coinA p), co_label (pi_coinB p)) (pi_labelIndexA p, pi_labelIndexB p) ar as"
    using spend_paths2 [OF assms(1,7,8) at] .
  then show ?thesis using priced_circuit_of_signals [OF assms(1-6)] assms(4) by (auto simp: priced_circuit_input_def)
qed

end
