(* ===== verification/Spends.thy ===== *)
theory Spends
  imports Circuits
begin

text \<open>
  The properties of the proof layer: the builders of \<open>prove.ts\<close> and \<open>stream.ts\<close> against the circuits, the
  amounts an accepted input can move, a channel from its opening to its settlement, and the committee
  settlement whose output amounts nothing bounds.
\<close>

section \<open>A Poseidon to run the builders on\<close>

definition demo_pos :: poseidon where
  "demo_pos xs = fe (foldl (\<lambda>acc x. 7 * acc + fe x + 1) 3 xs)"

lemma demo_pos_ok [simp]: "poseidon_ok demo_pos"
proof -
  have "foldl (\<lambda>acc x. 7 * acc + fe x + 1) a (map fe xs) = foldl (\<lambda>acc x. 7 * acc + fe x + 1) a xs" for a and xs :: "int list"
    by (induction xs arbitrary: a) simp_all
  then show ?thesis by (simp add: poseidon_ok_def demo_pos_def)
qed

definition demo_coin :: "int \<Rightarrow> int \<Rightarrow> bn254_coin" where
  "demo_coin n v = generateCoinBn254 demo_pos [word_of_int n] [2] [3] v 5 (Some 9)"

lemma demo_coin_simps [simp]:
  "coin_ok demo_pos (demo_coin n v)" "co_value (demo_coin n v) = v" "co_assetId (demo_coin n v) = 5" "co_label (demo_coin n v) = 9"
  by (simp_all add: demo_coin_def) (simp_all add: generateCoinBn254_def Let_def)

lemma js_at_simps [simp]: "js_at (x # xs) 0 = Some x" "js_at (x # y # xs) 1 = Some y"
  by (simp_all add: js_at_def)


section \<open>Builders and circuits\<close>

definition spend_sizes :: "int list \<Rightarrow> int list \<Rightarrow> bool" where
  "spend_sizes leaves labels \<longleftrightarrow> length leaves \<le> 2 ^ TREE_DEPTH \<and> length labels \<le> 2 ^ ASSOCIATION_DEPTH"


definition demo_transfer :: transfer_input where
  "demo_transfer = \<lparr> ti_inCoin = demo_coin 1 100, ti_outCoin = demo_coin 4 97, ti_stateLeaves = [co_commitment (demo_coin 1 100)],
     ti_stateIndex = 0, ti_assocLabels = [9], ti_labelIndex = 0, ti_feePublic = 3, ti_poolId = 1, ti_chainId = 27 \<rparr>"

definition demo_binding :: withdraw_binding where
  "demo_binding = \<lparr> wb_operationType = OP_WITHDRAW_PUBLIC, wb_recipientHash = 77, wb_relayerFee = 1, wb_deadlineLedger = 1000,
     wb_quoteHash = None, wb_intentHash = None, wb_fillReceiptHash = None, wb_destinationDomain = None,
     wb_destinationRecipient = None, wb_maxFee = None, wb_minFinalityThreshold = None \<rparr>"

definition demo_withdraw :: "int \<Rightarrow> withdraw_input" where
  "demo_withdraw v = \<lparr> wi_coin = demo_coin 1 v, wi_withdrawnValue = v, wi_stateLeaves = [co_commitment (demo_coin 1 v)],
     wi_stateIndex = 0, wi_assocLabels = [9], wi_labelIndex = 0, wi_poolId = 1, wi_chainId = 27, wi_binding = demo_binding \<rparr>"

lemmas demo_inputs = demo_transfer_def demo_withdraw_def demo_binding_def transfer_allowed_def withdraw_allowed_def spend_sizes_def
  TREE_DEPTH_def ASSOCIATION_DEPTH_def


text \<open>C9: no accepted circuit input creates value: a transfer splits the spent note into the output and the
  fee, a withdrawal takes at most the note and pays the relayer at most the withdrawal, a deposit mints at
  most the bridged amount, a channel reserves at most the note and settles at most its cap, all as
  integers, without wrap-around in the field.\<close>

theorem circuits_conserve_value:
  "(transfer_circuit pos i \<longrightarrow> sig1 i ''inValue'' = sig1 i ''outValue'' + sig1 i ''feePublic'') \<and>
   (withdraw_circuit pos i \<longrightarrow> sig1 i ''relayerFee'' \<le> sig1 i ''withdrawnValue'' \<and> sig1 i ''withdrawnValue'' \<le> sig1 i ''value'') \<and>
   (deposit_circuit pos i \<longrightarrow> 0 \<le> sig1 i ''value'' \<and> sig1 i ''value'' \<le> sig1 i ''amount7dp'') \<and>
   (open_circuit pos i \<longrightarrow> 0 \<le> sig1 i ''cap'' \<and> sig1 i ''cap'' \<le> sig1 i ''inValue'' \<and>
      sig1 i ''changeCommitment'' = commitment_circuit pos (sig1 i ''assetId'') (sig1 i ''inValue'' - sig1 i ''cap'')
        (sig1 i ''changeLabel'') (sig1 i ''changeNullifier'') (sig1 i ''changeSecret'')) \<and>
   (settle_circuit lib i \<longrightarrow> 0 \<le> sig1 i ''cumulative'' \<and> sig1 i ''cumulative'' \<le> sig1 i ''cap'' \<and>
      settle_refund_commitment pos i = commitment_circuit pos (sig1 i ''assetId'') (sig1 i ''cap'' - sig1 i ''cumulative'')
        (sig1 i ''refundLabel'') (sig1 i ''refundNullifier'') (sig1 i ''refundSecret''))"
proof (intro conjI impI)
  assume o: "open_circuit pos i"
  then show "0 \<le> sig1 i ''cap''" "sig1 i ''cap'' \<le> sig1 i ''inValue''" using open_circuit_conserves by blast+
  show "sig1 i ''changeCommitment'' = commitment_circuit pos (sig1 i ''assetId'') (sig1 i ''inValue'' - sig1 i ''cap'')
        (sig1 i ''changeLabel'') (sig1 i ''changeNullifier'') (sig1 i ''changeSecret'')"
    using o open_circuit_conserves [OF o] unfolding open_circuit_def by metis
qed (use transfer_circuit_conserves withdraw_circuit_conserves deposit_circuit_conserves settle_circuit_conserves
  in \<open>auto simp: settle_refund_commitment_def\<close>)

definition demo_deposit :: deposit_binding where
  "demo_deposit = \<lparr> db_sourceDomain = 3, db_destinationDomain = 27, db_cctpNonceHash = 5, db_burnTxHashHash = 6, db_amount6dp = 10,
     db_amount7dp = 100, db_assetIdHash = 5, db_recipientPool = 1, db_encryptedNotePayloadHash = 8, db_policyIdHash = 9,
     db_poolId = 1, db_chainId = 27 \<rparr>"

theorem circuits_conserve_value_witness:
  "\<exists>i. deposit_circuit_input (demo_coin 1 90) demo_deposit = Ok i \<and> sig1 i ''value'' \<le> sig1 i ''amount7dp''"
proof -
  obtain i where "deposit_circuit_input (demo_coin 1 90) demo_deposit = Ok i" "deposit_circuit demo_pos i"
    using deposit_input_accepted [of demo_pos "demo_coin 1 90" demo_deposit] by (auto simp: demo_deposit_def)
  then show ?thesis using circuits_conserve_value [of demo_pos i undefined] by blast
qed


section \<open>A channel from opening to settlement\<close>

text \<open>A payer opens a channel on a note it owns and signs vouchers for it; whoever settles with a voucher
  that verifies and stays within the cap obtains an accepted opening and an accepted settlement, whose
  change, payee and refund notes share the value of the spent note, with the payee's note worth exactly
  the voucher.\<close>

theorem channel_open_to_settle:
  assumes "poseidon_ok (poseidon lib)" "coin_ok (poseidon lib) (oi_inCoin p)" "open_allowed p" "0 \<le> oi_cap p"
    and "co_value (oi_inCoin p) < 2 ^ 128" "spend_sizes (oi_stateLeaves p) (oi_assocLabels p)"
    and "verifyVoucher lib (se_voucher q) = Ok True" "se_cap q = oi_cap p" "field_elem (v_S (se_voucher q))"
    and "0 \<le> v_cumulative (se_voucher q)" "v_cumulative (se_voucher q) \<le> oi_cap p"
  shows "\<exists>i change reclaim j payee refund.
    open_circuit_input (poseidon lib) d1 d2 p = Ok (i, change, reclaim) \<and> open_circuit (poseidon lib) i \<and>
    settle_circuit_input (poseidon lib) d3 d4 q = Ok (j, payee, refund) \<and> settle_circuit lib j \<and>
    co_value change + co_value payee + co_value refund = co_value (oi_inCoin p) \<and>
    co_value payee = v_cumulative (se_voucher q) \<and> co_value reclaim = oi_cap p \<and>
    settle_payee_commitment (poseidon lib) j = co_commitment payee \<and> settle_refund_commitment (poseidon lib) j = co_commitment refund"
proof -
  have cap: "oi_cap p < 2 ^ 128" using assms(3,5) unfolding open_allowed_def by linarith
  obtain i ch re where o: "open_circuit_input (poseidon lib) d1 d2 p = Ok (i, ch, re)" "open_circuit (poseidon lib) i"
    "co_value ch + co_value re = co_value (oi_inCoin p)" "co_value re = oi_cap p"
    using open_input_accepted [OF assms(1-5)] assms(6) unfolding spend_sizes_def by blast
  obtain j pa rf where s: "settle_circuit_input (poseidon lib) d3 d4 q = Ok (j, pa, rf)" "settle_circuit lib j"
    "co_value pa = v_cumulative (se_voucher q)" "co_value rf = se_cap q - v_cumulative (se_voucher q)"
    "settle_payee_commitment (poseidon lib) j = co_commitment pa" "settle_refund_commitment (poseidon lib) j = co_commitment rf"
    using settle_input_accepted [OF assms(1,7,10)] assms(8,9,11) cap by metis
  show ?thesis using o s assms(8) by (intro exI conjI) (assumption | simp)+
qed


definition demo_eddsa :: eddsa_lib where
  "demo_eddsa = \<lparr> poseidon = demo_pos, prv2pub = (\<lambda>_. (1, 2)), signPoseidon = (\<lambda>_ m. ((3, 4), m)),
     verifyPoseidon = (\<lambda>m sig pub. snd sig = m) \<rparr>"

definition demo_open :: stream_open_input where
  "demo_open = \<lparr> oi_inCoin = demo_coin 1 100, oi_stateLeaves = [co_commitment (demo_coin 1 100)], oi_stateIndex = 0,
     oi_assocLabels = [9], oi_labelIndex = 0, oi_channelId = 7, oi_payerAx = 1, oi_payerAy = 2, oi_cap = 60, oi_expiry = 500,
     oi_poolId = 1, oi_chainId = 27 \<rparr>"

definition demo_settle :: stream_settle_input where
  "demo_settle = \<lparr> se_voucher = \<lparr> v_channelId = 7, v_cumulative = 25, v_seq = NInt 3, v_R8x = 3, v_R8y = 4,
       v_S = demo_pos [7, 25, 3], v_Ax = 1, v_Ay = 2 \<rparr>, se_cap = 60, se_assetId = 5, se_associationRoot = 0, se_poolId = 1, se_chainId = 27 \<rparr>"

definition demo_draws :: coin_draws where
  "demo_draws = \<lparr> cd_nullifier = [1], cd_secret = [2], cd_label = [3] \<rparr>"

theorem channel_open_to_settle_witness:
  "\<exists>i change reclaim j payee refund.
    open_circuit_input demo_pos demo_draws demo_draws demo_open = Ok (i, change, reclaim) \<and> open_circuit demo_pos i \<and>
    settle_circuit_input demo_pos demo_draws demo_draws demo_settle = Ok (j, payee, refund) \<and> settle_circuit demo_eddsa j \<and>
    co_value payee = 25"
proof -
  have lib: "poseidon demo_eddsa = demo_pos" by (simp add: demo_eddsa_def)
  have "verifyVoucher demo_eddsa (se_voucher demo_settle) = Ok True" "field_elem (v_S (se_voucher demo_settle))"
    by (simp_all add: verifyVoucher_def demo_settle_def demo_eddsa_def Let_def pos_field)
  with channel_open_to_settle [of demo_eddsa demo_open demo_settle demo_draws demo_draws demo_draws demo_draws]
  show ?thesis by (auto simp: lib demo_open_def demo_settle_def open_allowed_def spend_sizes_def TREE_DEPTH_def ASSOCIATION_DEPTH_def)
qed


section \<open>Committee settlements\<close>

text \<open>C18: the committee settlement bounds neither output amount: for two notes of one asset and any extra
  amount \<open>k\<close>, the builder accepts an output note worth both inputs and \<open>k\<close> more (with a negative amount in
  the other output), the circuit accepts the signals, and once that note is in the tree its owner withdraws
  the whole of it.\<close>

theorem mpc_settlement_mints_value:
  fixes k :: int
  assumes "poseidon_ok pos" "coin_ok pos (si_coinA p)" "coin_ok pos (si_coinB p)" "coin_ok pos (si_outCoinA p)" "settlement_allowed p"
    and "0 \<le> si_matchedAmount7dp p" "si_matchedAmount7dp p \<le> co_value (si_coinA p)" "si_matchedAmount7dp p \<le> co_value (si_coinB p)"
    and "co_value (si_coinA p) < 2 ^ 128" "co_value (si_coinB p) < 2 ^ 128"
    and "spend_sizes (si_stateLeaves p) (si_assocLabels p)"
    and "0 \<le> k" "co_value (si_outCoinA p) = co_value (si_coinA p) + co_value (si_coinB p) + k" "co_value (si_outCoinA p) < 2 ^ 128"
    and "wi_coin w = si_outCoinA p" "wi_withdrawnValue w = co_value (si_outCoinA p)" "withdraw_allowed w"
    and "spend_sizes (wi_stateLeaves w) (wi_assocLabels w)" "0 \<le> wb_relayerFee (wi_binding w)"
    and "wb_relayerFee (wi_binding w) \<le> wi_withdrawnValue w"
  shows "(\<exists>i. buildMpcSettlementProofBn254 lib pos p = proveBn254Circuit lib ''mpc_settlement_bn254'' i \<and>
      settlement_circuit pos i \<and> settlement_output_A pos i = co_commitment (si_outCoinA p)) \<and>
    (\<exists>j. buildWithdrawProofBn254 lib pos w = proveBn254Circuit lib ''withdraw_public_bn254'' j \<and> withdraw_circuit pos j) \<and>
    wi_withdrawnValue w = co_value (si_coinA p) + co_value (si_coinB p) + k"
proof -
  obtain i where i: "settlement_circuit_input pos p = Ok i" "settlement_circuit pos i" "settlement_output_A pos i = co_commitment (si_outCoinA p)"
    using settlement_input_accepted [OF assms(1-10)] assms(11) unfolding spend_sizes_def by blast
  have "coin_ok pos (wi_coin w)" "co_value (wi_coin w) < 2 ^ 128" using assms(4,14,15) by simp_all
  then obtain j where j: "withdraw_circuit_input pos w = Ok j" "withdraw_circuit pos j"
    using withdraw_input_accepted [OF assms(1) _ assms(17) _ assms(19,20)] assms(18) unfolding spend_sizes_def by blast
  show ?thesis using i j assms(13,16) by (auto simp: buildMpcSettlementProofBn254_def buildWithdrawProofBn254_def)
qed

definition demo_settlement :: mpc_settlement_input where
  "demo_settlement = \<lparr> si_coinA = demo_coin 1 10, si_coinB = demo_coin 2 10, si_outCoinA = demo_coin 1 1000020, si_outCoinB = demo_coin 4 (- 1000000),
     si_stateLeaves = [co_commitment (demo_coin 1 10), co_commitment (demo_coin 2 10)], si_stateIndexA = 0, si_stateIndexB = 1,
     si_assocLabels = [9], si_labelIndexA = 0, si_labelIndexB = 0, si_matchedAmount7dp = 10, si_batchHash = 3, si_poolId = 1,
     si_chainId = 27, si_deadlineLedger = 1000 \<rparr>"

theorem mpc_settlement_mints_value_witness:
  "\<forall>lib. \<exists>i j. buildMpcSettlementProofBn254 lib demo_pos demo_settlement = proveBn254Circuit lib ''mpc_settlement_bn254'' i \<and>
      settlement_circuit demo_pos i \<and>
      buildWithdrawProofBn254 lib demo_pos (demo_withdraw 1000020) = proveBn254Circuit lib ''withdraw_public_bn254'' j \<and> withdraw_circuit demo_pos j \<and>
      co_value (si_coinA demo_settlement) + co_value (si_coinB demo_settlement) < wi_withdrawnValue (demo_withdraw 1000020)"
proof
  fix lib
  from mpc_settlement_mints_value [of demo_pos demo_settlement 1000000 "demo_withdraw 1000020" lib]
  show "\<exists>i j. buildMpcSettlementProofBn254 lib demo_pos demo_settlement = proveBn254Circuit lib ''mpc_settlement_bn254'' i \<and>
      settlement_circuit demo_pos i \<and>
      buildWithdrawProofBn254 lib demo_pos (demo_withdraw 1000020) = proveBn254Circuit lib ''withdraw_public_bn254'' j \<and> withdraw_circuit demo_pos j \<and>
      co_value (si_coinA demo_settlement) + co_value (si_coinB demo_settlement) < wi_withdrawnValue (demo_withdraw 1000020)"
    by (auto simp: demo_settlement_def demo_inputs settlement_allowed_def)
qed

end
