(* ===== verification/Workers.thy ===== *)
theory Workers
  imports JobQueue
begin

text \<open>
  What the queue workers share: a worker claims a job, works on it through in-progress states, completes it
  or marks it failed. The locale states what the worker's processing function promises (it changes the
  queue only by moving its own job through in-progress states); its lemma is the life of a claimed job.
\<close>

section \<open>Statements that return\<close>

lemma andThen_returns:
  "andThen m f s = (Inr b, s') \<longleftrightarrow> (\<exists>a s1. m s = (Inr a, s1) \<and> f a s1 = (Inr b, s'))"
  by (cases "m s"; cases "fst (m s)") (auto simp: andThen_def)


section \<open>Working on one job\<close>

definition works_on :: "nat \<Rightarrow> queue_state \<Rightarrow> queue_state \<Rightarrow> bool" where
  "works_on jid q q' \<longleftrightarrow> (\<exists>sts. list_all (\<lambda>(st, d). st \<notin> {''queued'', ''failed_retry''}) sts \<and>
     q' = fold (\<lambda>(st, d) q. snd (setStatus jid st d q)) sts q)"

lemma works_on_refl [simp]: "works_on jid q q"
  unfolding works_on_def by (rule exI [of _ "[]"]) simp

lemma works_on_trans [trans]:
  assumes "works_on jid a b" "works_on jid b c"
  shows "works_on jid a c"
proof -
  obtain s1 s2 where "list_all (\<lambda>(st, d). st \<notin> {''queued'', ''failed_retry''}) s1" "list_all (\<lambda>(st, d). st \<notin> {''queued'', ''failed_retry''}) s2"
    "b = fold (\<lambda>(st, d) q. snd (setStatus jid st d q)) s1 a" "c = fold (\<lambda>(st, d) q. snd (setStatus jid st d q)) s2 b"
    using assms unfolding works_on_def by blast
  then show ?thesis unfolding works_on_def by (intro exI [of _ "s1 @ s2"]) simp
qed

lemma works_on_status: "st \<notin> {''queued'', ''failed_retry''} \<Longrightarrow> works_on jid q (snd (setStatus jid st d q))"
  unfolding works_on_def by (rule exI [of _ "[(st, d)]"]) simp

lemma works_on_inv: "works_on jid q q' \<Longrightarrow> queue_inv q \<Longrightarrow> queue_inv q'"
proof -
  have "list_all (\<lambda>(st, d). st \<notin> {''queued'', ''failed_retry''}) sts \<Longrightarrow> queue_inv q \<Longrightarrow>
      queue_inv (fold (\<lambda>(st, d) q. snd (setStatus jid st d q)) sts q)" for sts q
    by (induction sts arbitrary: q) (auto simp: setStatus_inv)
  then show "works_on jid q q' \<Longrightarrow> queue_inv q \<Longrightarrow> queue_inv q'" unfolding works_on_def by blast
qed

lemma getJob_event [simp]: "getJob i (snd (event k st d q)) = getJob i q"
  by (simp add: getJob_def)

lemma find_first_map: "(\<And>j. P (g j) = P j) \<Longrightarrow> find_first P (map g xs) = map_option g (find_first P xs)"
  by (induction xs) auto

lemma getJob_update:
  assumes "\<And>j. j_job_id (f j) = j_job_id j"
  shows "getJob i (update_job k f q) = (if i = k then map_option f (getJob i q) else getJob i q)"
proof -
  have "getJob i (update_job k f q) = map_option (\<lambda>j. if j_job_id j = k then f j else j) (getJob i q)"
    unfolding getJob_def update_job_def by (simp add: find_first_map assms)
  then show ?thesis by (cases "getJob i q") (auto dest: getJob_Some)
qed

lemma getJob_setStatus:
  "getJob i (snd (setStatus jid st d q)) = (if i = jid then map_option (\<lambda>j. j \<lparr> j_status := st \<rparr>) (getJob i q) else getJob i q)"
  by (simp add: setStatus_def getJob_update)

lemma works_on_job:
  assumes "works_on jid q q'"
  shows "i \<noteq> jid \<Longrightarrow> getJob i q' = getJob i q"
    and "getJob jid q = Some j \<Longrightarrow> \<exists>st. getJob jid q' = Some (j \<lparr> j_status := st \<rparr>)"
proof -
  have "i \<noteq> jid \<Longrightarrow> getJob i (fold (\<lambda>(st, d) q. snd (setStatus jid st d q)) sts q) = getJob i q" for sts q
    by (induction sts arbitrary: q) (auto simp: getJob_setStatus)
  then show "i \<noteq> jid \<Longrightarrow> getJob i q' = getJob i q" using assms unfolding works_on_def by blast
  have "getJob jid q = Some j \<Longrightarrow> \<exists>st. getJob jid (fold (\<lambda>(st, d) q. snd (setStatus jid st d q)) sts q) = Some (j \<lparr> j_status := st \<rparr>)" for sts q j
  proof (induction sts arbitrary: q j)
    case Nil
    then show ?case by (intro exI [of _ "j_status j"]) simp
  next
    case (Cons x sts)
    obtain st d where x: "x = (st, d)" by (cases x)
    have "getJob jid (snd (setStatus jid st d q)) = Some (j \<lparr> j_status := st \<rparr>)" using Cons.prems by (simp add: getJob_setStatus)
    from Cons.IH [OF this] show ?case by (simp add: x)
  qed
  then show "getJob jid q = Some j \<Longrightarrow> \<exists>st. getJob jid q' = Some (j \<lparr> j_status := st \<rparr>)"
    using assms unfolding works_on_def by blast
qed

lemma claimNext_job:
  assumes "queue_inv q" "claimNext now Q ts q = (Some job, q')"
  shows "getJob (j_job_id job) q' = Some job" "i \<noteq> j_job_id job \<Longrightarrow> getJob i q' = getJob i q" "queue_inv q'"
    "j_status job = ''claimed''" "j_job_type job \<in> set ts \<or> ts = []" "j_attempts job \<le> j_max_attempts job"
proof -
  let ?f = "\<lambda>j. j \<lparr> j_status := ''claimed'', j_attempts := j_attempts j + 1 \<rparr>"
  obtain j js where s: "sort_key j_created_at (filter (claimable now Q ts) (q_jobs q)) = j # js" "job = ?f j"
    "q' = update_job (j_job_id j) ?f q"
    using assms(2) by (auto simp: claimNext_def Let_def split: list.splits)
  have "j \<in> set (sort_key j_created_at (filter (claimable now Q ts) (q_jobs q)))" unfolding s(1) by simp
  then have j: "j \<in> set (q_jobs q)" "claimable now Q ts j" by simp_all
  have "getJob (j_job_id j) q = Some j"
    unfolding getJob_def by (rule find_first_unique) (use j assms(1) in \<open>auto simp: queue_inv_def distinct_map inj_on_def\<close>)
  then show g: "getJob (j_job_id job) q' = Some job" "i \<noteq> j_job_id job \<Longrightarrow> getJob i q' = getJob i q"
    using s(2,3) by (simp_all add: getJob_update)
  show i: "queue_inv q'" using claimNext_inv [OF assms(1), of now Q ts] assms(2) by simp
  show "j_status job = ''claimed''" "j_job_type job \<in> set ts \<or> ts = []" using s(2) j(2) by (auto simp: claimable_def)
  show "j_attempts job \<le> j_max_attempts job"
    using i getJob_Some [OF g(1)] by (auto simp: queue_inv_def list_all_iff job_ok_def)
qed


section \<open>Workers\<close>

definition worker_once ::
  "('s \<Rightarrow> queue_state) \<Rightarrow> (queue_state \<Rightarrow> 's \<Rightarrow> 's) \<Rightarrow> queue_name \<Rightarrow> string list \<Rightarrow>
   (service_job \<Rightarrow> ('s, string, jsval) stmt) \<Rightarrow> int \<Rightarrow> 's \<Rightarrow> bool \<times> 's" where
  "worker_once qu upd Q types proc now s =
    (case claimNext now Q types (qu s) of
       (None, q) \<Rightarrow> (False, upd q s)
     | (Some job, q) \<Rightarrow>
         (case proc job (upd q s) of
            (Inl e, s1) \<Rightarrow> (True, upd (snd (fail now (j_job_id job) e 10 (qu s1))) s1)
          | (Inr res, s1) \<Rightarrow>
              (case complete (j_job_id job) res ''ready'' (qu s1) of
                 (Inr _, q2) \<Rightarrow> (True, upd q2 s1)
               | (Inl _, q2) \<Rightarrow> (True, upd (snd (fail now (j_job_id job) ''violates foreign key constraint'' 10 q2)) (upd q2 s1)))))"

text \<open>The state in which a claimed job is left: ready with its result, or failed with its error.\<close>

definition settled_job :: "int \<Rightarrow> service_job \<Rightarrow> (string, jsval) result \<Rightarrow> service_job \<Rightarrow> bool" where
  "settled_job now job outcome j \<longleftrightarrow>
    j_job_id j = j_job_id job \<and> j_payload j = j_payload job \<and> j_attempts j = j_attempts job \<and>
    (case outcome of
       Inr res \<Rightarrow> j_status j = ''ready'' \<and> j_result j = Some res \<and> j_error j = None
     | Inl e \<Rightarrow> j_error j = Some (take 2000 e) \<and>
         (if j_attempts job < j_max_attempts job then j_status j = ''failed_retry'' \<and> j_available_at j = now + 10
          else j_status j = ''failed''))"

locale worker =
  fixes qu :: "'s \<Rightarrow> queue_state" and upd :: "queue_state \<Rightarrow> 's \<Rightarrow> 's" and proc :: "service_job \<Rightarrow> ('s, string, jsval) stmt"
  assumes qu_upd: "qu (upd q s) = q"
    and proc_works: "works_on (j_job_id job) (qu s) (qu (snd (proc job s)))"
begin

lemma claimed_job_settles:
  assumes "queue_inv (qu s)" "claimNext now Q ts (qu s) = (Some job, q)"
  shows "queue_inv (qu (snd (worker_once qu upd Q ts proc now s))) \<and>
    (\<exists>j. getJob (j_job_id job) (qu (snd (worker_once qu upd Q ts proc now s))) = Some j \<and> settled_job now job (fst (proc job (upd q s))) j) \<and>
    (\<forall>i. i \<noteq> j_job_id job \<longrightarrow> getJob i (qu (snd (worker_once qu upd Q ts proc now s))) = getJob i (qu s))"
proof -
  note claim = claimNext_job [OF assms]
  obtain r s1 where p: "proc job (upd q s) = (r, s1)" by fastforce
  have w: "works_on (j_job_id job) q (qu s1)" using proc_works [of job "upd q s"] p by (simp add: qu_upd)
  obtain st where j1: "getJob (j_job_id job) (qu s1) = Some (job \<lparr> j_status := st \<rparr>)" using works_on_job(2) [OF w claim(1)] by blast
  have inv1: "queue_inv (qu s1)" by (rule works_on_inv [OF w claim(3)])
  have other: "i \<noteq> j_job_id job \<Longrightarrow> getJob i (qu s1) = getJob i (qu s)" for i
    using works_on_job(1) [OF w] claim(2) by simp
  show ?thesis
  proof (cases r)
    case (Inl e)
    have run: "snd (worker_once qu upd Q ts proc now s) = upd (snd (fail now (j_job_id job) e 10 (qu s1))) s1"
      using assms(2) p Inl by (simp add: worker_once_def)
    have "getJob i (snd (fail now (j_job_id job) e 10 (qu s1))) = getJob i (qu s1)" if "i \<noteq> j_job_id job" for i
      using that by (simp add: fail_def Let_def getJob_update)
    moreover have "\<exists>j. getJob (j_job_id job) (snd (fail now (j_job_id job) e 10 (qu s1))) = Some j \<and> settled_job now job (Inl e) j"
      using j1 by (auto simp: fail_def Let_def getJob_update settled_job_def)
    ultimately show ?thesis using fail_inv [OF inv1] other p Inl by (simp add: run qu_upd)
  next
    case (Inr res)
    let ?q2 = "snd (complete (j_job_id job) res ''ready'' (qu s1))"
    have c: "complete (j_job_id job) res ''ready'' (qu s1) = (Ok (), ?q2)"
      using j1 by (simp add: complete_def event_def getJob_update)
    have run: "snd (worker_once qu upd Q ts proc now s) = upd ?q2 s1"
      using assms(2) p Inr by (simp add: worker_once_def) (subst c, simp)
    have "getJob i ?q2 = getJob i (qu s1)" if "i \<noteq> j_job_id job" for i
      using that by (simp add: complete_def getJob_update)
    moreover have "\<exists>j. getJob (j_job_id job) ?q2 = Some j \<and> settled_job now job (Inr res) j"
      using j1 by (simp add: complete_def getJob_update settled_job_def)
    moreover have "queue_inv ?q2" using complete_inv [OF inv1] by simp
    ultimately show ?thesis using other p Inr by (simp add: run qu_upd)
  qed
qed

end

end
