(* ===== verification/Relayer.thy ===== *)
theory Relayer
  imports Settler Cctp StreamRelayer Workers
begin

text \<open>
  The relayer worker, \<open>apps/relayer/src/worker.ts\<close>: it claims jobs of the relayer queue and performs the
  cross-chain operation of each. The state is the queue and the list of transactions submitted so far;
  what chains, services, files and the prover answer is the record \<open>relay_world\<close>. An error is its message,
  shortened where the source interpolates ids or error texts into it; the same holds for the details of status events.
  Results leave out the bridge's own transaction hashes and the sender, which no later step reads.
\<close>

named_theorems relay_simps \<open>running the relayer's statements\<close>

definition RELAYER_JOB_TYPES :: "string list" where
  "RELAYER_JOB_TYPES = [''CCTP_INBOUND'', ''CCTP_INBOUND_AFTER_USER_BURN'', ''CCTP_INBOUND_BURN'', ''CCTP_FETCH_ATTESTATION'',
     ''STELLAR_MINT_FORWARD'', ''REGISTER_NOTE'', ''WITHDRAW_PUBLIC_SUBMIT'', ''WITHDRAW_CCTP_BURN'', ''RFQ_SETTLE_SUBMIT'',
     ''RFQ_ATOMIC_SWAP_SUBMIT'', ''CCTP_OUTBOUND_ATTESTATION'', ''CCTP_OUTBOUND_MINT'', ''MPC_SETTLE_SUBMIT'', ''STREAM_SETTLE_BATCH'']"

definition INBOUND_ALIASES :: "string list" where
  "INBOUND_ALIASES = [''CCTP_INBOUND_BURN'', ''CCTP_FETCH_ATTESTATION'', ''STELLAR_MINT_FORWARD'', ''REGISTER_NOTE'']"


section \<open>Configuration\<close>

type_synonym env_map = "string \<Rightarrow> string option"

fun split_on :: "char \<Rightarrow> string \<Rightarrow> string list" where
  "split_on c [] = [[]]"
| "split_on c (x # xs) = (if x = c then [] # split_on c xs else (case split_on c xs of l # ls \<Rightarrow> (x # l) # ls | [] \<Rightarrow> [[x]]))"

text \<open>A trailing carriage return is dropped.\<close>

definition strip_cr :: "string \<Rightarrow> string" where
  "strip_cr s = (if s \<noteq> [] \<and> last s = CHR 0x0D then butlast s else s)"

definition is_assignment :: "string \<Rightarrow> bool" where
  "is_assignment line = (CHR ''='' \<in> set line \<and> \<not> (case dropWhile is_space line of c # _ \<Rightarrow> c = CHR ''#'' | [] \<Rightarrow> False))"

definition apply_line :: "bool \<Rightarrow> string \<Rightarrow> env_map \<Rightarrow> env_map" where
  "apply_line override raw env =
    (let line = strip_cr raw in
     if \<not> is_assignment line then env
     else let k = takeWhile (\<lambda>c. c \<noteq> CHR ''='') line; v = drop (Suc (length k)) line in
       if override \<or> env k = None then env (k \<mapsto> v) else env)"

text \<open>A missing file is \<open>None\<close>.\<close>

definition parseEnvFile :: "string option \<Rightarrow> bool \<Rightarrow> env_map \<Rightarrow> env_map" where
  "parseEnvFile file override env =
    (case file of None \<Rightarrow> env | Some s \<Rightarrow> fold (apply_line override) (split_on (CHR 0x0A) s) env)"

definition loadEnv :: "env_map \<Rightarrow> string option \<Rightarrow> string option \<Rightarrow> string option \<Rightarrow> env_map" where
  "loadEnv processEnv parentFile envFile generatedFile =
    parseEnvFile generatedFile True (parseEnvFile envFile False (parseEnvFile parentFile False processEnv))"


section \<open>The world and the state\<close>

record generated_coin =
  gn_path :: string
  gn_commitmentHex :: string
  gn_commitmentDecimal :: string
  gn_value7dp :: string
  gn_assetIdField :: string

record mpc_proof =
  mz_proofHex :: string
  mz_publicHex :: string
  mz_locallyVerified :: bool

text \<open>
  Answers of the outside: \<open>sorobanInvoke\<close> by method and arguments (transaction hash and printed value),
  \<open>arcInvoke\<close> (hash and returned strings), the two broadcasts (hash and status), Circle's answer for a
  burn, the user's burn transaction and its decoding, the bridge (with the operator wallet's balance,
  allowance and burn outcome), coin files by path, the
  \<open>matches_json\<close> of a batch and the \<open>note_commitments\<close> by leaf index (\<open>None\<close>: the query throws), the coinutils
  root, and the settlement prover.
\<close>

record relay_world =
  rw_env :: env_map
  rw_arcNetwork :: bool
  rw_unsafeProofless :: bool
  rw_soroban :: "string \<Rightarrow> string list \<Rightarrow> (string, string \<times> string) result"
  rw_arc :: "string \<Rightarrow> jsval list \<Rightarrow> (string, string \<times> string list) result"
  rw_broadcastRaw :: "string \<Rightarrow> (string, string \<times> string) result"
  rw_broadcastXdr :: "string \<Rightarrow> (string, string \<times> string) result"
  rw_settleBatch :: "jsval arc_call \<Rightarrow> (string, string) result"
  rw_iris :: "string \<Rightarrow> iris_answer"
  rw_burnTx :: "string \<Rightarrow> (evm_tx \<times> int) option"
  rw_decode :: "string \<Rightarrow> burn_call option"
  rw_strkey :: strkey_lib
  rw_cctp :: cctp_env
  rw_inbound :: inbound_world
  rw_usdcBalance :: int
  rw_allowance :: int
  rw_burnOk :: bool
  rw_coin :: "string \<Rightarrow> (string, generated_coin) result"
  rw_matches :: "string \<Rightarrow> match_result list option"
  rw_leaves :: "string list option"
  rw_coinutils :: "string list \<Rightarrow> (string, string) result"
  rw_prove :: "generated_coin \<Rightarrow> generated_coin \<Rightarrow> string list \<Rightarrow> string \<Rightarrow> jsval \<Rightarrow> (string, mpc_proof) result"
  rw_nacl :: nacl_lib
  rw_sha :: "bytes \<Rightarrow> bytes"

datatype relay_call =
    SorobanCall string "string list"
  | ArcCall string "jsval list"
  | RawTx string
  | XdrTx string
  | EscrowBatch "jsval arc_call"
  | BridgeCall chain_call

record relay_state =
  rl_queue :: queue_state
  rl_calls :: "relay_call list"

type_synonym 'a relay = "(relay_state, string, 'a) stmt"

definition give :: "'a \<Rightarrow> 'a relay" where
  "give x s = (Ok x, s)"

definition throw :: "string \<Rightarrow> 'a relay" where
  "throw e s = (Throw e, s)"

definition status :: "nat \<Rightarrow> string \<Rightarrow> string \<Rightarrow> unit relay" where
  "status jobId st detail s =
    (case setStatus jobId st (Some detail) (rl_queue s) of
       (Inl _, q) \<Rightarrow> (Throw ''violates foreign key constraint'', s \<lparr> rl_queue := q \<rparr>)
     | (Inr _, q) \<Rightarrow> (Ok (), s \<lparr> rl_queue := q \<rparr>))"

text \<open>A submission: recorded, whatever comes back.\<close>

definition submit :: "relay_call \<Rightarrow> (string, 'a) result \<Rightarrow> 'a relay" where
  "submit c answer s = (answer, s \<lparr> rl_calls := rl_calls s @ [c] \<rparr>)"

definition need_that :: "bool \<Rightarrow> string \<Rightarrow> unit relay" where
  "need_that b e s = (if b then (Ok (), s) else (Throw e, s))"

definition outcome :: "(string, 'a) result \<Rightarrow> 'a relay" where
  "outcome r s = (r, s)"

definition set_env :: "env_map \<Rightarrow> string \<Rightarrow> bool" where
  "set_env env k = (case env k of None \<Rightarrow> False | Some v \<Rightarrow> v \<noteq> [])"

abbreviation field :: "jsval \<Rightarrow> string \<Rightarrow> jsval" where
  "field p k \<equiv> js_get p k"

definition str_field :: "jsval \<Rightarrow> string \<Rightarrow> string" where
  "str_field p k = to_String (js_get p k)"

definition BigInt_of :: "string \<Rightarrow> (string, int) result" where
  "BigInt_of t = (case big_int_of_string t of None \<Rightarrow> Throw ''Cannot convert to a BigInt'' | Some i \<Rightarrow> Ok i)"

definition cctp_message :: "cctp_error \<Rightarrow> string" where
  "cctp_message e = ''cctp''"

definition bridge :: "(cctp_error, 'a) result \<times> chain_call list \<Rightarrow> 'a relay" where
  "bridge r s = ((case fst r of Inl e \<Rightarrow> Throw (cctp_message e) | Inr a \<Rightarrow> Ok a), s \<lparr> rl_calls := rl_calls s @ map BridgeCall (snd r) \<rparr>)"


section \<open>Bridge, withdrawal and stream jobs\<close>

definition result_obj :: "(string \<times> jsval) list \<Rightarrow> jsval" where
  "result_obj = VObj"

text \<open>\<open>runCctpInbound\<close> with the operator's key, addresses and wallet: the configuration it needs is checked first.\<close>

definition own_inbound :: "relay_world \<Rightarrow> inbound_params \<Rightarrow> (cctp_error, inbound_result) result \<times> chain_call list" where
  "own_inbound w ip =
    (let env = rw_env w;
         hasKey = ((case env ''ARB_SEPOLIA_PRIVATE_KEY'' of Some k \<Rightarrow> k \<noteq> [] | None \<Rightarrow> set_env env ''ETH_PRIVATE_KEY'') \<and>
           set_env env ''STELLAR_CCTP_FORWARDER_CONTRACT'' \<and> set_env env ''STELLAR_TESTNET_USDC_SAC_CONTRACT'' \<and>
           set_env env ''STELLAR_RELAYER_SECRET'') in
     runCctpInbound (rw_strkey w) (rw_inbound w) hasKey (env_or (env ''STELLAR_CCTP_FORWARDER_CONTRACT'') [])
       (env_or (env ''SHADE_VAULT_CONTRACT'') []) (env_or (env ''ARB_SEPOLIA_USDC_ADDRESS'') arbitrumSepoliaUsdc)
       (rw_usdcBalance w) (rw_allowance w) (rw_burnOk w) ip)"

text \<open>\<open>CCTP_INBOUND\<close> and its aliases: the operator's own burn.\<close>

definition relay_inbound :: "relay_world \<Rightarrow> nat \<Rightarrow> string \<Rightarrow> jsval \<Rightarrow> jsval relay" where
  "relay_inbound w jid pool p =
    andThen (need_that (rw_env w ''ENABLE_OPERATOR_TESTNET_DEPOSIT'' = Some ''true'') ''operator-driven CCTP_INBOUND is disabled'') (\<lambda>_.
    andThen (status jid ''burning'' ''CCTP burn + attestation + mint_and_forward + register'') (\<lambda>_.
    andThen (outcome (BigInt_of (case field p ''amount6'' of VUndef \<Rightarrow> ''1000000'' | VNull \<Rightarrow> ''1000000'' | v \<Rightarrow> to_String v))) (\<lambda>amount6.
    andThen (outcome (rw_coin w (str_field p ''coinPath''))) (\<lambda>coin.
    andThen (bridge (own_inbound w \<lparr> ip_amount6 = amount6, ip_commitmentHex = str_field p ''commitmentHex'', ip_fast = Some True,
        ip_maxFee6 = None, ip_targetContract = Some pool, ip_newRootHex = Some (str_field p ''newRootHex''), ip_has_coin = True \<rparr>)) (\<lambda>r.
    give (result_obj [(''leafIndex'', VStr (rs_leafIndex r)), (''root'', VStr (rs_root r)),
      (''amount7'', VStr (int_to_string (rs_amount7 r)))]))))))"

definition relay_withdraw :: "relay_world \<Rightarrow> nat \<Rightarrow> string \<Rightarrow> jsval \<Rightarrow> jsval relay" where
  "relay_withdraw w jid jobType p =
    (if truthy (field p ''signedRawTx'') then
       andThen (status jid ''broadcasting'' (''broadcast signed '' @ jobType @ '' (Arc)'')) (\<lambda>_.
       andThen (need_that (rw_arcNetwork w) ''ARC_RPC_URL is required'') (\<lambda>_.
       andThen (submit (RawTx (str_field p ''signedRawTx'')) (rw_broadcastRaw w (str_field p ''signedRawTx''))) (\<lambda>r.
       give (result_obj [(''txHash'', VStr (fst r)), (''status'', VStr (snd r))]))))
     else if truthy (field p ''signedXdr'') then
       andThen (status jid ''broadcasting'' (''broadcast signed '' @ jobType @ '' (Stellar)'')) (\<lambda>_.
       andThen (submit (XdrTx (str_field p ''signedXdr'')) (rw_broadcastXdr w (str_field p ''signedXdr''))) (\<lambda>r.
       give (result_obj [(''txHash'', VStr (fst r)), (''status'', VStr (snd r))])))
     else throw (jobType @ '' requires a client-signed payload: signedRawTx (Arc) or signedXdr (Stellar)''))"

text \<open>An element of \<open>p.batch\<close>; \<open>BigInt\<close> may throw.\<close>

definition batch_item :: "jsval \<Rightarrow> (string, jsval pending_settlement) result" where
  "batch_item b =
    (case (to_BigInt (field b ''channelId''), to_BigInt (field b ''expiryBlock''), to_BigInt (field b ''cumulative'')) of
       (Some c, Some e, Some q) \<Rightarrow> Ok \<lparr> ps_channelId = c, ps_proof = field b ''proof'',
          ps_publicSignals = (case field b ''publicSignals'' of VArr vs \<Rightarrow> map to_String vs | _ \<Rightarrow> []), ps_expiryBlock = e, ps_cumulative = q \<rparr>
     | _ \<Rightarrow> Throw ''Cannot convert to a BigInt'')"

definition stream_opts :: "relay_world \<Rightarrow> submit_opts" where
  "stream_opts w = \<lparr> so_arcRpcUrl = env_or (rw_env w ''ARC_RPC_URL'') [],
     so_arcChainId = (if set_env (rw_env w) ''ARC_CHAIN_ID''
       then (case number_of_string (env_or (rw_env w ''ARC_CHAIN_ID'') []) of NInt i \<Rightarrow> Some i | _ \<Rightarrow> None) else None),
     so_escrowAddress = env_or (rw_env w ''ARC_STREAM_ESCROW_CONTRACT'') [],
     so_relayerPrivateKey = env_or (rw_env w ''ARC_RELAYER_PRIVATE_KEY'') [] \<rparr>"

text \<open>\<open>submitSettlementBatch\<close> with its one chain call recorded.\<close>

definition submit_escrow :: "relay_world \<Rightarrow> jsval pending_settlement list \<Rightarrow> (string \<times> nat) relay" where
  "submit_escrow w batch s =
    (submitSettlementBatch (rw_settleBatch w) batch (stream_opts w),
     s \<lparr> rl_calls := rl_calls s @ [EscrowBatch \<lparr> ac_rpcUrl = so_arcRpcUrl (stream_opts w), ac_chainId = so_arcChainId (stream_opts w),
        ac_contractAddress = so_escrowAddress (stream_opts w), ac_method = ''settleBatch'', ac_proofs = map ps_proof batch,
        ac_publicSignals = map ps_publicSignals batch, ac_privateKey = so_relayerPrivateKey (stream_opts w) \<rparr>] \<rparr>)"

definition relay_stream_batch :: "relay_world \<Rightarrow> nat \<Rightarrow> jsval \<Rightarrow> jsval relay" where
  "relay_stream_batch w jid p =
    andThen (need_that (set_env (rw_env w) ''ARC_STREAM_ESCROW_CONTRACT'' \<and> set_env (rw_env w) ''ARC_RPC_URL'' \<and>
        set_env (rw_env w) ''ARC_RELAYER_PRIVATE_KEY'')
      ''STREAM_SETTLE_BATCH missing ARC_STREAM_ESCROW_CONTRACT / ARC_RPC_URL / ARC_RELAYER_PRIVATE_KEY'') (\<lambda>_.
    let batch = (case field p ''batch'' of VArr vs \<Rightarrow> vs | _ \<Rightarrow> []) in
    andThen (need_that (batch \<noteq> []) ''STREAM_SETTLE_BATCH: empty batch'') (\<lambda>_.
    andThen (status jid ''submitting'' (''StreamEscrow.settleBatch ('' @ nat_to_string (length batch) @ '' channels)'')) (\<lambda>_.
    andThen (outcome (map_res batch_item batch)) (\<lambda>items.
    andThen (submit_escrow w items) (\<lambda>r.
    give (result_obj [(''txHash'', VStr (fst r)), (''settled'', VNum (NInt (int (snd r))))]))))))"


section \<open>RFQ and outbound jobs\<close>

definition RFQ_ARC_ARGS :: "string list" where
  "RFQ_ARC_ARGS = [''toSolver'', ''quoteHash'', ''intentHash'', ''fillReceiptHash'', ''solverPubkey'', ''solverSig'', ''proof'', ''publicSignals'']"

text \<open>The flags of a \<open>stellar contract invoke\<close>, each followed by a payload field.\<close>

definition cli_args :: "jsval \<Rightarrow> (string \<times> string) list \<Rightarrow> string list" where
  "cli_args p flags = concat (map (\<lambda>(flag, k). [flag, str_field p k]) flags)"

definition RFQ_FLAGS :: "(string \<times> string) list" where
  "RFQ_FLAGS = [(''--to_solver'', ''toSolver''), (''--proof_bytes'', ''proofHex''), (''--pub_signals_bytes'', ''publicHex''),
     (''--quote_hash'', ''quoteHash''), (''--intent_hash'', ''intentHash''), (''--fill_receipt_hash'', ''fillReceiptHash''),
     (''--solver_pubkey'', ''solverPubkey''), (''--solver_sig'', ''solverSig'')]"

definition SWAP_FLAGS :: "(string \<times> string) list" where
  "SWAP_FLAGS = [(''--user_xlm_recipient'', ''userXlmRecipient''), (''--solver_usdc_recipient'', ''solverUsdcRecipient''),
     (''--proof_bytes'', ''proofHex''), (''--pub_signals_bytes'', ''publicHex''), (''--quote_hash'', ''quoteHash''),
     (''--intent_hash'', ''intentHash''), (''--fill_receipt_hash'', ''fillReceiptHash''), (''--output_asset_id'', ''outputAssetId''),
     (''--quoted_output'', ''quotedOutput''), (''--min_output'', ''minOutput''), (''--price_scaled'', ''priceScaled''),
     (''--solver_pubkey'', ''solverPubkey''), (''--solver_sig'', ''solverSig'')]"

definition has_arc_proof :: "jsval \<Rightarrow> bool" where
  "has_arc_proof p = (truthy (field p ''proof'') \<and> truthy (field p ''publicSignals''))"

definition arc_keys :: "relay_world \<Rightarrow> string \<Rightarrow> unit relay" where
  "arc_keys w e = need_that (set_env (rw_env w) ''ARC_SHIELDED_POOL_CONTRACT'' \<and> set_env (rw_env w) ''ARC_RELAYER_PRIVATE_KEY'') e"

definition arc_submit :: "relay_world \<Rightarrow> string \<Rightarrow> jsval list \<Rightarrow> (string \<times> string list) relay" where
  "arc_submit w m args = andThen (need_that (rw_arcNetwork w) ''ARC_RPC_URL is required'') (\<lambda>_. submit (ArcCall m args) (rw_arc w m args))"

definition soroban_submit :: "relay_world \<Rightarrow> string \<Rightarrow> string list \<Rightarrow> (string \<times> string) relay" where
  "soroban_submit w m args = submit (SorobanCall m args) (rw_soroban w m args)"

definition relay_rfq_settle :: "relay_world \<Rightarrow> nat \<Rightarrow> jsval \<Rightarrow> jsval relay" where
  "relay_rfq_settle w jid p =
    (if has_arc_proof p then
       andThen (status jid ''submitting'' ''pool.rfqSettle (Arc)'') (\<lambda>_.
       andThen (arc_keys w ''RFQ_SETTLE_SUBMIT (Arc) missing ARC_SHIELDED_POOL_CONTRACT / ARC_RELAYER_PRIVATE_KEY'') (\<lambda>_.
       andThen (arc_submit w ''rfqSettle'' (map (field p) RFQ_ARC_ARGS)) (\<lambda>r.
       give (result_obj [(''txHash'', VStr (fst r))]))))
     else
       andThen (status jid ''submitting'' ''pool.rfq_settle (Stellar)'') (\<lambda>_.
       andThen (soroban_submit w ''rfq_settle'' (cli_args p RFQ_FLAGS)) (\<lambda>r.
       give (result_obj [(''txHash'', VStr (fst r))]))))"

definition relay_atomic_swap :: "relay_world \<Rightarrow> nat \<Rightarrow> jsval \<Rightarrow> jsval relay" where
  "relay_atomic_swap w jid p =
    andThen (status jid ''submitting'' ''pool.rfq_settle_atomic_swap'') (\<lambda>_.
    andThen (soroban_submit w ''rfq_settle_atomic_swap'' (cli_args p SWAP_FLAGS)) (\<lambda>r.
    give (result_obj [(''txHash'', VStr (fst r))])))"

definition relay_out_attestation :: "relay_world \<Rightarrow> nat \<Rightarrow> jsval \<Rightarrow> jsval relay" where
  "relay_out_attestation w jid p =
    andThen (status jid ''polling'' ''Circle attestation'') (\<lambda>_.
    andThen (bridge (fetchAttestationByTx (rw_iris w (str_field p ''burnTxHash'')), [])) (\<lambda>att.
    give (case att of
       None \<Rightarrow> result_obj [(''status'', VStr ''pending''), (''note'', VStr ''attestation not yet available; retry'')]
     | Some a \<Rightarrow> result_obj [(''status'', VStr (at_status a)), (''message'', at_message a), (''attestation'', at_attestation a)])))"

definition relay_out_mint :: "nat \<Rightarrow> jsval \<Rightarrow> jsval relay" where
  "relay_out_mint jid p =
    (if \<not> truthy (field p ''message'') \<or> \<not> truthy (field p ''attestation'')
     then give (result_obj [(''status'', VStr ''pending''), (''note'', VStr ''message/attestation required from CCTP_OUTBOUND_ATTESTATION'')])
     else andThen (status jid ''minting'' ''Arbitrum receiveMessage'') (\<lambda>_.
       give (result_obj [(''status'', VStr ''submit_via_arbitrum''), (''messageTransmitter'', VStr ''0xE737e5cEBEEBa77EFE34D4aa090756590b1CE275''), (''note'', VStr ''receiveMessage(message, attestation) on Arbitrum Sepolia'')])))"


section \<open>Deposits burnt by the user\<close>

definition hex0x :: "string \<Rightarrow> string" where
  "hex0x h = (if take 2 h = ''0x'' then h else ''0x'' @ h)"

definition strip0x :: "string \<Rightarrow> string" where
  "strip0x h = (if take 2 h = ''0x'' then drop 2 h else h)"

definition burn_check :: "relay_world \<Rightarrow> string \<Rightarrow> jsval \<Rightarrow> (string, burn_call) result" where
  "burn_check w pool p =
    res_bind (BigInt_of (str_field p ''expected_amount6'')) (\<lambda>amount6.
    res_bind (if truthy (field p ''expected_max_fee6'')
        then res_bind (BigInt_of (str_field p ''expected_max_fee6'')) (\<lambda>m. Ok (Some m)) else Ok None) (\<lambda>maxFee.
    res_bind (if field p ''expected_finality'' = VUndef then Ok None
        else (case to_Number (field p ''expected_finality'') of NInt i \<Rightarrow> Ok (Some i) | _ \<Rightarrow> Throw ''cctp'')) (\<lambda>finality.
    (case validateInboundBurnTx (rw_strkey w) (rw_cctp w) (rw_decode w) (rw_burnTx w (str_field p ''burn_tx_hash''))
        (str_field p ''source_wallet_address'') amount6 pool maxFee finality of
       Inl e \<Rightarrow> Throw (cctp_message e) | Inr d \<Rightarrow> Ok d))))"

definition deposit_args :: "jsval \<Rightarrow> burn_call \<Rightarrow> jsval list" where
  "deposit_args p d =
    [VNum (case field p ''source_domain'' of VUndef \<Rightarrow> NInt 3 | VNull \<Rightarrow> NInt 3 | v \<Rightarrow> to_Number v),
     VStr (hex0x (str_field p ''burn_tx_hash'')), VStr (str_field p ''token''), VNum (NInt (bc_amount d * 10)),
     VStr (str_field p ''commitment''), VStr (str_field p ''encryptedNotePayloadHashHex''), VStr (str_field p ''policyIdHex''),
     field p ''proof'', field p ''publicSignals'']"

definition relay_user_burn :: "relay_world \<Rightarrow> nat \<Rightarrow> string \<Rightarrow> jsval \<Rightarrow> jsval relay" where
  "relay_user_burn w jid pool p =
    andThen (status jid ''validating_burn'' ''verify user burn tx'') (\<lambda>_.
    andThen (outcome (burn_check w pool p)) (\<lambda>d.
    andThen (status jid ''burn_validated'' (''burn of '' @ int_to_string (bc_amount d) @ '' (6dp)'')) (\<lambda>_.
    (if has_arc_proof p then
       andThen (arc_keys w ''CCTP_INBOUND_AFTER_USER_BURN (Arc) missing ARC_SHIELDED_POOL_CONTRACT / ARC_RELAYER_PRIVATE_KEY'') (\<lambda>_.
       andThen (status jid ''submitting'' ''pool.receiveDeposit (Arc)'') (\<lambda>_.
       andThen (arc_submit w ''receiveDeposit'' (deposit_args p d)) (\<lambda>r.
       andThen (status jid ''note_registered'' (''Arc tx '' @ fst r)) (\<lambda>_.
       give (result_obj [(''state'', VStr ''active''), (''burnTxHash'', VStr (str_field p ''burn_tx_hash'')),
         (''receiveDepositTxHash'', VStr (fst r)), (''commitment'', VStr (str_field p ''commitment''))])))))
     else if \<not> truthy (field p ''coinPath'') then
       andThen (status jid ''awaiting_proof_witness'' ''burn validated; note witness not provided to relayer (prover path)'') (\<lambda>_.
       give (result_obj [(''validated'', VBool True), (''burnTxHash'', VStr (str_field p ''burn_tx_hash'')),
         (''amount6'', VStr (int_to_string (bc_amount d))), (''state'', VStr ''burn_validated'')]))
     else
       andThen (status jid ''completing_stellar_side'' ''attestation + mint_forward + proof + register'') (\<lambda>_.
       andThen (outcome (rw_coin w (str_field p ''coinPath''))) (\<lambda>coin.
       andThen (bridge (runPostUserBurnCctpInbound (rw_inbound w) (str_field p ''commitment'') True)) (\<lambda>r.
       andThen (status jid ''note_registered'' (''leaf '' @ rs_leafIndex r)) (\<lambda>_.
       give (result_obj [(''state'', VStr ''active''), (''root'', VStr (rs_root r)), (''leafIndex'', VStr (rs_leafIndex r)),
         (''commitment'', VStr (str_field p ''commitment'')), (''amount7'', VStr (int_to_string (rs_amount7 r)))])))))))))"


section \<open>Committee settlements\<close>

definition to_decimal :: "string \<Rightarrow> (string, string) result" where
  "to_decimal h = res_bind (BigInt_of (hex0x h)) (\<lambda>i. Ok (int_to_string i))"

text \<open>The leaves of \<open>note_commitments\<close> as decimals; a failing query or a leaf that is no number is swallowed and leaves none.\<close>

definition pool_leaves :: "relay_world \<Rightarrow> string list" where
  "pool_leaves w = (case rw_leaves w of None \<Rightarrow> []
     | Some rows \<Rightarrow> (case map_res to_decimal rows of Inl _ \<Rightarrow> [] | Inr ds \<Rightarrow> ds))"

fun hex_text :: "nat \<Rightarrow> string" where
  "hex_text n = (if n < 16 then [hex_digit n] else hex_text (n div 16) @ [hex_digit (n mod 16)])"

declare hex_text.simps [simp del]

definition computeMpcRoot :: "relay_world \<Rightarrow> string \<Rightarrow> string \<Rightarrow> (string, string) result" where
  "computeMpcRoot w outCommitAHex outCommitBHex =
    res_bind (to_decimal outCommitAHex) (\<lambda>a. res_bind (to_decimal outCommitBHex) (\<lambda>b.
    res_bind (rw_coinutils w (pool_leaves w @ [a, b])) (\<lambda>out.
    res_bind (BigInt_of (js_trim out)) (\<lambda>i. Ok (pad_start 64 (CHR ''0'') (if i < 0 then CHR ''-'' # hex_text (nat (- i)) else hex_text (nat i)))))))"

text \<open>Only five fields of a stored match are taken over.\<close>

definition strip_match :: "match_result \<Rightarrow> match_result" where
  "strip_match m = m \<lparr> mr_priceScaled := None, mr_assetIn := None, mr_assetOut := None \<rparr>"

definition payload_match :: "jsval \<Rightarrow> match_result" where
  "payload_match p = \<lparr> mr_intentAId = str_field p ''intentAId'', mr_intentBId = str_field p ''intentBId'',
     mr_matchedAmount7dp = str_field p ''matchedAmount7dp'', mr_inputAsset = str_field p ''inputAsset'',
     mr_outputAsset = str_field p ''outputAsset'', mr_priceScaled = None, mr_assetIn = None, mr_assetOut = None \<rparr>"

definition batch_matches :: "relay_world \<Rightarrow> jsval \<Rightarrow> match_result list" where
  "batch_matches w p =
    (let ms = (case rw_matches w (str_field p ''batchId'') of None \<Rightarrow> [] | Some ms \<Rightarrow> map strip_match ms) in
     if ms = [] \<and> truthy (field p ''intentAId'') \<and> truthy (field p ''intentBId'') then [payload_match p] else ms)"

fun sigs_of :: "jsval \<Rightarrow> (string, node_signature list) result" where
  "sigs_of (VArr vs) = Ok (map (\<lambda>v. \<lparr> ns_nodeId = str_field v ''nodeId'', ns_signingPubkey = str_field v ''signingPubkey'',
      ns_signature = str_field v ''signature'' \<rparr>) vs)"
| "sigs_of _ = Throw ''signatures is not iterable''"

definition relay_batch :: "relay_world \<Rightarrow> jsval \<Rightarrow> node_signature list \<Rightarrow> signed_match_batch" where
  "relay_batch w p sigs = \<lparr> sb_batchId = str_field p ''batchId'', sb_sessionId = str_field p ''sessionId'',
     sb_matches = batch_matches w p, sb_batchHash = str_field p ''batchHash'', sb_signatures = sigs \<rparr>"

fun string_list :: "jsval \<Rightarrow> string list option" where
  "string_list (VArr vs) = those (map (\<lambda>v. case v of VStr s \<Rightarrow> Some s | _ \<Rightarrow> None) vs)"
| "string_list _ = None"

definition chain_nodes :: "string list \<Rightarrow> committee_node_info list" where
  "chain_nodes pks = map (\<lambda>(i, pk). \<lparr> ni_nodeId = ''chain-'' @ nat_to_string i, ni_encryptionPubkey = [], ni_signingPubkey = lower pk \<rparr>)
     (zip [0..<length pks] pks)"

text \<open>The committee is read from the pool contract, never from the payload.\<close>

definition pin_committee :: "relay_world \<Rightarrow> bool \<Rightarrow> (string, committee_node_info list) result" where
  "pin_committee w isArc =
    (if isArc then
       if \<not> set_env (rw_env w) ''ARC_SHIELDED_POOL_CONTRACT'' then Throw ''MPC_SETTLE_SUBMIT (Arc) missing ARC_SHIELDED_POOL_CONTRACT''
       else if \<not> rw_arcNetwork w then Throw ''failed to pin committee from pool.getCommittee()''
       else case rw_arc w ''getCommittee'' [] of
         Inl _ \<Rightarrow> Throw ''failed to pin committee from pool.getCommittee()''
       | Inr (_, pks) \<Rightarrow> if pks = [] then Throw ''failed to pin committee from pool.getCommittee()'' else Ok (chain_nodes pks)
     else case rw_soroban w ''get_committee'' [] of
         Inl _ \<Rightarrow> Throw ''failed to pin committee from pool.get_committee()''
       | Inr (_, text) \<Rightarrow> (case Option.bind (json_parse text) string_list of
           None \<Rightarrow> Throw ''failed to pin committee from pool.get_committee()''
         | Some pks \<Rightarrow> if pks = [] then Throw ''failed to pin committee from pool.get_committee()'' else Ok (chain_nodes pks)))"

definition mpc_verified :: "relay_world \<Rightarrow> jsval \<Rightarrow> (string, node_signature list) result" where
  "mpc_verified w p =
    res_bind (pin_committee w (has_arc_proof p)) (\<lambda>committee.
    res_bind (sigs_of (field p ''signatures'')) (\<lambda>sigs.
    (case verifySignedBatch (rw_nacl w) (rw_sha w) (relay_batch w p sigs) committee of
       None \<Rightarrow> Throw ''signature check threw''
     | Some False \<Rightarrow> Throw ''signature verification failed''
     | Some True \<Rightarrow> Ok sigs)))"

definition mpc_method :: "jsval \<Rightarrow> string" where
  "mpc_method p = (case field p ''publicSignals'' of VArr vs \<Rightarrow> if length vs = 20 then ''mpcSettlePriced'' else ''mpcSettle'' | _ \<Rightarrow> ''mpcSettle'')"

definition mpc_settle_arc :: "relay_world \<Rightarrow> nat \<Rightarrow> jsval \<Rightarrow> node_signature list \<Rightarrow> jsval relay" where
  "mpc_settle_arc w jid p sigs =
    andThen (arc_keys w ''MPC_SETTLE_SUBMIT (Arc) missing ARC_SHIELDED_POOL_CONTRACT / ARC_RELAYER_PRIVATE_KEY'') (\<lambda>_.
    andThen (status jid ''submitting'' (''pool.'' @ mpc_method p)) (\<lambda>_.
    andThen (arc_submit w (mpc_method p) [VStr (hex0x (str_field p ''batchHash'')), VArr (map (\<lambda>s. VStr (hex0x (ns_signingPubkey s))) sigs),
        VArr (map (\<lambda>s. VStr (hex0x (ns_signature s))) sigs), field p ''proof'', field p ''publicSignals'']) (\<lambda>r.
    give (result_obj [(''settled'', VBool True), (''onChain'', VBool True), (''batchId'', field p ''batchId''),
      (''matchIndex'', field p ''matchIndex''), (''txHash'', VStr (fst r)),
      (''zkProof'', VObj [(''generated'', VBool True), (''verified'', VBool True)]),
      (''note'', VStr (''pool.'' @ mpc_method p @ '' confirmed with ZK proof (Arc)''))]))))"

text \<open>The attempt to prove the match: whatever throws inside is logged and the settlement goes on without a proof.\<close>

definition try_prove :: "relay_world \<Rightarrow> nat \<Rightarrow> jsval \<Rightarrow> relay_state \<Rightarrow> mpc_proof option \<times> relay_state" where
  "try_prove w jid p s =
    (if \<not> (truthy (field p ''coinAPath'') \<and> truthy (field p ''coinBPath'') \<and> truthy (field p ''assocPath'')) then (None, s)
     else case status jid ''proving'' (''generating mpc_settlement ZK proof for batch '' @ str_field p ''batchId'') s of
       (Inl _, s1) \<Rightarrow> (None, s1)
     | (Inr _, s1) \<Rightarrow>
         (case res_bind (rw_coin w (str_field p ''coinAPath'')) (\<lambda>a. res_bind (rw_coin w (str_field p ''coinBPath'')) (\<lambda>b.
             rw_prove w a b (pool_leaves w) (str_field p ''assocPath'') p)) of
            Inl _ \<Rightarrow> (None, s1)
          | Inr z \<Rightarrow> (Some z, snd (status jid ''proof_ready'' ''ZK proof generated'' s1))))"

definition note_fields :: "jsval \<Rightarrow> bool" where
  "note_fields p = (truthy (field p ''nullifierA'') \<and> truthy (field p ''nullifierB'') \<and>
     truthy (field p ''outputCommitmentA'') \<and> truthy (field p ''outputCommitmentB''))"

definition usable :: "mpc_proof option \<Rightarrow> bool" where
  "usable z = (case z of None \<Rightarrow> False | Some z \<Rightarrow> mz_proofHex z \<noteq> [] \<and> mz_publicHex z \<noteq> [])"

definition opt_hex :: "string option \<Rightarrow> string" where
  "opt_hex h = (case h of None \<Rightarrow> ''null'' | Some x \<Rightarrow> if x = [] then ''null'' else stringify (VStr x))"

text \<open>The \<open>zkProof\<close> member of the result.\<close>

definition proof_note :: "mpc_proof option \<Rightarrow> jsval" where
  "proof_note z = (case z of
     Some z \<Rightarrow> if mz_proofHex z \<noteq> [] then VObj [(''generated'', VBool True), (''verified'', VBool (mz_locallyVerified z))]
       else VObj [(''generated'', VBool False)]
   | None \<Rightarrow> VObj [(''generated'', VBool False)])"

definition mpc_cli_args :: "jsval \<Rightarrow> string \<Rightarrow> node_signature list \<Rightarrow> mpc_proof option \<Rightarrow> string list" where
  "mpc_cli_args p root sigs z =
    [''--nullifier_a'', strip0x (str_field p ''nullifierA''), ''--nullifier_b'', strip0x (str_field p ''nullifierB''),
     ''--output_commitment_a'', strip0x (str_field p ''outputCommitmentA''), ''--output_commitment_b'', strip0x (str_field p ''outputCommitmentB''),
     ''--new_root'', root, ''--batch_hash'', strip0x (str_field p ''batchHash''),
     ''--signer_pubkeys'', stringify (VArr (map (\<lambda>s. VStr (strip0x (ns_signingPubkey s))) sigs)),
     ''--signatures'', stringify (VArr (map (\<lambda>s. VStr (strip0x (ns_signature s))) sigs)),
     ''--proof_bytes'', opt_hex (map_option mz_proofHex z), ''--pub_signals_bytes'', opt_hex (map_option mz_publicHex z)]"

definition mpc_settle_stellar :: "relay_world \<Rightarrow> nat \<Rightarrow> jsval \<Rightarrow> node_signature list \<Rightarrow> jsval relay" where
  "mpc_settle_stellar w jid p sigs s =
    (let (z, s1) = try_prove w jid p s in
     andThen (need_that (note_fields p) ''note data missing from DB'') (\<lambda>_.
     andThen (need_that (usable z \<or> rw_unsafeProofless w) ''refusing to submit proofless mpc_settle'') (\<lambda>_.
     andThen (status jid ''submitting'' (''pool.mpc_settle match['' @ str_field p ''matchIndex'' @ '']'')) (\<lambda>_.
     andThen (outcome (computeMpcRoot w (str_field p ''outputCommitmentA'') (str_field p ''outputCommitmentB''))) (\<lambda>root.
     andThen (soroban_submit w ''mpc_settle'' (mpc_cli_args p root sigs z)) (\<lambda>r.
     give (result_obj [(''settled'', VBool True), (''onChain'', VBool True), (''batchId'', field p ''batchId''),
       (''matchIndex'', field p ''matchIndex''), (''txHash'', VStr (fst r)), (''nullifierA'', field p ''nullifierA''),
       (''nullifierB'', field p ''nullifierB''), (''zkProof'', proof_note z)])))))) s1)"

definition relay_mpc_settle :: "relay_world \<Rightarrow> nat \<Rightarrow> jsval \<Rightarrow> jsval relay" where
  "relay_mpc_settle w jid p =
    andThen (outcome (mpc_verified w p)) (\<lambda>sigs.
    andThen (status jid ''verified_signatures'' (nat_to_string (length sigs) @ '' committee sigs valid'')) (\<lambda>_.
    if has_arc_proof p then mpc_settle_arc w jid p sigs else mpc_settle_stellar w jid p sigs))"


section \<open>The worker\<close>

definition pool_of :: "relay_world \<Rightarrow> jsval \<Rightarrow> string" where
  "pool_of w p = (case field p ''pool'' of
     VUndef \<Rightarrow> env_or (rw_env w ''SHIELDED_POOL_CONTRACT'') [] | VNull \<Rightarrow> env_or (rw_env w ''SHIELDED_POOL_CONTRACT'') [] | v \<Rightarrow> to_String v)"

definition processRelayerJob :: "relay_world \<Rightarrow> service_job \<Rightarrow> jsval relay" where
  "processRelayerJob w job =
    (let p = j_payload job; jid = j_job_id job; t = j_job_type job; pool = pool_of w p in
     andThen (need_that (pool \<noteq> [] \<and> set_env (rw_env w) ''STELLAR_RELAYER_SECRET'')
       ''relayer missing SHIELDED_POOL_CONTRACT / STELLAR_RELAYER_SECRET'') (\<lambda>_.
     if t = ''CCTP_INBOUND'' \<or> t \<in> set INBOUND_ALIASES then relay_inbound w jid pool p
     else if t = ''WITHDRAW_PUBLIC_SUBMIT'' \<or> t = ''WITHDRAW_CCTP_BURN'' then relay_withdraw w jid t p
     else if t = ''STREAM_SETTLE_BATCH'' then relay_stream_batch w jid p
     else if t = ''RFQ_SETTLE_SUBMIT'' then relay_rfq_settle w jid p
     else if t = ''RFQ_ATOMIC_SWAP_SUBMIT'' then relay_atomic_swap w jid p
     else if t = ''CCTP_OUTBOUND_ATTESTATION'' then relay_out_attestation w jid p
     else if t = ''CCTP_OUTBOUND_MINT'' then relay_out_mint jid p
     else if t = ''CCTP_INBOUND_AFTER_USER_BURN'' then relay_user_burn w jid pool p
     else if t = ''MPC_SETTLE_SUBMIT'' then relay_mpc_settle w jid p
     else throw (''unknown relayer job type '' @ t)))"

definition finish :: "nat \<Rightarrow> jsval \<Rightarrow> unit relay" where
  "finish jid res s =
    (case complete jid res ''ready'' (rl_queue s) of
       (Inl _, q) \<Rightarrow> (Throw ''violates foreign key constraint'', s \<lparr> rl_queue := q \<rparr>)
     | (Inr _, q) \<Rightarrow> (Ok (), s \<lparr> rl_queue := q \<rparr>))"

definition runRelayerOnce :: "relay_world \<Rightarrow> int \<Rightarrow> relay_state \<Rightarrow> bool \<times> relay_state" where
  "runRelayerOnce w now s =
    (case claimNext now QRelayer RELAYER_JOB_TYPES (rl_queue s) of
       (None, q) \<Rightarrow> (False, s \<lparr> rl_queue := q \<rparr>)
     | (Some job, q) \<Rightarrow>
         (case andThen (processRelayerJob w job) (finish (j_job_id job)) (s \<lparr> rl_queue := q \<rparr>) of
            (Inr _, s') \<Rightarrow> (True, s')
          | (Inl e, s') \<Rightarrow> (True, s' \<lparr> rl_queue := snd (fail now (j_job_id job) e 10 (rl_queue s')) \<rparr>)))"

end
