(* ===== verification/RelayerSafety.thy ===== *)
theory RelayerSafety
  imports Relayer
begin

text \<open>
  What the relayer may submit: every transaction of a job stands behind the checks of its kind, a claimed
  job always leaves its in-progress states, and what becomes of the settlement jobs the settler files.
\<close>

named_theorems relay_rules \<open>proof rules for the relayer's statements\<close>

section \<open>Statements that work on a job and submit allowed calls\<close>

definition runs :: "nat \<Rightarrow> (relay_call \<Rightarrow> bool) \<Rightarrow> 'a relay \<Rightarrow> bool" where
  "runs jid A m \<longleftrightarrow> (\<forall>s. works_on jid (rl_queue s) (rl_queue (snd (m s))) \<and>
     (\<exists>cs. rl_calls (snd (m s)) = rl_calls s @ cs \<and> list_all A cs))"

lemma runs_then:
  assumes "runs jid A m" "\<And>a. (\<exists>s. fst (m s) = Inr a) \<Longrightarrow> runs jid A (f a)"
  shows "runs jid A (andThen m f)"
  unfolding runs_def
proof
  fix s
  obtain cs where m: "works_on jid (rl_queue s) (rl_queue (snd (m s)))" "rl_calls (snd (m s)) = rl_calls s @ cs" "list_all A cs"
    using assms(1) unfolding runs_def by blast
  show "works_on jid (rl_queue s) (rl_queue (snd (andThen m f s))) \<and>
     (\<exists>cs. rl_calls (snd (andThen m f s)) = rl_calls s @ cs \<and> list_all A cs)"
  proof (cases "fst (m s)")
    case (Inl e)
    then show ?thesis using m by auto
  next
    case (Inr a)
    then have "runs jid A (f a)" using assms(2) by blast
    then obtain ds where "works_on jid (rl_queue (snd (m s))) (rl_queue (snd (f a (snd (m s)))))"
      "rl_calls (snd (f a (snd (m s)))) = rl_calls (snd (m s)) @ ds" "list_all A ds" unfolding runs_def by blast
    then show ?thesis using m Inr works_on_trans by (auto intro!: exI [of _ "cs @ ds"])
  qed
qed

lemma runs_give [relay_rules]: "runs jid A (give x)"
  by (simp add: runs_def give_def)

lemma runs_throw [relay_rules]: "runs jid A (throw e)"
  by (simp add: runs_def throw_def)

lemma status_snd: "snd (status jid st d s) = s \<lparr> rl_queue := snd (setStatus jid st (Some d) (rl_queue s)) \<rparr>"
  by (auto simp: status_def split: prod.split sum.split)

lemma runs_status: "st \<notin> {''queued'', ''failed_retry''} \<Longrightarrow> runs jid A (status jid st d)"
  by (auto simp: runs_def status_snd intro: works_on_status)

lemma runs_status_then [relay_rules]:
  "st \<notin> {''queued'', ''failed_retry''} \<Longrightarrow> (\<And>u. runs jid A (f u)) \<Longrightarrow> runs jid A (andThen (status jid st d) f)"
  by (rule runs_then [OF runs_status])

lemma runs_need_then [relay_rules]: "(b \<Longrightarrow> runs jid A (f ())) \<Longrightarrow> runs jid A (andThen (need_that b e) f)"
  by (rule runs_then) (auto simp: runs_def need_that_def split: if_splits)

lemma runs_outcome_then [relay_rules]: "(\<And>a. r = Inr a \<Longrightarrow> runs jid A (f a)) \<Longrightarrow> runs jid A (andThen (outcome r) f)"
  by (rule runs_then) (auto simp: runs_def outcome_def)

lemma runs_submit [relay_rules]: "A c \<Longrightarrow> runs jid A (submit c r)"
  by (simp add: runs_def submit_def)

lemma runs_bridge [relay_rules]: "list_all (\<lambda>c. A (BridgeCall c)) (snd r) \<Longrightarrow> runs jid A (bridge r)"
  by (simp add: runs_def bridge_def list_all_iff)

lemma runs_submits_then [relay_rules]:
  "A c \<Longrightarrow> (\<And>a. runs jid A (f a)) \<Longrightarrow> runs jid A (andThen (submit c r) f)"
  "A (SorobanCall m args) \<Longrightarrow> (\<And>a. runs jid A (g a)) \<Longrightarrow> runs jid A (andThen (soroban_submit w m args) g)"
  "A (ArcCall m jargs) \<Longrightarrow> (\<And>a. runs jid A (h a)) \<Longrightarrow> runs jid A (andThen (arc_submit w m jargs) h)"
  by (auto intro!: runs_then runs_submit simp: soroban_submit_def arc_submit_def)
    (auto intro!: runs_submit simp: runs_def need_that_def submit_def)

lemma runs_bridge_then [relay_rules]:
  "list_all (\<lambda>c. A (BridgeCall c)) (snd r) \<Longrightarrow> (\<And>a. runs jid A (f a)) \<Longrightarrow> runs jid A (andThen (bridge r) f)"
  by (rule runs_then [OF runs_bridge])

lemma runs_arc_keys_then [relay_rules]: "(\<And>u. runs jid A (f u)) \<Longrightarrow> runs jid A (andThen (arc_keys w e) f)"
  unfolding arc_keys_def by (rule runs_need_then) blast


section \<open>The gates\<close>

text \<open>The batch of the payload verifies against the committee read from the pool contract, with the payload's signatures.\<close>

definition committee_signed :: "relay_world \<Rightarrow> jsval \<Rightarrow> node_signature list \<Rightarrow> bool" where
  "committee_signed w p sigs \<longleftrightarrow> (\<exists>committee. pin_committee w (has_arc_proof p) = Ok committee \<and> sigs_of (js_get p ''signatures'') = Ok sigs \<and>
     verifySignedBatch (rw_nacl w) (rw_sha w) (relay_batch w p sigs) committee = Some True)"

text \<open>The proof made from the two coin files, the leaves of the pool and the association file the payload names.\<close>

definition settlement_proof :: "relay_world \<Rightarrow> jsval \<Rightarrow> mpc_proof \<Rightarrow> bool" where
  "settlement_proof w p z \<longleftrightarrow> (\<exists>a b. rw_coin w (str_field p ''coinAPath'') = Ok a \<and> rw_coin w (str_field p ''coinBPath'') = Ok b \<and>
     rw_prove w a b (pool_leaves w) (str_field p ''assocPath'') p = Ok z \<and> mz_proofHex z \<noteq> [] \<and> mz_publicHex z \<noteq> [])"

text \<open>The arguments of the calls, member by member of the payload.\<close>

definition rfq_arc_terms :: "jsval \<Rightarrow> jsval list" where
  "rfq_arc_terms p = [js_get p ''toSolver'', js_get p ''quoteHash'', js_get p ''intentHash'', js_get p ''fillReceiptHash'',
     js_get p ''solverPubkey'', js_get p ''solverSig'', js_get p ''proof'', js_get p ''publicSignals'']"

definition rfq_stellar_terms :: "jsval \<Rightarrow> string list" where
  "rfq_stellar_terms p = [''--to_solver'', str_field p ''toSolver'', ''--proof_bytes'', str_field p ''proofHex'',
     ''--pub_signals_bytes'', str_field p ''publicHex'', ''--quote_hash'', str_field p ''quoteHash'', ''--intent_hash'', str_field p ''intentHash'',
     ''--fill_receipt_hash'', str_field p ''fillReceiptHash'', ''--solver_pubkey'', str_field p ''solverPubkey'', ''--solver_sig'', str_field p ''solverSig'']"

definition swap_terms :: "jsval \<Rightarrow> string list" where
  "swap_terms p = [''--user_xlm_recipient'', str_field p ''userXlmRecipient'', ''--solver_usdc_recipient'', str_field p ''solverUsdcRecipient'',
     ''--proof_bytes'', str_field p ''proofHex'', ''--pub_signals_bytes'', str_field p ''publicHex'', ''--quote_hash'', str_field p ''quoteHash'',
     ''--intent_hash'', str_field p ''intentHash'', ''--fill_receipt_hash'', str_field p ''fillReceiptHash'', ''--output_asset_id'', str_field p ''outputAssetId'',
     ''--quoted_output'', str_field p ''quotedOutput'', ''--min_output'', str_field p ''minOutput'', ''--price_scaled'', str_field p ''priceScaled'',
     ''--solver_pubkey'', str_field p ''solverPubkey'', ''--solver_sig'', str_field p ''solverSig'']"

definition deposit_terms :: "jsval \<Rightarrow> burn_call \<Rightarrow> jsval list \<Rightarrow> bool" where
  "deposit_terms p d args \<longleftrightarrow> tl args = [VStr (hex0x (str_field p ''burn_tx_hash'')), VStr (str_field p ''token''), VNum (NInt (bc_amount d * 10)),
     VStr (str_field p ''commitment''), VStr (str_field p ''encryptedNotePayloadHashHex''), VStr (str_field p ''policyIdHex''),
     js_get p ''proof'', js_get p ''publicSignals''] \<and>
     hd args = VNum (if js_get p ''source_domain'' \<in> {VUndef, VNull} then NInt 3 else to_Number (js_get p ''source_domain''))"

definition mpc_arc_terms :: "jsval \<Rightarrow> node_signature list \<Rightarrow> jsval list" where
  "mpc_arc_terms p sigs = [VStr (hex0x (str_field p ''batchHash'')), VArr (map (\<lambda>s. VStr (hex0x (ns_signingPubkey s))) sigs),
     VArr (map (\<lambda>s. VStr (hex0x (ns_signature s))) sigs), js_get p ''proof'', js_get p ''publicSignals'']"

definition mpc_stellar_terms :: "jsval \<Rightarrow> string \<Rightarrow> node_signature list \<Rightarrow> string \<Rightarrow> string \<Rightarrow> string list" where
  "mpc_stellar_terms p root sigs proofArg publicArg =
    [''--nullifier_a'', strip0x (str_field p ''nullifierA''), ''--nullifier_b'', strip0x (str_field p ''nullifierB''),
     ''--output_commitment_a'', strip0x (str_field p ''outputCommitmentA''), ''--output_commitment_b'', strip0x (str_field p ''outputCommitmentB''),
     ''--new_root'', root, ''--batch_hash'', strip0x (str_field p ''batchHash''),
     ''--signer_pubkeys'', stringify (VArr (map (\<lambda>s. VStr (strip0x (ns_signingPubkey s))) sigs)),
     ''--signatures'', stringify (VArr (map (\<lambda>s. VStr (strip0x (ns_signature s))) sigs)),
     ''--proof_bytes'', proofArg, ''--pub_signals_bytes'', publicArg]"

text \<open>A settlement on Stellar: signed, with the note data, the root of the leaves with the two outputs, and the proof the relayer made, or
  whatever it has of one when the development flag allows to go without.\<close>

definition mpc_stellar_allowed :: "relay_world \<Rightarrow> jsval \<Rightarrow> string list \<Rightarrow> bool" where
  "mpc_stellar_allowed w p args \<longleftrightarrow> note_fields p \<and>
    (\<exists>sigs root proofArg publicArg. committee_signed w p sigs \<and>
       computeMpcRoot w (str_field p ''outputCommitmentA'') (str_field p ''outputCommitmentB'') = Ok root \<and>
       args = mpc_stellar_terms p root sigs proofArg publicArg \<and>
       (rw_unsafeProofless w \<or> (\<exists>z. settlement_proof w p z \<and> proofArg = stringify (VStr (mz_proofHex z)) \<and> publicArg = stringify (VStr (mz_publicHex z)))))"

definition mpc_arc_allowed :: "relay_world \<Rightarrow> jsval \<Rightarrow> string \<Rightarrow> jsval list \<Rightarrow> bool" where
  "mpc_arc_allowed w p m args \<longleftrightarrow> truthy (js_get p ''proof'') \<and> truthy (js_get p ''publicSignals'') \<and>
    m = (if \<exists>vs. js_get p ''publicSignals'' = VArr vs \<and> length vs = 20 then ''mpcSettlePriced'' else ''mpcSettle'') \<and>
    (\<exists>sigs. committee_signed w p sigs \<and> args = mpc_arc_terms p sigs)"

fun call_allowed :: "relay_world \<Rightarrow> service_job \<Rightarrow> relay_call \<Rightarrow> bool" where
  "call_allowed w job (RawTx t) = (j_job_type job \<in> {''WITHDRAW_PUBLIC_SUBMIT'', ''WITHDRAW_CCTP_BURN''} \<and> t = str_field (j_payload job) ''signedRawTx'')"
| "call_allowed w job (XdrTx t) = (j_job_type job \<in> {''WITHDRAW_PUBLIC_SUBMIT'', ''WITHDRAW_CCTP_BURN''} \<and> t = str_field (j_payload job) ''signedXdr'')"
| "call_allowed w job (EscrowBatch c) = (j_job_type job = ''STREAM_SETTLE_BATCH'' \<and> ac_method c = ''settleBatch'' \<and>
     ac_contractAddress c = env_or (rw_env w ''ARC_STREAM_ESCROW_CONTRACT'') [] \<and>
     (\<exists>vs. js_get (j_payload job) ''batch'' = VArr vs \<and> vs \<noteq> [] \<and> ac_proofs c = map (\<lambda>v. js_get v ''proof'') vs))"
| "call_allowed w job (BridgeCall c) =
    (if j_job_type job = ''CCTP_INBOUND_AFTER_USER_BURN''
     then \<exists>d. burn_check w (pool_of w (j_payload job)) (j_payload job) = Ok d
     else j_job_type job \<in> set (''CCTP_INBOUND'' # INBOUND_ALIASES) \<and> rw_env w ''ENABLE_OPERATOR_TESTNET_DEPOSIT'' = Some ''true'')"
| "call_allowed w job (ArcCall m args) =
    (if j_job_type job = ''RFQ_SETTLE_SUBMIT''
     then m = ''rfqSettle'' \<and> truthy (js_get (j_payload job) ''proof'') \<and> truthy (js_get (j_payload job) ''publicSignals'') \<and> args = rfq_arc_terms (j_payload job)
     else if j_job_type job = ''CCTP_INBOUND_AFTER_USER_BURN''
     then m = ''receiveDeposit'' \<and> truthy (js_get (j_payload job) ''proof'') \<and>
       (\<exists>d. burn_check w (pool_of w (j_payload job)) (j_payload job) = Ok d \<and> deposit_terms (j_payload job) d args)
     else j_job_type job = ''MPC_SETTLE_SUBMIT'' \<and> mpc_arc_allowed w (j_payload job) m args)"
| "call_allowed w job (SorobanCall m args) =
    (if j_job_type job = ''RFQ_SETTLE_SUBMIT'' then m = ''rfq_settle'' \<and> args = rfq_stellar_terms (j_payload job)
     else if j_job_type job = ''RFQ_ATOMIC_SWAP_SUBMIT'' then m = ''rfq_settle_atomic_swap'' \<and> args = swap_terms (j_payload job)
     else j_job_type job = ''MPC_SETTLE_SUBMIT'' \<and> m = ''mpc_settle'' \<and> mpc_stellar_allowed w (j_payload job) args)"

lemma map_res_length: "map_res f xs = Ok ys \<Longrightarrow> length ys = length xs"
  by (simp add: map_res_Inr list_all2_lengthD)

lemma runs_inbound:
  "j_job_type job \<in> set (''CCTP_INBOUND'' # INBOUND_ALIASES) \<Longrightarrow> runs jid (call_allowed w job) (relay_inbound w jid pool p)"
  unfolding relay_inbound_def by (intro relay_rules) (auto simp: list_all_iff INBOUND_ALIASES_def)

lemma runs_withdraw:
  "j_job_type job \<in> {''WITHDRAW_PUBLIC_SUBMIT'', ''WITHDRAW_CCTP_BURN''} \<Longrightarrow> runs jid (call_allowed w job) (relay_withdraw w jid t (j_payload job))"
  unfolding relay_withdraw_def by (auto intro!: relay_rules)

lemma batch_item_proofs: "map_res batch_item vs = Ok items \<Longrightarrow> map ps_proof items = map (\<lambda>v. js_get v ''proof'') vs"
  unfolding map_res_Inr by (induction rule: list_all2_induct) (auto simp: batch_item_def split: option.splits)

lemma runs_escrow_then:
  "A (EscrowBatch \<lparr> ac_rpcUrl = so_arcRpcUrl (stream_opts w), ac_chainId = so_arcChainId (stream_opts w),
        ac_contractAddress = so_escrowAddress (stream_opts w), ac_method = ''settleBatch'', ac_proofs = map ps_proof batch,
        ac_publicSignals = map ps_publicSignals batch, ac_privateKey = so_relayerPrivateKey (stream_opts w) \<rparr>) \<Longrightarrow>
   (\<And>a. runs jid A (f a)) \<Longrightarrow> runs jid A (andThen (submit_escrow w batch) f)"
  by (rule runs_then) (simp_all add: runs_def submit_escrow_def)

lemma runs_stream_batch:
  "j_job_type job = ''STREAM_SETTLE_BATCH'' \<Longrightarrow> runs jid (call_allowed w job) (relay_stream_batch w jid (j_payload job))"
  unfolding relay_stream_batch_def Let_def
  by (intro relay_rules runs_escrow_then) (auto simp: stream_opts_def batch_item_proofs split: jsval.splits)

lemma runs_rfq:
  "j_job_type job = ''RFQ_SETTLE_SUBMIT'' \<Longrightarrow> runs jid (call_allowed w job) (relay_rfq_settle w jid (j_payload job))"
  "j_job_type job = ''RFQ_ATOMIC_SWAP_SUBMIT'' \<Longrightarrow> runs jid (call_allowed w job) (relay_atomic_swap w jid (j_payload job))"
  unfolding relay_rfq_settle_def relay_atomic_swap_def
  by (auto intro!: relay_rules simp: has_arc_proof_def rfq_arc_terms_def RFQ_ARC_ARGS_def rfq_stellar_terms_def RFQ_FLAGS_def swap_terms_def SWAP_FLAGS_def cli_args_def)

lemma runs_outbound:
  "runs jid (call_allowed w job) (relay_out_attestation w jid p)" "runs jid (call_allowed w job) (relay_out_mint jid p)"
  unfolding relay_out_attestation_def relay_out_mint_def by (auto intro!: relay_rules)

lemma runs_user_burn:
  assumes "j_job_type job = ''CCTP_INBOUND_AFTER_USER_BURN''"
  shows "runs jid (call_allowed w job) (relay_user_burn w jid (pool_of w (j_payload job)) (j_payload job))"
  unfolding relay_user_burn_def using assms
  by (auto intro!: relay_rules simp: list_all_iff has_arc_proof_def deposit_terms_def deposit_args_def split: jsval.splits)


lemma mpc_verified_signed: "mpc_verified w p = Ok sigs \<Longrightarrow> committee_signed w p sigs"
proof -
  assume v: "mpc_verified w p = Ok sigs"
  then obtain committee sigs' where c: "pin_committee w (has_arc_proof p) = Ok committee" "sigs_of (js_get p ''signatures'') = Ok sigs'"
    unfolding mpc_verified_def res_bind_eq_Inr by blast
  with v have "verifySignedBatch (rw_nacl w) (rw_sha w) (relay_batch w p sigs') committee = Some True \<and> sigs' = sigs"
    by (cases "verifySignedBatch (rw_nacl w) (rw_sha w) (relay_batch w p sigs') committee") (auto simp: mpc_verified_def split: bool.splits)
  with c show ?thesis unfolding committee_signed_def by blast
qed

lemma try_prove_cases:
  obtains "try_prove w jid p s = (None, s)"
  | d where "try_prove w jid p s = (None, snd (status jid ''proving'' d s))" "truthy (js_get p ''coinAPath'')"
  | d z where "try_prove w jid p s = (Some z, snd (status jid ''proof_ready'' ''ZK proof generated'' (snd (status jid ''proving'' d s))))"
      "usable (Some z) \<Longrightarrow> settlement_proof w p z" "truthy (js_get p ''coinAPath'')"
proof -
  let ?d = "''generating mpc_settlement ZK proof for batch '' @ str_field p ''batchId''"
  let ?r = "res_bind (rw_coin w (str_field p ''coinAPath'')) (\<lambda>a. res_bind (rw_coin w (str_field p ''coinBPath'')) (\<lambda>b.
             rw_prove w a b (pool_leaves w) (str_field p ''assocPath'') p))"
  obtain r s1 where st: "status jid ''proving'' ?d s = (r, s1)" by fastforce
  have avail: "usable (Some z) \<Longrightarrow> settlement_proof w p z" if "?r = Inr z" for z
    using that unfolding settlement_proof_def usable_def res_bind_eq_Inr by auto
  consider "\<not> (truthy (js_get p ''coinAPath'') \<and> truthy (js_get p ''coinBPath'') \<and> truthy (js_get p ''assocPath''))"
    | "truthy (js_get p ''coinAPath'')" "truthy (js_get p ''coinBPath'')" "truthy (js_get p ''assocPath'')" by blast
  then show thesis
  proof cases
    case 1
    then show thesis by (intro that(1)) (simp add: try_prove_def)
  next
    case 2
    show thesis
    proof (cases "(\<exists>e. r = Inl e) \<or> (\<exists>e. ?r = Inl e)")
      case True
      then show thesis using 2 st by (intro that(2) [of ?d]) (auto simp: try_prove_def split: sum.split)
    next
      case False
      then obtain u z where "r = Inr u" "?r = Inr z" by (metis sum.exhaust)
      then show thesis using 2 st avail by (intro that(3) [of z ?d]) (auto simp: try_prove_def)
    qed
  qed
qed

lemma try_prove_effect:
  assumes "try_prove w jid p s = (z, s1)"
  shows "works_on jid (rl_queue s) (rl_queue s1)" "rl_calls s1 = rl_calls s" "usable z \<Longrightarrow> \<exists>y. z = Some y \<and> settlement_proof w p y"
    "\<not> truthy (js_get p ''coinAPath'') \<Longrightarrow> z = None"
proof -
  have st: "works_on jid (rl_queue t) (snd (setStatus jid e d (rl_queue t)))" if "e \<in> {''proving'', ''proof_ready''}" for t d e
    using that by (auto intro!: works_on_status)
  have st2: "works_on jid q (snd (setStatus jid ''proof_ready'' d (snd (setStatus jid ''proving'' d' q))))" for q d d'
    by (rule works_on_trans [OF works_on_status works_on_status]) simp_all
  show "works_on jid (rl_queue s) (rl_queue s1)" "rl_calls s1 = rl_calls s" "usable z \<Longrightarrow> \<exists>y. z = Some y \<and> settlement_proof w p y"
    "\<not> truthy (js_get p ''coinAPath'') \<Longrightarrow> z = None"
    by (rule try_prove_cases [of w jid p s]; use assms in \<open>auto simp: status_snd usable_def st st2\<close>)+
qed

lemma runs_mpc_stellar:
  assumes "j_job_type job = ''MPC_SETTLE_SUBMIT''" "committee_signed w (j_payload job) sigs"
  shows "runs jid (call_allowed w job) (mpc_settle_stellar w jid (j_payload job) sigs)"
  unfolding runs_def
proof
  fix s
  let ?p = "j_payload job"
  obtain z s1 where z: "try_prove w jid ?p s = (z, s1)" by fastforce
  note eff = try_prove_effect [OF z]
  define rest where "rest =
     andThen (need_that (note_fields ?p) ''note data missing from DB'') (\<lambda>_.
     andThen (need_that (usable z \<or> rw_unsafeProofless w) ''refusing to submit proofless mpc_settle'') (\<lambda>_.
     andThen (status jid ''submitting'' (''pool.mpc_settle match['' @ str_field ?p ''matchIndex'' @ '']'')) (\<lambda>_.
     andThen (outcome (computeMpcRoot w (str_field ?p ''outputCommitmentA'') (str_field ?p ''outputCommitmentB''))) (\<lambda>root.
     andThen (soroban_submit w ''mpc_settle'' (mpc_cli_args ?p root sigs z)) (\<lambda>r.
     give (result_obj [(''settled'', VBool True), (''onChain'', VBool True), (''batchId'', js_get ?p ''batchId''),
       (''matchIndex'', js_get ?p ''matchIndex''), (''txHash'', VStr (fst r)), (''nullifierA'', js_get ?p ''nullifierA''),
       (''nullifierB'', js_get ?p ''nullifierB''), (''zkProof'', proof_note z)]))))))"
  have "mpc_settle_stellar w jid ?p sigs s = rest s1" by (simp add: mpc_settle_stellar_def z rest_def)
  moreover have "runs jid (call_allowed w job) rest"
    unfolding rest_def
  proof (intro relay_rules)
    fix root
    assume r: "note_fields ?p" "usable z \<or> rw_unsafeProofless w" "computeMpcRoot w (str_field ?p ''outputCommitmentA'') (str_field ?p ''outputCommitmentB'') = Ok root"
    have "rw_unsafeProofless w \<or> (\<exists>y. settlement_proof w ?p y \<and> opt_hex (map_option mz_proofHex z) = stringify (VStr (mz_proofHex y)) \<and>
        opt_hex (map_option mz_publicHex z) = stringify (VStr (mz_publicHex y)))"
    proof (cases "usable z")
      case True
      with eff(3) obtain y where "z = Some y" "settlement_proof w ?p y" by blast
      then show ?thesis using True by (intro disjI2 exI [of _ y]) (simp add: opt_hex_def usable_def)
    qed (use r(2) in simp)
    then have "mpc_stellar_allowed w ?p (mpc_cli_args ?p root sigs z)"
      unfolding mpc_stellar_allowed_def using r(1,3) assms(2)
      by (intro conjI exI [of _ sigs] exI [of _ root] exI [of _ "opt_hex (map_option mz_proofHex z)"] exI [of _ "opt_hex (map_option mz_publicHex z)"])
        (simp_all add: mpc_cli_args_def mpc_stellar_terms_def)
    then show "call_allowed w job (SorobanCall ''mpc_settle'' (mpc_cli_args ?p root sigs z))" using assms(1) by simp
  qed simp_all
  ultimately show "works_on jid (rl_queue s) (rl_queue (snd (mpc_settle_stellar w jid ?p sigs s))) \<and>
     (\<exists>cs. rl_calls (snd (mpc_settle_stellar w jid ?p sigs s)) = rl_calls s @ cs \<and> list_all (call_allowed w job) cs)"
    using eff(1,2) works_on_trans unfolding runs_def by metis
qed

lemma runs_mpc_arc:
  assumes "j_job_type job = ''MPC_SETTLE_SUBMIT''" "committee_signed w (j_payload job) sigs" "has_arc_proof (j_payload job)"
  shows "runs jid (call_allowed w job) (mpc_settle_arc w jid (j_payload job) sigs)"
proof -
  have "mpc_arc_allowed w (j_payload job) (mpc_method (j_payload job)) (mpc_arc_terms (j_payload job) sigs)"
    using assms(2,3) by (auto simp: mpc_arc_allowed_def has_arc_proof_def mpc_method_def split: jsval.splits)
  then show ?thesis
    unfolding mpc_settle_arc_def mpc_arc_terms_def by (intro relay_rules) (simp_all add: assms(1))
qed

lemma runs_mpc:
  assumes "j_job_type job = ''MPC_SETTLE_SUBMIT''"
  shows "runs jid (call_allowed w job) (relay_mpc_settle w jid (j_payload job))"
  unfolding relay_mpc_settle_def
  by (intro relay_rules) (use assms mpc_verified_signed runs_mpc_stellar runs_mpc_arc in auto)

lemma runs_process: "runs (j_job_id job) (call_allowed w job) (processRelayerJob w job)"
proof -
  have "runs (j_job_id job) (call_allowed w job) (relay_inbound w (j_job_id job) (pool_of w (j_payload job)) (j_payload job))"
    if "j_job_type job = ''CCTP_INBOUND'' \<or> j_job_type job \<in> set INBOUND_ALIASES" using runs_inbound that by simp
  then show ?thesis
    unfolding processRelayerJob_def Let_def
    by (intro relay_rules) (auto intro!: relay_rules runs_withdraw runs_stream_batch runs_rfq runs_outbound runs_user_burn runs_mpc)
qed

interpretation relay: worker rl_queue "\<lambda>q s. s \<lparr> rl_queue := q \<rparr>" "processRelayerJob w" for w
proof
  show "works_on (j_job_id job) (rl_queue s) (rl_queue (snd (processRelayerJob w job s)))" for job s
    using runs_process [of job w] unfolding runs_def by blast
qed simp

lemma runRelayerOnce_worker:
  "runRelayerOnce w now s = worker_once rl_queue (\<lambda>q s. s \<lparr> rl_queue := q \<rparr>) QRelayer RELAYER_JOB_TYPES (processRelayerJob w) now s"
  by (auto simp: runRelayerOnce_def worker_once_def andThen_def finish_def split: prod.splits option.splits sum.splits)


section \<open>Properties\<close>


text \<open>C30: a job the relayer claims never stays in an in-progress state: one run leaves it ready with the
  result of its processing, or records the error and schedules the retry (ten seconds later) while attempts
  remain and fails it otherwise; no other job changes and the queue invariant holds.\<close>

theorem relayer_job_lifecycle:
  assumes "queue_inv (rl_queue s)" "claimNext now QRelayer RELAYER_JOB_TYPES (rl_queue s) = (Some job, q)"
  shows "queue_inv (rl_queue (snd (runRelayerOnce w now s))) \<and>
    (\<exists>j. getJob (j_job_id job) (rl_queue (snd (runRelayerOnce w now s))) = Some j \<and>
      settled_job now job (fst (processRelayerJob w job (s \<lparr> rl_queue := q \<rparr>))) j) \<and>
    (\<forall>i. i \<noteq> j_job_id job \<longrightarrow> getJob i (rl_queue (snd (runRelayerOnce w now s))) = getJob i (rl_queue s))"
  unfolding runRelayerOnce_worker by (rule relay.claimed_job_settles [OF assms])

text \<open>A world and a queue to run the relayer on.\<close>

definition demo_relay :: relay_world where
  "demo_relay = \<lparr> rw_env = [''SHIELDED_POOL_CONTRACT'' \<mapsto> ''CPOOL'', ''STELLAR_RELAYER_SECRET'' \<mapsto> ''S''], rw_arcNetwork = False,
     rw_unsafeProofless = False, rw_soroban = (\<lambda>m args. Ok (''aa'', ''[]'')), rw_arc = (\<lambda>m args. Throw ''no arc''),
     rw_broadcastRaw = (\<lambda>t. Ok (''0xbb'', ''1'')), rw_broadcastXdr = (\<lambda>t. Ok (''cc'', ''SUCCESS'')), rw_settleBatch = (\<lambda>c. Ok ''0xdd''),
     rw_iris = (\<lambda>h. IrisStatus 404), rw_burnTx = (\<lambda>h. None), rw_decode = (\<lambda>d. None), rw_strkey = demo_strkey, rw_cctp = demo_env,
     rw_inbound = demo_world, rw_usdcBalance = 0, rw_allowance = 0, rw_burnOk = True, rw_coin = (\<lambda>path. Throw ''ENOENT''),
     rw_matches = (\<lambda>b. None), rw_leaves = None, rw_coinutils = (\<lambda>ls. Throw ''ENOENT''), rw_prove = (\<lambda>a b c d e. Throw ''not built''),
     rw_nacl = demo_nacl, rw_sha = demo_sha \<rparr>"

definition demo_xdr_job :: "nat \<Rightarrow> service_job" where
  "demo_xdr_job n = (new_job 0 0 QRelayer ''WITHDRAW_PUBLIC_SUBMIT'' (VObj [(''signedXdr'', VStr ''AAAA'')]) None) \<lparr> j_attempts := n \<rparr>"

definition demo_relay_state :: relay_state where
  "demo_relay_state = \<lparr> rl_queue = \<lparr> q_jobs = [demo_xdr_job 0], q_events = [], q_next = 1 \<rparr>, rl_calls = [] \<rparr>"

lemma demo_relay_claim:
  "queue_inv (rl_queue demo_relay_state)"
  "claimNext 5 QRelayer RELAYER_JOB_TYPES (rl_queue demo_relay_state) =
     (Some (demo_xdr_job 1 \<lparr> j_status := ''claimed'' \<rparr>), \<lparr> q_jobs = [demo_xdr_job 1 \<lparr> j_status := ''claimed'' \<rparr>], q_events = [], q_next = 1 \<rparr>)"
  by (simp_all add: demo_relay_state_def demo_xdr_job_def new_job_def queue_inv_def job_ok_def claimNext_def claimable_def
      update_job_def RELAYER_JOB_TYPES_def)

theorem relayer_job_lifecycle_witness:
  "\<exists>j. getJob 0 (rl_queue (snd (runRelayerOnce demo_relay 5 demo_relay_state))) = Some j \<and> j_status j = ''ready''"
proof -
  let ?job = "demo_xdr_job 1 \<lparr> j_status := ''claimed'' \<rparr>" and ?q = "\<lparr> q_jobs = [demo_xdr_job 1 \<lparr> j_status := ''claimed'' \<rparr>], q_events = [], q_next = 1 \<rparr>"
  have p: "\<exists>r. fst (processRelayerJob demo_relay ?job (demo_relay_state \<lparr> rl_queue := ?q \<rparr>)) = Inr r"
    by (simp add: processRelayerJob_def pool_of_def demo_xdr_job_def new_job_def demo_relay_def env_or_def set_env_def andThen_def need_that_def
        INBOUND_ALIASES_def relay_withdraw_def status_def setStatus_def event_def update_job_def getJob_def submit_def give_def)
  have "\<exists>j. getJob (j_job_id ?job) (rl_queue (snd (runRelayerOnce demo_relay 5 demo_relay_state))) = Some j \<and>
      settled_job 5 ?job (fst (processRelayerJob demo_relay ?job (demo_relay_state \<lparr> rl_queue := ?q \<rparr>))) j"
    using relayer_job_lifecycle [OF demo_relay_claim, of demo_relay] by blast
  with p show ?thesis by (auto simp: settled_job_def demo_xdr_job_def new_job_def)
qed

text \<open>The settlement jobs the settler files carry neither coin files nor a proof, so without the unsafe
  development flag the relayer refuses every one of them: the job fails and nothing is submitted.\<close>

theorem settler_jobs_never_settle:
  assumes "j_job_type job = ''MPC_SETTLE_SUBMIT''" "j_payload job = settle_payload db batch i m" "\<not> rw_unsafeProofless w"
  shows "(\<exists>e. fst (processRelayerJob w job s) = Throw e) \<and> rl_calls (snd (processRelayerJob w job s)) = rl_calls s"
proof -
  let ?p = "j_payload job"
  have coin: "js_get ?p ''coinAPath'' = VUndef" "js_get ?p ''proof'' = VUndef"
    unfolding assms(2) settle_payload_def Let_def by simp_all
  have np: "\<not> has_arc_proof ?p" by (simp add: has_arc_proof_def coin)
  define Q where "Q m \<longleftrightarrow> (\<forall>s. (\<exists>e. fst (m s) = Throw e) \<and> rl_calls (snd (m s)) = rl_calls s)" for m :: "jsval relay"
  have stellar: "Q (mpc_settle_stellar w jid ?p sigs)" for jid sigs
    unfolding Q_def
  proof
    fix s
    obtain z s1 where z: "try_prove w jid ?p s = (z, s1)" by fastforce
    have "z = None" "rl_calls s1 = rl_calls s" using try_prove_effect(2,4) [OF z] coin by simp_all
    then show "(\<exists>e. fst (mpc_settle_stellar w jid ?p sigs s) = Throw e) \<and> rl_calls (snd (mpc_settle_stellar w jid ?p sigs s)) = rl_calls s"
      using assms(3) by (auto simp: mpc_settle_stellar_def z andThen_def need_that_def usable_def)
  qed
  have st: "(\<And>u. Q (f u)) \<Longrightarrow> Q (andThen (status jid e d) f)" for f jid e d
    unfolding Q_def andThen_def by (auto simp: status_def split: prod.split sum.split)
  have out: "(\<And>a. Q (f a)) \<Longrightarrow> Q (andThen (outcome r) f)" for f :: "node_signature list \<Rightarrow> jsval relay" and r
    unfolding Q_def andThen_def by (auto simp: outcome_def split: sum.split)
  have "Q (relay_mpc_settle w (j_job_id job) ?p)"
    unfolding relay_mpc_settle_def using np stellar by (auto intro!: out st)
  then have "Q (processRelayerJob w job)"
    using assms(1) unfolding processRelayerJob_def Let_def Q_def andThen_def INBOUND_ALIASES_def by (auto simp: need_that_def)
  then show ?thesis unfolding Q_def by blast
qed


definition demo_settle_job :: service_job where
  "demo_settle_job = new_job 0 0 QRelayer ''MPC_SETTLE_SUBMIT'' (settle_payload demo_settle_db demo_batch_row 0 (Settler.demo_match ''a'' ''b'')) None"

theorem settler_jobs_never_settle_witness:
  "(\<exists>e. fst (processRelayerJob demo_relay demo_settle_job demo_relay_state) = Throw e) \<and>
   rl_calls (snd (processRelayerJob demo_relay demo_settle_job demo_relay_state)) = []"
  using settler_jobs_never_settle [of demo_settle_job demo_settle_db demo_batch_row 0 "Settler.demo_match ''a'' ''b''" demo_relay demo_relay_state]
  by (simp add: demo_settle_job_def new_job_def demo_relay_def demo_relay_state_def)

end
