(* ===== verification/ProverWorker.thy ===== *)
theory ProverWorker
  imports Workers Hex
begin

text \<open>
  The prover worker, \<open>apps/prover/src/worker.ts\<close>, and the BLS12-381 proof pipeline it runs,
  \<open>packages/proving/src/prove.ts\<close>. The pipeline writes files, runs three programs (coinutils, snarkjs,
  circom2soroban) and reads their output, so the state is the queue and the file system; the programs are
  the record \<open>tool_lib\<close>, each taking its arguments and the files and returning its output and the files it
  leaves. An error is its message, shortened where the source interpolates into it. The members of a job's
  payload have the types \<open>ProofPayload\<close> declares.
\<close>

section \<open>Files and programs\<close>

type_synonym files = "string \<Rightarrow> string option"

record tool_lib =
  tl_coinutils :: "string list \<Rightarrow> files \<Rightarrow> (string, string \<times> files) result"
  tl_snarkjs :: "string list \<Rightarrow> files \<Rightarrow> (string, string \<times> files) result"
  tl_c2s :: "string list \<Rightarrow> files \<Rightarrow> (string, string \<times> files) result"
  tl_sha :: "bytes \<Rightarrow> bytes"
  tl_scratch :: string
  tl_withdrawCircuit :: string
  tl_transferCircuit :: string
  tl_depositCircuit :: string

record prover_state =
  pv_queue :: queue_state
  pv_files :: files

type_synonym 'a prover = "(prover_state, string, 'a) stmt"

definition yield_value :: "'a \<Rightarrow> 'a prover" where
  "yield_value x s = (Ok x, s)"

definition pure :: "(string, 'a) result \<Rightarrow> 'a prover" where
  "pure r s = (r, s)"

definition mark :: "nat \<Rightarrow> string \<Rightarrow> string \<Rightarrow> unit prover" where
  "mark jid st detail s =
    (case setStatus jid st (Some detail) (pv_queue s) of
       (Inl _, q) \<Rightarrow> (Throw ''violates foreign key constraint'', s \<lparr> pv_queue := q \<rparr>)
     | (Inr _, q) \<Rightarrow> (Ok (), s \<lparr> pv_queue := q \<rparr>))"

definition run_tool :: "(string list \<Rightarrow> files \<Rightarrow> (string, string \<times> files) result) \<Rightarrow> string list \<Rightarrow> string prover" where
  "run_tool tool args s = (case tool args (pv_files s) of
     Inl e \<Rightarrow> (Throw e, s) | Inr (out, fs) \<Rightarrow> (Ok out, s \<lparr> pv_files := fs \<rparr>))"

definition write_file :: "string \<Rightarrow> string \<Rightarrow> unit prover" where
  "write_file path content s = (Ok (), s \<lparr> pv_files := (pv_files s) (path \<mapsto> content) \<rparr>)"

definition remove_file :: "string \<Rightarrow> unit prover" where
  "remove_file path s = (Ok (), s \<lparr> pv_files := (pv_files s) (path := None) \<rparr>)"

text \<open>\<open>JSON.parse(readFileSync(path, "utf8"))\<close>\<close>

definition read_json :: "string \<Rightarrow> jsval prover" where
  "read_json path s = ((case pv_files s path of None \<Rightarrow> Throw ''ENOENT''
     | Some t \<Rightarrow> (case json_parse t of None \<Rightarrow> Throw ''Unexpected token'' | Some v \<Rightarrow> Ok v)), s)"

definition js_member :: "jsval \<Rightarrow> string \<Rightarrow> (string, jsval) result" where
  "js_member v k = (if v = VUndef \<or> v = VNull then Throw ''Cannot read properties'' else Ok (js_get v k))"

definition or_default :: "jsval \<Rightarrow> jsval \<Rightarrow> jsval" where
  "or_default v d = (if v = VUndef \<or> v = VNull then d else v)"

text \<open>An argument of \<open>execFileSync\<close> must be a string.\<close>

definition str_arg :: "jsval \<Rightarrow> (string, string) result" where
  "str_arg v = (case v of VStr t \<Rightarrow> Ok t | _ \<Rightarrow> Throw ''ERR_INVALID_ARG_TYPE'')"


section \<open>The proof pipeline\<close>

record coin_file =
  cf_path :: string
  cf_commitmentHex :: jsval
  cf_commitmentDecimal :: jsval
  cf_value7dp :: jsval
  cf_assetIdField :: jsval

fun hex_digits :: "nat \<Rightarrow> string" where
  "hex_digits n = (if n < 16 then [hex_digit n] else hex_digits (n div 16) @ [hex_digit (n mod 16)])"

declare hex_digits.simps [simp del]

text \<open>\<open>"0x" + BigInt(x).toString(16).padStart(64, "0")\<close>\<close>

definition root_text :: "int \<Rightarrow> string" where
  "root_text i = ''0x'' @ (let t = (if i < 0 then CHR ''-'' # hex_digits (nat (- i)) else hex_digits (nat i)) in
     replicate (64 - length t) (CHR ''0'') @ t)"

definition hexRoot :: "jsval \<Rightarrow> (string, string) result" where
  "hexRoot v = (case to_BigInt v of None \<Rightarrow> Throw ''Cannot convert to a BigInt'' | Some i \<Rightarrow> Ok (root_text i))"

definition strip_0x :: "string \<Rightarrow> string" where
  "strip_0x h = (if take 2 h = ''0x'' then drop 2 h else h)"

definition hex_decimal :: "string \<Rightarrow> (string, string) result" where
  "hex_decimal h = (case big_int_of_string (''0x'' @ h) of None \<Rightarrow> Throw ''Cannot convert to a BigInt'' | Some i \<Rightarrow> Ok (int_to_string i))"

definition recipient32ToField :: "string \<Rightarrow> (string, string) result" where
  "recipient32ToField hex32 = hex_decimal (strip_0x hex32)"

definition recipientHashField :: "tool_lib \<Rightarrow> string \<Rightarrow> (string, string) result" where
  "recipientHashField tlb strkey = hex_decimal (to_hex (take 31 (tl_sha tlb (utf8 strkey))))"

definition hashToField :: "string \<Rightarrow> (string, string) result" where
  "hashToField hex32 = hex_decimal (take 62 (strip_0x hex32))"

definition state_file :: "jsval \<Rightarrow> string \<Rightarrow> string" where
  "state_file commitments scope = stringify (VObj [(''commitments'', commitments), (''scope'', VStr scope)])"

record note_proof =
  np_proofHex :: string
  np_publicHex :: string
  np_locallyVerified :: bool

text \<open>\<open>/OK!/.test(verify)\<close>\<close>

definition says_ok :: "string \<Rightarrow> bool" where
  "says_ok out \<longleftrightarrow> sublist ''OK!'' out"

text \<open>Witness, proof, verification and conversion: the common tail of the builders.\<close>

definition prove_files :: "tool_lib \<Rightarrow> string \<Rightarrow> string \<Rightarrow> string \<Rightarrow> string \<Rightarrow> string \<Rightarrow> note_proof prover" where
  "prove_files tlb circuit inputPath wtns proofJson publicJson =
    andThen (run_tool (tl_snarkjs tlb) [''wtns'', ''calculate'', circuit @ ''/build/main_js/main.wasm'', inputPath, wtns]) (\<lambda>_.
    andThen (run_tool (tl_snarkjs tlb) [''groth16'', ''prove'', circuit @ ''/output/main_final.zkey'', wtns, proofJson, publicJson]) (\<lambda>_.
    andThen (run_tool (tl_snarkjs tlb) [''groth16'', ''verify'', circuit @ ''/output/main_verification_key.json'', publicJson, proofJson]) (\<lambda>verify.
    andThen (run_tool (tl_c2s tlb) [''proof'', proofJson]) (\<lambda>proofOut.
    andThen (run_tool (tl_c2s tlb) [''public'', publicJson]) (\<lambda>publicOut.
    yield_value \<lparr> np_proofHex = js_trim proofOut, np_publicHex = js_trim publicOut, np_locallyVerified = says_ok verify \<rparr>)))))"

definition in_scratch :: "tool_lib \<Rightarrow> string \<Rightarrow> string \<Rightarrow> string" where
  "in_scratch tlb tag sfx = tl_scratch tlb @ ''/'' @ tag @ sfx"

definition buildTransferProof ::
  "tool_lib \<Rightarrow> coin_file \<Rightarrow> jsval \<Rightarrow> string \<Rightarrow> string \<Rightarrow> string \<Rightarrow> string option \<Rightarrow> (note_proof \<times> string \<times> string \<times> string) prover" where
  "buildTransferProof tlb coin commitments scope fee7dp tag assocPath =
    andThen (write_file (in_scratch tlb tag ''_xstate.json'') (state_file commitments scope)) (\<lambda>_.
    andThen (run_tool (tl_coinutils tlb) ([''transfer'', cf_path coin, in_scratch tlb tag ''_xstate.json'', fee7dp, ''--out-scope'', scope @ ''_out'',
        ''-o'', in_scratch tlb tag ''_xfer.json'', ''--out-coin'', in_scratch tlb tag ''_xout.json''] @
        (case assocPath of None \<Rightarrow> [] | Some a \<Rightarrow> if a = [] then [] else [''--association-file'', a]))) (\<lambda>_.
    andThen (read_json (in_scratch tlb tag ''_xfer.json'')) (\<lambda>witness.
    andThen (prove_files tlb (tl_transferCircuit tlb) (in_scratch tlb tag ''_xfer.json'') (in_scratch tlb tag ''_x.wtns'')
        (in_scratch tlb tag ''_x_proof.json'') (in_scratch tlb tag ''_x_public.json'')) (\<lambda>pr.
    andThen (pure (res_bind (js_member witness ''stateRoot'') hexRoot)) (\<lambda>stateRoot.
    andThen (pure (hexRoot (js_get witness ''associationRoot''))) (\<lambda>assocRoot.
    andThen (pure (hexRoot (js_get witness ''outputCommitment''))) (\<lambda>out.
    yield_value (pr, stateRoot, assocRoot, out))))))))"

text \<open>\<open>generateCoin\<close>, \<open>buildAssociationSet\<close> and \<open>computeStateRoot\<close>: the helpers of the command line and the registrar.\<close>

definition generateCoin :: "tool_lib \<Rightarrow> string \<Rightarrow> string \<Rightarrow> string \<Rightarrow> coin_file prover" where
  "generateCoin tlb scope outPath assetId =
    andThen (run_tool (tl_coinutils tlb) [''generate'', scope, ''-o'', outPath, ''--asset-id'', assetId]) (\<lambda>_.
    andThen (read_json outPath) (\<lambda>c.
    andThen (pure (js_member c ''coin'')) (\<lambda>coin.
    andThen (pure (js_member coin ''commitment'')) (\<lambda>commitment.
    yield_value \<lparr> cf_path = outPath, cf_commitmentHex = js_get c ''commitment_hex'', cf_commitmentDecimal = commitment,
      cf_value7dp = js_get coin ''value'', cf_assetIdField = js_get coin ''asset_id'' \<rparr>))))"

definition buildAssociationSet :: "tool_lib \<Rightarrow> coin_file \<Rightarrow> string \<Rightarrow> (string \<times> string) prover" where
  "buildAssociationSet tlb coin tag =
    andThen (read_json (cf_path coin)) (\<lambda>c.
    andThen (pure (res_bind (js_member c ''coin'') (\<lambda>opening. js_member opening ''label''))) (\<lambda>label.
    andThen (remove_file (in_scratch tlb tag ''_assoc.json'')) (\<lambda>_.
    andThen (pure (str_arg label)) (\<lambda>l.
    andThen (run_tool (tl_coinutils tlb) [''update-association'', in_scratch tlb tag ''_assoc.json'', l]) (\<lambda>_.
    andThen (read_json (in_scratch tlb tag ''_assoc.json'')) (\<lambda>a.
    andThen (pure (res_bind (js_member a ''root'') hexRoot)) (\<lambda>root.
    yield_value (in_scratch tlb tag ''_assoc.json'', root))))))))"

definition computeStateRoot :: "tool_lib \<Rightarrow> coin_file \<Rightarrow> jsval \<Rightarrow> string \<Rightarrow> string \<Rightarrow> string option \<Rightarrow> string prover" where
  "computeStateRoot tlb coin commitments scope tag assocPath =
    andThen (write_file (in_scratch tlb tag ''_rootstate.json'') (state_file commitments scope)) (\<lambda>_.
    andThen (run_tool (tl_coinutils tlb) ([''withdraw'', cf_path coin, in_scratch tlb tag ''_rootstate.json''] @
        (case assocPath of None \<Rightarrow> [] | Some a \<Rightarrow> if a = [] then [] else [a]) @ [''-o'', in_scratch tlb tag ''_rootinput.json''])) (\<lambda>_.
    andThen (read_json (in_scratch tlb tag ''_rootinput.json'')) (\<lambda>input.
    pure (res_bind (js_member input ''stateRoot'') hexRoot))))"

text \<open>The binding fields and their flags; the later ones default to zero.\<close>

definition BINDING_FLAGS :: "(string \<times> string \<times> bool) list" where
  "BINDING_FLAGS = [(''--operation-type'', ''operationType'', True), (''--recipient-hash'', ''recipientHash'', True),
     (''--relayer-fee'', ''relayerFee'', True), (''--deadline-ledger'', ''deadlineLedger'', True), (''--quote-hash'', ''quoteHash'', False),
     (''--intent-hash'', ''intentHash'', False), (''--fill-receipt-hash'', ''fillReceiptHash'', False),
     (''--destination-domain'', ''destinationDomain'', False), (''--destination-recipient'', ''destinationRecipient'', False),
     (''--max-fee'', ''maxFee'', False), (''--min-finality-threshold'', ''minFinalityThreshold'', False)]"

definition default_binding :: jsval where
  "default_binding = VObj [(''operationType'', VStr ''1''), (''recipientHash'', VStr ''0''), (''relayerFee'', VStr ''0''), (''deadlineLedger'', VStr ''0'')]"

definition binding_args :: "jsval \<Rightarrow> (string, string list) result" where
  "binding_args b = res_bind (map_res (\<lambda>(flag, k, required).
     res_bind (str_arg (if required then js_get b k else or_default (js_get b k) (VStr ''0''))) (\<lambda>v. Ok [flag, v])) BINDING_FLAGS)
     (\<lambda>vs. Ok (concat vs))"

definition buildNoteProof ::
  "tool_lib \<Rightarrow> coin_file \<Rightarrow> jsval \<Rightarrow> string \<Rightarrow> string \<Rightarrow> string \<Rightarrow> jsval \<Rightarrow> (note_proof \<times> string) prover" where
  "buildNoteProof tlb coin commitments scope tag assocPath binding =
    andThen (write_file (in_scratch tlb tag ''_state.json'') (state_file commitments scope)) (\<lambda>_.
    andThen (pure (binding_args (or_default binding default_binding))) (\<lambda>bargs.
    andThen (run_tool (tl_coinutils tlb) ([''withdraw'', cf_path coin, in_scratch tlb tag ''_state.json'', assocPath, ''-o'',
        in_scratch tlb tag ''_input.json''] @ bargs)) (\<lambda>_.
    andThen (read_json (in_scratch tlb tag ''_input.json'')) (\<lambda>input.
    andThen (pure (res_bind (js_member input ''stateRoot'') hexRoot)) (\<lambda>stateRoot.
    andThen (prove_files tlb (tl_withdrawCircuit tlb) (in_scratch tlb tag ''_input.json'') (in_scratch tlb tag ''_witness.wtns'')
        (in_scratch tlb tag ''_proof.json'') (in_scratch tlb tag ''_public.json'')) (\<lambda>pr.
    yield_value (pr, stateRoot)))))))"

definition hash_member :: "jsval \<Rightarrow> string \<Rightarrow> (string, jsval) result" where
  "hash_member b k = res_bind (str_arg (js_get b k)) (\<lambda>h. res_bind (hashToField h) (\<lambda>t. Ok (VStr t)))"

definition strkey_member :: "tool_lib \<Rightarrow> jsval \<Rightarrow> string \<Rightarrow> (string, jsval) result" where
  "strkey_member tlb b k = res_bind (str_arg (js_get b k)) (\<lambda>h. res_bind (recipientHashField tlb h) (\<lambda>t. Ok (VStr t)))"

definition deposit_input :: "tool_lib \<Rightarrow> jsval \<Rightarrow> jsval \<Rightarrow> (string, jsval) result" where
  "deposit_input tlb opening b =
    res_bind (hash_member b ''cctpNonceHex'') (\<lambda>nonce.
    res_bind (str_arg (js_get b ''burnTxHashHex'')) (\<lambda>burn. res_bind (hashToField (to_hex (tl_sha tlb (utf8 burn)))) (\<lambda>burnHash.
    res_bind (strkey_member tlb b ''assetStrkey'') (\<lambda>asset. res_bind (strkey_member tlb b ''poolStrkey'') (\<lambda>pool.
    res_bind (hash_member b ''encryptedNotePayloadHashHex'') (\<lambda>enc. res_bind (hash_member b ''policyIdHex'') (\<lambda>policy.
    res_bind (js_member opening ''value'') (\<lambda>value.
    Ok (VObj [(''operationType'', VStr ''4''), (''sourceDomain'', js_get b ''sourceDomain''), (''destinationDomain'', js_get b ''destinationDomain''),
      (''cctpNonceHash'', nonce), (''burnTxHashHash'', VStr burnHash), (''amount6dp'', js_get b ''amount6dp''), (''amount7dp'', js_get b ''amount7dp''),
      (''assetIdHash'', asset), (''recipientPool'', pool), (''encryptedNotePayloadHash'', enc), (''policyIdHash'', policy),
      (''poolId'', js_get b ''poolId''), (''chainId'', js_get b ''chainId''), (''value'', value), (''label'', js_get opening ''label''),
      (''nullifier'', js_get opening ''nullifier''), (''secret'', js_get opening ''secret'')])))))))))"

definition buildDepositProof :: "tool_lib \<Rightarrow> coin_file \<Rightarrow> jsval \<Rightarrow> string \<Rightarrow> note_proof prover" where
  "buildDepositProof tlb coin b tag =
    andThen (read_json (cf_path coin)) (\<lambda>c.
    andThen (pure (js_member c ''coin'')) (\<lambda>opening.
    andThen (pure (deposit_input tlb opening b)) (\<lambda>input.
    andThen (write_file (in_scratch tlb tag ''_dep_input.json'') (stringify input)) (\<lambda>_.
    prove_files tlb (tl_depositCircuit tlb) (in_scratch tlb tag ''_dep_input.json'') (in_scratch tlb tag ''_dep.wtns'')
      (in_scratch tlb tag ''_dep_proof.json'') (in_scratch tlb tag ''_dep_public.json'')))))"


section \<open>The worker\<close>

definition PROOF_JOB_TYPES :: "string list" where
  "PROOF_JOB_TYPES = [''withdraw_public'', ''withdraw_cctp'', ''rfq_settlement'', ''private_transfer'', ''deposit_note_mint'']"

definition coinFromPath :: "string \<Rightarrow> coin_file prover" where
  "coinFromPath path =
    andThen (read_json path) (\<lambda>c.
    andThen (pure (js_member c ''coin'')) (\<lambda>coin.
    andThen (pure (js_member coin ''commitment'')) (\<lambda>commitment.
    yield_value \<lparr> cf_path = path, cf_commitmentHex = js_get c ''commitment_hex'', cf_commitmentDecimal = commitment,
      cf_value7dp = js_get coin ''value'', cf_assetIdField = or_default (js_get coin ''asset_id'') (VStr []) \<rparr>)))"

definition assertVerified :: "nat \<Rightarrow> bool \<Rightarrow> unit prover" where
  "assertVerified jid ok =
    andThen (mark jid ''verifying_locally'' (if ok then ''snarkjs verify OK'' else ''snarkjs verify FAILED'')) (\<lambda>_.
    pure (if ok then Ok () else Throw ''local proof verification failed''))"

definition job_tag :: "service_job \<Rightarrow> string" where
  "job_tag job = to_String (or_default (js_get (j_payload job) ''tag'') (VStr (''job_'' @ take 8 (nat_to_string (j_job_id job)))))"

definition commitments_of :: "jsval \<Rightarrow> coin_file \<Rightarrow> jsval" where
  "commitments_of p coin = or_default (js_get p ''commitmentsDecimal'') (VArr [cf_commitmentDecimal coin])"

definition scope_of :: "jsval \<Rightarrow> string" where
  "scope_of p = to_String (or_default (js_get p ''scope'') (VStr ''shade''))"

definition prove_job :: "tool_lib \<Rightarrow> service_job \<Rightarrow> coin_file \<Rightarrow> jsval prover" where
  "prove_job tlb job coin =
    (let p = j_payload job; jid = j_job_id job; tag = job_tag job in
     if j_job_type job = ''private_transfer'' then
       (if \<not> truthy (js_get p ''assocPath'') then pure (Throw (j_job_type job @ '' requires assocPath''))
        else andThen (pure (str_arg (or_default (js_get p ''fee7dp'') (VStr ''0'')))) (\<lambda>fee.
          andThen (buildTransferProof tlb coin (commitments_of p coin) (scope_of p) fee tag (Some (to_String (js_get p ''assocPath'')))) (\<lambda>(pr, stateRoot, assocRoot, out).
          andThen (assertVerified jid (np_locallyVerified pr)) (\<lambda>_.
          yield_value (VObj [(''proofHex'', VStr (np_proofHex pr)), (''publicHex'', VStr (np_publicHex pr)), (''stateRootHex'', VStr stateRoot),
            (''associationRootHex'', VStr assocRoot), (''outputCommitmentHex'', VStr out)])))))
     else if j_job_type job = ''deposit_note_mint'' then
       (if \<not> truthy (js_get p ''depositBinding'') then pure (Throw ''deposit_note_mint requires depositBinding'')
        else andThen (buildDepositProof tlb coin (js_get p ''depositBinding'') tag) (\<lambda>pr.
          andThen (assertVerified jid (np_locallyVerified pr)) (\<lambda>_.
          yield_value (VObj [(''proofHex'', VStr (np_proofHex pr)), (''publicHex'', VStr (np_publicHex pr)), (''commitmentHex'', cf_commitmentHex coin)]))))
     else
       (if \<not> truthy (js_get p ''assocPath'') then pure (Throw (j_job_type job @ '' requires assocPath''))
        else andThen (buildNoteProof tlb coin (commitments_of p coin) (scope_of p) tag (to_String (js_get p ''assocPath'')) (js_get p ''binding'')) (\<lambda>(pr, stateRoot).
          andThen (assertVerified jid (np_locallyVerified pr)) (\<lambda>_.
          yield_value (VObj [(''proofHex'', VStr (np_proofHex pr)), (''publicHex'', VStr (np_publicHex pr)), (''stateRootHex'', VStr stateRoot)])))))"

text \<open>\<open>rmSync(path, { force: true })\<close> of the three witness files.\<close>

definition remove_witness :: "tool_lib \<Rightarrow> string \<Rightarrow> unit prover" where
  "remove_witness tlb tag s = (Ok (), s \<lparr> pv_files := (pv_files s)
     (in_scratch tlb tag ''_witness.wtns'' := None, in_scratch tlb tag ''_x.wtns'' := None, in_scratch tlb tag ''_dep.wtns'' := None) \<rparr>)"

text \<open>\<open>processProofJob\<close> up to its final \<open>queue.complete\<close>.\<close>

definition proof_work :: "tool_lib \<Rightarrow> service_job \<Rightarrow> jsval prover" where
  "proof_work tlb job =
    andThen (coinFromPath (to_String (js_get (j_payload job) ''coinPath''))) (\<lambda>coin.
    andThen (mark (j_job_id job) ''building_witness'' (j_job_type job @ '' witness'')) (\<lambda>_.
    andThen (mark (j_job_id job) ''proving'' ''groth16 prove'') (\<lambda>_.
    andThen (prove_job tlb job coin) (\<lambda>res.
    andThen (mark (j_job_id job) ''converting_for_soroban'' ''circom2soroban bytes ready'') (\<lambda>_.
    andThen (remove_witness tlb (job_tag job)) (\<lambda>_.
    yield_value res))))))"

definition complete_job :: "nat \<Rightarrow> jsval \<Rightarrow> jsval prover" where
  "complete_job jid res s =
    (case complete jid res ''ready'' (pv_queue s) of
       (Inl _, q) \<Rightarrow> (Throw ''violates foreign key constraint'', s \<lparr> pv_queue := q \<rparr>)
     | (Inr _, q) \<Rightarrow> (Ok res, s \<lparr> pv_queue := q \<rparr>))"

definition processProofJob :: "tool_lib \<Rightarrow> service_job \<Rightarrow> jsval prover" where
  "processProofJob tlb job = andThen (proof_work tlb job) (complete_job (j_job_id job))"

definition runProverOnce :: "tool_lib \<Rightarrow> int \<Rightarrow> prover_state \<Rightarrow> bool \<times> prover_state" where
  "runProverOnce tlb now s =
    (case claimNext now QProver PROOF_JOB_TYPES (pv_queue s) of
       (None, q) \<Rightarrow> (False, s \<lparr> pv_queue := q \<rparr>)
     | (Some job, q) \<Rightarrow>
         (case processProofJob tlb job (s \<lparr> pv_queue := q \<rparr>) of
            (Inr _, s') \<Rightarrow> (True, s')
          | (Inl e, s') \<Rightarrow> (True, s' \<lparr> pv_queue := snd (fail now (j_job_id job) e 10 (pv_queue s')) \<rparr>)))"


section \<open>The life of a proof job\<close>

named_theorems prover_rules \<open>proof rules for the prover's statements\<close>

definition proves :: "nat \<Rightarrow> 'a prover \<Rightarrow> bool" where
  "proves jid m \<longleftrightarrow> (\<forall>s. works_on jid (pv_queue s) (pv_queue (snd (m s))))"

lemma proves_then [prover_rules]:
  assumes "proves jid m" "\<And>a. proves jid (f a)"
  shows "proves jid (andThen m f)"
  unfolding proves_def
proof
  fix s
  show "works_on jid (pv_queue s) (pv_queue (snd (andThen m f s)))"
    using assms works_on_trans unfolding proves_def by (cases "fst (m s)") (auto, blast)
qed

lemma proves_steps [prover_rules]:
  "proves jid (yield_value x)" "proves jid (pure r)" "proves jid (run_tool tool args)" "proves jid (write_file path c)"
  "proves jid (read_json path)" "proves jid (remove_witness tlb tag)"
  by (auto simp: proves_def yield_value_def pure_def run_tool_def write_file_def read_json_def remove_witness_def split: sum.split prod.split)

lemma mark_snd: "snd (mark jid st d s) = s \<lparr> pv_queue := snd (setStatus jid st (Some d) (pv_queue s)) \<rparr>"
  by (auto simp: mark_def split: prod.split sum.split)

lemma proves_mark [prover_rules]: "st \<notin> {''queued'', ''failed_retry''} \<Longrightarrow> proves jid (mark jid st d)"
  by (auto simp: proves_def mark_snd intro: works_on_status)

lemma proves_tail [prover_rules]: "proves jid (prove_files tlb c i w p q)"
  unfolding prove_files_def by (intro prover_rules)

lemma proves_builders [prover_rules]:
  "proves jid (buildTransferProof tlb coin cs scope fee tag a)" "proves jid (buildNoteProof tlb coin cs scope tag assoc b)"
  "proves jid (buildDepositProof tlb coin b tag)" "proves jid (assertVerified jid ok)" "proves jid (coinFromPath path)"
  unfolding buildTransferProof_def buildNoteProof_def buildDepositProof_def assertVerified_def coinFromPath_def
  by (intro prover_rules; simp)+

lemma proves_work: "proves (j_job_id job) (proof_work tlb job)"
  unfolding proof_work_def prove_job_def Let_def
  by (intro prover_rules; (simp add: split_beta)?) (auto intro!: prover_rules split: prod.split)

interpretation prover: worker pv_queue "\<lambda>q s. s \<lparr> pv_queue := q \<rparr>" "proof_work tlb" for tlb
  using proves_work [of _ tlb] by unfold_locales (auto simp: proves_def)

lemma runProverOnce_worker:
  "runProverOnce tlb now s = worker_once pv_queue (\<lambda>q s. s \<lparr> pv_queue := q \<rparr>) QProver PROOF_JOB_TYPES (proof_work tlb) now s"
  by (auto simp: runProverOnce_def processProofJob_def complete_job_def worker_once_def andThen_def split: prod.splits option.splits sum.splits)

text \<open>A proof that snarkjs verified: the verifier accepted the proof file and the public file whose Soroban bytes
  are the result, against the verification key of one of the circuits.\<close>

definition verified_proof :: "tool_lib \<Rightarrow> jsval \<Rightarrow> bool" where
  "verified_proof tlb res \<longleftrightarrow> (\<exists>c\<in>{tl_transferCircuit tlb, tl_depositCircuit tlb, tl_withdrawCircuit tlb}. \<exists>prf pub fs out fs' fsp ph fsp' fsq qh fsq'.
     tl_snarkjs tlb [''groth16'', ''verify'', c @ ''/output/main_verification_key.json'', pub, prf] fs = Ok (out, fs') \<and> says_ok out \<and>
     tl_c2s tlb [''proof'', prf] fsp = Ok (ph, fsp') \<and> tl_c2s tlb [''public'', pub] fsq = Ok (qh, fsq') \<and>
     js_get res ''proofHex'' = VStr (js_trim ph) \<and> js_get res ''publicHex'' = VStr (js_trim qh))"

lemmas prover_steps = andThen_returns yield_value_def pure_def

lemma run_tool_returns: "run_tool tool args s = (Inr out, s') \<longleftrightarrow> (\<exists>fs'. tool args (pv_files s) = Inr (out, fs') \<and> s' = s \<lparr> pv_files := fs' \<rparr>)"
  by (auto simp: run_tool_def split: sum.splits)

lemma assertVerified_returns: "assertVerified jid ok s = (Inr u, s') \<Longrightarrow> ok"
  by (auto simp: assertVerified_def prover_steps split: if_splits)

lemma prove_files_returns:
  assumes "prove_files tlb c i w prf pub s = (Inr pr, s')" "np_locallyVerified pr" "c \<in> {tl_transferCircuit tlb, tl_depositCircuit tlb, tl_withdrawCircuit tlb}"
    "js_get res ''proofHex'' = VStr (np_proofHex pr)" "js_get res ''publicHex'' = VStr (np_publicHex pr)"
  shows "verified_proof tlb res"
proof -
  obtain fs out fs' fsp ph fsp' fsq qh fsq' where
    "tl_snarkjs tlb [''groth16'', ''verify'', c @ ''/output/main_verification_key.json'', pub, prf] fs = Ok (out, fs')"
    "tl_c2s tlb [''proof'', prf] fsp = Ok (ph, fsp')" "tl_c2s tlb [''public'', pub] fsq = Ok (qh, fsq')"
    "pr = \<lparr> np_proofHex = js_trim ph, np_publicHex = js_trim qh, np_locallyVerified = says_ok out \<rparr>"
    using assms(1) unfolding prove_files_def prover_steps run_tool_returns by auto
  with assms(2-) show ?thesis unfolding verified_proof_def by (intro bexI [of _ c] exI conjI) simp_all
qed

lemma prove_job_returns: "prove_job tlb job coin s = (Inr res, s') \<Longrightarrow> verified_proof tlb res"
  unfolding prove_job_def Let_def buildTransferProof_def buildNoteProof_def buildDepositProof_def
  by (auto simp: prover_steps split: if_splits dest!: assertVerified_returns intro: prove_files_returns)


lemma file_steps:
  "read_json path s = (Inr v, s') \<Longrightarrow> s' = s \<and> (\<exists>t. pv_files s path = Some t \<and> json_parse t = Some v)"
  "mark jid st d s = (Inr u, s') \<Longrightarrow> pv_files s' = pv_files s"
  "write_file path c s = (Inr u, s') \<Longrightarrow> pv_files s' = (pv_files s) (path \<mapsto> c)"
  "complete_job jid res s = (Inr r, s') \<Longrightarrow> pv_files s' = pv_files s"
  by (auto simp: read_json_def mark_def write_file_def complete_job_def split: option.splits prod.splits sum.splits)

lemma remove_witness_keeps:
  "remove_witness tlb tag s = (Inr u, s') \<Longrightarrow>
     pv_files s' (in_scratch tlb tag ''_dep_input.json'') = pv_files s (in_scratch tlb tag ''_dep_input.json'')"
  by (auto simp: remove_witness_def in_scratch_def)

lemma coinFromPath_returns:
  "coinFromPath path s = (Inr coin, s') \<Longrightarrow> s' = s \<and> cf_path coin = path"
  by (auto simp: coinFromPath_def prover_steps dest!: file_steps(1))

lemma assertVerified_files: "assertVerified jid ok s = (Inr u, s') \<Longrightarrow> pv_files s' = pv_files s"
  by (auto simp: assertVerified_def prover_steps dest!: file_steps(2))

lemma prove_files_keeps:
  assumes "\<forall>args fs out fs'. tl_snarkjs tlb args fs = Ok (out, fs') \<or> tl_c2s tlb args fs = Ok (out, fs') \<longrightarrow> fs' path = fs path"
    and "prove_files tlb c i w prf pub s = (Inr pr, s')"
  shows "pv_files s' path = pv_files s path"
  using assms(2) unfolding prove_files_def prover_steps run_tool_returns by (auto simp: assms(1) dest!: assms(1) [rule_format, OF disjI1] assms(1) [rule_format, OF disjI2])

lemma deposit_input_opening:
  "deposit_input tlb opening b = Inr input \<Longrightarrow>
     js_get input ''nullifier'' = js_get opening ''nullifier'' \<and> js_get input ''secret'' = js_get opening ''secret''"
  unfolding deposit_input_def res_bind_eq_Inr by auto

lemma buildDepositProof_input:
  assumes "\<forall>args fs out fs'. tl_snarkjs tlb args fs = Ok (out, fs') \<or> tl_c2s tlb args fs = Ok (out, fs') \<longrightarrow>
      fs' (in_scratch tlb tag ''_dep_input.json'') = fs (in_scratch tlb tag ''_dep_input.json'')"
    and "buildDepositProof tlb coin b tag s = (Inr pr, s')"
    and "pv_files s (cf_path coin) = Some content" "json_parse content = Some note"
  shows "\<exists>input. pv_files s' (in_scratch tlb tag ''_dep_input.json'') = Some (stringify input) \<and>
    js_get input ''nullifier'' = js_get (js_get note ''coin'') ''nullifier'' \<and> js_get input ''secret'' = js_get (js_get note ''coin'') ''secret''"
proof -
  obtain opn input s1 where o: "js_member note ''coin'' = Inr opn" "deposit_input tlb opn b = Inr input"
    and w: "pv_files s1 = (pv_files s) (in_scratch tlb tag ''_dep_input.json'' \<mapsto> stringify input)"
    and p: "prove_files tlb (tl_depositCircuit tlb) (in_scratch tlb tag ''_dep_input.json'') (in_scratch tlb tag ''_dep.wtns'')
      (in_scratch tlb tag ''_dep_proof.json'') (in_scratch tlb tag ''_dep_public.json'') s1 = (Inr pr, s')"
    using assms(2-4) unfolding buildDepositProof_def prover_steps by (auto dest!: file_steps)
  have "opn = js_get note ''coin''" using o(1) by (auto simp: js_member_def split: if_splits)
  then show ?thesis using prove_files_keeps [OF assms(1) p] w deposit_input_opening [OF o(2)] by auto
qed


section \<open>Properties\<close>

text \<open>A proof job the prover claims leaves its in-progress states in one run: it is ready with a result
  whose proof and public bytes are the conversion of files that snarkjs verified against a circuit's key, or its
  error is recorded and it is retried while attempts remain; no other job changes and the queue invariant holds.\<close>

theorem prover_job_lifecycle:
  assumes "queue_inv (pv_queue s)" "claimNext now QProver PROOF_JOB_TYPES (pv_queue s) = (Some job, q)"
  shows "queue_inv (pv_queue (snd (runProverOnce tlb now s))) \<and>
    (\<exists>outcome j. getJob (j_job_id job) (pv_queue (snd (runProverOnce tlb now s))) = Some j \<and>
      settled_job now job outcome j \<and> (\<forall>res. outcome = Inr res \<longrightarrow> verified_proof tlb res)) \<and>
    (\<forall>i. i \<noteq> j_job_id job \<longrightarrow> getJob i (pv_queue (snd (runProverOnce tlb now s))) = getJob i (pv_queue s))"
proof -
  have "verified_proof tlb res" if done_ok: "fst (proof_work tlb job (s \<lparr> pv_queue := q \<rparr>)) = Inr res" for res
  proof -
    obtain s' where "proof_work tlb job (s \<lparr> pv_queue := q \<rparr>) = (Inr res, s')" using done_ok by (metis prod.collapse)
    then show ?thesis unfolding proof_work_def prover_steps using prove_job_returns by blast
  qed
  then show ?thesis
    using prover.claimed_job_settles [OF assms, of tlb] unfolding runProverOnce_worker by blast
qed

text \<open>Tools that accept, and a deposit job with its coin file.\<close>

definition demo_tools :: tool_lib where
  "demo_tools = \<lparr> tl_coinutils = (\<lambda>args fs. Throw ''not built''), tl_snarkjs = (\<lambda>args fs. Ok (''snarkJS: OK!'', fs)),
     tl_c2s = (\<lambda>args fs. Ok (''ab'', fs)), tl_sha = (\<lambda>b. [1]), tl_scratch = ''tmp'', tl_withdrawCircuit = ''w'',
     tl_transferCircuit = ''t'', tl_depositCircuit = ''d'' \<rparr>"

definition demo_proof_job :: "nat \<Rightarrow> service_job" where
  "demo_proof_job n = (new_job 0 0 QProver ''deposit_note_mint'' (VObj [(''coinPath'', VStr ''c''), (''depositBinding'',
     VObj [(''cctpNonceHex'', VStr ''0x1''), (''burnTxHashHex'', VStr ''0x2''), (''assetStrkey'', VStr ''C1''), (''poolStrkey'', VStr ''C2''),
       (''encryptedNotePayloadHashHex'', VStr ''0x3''), (''policyIdHex'', VStr ''0x4'')])]) None) \<lparr> j_attempts := n \<rparr>"

definition demo_note_file :: string where
  "demo_note_file = ''{\"coin\":{\"secret\":\"9\"}}''"

definition demo_prover :: prover_state where
  "demo_prover = \<lparr> pv_queue = \<lparr> q_jobs = [demo_proof_job 0], q_events = [], q_next = 1 \<rparr>, pv_files = [''c'' \<mapsto> demo_note_file] \<rparr>"

lemma demo_note_parse: "json_parse demo_note_file = Some (VObj [(''coin'', VObj [(''secret'', VStr ''9'')])])"
  by code_simp

theorem prover_job_lifecycle_witness:
  "queue_inv (pv_queue (snd (runProverOnce demo_tools 5 demo_prover))) \<and>
   (\<exists>j. getJob 0 (pv_queue (snd (runProverOnce demo_tools 5 demo_prover))) = Some j \<and> j_attempts j = 1)"
proof -
  let ?job = "demo_proof_job 1 \<lparr> j_status := ''claimed'' \<rparr>"
  let ?q = "\<lparr> q_jobs = [?job], q_events = [], q_next = 1 \<rparr>"
  have "queue_inv (pv_queue demo_prover)" "claimNext 5 QProver PROOF_JOB_TYPES (pv_queue demo_prover) = (Some ?job, ?q)"
    by (simp_all add: demo_prover_def demo_proof_job_def new_job_def queue_inv_def job_ok_def claimNext_def claimable_def update_job_def PROOF_JOB_TYPES_def)
  from prover_job_lifecycle [OF this, of demo_tools] show ?thesis
    by (auto simp: settled_job_def demo_proof_job_def new_job_def)
qed

text \<open>The worker removes the witness files but not the circuit input it wrote for them: after a deposit job
  has succeeded, the note's nullifier and secret are still in the scratch directory (for snarkjs and circom2soroban
  leaving that input file alone, which they only read).\<close>

theorem deposit_secret_stays_on_disk:
  assumes "j_job_type job = ''deposit_note_mint''"
    and "processProofJob tlb job s = (Ok res, s')"
    and "pv_files s (to_String (js_get (j_payload job) ''coinPath'')) = Some content" "json_parse content = Some note"
    and "\<forall>args fs out fs'. tl_snarkjs tlb args fs = Ok (out, fs') \<or> tl_c2s tlb args fs = Ok (out, fs') \<longrightarrow>
      fs' (in_scratch tlb (job_tag job) ''_dep_input.json'') = fs (in_scratch tlb (job_tag job) ''_dep_input.json'')"
  shows "\<exists>input. pv_files s' (in_scratch tlb (job_tag job) ''_dep_input.json'') = Some (stringify input) \<and>
    js_get input ''nullifier'' = js_get (js_get note ''coin'') ''nullifier'' \<and> js_get input ''secret'' = js_get (js_get note ''coin'') ''secret''"
proof -
  let ?path = "in_scratch tlb (job_tag job) ''_dep_input.json''"
  obtain coin s1 pr s2 where
    s1: "cf_path coin = to_String (js_get (j_payload job) ''coinPath'')" "pv_files s1 = pv_files s"
    and p: "buildDepositProof tlb coin (js_get (j_payload job) ''depositBinding'') (job_tag job) s1 = (Inr pr, s2)"
    and s': "pv_files s' ?path = pv_files s2 ?path"
    using assms(1,2) unfolding processProofJob_def proof_work_def prove_job_def Let_def
    by (auto simp: prover_steps split: if_splits
        dest!: coinFromPath_returns file_steps(2,4) assertVerified_files remove_witness_keeps)
  show ?thesis using buildDepositProof_input [OF assms(5) p] assms(3,4) s1 s' by simp
qed

lemma demo_deposit_input:
  "\<exists>input. deposit_input demo_tools (VObj [(''secret'', VStr ''9'')]) (js_get (j_payload (demo_proof_job 2)) ''depositBinding'') = Ok input"
proof -
  have "list_all (\<lambda>h. \<not> isl (hashToField h)) [''0x1'', ''0x3'', ''0x4'', to_hex [1]]" by code_simp
  moreover have "\<not> isl (hex_decimal (to_hex (take 31 [1])))" by code_simp
  ultimately show ?thesis
    by (auto simp: deposit_input_def hash_member_def strkey_member_def str_arg_def recipientHashField_def demo_proof_job_def new_job_def
        demo_tools_def js_member_def isl_def res_bind_def split: sum.split)
qed

lemma mark_ok:
  "getJob jid (pv_queue s) \<noteq> None \<Longrightarrow> mark jid st d s = (Ok (), s \<lparr> pv_queue := snd (setStatus jid st (Some d) (pv_queue s)) \<rparr>)"
  by (auto simp: mark_def setStatus_def event_def getJob_update)

lemma demo_proof_runs: "\<exists>res s'. processProofJob demo_tools (demo_proof_job 2) demo_prover = (Ok res, s')"
proof -
  obtain input where i: "deposit_input demo_tools (VObj [(''secret'', VStr ''9'')]) (js_get (j_payload (demo_proof_job 2)) ''depositBinding'') = Ok input"
    using demo_deposit_input by blast
  have ok: "says_ok ''snarkJS: OK!''" by code_simp
  have payload: "js_get (j_payload (demo_proof_job 2)) ''coinPath'' = VStr ''c''" "truthy (js_get (j_payload (demo_proof_job 2)) ''depositBinding'')"
    "j_job_type (demo_proof_job 2) = ''deposit_note_mint''" "j_job_id (demo_proof_job 2) = 0"
    by (simp_all add: demo_proof_job_def new_job_def)
  have read: "read_json ''c'' s = (Ok (VObj [(''coin'', VObj [(''secret'', VStr ''9'')])]), s)" if "pv_files s ''c'' = Some demo_note_file" for s
    using that by (simp add: read_json_def demo_note_parse)
  have start: "pv_files demo_prover ''c'' = Some demo_note_file" "getJob 0 (pv_queue demo_prover) \<noteq> None"
    by (simp_all add: demo_prover_def getJob_def demo_proof_job_def new_job_def)
  have tools: "tl_snarkjs demo_tools = (\<lambda>args fs. Ok (''snarkJS: OK!'', fs))" "tl_c2s demo_tools = (\<lambda>args fs. Ok (''ab'', fs))"
    by (simp_all add: demo_tools_def)
  show ?thesis
    using start i ok payload
    by (auto simp: processProofJob_def proof_work_def prove_job_def coinFromPath_def buildDepositProof_def assertVerified_def prove_files_def
        andThen_def read mark_ok getJob_setStatus pure_def yield_value_def js_member_def write_file_def run_tool_def tools remove_witness_def
        complete_job_def complete_def event_def getJob_update)
qed

theorem deposit_secret_stays_on_disk_witness:
  "\<exists>input. pv_files (snd (processProofJob demo_tools (demo_proof_job 2) demo_prover)) ''tmp/job_0_dep_input.json'' = Some (stringify input) \<and>
    js_get input ''secret'' = VStr ''9''"
proof -
  obtain res s' where r: "processProofJob demo_tools (demo_proof_job 2) demo_prover = (Ok res, s')" using demo_proof_runs by blast
  have tag: "in_scratch demo_tools (job_tag (demo_proof_job 2)) ''_dep_input.json'' = ''tmp/job_0_dep_input.json''" by code_simp
  have src: "pv_files demo_prover (to_String (js_get (j_payload (demo_proof_job 2)) ''coinPath'')) = Some demo_note_file"
    by (simp add: demo_prover_def demo_proof_job_def new_job_def)
  have tools: "tl_snarkjs demo_tools args fs = Ok (''snarkJS: OK!'', fs)" "tl_c2s demo_tools args fs = Ok (''ab'', fs)" for args fs
    by (simp_all add: demo_tools_def)
  have kind: "j_job_type (demo_proof_job 2) = ''deposit_note_mint''" by (simp add: demo_proof_job_def new_job_def)
  show ?thesis
    using deposit_secret_stays_on_disk [OF kind r src demo_note_parse] tools by (auto simp: r tag)
qed

end
