(* ===== verification/Quotes.thy ===== *)
theory Quotes
  imports Api
begin

text \<open>
  Quotes, prices and asset ids: \<open>packages/rfq/src/rfq.ts\<close>, the simulated remittance \<open>packages/rfq/src/remit.ts\<close> and
  the asset registry \<open>packages/assets/src/index.ts\<close>. SHA-256, the collation of \<open>localeCompare\<close>, AES-GCM and
  the Ed25519 keys of Stellar are parameters.
\<close>

unbundle bit_operations_syntax


section \<open>Intents and quotes\<close>

definition RFQ_STATES :: "string list" where
  "RFQ_STATES = [''INTENT_CREATED'', ''INTENT_ENCRYPTED'', ''INTENT_PUBLISHED_TO_ALLOWED_SOLVERS'', ''QUOTE_RECEIVED'',
     ''QUOTE_VALIDATED'', ''QUOTE_ACCEPTED'', ''SOLVER_INVENTORY_LOCKED'', ''FILL_CREATED'', ''FILL_EXECUTED_IF_REQUIRED'',
     ''PROOF_REQUESTED'', ''PROOF_GENERATED'', ''PROOF_VERIFIED_LOCALLY'', ''SETTLEMENT_SUBMITTED'', ''SETTLED'',
     ''FAILED_RECOVERABLE'', ''EXPIRED'', ''CANCELLED'']"

record rfq_intent =
  ri_user_pubkey_commitment :: string
  ri_input_asset :: string
  ri_output_asset :: string
  ri_amount_mode :: string
  ri_amount :: string
  ri_min_output :: string
  ri_expiry_ledger :: int
  ri_allowed_solvers_root :: string
  ri_compliance_policy_id :: string
  ri_destination :: string

definition intent_value :: "rfq_intent \<Rightarrow> jsval" where
  "intent_value i = VObj [(''intent_type'', VStr ''PRIVATE_RFQ''), (''version'', VStr ''1.0''),
     (''user_pubkey_commitment'', VStr (ri_user_pubkey_commitment i)), (''input_asset'', VStr (ri_input_asset i)),
     (''output_asset'', VStr (ri_output_asset i)), (''amount_mode'', VStr (ri_amount_mode i)), (''amount'', VStr (ri_amount i)),
     (''min_output'', VStr (ri_min_output i)), (''expiry_ledger'', VNum (NInt (ri_expiry_ledger i))),
     (''allowed_solvers_root'', VStr (ri_allowed_solvers_root i)), (''compliance_policy_id'', VStr (ri_compliance_policy_id i)),
     (''destination'', VStr (ri_destination i)), (''replay_domain'', VStr ''shade:stellar:testnet:rfq:v1'')]"

record rfq_quote =
  rq_quote_id :: string
  rq_intent_hash :: string
  rq_solver_id :: string
  rq_input_asset :: string
  rq_output_asset :: string
  rq_gross_input :: string
  rq_net_output :: string
  rq_fee :: string
  rq_valid_until_ledger :: jsnum
  rq_solver_inventory_commitment :: string

definition quote_value :: "rfq_quote \<Rightarrow> jsval" where
  "quote_value q = VObj [(''quote_id'', VStr (rq_quote_id q)), (''intent_hash'', VStr (rq_intent_hash q)),
     (''solver_id'', VStr (rq_solver_id q)), (''input_asset'', VStr (rq_input_asset q)), (''output_asset'', VStr (rq_output_asset q)),
     (''gross_input'', VStr (rq_gross_input q)), (''net_output'', VStr (rq_net_output q)), (''fee'', VStr (rq_fee q)),
     (''valid_until_ledger'', VNum (rq_valid_until_ledger q)),
     (''solver_inventory_commitment'', VStr (rq_solver_inventory_commitment q)), (''settlement_method'', VStr ''proof_of_fill'')]"

type_synonym sha_fun = "bytes \<Rightarrow> bytes"
type_synonym collation = "string \<Rightarrow> nat list"

text \<open>\<open>sha256(s)\<close> of a text, in hexadecimal.\<close>

definition sha256_hex :: "sha_fun \<Rightarrow> string \<Rightarrow> string" where
  "sha256_hex sha s = to_hex (sha (utf8 s))"

definition strip0x :: "string \<Rightarrow> string" where
  "strip0x s = (if take 2 s = ''0x'' then drop 2 s else s)"

text \<open>\<open>stable\<close> is the same text as \<open>stableStringify\<close> of the identifiers package.\<close>

definition intentHash :: "sha_fun \<Rightarrow> collation \<Rightarrow> rfq_intent \<Rightarrow> string" where
  "intentHash sha coll i = ''0x'' @ sha256_hex sha (stableStringify coll (intent_value i))"

definition quoteHash :: "sha_fun \<Rightarrow> collation \<Rightarrow> rfq_quote \<Rightarrow> string" where
  "quoteHash sha coll q = ''0x'' @ sha256_hex sha (stableStringify coll (quote_value q))"

text \<open>\<open>Keypair.fromSecret\<close> throws on a malformed secret; the public key is its 32 raw bytes.\<close>

record stellar_keys =
  ky_public :: "string \<Rightarrow> bytes option"
  ky_sign :: "string \<Rightarrow> bytes \<Rightarrow> bytes"

definition signQuoteStellar :: "stellar_keys \<Rightarrow> string \<Rightarrow> string \<Rightarrow> (string, string \<times> string) result" where
  "signQuoteStellar ky quoteHashHex secret =
    (case ky_public ky secret of
       None \<Rightarrow> Throw ''invalid secret key''
     | Some pk \<Rightarrow> Ok (to_hex (ky_sign ky secret (from_hex (strip0x quoteHashHex))), to_hex pk))"


section \<open>Atomic swaps\<close>

definition PRICE_SCALE :: int where
  "PRICE_SCALE = 1000000000"

text \<open>The loop of \<open>i128beBytes\<close>, which fills the buffer from its end.\<close>

fun be_bytes :: "nat \<Rightarrow> int \<Rightarrow> bytes" where
  "be_bytes 0 x = []"
| "be_bytes (Suc n) x = be_bytes n (drop_bit 8 x) @ [word_of_int (x AND 255)]"

definition i128beBytes :: "int \<Rightarrow> bytes" where
  "i128beBytes v = be_bytes 16 v"

definition recipientHashBytes :: "sha_fun \<Rightarrow> string \<Rightarrow> bytes" where
  "recipientHashBytes sha strkey = 0 # take 31 (sha (utf8 strkey))"

record atomic_swap_terms =
  sw_quoteHashHex :: string
  sw_outputAssetIdHex :: string
  sw_quotedOutput :: int
  sw_minOutput :: int
  sw_priceScaled :: int
  sw_recipientStrkey :: string

definition swap_bytes :: "sha_fun \<Rightarrow> atomic_swap_terms \<Rightarrow> bytes" where
  "swap_bytes sha t = from_hex (strip0x (sw_quoteHashHex t)) @ from_hex (strip0x (sw_outputAssetIdHex t)) @
     i128beBytes (sw_quotedOutput t) @ i128beBytes (sw_minOutput t) @ i128beBytes (sw_priceScaled t) @
     recipientHashBytes sha (sw_recipientStrkey t)"

definition atomicSwapHash :: "sha_fun \<Rightarrow> atomic_swap_terms \<Rightarrow> string" where
  "atomicSwapHash sha t = ''0x'' @ to_hex (sha (swap_bytes sha t))"

definition signAtomicSwap :: "stellar_keys \<Rightarrow> sha_fun \<Rightarrow> atomic_swap_terms \<Rightarrow> string \<Rightarrow> (string, string \<times> string \<times> string) result" where
  "signAtomicSwap ky sha terms secret =
    (let swapHash = atomicSwapHash sha terms in
     res_bind (signQuoteStellar ky swapHash secret) (\<lambda>(sig, pk). Ok (swapHash, sig, pk)))"

definition quotedFromPrice :: "int \<Rightarrow> int \<Rightarrow> int" where
  "quotedFromPrice inputAmount7dp priceScaled = js_div (inputAmount7dp * priceScaled) PRICE_SCALE"


section \<open>Encryption, prices and amounts\<close>

text \<open>\<open>strip0x(masterKeyHex).padEnd(64, "0").slice(0, 64)\<close>; \<open>createCipheriv\<close> throws unless the key has 32 bytes.\<close>

definition intent_key :: "string \<Rightarrow> bytes" where
  "intent_key masterKeyHex = (let k = strip0x masterKeyHex in from_hex (take 64 (k @ replicate (64 - length k) (CHR ''0''))))"

definition encryptIntent ::
  "(bytes \<Rightarrow> bytes \<Rightarrow> bytes \<Rightarrow> bytes \<times> bytes) \<Rightarrow> bytes \<Rightarrow> collation \<Rightarrow> rfq_intent \<Rightarrow> string \<Rightarrow> (string, string \<times> string \<times> string) result" where
  "encryptIntent gcm iv coll intent masterKeyHex =
    (let key = intent_key masterKeyHex in
     if length key \<noteq> 32 then Throw ''Invalid key length''
     else let (ct, tag) = gcm key iv (utf8 (stableStringify coll (intent_value intent))) in
       Ok (to_hex ct, to_hex iv, to_hex tag))"

definition priceQuote :: "int \<Rightarrow> jsnum \<Rightarrow> (string, int \<times> int) result" where
  "priceQuote grossInput7dp feeBps =
    (case num_BigInt feeBps of
       None \<Rightarrow> Throw ''cannot be converted to a BigInt''
     | Some bps \<Rightarrow> let fee = js_div (grossInput7dp * bps) 10000 in Ok (grossInput7dp - fee, fee))"

text \<open>\<open>s.replace(/^0+(\d)/, "$1")\<close>: the zeros at the front go, but a digit stays.\<close>

fun drop_zeros :: "string \<Rightarrow> string" where
  "drop_zeros (c # d # cs) = (if c = CHR ''0'' \<and> is_digit d then drop_zeros (d # cs) else c # d # cs)"
| "drop_zeros s = s"

definition usdc7ToDecimal :: "int \<Rightarrow> string" where
  "usdc7ToDecimal v =
    (let s = pad_start 8 (CHR ''0'') (int_to_string v); n = length s - 7 in
     drop_zeros (take n s @ CHR ''.'' # drop n s))"


section \<open>Assets\<close>

record asset_config =
  as_symbol :: string
  as_assetIdHex :: string
  as_assetIdField :: string
  as_tokenContract :: string
  as_decimals :: int

text \<open>The number of the first 31 bytes, \<open>BigInt("0x" + sha.subarray(0, 31).toString("hex"))\<close>.\<close>

fun bytes_int :: "bytes \<Rightarrow> int" where
  "bytes_int bs = foldl (\<lambda>a b. a * 256 + uint b) 0 bs"

declare bytes_int.simps [simp del]

definition asset_number :: "sha_fun \<Rightarrow> string \<Rightarrow> int" where
  "asset_number sha tokenContract = bytes_int (take 31 (sha (utf8 tokenContract)))"

definition assetIdField :: "sha_fun \<Rightarrow> string \<Rightarrow> string" where
  "assetIdField sha tokenContract = int_to_string (asset_number sha tokenContract)"

text \<open>\<open>n.toString(16)\<close>\<close>

fun hex_text :: "nat \<Rightarrow> string" where
  "hex_text n = (if n < 16 then [hex_digit n] else hex_text (n div 16) @ [hex_digit (n mod 16)])"

declare hex_text.simps [simp del]

definition assetIdHex :: "sha_fun \<Rightarrow> string \<Rightarrow> string" where
  "assetIdHex sha tokenContract = ''0x'' @ pad_start 64 (CHR ''0'') (hex_text (nat (asset_number sha tokenContract)))"

definition makeAssetConfig :: "sha_fun \<Rightarrow> string \<Rightarrow> string \<Rightarrow> int \<Rightarrow> asset_config" where
  "makeAssetConfig sha symbol tokenContract decimals = \<lparr> as_symbol = symbol, as_assetIdHex = assetIdHex sha tokenContract,
     as_assetIdField = assetIdField sha tokenContract, as_tokenContract = tokenContract, as_decimals = decimals \<rparr>"

definition USDC_TOKEN :: "string option \<Rightarrow> string" where
  "USDC_TOKEN env = (case env of None \<Rightarrow> ''CBIELTK6YBZJU5UP2WWQEUCYKLPU6AUNZ2BQ4WWFEIE3USCIHMXQDAMA'' | Some t \<Rightarrow> t)"

definition XLM_TOKEN :: "string option \<Rightarrow> string" where
  "XLM_TOKEN env = (case env of None \<Rightarrow> ''CDLZFC3SYJYDZT7K67VZ75HPJVIEUVNIXF47ZG2FB2RMQQVU2HHGCYSC'' | Some t \<Rightarrow> t)"

definition ASSETS :: "sha_fun \<Rightarrow> string option \<Rightarrow> string option \<Rightarrow> (string \<times> asset_config) list" where
  "ASSETS sha usdc xlm = [(''USDC'', makeAssetConfig sha ''USDC'' (USDC_TOKEN usdc) 7), (''XLM'', makeAssetConfig sha ''XLM'' (XLM_TOKEN xlm) 7)]"

text \<open>
  Indexing an object literal by a string also finds the members of \<open>Object.prototype\<close>, which are truthy: such a
  lookup returns one of them instead of a configuration.
\<close>

datatype asset_lookup = Config asset_config | Inherited string

definition OBJECT_PROTOTYPE :: "string list" where
  "OBJECT_PROTOTYPE = [''constructor'', ''__proto__'', ''__defineGetter__'', ''__defineSetter__'', ''__lookupGetter__'', ''__lookupSetter__'',
     ''hasOwnProperty'', ''isPrototypeOf'', ''propertyIsEnumerable'', ''toLocaleString'', ''toString'', ''valueOf'']"

definition assetBySymbol :: "(string \<times> asset_config) list \<Rightarrow> string \<Rightarrow> (string, asset_lookup) result" where
  "assetBySymbol assets symbol =
    (case map_of assets symbol of
       Some cfg \<Rightarrow> Ok (Config cfg)
     | None \<Rightarrow> if symbol \<in> set OBJECT_PROTOTYPE then Ok (Inherited symbol) else Throw (''unknown asset symbol: '' @ symbol))"

definition assetByIdHex :: "(string \<times> asset_config) list \<Rightarrow> string \<Rightarrow> (string, asset_config) result" where
  "assetByIdHex assets idHex =
    (let norm = (if take 2 idHex = ''0x'' then lower idHex else ''0x'' @ lower idHex) in
     case find_first (\<lambda>a. lower (as_assetIdHex a) = norm) (map snd assets) of
       None \<Rightarrow> Throw (''unknown assetId: '' @ idHex)
     | Some a \<Rightarrow> Ok a)"


section \<open>Simulated remittances\<close>

record remit_quote =
  rm_quoteId :: string
  rm_amount7dp :: string
  rm_payoutAmountMinor :: string
  rm_currency :: string
  rm_recipientMetadata :: string
  rm_anchorId :: string
  rm_policyId :: string
  rm_expiryLedger :: int

definition recipientMetadataCommitment :: "sha_fun \<Rightarrow> string \<Rightarrow> string \<Rightarrow> string" where
  "recipientMetadataCommitment sha metadata blindingHex = ''0x'' @ sha256_hex sha (metadata @ CHR ''|'' # blindingHex)"

definition remit_value :: "remit_quote \<Rightarrow> string \<Rightarrow> jsval" where
  "remit_value q mc = VObj [(''quoteId'', VStr (rm_quoteId q)), (''amount7dp'', VStr (rm_amount7dp q)),
     (''payoutAmountMinor'', VStr (rm_payoutAmountMinor q)), (''currency'', VStr (rm_currency q)),
     (''recipientMetadataCommitment'', VStr mc), (''anchorId'', VStr (rm_anchorId q)), (''policyId'', VStr (rm_policyId q)),
     (''expiryLedger'', VNum (NInt (rm_expiryLedger q))), (''simulated'', VBool True)]"

definition remitSettlementHash :: "sha_fun \<Rightarrow> remit_quote \<Rightarrow> string \<Rightarrow> string" where
  "remitSettlementHash sha q mc = ''0x'' @ sha256_hex sha (stringify (remit_value q mc))"

record remit_receipt =
  rr_quoteId :: string
  rr_settlementHash :: string
  rr_payoutAmountMinor :: string
  rr_currency :: string
  rr_anchorId :: string

definition simulateRemitReceipt :: "sha_fun \<Rightarrow> remit_quote \<Rightarrow> string \<Rightarrow> int \<Rightarrow> (string, string \<times> remit_receipt) result" where
  "simulateRemitReceipt sha q metadataBlindingHex currentLedger =
    (if currentLedger > rm_expiryLedger q then Throw ''remit quote expired''
     else let mc = recipientMetadataCommitment sha (rm_recipientMetadata q) metadataBlindingHex;
              settlementHash = remitSettlementHash sha q mc in
       Ok (settlementHash, \<lparr> rr_quoteId = rm_quoteId q, rr_settlementHash = settlementHash,
         rr_payoutAmountMinor = rm_payoutAmountMinor q, rr_currency = rm_currency q, rr_anchorId = rm_anchorId q \<rparr>))"

definition receiptMatchesSettlement :: "sha_fun \<Rightarrow> remit_receipt \<Rightarrow> remit_quote \<Rightarrow> string \<Rightarrow> bool" where
  "receiptMatchesSettlement sha receipt q metadataBlindingHex =
    (let mc = recipientMetadataCommitment sha (rm_recipientMetadata q) metadataBlindingHex in
     rr_settlementHash receipt = remitSettlementHash sha q mc)"


section \<open>Fixed-width encodings\<close>

lemma bytes_int_Nil [simp]: "bytes_int [] = 0"
  by (simp add: bytes_int.simps)

lemma bytes_int_snoc [simp]: "bytes_int (bs @ [b]) = bytes_int bs * 256 + uint b"
  by (simp add: bytes_int.simps)

lemma byte_of_int: "uint (word_of_int (x AND 255) :: 8 word) = x mod 256"
proof -
  have "x AND 255 = take_bit 8 x" by (simp add: take_bit_eq_mask mask_eq_exp_minus_1)
  then show ?thesis by (simp add: take_bit_eq_mod uint_word_of_int)
qed

lemma be_bytes_length [simp]: "length (be_bytes n x) = n"
  by (induction n arbitrary: x) simp_all

lemma bytes_int_be_bytes: "bytes_int (be_bytes n x) = x mod 256 ^ n"
proof (induction n arbitrary: x)
  case (Suc n)
  have "x mod 256 ^ Suc n = 256 * (x div 256 mod 256 ^ n) + x mod 256"
    by (simp add: zmod_zmult2_eq)
  then show ?case using Suc by (simp add: byte_of_int drop_bit_eq_div)
qed simp

lemma i128beBytes_length [simp]: "length (i128beBytes v) = 16"
  by (simp add: i128beBytes_def)

lemma i128beBytes_inject:
  assumes "- (2 ^ 127) \<le> v" "v < 2 ^ 127" "- (2 ^ 127) \<le> w" "w < 2 ^ 127"
  shows "i128beBytes v = i128beBytes w \<longleftrightarrow> v = w"
proof
  assume "i128beBytes v = i128beBytes w"
  then have "bytes_int (be_bytes 16 v) = bytes_int (be_bytes 16 w)" by (simp add: i128beBytes_def)
  then have m: "v mod 2 ^ 128 = w mod 2 ^ 128" unfolding bytes_int_be_bytes by simp
  have "(2 :: int) ^ 128 dvd v - w" using m by (simp add: mod_eq_dvd_iff)
  then obtain k where k: "v - w = 2 ^ 128 * k" by (elim dvdE)
  have "\<bar>v - w\<bar> < 2 ^ 128" using assms by (simp add: abs_less_iff)
  then have "k = 0" unfolding k by (cases "k = 0") (simp_all add: abs_mult)
  then show "v = w" using k by simp
qed simp


lemma from_hex_length: "list_all (\<lambda>c. hex_val c \<noteq> None) s \<Longrightarrow> length (from_hex s) = length s div 2"
  by (induction s rule: from_hex.induct) (auto split: option.splits)

lemma prefix_equal: "length a = length b \<Longrightarrow> a @ xs = b @ ys \<longleftrightarrow> a = b \<and> xs = ys"
  by simp

text \<open>A 32-byte hexadecimal text, with or without prefix.\<close>

definition hex32 :: "string \<Rightarrow> bool" where
  "hex32 h \<longleftrightarrow> length (strip0x h) = 64 \<and> list_all (\<lambda>c. hex_val c \<noteq> None) (strip0x h)"

definition i128 :: "int \<Rightarrow> bool" where
  "i128 v \<longleftrightarrow> - (2 ^ 127) \<le> v \<and> v < 2 ^ 127"

definition swap_terms_ok :: "atomic_swap_terms \<Rightarrow> bool" where
  "swap_terms_ok t \<longleftrightarrow> hex32 (sw_quoteHashHex t) \<and> hex32 (sw_outputAssetIdHex t) \<and>
     i128 (sw_quotedOutput t) \<and> i128 (sw_minOutput t) \<and> i128 (sw_priceScaled t)"

lemma hex32_length: "hex32 h \<Longrightarrow> length (from_hex (strip0x h)) = 32"
  by (simp add: hex32_def from_hex_length)

lemma swap_bytes_inject:
  assumes "swap_terms_ok t" "swap_terms_ok u" "swap_bytes sha t = swap_bytes sha u"
  shows "from_hex (strip0x (sw_quoteHashHex t)) = from_hex (strip0x (sw_quoteHashHex u))"
    "from_hex (strip0x (sw_outputAssetIdHex t)) = from_hex (strip0x (sw_outputAssetIdHex u))"
    "sw_quotedOutput t = sw_quotedOutput u" "sw_minOutput t = sw_minOutput u" "sw_priceScaled t = sw_priceScaled u"
    "take 31 (sha (utf8 (sw_recipientStrkey t))) = take 31 (sha (utf8 (sw_recipientStrkey u)))"
  using assms hex32_length [of "sw_quoteHashHex t"] hex32_length [of "sw_quoteHashHex u"]
    hex32_length [of "sw_outputAssetIdHex t"] hex32_length [of "sw_outputAssetIdHex u"]
  unfolding swap_bytes_def swap_terms_ok_def i128_def
  by (simp_all add: prefix_equal i128beBytes_inject recipientHashBytes_def)


section \<open>Canonical texts\<close>

text \<open>An object whose members are texts or numbers is written as its members in the order of the collation.\<close>

definition flat :: "jsval \<Rightarrow> bool" where
  "flat v \<longleftrightarrow> (case v of VStr _ \<Rightarrow> True | VNum _ \<Rightarrow> True | VBool _ \<Rightarrow> True | _ \<Rightarrow> False)"

lemma stable_flat: "flat v \<Longrightarrow> stableStringify coll v = stringify v \<and> v \<noteq> VUndef"
  by (cases v) (simp_all add: flat_def json_text_def)

lemma sort_key_map_snd: "sort_key (\<lambda>m. f (fst m)) (map (\<lambda>m. (fst m, g (snd m))) ms) = map (\<lambda>m. (fst m, g (snd m))) (sort_key (\<lambda>m. f (fst m)) ms)"
proof -
  have "insort_key (\<lambda>m. f (fst m)) (fst x, g (snd x)) (map (\<lambda>m. (fst m, g (snd m))) xs) = map (\<lambda>m. (fst m, g (snd m))) (insort_key (\<lambda>m. f (fst m)) x xs)" for x xs
    by (induction xs) simp_all
  then show ?thesis by (induction ms) simp_all
qed

lemma stable_object:
  assumes "list_all (\<lambda>m. flat (snd m)) ms"
  shows "stableStringify coll (VObj ms) = stringify (VObj (sort_key (\<lambda>m. coll (fst m)) ms))"
proof -
  have v: "\<forall>m\<in>set ms. stableStringify coll (snd m) = stringify (snd m) \<and> snd m \<noteq> VUndef"
    using assms stable_flat by (auto simp: list_all_iff)
  have e: "map (\<lambda>m. (fst m, stableStringify coll (snd m))) ms = map (\<lambda>m. (fst m, stringify (snd m))) ms"
    using v by (intro map_cong) auto
  have "filter (\<lambda>m. snd m \<noteq> VUndef) (sort_key (\<lambda>m. coll (fst m)) ms) = sort_key (\<lambda>m. coll (fst m)) ms"
    using v by (intro filter_True) auto
  then show ?thesis
    by (simp add: e sort_key_map_snd map_prod_def split_beta comp_def)
qed

lemma sorted_members_eq:
  assumes "distinct (map fst ms)" "distinct (map fst ns)" "sort_key (\<lambda>m. f (fst m)) ms = sort_key (\<lambda>m. f (fst m)) ns"
  shows "map_of ms = map_of ns"
proof -
  have "mset ms = mset ns" using assms(3) by (metis mset_sort)
  then have "set ms = set ns" by (metis mset_eq_setD)
  then have "map_of ms k = Some v \<longleftrightarrow> map_of ns k = Some v" for k v
    using assms(1,2) by (simp add: map_of_eq_Some_iff)
  then show ?thesis by (metis ext option.exhaust)
qed


definition ledger_ok :: "jsnum \<Rightarrow> bool" where
  "ledger_ok n \<longleftrightarrow> (\<exists>i. n = NInt i \<and> \<bar>i\<bar> \<le> max_safe)"

abbreviation quote_members :: "rfq_quote \<Rightarrow> (string \<times> jsval) list" where
  "quote_members q \<equiv> (case quote_value q of VObj ms \<Rightarrow> ms | _ \<Rightarrow> [])"

lemma json_pure_sorted: "json_pure (VObj (sort_key f ms)) \<longleftrightarrow> json_pure (VObj ms)"
proof -
  have "distinct (map fst (sort_key f ms)) \<longleftrightarrow> distinct (map fst ms)" "set (sort_key f ms) = set ms"
    by (metis mset_map mset_sort mset_eq_imp_distinct_iff, simp)
  then show ?thesis by (auto simp: list_all_iff)
qed

lemma stable_inject:
  assumes "list_all (\<lambda>m. flat (snd m)) ms" "list_all (\<lambda>m. flat (snd m)) ns" "json_pure (VObj ms)" "json_pure (VObj ns)"
    "stableStringify coll (VObj ms) = stableStringify coll (VObj ns)"
  shows "map_of ms = map_of ns"
proof -
  have "sort_key (\<lambda>m. coll (fst m)) ms = sort_key (\<lambda>m. coll (fst m)) ns"
    using assms(5) stringify_inject [of "VObj (sort_key (\<lambda>m. coll (fst m)) ms)" "VObj (sort_key (\<lambda>m. coll (fst m)) ns)"]
    unfolding stable_object [OF assms(1)] stable_object [OF assms(2)] json_pure_sorted using assms(3,4) by simp
  then show ?thesis using assms(3,4) by (intro sorted_members_eq) simp_all
qed

lemma stable_quote_inject:
  assumes "ledger_ok (rq_valid_until_ledger q)" "ledger_ok (rq_valid_until_ledger r)"
    "stableStringify coll (quote_value q) = stableStringify coll (quote_value r)"
  shows "q = r"
proof -
  have "map_of (quote_members q) = map_of (quote_members r)"
    using assms by (intro stable_inject [of _ _ coll]) (auto simp: quote_value_def flat_def ledger_ok_def)
  then have m: "map_of (quote_members q) k = map_of (quote_members r) k" for k by simp
  show ?thesis
    using m [of "''quote_id''"] m [of "''intent_hash''"] m [of "''solver_id''"] m [of "''input_asset''"] m [of "''output_asset''"]
      m [of "''gross_input''"] m [of "''net_output''"] m [of "''fee''"] m [of "''valid_until_ledger''"] m [of "''solver_inventory_commitment''"]
    by (simp add: quote_value_def)
qed

lemma utf8_inject: "utf8 s = utf8 t \<longleftrightarrow> s = t"
  by (metis utf8_roundtrip)

text \<open>Two inputs of a hash function that show it is not injective.\<close>

definition collide :: "(bytes \<Rightarrow> bytes) \<Rightarrow> bytes \<Rightarrow> bytes \<Rightarrow> bool" where
  "collide h x y \<longleftrightarrow> x \<noteq> y \<and> h x = h y"


section \<open>Decimal amounts\<close>

text \<open>Exactly \<open>w\<close> digits.\<close>

fun fixed_digits :: "nat \<Rightarrow> nat \<Rightarrow> string" where
  "fixed_digits 0 n = []"
| "fixed_digits (Suc w) n = fixed_digits w (n div 10) @ [digit_char (n mod 10)]"

lemma fixed_digits_length [simp]: "length (fixed_digits w n) = w"
  by (induction w arbitrary: n) simp_all

lemma fixed_digits_split: "fixed_digits (a + b) n = fixed_digits a (n div 10 ^ b) @ fixed_digits b n"
  by (induction b arbitrary: n) (simp_all add: div_mult2_eq)

lemma digit_char_zero: "digit_char 0 = CHR ''0''"
  by code_simp

lemma fixed_digits_zero: "fixed_digits w 0 = replicate w (CHR ''0'')"
  by (induction w) (simp_all add: digit_char_zero replicate_append_same)

lemma fixed_digits_text: "n < 10 ^ Suc w \<Longrightarrow> fixed_digits (Suc w) n = pad_start (Suc w) (CHR ''0'') (nat_to_string n) \<and> length (nat_to_string n) \<le> Suc w"
proof (induction w arbitrary: n)
  case 0
  then show ?case by (subst (1 2) nat_to_string.simps) (simp add: pad_start_def)
next
  case (Suc w)
  show ?case
  proof (cases "n < 10")
    case True
    then show ?thesis using fixed_digits_zero [of "Suc w"] by (subst (1 2) nat_to_string.simps) (simp add: pad_start_def)
  next
    case False
    have IH: "fixed_digits (Suc w) (n div 10) = pad_start (Suc w) (CHR ''0'') (nat_to_string (n div 10))" "length (nat_to_string (n div 10)) \<le> Suc w"
      using Suc.IH [of "n div 10"] Suc.prems by (simp_all add: less_mult_imp_div_less)
    have "nat_to_string n = nat_to_string (n div 10) @ [digit_char (n mod 10)]" using False by (subst nat_to_string.simps) simp
    then show ?thesis using IH by (simp add: pad_start_def)
  qed
qed

lemma nat_to_string_bound: "n < 10 ^ length (nat_to_string n)"
proof (induction n rule: nat_to_string.induct)
  case (1 n)
  then show ?case by (subst nat_to_string.simps) (auto simp: div_less_iff_less_mult)
qed

lemma digits_value_fixed: "digits_value a (fixed_digits w n) = Some (a * 10 ^ w + n mod 10 ^ w)"
proof (induction w arbitrary: a n)
  case (Suc w)
  have "10 * (a * 10 ^ w + n div 10 mod 10 ^ w) + n mod 10 = a * 10 ^ Suc w + n mod 10 ^ Suc w"
    by (simp add: mod_mult2_eq)
  then show ?case using Suc by (simp add: digits_value_append)
qed simp

lemma drop_zeros_text: "drop_zeros (replicate k (CHR ''0'') @ nat_to_string q @ CHR ''.'' # r) = nat_to_string q @ CHR ''.'' # r"
proof (induction k)
  case 0
  obtain c cs where c: "nat_to_string q = c # cs" by (cases "nat_to_string q") simp_all
  have "cs = []" if "c = CHR ''0''" using that c nat_to_string_hd_zero [of q] by (cases cs) simp_all
  then show ?case using c by (cases cs) (auto simp: is_digit_def digit_val_def)
next
  case (Suc k)
  have "is_digit (hd (replicate k (CHR ''0'') @ nat_to_string q @ CHR ''.'' # r))"
    by (cases k; cases "nat_to_string q") (use nat_to_string_digits [of "hd (nat_to_string q)" q] in \<open>auto simp: is_digit_def digit_val_def\<close>)
  then show ?case using Suc by (cases "replicate k (CHR ''0'') @ nat_to_string q @ CHR ''.'' # r") simp_all
qed


lemma usdc7ToDecimal_text:
  assumes "0 \<le> v"
  shows "usdc7ToDecimal v = nat_to_string (nat v div 10 ^ 7) @ CHR ''.'' # fixed_digits 7 (nat v)"
proof -
  define n where "n = nat v"
  define w where "w = max 1 (length (nat_to_string n) - 7)"
  have "n < 10 ^ (w + 7)"
  proof -
    have "(10 :: nat) ^ length (nat_to_string n) \<le> 10 ^ (w + 7)" by (rule power_increasing) (simp_all add: w_def)
    then show ?thesis using nat_to_string_bound [of n] by linarith
  qed
  moreover have "Suc (w + 6) = w + 7" by simp
  ultimately have pad: "pad_start (w + 7) (CHR ''0'') (nat_to_string n) = fixed_digits (w + 7) n" "length (nat_to_string n) \<le> w + 7"
    using fixed_digits_text [of n "w + 6"] by metis+
  have "pad_start 8 (CHR ''0'') (nat_to_string n) = pad_start (w + 7) (CHR ''0'') (nat_to_string n)"
    unfolding pad_start_def w_def by (rule arg_cong [of _ _ "\<lambda>k. replicate k (CHR ''0'') @ nat_to_string n"]) simp
  then have s: "pad_start 8 (CHR ''0'') (int_to_string v) = fixed_digits w (n div 10 ^ 7) @ fixed_digits 7 n"
    using assms pad(1) unfolding fixed_digits_split [of w 7] by (simp add: int_to_string_def n_def)
  obtain u where u: "w = Suc u" by (cases w) (simp_all add: w_def)
  have "n div 10 ^ 7 < 10 ^ Suc u" using \<open>n < 10 ^ (w + 7)\<close> by (simp add: u div_less_iff_less_mult power_add)
  then have "fixed_digits w (n div 10 ^ 7) = replicate (w - length (nat_to_string (n div 10 ^ 7))) (CHR ''0'') @ nat_to_string (n div 10 ^ 7)"
    using fixed_digits_text [of "n div 10 ^ 7" u] by (simp only: u pad_start_def)
  then show ?thesis
    using drop_zeros_text unfolding usdc7ToDecimal_def s Let_def n_def [symmetric] by simp
qed

lemma usdc7ToDecimal_value:
  assumes "0 \<le> v"
  shows "parse_nat (filter (\<lambda>c. c \<noteq> CHR ''.'') (usdc7ToDecimal v)) = Some (nat v)"
proof -
  have digits: "filter (\<lambda>c. c \<noteq> CHR ''.'') s = s" if "\<forall>c\<in>set s. is_digit c" for s
    using that by (intro filter_True) (auto simp: is_digit_def digit_val_def)
  have fx: "\<forall>c\<in>set (fixed_digits w n). is_digit c" for w n by (induction w arbitrary: n) auto
  have "nat v div 10 ^ 7 * 10 ^ 7 + nat v mod 10 ^ 7 = nat v" by (rule div_mult_mod_eq)
  then show ?thesis
    unfolding usdc7ToDecimal_text [OF assms] parse_nat_def
    using digits [of "nat_to_string (nat v div 10 ^ 7)"] digits [OF fx] nat_to_string_digits
    by (simp add: digits_value_append digits_value_fixed)
qed

lemma priceQuote_split:
  assumes "0 \<le> gross" "0 \<le> bps" "bps \<le> 10000"
  shows "\<exists>net fee. priceQuote gross (NInt bps) = Ok (net, fee) \<and> net + fee = gross \<and> 0 \<le> fee \<and> fee \<le> gross \<and>
    fee * 10000 \<le> gross * bps \<and> gross * bps < (fee + 1) * 10000"
proof -
  let ?fee = "gross * bps div 10000"
  have p: "priceQuote gross (NInt bps) = Ok (gross - ?fee, ?fee)"
    using assms by (simp add: priceQuote_def js_div_nonneg Let_def)
  have "gross * bps \<le> gross * 10000" using assms by (intro mult_left_mono) simp_all
  then have "?fee \<le> gross" using zdiv_mono1 [of "gross * bps" "gross * 10000" 10000] by simp
  moreover have "0 \<le> ?fee" using assms by (simp add: pos_imp_zdiv_nonneg_iff)
  moreover have "?fee * 10000 \<le> gross * bps" "gross * bps < (?fee + 1) * 10000" by presburger+
  ultimately show ?thesis unfolding p by auto
qed


section \<open>Asset ids\<close>

lemma bytes_int_bounds: "0 \<le> bytes_int bs \<and> bytes_int bs < 256 ^ length bs"
proof (induction bs rule: rev_induct)
  case (snoc b bs)
  have "uint b < 256" "0 \<le> uint b" using uint_lt2p [of b] by simp_all
  then show ?case using snoc by simp
qed simp

lemma hex_text_value: "base_value 16 a (hex_text n) = Some (a * 16 ^ length (hex_text n) + n)"
proof (induction n arbitrary: a rule: hex_text.induct)
  case (1 n)
  show ?case
  proof (cases "n < 16")
    case True
    then show ?thesis by (subst (1 2) hex_text.simps) simp
  next
    case False
    have e: "hex_text n = hex_text (n div 16) @ [hex_digit (n mod 16)]" using False by (subst hex_text.simps) simp
    have app: "base_value 16 a (s @ [c]) = (case base_value 16 a s of None \<Rightarrow> None | Some x \<Rightarrow> base_value 16 x [c])" for s c a
      by (induction s arbitrary: a) (auto split: option.splits)
    show ?thesis using 1 [OF False, of a] unfolding e app by simp
  qed
qed

lemma hex_text_length: "n < 16 ^ Suc k \<Longrightarrow> length (hex_text n) \<le> Suc k"
proof (induction k arbitrary: n)
  case 0
  then show ?case by (subst hex_text.simps) simp
next
  case (Suc k)
  then have "length (hex_text (n div 16)) \<le> Suc k" by (intro Suc.IH) (simp add: div_less_iff_less_mult)
  then show ?case by (subst hex_text.simps) simp
qed


lemma pad_start_value: "base_value 16 0 (pad_start w (CHR ''0'') s) = base_value 16 0 s"
proof -
  have "base_value 16 0 (replicate k (CHR ''0'') @ s) = base_value 16 0 s" for k
    by (induction k) (simp_all add: hex_val_def)
  then show ?thesis by (simp add: pad_start_def)
qed

lemma asset_number_bounds: "0 \<le> asset_number sha t \<and> asset_number sha t < 2 ^ 248"
proof -
  have "(256 :: int) ^ length (take 31 (sha (utf8 t))) \<le> 256 ^ 31" by (rule power_increasing) simp_all
  then show ?thesis using bytes_int_bounds [of "take 31 (sha (utf8 t))"] by (simp add: asset_number_def)
qed


section \<open>Properties\<close>

text \<open>The hashes a solver signs bind what they stand for. Two quotes with the same hash are the same quote, and two
  atomic swaps with the same hash agree on quote, asset, amounts, price and recipient, unless they exhibit a
  collision of SHA-256 (or, for the recipient, of its first 31 bytes).\<close>

theorem quote_and_swap_hashes_bind:
  assumes "ledger_ok (rq_valid_until_ledger q)" "ledger_ok (rq_valid_until_ledger r)" "swap_terms_ok t" "swap_terms_ok u"
  shows "(quoteHash sha coll q = quoteHash sha coll r \<longrightarrow>
      q = r \<or> collide sha (utf8 (stableStringify coll (quote_value q))) (utf8 (stableStringify coll (quote_value r)))) \<and>
    (atomicSwapHash sha t = atomicSwapHash sha u \<longrightarrow>
      from_hex (strip0x (sw_quoteHashHex t)) = from_hex (strip0x (sw_quoteHashHex u)) \<and>
      from_hex (strip0x (sw_outputAssetIdHex t)) = from_hex (strip0x (sw_outputAssetIdHex u)) \<and>
      sw_quotedOutput t = sw_quotedOutput u \<and> sw_minOutput t = sw_minOutput u \<and> sw_priceScaled t = sw_priceScaled u \<and>
      (sw_recipientStrkey t = sw_recipientStrkey u \<or>
       collide (\<lambda>b. take 31 (sha b)) (utf8 (sw_recipientStrkey t)) (utf8 (sw_recipientStrkey u))) \<or>
      collide sha (swap_bytes sha t) (swap_bytes sha u))"
proof (intro conjI impI)
  assume "quoteHash sha coll q = quoteHash sha coll r"
  then have "sha (utf8 (stableStringify coll (quote_value q))) = sha (utf8 (stableStringify coll (quote_value r)))"
    by (simp add: quoteHash_def sha256_hex_def)
  then show "q = r \<or> collide sha (utf8 (stableStringify coll (quote_value q))) (utf8 (stableStringify coll (quote_value r)))"
    using stable_quote_inject [OF assms(1,2)] by (auto simp: collide_def utf8_inject)
next
  assume "atomicSwapHash sha t = atomicSwapHash sha u"
  then have h: "sha (swap_bytes sha t) = sha (swap_bytes sha u)" by (simp add: atomicSwapHash_def)
  show "from_hex (strip0x (sw_quoteHashHex t)) = from_hex (strip0x (sw_quoteHashHex u)) \<and>
      from_hex (strip0x (sw_outputAssetIdHex t)) = from_hex (strip0x (sw_outputAssetIdHex u)) \<and>
      sw_quotedOutput t = sw_quotedOutput u \<and> sw_minOutput t = sw_minOutput u \<and> sw_priceScaled t = sw_priceScaled u \<and>
      (sw_recipientStrkey t = sw_recipientStrkey u \<or>
       collide (\<lambda>b. take 31 (sha b)) (utf8 (sw_recipientStrkey t)) (utf8 (sw_recipientStrkey u))) \<or>
      collide sha (swap_bytes sha t) (swap_bytes sha u)"
  proof (cases "swap_bytes sha t = swap_bytes sha u")
    case True
    show ?thesis using swap_bytes_inject [OF assms(3,4) True] by (auto simp: collide_def utf8_inject)
  qed (use h in \<open>simp add: collide_def\<close>)
qed

definition demo_quote :: "string \<Rightarrow> rfq_quote" where
  "demo_quote i = \<lparr> rq_quote_id = i, rq_intent_hash = ''0x1'', rq_solver_id = ''stellar:G'', rq_input_asset = ''USDC:Stellar:SAC'',
     rq_output_asset = ''USDC:ArbitrumSepolia'', rq_gross_input = ''1.0000000'', rq_net_output = ''0.9950000'', rq_fee = ''0.0050000'',
     rq_valid_until_ledger = NInt 99, rq_solver_inventory_commitment = ''00'' \<rparr>"

definition demo_swap :: "int \<Rightarrow> atomic_swap_terms" where
  "demo_swap n = \<lparr> sw_quoteHashHex = ''0x'' @ replicate 64 (CHR ''a''), sw_outputAssetIdHex = replicate 64 (CHR ''b''),
     sw_quotedOutput = n, sw_minOutput = -1, sw_priceScaled = 5, sw_recipientStrkey = ''G'' \<rparr>"

lemma demo_swap_ok: "i128 n \<Longrightarrow> swap_terms_ok (demo_swap n)"
  by (simp add: swap_terms_ok_def demo_swap_def hex32_def strip0x_def i128_def list_all_iff hex_val_def numeral_2_eq_2)

theorem quote_and_swap_hashes_bind_witness:
  "quoteHash id (\<lambda>k. map of_char k) (demo_quote ''1'') \<noteq> quoteHash id (\<lambda>k. map of_char k) (demo_quote ''2'') \<and>
   atomicSwapHash id (demo_swap 7) \<noteq> atomicSwapHash id (demo_swap 8)"
  using quote_and_swap_hashes_bind [of "demo_quote ''1''" "demo_quote ''2''" "demo_swap 7" "demo_swap 8" id "\<lambda>k. map of_char k"]
    demo_swap_ok [of 7] demo_swap_ok [of 8]
  by (auto simp: demo_quote_def ledger_ok_def max_safe_def i128_def collide_def) (simp_all add: demo_swap_def)

text \<open>A quote's prices are exact. For a fee of 0 to 10000 basis points net and fee add up to the gross amount, the fee is rounded
  down, and the decimal texts of the three amounts read back as the amounts, at seven decimals.\<close>

theorem quote_amounts_exact:
  assumes "0 \<le> gross" "0 \<le> bps" "bps \<le> 10000"
  shows "\<exists>net fee. priceQuote gross (NInt bps) = Ok (net, fee) \<and> net + fee = gross \<and> 0 \<le> fee \<and> fee \<le> gross \<and>
    fee * 10000 \<le> gross * bps \<and> gross * bps < (fee + 1) * 10000 \<and>
    (\<forall>v \<in> {gross, net, fee}. usdc7ToDecimal v = nat_to_string (nat v div 10 ^ 7) @ CHR ''.'' # fixed_digits 7 (nat v) \<and>
      parse_nat (filter (\<lambda>c. c \<noteq> CHR ''.'') (usdc7ToDecimal v)) = Some (nat v))"
proof -
  obtain net fee where p: "priceQuote gross (NInt bps) = Ok (net, fee)" "net + fee = gross" "0 \<le> fee" "fee \<le> gross"
    "fee * 10000 \<le> gross * bps" "gross * bps < (fee + 1) * 10000" using priceQuote_split [OF assms] by blast
  have "\<forall>v \<in> {gross, net, fee}. usdc7ToDecimal v = nat_to_string (nat v div 10 ^ 7) @ CHR ''.'' # fixed_digits 7 (nat v) \<and>
      parse_nat (filter (\<lambda>c. c \<noteq> CHR ''.'') (usdc7ToDecimal v)) = Some (nat v)"
  proof
    fix v assume "v \<in> {gross, net, fee}"
    then have "0 \<le> v" using p(2-4) assms(1) by auto
    then show "usdc7ToDecimal v = nat_to_string (nat v div 10 ^ 7) @ CHR ''.'' # fixed_digits 7 (nat v) \<and>
      parse_nat (filter (\<lambda>c. c \<noteq> CHR ''.'') (usdc7ToDecimal v)) = Some (nat v)"
      by (intro conjI usdc7ToDecimal_text usdc7ToDecimal_value)
  qed
  with p show ?thesis by (intro exI conjI) assumption+
qed

theorem quote_amounts_exact_witness:
  "\<exists>net fee. priceQuote 10000000 (NInt 50) = Ok (net, fee) \<and> net = 9950000 \<and> parse_nat (filter (\<lambda>c. c \<noteq> CHR ''.'') (usdc7ToDecimal net)) = Some 9950000"
  using quote_amounts_exact [of 10000000 50] by (auto simp: priceQuote_def js_div_nonneg Let_def)

text \<open>An asset id is a field element of 248 bits on either curve, and its decimal and hexadecimal forms denote the same number.\<close>

theorem asset_id_forms_agree:
  "\<exists>n. 0 \<le> n \<and> n < 2 ^ 248 \<and> big_int_of_string (assetIdField sha t) = Some n \<and> length (assetIdHex sha t) = 66 \<and>
    take 2 (assetIdHex sha t) = ''0x'' \<and> parse_base 16 (drop 2 (assetIdHex sha t)) = Some (nat n)"
proof (intro exI [of _ "asset_number sha t"] conjI)
  show b: "0 \<le> asset_number sha t" "asset_number sha t < 2 ^ 248" using asset_number_bounds [of sha t] by simp_all
  show "big_int_of_string (assetIdField sha t) = Some (asset_number sha t)" by (simp add: assetIdField_def)
  have "nat (asset_number sha t) < 16 ^ Suc 61" using b by (simp add: nat_less_iff)
  then have "length (hex_text (nat (asset_number sha t))) \<le> 62" using hex_text_length [of _ 61] by fastforce
  then show "length (assetIdHex sha t) = 66" by (simp add: assetIdHex_def pad_start_def)
  show "take 2 (assetIdHex sha t) = ''0x''" by (simp add: assetIdHex_def)
  have "pad_start 64 (CHR ''0'') (hex_text n) \<noteq> []" for n by (subst hex_text.simps) (simp add: pad_start_def)
  then show "parse_base 16 (drop 2 (assetIdHex sha t)) = Some (nat (asset_number sha t))"
    by (simp add: assetIdHex_def parse_base_def pad_start_value hex_text_value)
qed

text \<open>A simulated receipt is given exactly for an unexpired quote and matches its own settlement; a receipt that matches
  another quote's settlement exhibits a collision or that quote agrees in every field the settlement commits to.
  The metadata commitment is not one of metadata and blinding: moving the separator gives the same commitment.\<close>

theorem remit_receipts:
  assumes "\<bar>rm_expiryLedger q\<bar> \<le> max_safe" "\<bar>rm_expiryLedger p\<bar> \<le> max_safe"
  shows "(\<exists>h r. simulateRemitReceipt sha q b now = Ok (h, r)) = (now \<le> rm_expiryLedger q) \<and>
    (\<forall>h r. simulateRemitReceipt sha q b now = Ok (h, r) \<longrightarrow> receiptMatchesSettlement sha r q b \<and>
      (receiptMatchesSettlement sha r p c \<longrightarrow>
        remit_value q (recipientMetadataCommitment sha (rm_recipientMetadata q) b) = remit_value p (recipientMetadataCommitment sha (rm_recipientMetadata p) c) \<or>
        collide sha (utf8 (stringify (remit_value q (recipientMetadataCommitment sha (rm_recipientMetadata q) b))))
          (utf8 (stringify (remit_value p (recipientMetadataCommitment sha (rm_recipientMetadata p) c)))))) \<and>
    recipientMetadataCommitment sha (x @ CHR ''|'' # y) z = recipientMetadataCommitment sha x (y @ CHR ''|'' # z)"
proof (intro conjI allI impI)
  show "(\<exists>h r. simulateRemitReceipt sha q b now = Ok (h, r)) = (now \<le> rm_expiryLedger q)"
    by (auto simp: simulateRemitReceipt_def Let_def)
next
  fix h r
  assume s: "simulateRemitReceipt sha q b now = Ok (h, r)"
  then show "receiptMatchesSettlement sha r q b"
    by (auto simp: simulateRemitReceipt_def receiptMatchesSettlement_def Let_def split: if_splits)
  have pure: "json_pure (remit_value q mc)" "json_pure (remit_value p mc)" for mc
    using assms by (simp_all add: remit_value_def)
  assume "receiptMatchesSettlement sha r p c"
  with s have "sha (utf8 (stringify (remit_value q (recipientMetadataCommitment sha (rm_recipientMetadata q) b)))) =
      sha (utf8 (stringify (remit_value p (recipientMetadataCommitment sha (rm_recipientMetadata p) c))))"
    by (auto simp: simulateRemitReceipt_def receiptMatchesSettlement_def remitSettlementHash_def sha256_hex_def Let_def split: if_splits)
  then show "remit_value q (recipientMetadataCommitment sha (rm_recipientMetadata q) b) = remit_value p (recipientMetadataCommitment sha (rm_recipientMetadata p) c) \<or>
        collide sha (utf8 (stringify (remit_value q (recipientMetadataCommitment sha (rm_recipientMetadata q) b))))
          (utf8 (stringify (remit_value p (recipientMetadataCommitment sha (rm_recipientMetadata p) c))))"
    using stringify_inject [OF pure] by (auto simp: collide_def utf8_inject)
qed (simp add: recipientMetadataCommitment_def)

definition demo_remit :: remit_quote where
  "demo_remit = \<lparr> rm_quoteId = ''q'', rm_amount7dp = ''10'', rm_payoutAmountMinor = ''800'', rm_currency = ''INR'', rm_recipientMetadata = ''upi'',
     rm_anchorId = ''a'', rm_policyId = ''p'', rm_expiryLedger = 100 \<rparr>"

theorem remit_receipts_witness:
  "\<exists>h r. simulateRemitReceipt id demo_remit ''ff'' 100 = Ok (h, r) \<and> receiptMatchesSettlement id r demo_remit ''ff''"
proof -
  have e: "\<bar>rm_expiryLedger demo_remit\<bar> \<le> max_safe" "100 \<le> rm_expiryLedger demo_remit" by (simp_all add: demo_remit_def max_safe_def)
  show ?thesis using remit_receipts [OF e(1) e(1), of id "''ff''" 100 "''ff''"] e(2) by blast
qed

end
