(* ===== verification/Soroban.thy ===== *)
theory Soroban
  imports Quotes
begin

text \<open>
  \<open>packages/stellar-utils/src/index.ts\<close>: calling a contract through the \<open>stellar\<close> command line program, with
  retries, the search for a transaction hash in its output and the redaction of the signing secret. What the
  program answers to the n-th attempt is a parameter, as are Horizon and the friendbot.
\<close>

section \<open>Command line calls\<close>

record spawn_result =
  sp_status :: "int option"
  sp_stdout :: "string option"
  sp_stderr :: "string option"

record invoke_opts =
  io_contractId :: string
  io_secret :: string
  io_method :: string
  io_args :: "string list option"
  io_rpcUrl :: "string option"
  io_passphrase :: "string option"
  io_retries :: "nat option"
  io_readOnly :: bool

record invoke_result =
  iv_txHash :: string
  iv_returnValue :: string
  iv_raw :: string

definition TESTNET_rpcUrl :: string where "TESTNET_rpcUrl = ''https://soroban-testnet.stellar.org''"
definition TESTNET_friendbotUrl :: string where "TESTNET_friendbotUrl = ''https://friendbot.stellar.org''"
definition TESTNET_passphrase :: string where "TESTNET_passphrase = ''Test SDF Network ; September 2015''"

text \<open>A 64-digit hash at the front of a text, and the three patterns of \<open>parseSorobanTx\<close> at the front.\<close>

definition hex64 :: "string \<Rightarrow> string option" where
  "hex64 s = (if length (take 64 s) = 64 \<and> list_all (\<lambda>c. hex_val c \<noteq> None) (take 64 s) then Some (take 64 s) else None)"

definition after :: "string \<Rightarrow> string \<Rightarrow> string option" where
  "after p s = (if take (length p) s = p then Some (drop (length p) s) else None)"

fun orelse :: "'a option \<Rightarrow> 'a option \<Rightarrow> 'a option" where
  "orelse (Some x) y = Some x"
| "orelse None y = y"

definition colon_hash :: "string \<Rightarrow> string option" where
  "colon_hash s = hex64 (dropWhile is_space (case after '':'' s of Some r \<Rightarrow> r | None \<Rightarrow> s))"

definition is_hash :: "string \<Rightarrow> string option" where
  "is_hash s = orelse
     (if s \<noteq> [] \<and> is_space (hd s) then Option.bind (after ''is'' (dropWhile is_space s)) colon_hash else None)
     (colon_hash s)"

definition hash_pattern :: "string \<Rightarrow> string option" where
  "hash_pattern s = Option.bind (orelse (after ''Transaction hash'' s) (after ''transaction hash'' s)) is_hash"

definition tx_pattern :: "string \<Rightarrow> string option" where
  "tx_pattern s = Option.bind (after ''tx/'' s) hex64"

definition transaction_pattern :: "string \<Rightarrow> string option" where
  "transaction_pattern s = Option.bind (after ''transaction:'' s) (\<lambda>r. hex64 (dropWhile is_space r))"

text \<open>\<open>output.match(p)\<close>: the first position where the pattern matches.\<close>

fun search :: "(string \<Rightarrow> string option) \<Rightarrow> string \<Rightarrow> string option" where
  "search p [] = p []"
| "search p (c # cs) = orelse (p (c # cs)) (search p cs)"

definition parseSorobanTx :: "string \<Rightarrow> string option" where
  "parseSorobanTx out = orelse (search hash_pattern out) (orelse (search tx_pattern out) (search transaction_pattern out))"

text \<open>\<open>text.replaceAll(secret, r)\<close> for a secret that is not empty.\<close>

function replace_all :: "string \<Rightarrow> string \<Rightarrow> string \<Rightarrow> string" where
  "replace_all secret r s =
    (if s = [] \<or> secret = [] then s
     else if take (length secret) s = secret then r @ replace_all secret r (drop (length secret) s)
     else hd s # replace_all secret r (tl s))"
  by pat_completeness auto
termination
  by (relation "measure (\<lambda>(secret, r, s). length s)") (auto intro!: diff_less)

declare replace_all.simps [simp del]

definition REDACTED :: string where
  "REDACTED = ''[REDACTED_STELLAR_SECRET]''"

definition redact :: "string \<Rightarrow> string \<Rightarrow> string" where
  "redact t secret = (if secret = [] then t else replace_all secret REDACTED t)"

definition bytesToCliHex :: "string \<Rightarrow> string" where
  "bytesToCliHex h = (if take 2 h = ''0x'' then drop 2 h else h)"

definition or_else :: "'a option \<Rightarrow> 'a \<Rightarrow> 'a" where
  "or_else x d = (case x of None \<Rightarrow> d | Some y \<Rightarrow> y)"

definition cli_arguments :: "invoke_opts \<Rightarrow> string list" where
  "cli_arguments opts = [''contract'', ''invoke'', ''--id'', io_contractId opts, ''--source-account'', io_secret opts, ''--rpc-url'',
     or_else (io_rpcUrl opts) TESTNET_rpcUrl, ''--network-passphrase'', or_else (io_passphrase opts) TESTNET_passphrase, ''--'', io_method opts] @
     or_else (io_args opts) []"

definition raw_output :: "spawn_result \<Rightarrow> string" where
  "raw_output r = or_else (sp_stderr r) [] @ CHR 0x0A # or_else (sp_stdout r) []"

definition retryable :: "string \<Rightarrow> bool" where
  "retryable t \<longleftrightarrow> sublist ''TxBadSeq'' t \<or> sublist ''timeout'' t \<or> sublist ''429'' t \<or> sublist ''temporarily'' t"

definition fail_text :: "invoke_opts \<Rightarrow> string \<Rightarrow> string" where
  "fail_text opts t = ''stellar contract invoke '' @ io_method opts @ '' failed: '' @ t"

definition no_hash_text :: "invoke_opts \<Rightarrow> string \<Rightarrow> string" where
  "no_hash_text opts t = ''Soroban '' @ io_method opts @ '' succeeded but no tx hash found in output:'' @ CHR 0x0A # t"

text \<open>
  The loop, with the attempts left and the redacted output of the last failure. It returns the outcome and
  the number of the last attempt made.
\<close>

fun invoke_loop :: "(nat \<Rightarrow> spawn_result) \<Rightarrow> invoke_opts \<Rightarrow> nat \<Rightarrow> nat \<Rightarrow> string \<Rightarrow> (string, invoke_result) result \<times> nat" where
  "invoke_loop cli opts 0 attempt lastOut =
    (Throw (fail_text opts lastOut), attempt)"
| "invoke_loop cli opts (Suc n) attempt lastOut =
    (let r = cli (Suc attempt); raw = raw_output r in
     if sp_status r = Some 0 then
       (case parseSorobanTx raw of
          None \<Rightarrow> if io_readOnly opts then (Ok \<lparr> iv_txHash = [], iv_returnValue = js_trim (or_else (sp_stdout r) []), iv_raw = redact raw (io_secret opts) \<rparr>, Suc attempt)
            else (Throw (no_hash_text opts (redact raw (io_secret opts))), Suc attempt)
        | Some h \<Rightarrow> (Ok \<lparr> iv_txHash = h, iv_returnValue = js_trim (or_else (sp_stdout r) []), iv_raw = redact raw (io_secret opts) \<rparr>, Suc attempt))
     else let t = redact raw (io_secret opts) in
       if retryable t then invoke_loop cli opts n (Suc attempt) t
       else (Throw (fail_text opts t), Suc attempt))"

definition sorobanInvoke :: "(string list \<Rightarrow> nat \<Rightarrow> spawn_result) \<Rightarrow> invoke_opts \<Rightarrow> (string, invoke_result) result \<times> nat" where
  "sorobanInvoke cli opts = invoke_loop (cli (cli_arguments opts)) opts (or_else (io_retries opts) 4) 0 []"


section \<open>Accounts\<close>

record stellar_wallet =
  sa_role :: string
  sa_publicKey :: string
  sa_secret :: string

definition generateStellarWallet :: "string \<times> string \<Rightarrow> string \<Rightarrow> stellar_wallet" where
  "generateStellarWallet keypair role = \<lparr> sa_role = role, sa_publicKey = fst keypair, sa_secret = snd keypair \<rparr>"

text \<open>The friendbot's answer: \<open>None\<close> when the request fails, otherwise status and text.\<close>

definition fundWithFriendbot :: "(string \<Rightarrow> (nat \<times> string) option) \<Rightarrow> (string \<Rightarrow> string) \<Rightarrow> string \<Rightarrow> (string, unit) result" where
  "fundWithFriendbot fetch enc publicKey =
    (case fetch (TESTNET_friendbotUrl @ ''?addr='' @ enc publicKey) of
       None \<Rightarrow> Throw ''fetch failed''
     | Some (code, body) \<Rightarrow> if 200 \<le> code \<and> code < 300 then Ok ()
         else Throw (''Friendbot failed for '' @ publicKey @ '': '' @ nat_to_string code @ '' '' @ body))"

datatype load_answer = Loaded | HttpError | OtherError string

definition accountExists :: "(string \<Rightarrow> load_answer) \<Rightarrow> string \<Rightarrow> (string, bool) result" where
  "accountExists load publicKey = (case load publicKey of Loaded \<Rightarrow> Ok True | HttpError \<Rightarrow> Ok False | OtherError e \<Rightarrow> Throw e)"


text \<open>The change-trust transaction, signed with the secret's key; Horizon loads the account and answers with the hash.\<close>

record trust_tx =
  tt_source :: string
  tt_fee :: string
  tt_passphrase :: string
  tt_code :: string
  tt_issuer :: string
  tt_timeout :: nat
  tt_signer :: string

record horizon =
  hz_public :: "string \<Rightarrow> string option"
  hz_load :: "string \<Rightarrow> (string, unit) result"
  hz_submit :: "trust_tx \<Rightarrow> (string, string) result"

definition createTrustline :: "horizon \<Rightarrow> string \<Rightarrow> string \<Rightarrow> string \<Rightarrow> (string, string) result" where
  "createTrustline hz secret issuer code =
    (case hz_public hz secret of
       None \<Rightarrow> Throw ''invalid secret key''
     | Some pk \<Rightarrow> res_bind (hz_load hz pk) (\<lambda>_. hz_submit hz \<lparr> tt_source = pk, tt_fee = ''100'', tt_passphrase = TESTNET_passphrase,
         tt_code = code, tt_issuer = issuer, tt_timeout = 60, tt_signer = secret \<rparr>))"


section \<open>Lemmas\<close>

lemma orelse_Some: "orelse x y = Some v \<Longrightarrow> x = Some v \<or> y = Some v"
  by (cases x) simp_all

definition is_hash64 :: "string \<Rightarrow> bool" where
  "is_hash64 h \<longleftrightarrow> length h = 64 \<and> list_all (\<lambda>c. hex_val c \<noteq> None) h"

lemma hex64_is_hash: "hex64 s = Some h \<Longrightarrow> is_hash64 h \<and> sublist h s"
  by (auto simp: hex64_def is_hash64_def split: if_splits intro: prefix_imp_sublist take_is_prefix)

lemma after_suffix: "after p s = Some r \<Longrightarrow> suffix r s"
  by (auto simp: after_def split: if_splits intro: suffix_drop)

definition finds_hash :: "(string \<Rightarrow> string option) \<Rightarrow> bool" where
  "finds_hash p \<longleftrightarrow> (\<forall>s h. p s = Some h \<longrightarrow> is_hash64 h \<and> sublist h s)"

lemma suffix_sublist: "suffix r s \<Longrightarrow> sublist h r \<Longrightarrow> sublist h s"
  by (metis sublist_appendI suffix_def sublist_def append.assoc)

lemma dropWhile_suffix: "suffix (dropWhile p s) s"
  by (metis suffixI takeWhile_dropWhile_id)

lemma finds_hex64: "finds_hash (\<lambda>s. hex64 (dropWhile is_space s))" "finds_hash hex64"
  using hex64_is_hash suffix_sublist [OF dropWhile_suffix] unfolding finds_hash_def by blast+

lemma finds_after: "finds_hash p \<Longrightarrow> finds_hash (\<lambda>s. Option.bind (after q s) p)"
  using suffix_sublist [OF after_suffix] unfolding finds_hash_def by (fastforce simp: bind_eq_Some_conv)

lemma finds_colon: "finds_hash colon_hash"
  unfolding finds_hash_def colon_hash_def
proof (intro allI impI)
  fix s h assume c: "hex64 (dropWhile is_space (case after '':'' s of Some r \<Rightarrow> r | None \<Rightarrow> s)) = Some h"
  have "suffix (case after '':'' s of Some r \<Rightarrow> r | None \<Rightarrow> s) s" by (auto split: option.split dest: after_suffix)
  then show "is_hash64 h \<and> sublist h s"
    using c hex64_is_hash suffix_sublist [OF dropWhile_suffix] suffix_sublist by blast
qed

lemma finds_is_hash: "finds_hash is_hash"
  unfolding finds_hash_def
proof (intro allI impI)
  fix s h assume "is_hash s = Some h"
  then consider "Option.bind (after ''is'' (dropWhile is_space s)) colon_hash = Some h" | "colon_hash s = Some h"
    unfolding is_hash_def by (auto dest!: orelse_Some split: if_splits)
  then show "is_hash64 h \<and> sublist h s"
  proof cases
    case 1
    then show ?thesis
      using finds_after [OF finds_colon, of "''is''"] suffix_sublist [OF dropWhile_suffix] unfolding finds_hash_def by blast
  qed (use finds_colon in \<open>auto simp: finds_hash_def\<close>)
qed

lemma finds_patterns: "finds_hash hash_pattern" "finds_hash tx_pattern" "finds_hash transaction_pattern"
proof -
  show "finds_hash hash_pattern"
    unfolding finds_hash_def
  proof (intro allI impI)
    fix s h assume "hash_pattern s = Some h"
    then obtain r where r: "orelse (after ''Transaction hash'' s) (after ''transaction hash'' s) = Some r" "is_hash r = Some h"
      unfolding hash_pattern_def by (auto simp: bind_eq_Some_conv)
    have "suffix r s" using orelse_Some [OF r(1)] after_suffix by blast
    then show "is_hash64 h \<and> sublist h s" using r(2) finds_is_hash suffix_sublist unfolding finds_hash_def by blast
  qed
  show "finds_hash tx_pattern" "finds_hash transaction_pattern"
    unfolding tx_pattern_def transaction_pattern_def using finds_after finds_hex64 by blast+
qed

lemma search_finds: "finds_hash p \<Longrightarrow> finds_hash (search p)"
proof -
  assume p: "finds_hash p"
  have "search p s = Some h \<Longrightarrow> is_hash64 h \<and> sublist h s" for s h
  proof (induction s)
    case Nil
    then show ?case using p unfolding finds_hash_def search.simps by blast
  next
    case (Cons c s)
    then consider "p (c # s) = Some h" | "search p s = Some h" by (auto dest: orelse_Some)
    then show ?case
      by cases (use p Cons.IH suffix_sublist [OF suffix_ConsI [OF suffix_order.refl]] in \<open>auto simp: finds_hash_def\<close>)
  qed
  then show ?thesis unfolding finds_hash_def by blast
qed

lemma parseSorobanTx_hash: "parseSorobanTx out = Some h \<Longrightarrow> is_hash64 h \<and> sublist h out"
  using search_finds [OF finds_patterns(1)] search_finds [OF finds_patterns(2)] search_finds [OF finds_patterns(3)]
  unfolding parseSorobanTx_def finds_hash_def by (auto dest!: orelse_Some)


lemma replace_all_prefix: "CHR ''['' \<notin> set p \<Longrightarrow> prefix p (replace_all secret REDACTED s) \<Longrightarrow> prefix p s"
proof (induction secret REDACTED s arbitrary: p rule: replace_all.induct)
  case (1 secret s)
  show ?case
  proof (cases "s = [] \<or> secret = []")
    case True
    then show ?thesis using 1(4) by (simp add: replace_all.simps)
  next
    case False
    show ?thesis
    proof (cases "take (length secret) s = secret")
      case True
      have "replace_all secret REDACTED s = REDACTED @ replace_all secret REDACTED (drop (length secret) s)"
        using False True by (subst replace_all.simps) simp
      then have "p = []" using 1(3,4) by (cases p) (auto simp: REDACTED_def)
      then show ?thesis by simp
    next
      case nomatch: False
      have "replace_all secret REDACTED s = hd s # replace_all secret REDACTED (tl s)"
        using False nomatch by (subst replace_all.simps) simp
      then have "p = [] \<or> (\<exists>p'. p = hd s # p' \<and> prefix p' (tl s))"
        using 1(2) [OF False nomatch] 1(3,4) by (cases p) auto
      then show ?thesis using False by (cases s) auto
    qed
  qed
qed

text \<open>A secret the redaction can remove: it does not occur in the replacement and has no bracket.\<close>

definition redactable :: "string \<Rightarrow> bool" where
  "redactable secret \<longleftrightarrow> secret \<noteq> [] \<and> CHR ''['' \<notin> set secret \<and> CHR '']'' \<notin> set secret \<and> \<not> sublist secret REDACTED"

lemma suffix_last: "suffix xs ys \<Longrightarrow> xs \<noteq> [] \<Longrightarrow> last ys \<in> set xs"
  by (auto simp: suffix_def)

lemma replace_all_clean: "redactable secret \<Longrightarrow> \<not> sublist secret (replace_all secret REDACTED s)"
proof (induction secret REDACTED s rule: replace_all.induct)
  case (1 secret s)
  note ok = 1(3) [unfolded redactable_def]
  show ?case
  proof (cases "s = []")
    case True
    then show ?thesis using ok by (simp add: replace_all.simps)
  next
    case False
    then have ne: "\<not> (s = [] \<or> secret = [])" using ok by simp
    show ?thesis
    proof (cases "take (length secret) s = secret")
      case True
      let ?rest = "replace_all secret REDACTED (drop (length secret) s)"
      have r: "replace_all secret REDACTED s = REDACTED @ ?rest" using ne True by (subst replace_all.simps) simp
      have "\<not> sublist secret ?rest" using 1(1) [OF ne True] 1(3) by simp
      moreover have "last REDACTED = CHR '']''" by (simp add: REDACTED_def)
      moreover have "secret = a @ b \<Longrightarrow> suffix a REDACTED \<Longrightarrow> prefix b ?rest \<Longrightarrow> sublist secret ?rest" for a b
        using suffix_last [of a REDACTED] ok calculation(2) by (cases "a = []") (auto intro: prefix_imp_sublist)
      ultimately show ?thesis unfolding r sublist_append using ok by blast
    next
      case nomatch: False
      have r: "replace_all secret REDACTED s = hd s # replace_all secret REDACTED (tl s)"
        using ne nomatch by (subst replace_all.simps) simp
      have "\<not> prefix secret (hd s # replace_all secret REDACTED (tl s))"
      proof
        assume "prefix secret (hd s # replace_all secret REDACTED (tl s))"
        then obtain p where p: "secret = hd s # p" "prefix p (replace_all secret REDACTED (tl s))"
          using ok by (cases secret) auto
        then have "prefix p (tl s)" using replace_all_prefix [of p secret "tl s"] ok by auto
        then have "prefix secret s" using p(1) False by (cases s) auto
        then show False using nomatch by (auto simp: prefix_def)
      qed
      then show ?thesis using 1(2) [OF ne nomatch] 1(3) unfolding r by (simp add: sublist_Cons_right)
    qed
  qed
qed

lemma redact_clean: "redactable secret \<Longrightarrow> \<not> sublist secret (redact t secret)"
  using replace_all_clean by (auto simp: redact_def redactable_def)

text \<open>What the loop promises: it stops after the first attempt that succeeds or cannot be retried.\<close>

definition failed_attempt :: "invoke_opts \<Rightarrow> spawn_result \<Rightarrow> bool" where
  "failed_attempt opts r \<longleftrightarrow> sp_status r \<noteq> Some 0 \<and> retryable (redact (raw_output r) (io_secret opts))"

definition good_result :: "invoke_opts \<Rightarrow> spawn_result \<Rightarrow> invoke_result \<Rightarrow> bool" where
  "good_result opts a v \<longleftrightarrow> sp_status a = Some 0 \<and> iv_raw v = redact (raw_output a) (io_secret opts) \<and>
     iv_returnValue v = js_trim (or_else (sp_stdout a) []) \<and>
     (parseSorobanTx (raw_output a) = Some (iv_txHash v) \<or> io_readOnly opts \<and> iv_txHash v = [])"

definition bad_text :: "invoke_opts \<Rightarrow> string \<Rightarrow> bool" where
  "bad_text opts e \<longleftrightarrow> (\<exists>t. e = fail_text opts (redact t (io_secret opts)) \<or> e = no_hash_text opts (redact t (io_secret opts)))"

definition loop_spec :: "(nat \<Rightarrow> spawn_result) \<Rightarrow> invoke_opts \<Rightarrow> nat \<Rightarrow> nat \<Rightarrow> string \<Rightarrow> (string, invoke_result) result \<times> nat \<Rightarrow> bool" where
  "loop_spec cli opts n attempt lastOut out \<longleftrightarrow> attempt \<le> snd out \<and> snd out \<le> attempt + n \<and>
     (\<forall>i. attempt < i \<and> i < snd out \<longrightarrow> failed_attempt opts (cli i)) \<and>
     (case fst out of
        Inr v \<Rightarrow> attempt < snd out \<and> good_result opts (cli (snd out)) v
      | Inl e \<Rightarrow> bad_text opts e \<or> n = 0 \<and> e = fail_text opts lastOut)"

lemma invoke_loop_spec:
  "\<exists>t. lastOut = redact t (io_secret opts) \<Longrightarrow> loop_spec cli opts n attempt lastOut (invoke_loop cli opts n attempt lastOut)"
proof (induction n arbitrary: attempt lastOut)
  case 0
  then show ?case by (auto simp: loop_spec_def)
next
  case (Suc n)
  let ?a = "cli (Suc attempt)"
  let ?t = "redact (raw_output ?a) (io_secret opts)"
  show ?case
  proof (cases "failed_attempt opts ?a")
    case True
    then have "invoke_loop cli opts (Suc n) attempt lastOut = invoke_loop cli opts n (Suc attempt) ?t"
      by (simp add: failed_attempt_def Let_def)
    moreover have "loop_spec cli opts n (Suc attempt) ?t (invoke_loop cli opts n (Suc attempt) ?t)" by (rule Suc.IH) blast
    ultimately show ?thesis using True unfolding loop_spec_def bad_text_def
      by (cases "fst (invoke_loop cli opts n (Suc attempt) ?t)") (auto simp: less_Suc_eq_le, (metis Suc_lessI)+)
  next
    case False
    then have "\<exists>r. invoke_loop cli opts (Suc n) attempt lastOut = (r, Suc attempt) \<and>
        (case r of Inr v \<Rightarrow> good_result opts ?a v | Inl e \<Rightarrow> bad_text opts e)"
      by (auto simp: failed_attempt_def Let_def good_result_def bad_text_def split: option.split)
    then obtain r where r: "invoke_loop cli opts (Suc n) attempt lastOut = (r, Suc attempt)"
      "case r of Inr v \<Rightarrow> good_result opts ?a v | Inl e \<Rightarrow> bad_text opts e" by blast
    then show ?thesis unfolding loop_spec_def by (cases r) auto
  qed
qed



section \<open>Properties\<close>

text \<open>A contract call makes at most the allowed number of attempts, and every attempt before the last one failed in a way that may
  be retried. A result comes from an attempt that exited with 0 and carries a 64-digit transaction hash of that
  attempt's output, unless the call only reads. Neither the reported output nor an error text
  contains the secret beyond what the method name contributes; but the secret is an argument of the program, and the returned value is not redacted.\<close>

theorem soroban_invoke_outcome:
  assumes "redactable (io_secret opts)"
  shows "(case sorobanInvoke cli opts of
      (Inr v, k) \<Rightarrow> 1 \<le> k \<and> sp_status (cli (cli_arguments opts) k) = Some 0 \<and>
        (is_hash64 (iv_txHash v) \<and> sublist (iv_txHash v) (raw_output (cli (cli_arguments opts) k)) \<or> io_readOnly opts \<and> iv_txHash v = []) \<and>
        \<not> sublist (io_secret opts) (iv_raw v)
    | (Inl e, k) \<Rightarrow> or_else (io_retries opts) 4 = 0 \<or>
        (\<exists>t. (e = fail_text opts t \<or> e = no_hash_text opts t) \<and> \<not> sublist (io_secret opts) t)) \<and>
    snd (sorobanInvoke cli opts) \<le> or_else (io_retries opts) 4 \<and>
    (\<forall>i. 0 < i \<and> i < snd (sorobanInvoke cli opts) \<longrightarrow> failed_attempt opts (cli (cli_arguments opts) i)) \<and>
    io_secret opts \<in> set (cli_arguments opts)"
proof -
  have "\<exists>t. [] = redact t (io_secret opts)" by (rule exI [of _ "[]"]) (simp add: redact_def replace_all.simps)
  then have spec: "loop_spec (cli (cli_arguments opts)) opts (or_else (io_retries opts) 4) 0 [] (sorobanInvoke cli opts)"
    unfolding sorobanInvoke_def by (rule invoke_loop_spec)
  obtain r k where rk: "sorobanInvoke cli opts = (r, k)" by fastforce
  have clean: "\<not> sublist (io_secret opts) (redact t (io_secret opts))" for t by (rule redact_clean [OF assms])
  have arg: "io_secret opts \<in> set (cli_arguments opts)" by (simp add: cli_arguments_def)
  show ?thesis
  proof (cases r)
    case (Inr v)
    have v: "0 < k" "k \<le> or_else (io_retries opts) 4" "good_result opts (cli (cli_arguments opts) k) v"
      "\<forall>i. 0 < i \<and> i < k \<longrightarrow> failed_attempt opts (cli (cli_arguments opts) i)"
      using spec by (simp_all add: loop_spec_def rk Inr)
    have "is_hash64 (iv_txHash v) \<and> sublist (iv_txHash v) (raw_output (cli (cli_arguments opts) k)) \<or> io_readOnly opts \<and> iv_txHash v = []"
      using v(3) parseSorobanTx_hash unfolding good_result_def by blast
    then show ?thesis using v clean arg by (simp add: rk Inr good_result_def Suc_le_eq)
  next
    case (Inl e)
    have "bad_text opts e \<or> or_else (io_retries opts) 4 = 0" "k \<le> or_else (io_retries opts) 4"
      "\<forall>i. 0 < i \<and> i < k \<longrightarrow> failed_attempt opts (cli (cli_arguments opts) i)"
      using spec by (auto simp: loop_spec_def rk Inl)
    moreover have "bad_text opts e \<Longrightarrow> \<exists>t. (e = fail_text opts t \<or> e = no_hash_text opts t) \<and> \<not> sublist (io_secret opts) t"
      using clean unfolding bad_text_def by blast
    ultimately show ?thesis using arg by (auto simp: rk Inl)
  qed
qed

definition demo_invoke :: invoke_opts where
  "demo_invoke = \<lparr> io_contractId = ''C'', io_secret = ''SECRETKEYSECRETKEYSECRETKEY'', io_method = ''get_root'', io_args = None, io_rpcUrl = None,
     io_passphrase = None, io_retries = Some 3, io_readOnly = True \<rparr>"

definition demo_cli :: "string list \<Rightarrow> nat \<Rightarrow> spawn_result" where
  "demo_cli args n = (if n = 1 then \<lparr> sp_status = Some 1, sp_stdout = None, sp_stderr = Some ''timeout'' \<rparr>
     else \<lparr> sp_status = Some 0, sp_stdout = Some ''ab'', sp_stderr = Some [] \<rparr>)"

theorem soroban_invoke_outcome_witness:
  "fst (sorobanInvoke demo_cli demo_invoke) = Ok \<lparr> iv_txHash = [], iv_returnValue = ''ab'', iv_raw = CHR 0x0A # ''ab'' \<rparr> \<and>
   snd (sorobanInvoke demo_cli demo_invoke) = 2 \<and> failed_attempt demo_invoke (demo_cli (cli_arguments demo_invoke) 1)"
proof -
  have "redactable (io_secret demo_invoke)" by code_simp
  then have "\<forall>i. 0 < i \<and> i < snd (sorobanInvoke demo_cli demo_invoke) \<longrightarrow> failed_attempt demo_invoke (demo_cli (cli_arguments demo_invoke) i)"
    using soroban_invoke_outcome [of demo_invoke demo_cli] by blast
  moreover have "fst (sorobanInvoke demo_cli demo_invoke) = Ok \<lparr> iv_txHash = [], iv_returnValue = ''ab'', iv_raw = CHR 0x0A # ''ab'' \<rparr>"
    "snd (sorobanInvoke demo_cli demo_invoke) = 2" by code_simp+
  ultimately show ?thesis by simp
qed

end
