(* ===== verification/Auditor.thy ===== *)
theory Auditor
  imports Relayer Soroban
begin

text \<open>
  The root auditor, \<open>apps/root-auditor/src\<close>: it reads the deposited leaves from the pool's events (or the
  database), recomputes the tree root with coinutils, compares it with the root on chain and records run and finding. The
  fields of a deposit event have the types the contract emits. RPC pages, coinutils and the \<open>stellar\<close> program are
  parameters; the database is the state.
\<close>

section \<open>Leaves from events\<close>

record deposit_leaf =
  dl_leafIndex :: int
  dl_commitmentDecimal :: string
  dl_commitmentHex :: string

text \<open>An event: its first topic, whether the data is an array and its length, commitment (index 3) and leaf index (index 6).\<close>

record pool_event =
  ve_topic :: string
  ve_isArray :: bool
  ve_length :: nat
  ve_commitment :: bytes
  ve_leafIndex :: int

datatype event_request = FromLedger int | FromCursor string

datatype event_page = PageError | EventPage "pool_event list" "string option"

definition SYM_DEPOSIT :: string where
  "SYM_DEPOSIT = ''deposit''"

type_synonym leaf_map = "(int \<times> deposit_leaf) list"

text \<open>One event: skipped, or entered under its leaf index; \<open>BigInt\<close> of the commitment may throw.\<close>

definition add_event :: "pool_event \<Rightarrow> leaf_map \<times> nat \<Rightarrow> (unit, unit) result \<times> leaf_map \<times> nat" where
  "add_event ev st =
    (case st of (byIndex, got) \<Rightarrow>
     if ve_topic ev \<noteq> SYM_DEPOSIT \<or> \<not> ve_isArray ev \<or> ve_length ev < 7 then (Ok (), byIndex, got)
     else let commitmentHex = ''0x'' @ to_hex (ve_commitment ev) in
       (case big_int_of_string commitmentHex of
          None \<Rightarrow> (Throw (), byIndex, got)
        | Some n \<Rightarrow> (Ok (), jm_set byIndex (ve_leafIndex ev) \<lparr> dl_leafIndex = ve_leafIndex ev, dl_commitmentDecimal = int_to_string n,
            dl_commitmentHex = commitmentHex \<rparr>, Suc got)))"

text \<open>The page loop, at most \<open>n\<close> more pages.\<close>

fun read_pages :: "(event_request \<Rightarrow> event_page) \<Rightarrow> nat \<Rightarrow> event_request \<Rightarrow> leaf_map \<times> nat \<Rightarrow> (unit, unit) result \<times> leaf_map \<times> nat" where
  "read_pages rpc 0 req st = (Ok (), st)"
| "read_pages rpc (Suc n) req st =
    (case rpc req of
       PageError \<Rightarrow> (Throw (), st)
     | EventPage evs cursor \<Rightarrow>
         (case each add_event evs st of
            (Inl e, st') \<Rightarrow> (Throw (), st')
          | (Inr _, st') \<Rightarrow>
              (case cursor of
                 None \<Rightarrow> (Ok (), st')
               | Some c \<Rightarrow> if c = [] \<or> evs = [] then (Ok (), st') else read_pages rpc n (FromCursor c) st')))"

text \<open>The lookback windows: a failing window is left for the next one, the first with a deposit ends the search.\<close>

fun try_windows :: "(event_request \<Rightarrow> event_page) \<Rightarrow> int \<Rightarrow> int list \<Rightarrow> leaf_map \<Rightarrow> leaf_map" where
  "try_windows rpc latest [] byIndex = byIndex"
| "try_windows rpc latest (back # backs) byIndex =
    (case read_pages rpc 50 (FromLedger (max 1 (latest - back))) (byIndex, 0) of
       (Inl _, byIndex', _) \<Rightarrow> try_windows rpc latest backs byIndex'
     | (Inr _, byIndex', got) \<Rightarrow> if got > 0 then byIndex' else try_windows rpc latest backs byIndex')"

text \<open>\<open>parseInt(s, 10)\<close>: \<open>None\<close> is \<open>NaN\<close>.\<close>

definition parse_int10 :: "string \<Rightarrow> int option" where
  "parse_int10 s =
    (let t = dropWhile is_space s; neg = (t \<noteq> [] \<and> hd t = CHR ''-'');
         u = (if t \<noteq> [] \<and> hd t \<in> {CHR ''-'', CHR ''+''} then tl t else t) in
     map_option (\<lambda>n. if neg then - int n else int n) (parse_nat (takeWhile is_digit u)))"

definition lookbacks :: "string option \<Rightarrow> int list" where
  "lookbacks env = filter (\<lambda>n. n > 0) (map (\<lambda>s. case parse_int10 s of None \<Rightarrow> 0 | Some n \<Rightarrow> n)
     (split_on (CHR '','') (or_else env ''9000,4000,2000'')))"

text \<open>\<open>latest\<close> is the answer of \<open>getLatestLedger\<close>, which may throw.\<close>

definition readDepositLeavesFromEvents ::
  "(event_request \<Rightarrow> event_page) \<Rightarrow> int option \<Rightarrow> string option \<Rightarrow> (string, deposit_leaf list) result" where
  "readDepositLeavesFromEvents rpc latest env =
    (case latest of None \<Rightarrow> Throw ''getLatestLedger failed''
     | Some l \<Rightarrow> Ok (sort_key dl_leafIndex (jm_values (try_windows rpc l (lookbacks env) []))))"


section \<open>Comparing roots\<close>

definition root_text :: "int \<Rightarrow> string" where
  "root_text i = ''0x'' @ pad_start 64 (CHR ''0'') (if i < 0 then CHR ''-'' # Quotes.hex_text (nat (- i)) else Quotes.hex_text (nat i))"

text \<open>\<open>coinutils\<close> is the output of \<open>compute-root\<close> on the state file with these commitments.\<close>

type_synonym coinutils = "string list \<Rightarrow> (string, string) result"

definition recomputeRoot :: "coinutils \<Rightarrow> string list \<Rightarrow> (string, string) result" where
  "recomputeRoot cu commitments =
    (if commitments = [] then Ok (''0x'' @ concat (replicate 32 ''00''))
     else res_bind (cu commitments) (\<lambda>out.
       case big_int_of_string (js_trim out) of None \<Rightarrow> Throw ''Cannot convert to a BigInt'' | Some i \<Rightarrow> Ok (root_text i)))"

datatype audit_status = AuditOk | RootMismatch
datatype leaf_source = FromEvents | FromDb
datatype root_convention = Cumulative | PerDeposit | NoConvention

record audit_result =
  ar_poolContract :: string
  ar_leafCount :: nat
  ar_source :: leaf_source
  ar_recomputedRootHex :: string
  ar_onchainRootHex :: string
  ar_status :: audit_status
  ar_detail :: root_convention

definition norm_root :: "string \<Rightarrow> string" where
  "norm_root h = lower (if take 2 h = ''0x'' then h else ''0x'' @ h)"

text \<open>The detail text is kept as the convention it names.\<close>

definition compareRoots :: "coinutils \<Rightarrow> string \<Rightarrow> deposit_leaf list \<Rightarrow> string \<Rightarrow> leaf_source \<Rightarrow> (string, audit_result) result" where
  "compareRoots cu pool leaves onchainRootHex source =
    (let ordered = sort_key dl_leafIndex leaves in
     res_bind (recomputeRoot cu (map dl_commitmentDecimal ordered)) (\<lambda>cum.
     res_bind (if ordered = [] then Ok cum else recomputeRoot cu [dl_commitmentDecimal (last ordered)]) (\<lambda>lst.
       let cumulative = norm_root cum; latestOnly = norm_root lst; onchain = norm_root onchainRootHex in
       Ok \<lparr> ar_poolContract = pool, ar_leafCount = length ordered, ar_source = source, ar_recomputedRootHex = cumulative,
         ar_onchainRootHex = onchain, ar_status = (if onchain = cumulative \<or> onchain = latestOnly then AuditOk else RootMismatch),
         ar_detail = (if onchain = cumulative then Cumulative else if onchain = latestOnly then PerDeposit else NoConvention) \<rparr>)))"


section \<open>An audit run\<close>

record audit_row =
  aw_run :: nat
  aw_result :: audit_result
  aw_gitCommit :: string

record finding_row =
  fi_run :: nat
  fi_severity :: string
  fi_code :: string
  fi_recomputed :: string
  fi_onchain :: string

record audit_db =
  ad_runs :: "audit_row list"
  ad_findings :: "finding_row list"
  ad_next :: nat

record audit_world =
  au_rpc :: "event_request \<Rightarrow> event_page"
  au_latest :: "int option"
  au_lookbacks :: "string option"
  au_coinutils :: coinutils
  au_cli :: "string list \<Rightarrow> nat \<Rightarrow> spawn_result"
  au_rows :: "(string \<times> int) list option"
  au_dbUp :: bool
  au_git :: "string option"

definition loadRuntimeEnv :: "env_map \<Rightarrow> string option \<Rightarrow> env_map" where
  "loadRuntimeEnv processEnv generatedFile = parseEnvFile generatedFile True processEnv"

definition requireKeys :: "env_map \<Rightarrow> string list \<Rightarrow> string list" where
  "requireKeys env ks = filter (\<lambda>k. \<not> set_env env k) ks"

definition readOnchainRoot :: "audit_world \<Rightarrow> string \<Rightarrow> string \<Rightarrow> string \<Rightarrow> string \<Rightarrow> (string, string) result" where
  "readOnchainRoot w pool secret rpcUrl pass =
    res_bind (fst (sorobanInvoke (au_cli w) \<lparr> io_contractId = pool, io_secret = secret, io_method = ''get_root'', io_args = None,
        io_rpcUrl = Some rpcUrl, io_passphrase = Some pass, io_retries = None, io_readOnly = True \<rparr>)) (\<lambda>res.
    let raw = js_trim (filter (\<lambda>c. c \<noteq> CHR 0x22) (iv_returnValue res)) in
    Ok (if take 2 raw = ''0x'' then raw else ''0x'' @ raw))"

definition db_leaf :: "string \<times> int \<Rightarrow> (string, deposit_leaf) result" where
  "db_leaf r = (let hex = (if take 2 (fst r) = ''0x'' then fst r else ''0x'' @ fst r) in
     case big_int_of_string hex of
       None \<Rightarrow> Throw ''Cannot convert to a BigInt''
     | Some n \<Rightarrow> Ok \<lparr> dl_leafIndex = snd r, dl_commitmentDecimal = int_to_string n, dl_commitmentHex = hex \<rparr>)"

text \<open>The rows of \<open>note_commitments\<close> with a leaf index, in its order; \<open>None\<close> is a failing query.\<close>

definition readLeavesFromDb :: "audit_world \<Rightarrow> (string, deposit_leaf list) result" where
  "readLeavesFromDb w = (case au_rows w of None \<Rightarrow> Throw ''database error'' | Some rows \<Rightarrow> map_res db_leaf rows)"

definition gitCommit :: "audit_world \<Rightarrow> string" where
  "gitCommit w = (case au_git w of None \<Rightarrow> ''unknown'' | Some out \<Rightarrow> js_trim out)"

definition persist :: "audit_world \<Rightarrow> env_map \<Rightarrow> audit_result \<Rightarrow> (audit_db, string, unit) stmt" where
  "persist w env r db =
    (if \<not> set_env env ''DATABASE_URL'' then (Ok (), db)
     else if \<not> au_dbUp w then (Throw ''database error'', db)
     else let db1 = db \<lparr> ad_runs := ad_runs db @ [\<lparr> aw_run = ad_next db, aw_result = r, aw_gitCommit = gitCommit w \<rparr>], ad_next := Suc (ad_next db) \<rparr> in
       (Ok (), if ar_status r = AuditOk then db1
         else db1 \<lparr> ad_findings := ad_findings db @ [\<lparr> fi_run = ad_next db, fi_severity = ''CRITICAL'', fi_code = ''ROOT_MISMATCH_CRITICAL'',
           fi_recomputed = ar_recomputedRootHex r, fi_onchain = ar_onchainRootHex r \<rparr>] \<rparr>))"

definition audit_leaves :: "audit_world \<Rightarrow> env_map \<Rightarrow> (string, leaf_source \<times> deposit_leaf list) result" where
  "audit_leaves w env =
    res_bind (readDepositLeavesFromEvents (au_rpc w) (au_latest w) (au_lookbacks w)) (\<lambda>leaves.
    if leaves = [] \<and> set_env env ''DATABASE_URL'' then res_bind (readLeavesFromDb w) (\<lambda>ls. Ok (FromDb, ls)) else Ok (FromEvents, leaves))"

text \<open>Everything of a run before the result is stored.\<close>

definition audit_verdict :: "audit_world \<Rightarrow> env_map \<Rightarrow> (string, audit_result) result" where
  "audit_verdict w env =
    (if requireKeys env [''SHIELDED_POOL_CONTRACT'', ''STELLAR_RELAYER_SECRET''] \<noteq> [] then Throw ''root-auditor missing env''
     else let pool = env_or (env ''SHIELDED_POOL_CONTRACT'') []; rpcUrl = or_else (env ''STELLAR_RPC_URL'') TESTNET_rpcUrl;
              pass = or_else (env ''STELLAR_NETWORK_PASSPHRASE'') TESTNET_passphrase in
       res_bind (audit_leaves w env) (\<lambda>(source, leaves).
       res_bind (readOnchainRoot w pool (env_or (env ''STELLAR_RELAYER_SECRET'') []) rpcUrl pass) (\<lambda>onchainRoot.
       compareRoots (au_coinutils w) pool leaves onchainRoot source)))"

definition runAudit :: "audit_world \<Rightarrow> env_map \<Rightarrow> (audit_db, string, audit_result) stmt" where
  "runAudit w env db =
    (case audit_verdict w env of
       Inl e \<Rightarrow> (Throw e, db)
     | Inr r \<Rightarrow> andThen (persist w env r) (\<lambda>_ db. (Ok r, db)) db)"

text \<open>The route \<open>/v1/audit\<close>: the code and, for a run that returned, its result.\<close>

definition get_audit :: "audit_world \<Rightarrow> env_map \<Rightarrow> audit_db \<Rightarrow> (nat \<times> audit_result option) \<times> audit_db" where
  "get_audit w env db =
    (case runAudit w env db of
       (Inl _, db') \<Rightarrow> ((500, None), db')
     | (Inr r, db') \<Rightarrow> ((if ar_status r = AuditOk then 200 else 409, Some r), db'))"


section \<open>Lemmas\<close>

text \<open>The roots the auditor accepts for a list of leaves.\<close>

definition honest_root :: "coinutils \<Rightarrow> deposit_leaf list \<Rightarrow> string \<Rightarrow> bool" where
  "honest_root cu leaves root \<longleftrightarrow> (let ordered = sort_key dl_leafIndex leaves in
     (\<exists>h. recomputeRoot cu (map dl_commitmentDecimal ordered) = Ok h \<and> norm_root root = norm_root h) \<or>
     leaves \<noteq> [] \<and> (\<exists>h. recomputeRoot cu [dl_commitmentDecimal (last ordered)] = Ok h \<and> norm_root root = norm_root h))"

lemma compareRoots_status:
  assumes "compareRoots cu pool leaves onchain source = Ok r"
  shows "ar_status r = AuditOk \<longleftrightarrow> honest_root cu leaves onchain" "ar_leafCount r = length leaves" "ar_poolContract r = pool" "ar_source r = source"
proof -
  let ?o = "sort_key dl_leafIndex leaves"
  obtain cum lst where c: "recomputeRoot cu (map dl_commitmentDecimal ?o) = Ok cum"
    "(if ?o = [] then Ok cum else recomputeRoot cu [dl_commitmentDecimal (last ?o)]) = Ok lst"
    "r = \<lparr> ar_poolContract = pool, ar_leafCount = length ?o, ar_source = source, ar_recomputedRootHex = norm_root cum,
         ar_onchainRootHex = norm_root onchain, ar_status = (if norm_root onchain = norm_root cum \<or> norm_root onchain = norm_root lst then AuditOk else RootMismatch),
         ar_detail = (if norm_root onchain = norm_root cum then Cumulative else if norm_root onchain = norm_root lst then PerDeposit else NoConvention) \<rparr>"
    using assms unfolding compareRoots_def Let_def res_bind_eq_Inr by auto
  have "?o = [] \<longleftrightarrow> leaves = []" by (metis length_0_conv length_sort)
  with c show "ar_status r = AuditOk \<longleftrightarrow> honest_root cu leaves onchain"
    by (cases "leaves = []") (auto simp: honest_root_def Let_def)
  show "ar_leafCount r = length leaves" "ar_poolContract r = pool" "ar_source r = source" using c(3) by simp_all
qed

lemma last_insort: "ys \<noteq> [] \<Longrightarrow> f y \<le> f (last ys) \<Longrightarrow> last (insort_key f y ys) = last ys"
  by (induction ys) (auto split: if_splits)

lemma last_sort_key: "\<forall>y \<in> set xs. f y \<le> f x \<Longrightarrow> last (sort_key f (xs @ [x])) = x"
proof -
  have "\<forall>y \<in> set xs. f y \<le> f x \<Longrightarrow> last (foldr (insort_key f) xs [x]) = x \<and> foldr (insort_key f) xs [x] \<noteq> []"
    by (induction xs) (auto simp: last_insort)
  then show "\<forall>y \<in> set xs. f y \<le> f x \<Longrightarrow> last (sort_key f (xs @ [x])) = x" by (simp add: sort_key_def)
qed

lemma api_health: "fst (assertRootHealthy a) = (if ''ROOT_MISMATCH_CRITICAL'' \<in> set (st_findings (ap_store a)) then Throw (409, ''ROOT_MISMATCH_CRITICAL'') else Ok ())"
  by (auto simp: assertRootHealthy_def andThen_def get_store_def require_def criticalRootMismatchCount_def filter_empty_conv)

lemma persist_outcome:
  assumes "set_env env ''DATABASE_URL''" "au_dbUp w"
  shows "fst (persist w env r db) = Ok ()" "ad_runs (snd (persist w env r db)) = ad_runs db @ [\<lparr> aw_run = ad_next db, aw_result = r, aw_gitCommit = gitCommit w \<rparr>]"
    "ar_status r = AuditOk \<Longrightarrow> ad_findings (snd (persist w env r db)) = ad_findings db"
    "ar_status r \<noteq> AuditOk \<Longrightarrow> ''ROOT_MISMATCH_CRITICAL'' \<in> fi_code ` set (ad_findings (snd (persist w env r db)))"
  using assms by (simp_all add: persist_def Let_def)


section \<open>Properties\<close>

text \<open>An audit that returns has compared the root on chain with the leaves it read, recorded its run, and answers 200 exactly when
  the root is one of the two recomputed roots. A mismatch is answered with 409 and recorded, and from then on the
  API that shares the database refuses what it guards by the root check; an audit that throws changes nothing and answers 500.\<close>

theorem audit_gates_the_api:
  assumes "set_env env ''DATABASE_URL''" "au_dbUp w" "get_audit w env db = ((code, res), db')"
    and "st_findings (ap_store a) = map fi_code (ad_findings db')"
  shows "case res of
      None \<Rightarrow> code = 500 \<and> db' = db
    | Some r \<Rightarrow> (\<exists>leaves onchain. audit_leaves w env = Ok (ar_source r, leaves) \<and> ar_leafCount r = length leaves \<and>
          readOnchainRoot w (ar_poolContract r) (env_or (env ''STELLAR_RELAYER_SECRET'') []) (or_else (env ''STELLAR_RPC_URL'') TESTNET_rpcUrl)
            (or_else (env ''STELLAR_NETWORK_PASSPHRASE'') TESTNET_passphrase) = Ok onchain \<and>
          code = (if honest_root (au_coinutils w) leaves onchain then 200 else 409)) \<and>
        aw_result (last (ad_runs db')) = r \<and> length (ad_runs db') = Suc (length (ad_runs db)) \<and>
        (code = 200 \<longrightarrow> ad_findings db' = ad_findings db) \<and>
        (code = 409 \<longrightarrow> fst (assertRootHealthy a) = Throw (409, ''ROOT_MISMATCH_CRITICAL''))"
proof (cases "audit_verdict w env")
  case (Inl e)
  then show ?thesis using assms(3) by (auto simp: get_audit_def runAudit_def)
next
  case (Inr r)
  note p = persist_outcome [OF assms(1,2), of r db]
  have run: "runAudit w env db = (Ok r, snd (persist w env r db))" using Inr p(1) by (simp add: runAudit_def)
  have out: "res = Some r" "code = (if ar_status r = AuditOk then 200 else 409)" "db' = snd (persist w env r db)"
    using assms(3) unfolding get_audit_def run by auto
  obtain source leaves onchain where v: "audit_leaves w env = Ok (source, leaves)"
    "readOnchainRoot w (env_or (env ''SHIELDED_POOL_CONTRACT'') []) (env_or (env ''STELLAR_RELAYER_SECRET'') [])
       (or_else (env ''STELLAR_RPC_URL'') TESTNET_rpcUrl) (or_else (env ''STELLAR_NETWORK_PASSPHRASE'') TESTNET_passphrase) = Ok onchain"
    "compareRoots (au_coinutils w) (env_or (env ''SHIELDED_POOL_CONTRACT'') []) leaves onchain source = Ok r"
    using Inr unfolding audit_verdict_def Let_def by (auto simp: res_bind_eq_Inr split: if_splits)
  note c = compareRoots_status [OF v(3)]
  have f: "ar_status r \<noteq> AuditOk \<Longrightarrow> fst (assertRootHealthy a) = Throw (409, ''ROOT_MISMATCH_CRITICAL'')"
    using p(4) assms(4) out(3) by (auto simp: api_health)
  show ?thesis unfolding out(1) option.case
  proof (intro conjI)
    show "\<exists>leaves onchain. audit_leaves w env = Ok (ar_source r, leaves) \<and> ar_leafCount r = length leaves \<and>
          readOnchainRoot w (ar_poolContract r) (env_or (env ''STELLAR_RELAYER_SECRET'') []) (or_else (env ''STELLAR_RPC_URL'') TESTNET_rpcUrl)
            (or_else (env ''STELLAR_NETWORK_PASSPHRASE'') TESTNET_passphrase) = Ok onchain \<and>
          code = (if honest_root (au_coinutils w) leaves onchain then 200 else 409)"
      using v(1,2) c out(2) by (intro exI [of _ leaves] exI [of _ onchain]) simp
  qed (use p out f in \<open>auto split: if_splits\<close>)
qed

definition demo_leaf :: "int \<Rightarrow> string \<Rightarrow> deposit_leaf" where
  "demo_leaf i c = \<lparr> dl_leafIndex = i, dl_commitmentDecimal = c, dl_commitmentHex = [] \<rparr>"

definition demo_coinutils :: coinutils where
  "demo_coinutils cs = Ok (nat_to_string (length cs))"

definition demo_audit :: audit_world where
  "demo_audit = \<lparr> au_rpc = (\<lambda>q. PageError), au_latest = Some 10, au_lookbacks = Some ''9'', au_coinutils = demo_coinutils,
     au_cli = (\<lambda>args n. \<lparr> sp_status = Some 0, sp_stdout = Some ''ff'', sp_stderr = None \<rparr>), au_rows = Some [(''0x8'', 0)], au_dbUp = True, au_git = None \<rparr>"

definition demo_audit_env :: env_map where
  "demo_audit_env = [''DATABASE_URL'' \<mapsto> ''d'', ''SHIELDED_POOL_CONTRACT'' \<mapsto> ''C'', ''STELLAR_RELAYER_SECRET'' \<mapsto> ''S'']"

definition demo_audit_db :: audit_db where
  "demo_audit_db = \<lparr> ad_runs = [], ad_findings = [], ad_next = 0 \<rparr>"

lemma demo_audit_code: "fst (fst (get_audit demo_audit demo_audit_env demo_audit_db)) = 409"
  by code_simp

theorem audit_gates_the_api_witness:
  "fst (fst (get_audit demo_audit demo_audit_env demo_audit_db)) = 409 \<and>
   (\<forall>a. fst (assertRootHealthy (a \<lparr> ap_store := (ap_store a) \<lparr> st_findings :=
      map fi_code (ad_findings (snd (get_audit demo_audit demo_audit_env demo_audit_db))) \<rparr> \<rparr>)) = Throw (409, ''ROOT_MISMATCH_CRITICAL''))"
proof -
  obtain res db' where g: "get_audit demo_audit demo_audit_env demo_audit_db = ((409, res), db')"
    using demo_audit_code by (metis prod.collapse)
  have env: "set_env demo_audit_env ''DATABASE_URL''" "au_dbUp demo_audit"
    by (simp_all add: set_env_def demo_audit_env_def demo_audit_def)
  have "fst (assertRootHealthy a) = Throw (409, ''ROOT_MISMATCH_CRITICAL'')" if f: "st_findings (ap_store a) = map fi_code (ad_findings db')" for a
    using audit_gates_the_api [OF env g f] by (cases res) simp_all
  then show ?thesis by (simp add: g)
qed

text \<open>The auditor does not see the leaves before the last one when the root follows the per-deposit convention: whatever
  the earlier leaves are, a root over the latest leaf alone passes, so replacing or dropping them goes unnoticed.\<close>

theorem audit_blind_to_earlier_leaves:
  assumes "\<forall>l \<in> set earlier. dl_leafIndex l \<le> dl_leafIndex latest" "recomputeRoot cu [dl_commitmentDecimal latest] = Ok root"
    and "compareRoots cu pool (earlier @ [latest]) root source = Ok r"
  shows "ar_status r = AuditOk"
  using compareRoots_status(1) [OF assms(3)] last_sort_key [OF assms(1)] assms(2) by (auto simp: honest_root_def Let_def)

theorem audit_blind_to_earlier_leaves_witness:
  "\<forall>c. \<exists>root r. recomputeRoot demo_coinutils [''8''] = Ok root \<and>
     compareRoots demo_coinutils ''C'' ([demo_leaf 0 c] @ [demo_leaf 1 ''8'']) root FromEvents = Ok r \<and> ar_status r = AuditOk"
proof
  fix c
  have num: "recomputeRoot demo_coinutils (x # xs) = Ok (root_text (int (length (x # xs))))" for x xs
  proof -
    have "js_trim (nat_to_string n) = nat_to_string n" for n
      using nat_to_string_digits is_digit_not_space by (intro js_trim_id) blast
    moreover have "big_int_of_string (nat_to_string n) = Some (int n)" for n
      using big_int_of_string_to_string [of "int n"] by (simp add: int_to_string_def)
    ultimately show ?thesis by (simp add: recomputeRoot_def demo_coinutils_def)
  qed
  have "\<exists>r. compareRoots demo_coinutils ''C'' ([demo_leaf 0 c] @ [demo_leaf 1 ''8'']) (root_text 1) FromEvents = Ok r"
    by (simp add: compareRoots_def demo_leaf_def num Let_def)
  then obtain r where r: "compareRoots demo_coinutils ''C'' ([demo_leaf 0 c] @ [demo_leaf 1 ''8'']) (root_text 1) FromEvents = Ok r" by blast
  have "ar_status r = AuditOk"
    by (rule audit_blind_to_earlier_leaves [OF _ _ r]) (simp_all add: demo_leaf_def num)
  then show "\<exists>root r. recomputeRoot demo_coinutils [''8''] = Ok root \<and>
     compareRoots demo_coinutils ''C'' ([demo_leaf 0 c] @ [demo_leaf 1 ''8'']) root FromEvents = Ok r \<and> ar_status r = AuditOk"
    using r num [of "''8''" "[]"] by auto
qed

end
