(* ===== verification/ArcActions.thy ===== *)
theory ArcActions
  imports Relayer Receipts Soroban Bn254
begin

text \<open>
  Transactions of the services and of the user's wallet: \<open>packages/arc-actions/src/index.ts\<close> and \<open>cctp-arc.ts\<close> for Arc,
  \<open>packages/stellar-actions/src/index.ts\<close> for Stellar. ethers, the Stellar SDK and the nodes they talk to are
  parameters: what a call, a receipt or a query answers.
\<close>

section \<open>Networks\<close>

record arc_net =
  an_rpcUrl :: string
  an_chainId :: "jsnum option"

definition arcNetwork :: "env_map \<Rightarrow> (string, arc_net) result" where
  "arcNetwork env =
    (if \<not> set_env env ''ARC_RPC_URL'' then Throw ''ARC_RPC_URL is required''
     else Ok \<lparr> an_rpcUrl = or_else (env ''ARC_RPC_URL'') [],
       an_chainId = (if set_env env ''ARC_CHAIN_ID'' then Some (number_of_string (or_else (env ''ARC_CHAIN_ID'') [])) else None) \<rparr>)"


section \<open>Transactions the user signs\<close>

record unsigned_tx =
  ut_from :: string
  ut_to :: string
  ut_data :: string
  ut_value :: int
  ut_nonce :: int
  ut_gasLimit :: int
  ut_maxFeePerGas :: "int option"
  ut_maxPriorityFeePerGas :: "int option"
  ut_chainId :: int

text \<open>What the provider answers: pending nonce, fee data (each may be null), gas estimate and chain id; each call may throw.\<close>

record arc_provider =
  pv_encode :: "string \<Rightarrow> jsval list \<Rightarrow> (string, string) result"
  pv_nonce :: "string \<Rightarrow> (string, int) result"
  pv_fees :: "(string, int option \<times> int option) result"
  pv_gas :: "string \<Rightarrow> string \<Rightarrow> string \<Rightarrow> int option \<Rightarrow> (string, int) result"
  pv_chainId :: "(string, int) result"

definition buildUnsignedTx :: "arc_provider \<Rightarrow> string \<Rightarrow> string \<Rightarrow> string \<Rightarrow> jsval list \<Rightarrow> int option \<Rightarrow> (string, unsigned_tx) result" where
  "buildUnsignedTx prov sender contractAddress meth params value =
    res_bind (pv_encode prov meth params) (\<lambda>data.
    res_bind (pv_nonce prov sender) (\<lambda>nonce.
    res_bind (pv_fees prov) (\<lambda>(maxFee, prio).
    res_bind (pv_gas prov sender contractAddress data value) (\<lambda>gasLimit.
    res_bind (pv_chainId prov) (\<lambda>chainId.
    Ok \<lparr> ut_from = sender, ut_to = contractAddress, ut_data = data, ut_value = or_else value 0, ut_nonce = nonce,
      ut_gasLimit = js_div (gasLimit * 120) 100, ut_maxFeePerGas = maxFee, ut_maxPriorityFeePerGas = prio, ut_chainId = chainId \<rparr>)))))"

definition big_text :: "int \<Rightarrow> jsval" where
  "big_text i = VStr (int_to_string i)"

definition opt_big :: "int option \<Rightarrow> jsval" where
  "opt_big x = (case x of None \<Rightarrow> VUndef | Some i \<Rightarrow> big_text i)"

text \<open>The members of a request in order; \<open>bigint\<close> members become texts, the nonce is a number.\<close>

definition serializeUnsignedTx :: "unsigned_tx \<Rightarrow> jsval" where
  "serializeUnsignedTx tx = VObj [(''from'', VStr (ut_from tx)), (''to'', VStr (ut_to tx)), (''data'', VStr (ut_data tx)),
     (''value'', big_text (ut_value tx)), (''nonce'', VNum (NInt (ut_nonce tx))), (''gasLimit'', big_text (ut_gasLimit tx)),
     (''maxFeePerGas'', opt_big (ut_maxFeePerGas tx)), (''maxPriorityFeePerGas'', opt_big (ut_maxPriorityFeePerGas tx)),
     (''chainId'', big_text (ut_chainId tx)), (''type'', VNum (NInt 2))]"

definition calldata_value :: "groth16_calldata \<Rightarrow> jsval" where
  "calldata_value c = (let pair = (\<lambda>p. VArr [VStr (fst p), VStr (snd p)]) in
     VObj [(''a'', pair (gc_a c)), (''b'', VArr [pair (fst (gc_b c)), pair (snd (gc_b c))]), (''c'', pair (gc_c c))])"

definition withdrawArgs :: "string \<Rightarrow> groth16_calldata \<Rightarrow> string list \<Rightarrow> jsval list" where
  "withdrawArgs to prf pub = [VStr to, calldata_value prf, VArr (map VStr pub)]"

definition withdrawCctpArgs :: "string \<Rightarrow> string \<Rightarrow> int \<Rightarrow> int \<Rightarrow> groth16_calldata \<Rightarrow> string list \<Rightarrow> jsval list" where
  "withdrawCctpArgs to destinationRecipient maxFee minFinalityThreshold prf pub =
    [VStr to, VStr destinationRecipient, big_text maxFee, VNum (NInt minFinalityThreshold), calldata_value prf, VArr (map VStr pub)]"

text \<open>The node's answers: the hash of a broadcast transaction, and its receipt's status (\<open>None\<close>: no receipt).\<close>

record raw_chain =
  rc_send :: "string \<Rightarrow> (string, string) result"
  rc_wait :: "string \<Rightarrow> (string, int option) result"

definition broadcastSignedTx :: "raw_chain \<Rightarrow> string \<Rightarrow> (string, string \<times> string) result" where
  "broadcastSignedTx ch signedRawTx =
    res_bind (rc_send ch signedRawTx) (\<lambda>h.
    res_bind (rc_wait ch h) (\<lambda>receipt.
    case receipt of
      None \<Rightarrow> Throw (''tx '' @ h @ '' did not confirm'')
    | Some st \<Rightarrow> Ok (h, if st = 1 then ''SUCCESS'' else ''FAILED'')))"


section \<open>Transactions a service signs\<close>

text \<open>One attempt: the call throws, waiting for the transaction throws, or there is a receipt (or none).\<close>

datatype arc_attempt = CallThrows string | WaitThrows string string | Waited string "int option"

definition status_text :: "int option \<Rightarrow> string" where
  "status_text st = (case st of None \<Rightarrow> ''undefined'' | Some i \<Rightarrow> int_to_string i)"

fun attempt_outcome :: "arc_attempt \<Rightarrow> (string, string) result" where
  "attempt_outcome (CallThrows e) = Throw e"
| "attempt_outcome (WaitThrows h e) = Throw e"
| "attempt_outcome (Waited h st) = (if st = Some 1 then Ok h else Throw (''tx '' @ h @ '' reverted (status '' @ status_text st @ '')''))"

fun attempt_sent :: "arc_attempt \<Rightarrow> string list" where
  "attempt_sent (CallThrows e) = []"
| "attempt_sent (WaitThrows h e) = [h]"
| "attempt_sent (Waited h st) = [h]"

text \<open>\<open>/nonce|NONCE|rate limit|429|timeout|TIMEOUT|replacement/i\<close>\<close>

definition arc_retryable :: "string \<Rightarrow> bool" where
  "arc_retryable m \<longleftrightarrow> (\<exists>w \<in> set [''nonce'', ''rate limit'', ''429'', ''timeout'', ''replacement'']. sublist w (lower m))"

text \<open>The loop with the attempts left; it returns the outcome (\<open>Throw\<close>: the last error) and the transactions sent.\<close>

fun arc_loop :: "(nat \<Rightarrow> arc_attempt) \<Rightarrow> nat \<Rightarrow> nat \<Rightarrow> (string option, string) result \<times> string list" where
  "arc_loop chain 0 attempt = (Throw None, [])"
| "arc_loop chain (Suc n) attempt =
    (let a = chain (Suc attempt) in
     case attempt_outcome a of
       Inr h \<Rightarrow> (Ok h, attempt_sent a)
     | Inl e \<Rightarrow> if \<not> arc_retryable e \<or> n = 0 then (Throw (Some e), attempt_sent a)
         else case arc_loop chain n (Suc attempt) of (r, sent) \<Rightarrow> (r, attempt_sent a @ sent))"

record arc_result =
  rt_hash :: string
  rt_returnValue :: "jsval option"

text \<open>\<open>hasWallet\<close>: a signing wallet is given; \<open>view\<close>: the answer of a read-only call.\<close>

definition arcInvoke ::
  "(nat \<Rightarrow> arc_attempt) \<Rightarrow> (string, jsval) result \<Rightarrow> string \<Rightarrow> bool \<Rightarrow> bool \<Rightarrow> nat option \<Rightarrow> (string, arc_result) result \<times> string list" where
  "arcInvoke chain view meth hasWallet readOnly retriesOpt =
    (if readOnly then (res_bind view (\<lambda>v. Ok \<lparr> rt_hash = [], rt_returnValue = Some v \<rparr>), [])
     else if \<not> hasWallet then (Throw ''arcInvoke: wallet is required unless readOnly'', [])
     else let retries = or_else retriesOpt 4 in
       case arc_loop chain retries 0 of
         (Inr h, sent) \<Rightarrow> (Ok \<lparr> rt_hash = h, rt_returnValue = None \<rparr>, sent)
       | (Inl e, sent) \<Rightarrow> (Throw (''arcInvoke '' @ meth @ '' failed after '' @ nat_to_string retries @ '' attempts: '' @
           (case e of None \<Rightarrow> ''undefined'' | Some m \<Rightarrow> ''Error: '' @ m)), sent))"


section \<open>Receipts from the escrow\<close>

text \<open>A log: its arguments and its transaction. The queries filter by kind and channel.\<close>

type_synonym escrow_log = "int list \<times> string"

definition opened_event :: "escrow_log \<Rightarrow> channel_event" where
  "opened_event l = ChannelOpened (fst l ! 0) (fst l ! 1) (fst l ! 2) (fst l ! 3) (snd l)"

definition settled_event :: "escrow_log \<Rightarrow> channel_event" where
  "settled_event l = ChannelSettled (fst l ! 0) (fst l ! 1) (fst l ! 2) (fst l ! 3) (snd l)"

definition reclaimed_event :: "escrow_log \<Rightarrow> channel_event" where
  "reclaimed_event l = ChannelReclaimed (fst l ! 0) (fst l ! 1) (fst l ! 2) (snd l)"

record escrow_logs =
  lo_opened :: "int \<Rightarrow> escrow_log list"
  lo_settled :: "int \<Rightarrow> escrow_log list"
  lo_reclaimed :: "int \<Rightarrow> escrow_log list"

definition fetchChannelReceipt :: "escrow_logs \<Rightarrow> int \<Rightarrow> (receipt_error, stream_receipt) result" where
  "fetchChannelReceipt q channelId = reconstructChannelReceipt channelId
     (map opened_event (lo_opened q channelId) @ map settled_event (lo_settled q channelId) @ map reclaimed_event (lo_reclaimed q channelId))"


section \<open>CCTP routes into Arc\<close>

record cctp_source =
  cs_name :: string
  cs_domain :: nat
  cs_rpcUrl :: string

definition CCTP_SOURCES :: "(string \<times> cctp_source) list" where
  "CCTP_SOURCES = [(''baseSepolia'', \<lparr> cs_name = ''Base Sepolia'', cs_domain = 6, cs_rpcUrl = ''https://sepolia.base.org'' \<rparr>),
     (''arbitrumSepolia'', \<lparr> cs_name = ''Arbitrum Sepolia'', cs_domain = 3, cs_rpcUrl = ''https://sepolia-rollup.arbitrum.io/rpc'' \<rparr>),
     (''ethereumSepolia'', \<lparr> cs_name = ''Ethereum Sepolia'', cs_domain = 0, cs_rpcUrl = ''https://ethereum-sepolia-rpc.publicnode.com'' \<rparr>)]"

record inbound_description =
  ib_from :: string
  ib_to :: string
  ib_sourceDomain :: nat
  ib_destinationDomain :: nat
  ib_tokenMessenger :: string
  ib_messageTransmitter :: string
  ib_attestationApi :: string

text \<open>\<open>None\<close>: the key is no source and reading its name throws.\<close>

definition describeInboundRoute :: "string \<Rightarrow> inbound_description option" where
  "describeInboundRoute sourceKey = map_option (\<lambda>src. \<lparr> ib_from = cs_name src, ib_to = ''Arc Testnet'', ib_sourceDomain = cs_domain src,
     ib_destinationDomain = 26, ib_tokenMessenger = ''0x8FE6B999Dc680CcFDD5Bf7EB0974218be2542DAA'',
     ib_messageTransmitter = ''0xE737e5cEBEEBa77EFE34D4aa090756590b1CE275'', ib_attestationApi = ''https://iris-api-sandbox.circle.com'' \<rparr>)
     (map_of CCTP_SOURCES sourceKey)"


section \<open>Stellar transactions\<close>

datatype sc_val = ScAddress string | ScBytes bytes | ScI128 int | ScU32 int

text \<open>The conversions of the Stellar SDK that can throw: an address (checksum) and the two integer types (range).\<close>

record sc_sdk =
  sc_addr :: "string \<Rightarrow> (string, sc_val) result"
  sc_i128 :: "int \<Rightarrow> (string, sc_val) result"
  sc_u32 :: "int \<Rightarrow> (string, sc_val) result"

definition sc_bytes :: "string \<Rightarrow> sc_val" where
  "sc_bytes h = ScBytes (from_hex (if take 2 h = ''0x'' then drop 2 h else h))"

definition withdrawParams :: "sc_sdk \<Rightarrow> string \<Rightarrow> string \<Rightarrow> string \<Rightarrow> (string, sc_val list) result" where
  "withdrawParams sdk to proofHex publicHex = res_bind (sc_addr sdk to) (\<lambda>a. Ok [a, sc_bytes proofHex, sc_bytes publicHex])"

definition withdrawCctpParams :: "sc_sdk \<Rightarrow> string \<Rightarrow> string \<Rightarrow> string \<Rightarrow> int \<Rightarrow> string \<Rightarrow> string \<Rightarrow> int \<Rightarrow> (string, sc_val list) result" where
  "withdrawCctpParams sdk to proofHex publicHex destinationDomain destinationRecipientHex maxFee minFinality =
    res_bind (sc_addr sdk to) (\<lambda>a.
    res_bind (sc_u32 sdk destinationDomain) (\<lambda>d.
    res_bind (case big_int_of_string maxFee of None \<Rightarrow> Throw ''Cannot convert to a BigInt'' | Some f \<Rightarrow> sc_i128 sdk f) (\<lambda>f.
    res_bind (sc_u32 sdk minFinality) (\<lambda>m.
    Ok [a, sc_bytes proofHex, sc_bytes publicHex, d, sc_bytes destinationRecipientHex, f, m]))))"

record invoke_tx =
  it_source :: string
  it_contractId :: string
  it_method :: string
  it_params :: "sc_val list"
  it_timeout :: nat

record stellar_rpc =
  sr_account :: "string \<Rightarrow> (string, unit) result"
  sr_prepare :: "invoke_tx \<Rightarrow> (string, string) result"
  sr_fromXdr :: "string \<Rightarrow> (string, unit) result"
  sr_send :: "string \<Rightarrow> (string, string \<times> string) result"
  sr_get :: "string \<Rightarrow> nat \<Rightarrow> (string, string) result"

definition buildInvokeXdr :: "stellar_rpc \<Rightarrow> string \<Rightarrow> string \<Rightarrow> string \<Rightarrow> sc_val list \<Rightarrow> (string, string) result" where
  "buildInvokeXdr rpc source contractId meth params =
    res_bind (sr_account rpc source) (\<lambda>_.
    sr_prepare rpc \<lparr> it_source = source, it_contractId = contractId, it_method = meth, it_params = params, it_timeout = 120 \<rparr>)"

text \<open>The polling loop: query \<open>i\<close>, with \<open>n\<close> more queries allowed while the transaction is not found.\<close>

fun poll_tx :: "(nat \<Rightarrow> (string, string) result) \<Rightarrow> nat \<Rightarrow> nat \<Rightarrow> (string, string) result \<times> nat" where
  "poll_tx get n i =
    (case get i of
       Inl e \<Rightarrow> (Throw e, i)
     | Inr st \<Rightarrow> if st = ''NOT_FOUND'' then (case n of 0 \<Rightarrow> (Ok st, i) | Suc m \<Rightarrow> poll_tx get m (Suc i)) else (Ok st, i))"

declare poll_tx.simps [simp del]

definition broadcastSignedXdr :: "stellar_rpc \<Rightarrow> string \<Rightarrow> (string, string \<times> string) result" where
  "broadcastSignedXdr rpc signedXdr =
    res_bind (sr_fromXdr rpc signedXdr) (\<lambda>_.
    res_bind (sr_send rpc signedXdr) (\<lambda>(h, sentStatus).
    if sentStatus = ''ERROR'' then Throw ''Soroban sendTransaction error''
    else res_bind (fst (poll_tx (sr_get rpc h) 30 0)) (\<lambda>st.
      if st \<noteq> ''SUCCESS'' then Throw (''tx '' @ h @ '' status '' @ st) else Ok (h, st))))"


section \<open>Lemmas\<close>

definition retried :: "arc_attempt \<Rightarrow> bool" where
  "retried a \<longleftrightarrow> (\<exists>e. attempt_outcome a = Throw e \<and> arc_retryable e)"

text \<open>The loop makes a first run of retried attempts and one last attempt.\<close>

lemma arc_loop_spec:
  assumes "arc_loop chain n attempt = (r, sent)" "n \<noteq> 0"
  obtains k where "attempt < k" "k \<le> attempt + n" "\<forall>i. attempt < i \<and> i < k \<longrightarrow> retried (chain i)"
    "sent = concat (map (\<lambda>i. attempt_sent (chain i)) [Suc attempt..<Suc k])"
    "case attempt_outcome (chain k) of Inr h \<Rightarrow> r = Ok h | Inl e \<Rightarrow> r = Throw (Some e) \<and> (arc_retryable e \<longrightarrow> k = attempt + n)"
proof -
  have "\<exists>k. attempt < k \<and> k \<le> attempt + n \<and> (\<forall>i. attempt < i \<and> i < k \<longrightarrow> retried (chain i)) \<and>
    sent = concat (map (\<lambda>i. attempt_sent (chain i)) [Suc attempt..<Suc k]) \<and>
    (case attempt_outcome (chain k) of Inr h \<Rightarrow> r = Ok h | Inl e \<Rightarrow> r = Throw (Some e) \<and> (arc_retryable e \<longrightarrow> k = attempt + n))"
    using assms
  proof (induction n arbitrary: attempt r sent)
    case (Suc n)
    let ?a = "chain (Suc attempt)"
    show ?case
    proof (cases "n \<noteq> 0 \<and> retried ?a")
      case True
      then obtain e where e: "attempt_outcome ?a = Throw e" "arc_retryable e" unfolding retried_def by blast
      obtain r' sent' where rec: "arc_loop chain n (Suc attempt) = (r', sent')" by fastforce
      have out: "r = r'" "sent = attempt_sent ?a @ sent'" using Suc.prems(1) e True rec by auto
      obtain k where k: "Suc attempt < k" "k \<le> Suc attempt + n" "\<forall>i. Suc attempt < i \<and> i < k \<longrightarrow> retried (chain i)"
        "sent' = concat (map (\<lambda>i. attempt_sent (chain i)) [Suc (Suc attempt)..<Suc k])"
        "case attempt_outcome (chain k) of Inr h \<Rightarrow> r' = Ok h | Inl e \<Rightarrow> r' = Throw (Some e) \<and> (arc_retryable e \<longrightarrow> k = Suc attempt + n)"
        using Suc.IH [OF rec] True by blast
      have "\<forall>i. attempt < i \<and> i < k \<longrightarrow> retried (chain i)" using k(3) True by (metis Suc_lessI)
      moreover have "[Suc attempt..<Suc k] = Suc attempt # [Suc (Suc attempt)..<Suc k]" using k(1) by (simp add: upt_rec)
      moreover have "case attempt_outcome (chain k) of Inr h \<Rightarrow> r' = Ok h | Inl e \<Rightarrow> r' = Throw (Some e) \<and> (arc_retryable e \<longrightarrow> k = attempt + Suc n)"
        using k(5) by (cases "attempt_outcome (chain k)") simp_all
      ultimately show ?thesis unfolding out using k(1,2,4) by (intro exI [of _ k]) (simp del: upt_Suc)
    next
      case False
      have "(case attempt_outcome ?a of Inr h \<Rightarrow> r = Ok h | Inl e \<Rightarrow> r = Throw (Some e)) \<and> sent = attempt_sent ?a"
        using Suc.prems(1) False unfolding retried_def by (auto simp: Let_def split: sum.splits)
      moreover have "attempt_outcome ?a = Inl e \<Longrightarrow> arc_retryable e \<Longrightarrow> n = 0" for e using False unfolding retried_def by blast
      ultimately show ?thesis by (intro exI [of _ "Suc attempt"]) (auto split: sum.splits)
    qed
  qed simp
  then show thesis using that by blast
qed

lemma attempt_sent_length: "length (attempt_sent a) \<le> 1"
  by (cases a) simp_all

lemma sent_length: "length (concat (map (\<lambda>i. attempt_sent (chain i)) ks)) \<le> length ks"
proof (induction ks)
  case (Cons i ks)
  then show ?case using attempt_sent_length [of "chain i"] by simp
qed simp

lemma attempt_ok: "attempt_outcome a = Inr h \<Longrightarrow> a = Waited h (Some 1)"
  by (cases a) (auto split: if_splits)

lemma poll_tx_spec: "poll_tx get n i = (r, k) \<Longrightarrow> i \<le> k \<and> k \<le> i + n \<and> r = get k \<and> (\<forall>j. i \<le> j \<and> j < k \<longrightarrow> get j = Ok ''NOT_FOUND'')"
proof (induction n arbitrary: i)
  case 0
  then show ?case by (subst (asm) poll_tx.simps) (auto split: sum.splits if_splits)
next
  case (Suc n)
  show ?case
  proof (cases "get i = Ok ''NOT_FOUND''")
    case True
    then have "poll_tx get n (Suc i) = (r, k)" using Suc.prems by (subst (asm) poll_tx.simps) simp
    from Suc.IH [OF this] True show ?thesis by (auto simp: less_eq_Suc_le[symmetric]) (metis le_neq_implies_less Suc_leI)
  next
    case False
    then have "r = get i \<and> k = i" using Suc.prems by (subst (asm) poll_tx.simps) (auto split: sum.splits if_splits)
    then show ?thesis by auto
  qed
qed

lemma first_of_append: "find_first p (xs @ ys) = (case find_first p xs of None \<Rightarrow> find_first p ys | Some x \<Rightarrow> Some x)"
  by (induction xs) simp_all

lemma option_id: "(case x of None \<Rightarrow> None | Some y \<Rightarrow> Some y) = x"
  by (cases x) simp_all

lemma find_first_never: "(\<And>x. \<not> p x) \<Longrightarrow> find_first p xs = None"
  by (induction xs) simp_all

lemma first_of_filter: "find_first p (filter q xs) = find_first (\<lambda>x. q x \<and> p x) xs"
  by (induction xs) auto


section \<open>Properties\<close>

text \<open>A call a service signs makes at most \<open>retries\<close> attempts and sends at most one transaction per attempt; every attempt
  but the last failed with an error the pattern takes for transient. It succeeds exactly with the hash of a last
  transaction whose receipt has status 1.\<close>

theorem arc_invoke_outcome:
  assumes "or_else retries 4 \<noteq> 0" "arcInvoke chain view meth True False retries = (r, sent)"
  shows "\<exists>k. 1 \<le> k \<and> k \<le> or_else retries 4 \<and> (\<forall>i. 0 < i \<and> i < k \<longrightarrow> retried (chain i)) \<and>
    sent = concat (map (\<lambda>i. attempt_sent (chain i)) [1..<Suc k]) \<and> length sent \<le> k \<and>
    (\<forall>v. r = Ok v \<longrightarrow> chain k = Waited (rt_hash v) (Some 1) \<and> sent \<noteq> [] \<and> last sent = rt_hash v) \<and>
    (\<forall>e. r = Throw e \<longrightarrow> (\<exists>m. attempt_outcome (chain k) = Throw m \<and> (arc_retryable m \<longrightarrow> k = or_else retries 4)))"
proof -
  obtain r' s' where l: "arc_loop chain (or_else retries 4) 0 = (r', s')" by fastforce
  obtain k where k: "0 < k" "k \<le> 0 + or_else retries 4" "\<forall>i. 0 < i \<and> i < k \<longrightarrow> retried (chain i)"
    "s' = concat (map (\<lambda>i. attempt_sent (chain i)) [Suc 0..<Suc k])"
    "case attempt_outcome (chain k) of Inr h \<Rightarrow> r' = Ok h | Inl e \<Rightarrow> r' = Throw (Some e) \<and> (arc_retryable e \<longrightarrow> k = 0 + or_else retries 4)"
    by (rule arc_loop_spec [OF l assms(1)])
  have s: "sent = s'" using assms(2) l by (auto simp: arcInvoke_def Let_def split: sum.splits)
  have len: "length sent \<le> k" using sent_length [of chain "[Suc 0..<Suc k]"] k(1,4) s by (simp del: upt_Suc)
  have upt: "[Suc 0..<Suc k] = [Suc 0..<k] @ [k]" using k(1) by simp
  show ?thesis
  proof (cases "attempt_outcome (chain k)")
    case (Inr h)
    have "r = Ok \<lparr> rt_hash = h, rt_returnValue = None \<rparr>" using assms(2) l k(5) Inr by (simp add: arcInvoke_def Let_def)
    moreover have "last sent = h" "sent \<noteq> []" using attempt_ok [OF Inr] k(4) s upt by simp_all
    ultimately show ?thesis using k s len attempt_ok [OF Inr] by (intro exI [of _ k]) auto
  next
    case (Inl m)
    have "\<exists>e. r = Throw e" using assms(2) l k(5) Inl by (auto simp: arcInvoke_def Let_def)
    then show ?thesis using k s len Inl by (intro exI [of _ k]) auto
  qed
qed

text \<open>A node that accepts the first transaction but times out while it is waited for, and confirms the second.\<close>

definition demo_chain :: "nat \<Rightarrow> arc_attempt" where
  "demo_chain n = (if n = 1 then WaitThrows ''0xaa'' ''request timeout'' else Waited ''0xbb'' (Some 1))"

theorem arc_invoke_outcome_witness:
  "\<exists>r. arcInvoke demo_chain (Throw []) ''rfqSettle'' True False None = (Ok r, [''0xaa'', ''0xbb'']) \<and> rt_hash r = ''0xbb''"
proof -
  have t: "arc_retryable ''request timeout''" by code_simp
  obtain r sent where a: "arcInvoke demo_chain (Throw []) ''rfqSettle'' True False None = (r, sent)" by fastforce
  have "r = Ok \<lparr> rt_hash = ''0xbb'', rt_returnValue = None \<rparr>" "sent = [''0xaa'', ''0xbb'']"
    using a t by (simp_all add: arcInvoke_def or_else_def demo_chain_def numeral_eq_Suc Let_def)
  moreover have "last sent = ''0xbb''"
    using arc_invoke_outcome [of None demo_chain "Throw []" "''rfqSettle''" r sent] a calculation(1) by (auto simp: or_else_def)
  ultimately show ?thesis using a by simp
qed

text \<open>A receipt fetched from the escrow by kind is the receipt of the escrow's chronological log: the queries return the logs
  of their kind for the channel in order, and the reconstruction does not depend on how the kinds interleave.\<close>

theorem fetched_receipt_is_chain_receipt:
  assumes "map opened_event (lo_opened q ch) = filter is_ChannelOpened (events_of ch evs)"
    and "map settled_event (lo_settled q ch) = filter is_ChannelSettled (events_of ch evs)"
    and "map reclaimed_event (lo_reclaimed q ch) = filter is_ChannelReclaimed (events_of ch evs)"
  shows "fetchChannelReceipt q ch = reconstructChannelReceipt ch evs"
proof -
  let ?xs = "filter is_ChannelOpened (events_of ch evs) @ filter is_ChannelSettled (events_of ch evs) @ filter is_ChannelReclaimed (events_of ch evs)"
  have ch: "events_of ch ?xs = ?xs" by (intro filter_True) auto
  have none: "find_first p (filter q (events_of ch evs)) = None" if "\<And>e. \<not> (q e \<and> p e)" for p q
    using that by (simp add: first_of_filter find_first_never)
  have same: "find_first p (filter p (events_of ch evs)) = find_first p (events_of ch evs)" for p
    by (simp add: first_of_filter)
  have o: "find_first is_ChannelOpened ?xs = find_first is_ChannelOpened (events_of ch evs)"
    unfolding first_of_append same by (subst (1 2) none) (auto simp: option_id is_ChannelOpened_def cong: option.case_cong)
  have s: "find_first is_ChannelSettled ?xs = find_first is_ChannelSettled (events_of ch evs)"
    unfolding first_of_append same by (subst (1 2) none) (auto simp: option_id is_ChannelSettled_def)
  have r: "find_first is_ChannelReclaimed ?xs = find_first is_ChannelReclaimed (events_of ch evs)"
    unfolding first_of_append same by (subst (1 2) none) (auto simp: option_id is_ChannelReclaimed_def)
  show ?thesis unfolding fetchChannelReceipt_def assms reconstructChannelReceipt_def ch Let_def o s r ..
qed

text \<open>A channel opened and settled, with another channel's logs in between.\<close>

definition demo_events :: "channel_event list" where
  "demo_events = [ChannelOpened 7 100 50 11 ''0xa'', ChannelOpened 8 60 50 12 ''0xb'', ChannelSettled 7 30 21 22 ''0xc'']"

definition demo_logs :: escrow_logs where
  "demo_logs = \<lparr> lo_opened = (\<lambda>c. if c = 7 then [([7, 100, 50, 11], ''0xa'')] else if c = 8 then [([8, 60, 50, 12], ''0xb'')] else []),
     lo_settled = (\<lambda>c. if c = 7 then [([7, 30, 21, 22], ''0xc'')] else []), lo_reclaimed = (\<lambda>c. []) \<rparr>"

theorem fetched_receipt_is_chain_receipt_witness:
  "\<exists>v. fetchChannelReceipt demo_logs 7 = Ok v \<and> sr_cap v = 100 \<and> sr_gross v = 30 \<and> sr_closeTxHash v = Some ''0xc''"
proof -
  have "fetchChannelReceipt demo_logs 7 = reconstructChannelReceipt 7 demo_events"
    by (rule fetched_receipt_is_chain_receipt)
      (simp_all add: demo_logs_def demo_events_def opened_event_def settled_event_def numeral_eq_Suc)
  then show ?thesis by (simp add: reconstructChannelReceipt_def demo_events_def Let_def)
qed

end
