(* ===== verification/Solver.thy ===== *)
theory Solver
  imports Relayer Soroban
begin

text \<open>
  The solver service, \<open>apps/solver/src/server.ts\<close>, with \<open>erc20Balance\<close> of \<open>packages/evm-utils/src/index.ts\<close>: inventory, quotes
  signed with the solver's Stellar key, and fills paid from its Arbitrum wallet. The token contract and the node are a
  parameter over a type of chain states; a thrown error is the pair of its status code and message (500 when it has none).
\<close>

section \<open>Environment and inventory\<close>

text \<open>What ethers and the token answer: a wallet's address (\<open>None\<close>: malformed key), a balance with the token's decimals, and a
  transfer with the hash of its receipt. The transfer's recipient and amount come from the request as they are.\<close>

record 's token =
  tk_address :: "string \<Rightarrow> string option"
  tk_balance :: "'s \<Rightarrow> string \<Rightarrow> (string, int) result"
  tk_decimals :: "'s \<Rightarrow> (string, nat) result"
  tk_transfer :: "'s \<Rightarrow> string \<Rightarrow> jsval \<Rightarrow> int \<Rightarrow> (string, string) result \<times> 's"

record 's solver_world =
  sv_env :: env_map
  sv_token :: "'s token"
  sv_sha :: sha_fun
  sv_coll :: collation
  sv_keys :: stellar_keys

definition env_text :: "env_map \<Rightarrow> string \<Rightarrow> string" where
  "env_text env k = (case env k of None \<Rightarrow> [] | Some v \<Rightarrow> v)"

definition missing_env :: "env_map \<Rightarrow> string list \<Rightarrow> string list" where
  "missing_env env ks = filter (\<lambda>k. \<not> set_env env k) ks"

fun comma_list :: "string list \<Rightarrow> string" where
  "comma_list [] = []"
| "comma_list [s] = s"
| "comma_list (s # t # ss) = s @ '', '' @ comma_list (t # ss)"

definition requireEnv :: "env_map \<Rightarrow> string list \<Rightarrow> (api_err, unit) result" where
  "requireEnv env ks =
    (if missing_env env ks \<noteq> [] then Throw (503, ''solver env required: '' @ comma_list (missing_env env ks)) else Ok ())"

definition thrown :: "(string, 'a) result \<Rightarrow> (api_err, 'a) result" where
  "thrown r = (case r of Inl e \<Rightarrow> Throw (500, e) | Inr x \<Rightarrow> Ok x)"

text \<open>\<open>erc20Balance\<close>; the formatted amount is not used by its callers.\<close>

definition erc20Balance :: "'s token \<Rightarrow> 's \<Rightarrow> string \<Rightarrow> (string, int \<times> nat) result" where
  "erc20Balance tok s owner = res_bind (tk_balance tok s owner) (\<lambda>raw. res_bind (tk_decimals tok s) (\<lambda>decimals. Ok (raw, decimals)))"

definition solver_address :: "'s solver_world \<Rightarrow> (string, string) result" where
  "solver_address w = (case tk_address (sv_token w) (env_text (sv_env w) ''ARB_SOLVER_PRIVATE_KEY'') of
     None \<Rightarrow> Throw ''invalid private key'' | Some a \<Rightarrow> Ok a)"

definition arbInventory :: "'s solver_world \<Rightarrow> 's \<Rightarrow> (string, string \<times> int) result" where
  "arbInventory w s = res_bind (solver_address w) (\<lambda>a. res_bind (erc20Balance (sv_token w) s a) (\<lambda>(raw, _). Ok (a, raw)))"

definition solver_id :: "env_map \<Rightarrow> string" where
  "solver_id env = ''stellar:'' @ env_text env ''STELLAR_SOLVER_PUBLIC''"

record inventory_reply =
  iv_solver_id :: string
  iv_arbitrum_address :: string
  iv_arbitrum_usdc_6dp :: string

definition get_inventory :: "'s solver_world \<Rightarrow> 's \<Rightarrow> (api_err, inventory_reply) result" where
  "get_inventory w s =
    res_bind (requireEnv (sv_env w) [''ARB_SOLVER_PRIVATE_KEY'', ''ARB_SEPOLIA_RPC_URL'', ''ARB_SEPOLIA_USDC_ADDRESS'', ''STELLAR_SOLVER_PUBLIC'']) (\<lambda>_.
    res_bind (thrown (arbInventory w s)) (\<lambda>(a, usdc6).
    Ok \<lparr> iv_solver_id = solver_id (sv_env w), iv_arbitrum_address = a, iv_arbitrum_usdc_6dp = int_to_string usdc6 \<rparr>))"


section \<open>Quotes\<close>

text \<open>Reading a member of \<open>null\<close> or \<open>undefined\<close> throws; \<open>x ?? d\<close>.\<close>

definition read_body :: "jsval \<Rightarrow> (api_err, jsval) result" where
  "read_body b = (if b = VUndef \<or> b = VNull then Throw (500, ''Cannot read properties'') else Ok b)"

definition nullish :: "jsval \<Rightarrow> jsval \<Rightarrow> jsval" where
  "nullish v d = (if v = VUndef \<or> v = VNull then d else v)"

record quote_reply =
  qr_quote :: rfq_quote
  qr_quote_hash :: string
  qr_solver_pubkey :: string
  qr_solver_sig :: string
  qr_fill_amount_6dp :: string

definition inventory_commitment :: "sha_fun \<Rightarrow> string \<Rightarrow> int \<Rightarrow> string" where
  "inventory_commitment sha a usdc6 = to_hex (sha (utf8 (a @ '':'' @ int_to_string usdc6)))"

definition build_quote :: "'s solver_world \<Rightarrow> string \<Rightarrow> jsval \<Rightarrow> string \<Rightarrow> int \<Rightarrow> int \<Rightarrow> int \<Rightarrow> int \<Rightarrow> rfq_quote" where
  "build_quote w uuid intent a usdc6 gross7 net7 fee7 =
    \<lparr> rq_quote_id = uuid, rq_intent_hash = to_String (nullish (field intent ''intent_hash'') (VStr [])), rq_solver_id = solver_id (sv_env w),
      rq_input_asset = ''USDC:Stellar:SAC'', rq_output_asset = ''USDC:ArbitrumSepolia'', rq_gross_input = usdc7ToDecimal gross7,
      rq_net_output = usdc7ToDecimal net7, rq_fee = usdc7ToDecimal fee7,
      rq_valid_until_ledger = to_Number (nullish (field intent ''expiry_ledger'') (VNum (NInt 999999999))),
      rq_solver_inventory_commitment = inventory_commitment (sv_sha w) a usdc6 \<rparr>"

definition fee_bps :: "env_map \<Rightarrow> jsnum" where
  "fee_bps env = number_of_string (case env ''RFQ_FEE_BPS'' of None \<Rightarrow> ''50'' | Some v \<Rightarrow> v)"

definition insufficient_inventory :: "int \<Rightarrow> int \<Rightarrow> string" where
  "insufficient_inventory have6 need6 = ''insufficient inventory: have '' @ int_to_string have6 @ '' (6dp), need '' @ int_to_string need6"

definition post_quote :: "'s solver_world \<Rightarrow> string \<Rightarrow> jsval \<Rightarrow> 's \<Rightarrow> (api_err, quote_reply) result" where
  "post_quote w uuid body s =
    res_bind (requireEnv (sv_env w) [''ARB_SOLVER_PRIVATE_KEY'', ''ARB_SEPOLIA_RPC_URL'', ''ARB_SEPOLIA_USDC_ADDRESS'', ''STELLAR_SOLVER_SECRET'', ''STELLAR_SOLVER_PUBLIC'']) (\<lambda>_.
    res_bind (thrown (arbInventory w s)) (\<lambda>(a, usdc6).
    res_bind (read_body body) (\<lambda>intent.
    res_bind (thrown (BigInt_of (to_String (nullish (field intent ''amount'') (VStr ''0''))))) (\<lambda>gross7.
    if gross7 \<le> 0 then Throw (400, ''intent amount required (7dp)'')
    else res_bind (thrown (priceQuote gross7 (fee_bps (sv_env w)))) (\<lambda>(net7, fee7).
      let fillAmount6 = js_div net7 10 in
      if usdc6 < fillAmount6 then Throw (409, insufficient_inventory usdc6 fillAmount6)
      else let q = build_quote w uuid intent a usdc6 gross7 net7 fee7; qHash = quoteHash (sv_sha w) (sv_coll w) q in
        res_bind (thrown (signQuoteStellar (sv_keys w) qHash (env_text (sv_env w) ''STELLAR_SOLVER_SECRET''))) (\<lambda>(sig, pubkey).
        Ok \<lparr> qr_quote = q, qr_quote_hash = qHash, qr_solver_pubkey = pubkey, qr_solver_sig = sig, qr_fill_amount_6dp = int_to_string fillAmount6 \<rparr>))))))"


section \<open>Fills\<close>

record fill_reply =
  fr_fill_tx_hash :: string
  fr_fill_receipt_hash :: string
  fr_amount_6dp :: string
  fr_recipient :: jsval

definition fill_refusal :: "int \<Rightarrow> int \<Rightarrow> string" where
  "fill_refusal bal need = ''insufficient inventory: have '' @ int_to_string bal @ '', need '' @ int_to_string need"

definition fill_request :: "'s solver_world \<Rightarrow> jsval \<Rightarrow> 's \<Rightarrow> (api_err, string \<times> jsval \<times> int) result" where
  "fill_request w body0 s =
    res_bind (requireEnv (sv_env w) [''ARB_SOLVER_PRIVATE_KEY'', ''ARB_SEPOLIA_RPC_URL'', ''ARB_SEPOLIA_USDC_ADDRESS'']) (\<lambda>_.
    res_bind (read_body body0) (\<lambda>body.
    if \<not> truthy (field body ''recipient'') \<or> \<not> truthy (field body ''amount_6dp'') then Throw (400, ''recipient and amount_6dp required'')
    else res_bind (thrown (solver_address w)) (\<lambda>a.
      res_bind (case to_BigInt (field body ''amount_6dp'') of None \<Rightarrow> Throw (500, ''Cannot convert to a BigInt'') | Some n \<Rightarrow> Ok n) (\<lambda>amount6.
      res_bind (thrown (tk_balance (sv_token w) s a)) (\<lambda>bal.
      if bal < amount6 then Throw (409, fill_refusal bal amount6) else Ok (a, field body ''recipient'', amount6))))))"

definition post_fill :: "'s solver_world \<Rightarrow> jsval \<Rightarrow> 's \<Rightarrow> (api_err, fill_reply) result \<times> 's" where
  "post_fill w body s =
    (case fill_request w body s of
       Inl e \<Rightarrow> (Throw e, s)
     | Inr (a, recipient, amount6) \<Rightarrow>
        (case tk_transfer (sv_token w) s a recipient amount6 of
           (Inl e, s') \<Rightarrow> (Throw (500, e), s')
         | (Inr h, s') \<Rightarrow> (Ok \<lparr> fr_fill_tx_hash = h, fr_fill_receipt_hash = to_hex (sv_sha w (utf8 h)),
             fr_amount_6dp = int_to_string amount6, fr_recipient = recipient \<rparr>, s')))"


section \<open>Lemmas\<close>

lemma thrown_Ok [simp]: "thrown r = Ok x \<longleftrightarrow> r = Ok x"
  by (cases r) (simp_all add: thrown_def)

lemma arbInventory_Ok: "arbInventory w s = Ok (a, b) \<Longrightarrow> solver_address w = Ok a \<and> tk_balance (sv_token w) s a = Ok b"
  by (auto simp: arbInventory_def erc20Balance_def res_bind_eq_Inr)

lemma post_quote_Ok:
  assumes "post_quote w uuid body s = Ok r"
  obtains a usdc6 gross net fee where
    "arbInventory w s = Ok (a, usdc6)" "0 < gross" "big_int_of_string (to_String (nullish (field body ''amount'') (VStr ''0''))) = Some gross"
    "priceQuote gross (fee_bps (sv_env w)) = Ok (net, fee)" "js_div net 10 \<le> usdc6" "qr_quote r = build_quote w uuid body a usdc6 gross net fee"
    "qr_quote_hash r = quoteHash (sv_sha w) (sv_coll w) (qr_quote r)"
    "signQuoteStellar (sv_keys w) (qr_quote_hash r) (env_text (sv_env w) ''STELLAR_SOLVER_SECRET'') = Ok (qr_solver_sig r, qr_solver_pubkey r)"
    "qr_fill_amount_6dp r = int_to_string (js_div net 10)"
proof -
  from assms show thesis
    unfolding post_quote_def Let_def BigInt_of_def read_body_def
    by (auto simp: res_bind_eq_Inr split: if_splits option.splits) (rule that, auto)
qed

lemma fill_request_Ok:
  assumes "fill_request w body s = Ok (a, rcp, n)"
  obtains bal where "solver_address w = Ok a" "rcp = field body ''recipient''" "to_BigInt (field body ''amount_6dp'') = Some n"
    "tk_balance (sv_token w) s a = Ok bal" "n \<le> bal"
proof -
  from assms show thesis
    unfolding fill_request_def Let_def read_body_def by (auto simp: res_bind_eq_Inr split: if_splits option.splits intro: that)
qed

text \<open>A fill of the amount of a quote, written as the reply has it.\<close>

definition fill_body :: "jsval \<Rightarrow> quote_reply \<Rightarrow> jsval" where
  "fill_body recipient q = VObj [(''recipient'', recipient), (''amount_6dp'', VStr (qr_fill_amount_6dp q))]"

lemma int_to_string_not_Nil [simp]: "int_to_string i \<noteq> []"
  by (metis int_to_string_def list.distinct(1) nat_to_string_not_Nil)

lemma fill_of_quote:
  assumes "qr_fill_amount_6dp q = int_to_string f" "truthy rcp"
    and "missing_env (sv_env w) [''ARB_SOLVER_PRIVATE_KEY'', ''ARB_SEPOLIA_RPC_URL'', ''ARB_SEPOLIA_USDC_ADDRESS''] = []"
    and "solver_address w = Ok a" "tk_balance (sv_token w) s a = Ok bal"
  shows "fill_request w (fill_body rcp q) s = (if bal < f then Throw (409, fill_refusal bal f) else Ok (a, rcp, f))"
  using assms by (simp add: fill_request_def requireEnv_def read_body_def fill_body_def thrown_def)

lemma quote_env:
  assumes "post_quote w uuid body s = Ok r"
  shows "missing_env (sv_env w) [''ARB_SOLVER_PRIVATE_KEY'', ''ARB_SEPOLIA_RPC_URL'', ''ARB_SEPOLIA_USDC_ADDRESS''] = []"
  using assms unfolding post_quote_def by (auto simp: res_bind_eq_Inr requireEnv_def missing_env_def split: if_splits)

lemma js_div_10:
  assumes "0 \<le> (n :: int)"
  shows "10 * js_div n 10 \<le> n" "n < 10 * js_div n 10 + 10" "0 \<le> js_div n 10"
  using assms by simp_all


section \<open>Properties\<close>

text \<open>A quote the solver returns is covered and signed. The payout is the net amount at six decimals, rounded down by less than
  one unit, and does not exceed the solver's balance; net and fee add up to the amount asked for; the hash is that of the
  returned quote and the signature is the solver key's over the digest itself.\<close>

theorem solver_quote_covered_and_signed:
  assumes "post_quote w uuid body s = Ok r" "fee_bps (sv_env w) = NInt bps" "0 \<le> bps" "bps \<le> 10000"
  shows "\<exists>a have6 gross net fee fill6. solver_address w = Ok a \<and> tk_balance (sv_token w) s a = Ok have6 \<and> fill6 \<le> have6 \<and>
    big_int_of_string (to_String (nullish (field body ''amount'') (VStr ''0''))) = Some gross \<and> 0 < gross \<and> net + fee = gross \<and> 0 \<le> fee \<and>
    10 * fill6 \<le> net \<and> net < 10 * fill6 + 10 \<and> qr_fill_amount_6dp r = int_to_string fill6 \<and>
    rq_gross_input (qr_quote r) = usdc7ToDecimal gross \<and> rq_net_output (qr_quote r) = usdc7ToDecimal net \<and> rq_fee (qr_quote r) = usdc7ToDecimal fee \<and>
    qr_quote_hash r = quoteHash (sv_sha w) (sv_coll w) (qr_quote r) \<and>
    qr_solver_sig r = to_hex (ky_sign (sv_keys w) (env_text (sv_env w) ''STELLAR_SOLVER_SECRET'')
      (sv_sha w (utf8 (stableStringify (sv_coll w) (quote_value (qr_quote r))))))"
proof -
  obtain a usdc6 gross net fee where q: "arbInventory w s = Ok (a, usdc6)" "0 < gross"
    "big_int_of_string (to_String (nullish (field body ''amount'') (VStr ''0''))) = Some gross"
    "priceQuote gross (fee_bps (sv_env w)) = Ok (net, fee)" "js_div net 10 \<le> usdc6" "qr_quote r = build_quote w uuid body a usdc6 gross net fee"
    "qr_quote_hash r = quoteHash (sv_sha w) (sv_coll w) (qr_quote r)"
    "signQuoteStellar (sv_keys w) (qr_quote_hash r) (env_text (sv_env w) ''STELLAR_SOLVER_SECRET'') = Ok (qr_solver_sig r, qr_solver_pubkey r)"
    "qr_fill_amount_6dp r = int_to_string (js_div net 10)" by (rule post_quote_Ok [OF assms(1)])
  have p: "net + fee = gross" "0 \<le> fee" "fee \<le> gross"
    using priceQuote_split [of gross bps] q(2,4) assms(2-4) by auto
  then have n: "0 \<le> net" by simp
  have inv: "solver_address w = Ok a" "tk_balance (sv_token w) s a = Ok usdc6" using arbInventory_Ok [OF q(1)] by simp_all
  have sig: "qr_solver_sig r = to_hex (ky_sign (sv_keys w) (env_text (sv_env w) ''STELLAR_SOLVER_SECRET'')
      (sv_sha w (utf8 (stableStringify (sv_coll w) (quote_value (qr_quote r))))))"
    using q(8) unfolding q(7) signQuoteStellar_def quoteHash_def sha256_hex_def Quotes.strip0x_def by (auto split: option.splits)
  have texts: "rq_gross_input (qr_quote r) = usdc7ToDecimal gross" "rq_net_output (qr_quote r) = usdc7ToDecimal net" "rq_fee (qr_quote r) = usdc7ToDecimal fee"
    by (simp_all add: q(6) build_quote_def)
  show ?thesis
    by (rule exI [of _ a], rule exI [of _ usdc6], rule exI [of _ gross], rule exI [of _ net], rule exI [of _ fee], rule exI [of _ "js_div net 10"])
      (intro conjI inv q(5,3,2) p(1,2) js_div_10 [OF n] q(9) texts q(7) sig)
qed

text \<open>A solver with 15 units at six decimals, asked twice for 100 units at seven.\<close>

definition demo_token :: "int token" where
  "demo_token = \<lparr> tk_address = (\<lambda>_. Some ''0xS''), tk_balance = (\<lambda>s _. Ok s), tk_decimals = (\<lambda>_. Ok 6),
     tk_transfer = (\<lambda>s _ _ n. (Ok ''0xfi'', s - n)) \<rparr>"

definition demo_solver :: "int solver_world" where
  "demo_solver = \<lparr> sv_env = (\<lambda>k. if k = ''RFQ_FEE_BPS'' then None else Some ''x''), sv_token = demo_token, sv_sha = id,
     sv_coll = (\<lambda>k. map of_char k), sv_keys = \<lparr> ky_public = (\<lambda>_. Some []), ky_sign = (\<lambda>_ b. b) \<rparr> \<rparr>"

definition demo_ask :: jsval where
  "demo_ask = VObj [(''amount'', VStr ''100'')]"

lemma demo_fee: "fee_bps (sv_env demo_solver) = NInt 50"
  unfolding demo_solver_def fee_bps_def by code_simp

lemma demo_amount: "big_int_of_string ''100'' = Some 100"
  by code_simp

lemma demo_inventory: "arbInventory demo_solver 15 = Ok (''0xS'', 15)"
  by (simp add: arbInventory_def solver_address_def erc20Balance_def demo_solver_def demo_token_def)

lemma demo_post_quote:
  obtains q where "post_quote demo_solver u demo_ask 15 = Ok q" "qr_fill_amount_6dp q = int_to_string 10"
proof -
  have env: "requireEnv (sv_env demo_solver) ks = Ok ()" if "''RFQ_FEE_BPS'' \<notin> set ks" for ks
    using that by (auto simp: requireEnv_def missing_env_def set_env_def demo_solver_def filter_empty_conv)
  have price: "priceQuote 100 (NInt 50) = Ok (100, 0)" by (simp add: priceQuote_def)
  have sig: "signQuoteStellar (sv_keys demo_solver) h k = Ok (to_hex (from_hex (Quotes.strip0x h)), to_hex [])" for h k
    by (simp add: signQuoteStellar_def demo_solver_def)
  have "\<exists>q. post_quote demo_solver u demo_ask 15 = Ok q \<and> qr_fill_amount_6dp q = int_to_string 10"
    by (simp add: post_quote_def env demo_inventory demo_fee thrown_def read_body_def demo_ask_def nullish_def BigInt_of_def
      demo_amount price sig Let_def)
  then show thesis using that by blast
qed

theorem solver_quote_covered_and_signed_witness:
  "\<exists>q fill6. post_quote demo_solver ''u'' demo_ask 15 = Ok q \<and> qr_fill_amount_6dp q = int_to_string fill6 \<and> fill6 \<le> 15"
proof -
  obtain q where q: "post_quote demo_solver ''u'' demo_ask 15 = Ok q" by (rule demo_post_quote)
  have "tk_balance (sv_token demo_solver) 15 a = Ok 15" for a by (simp add: demo_solver_def demo_token_def)
  then show ?thesis using solver_quote_covered_and_signed [OF q demo_fee] q by auto
qed

text \<open>A quote reserves nothing. When two quotes are each covered by the balance but not together, paying the first makes the solver
  refuse the second it has signed, with the chain unchanged, for a token whose transfer takes the amount from the sender.\<close>

theorem solver_quotes_do_not_reserve:
  assumes "post_quote w u1 b1 s = Ok q1" "post_quote w u2 b2 s = Ok q2"
    and "qr_fill_amount_6dp q1 = int_to_string f1" "qr_fill_amount_6dp q2 = int_to_string f2"
    and "arbInventory w s = Ok (a, bal)" "bal < f1 + f2" "truthy rcp1" "truthy rcp2"
    and "post_fill w (fill_body rcp1 q1) s = (Ok rep, s')"
    and "\<And>h s'. tk_transfer (sv_token w) s a rcp1 f1 = (Ok h, s') \<Longrightarrow> tk_balance (sv_token w) s' a = Ok (bal - f1)"
  shows "post_fill w (fill_body rcp2 q2) s' = (Throw (409, fill_refusal (bal - f1) f2), s')"
proof -
  note env = quote_env [OF assms(1)]
  have inv: "solver_address w = Ok a" "tk_balance (sv_token w) s a = Ok bal" using arbInventory_Ok [OF assms(5)] by simp_all
  have "tk_transfer (sv_token w) s a rcp1 f1 = (Ok (fr_fill_tx_hash rep), s')"
    using assms(9) fill_of_quote [OF assms(3,7) env inv]
    by (auto simp: post_fill_def split: if_splits prod.splits sum.splits)
  then have bal': "tk_balance (sv_token w) s' a = Ok (bal - f1)" by (rule assms(10))
  show ?thesis using fill_of_quote [OF assms(4,8) env inv(1) bal'] assms(6) by (simp add: post_fill_def)
qed

theorem solver_quotes_do_not_reserve_witness:
  "\<exists>q1 q2 rep. post_quote demo_solver ''u'' demo_ask 15 = Ok q1 \<and> post_quote demo_solver ''v'' demo_ask 15 = Ok q2 \<and>
    post_fill demo_solver (fill_body (VStr ''0xA'') q1) 15 = (Ok rep, 5) \<and>
    post_fill demo_solver (fill_body (VStr ''0xB'') q2) 5 = (Throw (409, fill_refusal 5 10), 5)"
proof -
  obtain q1 where q1: "post_quote demo_solver ''u'' demo_ask 15 = Ok q1" "qr_fill_amount_6dp q1 = int_to_string 10" by (rule demo_post_quote)
  obtain q2 where q2: "post_quote demo_solver ''v'' demo_ask 15 = Ok q2" "qr_fill_amount_6dp q2 = int_to_string 10" by (rule demo_post_quote)
  have tr: "tk_transfer (sv_token demo_solver) 15 ''0xS'' r 10 = (Ok ''0xfi'', 5)" "tk_balance (sv_token demo_solver) s a = Ok s" for r s a
    by (simp_all add: demo_solver_def demo_token_def)
  have "fill_request demo_solver (fill_body (VStr ''0xA'') q1) 15 = Ok (''0xS'', VStr ''0xA'', 10)"
    using fill_of_quote [OF q1(2) _ quote_env [OF q1(1)], of "VStr ''0xA''"] arbInventory_Ok [OF demo_inventory] by simp
  then obtain rep where f: "post_fill demo_solver (fill_body (VStr ''0xA'') q1) 15 = (Ok rep, 5)" by (simp add: post_fill_def tr)
  have "post_fill demo_solver (fill_body (VStr ''0xB'') q2) 5 = (Throw (409, fill_refusal (15 - 10) 10), 5)"
    by (rule solver_quotes_do_not_reserve [OF q1(1) q2(1) q1(2) q2(2) demo_inventory _ _ _ f]) (auto simp: tr)
  then show ?thesis using q1(1) q2(1) f by simp
qed

end
