(* ===== verification/StellarProofs.thy ===== *)
theory StellarProofs
  imports ProverWorker Merkle
begin

text \<open>
  The remaining BLS12-381 builders of \<open>packages/proving/src\<close>: \<open>mpc-settlement.ts\<close> (two notes of one asset), \<open>mpc-priced.ts\<close> (two
  notes of different assets at a price) and \<open>compliance.ts\<close> (membership in the allow tree, absence from the deny tree), and the
  constraints of \<open>circuits/compliance_membership/main.circom\<close>. They run on the files and programs of the prover.
\<close>

section \<open>Programs and files\<close>

text \<open>The circuit directories, and the 31 bytes of the \<open>n\<close>-th random draw.\<close>

record mpc_tools = tool_lib +
  mt_settlementDir :: string
  mt_pricedDir :: string
  mt_complianceDir :: string
  mt_random :: "nat \<Rightarrow> bytes"

definition has_files :: "string \<Rightarrow> string list \<Rightarrow> files \<Rightarrow> bool" where
  "has_files dir names fs = list_all (\<lambda>n. fs (dir @ ''/'' @ n) \<noteq> None) names"

definition hasMpcSettlementArtifacts :: "mpc_tools \<Rightarrow> files \<Rightarrow> bool" where
  "hasMpcSettlementArtifacts mt = has_files (mt_settlementDir mt) [''build/main_js/main.wasm'', ''output/main_final.zkey'', ''output/main_verification_key.json'']"

definition hasMpcPricedArtifacts :: "mpc_tools \<Rightarrow> files \<Rightarrow> bool" where
  "hasMpcPricedArtifacts mt = has_files (mt_pricedDir mt) [''build/main_js/main.wasm'', ''output/main_final.zkey'', ''output/main_verification_key.json'']"

definition hasComplianceArtifacts :: "mpc_tools \<Rightarrow> files \<Rightarrow> bool" where
  "hasComplianceArtifacts mt = has_files (mt_complianceDir mt) [''build/main_js/main.wasm'', ''output/main_final.zkey'']"

definition need :: "(files \<Rightarrow> bool) \<Rightarrow> string \<Rightarrow> unit prover" where
  "need b e s = (if b (pv_files s) then (Ok (), s) else (Throw e, s))"

definition randField :: "mpc_tools \<Rightarrow> nat \<Rightarrow> jsval" where
  "randField mt n = VStr (int_to_string (randomFieldElement31 (mt_random mt n)))"

definition js_index :: "jsval \<Rightarrow> nat \<Rightarrow> (string, jsval) result" where
  "js_index v i = (case v of
     VUndef \<Rightarrow> Throw ''Cannot read properties'' | VNull \<Rightarrow> Throw ''Cannot read properties''
   | VArr vs \<Rightarrow> Ok (if i < length vs then vs ! i else VUndef) | VStr t \<Rightarrow> Ok (if i < length t then VStr [t ! i] else VUndef) | _ \<Rightarrow> Ok VUndef)"

text \<open>\<open>hexOut(pub[i])\<close>\<close>

definition hexOut :: "jsval \<Rightarrow> nat \<Rightarrow> string prover" where
  "hexOut pub i = pure (res_bind (js_index pub i) hexRoot)"

text \<open>The binding arguments, zero except for the operation type.\<close>

definition dummy_binding :: "string \<Rightarrow> string list" where
  "dummy_binding op = [''--operation-type'', op, ''--recipient-hash'', ''0'', ''--relayer-fee'', ''0'', ''--deadline-ledger'', ''0'',
     ''--quote-hash'', ''0'', ''--intent-hash'', ''0'', ''--fill-receipt-hash'', ''0'', ''--destination-domain'', ''0'',
     ''--destination-recipient'', ''0'', ''--max-fee'', ''0'', ''--min-finality-threshold'', ''0'']"

text \<open>Two runs of \<open>coinutils withdraw\<close> over one state file; their outputs are read back.\<close>

definition two_withdraws ::
  "mpc_tools \<Rightarrow> string \<Rightarrow> string \<Rightarrow> string \<Rightarrow> string \<Rightarrow> string \<Rightarrow> string \<Rightarrow> string \<Rightarrow> (jsval \<times> jsval) prover" where
  "two_withdraws mt op statePath assocPath coin1 out1 coin2 out2 =
    andThen (run_tool (tl_coinutils mt) ([''withdraw'', coin1, statePath, assocPath, ''-o'', out1] @ dummy_binding op)) (\<lambda>_.
    andThen (run_tool (tl_coinutils mt) ([''withdraw'', coin2, statePath, assocPath, ''-o'', out2] @ dummy_binding op)) (\<lambda>_.
    andThen (read_json out1) (\<lambda>w1. andThen (read_json out2) (\<lambda>w2. yield_value (w1, w2)))))"

record opened_note =
  on_value :: jsval
  on_label :: jsval
  on_nullifier :: jsval
  on_secret :: jsval
  on_asset :: jsval

text \<open>\<open>readCoinPreimage\<close> and \<open>readOpening\<close>: the members of \<open>coin\<close>.\<close>

definition readOpening :: "coin_file \<Rightarrow> opened_note prover" where
  "readOpening coin =
    andThen (read_json (cf_path coin)) (\<lambda>raw.
    andThen (pure (js_member raw ''coin'')) (\<lambda>c.
    andThen (pure (js_member c ''value'')) (\<lambda>value.
    yield_value \<lparr> on_value = value, on_label = js_get c ''label'', on_nullifier = js_get c ''nullifier'', on_secret = js_get c ''secret'',
      on_asset = js_get c ''asset_id'' \<rparr>)))"

text \<open>\<open>resolve(dir, \<dots>)\<close> of the artefacts, and the three runs of snarkjs; the output of the last is the verifier's.\<close>

definition snark_run :: "mpc_tools \<Rightarrow> string \<Rightarrow> string \<Rightarrow> string \<Rightarrow> string \<Rightarrow> string \<Rightarrow> string prover" where
  "snark_run mt dir inputPath wtns proofJson publicJson =
    andThen (run_tool (tl_snarkjs mt) [''wtns'', ''calculate'', dir @ ''/build/main_js/main.wasm'', inputPath, wtns]) (\<lambda>_.
    andThen (run_tool (tl_snarkjs mt) [''groth16'', ''prove'', dir @ ''/output/main_final.zkey'', wtns, proofJson, publicJson]) (\<lambda>_.
    run_tool (tl_snarkjs mt) [''groth16'', ''verify'', dir @ ''/output/main_verification_key.json'', publicJson, proofJson]))"

record mpc_proof_out =
  mo_proofHex :: string
  mo_publicHex :: string
  mo_nullifierA :: string
  mo_nullifierB :: string
  mo_outputA :: string
  mo_outputB :: string
  mo_verified :: bool

text \<open>Public signals, conversion and the four outputs: the tail of both MPC builders.\<close>

definition mpc_outputs :: "mpc_tools \<Rightarrow> string \<Rightarrow> string \<Rightarrow> string \<Rightarrow> mpc_proof_out prover" where
  "mpc_outputs mt verify proofJson publicJson =
    andThen (read_json publicJson) (\<lambda>pub.
    andThen (run_tool (tl_c2s mt) [''proof'', proofJson]) (\<lambda>proofOut.
    andThen (run_tool (tl_c2s mt) [''public'', publicJson]) (\<lambda>publicOut.
    andThen (hexOut pub 0) (\<lambda>n0. andThen (hexOut pub 1) (\<lambda>n1. andThen (hexOut pub 2) (\<lambda>o0. andThen (hexOut pub 3) (\<lambda>o1.
    yield_value \<lparr> mo_proofHex = js_trim proofOut, mo_publicHex = js_trim publicOut, mo_nullifierA = n0, mo_nullifierB = n1,
      mo_outputA = o0, mo_outputB = o1, mo_verified = says_ok verify \<rparr>)))))))"


section \<open>Settlement of a match in one asset\<close>

record settlement_params =
  ms_coinA :: coin_file
  ms_coinB :: coin_file
  ms_commitments :: jsval
  ms_assocPath :: string
  ms_scope :: string
  ms_batchHashHex :: string
  ms_poolId :: string
  ms_chainId :: string
  ms_matchedAmount7dp :: string
  ms_deadlineLedger :: string
  ms_scratch :: string
  ms_tag :: string

definition ms_path :: "settlement_params \<Rightarrow> string \<Rightarrow> string" where
  "ms_path p sfx = ms_scratch p @ ''/'' @ ms_tag p @ sfx"

definition fresh_note :: "mpc_tools \<Rightarrow> nat \<Rightarrow> string \<Rightarrow> opened_note" where
  "fresh_note mt n value = \<lparr> on_value = VStr value, on_label = randField mt n, on_nullifier = randField mt (n + 1), on_secret = randField mt (n + 2),
     on_asset = VUndef \<rparr>"

definition settlement_witness ::
  "settlement_params \<Rightarrow> jsval \<Rightarrow> jsval \<Rightarrow> opened_note \<Rightarrow> opened_note \<Rightarrow> opened_note \<Rightarrow> opened_note \<Rightarrow> string \<Rightarrow> jsval" where
  "settlement_witness p wA wB preA preB outA outB batchHash = VObj [
     (''stateRoot'', js_get wA ''stateRoot''), (''associationRoot'', js_get wA ''associationRoot''), (''batchHash'', VStr batchHash),
     (''poolId'', VStr (ms_poolId p)), (''chainId'', VStr (ms_chainId p)), (''matchedAmount7dp'', VStr (ms_matchedAmount7dp p)),
     (''deadlineLedger'', VStr (ms_deadlineLedger p)), (''assetId'', cf_assetIdField (ms_coinA p)),
     (''labelA'', on_label preA), (''valueA'', on_value preA), (''nullifierA'', on_nullifier preA), (''secretA'', on_secret preA),
     (''stateIndexA'', js_get wA ''stateIndex''), (''stateSiblingsA'', js_get wA ''stateSiblings''),
     (''labelIndexA'', js_get wA ''labelIndex''), (''labelSiblingsA'', js_get wA ''labelSiblings''),
     (''outValueA'', on_value outA), (''outLabelA'', on_label outA), (''outNullifierA'', on_nullifier outA), (''outSecretA'', on_secret outA),
     (''labelB'', on_label preB), (''valueB'', on_value preB), (''nullifierB'', on_nullifier preB), (''secretB'', on_secret preB),
     (''stateIndexB'', js_get wB ''stateIndex''), (''stateSiblingsB'', js_get wB ''stateSiblings''),
     (''labelIndexB'', js_get wB ''labelIndex''), (''labelSiblingsB'', js_get wB ''labelSiblings''),
     (''outValueB'', on_value outB), (''outLabelB'', on_label outB), (''outNullifierB'', on_nullifier outB), (''outSecretB'', on_secret outB)]"

definition same_asset :: "coin_file \<Rightarrow> coin_file \<Rightarrow> bool" where
  "same_asset a b \<longleftrightarrow> truthy (cf_assetIdField a) \<and> cf_assetIdField a = cf_assetIdField b"

definition buildMpcSettlementWitness :: "mpc_tools \<Rightarrow> settlement_params \<Rightarrow> (jsval \<times> opened_note \<times> opened_note) prover" where
  "buildMpcSettlementWitness mt p =
    andThen (write_file (ms_path p ''_mpc_state.json'') (state_file (ms_commitments p) (ms_scope p))) (\<lambda>_.
    andThen (two_withdraws mt ''1'' (ms_path p ''_mpc_state.json'') (ms_assocPath p) (cf_path (ms_coinA p)) (ms_path p ''_mpc_coinA_withdraw.json'')
        (cf_path (ms_coinB p)) (ms_path p ''_mpc_coinB_withdraw.json'')) (\<lambda>(wA, wB).
    andThen (pure (if same_asset (ms_coinA p) (ms_coinB p) then Ok () else Throw ''mpc_settlement is same-asset only'')) (\<lambda>_.
    andThen (readOpening (ms_coinA p)) (\<lambda>preA. andThen (readOpening (ms_coinB p)) (\<lambda>preB.
    let outA = fresh_note mt 0 (ms_matchedAmount7dp p); outB = fresh_note mt 3 (ms_matchedAmount7dp p) in
    andThen (pure (js_member wA ''stateRoot'')) (\<lambda>_. andThen (pure (hashToField (ms_batchHashHex p))) (\<lambda>bh.
    andThen (pure (js_member wB ''stateIndex'')) (\<lambda>_.
    yield_value (settlement_witness p wA wB preA preB outA outB bh, outA, outB)))))))))"

definition buildMpcSettlementProof :: "mpc_tools \<Rightarrow> settlement_params \<Rightarrow> (mpc_proof_out \<times> opened_note \<times> opened_note) prover" where
  "buildMpcSettlementProof mt p =
    andThen (need (hasMpcSettlementArtifacts mt) ''mpc_settlement circuit not compiled yet'') (\<lambda>_.
    andThen (buildMpcSettlementWitness mt p) (\<lambda>(witnessJson, outA, outB).
    andThen (write_file (ms_path p ''_mpc_witness.json'') (stringify witnessJson)) (\<lambda>_.
    andThen (snark_run mt (mt_settlementDir mt) (ms_path p ''_mpc_witness.json'') (ms_path p ''_mpc.wtns'') (ms_path p ''_mpc_proof.json'') (ms_path p ''_mpc_public.json'')) (\<lambda>verify.
    andThen (mpc_outputs mt verify (ms_path p ''_mpc_proof.json'') (ms_path p ''_mpc_public.json'')) (\<lambda>r.
    yield_value (r, outA, outB))))))"


section \<open>Settlement of a priced match\<close>

record priced_params =
  pp_coinX :: coin_file
  pp_coinY :: coin_file
  pp_commitments :: jsval
  pp_assocPath :: string
  pp_scope :: string
  pp_batchHashHex :: string
  pp_poolId :: string
  pp_chainId :: string
  pp_priceScaled :: string
  pp_minOutputA :: string
  pp_minOutputB :: string
  pp_deadlineLedger :: string
  pp_scratch :: string
  pp_tag :: string

definition pp_path :: "priced_params \<Rightarrow> string \<Rightarrow> string" where
  "pp_path p sfx = pp_scratch p @ ''/'' @ pp_tag p @ sfx"

definition BigInt_value :: "jsval \<Rightarrow> (string, int) result" where
  "BigInt_value v = (case to_BigInt v of None \<Rightarrow> Throw ''Cannot convert to a BigInt'' | Some i \<Rightarrow> Ok i)"

definition matched_amounts :: "priced_params \<Rightarrow> opened_note \<Rightarrow> opened_note \<Rightarrow> (string, int \<times> int) result" where
  "matched_amounts p preX preY =
    (if on_asset preX = on_asset preY then Throw ''priced settlement requires a genuine cross-asset (assetX != assetY)''
     else res_bind (BigInt_value (on_value preX)) (\<lambda>matchedA.
       res_bind (BigInt_value (VStr (pp_priceScaled p))) (\<lambda>price.
       let matchedB = js_div (matchedA * price) 1000000000 in
       if VStr (int_to_string matchedB) \<noteq> on_value preY then Throw ''priced witness: coinY value differs'' else Ok (matchedA, matchedB))))"

definition priced_witness :: "mpc_tools \<Rightarrow> priced_params \<Rightarrow> jsval \<Rightarrow> jsval \<Rightarrow> opened_note \<Rightarrow> opened_note \<Rightarrow> int \<Rightarrow> int \<Rightarrow> string \<Rightarrow> jsval" where
  "priced_witness mt p wX wY preX preY matchedA matchedB batchHash = VObj [
     (''stateRoot'', js_get wX ''stateRoot''), (''associationRoot'', js_get wX ''associationRoot''), (''batchHash'', VStr batchHash),
     (''poolId'', VStr (pp_poolId p)), (''chainId'', VStr (pp_chainId p)), (''deadlineLedger'', VStr (pp_deadlineLedger p)),
     (''inputAssetA'', on_asset preX), (''outputAssetA'', on_asset preY), (''inputAssetB'', on_asset preY), (''outputAssetB'', on_asset preX),
     (''matchedAmountA'', VStr (int_to_string matchedA)), (''matchedAmountB'', VStr (int_to_string matchedB)),
     (''priceScaled'', VStr (pp_priceScaled p)), (''priceScale'', VStr ''1000000000''),
     (''minOutputA'', VStr (pp_minOutputA p)), (''minOutputB'', VStr (pp_minOutputB p)),
     (''labelA'', on_label preX), (''nullifierA'', on_nullifier preX), (''secretA'', on_secret preX),
     (''stateIndexA'', js_get wX ''stateIndex''), (''stateSiblingsA'', js_get wX ''stateSiblings''),
     (''labelIndexA'', js_get wX ''labelIndex''), (''labelSiblingsA'', js_get wX ''labelSiblings''),
     (''labelB'', on_label preY), (''nullifierB'', on_nullifier preY), (''secretB'', on_secret preY),
     (''stateIndexB'', js_get wY ''stateIndex''), (''stateSiblingsB'', js_get wY ''stateSiblings''),
     (''labelIndexB'', js_get wY ''labelIndex''), (''labelSiblingsB'', js_get wY ''labelSiblings''),
     (''outLabelA'', randField mt 0), (''outNullifierA'', randField mt 1), (''outSecretA'', randField mt 2),
     (''outLabelB'', randField mt 3), (''outNullifierB'', randField mt 4), (''outSecretB'', randField mt 5)]"

definition buildMpcPricedWitness :: "mpc_tools \<Rightarrow> priced_params \<Rightarrow> jsval prover" where
  "buildMpcPricedWitness mt p =
    andThen (write_file (pp_path p ''_priced_state.json'') (state_file (pp_commitments p) (pp_scope p))) (\<lambda>_.
    andThen (two_withdraws mt ''0'' (pp_path p ''_priced_state.json'') (pp_assocPath p) (cf_path (pp_coinX p)) (pp_path p ''_priced_wX.json'')
        (cf_path (pp_coinY p)) (pp_path p ''_priced_wY.json'')) (\<lambda>(wX, wY).
    andThen (readOpening (pp_coinX p)) (\<lambda>preX. andThen (readOpening (pp_coinY p)) (\<lambda>preY.
    andThen (pure (matched_amounts p preX preY)) (\<lambda>(matchedA, matchedB).
    andThen (pure (js_member wX ''stateRoot'')) (\<lambda>_. andThen (pure (hashToField (pp_batchHashHex p))) (\<lambda>bh.
    andThen (pure (js_member wY ''stateIndex'')) (\<lambda>_.
    yield_value (priced_witness mt p wX wY preX preY matchedA matchedB bh)))))))))"

definition buildMpcPricedProof :: "mpc_tools \<Rightarrow> priced_params \<Rightarrow> (mpc_proof_out \<times> jsval) prover" where
  "buildMpcPricedProof mt p =
    andThen (need (hasMpcPricedArtifacts mt) ''mpc_priced_settlement circuit not built; run npm run circuits:build'') (\<lambda>_.
    andThen (buildMpcPricedWitness mt p) (\<lambda>witnessJson.
    andThen (write_file (pp_path p ''_priced_input.json'') (stringify witnessJson)) (\<lambda>_.
    andThen (snark_run mt (mt_pricedDir mt) (pp_path p ''_priced_input.json'') (pp_path p ''_priced.wtns'') (pp_path p ''_priced_proof.json'') (pp_path p ''_priced_public.json'')) (\<lambda>verify.
    andThen (mpc_outputs mt verify (pp_path p ''_priced_proof.json'') (pp_path p ''_priced_public.json'')) (\<lambda>r.
    yield_value (r, witnessJson))))))"

definition calcPricedWitness :: "mpc_tools \<Rightarrow> jsval \<Rightarrow> string \<Rightarrow> string \<Rightarrow> unit prover" where
  "calcPricedWitness mt witnessJson scratch tag =
    (let inputPath = scratch @ ''/'' @ tag @ ''_priced_adv_input.json'' in
     andThen (write_file inputPath (stringify witnessJson)) (\<lambda>_.
     andThen (run_tool (tl_snarkjs mt) [''wtns'', ''calculate'', mt_pricedDir mt @ ''/build/main_js/main.wasm'', inputPath,
       scratch @ ''/'' @ tag @ ''_priced_adv.wtns'']) (\<lambda>_. yield_value ())))"


section \<open>Compliance\<close>

record compliance_params =
  cm_label :: string
  cm_allowLabels :: "string list"
  cm_denyLabels :: "string list"
  cm_policyId :: string
  cm_scratch :: string
  cm_tag :: string

abbreviation big :: "string \<Rightarrow> (string, int) result" where
  "big t \<equiv> BigInt_value (VStr t)"

fun check_sorted :: "string list \<Rightarrow> (string, unit) result" where
  "check_sorted (a # b # r) =
    res_bind (big b) (\<lambda>y. res_bind (big a) (\<lambda>x. if y \<le> x then Throw ''deny labels must be strictly sorted ascending'' else check_sorted (b # r)))"
| "check_sorted _ = Ok ()"

text \<open>The first position whose deny label and its successor enclose the label; \<open>BigInt\<close> of the successor is read only when needed.\<close>

fun find_lo :: "string \<Rightarrow> nat \<Rightarrow> string list \<Rightarrow> (string, nat) result" where
  "find_lo label i (a # b # r) =
    res_bind (big a) (\<lambda>x. res_bind (big label) (\<lambda>l.
    if x < l then res_bind (big b) (\<lambda>y. if l < y then Ok i else find_lo label (Suc i) (b # r)) else find_lo label (Suc i) (b # r)))"
| "find_lo label i _ = Throw ''no adjacent deny leaves bound the label (is it denied, or out of sentinel range?)''"

fun index_of :: "string \<Rightarrow> string list \<Rightarrow> nat option" where
  "index_of x [] = None"
| "index_of x (y # ys) = (if x = y then Some 0 else map_option Suc (index_of x ys))"

definition compliance_bounds :: "compliance_params \<Rightarrow> (string, nat \<times> nat) result" where
  "compliance_bounds p =
    (case index_of (cm_label p) (cm_allowLabels p) of
       None \<Rightarrow> Throw ''label not in allow set''
     | Some allowIdx \<Rightarrow> res_bind (check_sorted (cm_denyLabels p)) (\<lambda>_. res_bind (find_lo (cm_label p) 0 (cm_denyLabels p)) (\<lambda>loIdx. Ok (allowIdx, loIdx))))"

definition merkleProof :: "mpc_tools \<Rightarrow> string \<Rightarrow> string \<Rightarrow> string list \<Rightarrow> nat \<Rightarrow> jsval prover" where
  "merkleProof mt scratch tag leaves index =
    (let statePath = scratch @ ''/'' @ tag @ ''_state.json'' in
     andThen (write_file statePath (state_file (VArr (map VStr leaves)) ''compliance'')) (\<lambda>_.
     andThen (run_tool (tl_coinutils mt) [''merkle-proof'', statePath, nat_to_string index, ''--depth'', ''2'']) (\<lambda>out.
     pure (case json_parse (js_trim out) of None \<Rightarrow> Throw ''Unexpected token'' | Some v \<Rightarrow> Ok v))))"

definition compliance_witness :: "compliance_params \<Rightarrow> nat \<Rightarrow> nat \<Rightarrow> jsval \<Rightarrow> jsval \<Rightarrow> jsval \<Rightarrow> jsval" where
  "compliance_witness p i j allowP loP hiP = VObj [
     (''allowRoot'', js_get allowP ''root''), (''denyRoot'', js_get loP ''root''), (''policyId'', VStr (cm_policyId p)), (''label'', VStr (cm_label p)),
     (''allowIndex'', VStr (nat_to_string i)), (''allowSiblings'', js_get allowP ''siblings''),
     (''denyLo'', VStr (cm_denyLabels p ! j)), (''denyLoIndex'', VStr (nat_to_string j)), (''denyLoSiblings'', js_get loP ''siblings''),
     (''denyHi'', VStr (cm_denyLabels p ! Suc j)), (''denyHiIndex'', VStr (nat_to_string (Suc j))), (''denyHiSiblings'', js_get hiP ''siblings'')]"

definition buildComplianceWitness :: "mpc_tools \<Rightarrow> compliance_params \<Rightarrow> jsval prover" where
  "buildComplianceWitness mt p =
    andThen (pure (compliance_bounds p)) (\<lambda>(i, j).
    andThen (merkleProof mt (cm_scratch p) (cm_tag p @ ''_allow'') (cm_allowLabels p) i) (\<lambda>allowP.
    andThen (merkleProof mt (cm_scratch p) (cm_tag p @ ''_lo'') (cm_denyLabels p) j) (\<lambda>loP.
    andThen (merkleProof mt (cm_scratch p) (cm_tag p @ ''_hi'') (cm_denyLabels p) (Suc j)) (\<lambda>hiP.
    andThen (pure (js_member allowP ''root'')) (\<lambda>_. andThen (pure (js_member loP ''root'')) (\<lambda>_. andThen (pure (js_member hiP ''siblings'')) (\<lambda>_.
    yield_value (compliance_witness p i j allowP loP hiP))))))))"

definition cm_path :: "compliance_params \<Rightarrow> string \<Rightarrow> string" where
  "cm_path p sfx = cm_scratch p @ ''/'' @ cm_tag p @ sfx"

definition buildComplianceProof :: "mpc_tools \<Rightarrow> compliance_params \<Rightarrow> (bool \<times> jsval) prover" where
  "buildComplianceProof mt p =
    andThen (need (hasComplianceArtifacts mt) ''compliance_membership circuit not built; run npm run circuits:build'') (\<lambda>_.
    andThen (buildComplianceWitness mt p) (\<lambda>witnessJson.
    andThen (write_file (cm_path p ''_comp_input.json'') (stringify witnessJson)) (\<lambda>_.
    andThen (snark_run mt (mt_complianceDir mt) (cm_path p ''_comp_input.json'') (cm_path p ''_comp.wtns'') (cm_path p ''_comp_proof.json'') (cm_path p ''_comp_public.json'')) (\<lambda>verify.
    yield_value (says_ok verify, witnessJson)))))"

definition calcComplianceWitness :: "mpc_tools \<Rightarrow> jsval \<Rightarrow> string \<Rightarrow> string \<Rightarrow> unit prover" where
  "calcComplianceWitness mt witnessJson scratch tag =
    (let inputPath = scratch @ ''/'' @ tag @ ''_comp_adv_input.json'' in
     andThen (write_file inputPath (stringify witnessJson)) (\<lambda>_.
     andThen (run_tool (tl_snarkjs mt) [''wtns'', ''calculate'', mt_complianceDir mt @ ''/build/main_js/main.wasm'', inputPath,
       scratch @ ''/'' @ tag @ ''_comp_adv.wtns'']) (\<lambda>_. yield_value ())))"


section \<open>The compliance circuit\<close>

text \<open>The scalar field of BLS12-381 and the comparator of circomlib over it.\<close>

definition BLS_R :: int where
  "BLS_R = 52435875175126190479447740508185965837690552500527637822603658699938581184513"

record compliance_signals =
  cg_allowRoot :: int
  cg_denyRoot :: int
  cg_policyId :: int
  cg_label :: int
  cg_allowIndex :: int
  cg_allowSiblings :: "int list"
  cg_denyLo :: int
  cg_denyLoIndex :: int
  cg_denyLoSiblings :: "int list"
  cg_denyHi :: int
  cg_denyHiIndex :: int
  cg_denyHiSiblings :: "int list"

definition field_range :: "int \<Rightarrow> bool" where
  "field_range x \<longleftrightarrow> 0 \<le> x \<and> x < BLS_R"

definition num_bits :: "nat \<Rightarrow> int \<Rightarrow> bool" where
  "num_bits n x \<longleftrightarrow> 0 \<le> x \<and> x < 2 ^ n"

definition bls_less :: "nat \<Rightarrow> int \<Rightarrow> int \<Rightarrow> int option" where
  "bls_less n a b = (let z = (a + 2 ^ n - b) mod BLS_R in if num_bits (n + 1) z then Some (if z < 2 ^ n then 1 else 0) else None)"

definition merkle2 :: "(int \<Rightarrow> int \<Rightarrow> int) \<Rightarrow> int \<Rightarrow> int \<Rightarrow> int list \<Rightarrow> int option" where
  "merkle2 h leaf idx siblings = (if num_bits 2 idx \<and> length siblings = 2 then Some (path_root h leaf (nat idx) siblings) else None)"

definition compliance_circuit :: "(int \<Rightarrow> int \<Rightarrow> int) \<Rightarrow> compliance_signals \<Rightarrow> bool" where
  "compliance_circuit h g \<longleftrightarrow>
     list_all field_range [cg_label g, cg_denyLo g, cg_denyHi g, cg_denyLoIndex g, cg_denyHiIndex g] \<and>
     merkle2 h (cg_label g) (cg_allowIndex g) (cg_allowSiblings g) = Some (cg_allowRoot g) \<and>
     merkle2 h (cg_denyLo g) (cg_denyLoIndex g) (cg_denyLoSiblings g) = Some (cg_denyRoot g) \<and>
     merkle2 h (cg_denyHi g) (cg_denyHiIndex g) (cg_denyHiSiblings g) = Some (cg_denyRoot g) \<and>
     num_bits 252 (cg_denyLo g) \<and> num_bits 252 (cg_label g) \<and> num_bits 252 (cg_denyHi g) \<and>
     bls_less 252 (cg_denyLo g) (cg_label g) = Some 1 \<and> bls_less 252 (cg_label g) (cg_denyHi g) = Some 1 \<and>
     cg_denyHiIndex g = (cg_denyLoIndex g + 1) mod BLS_R"


section \<open>Lemmas\<close>

definition numeric :: "string \<Rightarrow> bool" where
  "numeric t \<longleftrightarrow> big_int_of_string t \<noteq> None"

definition text_int :: "string \<Rightarrow> int" where
  "text_int t = (case big_int_of_string t of None \<Rightarrow> 0 | Some i \<Rightarrow> i)"

lemma big_numeric: "numeric t \<Longrightarrow> big t = Ok (text_int t)"
  by (auto simp: numeric_def text_int_def BigInt_value_def)

lemma check_sorted_iff: "list_all numeric xs \<Longrightarrow> check_sorted xs = Ok () \<longleftrightarrow> sorted_wrt (<) (map text_int xs)"
proof (induction xs rule: check_sorted.induct)
  case (1 a b r)
  then show ?case by (auto simp: big_numeric)
qed simp_all

text \<open>The search finds the gap of a sorted list in which the label lies.\<close>

lemma find_lo_Ok:
  assumes "list_all numeric xs" "numeric l" "find_lo l i xs = Ok k"
  shows "i \<le> k \<and> Suc (k - i) < length xs \<and> text_int (xs ! (k - i)) < text_int l \<and> text_int l < text_int (xs ! Suc (k - i))"
  using assms
proof (induction l i xs rule: find_lo.induct)
  case (1 l i a b r)
  show ?case
  proof (cases "text_int a < text_int l \<and> text_int l < text_int b")
    case True
    then show ?thesis using 1 by (simp add: big_numeric)
  next
    case False
    then have "find_lo l (Suc i) (b # r) = Ok k" using 1 by (auto simp: big_numeric split: if_splits)
    then have "Suc i \<le> k \<and> Suc (k - Suc i) < length (b # r) \<and> text_int ((b # r) ! (k - Suc i)) < text_int l \<and>
      text_int l < text_int ((b # r) ! Suc (k - Suc i))"
      using 1 False by (cases "text_int a < text_int l") (simp_all add: big_numeric)
    moreover from this have "k - i = Suc (k - Suc i)" by linarith
    ultimately show ?thesis by simp
  qed
qed simp_all

lemma find_lo_complete:
  assumes "list_all numeric xs" "numeric l" "Suc j < length xs" "text_int (xs ! j) < text_int l" "text_int l < text_int (xs ! Suc j)"
  shows "\<exists>k. find_lo l i xs = Ok k"
  using assms
proof (induction xs arbitrary: i j)
  case (Cons a xs)
  then obtain b r where xs: "xs = b # r" by (cases xs) auto
  show ?case
  proof (cases j)
    case 0
    then show ?thesis using Cons.prems xs by (auto simp: big_numeric)
  next
    case (Suc j')
    then have "\<exists>k. find_lo l (Suc i) xs = Ok k" using Cons by auto
    then show ?thesis using Cons.prems xs by (auto simp: big_numeric)
  qed
qed simp

lemma sorted_gap:
  assumes "sorted_wrt (<) (vs :: int list)" "Suc j < length vs" "vs ! j < l" "l < vs ! Suc j"
  shows "l \<notin> set vs"
proof
  assume "l \<in> set vs"
  then obtain i where i: "i < length vs" "vs ! i = l" by (auto simp: in_set_conv_nth)
  have mono: "a < b \<Longrightarrow> b < length vs \<Longrightarrow> vs ! a < vs ! b" for a b using assms(1) by (rule sorted_wrt_nth_less)
  consider "i \<le> j" | "Suc j \<le> i" by linarith
  then show False
    using mono [of i j] mono [of "Suc j" i] assms i by cases (cases "i = j", auto, cases "i = Suc j", auto)
qed

lemma gap_exists:
  assumes "(vs :: int list) \<noteq> []" "hd vs < l" "l < last vs" "l \<notin> set vs"
  shows "\<exists>j. Suc j < length vs \<and> vs ! j < l \<and> l < vs ! Suc j"
  using assms
proof (induction vs)
  case (Cons v vs)
  then have ne: "vs \<noteq> []" by auto
  show ?case
  proof (cases "l < hd vs")
    case True
    then show ?thesis using Cons.prems ne by (intro exI [of _ 0]) (simp add: hd_conv_nth)
  next
    case False
    then have "hd vs < l" using Cons.prems ne by (metis hd_in_set linorder_neqE_linordered_idom list.set_intros(2))
    then obtain j where "Suc j < length vs \<and> vs ! j < l \<and> l < vs ! Suc j" using Cons ne by auto
    then show ?thesis by (intro exI [of _ "Suc j"]) simp
  qed
qed simp

lemma index_of_iff: "index_of x xs = Some i \<Longrightarrow> i < length xs \<and> xs ! i = x" "(\<exists>i. index_of x xs = Some i) \<longleftrightarrow> x \<in> set xs"
  by (induction xs arbitrary: i) (auto split: if_splits)

lemma sorted_ends:
  assumes "sorted_wrt (<) (vs :: int list)" "v \<in> set vs"
  shows "hd vs \<le> v" "v \<le> last vs"
  using assms by (induction vs) (auto split: if_splits intro: less_imp_le)

lemma bls_less_iff:
  assumes "num_bits 252 a" "num_bits 252 b"
  shows "bls_less 252 a b = Some 1 \<longleftrightarrow> a < b"
proof -
  have "0 \<le> a + 2 ^ 252 - b" "a + 2 ^ 252 - b < BLS_R" "a + 2 ^ 252 - b < 2 ^ 253"
    using assms by (simp_all add: num_bits_def BLS_R_def)
  then show ?thesis by (auto simp: bls_less_def num_bits_def Let_def)
qed

text \<open>An accepted path collides with the path the tree over \<open>xs\<close> has at that index.\<close>

definition collides_with_tree :: "(int \<Rightarrow> int \<Rightarrow> int) \<Rightarrow> int \<Rightarrow> int \<Rightarrow> int list \<Rightarrow> int list \<Rightarrow> bool" where
  "collides_with_tree h leaf idx ss xs =
    paths_collide h (nat idx) leaf ss (leaf_fun xs (nat idx)) (tree_siblings h (leaf_fun xs) 2 (nat idx))"

lemma merkle2_binding:
  assumes "merkle2 h leaf idx ss = Some (node_at h (leaf_fun xs) 2 0)" "\<not> collides_with_tree h leaf idx ss xs"
  shows "leaf = leaf_fun xs (nat idx)"
  using assms tree_path_binding [of h leaf "nat idx" ss "leaf_fun xs" 2]
  by (auto simp: merkle2_def num_bits_def collides_with_tree_def split: if_splits)

lemma compliance_bounds_Ok:
  assumes "list_all numeric (cm_denyLabels p)" "numeric (cm_label p)"
  shows "compliance_bounds p = Ok (i, j) \<Longrightarrow> i < length (cm_allowLabels p) \<and> cm_allowLabels p ! i = cm_label p \<and> sorted_wrt (<) (map text_int (cm_denyLabels p)) \<and>
    Suc j < length (cm_denyLabels p) \<and> text_int (cm_denyLabels p ! j) < text_int (cm_label p) \<and> text_int (cm_label p) < text_int (cm_denyLabels p ! Suc j)"
  using find_lo_Ok [OF assms, of 0 j] check_sorted_iff [OF assms(1)]
  by (auto simp: compliance_bounds_def res_bind_eq_Inr dest: index_of_iff(1) split: option.splits)

lemma compliance_bounds_iff:
  assumes "list_all numeric (cm_denyLabels p)" "numeric (cm_label p)"
  defines "vs \<equiv> map text_int (cm_denyLabels p)" and "l \<equiv> text_int (cm_label p)"
  shows "(\<exists>i j. compliance_bounds p = Ok (i, j)) \<longleftrightarrow>
    cm_label p \<in> set (cm_allowLabels p) \<and> sorted_wrt (<) vs \<and> l \<notin> set vs \<and> (\<exists>v. v \<in> set vs \<and> v < l) \<and> (\<exists>v. v \<in> set vs \<and> l < v)"
    (is "?ok \<longleftrightarrow> ?cond")
proof
  assume ?ok
  then obtain i j where b: "compliance_bounds p = Ok (i, j)" by blast
  note ok = compliance_bounds_Ok [OF assms(1,2) b]
  have gap: "Suc j < length vs" "vs ! j < l" "l < vs ! Suc j" and srt: "sorted_wrt (<) vs" using ok by (simp_all add: vs_def l_def)
  have "vs ! j \<in> set vs" "vs ! Suc j \<in> set vs" using gap(1) by simp_all
  moreover have "cm_label p \<in> set (cm_allowLabels p)" using ok nth_mem by metis
  ultimately show ?cond using sorted_gap [OF srt gap] srt gap by blast
next
  assume c: ?cond
  then obtain u v where uv: "u \<in> set vs" "u < l" "v \<in> set vs" "l < v" by blast
  then have ends: "vs \<noteq> []" "hd vs < l" "l < last vs" using c sorted_ends [of vs u] sorted_ends [of vs v] by auto
  obtain j where j: "Suc j < length vs" "vs ! j < l" "l < vs ! Suc j" using gap_exists [OF ends] c by blast
  obtain k where k: "find_lo (cm_label p) 0 (cm_denyLabels p) = Ok k"
    using find_lo_complete [OF assms(1,2), of j 0] j by (auto simp: vs_def l_def)
  obtain i where "index_of (cm_label p) (cm_allowLabels p) = Some i" using c index_of_iff(2) by metis
  then show ?ok using k c check_sorted_iff [OF assms(1)] by (simp add: compliance_bounds_def vs_def)
qed

text \<open>The circuit's inputs as the witness has them.\<close>

definition witness_signals :: "compliance_params \<Rightarrow> nat \<Rightarrow> nat \<Rightarrow> int \<Rightarrow> int list \<Rightarrow> int \<Rightarrow> int list \<Rightarrow> int list \<Rightarrow> compliance_signals" where
  "witness_signals p i j ra sa rd sl sh =
    \<lparr> cg_allowRoot = ra, cg_denyRoot = rd, cg_policyId = text_int (cm_policyId p), cg_label = text_int (cm_label p),
      cg_allowIndex = int i, cg_allowSiblings = sa, cg_denyLo = text_int (cm_denyLabels p ! j), cg_denyLoIndex = int j, cg_denyLoSiblings = sl,
      cg_denyHi = text_int (cm_denyLabels p ! Suc j), cg_denyHiIndex = int (Suc j), cg_denyHiSiblings = sh \<rparr>"

lemma num_bits_field: "num_bits 252 x \<Longrightarrow> field_range x"
  by (simp add: num_bits_def field_range_def BLS_R_def)

lemma merkle2_index: "merkle2 h x i ss = Some r \<Longrightarrow> 0 \<le> i \<and> i < 4"
  by (auto simp: merkle2_def num_bits_def split: if_splits)


lemma witness_accepted:
  assumes num: "list_all numeric (cm_denyLabels p)" "numeric (cm_label p)"
    and b: "compliance_bounds p = Ok (i, j)" and l: "num_bits 252 (text_int (cm_label p))"
    and all: "list_all (\<lambda>t. num_bits 252 (text_int t)) (cm_denyLabels p)"
    and m: "merkle2 h (text_int (cm_allowLabels p ! i)) (int i) sa = Some ra" "merkle2 h (text_int (cm_denyLabels p ! j)) (int j) sl = Some rd"
      "merkle2 h (text_int (cm_denyLabels p ! Suc j)) (int (Suc j)) sh = Some rd"
  shows "compliance_circuit h (witness_signals p i j ra sa rd sl sh)"
proof -
  let ?l = "text_int (cm_label p)"
  note ok = compliance_bounds_Ok [OF num b]
  have r: "num_bits 252 (text_int (cm_denyLabels p ! j))" "num_bits 252 (text_int (cm_denyLabels p ! Suc j))"
    using all ok by (auto simp: list_all_length)
  have small: "int (Suc j) < 4" using merkle2_index [OF m(3)] by simp
  have less: "bls_less 252 (text_int (cm_denyLabels p ! j)) ?l = Some 1" "bls_less 252 ?l (text_int (cm_denyLabels p ! Suc j)) = Some 1"
    using ok bls_less_iff [OF r(1) l] bls_less_iff [OF l r(2)] by simp_all
  show ?thesis
    using ok m less r l small num_bits_field [OF l] num_bits_field [OF r(1)] num_bits_field [OF r(2)]
    by (simp add: compliance_circuit_def witness_signals_def field_range_def BLS_R_def)
qed


section \<open>Properties\<close>

text \<open>The compliance builder accepts exactly the labels the policy allows: the label is in the allow list, the deny list is strictly
  ascending, does not contain the label as a number and has labels on both sides of it. Otherwise it throws before it writes a
  file. With inclusion paths for the three leaves, the witness it assembles satisfies the circuit.\<close>

theorem compliance_builder_exact:
  assumes "list_all numeric (cm_denyLabels p)" "numeric (cm_label p)"
  shows "((\<exists>i j. compliance_bounds p = Ok (i, j)) \<longleftrightarrow>
      (let vs = map text_int (cm_denyLabels p); l = text_int (cm_label p) in
       cm_label p \<in> set (cm_allowLabels p) \<and> sorted_wrt (<) vs \<and> l \<notin> set vs \<and> (\<exists>v. v \<in> set vs \<and> v < l) \<and> (\<exists>v. v \<in> set vs \<and> l < v))) \<and>
    (\<forall>e mt s. compliance_bounds p = Throw e \<longrightarrow> buildComplianceWitness mt p s = (Throw e, s)) \<and>
    (\<forall>i j h sa ra sl rd sh. compliance_bounds p = Ok (i, j) \<and> num_bits 252 (text_int (cm_label p)) \<and>
      list_all (\<lambda>t. num_bits 252 (text_int t)) (cm_denyLabels p) \<and> merkle2 h (text_int (cm_allowLabels p ! i)) (int i) sa = Some ra \<and>
      merkle2 h (text_int (cm_denyLabels p ! j)) (int j) sl = Some rd \<and> merkle2 h (text_int (cm_denyLabels p ! Suc j)) (int (Suc j)) sh = Some rd \<longrightarrow>
      compliance_circuit h (witness_signals p i j ra sa rd sl sh))"
proof (intro conjI)
  show "\<forall>e mt s. compliance_bounds p = Throw e \<longrightarrow> buildComplianceWitness mt p s = (Throw e, s)"
    by (simp add: buildComplianceWitness_def andThen_def pure_def)
qed (use compliance_bounds_iff [OF assms] witness_accepted [OF assms] in \<open>simp_all add: Let_def\<close>)

text \<open>Label 7, allowed, between the denied labels 0 and 9; label 9 is denied.\<close>

definition demo_policy :: "string \<Rightarrow> compliance_params" where
  "demo_policy l = \<lparr> cm_label = l, cm_allowLabels = [''7'', ''9''], cm_denyLabels = [''0'', ''9''], cm_policyId = ''1'', cm_scratch = ''s'', cm_tag = ''t'' \<rparr>"

lemma demo_labels: "big_int_of_string ''0'' = Some 0" "big_int_of_string ''7'' = Some 7" "big_int_of_string ''9'' = Some 9"
  by code_simp+

theorem compliance_builder_exact_witness:
  "(\<exists>i j. compliance_bounds (demo_policy ''7'') = Ok (i, j)) \<and> (\<nexists>i j. compliance_bounds (demo_policy ''9'') = Ok (i, j))"
proof
  have d: "cm_label (demo_policy l) = l" "cm_allowLabels (demo_policy l) = [''7'', ''9'']" "cm_denyLabels (demo_policy l) = [''0'', ''9'']" for l
    by (simp_all add: demo_policy_def)
  have n: "numeric ''0''" "numeric ''7''" "numeric ''9''" "text_int ''0'' = 0" "text_int ''7'' = 7" "text_int ''9'' = 9"
    by (simp_all add: numeric_def text_int_def demo_labels)
  show "\<exists>i j. compliance_bounds (demo_policy ''7'') = Ok (i, j)"
    by (rule compliance_builder_exact [THEN conjunct1, THEN iffD2]) (auto simp: d n Let_def)
  show "\<nexists>i j. compliance_bounds (demo_policy ''9'') = Ok (i, j)"
  proof
    assume "\<exists>i j. compliance_bounds (demo_policy ''9'') = Ok (i, j)"
    from compliance_builder_exact [THEN conjunct1, THEN iffD1, OF _ _ this] show False by (simp add: d n Let_def)
  qed
qed

text \<open>An accepted compliance proof means what it says. Against the roots of an allow tree and of a strictly ascending deny tree of
  non-negative leaves (up to four leaves each, padded with zeros), an accepted label is a leaf of the first and no leaf of the
  second, unless one of the three accepted paths collides with the tree's own path at its index.\<close>

theorem compliance_proof_sound:
  assumes "compliance_circuit h g" "cg_allowRoot g = node_at h (leaf_fun allow) 2 0" "cg_denyRoot g = node_at h (leaf_fun deny) 2 0"
    and "sorted_wrt (<) deny"
  shows "cg_label g \<in> set allow \<and> cg_label g \<notin> set deny \<or>
    collides_with_tree h (cg_label g) (cg_allowIndex g) (cg_allowSiblings g) allow \<or>
    collides_with_tree h (cg_denyLo g) (cg_denyLoIndex g) (cg_denyLoSiblings g) deny \<or>
    collides_with_tree h (cg_denyHi g) (cg_denyHiIndex g) (cg_denyHiSiblings g) deny"
  (is "_ \<or> ?c1 \<or> ?c2 \<or> ?c3")
proof (cases "?c1 \<or> ?c2 \<or> ?c3")
  case False
  let ?j = "nat (cg_denyLoIndex g)"
  have c: "num_bits 252 (cg_denyLo g)" "num_bits 252 (cg_label g)" "num_bits 252 (cg_denyHi g)"
    "bls_less 252 (cg_denyLo g) (cg_label g) = Some 1" "bls_less 252 (cg_label g) (cg_denyHi g) = Some 1"
    "cg_denyHiIndex g = (cg_denyLoIndex g + 1) mod BLS_R" "0 \<le> cg_denyLoIndex g" "cg_denyLoIndex g < 4"
    using assms(1) merkle2_index [of h "cg_denyLo g" "cg_denyLoIndex g" "cg_denyLoSiblings g" "cg_denyRoot g"]
    by (auto simp: compliance_circuit_def)
  have m: "merkle2 h (cg_label g) (cg_allowIndex g) (cg_allowSiblings g) = Some (node_at h (leaf_fun allow) 2 0)"
    "merkle2 h (cg_denyLo g) (cg_denyLoIndex g) (cg_denyLoSiblings g) = Some (node_at h (leaf_fun deny) 2 0)"
    "merkle2 h (cg_denyHi g) (cg_denyHiIndex g) (cg_denyHiSiblings g) = Some (node_at h (leaf_fun deny) 2 0)"
    using assms(1) unfolding compliance_circuit_def assms(2,3) by blast+
  have leaves: "cg_label g = leaf_fun allow (nat (cg_allowIndex g))" "cg_denyLo g = leaf_fun deny ?j"
    "cg_denyHi g = leaf_fun deny (nat (cg_denyHiIndex g))"
    using merkle2_binding [OF m(1)] merkle2_binding [OF m(2)] merkle2_binding [OF m(3)] False by simp_all
  have hi: "cg_denyHi g = leaf_fun deny (Suc ?j)" 
  proof -
    have "(cg_denyLoIndex g + 1) mod BLS_R = cg_denyLoIndex g + 1" using c(7,8) by (intro mod_pos_pos_trivial) (simp_all add: BLS_R_def)
    then have "nat (cg_denyHiIndex g) = Suc ?j" using c(6,7) by linarith
    then show ?thesis using leaves(3) by simp
  qed
  have less: "cg_denyLo g < cg_label g" "cg_label g < cg_denyHi g" using c bls_less_iff by blast+
  have pos: "0 \<le> cg_denyLo g" using c(1) by (simp add: num_bits_def)
  have in_allow: "cg_label g \<in> set allow" using leaves(1) less(1) pos by (auto simp: leaf_fun_def split: if_splits)
  have len: "Suc ?j < length deny" using hi less pos by (auto simp: leaf_fun_def split: if_splits)
  then have "deny ! ?j < cg_label g" "cg_label g < deny ! Suc ?j" using less leaves(2) hi by (simp_all add: leaf_fun_def)
  from sorted_gap [OF assms(4) len this] in_allow show ?thesis by simp
qed blast

text \<open>The label 7 with the trees of one allowed and two denied leaves.\<close>

definition demo_hash :: "int \<Rightarrow> int \<Rightarrow> int" where
  "demo_hash a b = a + 1000 * b"

definition demo_signals :: compliance_signals where
  "demo_signals = \<lparr> cg_allowRoot = 7, cg_denyRoot = 9000, cg_policyId = 1, cg_label = 7, cg_allowIndex = 0, cg_allowSiblings = [0, 0],
     cg_denyLo = 0, cg_denyLoIndex = 0, cg_denyLoSiblings = [9, 0], cg_denyHi = 9, cg_denyHiIndex = 1, cg_denyHiSiblings = [0, 0] \<rparr>"

theorem compliance_proof_sound_witness:
  "compliance_circuit demo_hash demo_signals \<and>
   cg_label demo_signals \<in> set [7] \<and> cg_label demo_signals \<notin> set [0, 9]"
proof -
  have c: "compliance_circuit demo_hash demo_signals"
    by (simp add: compliance_circuit_def demo_signals_def field_range_def BLS_R_def merkle2_def num_bits_def demo_hash_def bls_less_def Let_def)
  have n: "node_at demo_hash (leaf_fun [7]) 2 0 = 7" "node_at demo_hash (leaf_fun [0, 9]) 2 0 = 9000"
    by (simp_all add: numeral_2_eq_2 leaf_fun_def demo_hash_def)
  show ?thesis using c compliance_proof_sound [OF c, of "[7]" "[0, 9]"] n by (simp add: demo_signals_def)
qed

text \<open>A priced settlement's witness balances. The two notes are of different assets and each party's output asset is the other's input;
  the amount taken from the first note is its whole value, and the amount taken from the second is that value times the price,
  rounded down by less than one unit, and is the second note's whole value, so no change is left over.\<close>

theorem priced_witness_balances:
  assumes "buildMpcPricedWitness mt p s = (Ok w, s')" "0 \<le> text_int (pp_priceScaled p)"
    and "js_get w ''matchedAmountA'' = VStr tA" "0 \<le> text_int tA"
  shows "\<exists>a b assetX assetY noteY. tA = int_to_string a \<and> js_get w ''matchedAmountB'' = VStr (int_to_string b) \<and>
    js_get w ''inputAssetA'' = assetX \<and> js_get w ''outputAssetB'' = assetX \<and> js_get w ''inputAssetB'' = assetY \<and> js_get w ''outputAssetA'' = assetY \<and>
    assetX \<noteq> assetY \<and> b * 1000000000 \<le> a * text_int (pp_priceScaled p) \<and> a * text_int (pp_priceScaled p) < (b + 1) * 1000000000 \<and>
    (\<exists>t. fst (readOpening (pp_coinY p) t) = Ok noteY) \<and> on_value noteY = VStr (int_to_string b)"
proof -
  obtain wX wY preX preY a b bh t where w: "w = priced_witness mt p wX wY preX preY a b bh"
    and m: "matched_amounts p preX preY = Ok (a, b)" and y: "fst (readOpening (pp_coinY p) t) = Ok preY"
    using assms(1) unfolding buildMpcPricedWitness_def
    by (auto simp: andThen_def pure_def yield_value_def split: sum.splits prod.splits) (metis fst_conv)
  have gets: "js_get w ''matchedAmountA'' = VStr (int_to_string a)" "js_get w ''matchedAmountB'' = VStr (int_to_string b)"
    "js_get w ''inputAssetA'' = on_asset preX" "js_get w ''outputAssetB'' = on_asset preX" "js_get w ''inputAssetB'' = on_asset preY"
    "js_get w ''outputAssetA'' = on_asset preY"
    unfolding w priced_witness_def by simp_all
  have tA: "tA = int_to_string a" "0 \<le> a" using assms(3,4) gets(1) by (auto simp: text_int_def)
  obtain pr where pr: "big_int_of_string (pp_priceScaled p) = Some pr" and b: "b = js_div (a * pr) 1000000000"
    and v: "on_value preY = VStr (int_to_string b)" and ne: "on_asset preX \<noteq> on_asset preY"
    using m unfolding matched_amounts_def Let_def BigInt_value_def by (auto simp: res_bind_eq_Inr split: if_splits option.splits)
  have p: "text_int (pp_priceScaled p) = pr" "0 \<le> pr" using pr assms(2) by (simp_all add: text_int_def)
  have "b = a * pr div 1000000000" using b tA(2) p(2) by simp
  then have "a * pr = b * 1000000000 + a * pr mod 1000000000" by simp
  moreover have "0 \<le> a * pr mod 1000000000" "a * pr mod 1000000000 < 1000000000" by simp_all
  ultimately have "b * 1000000000 \<le> a * pr" "a * pr < (b + 1) * 1000000000" by (simp_all add: distrib_right)
  then show ?thesis using tA(1) gets ne y v p(1) by blast
qed

text \<open>Four units of asset 1 against two of asset 3 at half a unit.\<close>

definition demo_coin :: "string \<Rightarrow> coin_file" where
  "demo_coin path = \<lparr> cf_path = path, cf_commitmentHex = VStr [], cf_commitmentDecimal = VStr [], cf_value7dp = VStr [], cf_assetIdField = VStr [] \<rparr>"

definition demo_note :: "string \<Rightarrow> string \<Rightarrow> jsval" where
  "demo_note v a = VObj [(''coin'', VObj [(''value'', VStr v), (''asset_id'', VStr a)])]"

definition demo_priced :: priced_params where
  "demo_priced = \<lparr> pp_coinX = demo_coin ''x'', pp_coinY = demo_coin ''y'', pp_commitments = VArr [], pp_assocPath = ''a'', pp_scope = ''c'',
     pp_batchHashHex = ''01'', pp_poolId = ''1'', pp_chainId = ''1'', pp_priceScaled = int_to_string 500000000, pp_minOutputA = ''0'', pp_minOutputB = ''0'',
     pp_deadlineLedger = ''9'', pp_scratch = ''s'', pp_tag = ''t'' \<rparr>"

definition demo_tools :: mpc_tools where
  "demo_tools = \<lparr> tl_coinutils = (\<lambda>_ fs. Ok ([], fs)), tl_snarkjs = (\<lambda>_ fs. Ok ([], fs)), tl_c2s = (\<lambda>_ fs. Ok ([], fs)), tl_sha = id, tl_scratch = [],
     tl_withdrawCircuit = [], tl_transferCircuit = [], tl_depositCircuit = [], mt_settlementDir = [], mt_pricedDir = [], mt_complianceDir = [], mt_random = (\<lambda>_. []) \<rparr>"

definition demo_files :: files where
  "demo_files path = Some (stringify (if path = ''x'' then demo_note ''4'' ''1'' else if path = ''y'' then demo_note ''2'' ''3'' else VObj []))"

lemma demo_numbers:
  "big_int_of_string ''4'' = Some 4" "int_to_string 2 = ''2''" "int_to_string 4 = ''4''" "hashToField ''01'' = Ok ''1''"
  by code_simp+

lemma demo_read:
  "pv_files s = demo_files (k \<mapsto> v) \<Longrightarrow> path \<noteq> k \<Longrightarrow> read_json path s =
    (Ok (if path = ''x'' then demo_note ''4'' ''1'' else if path = ''y'' then demo_note ''2'' ''3'' else VObj []), s)"
  by (simp add: read_json_def demo_files_def json_parse_stringify demo_note_def)

theorem priced_witness_balances_witness:
  "\<exists>w s'. buildMpcPricedWitness demo_tools demo_priced \<lparr> pv_queue = empty_queue, pv_files = demo_files \<rparr> = (Ok w, s') \<and>
    js_get w ''matchedAmountB'' = VStr ''2'' \<and> js_get w ''inputAssetA'' \<noteq> js_get w ''outputAssetA''"
proof -
  let ?s = "\<lparr> pv_queue = empty_queue, pv_files = demo_files \<rparr>"
  let ?s1 = "\<lparr> pv_queue = empty_queue, pv_files = demo_files (pp_path demo_priced ''_priced_state.json'' \<mapsto> state_file (VArr []) ''c'') \<rparr>"
  have sel: "pp_commitments demo_priced = VArr []" "pp_scope demo_priced = ''c''" "cf_path (pp_coinX demo_priced) = ''x''"
    "cf_path (pp_coinY demo_priced) = ''y''" "pp_batchHashHex demo_priced = ''01''" "pp_priceScaled demo_priced = int_to_string 500000000"
    by (simp_all add: demo_priced_def demo_coin_def)
  have paths: "pp_path demo_priced ''_priced_wX.json'' \<noteq> pp_path demo_priced ''_priced_state.json''"
    "pp_path demo_priced ''_priced_wY.json'' \<noteq> pp_path demo_priced ''_priced_state.json''" "''x'' \<noteq> pp_path demo_priced f" "''y'' \<noteq> pp_path demo_priced f" for f
    by (simp_all add: pp_path_def demo_priced_def)
  note rd = demo_read [of ?s1 "pp_path demo_priced ''_priced_state.json''" "state_file (VArr []) ''c''"]
  have tools: "run_tool (tl_coinutils demo_tools) args s = (Ok [], s)" for args s by (simp add: run_tool_def demo_tools_def)
  have two: "two_withdraws demo_tools ''0'' (pp_path demo_priced ''_priced_state.json'') a ''x'' (pp_path demo_priced ''_priced_wX.json'') ''y''
      (pp_path demo_priced ''_priced_wY.json'') ?s1 = (Ok (VObj [], VObj []), ?s1)" for a
    using paths(3,4) [symmetric] by (simp add: two_withdraws_def andThen_def tools rd [OF _ paths(1)] rd [OF _ paths(2)] yield_value_def)
  have note_of: "readOpening (pp_coinX demo_priced) ?s1 = (Ok \<lparr> on_value = VStr ''4'', on_label = VUndef, on_nullifier = VUndef, on_secret = VUndef, on_asset = VStr ''1'' \<rparr>, ?s1)"
    "readOpening (pp_coinY demo_priced) ?s1 = (Ok \<lparr> on_value = VStr ''2'', on_label = VUndef, on_nullifier = VUndef, on_secret = VUndef, on_asset = VStr ''3'' \<rparr>, ?s1)"
    by (simp_all add: readOpening_def sel rd paths andThen_def pure_def yield_value_def js_member_def demo_note_def)
  have "\<exists>w s'. buildMpcPricedWitness demo_tools demo_priced ?s = (Ok w, s') \<and> js_get w ''matchedAmountA'' = VStr ''4''"
    by (simp add: buildMpcPricedWitness_def write_file_def two note_of sel andThen_def pure_def yield_value_def matched_amounts_def BigInt_value_def
      demo_numbers js_member_def priced_witness_def)
  then obtain w s' where w: "buildMpcPricedWitness demo_tools demo_priced ?s = (Ok w, s')" "js_get w ''matchedAmountA'' = VStr ''4''" by blast
  obtain a b where r: "''4'' = int_to_string a" "js_get w ''matchedAmountB'' = VStr (int_to_string b)" "js_get w ''inputAssetA'' \<noteq> js_get w ''outputAssetA''"
    "b * 1000000000 \<le> a * 500000000" "a * 500000000 < (b + 1) * 1000000000"
    using priced_witness_balances [OF w(1) _ w(2)] by (auto simp: sel text_int_def demo_numbers)
  have "a = 4" using r(1) demo_numbers(3) by (metis int_to_string_inject)
  then have "b * 1000000000 \<le> 2000000000" "2000000000 < (b + 1) * 1000000000" using r(4,5) by simp_all
  then have "b = 2" by simp
  then show ?thesis using w(1) r(2,3) demo_numbers(2) by auto
qed

end
