(* ===== verification/CommitteeServers.thy ===== *)
theory CommitteeServers
  imports Rounds Settler Relayer Hex
begin

text \<open>
  The committee's processes around the matching rounds: the stored node keys (\<open>apps/mpc-committee/src/keys.ts\<close>), the standalone
  coordinator (\<open>coordinator-server.ts\<close>), which talks to the node servers of \<open>Rounds\<close> over HTTP, and the routes of the combined
  server (\<open>server.ts\<close>) that read sessions and persist batches. AES-GCM, key generation, the network and the database connection
  are parameters.
\<close>

section \<open>Stored keys\<close>

record key_row =
  kr_node_id :: string
  kr_encryption_pubkey :: string
  kr_encryption_secret :: string
  kr_signing_pubkey :: string
  kr_signing_secret :: string

text \<open>AES-256-GCM: ciphertext and tag; decryption is \<open>None\<close> when the tag does not fit.\<close>

record gcm_lib =
  gl_encrypt :: "bytes \<Rightarrow> bytes \<Rightarrow> bytes \<Rightarrow> bytes \<times> bytes"
  gl_decrypt :: "bytes \<Rightarrow> bytes \<Rightarrow> bytes \<Rightarrow> bytes \<Rightarrow> bytes option"

definition loadEncryptionKey :: "env_map \<Rightarrow> (string, bytes) result" where
  "loadEncryptionKey env =
    (case env ''MPC_KEY_ENCRYPTION_SECRET'' of
       None \<Rightarrow> Throw ''MPC_KEY_ENCRYPTION_SECRET must be set to a 32-byte (64 hex char) key''
     | Some h \<Rightarrow> if length h \<noteq> 64 then Throw ''MPC_KEY_ENCRYPTION_SECRET must be set to a 32-byte (64 hex char) key'' else Ok (from_hex h))"

text \<open>\<open>createCipheriv\<close> and \<open>createDecipheriv\<close> throw unless the key has 32 bytes.\<close>

definition encryptSecret :: "gcm_lib \<Rightarrow> bytes \<Rightarrow> string \<Rightarrow> bytes \<Rightarrow> (string, string) result" where
  "encryptSecret g iv plainHex key =
    (if length key \<noteq> 32 then Throw ''Invalid key length''
     else let (ciphertext, authTag) = gl_encrypt g key iv (from_hex plainHex) in Ok (to_hex (iv @ authTag @ ciphertext)))"

definition decryptSecret :: "gcm_lib \<Rightarrow> string \<Rightarrow> bytes \<Rightarrow> (string, string) result" where
  "decryptSecret g encHex key =
    (let raw = from_hex encHex; iv = take 12 raw; authTag = take 16 (drop 12 raw); ciphertext = drop 28 raw in
     if length key \<noteq> 32 then Throw ''Invalid key length''
     else case gl_decrypt g key iv authTag ciphertext of
       None \<Rightarrow> Throw ''Unsupported state or unable to authenticate data''
     | Some plaintext \<Rightarrow> Ok (to_hex plaintext))"

definition rowToKeyPair :: "gcm_lib \<Rightarrow> bytes \<Rightarrow> key_row \<Rightarrow> (string, committee_node_key_pair) result" where
  "rowToKeyPair g key row =
    res_bind (decryptSecret g (kr_encryption_secret row) key) (\<lambda>boxSecret.
    res_bind (decryptSecret g (kr_signing_secret row) key) (\<lambda>signSecret.
    Ok \<lparr> kp_nodeId = kr_node_id row, kp_boxPublic = from_hex (kr_encryption_pubkey row), kp_boxSecret = from_hex boxSecret,
      kp_signPublic = from_hex (kr_signing_pubkey row), kp_signSecret = from_hex signSecret \<rparr>))"

definition keyPairToRow :: "gcm_lib \<Rightarrow> bytes \<Rightarrow> bytes \<Rightarrow> bytes \<Rightarrow> committee_node_key_pair \<Rightarrow> (string, key_row) result" where
  "keyPairToRow g key iv1 iv2 kp =
    res_bind (encryptSecret g iv1 (to_hex (kp_boxSecret kp)) key) (\<lambda>es.
    res_bind (encryptSecret g iv2 (to_hex (kp_signSecret kp)) key) (\<lambda>ss.
    Ok \<lparr> kr_node_id = kp_nodeId kp, kr_encryption_pubkey = to_hex (kp_boxPublic kp), kr_encryption_secret = es,
      kr_signing_pubkey = to_hex (kp_signPublic kp), kr_signing_secret = ss \<rparr>))"

text \<open>The random draws for a node: its key pair and the two initialisation vectors. \<open>other\<close> is what other processes do to the
  table before the insert for a node.\<close>

record key_source =
  ks_keyPair :: "string \<Rightarrow> committee_node_key_pair"
  ks_iv :: "string \<Rightarrow> bytes \<times> bytes"
  ks_other :: "string \<Rightarrow> key_row list \<Rightarrow> key_row list"

definition row_for :: "string \<Rightarrow> key_row list \<Rightarrow> key_row option" where
  "row_for nid db = find_first (\<lambda>r. kr_node_id r = nid) db"

definition insert_key :: "key_row \<Rightarrow> key_row list \<Rightarrow> key_row list" where
  "insert_key row db = (if row_for (kr_node_id row) db \<noteq> None then db else db @ [row])"

fun generate_missing ::
  "gcm_lib \<Rightarrow> bytes \<Rightarrow> key_source \<Rightarrow> (string, committee_node_key_pair) jmap \<Rightarrow> string list \<Rightarrow> (key_row list, string, committee_node_key_pair list) stmt" where
  "generate_missing g key src existing [] db = (Ok [], db)"
| "generate_missing g key src existing (nid # ids) db =
    (case jm_get existing nid of
       Some kp \<Rightarrow> (case generate_missing g key src existing ids db of (Inl e, db') \<Rightarrow> (Throw e, db') | (Inr kps, db') \<Rightarrow> (Ok (kp # kps), db'))
     | None \<Rightarrow>
         (let kp = (ks_keyPair src nid) \<lparr> kp_nodeId := nid \<rparr> in
          case keyPairToRow g key (fst (ks_iv src nid)) (snd (ks_iv src nid)) kp of
            Inl e \<Rightarrow> (Throw e, db)
          | Inr row \<Rightarrow>
              (case generate_missing g key src existing ids (insert_key row (ks_other src nid db)) of
                 (Inl e, db') \<Rightarrow> (Throw e, db') | (Inr kps, db') \<Rightarrow> (Ok (kp # kps), db'))))"

definition loadOrGenerateKeys :: "gcm_lib \<Rightarrow> env_map \<Rightarrow> key_source \<Rightarrow> string list \<Rightarrow> (key_row list, string, committee_node_key_pair list) stmt" where
  "loadOrGenerateKeys g env src nodeIds db =
    (case loadEncryptionKey env of
       Inl e \<Rightarrow> (Throw e, db)
     | Inr key \<Rightarrow>
        (let rows = filter (\<lambda>r. kr_node_id r \<in> set nodeIds) db in
         if length rows = length nodeIds then
           (map_res (\<lambda>nid. case row_for nid rows of None \<Rightarrow> Throw ''Cannot read properties'' | Some r \<Rightarrow> rowToKeyPair g key r) nodeIds, db)
         else case map_res (rowToKeyPair g key) rows of
           Inl e \<Rightarrow> (Throw e, db)
         | Inr kps \<Rightarrow> generate_missing g key src (map (\<lambda>kp. (kp_nodeId kp, kp)) kps) nodeIds db))"


section \<open>The coordinator's configuration\<close>

definition node_url :: "string \<Rightarrow> (string, node_endpoint) result" where
  "node_url pair =
    (let parts = split_on (CHR ''='') pair; nodeId = parts ! 0; url = (if length parts < 2 then [] else parts ! 1) in
     if nodeId = [] \<or> url = [] then Throw (''invalid MPC_NODE_URLS entry: '' @ pair)
     else Ok \<lparr> ep_nodeId = js_trim nodeId, ep_url = js_trim url \<rparr>)"

definition parseNodeUrls :: "string \<Rightarrow> (string, node_endpoint list) result" where
  "parseNodeUrls spec = map_res node_url (split_on (CHR '','') spec)"

definition coordinator_config :: "env_map \<Rightarrow> (string, node_endpoint list \<times> string) result" where
  "coordinator_config env =
    (if \<not> set_env env ''MPC_NODE_URLS'' then Throw ''MPC_NODE_URLS is required''
     else res_bind (parseNodeUrls (case env ''MPC_NODE_URLS'' of None \<Rightarrow> [] | Some s \<Rightarrow> s)) (\<lambda>eps.
       if \<not> set_env env ''MPC_INTERNAL_TOKEN'' then Throw ''MPC_INTERNAL_TOKEN is required''
       else Ok (eps, case env ''MPC_INTERNAL_TOKEN'' of None \<Rightarrow> [] | Some s \<Rightarrow> s)))"

text \<open>\<open>GET /info\<close> of a node: \<open>None\<close> when the request fails, otherwise the status and the body.\<close>

definition fetchCommitteeInfo :: "(string \<Rightarrow> (nat \<times> committee_node_info) option) \<Rightarrow> node_endpoint list \<Rightarrow> (string, committee_node_info list) result" where
  "fetchCommitteeInfo get_info eps = map_res (\<lambda>n.
     case get_info (ep_url n) of
       None \<Rightarrow> Throw ''fetch failed''
     | Some (code, info) \<Rightarrow> if code < 200 \<or> 299 < code then Throw (''node '' @ ep_nodeId n @ '' /info failed: '' @ nat_to_string code) else Ok info) eps"


section \<open>The coordinator and its nodes\<close>

text \<open>The node processes by URL; \<open>up\<close> are the URLs that answer. A refused or failed delivery is only logged.\<close>

type_synonym node_net = "string \<Rightarrow> node_server option"

definition deliver_share :: "(string \<Rightarrow> bool) \<Rightarrow> node_endpoint list \<Rightarrow> string \<Rightarrow> string \<Rightarrow> encrypted_share \<Rightarrow> node_net \<Rightarrow> node_net" where
  "deliver_share up eps token intentId sh net =
    (case find_first (\<lambda>n. ep_nodeId n = es_nodeId sh) eps of
       None \<Rightarrow> net
     | Some n \<Rightarrow>
        (case net (ep_url n) of
           None \<Rightarrow> net
         | Some nd \<Rightarrow> if \<not> up (ep_url n) then net else net (ep_url n := Some (snd (node_post_share (VStr token) intentId sh nd)))))"

definition distributeShares :: "(string \<Rightarrow> bool) \<Rightarrow> node_endpoint list \<Rightarrow> string \<Rightarrow> string \<Rightarrow> encrypted_share list \<Rightarrow> node_net \<Rightarrow> node_net" where
  "distributeShares up eps token intentId shares net = fold (deliver_share up eps token intentId) shares net"

record coordinator =
  co_state :: committee_state
  co_net :: node_net
  co_db :: "settle_db option"

definition coordinator_post_intent ::
  "(string \<Rightarrow> bool) \<Rightarrow> node_endpoint list \<Rightarrow> string \<Rightarrow> int \<Rightarrow> mpc_intent \<Rightarrow> coordinator \<Rightarrow> (string \<times> string) http \<times> coordinator" where
  "coordinator_post_intent up eps token now intent c =
    (case post_intent (length eps) now intent (co_state c) of
       (HttpError code msg, st) \<Rightarrow> (HttpError code msg, c \<lparr> co_state := st \<rparr>)
     | (Http200 r, st) \<Rightarrow> (Http200 r, c \<lparr> co_state := st,
         co_net := distributeShares up eps token (in_intentId intent) (in_encryptedShares intent) (co_net c) \<rparr>))"

record session_view =
  vw_sessionId :: string
  vw_status :: session_status
  vw_intentCount :: nat
  vw_startedAt :: int
  vw_signedBatch :: "signed_match_batch option"

definition get_session :: "string \<Rightarrow> committee_state \<Rightarrow> session_view http" where
  "get_session sessionId st =
    (case getSession sessionId st of
       None \<Rightarrow> HttpError 404 ''session not found''
     | Some s \<Rightarrow> Http200 \<lparr> vw_sessionId = ss_sessionId s, vw_status = ss_status s, vw_intentCount = length (ss_intents s),
         vw_startedAt = ss_startedAt s, vw_signedBatch = ss_signedBatch s \<rparr>)"

text \<open>The outcome of a match route: a thrown round or a failed write is a 500.\<close>

definition persist_outcome :: "int \<Rightarrow> string \<Rightarrow> round_outcome \<Rightarrow> settle_db option \<Rightarrow> (string, unit) result \<times> settle_db option" where
  "persist_outcome now sessionId oc db =
    (case oc of
       RoundThrows _ \<Rightarrow> (Throw ''round threw'', db)
     | RoundFailed _ \<Rightarrow> (Ok (), db)
     | RoundOk batch \<Rightarrow>
        (case db of
           None \<Rightarrow> (Ok (), None)
         | Some d \<Rightarrow> (case persistSignedBatch now sessionId batch d of (Inl _, d') \<Rightarrow> (Throw ''database error'', Some d') | (Inr _, d') \<Rightarrow> (Ok (), Some d'))))"

definition match_and_persist ::
  "(session_state \<Rightarrow> round_outcome \<times> session_state) \<Rightarrow> int \<Rightarrow> string \<Rightarrow> coordinator \<Rightarrow> match_answer http \<times> coordinator" where
  "match_and_persist run now sessionId c =
    (case post_match run sessionId (co_state c) of
       (Http200 (MatchDone oc), st) \<Rightarrow>
        (case persist_outcome now sessionId oc (co_db c) of
           (Inl e, db) \<Rightarrow> (HttpError 500 e, c \<lparr> co_state := st, co_db := db \<rparr>)
         | (Inr _, db) \<Rightarrow> (Http200 (MatchDone oc), c \<lparr> co_state := st, co_db := db \<rparr>))
     | (ans, st) \<Rightarrow> (ans, c \<lparr> co_state := st \<rparr>))"

definition post_verify :: "nacl_lib \<Rightarrow> (bytes \<Rightarrow> bytes) \<Rightarrow> committee_node_info list \<Rightarrow> signed_match_batch option \<Rightarrow> (bool \<times> nat \<times> nat) http" where
  "post_verify lib sha infos body =
    (case body of
       None \<Rightarrow> HttpError 400 ''batch required''
     | Some batch \<Rightarrow> (case verifySignedBatch lib sha batch infos of
         None \<Rightarrow> HttpError 500 [] | Some valid \<Rightarrow> Http200 (valid, length infos, length (sb_signatures batch))))"

text \<open>One tick of the timer over the sessions open at its start. An error escapes the callback and ends the process: \<open>None\<close>.\<close>

fun timer_loop :: "(session_state \<Rightarrow> round_outcome \<times> session_state) \<Rightarrow> int \<Rightarrow> session_state list \<Rightarrow> coordinator \<Rightarrow> coordinator option" where
  "timer_loop run now [] c = Some c"
| "timer_loop run now (s # ss) c =
    (if length (ss_intents s) < 2 then timer_loop run now ss c
     else case run s of (oc, s') \<Rightarrow>
       (case persist_outcome now (ss_sessionId s) oc (co_db c) of
          (Inl _, _) \<Rightarrow> None
        | (Inr _, db) \<Rightarrow> timer_loop run now ss (c \<lparr> co_state := put_session s' (co_state c), co_db := db \<rparr>)))"

definition coordinator_tick :: "(session_state \<Rightarrow> round_outcome \<times> session_state) \<Rightarrow> int \<Rightarrow> coordinator \<Rightarrow> coordinator option" where
  "coordinator_tick run now c = timer_loop run now (getOpenSessions (co_state c)) c"


section \<open>Lemmas on stored keys\<close>

text \<open>What Node's AES-GCM documents: a tag of 16 bytes, and decryption inverts encryption under the same key and vector.\<close>

definition gcm_ok :: "gcm_lib \<Rightarrow> bytes \<Rightarrow> bool" where
  "gcm_ok g key \<longleftrightarrow> (\<forall>iv p. length iv = 12 \<longrightarrow> length (snd (gl_encrypt g key iv p)) = 16 \<and>
     gl_decrypt g key iv (snd (gl_encrypt g key iv p)) (fst (gl_encrypt g key iv p)) = Some p)"

lemma secret_roundtrip:
  assumes "gcm_ok g key" "length iv = 12" "encryptSecret g iv plainHex key = Ok enc"
  shows "decryptSecret g enc key = Ok (to_hex (from_hex plainHex))"
proof -
  obtain ct tag where e: "gl_encrypt g key iv (from_hex plainHex) = (ct, tag)" by fastforce
  have "length tag = 16" "gl_decrypt g key iv tag ct = Some (from_hex plainHex)"
    using assms(1,2) e unfolding gcm_ok_def by (metis fst_conv snd_conv)+
  moreover have "enc = to_hex (iv @ tag @ ct)" "length key = 32" using assms(3) e by (auto simp: encryptSecret_def split: if_splits)
  ultimately show ?thesis using assms(2) by (simp add: decryptSecret_def Let_def)
qed

lemma row_roundtrip:
  assumes "gcm_ok g key" "length iv1 = 12" "length iv2 = 12" "keyPairToRow g key iv1 iv2 kp = Ok row"
  shows "rowToKeyPair g key row = Ok kp" "kr_node_id row = kp_nodeId kp"
proof -
  obtain es ss where e: "encryptSecret g iv1 (to_hex (kp_boxSecret kp)) key = Ok es" "encryptSecret g iv2 (to_hex (kp_signSecret kp)) key = Ok ss"
    and row: "row = \<lparr> kr_node_id = kp_nodeId kp, kr_encryption_pubkey = to_hex (kp_boxPublic kp), kr_encryption_secret = es,
      kr_signing_pubkey = to_hex (kp_signPublic kp), kr_signing_secret = ss \<rparr>"
    using assms(4) by (auto simp: keyPairToRow_def res_bind_eq_Inr)
  show "rowToKeyPair g key row = Ok kp" "kr_node_id row = kp_nodeId kp"
    using secret_roundtrip [OF assms(1,2) e(1)] secret_roundtrip [OF assms(1,3) e(2)] by (simp_all add: rowToKeyPair_def row)
qed

definition decodes :: "gcm_lib \<Rightarrow> bytes \<Rightarrow> key_row list \<Rightarrow> string \<Rightarrow> committee_node_key_pair \<Rightarrow> bool" where
  "decodes g key db nid kp \<longleftrightarrow> (\<exists>r. row_for nid db = Some r \<and> rowToKeyPair g key r = Ok kp)"

lemma row_for_append: "row_for nid (db @ ext) = (case row_for nid db of None \<Rightarrow> row_for nid ext | Some r \<Rightarrow> Some r)"
  unfolding row_for_def by (rule find_first_append)

lemma decodes_append: "decodes g key db nid kp \<Longrightarrow> decodes g key (db @ ext) nid kp"
  by (auto simp: decodes_def row_for_append)

text \<open>With no other process at work, generation stores a row for every node it generates and keeps the rows there are.\<close>

lemma generate_missing_stores:
  assumes "gcm_ok g key" "\<And>n. length (fst (ks_iv src n)) = 12 \<and> length (snd (ks_iv src n)) = 12" "\<And>n d. ks_other src n d = d"
  shows "generate_missing g key src existing ids db = (Ok kps, db') \<Longrightarrow> distinct ids \<Longrightarrow>
    (\<And>n kp. jm_get existing n = Some kp \<Longrightarrow> decodes g key db n kp) \<Longrightarrow>
    (\<And>n. n \<in> set ids \<Longrightarrow> jm_get existing n = None \<Longrightarrow> row_for n db = None) \<Longrightarrow> distinct (map kr_node_id db) \<Longrightarrow>
    list_all2 (decodes g key db') ids kps \<and> distinct (map kr_node_id db') \<and> (\<exists>ext. db' = db @ ext)"
proof (induction ids arbitrary: db kps)
  case (Cons n ids)
  show ?case
  proof (cases "jm_get existing n")
    case (Some kp)
    then obtain kps' where rec: "generate_missing g key src existing ids db = (Ok kps', db')" and kps: "kps = kp # kps'"
      using Cons.prems(1) by (auto split: sum.splits prod.splits)
    from Cons.IH [OF rec] Cons.prems have ih: "list_all2 (decodes g key db') ids kps'" "distinct (map kr_node_id db')" "\<exists>ext. db' = db @ ext" by auto
    then show ?thesis using kps decodes_append Cons.prems(3) [OF Some] by auto
  next
    case None
    let ?kp = "ks_keyPair src n \<lparr> kp_nodeId := n \<rparr>"
    from None Cons.prems(1) obtain row kps' where row: "keyPairToRow g key (fst (ks_iv src n)) (snd (ks_iv src n)) ?kp = Ok row"
      and rec: "generate_missing g key src existing ids (insert_key row db) = (Ok kps', db')" and kps: "kps = ?kp # kps'"
      by (auto simp: Let_def assms(3) split: sum.splits prod.splits)
    have rt: "rowToKeyPair g key row = Ok ?kp" "kr_node_id row = n"
      using row_roundtrip [OF assms(1) _ _ row] assms(2) by simp_all
    have absent: "row_for n db = None" using Cons.prems(4) None by simp
    then have ins: "insert_key row db = db @ [row]" by (simp add: insert_key_def rt(2))
    have mine: "decodes g key (db @ [row]) n ?kp" using rt absent by (simp add: decodes_def row_for_append) (simp add: row_for_def)
    have other: "row_for m (db @ [row]) = row_for m db" if "m \<noteq> n" for m
    proof -
      have "row_for m [row] = None" using that rt(2) by (simp add: row_for_def)
      then show ?thesis by (cases "row_for m db") (simp_all add: row_for_append)
    qed
    have "distinct (map kr_node_id (db @ [row]))" using Cons.prems(5) absent rt(2) by (auto simp: row_for_def)
    moreover have "row_for m (db @ [row]) = None" if "m \<in> set ids" "jm_get existing m = None" for m
      using Cons.prems(2,4) that other by (metis distinct.simps(2) list.set_intros(2))
    ultimately have ih: "list_all2 (decodes g key db') ids kps'" "distinct (map kr_node_id db')" "\<exists>ext. db' = (db @ [row]) @ ext"
      using Cons.IH [OF rec [unfolded ins]] Cons.prems(2,3) decodes_append by auto
    then obtain ext where ext: "db' = (db @ [row]) @ ext" by blast
    have "decodes g key db' n ?kp" unfolding ext by (rule decodes_append [OF mine])
    then show ?thesis using kps ih(1,2) ext by auto
  qed
qed auto

lemma row_for_filter: "n \<in> ids \<Longrightarrow> row_for n (filter (\<lambda>r. kr_node_id r \<in> ids) db) = row_for n db"
  by (induction db) (auto simp: row_for_def)

lemma map_res_decodes:
  "list_all2 (decodes g key db) ids kps \<Longrightarrow> set ids \<subseteq> S \<Longrightarrow>
   map_res (\<lambda>n. case row_for n (filter (\<lambda>r. kr_node_id r \<in> S) db) of None \<Rightarrow> Throw e | Some r \<Rightarrow> rowToKeyPair g key r) ids = Ok kps"
  by (induction ids kps rule: list_all2_induct) (auto simp: decodes_def row_for_filter)

lemma rows_of_all:
  assumes "distinct ids" "distinct (map kr_node_id db)" "list_all2 (decodes g key db) ids kps"
  shows "length (filter (\<lambda>r. kr_node_id r \<in> set ids) db) = length ids"
proof -
  let ?rows = "filter (\<lambda>r. kr_node_id r \<in> set ids) db"
  have d: "distinct (map kr_node_id ?rows)" using assms(2) by (simp add: distinct_map_filter)
  have "n \<in> kr_node_id ` set db" if n: "n \<in> set ids" for n
  proof -
    obtain i where "i < length ids" "ids ! i = n" using n by (auto simp: in_set_conv_nth)
    then have "decodes g key db n (kps ! i)" using assms(3) by (auto simp: list_all2_conv_all_nth)
    then show ?thesis by (auto simp: decodes_def row_for_def dest!: find_first_Some)
  qed
  then have "set (map kr_node_id ?rows) = set ids" by auto
  then have "card (set (map kr_node_id ?rows)) = card (set ids)" by simp
  then show ?thesis using distinct_card [OF d] distinct_card [OF assms(1)] by simp
qed

lemma decoded_rows:
  assumes "map_res (rowToKeyPair g key) rows = Ok kps" "distinct (map kr_node_id rows)"
  shows "jm_get (map (\<lambda>kp. (kp_nodeId kp, kp)) kps) n = Some kp \<Longrightarrow> decodes g key rows n kp"
    and "jm_get (map (\<lambda>kp. (kp_nodeId kp, kp)) kps) n = None \<Longrightarrow> row_for n rows = None"
proof -
  have "(jm_get (map (\<lambda>kp. (kp_nodeId kp, kp)) kps) n = Some kp \<longrightarrow> decodes g key rows n kp) \<and>
    (jm_get (map (\<lambda>kp. (kp_nodeId kp, kp)) kps) n = None \<longrightarrow> row_for n rows = None)"
    using assms
  proof (induction rows arbitrary: kps)
    case (Cons r rows)
    then obtain k ks where k: "rowToKeyPair g key r = Ok k" "map_res (rowToKeyPair g key) rows = Ok ks" "kps = k # ks"
      by (auto simp: res_bind_eq_Inr)
    have kid: "kp_nodeId k = kr_node_id r" using k(1) by (auto simp: rowToKeyPair_def res_bind_eq_Inr)
    show ?case
    proof (cases "n = kr_node_id r")
      case True
      then show ?thesis using k kid by (simp add: jm_get_def decodes_def row_for_def)
    next
      case False
      have "row_for n (r # rows) = row_for n rows" using False by (simp add: row_for_def)
      then show ?thesis using Cons.IH [OF k(2)] Cons.prems(2) False k(3) kid by (simp add: jm_get_def decodes_def)
    qed
  qed (simp add: row_for_def)
  then show "jm_get (map (\<lambda>kp. (kp_nodeId kp, kp)) kps) n = Some kp \<Longrightarrow> decodes g key rows n kp"
    "jm_get (map (\<lambda>kp. (kp_nodeId kp, kp)) kps) n = None \<Longrightarrow> row_for n rows = None" by blast+
qed

lemma map_res_decodes_back:
  "map_res (\<lambda>n. case row_for n rows of None \<Rightarrow> Throw e | Some r \<Rightarrow> rowToKeyPair g key r) ids = Ok kps \<Longrightarrow> list_all2 (decodes g key rows) ids kps"
  by (induction ids arbitrary: kps) (auto simp: res_bind_eq_Inr decodes_def split: option.splits)

lemma decodes_filter: "decodes g key (filter (\<lambda>r. kr_node_id r \<in> S) db) n kp \<Longrightarrow> decodes g key db n kp"
proof -
  assume a: "decodes g key (filter (\<lambda>r. kr_node_id r \<in> S) db) n kp"
  then have "n \<in> S" by (auto simp: decodes_def row_for_def dest!: find_first_Some)
  then show ?thesis using a by (simp add: decodes_def row_for_filter)
qed

lemma decodes_id: "decodes g key db n kp \<Longrightarrow> kp_nodeId kp = n"
  by (auto simp: decodes_def row_for_def rowToKeyPair_def res_bind_eq_Inr dest!: find_first_Some)


section \<open>Properties of stored keys\<close>

text \<open>Committee keys survive restarts. When no other process writes the table, a start that succeeds returns one key pair per node in
  order and keeps the stored rows, and every later start with the same encryption key returns the same key pairs, whatever it would
  generate, and stores nothing.\<close>

theorem committee_keys_survive_restart:
  assumes "loadEncryptionKey env = Ok key" "gcm_ok g key" "\<And>n. length (fst (ks_iv src n)) = 12 \<and> length (snd (ks_iv src n)) = 12"
    and "\<And>n d. ks_other src n d = d" "distinct ids" "distinct (map kr_node_id db)" "loadOrGenerateKeys g env src ids db = (Ok kps, db')"
  shows "map kp_nodeId kps = ids \<and> take (length db) db' = db \<and> (\<forall>src'. loadOrGenerateKeys g env src' ids db' = (Ok kps, db'))"
proof -
  let ?rows = "filter (\<lambda>r. kr_node_id r \<in> set ids) db"
  have drows: "distinct (map kr_node_id ?rows)" using assms(6) by (simp add: distinct_map_filter)
  have main: "list_all2 (decodes g key db') ids kps \<and> distinct (map kr_node_id db') \<and> (\<exists>ext. db' = db @ ext)"
  proof (cases "length ?rows = length ids")
    case True
    then have db: "db' = db" and m: "map_res (\<lambda>n. case row_for n ?rows of None \<Rightarrow> Throw ''Cannot read properties'' | Some r \<Rightarrow> rowToKeyPair g key r) ids = Ok kps"
      using assms(1,7) by (auto simp: loadOrGenerateKeys_def Let_def)
    have "list_all2 (decodes g key db) ids kps" using map_res_decodes_back [OF m] decodes_filter by (rule list_all2_mono)
    then show ?thesis using db assms(6) by simp
  next
    case False
    then obtain ks where ks: "map_res (rowToKeyPair g key) ?rows = Ok ks"
      and gen: "generate_missing g key src (map (\<lambda>kp. (kp_nodeId kp, kp)) ks) ids db = (Ok kps, db')"
      using assms(1,7) by (auto simp: loadOrGenerateKeys_def Let_def split: sum.splits)
    show ?thesis
    proof (rule generate_missing_stores [OF assms(2-4) gen assms(5) _ _ assms(6)])
      show "decodes g key db n kp" if "jm_get (map (\<lambda>kp. (kp_nodeId kp, kp)) ks) n = Some kp" for n kp
        using decodes_filter [OF decoded_rows(1) [OF ks drows that]] .
      show "row_for n db = None" if "n \<in> set ids" "jm_get (map (\<lambda>kp. (kp_nodeId kp, kp)) ks) n = None" for n
        using decoded_rows(2) [OF ks drows that(2)] unfolding row_for_filter [OF that(1)] .
    qed
  qed
  then obtain ext where ext: "db' = db @ ext" by blast
  have "loadOrGenerateKeys g env src' ids db' = (Ok kps, db')" for src'
    using main rows_of_all [OF assms(5), of db' g key kps] map_res_decodes [of g key db' ids kps "set ids"] assms(1)
    by (simp add: loadOrGenerateKeys_def Let_def)
  moreover have "map kp_nodeId kps = ids"
  proof -
    have "list_all2 (decodes g key db') xs ks \<Longrightarrow> map kp_nodeId ks = xs" for xs ks
      by (induction xs ks rule: list_all2_induct) (simp_all add: decodes_id)
    then show ?thesis using main by blast
  qed
  ultimately show ?thesis using ext by simp
qed

text \<open>A start with an empty table, a key of zeros and an identity in place of the cipher.\<close>

definition demo_gcm :: gcm_lib where
  "demo_gcm = \<lparr> gl_encrypt = (\<lambda>key iv p. (p, replicate 16 0)), gl_decrypt = (\<lambda>key iv tag c. Some c) \<rparr>"

definition demo_key_env :: env_map where
  "demo_key_env k = Some (replicate 64 (CHR ''0''))"

definition demo_source :: "8 word \<Rightarrow> key_source" where
  "demo_source b = \<lparr> ks_keyPair = (\<lambda>n. \<lparr> kp_nodeId = n, kp_boxPublic = [b], kp_boxSecret = [b], kp_signPublic = [b], kp_signSecret = [b] \<rparr>),
     ks_iv = (\<lambda>_. (replicate 12 0, replicate 12 0)), ks_other = (\<lambda>_ d. d) \<rparr>"

lemma from_hex_zeros: "from_hex (replicate (2 * n) (CHR ''0'')) = replicate n 0"
proof (induction n)
  case (Suc n)
  have "replicate (2 * Suc n) (CHR ''0'') = CHR ''0'' # CHR ''0'' # replicate (2 * n) (CHR ''0'')" by simp
  then show ?case using Suc by (simp add: hex_val_def)
qed simp

lemma demo_key: "loadEncryptionKey demo_key_env = Ok (replicate 32 0)"
  using from_hex_zeros [of 32] by (simp add: loadEncryptionKey_def demo_key_env_def)

theorem committee_keys_survive_restart_witness:
  "\<exists>kps db'. loadOrGenerateKeys demo_gcm demo_key_env (demo_source 1) [''n1'', ''n2''] [] = (Ok kps, db') \<and> map kp_nodeId kps = [''n1'', ''n2''] \<and>
     loadOrGenerateKeys demo_gcm demo_key_env (demo_source 2) [''n1'', ''n2''] db' = (Ok kps, db')"
proof -
  have "\<exists>kps db'. loadOrGenerateKeys demo_gcm demo_key_env (demo_source 1) [''n1'', ''n2''] [] = (Ok kps, db')"
    by (simp add: loadOrGenerateKeys_def demo_key keyPairToRow_def encryptSecret_def demo_gcm_def demo_source_def Let_def insert_key_def)
  then obtain kps db' where k: "loadOrGenerateKeys demo_gcm demo_key_env (demo_source 1) [''n1'', ''n2''] [] = (Ok kps, db')" by blast
  have "gcm_ok demo_gcm key" for key by (simp add: gcm_ok_def demo_gcm_def)
  from committee_keys_survive_restart [OF demo_key this _ _ _ _ k] k show ?thesis by (auto simp: demo_source_def)
qed


section \<open>Properties of the coordinator\<close>

lemma deliver_share_elsewhere:
  assumes "\<And>n. find_first (\<lambda>n. ep_nodeId n = es_nodeId sh) eps = Some n \<Longrightarrow> ep_url n \<noteq> url"
  shows "deliver_share up eps token intentId sh net url = net url"
  using assms by (auto simp: deliver_share_def split: option.splits)

lemma distribute_later:
  assumes "\<And>sh n. sh \<in> set shares \<Longrightarrow> find_first (\<lambda>n. ep_nodeId n = es_nodeId sh) eps = Some n \<Longrightarrow> ep_url n \<noteq> url"
  shows "distributeShares up eps token intentId shares net url = net url"
  using assms unfolding distributeShares_def
proof (induction shares arbitrary: net)
  case (Cons sh shares)
  have "deliver_share up eps token intentId sh net url = net url" by (rule deliver_share_elsewhere) (use Cons.prems in auto)
  moreover have "fold (deliver_share up eps token intentId) shares (deliver_share up eps token intentId sh net) url = deliver_share up eps token intentId sh net url"
    by (rule Cons.IH) (use Cons.prems in auto)
  ultimately show ?case by simp
qed simp

text \<open>An accepted intent reaches the nodes. After the coordinator answers 200, every node that is up, configured under its own id
  with the coordinator's token, holds the share addressed to it and answers decryption requests with that share's plaintext; a node
  that is down holds what it held.\<close>

theorem intent_shares_reach_their_nodes:
  assumes "coordinator_post_intent up eps token now intent c = (Http200 r, c')"
    and "distinct (map ep_nodeId eps)" "distinct (map ep_url eps)" "distinct (map es_nodeId (in_encryptedShares intent))"
    and "ep \<in> set eps" "sh \<in> set (in_encryptedShares intent)" "es_nodeId sh = ep_nodeId ep"
    and "co_net c (ep_url ep) = Some nd" "kp_nodeId (nd_keys nd) = ep_nodeId ep" "nd_token nd = token"
  shows "\<exists>nd'. co_net c' (ep_url ep) = Some nd' \<and> nd_keys nd' = nd_keys nd \<and>
    (if up (ep_url ep) then jm_get (nd_shares nd') (in_intentId intent) = Some sh \<and>
       decrypt_one lib nd' (in_intentId intent) = (case decryptShare lib sh (kp_boxSecret (nd_keys nd)) of Inl _ \<Rightarrow> VNull | Inr v \<Rightarrow> v)
     else nd' = nd)"
proof -
  let ?i = "in_intentId intent" and ?url = "ep_url ep"
  have net: "co_net c' = distributeShares up eps token ?i (in_encryptedShares intent) (co_net c)"
    using assms(1) by (auto simp: coordinator_post_intent_def split: prod.splits http.splits)
  obtain xs ys where split: "in_encryptedShares intent = xs @ sh # ys" using assms(6) by (meson split_list)
  have find: "find_first (\<lambda>n. ep_nodeId n = ep_nodeId ep) eps = Some ep"
    by (rule find_first_unique) (use assms(2,5) in \<open>auto simp: distinct_map inj_on_def\<close>)
  have away: "ep_url n \<noteq> ?url" if "sh' \<in> set (xs @ ys)" "find_first (\<lambda>n. ep_nodeId n = es_nodeId sh') eps = Some n" for sh' n
  proof
    assume "ep_url n = ?url"
    then have "n = ep" using find_first_Some [OF that(2)] assms(3,5) by (auto simp: distinct_map inj_on_def)
    then have "es_nodeId sh' = es_nodeId sh" using find_first_Some [OF that(2)] assms(7) by simp
    moreover have "es_nodeId sh \<notin> set (map es_nodeId (xs @ ys))" using assms(4) by (simp add: split)
    ultimately show False using imageI [OF that(1), of es_nodeId] by (simp add: image_Un)
  qed
  let ?n1 = "distributeShares up eps token ?i xs (co_net c)"
  have keep: "set zs \<subseteq> set (xs @ ys) \<Longrightarrow> distributeShares up eps token ?i zs net ?url = net ?url" for zs net
    by (rule distribute_later) (use away in blast)
  have n1: "?n1 ?url = Some nd" using keep [of xs "co_net c"] assms(8) by simp
  let ?n2 = "deliver_share up eps token ?i sh ?n1"
  have n2: "?n2 ?url = Some (if up ?url then nd \<lparr> nd_shares := jm_set (nd_shares nd) ?i sh \<rparr> else nd)"
    using n1 find assms(7,9,10) by (simp add: deliver_share_def node_post_share_def requireInternalAuth_def)
  have "co_net c' ?url = ?n2 ?url"
    unfolding net split using keep [of ys ?n2] by (simp add: distributeShares_def)
  then show ?thesis using n2 by (simp add: decrypt_one_def)
qed

text \<open>A committee of one node, which is up.\<close>

definition demo_share :: encrypted_share where
  "demo_share = \<lparr> es_nodeId = ''n1'', es_ciphertext = ''c'', es_nonce = ''n'', es_senderPubkey = ''p'' \<rparr>"

definition demo_node :: node_server where
  "demo_node = \<lparr> nd_keys = \<lparr> kp_nodeId = ''n1'', kp_boxPublic = [], kp_boxSecret = [], kp_signPublic = [], kp_signSecret = [] \<rparr>, nd_token = ''tok'', nd_shares = [] \<rparr>"

definition demo_coordinator :: coordinator where
  "demo_coordinator = \<lparr> co_state = empty_state, co_net = (\<lambda>u. if u = ''u1'' then Some demo_node else None), co_db = None \<rparr>"

theorem intent_shares_reach_their_nodes_witness:
  "\<exists>r c' nd'. coordinator_post_intent (\<lambda>_. True) [\<lparr> ep_nodeId = ''n1'', ep_url = ''u1'' \<rparr>] ''tok'' 5 (demo_intent ''i1'' \<lparr> in_encryptedShares := [demo_share] \<rparr>) demo_coordinator = (Http200 r, c') \<and>
    co_net c' ''u1'' = Some nd' \<and> jm_get (nd_shares nd') ''i1'' = Some demo_share"
proof -
  let ?eps = "[\<lparr> ep_nodeId = ''n1'', ep_url = ''u1'' \<rparr>]" and ?intent = "demo_intent ''i1'' \<lparr> in_encryptedShares := [demo_share] \<rparr>"
  have "\<exists>r c'. coordinator_post_intent (\<lambda>_. True) ?eps ''tok'' 5 ?intent demo_coordinator = (Http200 r, c')"
    by (simp add: coordinator_post_intent_def post_intent_def demo_intent_def case_prod_unfold Let_def)
  then obtain r c' where p: "coordinator_post_intent (\<lambda>_. True) ?eps ''tok'' 5 ?intent demo_coordinator = (Http200 r, c')" by blast
  have i: "in_intentId (demo_intent ''i1'') = ''i1''" by (simp add: demo_intent_def)
  obtain nd' where "co_net c' ''u1'' = Some nd'" "jm_get (nd_shares nd') ''i1'' = Some demo_share"
    using intent_shares_reach_their_nodes [OF p, of "\<lparr> ep_nodeId = ''n1'', ep_url = ''u1'' \<rparr>" demo_share demo_node undefined]
    by (auto simp: demo_share_def demo_coordinator_def demo_node_def i)
  then show ?thesis using p by blast
qed

context matching_round
begin

text \<open>After a match request on an open session with two intents, the session is closed for every later request.\<close>

lemma matched_session_stays_closed:
  assumes "state_inv (co_state c)" "getSession sid (co_state c) = Some s" "ss_status s = StOpen" "2 \<le> length (ss_intents s)"
    and "match_and_persist run now sid c = (ans, c')"
  shows "getSession sid (co_state c') = Some (snd (run s)) \<and> match_and_persist run' now' sid c' = (Http200 (AlreadyClosed (ss_status (snd (run s)))), c')"
proof -
  obtain oc s' where r: "run s = (oc, s')" by fastforce
  have sid: "ss_sessionId s = sid"
    using assms(1,2) by (auto simp: state_inv_def getSession_def jm_get_def list_all_iff dest: map_of_SomeD)
  have st: "co_state c' = put_session s' (co_state c)"
    using assms(2,3,5) r by (auto simp: match_and_persist_def post_match_def split: prod.splits sum.splits)
  have "getSession sid (co_state c') = Some s'" using st run_id [of s] r sid by (simp add: getSession_def put_session_def)
  moreover have "ss_status s' \<noteq> StOpen" using run_closes [OF assms(4)] r by simp
  ultimately show ?thesis using r by (simp add: match_and_persist_def post_match_def)
qed

end

text \<open>A batch that cannot be written is lost. When the database has no row for the session, the route that signed the batch answers 500
  and leaves the database as it was; the session is then closed, every later request on it is refused without writing, and when the
  timer runs the round instead, the process ends.\<close>

theorem unsaved_batch_is_lost:
  fixes sha srt b pd ps eps
  defines "run \<equiv> \<lambda>s. runMatchingRoundRemote sha srt b pd ps s eps"
  assumes "state_inv (co_state c)" "getSession sid (co_state c) = Some s" "ss_status s = StOpen" "2 \<le> length (ss_intents s)"
    and "run s = (RoundOk batch, s')" "co_db c = Some d" "sid \<notin> sr_session_id ` set (d_sessions d)" "sb_batchId batch \<notin> b_batch_id ` set (d_batches d)"
  shows "\<exists>c'. match_and_persist run now sid c = (HttpError 500 ''database error'', c') \<and> co_db c' = Some d \<and>
    (\<forall>run' now'. match_and_persist run' now' sid c' = (Http200 (AlreadyClosed (ss_status s')), c')) \<and>
    coordinator_tick run now c = None"
proof -
  have sid: "ss_sessionId s = sid"
    using assms(2,3) by (auto simp: state_inv_def getSession_def jm_get_def list_all_iff dest: map_of_SomeD)
  have p: "persist_outcome now sid (RoundOk batch) (co_db c) = (Throw ''database error'', Some d)"
    using assms(7-9) by (simp add: persist_outcome_def persistSignedBatch_def andThen_def insert_batch_def)
  let ?c' = "c \<lparr> co_state := put_session s' (co_state c), co_db := Some d \<rparr>"
  have m: "match_and_persist run now sid c = (HttpError 500 ''database error'', ?c')"
    using assms(3,4,6) p by (simp add: match_and_persist_def post_match_def)
  have later: "match_and_persist run' now' sid ?c' = (Http200 (AlreadyClosed (ss_status s')), ?c')" for run' now'
    using remote_round.matched_session_stays_closed [OF assms(2-5) m [unfolded run_def]] assms(6) by (simp add: run_def)
  have "s \<in> set (getOpenSessions (co_state c))" using assms(2,3,4)
    by (auto simp: getOpenSessions_def getSession_def state_inv_def jm_values_get)
  then have "getOpenSessions (co_state c) = [s]" using assms(2)
    by (auto simp: state_inv_def le_Suc_eq length_Suc_conv)
  then have "coordinator_tick run now c = None" using assms(5,6) p sid by (simp add: coordinator_tick_def)
  then show ?thesis using m later by (intro exI [of _ ?c']) simp
qed

text \<open>The two intents were sent to the coordinator directly, so the database knows nothing of their session.\<close>

definition demo_empty_db :: settle_db where
  "demo_empty_db = \<lparr> d_sessions = [], d_intents = [], d_batches = [], d_signatures = [], d_rfq_hashes = [], d_queue = empty_queue \<rparr>"

definition demo_waiting :: "encrypted_share list \<Rightarrow> coordinator" where
  "demo_waiting es = \<lparr> co_state = put_session (demo_session es) empty_state, co_net = (\<lambda>_. None), co_db = Some demo_empty_db \<rparr>"

theorem unsaved_batch_is_lost_witness:
  "\<exists>es run c'. match_and_persist run 6 ''s'' (demo_waiting es) = (HttpError 500 ''database error'', c') \<and> co_db c' = Some demo_empty_db \<and>
    coordinator_tick run 6 (demo_waiting es) = None"
proof -
  obtain es where es: "session_honest demo_nacl demo_kps (\<lambda>_. 1000) (demo_session es)" "2 \<le> length (ss_intents (demo_session es))"
    "map ep_nodeId demo_eps = map kp_nodeId demo_kps" "map nd_keys (demo_nodes es) = demo_kps"
    "2 \<le> length (filter (\<lambda>k. k \<noteq> 0) [0..<length demo_kps])" "threshold (length demo_kps) \<le> length (filter (\<lambda>k. k \<noteq> 0) [0..<length demo_kps])"
    "node_answers demo_nacl (\<lambda>k. k \<noteq> 0) (demo_nodes es) demo_eps (demo_post es)"
    "node_signs demo_nacl demo_sha (\<lambda>k. k \<noteq> 0) (demo_nodes es) demo_eps (demo_sign es)"
    "\<forall>(i, intent)\<in>set (ss_intents (demo_session es)). \<forall>k<length demo_kps. k \<noteq> 0 \<longrightarrow>
      jm_get (nd_shares (demo_nodes es ! k)) i = Some (in_encryptedShares intent ! k)" by (rule demo_round)
  obtain out s' where run: "runMatchingRoundRemote demo_sha (sort_key mi_amount7dp) ''b'' (demo_post es) (demo_sign es) (demo_session es) demo_eps = (out, s')"
    by fastforce
  obtain batch where b: "out = RoundOk batch" by (rule remote_round_outcome [OF demo_nacl_correct(2) demo_committee_ok es run])
  have ds: "ss_sessionId (demo_session es) = ''s''" "ss_status (demo_session es) = StOpen"
    by (simp_all add: demo_session_def add_to_session_def fresh_session_def)
  have st: "state_inv (co_state (demo_waiting es))" "getSession ''s'' (co_state (demo_waiting es)) = Some (demo_session es)"
    by (simp_all add: demo_waiting_def state_inv_def put_session_def empty_state_def ds getSession_def getOpenSessions_def jm_values_def jm_get_def jm_inv_def)
  show ?thesis
    using unsaved_batch_is_lost [OF st ds(2) es(2) run [unfolded b], of demo_empty_db 6] by (auto simp: demo_waiting_def demo_empty_db_def)
qed

end
