(* ===== verification/ClientIntents.thy ===== *)
theory ClientIntents
  imports ApiGuarantees Rounds Quotes Settler Hex
begin

text \<open>
  The client side of private intents: the browser helpers of \<open>packages/sdk/src/mpc.ts\<close> (Shamir split, encryption per node,
  commitments) and the \<open>IntentClient\<close> of \<open>packages/sdk/src/intents.ts\<close>. TweetNaCl, SHA-256, the random source, the clock and the
  answers to HTTP requests are parameters.
\<close>

section \<open>Shares and commitments\<close>

definition sdk_randomFieldElement :: "bytes \<Rightarrow> int" where
  "sdk_randomFieldElement drawn = modp (be_value drawn)"

text \<open>\<open>draw i\<close> is the \<open>i\<close>-th draw of 32 bytes, from 1. The split checks neither the threshold nor the number of shares.\<close>

definition sdk_shamirSplit :: "(nat \<Rightarrow> bytes) \<Rightarrow> int \<Rightarrow> nat \<Rightarrow> nat \<Rightarrow> share list" where
  "sdk_shamirSplit draw secret th n =
    (let coeffs = modp secret # map (\<lambda>i. sdk_randomFieldElement (draw i)) [1..<th] in
     map (\<lambda>i. let x = int (i + 1) in \<lparr> sh_x = x, sh_y = eval_share coeffs x \<rparr>) [0..<n])"

definition sdk_encryptShareForNode ::
  "nacl_lib \<Rightarrow> bytes \<Rightarrow> bytes \<Rightarrow> share \<Rightarrow> string \<Rightarrow> string \<Rightarrow> (committee_error, encrypted_share) result" where
  "sdk_encryptShareForNode lib ephSk nonce sh recipientPubkeyHex nodeId =
    (case nl_box lib (utf8 (stringify (VObj [(''x'', VStr (int_to_string (sh_x sh))), (''y'', VStr (int_to_string (sh_y sh)))]))) nonce
       (fromHex recipientPubkeyHex) ephSk of
       None \<Rightarrow> Throw NaclThrows
     | Some ct \<Rightarrow> Ok \<lparr> es_nodeId = nodeId, es_ciphertext = to_hex ct, es_nonce = to_hex nonce, es_senderPubkey = to_hex (nl_box_public lib ephSk) \<rparr>)"

definition splitAndEncryptAmount ::
  "nacl_lib \<Rightarrow> (bytes \<times> bytes) list \<Rightarrow> (nat \<Rightarrow> bytes) \<Rightarrow> int \<Rightarrow> committee_node_info list \<Rightarrow> nat \<Rightarrow> (committee_error, encrypted_share list) result" where
  "splitAndEncryptAmount lib eph draw amount7dp nodes th =
    (let shares = sdk_shamirSplit draw amount7dp th (length nodes) in
     map_res (\<lambda>i. sdk_encryptShareForNode lib (fst (eph ! i)) (snd (eph ! i)) (shares ! i) (ni_encryptionPubkey (nodes ! i)) (ni_nodeId (nodes ! i)))
       [0..<length nodes])"

definition randomBlinding :: "bytes \<Rightarrow> string" where
  "randomBlinding drawn = to_hex drawn"

definition buildAmountCommitment :: "(bytes \<Rightarrow> bytes) \<Rightarrow> int \<Rightarrow> string \<Rightarrow> string" where
  "buildAmountCommitment sha amount7dp blindingHex = ''0x'' @ to_hex (sha (utf8 (int_to_string amount7dp @ '':'' @ blindingHex)))"

definition buildValueCommitment :: "(bytes \<Rightarrow> bytes) \<Rightarrow> string \<Rightarrow> string \<Rightarrow> string" where
  "buildValueCommitment sha value blindingHex = ''0x'' @ to_hex (sha (utf8 (value @ '':'' @ blindingHex)))"


section \<open>Requests\<close>

record client =
  cl_apiBase :: string
  cl_authToken :: "string option"

record client_request =
  cr_method :: string
  cr_url :: string
  cr_headers :: "(string \<times> string) list"
  cr_body :: "string option"

text \<open>The status and text of an answer; \<open>None\<close>: the request fails.\<close>

type_synonym client_net = "client_request \<Rightarrow> (nat \<times> string) option"

definition client_headers :: "client \<Rightarrow> (string \<times> string) list" where
  "client_headers c = (''Content-Type'', ''application/json'') #
     (case cl_authToken c of None \<Rightarrow> [] | Some t \<Rightarrow> if t = [] then [] else [(''Authorization'', ''Bearer '' @ t)])"

definition read_answer :: "string \<Rightarrow> (nat \<times> string) option \<Rightarrow> (string, jsval) result" where
  "read_answer what ans =
    (case ans of
       None \<Rightarrow> Throw ''fetch failed''
     | Some (code, body) \<Rightarrow>
        if \<not> http_ok code then Throw (what @ '': '' @ nat_to_string code @ '' '' @ body)
        else case json_parse body of None \<Rightarrow> Throw ''Unexpected token'' | Some v \<Rightarrow> Ok v)"

definition client_post :: "client \<Rightarrow> client_net \<Rightarrow> string \<Rightarrow> jsval \<Rightarrow> (string, jsval) result" where
  "client_post c net path body = read_answer (''POST '' @ path)
     (net \<lparr> cr_method = ''POST'', cr_url = cl_apiBase c @ path, cr_headers = client_headers c, cr_body = Some (stringify body) \<rparr>)"

definition client_get :: "client \<Rightarrow> client_net \<Rightarrow> string \<Rightarrow> (string, jsval) result" where
  "client_get c net path = read_answer (''GET '' @ path)
     (net \<lparr> cr_method = ''GET'', cr_url = cl_apiBase c @ path, cr_headers = client_headers c, cr_body = None \<rparr>)"

text \<open>The committee as the API reports it; its members are strings.\<close>

definition node_of :: "jsval \<Rightarrow> (string, committee_node_info) result" where
  "node_of v = (case (js_get v ''nodeId'', js_get v ''encryptionPubkey'', js_get v ''signingPubkey'') of
     (VStr n, VStr e, VStr s) \<Rightarrow> Ok \<lparr> ni_nodeId = n, ni_encryptionPubkey = e, ni_signingPubkey = s \<rparr> | _ \<Rightarrow> Throw ''TypeError'')"

definition fetchCommittee :: "client \<Rightarrow> client_net \<Rightarrow> (string, committee_node_info list) result" where
  "fetchCommittee c net =
    res_bind (client_get c net ''/v1/mpc/committee'') (\<lambda>data.
    case js_get data ''nodes'' of VArr vs \<Rightarrow> map_res node_of vs | _ \<Rightarrow> Throw ''TypeError'')"


section \<open>Building and submitting\<close>

record intent_params =
  ip_inputAsset :: string
  ip_outputAsset :: string
  ip_amountMode :: string
  ip_amount7dp :: string
  ip_minOutput7dp :: string
  ip_expiryLedger :: int
  ip_noteCommitment :: string
  ip_destination :: string
  ip_policyId :: "string option"
  ip_noteNullifier :: "string option"
  ip_recipientCommitment :: "string option"
  ip_encryptedShares :: "encrypted_share list option"

record private_build_params =
  pb_amount7dp :: int
  pb_minOutput7dp :: int
  pb_noteCommitment :: string
  pb_noteNullifier :: string
  pb_recipientCommitment :: string
  pb_destinationAddress :: string
  pb_inputAsset :: string
  pb_outputAsset :: string
  pb_expiryLedger :: int
  pb_policyId :: "string option"
  pb_signature :: "string option"

record blindings =
  bl_amount :: string
  bl_minOutput :: string
  bl_destination :: string

text \<open>The draws: the three blindings, and keys, nonces and coefficients of the split.\<close>

record client_draws =
  cd_blindings :: "bytes \<times> bytes \<times> bytes"
  cd_eph :: "(bytes \<times> bytes) list"
  cd_coeff :: "nat \<Rightarrow> bytes"

definition intent_payload :: "(bytes \<Rightarrow> bytes) \<Rightarrow> blindings \<Rightarrow> encrypted_share list \<Rightarrow> private_build_params \<Rightarrow> intent_params" where
  "intent_payload sha bl shares p =
    \<lparr> ip_inputAsset = pb_inputAsset p, ip_outputAsset = pb_outputAsset p, ip_amountMode = ''exact_in'',
      ip_amount7dp = buildAmountCommitment sha (pb_amount7dp p) (bl_amount bl), ip_minOutput7dp = buildAmountCommitment sha (pb_minOutput7dp p) (bl_minOutput bl),
      ip_expiryLedger = pb_expiryLedger p, ip_noteCommitment = pb_noteCommitment p,
      ip_destination = buildValueCommitment sha (pb_destinationAddress p) (bl_destination bl), ip_policyId = pb_policyId p,
      ip_noteNullifier = Some (pb_noteNullifier p), ip_recipientCommitment = Some (pb_recipientCommitment p), ip_encryptedShares = Some shares \<rparr>"

definition buildPrivateIntent ::
  "nacl_lib \<Rightarrow> (bytes \<Rightarrow> bytes) \<Rightarrow> client_draws \<Rightarrow> client \<Rightarrow> client_net \<Rightarrow> private_build_params \<Rightarrow> (string, intent_params \<times> blindings) result" where
  "buildPrivateIntent lib sha d c net p =
    res_bind (fetchCommittee c net) (\<lambda>nodes.
    let (b1, b2, b3) = cd_blindings d;
        bl = \<lparr> bl_amount = randomBlinding b1, bl_minOutput = randomBlinding b2, bl_destination = randomBlinding b3 \<rparr> in
    case splitAndEncryptAmount lib (cd_eph d) (cd_coeff d) (pb_amount7dp p) nodes 2 of
      Inl _ \<Rightarrow> Throw ''bad public key size''
    | Inr shares \<Rightarrow> Ok (intent_payload sha bl shares p, bl))"

text \<open>\<open>"0x" + "00".repeat(n)\<close>\<close>

definition zero_hex :: "nat \<Rightarrow> string" where
  "zero_hex n = ''0x'' @ replicate (2 * n) (CHR ''0'')"

definition mpc_members :: "intent_params \<Rightarrow> (string \<times> jsval) list" where
  "mpc_members p =
    (case (ip_encryptedShares p, ip_noteNullifier p) of
       (Some ss, Some n) \<Rightarrow> if ss = [] \<or> n = [] then []
         else [(''note_nullifier'', VStr n), (''note_commitment'', VStr (ip_noteCommitment p)),
           (''recipient_commitment'', case ip_recipientCommitment p of None \<Rightarrow> VUndef | Some r \<Rightarrow> VStr r), (''encrypted_shares'', VArr (map share_value ss))]
     | _ \<Rightarrow> [])"

definition submit_body :: "intent_params \<Rightarrow> jsval" where
  "submit_body p = VObj ([(''intent_type'', VStr ''PRIVATE_RFQ''), (''version'', VStr ''1.0''), (''user_pubkey_commitment'', VStr (ip_noteCommitment p)),
     (''input_asset'', VStr (ip_inputAsset p)), (''output_asset'', VStr (ip_outputAsset p)), (''amount_mode'', VStr (ip_amountMode p)),
     (''amount_commitment'', VStr (ip_amount7dp p)), (''min_output_commitment'', VStr (ip_minOutput7dp p)), (''expiry_ledger'', VNum (NInt (ip_expiryLedger p))),
     (''allowed_solvers_root'', VStr (zero_hex 32)),
     (''compliance_policy_id'', VStr (case ip_policyId p of None \<Rightarrow> ''shade:default-testnet-policy:v1'' | Some i \<Rightarrow> i)),
     (''destination_commitment'', VStr (ip_destination p)), (''replay_domain'', VStr ''shade:stellar:testnet:rfq:v1''), (''signature'', VStr (zero_hex 64))] @ mpc_members p)"

definition client_submit :: "client \<Rightarrow> client_net \<Rightarrow> intent_params \<Rightarrow> (string, jsval) result" where
  "client_submit c net p = client_post c net ''/v1/intents'' (submit_body p)"

definition acceptQuote :: "client \<Rightarrow> client_net \<Rightarrow> string \<Rightarrow> (string, jsval) result" where
  "acceptQuote c net quoteId = client_post c net (''/v1/quotes/'' @ quoteId @ ''/accept'') (VObj [])"


section \<open>Polling\<close>

text \<open>The loop \<open>while (Date.now() < deadline)\<close>: \<open>clock i\<close> is the time of the \<open>i\<close>-th check, \<open>hit i\<close> what the query after it
  decides. Outer \<open>None\<close>: the fuel is used up; inner \<open>None\<close>: the deadline has passed.\<close>

fun poll :: "(nat \<Rightarrow> int) \<Rightarrow> int \<Rightarrow> (nat \<Rightarrow> 'a option) \<Rightarrow> nat \<Rightarrow> nat \<Rightarrow> 'a option option" where
  "poll clock deadline hit 0 i = None"
| "poll clock deadline hit (Suc n) i =
    (if clock i < deadline then (case hit i of Some x \<Rightarrow> Some (Some x) | None \<Rightarrow> poll clock deadline hit n (Suc i)) else Some None)"

text \<open>\<open>Date.now()\<close> is read once before the loop: \<open>clock 0\<close>. A query that throws is ignored.\<close>

definition quote_hit :: "(string, jsval) result \<Rightarrow> jsval option" where
  "quote_hit r = (case r of
     Inl _ \<Rightarrow> None
   | Inr data \<Rightarrow> (case js_get data ''quotes'' of VArr (q # _) \<Rightarrow> if truthy q then Some q else None | _ \<Rightarrow> None))"

definition pollQuote :: "nat \<Rightarrow> (nat \<Rightarrow> int) \<Rightarrow> client \<Rightarrow> (nat \<Rightarrow> client_net) \<Rightarrow> string \<Rightarrow> int \<Rightarrow> (string, jsval) result option" where
  "pollQuote fuel clock c net intentId timeoutMs =
    map_option (\<lambda>r. case r of Some q \<Rightarrow> Ok q | None \<Rightarrow> Throw (''pollQuote: no quote after '' @ int_to_string timeoutMs @ ''ms for intent '' @ intentId))
      (poll clock (clock 0 + timeoutMs) (\<lambda>i. quote_hit (client_get c (net i) (''/v1/intents/'' @ intentId @ ''/quotes''))) fuel 1)"

definition state_hit :: "string list \<Rightarrow> (string, jsval) result \<Rightarrow> jsval option" where
  "state_hit final r = (case r of
     Inl _ \<Rightarrow> None
   | Inr data \<Rightarrow> if truthy (js_get data ''state'') \<and> js_get data ''state'' \<in> set (map VStr final) then Some data else None)"

record settlement_status =
  se_state :: jsval
  se_txHash :: jsval
  se_detail :: "string option"

definition trackSettlement :: "nat \<Rightarrow> (nat \<Rightarrow> int) \<Rightarrow> client \<Rightarrow> (nat \<Rightarrow> client_net) \<Rightarrow> string \<Rightarrow> int \<Rightarrow> settlement_status option" where
  "trackSettlement fuel clock c net intentId timeoutMs =
    map_option (\<lambda>r. case r of
        Some data \<Rightarrow> \<lparr> se_state = js_get data ''state'', se_txHash = js_get data ''tx_hash'', se_detail = None \<rparr>
      | None \<Rightarrow> \<lparr> se_state = VStr ''pending'', se_txHash = VUndef, se_detail = Some (''not settled after '' @ int_to_string timeoutMs @ ''ms'') \<rparr>)
      (poll clock (clock 0 + timeoutMs) (\<lambda>i. state_hit [''settled'', ''failed'', ''expired''] (client_get c (net i) (''/v1/intents/'' @ intentId))) fuel 1)"

definition trackDeposit :: "nat \<Rightarrow> (nat \<Rightarrow> int) \<Rightarrow> client \<Rightarrow> (nat \<Rightarrow> client_net) \<Rightarrow> string \<Rightarrow> int \<Rightarrow> jsval option" where
  "trackDeposit fuel clock c net depositId timeoutMs =
    map_option (\<lambda>r. case r of Some data \<Rightarrow> data | None \<Rightarrow> VObj [(''state'', VStr ''pending'')])
      (poll clock (clock 0 + timeoutMs) (\<lambda>i. state_hit [''registered'', ''failed''] (client_get c (net i) (''/v1/deposits/'' @ depositId))) fuel 1)"


section \<open>The API behind the client\<close>

text \<open>The request the API sees: Node lower-cases header names.\<close>

definition api_request :: "client \<Rightarrow> request" where
  "api_request c =
    (let hs = map (\<lambda>(k, v). (lower k, v)) (client_headers c) in
     \<lparr> rq_authorization = map_of hs ''authorization'', rq_cookie = map_of hs ''cookie'', rq_idempotency_key = map_of hs ''idempotency-key'' \<rparr>)"

text \<open>An answer to \<open>GET /v1/intents/:intent_hash\<close>: the request failed, another status, \<open>null\<close>, or the row as JSON.\<close>

definition serves_intent :: "string \<Rightarrow> api \<Rightarrow> (nat \<times> string) option \<Rightarrow> bool" where
  "serves_intent h a ans \<longleftrightarrow> (case ans of
     None \<Rightarrow> True
   | Some (code, body) \<Rightarrow> \<not> http_ok code \<or> json_parse body = Some VNull \<or>
       (\<exists>r. getById ''intents'' ''intent_hash'' h (ap_store a) = Ok (Some r) \<and> json_parse body = Some (VObj r)))"


section \<open>Lemmas\<close>

lemma be_value_surj: "0 \<le> c \<Longrightarrow> \<exists>buf. be_value buf = c"
proof (induction "nat c" arbitrary: c rule: less_induct)
  case less
  show ?case
  proof (cases "c = 0")
    case True
    then show ?thesis by (intro exI [of _ "[]"]) (simp add: be_value_def)
  next
    case False
    then have "nat (c div 256) < nat c" "0 \<le> c div 256" using less.prems by (auto intro: int_div_less_self)
    then obtain buf where "be_value buf = c div 256" using less.hyps by blast
    moreover have "uint (word_of_int (c mod 256) :: 8 word) = c mod 256" by (simp add: unsigned_of_int take_bit_int_def)
    ultimately show ?thesis by (intro exI [of _ "buf @ [word_of_int (c mod 256)]"]) (simp add: be_value_snoc)
  qed
qed

text \<open>Every coefficient the client can draw is one the committee package can draw.\<close>

lemma coefficient_drawn: "\<exists>buf. randomFieldElement [buf] = Ok (sdk_randomFieldElement d, [])"
proof -
  let ?c = "sdk_randomFieldElement d"
  have c: "0 \<le> ?c" "?c < field_P" using modp_range by (simp_all add: sdk_randomFieldElement_def)
  obtain buf where buf: "be_value buf = ?c" using be_value_surj [OF c(1)] by blast
  have "field_P \<le> REJECTION_LIMIT" by (simp add: REJECTION_LIMIT_def bn254_r_def)
  then show ?thesis using buf c by (intro exI [of _ buf]) (simp add: Let_def js_mod_cases)
qed

lemma sdk_split_is_committee_split:
  assumes "2 \<le> n"
  shows "\<exists>draws ds. shamirSplit draws v 2 n = Ok (sdk_shamirSplit draw v 2 n, ds)"
proof -
  obtain buf where buf: "randomFieldElement [buf] = Ok (sdk_randomFieldElement (draw 1), [])" using coefficient_drawn by blast
  have "random_coeffs 1 [buf] = Ok ([sdk_randomFieldElement (draw 1)], [])" using buf by simp
  then have "shamirSplit [buf] v 2 n = Ok (sdk_shamirSplit draw v 2 n, [])"
    using assms by (simp add: shamirSplit_def sdk_shamirSplit_def Let_def upt_rec)
  then show ?thesis by blast
qed

lemma sdk_encrypt_same: "sdk_encryptShareForNode lib sk n sh (to_hex pk) nid = encryptShareForNode lib sk n (encodeShare sh) (to_hex pk) nid"
  by (simp add: sdk_encryptShareForNode_def encryptShareForNode_def encodeShare_def Let_def)

lemma poll_ends:
  assumes "\<And>i. clock i + d \<le> clock (Suc i)" "0 < d" "deadline \<le> clock i + int n * d"
  shows "poll clock deadline hit (Suc n) i \<noteq> None"
  using assms(3)
proof (induction n arbitrary: i)
  case (Suc n)
  have "deadline \<le> clock (Suc i) + int n * d" using Suc.prems assms(1) [of i] by (simp add: distrib_right)
  from Suc.IH [OF this] show ?case by (auto split: option.splits)
qed simp

lemma poll_without_hit: "(\<And>i. hit i = None) \<Longrightarrow> poll clock deadline hit n i = None \<or> poll clock deadline hit n i = Some None"
  by (induction n arbitrary: i) auto

lemma served_intent_open:
  assumes "api_reach env a" "serves_intent h a ans" "read_answer w ans = Ok v"
  shows "state_hit [''settled'', ''failed'', ''expired''] (Ok v) = None"
proof -
  have "v = VNull \<or> (\<exists>r. getById ''intents'' ''intent_hash'' h (ap_store a) = Ok (Some r) \<and> v = VObj r)"
    using assms(2,3) by (auto simp: serves_intent_def read_answer_def split: option.splits if_splits)
  then show ?thesis
  proof
    assume "\<exists>r. getById ''intents'' ''intent_hash'' h (ap_store a) = Ok (Some r) \<and> v = VObj r"
    then obtain r where r: "getById ''intents'' ''intent_hash'' h (ap_store a) = Ok (Some r)" "v = VObj r" by blast
    have "r \<in> set (st_tables (ap_store a) ''intents'')" using r(1)
      by (auto simp: getById_def split: if_splits dest!: find_first_Some)
    then have "col r ''state'' = VStr ''INTENT_CREATED''"
      using created.reach [OF assms(1)] by (simp add: intents_created_def list_all_iff)
    then have "js_get v ''state'' = VStr ''INTENT_CREATED''" by (auto simp: r(2) col_def split: option.splits)
    then show ?thesis by (simp add: state_hit_def)
  qed (simp add: state_hit_def)
qed

lemma hex_no_colon: "CHR '':'' \<notin> set (to_hex bs)"
proof -
  have "CHR '':'' \<noteq> hex_digit n" if n: "n < 16" for n
  proof
    assume "CHR '':'' = hex_digit n"
    then have "hex_val CHR '':'' = Some n" using n by (metis hex_val_digit)
    then show False by (simp add: hex_val_def digit_val_def)
  qed
  then have "CHR '':'' \<notin> set (byte_hex b)" for b
    using byte_split(1,2) [of b] unfolding byte_hex_def by simp
  then show ?thesis by (simp add: to_hex_def)
qed

lemma decimal_no_colon: "CHR '':'' \<notin> set (int_to_string i)"
proof -
  have "CHR '':'' \<notin> set (nat_to_string n)" for n
    using nat_to_string_digits [of "CHR '':''" n] by (auto simp: is_digit_def digit_val_def)
  then show ?thesis by (auto simp: int_to_string_def)
qed

lemma map_res_same: "(\<And>x. x \<in> set xs \<Longrightarrow> f x = g x) \<Longrightarrow> map_res f xs = map_res g xs"
  by (induction xs) (auto split: sum.split)

lemma sdk_split_committee:
  assumes "2 \<le> length kps"
    "splitAndEncryptAmount lib eph draw amount (map nodePublicInfo kps) 2 = Ok es"
  shows "\<exists>draws. splitAmountForCommittee lib eph draws (int_to_string amount) (map nodePublicInfo kps) 2 = Ok es"
proof -
  obtain draws ds where "shamirSplit draws amount 2 (length kps) = Ok (sdk_shamirSplit draw amount 2 (length kps), ds)"
    using sdk_split_is_committee_split [OF assms(1)] by blast
  moreover have "map_res (\<lambda>i. sdk_encryptShareForNode lib (fst (eph ! i)) (snd (eph ! i)) (shs ! i)
        (ni_encryptionPubkey (map nodePublicInfo kps ! i)) (ni_nodeId (map nodePublicInfo kps ! i))) [0..<length kps]
      = map_res (\<lambda>i. encryptShareForNode lib (fst (eph ! i)) (snd (eph ! i)) (encodeShare (shs ! i))
        (ni_encryptionPubkey (map nodePublicInfo kps ! i)) (ni_nodeId (map nodePublicInfo kps ! i))) [0..<length kps]" for shs
    by (rule map_res_same) (simp add: nodePublicInfo_def sdk_encrypt_same)
  ultimately have "splitAmountForCommittee lib eph draws (int_to_string amount) (map nodePublicInfo kps) 2 = Ok es"
    using assms(2) by (simp add: splitAmountForCommittee_def splitAndEncryptAmount_def Let_def)
  then show ?thesis by blast
qed


section \<open>Properties\<close>

text \<open>C21: a private intent built by the browser client carries shares the committee could have dealt itself with the package
  \<open>mpc-crypto\<close>: one per node in the node's order, each node decrypts its own, and any two nodes recover the
  amount; the blindings returned open the two amount commitments and the destination commitment of the payload.\<close>

theorem private_intent_reaches_committee:
  assumes "box_correct lib" "\<forall>kp\<in>set kps. kp_wf lib kp" "2 \<le> length kps" "length kps < max_committee" "eph_ok (length kps) (cd_eph d)"
    and "fetchCommittee c net = Ok (map nodePublicInfo kps)" "0 \<le> pb_amount7dp p" "pb_amount7dp p < field_P"
    and "buildPrivateIntent lib sha d c net p = Ok (payload, bl)"
  shows "\<exists>es draws vs. ip_encryptedShares payload = Some es \<and> honest_shares lib kps (pb_amount7dp p) vs es \<and>
      splitAmountForCommittee lib (cd_eph d) draws (int_to_string (pb_amount7dp p)) (map nodePublicInfo kps) 2 = Ok es \<and>
      ip_amount7dp payload = buildAmountCommitment sha (pb_amount7dp p) (bl_amount bl) \<and>
      ip_minOutput7dp payload = buildAmountCommitment sha (pb_minOutput7dp p) (bl_minOutput bl) \<and>
      ip_destination payload = buildValueCommitment sha (pb_destinationAddress p) (bl_destination bl)"
proof -
  obtain es where es: "splitAndEncryptAmount lib (cd_eph d) (cd_coeff d) (pb_amount7dp p) (map nodePublicInfo kps) 2 = Ok es"
    and payload: "payload = intent_payload sha bl es p"
    using assms(9) assms(6) by (auto simp: buildPrivateIntent_def res_bind_def Let_def split: prod.splits sum.splits)
  obtain draws where draws: "splitAmountForCommittee lib (cd_eph d) draws (int_to_string (pb_amount7dp p)) (map nodePublicInfo kps) 2 = Ok es"
    using sdk_split_committee [OF assms(3) es] by blast
  obtain intent :: mpc_intent where intent: "in_encryptedShares intent = es"
    using that [of "undefined \<lparr> in_encryptedShares := es \<rparr>"] by simp
  have "honest_intent lib kps (pb_amount7dp p) intent"
    using draws assms(5,7,8) by (auto simp: honest_intent_def intent)
  then obtain vs where "honest_shares lib kps (pb_amount7dp p) vs es"
    using honest_intent_shares [OF assms(1,2,4)] intent by blast
  then show ?thesis using draws by (auto simp: payload intent_payload_def)
qed

text \<open>The commitments of a private intent bind: two openings of one commitment with hex blindings are the same opening
  or a SHA-256 collision, for amounts and for arbitrary strings. Both kinds share one format, so a
  commitment to an amount is also one to its decimal text.\<close>

theorem intent_commitments_bind:
  "(buildAmountCommitment sha x (to_hex b) = buildAmountCommitment sha y (to_hex b') \<longrightarrow>
      (x = y \<and> b = b') \<or> collide sha (utf8 (int_to_string x @ '':'' @ to_hex b)) (utf8 (int_to_string y @ '':'' @ to_hex b'))) \<and>
   (buildValueCommitment sha v (to_hex b) = buildValueCommitment sha w (to_hex b') \<longrightarrow>
      (v = w \<and> b = b') \<or> collide sha (utf8 (v @ '':'' @ to_hex b)) (utf8 (w @ '':'' @ to_hex b'))) \<and>
   buildAmountCommitment sha x (to_hex b) = buildValueCommitment sha (int_to_string x) (to_hex b)"
proof -
  have bind: "(v = w \<and> b = b') \<or> collide sha (utf8 (v @ '':'' @ to_hex b)) (utf8 (w @ '':'' @ to_hex b'))"
    if "buildValueCommitment sha v (to_hex b) = buildValueCommitment sha w (to_hex b')" for v w
  proof (cases "v @ '':'' @ to_hex b = w @ '':'' @ to_hex b'")
    case True
    then show ?thesis using last_colon [OF hex_no_colon hex_no_colon, of v b w b'] by simp
  next
    case False
    then show ?thesis using that by (simp add: buildValueCommitment_def collide_def utf8_inject)
  qed
  have same: "buildAmountCommitment sha x (to_hex b) = buildValueCommitment sha (int_to_string x) (to_hex b)" for x b
    by (simp add: buildAmountCommitment_def buildValueCommitment_def)
  show ?thesis
    using bind [of "int_to_string x" "int_to_string y"] bind [of v w] unfolding same by auto
qed

text \<open>\<open>IntentClient.submit\<close> cannot succeed: the client sends no \<open>idempotency-key\<close> header, so whatever its token and
  whatever body the API parses, \<open>POST /v1/intents\<close> answers an error.\<close>

theorem sdk_submit_is_refused:
  "\<exists>e. fst (post_intents env now ans (api_request c) body a) = Throw e"
proof -
  have "rq_idempotency_key (api_request c) = None"
    by (auto simp: api_request_def client_headers_def Let_def lower_def lower_char_def split: option.split)
  then have "\<exists>e. fst (andThen (idem (api_request c)) k s) = Throw e" for k s
    by (simp add: andThen_def idem_def)
  then have "\<exists>e. fst (andThen (parsed body) (\<lambda>b. andThen (idem (api_request c)) (k b)) s) = Throw e" for k s
    by (cases body) (auto simp: andThen_def [of "parsed body"] parsed_def)
  then show ?thesis
    unfolding post_intents_def by (auto simp: andThen_def [of "authedUser env now (api_request c)"] split: prod.split sum.split)
qed

text \<open>C40: \<open>trackSettlement\<close> always stops, once the deadline has passed, but whatever the API has done meanwhile it reports
  \<open>pending\<close>: rows of \<open>intents\<close> stay \<open>INTENT_CREATED\<close> in every state the API can reach.\<close>

theorem settlement_tracking_never_settles:
  assumes "\<And>i. api_reach env (a i)" "\<And>i rq. serves_intent h (a i) (net i rq)"
    and "\<And>i. clock i + interval \<le> clock (Suc i)" "0 < interval" "timeoutMs \<le> int fuel * interval"
  shows "trackSettlement (Suc fuel) clock c net h timeoutMs =
    Some \<lparr> se_state = VStr ''pending'', se_txHash = VUndef, se_detail = Some (''not settled after '' @ int_to_string timeoutMs @ ''ms'') \<rparr>"
proof -
  let ?hit = "\<lambda>i. state_hit [''settled'', ''failed'', ''expired''] (client_get c (net i) (''/v1/intents/'' @ h))"
  have "?hit i = None" for i
  proof (cases "client_get c (net i) (''/v1/intents/'' @ h)")
    case (Inr v)
    then show ?thesis using served_intent_open [OF assms(1) assms(2)] by (simp add: client_get_def)
  qed (simp add: state_hit_def)
  then have "poll clock (clock 0 + timeoutMs) ?hit (Suc fuel) 1 \<in> {None, Some None}" using poll_without_hit [of ?hit] by blast
  moreover have "clock 0 + timeoutMs \<le> clock 1 + int fuel * interval"
    using assms(3) [of 0] assms(4,5) by simp
  then have "poll clock (clock 0 + timeoutMs) ?hit (Suc fuel) 1 \<noteq> None"
    by (rule poll_ends [where d = interval and clock = clock, OF assms(3) assms(4)])
  ultimately have "poll clock (clock 0 + timeoutMs) ?hit (Suc fuel) 1 = Some None" by blast
  then show ?thesis unfolding trackSettlement_def by simp
qed


subsection \<open>Witnesses\<close>

definition demo_client :: client where
  "demo_client = \<lparr> cl_apiBase = ''u'', cl_authToken = Some ''t'' \<rparr>"

definition demo_committee_value :: jsval where
  "demo_committee_value = VObj [(''nodes'', VArr (map (\<lambda>kp. VObj [(''nodeId'', VStr (kp_nodeId kp)),
     (''encryptionPubkey'', VStr (to_hex (kp_boxPublic kp))), (''signingPubkey'', VStr (to_hex (kp_signPublic kp)))]) demo_kps))]"

definition demo_committee_net :: client_net where
  "demo_committee_net rq = Some (200, stringify demo_committee_value)"

definition demo_client_draws :: client_draws where
  "demo_client_draws = \<lparr> cd_blindings = ([1], [2], [3]), cd_eph = demo_eph, cd_coeff = (\<lambda>_. [5]) \<rparr>"

definition demo_build :: private_build_params where
  "demo_build = \<lparr> pb_amount7dp = 1000, pb_minOutput7dp = 900, pb_noteCommitment = ''0xc'', pb_noteNullifier = ''0xn'', pb_recipientCommitment = ''0xr'',
     pb_destinationAddress = ''G'', pb_inputAsset = ''a'', pb_outputAsset = ''b'', pb_expiryLedger = 7, pb_policyId = None, pb_signature = None \<rparr>"

lemma demo_fetch: "fetchCommittee demo_client demo_committee_net = Ok (map nodePublicInfo demo_kps)"
proof -
  have "json_parse (stringify demo_committee_value) = Some demo_committee_value"
    by (rule json_parse_stringify) (simp add: demo_committee_value_def list_all_iff)
  then show ?thesis
    by (simp add: fetchCommittee_def client_get_def read_answer_def demo_committee_net_def http_ok_def demo_committee_value_def demo_kps_def
        node_of_def nodePublicInfo_def res_bind_def)
qed

lemma demo_built: "\<exists>payload bl. buildPrivateIntent demo_nacl demo_sha demo_client_draws demo_client demo_committee_net demo_build = Ok (payload, bl)"
proof -
  have "length (fst (demo_eph ! i)) = 32 \<and> length (snd (demo_eph ! i)) = 24" if "i < 3" for i
    using that by (simp add: demo_eph_def)
  then have "is_ok (map_res (\<lambda>i. sdk_encryptShareForNode demo_nacl (fst (demo_eph ! i)) (snd (demo_eph ! i)) (f i) (g i) (h i)) [0..<3])" for f g h
    by (intro map_res_is_ok) (simp add: sdk_encryptShareForNode_def demo_nacl_def)
  then have "is_ok (splitAndEncryptAmount demo_nacl demo_eph (\<lambda>_. [5]) 1000 (map nodePublicInfo demo_kps) 2)"
    unfolding splitAndEncryptAmount_def Let_def length_map demo_kps_wf(2) .
  then show ?thesis
    by (auto simp: buildPrivateIntent_def demo_fetch is_ok_iff demo_client_draws_def demo_build_def res_bind_def Let_def)
qed

theorem private_intent_reaches_committee_witness:
  "\<exists>payload bl es vs. buildPrivateIntent demo_nacl demo_sha demo_client_draws demo_client demo_committee_net demo_build = Ok (payload, bl) \<and>
     ip_encryptedShares payload = Some es \<and> honest_shares demo_nacl demo_kps 1000 vs es"
proof -
  obtain payload bl where b: "buildPrivateIntent demo_nacl demo_sha demo_client_draws demo_client demo_committee_net demo_build = Ok (payload, bl)"
    using demo_built by blast
  have "\<exists>es vs. ip_encryptedShares payload = Some es \<and> honest_shares demo_nacl demo_kps (pb_amount7dp demo_build) vs es"
    using private_intent_reaches_committee [OF demo_nacl_correct(1) demo_kps_wf(1) _ _ _ demo_fetch _ _ b]
    by (auto simp: demo_kps_wf(2) max_committee_def eph_ok_def demo_client_draws_def demo_eph_def demo_build_def bn254_r_def)
  then show ?thesis using b by (auto simp: demo_build_def)
qed

theorem intent_commitments_bind_witness:
  "\<not> collide (\<lambda>b. b) (utf8 (int_to_string 7 @ '':'' @ to_hex [1])) (utf8 (int_to_string 8 @ '':'' @ to_hex [1])) \<and>
   buildAmountCommitment (\<lambda>b. b) 7 (to_hex [1]) \<noteq> buildAmountCommitment (\<lambda>b. b) 8 (to_hex [1])"
proof -
  have nc: "\<not> collide (\<lambda>b. b) u v" for u v by (simp add: collide_def)
  have "(7 :: int) \<noteq> 8" by simp
  with nc show ?thesis using conjunct1 [OF intent_commitments_bind [of "\<lambda>b. b" 7 "[1]" 8 "[1]" "[]" "[]"]] by blast
qed

theorem settlement_tracking_never_settles_witness:
  "trackSettlement 61 (\<lambda>i. 5000 * int i) demo_client (\<lambda>i rq. if even i then None else Some (200, ''null'')) ''0xh'' 300000 =
    Some \<lparr> se_state = VStr ''pending'', se_txHash = VUndef, se_detail = Some (''not settled after '' @ int_to_string 300000 @ ''ms'') \<rparr>"
proof -
  have null: "json_parse ''null'' = Some VNull" by code_simp
  have "trackSettlement (Suc 60) (\<lambda>i. 5000 * int i) demo_client (\<lambda>i rq. if even i then None else Some (200, ''null'')) ''0xh'' 300000 =
    Some \<lparr> se_state = VStr ''pending'', se_txHash = VUndef, se_detail = Some (''not settled after '' @ int_to_string 300000 @ ''ms'') \<rparr>"
    by (rule settlement_tracking_never_settles [where a = "\<lambda>_. demo_logged_in" and interval = 5000, OF demo_reach])
      (auto simp: serves_intent_def null)
  then show ?thesis by simp
qed

end
