(* ===== verification/StreamPay.thy ===== *)
theory StreamPay
  imports Json
begin

text \<open>
  Pay-per-second streams in native USDC on Arc: the contract \<open>contracts/arc/src/StreamPay.sol\<close> with re-entrant recipients, its
  browser client \<open>frontend/lib/streampay.ts\<close> and the actions of the page \<open>frontend/app/(app)/stream/page.tsx\<close>.
  Gas is not modelled; transaction hashes, the stream id, fresh keys and the decimal text of amounts are arguments.
\<close>

section \<open>The contract\<close>

text \<open>\<open>uint256\<close> values are naturals; Solidity 0.8 reverts where a result does not fit or a difference is negative. A mapping has
  the zero struct for every key not written.\<close>

type_synonym addr = nat
type_synonym stream_id = nat

record pay_stream =
  sm_payer :: addr
  sm_payee :: addr
  sm_ratePerSecond :: nat
  sm_deposited :: nat
  sm_accrued :: nat
  sm_withdrawn :: nat
  sm_lastTick :: nat
  sm_active :: bool
  sm_closed :: bool

definition empty_stream :: pay_stream where
  "empty_stream = \<lparr> sm_payer = 0, sm_payee = 0, sm_ratePerSecond = 0, sm_deposited = 0, sm_accrued = 0, sm_withdrawn = 0,
     sm_lastTick = 0, sm_active = False, sm_closed = False \<rparr>"

datatype sp_event =
  EvOpened stream_id addr addr nat nat
| EvWithdrawn stream_id nat nat
| EvPaused stream_id nat
| EvResumed stream_id
| EvStopped stream_id nat nat

datatype sp_error =
  StreamExists | NoStream | BadArgs | NotPayer | NotPayee | NotActive | NotPaused | AlreadyClosed | NothingToWithdraw | TransferFailed
| ArithmeticPanic | ValueNotFunded

record ledger =
  sp_self :: addr
  sp_streams :: "stream_id \<Rightarrow> pay_stream"
  sp_balance :: nat
  sp_accounts :: "addr \<Rightarrow> nat"
  sp_logs :: "sp_event list"

definition put_stream :: "stream_id \<Rightarrow> pay_stream \<Rightarrow> ledger \<Rightarrow> ledger" where
  "put_stream i s L = L \<lparr> sp_streams := (sp_streams L)(i := s) \<rparr>"

definition emit :: "sp_event \<Rightarrow> ledger \<Rightarrow> ledger" where
  "emit e L = L \<lparr> sp_logs := sp_logs L @ [e] \<rparr>"

definition checked :: "nat \<Rightarrow> (sp_error, nat) result" where
  "checked n = (if n < 2 ^ 256 then Ok n else Throw ArithmeticPanic)"

definition checked_sub :: "nat \<Rightarrow> nat \<Rightarrow> (sp_error, nat) result" where
  "checked_sub a b = (if b \<le> a then Ok (a - b) else Throw ArithmeticPanic)"

text \<open>\<open>s.accrued + s.ratePerSecond * (block.timestamp - s.lastTick)\<close>\<close>

definition live_total :: "nat \<Rightarrow> pay_stream \<Rightarrow> (sp_error, nat) result" where
  "live_total now s =
    res_bind (checked_sub now (sm_lastTick s)) (\<lambda>dt.
    res_bind (checked (sm_ratePerSecond s * dt)) (\<lambda>x.
    checked (sm_accrued s + x)))"

definition earned :: "nat \<Rightarrow> stream_id \<Rightarrow> ledger \<Rightarrow> (sp_error, nat) result" where
  "earned now i L =
    (let s = sp_streams L i in
     res_bind (if sm_active s \<and> \<not> sm_closed s then live_total now s else Ok (sm_accrued s)) (\<lambda>t.
     Ok (if t > sm_deposited s then sm_deposited s else t)))"

definition withdrawable :: "nat \<Rightarrow> stream_id \<Rightarrow> ledger \<Rightarrow> (sp_error, nat) result" where
  "withdrawable now i L = res_bind (earned now i L) (\<lambda>e. checked_sub e (sm_withdrawn (sp_streams L i)))"

definition advance :: "nat \<Rightarrow> pay_stream \<Rightarrow> (sp_error, pay_stream) result" where
  "advance now s =
    res_bind (if sm_active s \<and> \<not> sm_closed s
        then res_bind (live_total now s) (\<lambda>t. Ok (s \<lparr> sm_accrued := (if t > sm_deposited s then sm_deposited s else t) \<rparr>))
        else Ok s) (\<lambda>s'.
    Ok (s' \<lparr> sm_lastTick := now mod 2 ^ 64 \<rparr>))"

text \<open>\<open>msg.value\<close> moves before the body runs.\<close>

definition sp_open :: "nat \<Rightarrow> addr \<Rightarrow> stream_id \<Rightarrow> addr \<Rightarrow> nat \<Rightarrow> nat \<Rightarrow> ledger \<Rightarrow> (sp_error, ledger) result" where
  "sp_open now sender i payee rate value L =
    (if sp_accounts L sender < value \<or> sender = sp_self L then Throw ValueNotFunded
     else if sm_payer (sp_streams L i) \<noteq> 0 then Throw StreamExists
     else if value = 0 \<or> rate = 0 \<or> payee = 0 then Throw BadArgs
     else let L1 = L \<lparr> sp_accounts := (sp_accounts L)(sender := sp_accounts L sender - value), sp_balance := sp_balance L + value \<rparr> in
       Ok (emit (EvOpened i sender payee rate value)
        (put_stream i \<lparr> sm_payer = sender, sm_payee = payee, sm_ratePerSecond = rate, sm_deposited = value, sm_accrued = 0, sm_withdrawn = 0,
           sm_lastTick = now mod 2 ^ 64, sm_active = True, sm_closed = False \<rparr> L1)))"

text \<open>\<open>withdraw\<close> and \<open>stop\<close> up to their first transfer: what is to be sent, and the storage written by then.\<close>

definition withdraw_effects :: "nat \<Rightarrow> addr \<Rightarrow> stream_id \<Rightarrow> ledger \<Rightarrow> (sp_error, nat \<times> ledger) result" where
  "withdraw_effects now sender i L =
    (let s = sp_streams L i in
     if sm_payee s = 0 then Throw NoStream
     else if sender \<noteq> sm_payee s then Throw NotPayee
     else res_bind (advance now s) (\<lambda>s1.
       res_bind (checked_sub (sm_accrued s1) (sm_withdrawn s1)) (\<lambda>amount.
       if amount = 0 then Throw NothingToWithdraw
       else res_bind (checked (sm_withdrawn s1 + amount)) (\<lambda>w.
         Ok (amount, put_stream i (s1 \<lparr> sm_withdrawn := w \<rparr>) L)))))"

definition sp_pause :: "nat \<Rightarrow> addr \<Rightarrow> stream_id \<Rightarrow> ledger \<Rightarrow> (sp_error, ledger) result" where
  "sp_pause now sender i L =
    (let s = sp_streams L i in
     if sender \<noteq> sm_payer s then Throw NotPayer
     else if \<not> sm_active s \<or> sm_closed s then Throw NotActive
     else res_bind (advance now s) (\<lambda>s1. Ok (emit (EvPaused i (sm_accrued s1)) (put_stream i (s1 \<lparr> sm_active := False \<rparr>) L))))"

definition sp_resume :: "nat \<Rightarrow> addr \<Rightarrow> stream_id \<Rightarrow> ledger \<Rightarrow> (sp_error, ledger) result" where
  "sp_resume now sender i L =
    (let s = sp_streams L i in
     if sender \<noteq> sm_payer s then Throw NotPayer
     else if sm_closed s \<or> sm_active s then Throw NotPaused
     else Ok (emit (EvResumed i) (put_stream i (s \<lparr> sm_active := True, sm_lastTick := now mod 2 ^ 64 \<rparr>) L)))"

definition stop_effects :: "nat \<Rightarrow> addr \<Rightarrow> stream_id \<Rightarrow> ledger \<Rightarrow> (sp_error, nat \<times> nat \<times> ledger) result" where
  "stop_effects now sender i L =
    (let s = sp_streams L i in
     if sender \<noteq> sm_payer s then Throw NotPayer
     else if sm_closed s then Throw AlreadyClosed
     else res_bind (advance now s) (\<lambda>s1.
       res_bind (checked_sub (sm_accrued s1) (sm_withdrawn s1)) (\<lambda>toPayee.
       res_bind (checked_sub (sm_deposited s1) (sm_accrued s1)) (\<lambda>refund.
       Ok (toPayee, refund, put_stream i (s1 \<lparr> sm_closed := True, sm_active := False, sm_withdrawn := sm_accrued s1 \<rparr>) L)))))"


section \<open>Calls and re-entrancy\<close>

datatype sp_op =
  OpOpen stream_id addr nat nat
| OpWithdraw stream_id
| OpPause stream_id
| OpResume stream_id
| OpStop stream_id

text \<open>A call with what the recipients of its first and second transfer do: whether they accept, and the calls they make
  back into the contract, through whatever accounts, before they return. An ordinary account accepts and calls nothing. The
  contract itself has no \<open>receive\<close> function, and nobody calls from address zero. Native funds forced onto the contract (a
  block reward or a self-destruct) are not modelled; they only add to its balance.\<close>

datatype reaction = React bool "call_tree list"
     and call_tree = CallTree addr sp_op reaction reaction

fun sender_of :: "call_tree \<Rightarrow> addr" where
  "sender_of (CallTree sender op r1 r2) = sender"

fun exec :: "nat \<Rightarrow> call_tree \<Rightarrow> ledger \<Rightarrow> (sp_error, ledger) result"
and transfer :: "nat \<Rightarrow> addr \<Rightarrow> nat \<Rightarrow> reaction \<Rightarrow> ledger \<Rightarrow> ledger option"
and exec_all :: "nat \<Rightarrow> call_tree list \<Rightarrow> ledger \<Rightarrow> ledger" where
  "exec now (CallTree sender (OpOpen i payee rate value) r1 r2) L = sp_open now sender i payee rate value L"
| "exec now (CallTree sender (OpPause i) r1 r2) L = sp_pause now sender i L"
| "exec now (CallTree sender (OpResume i) r1 r2) L = sp_resume now sender i L"
| "exec now (CallTree sender (OpWithdraw i) r1 r2) L =
    (case withdraw_effects now sender i L of
       Inl e \<Rightarrow> Throw e
     | Inr (amount, L1) \<Rightarrow>
        (case transfer now (sm_payee (sp_streams L1 i)) amount r1 L1 of
           None \<Rightarrow> Throw TransferFailed
         | Some L2 \<Rightarrow> Ok (emit (EvWithdrawn i amount (sm_withdrawn (sp_streams L2 i))) L2)))"
| "exec now (CallTree sender (OpStop i) r1 r2) L =
    (case stop_effects now sender i L of
       Inl e \<Rightarrow> Throw e
     | Inr (toPayee, refund, L1) \<Rightarrow>
        (case (if toPayee > 0 then transfer now (sm_payee (sp_streams L1 i)) toPayee r1 L1 else Some L1) of
           None \<Rightarrow> Throw TransferFailed
         | Some L2 \<Rightarrow>
            (case (if refund > 0 then transfer now (sm_payer (sp_streams L2 i)) refund r2 L2 else Some L2) of
               None \<Rightarrow> Throw TransferFailed
             | Some L3 \<Rightarrow> Ok (emit (EvStopped i toPayee refund) L3))))"
| "transfer now to amount (React accepts calls) L =
    (if sp_balance L < amount \<or> to = sp_self L \<or> \<not> accepts then None
     else Some (exec_all now calls (L \<lparr> sp_balance := sp_balance L - amount, sp_accounts := (sp_accounts L)(to := sp_accounts L to + amount) \<rparr>)))"
| "exec_all now [] L = L"
| "exec_all now (c # cs) L = exec_all now cs (if sender_of c = 0 then L else case exec now c L of Inl _ \<Rightarrow> L | Inr L' \<Rightarrow> L')"

text \<open>A block's transactions, each with its timestamp; one that reverts changes nothing.\<close>

fun run_txs :: "(nat \<times> call_tree) list \<Rightarrow> ledger \<Rightarrow> ledger" where
  "run_txs [] L = L"
| "run_txs ((now, c) # txs) L = run_txs txs (exec_all now [c] L)"


section \<open>The browser client\<close>

datatype stream_state = Streaming | PausedStream | ClosedStream

record meter =
  me_earned :: nat
  me_withdrawable :: nat
  me_state :: stream_state
  me_deposit :: nat
  me_withdrawn :: nat

definition readMeter :: "nat \<Rightarrow> stream_id \<Rightarrow> ledger \<Rightarrow> (sp_error, meter) result" where
  "readMeter now i L =
    res_bind (earned now i L) (\<lambda>e.
    res_bind (withdrawable now i L) (\<lambda>w.
    let s = sp_streams L i in
    Ok \<lparr> me_earned = e, me_withdrawable = w, me_state = (if sm_closed s then ClosedStream else if sm_active s then Streaming else PausedStream),
      me_deposit = sm_deposited s, me_withdrawn = sm_withdrawn s \<rparr>))"

text \<open>The logs of a receipt; \<open>decode\<close> takes the first one of the name, whatever its stream.\<close>

definition receipt_logs :: "ledger \<Rightarrow> ledger \<Rightarrow> sp_event list" where
  "receipt_logs L L' = drop (length (sp_logs L)) (sp_logs L')"

fun decode_withdrawn :: "sp_event list \<Rightarrow> (nat \<times> nat) option" where
  "decode_withdrawn (EvWithdrawn i a t # es) = Some (a, t)"
| "decode_withdrawn (e # es) = decode_withdrawn es"
| "decode_withdrawn [] = None"

fun decode_stopped :: "sp_event list \<Rightarrow> (nat \<times> nat) option" where
  "decode_stopped (EvStopped i p r # es) = Some (p, r)"
| "decode_stopped (e # es) = decode_stopped es"
| "decode_stopped [] = None"

definition openStream :: "nat \<Rightarrow> addr \<Rightarrow> stream_id \<Rightarrow> addr \<Rightarrow> nat \<Rightarrow> nat \<Rightarrow> ledger \<Rightarrow> (sp_error, ledger) result" where
  "openStream now signer i payee rate cap L = exec now (CallTree signer (OpOpen i payee rate cap) (React True []) (React True [])) L"

definition withdrawStream :: "nat \<Rightarrow> addr \<Rightarrow> reaction \<Rightarrow> stream_id \<Rightarrow> ledger \<Rightarrow> (sp_error, nat \<times> ledger) result" where
  "withdrawStream now signer r i L =
    res_bind (exec now (CallTree signer (OpWithdraw i) r (React True [])) L) (\<lambda>L'.
    Ok (case decode_withdrawn (receipt_logs L L') of None \<Rightarrow> 0 | Some (a, _) \<Rightarrow> a, L'))"

definition pauseStream :: "nat \<Rightarrow> addr \<Rightarrow> stream_id \<Rightarrow> ledger \<Rightarrow> (sp_error, ledger) result" where
  "pauseStream now signer i L = exec now (CallTree signer (OpPause i) (React True []) (React True [])) L"

definition resumeStream :: "nat \<Rightarrow> addr \<Rightarrow> stream_id \<Rightarrow> ledger \<Rightarrow> (sp_error, ledger) result" where
  "resumeStream now signer i L = exec now (CallTree signer (OpResume i) (React True []) (React True [])) L"

definition stopStream :: "nat \<Rightarrow> addr \<Rightarrow> reaction \<Rightarrow> reaction \<Rightarrow> stream_id \<Rightarrow> ledger \<Rightarrow> (sp_error, nat \<times> nat \<times> ledger) result" where
  "stopStream now signer r1 r2 i L =
    res_bind (exec now (CallTree signer (OpStop i) r1 r2) L) (\<lambda>L'.
    case decode_stopped (receipt_logs L L') of None \<Rightarrow> Ok (0, 0, L') | Some (p, r) \<Rightarrow> Ok (p, r, L'))"


section \<open>Accounts of a stream\<close>

text \<open>What the contract still owes for a stream, what has left it, and the same as its events tell.\<close>

definition owed :: "pay_stream \<Rightarrow> nat" where
  "owed s = (if sm_closed s then 0 else sm_deposited s - sm_withdrawn s)"

definition spent_of :: "pay_stream \<Rightarrow> nat" where
  "spent_of s = (if sm_closed s then sm_deposited s else sm_withdrawn s)"

definition opened_ids :: "ledger \<Rightarrow> stream_id set" where
  "opened_ids L = {i. sm_payer (sp_streams L i) \<noteq> 0}"

definition owed_total :: "ledger \<Rightarrow> nat" where
  "owed_total L = (\<Sum>i\<in>opened_ids L. owed (sp_streams L i))"

fun event_out :: "stream_id \<Rightarrow> sp_event \<Rightarrow> nat" where
  "event_out i (EvWithdrawn j a _) = (if i = j then a else 0)"
| "event_out i (EvStopped j p r) = (if i = j then p + r else 0)"
| "event_out i _ = 0"

definition paid_out :: "stream_id \<Rightarrow> ledger \<Rightarrow> nat" where
  "paid_out i L = sum_list (map (event_out i) (sp_logs L))"

text \<open>What the meter shows at a time, without overflow.\<close>

definition metered :: "nat \<Rightarrow> pay_stream \<Rightarrow> nat" where
  "metered t s = min (sm_deposited s) (sm_accrued s + (if sm_active s then sm_ratePerSecond s * (t - sm_lastTick s) else 0))"

definition stream_ok :: "pay_stream \<Rightarrow> bool" where
  "stream_ok s \<longleftrightarrow> sm_withdrawn s \<le> sm_accrued s \<and> sm_accrued s \<le> sm_deposited s \<and> (sm_closed s \<longrightarrow> \<not> sm_active s \<and> sm_withdrawn s = sm_accrued s) \<and>
     (sm_payer s = 0 \<longrightarrow> s = empty_stream)"

definition books_ok :: "ledger \<Rightarrow> bool" where
  "books_ok L \<longleftrightarrow> finite (opened_ids L) \<and> (\<forall>i. stream_ok (sp_streams L i))"

definition same_terms :: "pay_stream \<Rightarrow> pay_stream \<Rightarrow> bool" where
  "same_terms s s' \<longleftrightarrow> sm_payer s' = sm_payer s \<and> sm_payee s' = sm_payee s \<and> sm_ratePerSecond s' = sm_ratePerSecond s \<and>
     sm_deposited s' = sm_deposited s \<and> (sm_closed s \<longrightarrow> sm_closed s')"

text \<open>A piece of a call at time \<open>now\<close>: streams keep their terms, meters do not jump, the balance has \<open>k\<close> more
  than it needs compared with before, and the events of a stream tell \<open>p\<close> more than what left it.\<close>

definition kept :: "nat \<Rightarrow> int \<Rightarrow> (stream_id \<Rightarrow> int) \<Rightarrow> ledger \<Rightarrow> ledger \<Rightarrow> bool" where
  "kept now k p L L' \<longleftrightarrow> books_ok L' \<and> sp_self L' = sp_self L \<and>
     (\<forall>i. sm_payer (sp_streams L i) \<noteq> 0 \<longrightarrow> same_terms (sp_streams L i) (sp_streams L' i)) \<and>
     (\<forall>i. now < 2 ^ 64 \<and> sm_lastTick (sp_streams L i) \<le> now \<longrightarrow>
        sm_lastTick (sp_streams L' i) \<le> now \<and> metered now (sp_streams L' i) = metered now (sp_streams L i)) \<and>
     int (sp_balance L') - int (owed_total L') = int (sp_balance L) - int (owed_total L) + k \<and>
     (\<forall>i. int (paid_out i L') - int (spent_of (sp_streams L' i)) = int (paid_out i L) - int (spent_of (sp_streams L i)) + p i)"

lemmas stream_defs = owed_def spent_of_def metered_def stream_ok_def same_terms_def empty_stream_def

lemma same_terms_refl [simp]: "same_terms s s"
  by (simp add: same_terms_def)

lemma kept_trans:
  assumes "kept now k p L L1" "kept now k' p' L1 L2"
  shows "kept now (k + k') (\<lambda>i. p i + p' i) L L2"
proof -
  have "same_terms (sp_streams L i) (sp_streams L2 i)" if "sm_payer (sp_streams L i) \<noteq> 0" for i
  proof -
    have "same_terms (sp_streams L i) (sp_streams L1 i)" using assms(1) that by (simp add: kept_def)
    moreover from this have "same_terms (sp_streams L1 i) (sp_streams L2 i)"
      using assms(2) that by (simp add: kept_def same_terms_def)
    ultimately show ?thesis by (simp add: same_terms_def)
  qed
  then show ?thesis using assms by (simp add: kept_def)
qed

lemma kept_refl: "books_ok L \<Longrightarrow> kept now 0 (\<lambda>_. 0) L L"
  by (simp add: kept_def)

lemma put_stream_simps [simp]:
  "sp_streams (put_stream i s L) = (sp_streams L)(i := s)" "sp_balance (put_stream i s L) = sp_balance L" "sp_self (put_stream i s L) = sp_self L"
  "sp_logs (put_stream i s L) = sp_logs L" "sp_accounts (put_stream i s L) = sp_accounts L" "paid_out j (put_stream i s L) = paid_out j L"
  by (simp_all add: put_stream_def paid_out_def)

lemma emit_simps [simp]:
  "sp_streams (emit e L) = sp_streams L" "sp_balance (emit e L) = sp_balance L" "sp_self (emit e L) = sp_self L"
  "sp_logs (emit e L) = sp_logs L @ [e]" "sp_accounts (emit e L) = sp_accounts L" "paid_out i (emit e L) = paid_out i L + event_out i e"
  "opened_ids (emit e L) = opened_ids L" "owed_total (emit e L) = owed_total L" "books_ok (emit e L) = books_ok L"
  by (simp_all add: emit_def paid_out_def opened_ids_def owed_total_def books_ok_def)

lemma opened_put [simp]: "sm_payer s \<noteq> 0 \<Longrightarrow> opened_ids (put_stream i s L) = insert i (opened_ids L)"
  by (auto simp: opened_ids_def)

lemma owed_total_put:
  assumes "books_ok L" "sm_payer s \<noteq> 0"
  shows "int (owed_total (put_stream i s L)) = int (owed_total L) + int (owed s) - int (owed (sp_streams L i))"
proof -
  have fin: "finite (opened_ids L)" using assms(1) by (simp add: books_ok_def)
  have "owed (sp_streams L i) = 0" if "i \<notin> opened_ids L"
  proof -
    have "sp_streams L i = empty_stream" using that assms(1) by (simp add: opened_ids_def books_ok_def stream_ok_def)
    then show ?thesis by (simp add: owed_def empty_stream_def)
  qed
  then have "owed_total L = (\<Sum>j\<in>insert i (opened_ids L). owed (sp_streams L j))"
    using fin by (simp add: owed_total_def sum.insert_if)
  also have "\<dots> = owed (sp_streams L i) + (\<Sum>j\<in>opened_ids L - {i}. owed (sp_streams L j))"
    using fin by (simp add: sum.insert_remove)
  finally have "owed_total L = owed (sp_streams L i) + (\<Sum>j\<in>opened_ids L - {i}. owed (sp_streams L j))" .
  moreover have "owed_total (put_stream i s L) = owed s + (\<Sum>j\<in>opened_ids L - {i}. owed (sp_streams L j))"
    using fin assms(2) by (simp add: owed_total_def sum.insert_remove)
  ultimately show ?thesis by simp
qed

text \<open>Writing one stream.\<close>

lemma kept_put:
  assumes "books_ok L" "sm_payer s \<noteq> 0" "stream_ok s" "sm_payer (sp_streams L i) \<noteq> 0 \<Longrightarrow> same_terms (sp_streams L i) s"
    and "now < 2 ^ 64 \<Longrightarrow> sm_lastTick (sp_streams L i) \<le> now \<Longrightarrow> sm_lastTick s \<le> now \<and> metered now s = metered now (sp_streams L i)"
    and "k = int (owed (sp_streams L i)) - int (owed s)" "p = (\<lambda>_. 0)(i := int (spent_of (sp_streams L i)) - int (spent_of s))"
  shows "kept now k p L (put_stream i s L)"
proof -
  have "books_ok (put_stream i s L)" using assms(1-3) by (simp add: books_ok_def)
  then show ?thesis
    using assms(4,5) owed_total_put [OF assms(1,2), of i] by (simp add: kept_def assms(6,7))
qed

lemma kept_emit: "books_ok L \<Longrightarrow> kept now 0 (\<lambda>i. int (event_out i e)) L (emit e L)"
  by (simp add: kept_def)

lemma advance_keeps:
  assumes "advance now s = Ok s1" "stream_ok s" "sm_payer s \<noteq> 0"
  shows "stream_ok s1" "same_terms s s1" "sm_closed s1 = sm_closed s" "sm_active s1 = sm_active s" "sm_withdrawn s1 = sm_withdrawn s"
    "now < 2 ^ 64 \<Longrightarrow> sm_lastTick s \<le> now \<Longrightarrow> sm_lastTick s1 = now \<and> sm_accrued s1 = metered now s"
  using assms
  by (auto simp: advance_def live_total_def checked_sub_def checked_def res_bind_def stream_defs split: if_splits)

lemma unopened: "books_ok L \<Longrightarrow> sm_payer (sp_streams L i) = 0 \<Longrightarrow> sp_streams L i = empty_stream"
  by (simp add: books_ok_def stream_ok_def)

lemma ledger_stream_ok: "books_ok L \<Longrightarrow> stream_ok (sp_streams L i)"
  by (simp add: books_ok_def)

lemma withdraw_effects_kept:
  assumes "withdraw_effects now sender i L = Ok (a, L1)" "books_ok L"
  shows "kept now (int a) ((\<lambda>_. 0)(i := - int a)) L L1"
proof -
  let ?s = "sp_streams L i"
  have "sm_payee ?s \<noteq> 0" using assms(1) by (auto simp: withdraw_effects_def Let_def split: if_splits)
  moreover have "sm_payee empty_stream = 0" by (simp add: empty_stream_def)
  ultimately have payer: "sm_payer ?s \<noteq> 0" using unopened [OF assms(2), of i] by metis
  obtain s1 where s1: "advance now ?s = Ok s1" "sm_withdrawn s1 \<le> sm_accrued s1" "a = sm_accrued s1 - sm_withdrawn s1"
    "L1 = put_stream i (s1 \<lparr> sm_withdrawn := sm_accrued s1 \<rparr>) L"
    using assms(1) by (auto simp: withdraw_effects_def Let_def res_bind_def checked_sub_def checked_def split: if_splits sum.splits)
  note adv = advance_keeps [OF s1(1) ledger_stream_ok [OF assms(2)] payer]
  show ?thesis unfolding s1(4)
  proof (rule kept_put [OF assms(2)])
    show "sm_payer (s1 \<lparr> sm_withdrawn := sm_accrued s1 \<rparr>) \<noteq> 0" using adv(2) payer by (simp add: same_terms_def)
    show "stream_ok (s1 \<lparr> sm_withdrawn := sm_accrued s1 \<rparr>)" using adv(1) by (auto simp: stream_defs)
    show "same_terms ?s (s1 \<lparr> sm_withdrawn := sm_accrued s1 \<rparr>)" using adv(2) by (simp add: same_terms_def)
    show "sm_lastTick (s1 \<lparr> sm_withdrawn := sm_accrued s1 \<rparr>) \<le> now \<and> metered now (s1 \<lparr> sm_withdrawn := sm_accrued s1 \<rparr>) = metered now ?s"
      if "now < 2 ^ 64" "sm_lastTick ?s \<le> now"
      using adv(1,2) adv(6) [OF that] by (simp add: metered_def stream_ok_def same_terms_def)
  qed (use s1(2,3) adv in \<open>auto simp: owed_def spent_of_def same_terms_def stream_ok_def\<close>)
qed

lemma pause_kept:
  assumes "sp_pause now sender i L = Ok L1" "books_ok L" "sender \<noteq> 0"
  shows "kept now 0 (\<lambda>_. 0) L L1"
proof -
  let ?s = "sp_streams L i"
  obtain s1 where s1: "advance now ?s = Ok s1" "sender = sm_payer ?s" "sm_active ?s" "\<not> sm_closed ?s"
    "L1 = emit (EvPaused i (sm_accrued s1)) (put_stream i (s1 \<lparr> sm_active := False \<rparr>) L)"
    using assms(1) by (auto simp: sp_pause_def Let_def res_bind_def split: if_splits sum.splits)
  have payer: "sm_payer ?s \<noteq> 0" using s1(2) assms(3) by simp
  note adv = advance_keeps [OF s1(1) ledger_stream_ok [OF assms(2)] payer]
  have "kept now 0 (\<lambda>_. 0) L (put_stream i (s1 \<lparr> sm_active := False \<rparr>) L)"
  proof (rule kept_put [OF assms(2)])
    show "sm_payer (s1 \<lparr> sm_active := False \<rparr>) \<noteq> 0" using adv(2) payer by (simp add: same_terms_def)
    show "stream_ok (s1 \<lparr> sm_active := False \<rparr>)" using adv(1) by (auto simp: stream_defs)
    show "same_terms ?s (s1 \<lparr> sm_active := False \<rparr>)" using adv(2) by (simp add: same_terms_def)
    show "sm_lastTick (s1 \<lparr> sm_active := False \<rparr>) \<le> now \<and> metered now (s1 \<lparr> sm_active := False \<rparr>) = metered now ?s"
      if "now < 2 ^ 64" "sm_lastTick ?s \<le> now"
      using adv(1,2) adv(6) [OF that] by (simp add: metered_def stream_ok_def same_terms_def)
  qed (use adv s1(4) in \<open>auto simp: owed_def spent_of_def same_terms_def\<close>)
  then show ?thesis unfolding s1(5) using kept_trans kept_emit [of "put_stream i (s1 \<lparr> sm_active := False \<rparr>) L" now "EvPaused i (sm_accrued s1)"]
    by (fastforce simp: kept_def)
qed

lemma resume_kept:
  assumes "sp_resume now sender i L = Ok L1" "books_ok L" "sender \<noteq> 0"
  shows "kept now 0 (\<lambda>_. 0) L L1"
proof -
  let ?s = "sp_streams L i" and ?s1 = "sp_streams L i \<lparr> sm_active := True, sm_lastTick := now mod 2 ^ 64 \<rparr>"
  have r: "sender = sm_payer ?s" "\<not> sm_closed ?s" "\<not> sm_active ?s" "L1 = emit (EvResumed i) (put_stream i ?s1 L)"
    using assms(1) by (auto simp: sp_resume_def Let_def split: if_splits)
  have "kept now 0 (\<lambda>_. 0) L (put_stream i ?s1 L)"
    by (rule kept_put [OF assms(2)])
      (use r assms(3) ledger_stream_ok [OF assms(2), of i] in \<open>auto simp: stream_defs\<close>)
  then show ?thesis unfolding r(4) by (simp add: kept_def)
qed

lemma stop_effects_kept:
  assumes "stop_effects now sender i L = Ok (a, b, L1)" "books_ok L" "sender \<noteq> 0"
  shows "kept now (int a + int b) ((\<lambda>_. 0)(i := - int a - int b)) L L1"
proof -
  let ?s = "sp_streams L i"
  obtain s1 where s1: "advance now ?s = Ok s1" "sender = sm_payer ?s" "\<not> sm_closed ?s" "sm_withdrawn s1 \<le> sm_accrued s1" "sm_accrued s1 \<le> sm_deposited s1"
    "a = sm_accrued s1 - sm_withdrawn s1" "b = sm_deposited s1 - sm_accrued s1"
    "L1 = put_stream i (s1 \<lparr> sm_closed := True, sm_active := False, sm_withdrawn := sm_accrued s1 \<rparr>) L"
    using assms(1) by (auto simp: stop_effects_def Let_def res_bind_def checked_sub_def split: if_splits sum.splits)
  let ?s1 = "s1 \<lparr> sm_closed := True, sm_active := False, sm_withdrawn := sm_accrued s1 \<rparr>"
  have payer: "sm_payer ?s \<noteq> 0" using s1(2) assms(3) by simp
  note adv = advance_keeps [OF s1(1) ledger_stream_ok [OF assms(2)] payer]
  show ?thesis unfolding s1(8)
  proof (rule kept_put [OF assms(2)])
    show "sm_payer ?s1 \<noteq> 0" using adv(2) payer by (simp add: same_terms_def)
    then show "stream_ok ?s1" using adv(1) by (auto simp: stream_ok_def)
    show "same_terms ?s ?s1" using adv(2) by (simp add: same_terms_def)
    show "sm_lastTick ?s1 \<le> now \<and> metered now ?s1 = metered now ?s" if "now < 2 ^ 64" "sm_lastTick ?s \<le> now"
      using adv(1,2) adv(6) [OF that] by (simp add: metered_def stream_ok_def same_terms_def)
  qed (use s1(3-7) adv in \<open>auto simp: owed_def spent_of_def same_terms_def\<close>)
qed

lemma open_kept:
  assumes "sp_open now sender i payee rate value L = Ok L1" "books_ok L" "sender \<noteq> 0"
  shows "kept now 0 (\<lambda>_. 0) L L1"
proof -
  let ?s1 = "\<lparr> sm_payer = sender, sm_payee = payee, sm_ratePerSecond = rate, sm_deposited = value, sm_accrued = 0, sm_withdrawn = 0,
    sm_lastTick = now mod 2 ^ 64, sm_active = True, sm_closed = False \<rparr>"
  let ?La = "L \<lparr> sp_accounts := (sp_accounts L)(sender := sp_accounts L sender - value), sp_balance := sp_balance L + value \<rparr>"
  have free: "sp_streams L i = empty_stream" and L1: "L1 = emit (EvOpened i sender payee rate value) (put_stream i ?s1 ?La)"
    using assms(1) unopened [OF assms(2), of i] by (auto simp: sp_open_def Let_def split: if_splits)
  have "kept now (int value) (\<lambda>_. 0) L ?La"
    using assms(2) by (simp add: kept_def books_ok_def opened_ids_def owed_total_def paid_out_def)
  moreover have "kept now (- int value) (\<lambda>_. 0) ?La (put_stream i ?s1 ?La)"
    by (rule kept_put) (use assms(2,3) free in \<open>auto simp: stream_defs books_ok_def opened_ids_def\<close>)
  ultimately have "kept now 0 (\<lambda>_. 0) L (put_stream i ?s1 ?La)" using kept_trans by fastforce
  then show ?thesis unfolding L1 by (simp add: kept_def)
qed

lemma kept_cong: "kept now k p L L' \<Longrightarrow> k = k' \<Longrightarrow> (\<And>j. p j = p' j) \<Longrightarrow> kept now k' p' L L'"
  by (metis ext)

lemma kept_ok: "kept now k p L L' \<Longrightarrow> books_ok L'"
  by (simp add: kept_def)

text \<open>Whatever the recipients of transfers call back, a whole call keeps the accounts.\<close>

lemma exec_kept:
  "exec now c L = Ok L' \<Longrightarrow> books_ok L \<Longrightarrow> sender_of c \<noteq> 0 \<Longrightarrow> kept now 0 (\<lambda>_. 0) L L'"
  "transfer now to amount r L = Some L2 \<Longrightarrow> books_ok L \<Longrightarrow> kept now (- int amount) (\<lambda>_. 0) L L2"
  "books_ok L \<Longrightarrow> kept now 0 (\<lambda>_. 0) L (exec_all now cs L)"
proof (induction now c L and now to amount r L and now cs L arbitrary: L' and L2 rule: exec_transfer_exec_all.induct)
  case (4 now sender i r1 r2 L)
  obtain a L1 where e: "withdraw_effects now sender i L = Inr (a, L1)" using 4(2) by (auto split: sum.splits)
  obtain L2 where t: "transfer now (sm_payee (sp_streams L1 i)) a r1 L1 = Some L2" and L': "L' = emit (EvWithdrawn i a (sm_withdrawn (sp_streams L2 i))) L2"
    using 4(2) e by (auto split: option.splits)
  have k1: "kept now (int a) ((\<lambda>_. 0)(i := - int a)) L L1" by (rule withdraw_effects_kept [OF e 4(3)])
  have k2: "kept now (- int a) (\<lambda>_. 0) L1 L2" using 4(1) [OF e refl t kept_ok [OF k1]] .
  show ?case unfolding L'
    by (rule kept_cong [OF kept_trans [OF kept_trans [OF k1 k2] kept_emit [OF kept_ok [OF k2]]]]) auto
next
  case (5 now sender i r1 r2 L)
  obtain a b L1 where e: "stop_effects now sender i L = Inr (a, b, L1)" using 5(3) by (auto split: sum.splits)
  obtain L2 where t: "(if a > 0 then transfer now (sm_payee (sp_streams L1 i)) a r1 L1 else Some L1) = Some L2" using 5(3) e by (auto split: option.splits)
  obtain L3 where t3: "(if b > 0 then transfer now (sm_payer (sp_streams L2 i)) b r2 L2 else Some L2) = Some L3" and L': "L' = emit (EvStopped i a b) L3"
    using 5(3) e t by (auto split: option.splits)
  have k1: "kept now (int a + int b) ((\<lambda>_. 0)(i := - int a - int b)) L L1" by (rule stop_effects_kept [OF e 5(4)]) (use 5(5) in simp)
  have k2: "kept now (- int a) (\<lambda>_. 0) L1 L2"
    using 5(1) [OF e refl refl _ _ kept_ok [OF k1]] t kept_refl [OF kept_ok [OF k1]] by (auto split: if_splits)
  have k3: "kept now (- int b) (\<lambda>_. 0) L2 L3"
    using 5(2) [OF e refl refl t _ _ kept_ok [OF k2]] t3 kept_refl [OF kept_ok [OF k2]] by (auto split: if_splits)
  show ?case unfolding L'
    by (rule kept_cong [OF kept_trans [OF kept_trans [OF kept_trans [OF k1 k2] k3] kept_emit [OF kept_ok [OF k3]]]]) auto
next
  case (6 now to amount accepts calls L)
  let ?L1 = "L \<lparr> sp_balance := sp_balance L - amount, sp_accounts := (sp_accounts L)(to := sp_accounts L to + amount) \<rparr>"
  have L2: "amount \<le> sp_balance L" "L2 = exec_all now calls ?L1" and go: "\<not> (sp_balance L < amount \<or> to = sp_self L \<or> \<not> accepts)"
    using 6(2) by (auto split: if_splits)
  have k1: "kept now (- int amount) (\<lambda>_. 0) L ?L1"
    using 6(3) L2(1) by (simp add: kept_def books_ok_def opened_ids_def owed_total_def paid_out_def)
  show ?case unfolding L2(2) by (rule kept_cong [OF kept_trans [OF k1 6(1) [OF go kept_ok [OF k1]]]]) auto
next
  case (8 now c cs L)
  have k1: "kept now 0 (\<lambda>_. 0) L (if sender_of c = 0 then L else case exec now c L of Inl _ \<Rightarrow> L | Inr L' \<Rightarrow> L')"
    using 8(1) 8(3) kept_refl [OF 8(3)] by (auto split: sum.split)
  show ?case unfolding exec_all.simps by (rule kept_cong [OF kept_trans [OF k1 8(2) [OF kept_ok [OF k1]]]]) auto
qed (auto intro: open_kept pause_kept resume_kept kept_refl)


section \<open>Runs\<close>

lemma step_kept: "books_ok L \<Longrightarrow> kept now 0 (\<lambda>_. 0) L (exec_all now [c] L)"
  by (rule exec_kept(3))

lemma run_balanced:
  assumes "books_ok L"
  shows "books_ok (run_txs txs L) \<and>
    int (sp_balance (run_txs txs L)) - int (owed_total (run_txs txs L)) = int (sp_balance L) - int (owed_total L) \<and>
    (\<forall>i. int (paid_out i (run_txs txs L)) - int (spent_of (sp_streams (run_txs txs L) i)) = int (paid_out i L) - int (spent_of (sp_streams L i)))"
  using assms
proof (induction txs L rule: run_txs.induct)
  case (2 now c txs L)
  note k = step_kept [OF 2(2), of now c]
  show ?case using 2(1) [OF kept_ok [OF k]] k by (simp add: kept_def)
qed simp

lemma run_terms:
  assumes "books_ok L" "sm_payer (sp_streams L i) \<noteq> 0"
  shows "same_terms (sp_streams L i) (sp_streams (run_txs txs L) i)"
  using assms
proof (induction txs L rule: run_txs.induct)
  case (2 now c txs L)
  note k = step_kept [OF 2(2), of now c]
  then have "same_terms (sp_streams L i) (sp_streams (exec_all now [c] L) i)" using 2(3) by (simp add: kept_def)
  then show ?case using 2(1) [OF kept_ok [OF k]] 2(3) by (auto simp: same_terms_def)
qed simp

definition fresh_ledger :: "ledger \<Rightarrow> bool" where
  "fresh_ledger L \<longleftrightarrow> sp_streams L = (\<lambda>_. empty_stream) \<and> sp_logs L = []"

lemma fresh_books_ok: "fresh_ledger L \<Longrightarrow> books_ok L \<and> owed_total L = 0 \<and> paid_out i L = 0 \<and> spent_of (sp_streams L i) = 0"
  by (simp add: fresh_ledger_def books_ok_def opened_ids_def owed_total_def paid_out_def stream_defs)

text \<open>The seconds a stream was active up to \<open>t'\<close>: between two transactions it is what the first one left.\<close>

fun active_secs :: "stream_id \<Rightarrow> (nat \<times> call_tree) list \<Rightarrow> ledger \<Rightarrow> nat \<Rightarrow> nat \<Rightarrow> nat" where
  "active_secs i [] L t t' = (if sm_active (sp_streams L i) then t' - t else 0)"
| "active_secs i ((now, c) # txs) L t t' =
    (if sm_active (sp_streams L i) then now - t else 0) + active_secs i txs (exec_all now [c] L) now t'"

lemma metered_later:
  assumes "sm_lastTick s \<le> t" "t \<le> t'"
  shows "metered t' s = min (sm_deposited s) (metered t s + (if sm_active s then sm_ratePerSecond s * (t' - t) else 0))"
proof -
  have "sm_ratePerSecond s * (t' - sm_lastTick s) = sm_ratePerSecond s * (t - sm_lastTick s) + sm_ratePerSecond s * (t' - t)"
    using assms by (simp flip: add_mult_distrib2)
  then show ?thesis by (auto simp: metered_def min_def)
qed

lemma metered_run:
  assumes "books_ok L" "sm_lastTick (sp_streams L i) \<le> t" "sorted (t # map fst txs @ [t'])" "t' < 2 ^ 64"
  shows "sm_lastTick (sp_streams (run_txs txs L) i) \<le> t' \<and>
    metered t' (sp_streams (run_txs txs L) i) = min (sm_deposited (sp_streams (run_txs txs L) i))
      (metered t (sp_streams L i) + sm_ratePerSecond (sp_streams (run_txs txs L) i) * active_secs i txs L t t')"
  using assms
proof (induction txs arbitrary: L t)
  case Nil
  then show ?case using metered_later [of "sp_streams L i" t t'] by auto
next
  case (Cons tx txs)
  obtain now c where tx: "tx = (now, c)" by (cases tx)
  let ?L1 = "exec_all now [c] L" and ?s = "sp_streams L i"
  have times: "t \<le> now" "now < 2 ^ 64" "sorted (now # map fst txs @ [t'])" using Cons.prems(3,4) by (auto simp: tx)
  note k = step_kept [OF Cons.prems(1), of now c]
  have s1: "sm_lastTick (sp_streams ?L1 i) \<le> now" "metered now (sp_streams ?L1 i) = metered now ?s"
    using k times(1,2) Cons.prems(2) unfolding kept_def by auto
  let ?s' = "sp_streams (run_txs txs ?L1) i"
  have IH: "sm_lastTick ?s' \<le> t'" "metered t' ?s' = min (sm_deposited ?s') (metered now ?s + sm_ratePerSecond ?s' * active_secs i txs ?L1 now t')"
    using Cons.IH [OF kept_ok [OF k] s1(1) times(3) Cons.prems(4)] s1(2) by auto
  have "metered t' ?s' = min (sm_deposited ?s') (metered t ?s + sm_ratePerSecond ?s' * active_secs i (tx # txs) L t t')"
  proof (cases "sm_payer ?s = 0")
    case True
    then have "?s = empty_stream" by (rule unopened [OF Cons.prems(1)])
    then show ?thesis using IH(2) by (simp add: tx metered_def empty_stream_def)
  next
    case False
    then have "same_terms ?s ?s'"
      using run_terms [OF Cons.prems(1), of i "tx # txs"] by (simp add: tx)
    then have "sm_deposited ?s' = sm_deposited ?s" "sm_ratePerSecond ?s' = sm_ratePerSecond ?s" by (simp_all add: same_terms_def)
    then show ?thesis using IH(2) metered_later [OF Cons.prems(2) times(1)]
      by (auto simp: tx min_def distrib_left)
  qed
  then show ?case using IH(1) by (simp add: tx)
qed

lemma earned_metered:
  assumes "stream_ok (sp_streams L i)" "sm_lastTick (sp_streams L i) \<le> t"
    "sm_deposited (sp_streams L i) + sm_ratePerSecond (sp_streams L i) * t < 2 ^ 256"
  shows "earned t i L = Ok (metered t (sp_streams L i))"
proof -
  let ?s = "sp_streams L i"
  have "sm_ratePerSecond ?s * (t - sm_lastTick ?s) \<le> sm_ratePerSecond ?s * t" "sm_accrued ?s \<le> sm_deposited ?s"
    using assms(1) by (simp_all add: stream_ok_def)
  then have "sm_accrued ?s + sm_ratePerSecond ?s * (t - sm_lastTick ?s) < 2 ^ 256" "sm_ratePerSecond ?s * (t - sm_lastTick ?s) < 2 ^ 256"
    using assms(3) by linarith+
  then show ?thesis using assms(1,2)
    by (auto simp: earned_def live_total_def checked_sub_def checked_def metered_def stream_ok_def Let_def res_bind_def)
qed


text \<open>A stream whose accrual no longer fits into 256 bits.\<close>

definition overflown :: "nat \<Rightarrow> pay_stream \<Rightarrow> bool" where
  "overflown t s \<longleftrightarrow> sm_payer s \<noteq> 0 \<and> sm_active s \<and> \<not> sm_closed s \<and> sm_lastTick s \<le> t \<and> 2 ^ 256 \<le> sm_ratePerSecond s * (t - sm_lastTick s)"

lemma overflown_later: "overflown t s \<Longrightarrow> t \<le> t' \<Longrightarrow> overflown t' s"
  unfolding overflown_def by (meson diff_le_mono le_trans mult_le_mono2)

lemma overflown_advance: "overflown t s \<Longrightarrow> advance t s = Throw ArithmeticPanic"
  by (auto simp: overflown_def advance_def live_total_def checked_def checked_sub_def res_bind_def)

lemma overflown_fixed:
  "exec now c L = Ok L' \<Longrightarrow> overflown now (sp_streams L i) \<Longrightarrow> sp_streams L' i = sp_streams L i"
  "transfer now to amount r L = Some L2 \<Longrightarrow> overflown now (sp_streams L i) \<Longrightarrow> sp_streams L2 i = sp_streams L i"
  "overflown now (sp_streams L i) \<Longrightarrow> sp_streams (exec_all now cs L) i = sp_streams L i"
proof (induction now c L and now to amount r L and now cs L arbitrary: L' and L2 rule: exec_transfer_exec_all.induct)
  case (1 now sender j payee rate val r1 r2 L)
  then show ?case by (auto simp: sp_open_def Let_def overflown_def split: if_splits)
next
  case (2 now sender j r1 r2 L)
  then show ?case using overflown_advance [OF 2(2)] by (auto simp: sp_pause_def Let_def res_bind_def split: if_splits sum.splits)
next
  case (3 now sender j r1 r2 L)
  then show ?case by (auto simp: sp_resume_def Let_def overflown_def split: if_splits)
next
  case (4 now sender j r1 r2 L)
  obtain a L1 where e: "withdraw_effects now sender j L = Inr (a, L1)" using 4(2) by (auto split: sum.splits)
  have L1: "sp_streams L1 i = sp_streams L i"
    using e overflown_advance [OF 4(3)] by (auto simp: withdraw_effects_def Let_def res_bind_def split: if_splits sum.splits)
  show ?case using 4(1) [OF e refl] 4(2) 4(3) e by (auto simp: L1 split: option.splits)
next
  case (5 now sender j r1 r2 L)
  obtain a b L1 where e: "stop_effects now sender j L = Inr (a, b, L1)" using 5(3) by (auto split: sum.splits)
  have L1: "sp_streams L1 i = sp_streams L i"
    using e overflown_advance [OF 5(4)] by (auto simp: stop_effects_def Let_def res_bind_def split: if_splits sum.splits)
  obtain L2 where t: "(if a > 0 then transfer now (sm_payee (sp_streams L1 j)) a r1 L1 else Some L1) = Some L2" using 5(3) e by (auto split: option.splits)
  have L2: "sp_streams L2 i = sp_streams L i" using 5(1) [OF e refl refl _ _ 5(4) [folded L1]] t L1 by (auto split: if_splits)
  obtain L3 where t3: "(if b > 0 then transfer now (sm_payer (sp_streams L2 j)) b r2 L2 else Some L2) = Some L3" and L': "L' = emit (EvStopped j a b) L3"
    using 5(3) e t by (auto split: option.splits)
  show ?case using 5(2) [OF e refl refl t _ _ 5(4) [folded L2]] t3 L2 by (auto simp: L' split: if_splits)
next
  case (6 now to amount accepts calls L)
  then show ?case by (auto split: if_splits)
next
  case (8 now c cs L)
  have "sp_streams (if sender_of c = 0 then L else case exec now c L of Inl _ \<Rightarrow> L | Inr L' \<Rightarrow> L') i = sp_streams L i"
    using 8(1) 8(3) by (auto split: sum.split)
  then show ?case using 8(2) 8(3) by simp
qed simp


section \<open>Properties\<close>

text \<open>C6: from a fresh contract, after any transactions in any order and whatever the recipients of its transfers call back before
  they return, the balance is exactly what the contract still owes on its open streams; for every stream the amounts in its
  events add up to what has left it, and together with what is owed to the deposit.\<close>

theorem streampay_accounts_balance:
  fixes txs :: "(nat \<times> call_tree) list"
  assumes "fresh_ledger L0"
  defines "L \<equiv> run_txs txs L0"
  shows "sp_balance L = sp_balance L0 + owed_total L \<and>
    (\<forall>i. paid_out i L = spent_of (sp_streams L i) \<and> paid_out i L + owed (sp_streams L i) = sm_deposited (sp_streams L i))"
proof -
  note f = fresh_books_ok [OF assms(1)]
  have ok: "books_ok L0" using f by simp
  note r = run_balanced [OF ok, of txs, folded L_def]
  have "spent_of (sp_streams L i) + owed (sp_streams L i) = sm_deposited (sp_streams L i)" for i
    using ledger_stream_ok [of L i] r by (auto simp: spent_of_def owed_def stream_ok_def)
  moreover have "paid_out i L = spent_of (sp_streams L i)" for i
  proof -
    have "int (paid_out i L) - int (spent_of (sp_streams L i)) = int (paid_out i L0) - int (spent_of (sp_streams L0 i))" using r by blast
    then show ?thesis using f [of i] by simp
  qed
  moreover have "sp_balance L = sp_balance L0 + owed_total L" using r f by simp
  ultimately show ?thesis by simp
qed

text \<open>The meter is the rate times the seconds the stream was active, capped at the deposit: whatever was
  withdrawn, paused, resumed or called re-entrantly, \<open>earned\<close> at a later time shows
  exactly that, as long as the accrual fits into 256 bits.\<close>

theorem meter_is_rate_times_active_time:
  fixes i :: stream_id
  assumes "fresh_ledger L0" "sorted (map fst txs @ [t])" "t < 2 ^ 64"
  defines "s \<equiv> sp_streams (run_txs txs L0) i"
  assumes "sm_deposited s + sm_ratePerSecond s * t < 2 ^ 256"
  shows "earned t i (run_txs txs L0) = Ok (min (sm_deposited s) (sm_ratePerSecond s * active_secs i txs L0 0 t))"
proof -
  have ok: "books_ok L0" using fresh_books_ok [OF assms(1)] by simp
  have e: "sp_streams L0 i = empty_stream" using assms(1) by (simp add: fresh_ledger_def)
  have "sm_lastTick s \<le> t \<and> metered t s = min (sm_deposited s) (metered 0 (sp_streams L0 i) + sm_ratePerSecond s * active_secs i txs L0 0 t)"
    unfolding s_def by (rule metered_run [OF ok _ _ assms(3)]) (use assms(2) e in \<open>auto simp: empty_stream_def\<close>)
  moreover have "metered 0 (sp_streams L0 i) = 0" by (simp add: e metered_def empty_stream_def)
  moreover have "stream_ok s" unfolding s_def using run_balanced [OF ok] ledger_stream_ok by blast
  ultimately show ?thesis using earned_metered [of "run_txs txs L0" i t] assms(5) by (simp add: s_def)
qed

text \<open>A stream whose rate times elapsed seconds reaches 2^256 is stuck: from then on no transaction of anyone
  changes it, so its deposit can be neither withdrawn nor refunded.\<close>

theorem overflowing_rate_locks_deposit:
  assumes "overflown t (sp_streams L i)" "\<forall>tx\<in>set txs. t \<le> fst tx"
  shows "sp_streams (run_txs txs L) i = sp_streams L i"
  using assms
proof (induction txs arbitrary: L)
  case (Cons tx txs)
  obtain now c where tx: "tx = (now, c)" by (cases tx)
  have "overflown now (sp_streams L i)" using overflown_later [OF Cons.prems(1)] Cons.prems(2) by (simp add: tx)
  then have "sp_streams (exec_all now [c] L) i = sp_streams L i" by (rule overflown_fixed(3))
  then show ?case using Cons.IH [of "exec_all now [c] L"] Cons.prems by (simp add: tx del: exec_all.simps)
qed simp

lemma advance_metered:
  assumes "stream_ok s" "sm_lastTick s \<le> now" "sm_deposited s + sm_ratePerSecond s * now < 2 ^ 256" "now < 2 ^ 64"
  shows "advance now s = Ok (s \<lparr> sm_accrued := metered now s, sm_lastTick := now \<rparr>)"
proof -
  have "sm_ratePerSecond s * (now - sm_lastTick s) \<le> sm_ratePerSecond s * now" "sm_accrued s \<le> sm_deposited s"
    using assms(1) by (simp_all add: stream_ok_def)
  then have "sm_accrued s + sm_ratePerSecond s * (now - sm_lastTick s) < 2 ^ 256" "sm_ratePerSecond s * (now - sm_lastTick s) < 2 ^ 256"
    using assms(3) by linarith+
  then show ?thesis using assms(1,2,4)
    by (auto simp: advance_def live_total_def checked_sub_def checked_def metered_def stream_ok_def res_bind_def)
qed

text \<open>Paying an ordinary account; nothing is sent when nothing is due.\<close>

lemma pay_plain:
  assumes "a \<le> sp_balance L" "to \<noteq> sp_self L"
  shows "\<exists>L2. (if 0 < a then transfer now to a (React True []) L else Some L) = Some L2 \<and> sp_streams L2 = sp_streams L \<and> sp_self L2 = sp_self L \<and>
    sp_logs L2 = sp_logs L \<and> sp_balance L2 = sp_balance L - a \<and> sp_accounts L2 = (sp_accounts L)(to := sp_accounts L to + a)"
  using assms by (cases "0 < a") auto

lemma metered_bounds: "stream_ok s \<Longrightarrow> sm_withdrawn s \<le> metered t s \<and> metered t s \<le> sm_deposited s"
  by (auto simp: stream_ok_def metered_def)

lemma owed_covered:
  assumes "books_ok L" "owed_total L \<le> sp_balance L"
  shows "owed (sp_streams L i) \<le> sp_balance L"
proof (cases "i \<in> opened_ids L")
  case True
  then have "owed (sp_streams L i) \<le> owed_total L"
    unfolding owed_total_def using assms(1) by (intro member_le_sum) (auto simp: books_ok_def)
  then show ?thesis using assms(2) by simp
next
  case False
  then have "sp_streams L i = empty_stream" using unopened [OF assms(1)] by (simp add: opened_ids_def)
  then show ?thesis by (simp add: owed_def empty_stream_def)
qed

text \<open>C16: when the payer can stop an open stream. After any calls from an empty contract, if (1) the deposit plus the rate times the current
  time fits into 256 bits, (2) neither party is the contract itself and (3) both recipients accept their transfer and do not call back,
  then the payer's stop succeeds: the balance covers it, the client's answer is what the meter showed (the withdrawable part to the
  payee, the rest of the deposit back to the payer), the accounts receive exactly that, and the stream is closed. The conditions are
  needed: with an overflowing rate the deposit stays locked (\<open>overflowing_rate_locks_deposit\<close>), and a recipient that refuses
  its transfer reverts the stop.\<close>

theorem payer_stops_metered_stream:
  fixes i :: stream_id
  assumes "fresh_ledger L0" "sorted (map fst txs @ [now])" "now < 2 ^ 64"
  defines "L \<equiv> run_txs txs L0"
  defines "s \<equiv> sp_streams L i"
  assumes "sm_payer s \<noteq> 0" "\<not> sm_closed s" "sm_payee s \<noteq> sp_self L" "sm_payer s \<noteq> sp_self L"
    "sm_deposited s + sm_ratePerSecond s * now < 2 ^ 256"
  shows "\<exists>m L'. readMeter now i L = Ok m \<and>
    stopStream now (sm_payer s) (React True []) (React True []) i L = Ok (me_withdrawable m, me_deposit m - me_earned m, L') \<and>
    me_withdrawn m + me_withdrawable m + (me_deposit m - me_earned m) = me_deposit m \<and> sm_closed (sp_streams L' i) \<and>
    (let acc = (sp_accounts L)(sm_payee s := sp_accounts L (sm_payee s) + me_withdrawable m) in
     sp_accounts L' = acc(sm_payer s := acc (sm_payer s) + (me_deposit m - me_earned m)))"
proof -
  have ok0: "books_ok L0" using fresh_books_ok [OF assms(1)] by simp
  note r = run_balanced [OF ok0, of txs, folded L_def]
  then have ok: "books_ok L" by simp
  have sok: "stream_ok s" unfolding s_def by (rule ledger_stream_ok [OF ok])
  have "sm_lastTick (sp_streams L0 i) \<le> 0" using assms(1) by (simp add: fresh_ledger_def empty_stream_def)
  from metered_run [OF ok0 this _ assms(3)] have tick: "sm_lastTick s \<le> now"
    using assms(2) by (simp add: s_def L_def)
  let ?e = "metered now s"
  have b: "sm_withdrawn s \<le> ?e" "?e \<le> sm_deposited s" using metered_bounds [OF sok] by auto
  have bal: "sm_deposited s - sm_withdrawn s \<le> sp_balance L"
    using owed_covered [OF ok, of i] r fresh_books_ok [OF assms(1)] \<open>\<not> sm_closed s\<close> by (simp add: owed_def s_def)
  have e: "earned now i L = Ok ?e" using earned_metered [of L i now] sok tick assms(10) by (simp add: s_def)
  then have m: "readMeter now i L = Ok \<lparr> me_earned = ?e, me_withdrawable = ?e - sm_withdrawn s,
      me_state = (if sm_active s then Streaming else PausedStream), me_deposit = sm_deposited s, me_withdrawn = sm_withdrawn s \<rparr>"
    using b \<open>\<not> sm_closed s\<close> by (simp add: readMeter_def withdrawable_def checked_sub_def res_bind_def Let_def s_def)
  define a b where "a = ?e - sm_withdrawn s" and "b = sm_deposited s - ?e"
  define L1 where "L1 = put_stream i (s \<lparr> sm_accrued := ?e, sm_lastTick := now, sm_closed := True, sm_active := False, sm_withdrawn := ?e \<rparr>) L"
  have ab: "a + b \<le> sp_balance L" "sm_withdrawn s + a + b = sm_deposited s" using b bal by (simp_all add: a_def b_def)
  have eff: "stop_effects now (sm_payer s) i L = Ok (a, b, L1)"
    using advance_metered [OF sok tick assms(10,3)] \<open>\<not> sm_closed s\<close> b
    by (simp add: stop_effects_def Let_def res_bind_def checked_sub_def a_def b_def L1_def flip: s_def)
  have L1: "sm_payee (sp_streams L1 i) = sm_payee s" "sm_payer (sp_streams L1 i) = sm_payer s" "sm_closed (sp_streams L1 i)" "sp_logs L1 = sp_logs L"
    "sp_balance L1 = sp_balance L" "sp_self L1 = sp_self L" "sp_accounts L1 = sp_accounts L"
    by (simp_all add: L1_def)
  obtain L2 where L2: "(if 0 < a then transfer now (sm_payee s) a (React True []) L1 else Some L1) = Some L2"
      "sp_streams L2 = sp_streams L1" "sp_self L2 = sp_self L1" "sp_logs L2 = sp_logs L1" "sp_balance L2 = sp_balance L1 - a"
      "sp_accounts L2 = (sp_accounts L1)(sm_payee s := sp_accounts L1 (sm_payee s) + a)"
  proof -
    have "a \<le> sp_balance L1" "sm_payee s \<noteq> sp_self L1" using ab(1) L1(5,6) assms(8) by simp_all
    from pay_plain [OF this, of now] show ?thesis using that by blast
  qed
  obtain L3 where L3: "(if 0 < b then transfer now (sm_payer s) b (React True []) L2 else Some L2) = Some L3"
      "sp_streams L3 = sp_streams L2" "sp_logs L3 = sp_logs L2" "sp_accounts L3 = (sp_accounts L2)(sm_payer s := sp_accounts L2 (sm_payer s) + b)"
  proof -
    have "b \<le> sp_balance L2" "sm_payer s \<noteq> sp_self L2" using ab(1) L1(5,6) L2(3,5) assms(9) by simp_all
    from pay_plain [OF this, of now] show ?thesis using that by blast
  qed
  have p: "sm_payer (sp_streams L2 i) = sm_payer s" by (simp add: L2(2) L1(2))
  have "exec now (CallTree (sm_payer s) (OpStop i) (React True []) (React True [])) L = Ok (emit (EvStopped i a b) L3)"
    unfolding exec.simps eff sum.case prod.case L1(1) L2(1) option.case p L3(1) ..
  then have "stopStream now (sm_payer s) (React True []) (React True []) i L = Ok (a, b, emit (EvStopped i a b) L3)"
    by (simp add: stopStream_def res_bind_def receipt_logs_def L3(3) L2(4) L1(4) del: exec.simps)
  then show ?thesis unfolding m using ab(2) L1 L2(2,6) L3(2,4) by (simp add: Let_def flip: a_def b_def)
qed

text \<open>With a recipient that is a contract the client can report a wrong amount: it takes the first \<open>Withdrawn\<close> event of
  the receipt, and a withdrawal the recipient makes from another stream while it is being paid comes first.\<close>

theorem withdraw_report_misled:
  "\<exists>txs L0 L L' r. fresh_ledger L0 \<and> L = run_txs txs L0 \<and> withdrawStream 20 7 r 1 L = Ok (10, L') \<and>
     sm_withdrawn (sp_streams L 1) = 0 \<and> sm_withdrawn (sp_streams L' 1) = 50"
proof -
  let ?ok = "React True []"
  let ?L0 = "\<lparr> sp_self = 99, sp_streams = (\<lambda>_. empty_stream), sp_balance = 0, sp_accounts = (\<lambda>_. 1000), sp_logs = [] \<rparr>"
  let ?txs = "[(10, CallTree 3 (OpOpen 1 7 5 100) ?ok ?ok), (10, CallTree 3 (OpOpen 2 7 1 100) ?ok ?ok)]"
  let ?r = "React True [CallTree 7 (OpWithdraw 2) ?ok ?ok]"
  have "\<exists>L'. withdrawStream 20 7 ?r 1 (run_txs ?txs ?L0) = Ok (10, L') \<and> sm_withdrawn (sp_streams (run_txs ?txs ?L0) 1) = 0 \<and> sm_withdrawn (sp_streams L' 1) = 50"
    by (simp add: withdrawStream_def sp_open_def withdraw_effects_def advance_def live_total_def checked_def checked_sub_def res_bind_def
        Let_def receipt_logs_def emit_def put_stream_def empty_stream_def)
  moreover have "fresh_ledger ?L0" by (simp add: fresh_ledger_def)
  ultimately show ?thesis by blast
qed


subsection \<open>Witnesses\<close>

definition demo_ledger :: ledger where
  "demo_ledger = \<lparr> sp_self = 99, sp_streams = (\<lambda>_. empty_stream), sp_balance = 0, sp_accounts = (\<lambda>_. 1000), sp_logs = [] \<rparr>"

text \<open>Open, withdraw with a recipient that tries to withdraw again, pause and resume.\<close>

definition demo_stream_txs :: "(nat \<times> call_tree) list" where
  "demo_stream_txs = (let r = React True [] in
    [(10, CallTree 3 (OpOpen 5 7 2 100) r r), (20, CallTree 7 (OpWithdraw 5) (React True [CallTree 7 (OpWithdraw 5) r r]) r),
     (25, CallTree 3 (OpPause 5) r r), (40, CallTree 3 (OpResume 5) r r)])"

lemmas demo_eval = demo_ledger_def demo_stream_txs_def sp_open_def withdraw_effects_def sp_pause_def sp_resume_def advance_def live_total_def
  checked_def checked_sub_def res_bind_def Let_def emit_def put_stream_def empty_stream_def

lemma demo_fresh: "fresh_ledger demo_ledger"
  by (simp add: fresh_ledger_def demo_ledger_def)

lemma demo_stream_run:
  "sp_streams (run_txs demo_stream_txs demo_ledger) 5 = \<lparr> sm_payer = 3, sm_payee = 7, sm_ratePerSecond = 2, sm_deposited = 100, sm_accrued = 30,
     sm_withdrawn = 20, sm_lastTick = 40, sm_active = True, sm_closed = False \<rparr>"
  "active_secs 5 demo_stream_txs demo_ledger 0 50 = 25" "sp_self (run_txs demo_stream_txs demo_ledger) = 99"
  by (simp_all add: demo_eval)

theorem streampay_accounts_balance_witness:
  "sp_balance (run_txs demo_stream_txs demo_ledger) = owed_total (run_txs demo_stream_txs demo_ledger) \<and>
   paid_out 5 (run_txs demo_stream_txs demo_ledger) = 20"
  using streampay_accounts_balance [OF demo_fresh, of demo_stream_txs]
  by (auto simp: demo_stream_run(1) spent_of_def) (simp add: demo_ledger_def)

theorem meter_is_rate_times_active_time_witness:
  "earned 50 5 (run_txs demo_stream_txs demo_ledger) = Ok 50"
  using meter_is_rate_times_active_time [OF demo_fresh, of demo_stream_txs 50 5]
  by (simp add: demo_stream_run) (simp add: demo_stream_txs_def Let_def)

theorem overflowing_rate_locks_deposit_witness:
  "sp_streams (run_txs [(20, CallTree 3 (OpStop 5) (React True []) (React True []))]
      (run_txs [(10, CallTree 3 (OpOpen 5 7 (2 ^ 255) 100) (React True []) (React True []))] demo_ledger)) 5 =
   sp_streams (run_txs [(10, CallTree 3 (OpOpen 5 7 (2 ^ 255) 100) (React True []) (React True []))] demo_ledger) 5"
  by (rule overflowing_rate_locks_deposit [where t = 20]) (simp_all add: overflown_def demo_eval)

theorem payer_stops_metered_stream_witness:
  "\<exists>L'. stopStream 50 3 (React True []) (React True []) 5 (run_txs demo_stream_txs demo_ledger) = Ok (30, 50, L')"
proof -
  have "earned 50 5 (run_txs demo_stream_txs demo_ledger) = Ok 50"
    by (simp add: earned_def demo_stream_run Let_def res_bind_def live_total_def checked_def checked_sub_def)
  then have m: "readMeter 50 5 (run_txs demo_stream_txs demo_ledger) = Ok \<lparr> me_earned = 50, me_withdrawable = 30, me_state = Streaming, me_deposit = 100, me_withdrawn = 20 \<rparr>"
    by (simp add: readMeter_def withdrawable_def demo_stream_run Let_def res_bind_def checked_sub_def)
  have "sorted (map fst demo_stream_txs @ [50])" by (simp add: demo_stream_txs_def Let_def)
  from payer_stops_metered_stream [OF demo_fresh this, of 5] show ?thesis
    by (auto simp: demo_stream_run m)
qed

end
