(* ===== verification/StreamPage.thy ===== *)
theory StreamPage
  imports StreamPay
begin

text \<open>
  The stream page \<open>frontend/app/(app)/stream/page.tsx\<close>: the record of the current stream, its copy in the browser's
  local storage, and the seven actions. What a wallet, the node or a contract call answers is an argument of an action, as are the
  stream id, the fresh payee key and the decimal text of amounts (\<open>formatUnits\<close>). Rendering is not modelled, nor the
  sum that the closing card reads back from the texts with floating-point numbers.
\<close>

section \<open>Record and storage\<close>

record tx_row =
  tr_step :: string
  tr_hash :: string
  tr_note :: "string option"

record stream_record =
  sr_id :: string
  sr_payeeAddr :: string
  sr_payeePriv :: string
  sr_openTx :: string
  sr_txs :: "tx_row list"
  sr_closed :: bool
  sr_finalPayeePaid :: "string option"
  sr_finalRefund :: "string option"

definition LS_ADDR :: string where
  "LS_ADDR = ''streampay:5042002:addr''"

definition LS_STREAM :: string where
  "LS_STREAM = ''streampay:5042002:current-stream''"

definition RATE :: nat where
  "RATE = 100000000000000"

definition CAP :: nat where
  "CAP = 5000000000000000"

definition BOOTSTRAP :: nat where
  "BOOTSTRAP = 10000000000000000"

text \<open>Members that are \<open>undefined\<close> are not written.\<close>

definition text_member :: "string \<Rightarrow> string option \<Rightarrow> (string \<times> jsval) list" where
  "text_member k x = (case x of None \<Rightarrow> [] | Some v \<Rightarrow> [(k, VStr v)])"

definition row_value :: "tx_row \<Rightarrow> jsval" where
  "row_value r = VObj ([(''step'', VStr (tr_step r)), (''hash'', VStr (tr_hash r))] @ text_member ''note'' (tr_note r))"

definition record_value :: "stream_record \<Rightarrow> jsval" where
  "record_value r = VObj ([(''id'', VStr (sr_id r)), (''payeeAddr'', VStr (sr_payeeAddr r)), (''payeePriv'', VStr (sr_payeePriv r)),
     (''openTx'', VStr (sr_openTx r)), (''txs'', VArr (map row_value (sr_txs r))), (''closed'', VBool (sr_closed r))] @
     text_member ''finalPayeePaid'' (sr_finalPayeePaid r) @ text_member ''finalRefund'' (sr_finalRefund r))"

text \<open>Reading back with the types the page casts to.\<close>

definition as_text :: "jsval \<Rightarrow> string" where
  "as_text v = (case v of VStr t \<Rightarrow> t | _ \<Rightarrow> [])"

definition as_opt :: "jsval \<Rightarrow> string option" where
  "as_opt v = (case v of VStr t \<Rightarrow> Some t | _ \<Rightarrow> None)"

definition row_of :: "jsval \<Rightarrow> tx_row" where
  "row_of v = \<lparr> tr_step = as_text (js_get v ''step''), tr_hash = as_text (js_get v ''hash''), tr_note = as_opt (js_get v ''note'') \<rparr>"

definition record_of :: "jsval \<Rightarrow> stream_record option" where
  "record_of v = (case v of
     VObj _ \<Rightarrow> Some \<lparr> sr_id = as_text (js_get v ''id''), sr_payeeAddr = as_text (js_get v ''payeeAddr''), sr_payeePriv = as_text (js_get v ''payeePriv''),
       sr_openTx = as_text (js_get v ''openTx''), sr_txs = (case js_get v ''txs'' of VArr vs \<Rightarrow> map row_of vs | _ \<Rightarrow> []),
       sr_closed = (js_get v ''closed'' = VBool True),
       sr_finalPayeePaid = as_opt (js_get v ''finalPayeePaid''), sr_finalRefund = as_opt (js_get v ''finalRefund'') \<rparr>
   | _ \<Rightarrow> None)"

type_synonym local_storage = "string \<Rightarrow> string option"

definition loadRecord :: "local_storage \<Rightarrow> stream_record option" where
  "loadRecord ls = (case ls LS_STREAM of
     None \<Rightarrow> None
   | Some raw \<Rightarrow> if raw = [] then None else Option.bind (json_parse raw) record_of)"

definition saveRecord :: "stream_record option \<Rightarrow> local_storage \<Rightarrow> local_storage" where
  "saveRecord r ls = ls(LS_STREAM := map_option (\<lambda>x. stringify (record_value x)) r)"


section \<open>Actions\<close>

record page =
  pg_storage :: local_storage
  pg_contractAddr :: "string option"
  pg_record :: "stream_record option"
  pg_error :: "string option"

text \<open>The effect that runs when the page mounts.\<close>

definition hydrate :: "local_storage \<Rightarrow> page" where
  "hydrate ls = \<lparr> pg_storage = ls, pg_contractAddr = ls LS_ADDR, pg_record = loadRecord ls, pg_error = None \<rparr>"

text \<open>\<open>run\<close>: clears the error, and keeps the message of what the step throws. No step changes the page before it may throw.\<close>

definition run_step :: "(page \<Rightarrow> (string, page) result) \<Rightarrow> page \<Rightarrow> page" where
  "run_step f pg = (case f (pg \<lparr> pg_error := None \<rparr>) of Inl e \<Rightarrow> pg \<lparr> pg_error := Some e \<rparr> | Inr pg' \<Rightarrow> pg')"

definition keep_record :: "stream_record \<Rightarrow> page \<Rightarrow> page" where
  "keep_record r pg = pg \<lparr> pg_storage := saveRecord (Some r) (pg_storage pg), pg_record := Some r \<rparr>"

definition has_contract :: "page \<Rightarrow> bool" where
  "has_contract pg = (case pg_contractAddr pg of None \<Rightarrow> False | Some a \<Rightarrow> a \<noteq> [])"

definition append_row :: "stream_record \<Rightarrow> tx_row \<Rightarrow> stream_record" where
  "append_row r row = r \<lparr> sr_txs := sr_txs r @ [row] \<rparr>"

definition arrow :: string where
  "arrow = [CHR 0xE2, CHR 0x86, CHR 0x92]"

definition middot :: string where
  "middot = [CHR 0xC2, CHR 0xB7]"

text \<open>Address and hash of the deployment.\<close>

definition onDeploy :: "(string, string \<times> string) result \<Rightarrow> page \<Rightarrow> page" where
  "onDeploy out = run_step (\<lambda>pg.
    res_bind out (\<lambda>(address, txHash).
    let pg1 = pg \<lparr> pg_storage := (pg_storage pg)(LS_ADDR := Some address), pg_contractAddr := Some address \<rparr> in
    Ok (keep_record \<lparr> sr_id = [], sr_payeeAddr = [], sr_payeePriv = [], sr_openTx = [],
      sr_txs = [\<lparr> tr_step = ''deploy'', tr_hash = txHash, tr_note = None \<rparr>], sr_closed = False, sr_finalPayeePaid = None, sr_finalRefund = None \<rparr> pg1)))"

text \<open>The signer, the bootstrap transfer and \<open>openStream\<close>, each with its hash, and the fresh payee (address, key).\<close>

definition onOpen :: "(nat \<Rightarrow> string) \<Rightarrow> string \<times> string \<Rightarrow> string \<Rightarrow> (string, unit) result \<Rightarrow> (string, string) result \<Rightarrow> (string, string) result \<Rightarrow> page \<Rightarrow> page" where
  "onOpen fmt payee i signer boot opn = run_step (\<lambda>pg.
    if \<not> has_contract pg then Throw ''deploy StreamPay first''
    else res_bind signer (\<lambda>_. res_bind boot (\<lambda>bootHash. res_bind opn (\<lambda>txHash.
      let prevTxs = (case pg_record pg of None \<Rightarrow> [] | Some r \<Rightarrow> sr_txs r);
          bootstrapRow = \<lparr> tr_step = ''bootstrap payee'', tr_hash = bootHash, tr_note = Some (fmt BOOTSTRAP @ '' USDC '' @ arrow @ '' payee (gas float)'') \<rparr>;
          openedRow = \<lparr> tr_step = ''open'', tr_hash = txHash, tr_note = Some (fmt CAP @ '' USDC @ '' @ fmt RATE @ ''/s'') \<rparr> in
      Ok (keep_record \<lparr> sr_id = i, sr_payeeAddr = fst payee, sr_payeePriv = snd payee, sr_openTx = txHash,
        sr_txs = prevTxs @ [bootstrapRow, openedRow], sr_closed = False, sr_finalPayeePaid = None, sr_finalRefund = None \<rparr> pg)))))"

text \<open>Without contract or record the other actions return at once.\<close>

definition with_record :: "(stream_record \<Rightarrow> (string, stream_record) result) \<Rightarrow> page \<Rightarrow> page" where
  "with_record f = run_step (\<lambda>pg.
    case pg_record pg of
      None \<Rightarrow> Ok pg
    | Some r \<Rightarrow> if \<not> has_contract pg then Ok pg else res_bind (f r) (\<lambda>r'. Ok (keep_record r' pg)))"

definition onWithdraw :: "(nat \<Rightarrow> string) \<Rightarrow> (string, string \<times> nat) result \<Rightarrow> page \<Rightarrow> page" where
  "onWithdraw fmt out = with_record (\<lambda>r. res_bind out (\<lambda>(txHash, amount).
    Ok (append_row r \<lparr> tr_step = ''withdraw'', tr_hash = txHash, tr_note = Some (''+'' @ fmt amount @ '' USDC '' @ arrow @ '' payee'') \<rparr>)))"

definition onPause :: "(string, string) result \<Rightarrow> page \<Rightarrow> page" where
  "onPause out = with_record (\<lambda>r. res_bind out (\<lambda>txHash. Ok (append_row r \<lparr> tr_step = ''pause'', tr_hash = txHash, tr_note = None \<rparr>)))"

definition onResume :: "(string, string) result \<Rightarrow> page \<Rightarrow> page" where
  "onResume out = with_record (\<lambda>r. res_bind out (\<lambda>txHash. Ok (append_row r \<lparr> tr_step = ''resume'', tr_hash = txHash, tr_note = None \<rparr>)))"

definition onStop :: "(nat \<Rightarrow> string) \<Rightarrow> (string, string \<times> nat \<times> nat) result \<Rightarrow> page \<Rightarrow> page" where
  "onStop fmt out = with_record (\<lambda>r. res_bind out (\<lambda>(txHash, paidToPayee, refundToPayer).
    Ok ((append_row r \<lparr> tr_step = ''stop'', tr_hash = txHash,
        tr_note = Some (''payee +'' @ fmt paidToPayee @ '' USDC '' @ middot @ '' payer +'' @ fmt refundToPayer @ '' USDC'') \<rparr>)
      \<lparr> sr_closed := True, sr_finalPayeePaid := Some (nat_to_string paidToPayee), sr_finalRefund := Some (nat_to_string refundToPayer) \<rparr>)))"

definition onReset :: "bool \<Rightarrow> page \<Rightarrow> page" where
  "onReset confirmed pg = (if \<not> confirmed then pg else pg \<lparr> pg_storage := saveRecord None (pg_storage pg), pg_record := None \<rparr>)"

datatype page_act =
  ADeploy "(string, string \<times> string) result"
| AOpen "string \<times> string" string "(string, unit) result" "(string, string) result" "(string, string) result"
| AWithdraw "(string, string \<times> nat) result"
| APause "(string, string) result"
| AResume "(string, string) result"
| AStop "(string, string \<times> nat \<times> nat) result"
| AReset bool

fun page_step :: "(nat \<Rightarrow> string) \<Rightarrow> page_act \<Rightarrow> page \<Rightarrow> page" where
  "page_step fmt (ADeploy out) = onDeploy out"
| "page_step fmt (AOpen payee i signer boot opn) = onOpen fmt payee i signer boot opn"
| "page_step fmt (AWithdraw out) = onWithdraw fmt out"
| "page_step fmt (APause out) = onPause out"
| "page_step fmt (AResume out) = onResume out"
| "page_step fmt (AStop out) = onStop fmt out"
| "page_step fmt (AReset confirmed) = onReset confirmed"


section \<open>Lemmas\<close>

lemma ls_distinct [simp]: "LS_ADDR \<noteq> LS_STREAM" "LS_STREAM \<noteq> LS_ADDR"
  by (simp_all add: LS_ADDR_def LS_STREAM_def)

lemma row_of_value: "row_of (row_value r) = r"
  by (cases "tr_note r") (simp_all add: row_of_def row_value_def text_member_def as_text_def as_opt_def)

lemma record_of_value: "record_of (record_value r) = Some r"
  by (cases "sr_finalPayeePaid r"; cases "sr_finalRefund r")
    (simp_all add: record_of_def record_value_def text_member_def as_text_def as_opt_def row_of_value comp_def)

lemma record_value_pure: "json_pure (record_value r)"
  by (auto simp: record_value_def row_value_def text_member_def list_all_iff split: option.split)

lemma load_saved: "loadRecord (saveRecord r ls) = r"
proof (cases r)
  case (Some x)
  have "json_parse (stringify (record_value x)) = Some (record_value x)" by (rule json_parse_stringify [OF record_value_pure])
  moreover have "stringify (record_value x) \<noteq> []" by (simp add: record_value_def)
  ultimately show ?thesis by (simp add: Some loadRecord_def saveRecord_def record_of_value)
qed (simp add: loadRecord_def saveRecord_def)

definition in_sync :: "page \<Rightarrow> bool" where
  "in_sync pg \<longleftrightarrow> pg_contractAddr pg = pg_storage pg LS_ADDR \<and> pg_record pg = loadRecord (pg_storage pg)"

lemma in_sync_keep: "in_sync pg \<Longrightarrow> in_sync (keep_record r pg)"
  by (simp add: in_sync_def keep_record_def load_saved) (simp add: saveRecord_def)

lemma in_sync_run:
  assumes "in_sync pg" "\<And>p p'. in_sync p \<Longrightarrow> f p = Ok p' \<Longrightarrow> in_sync p'"
  shows "in_sync (run_step f pg)"
proof -
  have "in_sync (pg \<lparr> pg_error := e \<rparr>)" for e using assms(1) by (simp add: in_sync_def)
  then show ?thesis using assms(2) by (auto simp: run_step_def split: sum.split)
qed

lemma in_sync_with_record: "in_sync pg \<Longrightarrow> in_sync (with_record f pg)"
  unfolding with_record_def
  by (rule in_sync_run) (auto simp: res_bind_def intro: in_sync_keep split: option.splits if_splits sum.splits)

lemma in_sync_step: "in_sync pg \<Longrightarrow> in_sync (page_step fmt act pg)"
proof (cases act)
  case (ADeploy out)
  show "in_sync (page_step fmt act pg)" if "in_sync pg"
    unfolding ADeploy page_step.simps onDeploy_def
  proof (rule in_sync_run [OF that])
    fix p p'
    assume p: "in_sync p"
      "res_bind out (\<lambda>(address, txHash). let pg1 = p \<lparr> pg_storage := (pg_storage p)(LS_ADDR := Some address), pg_contractAddr := Some address \<rparr> in
        Ok (keep_record \<lparr> sr_id = [], sr_payeeAddr = [], sr_payeePriv = [], sr_openTx = [],
          sr_txs = [\<lparr> tr_step = ''deploy'', tr_hash = txHash, tr_note = None \<rparr>], sr_closed = False, sr_finalPayeePaid = None, sr_finalRefund = None \<rparr> pg1)) = Ok p'"
    have "in_sync (p \<lparr> pg_storage := (pg_storage p)(LS_ADDR := Some a), pg_contractAddr := Some a \<rparr>)" for a
      using p(1) by (simp add: in_sync_def loadRecord_def)
    then show "in_sync p'" using p(2) by (auto simp: res_bind_def Let_def intro: in_sync_keep split: sum.splits)
  qed
next
  case (AOpen payee i signer boot opn)
  then show ?thesis if "in_sync pg"
    unfolding AOpen page_step.simps onOpen_def
    by (intro in_sync_run that) (auto simp: res_bind_def Let_def intro: in_sync_keep split: if_splits sum.splits)
next
  case (AReset c)
  then show ?thesis if "in_sync pg"
    using that by (simp add: onReset_def in_sync_def load_saved) (simp add: saveRecord_def)
qed (simp_all add: onWithdraw_def onPause_def onResume_def onStop_def in_sync_with_record)


section \<open>Properties\<close>

text \<open>Reloading the page loses nothing: after any sequence of actions with any outcomes, reading the local storage
  gives back the contract and the record the page shows, the payee's private key in it included.\<close>

theorem stream_page_survives_reload:
  "pg_contractAddr (hydrate (pg_storage (fold (page_step fmt) acts (hydrate ls)))) = pg_contractAddr (fold (page_step fmt) acts (hydrate ls)) \<and>
   pg_record (hydrate (pg_storage (fold (page_step fmt) acts (hydrate ls)))) = pg_record (fold (page_step fmt) acts (hydrate ls))"
proof -
  have "in_sync (fold (page_step fmt) acts pg)" if "in_sync pg" for pg
    using that by (induction acts arbitrary: pg) (simp_all add: in_sync_step)
  moreover have "in_sync (hydrate ls)" by (simp add: in_sync_def hydrate_def)
  ultimately show ?thesis by (simp add: in_sync_def hydrate_def)
qed

end
