(* ===== verification/Bridge.thy ===== *)
theory Bridge
  imports Rfq "HOL-Library.Sublist"
begin

text \<open>
  Bridging USDC from Base to Arc in the browser: \<open>frontend/lib/cctp.ts\<close>, the chain switch of \<open>frontend/lib/arc.ts\<close> and the
  page \<open>frontend/app/(app)/bridge/page.tsx\<close>. The wallet, the chains, Circle's Iris service, the clock and the ethers helpers
  are parameters; every request put to the wallet or a chain is recorded in order. Rendering and the balance display are
  not modelled.
\<close>

section \<open>Chains\<close>

record chain_config =
  cc_chainId :: nat
  cc_chainIdHex :: string
  cc_rpcUrl :: string
  cc_explorer :: string
  cc_name :: string

definition BASE_SEPOLIA :: chain_config where
  "BASE_SEPOLIA = \<lparr> cc_chainId = 84532, cc_chainIdHex = ''0x14a34'', cc_rpcUrl = ''https://sepolia.base.org'',
     cc_explorer = ''https://sepolia.basescan.org'', cc_name = ''Base Sepolia'' \<rparr>"

definition BASE_USDC :: string where
  "BASE_USDC = ''0x036CbD53842c5426634e7929541eC2318f3dCF7e''"

definition BASE_CCTP_DOMAIN :: nat where
  "BASE_CCTP_DOMAIN = 6"

definition TOKEN_MESSENGER :: string where
  "TOKEN_MESSENGER = ''0x8FE6B999Dc680CcFDD5Bf7EB0974218be2542DAA''"

definition ARC_CCTP_DOMAIN :: nat where
  "ARC_CCTP_DOMAIN = 26"

definition CCTP_ATTESTATION_API :: string where
  "CCTP_ATTESTATION_API = ''https://iris-api-sandbox.circle.com''"

text \<open>\<open>rpc\<close> is the optional setting of the environment.\<close>

definition ARC_CHAIN :: "string option \<Rightarrow> chain_config" where
  "ARC_CHAIN rpc = \<lparr> cc_chainId = 5042002, cc_chainIdHex = ''0x4CEF52'', cc_rpcUrl = (case rpc of None \<Rightarrow> ''https://rpc.testnet.arc.network'' | Some u \<Rightarrow> u),
     cc_explorer = ''https://testnet.arcscan.app'', cc_name = ''Arc Testnet'' \<rparr>"

record wallet_error =
  we_code :: "int option"
  we_text :: string

datatype bridge_call =
  SwitchChain string
| AddChain string string string string
| Approve string string int
| DepositForBurn int nat string string string int nat
| ReceiveMessage jsval jsval

text \<open>Answers depend on what was asked before; a sent transaction answers its hash once it is mined. \<open>bw_send\<close> of
  \<open>ReceiveMessage\<close> includes the conversion to bytes.\<close>

record bridge_world =
  bw_chainId :: "bridge_call list \<Rightarrow> (wallet_error, string) result"
  bw_request :: "bridge_call list \<Rightarrow> bridge_call \<Rightarrow> (wallet_error, unit) result"
  bw_send :: "bridge_call list \<Rightarrow> bridge_call \<Rightarrow> (wallet_error, string) result"
  bw_allowance :: "bridge_call list \<Rightarrow> (wallet_error, int) result"
  bw_pad :: "string \<Rightarrow> (wallet_error, string) result"
  bw_parseUnits :: "string \<Rightarrow> (wallet_error, int) result"
  bw_iris :: "string \<Rightarrow> nat \<Rightarrow> (nat \<times> string) option"
  bw_clock :: "nat \<Rightarrow> int"
  bw_arcRpc :: "string option"

type_synonym 'a bridge_stmt = "bridge_call list \<Rightarrow> (wallet_error, 'a) result \<times> bridge_call list"

definition request_wallet :: "bridge_world \<Rightarrow> bridge_call \<Rightarrow> unit bridge_stmt" where
  "request_wallet w c tr = (bw_request w tr c, tr @ [c])"

definition send_tx :: "bridge_world \<Rightarrow> bridge_call \<Rightarrow> string bridge_stmt" where
  "send_tx w c tr = (bw_send w tr c, tr @ [c])"

text \<open>\<open>/Unrecognized|unknown chain/i\<close>\<close>

definition chain_unknown :: "wallet_error \<Rightarrow> bool" where
  "chain_unknown e \<longleftrightarrow> we_code e = Some 4902 \<or> sublist ''unrecognized'' (lower (we_text e)) \<or> sublist ''unknown chain'' (lower (we_text e))"

definition ensure_chain :: "bridge_world \<Rightarrow> chain_config \<Rightarrow> unit bridge_stmt" where
  "ensure_chain w cfg =
    andThen (\<lambda>tr. (bw_chainId w tr, tr)) (\<lambda>currentHex.
    if lower currentHex = lower (cc_chainIdHex cfg) then (\<lambda>tr. (Ok (), tr))
    else (\<lambda>tr. case request_wallet w (SwitchChain (cc_chainIdHex cfg)) tr of
        (Inr _, tr1) \<Rightarrow> (Ok (), tr1)
      | (Inl e, tr1) \<Rightarrow> if chain_unknown e
          then request_wallet w (AddChain (cc_chainIdHex cfg) (cc_name cfg) (cc_rpcUrl cfg) (cc_explorer cfg)) tr1
          else (Throw e, tr1)))"

definition ensureBaseChain :: "bridge_world \<Rightarrow> unit bridge_stmt" where
  "ensureBaseChain w = ensure_chain w BASE_SEPOLIA"

definition ensureArcChain :: "bridge_world \<Rightarrow> unit bridge_stmt" where
  "ensureArcChain w = ensure_chain w (ARC_CHAIN (bw_arcRpc w))"


section \<open>Burn, attestation, mint\<close>

definition approveTokenMessenger :: "bridge_world \<Rightarrow> int \<Rightarrow> string bridge_stmt" where
  "approveTokenMessenger w amount = send_tx w (Approve BASE_USDC TOKEN_MESSENGER amount)"

definition depositForBurn :: "bridge_world \<Rightarrow> int \<Rightarrow> string \<Rightarrow> string bridge_stmt" where
  "depositForBurn w amount arcRecipient =
    andThen (\<lambda>tr. (bw_pad w arcRecipient, tr)) (\<lambda>mintRecipient.
    send_tx w (DepositForBurn amount ARC_CCTP_DOMAIN mintRecipient BASE_USDC (''0x'' @ replicate 64 (CHR ''0'')) (js_div amount 1000) 1000))"

definition attestation_url :: "nat \<Rightarrow> string \<Rightarrow> string" where
  "attestation_url sourceDomain burnTxHash =
    CCTP_ATTESTATION_API @ ''/v2/messages/'' @ nat_to_string sourceDomain @ ''?transactionHash='' @ burnTxHash"

text \<open>What one answer of Iris means: nothing (failed, not ok, no JSON), a status to show, or message and attestation.\<close>

datatype iris_news = NoNews | Pending jsval | Attested jsval jsval

definition first_message :: "jsval \<Rightarrow> jsval" where
  "first_message data = (case js_get data ''messages'' of VArr (m # _) \<Rightarrow> m | _ \<Rightarrow> VUndef)"

definition iris_news :: "(nat \<times> string) option \<Rightarrow> iris_news" where
  "iris_news ans = (case ans of
     None \<Rightarrow> NoNews
   | Some (code, body) \<Rightarrow>
      if \<not> http_ok code then NoNews
      else (case json_parse body of
         None \<Rightarrow> NoNews
       | Some data \<Rightarrow>
          if data = VNull then NoNews
          else let m = first_message data; att = js_get m ''attestation'' in
            if truthy m \<and> js_get m ''status'' = VStr ''complete'' \<and> truthy att \<and> att \<noteq> VStr ''PENDING''
            then Attested (nullish (js_get m ''message'') (VStr [])) att
            else Pending (nullish (js_get m ''status'') (VStr ''pending''))))"

text \<open>The loop reads the clock at its head (\<open>2 i + 1\<close>) and for \<open>onTick\<close> (\<open>2 i + 2\<close>); \<open>clock 0\<close> is the start. The last
  component is the last tick: seconds and status. \<open>None\<close>: the fuel is used up.\<close>

fun attestation_loop :: "(nat \<Rightarrow> int) \<Rightarrow> (nat \<Rightarrow> (nat \<times> string) option) \<Rightarrow> int \<Rightarrow> nat \<Rightarrow> nat \<Rightarrow> (int \<times> jsval) option \<Rightarrow>
    ((jsval \<times> jsval) option \<times> (int \<times> jsval) option) option" where
  "attestation_loop clock ans maxWait 0 i tick = None"
| "attestation_loop clock ans maxWait (Suc n) i tick =
    (if clock (2 * i + 1) - clock 0 < 1000 * maxWait then
       (case iris_news (ans i) of
          Attested m a \<Rightarrow> Some (Some (m, a), tick)
        | Pending st \<Rightarrow> attestation_loop clock ans maxWait n (Suc i) (Some ((clock (2 * i + 2) - clock 0) div 1000, st))
        | NoNews \<Rightarrow> attestation_loop clock ans maxWait n (Suc i) tick)
     else Some (None, tick))"

definition fetchAttestation :: "bridge_world \<Rightarrow> nat \<Rightarrow> nat \<Rightarrow> string \<Rightarrow> int \<Rightarrow> ((wallet_error, jsval \<times> jsval) result \<times> (int \<times> jsval) option) option" where
  "fetchAttestation w fuel sourceDomain burnTxHash maxWaitSecs =
    map_option (\<lambda>(r, tick). (case r of None \<Rightarrow> Throw \<lparr> we_code = None, we_text = ''attestation not ready after timeout'' \<rparr> | Some x \<Rightarrow> Ok x, tick))
      (attestation_loop (bw_clock w) (bw_iris w (attestation_url sourceDomain burnTxHash)) maxWaitSecs fuel 0 None)"

definition receiveMessage :: "bridge_world \<Rightarrow> jsval \<Rightarrow> jsval \<Rightarrow> string bridge_stmt" where
  "receiveMessage w message attestation = send_tx w (ReceiveMessage message attestation)"


section \<open>The page\<close>

datatype step_id = StApprove | StBurn | StAttest | StMint
datatype step_state = Idle | Running | StepDone | StepError

record step_info =
  si_state :: step_state
  si_hash :: "string option"
  si_note :: "string option"

record bridge_page =
  bp_amountUsdc :: string
  bp_recipient :: string
  bp_steps :: "step_id \<Rightarrow> step_info"
  bp_attestStatus :: jsval
  bp_attestElapsed :: int
  bp_error :: "string option"
  bp_calls :: "bridge_call list"

definition idle_step :: step_info where
  "idle_step = \<lparr> si_state = Idle, si_hash = None, si_note = None \<rparr>"

definition bridge_amount :: "bridge_world \<Rightarrow> bridge_page \<Rightarrow> int" where
  "bridge_amount w pg = (case bw_parseUnits w (if bp_amountUsdc pg = [] then ''0'' else bp_amountUsdc pg) of Inl _ \<Rightarrow> 0 | Inr a \<Rightarrow> a)"

definition canBridge :: "bridge_world \<Rightarrow> string option \<Rightarrow> bridge_page \<Rightarrow> bool" where
  "canBridge w walletAddr pg \<longleftrightarrow> bridge_amount w pg > 0 \<and> take 2 (bp_recipient pg) = ''0x'' \<and> length (bp_recipient pg) = 42 \<and> walletAddr \<noteq> None"

text \<open>The button is disabled while a step runs.\<close>

definition inFlight :: "bridge_page \<Rightarrow> bool" where
  "inFlight pg \<longleftrightarrow> list_ex (\<lambda>i. si_state (bp_steps pg i) = Running) [StApprove, StBurn, StAttest, StMint]"

definition bridge_reset :: "bool \<Rightarrow> bridge_page \<Rightarrow> bridge_page" where
  "bridge_reset confirmed pg = (if \<not> confirmed then pg
     else pg \<lparr> bp_steps := (\<lambda>_. idle_step), bp_attestStatus := VStr ''waiting'', bp_attestElapsed := 0, bp_error := None \<rparr>)"

definition set_step :: "step_id \<Rightarrow> step_info \<Rightarrow> bridge_page \<Rightarrow> bridge_page" where
  "set_step i s pg = pg \<lparr> bp_steps := (bp_steps pg)(i := s) \<rparr>"

definition withStep :: "step_id \<Rightarrow> string bridge_stmt \<Rightarrow> bridge_page \<Rightarrow> string option \<times> bridge_page" where
  "withStep i f pg =
    (let pg1 = set_step i \<lparr> si_state = Running, si_hash = si_hash (bp_steps pg i), si_note = None \<rparr> (pg \<lparr> bp_error := None \<rparr>) in
     case f (bp_calls pg1) of
       (Inr h, tr) \<Rightarrow> (Some h, set_step i \<lparr> si_state = StepDone, si_hash = Some h, si_note = None \<rparr> (pg1 \<lparr> bp_calls := tr \<rparr>))
     | (Inl e, tr) \<Rightarrow> (None, set_step i \<lparr> si_state = StepError, si_hash = None, si_note = Some (we_text e) \<rparr> (pg1 \<lparr> bp_calls := tr, bp_error := Some (we_text e) \<rparr>)))"

text \<open>\<open>None\<close>: the run ends here.\<close>

definition bridge_approve :: "bridge_world \<Rightarrow> bridge_page \<Rightarrow> bool \<times> bridge_page" where
  "bridge_approve w pg =
    (case bw_allowance w (bp_calls pg) of
       Inl _ \<Rightarrow> (False, pg)
     | Inr cur \<Rightarrow>
        if cur < bridge_amount w pg then
          (case withStep StApprove (andThen (ensureBaseChain w) (\<lambda>_. approveTokenMessenger w (bridge_amount w pg))) pg of (r, pg1) \<Rightarrow> (r \<noteq> None, pg1))
        else (True, set_step StApprove \<lparr> si_state = StepDone, si_hash = None, si_note = Some ''already sufficient'' \<rparr> pg))"

definition bridge_burn :: "bridge_world \<Rightarrow> bridge_page \<Rightarrow> string option \<times> bridge_page" where
  "bridge_burn w pg = withStep StBurn (andThen (ensureBaseChain w) (\<lambda>_. depositForBurn w (bridge_amount w pg) (bp_recipient pg))) pg"

text \<open>\<open>elapsed\<close> is the value the click handler closed over.\<close>

definition bridge_attest :: "bridge_world \<Rightarrow> nat \<Rightarrow> int \<Rightarrow> string \<Rightarrow> bridge_page \<Rightarrow> ((jsval \<times> jsval) option \<times> bridge_page) option" where
  "bridge_attest w fuel elapsed burnHash pg =
    (let pg1 = set_step StAttest \<lparr> si_state = Running, si_hash = None, si_note = None \<rparr> pg in
     map_option (\<lambda>(r, tick).
       let pg2 = (case tick of None \<Rightarrow> pg1 | Some (secs, st) \<Rightarrow> pg1 \<lparr> bp_attestStatus := st, bp_attestElapsed := secs \<rparr>) in
       case r of
         Inr x \<Rightarrow> (Some x, set_step StAttest \<lparr> si_state = StepDone, si_hash = None, si_note = Some (''ready in '' @ int_to_string elapsed @ ''s'') \<rparr> pg2)
       | Inl e \<Rightarrow> (None, set_step StAttest \<lparr> si_state = StepError, si_hash = None, si_note = Some (we_text e) \<rparr> (pg2 \<lparr> bp_error := Some (we_text e) \<rparr>)))
     (fetchAttestation w fuel BASE_CCTP_DOMAIN burnHash 600))"

definition bridge_mint :: "bridge_world \<Rightarrow> jsval \<times> jsval \<Rightarrow> bridge_page \<Rightarrow> bridge_page" where
  "bridge_mint w att pg = snd (withStep StMint (andThen (ensureArcChain w) (\<lambda>_. receiveMessage w (fst att) (snd att))) pg)"

definition onBridge :: "bridge_world \<Rightarrow> nat \<Rightarrow> string option \<Rightarrow> bridge_page \<Rightarrow> bridge_page option" where
  "onBridge w fuel walletAddr pg =
    (if \<not> canBridge w walletAddr pg then Some pg
     else case bridge_approve w pg of
       (False, pg1) \<Rightarrow> Some pg1
     | (True, pg1) \<Rightarrow>
        (case bridge_burn w pg1 of
           (None, pg2) \<Rightarrow> Some pg2
         | (Some burnHash, pg2) \<Rightarrow>
            (case bridge_attest w fuel (bp_attestElapsed pg) burnHash pg2 of
               None \<Rightarrow> None
             | Some (None, pg3) \<Rightarrow> Some pg3
             | Some (Some att, pg3) \<Rightarrow> Some (bridge_mint w att pg3))))"

text \<open>What is persisted, and a reload; the calls are the history of the chains.\<close>

record persisted =
  pe_amount :: string
  pe_recipient :: string
  pe_steps :: "step_id \<Rightarrow> step_info"
  pe_attestationStatus :: jsval
  pe_attestationElapsed :: int

definition persist_page :: "bridge_page \<Rightarrow> persisted" where
  "persist_page pg = \<lparr> pe_amount = bp_amountUsdc pg, pe_recipient = bp_recipient pg, pe_steps = bp_steps pg,
     pe_attestationStatus = bp_attestStatus pg, pe_attestationElapsed = bp_attestElapsed pg \<rparr>"

definition reload_page :: "persisted \<Rightarrow> bridge_call list \<Rightarrow> bridge_page" where
  "reload_page p tr = \<lparr> bp_amountUsdc = pe_amount p, bp_recipient = pe_recipient p, bp_steps = pe_steps p,
     bp_attestStatus = pe_attestationStatus p, bp_attestElapsed = pe_attestationElapsed p, bp_error = None, bp_calls = tr \<rparr>"


section \<open>Lemmas\<close>

fun is_burn :: "bridge_call \<Rightarrow> bool" where
  "is_burn (DepositForBurn _ _ _ _ _ _ _) = True"
| "is_burn _ = False"

fun is_mint :: "bridge_call \<Rightarrow> bool" where
  "is_mint (ReceiveMessage _ _) = True"
| "is_mint _ = False"

text \<open>Requests that move no funds across.\<close>

definition no_funds :: "bridge_call list \<Rightarrow> bool" where
  "no_funds cs \<longleftrightarrow> list_all (\<lambda>c. \<not> is_burn c \<and> \<not> is_mint c) cs"

lemma no_funds_simps [simp]:
  "no_funds []" "no_funds (SwitchChain h # cs) = no_funds cs" "no_funds (AddChain a b c d # cs) = no_funds cs" "no_funds (Approve t m x # cs) = no_funds cs"
  "no_funds (cs @ ds) \<longleftrightarrow> no_funds cs \<and> no_funds ds"
  by (simp_all add: no_funds_def)

lemma no_funds_filter [simp]: "no_funds cs \<Longrightarrow> filter is_burn cs = []" "no_funds cs \<Longrightarrow> filter is_mint cs = []"
  by (auto simp: no_funds_def filter_empty_conv list_all_iff)

definition burn_request :: "bridge_world \<Rightarrow> bridge_page \<Rightarrow> string \<Rightarrow> bridge_call" where
  "burn_request w pg pad = DepositForBurn (bridge_amount w pg) ARC_CCTP_DOMAIN pad BASE_USDC (''0x'' @ replicate 64 (CHR ''0'')) (js_div (bridge_amount w pg) 1000) 1000"

lemma ensure_chain_calls: "\<exists>cs. snd (ensure_chain w cfg tr) = tr @ cs \<and> no_funds cs"
  by (auto simp: ensure_chain_def andThen_def request_wallet_def split: sum.split)

lemma set_step_simps [simp]:
  "bp_calls (set_step i x pg) = bp_calls pg" "bp_amountUsdc (set_step i x pg) = bp_amountUsdc pg" "bp_recipient (set_step i x pg) = bp_recipient pg"
  "bridge_amount w (set_step i x pg) = bridge_amount w pg"
  by (simp_all add: set_step_def bridge_amount_def)

lemma withStep_simps [simp]:
  "bp_calls (snd (withStep i f pg)) = snd (f (bp_calls pg))" "bp_amountUsdc (snd (withStep i f pg)) = bp_amountUsdc pg"
  "bp_recipient (snd (withStep i f pg)) = bp_recipient pg"
  "fst (withStep i f pg) = (case fst (f (bp_calls pg)) of Inl _ \<Rightarrow> None | Inr h \<Rightarrow> Some h)"
  by (simp_all add: withStep_def Let_def split: prod.split sum.split)

lemma withStep_amount [simp]: "bridge_amount w (snd (withStep i f pg)) = bridge_amount w pg"
  by (simp add: bridge_amount_def)

text \<open>A step that first switches the chain and then sends.\<close>

lemma switched_send:
  assumes "f tr = andThen (ensure_chain w cfg) (\<lambda>_. send_tx w c) tr"
  shows "\<exists>cs. no_funds cs \<and> (snd (f tr) = tr @ cs \<and> isl (fst (f tr)) \<or> snd (f tr) = tr @ cs @ [c] \<and> fst (f tr) = bw_send w (tr @ cs) c)"
proof -
  obtain cs where cs: "snd (ensure_chain w cfg tr) = tr @ cs" "no_funds cs" using ensure_chain_calls by blast
  show ?thesis
  proof (cases "fst (ensure_chain w cfg tr)")
    case (Inl e)
    then show ?thesis using cs assms by (intro exI [of _ cs]) simp
  next
    case (Inr u)
    then show ?thesis using cs assms by (intro exI [of _ cs]) (simp add: send_tx_def)
  qed
qed

lemma approve_calls:
  assumes "bridge_approve w pg = (go, pg1)"
  shows "\<exists>cs. bp_calls pg1 = bp_calls pg @ cs \<and> no_funds cs" "bp_recipient pg1 = bp_recipient pg" "bridge_amount w pg1 = bridge_amount w pg"
proof -
  let ?f = "andThen (ensureBaseChain w) (\<lambda>_. approveTokenMessenger w (bridge_amount w pg))"
  let ?c = "Approve BASE_USDC TOKEN_MESSENGER (bridge_amount w pg)"
  obtain cs0 where cs0: "no_funds cs0" "snd (?f (bp_calls pg)) = bp_calls pg @ cs0 \<or> snd (?f (bp_calls pg)) = bp_calls pg @ cs0 @ [?c]"
    using switched_send [of ?f "bp_calls pg" w BASE_SEPOLIA "Approve BASE_USDC TOKEN_MESSENGER (bridge_amount w pg)"]
    by (auto simp: ensureBaseChain_def approveTokenMessenger_def)
  then obtain cs where "no_funds cs" "snd (?f (bp_calls pg)) = bp_calls pg @ cs"
    using cs0 by (metis no_funds_simps(1,4,5))
  moreover have "pg1 = pg \<or> pg1 = set_step StApprove \<lparr> si_state = StepDone, si_hash = None, si_note = Some ''already sufficient'' \<rparr> pg \<or>
      pg1 = snd (withStep StApprove ?f pg)"
    using assms by (auto simp: bridge_approve_def split: sum.splits if_splits prod.splits)
  ultimately show "\<exists>cs. bp_calls pg1 = bp_calls pg @ cs \<and> no_funds cs" "bp_recipient pg1 = bp_recipient pg" "bridge_amount w pg1 = bridge_amount w pg"
    by (auto intro: exI [of _ "[]"])
qed

lemma burn_calls:
  assumes "bridge_burn w pg = (r, pg1)"
  obtains cs where "no_funds cs" "bp_calls pg1 = bp_calls pg @ cs" "r = None"
  | cs pad where "no_funds cs" "bw_pad w (bp_recipient pg) = Ok pad" "bp_calls pg1 = bp_calls pg @ cs @ [burn_request w pg pad]"
    "r = (case bw_send w (bp_calls pg @ cs) (burn_request w pg pad) of Inl _ \<Rightarrow> None | Inr h \<Rightarrow> Some h)"
proof (cases "bw_pad w (bp_recipient pg)")
  case (Inl e)
  let ?f = "andThen (ensureBaseChain w) (\<lambda>_. depositForBurn w (bridge_amount w pg) (bp_recipient pg))"
  obtain cs where cs: "snd (ensureBaseChain w (bp_calls pg)) = bp_calls pg @ cs" "no_funds cs"
    using ensure_chain_calls ensureBaseChain_def by metis
  have "snd (?f (bp_calls pg)) = bp_calls pg @ cs \<and> isl (fst (?f (bp_calls pg)))"
    using cs(1) Inl by (cases "fst (ensureBaseChain w (bp_calls pg))") (simp_all add: depositForBurn_def)
  moreover have "r = fst (withStep StBurn ?f pg)" "pg1 = snd (withStep StBurn ?f pg)" using assms by (simp_all add: bridge_burn_def)
  ultimately show ?thesis using that(1) [OF cs(2)] by (auto split: sum.splits)
next
  case (Inr pad)
  let ?f = "andThen (ensureBaseChain w) (\<lambda>_. depositForBurn w (bridge_amount w pg) (bp_recipient pg))"
  have "depositForBurn w (bridge_amount w pg) (bp_recipient pg) = send_tx w (burn_request w pg pad)"
    using Inr by (simp add: depositForBurn_def burn_request_def fun_eq_iff)
  then have "?f (bp_calls pg) = andThen (ensure_chain w BASE_SEPOLIA) (\<lambda>_. send_tx w (burn_request w pg pad)) (bp_calls pg)"
    by (simp add: ensureBaseChain_def)
  from switched_send [of ?f, OF this] obtain cs where cs: "no_funds cs"
    "snd (?f (bp_calls pg)) = bp_calls pg @ cs \<and> isl (fst (?f (bp_calls pg))) \<or>
     snd (?f (bp_calls pg)) = bp_calls pg @ cs @ [burn_request w pg pad] \<and> fst (?f (bp_calls pg)) = bw_send w (bp_calls pg @ cs) (burn_request w pg pad)" by blast
  have r: "r = (case fst (?f (bp_calls pg)) of Inl _ \<Rightarrow> None | Inr h \<Rightarrow> Some h)" "bp_calls pg1 = snd (?f (bp_calls pg))"
    using assms withStep_simps(1,4) [of StBurn ?f pg] by (simp_all add: bridge_burn_def)
  from cs(2) show ?thesis
  proof (elim disjE conjE)
    assume "snd (?f (bp_calls pg)) = bp_calls pg @ cs" "isl (fst (?f (bp_calls pg)))"
    then show ?thesis using that(1) [OF cs(1)] r by (auto simp: isl_def)
  next
    assume "snd (?f (bp_calls pg)) = bp_calls pg @ cs @ [burn_request w pg pad]" "fst (?f (bp_calls pg)) = bw_send w (bp_calls pg @ cs) (burn_request w pg pad)"
    then show ?thesis using that(2) [OF cs(1) Inr] r by simp
  qed
qed

lemma mint_calls: "\<exists>cs. no_funds cs \<and> (bp_calls (bridge_mint w (m, a) pg) = bp_calls pg @ cs \<or> bp_calls (bridge_mint w (m, a) pg) = bp_calls pg @ cs @ [ReceiveMessage m a])"
proof -
  let ?f = "andThen (ensureArcChain w) (\<lambda>_. receiveMessage w m a)"
  obtain cs where "no_funds cs" "snd (?f (bp_calls pg)) = bp_calls pg @ cs \<or> snd (?f (bp_calls pg)) = bp_calls pg @ cs @ [ReceiveMessage m a]"
    using switched_send [of ?f "bp_calls pg" w "ARC_CHAIN (bw_arcRpc w)" "ReceiveMessage m a"] by (auto simp: ensureArcChain_def receiveMessage_def)
  then show ?thesis by (auto simp: bridge_mint_def)
qed

lemma attestation_loop_news:
  "attestation_loop clock ans mx n i tick = Some (Some (m, a), tick') \<Longrightarrow> \<exists>k. iris_news (ans k) = Attested m a \<and> clock (2 * k + 1) - clock 0 < 1000 * mx"
  by (induction n arbitrary: i tick) (auto split: if_splits iris_news.splits)

text \<open>An answer that the service gives once the attestation is ready: its first entry of \<open>messages\<close> is complete and carries
  both the message and the attestation; a message that the entry does not have is the empty string.\<close>

definition attested_answer :: "(nat \<times> string) option \<Rightarrow> jsval \<Rightarrow> jsval \<Rightarrow> bool" where
  "attested_answer ans msg att \<longleftrightarrow> (\<exists>code body data m ms. ans = Some (code, body) \<and> http_ok code \<and> json_parse body = Some data \<and>
     js_get data ''messages'' = VArr (m # ms) \<and> js_get m ''status'' = VStr ''complete'' \<and>
     js_get m ''attestation'' = att \<and> truthy att \<and> att \<noteq> VStr ''PENDING'' \<and>
     msg = (if js_get m ''message'' \<in> {VNull, VUndef} then VStr [] else js_get m ''message''))"

lemma iris_news_attested:
  assumes "iris_news ans = Attested msg att"
  shows "attested_answer ans msg att"
proof -
  obtain code body data where data: "ans = Some (code, body)" "http_ok code" "json_parse body = Some data" "truthy (first_message data)"
      "js_get (first_message data) ''status'' = VStr ''complete''" "js_get (first_message data) ''attestation'' = att" "truthy att" "att \<noteq> VStr ''PENDING''"
      "msg = nullish (js_get (first_message data) ''message'') (VStr [])"
    using assms by (auto simp: iris_news_def Let_def split: option.splits if_splits)
  obtain m ms where "js_get data ''messages'' = VArr (m # ms)" "first_message data = m"
    using data(4) by (auto simp: first_message_def split: jsval.splits list.splits)
  then show ?thesis unfolding attested_answer_def using data by (intro exI [of _ code] exI [of _ body] exI [of _ data] exI [of _ m] exI [of _ ms])
    (simp add: nullish_def split: jsval.split)
qed

text \<open>The k-th answer of Iris for the transaction \<open>h\<close>, asked for within ten minutes.\<close>

definition timely_news :: "bridge_world \<Rightarrow> string \<Rightarrow> nat \<Rightarrow> jsval \<Rightarrow> jsval \<Rightarrow> bool" where
  "timely_news w h k m a \<longleftrightarrow> iris_news (bw_iris w (attestation_url BASE_CCTP_DOMAIN h) k) = Attested m a \<and> bw_clock w (2 * k + 1) - bw_clock w 0 < 600000"

lemma attest_result:
  assumes "bridge_attest w fuel el h pg = Some (r, pg1)"
  shows "bp_calls pg1 = bp_calls pg" "r = Some (m, a) \<Longrightarrow> \<exists>k. timely_news w h k m a"
proof -
  obtain q tick where loop: "attestation_loop (bw_clock w) (bw_iris w (attestation_url BASE_CCTP_DOMAIN h)) 600 fuel 0 None = Some (q, tick)"
    using assms by (auto simp: bridge_attest_def fetchAttestation_def Let_def)
  show "bp_calls pg1 = bp_calls pg"
    using assms loop by (cases q; cases tick) (auto simp: bridge_attest_def fetchAttestation_def Let_def)
  show "\<exists>k. timely_news w h k m a" if "r = Some (m, a)"
  proof -
    have "q = Some (m, a)" using assms loop that by (cases q; cases tick) (auto simp: bridge_attest_def fetchAttestation_def Let_def)
    then show ?thesis using attestation_loop_news [of "bw_clock w"] loop by (fastforce simp: timely_news_def)
  qed
qed

lemma attestation_loop_ends:
  assumes "\<And>i. clock (2 * i + 1) + d \<le> clock (2 * Suc i + 1)" "0 < d" "clock 0 + 1000 * mx \<le> clock (2 * i + 1) + int n * d"
  shows "attestation_loop clock ans mx (Suc n) i tick \<noteq> None"
  using assms(3)
proof (induction n arbitrary: i tick)
  case (Suc n)
  have "clock 0 + 1000 * mx \<le> clock (2 * Suc i + 1) + int n * d" using Suc.prems assms(1) [of i] by (simp add: distrib_right)
  from Suc.IH [OF this] show ?case by (auto split: iris_news.split simp del: mult_Suc_right)
qed simp


lemma after_burn:
  assumes "(case bridge_attest w fuel el h pg2 of None \<Rightarrow> None | Some (None, pg3) \<Rightarrow> Some pg3 | Some (Some att, pg3) \<Rightarrow> Some (bridge_mint w att pg3)) = Some pg'"
  shows "\<exists>c3. no_funds c3 \<and> (bp_calls pg' = bp_calls pg2 @ c3 \<or>
    (\<exists>m a k. bp_calls pg' = bp_calls pg2 @ c3 @ [ReceiveMessage m a] \<and> timely_news w h k m a))"
proof -
  obtain q pg3 where at: "bridge_attest w fuel el h pg2 = Some (q, pg3)" using assms by (auto split: option.splits)
  note calls3 = attest_result(1) [OF at]
  show ?thesis
  proof (cases q)
    case None
    then show ?thesis using assms at calls3 by (intro exI [of _ "[]"]) simp
  next
    case (Some ma)
    obtain m a where ma: "ma = (m, a)" by (cases ma)
    have "\<exists>k. timely_news w h k m a" using attest_result(2) [OF at] Some ma by blast
    moreover have "pg' = bridge_mint w (m, a) pg3" using assms at Some ma by simp
    ultimately show ?thesis using mint_calls [of w m a pg3] calls3 by auto
  qed
qed

lemma onBridge_shape:
  assumes "onBridge w fuel addr pg = Some pg'"
  obtains cs where "no_funds cs" "bp_calls pg' = bp_calls pg @ cs"
  | cs pad c3 where "bridge_amount w pg > 0" "bw_pad w (bp_recipient pg) = Ok pad" "no_funds cs" "no_funds c3"
    "bp_calls pg' = bp_calls pg @ cs @ [burn_request w pg pad] @ c3"
  | cs pad c3 h k m a where "bridge_amount w pg > 0" "bw_pad w (bp_recipient pg) = Ok pad" "no_funds cs" "no_funds c3"
    "bp_calls pg' = bp_calls pg @ cs @ [burn_request w pg pad] @ c3 @ [ReceiveMessage m a]"
    "bw_send w (bp_calls pg @ cs) (burn_request w pg pad) = Ok h" "timely_news w h k m a"
proof (cases "canBridge w addr pg \<and> fst (bridge_approve w pg)")
  case False
  obtain go pg1 where ap: "bridge_approve w pg = (go, pg1)" by (cases "bridge_approve w pg")
  have "pg' = pg \<or> pg' = pg1" using assms False ap by (auto simp: onBridge_def split: if_splits)
  then show ?thesis using that(1) approve_calls(1) [OF ap] that(1) [of "[]"] by auto
next
  case True
  then have pos: "bridge_amount w pg > 0" by (simp add: canBridge_def)
  obtain pg1 where ap: "bridge_approve w pg = (True, pg1)" using True by (cases "bridge_approve w pg") auto
  obtain c1 where c1: "bp_calls pg1 = bp_calls pg @ c1" "no_funds c1" using approve_calls(1) [OF ap] by blast
  have same: "burn_request w pg1 pad = burn_request w pg pad" "bp_recipient pg1 = bp_recipient pg" for pad
    using approve_calls(2,3) [OF ap] by (simp_all add: burn_request_def)
  obtain r pg2 where bu: "bridge_burn w pg1 = (r, pg2)" by (cases "bridge_burn w pg1")
  from bu show ?thesis
  proof (cases rule: burn_calls)
    case (1 c2)
    then have "pg' = pg2" using assms ap bu True by (simp add: onBridge_def)
    then show ?thesis using that(1) [of "c1 @ c2"] c1 1 by simp
  next
    case (2 c2 pad)
    note sent = that(2) [of pad "c1 @ c2"] that(3) [of pad "c1 @ c2"]
    show ?thesis
    proof (cases r)
      case None
      then have "pg' = pg2" using assms ap bu True by (simp add: onBridge_def)
      then show ?thesis using sent(1) [of "[]"] pos c1 2(1-3) same by simp
    next
      case (Some h)
      then have h: "bw_send w (bp_calls pg @ c1 @ c2) (burn_request w pg pad) = Ok h" using 2(4) c1(1) by (auto simp: same split: sum.splits)
      have "(case bridge_attest w fuel (bp_attestElapsed pg) h pg2 of None \<Rightarrow> None | Some (None, pg3) \<Rightarrow> Some pg3
          | Some (Some att, pg3) \<Rightarrow> Some (bridge_mint w att pg3)) = Some pg'"
        using assms ap bu True Some by (simp add: onBridge_def)
      from after_burn [OF this] obtain c3 where c3: "no_funds c3" "bp_calls pg' = bp_calls pg2 @ c3 \<or>
          (\<exists>m a k. bp_calls pg' = bp_calls pg2 @ c3 @ [ReceiveMessage m a] \<and> timely_news w h k m a)"
        by blast
      then show ?thesis using sent(1) [of c3] sent(2) [of c3 _ _ h] h pos c1 2(1-3) same by fastforce
    qed
  qed
qed

lemma onBridge_returns:
  assumes "\<And>ans. attestation_loop (bw_clock w) ans 600 n 0 None \<noteq> None"
  shows "\<exists>pg'. onBridge w n addr pg = Some pg'"
proof -
  have some: "bridge_attest w n el h p \<noteq> None" for el h p
    using assms by (simp add: bridge_attest_def fetchAttestation_def Let_def)
  have "(case bridge_attest w n el h p of None \<Rightarrow> None | Some (None, pg3) \<Rightarrow> Some pg3 | Some (Some att, pg3) \<Rightarrow> Some (bridge_mint w att pg3)) \<noteq> None" for el h p
    using some [of el h p] by (auto split: option.split)
  then show ?thesis unfolding onBridge_def not_None_eq [symmetric] by (auto split: prod.split bool.split option.split)
qed


section \<open>Properties\<close>

text \<open>C39: a click on Bridge burns at most once and mints at most once: the burn is for the entered amount and recipient with the fixed
  destination domain and fee cap, and what is submitted for minting on Arc is a message together with its attestation, both
  read from one entry that Iris reported as complete, with an attestation that is not a placeholder, in an answer to the query
  for exactly the hash of that burn, which was sent before; the query was made within the ten minutes of waiting.\<close>

theorem bridge_run_sound:
  assumes "onBridge w fuel addr pg = Some pg'"
  shows "\<exists>new. bp_calls pg' = bp_calls pg @ new \<and> length (filter is_burn new) \<le> 1 \<and> length (filter is_mint new) \<le> 1 \<and>
    (\<forall>c\<in>set new. is_burn c \<longrightarrow> bridge_amount w pg > 0 \<and> (\<exists>pad. bw_pad w (bp_recipient pg) = Ok pad \<and> c = burn_request w pg pad)) \<and>
    (\<forall>m a. ReceiveMessage m a \<in> set new \<longrightarrow> (\<exists>pre pad h k. prefix (pre @ [burn_request w pg pad]) (bp_calls pg') \<and> length (bp_calls pg) \<le> length pre \<and>
       bw_send w pre (burn_request w pg pad) = Ok h \<and> attested_answer (bw_iris w (attestation_url BASE_CCTP_DOMAIN h) k) m a \<and>
       bw_clock w (2 * k + 1) - bw_clock w 0 < 600000))"
proof -
  have quiet: "\<not> is_burn c \<and> \<not> is_mint c" if "no_funds cs" "c \<in> set cs" for c cs using that by (auto simp: no_funds_def list_all_iff)
  have nomint: "ReceiveMessage m a \<notin> set cs" if "no_funds cs" for m a cs using quiet [OF that] by force
  have b: "is_burn (burn_request w pg pad)" "\<not> is_mint (burn_request w pg pad)" for pad by (simp_all add: burn_request_def)
  from assms show ?thesis
  proof (cases rule: onBridge_shape)
    case (1 cs)
    then show ?thesis using quiet nomint by (intro exI [of _ cs]) auto
  next
    case (2 cs pad c3)
    then show ?thesis using quiet nomint b by (intro exI [of _ "cs @ [burn_request w pg pad] @ c3"]) (auto simp: burn_request_def)
  next
    case (3 cs pad c3 h k m a)
    have "prefix ((bp_calls pg @ cs) @ [burn_request w pg pad]) (bp_calls pg')" using 3(5) by simp
    then have "\<exists>pre pad h k. prefix (pre @ [burn_request w pg pad]) (bp_calls pg') \<and> length (bp_calls pg) \<le> length pre \<and>
        bw_send w pre (burn_request w pg pad) = Ok h \<and> attested_answer (bw_iris w (attestation_url BASE_CCTP_DOMAIN h) k) m a \<and>
        bw_clock w (2 * k + 1) - bw_clock w 0 < 600000"
      using 3(6,7) iris_news_attested by (intro exI [of _ "bp_calls pg @ cs"] exI [of _ pad] exI [of _ h] exI [of _ k]) (simp add: timely_news_def)
    then show ?thesis using 3(1-5) quiet nomint b
      by (intro exI [of _ "cs @ [burn_request w pg pad] @ c3 @ [ReceiveMessage m a]"]) (auto simp: burn_request_def)
  qed
qed

text \<open>A click on Bridge always ends: the attestation loop gives up after ten minutes of a clock that advances, whatever Iris
  answers.\<close>

theorem bridge_run_returns:
  assumes "\<And>i. bw_clock w (2 * i + 1) + d \<le> bw_clock w (2 * Suc i + 1)" "0 < d" "bw_clock w 0 \<le> bw_clock w 1" "600000 \<le> int n * d"
  shows "\<exists>pg'. onBridge w (Suc n) addr pg = Some pg'"
proof -
  have "attestation_loop (bw_clock w) ans 600 (Suc n) 0 None \<noteq> None" for ans
    by (rule attestation_loop_ends [where d = d and clock = "bw_clock w", OF assms(1) assms(2)]) (use assms(3,4) in simp)
  then show ?thesis by (rule onBridge_returns)
qed

text \<open>A reload does not resume a run: whatever the persisted steps say, the next run of Bridge burns the amount again
  before anything else, also when a burn is done and only its attestation or mint is missing; and a page
  reloaded while a step was running stays in flight, so that not even that can be clicked before the run is cleared.\<close>

theorem reloaded_run_burns_again:
  assumes "onBridge w fuel addr (reload_page (persist_page pg) tr) = Some pg'" "canBridge w addr pg"
    and "bw_allowance w tr = Ok cur" "bridge_amount w pg \<le> cur" "bw_chainId w tr = Ok (cc_chainIdHex BASE_SEPOLIA)" "bw_pad w (bp_recipient pg) = Ok pad"
  shows "prefix (tr @ [burn_request w pg pad]) (bp_calls pg') \<and> inFlight (reload_page (persist_page pg) tr) = inFlight pg"
proof -
  have fl: "inFlight (reload_page (persist_page pg) tr) = inFlight pg" by (simp add: inFlight_def reload_page_def persist_page_def)
  let ?pg = "reload_page (persist_page pg) tr"
  have "bridge_amount w ?pg = bridge_amount w pg" by (simp add: bridge_amount_def reload_page_def persist_page_def)
  moreover have "bp_recipient ?pg = bp_recipient pg" "bp_calls ?pg = tr" by (simp_all add: reload_page_def persist_page_def)
  ultimately have same: "bridge_amount w ?pg = bridge_amount w pg" "bp_recipient ?pg = bp_recipient pg" "bp_calls ?pg = tr" "canBridge w addr ?pg"
    using assms(2) by (simp_all add: canBridge_def)
  let ?pg1 = "set_step StApprove \<lparr> si_state = StepDone, si_hash = None, si_note = Some ''already sufficient'' \<rparr> ?pg"
  have ap: "bridge_approve w ?pg = (True, ?pg1)" using assms(3,4) same by (simp add: bridge_approve_def)
  have chain: "ensureBaseChain w tr = (Ok (), tr)" using assms(5) by (simp add: ensureBaseChain_def ensure_chain_def andThen_def)
  obtain r pg2 where bu: "bridge_burn w ?pg1 = (r, pg2)" by (cases "bridge_burn w ?pg1")
  have "bp_calls (snd (bridge_burn w ?pg1)) = tr @ [burn_request w pg pad]"
    using chain assms(6) same by (simp add: bridge_burn_def depositForBurn_def send_tx_def burn_request_def)
  then have calls2: "bp_calls pg2 = tr @ [burn_request w pg pad]" by (simp add: bu)
  show ?thesis
  proof (cases r)
    case None
    then show ?thesis using assms(1) ap bu same(4) calls2 fl by (simp add: onBridge_def)
  next
    case (Some h)
    then have "(case bridge_attest w fuel (bp_attestElapsed ?pg) h pg2 of None \<Rightarrow> None | Some (None, pg3) \<Rightarrow> Some pg3
        | Some (Some att, pg3) \<Rightarrow> Some (bridge_mint w att pg3)) = Some pg'"
      using assms(1) ap bu same(4) by (simp add: onBridge_def)
    from after_burn [OF this] show ?thesis using calls2 fl by auto
  qed
qed


subsection \<open>Witnesses\<close>

text \<open>Everything is accepted; Iris never has an attestation ready.\<close>

definition demo_bridge :: bridge_world where
  "demo_bridge = \<lparr> bw_chainId = (\<lambda>_. Ok ''0x14a34''), bw_request = (\<lambda>_ _. Ok ()), bw_send = (\<lambda>tr _. Ok (nat_to_string (length tr))),
     bw_allowance = (\<lambda>_. Ok 9), bw_pad = Ok, bw_parseUnits = (\<lambda>_. Ok 5), bw_iris = (\<lambda>_ _. None), bw_clock = (\<lambda>i. 2500 * int i), bw_arcRpc = None \<rparr>"

definition demo_bridge_page :: bridge_page where
  "demo_bridge_page = \<lparr> bp_amountUsdc = ''5'', bp_recipient = ''0x'' @ replicate 40 (CHR ''a''), bp_steps = (\<lambda>_. idle_step), bp_attestStatus = VStr ''waiting'',
     bp_attestElapsed = 0, bp_error = None, bp_calls = [] \<rparr>"

theorem bridge_run_returns_witness: "\<exists>pg'. onBridge demo_bridge (Suc 120) (Some ''0xw'') demo_bridge_page = Some pg'"
  by (rule bridge_run_returns [where d = 5000]) (simp_all add: demo_bridge_def)

lemma demo_bridge_runs: "\<exists>pg'. onBridge demo_bridge (Suc 120) addr pg = Some pg'"
proof -
  have "attestation_loop (bw_clock demo_bridge) ans 600 (Suc 120) 0 None \<noteq> None" for ans
    by (rule attestation_loop_ends [where d = 5000]) (simp_all add: demo_bridge_def)
  then show ?thesis by (rule onBridge_returns)
qed

text \<open>Iris first has the burn pending and then attested: the run mints.\<close>

definition demo_pending :: jsval where
  "demo_pending = VObj [(''messages'', VArr [VObj [(''status'', VStr ''pending_confirmations''), (''attestation'', VStr ''PENDING'')]])]"

definition demo_complete :: jsval where
  "demo_complete = VObj [(''messages'', VArr [VObj [(''status'', VStr ''complete''), (''attestation'', VStr ''0xa''), (''message'', VStr ''0xm'')]])]"

definition demo_attesting :: bridge_world where
  "demo_attesting = demo_bridge \<lparr> bw_iris := (\<lambda>_ k. Some (200, stringify (if k = 0 then demo_pending else demo_complete))) \<rparr>"

lemma demo_news:
  "iris_news (Some (200, stringify demo_pending)) = Pending (VStr ''pending_confirmations'')"
  "iris_news (Some (200, stringify demo_complete)) = Attested (VStr ''0xm'') (VStr ''0xa'')"
proof -
  have parsed: "json_parse (stringify demo_pending) = Some demo_pending" "json_parse (stringify demo_complete) = Some demo_complete"
    by (rule json_parse_stringify; simp add: demo_pending_def demo_complete_def list_all_iff)+
  show "iris_news (Some (200, stringify demo_pending)) = Pending (VStr ''pending_confirmations'')"
    "iris_news (Some (200, stringify demo_complete)) = Attested (VStr ''0xm'') (VStr ''0xa'')"
    by (simp_all add: iris_news_def parsed http_ok_def) (simp_all add: demo_pending_def demo_complete_def first_message_def nullish_def)
qed

lemma demo_attestation:
  "fetchAttestation demo_attesting 3 BASE_CCTP_DOMAIN h 600 = Some (Ok (VStr ''0xm'', VStr ''0xa''), Some (5, VStr ''pending_confirmations''))"
  by (simp add: fetchAttestation_def demo_attesting_def demo_bridge_def numeral_3_eq_3 demo_news)

lemma demo_attesting_mints:
  "map_option bp_calls (onBridge demo_attesting 3 (Some ''0xw'') demo_bridge_page) =
     Some [burn_request demo_attesting demo_bridge_page (bp_recipient demo_bridge_page), SwitchChain ''0x4CEF52'', ReceiveMessage (VStr ''0xm'') (VStr ''0xa'')]"
proof -
  let ?w = demo_attesting and ?pg = demo_bridge_page
  let ?pg1 = "set_step StApprove \<lparr> si_state = StepDone, si_hash = None, si_note = Some ''already sufficient'' \<rparr> ?pg"
  have amount: "bridge_amount ?w ?pg = 5" "bp_calls ?pg = []" "canBridge ?w (Some ''0xw'') ?pg"
    by (simp_all add: bridge_amount_def canBridge_def demo_attesting_def demo_bridge_def demo_bridge_page_def)
  have ap: "bridge_approve ?w ?pg = (True, ?pg1)" using amount(1) by (simp add: bridge_approve_def demo_attesting_def demo_bridge_def)
  have "ensureBaseChain ?w [] = (Ok (), [])"
    by (simp add: ensureBaseChain_def ensure_chain_def andThen_def demo_attesting_def demo_bridge_def BASE_SEPOLIA_def)
  moreover have "bw_pad ?w x = Ok x" "bw_send ?w tr c = Ok (nat_to_string (length tr))" for x tr c by (simp_all add: demo_attesting_def demo_bridge_def)
  ultimately have burn: "fst (bridge_burn ?w ?pg1) = Some (nat_to_string 0)" "bp_calls (snd (bridge_burn ?w ?pg1)) = [burn_request ?w ?pg (bp_recipient ?pg)]"
    using amount by (simp_all add: bridge_burn_def depositForBurn_def send_tx_def burn_request_def)
  obtain pg2 where bu: "bridge_burn ?w ?pg1 = (Some (nat_to_string 0), pg2)" "bp_calls pg2 = [burn_request ?w ?pg (bp_recipient ?pg)]"
    using burn by (cases "bridge_burn ?w ?pg1") simp
  obtain pg3 where at: "bridge_attest ?w 3 (bp_attestElapsed ?pg) (nat_to_string 0) pg2 = Some (Some (VStr ''0xm'', VStr ''0xa''), pg3)" "bp_calls pg3 = bp_calls pg2"
    by (simp add: bridge_attest_def demo_attestation Let_def)
  have "ensureArcChain ?w tr = (Ok (), tr @ [SwitchChain ''0x4CEF52''])" for tr
    by (simp add: ensureArcChain_def ensure_chain_def andThen_def request_wallet_def demo_attesting_def demo_bridge_def ARC_CHAIN_def lower_def)
  then have "bp_calls (bridge_mint ?w (VStr ''0xm'', VStr ''0xa'') pg3) = bp_calls pg3 @ [SwitchChain ''0x4CEF52'', ReceiveMessage (VStr ''0xm'') (VStr ''0xa'')]"
    by (simp add: bridge_mint_def receiveMessage_def send_tx_def)
  then show ?thesis using amount(3) ap bu at by (simp add: onBridge_def)
qed

theorem bridge_run_sound_witness:
  "\<exists>pg' pre pad h k. onBridge demo_attesting 3 (Some ''0xw'') demo_bridge_page = Some pg' \<and> ReceiveMessage (VStr ''0xm'') (VStr ''0xa'') \<in> set (bp_calls pg') \<and>
     prefix (pre @ [burn_request demo_attesting demo_bridge_page pad]) (bp_calls pg') \<and> bw_send demo_attesting pre (burn_request demo_attesting demo_bridge_page pad) = Ok h \<and>
     attested_answer (bw_iris demo_attesting (attestation_url BASE_CCTP_DOMAIN h) k) (VStr ''0xm'') (VStr ''0xa'')"
proof -
  obtain pg' where r: "onBridge demo_attesting 3 (Some ''0xw'') demo_bridge_page = Some pg'" and
    calls: "bp_calls pg' = [burn_request demo_attesting demo_bridge_page (bp_recipient demo_bridge_page), SwitchChain ''0x4CEF52'', ReceiveMessage (VStr ''0xm'') (VStr ''0xa'')]"
    using demo_attesting_mints by (cases "onBridge demo_attesting 3 (Some ''0xw'') demo_bridge_page") simp_all
  have "bp_calls demo_bridge_page = []" by (simp add: demo_bridge_page_def)
  moreover have "ReceiveMessage (VStr ''0xm'') (VStr ''0xa'') \<in> set (bp_calls pg')" unfolding calls by simp
  ultimately show ?thesis using bridge_run_sound [OF r] r by (metis append_Nil)
qed

theorem reloaded_run_burns_again_witness:
  "\<exists>pg'. onBridge demo_bridge (Suc 120) (Some ''0xw'') (reload_page (persist_page demo_bridge_page) [burn_request demo_bridge demo_bridge_page ''p'']) = Some pg' \<and>
     prefix [burn_request demo_bridge demo_bridge_page ''p'', burn_request demo_bridge demo_bridge_page (bp_recipient demo_bridge_page)] (bp_calls pg')"
proof -
  obtain pg' where r: "onBridge demo_bridge (Suc 120) (Some ''0xw'') (reload_page (persist_page demo_bridge_page) [burn_request demo_bridge demo_bridge_page ''p'']) = Some pg'"
    using demo_bridge_runs by blast
  have "prefix ([burn_request demo_bridge demo_bridge_page ''p''] @ [burn_request demo_bridge demo_bridge_page (bp_recipient demo_bridge_page)]) (bp_calls pg') \<and>
      inFlight (reload_page (persist_page demo_bridge_page) [burn_request demo_bridge demo_bridge_page ''p'']) = inFlight demo_bridge_page"
    by (rule reloaded_run_burns_again [OF r, where cur = 9])
      (simp_all add: demo_bridge_def demo_bridge_page_def canBridge_def bridge_amount_def BASE_SEPOLIA_def)
  then show ?thesis using r by auto
qed

end
