(* ===== verification/NoteCrypto.thy ===== *)
theory NoteCrypto
  imports Quotes
begin

text \<open>
  The package \<open>packages/note-crypto/src/index.ts\<close>, which the API's route \<open>POST /v1/notes/commitment\<close> serves: note preimages,
  their commitment and their nullifier. Poseidon, SHA-256 and the random source are parameters.
\<close>

section \<open>Notes\<close>

record crypto_preimage =
  np_assetId :: string
  np_amount7dp :: string
  np_ownerPublicKey :: string
  np_spendPublicKey :: string
  np_blinding :: string
  np_nonce :: string
  np_complianceTag :: string
  np_sourceContext :: string
  np_memoCommitment :: string

text \<open>The two draws of 32 bytes replace whatever the input has.\<close>

definition generate_note_preimage :: "bytes \<Rightarrow> bytes \<Rightarrow> crypto_preimage \<Rightarrow> crypto_preimage" where
  "generate_note_preimage d1 d2 input = input \<lparr> np_blinding := ''0x'' @ to_hex d1, np_nonce := ''0x'' @ to_hex d2 \<rparr>"

definition fieldFromString :: "sha_fun \<Rightarrow> string \<Rightarrow> int" where
  "fieldFromString sha v = js_mod (bytes_int (sha (utf8 v))) field_P"

text \<open>\<open>BigInt(value)\<close> throws for text that is no integer, and keeps the sign.\<close>

definition big_int :: "string \<Rightarrow> (string, int) result" where
  "big_int v = (case big_int_of_string v of None \<Rightarrow> Throw ''SyntaxError'' | Some i \<Rightarrow> Ok i)"

definition fieldFromHex :: "string \<Rightarrow> (string, int) result" where
  "fieldFromHex v = res_bind (big_int v) (\<lambda>i. Ok (js_mod i field_P))"

definition noteToFields :: "sha_fun \<Rightarrow> crypto_preimage \<Rightarrow> (string, int list) result" where
  "noteToFields sha n =
    res_bind (big_int (np_amount7dp n)) (\<lambda>amount.
    res_bind (fieldFromHex (np_blinding n)) (\<lambda>blinding.
    res_bind (fieldFromHex (np_nonce n)) (\<lambda>nonce.
    Ok [fieldFromString sha (np_assetId n), amount, fieldFromString sha (np_ownerPublicKey n), fieldFromString sha (np_spendPublicKey n),
      blinding, nonce, fieldFromString sha (np_complianceTag n), fieldFromString sha (np_sourceContext n), fieldFromString sha (np_memoCommitment n)])))"

text \<open>Poseidon takes field elements and throws otherwise or for too many.\<close>

type_synonym poseidon_fun = "int list \<Rightarrow> (string, int) result"

definition digest_text :: "int \<Rightarrow> string" where
  "digest_text d = ''0x'' @ pad_start 64 (CHR ''0'') (hex_text (nat d))"

definition poseidonCommitment :: "poseidon_fun \<Rightarrow> sha_fun \<Rightarrow> crypto_preimage \<Rightarrow> (string, string) result" where
  "poseidonCommitment pos sha n =
    res_bind (noteToFields sha n) (\<lambda>fs.
    res_bind (pos fs) (\<lambda>d. Ok (digest_text d)))"

definition deriveNullifier :: "poseidon_fun \<Rightarrow> sha_fun \<Rightarrow> crypto_preimage \<Rightarrow> string \<Rightarrow> (string, string) result" where
  "deriveNullifier pos sha n dm =
    res_bind (fieldFromHex (np_nonce n)) (\<lambda>nonce.
    res_bind (fieldFromHex (np_blinding n)) (\<lambda>blinding.
    res_bind (pos [fieldFromString sha dm, nonce, blinding, fieldFromString sha (np_ownerPublicKey n)]) (\<lambda>d. Ok (digest_text d))))"


section \<open>Lemmas\<close>

text \<open>What is relied on: digests are field elements.\<close>

definition digests_in_field :: "poseidon_fun \<Rightarrow> bool" where
  "digests_in_field pos \<longleftrightarrow> (\<forall>xs d. pos xs = Ok d \<longrightarrow> 0 \<le> d \<and> d < field_P)"

definition poseidon_collision :: "poseidon_fun \<Rightarrow> int list \<Rightarrow> int list \<Rightarrow> bool" where
  "poseidon_collision pos xs ys \<longleftrightarrow> xs \<noteq> ys \<and> pos xs = pos ys \<and> (\<exists>d. pos xs = Ok d)"

lemma digest_text_inject:
  assumes "0 \<le> d" "0 \<le> e" "digest_text d = digest_text e"
  shows "d = e"
proof -
  have "base_value 16 0 (pad_start 64 (CHR ''0'') (hex_text n)) = Some n" for n
    by (simp add: pad_start_value hex_text_value)
  then have "nat d = nat e" using assms(3) unfolding digest_text_def by (metis option.inject same_append_eq)
  then show ?thesis using assms(1,2) by simp
qed

lemma same_digest:
  assumes "digests_in_field pos" "pos xs = Ok d" "pos ys = Ok e" "digest_text d = digest_text e"
  shows "xs = ys \<or> poseidon_collision pos xs ys"
proof -
  have "d = e" using assms by (auto simp: digests_in_field_def intro: digest_text_inject)
  then show ?thesis using assms(2,3) by (auto simp: poseidon_collision_def)
qed

lemma commitment_fields:
  assumes "poseidonCommitment pos sha n = Ok c"
  obtains fs d where "noteToFields sha n = Ok fs" "pos fs = Ok d" "c = digest_text d"
  using assms by (auto simp: poseidonCommitment_def res_bind_def split: sum.splits)


section \<open>Properties\<close>

text \<open>The commitment of a note binds it up to the field: two notes with the same commitment exhibit a Poseidon collision, or
  their amounts are the same number, blinding and nonce agree modulo the field order, and each text has the same SHA-256 value
  modulo it; and notes that agree so have the same commitment.\<close>

theorem note_commitment_binds:
  assumes "digests_in_field pos" "poseidonCommitment pos sha n = Ok c" "poseidonCommitment pos sha n' = Ok c'"
  defines "agree \<equiv> big_int (np_amount7dp n) = big_int (np_amount7dp n') \<and>
      fieldFromHex (np_blinding n) = fieldFromHex (np_blinding n') \<and> fieldFromHex (np_nonce n) = fieldFromHex (np_nonce n') \<and>
      map (\<lambda>g. fieldFromString sha (g n)) [np_assetId, np_ownerPublicKey, np_spendPublicKey, np_complianceTag, np_sourceContext, np_memoCommitment] =
      map (\<lambda>g. fieldFromString sha (g n')) [np_assetId, np_ownerPublicKey, np_spendPublicKey, np_complianceTag, np_sourceContext, np_memoCommitment]"
  shows "(c = c' \<longrightarrow> agree \<or> (\<exists>xs ys. noteToFields sha n = Ok xs \<and> noteToFields sha n' = Ok ys \<and> poseidon_collision pos xs ys)) \<and> (agree \<longrightarrow> c = c')"
proof -
  obtain fs d where f: "noteToFields sha n = Ok fs" "pos fs = Ok d" "c = digest_text d" using commitment_fields [OF assms(2)] .
  obtain fs' d' where f': "noteToFields sha n' = Ok fs'" "pos fs' = Ok d'" "c' = digest_text d'" using commitment_fields [OF assms(3)] .
  have "fs = fs' \<longleftrightarrow> agree"
    using f(1) f'(1) by (auto simp: agree_def noteToFields_def res_bind_def split: sum.splits)
  then show ?thesis using same_digest [OF assms(1) f(2) f'(2)] f f' by auto
qed

text \<open>The nullifier is determined by nonce, blinding and owner: asset and amount do not enter it.\<close>

theorem nullifier_ignores_asset_and_amount:
  "deriveNullifier pos sha (n \<lparr> np_assetId := a, np_amount7dp := x, np_spendPublicKey := k, np_complianceTag := t, np_sourceContext := s, np_memoCommitment := m \<rparr>) dm =
   deriveNullifier pos sha n dm"
  by (simp add: deriveNullifier_def)

definition demo_crypto_note :: crypto_preimage where
  "demo_crypto_note = \<lparr> np_assetId = ''USDC'', np_amount7dp = ''7'', np_ownerPublicKey = ''o'', np_spendPublicKey = ''s'', np_blinding = ''0x1'', np_nonce = ''0x2'',
     np_complianceTag = [], np_sourceContext = [], np_memoCommitment = [] \<rparr>"

theorem note_commitment_binds_witness:
  "\<exists>c. poseidonCommitment (\<lambda>xs. Ok 5) (\<lambda>_. [1]) demo_crypto_note = Ok c \<and>
     poseidonCommitment (\<lambda>xs. Ok 5) (\<lambda>_. [1]) (demo_crypto_note \<lparr> np_blinding := ''1'' \<rparr>) = Ok c"
proof -
  let ?n = "demo_crypto_note \<lparr> np_blinding := ''1'' \<rparr>"
  have "big_int ''0x1'' = Ok 1" "big_int ''1'' = Ok 1" "big_int ''0x2'' = Ok 2" "big_int ''7'' = Ok 7" by code_simp+
  then have "\<exists>fs. noteToFields (\<lambda>_. [1]) demo_crypto_note = Ok fs" "\<exists>fs. noteToFields (\<lambda>_. [1]) ?n = Ok fs"
    and same: "fieldFromHex (np_blinding demo_crypto_note) = fieldFromHex (np_blinding ?n)"
    by (simp_all add: noteToFields_def demo_crypto_note_def fieldFromHex_def res_bind_def)
  then obtain c c' where c: "poseidonCommitment (\<lambda>xs. Ok 5) (\<lambda>_. [1]) demo_crypto_note = Ok c" "poseidonCommitment (\<lambda>xs. Ok 5) (\<lambda>_. [1]) ?n = Ok c'"
    by (auto simp: poseidonCommitment_def res_bind_def)
  have "digests_in_field (\<lambda>xs. Ok 5)" by (simp add: digests_in_field_def bn254_r_def)
  from note_commitment_binds [OF this c] have "c = c'" using same by simp
  then show ?thesis using c by blast
qed

end
