(* ===== verification/Pool.thy ===== *)
theory Pool
  imports Circuits
begin

text \<open>
  The settlement contracts of \<open>contracts/arc/src\<close>: \<open>NullifierRegistry.sol\<close>, the committee threshold of
  \<open>CommitteeRegistry.sol\<close>, \<open>ShieldedPool.sol\<close> over the frontier tree of theory \<open>Merkle\<close>, and \<open>StreamEscrow.sol\<close>, which calls the
  pool and the registry. One chain state holds the storage of the three contracts and the event log; a call either returns
  the new state or reverts with a named error, and a reverted call leaves the state as it was.

  Parameters, gathered in \<open>externals\<close>: the ERC-20 tokens and the CCTP TokenMessenger (functions on a world of type \<open>'w\<close>, \<open>None\<close> for a
  revert), the Groth16 verifiers and the ed25519 verifier by address (\<open>None\<close> for a call that reverts, as a call of an address
  without code does), SHA-256 and Poseidon. Tokens with transfer hooks are outside the model: no external call re-enters.
  \<open>uint256\<close> values are integers; checked arithmetic and the unchecked casts of Solidity 0.8 are written out. The role tables of
  OpenZeppelin's \<open>AccessControl\<close> are part of the state, and may change in any way between two calls.
\<close>

section \<open>Solidity\<close>

type_synonym account = nat

definition uint256 :: "int \<Rightarrow> bool" where
  "uint256 x \<longleftrightarrow> 0 \<le> x \<and> x < 2 ^ 256"

definition uint32 :: "int \<Rightarrow> bool" where
  "uint32 x \<longleftrightarrow> 0 \<le> x \<and> x < 2 ^ 32"

text \<open>The cast \<open>int256(x)\<close> reinterprets the bits.\<close>

definition int256 :: "int \<Rightarrow> int" where
  "int256 x = (if x < 2 ^ 255 then x else x - 2 ^ 256)"

definition int256_ok :: "int \<Rightarrow> bool" where
  "int256_ok x \<longleftrightarrow> - (2 ^ 255) \<le> x \<and> x < 2 ^ 255"

datatype pool_error =
  AbiDecode | Panic | EnforcedPause | ExpectedPause | MissingRole string | CallReverted
| UnauthorizedSpender account | NullifierAlreadySpent int
| CommitteeNotInitialized | MpcThreshold | MpcUnknownSigner | MpcDuplicateSigner | MpcSignatureInvalid
| DuplicateDeposit | UnknownRoot | ProofInvalid | BadAmount | WrongDomain | WrongAssociation | WrongOperation | WrongRecipient
| Expired | WrongCommitment | WrongDepositField | UnknownAsset | AssetAlreadyRegistered | MpcSignalMismatch | MpcProofInvalid
| NotCrossAsset | SupplyUnderflow | ReserveBroken | InsufficientBalance | UnauthorizedSolver | WrongQuote | WrongIntent
| WrongFillReceipt | WrongDestDomain | WrongDestRecipient | WrongMaxFee | WrongFinality | UnsupportedDomain | SolverSigInvalid
| UnauthorizedStreamContract | TreeError frontier_error
| ChannelAlreadyOpen | ChannelNotOpen | ChannelConsumed | ChannelParamMismatch | NotYetReclaimable | LengthMismatch

text \<open>\<open>if (!b) revert e;\<close>\<close>

definition guard :: "bool \<Rightarrow> 'e \<Rightarrow> ('e, 'a) result \<Rightarrow> ('e, 'a) result" where
  "guard b e k = (if b then k else Throw e)"

text \<open>An external call: \<open>None\<close> reverts the caller.\<close>

definition ext_call :: "'a option \<Rightarrow> ('a \<Rightarrow> (pool_error, 'b) result) \<Rightarrow> (pool_error, 'b) result" where
  "ext_call r k = (case r of None \<Rightarrow> Throw CallReverted | Some x \<Rightarrow> k x)"

lemma guard_Ok [simp]: "guard b e k = Inr x \<longleftrightarrow> b \<and> k = Inr x"
  by (simp add: guard_def)

lemma guard_True [simp]: "guard True e k = k" "guard False e k = Throw e"
  by (simp_all add: guard_def)

lemma ext_call_Ok [simp]: "ext_call r k = Inr x \<longleftrightarrow> (\<exists>y. r = Some y \<and> k y = Inr x)"
  by (cases r) (simp_all add: ext_call_def)

lemma ext_call_simps [simp]: "ext_call None k = Throw CallReverted" "ext_call (Some y) k = k y"
  by (simp_all add: ext_call_def)

text \<open>The decoder of a fixed array of \<open>n\<close> words.\<close>

definition abi_words :: "nat \<Rightarrow> int list \<Rightarrow> bool" where
  "abi_words n pub \<longleftrightarrow> length pub = n \<and> list_all uint256 pub"

text \<open>\<open>abi.encodePacked\<close> of a value of \<open>n\<close> bytes: big-endian.\<close>

primrec packed :: "nat \<Rightarrow> int \<Rightarrow> bytes" where
  "packed 0 x = []"
| "packed (Suc n) x = packed n (x div 256) @ [word_of_int x]"

record groth16 =
  pr_a :: "int list"
  pr_b :: "int list list"
  pr_c :: "int list"

record 'w externals =
  x_balanceOf :: "'w \<Rightarrow> account \<Rightarrow> account \<Rightarrow> int"
  x_transfer :: "'w \<Rightarrow> account \<Rightarrow> account \<Rightarrow> account \<Rightarrow> int \<Rightarrow> 'w option"
  x_approve :: "'w \<Rightarrow> account \<Rightarrow> account \<Rightarrow> account \<Rightarrow> int \<Rightarrow> 'w option"
  x_depositForBurn :: "'w \<Rightarrow> account \<Rightarrow> account \<Rightarrow> int \<Rightarrow> int \<Rightarrow> int \<Rightarrow> account \<Rightarrow> int \<Rightarrow> int \<Rightarrow> int \<Rightarrow> 'w option"
  x_verifyProof :: "account \<Rightarrow> groth16 \<Rightarrow> int list \<Rightarrow> bool option"
  x_ed25519 :: "account \<Rightarrow> int \<Rightarrow> bytes \<Rightarrow> bytes \<Rightarrow> bool option"
  x_sha256 :: "bytes \<Rightarrow> int"
  x_poseidon :: poseidon


section \<open>Storage and events\<close>

record registry =
  nr_admin :: "account \<Rightarrow> bool"
  nr_paused :: bool
  nr_spent :: "int \<Rightarrow> bool"
  nr_authorized :: "account \<Rightarrow> bool"

record pool =
  pl_self :: account
  pl_poolId :: int
  pl_chainId :: int
  pl_admin :: "account \<Rightarrow> bool"
  pl_registrar :: "account \<Rightarrow> bool"
  pl_paused :: bool
  pl_tree :: frontier
  pl_withdrawVerifier :: account
  pl_transferVerifier :: account
  pl_depositVerifier :: account
  pl_mpcVerifier :: account
  pl_mpcPricedVerifier :: account
  pl_associationRoot :: int
  pl_associationRootVersion :: int
  pl_assetToken :: "int \<Rightarrow> account"
  pl_noteSupplyOf :: "int \<Rightarrow> int"
  pl_committee :: "int list"
  pl_ed25519Verifier :: account
  pl_authorizedSolver :: "int \<Rightarrow> bool"
  pl_cctpOutboundDomain :: int
  pl_tokenMessenger :: account
  pl_usdcToken :: account
  pl_depositUsed :: "int \<Rightarrow> bool"
  pl_authorizedStreamContract :: "account \<Rightarrow> bool"

record channel =
  ch_payerAx :: int
  ch_payerAy :: int
  ch_cap :: int
  ch_expiry :: int
  ch_reclaimCommitment :: int
  ch_assetId :: int
  ch_opened :: bool
  ch_consumed :: bool

record escrow =
  es_self :: account
  es_admin :: "account \<Rightarrow> bool"
  es_paused :: bool
  es_openVerifier :: account
  es_settleVerifier :: account
  es_challengeWindow :: int
  es_channels :: "int \<Rightarrow> channel"

datatype log_event =
  NullifierSpent account int
| AuthorizedSpenderSet account bool
| Deposit int int int int int nat int
| Withdraw account int int int
| Transfer int int nat int
| RfqSettled int account int int
| CctpExit int account int int
| MpcSettled int int int int int int
| AssetRegistered int account
| AssociationRootSet int int
| CommitteeSet nat
| StreamContractSet account bool
| ChannelOpened int int int int
| ChannelSettled int int int int
| ChannelReclaimed int int int

record 'w chain =
  cn_block :: int
  cn_world :: 'w
  cn_registry :: registry
  cn_pool :: pool
  cn_escrow :: escrow
  cn_log :: "log_event list"

definition log_ev :: "log_event \<Rightarrow> 'w chain \<Rightarrow> 'w chain" where
  "log_ev e c = c \<lparr> cn_log := cn_log c @ [e] \<rparr>"

definition set_pool :: "(pool \<Rightarrow> pool) \<Rightarrow> 'w chain \<Rightarrow> 'w chain" where
  "set_pool f c = c \<lparr> cn_pool := f (cn_pool c) \<rparr>"

definition set_registry :: "(registry \<Rightarrow> registry) \<Rightarrow> 'w chain \<Rightarrow> 'w chain" where
  "set_registry f c = c \<lparr> cn_registry := f (cn_registry c) \<rparr>"

definition set_escrow :: "(escrow \<Rightarrow> escrow) \<Rightarrow> 'w chain \<Rightarrow> 'w chain" where
  "set_escrow f c = c \<lparr> cn_escrow := f (cn_escrow c) \<rparr>"


section \<open>The nullifier registry\<close>

definition setAuthorizedSpender :: "account \<Rightarrow> account \<Rightarrow> bool \<Rightarrow> 'w chain \<Rightarrow> (pool_error, 'w chain) result" where
  "setAuthorizedSpender sender spender allowed c =
    guard (nr_admin (cn_registry c) sender) (MissingRole ''ADMIN_ROLE'')
     (Ok (log_ev (AuthorizedSpenderSet spender allowed)
       (set_registry (\<lambda>r. r \<lparr> nr_authorized := (nr_authorized r)(spender := allowed) \<rparr>) c)))"

definition isAuthorized :: "account \<Rightarrow> 'w chain \<Rightarrow> bool" where
  "isAuthorized spender c = nr_authorized (cn_registry c) spender"

definition spend :: "account \<Rightarrow> int \<Rightarrow> 'w chain \<Rightarrow> (pool_error, 'w chain) result" where
  "spend sender nullifier c =
    guard (\<not> nr_paused (cn_registry c)) EnforcedPause
    (guard (nr_authorized (cn_registry c) sender) (UnauthorizedSpender sender)
    (guard (\<not> nr_spent (cn_registry c) nullifier) (NullifierAlreadySpent nullifier)
     (Ok (log_ev (NullifierSpent sender nullifier)
       (set_registry (\<lambda>r. r \<lparr> nr_spent := (nr_spent r)(nullifier := True) \<rparr>) c)))))"

definition isSpent :: "int \<Rightarrow> 'w chain \<Rightarrow> bool" where
  "isSpent nullifier c = nr_spent (cn_registry c) nullifier"

definition registry_pause :: "account \<Rightarrow> 'w chain \<Rightarrow> (pool_error, 'w chain) result" where
  "registry_pause sender c =
    guard (nr_admin (cn_registry c) sender) (MissingRole ''ADMIN_ROLE'')
    (guard (\<not> nr_paused (cn_registry c)) EnforcedPause (Ok (set_registry (\<lambda>r. r \<lparr> nr_paused := True \<rparr>) c)))"

definition registry_unpause :: "account \<Rightarrow> 'w chain \<Rightarrow> (pool_error, 'w chain) result" where
  "registry_unpause sender c =
    guard (nr_admin (cn_registry c) sender) (MissingRole ''ADMIN_ROLE'')
    (guard (nr_paused (cn_registry c)) ExpectedPause (Ok (set_registry (\<lambda>r. r \<lparr> nr_paused := False \<rparr>) c)))"


section \<open>The committee threshold\<close>

fun threshold_loop :: "(int \<Rightarrow> bytes \<Rightarrow> bytes \<Rightarrow> bool option) \<Rightarrow> int list \<Rightarrow> bytes \<Rightarrow> bytes list \<Rightarrow>
    nat \<Rightarrow> int list \<Rightarrow> int list \<Rightarrow> nat \<Rightarrow> (pool_error, nat) result" where
  "threshold_loop verify committee msg signatures i [] seen verified = Ok verified"
| "threshold_loop verify committee msg signatures i (pk # pks) seen verified =
    guard (pk \<in> set committee) MpcUnknownSigner
    (guard (pk \<notin> set seen) MpcDuplicateSigner
    (guard (i < length signatures) Panic
    (ext_call (verify pk msg (signatures ! i)) (\<lambda>good.
     guard good MpcSignatureInvalid
      (threshold_loop verify committee msg signatures (i + 1) pks (seen @ [pk]) (verified + 1))))))"

definition verifyThreshold :: "(int \<Rightarrow> bytes \<Rightarrow> bytes \<Rightarrow> bool option) \<Rightarrow> int list \<Rightarrow> int \<Rightarrow> int list \<Rightarrow> bytes list \<Rightarrow>
    (pool_error, unit) result" where
  "verifyThreshold verify committee batchHash signerPubkeys signatures =
    (let n = length committee; threshold = (n * 2 + 2) div 3 in
     guard (n \<noteq> 0) CommitteeNotInitialized
     (guard (\<not> (length signerPubkeys < threshold \<or> length signatures < threshold)) MpcThreshold
     (res_bind (threshold_loop verify committee (packed 32 batchHash) signatures 0 signerPubkeys [] 0) (\<lambda>verified.
      guard (\<not> verified < threshold) MpcThreshold (Ok ())))))"


section \<open>Helpers of the pool\<close>

definition hashToField :: "'w externals \<Rightarrow> int \<Rightarrow> int" where
  "hashToField X h = drop_bit 8 (x_sha256 X (packed 32 h))"

definition addressHash :: "'w externals \<Rightarrow> account \<Rightarrow> int" where
  "addressHash X a = drop_bit 8 (x_sha256 X (packed 20 (int a)))"

definition getAssetToken :: "int \<Rightarrow> pool \<Rightarrow> (pool_error, account) result" where
  "getAssetToken assetId p =
    (let t = pl_assetToken p assetId in guard (t \<noteq> 0) UnknownAsset (Ok t))"

definition vaultBalance :: "'w externals \<Rightarrow> int \<Rightarrow> 'w chain \<Rightarrow> (pool_error, int) result" where
  "vaultBalance X assetId c =
    res_bind (getAssetToken assetId (cn_pool c)) (\<lambda>t. Ok (x_balanceOf X (cn_world c) t (pl_self (cn_pool c))))"

definition proofOfReserves :: "'w externals \<Rightarrow> int \<Rightarrow> 'w chain \<Rightarrow> (pool_error, int \<times> int) result" where
  "proofOfReserves X assetId c =
    res_bind (vaultBalance X assetId c) (\<lambda>b. Ok (pl_noteSupplyOf (cn_pool c) assetId, b))"

definition adjustNoteSupply :: "'w externals \<Rightarrow> int \<Rightarrow> int \<Rightarrow> 'w chain \<Rightarrow> (pool_error, 'w chain) result" where
  "adjustNoteSupply X assetId delta c =
    guard (pl_assetToken (cn_pool c) assetId \<noteq> 0) UnknownAsset
    (let nxt = pl_noteSupplyOf (cn_pool c) assetId + delta in
     guard (int256_ok nxt) Panic
     (guard (\<not> nxt < 0) SupplyUnderflow
     (res_bind (vaultBalance X assetId c) (\<lambda>balance.
      guard (\<not> nxt > balance) ReserveBroken
       (Ok (set_pool (\<lambda>p. p \<lparr> pl_noteSupplyOf := (pl_noteSupplyOf p)(assetId := nxt) \<rparr>) c))))))"

text \<open>\<open>-int256(x)\<close> of the smallest number is a panic.\<close>

definition neg_int256 :: "int \<Rightarrow> (int \<Rightarrow> (pool_error, 'a) result) \<Rightarrow> (pool_error, 'a) result" where
  "neg_int256 x k = guard (int256 x \<noteq> - (2 ^ 255)) Panic (k (- int256 x))"

definition checkDomainCompliance :: "int \<Rightarrow> int \<Rightarrow> int \<Rightarrow> pool \<Rightarrow> (pool_error, unit) result" where
  "checkDomainCompliance assocIn poolIn chainIn p =
    guard (poolIn = pl_poolId p \<and> chainIn = pl_chainId p) WrongDomain
    (guard (assocIn = pl_associationRoot p) WrongAssociation (Ok ()))"

definition pool_insert :: "'w externals \<Rightarrow> int \<Rightarrow> 'w chain \<Rightarrow> (pool_error, nat \<times> 'w chain) result" where
  "pool_insert X leaf c =
    (case frontier_insert (x_poseidon X) leaf (pl_tree (cn_pool c)) of
       Inl e \<Rightarrow> Throw (TreeError e)
     | Inr (i, t) \<Rightarrow> Ok (i, set_pool (\<lambda>p. p \<lparr> pl_tree := t \<rparr>) c))"

definition pool_root :: "'w chain \<Rightarrow> int" where
  "pool_root c = getRoot (pl_tree (cn_pool c))"


section \<open>The pool\<close>

definition OP_WITHDRAW_PUBLIC :: int where "OP_WITHDRAW_PUBLIC = 1"
definition OP_WITHDRAW_CCTP :: int where "OP_WITHDRAW_CCTP = 2"
definition OP_RFQ_SETTLEMENT :: int where "OP_RFQ_SETTLEMENT = 3"
definition OP_DEPOSIT_NOTE_MINT :: int where "OP_DEPOSIT_NOTE_MINT = 4"

text \<open>\<open>depositUsed[cctpNonce] = true\<close>\<close>

definition mark_deposit :: "int \<Rightarrow> 'w chain \<Rightarrow> 'w chain" where
  "mark_deposit cctpNonce = set_pool (\<lambda>p. p \<lparr> pl_depositUsed := (pl_depositUsed p)(cctpNonce := True) \<rparr>)"

definition receiveDeposit :: "'w externals \<Rightarrow> account \<Rightarrow> int \<Rightarrow> int \<Rightarrow> account \<Rightarrow> int \<Rightarrow> int \<Rightarrow> int \<Rightarrow> int \<Rightarrow> groth16 \<Rightarrow> int list \<Rightarrow>
    'w chain \<Rightarrow> (pool_error, nat \<times> 'w chain) result" where
  "receiveDeposit X sender sourceDomain cctpNonce token amount commitment encryptedNotePayloadHash policyId prf pub c =
    guard (uint32 sourceDomain \<and> abi_words 14 pub) AbiDecode
    (guard (\<not> pl_paused (cn_pool c)) EnforcedPause
    (guard (pl_registrar (cn_pool c) sender) (MissingRole ''REGISTRAR_ROLE'')
    (guard (amount \<noteq> 0) BadAmount
    (guard (\<not> pl_depositUsed (cn_pool c) cctpNonce) DuplicateDeposit
    (guard (pub ! 0 = commitment) WrongCommitment
    (guard (int256 (pub ! 1) = OP_DEPOSIT_NOTE_MINT) WrongOperation
    (guard (pub ! 2 = sourceDomain) WrongDepositField
    (guard (pub ! 7 = amount) WrongDepositField
    (guard (pub ! 5 \<noteq> 0) WrongDepositField
    (guard (pub ! 6 \<noteq> 0) WrongDepositField
    (guard (uint256 (pub ! 6 * 10)) Panic
    (guard (\<not> pub ! 6 * 10 < amount) WrongDepositField
    (guard (hashToField X cctpNonce = pub ! 4) WrongDepositField
    (guard (hashToField X encryptedNotePayloadHash = pub ! 10) WrongDepositField
    (guard (hashToField X policyId = pub ! 11) WrongDepositField
    (guard (addressHash X token = pub ! 8) WrongDepositField
    (guard (addressHash X (pl_self (cn_pool c)) = pub ! 9) WrongDepositField
    (guard (pub ! 12 = pl_poolId (cn_pool c) \<and> pub ! 13 = pl_chainId (cn_pool c)) WrongDomain
    (ext_call (x_verifyProof X (pl_depositVerifier (cn_pool c)) prf pub) (\<lambda>valid. guard valid ProofInvalid
    (res_bind (pool_insert X commitment c) (\<lambda>(leafIndex, c1).
     let c2 = mark_deposit cctpNonce c1 in
     res_bind (adjustNoteSupply X (pub ! 8) (int256 amount) c2) (\<lambda>c3.
     Ok (leafIndex, log_ev (Deposit sourceDomain cctpNonce (pub ! 8) amount commitment leafIndex (pool_root c3)) c3))))))))))))))))))))))))"

definition withdraw :: "'w externals \<Rightarrow> account \<Rightarrow> groth16 \<Rightarrow> int list \<Rightarrow> 'w chain \<Rightarrow> (pool_error, 'w chain) result" where
  "withdraw X to prf pub c =
    guard (abi_words 18 pub) AbiDecode
    (guard (\<not> pl_paused (cn_pool c)) EnforcedPause
    (let nullifierHash = pub ! 0; withdrawnValue = pub ! 2; relayerFee = pub ! 4; assetId = pub ! 17 in
     guard (int256 (pub ! 1) = OP_WITHDRAW_PUBLIC) WrongOperation
    (guard (\<not> (withdrawnValue = 0 \<or> relayerFee > withdrawnValue)) BadAmount
    (guard (\<not> cn_block c > pub ! 5) Expired
    (guard (pub ! 3 = addressHash X to) WrongRecipient
    (res_bind (checkDomainCompliance (pub ! 7) (pub ! 8) (pub ! 9) (cn_pool c)) (\<lambda>_.
     guard (isKnownRoot (pl_tree (cn_pool c)) (pub ! 6)) UnknownRoot
    (ext_call (x_verifyProof X (pl_withdrawVerifier (cn_pool c)) prf pub) (\<lambda>valid. guard valid ProofInvalid
    (res_bind (spend (pl_self (cn_pool c)) nullifierHash c) (\<lambda>c1.
     let net = withdrawnValue - relayerFee in
     res_bind (getAssetToken assetId (cn_pool c1)) (\<lambda>token.
     guard (\<not> x_balanceOf X (cn_world c1) token (pl_self (cn_pool c1)) < net) InsufficientBalance
    (ext_call (x_transfer X (cn_world c1) token (pl_self (cn_pool c1)) to net) (\<lambda>w.
     neg_int256 withdrawnValue (\<lambda>delta.
     res_bind (adjustNoteSupply X assetId delta (c1 \<lparr> cn_world := w \<rparr>)) (\<lambda>c2.
     Ok (log_ev (Withdraw to nullifierHash net relayerFee) c2)))))))))))))))))"

definition privateTransferSettle :: "'w externals \<Rightarrow> account \<Rightarrow> groth16 \<Rightarrow> int list \<Rightarrow> 'w chain \<Rightarrow> (pool_error, 'w chain) result" where
  "privateTransferSettle X sender prf pub c =
    guard (abi_words 9 pub) AbiDecode
    (guard (\<not> pl_paused (cn_pool c)) EnforcedPause
    (guard (pl_registrar (cn_pool c) sender) (MissingRole ''REGISTRAR_ROLE'')
    (let nullifierHash = pub ! 0; outputCommitment = pub ! 1 in
     guard (pub ! 4 = pl_associationRoot (cn_pool c)) WrongAssociation
    (guard (pub ! 5 = pl_poolId (cn_pool c) \<and> pub ! 6 = pl_chainId (cn_pool c)) WrongDomain
    (guard (isKnownRoot (pl_tree (cn_pool c)) (pub ! 3)) UnknownRoot
    (ext_call (x_verifyProof X (pl_transferVerifier (cn_pool c)) prf pub) (\<lambda>valid. guard valid ProofInvalid
    (res_bind (spend (pl_self (cn_pool c)) nullifierHash c) (\<lambda>c1.
     res_bind (pool_insert X outputCommitment c1) (\<lambda>(leafIndex, c2).
     Ok (log_ev (Transfer nullifierHash outputCommitment leafIndex (pool_root c2)) c2)))))))))))"

definition rfqSettle :: "'w externals \<Rightarrow> account \<Rightarrow> int \<Rightarrow> int \<Rightarrow> int \<Rightarrow> int \<Rightarrow> bytes \<Rightarrow> groth16 \<Rightarrow> int list \<Rightarrow>
    'w chain \<Rightarrow> (pool_error, 'w chain) result" where
  "rfqSettle X toSolver quoteHash intentHash fillReceiptHash solverPubkey solverSig prf pub c =
    guard (abi_words 18 pub) AbiDecode
    (guard (\<not> pl_paused (cn_pool c)) EnforcedPause
    (guard (pl_authorizedSolver (cn_pool c) solverPubkey) UnauthorizedSolver
    (ext_call (x_ed25519 X (pl_ed25519Verifier (cn_pool c)) solverPubkey (packed 32 quoteHash) solverSig) (\<lambda>signed_by.
     guard signed_by SolverSigInvalid
    (guard (int256 (pub ! 1) = OP_RFQ_SETTLEMENT) WrongOperation
    (let credit = pub ! 2; relayerFee = pub ! 4 in
     guard (\<not> (credit = 0 \<or> relayerFee > credit)) BadAmount
    (guard (\<not> cn_block c > pub ! 5) Expired
    (guard (hashToField X quoteHash = pub ! 10) WrongQuote
    (guard (hashToField X intentHash = pub ! 11) WrongIntent
    (guard (hashToField X fillReceiptHash = pub ! 12) WrongFillReceipt
    (res_bind (checkDomainCompliance (pub ! 7) (pub ! 8) (pub ! 9) (cn_pool c)) (\<lambda>_.
     guard (isKnownRoot (pl_tree (cn_pool c)) (pub ! 6)) UnknownRoot
    (ext_call (x_verifyProof X (pl_withdrawVerifier (cn_pool c)) prf pub) (\<lambda>valid. guard valid ProofInvalid
    (res_bind (spend (pl_self (cn_pool c)) (pub ! 0) c) (\<lambda>c1.
     res_bind (getAssetToken (pub ! 17) (cn_pool c1)) (\<lambda>token.
     guard (\<not> x_balanceOf X (cn_world c1) token (pl_self (cn_pool c1)) < credit) InsufficientBalance
    (ext_call (x_transfer X (cn_world c1) token (pl_self (cn_pool c1)) toSolver credit) (\<lambda>w.
     neg_int256 credit (\<lambda>delta.
     res_bind (adjustNoteSupply X (pub ! 17) delta (c1 \<lparr> cn_world := w \<rparr>)) (\<lambda>c2.
     Ok (log_ev (RfqSettled quoteHash toSolver (pub ! 0) credit) c2))))))))))))))))))))))"

definition withdrawCctp :: "'w externals \<Rightarrow> account \<Rightarrow> int \<Rightarrow> int \<Rightarrow> int \<Rightarrow> groth16 \<Rightarrow> int list \<Rightarrow>
    'w chain \<Rightarrow> (pool_error, int \<times> 'w chain) result" where
  "withdrawCctp X to destinationRecipient maxFee minFinalityThreshold prf pub c =
    guard (uint32 minFinalityThreshold \<and> abi_words 18 pub) AbiDecode
    (guard (\<not> pl_paused (cn_pool c)) EnforcedPause
    (let amount = pub ! 2; usdc = pl_usdcToken (cn_pool c); dest = pl_cctpOutboundDomain (cn_pool c); self = pl_self (cn_pool c);
         messenger = pl_tokenMessenger (cn_pool c) in
     guard (amount \<noteq> 0) BadAmount
    (guard (int256 (pub ! 1) = OP_WITHDRAW_CCTP) WrongOperation
    (guard (pub ! 17 = addressHash X usdc) UnknownAsset
    (guard (\<not> cn_block c > pub ! 5) Expired
    (guard (pub ! 13 mod 2 ^ 32 = dest) UnsupportedDomain
    (guard (pub ! 13 = dest) WrongDestDomain
    (guard (pub ! 14 = destinationRecipient) WrongDestRecipient
    (guard (pub ! 15 = maxFee) WrongMaxFee
    (guard (pub ! 16 = minFinalityThreshold) WrongFinality
    (res_bind (checkDomainCompliance (pub ! 7) (pub ! 8) (pub ! 9) (cn_pool c)) (\<lambda>_.
     guard (isKnownRoot (pl_tree (cn_pool c)) (pub ! 6)) UnknownRoot
    (ext_call (x_verifyProof X (pl_withdrawVerifier (cn_pool c)) prf pub) (\<lambda>valid. guard valid ProofInvalid
    (res_bind (spend self (pub ! 0) c) (\<lambda>c1.
     let pullAmount = amount + maxFee in
     guard (uint256 pullAmount) Panic
    (ext_call (x_approve X (cn_world c1) usdc self messenger pullAmount) (\<lambda>w1.
     ext_call (x_depositForBurn X w1 messenger self amount dest destinationRecipient usdc 0 maxFee minFinalityThreshold) (\<lambda>w2.
     neg_int256 amount (\<lambda>delta.
     res_bind (adjustNoteSupply X (pub ! 17) delta (c1 \<lparr> cn_world := w2 \<rparr>)) (\<lambda>c2.
     Ok (amount, log_ev (CctpExit dest to (pub ! 0) amount) c2))))))))))))))))))))))"

text \<open>The two committee settlements spend two notes and add two.\<close>

definition mpcSettle :: "'w externals \<Rightarrow> int \<Rightarrow> int list \<Rightarrow> bytes list \<Rightarrow> groth16 \<Rightarrow> int list \<Rightarrow> 'w chain \<Rightarrow> (pool_error, 'w chain) result" where
  "mpcSettle X batchHash signerPubkeys signatures prf pub c =
    guard (abi_words 12 pub) AbiDecode
    (guard (\<not> pl_paused (cn_pool c)) EnforcedPause
    (let self = pl_self (cn_pool c) in
     res_bind (verifyThreshold (x_ed25519 X (pl_ed25519Verifier (cn_pool c))) (pl_committee (cn_pool c)) batchHash signerPubkeys signatures) (\<lambda>_.
     ext_call (x_verifyProof X (pl_mpcVerifier (cn_pool c)) prf pub) (\<lambda>valid. guard valid MpcProofInvalid
    (guard (isKnownRoot (pl_tree (cn_pool c)) (pub ! 4)) UnknownRoot
    (guard (\<not> (pl_associationRoot (cn_pool c) = 0 \<or> pub ! 5 \<noteq> pl_associationRoot (cn_pool c))) WrongAssociation
    (guard (pub ! 6 = hashToField X batchHash) MpcSignalMismatch
    (guard (pub ! 7 = pl_poolId (cn_pool c) \<and> pub ! 8 = pl_chainId (cn_pool c)) WrongDomain
    (guard (\<not> cn_block c > pub ! 10) Expired
    (res_bind (spend self (pub ! 0) c) (\<lambda>c1.
     res_bind (spend self (pub ! 1) c1) (\<lambda>c2.
     res_bind (pool_insert X (pub ! 2) c2) (\<lambda>(_, c3).
     res_bind (pool_insert X (pub ! 3) c3) (\<lambda>(_, c4).
     Ok (log_ev (MpcSettled batchHash (pub ! 0) (pub ! 1) (pub ! 2) (pub ! 3) (pool_root c4)) c4)))))))))))))))"

definition mpcSettlePriced :: "'w externals \<Rightarrow> int \<Rightarrow> int list \<Rightarrow> bytes list \<Rightarrow> groth16 \<Rightarrow> int list \<Rightarrow> 'w chain \<Rightarrow> (pool_error, 'w chain) result" where
  "mpcSettlePriced X batchHash signerPubkeys signatures prf pub c =
    guard (abi_words 20 pub) AbiDecode
    (guard (\<not> pl_paused (cn_pool c)) EnforcedPause
    (let self = pl_self (cn_pool c) in
     res_bind (verifyThreshold (x_ed25519 X (pl_ed25519Verifier (cn_pool c))) (pl_committee (cn_pool c)) batchHash signerPubkeys signatures) (\<lambda>_.
     ext_call (x_verifyProof X (pl_mpcPricedVerifier (cn_pool c)) prf pub) (\<lambda>valid. guard valid MpcProofInvalid
    (guard (isKnownRoot (pl_tree (cn_pool c)) (pub ! 4)) UnknownRoot
    (guard (\<not> (pl_associationRoot (cn_pool c) = 0 \<or> pub ! 5 \<noteq> pl_associationRoot (cn_pool c))) WrongAssociation
    (guard (pub ! 6 = hashToField X batchHash) MpcSignalMismatch
    (guard (pub ! 7 = pl_poolId (cn_pool c) \<and> pub ! 8 = pl_chainId (cn_pool c)) WrongDomain
    (guard (\<not> cn_block c > pub ! 9) Expired
    (guard (pub ! 10 \<noteq> pub ! 12) NotCrossAsset
    (res_bind (spend self (pub ! 0) c) (\<lambda>c1.
     res_bind (spend self (pub ! 1) c1) (\<lambda>c2.
     res_bind (pool_insert X (pub ! 2) c2) (\<lambda>(_, c3).
     res_bind (pool_insert X (pub ! 3) c3) (\<lambda>(_, c4).
     Ok (log_ev (MpcSettled batchHash (pub ! 0) (pub ! 1) (pub ! 2) (pub ! 3) (pool_root c4)) c4))))))))))))))))"

definition streamInsert :: "'w externals \<Rightarrow> account \<Rightarrow> int \<Rightarrow> int \<Rightarrow> int \<Rightarrow> 'w chain \<Rightarrow> (pool_error, nat \<times> 'w chain) result" where
  "streamInsert X sender assetId commitment supplyDelta c =
    guard (\<not> pl_paused (cn_pool c)) EnforcedPause
    (guard (pl_authorizedStreamContract (cn_pool c) sender) UnauthorizedStreamContract
    (res_bind (if supplyDelta \<noteq> 0 then adjustNoteSupply X assetId supplyDelta c else Ok c) (\<lambda>c1.
     pool_insert X commitment c1)))"

text \<open>The calls of the administrator.\<close>

definition only_admin :: "account \<Rightarrow> 'w chain \<Rightarrow> (pool_error, 'a) result \<Rightarrow> (pool_error, 'a) result" where
  "only_admin sender c k = guard (pl_admin (cn_pool c) sender) (MissingRole ''ADMIN_ROLE'') k"

definition setAuthorizedSolver :: "account \<Rightarrow> int \<Rightarrow> bool \<Rightarrow> 'w chain \<Rightarrow> (pool_error, 'w chain) result" where
  "setAuthorizedSolver sender solverPubkey allowed c = only_admin sender c
    (Ok (set_pool (\<lambda>p. p \<lparr> pl_authorizedSolver := (pl_authorizedSolver p)(solverPubkey := allowed) \<rparr>) c))"

definition setCctpConfig :: "account \<Rightarrow> account \<Rightarrow> account \<Rightarrow> int \<Rightarrow> 'w chain \<Rightarrow> (pool_error, 'w chain) result" where
  "setCctpConfig sender messenger usdc outboundDomain c =
    guard (uint32 outboundDomain) AbiDecode (only_admin sender c
    (Ok (set_pool (\<lambda>p. p \<lparr> pl_tokenMessenger := messenger, pl_usdcToken := usdc, pl_cctpOutboundDomain := outboundDomain \<rparr>) c)))"

definition registerAsset :: "account \<Rightarrow> int \<Rightarrow> account \<Rightarrow> 'w chain \<Rightarrow> (pool_error, 'w chain) result" where
  "registerAsset sender assetId token c = only_admin sender c
    (guard (\<not> pl_assetToken (cn_pool c) assetId \<noteq> 0) AssetAlreadyRegistered
     (Ok (log_ev (AssetRegistered assetId token)
       (set_pool (\<lambda>p. p \<lparr> pl_assetToken := (pl_assetToken p)(assetId := token), pl_noteSupplyOf := (pl_noteSupplyOf p)(assetId := 0) \<rparr>) c))))"

definition setAssociationRoot :: "account \<Rightarrow> int \<Rightarrow> 'w chain \<Rightarrow> (pool_error, 'w chain) result" where
  "setAssociationRoot sender root c = only_admin sender c
    (let version = pl_associationRootVersion (cn_pool c) + 1 in
     guard (uint256 version) Panic
     (Ok (log_ev (AssociationRootSet root version)
       (set_pool (\<lambda>p. p \<lparr> pl_associationRoot := root, pl_associationRootVersion := version \<rparr>) c))))"

definition setCommittee :: "account \<Rightarrow> int list \<Rightarrow> 'w chain \<Rightarrow> (pool_error, 'w chain) result" where
  "setCommittee sender pubkeys c = only_admin sender c
    (Ok (log_ev (CommitteeSet (length pubkeys)) (set_pool (\<lambda>p. p \<lparr> pl_committee := pubkeys \<rparr>) c)))"

datatype verifier_slot = WithdrawSlot | TransferSlot | DepositSlot | MpcSlot | MpcPricedSlot | Ed25519Slot

fun put_verifier :: "verifier_slot \<Rightarrow> account \<Rightarrow> pool \<Rightarrow> pool" where
  "put_verifier WithdrawSlot v p = p \<lparr> pl_withdrawVerifier := v \<rparr>"
| "put_verifier TransferSlot v p = p \<lparr> pl_transferVerifier := v \<rparr>"
| "put_verifier DepositSlot v p = p \<lparr> pl_depositVerifier := v \<rparr>"
| "put_verifier MpcSlot v p = p \<lparr> pl_mpcVerifier := v \<rparr>"
| "put_verifier MpcPricedSlot v p = p \<lparr> pl_mpcPricedVerifier := v \<rparr>"
| "put_verifier Ed25519Slot v p = p \<lparr> pl_ed25519Verifier := v \<rparr>"

definition setVerifier :: "account \<Rightarrow> verifier_slot \<Rightarrow> account \<Rightarrow> 'w chain \<Rightarrow> (pool_error, 'w chain) result" where
  "setVerifier sender slot v c = only_admin sender c (Ok (set_pool (put_verifier slot v) c))"

definition pool_pause :: "account \<Rightarrow> 'w chain \<Rightarrow> (pool_error, 'w chain) result" where
  "pool_pause sender c = only_admin sender c
    (guard (\<not> pl_paused (cn_pool c)) EnforcedPause (Ok (set_pool (\<lambda>p. p \<lparr> pl_paused := True \<rparr>) c)))"

definition pool_unpause :: "account \<Rightarrow> 'w chain \<Rightarrow> (pool_error, 'w chain) result" where
  "pool_unpause sender c = only_admin sender c
    (guard (pl_paused (cn_pool c)) ExpectedPause (Ok (set_pool (\<lambda>p. p \<lparr> pl_paused := False \<rparr>) c)))"

definition setAuthorizedStreamContract :: "account \<Rightarrow> account \<Rightarrow> bool \<Rightarrow> 'w chain \<Rightarrow> (pool_error, 'w chain) result" where
  "setAuthorizedStreamContract sender streamContract allowed c = only_admin sender c
    (Ok (log_ev (StreamContractSet streamContract allowed)
      (set_pool (\<lambda>p. p \<lparr> pl_authorizedStreamContract := (pl_authorizedStreamContract p)(streamContract := allowed) \<rparr>) c)))"


section \<open>The stream escrow\<close>

definition es_open :: "'w externals \<Rightarrow> groth16 \<Rightarrow> int list \<Rightarrow> 'w chain \<Rightarrow> (pool_error, 'w chain) result" where
  "es_open X prf pub c =
    guard (abi_words 13 pub) AbiDecode
    (guard (\<not> es_paused (cn_escrow c)) EnforcedPause
    (let channelId = pub ! 7; self = es_self (cn_escrow c); cap = pub ! 10; assetId = pub ! 12 in
     guard (\<not> ch_opened (es_channels (cn_escrow c) channelId)) ChannelAlreadyOpen
    (guard (pub ! 5 = pl_poolId (cn_pool c) \<and> pub ! 6 = pl_chainId (cn_pool c)) WrongDomain
    (guard (pub ! 4 = pl_associationRoot (cn_pool c)) WrongAssociation
    (guard (isKnownRoot (pl_tree (cn_pool c)) (pub ! 3)) UnknownRoot
    (ext_call (x_verifyProof X (es_openVerifier (cn_escrow c)) prf pub) (\<lambda>valid. guard valid ProofInvalid
    (res_bind (spend self (pub ! 0) c) (\<lambda>c1.
     let ch = \<lparr> ch_payerAx = pub ! 8, ch_payerAy = pub ! 9, ch_cap = cap, ch_expiry = pub ! 11, ch_reclaimCommitment = pub ! 2,
                ch_assetId = assetId, ch_opened = True, ch_consumed = False \<rparr>;
         c2 = set_escrow (\<lambda>e. e \<lparr> es_channels := (es_channels e)(channelId := ch) \<rparr>) c1 in
     neg_int256 cap (\<lambda>delta.
     res_bind (streamInsert X self assetId (pub ! 1) delta c2) (\<lambda>(_, c3).
     Ok (log_ev (ChannelOpened channelId cap (pub ! 11) (pub ! 1)) c3))))))))))))"

definition consume :: "int \<Rightarrow> 'w chain \<Rightarrow> 'w chain" where
  "consume channelId = set_escrow (\<lambda>e. e \<lparr> es_channels := (es_channels e)(channelId := (es_channels e channelId) \<lparr> ch_consumed := True \<rparr>) \<rparr>)"

definition es_settle_one :: "'w externals \<Rightarrow> groth16 \<Rightarrow> int list \<Rightarrow> 'w chain \<Rightarrow> (pool_error, 'w chain) result" where
  "es_settle_one X prf pub c =
    (let channelId = pub ! 5; ch = es_channels (cn_escrow c) channelId; self = es_self (cn_escrow c) in
     guard (ch_opened ch) ChannelNotOpen
    (guard (\<not> ch_consumed ch) ChannelConsumed
    (guard (\<not> (pub ! 6 \<noteq> ch_payerAx ch \<or> pub ! 7 \<noteq> ch_payerAy ch \<or> pub ! 8 \<noteq> ch_cap ch \<or> pub ! 10 \<noteq> ch_assetId ch)) ChannelParamMismatch
    (guard (pub ! 3 = pl_poolId (cn_pool c) \<and> pub ! 4 = pl_chainId (cn_pool c)) WrongDomain
    (guard (pub ! 2 = pl_associationRoot (cn_pool c)) WrongAssociation
    (ext_call (x_verifyProof X (es_settleVerifier (cn_escrow c)) prf pub) (\<lambda>valid. guard valid ProofInvalid
    (let c1 = consume channelId c; cumulative = pub ! 9 in
     res_bind (streamInsert X self (ch_assetId ch) (pub ! 0) (int256 cumulative) c1) (\<lambda>(_, c2).
     guard (cumulative \<le> ch_cap ch) Panic
    (res_bind (streamInsert X self (ch_assetId ch) (pub ! 1) (int256 (ch_cap ch - cumulative)) c2) (\<lambda>(_, c3).
     Ok (log_ev (ChannelSettled channelId cumulative (pub ! 0) (pub ! 1)) c3))))))))))))"

definition es_settle :: "'w externals \<Rightarrow> groth16 \<Rightarrow> int list \<Rightarrow> 'w chain \<Rightarrow> (pool_error, 'w chain) result" where
  "es_settle X prf pub c =
    guard (abi_words 11 pub) AbiDecode
    (guard (\<not> es_paused (cn_escrow c)) EnforcedPause (es_settle_one X prf pub c))"

fun settle_loop :: "'w externals \<Rightarrow> (groth16 \<times> int list) list \<Rightarrow> 'w chain \<Rightarrow> (pool_error, 'w chain) result" where
  "settle_loop X [] c = Ok c"
| "settle_loop X ((prf, pub) # rest) c = res_bind (es_settle_one X prf pub c) (settle_loop X rest)"

definition settleBatch :: "'w externals \<Rightarrow> groth16 list \<Rightarrow> int list list \<Rightarrow> 'w chain \<Rightarrow> (pool_error, 'w chain) result" where
  "settleBatch X prfs pubs c =
    guard (list_all (abi_words 11) pubs) AbiDecode
    (guard (\<not> es_paused (cn_escrow c)) EnforcedPause
    (guard (length prfs = length pubs) LengthMismatch (settle_loop X (zip prfs pubs) c)))"

definition reclaim :: "'w externals \<Rightarrow> int \<Rightarrow> 'w chain \<Rightarrow> (pool_error, 'w chain) result" where
  "reclaim X channelId c =
    guard (\<not> es_paused (cn_escrow c)) EnforcedPause
    (let ch = es_channels (cn_escrow c) channelId in
     guard (ch_opened ch) ChannelNotOpen
    (guard (\<not> ch_consumed ch) ChannelConsumed
    (guard (uint256 (ch_expiry ch + es_challengeWindow (cn_escrow c))) Panic
    (guard (\<not> cn_block c \<le> ch_expiry ch + es_challengeWindow (cn_escrow c)) NotYetReclaimable
    (res_bind (streamInsert X (es_self (cn_escrow c)) (ch_assetId ch) (ch_reclaimCommitment ch) (int256 (ch_cap ch)) (consume channelId c)) (\<lambda>(_, c1).
     Ok (log_ev (ChannelReclaimed channelId (ch_cap ch) (ch_reclaimCommitment ch)) c1)))))))"

definition setOpenVerifier :: "account \<Rightarrow> account \<Rightarrow> 'w chain \<Rightarrow> (pool_error, 'w chain) result" where
  "setOpenVerifier sender v c =
    guard (es_admin (cn_escrow c) sender) (MissingRole ''ADMIN_ROLE'') (Ok (set_escrow (\<lambda>e. e \<lparr> es_openVerifier := v \<rparr>) c))"

definition setSettleVerifier :: "account \<Rightarrow> account \<Rightarrow> 'w chain \<Rightarrow> (pool_error, 'w chain) result" where
  "setSettleVerifier sender v c =
    guard (es_admin (cn_escrow c) sender) (MissingRole ''ADMIN_ROLE'') (Ok (set_escrow (\<lambda>e. e \<lparr> es_settleVerifier := v \<rparr>) c))"

definition escrow_pause :: "account \<Rightarrow> 'w chain \<Rightarrow> (pool_error, 'w chain) result" where
  "escrow_pause sender c =
    guard (es_admin (cn_escrow c) sender) (MissingRole ''ADMIN_ROLE'')
    (guard (\<not> es_paused (cn_escrow c)) EnforcedPause (Ok (set_escrow (\<lambda>e. e \<lparr> es_paused := True \<rparr>) c)))"

definition escrow_unpause :: "account \<Rightarrow> 'w chain \<Rightarrow> (pool_error, 'w chain) result" where
  "escrow_unpause sender c =
    guard (es_admin (cn_escrow c) sender) (MissingRole ''ADMIN_ROLE'')
    (guard (es_paused (cn_escrow c)) ExpectedPause (Ok (set_escrow (\<lambda>e. e \<lparr> es_paused := False \<rparr>) c)))"


section \<open>Transactions\<close>

datatype call =
  CallSpend int | CallSetSpender account bool | CallRegistryPause | CallRegistryUnpause
| CallDeposit int int account int int int int groth16 "int list"
| CallWithdraw account groth16 "int list"
| CallTransfer groth16 "int list"
| CallRfqSettle account int int int int bytes groth16 "int list"
| CallWithdrawCctp account int int int groth16 "int list"
| CallMpcSettle int "int list" "bytes list" groth16 "int list"
| CallMpcSettlePriced int "int list" "bytes list" groth16 "int list"
| CallStreamInsert int int int
| CallSetSolver int bool | CallSetCctp account account int | CallRegisterAsset int account | CallSetAssociationRoot int
| CallSetCommittee "int list" | CallSetVerifier verifier_slot account | CallPoolPause | CallPoolUnpause | CallSetStream account bool
| CallOpen groth16 "int list" | CallSettle groth16 "int list" | CallSettleBatch "groth16 list" "int list list" | CallReclaim int
| CallSetOpenVerifier account | CallSetSettleVerifier account | CallEscrowPause | CallEscrowUnpause

abbreviation drop_value :: "(pool_error, 'r \<times> 'w chain) result \<Rightarrow> (pool_error, 'w chain) result" where
  "drop_value r \<equiv> res_bind r (\<lambda>(_, c). Ok c)"

fun exec :: "'w externals \<Rightarrow> account \<Rightarrow> call \<Rightarrow> 'w chain \<Rightarrow> (pool_error, 'w chain) result" where
  "exec X s (CallSpend n) = spend s n"
| "exec X s (CallSetSpender a b) = setAuthorizedSpender s a b"
| "exec X s CallRegistryPause = registry_pause s"
| "exec X s CallRegistryUnpause = registry_unpause s"
| "exec X s (CallDeposit d n t a k e y prf pub) = (\<lambda>c. drop_value (receiveDeposit X s d n t a k e y prf pub c))"
| "exec X s (CallWithdraw to prf pub) = withdraw X to prf pub"
| "exec X s (CallTransfer prf pub) = privateTransferSettle X s prf pub"
| "exec X s (CallRfqSettle to q i f k sg prf pub) = rfqSettle X to q i f k sg prf pub"
| "exec X s (CallWithdrawCctp to r m f prf pub) = (\<lambda>c. drop_value (withdrawCctp X to r m f prf pub c))"
| "exec X s (CallMpcSettle b ks sgs prf pub) = mpcSettle X b ks sgs prf pub"
| "exec X s (CallMpcSettlePriced b ks sgs prf pub) = mpcSettlePriced X b ks sgs prf pub"
| "exec X s (CallStreamInsert a k d) = (\<lambda>c. drop_value (streamInsert X s a k d c))"
| "exec X s (CallSetSolver k b) = setAuthorizedSolver s k b"
| "exec X s (CallSetCctp m u d) = setCctpConfig s m u d"
| "exec X s (CallRegisterAsset a t) = registerAsset s a t"
| "exec X s (CallSetAssociationRoot r) = setAssociationRoot s r"
| "exec X s (CallSetCommittee ks) = setCommittee s ks"
| "exec X s (CallSetVerifier sl v) = setVerifier s sl v"
| "exec X s CallPoolPause = pool_pause s"
| "exec X s CallPoolUnpause = pool_unpause s"
| "exec X s (CallSetStream a b) = setAuthorizedStreamContract s a b"
| "exec X s (CallOpen prf pub) = es_open X prf pub"
| "exec X s (CallSettle prf pub) = es_settle X prf pub"
| "exec X s (CallSettleBatch prfs pubs) = settleBatch X prfs pubs"
| "exec X s (CallReclaim i) = reclaim X i"
| "exec X s (CallSetOpenVerifier v) = setOpenVerifier s v"
| "exec X s (CallSetSettleVerifier v) = setSettleVerifier s v"
| "exec X s CallEscrowPause = escrow_pause s"
| "exec X s CallEscrowUnpause = escrow_unpause s"

text \<open>The constructors.\<close>

definition closed_channel :: channel where
  "closed_channel = \<lparr> ch_payerAx = 0, ch_payerAy = 0, ch_cap = 0, ch_expiry = 0, ch_reclaimCommitment = 0, ch_assetId = 0,
     ch_opened = False, ch_consumed = False \<rparr>"

definition new_registry :: "account \<Rightarrow> registry" where
  "new_registry admin = \<lparr> nr_admin = (\<lambda>a. a = admin), nr_paused = False, nr_spent = (\<lambda>_. False), nr_authorized = (\<lambda>_. False) \<rparr>"

definition new_pool :: "poseidon \<Rightarrow> account \<Rightarrow> account \<Rightarrow> int \<Rightarrow> int \<Rightarrow> nat \<Rightarrow> (pool_error, pool) result" where
  "new_pool pos self admin poolId chainId treeDepth =
    (case new_frontier pos treeDepth of
       Inl e \<Rightarrow> Throw (TreeError e)
     | Inr t \<Rightarrow> Ok \<lparr> pl_self = self, pl_poolId = poolId, pl_chainId = chainId, pl_admin = (\<lambda>a. a = admin), pl_registrar = (\<lambda>a. a = admin),
         pl_paused = False, pl_tree = t, pl_withdrawVerifier = 0, pl_transferVerifier = 0, pl_depositVerifier = 0, pl_mpcVerifier = 0,
         pl_mpcPricedVerifier = 0, pl_associationRoot = 0, pl_associationRootVersion = 0, pl_assetToken = (\<lambda>_. 0),
         pl_noteSupplyOf = (\<lambda>_. 0), pl_committee = [], pl_ed25519Verifier = 0, pl_authorizedSolver = (\<lambda>_. False),
         pl_cctpOutboundDomain = 0, pl_tokenMessenger = 0, pl_usdcToken = 0, pl_depositUsed = (\<lambda>_. False),
         pl_authorizedStreamContract = (\<lambda>_. False) \<rparr>)"

definition new_escrow :: "account \<Rightarrow> account \<Rightarrow> int \<Rightarrow> escrow" where
  "new_escrow self admin window = \<lparr> es_self = self, es_admin = (\<lambda>a. a = admin), es_paused = False, es_openVerifier = 0, es_settleVerifier = 0,
     es_challengeWindow = window, es_channels = (\<lambda>_. closed_channel) \<rparr>"

record deployment =
  dp_admin :: account
  dp_pool :: account
  dp_escrow :: account
  dp_poolId :: int
  dp_chainId :: int
  dp_treeDepth :: nat
  dp_window :: int

definition deploy :: "'w externals \<Rightarrow> deployment \<Rightarrow> int \<Rightarrow> 'w \<Rightarrow> (pool_error, 'w chain) result" where
  "deploy X d block w =
    res_bind (new_pool (x_poseidon X) (dp_pool d) (dp_admin d) (dp_poolId d) (dp_chainId d) (dp_treeDepth d)) (\<lambda>p.
    Ok \<lparr> cn_block = block, cn_world = w, cn_registry = new_registry (dp_admin d), cn_pool = p,
         cn_escrow = new_escrow (dp_escrow d) (dp_admin d) (dp_window d), cn_log = [] \<rparr>)"

text \<open>
  One step of the chain after its contracts are deployed: a transaction that returns (one that reverts changes nothing), a new block,
  a change of the outside world that takes nothing from the pool, or a change of the role tables. Contracts originate no
  transactions. The policy \<open>P\<close> restricts the calls a history may contain.
\<close>

inductive chain_step :: "'w externals \<Rightarrow> ('w chain \<Rightarrow> call \<Rightarrow> bool) \<Rightarrow> 'w chain \<Rightarrow> call list \<Rightarrow> 'w chain \<Rightarrow> bool" for X P where
  tx: "exec X s f c = Ok c' \<Longrightarrow> s \<noteq> pl_self (cn_pool c) \<Longrightarrow> s \<noteq> es_self (cn_escrow c) \<Longrightarrow> P c f \<Longrightarrow> chain_step X P c [f] c'"
| mine: "cn_block c \<le> b \<Longrightarrow> chain_step X P c [] (c \<lparr> cn_block := b \<rparr>)"
| world: "(\<And>t. x_balanceOf X (cn_world c) t (pl_self (cn_pool c)) \<le> x_balanceOf X w t (pl_self (cn_pool c))) \<Longrightarrow>
    chain_step X P c [] (c \<lparr> cn_world := w \<rparr>)"
| roles: "chain_step X P c [] (c \<lparr> cn_pool := (cn_pool c) \<lparr> pl_admin := a, pl_registrar := r \<rparr>,
     cn_escrow := (cn_escrow c) \<lparr> es_admin := e \<rparr>, cn_registry := (cn_registry c) \<lparr> nr_admin := n \<rparr> \<rparr>)"

text \<open>The reachable states, with the calls that returned on the way.\<close>

inductive chain_reach :: "'w externals \<Rightarrow> ('w chain \<Rightarrow> call \<Rightarrow> bool) \<Rightarrow> call list \<Rightarrow> 'w chain \<Rightarrow> bool" for X P where
  deployed: "deploy X d block w = Ok c \<Longrightarrow> chain_reach X P [] c"
| more: "chain_reach X P fs c \<Longrightarrow> chain_step X P c g c' \<Longrightarrow> chain_reach X P (fs @ g) c'"

text \<open>An invariant of the contracts: it holds after deployment, every permitted call keeps it, and so do the steps between the calls.\<close>

locale chain_invariant =
  fixes X :: "'w externals" and P :: "'w chain \<Rightarrow> call \<Rightarrow> bool" and I :: "call list \<Rightarrow> 'w chain \<Rightarrow> bool"
  assumes start: "deploy X d block w = Ok c \<Longrightarrow> I [] c"
    and call: "I fs c \<Longrightarrow> exec X s f c = Ok c' \<Longrightarrow> s \<noteq> pl_self (cn_pool c) \<Longrightarrow> s \<noteq> es_self (cn_escrow c) \<Longrightarrow> P c f \<Longrightarrow> I (fs @ [f]) c'"
    and quiet_block: "I fs c \<Longrightarrow> I fs (c \<lparr> cn_block := b \<rparr>)"
    and quiet_world: "I fs c \<Longrightarrow> (\<And>t. x_balanceOf X (cn_world c) t (pl_self (cn_pool c)) \<le> x_balanceOf X w t (pl_self (cn_pool c))) \<Longrightarrow>
      I fs (c \<lparr> cn_world := w \<rparr>)"
    and quiet_roles: "I fs c \<Longrightarrow> I fs (c \<lparr> cn_pool := (cn_pool c) \<lparr> pl_admin := a, pl_registrar := r \<rparr>,
      cn_escrow := (cn_escrow c) \<lparr> es_admin := e \<rparr>, cn_registry := (cn_registry c) \<lparr> nr_admin := n \<rparr> \<rparr>)"
begin

lemma kept_by_step: "chain_step X P c g c' \<Longrightarrow> I fs c \<Longrightarrow> I (fs @ g) c'"
  by (induction rule: chain_step.induct) (simp_all add: call quiet_block quiet_world quiet_roles)

lemma holds: "chain_reach X P fs c \<Longrightarrow> I fs c"
  by (induction rule: chain_reach.induct) (simp_all add: start kept_by_step)

end


section \<open>What the primitive operations do\<close>

lemmas chain_defs = log_ev_def set_pool_def set_registry_def set_escrow_def consume_def mark_deposit_def

lemma spend_Ok:
  "spend s n c = Ok c' \<longleftrightarrow> \<not> nr_paused (cn_registry c) \<and> nr_authorized (cn_registry c) s \<and> \<not> nr_spent (cn_registry c) n \<and>
     c' = log_ev (NullifierSpent s n) (set_registry (\<lambda>r. r \<lparr> nr_spent := (nr_spent r)(n := True) \<rparr>) c)"
  by (auto simp: spend_def)

lemma spend_keeps:
  assumes "spend s n c = Ok c'"
  shows "cn_pool c' = cn_pool c" "cn_escrow c' = cn_escrow c" "cn_world c' = cn_world c" "cn_block c' = cn_block c"
    "cn_log c' = cn_log c @ [NullifierSpent s n]" "nr_spent (cn_registry c') = (nr_spent (cn_registry c))(n := True)"
  using assms by (auto simp: spend_Ok chain_defs)

lemma pool_insert_Ok:
  "pool_insert X leaf c = Ok (i, c') \<longleftrightarrow> (\<exists>t. frontier_insert (x_poseidon X) leaf (pl_tree (cn_pool c)) = Ok (i, t) \<and>
     c' = set_pool (\<lambda>p. p \<lparr> pl_tree := t \<rparr>) c)"
  by (auto simp: pool_insert_def split: sum.split)

lemma pool_insert_keeps:
  assumes "pool_insert X leaf c = Ok (i, c')"
  shows "cn_registry c' = cn_registry c" "cn_escrow c' = cn_escrow c" "cn_world c' = cn_world c" "cn_log c' = cn_log c"
    "pl_self (cn_pool c') = pl_self (cn_pool c)" "pl_noteSupplyOf (cn_pool c') = pl_noteSupplyOf (cn_pool c)"
    "pl_assetToken (cn_pool c') = pl_assetToken (cn_pool c)"
    "pl_authorizedStreamContract (cn_pool c') = pl_authorizedStreamContract (cn_pool c)"
    "frontier_insert (x_poseidon X) leaf (pl_tree (cn_pool c)) = Ok (i, pl_tree (cn_pool c'))"
  using assms by (auto simp: pool_insert_Ok chain_defs)

definition vault :: "'w externals \<Rightarrow> 'w chain \<Rightarrow> int \<Rightarrow> int" where
  "vault X c a = x_balanceOf X (cn_world c) (pl_assetToken (cn_pool c) a) (pl_self (cn_pool c))"

lemma adjustNoteSupply_Ok:
  "adjustNoteSupply X a d c = Ok c' \<longleftrightarrow> pl_assetToken (cn_pool c) a \<noteq> 0 \<and> int256_ok (pl_noteSupplyOf (cn_pool c) a + d) \<and>
     0 \<le> pl_noteSupplyOf (cn_pool c) a + d \<and> pl_noteSupplyOf (cn_pool c) a + d \<le> vault X c a \<and>
     c' = set_pool (\<lambda>p. p \<lparr> pl_noteSupplyOf := (pl_noteSupplyOf p)(a := pl_noteSupplyOf (cn_pool c) a + d) \<rparr>) c"
  by (auto simp: adjustNoteSupply_def Let_def vaultBalance_def getAssetToken_def vault_def not_less res_bind_eq_Inr)

lemma adjustNoteSupply_keeps:
  assumes "adjustNoteSupply X a d c = Ok c'"
  shows "cn_registry c' = cn_registry c" "cn_escrow c' = cn_escrow c" "cn_world c' = cn_world c" "cn_log c' = cn_log c"
    "pl_self (cn_pool c') = pl_self (cn_pool c)" "pl_tree (cn_pool c') = pl_tree (cn_pool c)"
    "pl_assetToken (cn_pool c') = pl_assetToken (cn_pool c)"
    "pl_authorizedStreamContract (cn_pool c') = pl_authorizedStreamContract (cn_pool c)"
    "pl_noteSupplyOf (cn_pool c') = (pl_noteSupplyOf (cn_pool c))(a := pl_noteSupplyOf (cn_pool c) a + d)"
    "0 \<le> pl_noteSupplyOf (cn_pool c') a" "pl_noteSupplyOf (cn_pool c') a \<le> vault X c' a" "pl_assetToken (cn_pool c) a \<noteq> 0"
  using assms by (auto simp: adjustNoteSupply_Ok chain_defs vault_def)

lemma neg_int256_Ok: "neg_int256 x k = Ok r \<longleftrightarrow> int256 x \<noteq> - (2 ^ 255) \<and> k (- int256 x) = Ok r"
  by (simp add: neg_int256_def)

lemma streamInsert_Ok:
  "streamInsert X s a k d c = Ok (i, c') \<longleftrightarrow> \<not> pl_paused (cn_pool c) \<and> pl_authorizedStreamContract (cn_pool c) s \<and>
     (\<exists>c1. (if d \<noteq> 0 then adjustNoteSupply X a d c = Ok c1 else c1 = c) \<and> pool_insert X k c1 = Ok (i, c'))"
  by (auto simp: streamInsert_def res_bind_eq_Inr)

lemma streamInsert_keeps:
  assumes "streamInsert X s a k d c = Ok (i, c')"
  shows "cn_registry c' = cn_registry c" "cn_escrow c' = cn_escrow c" "cn_world c' = cn_world c" "cn_log c' = cn_log c"
    "pl_self (cn_pool c') = pl_self (cn_pool c)"
    "pl_assetToken (cn_pool c') = pl_assetToken (cn_pool c)"
    "pl_authorizedStreamContract (cn_pool c') = pl_authorizedStreamContract (cn_pool c)"
    "pl_noteSupplyOf (cn_pool c') = (pl_noteSupplyOf (cn_pool c))(a := pl_noteSupplyOf (cn_pool c) a + d)"
    "frontier_insert (x_poseidon X) k (pl_tree (cn_pool c)) = Ok (i, pl_tree (cn_pool c'))"
    "d \<noteq> 0 \<longrightarrow> 0 \<le> pl_noteSupplyOf (cn_pool c') a \<and> pl_noteSupplyOf (cn_pool c') a \<le> vault X c' a \<and> pl_assetToken (cn_pool c) a \<noteq> 0"
    "pl_authorizedStreamContract (cn_pool c) s"
proof -
  from assms obtain c1 where c1: "if d \<noteq> 0 then adjustNoteSupply X a d c = Ok c1 else c1 = c" "pool_insert X k c1 = Ok (i, c')"
    and auth: "pl_authorizedStreamContract (cn_pool c) s"
    unfolding streamInsert_Ok by blast
  note ins = pool_insert_keeps [OF c1(2)]
  show "cn_registry c' = cn_registry c" "cn_escrow c' = cn_escrow c" "cn_world c' = cn_world c" "cn_log c' = cn_log c"
    "pl_self (cn_pool c') = pl_self (cn_pool c)" "pl_assetToken (cn_pool c') = pl_assetToken (cn_pool c)"
    "pl_authorizedStreamContract (cn_pool c') = pl_authorizedStreamContract (cn_pool c)"
    "pl_noteSupplyOf (cn_pool c') = (pl_noteSupplyOf (cn_pool c))(a := pl_noteSupplyOf (cn_pool c) a + d)"
    "pl_authorizedStreamContract (cn_pool c) s"
    "d \<noteq> 0 \<longrightarrow> 0 \<le> pl_noteSupplyOf (cn_pool c') a \<and> pl_noteSupplyOf (cn_pool c') a \<le> vault X c' a \<and> pl_assetToken (cn_pool c) a \<noteq> 0"
    using c1(1) auth by (auto simp: ins vault_def dest: adjustNoteSupply_keeps split: if_splits)
  have "pl_tree (cn_pool c1) = pl_tree (cn_pool c)" using c1(1) by (auto dest: adjustNoteSupply_keeps(6) split: if_splits)
  then show "frontier_insert (x_poseidon X) k (pl_tree (cn_pool c)) = Ok (i, pl_tree (cn_pool c'))" using ins(9) by simp
qed

lemmas flow_simps = res_bind_eq_Inr neg_int256_Ok Let_def split_beta


section \<open>Effects of the calls\<close>

text \<open>Each call that returns, as the sequence of primitive operations it performed.\<close>

lemma receiveDeposit_E:
  assumes "receiveDeposit X s d n t a k e y prf pub c = Ok (i, c')"
  obtains c1 c2 where "pool_insert X k c = Ok (i, c1)"
    "adjustNoteSupply X (pub ! 8) (int256 a) (mark_deposit n c1) = Ok c2"
    "c' = log_ev (Deposit d n (pub ! 8) a k i (pool_root c2)) c2" "\<not> pl_depositUsed (cn_pool c) n" "a = pub ! 7" "k = pub ! 0"
    "pub ! 8 = addressHash X t" "abi_words 14 pub" "pl_registrar (cn_pool c) s"
    "x_verifyProof X (pl_depositVerifier (cn_pool c)) prf pub = Some True"
proof -
  note ok = assms [unfolded receiveDeposit_def guard_Ok ext_call_Ok flow_simps sum.inject prod.inject]
  then obtain r c2 where r: "pool_insert X k c = Ok r" "adjustNoteSupply X (pub ! 8) (int256 a) (mark_deposit n (snd r)) = Ok c2"
    "fst r = i" "log_ev (Deposit d n (pub ! 8) a k (fst r) (pool_root c2)) c2 = c'" by blast
  from r(1,3) have "pool_insert X k c = Ok (i, snd r)" by (cases r) simp
  moreover from r(3,4) have "c' = log_ev (Deposit d n (pub ! 8) a k i (pool_root c2)) c2" by blast
  moreover from ok have "\<not> pl_depositUsed (cn_pool c) n" "a = pub ! 7" "k = pub ! 0" "pub ! 8 = addressHash X t" "abi_words 14 pub"
    "pl_registrar (cn_pool c) s" "x_verifyProof X (pl_depositVerifier (cn_pool c)) prf pub = Some True" by metis+
  ultimately show thesis using that r(2) by blast
qed

lemma withdraw_E:
  assumes "withdraw X to prf pub c = Ok c'"
  obtains c1 w c2 where "spend (pl_self (cn_pool c)) (pub ! 0) c = Ok c1"
    "x_transfer X (cn_world c) (pl_assetToken (cn_pool c) (pub ! 17)) (pl_self (cn_pool c)) to (pub ! 2 - pub ! 4) = Some w"
    "adjustNoteSupply X (pub ! 17) (- int256 (pub ! 2)) (c1 \<lparr> cn_world := w \<rparr>) = Ok c2"
    "c' = log_ev (Withdraw to (pub ! 0) (pub ! 2 - pub ! 4) (pub ! 4)) c2" "abi_words 18 pub" "pub ! 4 \<le> pub ! 2" "pub ! 2 \<noteq> 0"
    "pub ! 3 = addressHash X to" "cn_block c \<le> pub ! 5" "isKnownRoot (pl_tree (cn_pool c)) (pub ! 6)"
    "pub ! 7 = pl_associationRoot (cn_pool c)" "x_verifyProof X (pl_withdrawVerifier (cn_pool c)) prf pub = Some True"
  using assms by (auto simp: withdraw_def flow_simps checkDomainCompliance_def getAssetToken_def spend_keeps not_less)

lemma privateTransferSettle_E:
  assumes "privateTransferSettle X s prf pub c = Ok c'"
  obtains c1 i c2 where "spend (pl_self (cn_pool c)) (pub ! 0) c = Ok c1" "pool_insert X (pub ! 1) c1 = Ok (i, c2)"
    "c' = log_ev (Transfer (pub ! 0) (pub ! 1) i (pool_root c2)) c2" "abi_words 9 pub"
  using assms by (auto simp: privateTransferSettle_def flow_simps)

lemma rfqSettle_E:
  assumes "rfqSettle X to q it f key sg prf pub c = Ok c'"
  obtains c1 w c2 where "spend (pl_self (cn_pool c)) (pub ! 0) c = Ok c1"
    "x_transfer X (cn_world c) (pl_assetToken (cn_pool c) (pub ! 17)) (pl_self (cn_pool c)) to (pub ! 2) = Some w"
    "adjustNoteSupply X (pub ! 17) (- int256 (pub ! 2)) (c1 \<lparr> cn_world := w \<rparr>) = Ok c2"
    "c' = log_ev (RfqSettled q to (pub ! 0) (pub ! 2)) c2" "abi_words 18 pub"
    "x_verifyProof X (pl_withdrawVerifier (cn_pool c)) prf pub = Some True"
  using assms by (auto simp: rfqSettle_def flow_simps checkDomainCompliance_def getAssetToken_def spend_keeps)

lemma withdrawCctp_E:
  assumes "withdrawCctp X to r m f prf pub c = Ok (n, c')"
  obtains c1 w1 w2 c2 where "spend (pl_self (cn_pool c)) (pub ! 0) c = Ok c1"
    "x_approve X (cn_world c) (pl_usdcToken (cn_pool c)) (pl_self (cn_pool c)) (pl_tokenMessenger (cn_pool c)) (pub ! 2 + m) = Some w1"
    "x_depositForBurn X w1 (pl_tokenMessenger (cn_pool c)) (pl_self (cn_pool c)) (pub ! 2) (pl_cctpOutboundDomain (cn_pool c)) r
       (pl_usdcToken (cn_pool c)) 0 m f = Some w2"
    "adjustNoteSupply X (pub ! 17) (- int256 (pub ! 2)) (c1 \<lparr> cn_world := w2 \<rparr>) = Ok c2"
    "c' = log_ev (CctpExit (pl_cctpOutboundDomain (cn_pool c)) to (pub ! 0) (pub ! 2)) c2" "abi_words 18 pub"
    "pub ! 17 = addressHash X (pl_usdcToken (cn_pool c))" "n = pub ! 2"
    "x_verifyProof X (pl_withdrawVerifier (cn_pool c)) prf pub = Some True"
  using assms by (auto simp: withdrawCctp_def flow_simps checkDomainCompliance_def spend_keeps)

text \<open>Both committee settlements perform the same operations.\<close>

definition settles_pair :: "'w externals \<Rightarrow> int \<Rightarrow> int list \<Rightarrow> 'w chain \<Rightarrow> 'w chain \<Rightarrow> bool" where
  "settles_pair X b pub c c' \<longleftrightarrow> (\<exists>c1 c2 i c3 j c4. spend (pl_self (cn_pool c)) (pub ! 0) c = Ok c1 \<and>
     spend (pl_self (cn_pool c)) (pub ! 1) c1 = Ok c2 \<and> pool_insert X (pub ! 2) c2 = Ok (i, c3) \<and> pool_insert X (pub ! 3) c3 = Ok (j, c4) \<and>
     c' = log_ev (MpcSettled b (pub ! 0) (pub ! 1) (pub ! 2) (pub ! 3) (pool_root c4)) c4)"

lemma mpcSettle_E:
  assumes "mpcSettle X b ks sgs prf pub c = Ok c'"
  shows "settles_pair X b pub c c'"
    "verifyThreshold (x_ed25519 X (pl_ed25519Verifier (cn_pool c))) (pl_committee (cn_pool c)) b ks sgs = Ok ()"
    "x_verifyProof X (pl_mpcVerifier (cn_pool c)) prf pub = Some True" "pub ! 6 = hashToField X b"
  using assms unfolding settles_pair_def by (fastforce simp: mpcSettle_def flow_simps)+

lemma mpcSettlePriced_E:
  assumes "mpcSettlePriced X b ks sgs prf pub c = Ok c'"
  shows "settles_pair X b pub c c'"
    "verifyThreshold (x_ed25519 X (pl_ed25519Verifier (cn_pool c))) (pl_committee (cn_pool c)) b ks sgs = Ok ()"
    "x_verifyProof X (pl_mpcPricedVerifier (cn_pool c)) prf pub = Some True" "pub ! 6 = hashToField X b"
  using assms unfolding settles_pair_def by (fastforce simp: mpcSettlePriced_def flow_simps)+

definition new_channel :: "int list \<Rightarrow> channel" where
  "new_channel pub = \<lparr> ch_payerAx = pub ! 8, ch_payerAy = pub ! 9, ch_cap = pub ! 10, ch_expiry = pub ! 11, ch_reclaimCommitment = pub ! 2,
     ch_assetId = pub ! 12, ch_opened = True, ch_consumed = False \<rparr>"

lemma es_open_E:
  assumes "es_open X prf pub c = Ok c'"
  obtains c1 i c2 where "spend (es_self (cn_escrow c)) (pub ! 0) c = Ok c1"
    "streamInsert X (es_self (cn_escrow c)) (pub ! 12) (pub ! 1) (- int256 (pub ! 10))
       (set_escrow (\<lambda>e. e \<lparr> es_channels := (es_channels e)(pub ! 7 := new_channel pub) \<rparr>) c1) = Ok (i, c2)"
    "c' = log_ev (ChannelOpened (pub ! 7) (pub ! 10) (pub ! 11) (pub ! 1)) c2" "abi_words 13 pub"
    "\<not> ch_opened (es_channels (cn_escrow c) (pub ! 7))" "x_verifyProof X (es_openVerifier (cn_escrow c)) prf pub = Some True"
  using assms by (auto simp: es_open_def flow_simps new_channel_def)

lemma es_settle_one_E:
  assumes "es_settle_one X prf pub c = Ok c'"
  obtains ch i c1 j c2 where "ch = es_channels (cn_escrow c) (pub ! 5)" "ch_opened ch" "\<not> ch_consumed ch" "pub ! 9 \<le> ch_cap ch"
    "streamInsert X (es_self (cn_escrow c)) (ch_assetId ch) (pub ! 0) (int256 (pub ! 9)) (consume (pub ! 5) c) = Ok (i, c1)"
    "streamInsert X (es_self (cn_escrow c)) (ch_assetId ch) (pub ! 1) (int256 (ch_cap ch - pub ! 9)) c1 = Ok (j, c2)"
    "c' = log_ev (ChannelSettled (pub ! 5) (pub ! 9) (pub ! 0) (pub ! 1)) c2"
    "pub ! 6 = ch_payerAx ch" "pub ! 7 = ch_payerAy ch" "pub ! 8 = ch_cap ch" "pub ! 10 = ch_assetId ch"
    "x_verifyProof X (es_settleVerifier (cn_escrow c)) prf pub = Some True"
  using assms by (auto simp: es_settle_one_def flow_simps)

lemma reclaim_E:
  assumes "reclaim X k c = Ok c'"
  obtains ch i c1 where "ch = es_channels (cn_escrow c) k" "ch_opened ch" "\<not> ch_consumed ch"
    "ch_expiry ch + es_challengeWindow (cn_escrow c) < cn_block c"
    "streamInsert X (es_self (cn_escrow c)) (ch_assetId ch) (ch_reclaimCommitment ch) (int256 (ch_cap ch)) (consume k c) = Ok (i, c1)"
    "c' = log_ev (ChannelReclaimed k (ch_cap ch) (ch_reclaimCommitment ch)) c1"
  using assms by (auto simp: reclaim_def flow_simps not_le)

end
