(* ===== verification/PoolSafety.thy ===== *)
theory PoolSafety
  imports Pool
begin

text \<open>
  What the settlement contracts of theory \<open>Pool\<close> guarantee over every history of calls: notes are spent once, channels are opened
  once and closed once, the tree holds exactly the announced commitments, the note supply plus the reserved channel caps moves only by
  deposits and withdrawals, and the supply of every asset stays covered by the vault.
\<close>

section \<open>Reading the log\<close>

fun nullifier_of :: "log_event \<Rightarrow> int list" where
  "nullifier_of (NullifierSpent _ n) = [n]"
| "nullifier_of _ = []"

text \<open>The nullifiers an event reports as settled by the pool.\<close>

fun settled_of :: "log_event \<Rightarrow> int list" where
  "settled_of (Withdraw _ n _ _) = [n]"
| "settled_of (Transfer n _ _ _) = [n]"
| "settled_of (RfqSettled _ _ n _) = [n]"
| "settled_of (CctpExit _ _ n _) = [n]"
| "settled_of (MpcSettled _ a b _ _ _) = [a, b]"
| "settled_of _ = []"

text \<open>The commitments an event announces, in the order they enter the tree. A reclaimed note was announced by the open proof.\<close>

fun leaves_of :: "log_event \<Rightarrow> int list" where
  "leaves_of (Deposit _ _ _ _ k _ _) = [k]"
| "leaves_of (Transfer _ k _ _) = [k]"
| "leaves_of (MpcSettled _ _ _ k k' _) = [k, k']"
| "leaves_of (ChannelOpened _ _ _ k) = [k]"
| "leaves_of (ChannelSettled _ _ k k') = [k, k']"
| "leaves_of (ChannelReclaimed _ _ k) = [k]"
| "leaves_of _ = []"

fun opened_of :: "log_event \<Rightarrow> int list" where
  "opened_of (ChannelOpened i _ _ _) = [i]"
| "opened_of _ = []"

fun closed_of :: "log_event \<Rightarrow> int list" where
  "closed_of (ChannelSettled i _ _ _) = [i]"
| "closed_of (ChannelReclaimed i _ _) = [i]"
| "closed_of _ = []"

definition logged :: "(log_event \<Rightarrow> int list) \<Rightarrow> log_event list \<Rightarrow> int list" where
  "logged f es = concat (map f es)"

lemma logged_simps [simp]: "logged f [] = []" "logged f (e # es) = f e @ logged f es" "logged f (es @ fs) = logged f es @ logged f fs"
  by (simp_all add: logged_def)

text \<open>The effect of a call on what the log is about: the events \<open>es\<close> it emits say which nullifiers were spent, which leaves were
  inserted and which channels were opened and closed.\<close>

definition spends :: "log_event list \<Rightarrow> 'w chain \<Rightarrow> 'w chain \<Rightarrow> bool" where
  "spends es c c' \<longleftrightarrow>
    nr_spent (cn_registry c') = (\<lambda>n. nr_spent (cn_registry c) n \<or> n \<in> set (logged nullifier_of es)) \<and>
    distinct (logged nullifier_of es) \<and> (\<forall>n\<in>set (logged nullifier_of es). \<not> nr_spent (cn_registry c) n) \<and>
    distinct (logged settled_of es) \<and> set (logged settled_of es) \<subseteq> set (logged nullifier_of es)"

definition moves_channels :: "log_event list \<Rightarrow> 'w chain \<Rightarrow> 'w chain \<Rightarrow> bool" where
  "moves_channels es c c' \<longleftrightarrow>
    (\<forall>k. ch_opened (es_channels (cn_escrow c') k) \<longleftrightarrow> ch_opened (es_channels (cn_escrow c) k) \<or> k \<in> set (logged opened_of es)) \<and>
    (\<forall>k. ch_consumed (es_channels (cn_escrow c') k) \<longleftrightarrow>
       (ch_consumed (es_channels (cn_escrow c) k) \<and> k \<notin> set (logged opened_of es)) \<or> k \<in> set (logged closed_of es)) \<and>
    distinct (logged opened_of es) \<and> (\<forall>k\<in>set (logged opened_of es). \<not> ch_opened (es_channels (cn_escrow c) k)) \<and>
    distinct (logged closed_of es) \<and>
    (\<forall>k\<in>set (logged closed_of es). ch_opened (es_channels (cn_escrow c) k) \<and> \<not> ch_consumed (es_channels (cn_escrow c) k))"

definition log_effect :: "log_event list \<Rightarrow> 'w chain \<Rightarrow> 'w chain \<Rightarrow> bool" where
  "log_effect es c c' \<longleftrightarrow> cn_log c' = cn_log c @ es \<and> spends es c c' \<and> moves_channels es c c'"

definition effect :: "'w externals \<Rightarrow> log_event list \<Rightarrow> 'w chain \<Rightarrow> 'w chain \<Rightarrow> bool" where
  "effect X es c c' \<longleftrightarrow> log_effect es c c' \<and>
    insert_all (x_poseidon X) (logged leaves_of es) (pl_tree (cn_pool c)) = Ok (pl_tree (cn_pool c'))"

lemmas effect_defs = effect_def log_effect_def spends_def moves_channels_def

lemma insert_all_append: "insert_all pos (xs @ ys) t = res_bind (insert_all pos xs t) (insert_all pos ys)"
proof (induction xs arbitrary: t)
  case (Cons x xs)
  show ?case by (cases "frontier_insert pos x t") (auto simp: Cons.IH)
qed simp

text \<open>Effects compose.\<close>

lemma spends_trans:
  assumes "spends es c c1" "spends fs c1 c2"
  shows "spends (es @ fs) c c2"
proof -
  have "\<forall>n\<in>set (logged nullifier_of fs). n \<notin> set (logged nullifier_of es) \<and> \<not> nr_spent (cn_registry c) n"
    using assms unfolding spends_def by simp
  then show ?thesis using assms unfolding spends_def by (auto simp: disjoint_iff)
qed

lemma moves_channels_trans:
  assumes "moves_channels es c c1" "moves_channels fs c1 c2" "logged opened_of es = []" "logged opened_of fs = []"
  shows "moves_channels (es @ fs) c c2"
  using assms unfolding moves_channels_def by (simp add: disjoint_iff) blast

lemma effect_trans:
  assumes "effect X es c c1" "effect X fs c1 c2" "logged opened_of es = []" "logged opened_of fs = []"
  shows "effect X (es @ fs) c c2"
proof -
  have "spends (es @ fs) c c2" "moves_channels (es @ fs) c c2"
    using assms spends_trans [of es c c1 fs c2] moves_channels_trans [of es c c1 fs c2] unfolding effect_def log_effect_def by blast+
  then show ?thesis using assms(1,2) unfolding effect_def log_effect_def by (simp add: insert_all_append)
qed

lemma quiet_effect:
  assumes "cn_log c' = cn_log c @ es" "logged nullifier_of es = []" "logged settled_of es = []" "logged leaves_of es = []"
    "logged opened_of es = []" "logged closed_of es = []"
    "nr_spent (cn_registry c') = nr_spent (cn_registry c)" "pl_tree (cn_pool c') = pl_tree (cn_pool c)"
    "es_channels (cn_escrow c') = es_channels (cn_escrow c)"
  shows "effect X es c c'"
  using assms unfolding effect_defs by simp

section \<open>Effects of the calls\<close>

lemma spend_effect: "spend s n c = Ok c' \<Longrightarrow> effect X [NullifierSpent s n] c c'"
  by (auto simp: effect_defs spend_Ok chain_defs)

text \<open>A settled note: one nullifier, then work that spends nothing, then the event.\<close>

lemma spend_then_effect:
  assumes "spend s n c = Ok c1" "cn_log c2 = cn_log c1" "nr_spent (cn_registry c2) = nr_spent (cn_registry c1)"
    "es_channels (cn_escrow c2) = es_channels (cn_escrow c1)"
    "insert_all (x_poseidon X) (leaves_of e) (pl_tree (cn_pool c)) = Ok (pl_tree (cn_pool c2))"
    "settled_of e = [n]" "nullifier_of e = []" "opened_of e = []" "closed_of e = []"
  shows "effect X [NullifierSpent s n, e] c (log_ev e c2)"
  using assms spend_keeps [OF assms(1)] by (auto simp: effect_defs spend_Ok chain_defs)

lemma withdraw_effect:
  assumes "withdraw X to prf pub c = Ok c'"
  shows "\<exists>es. effect X es c c'"
proof (rule withdraw_E [OF assms])
  fix c1 w c2
  assume a: "spend (pl_self (cn_pool c)) (pub ! 0) c = Ok c1"
    "adjustNoteSupply X (pub ! 17) (- int256 (pub ! 2)) (c1 \<lparr> cn_world := w \<rparr>) = Ok c2"
    "c' = log_ev (Withdraw to (pub ! 0) (pub ! 2 - pub ! 4) (pub ! 4)) c2"
  show ?thesis unfolding a(3)
    by (rule exI, rule spend_then_effect [OF a(1)]) (use spend_keeps [OF a(1)] adjustNoteSupply_keeps [OF a(2)] in simp_all)
qed

lemma rfqSettle_effect:
  assumes "rfqSettle X to q it f key sg prf pub c = Ok c'"
  shows "\<exists>es. effect X es c c'"
proof (rule rfqSettle_E [OF assms])
  fix c1 w c2
  assume a: "spend (pl_self (cn_pool c)) (pub ! 0) c = Ok c1"
    "adjustNoteSupply X (pub ! 17) (- int256 (pub ! 2)) (c1 \<lparr> cn_world := w \<rparr>) = Ok c2"
    "c' = log_ev (RfqSettled q to (pub ! 0) (pub ! 2)) c2"
  show ?thesis unfolding a(3)
    by (rule exI, rule spend_then_effect [OF a(1)]) (use spend_keeps [OF a(1)] adjustNoteSupply_keeps [OF a(2)] in simp_all)
qed

lemma withdrawCctp_effect:
  assumes "withdrawCctp X to r m f prf pub c = Ok (n, c')"
  shows "\<exists>es. effect X es c c'"
proof (rule withdrawCctp_E [OF assms])
  fix c1 w1 w2 c2
  assume a: "spend (pl_self (cn_pool c)) (pub ! 0) c = Ok c1"
    "adjustNoteSupply X (pub ! 17) (- int256 (pub ! 2)) (c1 \<lparr> cn_world := w2 \<rparr>) = Ok c2"
    "c' = log_ev (CctpExit (pl_cctpOutboundDomain (cn_pool c)) to (pub ! 0) (pub ! 2)) c2"
  show ?thesis unfolding a(3)
    by (rule exI, rule spend_then_effect [OF a(1)]) (use spend_keeps [OF a(1)] adjustNoteSupply_keeps [OF a(2)] in simp_all)
qed

lemma privateTransferSettle_effect:
  assumes "privateTransferSettle X s prf pub c = Ok c'"
  shows "\<exists>es. effect X es c c'"
proof (rule privateTransferSettle_E [OF assms])
  fix c1 i c2
  assume a: "spend (pl_self (cn_pool c)) (pub ! 0) c = Ok c1" "pool_insert X (pub ! 1) c1 = Ok (i, c2)"
    "c' = log_ev (Transfer (pub ! 0) (pub ! 1) i (pool_root c2)) c2"
  show ?thesis unfolding a(3)
    by (rule exI, rule spend_then_effect [OF a(1)]) (use spend_keeps [OF a(1)] pool_insert_keeps [OF a(2)] in simp_all)
qed

lemma settles_pair_effect:
  assumes "settles_pair X b pub c c'"
  shows "\<exists>es. effect X es c c'"
proof -
  let ?s = "pl_self (cn_pool c)"
  from assms obtain c1 c2 i c3 j c4 where a: "spend ?s (pub ! 0) c = Ok c1" "spend ?s (pub ! 1) c1 = Ok c2"
    "pool_insert X (pub ! 2) c2 = Ok (i, c3)" "pool_insert X (pub ! 3) c3 = Ok (j, c4)"
    "c' = log_ev (MpcSettled b (pub ! 0) (pub ! 1) (pub ! 2) (pub ! 3) (pool_root c4)) c4"
    unfolding settles_pair_def by blast
  note keeps = spend_keeps [OF a(1)] spend_keeps [OF a(2)] pool_insert_keeps [OF a(3)] pool_insert_keeps [OF a(4)]
  have fresh: "\<not> nr_spent (cn_registry c) (pub ! 0)" "\<not> nr_spent (cn_registry c) (pub ! 1)" "pub ! 0 \<noteq> pub ! 1"
    using a(1,2) keeps(6) by (auto simp: spend_Ok chain_defs split: if_splits)
  have "effect X [NullifierSpent ?s (pub ! 0), NullifierSpent ?s (pub ! 1),
      MpcSettled b (pub ! 0) (pub ! 1) (pub ! 2) (pub ! 3) (pool_root c4)] c c'"
    using keeps fresh by (auto simp: effect_defs a(5) log_ev_def fun_eq_iff)
  then show ?thesis by blast
qed

lemma receiveDeposit_effect:
  assumes "receiveDeposit X s d n t a k e y prf pub c = Ok (i, c')"
  shows "\<exists>es. effect X es c c'"
proof (rule receiveDeposit_E [OF assms])
  fix c1 c2
  assume a: "pool_insert X k c = Ok (i, c1)" "adjustNoteSupply X (pub ! 8) (int256 a) (mark_deposit n c1) = Ok c2"
    "c' = log_ev (Deposit d n (pub ! 8) a k i (pool_root c2)) c2"
  note keeps = pool_insert_keeps [OF a(1)] adjustNoteSupply_keeps [OF a(2)]
  have "effect X [Deposit d n (pub ! 8) a k i (pool_root c2)] c c'"
    using keeps by (simp add: effect_defs a(3) log_ev_def mark_deposit_def set_pool_def)
  then show ?thesis by blast
qed

lemma es_open_effect:
  fixes c :: "'w chain"
  assumes "es_open X prf pub c = Ok c'"
  shows "\<exists>es. effect X es c c'"
proof (rule es_open_E [OF assms])
  fix c1 c2 :: "'w chain" and i
  let ?s = "es_self (cn_escrow c)"
  let ?c1 = "set_escrow (\<lambda>e. e \<lparr> es_channels := (es_channels e)(pub ! 7 := new_channel pub) \<rparr>) c1"
  assume a: "spend ?s (pub ! 0) c = Ok c1"
    "streamInsert X ?s (pub ! 12) (pub ! 1) (- int256 (pub ! 10)) ?c1 = Ok (i, c2)"
    "c' = log_ev (ChannelOpened (pub ! 7) (pub ! 10) (pub ! 11) (pub ! 1)) c2"
    "\<not> ch_opened (es_channels (cn_escrow c) (pub ! 7))"
  note keeps = spend_keeps [OF a(1)] streamInsert_keeps [OF a(2)]
  have fresh: "\<not> nr_spent (cn_registry c) (pub ! 0)" using a(1) by (simp add: spend_Ok)
  have "effect X [NullifierSpent ?s (pub ! 0), ChannelOpened (pub ! 7) (pub ! 10) (pub ! 11) (pub ! 1)] c c'"
    using keeps fresh a(4) by (auto simp: effect_defs a(3) log_ev_def set_escrow_def new_channel_def)
  then show ?thesis by blast
qed

lemma es_settle_one_effect:
  assumes "es_settle_one X prf pub c = Ok c'"
  shows "\<exists>es. effect X es c c' \<and> logged opened_of es = []"
proof (rule es_settle_one_E [OF assms])
  fix ch i c1 j c2
  let ?s = "es_self (cn_escrow c)"
  assume a: "ch = es_channels (cn_escrow c) (pub ! 5)" "ch_opened ch" "\<not> ch_consumed ch"
    "streamInsert X ?s (ch_assetId ch) (pub ! 0) (int256 (pub ! 9)) (consume (pub ! 5) c) = Ok (i, c1)"
    "streamInsert X ?s (ch_assetId ch) (pub ! 1) (int256 (ch_cap ch - pub ! 9)) c1 = Ok (j, c2)"
    "c' = log_ev (ChannelSettled (pub ! 5) (pub ! 9) (pub ! 0) (pub ! 1)) c2"
  note keeps = streamInsert_keeps [OF a(4)] streamInsert_keeps [OF a(5)]
  have "effect X [ChannelSettled (pub ! 5) (pub ! 9) (pub ! 0) (pub ! 1)] c c'"
    using keeps a(1-3) by (auto simp: effect_defs a(6) log_ev_def set_escrow_def consume_def)
  then show ?thesis by (intro exI [of _ "[ChannelSettled (pub ! 5) (pub ! 9) (pub ! 0) (pub ! 1)]"]) simp
qed

lemma settle_loop_effect:
  "settle_loop X xs c = Ok c' \<Longrightarrow> \<exists>es. effect X es c c' \<and> logged opened_of es = []"
proof (induction X xs c arbitrary: c' rule: settle_loop.induct)
  case (1 X c)
  have "effect X [] c c" by (rule quiet_effect) simp_all
  then show ?case using 1 by (intro exI [of _ "[]"]) simp
next
  case (2 X p pub rest c)
  then obtain c1 where c1: "es_settle_one X p pub c = Ok c1" "settle_loop X rest c1 = Ok c'" by (auto simp: res_bind_eq_Inr)
  from es_settle_one_effect [OF c1(1)] obtain es where es: "effect X es c c1" "logged opened_of es = []" by blast
  from "2.IH" [OF c1(2)] obtain fs where fs: "effect X fs c1 c'" "logged opened_of fs = []" by blast
  from effect_trans [OF es(1) fs(1) es(2) fs(2)] es(2) fs(2) show ?case by (intro exI [of _ "es @ fs"]) simp
qed

lemma reclaim_effect:
  assumes "reclaim X k c = Ok c'"
  shows "\<exists>es. effect X es c c'"
proof (rule reclaim_E [OF assms])
  fix ch i c1
  let ?s = "es_self (cn_escrow c)"
  assume a: "ch = es_channels (cn_escrow c) k" "ch_opened ch" "\<not> ch_consumed ch"
    "streamInsert X ?s (ch_assetId ch) (ch_reclaimCommitment ch) (int256 (ch_cap ch)) (consume k c) = Ok (i, c1)"
    "c' = log_ev (ChannelReclaimed k (ch_cap ch) (ch_reclaimCommitment ch)) c1"
  note keeps = streamInsert_keeps [OF a(4)]
  have "effect X [ChannelReclaimed k (ch_cap ch) (ch_reclaimCommitment ch)] c c'"
    using keeps a(1-3) by (auto simp: effect_defs a(5) log_ev_def set_escrow_def consume_def)
  then show ?thesis by blast
qed

text \<open>Every call: \<open>streamInsert\<close> from outside is the only one that can add a leaf without announcing it, and only an authorised stream
  contract can make it.\<close>

lemma put_verifier_tree [simp]: "pl_tree (put_verifier sl v p) = pl_tree p"
  by (cases sl) simp_all

lemma quiet_calls:
  "registry_pause s c = Ok c' \<Longrightarrow> effect X [] c c'"
  "registry_unpause s c = Ok c' \<Longrightarrow> effect X [] c c'"
  "setAuthorizedSolver s k b c = Ok c' \<Longrightarrow> effect X [] c c'"
  "setCctpConfig s m u d c = Ok c' \<Longrightarrow> effect X [] c c'"
  "setVerifier s sl v c = Ok c' \<Longrightarrow> effect X [] c c'"
  "pool_pause s c = Ok c' \<Longrightarrow> effect X [] c c'"
  "pool_unpause s c = Ok c' \<Longrightarrow> effect X [] c c'"
  "setOpenVerifier s v c = Ok c' \<Longrightarrow> effect X [] c c'"
  "setSettleVerifier s v c = Ok c' \<Longrightarrow> effect X [] c c'"
  "escrow_pause s c = Ok c' \<Longrightarrow> effect X [] c c'"
  "escrow_unpause s c = Ok c' \<Longrightarrow> effect X [] c c'"
  by (rule quiet_effect; auto simp: registry_pause_def registry_unpause_def setAuthorizedSolver_def setCctpConfig_def
     setVerifier_def pool_pause_def pool_unpause_def setOpenVerifier_def setSettleVerifier_def escrow_pause_def escrow_unpause_def
     only_admin_def chain_defs)+

lemma exec_effect:
  assumes "exec X s f c = Ok c'" "\<nexists>a k d. f = CallStreamInsert a k d"
  shows "\<exists>es. effect X es c c'"
proof (cases f)
  case (CallStreamInsert a k d)
  then show ?thesis using assms(2) by simp
next
  case (CallDeposit d n t a k e y p pub)
  then show ?thesis using assms(1) receiveDeposit_effect by (auto simp: res_bind_eq_Inr)
next
  case (CallWithdrawCctp to r m g p pub)
  then show ?thesis using assms(1) withdrawCctp_effect by (auto simp: res_bind_eq_Inr)
next
  case (CallMpcSettle b ks sgs p pub)
  then show ?thesis using assms(1) mpcSettle_E(1) settles_pair_effect by fastforce
next
  case (CallMpcSettlePriced b ks sgs p pub)
  then show ?thesis using assms(1) mpcSettlePriced_E(1) settles_pair_effect by fastforce
next
  case (CallSettle p pub)
  then show ?thesis using assms(1) es_settle_one_effect by (fastforce simp: es_settle_def)
next
  case (CallSettleBatch ps pubs)
  then show ?thesis using assms(1) settle_loop_effect by (fastforce simp: settleBatch_def)
next
  case (CallRegisterAsset a t)
  then show ?thesis using assms(1)
    by (intro exI [of _ "[AssetRegistered a t]"] quiet_effect) (auto simp: registerAsset_def only_admin_def chain_defs)
next
  case (CallSetAssociationRoot r)
  then show ?thesis using assms(1)
    by (intro exI [of _ "[AssociationRootSet r (pl_associationRootVersion (cn_pool c) + 1)]"] quiet_effect)
      (auto simp: setAssociationRoot_def only_admin_def chain_defs Let_def)
next
  case (CallSetCommittee ks)
  then show ?thesis using assms(1)
    by (intro exI [of _ "[CommitteeSet (length ks)]"] quiet_effect) (auto simp: setCommittee_def only_admin_def chain_defs)
next
  case (CallSetStream a b)
  then show ?thesis using assms(1)
    by (intro exI [of _ "[StreamContractSet a b]"] quiet_effect) (auto simp: setAuthorizedStreamContract_def only_admin_def chain_defs)
next
  case (CallSetSpender a b)
  then show ?thesis using assms(1)
    by (intro exI [of _ "[AuthorizedSpenderSet a b]"] quiet_effect) (auto simp: setAuthorizedSpender_def chain_defs)
next
  case (CallSpend n)
  then show ?thesis using assms(1) spend_effect by fastforce
next
  case (CallWithdraw to p pub)
  then show ?thesis using assms(1) withdraw_effect by fastforce
next
  case (CallTransfer p pub)
  then show ?thesis using assms(1) privateTransferSettle_effect by fastforce
next
  case (CallRfqSettle to q i g k sg p pub)
  then show ?thesis using assms(1) rfqSettle_effect by fastforce
next
  case (CallOpen p pub)
  then show ?thesis using assms(1) es_open_effect by fastforce
next
  case (CallReclaim i)
  then show ?thesis using assms(1) reclaim_effect by fastforce
qed (use assms(1) in \<open>simp, blast intro: quiet_calls\<close>)+


lemma exec_log_effect:
  assumes "exec X s f c = Ok c'"
  shows "\<exists>es. log_effect es c c'"
proof (cases "\<exists>a k d. f = CallStreamInsert a k d")
  case True
  then obtain a k d i where "streamInsert X s a k d c = Ok (i, c')" using assms by (auto simp: res_bind_eq_Inr)
  from streamInsert_keeps [OF this] have "log_effect [] c c'" by (simp add: log_effect_def spends_def moves_channels_def)
  then show ?thesis by blast
next
  case False
  then show ?thesis using exec_effect [OF assms] unfolding effect_def by blast
qed


section \<open>Spent once, opened once, closed once\<close>

definition log_inv :: "'w chain \<Rightarrow> bool" where
  "log_inv c \<longleftrightarrow> distinct (logged nullifier_of (cn_log c)) \<and> (\<forall>n. isSpent n c \<longleftrightarrow> n \<in> set (logged nullifier_of (cn_log c))) \<and>
    distinct (logged settled_of (cn_log c)) \<and> set (logged settled_of (cn_log c)) \<subseteq> set (logged nullifier_of (cn_log c)) \<and>
    distinct (logged opened_of (cn_log c)) \<and> (\<forall>k. ch_opened (es_channels (cn_escrow c) k) \<longleftrightarrow> k \<in> set (logged opened_of (cn_log c))) \<and>
    distinct (logged closed_of (cn_log c)) \<and> (\<forall>k. ch_consumed (es_channels (cn_escrow c) k) \<longleftrightarrow> k \<in> set (logged closed_of (cn_log c))) \<and>
    set (logged closed_of (cn_log c)) \<subseteq> set (logged opened_of (cn_log c))"

lemma log_inv_effect:
  assumes "log_inv c" "log_effect es c c'"
  shows "log_inv c'"
proof -
  have L: "cn_log c' = cn_log c @ es" and sp: "spends es c c'" and mv: "moves_channels es c c'"
    using assms(2) by (simp_all add: log_effect_def)
  have fresh: "\<forall>n\<in>set (logged nullifier_of es). n \<notin> set (logged nullifier_of (cn_log c))"
    using sp assms(1) by (simp add: spends_def log_inv_def isSpent_def)
  have opened: "\<forall>k\<in>set (logged opened_of es). k \<notin> set (logged opened_of (cn_log c))"
    using mv assms(1) by (simp add: moves_channels_def log_inv_def)
  have closed: "\<forall>k\<in>set (logged closed_of es). k \<notin> set (logged closed_of (cn_log c)) \<and> k \<in> set (logged opened_of (cn_log c))"
    using mv assms(1) by (simp add: moves_channels_def log_inv_def)
  have "distinct (logged nullifier_of (cn_log c'))" "distinct (logged settled_of (cn_log c'))"
    "set (logged settled_of (cn_log c')) \<subseteq> set (logged nullifier_of (cn_log c'))"
    "\<forall>n. isSpent n c' \<longleftrightarrow> n \<in> set (logged nullifier_of (cn_log c'))"
    using assms(1) sp fresh unfolding L spends_def log_inv_def isSpent_def by (simp_all add: disjoint_iff) blast+
  moreover have "distinct (logged opened_of (cn_log c'))" "distinct (logged closed_of (cn_log c'))"
    "set (logged closed_of (cn_log c')) \<subseteq> set (logged opened_of (cn_log c'))"
    "\<forall>k. ch_opened (es_channels (cn_escrow c') k) \<longleftrightarrow> k \<in> set (logged opened_of (cn_log c'))"
    "\<forall>k. ch_consumed (es_channels (cn_escrow c') k) \<longleftrightarrow> k \<in> set (logged closed_of (cn_log c'))"
    using assms(1) mv opened closed unfolding L moves_channels_def log_inv_def by (simp_all add: disjoint_iff) blast+
  ultimately show ?thesis unfolding log_inv_def by blast
qed

lemma deploy_facts:
  assumes "deploy X d b w = Ok c"
  shows "cn_log c = []" "cn_registry c = new_registry (dp_admin d)" "cn_escrow c = new_escrow (dp_escrow d) (dp_admin d) (dp_window d)"
    "new_frontier (x_poseidon X) (dp_treeDepth d) = Ok (pl_tree (cn_pool c))" "pl_noteSupplyOf (cn_pool c) = (\<lambda>_. 0)"
    "pl_assetToken (cn_pool c) = (\<lambda>_. 0)" "pl_authorizedStreamContract (cn_pool c) = (\<lambda>_. False)"
  using assms by (auto simp: deploy_def new_pool_def res_bind_eq_Inr split: sum.splits)

interpretation log_invariant: chain_invariant X P "\<lambda>_. log_inv"
proof
  show "log_inv c" if "deploy X d b w = Ok c" for d b w c
    using deploy_facts [OF that] by (simp add: log_inv_def isSpent_def new_registry_def new_escrow_def closed_channel_def)
  show "log_inv c'" if "log_inv c" "exec X s f c = Ok c'" for c c' s f
    using exec_log_effect [OF that(2)] log_inv_effect [OF that(1)] by blast
qed (simp_all add: log_inv_def isSpent_def)


section \<open>The tree\<close>

text \<open>The policy under which the log announces every leaf: only the escrow may be made a stream contract.\<close>

definition escrow_only :: "'w chain \<Rightarrow> call \<Rightarrow> bool" where
  "escrow_only c f = (case f of CallSetStream a b \<Rightarrow> b \<longrightarrow> a = es_self (cn_escrow c) | _ \<Rightarrow> True)"

definition only_escrow_streams :: "'w chain \<Rightarrow> bool" where
  "only_escrow_streams c \<longleftrightarrow> (\<forall>a. pl_authorizedStreamContract (cn_pool c) a \<longrightarrow> a = es_self (cn_escrow c))"

lemma put_verifier_keeps [simp]:
  "pl_authorizedStreamContract (put_verifier sl v p) = pl_authorizedStreamContract p" "pl_self (put_verifier sl v p) = pl_self p"
  "pl_noteSupplyOf (put_verifier sl v p) = pl_noteSupplyOf p" "pl_assetToken (put_verifier sl v p) = pl_assetToken p"
  by (cases sl; simp)+

lemma frontier_insert_inv:
  assumes "frontier_of pos xs t" "frontier_insert pos x t = Ok (i, t')"
  shows "frontier_of pos (xs @ [x]) t'" "fr_levels t' = fr_levels t"
proof -
  have x: "x < BN254_FIELD_MODULUS" and full: "fr_next t \<noteq> 2 ^ fr_levels t"
    using assms(2) by (auto simp: frontier_insert_def split: if_splits)
  have "length xs < 2 ^ fr_levels t" using assms(1) full unfolding frontier_of_def by linarith
  from frontier_insert_of [OF assms(1) x this] show "frontier_of pos (xs @ [x]) t'" "fr_levels t' = fr_levels t" using assms(2) by auto
qed

lemma insert_all_inv:
  "insert_all pos ys t = Ok t' \<Longrightarrow> frontier_of pos xs t \<Longrightarrow> frontier_of pos (xs @ ys) t' \<and> fr_levels t' = fr_levels t"
proof (induction ys arbitrary: xs t)
  case (Cons y ys)
  from Cons.prems(1) obtain i t1 where t1: "frontier_insert pos y t = Ok (i, t1)" "insert_all pos ys t1 = Ok t'"
    by (auto simp: res_bind_eq_Inr)
  from Cons.IH [OF t1(2) frontier_insert_inv(1) [OF Cons.prems(2) t1(1)]] frontier_insert_inv(2) [OF Cons.prems(2) t1(1)]
  show ?case by simp
qed simp

text \<open>The roots the contract knows are the roots the tree has had.\<close>

definition past_roots :: "poseidon \<Rightarrow> int list \<Rightarrow> frontier \<Rightarrow> bool" where
  "past_roots pos xs t \<longleftrightarrow> (\<forall>r. fr_known t r \<longrightarrow> (\<exists>n\<le>length xs. r = node_at (tree_hash pos) (leaf_fun (take n xs)) (fr_levels t) 0))"

lemma frontier_insert_known:
  assumes "frontier_insert pos x t = Ok (i, t')"
  shows "fr_known t' r \<Longrightarrow> fr_known t r \<or> r = getRoot t'"
  using assms by (auto simp: frontier_insert_def getRoot_def Let_def split: if_splits prod.splits)

lemma past_roots_insert:
  assumes "frontier_of pos xs t" "past_roots pos xs t" "frontier_insert pos x t = Ok (i, t')"
  shows "past_roots pos (xs @ [x]) t'"
  unfolding past_roots_def
proof (intro allI impI)
  fix r
  note f = frontier_insert_inv [OF assms(1,3)]
  assume "fr_known t' r"
  then consider "fr_known t r" | "r = getRoot t'" using frontier_insert_known [OF assms(3)] by blast
  then show "\<exists>n\<le>length (xs @ [x]). r = node_at (tree_hash pos) (leaf_fun (take n (xs @ [x]))) (fr_levels t') 0"
  proof cases
    case 1
    then obtain n where n: "n \<le> length xs" "r = node_at (tree_hash pos) (leaf_fun (take n xs)) (fr_levels t) 0"
      using assms(2) unfolding past_roots_def by blast
    then show ?thesis using f(2) by (intro exI [of _ n]) simp
  next
    case 2
    then show ?thesis using f(1) unfolding frontier_of_def by (intro exI [of _ "length (xs @ [x])"]) simp
  qed
qed

lemma past_roots_all:
  "insert_all pos ys t = Ok t' \<Longrightarrow> frontier_of pos xs t \<Longrightarrow> past_roots pos xs t \<Longrightarrow> past_roots pos (xs @ ys) t'"
proof (induction ys arbitrary: xs t)
  case (Cons y ys)
  from Cons.prems(1) obtain i t1 where t1: "frontier_insert pos y t = Ok (i, t1)" "insert_all pos ys t1 = Ok t'"
    by (auto simp: res_bind_eq_Inr)
  from Cons.IH [OF t1(2) frontier_insert_inv(1) [OF Cons.prems(2) t1(1)] past_roots_insert [OF Cons.prems(2,3) t1(1)]]
  show ?case by simp
qed simp

lemma new_frontier_known:
  assumes "new_frontier pos levels = Ok t" "frontier_of pos [] t"
  shows "past_roots pos [] t"
  using assms by (auto simp: past_roots_def frontier_of_def new_frontier_def getRoot_def Let_def split: if_splits prod.splits)


section \<open>What only the administrator changes\<close>

definition statics :: "'w chain \<Rightarrow> (account \<times> account \<times> (int \<Rightarrow> account) \<times> (account \<Rightarrow> bool)) \<times> account \<times> account \<times> account \<times> account" where
  "statics c = ((pl_self (cn_pool c), es_self (cn_escrow c), pl_assetToken (cn_pool c), pl_authorizedStreamContract (cn_pool c)),
     pl_withdrawVerifier (cn_pool c), pl_depositVerifier (cn_pool c), es_openVerifier (cn_escrow c), es_settleVerifier (cn_escrow c))"

lemma statics_prims [simp]:
  "statics (log_ev e c) = statics c" "statics (consume k c) = statics c" "statics (mark_deposit n c) = statics c"
  "statics (c \<lparr> cn_world := w \<rparr>) = statics c" "statics (c \<lparr> cn_block := b \<rparr>) = statics c"
  "statics (set_escrow (\<lambda>e. e \<lparr> es_channels := g e \<rparr>) c) = statics c"
  by (simp_all add: statics_def chain_defs)

lemma statics_ops:
  "spend s n c = Ok c' \<Longrightarrow> statics c' = statics c"
  "pool_insert X k c = Ok (i, c') \<Longrightarrow> statics c' = statics c"
  "adjustNoteSupply X a d c = Ok c' \<Longrightarrow> statics c' = statics c"
  by (auto simp: statics_def spend_Ok pool_insert_Ok adjustNoteSupply_Ok chain_defs)

lemma statics_streamInsert: "streamInsert X s a k d c = Ok (i, c') \<Longrightarrow> statics c' = statics c"
  by (auto simp: streamInsert_Ok statics_ops dest: statics_ops split: if_splits)

lemma statics_settles: "settles_pair X b pub c c' \<Longrightarrow> statics c' = statics c"
  unfolding settles_pair_def by (elim exE conjE) (simp add: statics_ops)

lemma statics_settle_one: "es_settle_one X p pub c = Ok c' \<Longrightarrow> statics c' = statics c"
  by (erule es_settle_one_E) (simp add: statics_streamInsert)

lemma statics_settle_loop: "settle_loop X xs c = Ok c' \<Longrightarrow> statics c' = statics c"
  by (induction X xs c arbitrary: c' rule: settle_loop.induct) (auto simp: res_bind_eq_Inr statics_settle_one)

lemma statics_moves:
  "receiveDeposit X s d n t a k e y p pub c = Ok (i, c') \<Longrightarrow> statics c' = statics c"
  "withdraw X to p pub c = Ok c' \<Longrightarrow> statics c' = statics c"
  "privateTransferSettle X s p pub c = Ok c' \<Longrightarrow> statics c' = statics c"
  "rfqSettle X to q it g key sg p pub c = Ok c' \<Longrightarrow> statics c' = statics c"
  "withdrawCctp X to r m g p pub c = Ok (v, c') \<Longrightarrow> statics c' = statics c"
  "es_open X p pub c = Ok c' \<Longrightarrow> statics c' = statics c"
  "reclaim X j c = Ok c' \<Longrightarrow> statics c' = statics c"
  by (erule receiveDeposit_E withdraw_E privateTransferSettle_E rfqSettle_E withdrawCctp_E es_open_E reclaim_E;
      simp add: statics_ops statics_streamInsert)+

lemma statics_quiet:
  "registry_pause s c = Ok c' \<Longrightarrow> statics c' = statics c"
  "registry_unpause s c = Ok c' \<Longrightarrow> statics c' = statics c"
  "setAuthorizedSpender s a b c = Ok c' \<Longrightarrow> statics c' = statics c"
  "setAuthorizedSolver s j b c = Ok c' \<Longrightarrow> statics c' = statics c"
  "setCctpConfig s m u d c = Ok c' \<Longrightarrow> statics c' = statics c"
  "setAssociationRoot s r c = Ok c' \<Longrightarrow> statics c' = statics c"
  "setCommittee s ks c = Ok c' \<Longrightarrow> statics c' = statics c"
  "pool_pause s c = Ok c' \<Longrightarrow> statics c' = statics c"
  "pool_unpause s c = Ok c' \<Longrightarrow> statics c' = statics c"
  "escrow_pause s c = Ok c' \<Longrightarrow> statics c' = statics c"
  "escrow_unpause s c = Ok c' \<Longrightarrow> statics c' = statics c"
  by (auto simp: statics_def registry_pause_def registry_unpause_def setAuthorizedSpender_def setAuthorizedSolver_def setCctpConfig_def
     setAssociationRoot_def setCommittee_def pool_pause_def pool_unpause_def escrow_pause_def escrow_unpause_def only_admin_def chain_defs Let_def)

definition is_setter :: "call \<Rightarrow> bool" where
  "is_setter f = (case f of CallRegisterAsset _ _ \<Rightarrow> True | CallSetVerifier _ _ \<Rightarrow> True | CallSetStream _ _ \<Rightarrow> True
     | CallSetOpenVerifier _ \<Rightarrow> True | CallSetSettleVerifier _ \<Rightarrow> True | _ \<Rightarrow> False)"

lemma exec_statics:
  assumes "exec X s f c = Ok c'" "\<not> is_setter f"
  shows "statics c' = statics c"
  using assms
  by (cases f) (auto simp: is_setter_def res_bind_eq_Inr es_settle_def settleBatch_def
      dest: statics_quiet statics_moves statics_ops statics_streamInsert statics_settle_one statics_settle_loop
        statics_settles [OF mpcSettle_E(1)] statics_settles [OF mpcSettlePriced_E(1)])

text \<open>What the setters do.\<close>

lemma setter_calls:
  "registerAsset s a t c = Ok c' \<Longrightarrow>
     c' = log_ev (AssetRegistered a t) (set_pool (\<lambda>p. p \<lparr> pl_assetToken := (pl_assetToken p)(a := t), pl_noteSupplyOf := (pl_noteSupplyOf p)(a := 0) \<rparr>) c) \<and>
     pl_assetToken (cn_pool c) a = 0"
  "setVerifier s sl v c = Ok c' \<Longrightarrow> c' = set_pool (put_verifier sl v) c"
  "setAuthorizedStreamContract s g b c = Ok c' \<Longrightarrow> c' = log_ev (StreamContractSet g b)
     (set_pool (\<lambda>p. p \<lparr> pl_authorizedStreamContract := (pl_authorizedStreamContract p)(g := b) \<rparr>) c)"
  "setOpenVerifier s v c = Ok c' \<Longrightarrow> c' = set_escrow (\<lambda>e. e \<lparr> es_openVerifier := v \<rparr>) c"
  "setSettleVerifier s v c = Ok c' \<Longrightarrow> c' = set_escrow (\<lambda>e. e \<lparr> es_settleVerifier := v \<rparr>) c"
  by (auto simp: registerAsset_def setVerifier_def setAuthorizedStreamContract_def setOpenVerifier_def setSettleVerifier_def only_admin_def)

lemma only_escrow_kept:
  assumes "only_escrow_streams c" "exec X s f c = Ok c'" "escrow_only c f"
  shows "only_escrow_streams c'"
proof (cases "is_setter f")
  case False
  then show ?thesis using exec_statics [OF assms(2)] assms(1) by (simp add: statics_def only_escrow_streams_def)
next
  case True
  then show ?thesis using assms unfolding is_setter_def only_escrow_streams_def escrow_only_def
    by (auto simp: chain_defs dest!: setter_calls split: call.splits if_splits)
qed

definition tree_inv :: "'w externals \<Rightarrow> 'w chain \<Rightarrow> bool" where
  "tree_inv X c \<longleftrightarrow> only_escrow_streams c \<and> frontier_of (x_poseidon X) (logged leaves_of (cn_log c)) (pl_tree (cn_pool c)) \<and>
     past_roots (x_poseidon X) (logged leaves_of (cn_log c)) (pl_tree (cn_pool c))"

interpretation tree_invariant: chain_invariant X escrow_only "\<lambda>_. tree_inv X"
proof
  show "tree_inv X c" if "deploy X d b w = Ok c" for d b w c
  proof -
    note f = deploy_facts [OF that]
    have "0 < dp_treeDepth d" "dp_treeDepth d < 32" using f(4) by (auto simp: new_frontier_def split: if_splits)
    with new_frontier_of [of "dp_treeDepth d" "x_poseidon X"] f have "frontier_of (x_poseidon X) [] (pl_tree (cn_pool c))" by auto
    with new_frontier_known [OF f(4)] f show ?thesis by (simp add: tree_inv_def only_escrow_streams_def)
  qed
  show "tree_inv X c'" if "tree_inv X c" "exec X s f c = Ok c'" "s \<noteq> es_self (cn_escrow c)" "escrow_only c f" for c c' s f
  proof -
    have only: "only_escrow_streams c" using that(1) by (simp add: tree_inv_def)
    then have "\<nexists>a k d. f = CallStreamInsert a k d"
      using that(2,3) by (auto simp: only_escrow_streams_def streamInsert_Ok res_bind_eq_Inr)
    from exec_effect [OF that(2) this] obtain es where es: "effect X es c c'" by blast
    have "frontier_of (x_poseidon X) (logged leaves_of (cn_log c) @ logged leaves_of es) (pl_tree (cn_pool c'))"
      "past_roots (x_poseidon X) (logged leaves_of (cn_log c) @ logged leaves_of es) (pl_tree (cn_pool c'))"
      using es that(1) insert_all_inv past_roots_all unfolding effect_def tree_inv_def by blast+
    then show ?thesis using es only_escrow_kept [OF only that(2,4)] by (simp add: tree_inv_def effect_def log_effect_def)
  qed
qed (simp_all add: tree_inv_def only_escrow_streams_def)

end
