(* ===== verification/PoolAccounts.thy ===== *)
theory PoolAccounts
  imports PoolSafety
begin

text \<open>
  The books of the shielded pool and the stream escrow: note supply, reserved channel caps, deposits and payments, and the reserve in
  the vault. The accounting rests on the soundness of the Groth16 verifiers for the circuits of theory \<open>Circuits\<close> (the amounts in an
  accepted proof are in range) and on three laws of the tokens.
\<close>

section \<open>Public signals and soundness\<close>

definition withdraw_public :: "poseidon \<Rightarrow> signals \<Rightarrow> int list" where
  "withdraw_public pos i = pos [sig1 i ''nullifier'', sig1 i ''poolId'', sig1 i ''chainId''] # map (sig1 i)
     [''operationType'', ''withdrawnValue'', ''recipientHash'', ''relayerFee'', ''deadlineLedger'', ''stateRoot'', ''associationRoot'',
      ''poolId'', ''chainId'', ''quoteHash'', ''intentHash'', ''fillReceiptHash'', ''destinationDomain'', ''destinationRecipient'',
      ''maxFee'', ''minFinalityThreshold'', ''assetId'']"

definition deposit_public :: "poseidon \<Rightarrow> signals \<Rightarrow> int list" where
  "deposit_public pos i = deposit_commitment pos i # map (sig1 i)
     [''operationType'', ''sourceDomain'', ''destinationDomain'', ''cctpNonceHash'', ''burnTxHashHash'', ''amount6dp'', ''amount7dp'',
      ''assetIdHash'', ''recipientPool'', ''encryptedNotePayloadHash'', ''policyIdHash'', ''poolId'', ''chainId'']"

definition open_public :: "poseidon \<Rightarrow> signals \<Rightarrow> int list" where
  "open_public pos i = pos [sig1 i ''inNullifier'', sig1 i ''poolId'', sig1 i ''chainId''] # map (sig1 i)
     [''changeCommitment'', ''reclaimCommitment'', ''stateRoot'', ''associationRoot'', ''poolId'', ''chainId'', ''channelId'',
      ''payerAx'', ''payerAy'', ''cap'', ''expiry'', ''assetId'']"

text \<open>Soundness of a verifier: what it accepts are the public signals of a satisfied circuit.\<close>

definition sound :: "'w externals \<Rightarrow> (poseidon \<Rightarrow> signals \<Rightarrow> bool) \<Rightarrow> (poseidon \<Rightarrow> signals \<Rightarrow> int list) \<Rightarrow> account \<Rightarrow> bool" where
  "sound X circuit public v \<longleftrightarrow> (\<forall>p pub. x_verifyProof X v p pub = Some True \<longrightarrow>
     (\<exists>i. circuit (x_poseidon X) i \<and> pub = public (x_poseidon X) i))"

abbreviation "withdraw_sound X \<equiv> sound X withdraw_circuit withdraw_public"
abbreviation "deposit_sound X \<equiv> sound X deposit_circuit deposit_public"
abbreviation "open_sound X \<equiv> sound X open_circuit open_public"

lemma withdraw_bounds:
  assumes "withdraw_sound X v" "x_verifyProof X v p pub = Some True"
  shows "0 \<le> pub ! 2" "pub ! 2 < 2 ^ 128"
proof -
  from assms obtain i where i: "withdraw_circuit (x_poseidon X) i" "pub = withdraw_public (x_poseidon X) i" unfolding sound_def by blast
  have "num2bits 128 (sig1 i ''withdrawnValue'')" using i(1) unfolding withdraw_circuit_def by blast
  moreover have "pub ! 2 = sig1 i ''withdrawnValue''" by (simp add: i(2) withdraw_public_def)
  ultimately show "0 \<le> pub ! 2" "pub ! 2 < 2 ^ 128" by (simp_all add: num2bits_def)
qed

lemma deposit_bounds:
  assumes "deposit_sound X v" "x_verifyProof X v p pub = Some True"
  shows "0 \<le> pub ! 7" "pub ! 7 < 2 ^ 129"
proof -
  from assms obtain i where i: "deposit_circuit (x_poseidon X) i" "pub = deposit_public (x_poseidon X) i" unfolding sound_def by blast
  have r: "num2bits 128 (fe (sig1 i ''amount7dp'' - sig1 i ''value''))" "num2bits 128 (sig1 i ''value'')"
    using i(1) unfolding deposit_circuit_def by blast+
  have "pub ! 7 = sig1 i ''amount7dp''" by (simp add: i(2) deposit_public_def)
  then show "0 \<le> pub ! 7" "pub ! 7 < 2 ^ 129" using no_wrap_sub [OF sig1_field r(2,1)] r unfolding num2bits_def by simp_all
qed

lemma open_bounds:
  assumes "open_sound X v" "x_verifyProof X v p pub = Some True"
  shows "0 \<le> pub ! 10" "pub ! 10 < 2 ^ 128"
proof -
  from assms obtain i where i: "open_circuit (x_poseidon X) i" "pub = open_public (x_poseidon X) i" unfolding sound_def by blast
  have "num2bits 128 (sig1 i ''cap'')" using i(1) unfolding open_circuit_def by blast
  moreover have "pub ! 10 = sig1 i ''cap''" by (simp add: i(2) open_public_def)
  ultimately show "0 \<le> pub ! 10" "pub ! 10 < 2 ^ 128" by (simp_all add: num2bits_def)
qed

lemma int256_small: "x < 2 ^ 129 \<Longrightarrow> int256 x = x"
  by (simp add: int256_def)


section \<open>Reserved caps\<close>

definition live :: "(int \<Rightarrow> channel) \<Rightarrow> int \<Rightarrow> int set" where
  "live chs a = {k. ch_opened (chs k) \<and> \<not> ch_consumed (chs k) \<and> ch_assetId (chs k) = a}"

definition reserved :: "(int \<Rightarrow> channel) \<Rightarrow> int \<Rightarrow> int" where
  "reserved chs a = (\<Sum>k\<in>live chs a. ch_cap (chs k))"

lemma reserved_open:
  assumes "finite (live chs b)" "\<not> ch_opened (chs k)" "ch_opened ch" "\<not> ch_consumed ch"
  shows "reserved (chs(k := ch)) b = reserved chs b + (if ch_assetId ch = b then ch_cap ch else 0)"
proof -
  have k: "k \<notin> live chs b" using assms(2) by (simp add: live_def)
  have same: "(\<Sum>j\<in>live chs b. ch_cap ((chs(k := ch)) j)) = reserved chs b"
    unfolding reserved_def by (rule sum.cong) (use k in auto)
  have "live (chs(k := ch)) b = (if ch_assetId ch = b then insert k (live chs b) else live chs b)"
    using assms(2-4) by (auto simp: live_def split: if_splits)
  then show ?thesis using same k assms(1) by (simp add: reserved_def)
qed

lemma reserved_close:
  assumes "finite (live chs b)" "ch_opened (chs k)" "\<not> ch_consumed (chs k)"
  shows "reserved (chs(k := (chs k) \<lparr> ch_consumed := True \<rparr>)) b = reserved chs b - (if ch_assetId (chs k) = b then ch_cap (chs k) else 0)"
proof -
  let ?chs = "chs(k := (chs k) \<lparr> ch_consumed := True \<rparr>)"
  have "live ?chs b = live chs b - {k}" by (auto simp: live_def)
  moreover have "(\<Sum>j\<in>live chs b - {k}. ch_cap (?chs j)) = (\<Sum>j\<in>live chs b - {k}. ch_cap (chs j))" by (rule sum.cong) auto
  moreover have "k \<in> live chs b \<longleftrightarrow> ch_assetId (chs k) = b" using assms(2,3) by (simp add: live_def)
  ultimately show ?thesis using assms(1) by (auto simp: reserved_def sum_diff1)
qed


section \<open>Deposits and payments\<close>

text \<open>What a call that returned brought into the pool or paid out of it, by asset.\<close>

fun deposited :: "int \<Rightarrow> call \<Rightarrow> int" where
  "deposited a (CallDeposit _ _ _ amount _ _ _ _ pub) = (if a = pub ! 8 then amount else 0)"
| "deposited a _ = 0"

fun paid_out :: "int \<Rightarrow> call \<Rightarrow> int" where
  "paid_out a (CallWithdraw _ _ pub) = (if a = pub ! 17 then pub ! 2 else 0)"
| "paid_out a (CallRfqSettle _ _ _ _ _ _ _ pub) = (if a = pub ! 17 then pub ! 2 else 0)"
| "paid_out a (CallWithdrawCctp _ _ _ _ _ pub) = (if a = pub ! 17 then pub ! 2 else 0)"
| "paid_out a _ = 0"

abbreviation total_deposited :: "call list \<Rightarrow> int \<Rightarrow> int" where
  "total_deposited fs a \<equiv> (\<Sum>f\<leftarrow>fs. deposited a f)"

abbreviation total_paid :: "call list \<Rightarrow> int \<Rightarrow> int" where
  "total_paid fs a \<equiv> (\<Sum>f\<leftarrow>fs. paid_out a f)"

definition books :: "'w chain \<Rightarrow> int \<Rightarrow> int" where
  "books c a = pl_noteSupplyOf (cn_pool c) a + reserved (es_channels (cn_escrow c)) a"

text \<open>The setters an administrator of good will uses: verifiers of the right circuits, assets under the hash of their token, and no
  stream contract but the escrow.\<close>

definition careful :: "'w externals \<Rightarrow> 'w chain \<Rightarrow> call \<Rightarrow> bool" where
  "careful X c f = (case f of
     CallSetStream a b \<Rightarrow> b \<longrightarrow> a = es_self (cn_escrow c)
   | CallSetVerifier WithdrawSlot v \<Rightarrow> withdraw_sound X v
   | CallSetVerifier DepositSlot v \<Rightarrow> deposit_sound X v
   | CallSetOpenVerifier v \<Rightarrow> open_sound X v
   | CallRegisterAsset a t \<Rightarrow> t \<noteq> 0 \<longrightarrow> a = addressHash X t
   | _ \<Rightarrow> True)"

text \<open>The laws of the tokens: a transfer or a burn of one token changes no balance of another, an approval changes none.\<close>

definition token_laws :: "'w externals \<Rightarrow> bool" where
  "token_laws X \<longleftrightarrow>
    (\<forall>w t src to n w' t' h. x_transfer X w t src to n = Some w' \<longrightarrow> t' \<noteq> t \<longrightarrow> x_balanceOf X w' t' h = x_balanceOf X w t' h) \<and>
    (\<forall>w t own sp n w' t' h. x_approve X w t own sp n = Some w' \<longrightarrow> x_balanceOf X w' t' h = x_balanceOf X w t' h) \<and>
    (\<forall>w m s n d r t cl fee fin w' t' h. x_depositForBurn X w m s n d r t cl fee fin = Some w' \<longrightarrow> t' \<noteq> t \<longrightarrow>
       x_balanceOf X w' t' h = x_balanceOf X w t' h)"

text \<open>An address without code accepts no proof.\<close>

definition no_code_at_zero :: "'w externals \<Rightarrow> bool" where
  "no_code_at_zero X \<longleftrightarrow> (\<forall>p pub. x_verifyProof X 0 p pub = None)"

definition configured :: "'w externals \<Rightarrow> 'w chain \<Rightarrow> bool" where
  "configured X c \<longleftrightarrow> only_escrow_streams c \<and> withdraw_sound X (pl_withdrawVerifier (cn_pool c)) \<and>
     deposit_sound X (pl_depositVerifier (cn_pool c)) \<and> open_sound X (es_openVerifier (cn_escrow c)) \<and>
     (\<forall>a. pl_assetToken (cn_pool c) a \<noteq> 0 \<longrightarrow> a = addressHash X (pl_assetToken (cn_pool c) a))"

definition covered :: "'w externals \<Rightarrow> 'w chain \<Rightarrow> bool" where
  "covered X c \<longleftrightarrow> (\<forall>a. 0 \<le> pl_noteSupplyOf (cn_pool c) a \<and>
     (pl_assetToken (cn_pool c) a = 0 \<longrightarrow> pl_noteSupplyOf (cn_pool c) a = 0) \<and>
     (pl_assetToken (cn_pool c) a \<noteq> 0 \<longrightarrow> pl_noteSupplyOf (cn_pool c) a \<le> vault X c a))"

definition caps_ok :: "'w chain \<Rightarrow> bool" where
  "caps_ok c \<longleftrightarrow> finite {k. ch_opened (es_channels (cn_escrow c) k)} \<and>
     (\<forall>k. ch_opened (es_channels (cn_escrow c) k) \<longrightarrow> 0 \<le> ch_cap (es_channels (cn_escrow c) k) \<and> ch_cap (es_channels (cn_escrow c) k) < 2 ^ 128)"

lemma caps_live: "caps_ok c \<Longrightarrow> finite (live (es_channels (cn_escrow c)) a)"
  by (rule finite_subset [of _ "{k. ch_opened (es_channels (cn_escrow c) k)}"]) (auto simp: caps_ok_def live_def)

lemma configured_kept:
  assumes "configured X c" "exec X s f c = Ok c'" "careful X c f"
  shows "configured X c'"
proof (cases "is_setter f")
  case False
  then show ?thesis using exec_statics [OF assms(2)] assms(1) by (simp add: statics_def configured_def only_escrow_streams_def)
next
  case True
  then show ?thesis
  proof (cases f)
    case (CallSetVerifier sl v)
    then show ?thesis using assms by (cases sl) (auto simp: configured_def only_escrow_streams_def careful_def chain_defs dest!: setter_calls)
  qed (use assms in \<open>auto simp: is_setter_def configured_def only_escrow_streams_def careful_def chain_defs dest!: setter_calls split: if_splits\<close>)
qed



section \<open>The books over one call\<close>

definition books_move :: "'w externals \<Rightarrow> call \<Rightarrow> 'w chain \<Rightarrow> 'w chain \<Rightarrow> bool" where
  "books_move X f c c' \<longleftrightarrow> covered X c' \<and> caps_ok c' \<and> (\<forall>a. books c' a = books c a + deposited a f - paid_out a f)"

text \<open>The part of the state the books are about.\<close>

definition ledger_of :: "'w chain \<Rightarrow> (int \<Rightarrow> int) \<times> (int \<Rightarrow> channel) \<times> 'w \<times> account \<times> (int \<Rightarrow> account)" where
  "ledger_of c = (pl_noteSupplyOf (cn_pool c), es_channels (cn_escrow c), cn_world c, pl_self (cn_pool c), pl_assetToken (cn_pool c))"

lemma covered_escrow [simp]: "covered X (set_escrow g c) = covered X c" "covered X (log_ev e c) = covered X c" "covered X (consume k c) = covered X c"
  by (simp_all add: covered_def vault_def chain_defs)

lemma covered_ledger:
  assumes "ledger_of c' = ledger_of c"
  shows "covered X c' = covered X c" "caps_ok c' = caps_ok c" "books c' = books c"
proof -
  have "vault X c' = vault X c" using assms by (simp add: ledger_of_def vault_def fun_eq_iff)
  then show "covered X c' = covered X c" "caps_ok c' = caps_ok c"
    using assms by (simp_all add: ledger_of_def covered_def caps_ok_def)
  show "books c' = books c" by (rule ext) (use assms in \<open>simp add: ledger_of_def books_def\<close>)
qed

lemma same_ledger:
  assumes "ledger_of c' = ledger_of c" "covered X c" "caps_ok c" "\<And>a. deposited a f = 0" "\<And>a. paid_out a f = 0"
  shows "books_move X f c c'"
  using assms covered_ledger [OF assms(1)] by (simp add: books_move_def)

lemma ledger_prims [simp]: "ledger_of (log_ev e c) = ledger_of c" "ledger_of (mark_deposit n c) = ledger_of c"
  by (simp_all add: ledger_of_def chain_defs)

lemma ledger_ops:
  "spend s n c = Ok c' \<Longrightarrow> ledger_of c' = ledger_of c"
  "pool_insert X k c = Ok (i, c') \<Longrightarrow> ledger_of c' = ledger_of c"
  by (auto simp: ledger_of_def spend_Ok pool_insert_Ok chain_defs)

lemma ledger_notes:
  "privateTransferSettle X s p pub c = Ok c' \<Longrightarrow> ledger_of c' = ledger_of c"
  "settles_pair X b pub c c' \<Longrightarrow> ledger_of c' = ledger_of c"
  by (erule privateTransferSettle_E, simp add: ledger_ops) (unfold settles_pair_def, elim exE conjE, simp add: ledger_ops)

lemma put_verifier_ledger [simp]: "ledger_of (set_pool (put_verifier sl v) c) = ledger_of c"
  by (simp add: ledger_of_def set_pool_def)

lemma ledger_quiet:
  "registry_pause s c = Ok c' \<Longrightarrow> ledger_of c' = ledger_of c"
  "registry_unpause s c = Ok c' \<Longrightarrow> ledger_of c' = ledger_of c"
  "setAuthorizedSpender s a b c = Ok c' \<Longrightarrow> ledger_of c' = ledger_of c"
  "setAuthorizedSolver s j b c = Ok c' \<Longrightarrow> ledger_of c' = ledger_of c"
  "setCctpConfig s m u d c = Ok c' \<Longrightarrow> ledger_of c' = ledger_of c"
  "setAssociationRoot s r c = Ok c' \<Longrightarrow> ledger_of c' = ledger_of c"
  "setCommittee s ks c = Ok c' \<Longrightarrow> ledger_of c' = ledger_of c"
  "setVerifier s sl v c = Ok c' \<Longrightarrow> ledger_of c' = ledger_of c"
  "setAuthorizedStreamContract s a b c = Ok c' \<Longrightarrow> ledger_of c' = ledger_of c"
  "setOpenVerifier s v c = Ok c' \<Longrightarrow> ledger_of c' = ledger_of c"
  "setSettleVerifier s v c = Ok c' \<Longrightarrow> ledger_of c' = ledger_of c"
  "pool_pause s c = Ok c' \<Longrightarrow> ledger_of c' = ledger_of c"
  "pool_unpause s c = Ok c' \<Longrightarrow> ledger_of c' = ledger_of c"
  "escrow_pause s c = Ok c' \<Longrightarrow> ledger_of c' = ledger_of c"
  "escrow_unpause s c = Ok c' \<Longrightarrow> ledger_of c' = ledger_of c"
  by (auto simp: ledger_of_def registry_pause_def registry_unpause_def setAuthorizedSpender_def setAuthorizedSolver_def setCctpConfig_def
     setAssociationRoot_def setCommittee_def setVerifier_def setAuthorizedStreamContract_def setOpenVerifier_def setSettleVerifier_def
     pool_pause_def pool_unpause_def escrow_pause_def escrow_unpause_def only_admin_def chain_defs Let_def)

text \<open>A change of one asset's supply while the other vaults keep their balance.\<close>

lemma adjust_covered:
  assumes "adjustNoteSupply X a d c1 = Ok c2" "covered X c" "pl_noteSupplyOf (cn_pool c1) = pl_noteSupplyOf (cn_pool c)"
    "pl_assetToken (cn_pool c1) = pl_assetToken (cn_pool c)"
    "\<And>b. b \<noteq> a \<Longrightarrow> pl_assetToken (cn_pool c) b \<noteq> 0 \<Longrightarrow> vault X c1 b = vault X c b"
  shows "covered X c2"
  unfolding covered_def
proof
  fix b
  note k = adjustNoteSupply_keeps [OF assms(1)]
  have v: "vault X c2 b = vault X c1 b" using k by (simp add: vault_def)
  show "0 \<le> pl_noteSupplyOf (cn_pool c2) b \<and> (pl_assetToken (cn_pool c2) b = 0 \<longrightarrow> pl_noteSupplyOf (cn_pool c2) b = 0) \<and>
      (pl_assetToken (cn_pool c2) b \<noteq> 0 \<longrightarrow> pl_noteSupplyOf (cn_pool c2) b \<le> vault X c2 b)"
    by (cases "b = a") (use k assms(2-5) v in \<open>auto simp: covered_def\<close>)
qed

text \<open>The three ways a note is paid out of the pool.\<close>

lemma payment_books:
  assumes "covered X c" "caps_ok c" "spend s n c = Ok c1" "adjustNoteSupply X a (- int256 v) (c1 \<lparr> cn_world := w \<rparr>) = Ok c2"
    and small: "v < 2 ^ 128" and others: "\<And>b. b \<noteq> a \<Longrightarrow> pl_assetToken (cn_pool c) b \<noteq> 0 \<Longrightarrow>
      x_balanceOf X w (pl_assetToken (cn_pool c) b) (pl_self (cn_pool c)) = vault X c b"
    and f: "\<And>b. deposited b f = 0" "\<And>b. paid_out b f = (if b = a then v else 0)"
  shows "books_move X f c (log_ev e c2)"
proof -
  note k = spend_keeps [OF assms(3)] adjustNoteSupply_keeps [OF assms(4)]
  have "covered X c2"
    by (rule adjust_covered [OF assms(4,1)]) (use k others in \<open>simp_all add: vault_def\<close>)
  then show ?thesis using k assms(2) f int256_small [of v] small
    unfolding books_move_def covered_escrow by (simp add: caps_ok_def books_def log_ev_def)
qed

lemma stream_covered:
  assumes "streamInsert X s a k d c = Ok (i, c')" "covered X c"
  shows "covered X c'"
proof -
  note keeps = streamInsert_keeps [OF assms(1)]
  have v: "vault X c' b = vault X c b" for b using keeps by (simp add: vault_def)
  show ?thesis
  proof (cases "d = 0")
    case True
    then show ?thesis using keeps assms(2) v by (simp add: covered_def)
  next
    case False
    then have "0 \<le> pl_noteSupplyOf (cn_pool c) a + d" "pl_noteSupplyOf (cn_pool c) a + d \<le> vault X c a" "pl_assetToken (cn_pool c) a \<noteq> 0"
      using keeps v by auto
    then show ?thesis using keeps assms(2) v by (auto simp: covered_def)
  qed
qed

lemma deposit_books:
  assumes "covered X c" "caps_ok c" "configured X c" "receiveDeposit X s d n t amt k e y p pub c = Ok (i, c')"
  shows "books_move X (CallDeposit d n t amt k e y p pub) c c'"
proof (rule receiveDeposit_E [OF assms(4)])
  fix c1 c2
  assume a: "pool_insert X k c = Ok (i, c1)" "adjustNoteSupply X (pub ! 8) (int256 amt) (mark_deposit n c1) = Ok c2"
    "c' = log_ev (Deposit d n (pub ! 8) amt k i (pool_root c2)) c2" "amt = pub ! 7"
    "x_verifyProof X (pl_depositVerifier (cn_pool c)) p pub = Some True"
  have amt: "int256 amt = amt" using deposit_bounds [OF _ a(5)] assms(3) a(4) by (simp add: configured_def int256_small)
  have l: "ledger_of (mark_deposit n c1) = ledger_of c" using ledger_ops(2) [OF a(1)] by simp
  note k = adjustNoteSupply_keeps [OF a(2)]
  have "covered X c2" by (rule adjust_covered [OF a(2) assms(1)]) (use l in \<open>simp_all add: ledger_of_def vault_def\<close>)
  then show ?thesis using k l assms(2) amt
    unfolding books_move_def a(3) covered_escrow by (simp add: caps_ok_def books_def log_ev_def ledger_of_def)
qed

lemma open_books:
  fixes c :: "'w chain"
  assumes "covered X c" "caps_ok c" "configured X c" "es_open X p pub c = Ok c'"
  shows "books_move X (CallOpen p pub) c c'"
proof (rule es_open_E [OF assms(4)])
  fix c1 c2 :: "'w chain" and i
  let ?chs = "(es_channels (cn_escrow c))(pub ! 7 := new_channel pub)"
  let ?c1 = "set_escrow (\<lambda>e. e \<lparr> es_channels := (es_channels e)(pub ! 7 := new_channel pub) \<rparr>) c1"
  assume a: "spend (es_self (cn_escrow c)) (pub ! 0) c = Ok c1"
    "streamInsert X (es_self (cn_escrow c)) (pub ! 12) (pub ! 1) (- int256 (pub ! 10)) ?c1 = Ok (i, c2)"
    "c' = log_ev (ChannelOpened (pub ! 7) (pub ! 10) (pub ! 11) (pub ! 1)) c2" "\<not> ch_opened (es_channels (cn_escrow c) (pub ! 7))"
    "x_verifyProof X (es_openVerifier (cn_escrow c)) p pub = Some True"
  have cap: "0 \<le> pub ! 10" "pub ! 10 < 2 ^ 128" using open_bounds [OF _ a(5)] assms(3) by (simp_all add: configured_def)
  note k = spend_keeps [OF a(1)] streamInsert_keeps [OF a(2)]
  have "covered X c1" using assms(1) covered_ledger(1) [OF ledger_ops(1) [OF a(1)]] by simp
  then have cov: "covered X c'" using stream_covered [OF a(2)] by (simp add: a(3))
  have chs: "es_channels (cn_escrow c') = ?chs" using k by (simp add: a(3) log_ev_def set_escrow_def)
  have sup: "pl_noteSupplyOf (cn_pool c') = (pl_noteSupplyOf (cn_pool c))(pub ! 12 := pl_noteSupplyOf (cn_pool c) (pub ! 12) - pub ! 10)"
    using k cap(2) by (simp add: a(3) log_ev_def set_escrow_def int256_def)
  have "{j. ch_opened (?chs j)} \<subseteq> insert (pub ! 7) {j. ch_opened (es_channels (cn_escrow c) j)}" by auto
  then have fin: "finite {j. ch_opened (?chs j)}" using assms(2) unfolding caps_ok_def by (meson finite_insert finite_subset)
  have "caps_ok c'" using fin assms(2) cap unfolding caps_ok_def chs by (simp add: new_channel_def)
  moreover have "reserved ?chs b = reserved (es_channels (cn_escrow c)) b + (if pub ! 12 = b then pub ! 10 else 0)" for b
    using reserved_open [OF caps_live [OF assms(2)] a(4), of "new_channel pub"] by (simp add: new_channel_def)
  ultimately show ?thesis using cov by (simp add: books_move_def books_def chs sup)
qed

lemma consume_channels:
  "es_channels (cn_escrow (consume k c)) = (es_channels (cn_escrow c))(k := (es_channels (cn_escrow c) k) \<lparr> ch_consumed := True \<rparr>)"
  "pl_noteSupplyOf (cn_pool (consume k c)) = pl_noteSupplyOf (cn_pool c)"
  by (simp_all add: consume_def set_escrow_def)

text \<open>Closing a channel returns its cap to the supply, in one note or in two.\<close>

lemma close_books:
  assumes "caps_ok c" "covered X c'" "ch_opened (es_channels (cn_escrow c) k)" "\<not> ch_consumed (es_channels (cn_escrow c) k)"
    "es_channels (cn_escrow c') = (es_channels (cn_escrow c))(k := (es_channels (cn_escrow c) k) \<lparr> ch_consumed := True \<rparr>)"
    "pl_noteSupplyOf (cn_pool c') = (pl_noteSupplyOf (cn_pool c))(ch_assetId (es_channels (cn_escrow c) k) :=
       pl_noteSupplyOf (cn_pool c) (ch_assetId (es_channels (cn_escrow c) k)) + ch_cap (es_channels (cn_escrow c) k))"
  shows "covered X c' \<and> caps_ok c' \<and> (\<forall>a. books c' a = books c a)"
proof -
  have "{j. ch_opened (es_channels (cn_escrow c') j)} = {j. ch_opened (es_channels (cn_escrow c) j)}" using assms(3,5) by auto
  then have "caps_ok c'" using assms(1,3) unfolding caps_ok_def assms(5) by auto
  moreover have "books c' a = books c a" for a
    using reserved_close [OF caps_live [OF assms(1)] assms(3,4)] unfolding books_def assms(5,6) by simp
  ultimately show ?thesis using assms(2) by blast
qed

lemma settle_one_books:
  assumes "covered X c" "caps_ok c" "es_settle_one X p pub c = Ok c'" "0 \<le> pub ! 9"
  shows "covered X c' \<and> caps_ok c' \<and> (\<forall>a. books c' a = books c a)"
proof (rule es_settle_one_E [OF assms(3)])
  fix ch i c1 j c2
  assume a: "ch = es_channels (cn_escrow c) (pub ! 5)" "ch_opened ch" "\<not> ch_consumed ch" "pub ! 9 \<le> ch_cap ch"
    "streamInsert X (es_self (cn_escrow c)) (ch_assetId ch) (pub ! 0) (int256 (pub ! 9)) (consume (pub ! 5) c) = Ok (i, c1)"
    "streamInsert X (es_self (cn_escrow c)) (ch_assetId ch) (pub ! 1) (int256 (ch_cap ch - pub ! 9)) c1 = Ok (j, c2)"
    "c' = log_ev (ChannelSettled (pub ! 5) (pub ! 9) (pub ! 0) (pub ! 1)) c2"
  note k1 = streamInsert_keeps [OF a(5)] and k2 = streamInsert_keeps [OF a(6)]
  have cap: "ch_cap ch < 2 ^ 128" using assms(2) a(1,2) by (simp add: caps_ok_def)
  have i: "int256 (pub ! 9) = pub ! 9" "int256 (ch_cap ch - pub ! 9) = ch_cap ch - pub ! 9"
    using cap a(4) assms(4) by (simp_all add: int256_def)
  have cov: "covered X c'" using stream_covered [OF a(6) stream_covered [OF a(5)]] assms(1) by (simp add: a(7))
  have chs: "es_channels (cn_escrow c') = (es_channels (cn_escrow c))(pub ! 5 := (es_channels (cn_escrow c) (pub ! 5)) \<lparr> ch_consumed := True \<rparr>)"
    using k1(2) k2(2) by (simp add: a(7) log_ev_def consume_channels)
  have sup: "pl_noteSupplyOf (cn_pool c') = (pl_noteSupplyOf (cn_pool c))(ch_assetId ch := pl_noteSupplyOf (cn_pool c) (ch_assetId ch) + ch_cap ch)"
    using k1(8) k2(8) i by (simp add: a(7) log_ev_def consume_channels)
  show ?thesis by (rule close_books [OF assms(2) cov a(2,3)[unfolded a(1)] chs sup[unfolded a(1)]])
qed

lemma reclaim_books:
  assumes "covered X c" "caps_ok c" "reclaim X k c = Ok c'"
  shows "covered X c' \<and> caps_ok c' \<and> (\<forall>a. books c' a = books c a)"
proof (rule reclaim_E [OF assms(3)])
  fix ch i c1
  assume a: "ch = es_channels (cn_escrow c) k" "ch_opened ch" "\<not> ch_consumed ch"
    "streamInsert X (es_self (cn_escrow c)) (ch_assetId ch) (ch_reclaimCommitment ch) (int256 (ch_cap ch)) (consume k c) = Ok (i, c1)"
    "c' = log_ev (ChannelReclaimed k (ch_cap ch) (ch_reclaimCommitment ch)) c1"
  note k1 = streamInsert_keeps [OF a(4)]
  have "ch_cap ch < 2 ^ 128" using assms(2) a(1,2) by (simp add: caps_ok_def)
  then have i: "int256 (ch_cap ch) = ch_cap ch" by (simp add: int256_def)
  have cov: "covered X c'" using stream_covered [OF a(4)] assms(1) by (simp add: a(5))
  have chs: "es_channels (cn_escrow c') = (es_channels (cn_escrow c))(k := (es_channels (cn_escrow c) k) \<lparr> ch_consumed := True \<rparr>)"
    using k1(2) by (simp add: a(5) log_ev_def consume_channels)
  have sup: "pl_noteSupplyOf (cn_pool c') = (pl_noteSupplyOf (cn_pool c))(ch_assetId ch := pl_noteSupplyOf (cn_pool c) (ch_assetId ch) + ch_cap ch)"
    using k1(8) i by (simp add: a(5) log_ev_def consume_channels)
  show ?thesis by (rule close_books [OF assms(2) cov a(2,3)[unfolded a(1)] chs sup[unfolded a(1)]])
qed

lemma settle_loop_books:
  "settle_loop X xs c = Ok c' \<Longrightarrow> \<forall>(p, pub)\<in>set xs. 0 \<le> pub ! 9 \<Longrightarrow> covered X c \<Longrightarrow> caps_ok c \<Longrightarrow>
     covered X c' \<and> caps_ok c' \<and> (\<forall>a. books c' a = books c a)"
proof (induction X xs c arbitrary: c' rule: settle_loop.induct)
  case (2 X p pub rest c)
  then obtain c1 where c1: "es_settle_one X p pub c = Ok c1" "settle_loop X rest c1 = Ok c'" by (auto simp: res_bind_eq_Inr)
  from settle_one_books [OF "2.prems"(3,4) c1(1)] "2.prems"(2) have one: "covered X c1" "caps_ok c1" "\<forall>a. books c1 a = books c a" by auto
  from "2.IH" [OF c1(2) _ one(1,2)] "2.prems"(2) one(3) show ?case by auto
qed simp


section \<open>The books over a history\<close>

text \<open>In a payment the other vaults keep their balance, because an asset is registered under the hash of its token.\<close>

lemma payment_others:
  assumes "configured X c" "b \<noteq> a" "pl_assetToken (cn_pool c) b \<noteq> 0" "a = addressHash X t"
    "\<And>t' h. t' \<noteq> t \<Longrightarrow> x_balanceOf X w t' h = x_balanceOf X (cn_world c) t' h"
  shows "x_balanceOf X w (pl_assetToken (cn_pool c) b) (pl_self (cn_pool c)) = vault X c b"
proof -
  have "b = addressHash X (pl_assetToken (cn_pool c) b)" using assms(1,3) by (simp add: configured_def)
  then have "pl_assetToken (cn_pool c) b \<noteq> t" using assms(2,4) by auto
  then show ?thesis using assms(5) by (simp add: vault_def)
qed

lemma transfer_others:
  assumes "token_laws X" "configured X c" "x_transfer X (cn_world c) (pl_assetToken (cn_pool c) a) src to n = Some w"
    "pl_assetToken (cn_pool c) a \<noteq> 0" "b \<noteq> a" "pl_assetToken (cn_pool c) b \<noteq> 0"
  shows "x_balanceOf X w (pl_assetToken (cn_pool c) b) (pl_self (cn_pool c)) = vault X c b"
proof (rule payment_others [OF assms(2,5,6)])
  show "a = addressHash X (pl_assetToken (cn_pool c) a)" using assms(2,4) by (simp add: configured_def)
  show "x_balanceOf X w t' h = x_balanceOf X (cn_world c) t' h" if "t' \<noteq> pl_assetToken (cn_pool c) a" for t' h
    using assms(1,3) that unfolding token_laws_def by metis
qed

lemma withdraw_books:
  assumes "token_laws X" "covered X c" "caps_ok c" "configured X c" "withdraw X to p pub c = Ok c'"
  shows "books_move X (CallWithdraw to p pub) c c'"
proof (rule withdraw_E [OF assms(5)])
  fix c1 w c2
  assume a: "spend (pl_self (cn_pool c)) (pub ! 0) c = Ok c1"
    "x_transfer X (cn_world c) (pl_assetToken (cn_pool c) (pub ! 17)) (pl_self (cn_pool c)) to (pub ! 2 - pub ! 4) = Some w"
    "adjustNoteSupply X (pub ! 17) (- int256 (pub ! 2)) (c1 \<lparr> cn_world := w \<rparr>) = Ok c2"
    "c' = log_ev (Withdraw to (pub ! 0) (pub ! 2 - pub ! 4) (pub ! 4)) c2"
    "x_verifyProof X (pl_withdrawVerifier (cn_pool c)) p pub = Some True"
  have t: "pl_assetToken (cn_pool c) (pub ! 17) \<noteq> 0" using adjustNoteSupply_keeps(12) [OF a(3)] spend_keeps [OF a(1)] by simp
  have small: "pub ! 2 < 2 ^ 128" using withdraw_bounds(2) [OF _ a(5)] assms(4) by (simp add: configured_def)
  show ?thesis unfolding a(4)
    by (rule payment_books [OF assms(2,3) a(1,3) small]) (use transfer_others [OF assms(1,4) a(2) t] in simp_all)
qed

lemma rfq_books:
  assumes "token_laws X" "covered X c" "caps_ok c" "configured X c" "rfqSettle X to q it g key sg p pub c = Ok c'"
  shows "books_move X (CallRfqSettle to q it g key sg p pub) c c'"
proof (rule rfqSettle_E [OF assms(5)])
  fix c1 w c2
  assume a: "spend (pl_self (cn_pool c)) (pub ! 0) c = Ok c1"
    "x_transfer X (cn_world c) (pl_assetToken (cn_pool c) (pub ! 17)) (pl_self (cn_pool c)) to (pub ! 2) = Some w"
    "adjustNoteSupply X (pub ! 17) (- int256 (pub ! 2)) (c1 \<lparr> cn_world := w \<rparr>) = Ok c2"
    "c' = log_ev (RfqSettled q to (pub ! 0) (pub ! 2)) c2"
    "x_verifyProof X (pl_withdrawVerifier (cn_pool c)) p pub = Some True"
  have t: "pl_assetToken (cn_pool c) (pub ! 17) \<noteq> 0" using adjustNoteSupply_keeps(12) [OF a(3)] spend_keeps [OF a(1)] by simp
  have small: "pub ! 2 < 2 ^ 128" using withdraw_bounds(2) [OF _ a(5)] assms(4) by (simp add: configured_def)
  show ?thesis unfolding a(4)
    by (rule payment_books [OF assms(2,3) a(1,3) small]) (use transfer_others [OF assms(1,4) a(2) t] in simp_all)
qed

lemma cctp_books:
  assumes "token_laws X" "covered X c" "caps_ok c" "configured X c" "withdrawCctp X to r m g p pub c = Ok (v, c')"
  shows "books_move X (CallWithdrawCctp to r m g p pub) c c'"
proof (rule withdrawCctp_E [OF assms(5)])
  fix c1 w1 w2 c2
  let ?t = "pl_usdcToken (cn_pool c)"
  assume a: "spend (pl_self (cn_pool c)) (pub ! 0) c = Ok c1"
    "x_approve X (cn_world c) ?t (pl_self (cn_pool c)) (pl_tokenMessenger (cn_pool c)) (pub ! 2 + m) = Some w1"
    "x_depositForBurn X w1 (pl_tokenMessenger (cn_pool c)) (pl_self (cn_pool c)) (pub ! 2) (pl_cctpOutboundDomain (cn_pool c)) r ?t 0 m g = Some w2"
    "adjustNoteSupply X (pub ! 17) (- int256 (pub ! 2)) (c1 \<lparr> cn_world := w2 \<rparr>) = Ok c2"
    "c' = log_ev (CctpExit (pl_cctpOutboundDomain (cn_pool c)) to (pub ! 0) (pub ! 2)) c2"
    "pub ! 17 = addressHash X ?t" "x_verifyProof X (pl_withdrawVerifier (cn_pool c)) p pub = Some True"
  have small: "pub ! 2 < 2 ^ 128" using withdraw_bounds(2) [OF _ a(7)] assms(4) by (simp add: configured_def)
  have w: "x_balanceOf X w2 t' h = x_balanceOf X (cn_world c) t' h" if "t' \<noteq> ?t" for t' h
    using assms(1) a(2,3) that unfolding token_laws_def by metis
  show ?thesis unfolding a(5)
    by (rule payment_books [OF assms(2,3) a(1,4) small]) (use payment_others [OF assms(4) _ _ a(6) w] in simp_all)
qed

lemma register_books:
  assumes "covered X c" "caps_ok c" "registerAsset s a t c = Ok c'" "\<And>t'. 0 \<le> x_balanceOf X (cn_world c) t' (pl_self (cn_pool c))"
  shows "books_move X (CallRegisterAsset a t) c c'"
proof -
  have c': "c' = log_ev (AssetRegistered a t) (set_pool (\<lambda>p. p \<lparr> pl_assetToken := (pl_assetToken p)(a := t),
      pl_noteSupplyOf := (pl_noteSupplyOf p)(a := 0) \<rparr>) c)" and un: "pl_assetToken (cn_pool c) a = 0"
    using setter_calls(1) [OF assms(3)] by blast+
  have "pl_noteSupplyOf (cn_pool c) a = 0" using assms(1) un by (simp add: covered_def)
  then have "(pl_noteSupplyOf (cn_pool c))(a := 0) = pl_noteSupplyOf (cn_pool c)" by auto
  moreover have "covered X c'" unfolding c' covered_escrow
    using assms(1,4) by (auto simp: covered_def vault_def set_pool_def)
  ultimately show ?thesis using assms(2) by (simp add: c' books_move_def caps_ok_def books_def log_ev_def set_pool_def)
qed


text \<open>Every call. The pool's balances are never negative.\<close>

lemma exec_books:
  assumes "token_laws X" "covered X c" "caps_ok c" "configured X c" "exec X s f c = Ok c'" "s \<noteq> es_self (cn_escrow c)"
    "\<And>t'. 0 \<le> x_balanceOf X (cn_world c) t' (pl_self (cn_pool c))"
  shows "books_move X f c c'"
proof (cases f)
  case (CallDeposit d n t amt k e y p pub)
  then show ?thesis using deposit_books [OF assms(2-4)] assms(5) by (auto simp: res_bind_eq_Inr)
next
  case (CallWithdraw to p pub)
  then show ?thesis using withdraw_books [OF assms(1-4)] assms(5) by simp
next
  case (CallRfqSettle to q it g key sg p pub)
  then show ?thesis using rfq_books [OF assms(1-4)] assms(5) by simp
next
  case (CallWithdrawCctp to r m g p pub)
  then show ?thesis using cctp_books [OF assms(1-4)] assms(5) by (auto simp: res_bind_eq_Inr)
next
  case (CallStreamInsert a k d)
  then show ?thesis using assms(4-6) by (auto simp: configured_def only_escrow_streams_def streamInsert_Ok res_bind_eq_Inr)
next
  case (CallRegisterAsset a t)
  then show ?thesis using register_books [OF assms(2,3) _ assms(7)] assms(5) by simp
next
  case (CallOpen p pub)
  then show ?thesis using open_books [OF assms(2-4)] assms(5) by simp
next
  case (CallSettle p pub)
  then have "es_settle_one X p pub c = Ok c'" "0 \<le> pub ! 9" using assms(5) by (auto simp: es_settle_def abi_words_def list_all_length uint256_def)
  from settle_one_books [OF assms(2,3) this] CallSettle show ?thesis by (simp add: books_move_def)
next
  case (CallSettleBatch ps pubs)
  then have "settle_loop X (zip ps pubs) c = Ok c'" "\<forall>pub\<in>set pubs. 0 \<le> pub ! 9"
    using assms(5) by (auto simp: settleBatch_def abi_words_def list_all_iff uint256_def)
  moreover from this(2) have "\<forall>(p, pub)\<in>set (zip ps pubs). 0 \<le> pub ! 9" by (auto dest: set_zip_rightD)
  ultimately show ?thesis using settle_loop_books [OF _ _ assms(2,3)] CallSettleBatch by (simp add: books_move_def)
next
  case (CallReclaim k)
  then show ?thesis using reclaim_books [OF assms(2,3)] assms(5) by (simp add: books_move_def)
next
  case (CallMpcSettle b ks sgs p pub)
  then show ?thesis using ledger_notes(2) [OF mpcSettle_E(1)] assms(2,3,5) by (intro same_ledger) auto
next
  case (CallMpcSettlePriced b ks sgs p pub)
  then show ?thesis using ledger_notes(2) [OF mpcSettlePriced_E(1)] assms(2,3,5) by (intro same_ledger) auto
next
  case (CallTransfer p pub)
  then show ?thesis using ledger_notes(1) assms(2,3,5) by (intro same_ledger) auto
next
  case (CallSpend n)
  then show ?thesis using ledger_ops(1) assms(2,3,5) by (intro same_ledger) auto
qed (use assms(2,3,5) in \<open>intro same_ledger, auto dest: ledger_quiet\<close>)+

definition balances_ok :: "'w externals \<Rightarrow> bool" where
  "balances_ok X \<longleftrightarrow> (\<forall>w t h. 0 \<le> x_balanceOf X w t h)"

definition acct_inv :: "'w externals \<Rightarrow> call list \<Rightarrow> 'w chain \<Rightarrow> bool" where
  "acct_inv X fs c \<longleftrightarrow> configured X c \<and> covered X c \<and> caps_ok c \<and> (\<forall>a. books c a = total_deposited fs a - total_paid fs a)"

lemma acct_invariant:
  assumes "token_laws X" "no_code_at_zero X" "balances_ok X"
  shows "chain_invariant X (careful X) (acct_inv X)"
proof
  show "acct_inv X [] c" if "deploy X d b w = Ok c" for d b w c
  proof -
    have v: "pl_withdrawVerifier (cn_pool c) = 0" "pl_depositVerifier (cn_pool c) = 0"
      using that by (auto simp: deploy_def new_pool_def res_bind_eq_Inr split: sum.splits)
    show ?thesis using deploy_facts [OF that] v assms(2)
      by (simp add: acct_inv_def configured_def covered_def caps_ok_def books_def only_escrow_streams_def sound_def no_code_at_zero_def
        new_escrow_def closed_channel_def reserved_def live_def)
  qed
  show "acct_inv X (fs @ [f]) c'" if "acct_inv X fs c" "exec X s f c = Ok c'" "s \<noteq> es_self (cn_escrow c)" "careful X c f" for fs c s f c'
    using exec_books [OF assms(1) _ _ _ that(2,3)] configured_kept [OF _ that(2,4)] that(1) assms(3)
    by (simp add: acct_inv_def books_move_def balances_ok_def)
  show "acct_inv X fs (c \<lparr> cn_world := w \<rparr>)" if "acct_inv X fs c"
    "\<And>t. x_balanceOf X (cn_world c) t (pl_self (cn_pool c)) \<le> x_balanceOf X w t (pl_self (cn_pool c))" for fs c w
  proof -
    have "vault X c a \<le> vault X (c \<lparr> cn_world := w \<rparr>) a" for a using that(2) by (simp add: vault_def)
    then have "covered X (c \<lparr> cn_world := w \<rparr>)" using that(1) unfolding acct_inv_def covered_def by (auto intro: order_trans)
    then show ?thesis using that(1) by (simp add: acct_inv_def configured_def caps_ok_def books_def only_escrow_streams_def)
  qed
qed (simp_all add: acct_inv_def configured_def covered_def caps_ok_def books_def only_escrow_streams_def vault_def)

end
