(* ===== verification/PoolGuarantees.thy ===== *)
theory PoolGuarantees
  imports PoolAccounts
begin

text \<open>
  The guarantees of the settlement contracts over every history: double spending, the books, channels, the commitment tree, withdrawals
  and the committee threshold, each applied to a small deployment.
\<close>

section \<open>The committee threshold\<close>

lemma threshold_loop_Ok:
  "threshold_loop verify committee msg sgs i pks seen n = Ok r \<longleftrightarrow>
     r = n + length pks \<and> set pks \<subseteq> set committee \<and> distinct pks \<and> set pks \<inter> set seen = {} \<and>
     (\<forall>j<length pks. i + j < length sgs \<and> verify (pks ! j) msg (sgs ! (i + j)) = Some True)"
proof (induction pks arbitrary: i seen n)
  case (Cons pk pks)
  have "(\<forall>j<length (pk # pks). i + j < length sgs \<and> verify ((pk # pks) ! j) msg (sgs ! (i + j)) = Some True) \<longleftrightarrow>
      i < length sgs \<and> verify pk msg (sgs ! i) = Some True \<and>
      (\<forall>j<length pks. i + 1 + j < length sgs \<and> verify (pks ! j) msg (sgs ! (i + 1 + j)) = Some True)"
    by (auto simp: less_Suc_eq_0_disj)
  then show ?case using Cons.IH [of "i + 1" "seen @ [pk]" "n + 1"] by auto
qed auto

lemma verifyThreshold_Ok:
  "verifyThreshold verify committee b pks sgs = Ok () \<longleftrightarrow>
     committee \<noteq> [] \<and> 2 * length committee \<le> 3 * length pks \<and> set pks \<subseteq> set committee \<and> distinct pks \<and> length pks \<le> length sgs \<and>
     (\<forall>j<length pks. verify (pks ! j) (packed 32 b) (sgs ! j) = Some True)"
proof -
  let ?t = "(length committee * 2 + 2) div 3"
  have t: "?t \<le> m \<longleftrightarrow> 2 * length committee \<le> 3 * m" for m by linarith
  have sg: "(\<forall>j<length pks. j < length sgs \<and> verify (pks ! j) (packed 32 b) (sgs ! j) = Some True) \<longleftrightarrow>
      length pks \<le> length sgs \<and> (\<forall>j<length pks. verify (pks ! j) (packed 32 b) (sgs ! j) = Some True)"
    by (auto simp: not_le) (meson leI less_le_trans nat_less_le not_less_iff_gr_or_eq)
  show ?thesis
    unfolding verifyThreshold_def Let_def
    by (auto simp: res_bind_eq_Inr threshold_loop_Ok not_less t sg[simplified] simp del: One_nat_def)
qed


section \<open>Histories\<close>

lemma chain_reach_mono:
  assumes "chain_reach X P fs c" "\<And>c f. P c f \<Longrightarrow> Q c f"
  shows "chain_reach X Q fs c"
  using assms(1)
proof (induction rule: chain_reach.induct)
  case (deployed d b w c)
  then show ?case by (rule chain_reach.deployed)
next
  case (more fs c g c')
  from more.hyps(2) have "chain_step X Q c g c'" by (cases rule: chain_step.cases) (auto intro: chain_step.intros assms(2))
  with more.IH show ?case by (rule chain_reach.more)
qed

lemma careful_escrow_only: "careful X c f \<Longrightarrow> escrow_only c f"
  by (auto simp: careful_def escrow_only_def split: call.splits)

lemma config_invariant: "no_code_at_zero X \<Longrightarrow> chain_invariant X (careful X) (\<lambda>_. configured X)"
proof
  show "configured X c" if "no_code_at_zero X" "deploy X d b w = Ok c" for d b w c
  proof -
    have v: "pl_withdrawVerifier (cn_pool c) = 0" "pl_depositVerifier (cn_pool c) = 0"
      using that(2) by (auto simp: deploy_def new_pool_def res_bind_eq_Inr split: sum.splits)
    show ?thesis using deploy_facts [OF that(2)] v that(1)
      by (simp add: configured_def only_escrow_streams_def sound_def no_code_at_zero_def new_escrow_def)
  qed
qed (blast intro: configured_kept, simp_all add: configured_def only_escrow_streams_def)


section \<open>A deployment to apply the guarantees to\<close>

text \<open>Tokens are a table of balances, SHA-256 keeps its input, and verifier 7 accepts one proof: the deposit of 70 units of asset 5
  into pool 2.\<close>

definition demo_signals :: signals where
  "demo_signals = map (\<lambda>(n, v). (n, snum v))
     [(''operationType'', 4), (''sourceDomain'', 6), (''destinationDomain'', 26), (''cctpNonceHash'', 11), (''burnTxHashHash'', 12),
      (''amount6dp'', 7), (''amount7dp'', 70), (''assetIdHash'', 5), (''recipientPool'', 2), (''encryptedNotePayloadHash'', 13),
      (''policyIdHash'', 14), (''poolId'', 21), (''chainId'', 22), (''value'', 70), (''label'', 31), (''nullifier'', 32), (''secret'', 33)]"

definition demo_pub :: "int list" where
  "demo_pub = [414, 4, 6, 26, 11, 12, 7, 70, 5, 2, 13, 14, 21, 22]"

definition demo_X :: "(account \<Rightarrow> account \<Rightarrow> nat) externals" where
  "demo_X = \<lparr> x_balanceOf = (\<lambda>w t h. int (w t h)),
     x_transfer = (\<lambda>w t src to n. if n \<le> int (w t src)
       then let b = (w t)(src := w t src - nat n) in Some (w(t := b(to := b to + nat n))) else None),
     x_approve = (\<lambda>w t own sp n. Some w),
     x_depositForBurn = (\<lambda>w m s n d r t cl fee fin. if n \<le> int (w t s) then Some (w(t := (w t)(s := w t s - nat n))) else None),
     x_verifyProof = (\<lambda>v p pub. if v = 7 then Some (pub = demo_pub) else None), x_ed25519 = (\<lambda>v k m sg. if v = 8 then Some (sg = [word_of_int k]) else None),
     x_sha256 = (\<lambda>bs. 256 * bytes_value bs), x_poseidon = demo_poseidon \<rparr>"

definition demo_deployment :: "nat \<Rightarrow> deployment" where
  "demo_deployment depth = \<lparr> dp_admin = 9, dp_pool = 2, dp_escrow = 3, dp_poolId = 21, dp_chainId = 22, dp_treeDepth = depth, dp_window = 100 \<rparr>"

definition demo_calls :: "call list" where
  "demo_calls = [CallSetSpender 9 True, CallSpend 44, CallRegisterAsset 5 5, CallSetVerifier DepositSlot 7,
     CallDeposit 6 11 5 70 (demo_pub ! 0) 13 14 \<lparr> pr_a = [], pr_b = [], pr_c = [] \<rparr> demo_pub]"

fun exec_all :: "'w externals \<Rightarrow> account \<Rightarrow> call list \<Rightarrow> 'w chain \<Rightarrow> (pool_error, 'w chain) result" where
  "exec_all X s [] c = Ok c"
| "exec_all X s (f # fs) c = res_bind (exec X s f c) (exec_all X s fs)"

definition run_from_deployment :: "nat \<Rightarrow> (account \<Rightarrow> account \<Rightarrow> nat) externals \<Rightarrow> call list \<Rightarrow> (pool_error, (account \<Rightarrow> account \<Rightarrow> nat) chain) result" where
  "run_from_deployment depth X fs = res_bind (deploy X (demo_deployment depth) 1000 (\<lambda>t h. if t = 5 \<and> h = 2 then 100 else 0)) (exec_all X 9 fs)"

lemma exec_selves:
  assumes "exec X s f c = Ok c'"
  shows "pl_self (cn_pool c') = pl_self (cn_pool c)" "es_self (cn_escrow c') = es_self (cn_escrow c)"
proof -
  have "pl_self (cn_pool c') = pl_self (cn_pool c) \<and> es_self (cn_escrow c') = es_self (cn_escrow c)"
  proof (cases "is_setter f")
    case False
    then show ?thesis using exec_statics [OF assms] by (simp add: statics_def)
  next
    case True
    then show ?thesis using assms by (auto simp: is_setter_def chain_defs dest!: setter_calls split: call.splits)
  qed
  then show "pl_self (cn_pool c') = pl_self (cn_pool c)" "es_self (cn_escrow c') = es_self (cn_escrow c)" by blast+
qed

lemma exec_all_reach:
  "exec_all X s fs c = Ok c' \<Longrightarrow> chain_reach X P gs c \<Longrightarrow> s \<noteq> pl_self (cn_pool c) \<Longrightarrow> s \<noteq> es_self (cn_escrow c) \<Longrightarrow>
     (\<And>c f. f \<in> set fs \<Longrightarrow> P c f) \<Longrightarrow> chain_reach X P (gs @ fs) c'"
proof (induction fs arbitrary: gs c)
  case (Cons f fs)
  from Cons.prems(1) obtain c1 where c1: "exec X s f c = Ok c1" "exec_all X s fs c1 = Ok c'" by (auto simp: res_bind_eq_Inr)
  have "chain_reach X P (gs @ [f]) c1"
    by (rule chain_reach.more [OF Cons.prems(2)], rule chain_step.tx [OF c1(1) Cons.prems(3,4)]) (simp add: Cons.prems(5))
  from Cons.IH [OF c1(2) this] Cons.prems(3-5) exec_selves [OF c1(1)] show ?case by simp
qed simp

lemma demo_circuit: "deposit_circuit demo_poseidon demo_signals"
  by (simp add: deposit_circuit_def demo_signals_def signal_reads num2bits_def fe_def bn254_r_def)

lemma demo_pub_eq: "demo_pub = deposit_public demo_poseidon demo_signals"
  by code_simp

lemma demo_hyps: "token_laws demo_X" "no_code_at_zero demo_X" "balances_ok demo_X" "deposit_sound demo_X 7"
proof -
  show "token_laws demo_X" by (auto simp: token_laws_def demo_X_def Let_def split: if_splits)
  show "no_code_at_zero demo_X" "balances_ok demo_X" by (simp_all add: no_code_at_zero_def balances_ok_def demo_X_def)
  show "deposit_sound demo_X 7" using demo_circuit by (auto simp: sound_def demo_X_def demo_pub_eq)
qed


lemma demo_hash: "addressHash demo_X 5 = 5"
  by code_simp

lemma run_reach:
  assumes "run_from_deployment depth X fs = Ok c" "\<And>c f. f \<in> set fs \<Longrightarrow> P c f"
  shows "chain_reach X P fs c"
proof -
  from assms(1) obtain c0 where c0: "deploy X (demo_deployment depth) 1000 (\<lambda>t h. if t = 5 \<and> h = 2 then 100 else 0) = Ok c0"
    "exec_all X 9 fs c0 = Ok c" by (auto simp: run_from_deployment_def res_bind_eq_Inr)
  have "9 \<noteq> pl_self (cn_pool c0)" "9 \<noteq> es_self (cn_escrow c0)"
    using c0(1) deploy_facts(3) [OF c0(1)]
    by (auto simp: deploy_def new_pool_def demo_deployment_def new_escrow_def res_bind_eq_Inr split: sum.splits)
  from exec_all_reach [OF c0(2) chain_reach.deployed [OF c0(1)] this assms(2)] show ?thesis by simp
qed

lemma run_with:
  assumes "case run_from_deployment depth X fs of Inl e \<Rightarrow> False | Inr c \<Rightarrow> Q c" "\<And>c f. f \<in> set fs \<Longrightarrow> P c f"
  shows "\<exists>c. chain_reach X P fs c \<and> Q c"
  using assms run_reach [of depth X fs _ P] by (cases "run_from_deployment depth X fs") auto

lemma demo_pool_reach: "\<exists>c. chain_reach demo_X (careful demo_X) demo_calls c \<and> pl_noteSupplyOf (cn_pool c) 5 = 70 \<and> isSpent 44 c \<and>
    pl_assetToken (cn_pool c) 5 = 5 \<and> logged leaves_of (cn_log c) = [demo_pub ! 0] \<and> fr_levels (pl_tree (cn_pool c)) = 2"
proof (rule run_with)
  show "case run_from_deployment 2 demo_X demo_calls of Inl e \<Rightarrow> False | Inr c \<Rightarrow> pl_noteSupplyOf (cn_pool c) 5 = 70 \<and> isSpent 44 c \<and>
    pl_assetToken (cn_pool c) 5 = 5 \<and> logged leaves_of (cn_log c) = [demo_pub ! 0] \<and> fr_levels (pl_tree (cn_pool c)) = 2"
    by code_simp
  show "careful demo_X c f" if "f \<in> set demo_calls" for c f
    using that demo_hyps(4) by (auto simp: demo_calls_def careful_def demo_hash)
qed

text \<open>A channel opened with a cap of 40 and reclaimed after its expiry, with verifiers that accept everything at address 6.\<close>

definition lax_X :: "(account \<Rightarrow> account \<Rightarrow> nat) externals" where
  "lax_X = demo_X \<lparr> x_verifyProof := (\<lambda>v p pub. if v = 7 then Some (pub = demo_pub) else if v = 6 then Some True else None) \<rparr>"

definition demo_channel_calls :: "call list" where
  "demo_channel_calls = drop 2 demo_calls @ [CallSetSpender 3 True, CallSetStream 3 True, CallSetOpenVerifier 6,
     CallOpen \<lparr> pr_a = [], pr_b = [], pr_c = [] \<rparr> [55, 101, 102, 492, 0, 21, 22, 77, 1001, 1002, 40, 800, 5], CallReclaim 77]"

lemma demo_channel_reach: "\<exists>c. chain_reach lax_X (\<lambda>_ _. True) demo_channel_calls c \<and> logged closed_of (cn_log c) = [77] \<and>
    logged nullifier_of (cn_log c) = [55]"
proof (rule run_with)
  show "case run_from_deployment 2 lax_X demo_channel_calls of Inl e \<Rightarrow> False | Inr c \<Rightarrow> logged closed_of (cn_log c) = [77] \<and>
    logged nullifier_of (cn_log c) = [55]"
    by code_simp
qed simp


text \<open>A withdrawal of 30 from the deposited note, with a tree of the circuits' depth and a verifier that accepts its proof only.\<close>

definition exit_signals :: signals where
  "exit_signals = map (\<lambda>(n, v). (n, snum v))
     [(''operationType'', 1), (''withdrawnValue'', 30), (''recipientHash'', 4), (''relayerFee'', 1), (''deadlineLedger'', 5000), (''stateRoot'', 887),
      (''associationRoot'', 750), (''poolId'', 21), (''chainId'', 22), (''quoteHash'', 0), (''intentHash'', 0), (''fillReceiptHash'', 0),
      (''destinationDomain'', 0), (''destinationRecipient'', 0), (''maxFee'', 0), (''minFinalityThreshold'', 0), (''assetId'', 5),
      (''label'', 31), (''value'', 70), (''nullifier'', 32), (''secret'', 33), (''stateIndex'', 0), (''labelIndex'', 0)] @
     [(''stateSiblings'', snums (computeZeros demo_poseidon 11)), (''labelSiblings'', snums [1, 2])]"

definition exit_pub :: "int list" where
  "exit_pub = [805, 1, 30, 4, 1, 5000, 887, 750, 21, 22, 0, 0, 0, 0, 0, 0, 0, 5]"

definition exit_X :: "(account \<Rightarrow> account \<Rightarrow> nat) externals" where
  "exit_X = demo_X \<lparr> x_verifyProof := (\<lambda>v p pub. if v = 7 then Some (pub = demo_pub) else if v = 17 then Some (pub = exit_pub) else None) \<rparr>"

definition exit_calls :: "call list" where
  "exit_calls = drop 2 demo_calls @ [CallSetVerifier WithdrawSlot 17, CallSetSpender 2 True, CallSetAssociationRoot 750]"

lemma exit_circuit: "withdraw_circuit demo_poseidon exit_signals"
  by code_simp

lemma exit_pub_eq: "exit_pub = withdraw_public demo_poseidon exit_signals"
  by code_simp

lemma exit_hyps: "no_code_at_zero exit_X" "deposit_sound exit_X 7" "withdraw_sound exit_X 17" "addressHash exit_X 5 = 5"
proof -
  show "no_code_at_zero exit_X" by (simp add: no_code_at_zero_def exit_X_def)
  show "deposit_sound exit_X 7" using demo_circuit by (auto simp: sound_def exit_X_def demo_X_def demo_pub_eq)
  show "withdraw_sound exit_X 17" using exit_circuit by (auto simp: sound_def exit_X_def demo_X_def exit_pub_eq)
  show "addressHash exit_X 5 = 5" using demo_hash by (simp add: addressHash_def exit_X_def demo_X_def)
qed

lemma exit_reach: "\<exists>c. chain_reach exit_X (careful exit_X) exit_calls c \<and> fr_levels (pl_tree (cn_pool c)) = 12 \<and>
    is_ok (withdraw exit_X 4 \<lparr> pr_a = [], pr_b = [], pr_c = [] \<rparr> exit_pub c)"
proof (rule run_with)
  show "case run_from_deployment 12 exit_X exit_calls of Inl e \<Rightarrow> False | Inr c \<Rightarrow> fr_levels (pl_tree (cn_pool c)) = 12 \<and>
    is_ok (withdraw exit_X 4 \<lparr> pr_a = [], pr_b = [], pr_c = [] \<rparr> exit_pub c)"
    by code_simp
  show "careful exit_X c f" if "f \<in> set exit_calls" for c f
    using that exit_hyps(2-4) by (auto simp: exit_calls_def demo_calls_def careful_def)
qed


section \<open>Properties\<close>

text \<open>C1: over every history of calls to the registry, the pool and the escrow, in any order and by any callers, and however the
  administrators configure them: no nullifier is ever spent twice, the registry's spent flags are exactly the logged ones, and no
  two withdrawals, transfers, RFQ settlements, CCTP exits or committee settlements report the same nullifier.\<close>

theorem notes_spent_once:
  assumes "chain_reach X P fs c"
  shows "distinct (logged nullifier_of (cn_log c)) \<and> (\<forall>n. isSpent n c \<longleftrightarrow> n \<in> set (logged nullifier_of (cn_log c))) \<and>
    distinct (logged settled_of (cn_log c)) \<and> set (logged settled_of (cn_log c)) \<subseteq> set (logged nullifier_of (cn_log c))"
  using log_invariant.holds [OF assms] unfolding log_inv_def by blast

theorem notes_spent_once_witness:
  "\<exists>c. chain_reach lax_X (\<lambda>_ _. True) demo_channel_calls c \<and> logged nullifier_of (cn_log c) = [55] \<and> isSpent 55 c \<and>
     distinct (logged settled_of (cn_log c))"
proof -
  obtain c where c: "chain_reach lax_X (\<lambda>_ _. True) demo_channel_calls c" "logged nullifier_of (cn_log c) = [55]"
    using demo_channel_reach by blast
  from notes_spent_once [OF c(1)] c show ?thesis by (intro exI [of _ c]) simp
qed

text \<open>C2: the books balance. Over every history in which the administrators install verifiers of the right circuits, register assets
  under the hash of their token and authorise only the escrow: for every asset the note supply plus the caps of the open channels is
  what was deposited less what was paid out, the supply is never negative, an asset with a vault has a supply its balance
  covers, and no more is paid out than was deposited.\<close>

theorem pool_books_balance:
  assumes "token_laws X" "no_code_at_zero X" "balances_ok X" "chain_reach X (careful X) fs c"
  shows "pl_noteSupplyOf (cn_pool c) a + reserved (es_channels (cn_escrow c)) a = total_deposited fs a - total_paid fs a \<and>
    0 \<le> pl_noteSupplyOf (cn_pool c) a \<and> total_paid fs a \<le> total_deposited fs a \<and>
    (pl_assetToken (cn_pool c) a \<noteq> 0 \<longrightarrow>
       pl_noteSupplyOf (cn_pool c) a \<le> x_balanceOf X (cn_world c) (pl_assetToken (cn_pool c) a) (pl_self (cn_pool c)))"
proof -
  have i: "acct_inv X fs c" using chain_invariant.holds [OF acct_invariant [OF assms(1-3)] assms(4)] .
  have "0 \<le> reserved (es_channels (cn_escrow c)) a"
    unfolding reserved_def by (rule sum_nonneg) (use i in \<open>auto simp: acct_inv_def caps_ok_def live_def\<close>)
  moreover have "books c a = total_deposited fs a - total_paid fs a" "0 \<le> pl_noteSupplyOf (cn_pool c) a"
    "pl_assetToken (cn_pool c) a \<noteq> 0 \<longrightarrow> pl_noteSupplyOf (cn_pool c) a \<le> vault X c a"
    using i by (simp_all add: acct_inv_def covered_def)
  ultimately show ?thesis unfolding books_def vault_def by linarith
qed

theorem pool_books_balance_witness:
  "\<exists>c. chain_reach demo_X (careful demo_X) demo_calls c \<and> pl_noteSupplyOf (cn_pool c) 5 = 70 \<and> pl_assetToken (cn_pool c) 5 = 5 \<and>
     70 + reserved (es_channels (cn_escrow c)) 5 = total_deposited demo_calls 5 - total_paid demo_calls 5 \<and>
     total_paid demo_calls 5 \<le> total_deposited demo_calls 5"
  using demo_pool_reach pool_books_balance [OF demo_hyps(1-3)] by metis

text \<open>C7: payment channels are opened once and closed once. Over every history a channel id is opened at most once, it is closed at
  most once, by a settlement or by a reclaim but never by both, only an opened channel is closed, and the flags of the escrow say so.
  A settlement pays at most the cap to the payee, against the payer's key recorded at the opening; a reclaim is possible only after the
  expiry and the challenge window have passed.\<close>

theorem channels_closed_once:
  assumes "chain_reach X P fs c"
  shows "distinct (logged opened_of (cn_log c)) \<and> distinct (logged closed_of (cn_log c)) \<and>
    set (logged closed_of (cn_log c)) \<subseteq> set (logged opened_of (cn_log c)) \<and>
    (\<forall>k. ch_opened (es_channels (cn_escrow c) k) \<longleftrightarrow> k \<in> set (logged opened_of (cn_log c))) \<and>
    (\<forall>k. ch_consumed (es_channels (cn_escrow c) k) \<longleftrightarrow> k \<in> set (logged closed_of (cn_log c))) \<and>
    (\<forall>p pub c'. es_settle X p pub c = Ok c' \<longrightarrow> pub ! 5 \<in> set (logged opened_of (cn_log c)) - set (logged closed_of (cn_log c)) \<and>
       pub ! 9 \<le> ch_cap (es_channels (cn_escrow c) (pub ! 5)) \<and> pub ! 6 = ch_payerAx (es_channels (cn_escrow c) (pub ! 5)) \<and>
       pub ! 7 = ch_payerAy (es_channels (cn_escrow c) (pub ! 5)) \<and> pub ! 5 \<in> set (logged closed_of (cn_log c'))) \<and>
    (\<forall>k c'. reclaim X k c = Ok c' \<longrightarrow> k \<in> set (logged opened_of (cn_log c)) - set (logged closed_of (cn_log c)) \<and>
       ch_expiry (es_channels (cn_escrow c) k) + es_challengeWindow (cn_escrow c) < cn_block c \<and> k \<in> set (logged closed_of (cn_log c')))"
proof -
  note i = log_invariant.holds [OF assms, unfolded log_inv_def]
  have s: "ch_opened (es_channels (cn_escrow c) (pub ! 5)) \<and> \<not> ch_consumed (es_channels (cn_escrow c) (pub ! 5)) \<and>
      pub ! 9 \<le> ch_cap (es_channels (cn_escrow c) (pub ! 5)) \<and> pub ! 6 = ch_payerAx (es_channels (cn_escrow c) (pub ! 5)) \<and>
      pub ! 7 = ch_payerAy (es_channels (cn_escrow c) (pub ! 5)) \<and> pub ! 5 \<in> set (logged closed_of (cn_log c'))"
    if "es_settle X p pub c = Ok c'" for p pub c'
  proof -
    have "es_settle_one X p pub c = Ok c'" using that by (simp add: es_settle_def)
    then show ?thesis by (rule es_settle_one_E) (auto simp: log_ev_def)
  qed
  have r: "ch_opened (es_channels (cn_escrow c) k) \<and> \<not> ch_consumed (es_channels (cn_escrow c) k) \<and>
      ch_expiry (es_channels (cn_escrow c) k) + es_challengeWindow (cn_escrow c) < cn_block c \<and> k \<in> set (logged closed_of (cn_log c'))"
    if "reclaim X k c = Ok c'" for k c'
    using that by (rule reclaim_E) (auto simp: log_ev_def)
  show ?thesis using i s r by blast
qed

theorem channels_closed_once_witness:
  "\<exists>c. chain_reach lax_X (\<lambda>_ _. True) demo_channel_calls c \<and> logged closed_of (cn_log c) = [77] \<and>
     77 \<in> set (logged opened_of (cn_log c)) \<and> ch_consumed (es_channels (cn_escrow c) 77)"
proof -
  obtain c where c: "chain_reach lax_X (\<lambda>_ _. True) demo_channel_calls c" "logged closed_of (cn_log c) = [77]"
    using demo_channel_reach by blast
  from channels_closed_once [OF c(1)] c show ?thesis by (intro exI [of _ c]) simp
qed


text \<open>C8: the pool's tree is the off-chain tree. Over every history in which only the escrow is authorised to insert, the contract's
  root is the root that \<open>buildMerkleTree\<close> computes from the commitments announced in the log, in log order, the leaf count is their
  number, and the roots a proof may refer to are exactly the roots of prefixes of that list.\<close>

theorem pool_tree_is_offchain_tree:
  assumes "chain_reach X escrow_only fs c" "fr_levels (pl_tree (cn_pool c)) < 31"
  shows "\<exists>tree. buildMerkleTree (x_poseidon X) (logged leaves_of (cn_log c)) (fr_levels (pl_tree (cn_pool c))) = Ok tree \<and>
    pool_root c = mt_root tree \<and> fr_next (pl_tree (cn_pool c)) = length (logged leaves_of (cn_log c)) \<and>
    (\<forall>r. isKnownRoot (pl_tree (cn_pool c)) r \<longleftrightarrow> r \<noteq> 0 \<and> (\<exists>n past. n \<le> length (logged leaves_of (cn_log c)) \<and>
       buildMerkleTree (x_poseidon X) (take n (logged leaves_of (cn_log c))) (fr_levels (pl_tree (cn_pool c))) = Ok past \<and> r = mt_root past))"
proof -
  let ?xs = "logged leaves_of (cn_log c)" and ?t = "pl_tree (cn_pool c)" and ?pos = "x_poseidon X"
  have i: "frontier_of ?pos ?xs ?t" "past_roots ?pos ?xs ?t" using tree_invariant.holds [OF assms(1)] by (simp_all add: tree_inv_def)
  have len: "length ?xs \<le> 2 ^ fr_levels ?t" using i(1) by (simp add: frontier_of_def)
  have b: "\<exists>past. buildMerkleTree ?pos (take n ?xs) (fr_levels ?t) = Ok past \<and>
      mt_root past = node_at (tree_hash ?pos) (leaf_fun (take n ?xs)) (fr_levels ?t) 0" for n
    using buildMerkleTree_ok [OF assms(2), of "take n ?xs" ?pos] len by (auto simp: is_tree_of_def min.coboundedI1)
  from b [of "length ?xs"] obtain tree where tree: "buildMerkleTree ?pos ?xs (fr_levels ?t) = Ok tree"
    "mt_root tree = node_at (tree_hash ?pos) (leaf_fun ?xs) (fr_levels ?t) 0" by auto
  have known: "fr_known ?t r \<longleftrightarrow> (\<exists>n past. n \<le> length ?xs \<and> buildMerkleTree ?pos (take n ?xs) (fr_levels ?t) = Ok past \<and> r = mt_root past)" for r
  proof
    assume "fr_known ?t r"
    then obtain n where "n \<le> length ?xs" "r = node_at (tree_hash ?pos) (leaf_fun (take n ?xs)) (fr_levels ?t) 0"
      using i(2) unfolding past_roots_def by blast
    with b [of n] show "\<exists>n past. n \<le> length ?xs \<and> buildMerkleTree ?pos (take n ?xs) (fr_levels ?t) = Ok past \<and> r = mt_root past" by metis
  next
    assume "\<exists>n past. n \<le> length ?xs \<and> buildMerkleTree ?pos (take n ?xs) (fr_levels ?t) = Ok past \<and> r = mt_root past"
    then obtain n past where n: "n \<le> length ?xs" "buildMerkleTree ?pos (take n ?xs) (fr_levels ?t) = Ok past" "r = mt_root past" by blast
    then have "r = node_at (tree_hash ?pos) (leaf_fun (take n ?xs)) (fr_levels ?t) 0" using b [of n] by auto
    then show "fr_known ?t r" using i(1) n(1) unfolding frontier_of_def by blast
  qed
  show ?thesis using tree i(1) by (auto simp: pool_root_def frontier_of_def isKnownRoot_def known)
qed

theorem pool_tree_is_offchain_tree_witness:
  "\<exists>c tree. chain_reach demo_X escrow_only demo_calls c \<and> logged leaves_of (cn_log c) = [demo_pub ! 0] \<and>
     buildMerkleTree demo_poseidon [demo_pub ! 0] 2 = Ok tree \<and> pool_root c = mt_root tree"
proof -
  obtain c where c: "chain_reach demo_X (careful demo_X) demo_calls c" "logged leaves_of (cn_log c) = [demo_pub ! 0]"
    "fr_levels (pl_tree (cn_pool c)) = 2" using demo_pool_reach by blast
  have r: "chain_reach demo_X escrow_only demo_calls c" by (rule chain_reach_mono [OF c(1) careful_escrow_only])
  from pool_tree_is_offchain_tree [OF r] c r show ?thesis by (auto simp: demo_X_def)
qed

text \<open>The siblings a circuit input carries are field elements, as every signal is.\<close>

lemma sigN_field [simp]: "list_all field_elem (sigN i n)"
  by (auto simp: sigN_def list_all_iff field_elem_def bn254_r_def fe_def split: option.splits signal.splits)

text \<open>An inclusion check against a root the pool knows is about the leaves announced so far: the pool knows only the roots of its own past
  trees.\<close>

lemma known_root_binding:
  assumes "tree_inv X c" "fr_levels (pl_tree (cn_pool c)) = depth" "depth < 31" "isKnownRoot (pl_tree (cn_pool c)) r"
    and "merkle_circuit (x_poseidon X) depth x i ss = Some r"
  shows "\<exists>n tree pr. buildMerkleTree (x_poseidon X) (take n (logged leaves_of (cn_log c))) depth = Ok tree \<and> r = mt_root tree \<and>
    getMerkleProof tree i = Ok pr \<and> (x \<in> set (take n (logged leaves_of (cn_log c))) \<or> x = 0 \<or>
      paths_collide (makeSyncHash2 (x_poseidon X)) (nat i) x ss (leaf_fun (take n (logged leaves_of (cn_log c))) (nat i)) (mp_siblings pr))"
proof -
  let ?pos = "x_poseidon X" and ?xs = "logged leaves_of (cn_log c)"
  have t: "frontier_of ?pos ?xs (pl_tree (cn_pool c))" "past_roots ?pos ?xs (pl_tree (cn_pool c))"
    using assms(1) by (simp_all add: tree_inv_def)
  obtain n where n: "r = node_at (tree_hash ?pos) (leaf_fun (take n ?xs)) depth 0"
    using assms(2,4) t(2) unfolding isKnownRoot_def past_roots_def by (auto split: if_splits)
  have "length (take n ?xs) \<le> 2 ^ depth" using t(1) assms(2) by (simp add: frontier_of_def min.coboundedI1)
  then obtain tree where tree: "buildMerkleTree ?pos (take n ?xs) depth = Ok tree" "is_tree_of ?pos (take n ?xs) depth tree"
    using buildMerkleTree_ok [OF assms(3), of "take n ?xs" ?pos] by auto
  have r: "r = mt_root tree" using n tree(2) by (simp add: is_tree_of_def)
  have "leaf_fun (take n ?xs) (nat i) = 0 \<or> leaf_fun (take n ?xs) (nat i) \<in> set (take n ?xs)"
    using nth_mem [of "nat i" "take n ?xs"] by (simp add: leaf_fun_def)
  with merkle_circuit_binding [OF tree(2) assms(3)] assms(5) r tree(1) show ?thesis by metis
qed

text \<open>C3: what a withdrawal pays for. In every history with a careful administration, a withdrawal that returns spends a nullifier that
  was not spent before, pays the amount less the fee to the recipient the proof is bound to, and behind it is a note (value, label,
  nullifier, secret: field elements) that opens the nullifier, covers the amount, has its label in the current association set and has a
  path to the root of the pool's own tree over the commitments announced up to some point. The note's commitment is one of these
  announced commitments, unless it is 0 (the empty leaf), or this path and the tree's own path at that index hash two different pairs to
  one value on some level.\<close>

theorem withdrawal_spends_announced_note:
  assumes "no_code_at_zero X" "chain_reach X (careful X) fs c" "fr_levels (pl_tree (cn_pool c)) = 12" "withdraw X to p pub c = Ok c'"
  shows "\<not> isSpent (pub ! 0) c \<and> isSpent (pub ! 0) c' \<and> pub ! 3 = addressHash X to \<and>
    x_transfer X (cn_world c) (pl_assetToken (cn_pool c) (pub ! 17)) (pl_self (cn_pool c)) to (pub ! 2 - pub ! 4) = Some (cn_world c') \<and>
    (\<exists>v label nullifier secret K idx sibs labelIdx labelSibs n tree pr.
       list_all field_elem ([v, label, nullifier, secret] @ sibs @ labelSibs) \<and>
       pub ! 0 = x_poseidon X [nullifier, pub ! 8, pub ! 9] \<and> pub ! 2 \<le> v \<and> pub ! 4 \<le> pub ! 2 \<and>
       merkle_circuit (x_poseidon X) 2 label labelIdx labelSibs = Some (pl_associationRoot (cn_pool c)) \<and>
       K = commitment_circuit (x_poseidon X) (pub ! 17) v label nullifier secret \<and>
       merkle_circuit (x_poseidon X) 12 K idx sibs = Some (mt_root tree) \<and>
       buildMerkleTree (x_poseidon X) (take n (logged leaves_of (cn_log c))) 12 = Ok tree \<and> getMerkleProof tree idx = Ok pr \<and>
       (K \<in> set (take n (logged leaves_of (cn_log c))) \<or> K = 0 \<or>
        paths_collide (makeSyncHash2 (x_poseidon X)) (nat idx) K sibs
          (leaf_fun (take n (logged leaves_of (cn_log c))) (nat idx)) (mp_siblings pr)))"
proof (rule withdraw_E [OF assms(4)])
  let ?pos = "x_poseidon X" and ?xs = "logged leaves_of (cn_log c)"
  fix c1 w c2
  assume a: "spend (pl_self (cn_pool c)) (pub ! 0) c = Ok c1"
    "x_transfer X (cn_world c) (pl_assetToken (cn_pool c) (pub ! 17)) (pl_self (cn_pool c)) to (pub ! 2 - pub ! 4) = Some w"
    "adjustNoteSupply X (pub ! 17) (- int256 (pub ! 2)) (c1 \<lparr> cn_world := w \<rparr>) = Ok c2"
    "c' = log_ev (Withdraw to (pub ! 0) (pub ! 2 - pub ! 4) (pub ! 4)) c2" "pub ! 4 \<le> pub ! 2" "pub ! 3 = addressHash X to"
    "isKnownRoot (pl_tree (cn_pool c)) (pub ! 6)" "pub ! 7 = pl_associationRoot (cn_pool c)"
    "x_verifyProof X (pl_withdrawVerifier (cn_pool c)) p pub = Some True"
  note keeps = spend_keeps [OF a(1)] adjustNoteSupply_keeps [OF a(3)]
  have "configured X c" using chain_invariant.holds [OF config_invariant [OF assms(1)] assms(2)] .
  then obtain i where i: "withdraw_circuit ?pos i" "pub = withdraw_public ?pos i"
    using a(9) unfolding configured_def sound_def by blast
  define K where "K = commitment_circuit ?pos (sig1 i ''assetId'') (sig1 i ''value'') (sig1 i ''label'') (sig1 i ''nullifier'') (sig1 i ''secret'')"
  have p: "pub ! 0 = ?pos [sig1 i ''nullifier'', pub ! 8, pub ! 9]" "pub ! 2 = sig1 i ''withdrawnValue''" "pub ! 6 = sig1 i ''stateRoot''"
    "pub ! 7 = sig1 i ''associationRoot''" "pub ! 17 = sig1 i ''assetId''"
    by (simp_all add: i(2) withdraw_public_def)
  have circ: "merkle_circuit ?pos 12 K (sig1 i ''stateIndex'') (sigN i ''stateSiblings'') = Some (pub ! 6)"
    "merkle_circuit ?pos 2 (sig1 i ''label'') (sig1 i ''labelIndex'') (sigN i ''labelSiblings'') = Some (pl_associationRoot (cn_pool c))"
    using i(1) a(8) unfolding withdraw_circuit_def K_def p by simp_all
  have inv: "tree_inv X c" using tree_invariant.holds [OF chain_reach_mono [OF assms(2) careful_escrow_only]] .
  obtain n tree pr where b: "buildMerkleTree ?pos (take n ?xs) 12 = Ok tree" "pub ! 6 = mt_root tree"
    "getMerkleProof tree (sig1 i ''stateIndex'') = Ok pr"
    "K \<in> set (take n ?xs) \<or> K = 0 \<or> paths_collide (tree_hash ?pos) (nat (sig1 i ''stateIndex'')) K (sigN i ''stateSiblings'')
       (leaf_fun (take n ?xs) (nat (sig1 i ''stateIndex''))) (mp_siblings pr)"
    using known_root_binding [OF inv assms(3) _ a(7) circ(1)] by auto
  have e: "list_all field_elem ([sig1 i ''value'', sig1 i ''label'', sig1 i ''nullifier'', sig1 i ''secret''] @
        sigN i ''stateSiblings'' @ sigN i ''labelSiblings'') \<and>
      pub ! 0 = ?pos [sig1 i ''nullifier'', pub ! 8, pub ! 9] \<and> pub ! 2 \<le> sig1 i ''value'' \<and> pub ! 4 \<le> pub ! 2 \<and>
      merkle_circuit ?pos 2 (sig1 i ''label'') (sig1 i ''labelIndex'') (sigN i ''labelSiblings'') = Some (pl_associationRoot (cn_pool c)) \<and>
      K = commitment_circuit ?pos (pub ! 17) (sig1 i ''value'') (sig1 i ''label'') (sig1 i ''nullifier'') (sig1 i ''secret'') \<and>
      merkle_circuit ?pos 12 K (sig1 i ''stateIndex'') (sigN i ''stateSiblings'') = Some (mt_root tree) \<and>
      buildMerkleTree ?pos (take n ?xs) 12 = Ok tree \<and> getMerkleProof tree (sig1 i ''stateIndex'') = Ok pr \<and>
      (K \<in> set (take n ?xs) \<or> K = 0 \<or> paths_collide (tree_hash ?pos) (nat (sig1 i ''stateIndex'')) K (sigN i ''stateSiblings'')
         (leaf_fun (take n ?xs) (nat (sig1 i ''stateIndex''))) (mp_siblings pr))"
    by (intro conjI p(1) a(5) circ(2) circ(1) [unfolded b(2)] b(1,3,4))
      (use withdraw_circuit_conserves [OF i(1)] p(2) in \<open>simp_all add: K_def p(5)\<close>)
  have world: "cn_world c' = w" "\<not> isSpent (pub ! 0) c" "isSpent (pub ! 0) c'"
    using keeps a(1) by (simp_all add: a(4) log_ev_def isSpent_def spend_Ok)
  show ?thesis
    by (rule conjI [OF world(2)], rule conjI [OF world(3)], rule conjI [OF a(6)], rule conjI [OF a(2) [folded world(1)]], intro exI, rule e)
qed

theorem withdrawal_spends_announced_note_witness:
  "\<exists>c c'. withdraw exit_X 4 \<lparr> pr_a = [], pr_b = [], pr_c = [] \<rparr> exit_pub c = Ok c' \<and> isSpent (exit_pub ! 0) c' \<and>
     exit_pub ! 3 = addressHash exit_X 4"
proof -
  obtain c c' where c: "chain_reach exit_X (careful exit_X) exit_calls c" "fr_levels (pl_tree (cn_pool c)) = 12"
    "withdraw exit_X 4 \<lparr> pr_a = [], pr_b = [], pr_c = [] \<rparr> exit_pub c = Ok c'" using exit_reach by (auto simp: is_ok_iff)
  from withdrawal_spends_announced_note [OF exit_hyps(1) c] c(3) show ?thesis by blast
qed

text \<open>C4: a committee settlement needs the committee. Whenever \<open>mpcSettle\<close> or \<open>mpcSettlePriced\<close> returns, the caller presented distinct
  members of the registered committee, at least two thirds of it, each with a valid ed25519 signature over the batch hash, the proof is bound
  to that batch hash, and it spends two different nullifiers neither of which was spent before.\<close>

theorem committee_gates_settlement:
  assumes "mpcSettle X b ks sgs p pub c = Ok c' \<or> mpcSettlePriced X b ks sgs p pub c = Ok c'"
  shows "pl_committee (cn_pool c) \<noteq> [] \<and> distinct ks \<and> set ks \<subseteq> set (pl_committee (cn_pool c)) \<and>
    2 * length (pl_committee (cn_pool c)) \<le> 3 * length ks \<and>
    (\<forall>j<length ks. x_ed25519 X (pl_ed25519Verifier (cn_pool c)) (ks ! j) (packed 32 b) (sgs ! j) = Some True) \<and>
    pub ! 6 = hashToField X b \<and> pub ! 0 \<noteq> pub ! 1 \<and> \<not> isSpent (pub ! 0) c \<and> \<not> isSpent (pub ! 1) c \<and>
    isSpent (pub ! 0) c' \<and> isSpent (pub ! 1) c'"
proof -
  have t: "verifyThreshold (x_ed25519 X (pl_ed25519Verifier (cn_pool c))) (pl_committee (cn_pool c)) b ks sgs = Ok ()"
    "pub ! 6 = hashToField X b" "settles_pair X b pub c c'"
    using assms mpcSettle_E mpcSettlePriced_E by metis+
  from t(3) obtain c1 c2 i c3 j c4 where a: "spend (pl_self (cn_pool c)) (pub ! 0) c = Ok c1"
    "spend (pl_self (cn_pool c)) (pub ! 1) c1 = Ok c2" "pool_insert X (pub ! 2) c2 = Ok (i, c3)" "pool_insert X (pub ! 3) c3 = Ok (j, c4)"
    "c' = log_ev (MpcSettled b (pub ! 0) (pub ! 1) (pub ! 2) (pub ! 3) (pool_root c4)) c4"
    unfolding settles_pair_def by blast
  have "pub ! 0 \<noteq> pub ! 1 \<and> \<not> isSpent (pub ! 0) c \<and> \<not> isSpent (pub ! 1) c"
    using a(1,2) spend_keeps(6) [OF a(1)] by (auto simp: spend_Ok chain_defs isSpent_def split: if_splits)
  moreover have "isSpent (pub ! 0) c' \<and> isSpent (pub ! 1) c'"
    using spend_keeps(6) [OF a(1)] spend_keeps(6) [OF a(2)] pool_insert_keeps(1) [OF a(3)] pool_insert_keeps(1) [OF a(4)]
    by (simp add: a(5) log_ev_def isSpent_def)
  ultimately show ?thesis using t(2) t(1)[unfolded verifyThreshold_Ok] by blast
qed

definition committee_calls :: "call list" where
  "committee_calls = [CallSetCommittee [1, 2, 3], CallSetVerifier Ed25519Slot 8, CallSetVerifier MpcSlot 6, CallSetSpender 2 True,
     CallSetAssociationRoot 750]"

lemma committee_run:
  "case run_from_deployment 2 lax_X committee_calls of Inl e \<Rightarrow> False | Inr c \<Rightarrow>
     is_ok (mpcSettle lax_X 33 [1, 3] [[1], [3]] \<lparr> pr_a = [], pr_b = [], pr_c = [] \<rparr> [61, 62, 63, 64, 386, 750, 33, 21, 22, 40, 5000, 5] c)"
  by code_simp

theorem committee_gates_settlement_witness:
  "\<exists>c c'. mpcSettle lax_X 33 [1, 3] [[1], [3]] \<lparr> pr_a = [], pr_b = [], pr_c = [] \<rparr> [61, 62, 63, 64, 386, 750, 33, 21, 22, 40, 5000, 5] c = Ok c' \<and>
     set [1, 3] \<subseteq> set (pl_committee (cn_pool c)) \<and> \<not> isSpent 61 c \<and> isSpent 61 c' \<and> isSpent 62 c'"
proof -
  obtain c c' where c: "mpcSettle lax_X 33 [1, 3] [[1], [3]] \<lparr> pr_a = [], pr_b = [], pr_c = [] \<rparr>
      [61, 62, 63, 64, 386, 750, 33, 21, 22, 40, 5000, 5] c = Ok c'"
    using committee_run by (auto simp: is_ok_iff split: sum.splits)
  from committee_gates_settlement [OF disjI1, OF c] c show ?thesis by auto
qed

end
