(* ===== verification/SpendPages.thy ===== *)
theory SpendPages
  imports Rfq Hex
begin

text \<open>
  The browser's deposit, withdrawal and trade: the API client \<open>frontend/lib/api.ts\<close> with \<open>token.ts\<close>, the signing helper
  \<open>frontend/lib/freighter-withdraw.ts\<close>, the actions of \<open>frontend/app/(app)/move/page.tsx\<close> and \<open>frontend/app/(app)/deposit/page.tsx\<close>, and the
  selections of \<open>hooks.ts\<close>, \<open>vault-hooks.ts\<close> and \<open>privy-wallets.ts\<close>. What the API, the wallets and the chains answer is a parameter,
  a function of everything that was asked before; the trace keeps every question with its answer. Rendering, time and
  gas prices are not modelled.
\<close>

section \<open>Questions, answers and statements\<close>

record page_request =
  pq_method :: string
  pq_path :: string
  pq_headers :: "(string \<times> string) list"
  pq_body :: "string option"

datatype chain_arg = BigArg int | PlainArg jsval

datatype web_event =
  Fetched page_request "(nat \<times> string \<times> string) option"
| Accessed "(string, string option) result"
| Addressed "(string, string option) result"
| Networked "(string, string) result"
| Account string "(string, unit) result"
| Prepared string string bytes bytes "(string, string) result"
| Signed string string "(string, string) result"
| Sent string "(string, string \<times> string) result"
| TxStatus string "(string, string) result"
| SwitchedChain "(string, unit) result"
| WroteContract string string string "chain_arg list" "(string, string) result"
| Receipt string "(string, bool) result"
| MessageSigned string string "(string, string) result"
| PasskeyMade string string "(string, (bytes \<times> bytes option \<times> bool option) option) result"
| PasskeyUsed bytes "(string, bytes option option) result"
| ChainId "(string, int) result"
| Allowance string string string "(string, int) result"

text \<open>An error of the API carries its \<open>error\<close> member; any other is a message. \<open>AnyError\<close> names the message by its cause.\<close>

datatype web_error =
  ApiError nat jsval
| AnyError string
| TypeErr

record web_world =
  ww_token :: "web_event list \<Rightarrow> string option"
  ww_fetch :: "web_event list \<Rightarrow> page_request \<Rightarrow> (nat \<times> string \<times> string) option"
  ww_requestAccess :: "web_event list \<Rightarrow> (string, string option) result"
  ww_getAddress :: "web_event list \<Rightarrow> (string, string option) result"
  ww_network :: "web_event list \<Rightarrow> (string, string) result"
  ww_account :: "web_event list \<Rightarrow> string \<Rightarrow> (string, unit) result"
  ww_prepare :: "web_event list \<Rightarrow> string \<Rightarrow> string \<Rightarrow> bytes \<Rightarrow> bytes \<Rightarrow> (string, string) result"
  ww_sign :: "web_event list \<Rightarrow> string \<Rightarrow> string \<Rightarrow> (string, string) result"
  ww_send :: "web_event list \<Rightarrow> string \<Rightarrow> (string, string \<times> string) result"
  ww_txStatus :: "web_event list \<Rightarrow> string \<Rightarrow> (string, string) result"
  ww_switchChain :: "web_event list \<Rightarrow> (string, unit) result"
  ww_writeContract :: "web_event list \<Rightarrow> string \<Rightarrow> string \<Rightarrow> string \<Rightarrow> chain_arg list \<Rightarrow> (string, string) result"
  ww_receipt :: "web_event list \<Rightarrow> string \<Rightarrow> (string, bool) result"
  ww_signMessage :: "web_event list \<Rightarrow> string \<Rightarrow> string \<Rightarrow> (string, string) result"
  ww_passkeyCreate :: "web_event list \<Rightarrow> string \<Rightarrow> string \<Rightarrow> (string, (bytes \<times> bytes option \<times> bool option) option) result"
  ww_passkeyGet :: "web_event list \<Rightarrow> bytes \<Rightarrow> (string, bytes option option) result"
  ww_chainId :: "web_event list \<Rightarrow> (string, int) result"
  ww_allowance :: "web_event list \<Rightarrow> string \<Rightarrow> string \<Rightarrow> string \<Rightarrow> (string, int) result"

record 'p web_state =
  ws_trace :: "web_event list"
  ws_page :: 'p

type_synonym ('p, 'a) web = "('p web_state, web_error, 'a) stmt"

definition give_back :: "'a \<Rightarrow> ('p, 'a) web" where
  "give_back x s = (Ok x, s)"

definition fail_with :: "web_error \<Rightarrow> ('p, 'a) web" where
  "fail_with e s = (Throw e, s)"

definition on_page :: "('p \<Rightarrow> 'p) \<Rightarrow> ('p, unit) web" where
  "on_page f s = (Ok (), s \<lparr> ws_page := f (ws_page s) \<rparr>)"

text \<open>Ask, keep question and answer, and go on; a rejected promise is an error.\<close>

definition ask :: "(web_event list \<Rightarrow> (string, 'a) result) \<Rightarrow> ((string, 'a) result \<Rightarrow> web_event) \<Rightarrow> ('p, 'a) web" where
  "ask q ev s = (let r = q (ws_trace s) in
     (case r of Inl e \<Rightarrow> Throw (AnyError e) | Inr x \<Rightarrow> Ok x, s \<lparr> ws_trace := ws_trace s @ [ev r] \<rparr>))"


section \<open>The API client\<close>

text \<open>\<open>getAccessToken\<close>: no getter, or one that throws, gives \<open>null\<close>.\<close>

definition getAccessToken :: "(web_event list \<Rightarrow> (string, string option) result) option \<Rightarrow> web_event list \<Rightarrow> string option" where
  "getAccessToken getter tr = (case getter of None \<Rightarrow> None | Some f \<Rightarrow> (case f tr of Inl _ \<Rightarrow> None | Inr t \<Rightarrow> t))"

definition safeJson :: "string \<Rightarrow> jsval" where
  "safeJson t = (case json_parse t of None \<Rightarrow> VStr t | Some v \<Rightarrow> v)"

definition req_headers :: "string option \<Rightarrow> bool \<Rightarrow> string option \<Rightarrow> (string \<times> string) list" where
  "req_headers token hasBody idk =
    (if hasBody then [(''content-type'', ''application/json'')] else []) @
    (case token of None \<Rightarrow> [] | Some t \<Rightarrow> if t = [] then [] else [(''authorization'', ''Bearer '' @ t)]) @
    (case idk of None \<Rightarrow> [] | Some k \<Rightarrow> if k = [] then [] else [(''idempotency-key'', k)])"

definition req :: "web_world \<Rightarrow> string \<Rightarrow> string \<Rightarrow> jsval option \<Rightarrow> string option \<Rightarrow> bool \<Rightarrow> ('p, jsval) web" where
  "req w meth path body idk auth s =
    (let token = (if auth then ww_token w (ws_trace s) else None);
         q = \<lparr> pq_method = meth, pq_path = path, pq_headers = req_headers token (body \<noteq> None) idk, pq_body = map_option stringify body \<rparr>;
         ans = ww_fetch w (ws_trace s) q; s1 = s \<lparr> ws_trace := ws_trace s @ [Fetched q ans] \<rparr> in
     (case ans of
        None \<Rightarrow> (Throw (AnyError ''fetch failed''), s1)
      | Some (code, statusText, body) \<Rightarrow>
         let data = (if body = [] then VNull else safeJson body) in
         if \<not> http_ok code then (Throw (ApiError code (nullish (js_get data ''error'') (VStr statusText))), s1) else (Ok data, s1)))"

definition api_get :: "web_world \<Rightarrow> string \<Rightarrow> ('p, jsval) web" where
  "api_get w path = req w ''GET'' path None None True"

definition api_post :: "web_world \<Rightarrow> string \<Rightarrow> jsval option \<Rightarrow> string option \<Rightarrow> ('p, jsval) web" where
  "api_post w path body idk = req w ''POST'' path body idk True"

text \<open>\<open>x.k\<close> throws for \<open>null\<close> and \<open>undefined\<close>.\<close>

definition dot :: "jsval \<Rightarrow> string \<Rightarrow> ('p, jsval) web" where
  "dot v k = (if v = VNull \<or> v = VUndef then fail_with TypeErr else give_back (js_get v k))"


section \<open>Signing with Freighter\<close>

definition PASSPHRASE :: string where
  "PASSPHRASE = ''Test SDF Network ; September 2015''"

text \<open>A wallet that does not answer in time is an error of the question. An empty address counts as none.\<close>

definition connectFreighter :: "web_world \<Rightarrow> ('p, string) web" where
  "connectFreighter w =
    andThen (ask (ww_requestAccess w) Accessed) (\<lambda>access.
    andThen (case access of
        Some a \<Rightarrow> if a = [] then ask (ww_getAddress w) Addressed else give_back (Some a)
      | None \<Rightarrow> ask (ww_getAddress w) Addressed) (\<lambda>addr.
    (case addr of
       None \<Rightarrow> fail_with (AnyError ''Freighter is locked'')
     | Some a \<Rightarrow>
        if a = [] then fail_with (AnyError ''Freighter is locked'')
        else andThen (ask (ww_network w) Networked) (\<lambda>net.
          if net \<noteq> PASSPHRASE then fail_with (AnyError ''Switch Freighter to the Testnet network'') else give_back a))))"

definition upper_char :: "char \<Rightarrow> char" where
  "upper_char c = (let n = of_char c :: nat in if 97 \<le> n \<and> n \<le> 122 then char_of (n - 32) else c)"

definition upper :: "string \<Rightarrow> string" where
  "upper = map upper_char"

definition bytesScVal :: "string \<Rightarrow> bytes" where
  "bytesScVal hex = from_hex (if take 2 hex = ''0x'' then drop 2 hex else hex)"

fun confirm_loop :: "web_world \<Rightarrow> string \<Rightarrow> nat \<Rightarrow> ('p, string) web" where
  "confirm_loop w hash 0 = fail_with (AnyError ''withdraw tx not confirmed in time'')"
| "confirm_loop w hash (Suc n) =
    andThen (ask (\<lambda>tr. ww_txStatus w tr hash) (TxStatus hash)) (\<lambda>status.
    if status = ''SUCCESS'' then give_back hash
    else if status = ''FAILED'' then fail_with (AnyError ''withdraw tx failed on-chain'')
    else confirm_loop w hash n)"

text \<open>\<open>onStatus\<close> writes the status to the page.\<close>

definition freighterWithdraw :: "web_world \<Rightarrow> (string \<Rightarrow> 'p \<Rightarrow> 'p) \<Rightarrow> string \<Rightarrow> string \<Rightarrow> string \<Rightarrow> string \<Rightarrow> ('p, string) web" where
  "freighterWithdraw w onStatus pool recipient proofHex publicHex =
    andThen (ask (ww_getAddress w) Addressed) (\<lambda>addr.
    (case addr of
       None \<Rightarrow> fail_with (AnyError ''connect Freighter first'')
     | Some active \<Rightarrow>
        if active = [] then fail_with (AnyError ''connect Freighter first'')
        else if upper active \<noteq> upper recipient then fail_with (AnyError ''switch to the withdraw account'')
        else
          andThen (on_page (onStatus ''building withdraw transaction'')) (\<lambda>_.
          andThen (ask (\<lambda>tr. ww_account w tr recipient) (Account recipient)) (\<lambda>_.
          andThen (on_page (onStatus ''simulating (footprint + auth)'')) (\<lambda>_.
          andThen (ask (\<lambda>tr. ww_prepare w tr pool recipient (bytesScVal proofHex) (bytesScVal publicHex))
              (Prepared pool recipient (bytesScVal proofHex) (bytesScVal publicHex))) (\<lambda>xdr.
          andThen (on_page (onStatus ''awaiting your signature in Freighter'')) (\<lambda>_.
          andThen (ask (\<lambda>tr. ww_sign w tr xdr recipient) (Signed xdr recipient)) (\<lambda>signedXdr.
          andThen (on_page (onStatus ''submitting to Stellar'')) (\<lambda>_.
          andThen (ask (\<lambda>tr. ww_send w tr signedXdr) (Sent signedXdr)) (\<lambda>(status, hash).
          if status = ''ERROR'' then fail_with (AnyError ''submit failed'') else confirm_loop w hash 30))))))))))"


section \<open>Notes and vaults\<close>

record note_row =
  nw_commitment :: string
  nw_amount_usdc_7dp :: string
  nw_status :: string

definition active_notes :: "note_row list \<Rightarrow> note_row list" where
  "active_notes notes = filter (\<lambda>n. nw_status n = ''active'') notes"

text \<open>The balance in units of \<open>10\<^sup>-\<^sup>7\<close> USDC, for amounts that are decimal numerals.\<close>

definition balance_7dp :: "note_row list \<Rightarrow> int option" where
  "balance_7dp notes = fold (\<lambda>n acc. case (acc, parse_nat (nw_amount_usdc_7dp n)) of (Some a, Some v) \<Rightarrow> Some (a + int v) | _ \<Rightarrow> None)
     (active_notes notes) (Some 0)"

definition chosen_commitment :: "note_row list \<Rightarrow> string option \<Rightarrow> string option" where
  "chosen_commitment notes selected =
    (case selected of Some c \<Rightarrow> Some c | None \<Rightarrow> (case active_notes notes of [] \<Rightarrow> None | n # _ \<Rightarrow> Some (nw_commitment n)))"

record vault_summary =
  vs_vault_id :: string
  vs_backup_status :: string
  vs_recovery_policy_status :: string

definition isDepositReady :: "vault_summary option \<Rightarrow> bool" where
  "isDepositReady v = (case v of None \<Rightarrow> False
     | Some v \<Rightarrow> vs_backup_status v = ''verified'' \<and> (vs_recovery_policy_status v = ''sufficient'' \<or> vs_recovery_policy_status v = ''strong''))"

record linked_account =
  la_type :: "string option"
  la_address :: "string option"
  la_chainType :: "string option"
  la_walletClientType :: "string option"
  la_walletClient :: "string option"
  la_id :: "string option"

record sync_wallet =
  sw_wallet_type :: string
  sw_wallet_source :: string
  sw_chain :: string
  sw_address :: string
  sw_privy_wallet_id :: "string option"

definition wallet_of_account :: "linked_account \<Rightarrow> sync_wallet option" where
  "wallet_of_account a =
    (case (la_type a, la_address a) of
       (Some ty, Some addr) \<Rightarrow>
         if ty \<noteq> ''wallet'' \<or> addr = [] then None
         else let isEvm = (case la_chainType a of None \<Rightarrow> True | Some t \<Rightarrow> t = ''ethereum'');
                  kind = (case la_walletClientType a of Some t \<Rightarrow> Some t | None \<Rightarrow> la_walletClient a) in
           Some \<lparr> sw_wallet_type = (if isEvm then ''EVM'' else ''STELLAR''),
             sw_wallet_source = (if kind = Some ''privy'' then ''privy_embedded'' else ''external''),
             sw_chain = (if isEvm then ''arbitrum-sepolia'' else ''stellar-testnet''), sw_address = addr, sw_privy_wallet_id = la_id a \<rparr>
     | _ \<Rightarrow> None)"

definition wallet_key :: "sync_wallet \<Rightarrow> string" where
  "wallet_key x = sw_wallet_type x @ '':'' @ lower (sw_address x)"

fun keep_first :: "string list \<Rightarrow> sync_wallet list \<Rightarrow> sync_wallet list" where
  "keep_first seen [] = []"
| "keep_first seen (x # xs) = (if wallet_key x \<in> set seen then keep_first seen xs else x # keep_first (wallet_key x # seen) xs)"

definition walletsFromPrivyUser :: "linked_account list option \<Rightarrow> sync_wallet list" where
  "walletsFromPrivyUser accounts = (case accounts of None \<Rightarrow> [] | Some as \<Rightarrow> keep_first [] (List.map_filter wallet_of_account as))"


section \<open>The withdrawal\<close>

record zk_state =
  zk_circuit :: string
  zk_verifier :: jsval
  zk_proving :: bool
  zk_verifiedOnChain :: bool
  zk_txHash :: "string option"
  zk_nullifier :: "string option"
  zk_publicSignals :: "(string \<times> string) list"
  zk_proofHex :: "string option"
  zk_publicHex :: "string option"

definition zk_start :: "string \<Rightarrow> jsval \<Rightarrow> bool \<Rightarrow> (string \<times> string) list \<Rightarrow> zk_state" where
  "zk_start circuit verifier proving signals = \<lparr> zk_circuit = circuit, zk_verifier = verifier, zk_proving = proving, zk_verifiedOnChain = False,
     zk_txHash = None, zk_nullifier = None, zk_publicSignals = signals, zk_proofHex = None, zk_publicHex = None \<rparr>"

record withdraw_page =
  wg_busy :: bool
  wg_jobId :: jsval
  wg_zk :: zk_state
  wg_error :: "web_error option"
  wg_doneTx :: "string option"
  wg_signStatus :: "string option"
  wg_address :: "string option"
  wg_connecting :: bool

text \<open>\<open>try \<dots> catch \<dots> finally \<dots>\<close> around a handler: the state it leaves, error handled.\<close>

definition handled :: "('p, unit) web \<Rightarrow> (web_error \<Rightarrow> 'p \<Rightarrow> 'p) \<Rightarrow> ('p \<Rightarrow> 'p) \<Rightarrow> 'p web_state \<Rightarrow> 'p web_state" where
  "handled body caught final s =
    (case body s of
       (Inr _, s1) \<Rightarrow> s1 \<lparr> ws_page := final (ws_page s1) \<rparr>
     | (Inl e, s1) \<Rightarrow> s1 \<lparr> ws_page := final (caught e (ws_page s1)) \<rparr>)"

definition withdraw_connect :: "web_world \<Rightarrow> withdraw_page web_state \<Rightarrow> withdraw_page web_state" where
  "withdraw_connect w s =
    handled (andThen (connectFreighter w) (\<lambda>a. on_page (\<lambda>p. p \<lparr> wg_address := Some a \<rparr>)))
      (\<lambda>e p. p \<lparr> wg_error := Some e \<rparr>) (\<lambda>p. p \<lparr> wg_connecting := False \<rparr>)
      (s \<lparr> ws_page := (ws_page s) \<lparr> wg_connecting := True, wg_error := None \<rparr> \<rparr>)"

record prepared_exit =
  px_recipient :: string
  px_pool :: string
  px_proofHex :: string
  px_publicHex :: string

definition prep_of :: "jsval \<Rightarrow> prepared_exit" where
  "prep_of result = \<lparr> px_recipient = to_String (js_get result ''recipient''), px_pool = to_String (js_get result ''pool''),
     px_proofHex = to_String (nullish (js_get result ''proofHex'') (js_get result ''zkProof'')),
     px_publicHex = to_String (nullish (js_get result ''publicHex'') (js_get result ''zkPublicSignals'')) \<rparr>"

text \<open>The message of a failed job: its \<open>error\<close>, or the given text.\<close>

definition job_error :: "jsval \<Rightarrow> string \<Rightarrow> web_error" where
  "job_error job fallback = AnyError (to_String (nullish (js_get job ''error'') (VStr fallback)))"

fun prepare_loop :: "web_world \<Rightarrow> jsval \<Rightarrow> nat \<Rightarrow> (withdraw_page, prepared_exit option) web" where
  "prepare_loop w jid 0 = give_back None"
| "prepare_loop w jid (Suc n) =
    andThen (api_get w (''/v1/jobs/'' @ to_String jid)) (\<lambda>job.
    andThen (dot job ''status'') (\<lambda>status.
    if status = VStr ''ready'' then
      (let prep = prep_of (js_get job ''result'') in
       andThen (on_page (\<lambda>p. p \<lparr> wg_zk := (wg_zk p) \<lparr> zk_proving := False, zk_proofHex := Some (px_proofHex prep), zk_publicHex := Some (px_publicHex prep) \<rparr> \<rparr>))
         (\<lambda>_. give_back (Some prep)))
    else if status = VStr ''failed'' then fail_with (job_error job ''withdraw prepare failed'')
    else prepare_loop w jid n))"

definition sign_status :: "string \<Rightarrow> withdraw_page \<Rightarrow> withdraw_page" where
  "sign_status t p = p \<lparr> wg_signStatus := Some t \<rparr>"

text \<open>The two \<open>invalidateQueries\<close> at the end only mark cached queries as stale; with the query library's default options a failing
  refetch does not reject them, so they have no outcome here.\<close>

definition withdraw_body :: "web_world \<Rightarrow> string \<Rightarrow> (withdraw_page, unit) web" where
  "withdraw_body w commitment =
    andThen (api_post w ''/v1/withdrawals/assist'' (Some (VObj [(''commitment'', VStr commitment), (''prepare'', VBool True)])) None) (\<lambda>res.
    andThen (dot res ''job_id'') (\<lambda>jid.
    andThen (on_page (\<lambda>p. p \<lparr> wg_jobId := jid \<rparr>)) (\<lambda>_.
    andThen (prepare_loop w jid 120) (\<lambda>prep.
    (case prep of
       None \<Rightarrow> fail_with (AnyError ''withdraw prepare timed out'')
     | Some x \<Rightarrow>
        andThen (freighterWithdraw w sign_status (px_pool x) (px_recipient x) (px_proofHex x) (px_publicHex x)) (\<lambda>tx.
        andThen (on_page (sign_status ''recording'')) (\<lambda>_.
        andThen (api_post w ''/v1/withdrawals/mark-spent'' (Some (VObj [(''commitment'', VStr commitment), (''tx_hash'', VStr tx)])) None) (\<lambda>_.
        on_page (\<lambda>p. p \<lparr> wg_doneTx := Some tx, wg_signStatus := None,
          wg_zk := (wg_zk p) \<lparr> zk_proving := False, zk_verifiedOnChain := True, zk_txHash := Some tx, zk_nullifier := Some commitment \<rparr> \<rparr>)))))))))"

definition withdraw_run :: "web_world \<Rightarrow> jsval \<Rightarrow> string option \<Rightarrow> withdraw_page web_state \<Rightarrow> withdraw_page web_state" where
  "withdraw_run w verifier commitment s =
    (case commitment of
       None \<Rightarrow> s
     | Some c \<Rightarrow>
        if c = [] then s
        else handled (withdraw_body w c)
          (\<lambda>e p. p \<lparr> wg_error := Some e, wg_zk := (wg_zk p) \<lparr> zk_proving := False \<rparr>, wg_signStatus := None \<rparr>)
          (\<lambda>p. p \<lparr> wg_busy := False \<rparr>)
          (s \<lparr> ws_page := (ws_page s) \<lparr> wg_busy := True, wg_error := None, wg_jobId := VUndef, wg_doneTx := None, wg_signStatus := None,
             wg_zk := zk_start ''withdraw_public'' verifier True [(''note'', c)] \<rparr> \<rparr>))"


section \<open>The trade\<close>

record trade_stage =
  ts_key :: string
  ts_match :: "string list"

definition STAGES :: "trade_stage list" where
  "STAGES = [\<lparr> ts_key = ''intent'', ts_match = [''queued''] \<rparr>,
     \<lparr> ts_key = ''match'', ts_match = [''committee_matching'', ''quoting'', ''pinning_committee''] \<rparr>,
     \<lparr> ts_key = ''zk'', ts_match = [''proving''] \<rparr>, \<lparr> ts_key = ''settle'', ts_match = [''submitting'', ''ready''] \<rparr>]"

datatype stage_state = StageDone | StageActive | StageIdle

definition stage_reached :: "string list \<Rightarrow> nat \<Rightarrow> bool" where
  "stage_reached statuses i = list_ex (\<lambda>m. list_ex (\<lambda>s. sublist m s) statuses) (ts_match (STAGES ! i))"

definition stageState :: "nat \<Rightarrow> string list \<Rightarrow> bool \<Rightarrow> stage_state" where
  "stageState stageIdx statuses fin =
    (if fin then StageDone
     else if stage_reached statuses stageIdx then
       (let furthest = fold (\<lambda>i acc. if stage_reached statuses i then int i else acc) [0..<length STAGES] (- 1) in
        if int stageIdx < furthest then StageDone else StageActive)
     else StageIdle)"

record trade_result =
  td_tx :: string
  td_xlm :: string
  td_specpure :: bool

record trade_page =
  tg_busy :: bool
  tg_jobId :: jsval
  tg_statuses :: "jsval list"
  tg_zk :: zk_state
  tg_error :: "web_error option"
  tg_done :: "trade_result option"

definition job_statuses :: "jsval \<Rightarrow> jsval list" where
  "job_statuses job = (case js_get job ''events'' of VArr es \<Rightarrow> map (\<lambda>e. js_get e ''status'') es | _ \<Rightarrow> []) @ [js_get job ''status'']"

definition text_if :: "jsval \<Rightarrow> string option" where
  "text_if v = (if truthy v then Some (to_String v) else None)"

text \<open>\<open>outText\<close> is \<open>outXlm.toFixed(4)\<close>.\<close>

definition trade_ready :: "string \<Rightarrow> string \<Rightarrow> jsval \<Rightarrow> trade_page \<Rightarrow> trade_page" where
  "trade_ready commitment outText result p =
    (let tx = to_String (nullish (js_get result ''txHash'') (VStr [])); specpure = truthy (js_get result ''onChainCommitteeVerify'') in
     p \<lparr> tg_done := Some \<lparr> td_tx = tx, td_xlm = to_String (nullish (js_get result ''outputXlm'') (VStr outText)), td_specpure = specpure \<rparr>,
         tg_zk := (tg_zk p) \<lparr> zk_circuit := (if specpure then ''mpc_priced_settlement'' else ''rfq_atomic_swap''), zk_proving := False,
           zk_verifiedOnChain := True, zk_txHash := Some tx, zk_nullifier := Some (to_String (nullish (js_get result ''nullifierA'') (VStr commitment))),
           zk_proofHex := text_if (js_get result ''zkProof''), zk_publicHex := text_if (js_get result ''zkPublicSignals''),
           zk_publicSignals := [(''intent'', commitment), (''output'', ''XLM''),
             (''committee'', if specpure then ''3-node, verified on-chain'' else ''3-node threshold'')] \<rparr> \<rparr>)"

fun trade_loop :: "web_world \<Rightarrow> string \<Rightarrow> string \<Rightarrow> jsval \<Rightarrow> nat \<Rightarrow> (trade_page, unit) web" where
  "trade_loop w commitment outText jid 0 = give_back ()"
| "trade_loop w commitment outText jid (Suc n) =
    andThen (api_get w (''/v1/jobs/'' @ to_String jid)) (\<lambda>job.
    andThen (dot job ''status'') (\<lambda>status.
    andThen (on_page (\<lambda>p. p \<lparr> tg_statuses := job_statuses job \<rparr>)) (\<lambda>_.
    if status = VStr ''ready'' then on_page (trade_ready commitment outText (js_get job ''result''))
    else if status = VStr ''failed'' then fail_with (job_error job ''trade failed'')
    else trade_loop w commitment outText jid n)))"

definition trade_body :: "web_world \<Rightarrow> string \<Rightarrow> string \<Rightarrow> (trade_page, unit) web" where
  "trade_body w commitment outText =
    andThen (api_post w ''/v1/trade'' (Some (VObj [(''commitment'', VStr commitment), (''private'', VBool True)])) None) (\<lambda>res.
    andThen (dot res ''job_id'') (\<lambda>jid.
    andThen (on_page (\<lambda>p. p \<lparr> tg_jobId := jid \<rparr>)) (\<lambda>_.
    trade_loop w commitment outText jid 150)))"

definition trade_run :: "web_world \<Rightarrow> jsval \<Rightarrow> string option \<Rightarrow> string \<Rightarrow> trade_page web_state \<Rightarrow> trade_page web_state" where
  "trade_run w verifier commitment outText s =
    (case commitment of
       None \<Rightarrow> s
     | Some c \<Rightarrow>
        if c = [] then s
        else handled (trade_body w c outText)
          (\<lambda>e p. p \<lparr> tg_error := Some e, tg_zk := (tg_zk p) \<lparr> zk_proving := False \<rparr> \<rparr>) (\<lambda>p. p \<lparr> tg_busy := False \<rparr>)
          (s \<lparr> ws_page := (ws_page s) \<lparr> tg_busy := True, tg_error := None, tg_jobId := VUndef, tg_done := None, tg_statuses := [VStr ''queued''],
             tg_zk := zk_start ''mpc committee settlement'' verifier True [(''intent'', c), (''output'', ''XLM''), (''committee'', ''3-node threshold'')] \<rparr> \<rparr>))"


section \<open>The deposit\<close>

definition BURN_6DP :: string where
  "BURN_6DP = ''505000''"

datatype deposit_status = StepIdle | StepRunning | StepDone | StepError

record deposit_step =
  ds_status :: deposit_status
  ds_detail :: "string option"
  ds_tx :: "string option"

record deposit_page =
  dg_busy :: bool
  dg_steps :: "deposit_step list"
  dg_jobId :: jsval
  dg_zk :: zk_state
  dg_error :: "web_error option"

definition idle_deposit_step :: deposit_step where
  "idle_deposit_step = \<lparr> ds_status = StepIdle, ds_detail = None, ds_tx = None \<rparr>"

definition setStep :: "nat \<Rightarrow> (deposit_step \<Rightarrow> deposit_step) \<Rightarrow> deposit_page \<Rightarrow> deposit_page" where
  "setStep i f p = p \<lparr> dg_steps := map (\<lambda>j. if j = i then f (dg_steps p ! j) else dg_steps p ! j) [0..<length (dg_steps p)] \<rparr>"

definition step_running :: "nat \<Rightarrow> (deposit_page, unit) web" where
  "step_running i = on_page (setStep i (\<lambda>st. st \<lparr> ds_status := StepRunning \<rparr>))"

definition step_done :: "nat \<Rightarrow> string option \<Rightarrow> string option \<Rightarrow> (deposit_page, unit) web" where
  "step_done i detail tx = on_page (setStep i (\<lambda>st. st \<lparr> ds_status := StepDone,
     ds_detail := (if detail = None then ds_detail st else detail), ds_tx := (if tx = None then ds_tx st else tx) \<rparr>))"

text \<open>A digit string becomes a \<open>bigint\<close>.\<close>

definition coerce :: "jsval \<Rightarrow> chain_arg" where
  "coerce a = (case a of VStr t \<Rightarrow> if t \<noteq> [] \<and> list_all is_digit t then BigArg (case parse_nat t of Some n \<Rightarrow> int n | None \<Rightarrow> 0) else PlainArg a
     | _ \<Rightarrow> PlainArg a)"

text \<open>\<open>x.k\<close> where a text method follows, or an array method.\<close>

definition dot_text :: "jsval \<Rightarrow> string \<Rightarrow> ('p, string) web" where
  "dot_text v k = andThen (dot v k) (\<lambda>x. case x of VStr t \<Rightarrow> give_back t | _ \<Rightarrow> fail_with TypeErr)"

definition dot_list :: "jsval \<Rightarrow> string \<Rightarrow> ('p, jsval list) web" where
  "dot_list v k = andThen (dot v k) (\<lambda>x. case x of VArr xs \<Rightarrow> give_back xs | _ \<Rightarrow> fail_with TypeErr)"

text \<open>Sign and send one of the prepared calls, and wait until it is mined: the status in the receipt is not looked at.\<close>

definition send_prepared :: "web_world \<Rightarrow> nat \<Rightarrow> string \<Rightarrow> jsval \<Rightarrow> (deposit_page, string) web" where
  "send_prepared w i fname request =
    andThen (on_page (setStep i (\<lambda>st. st \<lparr> ds_status := StepRunning, ds_detail := Some ''confirm in MetaMask'' \<rparr>))) (\<lambda>_.
    andThen (dot_text request ''to'') (\<lambda>to.
    andThen (dot_text request ''abi'') (\<lambda>abi.
    andThen (dot_list request ''args'') (\<lambda>args.
    andThen (ask (\<lambda>tr. ww_writeContract w tr to abi fname (map coerce args)) (WroteContract to abi fname (map coerce args))) (\<lambda>hash.
    andThen (ask (\<lambda>tr. ww_receipt w tr hash) (Receipt hash)) (\<lambda>_.
    andThen (step_done i None (Some hash)) (\<lambda>_. give_back hash)))))))"

definition deposit_ready :: "jsval \<Rightarrow> deposit_page \<Rightarrow> deposit_page" where
  "deposit_ready result p =
    (let p1 = setStep 4 (\<lambda>st. st \<lparr> ds_status := StepDone, ds_detail := Some (''note active, leaf '' @ to_String (js_get result ''leafIndex'')) \<rparr>) p in
     p1 \<lparr> dg_zk := (dg_zk p1) \<lparr> zk_verifiedOnChain := True, zk_txHash := Some (to_String (nullish (js_get result ''receiveDepositTxHash'') (VStr []))),
       zk_proofHex := text_if (js_get result ''zkProof''), zk_publicHex := text_if (js_get result ''zkPublicSignals'') \<rparr> \<rparr>)"

fun deposit_loop :: "web_world \<Rightarrow> jsval \<Rightarrow> nat \<Rightarrow> (deposit_page, unit) web" where
  "deposit_loop w jid 0 = give_back ()"
| "deposit_loop w jid (Suc n) =
    andThen (api_get w (''/v1/jobs/'' @ to_String jid)) (\<lambda>job.
    andThen (dot job ''status'') (\<lambda>status.
    if status = VStr ''ready'' then on_page (deposit_ready (js_get job ''result''))
    else if status = VStr ''failed'' then fail_with (job_error job ''relayer job failed'')
    else deposit_loop w jid n))"

record deposit_ctx =
  dx_vault_id :: string
  dx_address :: string
  dx_policyHex :: string
  dx_idempotencyKey :: string
  dx_verifier :: jsval

definition prepare_request :: "deposit_ctx \<Rightarrow> string \<Rightarrow> jsval" where
  "prepare_request x commitment = VObj [(''amount_usdc_6dp'', VStr BURN_6DP), (''source_chain'', VStr ''arbitrum-sepolia''),
     (''source_wallet_address'', VStr (dx_address x)), (''vault_id'', VStr (dx_vault_id x)), (''commitment'', VStr commitment),
     (''encrypted_note_payload_hash'', VStr commitment), (''policy_id'', VStr (dx_policyHex x))]"

definition burn_request :: "deposit_ctx \<Rightarrow> string \<Rightarrow> jsval" where
  "burn_request x burnHash = VObj [(''burn_tx_hash'', VStr burnHash), (''source_chain'', VStr ''arbitrum-sepolia''),
     (''source_wallet_address'', VStr (dx_address x))]"

text \<open>\<open>ww_switchChain\<close> stands for the chain switch, the provider and the fee estimate.\<close>

definition deposit_body :: "web_world \<Rightarrow> deposit_ctx \<Rightarrow> (deposit_page, unit) web" where
  "deposit_body w x =
    andThen (step_running 0) (\<lambda>_.
    andThen (api_post w ''/v1/notes/coin'' None None) (\<lambda>coin.
    andThen (dot_text coin ''commitment'') (\<lambda>commitment.
    andThen (step_done 0 (Some (take 10 commitment)) None) (\<lambda>_.
    andThen (on_page (\<lambda>p. p \<lparr> dg_zk := (dg_zk p) \<lparr> zk_publicSignals := [(''commitment'', commitment)] \<rparr> \<rparr>)) (\<lambda>_.
    andThen (step_running 1) (\<lambda>_.
    andThen (api_post w ''/v1/deposits/prepare'' (Some (prepare_request x commitment)) (Some (dx_idempotencyKey x))) (\<lambda>prep.
    andThen (dot_text prep ''deposit_id'') (\<lambda>depositId.
    andThen (step_done 1 (Some (take 12 depositId)) None) (\<lambda>_.
    andThen (ask (ww_switchChain w) SwitchedChain) (\<lambda>_.
    andThen (send_prepared w 2 ''approve'' (js_get prep ''approval_tx_request'')) (\<lambda>approveHash.
    andThen (send_prepared w 3 ''depositForBurnWithHook'' (js_get prep ''burn_tx_request'')) (\<lambda>burnHash.
    andThen (step_running 4) (\<lambda>_.
    andThen (api_post w (''/v1/deposits/'' @ depositId @ ''/burn-submitted'') (Some (burn_request x burnHash)) None) (\<lambda>submit_res.
    andThen (dot submit_res ''job_id'') (\<lambda>jid.
    andThen (on_page (\<lambda>p. p \<lparr> dg_jobId := jid \<rparr>)) (\<lambda>_.
    deposit_loop w jid 240))))))))))))))))"

definition deposit_run :: "web_world \<Rightarrow> deposit_ctx option \<Rightarrow> deposit_page web_state \<Rightarrow> deposit_page web_state" where
  "deposit_run w ctx s =
    (case ctx of
       None \<Rightarrow> s
     | Some x \<Rightarrow>
        handled (deposit_body w x)
          (\<lambda>e p. p \<lparr> dg_error := Some e, dg_steps := map (\<lambda>st. if ds_status st = StepRunning then st \<lparr> ds_status := StepError \<rparr> else st) (dg_steps p) \<rparr>)
          (\<lambda>p. p \<lparr> dg_busy := False \<rparr>)
          (s \<lparr> ws_page := (ws_page s) \<lparr> dg_busy := True, dg_error := None, dg_jobId := VUndef,
             dg_zk := zk_start ''deposit_note_mint'' (dx_verifier x) False [], dg_steps := replicate 5 idle_deposit_step \<rparr> \<rparr>))"


section \<open>Reasoning about handlers\<close>

text \<open>A statement from states in \<open>P\<close>: what holds after its value, and what holds if it throws.\<close>

definition triple :: "('s \<Rightarrow> bool) \<Rightarrow> ('s, 'e, 'a) stmt \<Rightarrow> ('a \<Rightarrow> 's \<Rightarrow> bool) \<Rightarrow> ('s \<Rightarrow> bool) \<Rightarrow> bool" where
  "triple P m Q E \<longleftrightarrow> (\<forall>s. P s \<longrightarrow> (case m s of (Inl e, s') \<Rightarrow> E s' | (Inr a, s') \<Rightarrow> Q a s'))"

lemma triple_andThen:
  assumes "triple P m Q E" "\<And>a. triple (Q a) (f a) R E"
  shows "triple P (andThen m f) R E"
  using assms unfolding triple_def andThen_def by (fastforce split: prod.splits sum.splits)

lemma triple_weaken:
  assumes "triple P' m Q' E'" "\<And>s. P s \<Longrightarrow> P' s" "\<And>a s. Q' a s \<Longrightarrow> Q a s" "\<And>s. E' s \<Longrightarrow> E s"
  shows "triple P m Q E"
  using assms unfolding triple_def by (fastforce split: prod.splits sum.splits)

text \<open>A trace in which every event is permitted by what came before.\<close>

fun safe_from :: "(web_event list \<Rightarrow> web_event \<Rightarrow> bool) \<Rightarrow> web_event list \<Rightarrow> web_event list \<Rightarrow> bool" where
  "safe_from ok seen [] = True"
| "safe_from ok seen (e # es) = (ok seen e \<and> safe_from ok (seen @ [e]) es)"

lemma safe_from_snoc: "safe_from ok seen (xs @ [e]) \<longleftrightarrow> safe_from ok seen xs \<and> ok (seen @ xs) e"
  by (induction xs arbitrary: seen) auto

lemma safe_from_split: "safe_from ok seen (xs @ e # ys) \<Longrightarrow> ok (seen @ xs) e"
proof (induction xs arbitrary: seen)
  case (Cons a xs)
  then show ?case using Cons.IH [of "seen @ [a]"] by simp
qed simp

text \<open>After \<open>tr0\<close> only permitted events happened, the events in \<open>F\<close> among them, and the page satisfies \<open>pg\<close>.\<close>

definition so_far :: "(web_event list \<Rightarrow> web_event \<Rightarrow> bool) \<Rightarrow> ('p \<Rightarrow> bool) \<Rightarrow> web_event list \<Rightarrow> web_event set \<Rightarrow> 'p web_state \<Rightarrow> bool" where
  "so_far ok pg tr0 F s \<longleftrightarrow> (\<exists>new. ws_trace s = tr0 @ new \<and> safe_from ok [] new \<and> F \<subseteq> set new) \<and> pg (ws_page s)"

lemma so_far_mono: "so_far ok pg tr0 F s \<Longrightarrow> G \<subseteq> F \<Longrightarrow> so_far ok pg tr0 G s"
  unfolding so_far_def by blast

lemma triple_give_back: "triple P (give_back x) (\<lambda>a s. a = x \<and> P s) E"
  by (simp add: triple_def give_back_def)

lemma triple_fail: "(\<And>s. P s \<Longrightarrow> E s) \<Longrightarrow> triple P (fail_with e) Q E"
  by (simp add: triple_def fail_with_def)

lemma triple_on_page: "(\<And>p. pg p \<Longrightarrow> pg (f p)) \<Longrightarrow> triple (so_far ok pg tr0 F) (on_page f) (\<lambda>_. so_far ok pg tr0 F) E"
  by (simp add: triple_def on_page_def so_far_def)

lemma triple_ask:
  fixes pg :: "'p \<Rightarrow> bool"
  assumes "\<And>seen r. F \<subseteq> set seen \<Longrightarrow> ok seen (ev r)"
  shows "triple (so_far ok pg tr0 F) (ask q ev) (\<lambda>x. so_far ok pg tr0 (insert (ev (Ok x)) F)) (so_far ok pg tr0 {})"
  unfolding triple_def
proof (intro allI impI)
  fix s :: "'p web_state"
  assume "so_far ok pg tr0 F s"
  then obtain new where n: "ws_trace s = tr0 @ new" "safe_from ok [] new" "F \<subseteq> set new" "pg (ws_page s)" unfolding so_far_def by blast
  have "safe_from ok [] (new @ [ev r])" for r using n(2,3) assms by (simp add: safe_from_snoc)
  then have "so_far ok pg tr0 (insert (ev r) F) (s \<lparr> ws_trace := ws_trace s @ [ev r] \<rparr>)" for r
    unfolding so_far_def using n by (intro conjI exI [of _ "new @ [ev r]"]) auto
  then show "case ask q ev s of (Inl e, s') \<Rightarrow> so_far ok pg tr0 {} s' | (Inr x, s') \<Rightarrow> so_far ok pg tr0 (insert (ev (Ok x)) F) s'"
    by (auto simp: ask_def Let_def split: sum.splits intro: so_far_mono)
qed

lemma triple_req:
  fixes pg :: "'p \<Rightarrow> bool"
  assumes "\<And>seen q ans. F \<subseteq> set seen \<Longrightarrow> pq_path q = path \<Longrightarrow> pq_method q = meth \<Longrightarrow> pq_body q = map_option stringify body \<Longrightarrow> ok seen (Fetched q ans)"
  shows "triple (so_far ok pg tr0 F) (req w meth path body k auth)
    (\<lambda>_ s. \<exists>q code stext txt. pq_path q = path \<and> pq_method q = meth \<and> pq_body q = map_option stringify body \<and> http_ok code \<and>
       so_far ok pg tr0 (insert (Fetched q (Some (code, stext, txt))) F) s) (so_far ok pg tr0 {})"
  unfolding triple_def
proof (intro allI impI)
  fix s :: "'p web_state"
  assume "so_far ok pg tr0 F s"
  then obtain new where n: "ws_trace s = tr0 @ new" "safe_from ok [] new" "F \<subseteq> set new" "pg (ws_page s)" unfolding so_far_def by blast
  define q where "q = \<lparr> pq_method = meth, pq_path = path,
    pq_headers = req_headers (if auth then ww_token w (ws_trace s) else None) (body \<noteq> None) k, pq_body = map_option stringify body \<rparr>"
  define ans where "ans = ww_fetch w (ws_trace s) q"
  define s1 where "s1 = s \<lparr> ws_trace := ws_trace s @ [Fetched q ans] \<rparr>"
  have q: "pq_path q = path" "pq_method q = meth" "pq_body q = map_option stringify body" by (simp_all add: q_def)
  have "safe_from ok [] (new @ [Fetched q ans])" using n(2,3) assms q by (simp add: safe_from_snoc)
  then have s1: "so_far ok pg tr0 (insert (Fetched q ans) F) s1"
    unfolding so_far_def s1_def using n by (intro conjI exI [of _ "new @ [Fetched q ans]"]) auto
  have s1F: "so_far ok pg tr0 {} s1" using so_far_mono [OF s1] by blast
  have r: "req w meth path body k auth s = (case ans of None \<Rightarrow> (Throw (AnyError ''fetch failed''), s1)
      | Some (code, statusText, txt) \<Rightarrow> let data = (if txt = [] then VNull else safeJson txt) in
         if \<not> http_ok code then (Throw (ApiError code (nullish (js_get data ''error'') (VStr statusText))), s1) else (Ok data, s1))"
    unfolding req_def Let_def s1_def ans_def q_def ..
  show "case req w meth path body k auth s of (Inl e, s') \<Rightarrow> so_far ok pg tr0 {} s' | (Inr x, s') \<Rightarrow>
      \<exists>q code stext txt. pq_path q = path \<and> pq_method q = meth \<and> pq_body q = map_option stringify body \<and> http_ok code \<and>
       so_far ok pg tr0 (insert (Fetched q (Some (code, stext, txt))) F) s'"
  proof (cases ans)
    case None
    then show ?thesis using s1F by (simp add: r)
  next
    case (Some a)
    then obtain code stext bd where a: "ans = Some (code, stext, bd)" by (cases a) auto
    show ?thesis
    proof (cases "http_ok code")
      case True
      then show ?thesis using s1 q by (auto simp: r a Let_def)
    next
      case False
      then show ?thesis using s1F by (simp add: r a)
    qed
  qed
qed

lemma triple_dot: "(\<And>s. P s \<Longrightarrow> E s) \<Longrightarrow> triple P (dot v k) (\<lambda>_. P) E"
  by (simp add: triple_def dot_def give_back_def fail_with_def)

lemma so_far_forget: "so_far ok pg tr0 F s \<Longrightarrow> so_far ok pg tr0 {} s"
  by (erule so_far_mono) simp

text \<open>The steps of a handler, one after the other.\<close>

lemma triple_page_then:
  "(\<And>p. pg p \<Longrightarrow> pg (f p)) \<Longrightarrow> triple (so_far ok pg tr0 F) (k ()) R E \<Longrightarrow> triple (so_far ok pg tr0 F) (andThen (on_page f) k) R E"
  by (rule triple_andThen [OF triple_on_page]) auto

lemma triple_ask_then:
  "(\<And>seen r. F \<subseteq> set seen \<Longrightarrow> ok seen (ev r)) \<Longrightarrow> (\<And>x. triple (so_far ok pg tr0 (insert (ev (Ok x)) F)) (k x) R (so_far ok pg tr0 {})) \<Longrightarrow>
     triple (so_far ok pg tr0 F) (andThen (ask q ev) k) R (so_far ok pg tr0 {})"
  by (rule triple_andThen [OF triple_ask]) auto

lemma triple_dot_then:
  "(\<And>x. triple (so_far ok pg tr0 F) (k x) R (so_far ok pg tr0 {})) \<Longrightarrow> triple (so_far ok pg tr0 F) (andThen (dot v j) k) R (so_far ok pg tr0 {})"
  by (rule triple_andThen [OF triple_dot]) (auto elim: so_far_forget)

lemma triple_req_then:
  assumes "\<And>seen q ans. F \<subseteq> set seen \<Longrightarrow> pq_path q = path \<Longrightarrow> pq_body q = map_option stringify body \<Longrightarrow> ok seen (Fetched q ans)"
    "\<And>x. triple (so_far ok pg tr0 F) (k x) R (so_far ok pg tr0 {})"
  shows "triple (so_far ok pg tr0 F) (andThen (req w meth path body j auth) k) R (so_far ok pg tr0 {})"
proof (rule triple_andThen)
  show "triple (so_far ok pg tr0 F) (req w meth path body j auth) (\<lambda>_. so_far ok pg tr0 F) (so_far ok pg tr0 {})"
    by (rule triple_weaken [OF triple_req [where F = F]]) (use assms(1) in \<open>auto elim: so_far_mono\<close>)
qed (rule assms(2))


section \<open>Withdrawals\<close>

definition mark_body :: "string \<Rightarrow> string \<Rightarrow> string" where
  "mark_body c tx = stringify (VObj [(''commitment'', VStr c), (''tx_hash'', VStr tx)])"

text \<open>What a withdrawal may ask, given what was answered before: a signature only for the account the wallet is on, a transaction
  only as signed, and the note is reported spent only with a transaction the ledger reported as successful.\<close>

definition exit_ok :: "string \<Rightarrow> web_event list \<Rightarrow> web_event \<Rightarrow> bool" where
  "exit_ok c seen e = (case e of
     Signed xdr r _ \<Rightarrow> \<exists>a. Addressed (Ok (Some a)) \<in> set seen \<and> a \<noteq> [] \<and> upper a = upper r
   | Sent sx _ \<Rightarrow> \<exists>xdr r. Signed xdr r (Ok sx) \<in> set seen
   | TxStatus tx _ \<Rightarrow> \<exists>sx st. Sent sx (Ok (st, tx)) \<in> set seen \<and> st \<noteq> ''ERROR''
   | Fetched q _ \<Rightarrow> pq_path q = ''/v1/withdrawals/mark-spent'' \<longrightarrow>
       (\<exists>tx. TxStatus tx (Ok ''SUCCESS'') \<in> set seen \<and> pq_body q = Some (mark_body c tx))
   | _ \<Rightarrow> True)"

lemma confirm_triple:
  assumes "Sent sx (Ok (st, hash)) \<in> F" "st \<noteq> ''ERROR''"
  shows "triple (so_far (exit_ok c) pg tr0 F) (confirm_loop w hash n)
    (\<lambda>tx. so_far (exit_ok c) pg tr0 {TxStatus tx (Ok ''SUCCESS'')}) (so_far (exit_ok c) pg tr0 {})"
  using assms(1)
proof (induction n arbitrary: F)
  case 0
  show ?case by (simp add: triple_fail so_far_forget)
next
  case (Suc n)
  show ?case unfolding confirm_loop.simps
  proof (rule triple_andThen [OF triple_ask])
    show "exit_ok c seen (TxStatus hash r)" if "F \<subseteq> set seen" for seen r using that Suc.prems assms(2) by (auto simp: exit_ok_def)
    fix status
    let ?F = "insert (TxStatus hash (Ok status)) F"
    have "triple (so_far (exit_ok c) pg tr0 ?F) (give_back hash) (\<lambda>tx. so_far (exit_ok c) pg tr0 {TxStatus tx (Ok ''SUCCESS'')}) E"
      if "status = ''SUCCESS''" for E
      by (rule triple_weaken [OF triple_give_back]) (use that in \<open>auto elim: so_far_mono\<close>)
    moreover have "triple (so_far (exit_ok c) pg tr0 ?F) (confirm_loop w hash n)
        (\<lambda>tx. so_far (exit_ok c) pg tr0 {TxStatus tx (Ok ''SUCCESS'')}) (so_far (exit_ok c) pg tr0 {})"
      by (rule Suc.IH) (simp add: Suc.prems)
    ultimately show "triple (so_far (exit_ok c) pg tr0 ?F)
      (if status = ''SUCCESS'' then give_back hash
       else if status = ''FAILED'' then fail_with (AnyError ''withdraw tx failed on-chain'') else confirm_loop w hash n)
      (\<lambda>tx. so_far (exit_ok c) pg tr0 {TxStatus tx (Ok ''SUCCESS'')}) (so_far (exit_ok c) pg tr0 {})"
      by (simp add: triple_fail so_far_forget)
  qed
qed

lemma freighter_triple:
  assumes pg: "\<And>t p. pg p \<Longrightarrow> pg (onStatus t p)"
  shows "triple (so_far (exit_ok c) pg tr0 {}) (freighterWithdraw w onStatus pool recipient proofHex publicHex)
    (\<lambda>tx. so_far (exit_ok c) pg tr0 {TxStatus tx (Ok ''SUCCESS'')}) (so_far (exit_ok c) pg tr0 {})"
  unfolding freighterWithdraw_def
proof (rule triple_andThen [OF triple_ask], goal_cases)
  case (1 seen r)
  show ?case by (simp add: exit_ok_def)
next
  case (2 addr)
  let ?I = "so_far (exit_ok c) pg tr0"
  show ?case
  proof (cases "\<exists>a. addr = Some a \<and> a \<noteq> [] \<and> upper a = upper recipient")
    case False
    then show ?thesis by (auto simp: triple_fail so_far_forget split: option.split)
  next
    case True
    then obtain a where a: "addr = Some a" "a \<noteq> []" "upper a = upper recipient" by blast
    have signed: "exit_ok c seen (Signed xdr recipient r)" if "Addressed (Ok (Some a)) \<in> set seen" for seen xdr r
      using that a(2,3) by (auto simp: exit_ok_def)
    have sent: "exit_ok c seen (Sent sx r)" if "Signed xdr recipient (Ok sx) \<in> set seen" for seen xdr sx r
      using that by (auto simp: exit_ok_def)
    have finish: "triple (?I (insert (Sent sx (Ok x)) F)) (case x of (status, hash) \<Rightarrow>
        if status = ''ERROR'' then fail_with (AnyError ''submit failed'') else confirm_loop w hash 30)
        (\<lambda>tx. ?I {TxStatus tx (Ok ''SUCCESS'')}) (?I {})" for sx x F
      by (cases x) (auto intro!: triple_fail confirm_triple elim: so_far_forget)
    have quiet: "exit_ok c seen (Account recipient r)" "exit_ok c seen (Prepared pool recipient pb qb r')" for seen r r' pb qb
      by (simp_all add: exit_ok_def)
    show ?thesis unfolding a(1) option.case if_not_P [OF a(2)] a(3) simp_thms if_False
      by (rule triple_page_then, erule pg, rule triple_ask_then, rule quiet, rule triple_page_then, erule pg, rule triple_ask_then, rule quiet,
          rule triple_page_then, erule pg, rule triple_ask_then, rule signed, blast, rule triple_page_then, erule pg, rule triple_ask_then, rule sent, blast,
          rule finish)
  qed
qed

text \<open>The page before the withdrawal is recorded: not done, and no error.\<close>

abbreviation not_done :: "withdraw_page \<Rightarrow> bool" where
  "not_done p \<equiv> wg_doneTx p = None \<and> wg_error p = None"

lemma fetch_ok: "pq_path q \<noteq> ''/v1/withdrawals/mark-spent'' \<Longrightarrow> exit_ok c seen (Fetched q ans)"
  by (simp add: exit_ok_def)

lemma prepare_triple:
  "triple (so_far (exit_ok c) not_done tr0 {}) (prepare_loop w jid n) (\<lambda>_. so_far (exit_ok c) not_done tr0 {}) (so_far (exit_ok c) not_done tr0 {})"
proof (induction n)
  case 0
  show ?case unfolding prepare_loop.simps by (rule triple_weaken [OF triple_give_back]) auto
next
  case (Suc n)
  show ?case unfolding prepare_loop.simps api_get_def
  proof (rule triple_req_then, (rule fetch_ok, simp), rule triple_dot_then, goal_cases)
    case (1 job status)
    have ready: "triple (so_far (exit_ok c) not_done tr0 {})
        (let prep = prep_of (js_get job ''result'') in andThen (on_page (\<lambda>p. p \<lparr> wg_zk := (wg_zk p) \<lparr> zk_proving := False,
           zk_proofHex := Some (px_proofHex prep), zk_publicHex := Some (px_publicHex prep) \<rparr> \<rparr>)) (\<lambda>_. give_back (Some prep)))
        (\<lambda>_. so_far (exit_ok c) not_done tr0 {}) (so_far (exit_ok c) not_done tr0 {})"
      unfolding Let_def by (rule triple_page_then, simp, rule triple_weaken [OF triple_give_back]) auto
    show ?case using ready Suc by (simp add: triple_fail del: prepare_loop.simps)
  qed
qed

text \<open>What is known when the handler of a withdrawal ends without an error.\<close>

definition recorded :: "string \<Rightarrow> web_event list \<Rightarrow> withdraw_page web_state \<Rightarrow> bool" where
  "recorded c tr0 s \<longleftrightarrow> (\<exists>tx q code stext txt new. wg_doneTx (ws_page s) = Some tx \<and> wg_error (ws_page s) = None \<and> ws_trace s = tr0 @ new \<and> safe_from (exit_ok c) [] new \<and>
     TxStatus tx (Ok ''SUCCESS'') \<in> set new \<and> Fetched q (Some (code, stext, txt)) \<in> set new \<and> http_ok code \<and>
     pq_path q = ''/v1/withdrawals/mark-spent'' \<and> pq_body q = Some (mark_body c tx))"

lemma withdraw_body_triple:
  "triple (so_far (exit_ok c) not_done tr0 {}) (withdraw_body w c) (\<lambda>_. recorded c tr0) (so_far (exit_ok c) not_done tr0 {})"
proof -
  let ?I = "so_far (exit_ok c) not_done tr0"
  have mark: "triple (?I {TxStatus tx (Ok ''SUCCESS'')})
      (andThen (req w ''POST'' ''/v1/withdrawals/mark-spent'' (Some (VObj [(''commitment'', VStr c), (''tx_hash'', VStr tx)])) None True)
        (\<lambda>_. on_page (\<lambda>p. p \<lparr> wg_doneTx := Some tx, wg_signStatus := None,
          wg_zk := (wg_zk p) \<lparr> zk_proving := False, zk_verifiedOnChain := True, zk_txHash := Some tx, zk_nullifier := Some c \<rparr> \<rparr>)))
      (\<lambda>_. recorded c tr0) (?I {})" for tx
  proof (rule triple_andThen [OF triple_req], goal_cases)
    case (1 seen q ans)
    then show ?case by (auto simp: exit_ok_def mark_body_def)
  next
    case (2 x)
    show ?case unfolding triple_def on_page_def recorded_def so_far_def mark_body_def
      by (simp, blast)
  qed
  have sign: "triple (?I {}) (andThen (freighterWithdraw w sign_status pl r ph qh) (\<lambda>tx.
        andThen (on_page (sign_status ''recording'')) (\<lambda>_.
        andThen (req w ''POST'' ''/v1/withdrawals/mark-spent'' (Some (VObj [(''commitment'', VStr c), (''tx_hash'', VStr tx)])) None True)
        (\<lambda>_. on_page (\<lambda>p. p \<lparr> wg_doneTx := Some tx, wg_signStatus := None,
          wg_zk := (wg_zk p) \<lparr> zk_proving := False, zk_verifiedOnChain := True, zk_txHash := Some tx, zk_nullifier := Some c \<rparr> \<rparr>)))))
      (\<lambda>_. recorded c tr0) (?I {})" for pl r ph qh
    by (rule triple_andThen [OF freighter_triple], simp add: sign_status_def, rule triple_page_then, simp add: sign_status_def, rule mark)
  show ?thesis unfolding withdraw_body_def api_post_def
  proof (rule triple_req_then, (rule fetch_ok, simp), rule triple_dot_then, rule triple_page_then, simp,
      rule triple_andThen [OF prepare_triple], goal_cases)
    case (1 res jid prep)
    show ?case by (cases prep) (simp_all add: triple_fail sign)
  qed
qed


section \<open>Deposits\<close>

text \<open>The burn is signed only after the approval is mined, and reported only after it is mined itself, with its own hash.\<close>

definition deposit_ok :: "deposit_ctx \<Rightarrow> web_event list \<Rightarrow> web_event \<Rightarrow> bool" where
  "deposit_ok x seen e = (case e of
     WroteContract to abi fname args _ \<Rightarrow> fname = ''depositForBurnWithHook'' \<longrightarrow>
       (\<exists>to' abi' args' h b. WroteContract to' abi' ''approve'' args' (Ok h) \<in> set seen \<and> Receipt h (Ok b) \<in> set seen)
   | Fetched q _ \<Rightarrow> (\<forall>d. pq_path q = ''/v1/deposits/'' @ d @ ''/burn-submitted'' \<longrightarrow>
       (\<exists>to abi args h b. WroteContract to abi ''depositForBurnWithHook'' args (Ok h) \<in> set seen \<and> Receipt h (Ok b) \<in> set seen \<and>
          pq_body q = Some (stringify (burn_request x h))))
   | _ \<Rightarrow> True)"

lemma triple_ex:
  assumes "\<And>x. triple (P x) m Q E"
  shows "triple (\<lambda>s. \<exists>x. P x s) m Q E"
  unfolding triple_def
proof (intro allI impI, elim exE)
  fix s x
  assume "P x s"
  then show "case m s of (Inl e, s') \<Rightarrow> E s' | (Inr a, s') \<Rightarrow> Q a s'" using assms [of x] by (simp add: triple_def)
qed

abbreviation sent_and_mined :: "deposit_ctx \<Rightarrow> web_event list \<Rightarrow> web_event set \<Rightarrow> string \<Rightarrow> string \<Rightarrow> deposit_page web_state \<Rightarrow> bool" where
  "sent_and_mined x tr0 F fname h s \<equiv> \<exists>to abi args b.
     so_far (deposit_ok x) (\<lambda>_. True) tr0 ({WroteContract to abi fname args (Ok h), Receipt h (Ok b)} \<union> F) s"

lemma triple_dot_list_then:
  "(\<And>y. triple (so_far ok pg tr0 F) (k y) R (so_far ok pg tr0 {})) \<Longrightarrow> triple (so_far ok pg tr0 F) (andThen (dot_text v j) k) R (so_far ok pg tr0 {})"
  "(\<And>y. triple (so_far ok pg tr0 F) (k' y) R (so_far ok pg tr0 {})) \<Longrightarrow> triple (so_far ok pg tr0 F) (andThen (dot_list v j) k') R (so_far ok pg tr0 {})"
  by (simp_all add: triple_def andThen_def dot_text_def dot_list_def dot_def give_back_def fail_with_def so_far_forget split: jsval.split)

lemma send_prepared_triple:
  assumes "\<And>seen to abi args r. F \<subseteq> set seen \<Longrightarrow> deposit_ok x seen (WroteContract to abi fname args r)"
  shows "triple (so_far (deposit_ok x) (\<lambda>_. True) tr0 F) (send_prepared w i fname request) (sent_and_mined x tr0 F fname) (so_far (deposit_ok x) (\<lambda>_. True) tr0 {})"
  unfolding send_prepared_def step_done_def
proof (rule triple_page_then, simp, rule triple_dot_list_then(1), rule triple_dot_list_then(1), rule triple_dot_list_then(2),
    rule triple_ask_then, rule assms, assumption, rule triple_ask_then, goal_cases)
  case (1 to abi args hash seen r)
  show ?case by (simp add: deposit_ok_def)
next
  case (2 to abi args hash b)
  show ?case
    by (rule triple_page_then, simp, rule triple_weaken [OF triple_give_back]) (simp_all add: insert_commute, blast)
qed

lemma quiet_fetch: "(\<nexists>d. pq_path q = ''/v1/deposits/'' @ d @ ''/burn-submitted'') \<Longrightarrow> deposit_ok x seen (Fetched q ans)"
  by (simp add: deposit_ok_def)

lemma deposit_loop_triple:
  "triple (so_far (deposit_ok x) (\<lambda>_. True) tr0 {}) (deposit_loop w jid n) (\<lambda>_. so_far (deposit_ok x) (\<lambda>_. True) tr0 {}) (so_far (deposit_ok x) (\<lambda>_. True) tr0 {})"
proof (induction n)
  case 0
  show ?case unfolding deposit_loop.simps by (rule triple_weaken [OF triple_give_back]) auto
next
  case (Suc n)
  show ?case unfolding deposit_loop.simps api_get_def
  proof (rule triple_req_then, (rule quiet_fetch, simp), rule triple_dot_then, goal_cases)
    case (1 job status)
    show ?case using Suc by (simp add: triple_fail triple_on_page del: deposit_loop.simps)
  qed
qed

lemma not_burn_path: "''/v1/deposits/prepare'' \<noteq> ''/v1/deposits/'' @ d @ ''/burn-submitted''"
proof
  assume "''/v1/deposits/prepare'' = ''/v1/deposits/'' @ d @ ''/burn-submitted''"
  then have "length ''prepare'' = length (d @ ''/burn-submitted'')" by simp
  then show False by simp
qed

lemma deposit_body_triple:
  "triple (so_far (deposit_ok x) (\<lambda>_. True) tr0 {}) (deposit_body w x) (\<lambda>_. so_far (deposit_ok x) (\<lambda>_. True) tr0 {}) (so_far (deposit_ok x) (\<lambda>_. True) tr0 {})"
proof -
  let ?I = "so_far (deposit_ok x) (\<lambda>_. True) tr0"
  have burn_ok: "deposit_ok x seen (WroteContract to abi ''depositForBurnWithHook'' args r)"
    if "{WroteContract to' abi' ''approve'' args' (Ok h), Receipt h (Ok b)} \<union> G \<subseteq> set seen" for seen to abi args r to' abi' args' h b G
    using that by (simp add: deposit_ok_def) blast
  have report_ok: "deposit_ok x seen (Fetched q ans)"
    if "{WroteContract to abi ''depositForBurnWithHook'' args (Ok h), Receipt h (Ok b)} \<union> G \<subseteq> set seen"
      "pq_body q = map_option stringify (Some (burn_request x h))" for seen q ans to abi args h b G
    using that by (simp add: deposit_ok_def) blast
  have report: "triple (sent_and_mined x tr0 G ''depositForBurnWithHook'' h)
      (andThen (step_running 4) (\<lambda>_.
       andThen (req w ''POST'' (''/v1/deposits/'' @ d @ ''/burn-submitted'') (Some (burn_request x h)) None True) (\<lambda>submit_res.
       andThen (dot submit_res ''job_id'') (\<lambda>jid. andThen (on_page (\<lambda>p. p \<lparr> dg_jobId := jid \<rparr>)) (\<lambda>_. deposit_loop w jid 240)))))
      (\<lambda>_. ?I {}) (?I {})" for G h d
    unfolding step_running_def
    by (intro triple_ex, rule triple_page_then, simp, rule triple_req_then, rule report_ok, assumption, assumption, rule triple_dot_then,
        rule triple_page_then, simp, rule triple_weaken [OF deposit_loop_triple]) (auto elim: so_far_forget)
  have approve_ok: "deposit_ok x seen (WroteContract to abi ''approve'' args r)" for seen to abi args r by (simp add: deposit_ok_def)
  have send: "triple (?I F) (andThen (send_prepared w 2 ''approve'' ra) (\<lambda>approveHash.
      andThen (send_prepared w 3 ''depositForBurnWithHook'' rb) (\<lambda>burnHash.
      andThen (step_running 4) (\<lambda>_.
       andThen (req w ''POST'' (''/v1/deposits/'' @ d @ ''/burn-submitted'') (Some (burn_request x burnHash)) None True) (\<lambda>submit_res.
       andThen (dot submit_res ''job_id'') (\<lambda>jid. andThen (on_page (\<lambda>p. p \<lparr> dg_jobId := jid \<rparr>)) (\<lambda>_. deposit_loop w jid 240)))))))
      (\<lambda>_. ?I {}) (?I {})" for F ra rb d
    by (rule triple_andThen [OF send_prepared_triple], rule approve_ok, intro triple_ex,
        rule triple_andThen [OF send_prepared_triple], rule burn_ok, assumption, rule report)
  have coin: "\<nexists>d. pq_path q = ''/v1/deposits/'' @ d @ ''/burn-submitted''" if "pq_path q = ''/v1/notes/coin''" for q :: page_request
    using that by simp
  have prepare: "\<nexists>d. pq_path q = ''/v1/deposits/'' @ d @ ''/burn-submitted''" if "pq_path q = ''/v1/deposits/prepare''" for q :: page_request
    using that not_burn_path by metis
  show ?thesis unfolding deposit_body_def api_post_def step_running_def [of 0] step_running_def [of 1] step_done_def
    by (rule triple_page_then, simp, rule triple_req_then, rule quiet_fetch, rule coin, assumption, rule triple_dot_list_then(1),
        rule triple_page_then, simp, rule triple_page_then, simp, rule triple_page_then, simp, rule triple_req_then, rule quiet_fetch, rule prepare, assumption,
        rule triple_dot_list_then(1), rule triple_page_then, simp, rule triple_ask_then, simp add: deposit_ok_def, rule send)
qed


section \<open>Properties\<close>

text \<open>A world in which everything succeeds.\<close>

definition demo_answer :: "string \<Rightarrow> jsval" where
  "demo_answer path =
    (if path = ''/v1/jobs/j'' then VObj [(''status'', VStr ''ready''), (''result'', VObj [(''recipient'', VStr ''GA''), (''pool'', VStr ''CP''),
         (''proofHex'', VStr ''00''), (''publicHex'', VStr ''0x01'')])]
     else if path = ''/v1/notes/coin'' then VObj [(''commitment'', VStr ''ab'')]
     else if path = ''/v1/deposits/prepare'' then VObj [(''deposit_id'', VStr ''d''),
         (''approval_tx_request'', VObj [(''to'', VStr ''u''), (''abi'', VStr ''f''), (''args'', VArr [VStr ''m'', VStr ''505000''])]),
         (''burn_tx_request'', VObj [(''to'', VStr ''m''), (''abi'', VStr ''g''), (''args'', VArr [VStr ''505000''])])]
     else VObj [(''job_id'', VStr ''j'')])"

definition demo_web :: web_world where
  "demo_web = \<lparr> ww_token = (\<lambda>_. Some ''t''), ww_fetch = (\<lambda>tr q. Some (200, ''OK'', stringify (demo_answer (pq_path q)))),
     ww_requestAccess = (\<lambda>_. Ok (Some ''GA'')), ww_getAddress = (\<lambda>_. Ok (Some ''ga'')), ww_network = (\<lambda>_. Ok PASSPHRASE), ww_account = (\<lambda>_ _. Ok ()),
     ww_prepare = (\<lambda>_ _ _ _ _. Ok ''x''), ww_sign = (\<lambda>_ _ _. Ok ''y''), ww_send = (\<lambda>_ _. Ok (''PENDING'', ''h'')),
     ww_txStatus = (\<lambda>tr _. Ok ''SUCCESS''), ww_switchChain = (\<lambda>_. Ok ()),
     ww_writeContract = (\<lambda>_ _ _ fname _. Ok (if fname = ''approve'' then ''ha'' else ''hb'')), ww_receipt = (\<lambda>_ _. Ok True),
     ww_signMessage = (\<lambda>_ _ _. Ok ''c2ln''), ww_passkeyCreate = (\<lambda>_ _ _. Ok None), ww_passkeyGet = (\<lambda>_ _. Ok None), ww_chainId = (\<lambda>_. Ok 421614),
     ww_allowance = (\<lambda>_ _ _ _. Ok 0) \<rparr>"

definition demo_event :: "string \<Rightarrow> string \<Rightarrow> jsval option \<Rightarrow> string option \<Rightarrow> bool \<Rightarrow> web_event" where
  "demo_event meth path body idk auth = Fetched \<lparr> pq_method = meth, pq_path = path,
     pq_headers = req_headers (if auth then Some ''t'' else None) (body \<noteq> None) idk, pq_body = map_option stringify body \<rparr>
     (Some (200, ''OK'', stringify (demo_answer path)))"

lemma demo_req: "req demo_web meth path body idk auth s = (Ok (demo_answer path), s \<lparr> ws_trace := ws_trace s @ [demo_event meth path body idk auth] \<rparr>)"
proof -
  have j: "json_pure (demo_answer path)" by (simp add: demo_answer_def)
  then have ne: "stringify (demo_answer path) \<noteq> []" by (metis stringify_length length_greater_0_conv)
  show ?thesis using j ne by (simp add: req_def demo_web_def demo_event_def Let_def safeJson_def json_parse_stringify http_ok_def)
qed

lemma demo_web_sel:
  "ww_getAddress demo_web = (\<lambda>_. Ok (Some ''ga''))" "ww_account demo_web = (\<lambda>_ _. Ok ())" "ww_prepare demo_web = (\<lambda>_ _ _ _ _. Ok ''x'')"
  "ww_sign demo_web = (\<lambda>_ _ _. Ok ''y'')" "ww_send demo_web = (\<lambda>_ _. Ok (''PENDING'', ''h''))" "ww_txStatus demo_web = (\<lambda>tr _. Ok ''SUCCESS'')"
  "ww_switchChain demo_web = (\<lambda>_. Ok ())" "ww_writeContract demo_web = (\<lambda>_ _ _ fname _. Ok (if fname = ''approve'' then ''ha'' else ''hb''))"
  "ww_receipt demo_web = (\<lambda>_ _. Ok True)"
  by (simp_all add: demo_web_def)

definition demo_exit_state :: "withdraw_page web_state" where
  "demo_exit_state = \<lparr> ws_trace = [], ws_page = \<lparr> wg_busy = False, wg_jobId = VUndef, wg_zk = zk_start ''withdraw_public'' VUndef False [], wg_error = None,
     wg_doneTx = None, wg_signStatus = None, wg_address = None, wg_connecting = False \<rparr> \<rparr>"

definition demo_start_state :: "deposit_page web_state" where
  "demo_start_state = \<lparr> ws_trace = [], ws_page = \<lparr> dg_busy = False, dg_steps = [], dg_jobId = VUndef,
     dg_zk = zk_start ''deposit_note_mint'' VUndef False [], dg_error = None \<rparr> \<rparr>"

definition demo_ctx :: deposit_ctx where
  "demo_ctx = \<lparr> dx_vault_id = ''v'', dx_address = ''0xa'', dx_policyHex = ''0x0'', dx_idempotencyKey = ''k'', dx_verifier = VUndef \<rparr>"

lemmas demo_web_eval = andThen_def ask_def on_page_def give_back_def dot_def dot_text_def dot_list_def demo_req demo_web_sel api_get_def api_post_def
  handled_def demo_answer_def

lemma demo_first_poll:
  "deposit_loop demo_web (VStr ''j'') 240 t = (Ok (), t \<lparr> ws_trace := ws_trace t @ [demo_event ''GET'' ''/v1/jobs/j'' None None True],
    ws_page := deposit_ready (js_get (demo_answer ''/v1/jobs/j'') ''result'') (ws_page t) \<rparr>)"
  "prepare_loop demo_web (VStr ''j'') 120 s = (Ok (Some (prep_of (js_get (demo_answer ''/v1/jobs/j'') ''result''))),
    s \<lparr> ws_trace := ws_trace s @ [demo_event ''GET'' ''/v1/jobs/j'' None None True], ws_page := (ws_page s) \<lparr> wg_zk := (wg_zk (ws_page s))
      \<lparr> zk_proving := False, zk_proofHex := Some ''00'', zk_publicHex := Some ''0x01'' \<rparr> \<rparr> \<rparr>)"
  "confirm_loop demo_web ''h'' 30 u = (Ok ''h'', u \<lparr> ws_trace := ws_trace u @ [TxStatus ''h'' (Ok ''SUCCESS'')] \<rparr>)"
proof -
  have n: "(240 :: nat) = Suc 239" "(120 :: nat) = Suc 119" "(30 :: nat) = Suc 29" by simp_all
  show "deposit_loop demo_web (VStr ''j'') 240 t = (Ok (), t \<lparr> ws_trace := ws_trace t @ [demo_event ''GET'' ''/v1/jobs/j'' None None True],
      ws_page := deposit_ready (js_get (demo_answer ''/v1/jobs/j'') ''result'') (ws_page t) \<rparr>)"
    unfolding n(1) deposit_loop.simps(2) by (simp add: demo_web_eval)
  show "prepare_loop demo_web (VStr ''j'') 120 s = (Ok (Some (prep_of (js_get (demo_answer ''/v1/jobs/j'') ''result''))),
      s \<lparr> ws_trace := ws_trace s @ [demo_event ''GET'' ''/v1/jobs/j'' None None True], ws_page := (ws_page s) \<lparr> wg_zk := (wg_zk (ws_page s))
        \<lparr> zk_proving := False, zk_proofHex := Some ''00'', zk_publicHex := Some ''0x01'' \<rparr> \<rparr> \<rparr>)"
    unfolding n(2) prepare_loop.simps(2) by (simp add: demo_web_eval prep_of_def nullish_def)
  show "confirm_loop demo_web ''h'' 30 u = (Ok ''h'', u \<lparr> ws_trace := ws_trace u @ [TxStatus ''h'' (Ok ''SUCCESS'')] \<rparr>)"
    unfolding n(3) confirm_loop.simps(2) by (simp add: demo_web_eval)
qed

lemma demo_exit_done: "wg_doneTx (ws_page (withdraw_run demo_web VUndef (Some ''ab'') demo_exit_state)) = Some ''h''"
proof -
  have same: "upper ''ga'' = upper ''GA''" by code_simp
  show ?thesis
    by (simp add: withdraw_run_def demo_exit_state_def zk_start_def withdraw_body_def freighterWithdraw_def demo_web_eval prep_of_def demo_first_poll
      sign_status_def nullish_def same)
qed

lemma setStep_update: "setStep i f p = p \<lparr> dg_steps := (dg_steps p)[i := f (dg_steps p ! i)] \<rparr>"
  unfolding setStep_def by (rule arg_cong [where f = "\<lambda>u. p \<lparr> dg_steps := u \<rparr>"]) (auto intro!: nth_equalityI simp: nth_list_update)

lemma demo_deposit_done: "map ds_status (dg_steps (ws_page (deposit_run demo_web (Some demo_ctx) demo_start_state))) = replicate 5 StepDone"
proof -
  have five: "replicate 5 (x :: 'a) = [x, x, x, x, x]" "(4 :: nat) = Suc 3" for x by (simp_all add: eval_nat_numeral)
  show ?thesis
    by (simp add: deposit_run_def demo_start_state_def zk_start_def deposit_body_def send_prepared_def demo_web_eval demo_first_poll step_done_def
       step_running_def setStep_update deposit_ready_def five idle_deposit_step_def numeral_3_eq_3 numeral_2_eq_2 del: deposit_loop.simps)
qed

text \<open>C38: the withdrawal handler of the browser, whatever the API, the wallet and the ledger answer. It always ends, with the busy flag
  cleared; it asks for a signature only for the account the wallet said it is on; it reports the note as spent only with the hash of
  a transaction that the ledger reported as successful before; and it shows a finished withdrawal exactly when there is no error, then
  with a hash that was successful and was recorded by the API.\<close>

theorem withdraw_page_sound:
  assumes "c \<noteq> []"
  shows "\<exists>new. ws_trace (withdraw_run w v (Some c) s) = ws_trace s @ new \<and> \<not> wg_busy (ws_page (withdraw_run w v (Some c) s)) \<and>
    (\<forall>pre xdr r ans post. new = pre @ Signed xdr r ans # post \<longrightarrow> (\<exists>a. Addressed (Ok (Some a)) \<in> set pre \<and> upper a = upper r)) \<and>
    (\<forall>pre q ans post. new = pre @ Fetched q ans # post \<and> pq_path q = ''/v1/withdrawals/mark-spent'' \<longrightarrow>
       (\<exists>tx. TxStatus tx (Ok ''SUCCESS'') \<in> set pre \<and> pq_body q = Some (mark_body c tx))) \<and>
    (wg_doneTx (ws_page (withdraw_run w v (Some c) s)) = None \<longleftrightarrow> wg_error (ws_page (withdraw_run w v (Some c) s)) \<noteq> None) \<and>
    (\<forall>tx. wg_doneTx (ws_page (withdraw_run w v (Some c) s)) = Some tx \<longrightarrow> TxStatus tx (Ok ''SUCCESS'') \<in> set new \<and>
       (\<exists>q code stext txt. Fetched q (Some (code, stext, txt)) \<in> set new \<and> http_ok code \<and>
          pq_path q = ''/v1/withdrawals/mark-spent'' \<and> pq_body q = Some (mark_body c tx)))"
proof -
  define s0 where "s0 = s \<lparr> ws_page := (ws_page s) \<lparr> wg_busy := True, wg_error := None, wg_jobId := VUndef, wg_doneTx := None, wg_signStatus := None,
    wg_zk := zk_start ''withdraw_public'' v True [(''note'', c)] \<rparr> \<rparr>"
  define out where "out = withdraw_run w v (Some c) s"
  have t: "case withdraw_body w c s0 of (Inl e, s') \<Rightarrow> so_far (exit_ok c) not_done (ws_trace s) {} s' | (Inr a, s') \<Rightarrow> recorded c (ws_trace s) s'"
    using withdraw_body_triple [of c "ws_trace s" w] unfolding triple_def by (simp add: s0_def so_far_def)
  have safe: "\<exists>a. Addressed (Ok (Some a)) \<in> set pre \<and> upper a = upper r"
    if "safe_from (exit_ok c) [] (pre @ Signed xdr r ans # post)" for pre xdr r ans post
    using safe_from_split [OF that] by (auto simp: exit_ok_def)
  have mark: "\<exists>tx. TxStatus tx (Ok ''SUCCESS'') \<in> set pre \<and> pq_body q = Some (mark_body c tx)"
    if "safe_from (exit_ok c) [] (pre @ Fetched q ans # post)" "pq_path q = ''/v1/withdrawals/mark-spent''" for pre q ans post
    using safe_from_split [OF that(1)] that(2) by (simp add: exit_ok_def)
  have out: "out = handled (withdraw_body w c)
      (\<lambda>e p. p \<lparr> wg_error := Some e, wg_zk := (wg_zk p) \<lparr> zk_proving := False \<rparr>, wg_signStatus := None \<rparr>) (\<lambda>p. p \<lparr> wg_busy := False \<rparr>) s0"
    using assms by (simp add: out_def withdraw_run_def s0_def)
  have "\<exists>new. ws_trace out = ws_trace s @ new \<and> safe_from (exit_ok c) [] new \<and> \<not> wg_busy (ws_page out) \<and>
      (wg_doneTx (ws_page out) = None \<longleftrightarrow> wg_error (ws_page out) \<noteq> None) \<and>
      (\<forall>tx. wg_doneTx (ws_page out) = Some tx \<longrightarrow> TxStatus tx (Ok ''SUCCESS'') \<in> set new \<and>
         (\<exists>q code stext txt. Fetched q (Some (code, stext, txt)) \<in> set new \<and> http_ok code \<and>
            pq_path q = ''/v1/withdrawals/mark-spent'' \<and> pq_body q = Some (mark_body c tx)))"
  proof (cases "withdraw_body w c s0")
    case (Pair r s1)
    then show ?thesis using t by (cases r) (fastforce simp: out handled_def so_far_def recorded_def)+
  qed
  then obtain new where n: "ws_trace out = ws_trace s @ new" "safe_from (exit_ok c) [] new" "\<not> wg_busy (ws_page out)"
      "wg_doneTx (ws_page out) = None \<longleftrightarrow> wg_error (ws_page out) \<noteq> None"
      "\<forall>tx. wg_doneTx (ws_page out) = Some tx \<longrightarrow> TxStatus tx (Ok ''SUCCESS'') \<in> set new \<and>
         (\<exists>q code stext txt. Fetched q (Some (code, stext, txt)) \<in> set new \<and> http_ok code \<and>
            pq_path q = ''/v1/withdrawals/mark-spent'' \<and> pq_body q = Some (mark_body c tx))" by (elim exE conjE) (rule that)
  show ?thesis unfolding out_def [symmetric] using n safe mark by (intro exI [of _ new] conjI) blast+
qed

theorem withdraw_page_sound_witness:
  "\<exists>new. ws_trace (withdraw_run demo_web VUndef (Some ''ab'') demo_exit_state) = new \<and> TxStatus ''h'' (Ok ''SUCCESS'') \<in> set new \<and>
     wg_error (ws_page (withdraw_run demo_web VUndef (Some ''ab'') demo_exit_state)) = None"
  using withdraw_page_sound [of "''ab''" demo_web VUndef demo_exit_state] demo_exit_done by (auto simp: demo_exit_state_def)

text \<open>The deposit handler of the browser, whatever the API and the wallet answer: it ends with the busy flag cleared, it asks for the
  burn only after the approval it asked for was mined, and it reports a burn to the API only after that burn was mined, with its hash.\<close>

theorem deposit_page_sound:
  "\<exists>new. ws_trace (deposit_run w (Some x) s) = ws_trace s @ new \<and> \<not> dg_busy (ws_page (deposit_run w (Some x) s)) \<and>
    (\<forall>pre to abi args ans post. new = pre @ WroteContract to abi ''depositForBurnWithHook'' args ans # post \<longrightarrow>
       (\<exists>to' abi' args' h b. WroteContract to' abi' ''approve'' args' (Ok h) \<in> set pre \<and> Receipt h (Ok b) \<in> set pre)) \<and>
    (\<forall>pre q d ans post. new = pre @ Fetched q ans # post \<and> pq_path q = ''/v1/deposits/'' @ d @ ''/burn-submitted'' \<longrightarrow>
       (\<exists>to abi args h b. WroteContract to abi ''depositForBurnWithHook'' args (Ok h) \<in> set pre \<and> Receipt h (Ok b) \<in> set pre \<and>
          pq_body q = Some (stringify (burn_request x h))))"
proof -
  define s0 where "s0 = s \<lparr> ws_page := (ws_page s) \<lparr> dg_busy := True, dg_error := None, dg_jobId := VUndef,
    dg_zk := zk_start ''deposit_note_mint'' (dx_verifier x) False [], dg_steps := replicate 5 idle_deposit_step \<rparr> \<rparr>"
  define out where "out = deposit_run w (Some x) s"
  have t: "case deposit_body w x s0 of (Inl e, s') \<Rightarrow> so_far (deposit_ok x) (\<lambda>_. True) (ws_trace s) {} s'
      | (Inr a, s') \<Rightarrow> so_far (deposit_ok x) (\<lambda>_. True) (ws_trace s) {} s'"
    using deposit_body_triple [of x "ws_trace s" w] unfolding triple_def by (simp add: s0_def so_far_def)
  have "\<exists>new. ws_trace out = ws_trace s @ new \<and> safe_from (deposit_ok x) [] new \<and> \<not> dg_busy (ws_page out)"
  proof (cases "deposit_body w x s0")
    case (Pair r s1)
    then show ?thesis using t by (cases r) (auto simp: out_def deposit_run_def s0_def [symmetric] handled_def so_far_def)
  qed
  then obtain new where n: "ws_trace out = ws_trace s @ new" "safe_from (deposit_ok x) [] new" "\<not> dg_busy (ws_page out)" by blast
  have burn: "\<exists>to' abi' args' h b. WroteContract to' abi' ''approve'' args' (Ok h) \<in> set pre \<and> Receipt h (Ok b) \<in> set pre"
    if "new = pre @ WroteContract to abi ''depositForBurnWithHook'' args ans # post" for pre to abi args ans post
    using safe_from_split [OF n(2) [unfolded that]] by (simp add: deposit_ok_def)
  have report: "\<exists>to abi args h b. WroteContract to abi ''depositForBurnWithHook'' args (Ok h) \<in> set pre \<and> Receipt h (Ok b) \<in> set pre \<and>
      pq_body q = Some (stringify (burn_request x h))"
    if "new = pre @ Fetched q ans # post" "pq_path q = ''/v1/deposits/'' @ d @ ''/burn-submitted''" for pre q d ans post
    using safe_from_split [OF n(2) [unfolded that(1)]] that(2) by (simp add: deposit_ok_def)
  show ?thesis unfolding out_def [symmetric] using n(1,3) burn report by (intro exI [of _ new] conjI) blast+
qed

theorem deposit_page_sound_witness:
  "\<not> dg_busy (ws_page (deposit_run demo_web (Some demo_ctx) demo_start_state)) \<and>
   map ds_status (dg_steps (ws_page (deposit_run demo_web (Some demo_ctx) demo_start_state))) = replicate 5 StepDone"
  using deposit_page_sound [of demo_web demo_ctx demo_start_state] demo_deposit_done by blast

end
