(* ===== verification/WebVault.thy ===== *)
theory WebVault
  imports SpendPages
begin

text \<open>
  The web application's vault: \<open>apps/web/src/lib\<close> with \<open>api.ts\<close>, \<open>vault-store.ts\<close>, \<open>passkey.ts\<close> and \<open>stellar-signer.ts\<close>, and the
  handlers of \<open>apps/web/src/app/vault/page.tsx\<close> (create), \<open>restore/page.tsx\<close> (recover) and \<open>deposit/page.tsx\<close> (deposit), on the vault library of
  \<open>NoteVault\<close>. Random draws, the clock and drawn ids are arguments; passkeys, Freighter, the API and the chain answer as functions of everything
  asked before. IndexedDB does not fail; an address Freighter does not give reads as the empty text. The lines of the log are not modelled.
\<close>


section \<open>The API client\<close>

definition web_headers :: "string option \<Rightarrow> string option \<Rightarrow> (string \<times> string) list" where
  "web_headers token idk = (''content-type'', ''application/json'') #
    (case token of None \<Rightarrow> [] | Some t \<Rightarrow> if t = [] then [] else [(''authorization'', ''Bearer '' @ t)]) @
    (case idk of None \<Rightarrow> [] | Some k \<Rightarrow> if k = [] then [] else [(''idempotency-key'', k)])"

definition web_api :: "web_world \<Rightarrow> string \<Rightarrow> string option \<Rightarrow> string option \<Rightarrow> jsval option \<Rightarrow> string option \<Rightarrow> ('p, jsval) web" where
  "web_api w path token idk body meth s =
    (let q = \<lparr> pq_method = (case meth of Some m \<Rightarrow> m | None \<Rightarrow> if body \<noteq> None then ''POST'' else ''GET''), pq_path = path,
               pq_headers = web_headers token idk, pq_body = map_option stringify body \<rparr>;
         ans = ww_fetch w (ws_trace s) q; s1 = s \<lparr> ws_trace := ws_trace s @ [Fetched q ans] \<rparr> in
     (case ans of
        None \<Rightarrow> (Throw (AnyError ''fetch failed''), s1)
      | Some (code, statusText, body) \<Rightarrow>
         (case (if body = [] then Some (VObj []) else json_parse body) of
            None \<Rightarrow> (Throw (AnyError ''invalid JSON''), s1)
          | Some json \<Rightarrow>
             if http_ok code then (Ok json, s1)
             else if json = VNull then (Throw TypeErr, s1)
             else (Throw (AnyError (to_String (nullish (js_get json ''error'') (VStr (''API '' @ nat_to_string code))))), s1))))"

text \<open>\<open>ApiClient\<close>\<close>

definition client_me :: "web_world \<Rightarrow> string \<Rightarrow> ('p, jsval) web" where
  "client_me w token = web_api w ''/v1/me'' (Some token) None None None"

definition client_createVault :: "web_world \<Rightarrow> string \<Rightarrow> jsval \<Rightarrow> ('p, jsval) web" where
  "client_createVault w token envelope = web_api w ''/v1/note-vaults'' (Some token) None (Some (VObj [(''envelope'', envelope)])) None"

definition client_listVaults :: "web_world \<Rightarrow> string \<Rightarrow> ('p, jsval) web" where
  "client_listVaults w token = web_api w ''/v1/note-vaults'' (Some token) None None None"

definition client_getVault :: "web_world \<Rightarrow> string \<Rightarrow> string \<Rightarrow> ('p, jsval) web" where
  "client_getVault w token vaultId = web_api w (''/v1/note-vaults/'' @ vaultId) (Some token) None None None"

definition client_verifyBackup :: "web_world \<Rightarrow> string \<Rightarrow> string \<Rightarrow> jsval \<Rightarrow> ('p, jsval) web" where
  "client_verifyBackup w token vaultId body = web_api w (''/v1/note-vaults/'' @ vaultId @ ''/verify-backup'') (Some token) None (Some body) None"

definition client_markRestored :: "web_world \<Rightarrow> string \<Rightarrow> string \<Rightarrow> ('p, jsval) web" where
  "client_markRestored w token vaultId = web_api w (''/v1/note-vaults/'' @ vaultId @ ''/mark-restored'') (Some token) None None (Some ''POST'')"

definition client_syncPrivyWallets :: "web_world \<Rightarrow> string \<Rightarrow> jsval list \<Rightarrow> ('p, jsval) web" where
  "client_syncPrivyWallets w token wallets = web_api w ''/v1/me/wallets/sync-privy'' (Some token) None (Some (VObj [(''wallets'', VArr wallets)])) None"

definition client_prepareDeposit :: "web_world \<Rightarrow> string \<Rightarrow> string \<Rightarrow> jsval \<Rightarrow> ('p, jsval) web" where
  "client_prepareDeposit w token ikey body = web_api w ''/v1/deposits/prepare'' (Some token) (Some ikey) (Some body) None"

definition client_burnSubmitted :: "web_world \<Rightarrow> string \<Rightarrow> string \<Rightarrow> jsval \<Rightarrow> ('p, jsval) web" where
  "client_burnSubmitted w token depositId body = web_api w (''/v1/deposits/'' @ depositId @ ''/burn-submitted'') (Some token) None (Some body) None"

definition client_job :: "web_world \<Rightarrow> string \<Rightarrow> string \<Rightarrow> ('p, jsval) web" where
  "client_job w token jobId = web_api w (''/v1/jobs/'' @ jobId) (Some token) None None None"


section \<open>What the browser keeps\<close>

text \<open>The decrypted vault in memory, the encrypted envelopes in IndexedDB by vault id, the downloaded files, and the state of the pages.\<close>

datatype vault_stage = VaultIdle | VaultCreating | VaultReady | VaultFailed

datatype checkout_stage = Idle | CheckingVault | ApprovePending | BurnPending | BurnSubmitted | RelayerValidating | StellarCompleting | NoteActive | Failed

record vault_client =
  vc_memory :: "jsval option"
  vc_cache :: "(string, jsval) jmap"
  vc_downloads :: "(string \<times> jsval) list"
  vc_stage :: vault_stage
  vc_vaultId :: string
  vc_checkout :: checkout_stage
  vc_details :: "(string, string) jmap"

type_synonym 'a vault_stmt = "(vault_client, 'a) web"

definition setMemoryVault :: "jsval option \<Rightarrow> unit vault_stmt" where
  "setMemoryVault v = on_page (\<lambda>p. p \<lparr> vc_memory := v \<rparr>)"

definition cacheEnvelope :: "jsval \<Rightarrow> unit vault_stmt" where
  "cacheEnvelope env = on_page (\<lambda>p. p \<lparr> vc_cache := jm_set (vc_cache p) (to_String (js_get env ''vault_id'')) env \<rparr>)"

definition loadCachedEnvelope :: "string \<Rightarrow> vault_client \<Rightarrow> jsval option" where
  "loadCachedEnvelope vaultId p = jm_get (vc_cache p) vaultId"

definition clearLocalCache :: "unit vault_stmt" where
  "clearLocalCache = on_page (\<lambda>p. p \<lparr> vc_memory := None, vc_cache := [] \<rparr>)"

definition download :: "string \<Rightarrow> jsval \<Rightarrow> unit vault_stmt" where
  "download name obj = on_page (\<lambda>p. p \<lparr> vc_downloads := vc_downloads p @ [(name, obj)] \<rparr>)"

text \<open>An error of the vault library is an error of the handler.\<close>

definition of_vault :: "(vault_error, 'a) result \<Rightarrow> ('p, 'a) web" where
  "of_vault r = (case r of Inl _ \<Rightarrow> fail_with (AnyError ''vault'') | Inr x \<Rightarrow> give_back x)"

text \<open>\<open>getToken()\<close>; no token and an empty one are refused.\<close>

definition need_token :: "web_world \<Rightarrow> ('p, string) web" where
  "need_token w s = (case ww_token w (ws_trace s) of None \<Rightarrow> (Throw (AnyError ''please log in''), s)
     | Some t \<Rightarrow> if t = [] then (Throw (AnyError ''please log in''), s) else (Ok t, s))"


section \<open>Passkeys and Freighter\<close>

definition url_char :: "char \<Rightarrow> char" where
  "url_char c = (if c = CHR ''+'' then CHR ''-'' else if c = CHR ''/'' then CHR ''_'' else c)"

definition std_char :: "char \<Rightarrow> char" where
  "std_char c = (if c = CHR ''-'' then CHR ''+'' else if c = CHR ''_'' then CHR ''/'' else c)"

definition bytesToB64url :: "bytes \<Rightarrow> string" where
  "bytesToB64url b = rev (dropWhile (\<lambda>c. c = CHR ''='') (rev (map url_char (base64_encode b))))"

definition b64urlToBytes :: "string \<Rightarrow> bytes option" where
  "b64urlToBytes s = atob (map std_char s @ drop ((length s + 3) mod 4) ''==='')"

record passkey_result =
  pk_credentialId :: string
  pk_prfOutput :: bytes
  pk_backupEligible :: bool
  pk_backupState :: bool

definition passkey_given :: "string \<Rightarrow> bytes \<Rightarrow> passkey_result" where
  "passkey_given cid prfOutput = \<lparr> pk_credentialId = cid, pk_prfOutput = prfOutput, pk_backupEligible = True, pk_backupState = True \<rparr>"

definition getPasskeyWrapperInput :: "web_world \<Rightarrow> string \<Rightarrow> ('p, passkey_result) web" where
  "getPasskeyWrapperInput w credentialId =
    (case b64urlToBytes credentialId of
       None \<Rightarrow> fail_with (AnyError ''InvalidCharacterError'')
     | Some i \<Rightarrow>
        andThen (ask (\<lambda>tr. ww_passkeyGet w tr i) (PasskeyUsed i)) (\<lambda>assertion.
        (case assertion of
           None \<Rightarrow> fail_with (AnyError ''passkey unlock cancelled'')
         | Some None \<Rightarrow> fail_with (AnyError ''no passkey PRF value'')
         | Some (Some first) \<Rightarrow> give_back (passkey_given credentialId first))))"

text \<open>An unsupported browser is an error of the question.\<close>

definition createPasskeyWrapperInput :: "web_world \<Rightarrow> string \<Rightarrow> string \<Rightarrow> ('p, passkey_result) web" where
  "createPasskeyWrapperInput w userId userName =
    andThen (ask (\<lambda>tr. ww_passkeyCreate w tr userId userName) (PasskeyMade userId userName)) (\<lambda>cred.
    (case cred of
       None \<Rightarrow> fail_with (AnyError ''passkey creation cancelled'')
     | Some (rawId, first, enabled) \<Rightarrow>
        (case first of
           Some out \<Rightarrow> give_back (passkey_given (bytesToB64url rawId) out)
         | None \<Rightarrow> if enabled = Some False then fail_with (AnyError ''no PRF support'')
             else getPasskeyWrapperInput w (bytesToB64url rawId))))"

definition web_connectFreighter :: "web_world \<Rightarrow> ('p, string) web" where
  "web_connectFreighter w = andThen (ask (ww_requestAccess w) Accessed) (\<lambda>a. give_back (case a of None \<Rightarrow> [] | Some t \<Rightarrow> t))"

definition RECOVERY_CHALLENGE :: string where
  "RECOVERY_CHALLENGE = ''shade-vault-recovery-v1''"

definition stellarRecoverySignature :: "web_world \<Rightarrow> string \<Rightarrow> ('p, bytes) web" where
  "stellarRecoverySignature w addr =
    andThen (ask (\<lambda>tr. ww_signMessage w tr RECOVERY_CHALLENGE addr) (MessageSigned RECOVERY_CHALLENGE addr)) (\<lambda>m.
    if m = [] then fail_with (AnyError ''signMessage failed'')
    else (case atob m of None \<Rightarrow> fail_with (AnyError ''InvalidCharacterError'') | Some bs \<Rightarrow> give_back bs))"


section \<open>Creating a vault\<close>

record vault_choice =
  sel_passkey :: bool
  sel_freighter :: bool
  sel_file :: bool
  sel_password :: bool

definition chosen :: "vault_choice \<Rightarrow> nat" where
  "chosen sel = length (filter id [sel_passkey sel, sel_freighter sel, sel_file sel, sel_password sel])"

definition canCreate :: "vault_choice \<Rightarrow> string \<Rightarrow> bool" where
  "canCreate sel pw = (chosen sel \<ge> 1 \<and> (\<not> sel_password sel \<or> length pw \<ge> 6))"

record vault_draws =
  vd_master :: bytes
  vd_uuid :: string
  vd_now :: string
  vd_passkey :: wrap_draws
  vd_stellar :: wrap_draws
  vd_file :: wrap_draws
  vd_password :: wrap_draws
  vd_secret :: bytes
  vd_iv :: bytes
  vd_origin :: string

definition page_sha256Hex :: "webcrypto \<Rightarrow> string \<Rightarrow> string" where
  "page_sha256Hex wc s = ''0x'' @ to_hex (wc_sha256 wc (utf8 s))"

definition drawn_vault :: "vault_draws \<Rightarrow> note_vault" where
  "drawn_vault d = createEmptyNoteVault (''vault-'' @ vd_uuid d) (vd_now d)"

text \<open>A method that fails is skipped.\<close>

definition try_wrapper :: "vault_wrapper vault_stmt \<Rightarrow> vault_wrapper list \<Rightarrow> vault_wrapper list vault_stmt" where
  "try_wrapper m ws s = (case m s of (Inl e, s1) \<Rightarrow> (Ok ws, s1) | (Inr x, s1) \<Rightarrow> (Ok (ws @ [x]), s1))"

definition passkey_wrapper :: "web_world \<Rightarrow> webcrypto \<Rightarrow> vault_draws \<Rightarrow> string \<Rightarrow> string \<Rightarrow> vault_wrapper vault_stmt" where
  "passkey_wrapper w wc d userId userName =
    andThen (createPasskeyWrapperInput w userId userName) (\<lambda>pk.
    of_vault (wrapVaultKeyWithPasskeyPrf wc (vd_passkey d) (vd_master d) (pk_prfOutput pk)
      [(''credential_id_hash'', VStr (page_sha256Hex wc (pk_credentialId pk))), (''backup_eligible'', VBool (pk_backupEligible pk)),
       (''backup_state'', VBool (pk_backupState pk))]))"

definition freighter_wrapper :: "web_world \<Rightarrow> webcrypto \<Rightarrow> vault_draws \<Rightarrow> vault_wrapper vault_stmt" where
  "freighter_wrapper w wc d =
    andThen (web_connectFreighter w) (\<lambda>addr.
    andThen (stellarRecoverySignature w addr) (\<lambda>sig.
    of_vault (wrapVaultKeyWithStellarSignature wc (vd_stellar d) (vd_master d) sig
      [(''stellar_address'', VStr addr), (''wallet_source'', VStr ''freighter'')])))"

definition recovery_file_value :: "recovery_file \<Rightarrow> jsval" where
  "recovery_file_value f = VObj [(''version'', VStr ''shade-recovery-file-v1''), (''vault_id'', VStr (rf_vault_id f)), (''created_at'', VStr (rf_created_at f)),
     (''app'', VStr ''Shade Protocol''),
     (''warning'', VStr ''Keep this file safe. It can help restore your private vault. Anyone with this file can decrypt your vault.''),
     (''recovery_file_secret'', VStr (rf_recovery_file_secret f)), (''wrapper'', wrapper_value (rf_wrapper f))]"

definition file_wrapper :: "webcrypto \<Rightarrow> vault_draws \<Rightarrow> vault_wrapper vault_stmt" where
  "file_wrapper wc d =
    andThen (of_vault (wrapVaultKeyWithRecoveryFileSecret wc (vd_file d) (vd_master d) (vd_secret d)
      [(''device_hint'', VStr ''browser''), (''created_at'', VStr (vd_now d))])) (\<lambda>rfWrapper.
    andThen (download (''shade-recovery-'' @ take 12 (nv_vault_id (drawn_vault d)) @ ''.json'')
      (recovery_file_value (buildRecoveryFile (nv_vault_id (drawn_vault d)) (vd_secret d) rfWrapper (vd_now d)))) (\<lambda>_.
    give_back rfWrapper))"

definition password_wrapper :: "webcrypto \<Rightarrow> vault_draws \<Rightarrow> string \<Rightarrow> vault_wrapper vault_stmt" where
  "password_wrapper wc d pw = of_vault (wrapVaultKeyWithRecoveryKitPassword wc (vd_password d) (vd_master d) pw [(''created_at'', VStr (vd_now d))])"

definition vault_wrappers :: "web_world \<Rightarrow> webcrypto \<Rightarrow> vault_draws \<Rightarrow> vault_choice \<Rightarrow> string \<Rightarrow> string \<Rightarrow> string \<Rightarrow> vault_wrapper list vault_stmt" where
  "vault_wrappers w wc d sel pw userId userName =
    andThen (if sel_passkey sel then try_wrapper (passkey_wrapper w wc d userId userName) [] else give_back []) (\<lambda>ws1.
    andThen (if sel_freighter sel then try_wrapper (freighter_wrapper w wc d) ws1 else give_back ws1) (\<lambda>ws2.
    andThen (if sel_file sel then andThen (file_wrapper wc d) (\<lambda>x. give_back (ws2 @ [x])) else give_back ws2) (\<lambda>ws3.
    if sel_password sel \<and> pw \<noteq> [] then andThen (password_wrapper wc d pw) (\<lambda>x. give_back (ws3 @ [x])) else give_back ws3)))"

text \<open>\<open>wrappers.find((w) => w.type === ty)\<close> on what was fetched.\<close>

fun find_wrapper :: "string \<Rightarrow> jsval list \<Rightarrow> ('p, jsval option) web" where
  "find_wrapper ty [] = give_back None"
| "find_wrapper ty (v # vs) = andThen (dot v ''type'') (\<lambda>t. if t = VStr ty then give_back (Some v) else find_wrapper ty vs)"

text \<open>The library reads salt and wrapped key of a wrapper.\<close>

definition wrapper_of_value :: "jsval \<Rightarrow> vault_wrapper" where
  "wrapper_of_value v = \<lparr> vw_id = to_String (js_get v ''id''), vw_type = EvmSignature, vw_active = (js_get v ''status'' = VStr ''active''), vw_kdf = HkdfSha256,
     vw_salt = to_String (js_get v ''salt''), vw_wrapped_key = to_String (js_get v ''wrapped_key''), vw_diagnostic_only = None, vw_metadata = [] \<rparr>"

text \<open>Decrypting the fetched envelope: by the recovery file's secret if there is one, else by the key in memory. The method that is reported.\<close>

definition prove_restore :: "webcrypto \<Rightarrow> vault_draws \<Rightarrow> bool \<Rightarrow> jsval \<Rightarrow> jsval vault_stmt" where
  "prove_restore wc d hasFile fetched =
    andThen (dot_list fetched ''wrappers'') (\<lambda>ws.
    andThen (find_wrapper ''recovery_file_secret'' ws) (\<lambda>rfW.
    andThen (case rfW of
        Some v \<Rightarrow> if hasFile then andThen (of_vault (unwrapVaultKeyWithRecoveryFileSecret wc (wrapper_of_value v) (vd_secret d))) (\<lambda>k.
            give_back (k, VStr ''recovery_file_secret''))
          else give_back (vd_master d, nullish (js_get (if ws = [] then VUndef else hd ws) ''type'') (VStr ''stellar_ed25519_signature''))
      | None \<Rightarrow> give_back (vd_master d, nullish (js_get (if ws = [] then VUndef else hd ws) ''type'') (VStr ''stellar_ed25519_signature''))) (\<lambda>(k, method).
    andThen (of_vault (decryptEnvelope wc fetched k)) (\<lambda>dec.
    andThen (dot dec ''vault_id'') (\<lambda>i.
    if i = VStr (nv_vault_id (drawn_vault d)) then give_back method else fail_with (AnyError ''backup verification failed''))))))"

definition verification_body :: "webcrypto \<Rightarrow> vault_draws \<Rightarrow> jsval \<Rightarrow> jsval" where
  "verification_body wc d method = (let vid = nv_vault_id (drawn_vault d) in
    VObj [(''verification'', VObj [(''vault_id'', VStr vid), (''decrypted_vault_hash'', VStr (page_sha256Hex wc vid)),
      (''commitments_hash'', VStr (page_sha256Hex wc [])), (''method'', method), (''verified_at_client'', VStr (vd_now d))])])"

text \<open>After the upload: keep the envelope and the vault, fetch the envelope and decrypt it, and report that.\<close>

definition prove_backup :: "web_world \<Rightarrow> webcrypto \<Rightarrow> vault_draws \<Rightarrow> vault_choice \<Rightarrow> string \<Rightarrow> jsval \<Rightarrow> unit vault_stmt" where
  "prove_backup w wc d sel token envelope =
    (let vault = drawn_vault d in
     andThen (cacheEnvelope envelope) (\<lambda>_.
     andThen (setMemoryVault (Some (vault_value vault))) (\<lambda>_.
     andThen (client_getVault w token (nv_vault_id vault)) (\<lambda>res.
     andThen (dot res ''envelope'') (\<lambda>fetched.
     andThen (prove_restore wc d (sel_file sel) fetched) (\<lambda>method.
     andThen (client_verifyBackup w token (nv_vault_id vault) (verification_body wc d method)) (\<lambda>_.
     on_page (\<lambda>p. p \<lparr> vc_vaultId := nv_vault_id vault, vc_stage := VaultReady \<rparr>))))))))"

text \<open>The API types the account id as a text.\<close>

definition createVault_body :: "web_world \<Rightarrow> webcrypto \<Rightarrow> vault_draws \<Rightarrow> vault_choice \<Rightarrow> string \<Rightarrow> unit vault_stmt" where
  "createVault_body w wc d sel pw =
    andThen (need_token w) (\<lambda>token.
    andThen (client_me w token) (\<lambda>me.
    andThen (dot me ''privy_user_id'') (\<lambda>pid.
    (case pid of
       VStr userId \<Rightarrow> if userId = [] then fail_with (AnyError ''could not resolve your account id'') else
      (let vault = drawn_vault d in
       andThen (vault_wrappers w wc d sel pw userId (to_String (nullish (js_get me ''email'') (VStr ''Shade user'')))) (\<lambda>wrappers.
       if filter (\<lambda>x. vw_type x \<noteq> EvmSignature) wrappers = [] then fail_with (AnyError ''no recovery method was set up'')
       else
         andThen (of_vault (createVaultEnvelope wc (vd_iv d) vault (vd_master d) userId (vd_origin d) wrappers)) (\<lambda>envelope.
         andThen (client_createVault w token (envelope_value envelope)) (\<lambda>_.
         prove_backup w wc d sel token (envelope_value envelope)))))
     | _ \<Rightarrow> fail_with (AnyError ''could not resolve your account id'')))))"

definition createVault :: "web_world \<Rightarrow> webcrypto \<Rightarrow> vault_draws \<Rightarrow> vault_choice \<Rightarrow> string \<Rightarrow> vault_client web_state \<Rightarrow> vault_client web_state" where
  "createVault w wc d sel pw s = handled (createVault_body w wc d sel pw) (\<lambda>e p. p \<lparr> vc_stage := VaultFailed \<rparr>) (\<lambda>p. p)
     (s \<lparr> ws_page := (ws_page s) \<lparr> vc_stage := VaultCreating \<rparr> \<rparr>)"


section \<open>Restoring a vault\<close>

definition fetchEnvelope :: "web_world \<Rightarrow> string \<Rightarrow> string \<Rightarrow> ('p, jsval) web" where
  "fetchEnvelope w token vaultId =
    andThen (client_getVault w token vaultId) (\<lambda>res.
    andThen (dot res ''envelope'') (\<lambda>env.
    andThen (of_vault (validateVaultEnvelope env)) (\<lambda>_. give_back env)))"

text \<open>The lines shown for the restored notes read the commitment of each.\<close>

definition finish_restore :: "web_world \<Rightarrow> webcrypto \<Rightarrow> string \<Rightarrow> jsval \<Rightarrow> bytes \<Rightarrow> unit vault_stmt" where
  "finish_restore w wc token env master =
    andThen (of_vault (decryptEnvelope wc env master)) (\<lambda>vault.
    andThen (dot vault ''vault_id'') (\<lambda>i.
    if i \<noteq> js_get env ''vault_id'' then fail_with (AnyError ''restored vault id mismatch'')
    else
      andThen (setMemoryVault (Some vault)) (\<lambda>_.
      andThen (cacheEnvelope env) (\<lambda>_.
      andThen (dot_list vault ''notes'') (\<lambda>notes.
      andThen (each (\<lambda>n. andThen (dot_text n ''commitment'') (\<lambda>_. give_back ())) notes) (\<lambda>_.
      andThen (client_markRestored w token (to_String (js_get env ''vault_id''))) (\<lambda>_. give_back ())))))))"

definition restoreFromFile_body :: "web_world \<Rightarrow> webcrypto \<Rightarrow> string \<Rightarrow> unit vault_stmt" where
  "restoreFromFile_body w wc fileText =
    andThen (need_token w) (\<lambda>token.
    (case json_parse fileText of
       None \<Rightarrow> fail_with (AnyError ''SyntaxError'')
     | Some rf \<Rightarrow>
        andThen (dot rf ''version'') (\<lambda>ver.
        if ver \<noteq> VStr ''shade-recovery-file-v1'' then fail_with (AnyError ''not a Shade recovery file'')
        else
          andThen clearLocalCache (\<lambda>_.
          andThen (fetchEnvelope w token (to_String (js_get rf ''vault_id''))) (\<lambda>env.
          andThen (dot_list env ''wrappers'') (\<lambda>ws.
          andThen (find_wrapper ''recovery_file_secret'' ws) (\<lambda>found.
          (case found of
             None \<Rightarrow> fail_with (AnyError ''this vault has no recovery-file method'')
           | Some v \<Rightarrow>
              andThen (of_vault (fromB64 (to_String (js_get rf ''recovery_file_secret'')))) (\<lambda>secret.
              andThen (of_vault (unwrapVaultKeyWithRecoveryFileSecret wc (wrapper_of_value v) secret)) (\<lambda>master.
              finish_restore w wc token env master))))))))))"

definition restoreFromFile :: "web_world \<Rightarrow> webcrypto \<Rightarrow> string \<Rightarrow> vault_client web_state \<Rightarrow> vault_client web_state" where
  "restoreFromFile w wc fileText s = handled (restoreFromFile_body w wc fileText) (\<lambda>e p. p) (\<lambda>p. p) s"

datatype restore_method = WithFreighter | WithPassword string

text \<open>The passphrase is what the prompt gives; cancelling gives the empty text.\<close>

definition restore_master :: "web_world \<Rightarrow> webcrypto \<Rightarrow> restore_method \<Rightarrow> jsval \<Rightarrow> bytes vault_stmt" where
  "restore_master w wc method env =
    (case method of
       WithFreighter \<Rightarrow>
         andThen (web_connectFreighter w) (\<lambda>addr.
         andThen (stellarRecoverySignature w addr) (\<lambda>sig.
         andThen (dot_list env ''wrappers'') (\<lambda>ws.
         andThen (find_wrapper ''stellar_ed25519_signature'' ws) (\<lambda>found.
         (case found of
            None \<Rightarrow> fail_with (AnyError ''this vault has no Stellar wallet method'')
          | Some v \<Rightarrow> of_vault (unwrapVaultKeyWithStellarSignature wc (wrapper_of_value v) sig))))))
     | WithPassword pw \<Rightarrow>
         andThen (dot_list env ''wrappers'') (\<lambda>ws.
         andThen (find_wrapper ''recovery_kit_password'' ws) (\<lambda>found.
         (case found of
            None \<Rightarrow> fail_with (AnyError ''this vault has no password method'')
          | Some v \<Rightarrow> of_vault (unwrapVaultKeyWithRecoveryKitPassword wc (wrapper_of_value v) pw)))))"

definition restoreWith :: "web_world \<Rightarrow> webcrypto \<Rightarrow> restore_method \<Rightarrow> string \<Rightarrow> vault_client web_state \<Rightarrow> vault_client web_state" where
  "restoreWith w wc method vaultId s =
    handled
      (andThen (need_token w) (\<lambda>token.
       if vaultId = [] then fail_with (AnyError ''enter your vault id'')
       else
         andThen clearLocalCache (\<lambda>_.
         andThen (fetchEnvelope w token vaultId) (\<lambda>env.
         andThen (restore_master w wc method env) (\<lambda>master.
         finish_restore w wc token env master)))))
      (\<lambda>e p. p) (\<lambda>p. p) s"


section \<open>Passkey ids\<close>

text \<open>A credential id survives its URL-safe text.\<close>

lemma passkey_id_roundtrip: "b64urlToBytes (bytesToB64url b) = Some b"
proof -
  have small: "\<forall>x\<in>set (map unat b). x < 256" using unsigned_less [where 'a = nat and 'b = 8] by auto
  obtain u p where up: "base64_encode b = u @ p" "list_all b64_std u" "length (u @ p) mod 4 = 0" "b64_pad p"
    using b64_groups_shape [OF small, folded base64_encode_def] by (elim exE conjE) (rule that)
  have c: "std_char (url_char c) = c \<and> url_char c \<noteq> CHR ''=''" if "c \<in> set u" for c
    using that up(2) b64_std_plain [of c] by (auto simp: list_all_iff b64_std_def url_char_def std_char_def)
  have "dropWhile (\<lambda>c. c = CHR ''='') (rev (map url_char (u @ p))) = rev (map url_char u)"
  proof -
    have "dropWhile (\<lambda>c. c = CHR ''='') (rev (map url_char u)) = rev (map url_char u)" using c by (subst dropWhile_eq_self_iff) (auto simp: hd_rev last_map)
    then show ?thesis using up(4) by (auto simp: b64_pad_def url_char_def)
  qed
  then have e: "bytesToB64url b = map url_char u" by (simp add: bytesToB64url_def up(1))
  have "map std_char (map url_char u) = u" using c by (simp add: map_idI)
  moreover have "drop ((length u + 3) mod 4) ''==='' = p"
  proof -
    have m: "(length u + length p) mod 4 = 0" using up(3) by simp
    from up(4) consider "p = []" | "p = ''=''" | "p = ''==''" unfolding b64_pad_def by blast
    then show ?thesis
    proof cases
      case 1
      then have "(length u + 3) mod 4 = 3" using m by simp presburger
      then show ?thesis using 1 by (simp only: drop_Suc_Cons drop_0 numeral_3_eq_3)
    next
      case 2
      then have "(length u + 3) mod 4 = 2" using m by simp presburger
      then show ?thesis using 2 by (simp only: drop_Suc_Cons drop_0 numeral_2_eq_2)
    next
      case 3
      then have "(length u + 3) mod 4 = 1" using m by simp presburger
      then show ?thesis using 3 by (simp only: drop_Suc_Cons drop_0 One_nat_def)
    qed
  qed
  ultimately show ?thesis unfolding b64urlToBytes_def e length_map using up(1) atob_btoa [of b] by simp
qed


section \<open>Envelopes and wrappers\<close>

lemma envelope_value_id [simp]: "js_get (envelope_value env) ''vault_id'' = VStr (ve_vault_id env)"
  by (simp add: envelope_value_def)

lemma wrapper_value_get [simp]:
  "js_get (wrapper_value x) ''type'' = VStr (type_text (vw_type x))" "js_get (wrapper_value x) ''salt'' = VStr (vw_salt x)"
  "js_get (wrapper_value x) ''wrapped_key'' = VStr (vw_wrapped_key x)" "wrapper_value x \<noteq> VNull" "wrapper_value x \<noteq> VUndef"
  by (simp_all add: wrapper_value_def)

lemma unwrap_of_value:
  "unwrapVaultKeyWithRecoveryFileSecret wc (wrapper_of_value (wrapper_value x)) secret = unwrapVaultKeyWithRecoveryFileSecret wc x secret"
  "unwrapVaultKeyWithRecoveryKitPassword wc (wrapper_of_value (wrapper_value x)) pw = unwrapVaultKeyWithRecoveryKitPassword wc x pw"
  by (simp_all add: unwrapVaultKeyWithRecoveryFileSecret_def unwrapVaultKeyWithRecoveryKitPassword_def wrapper_of_value_def)

lemma find_wrapper_values:
  "find_wrapper ty (map wrapper_value ws) s = (Ok (map_option wrapper_value (List.find (\<lambda>x. type_text (vw_type x) = ty) ws)), s)"
  by (induction ws) (simp_all add: give_back_def dot_def andThen_def)

lemma andThen_Ok: "andThen m f s = (Inr y, t) \<longleftrightarrow> (\<exists>a u. m s = (Inr a, u) \<and> f a u = (Inr y, t))"
  unfolding andThen_def by (auto split: prod.splits sum.splits)

lemma of_vault_Ok [simp]: "of_vault r s = (Inr x, t) \<longleftrightarrow> r = Ok x \<and> t = s"
  by (auto simp: of_vault_def give_back_def fail_with_def split: sum.splits)

lemma wrapper_made:
  "wrapVaultKeyWithPasskeyPrf wc d mk b md = Ok x \<Longrightarrow> vw_type x = PasskeyPrf \<and> vw_metadata x = md"
  "wrapVaultKeyWithStellarSignature wc d mk b md = Ok x \<Longrightarrow> vw_type x = StellarEd25519 \<and> vw_metadata x = md"
  "wrapVaultKeyWithRecoveryFileSecret wc d mk b md = Ok x \<Longrightarrow> vw_type x = RecoveryFileSecret \<and> vw_metadata x = md"
  "wrapVaultKeyWithRecoveryKitPassword wc d mk pw md = Ok x \<Longrightarrow> vw_type x = RecoveryKitPassword \<and> vw_metadata x = md"
  by (auto simp: wrapper_defs build_wrapper_def res_bind_eq_Inr)

text \<open>What a wrapper made by the page looks like: its metadata is JSON without a forbidden key.\<close>

definition clean_wrapper :: "wrapper_type \<Rightarrow> vault_wrapper \<Rightarrow> bool" where
  "clean_wrapper ty x \<longleftrightarrow> vw_type x = ty \<and> json_pure (VObj (vw_metadata x)) \<and> walk (VObj (vw_metadata x)) = None"

lemma clean_metadata:
  "walk (VObj [(''credential_id_hash'', VStr a), (''backup_eligible'', VBool b), (''backup_state'', VBool c)]) = None"
  "walk (VObj [(''stellar_address'', VStr a), (''wallet_source'', VStr e)]) = None"
  "walk (VObj [(''device_hint'', VStr a), (''created_at'', VStr e)]) = None" "walk (VObj [(''created_at'', VStr a)]) = None"
  by (simp_all add: PLAINTEXT_FORBIDDEN_def)

lemma page_wrappers_clean:
  "passkey_wrapper w wc d u n s = (Inr x, t) \<Longrightarrow> clean_wrapper PasskeyPrf x"
  "freighter_wrapper w wc d s = (Inr x, t) \<Longrightarrow> clean_wrapper StellarEd25519 x"
  "file_wrapper wc d s = (Inr x, t) \<Longrightarrow> clean_wrapper RecoveryFileSecret x"
  "password_wrapper wc d pw s = (Inr x, t) \<Longrightarrow> clean_wrapper RecoveryKitPassword x"
proof -
  show "clean_wrapper PasskeyPrf x" if "passkey_wrapper w wc d u n s = (Inr x, t)"
    using that unfolding passkey_wrapper_def andThen_Ok of_vault_Ok clean_wrapper_def
    by (elim exE conjE) (drule wrapper_made(1), simp del: walk.simps add: clean_metadata)
  show "clean_wrapper StellarEd25519 x" if "freighter_wrapper w wc d s = (Inr x, t)"
    using that unfolding freighter_wrapper_def andThen_Ok of_vault_Ok clean_wrapper_def
    by (elim exE conjE) (drule wrapper_made(2), simp del: walk.simps add: clean_metadata)
  show "clean_wrapper RecoveryFileSecret x" if "file_wrapper wc d s = (Inr x, t)"
    using that unfolding file_wrapper_def andThen_Ok of_vault_Ok clean_wrapper_def give_back_def
    by (elim exE conjE) (drule wrapper_made(3), simp del: walk.simps add: clean_metadata)
  show "clean_wrapper RecoveryKitPassword x" if "password_wrapper wc d pw s = (Inr x, t)"
    using that unfolding password_wrapper_def of_vault_Ok clean_wrapper_def
    by (elim exE conjE) (drule wrapper_made(4), simp del: walk.simps add: clean_metadata)
qed


section \<open>What the API was given\<close>

text \<open>The envelope of a request that created a vault, and the last one of a vault over a trace.\<close>

definition posted_envelope :: "web_event \<Rightarrow> jsval option" where
  "posted_envelope e = (case e of
     Fetched q (Some (code, stext, answer)) \<Rightarrow>
       if http_ok code \<and> pq_method q = ''POST'' \<and> pq_path q = ''/v1/note-vaults'' then
         (case pq_body q of None \<Rightarrow> None | Some b \<Rightarrow> map_option (\<lambda>v. js_get v ''envelope'') (json_parse b))
       else None
   | _ \<Rightarrow> None)"

definition kept :: "string \<Rightarrow> web_event list \<Rightarrow> jsval option" where
  "kept vid tr = fold (\<lambda>e acc. case posted_envelope e of None \<Rightarrow> acc | Some env \<Rightarrow> if js_get env ''vault_id'' = VStr vid then Some env else acc) tr None"

definition no_posts :: "web_event list \<Rightarrow> bool" where
  "no_posts tr \<longleftrightarrow> list_all (\<lambda>e. posted_envelope e = None) tr"

lemma no_posts_simps [simp]: "no_posts []" "no_posts (tr @ tr') \<longleftrightarrow> no_posts tr \<and> no_posts tr'" "no_posts [e] \<longleftrightarrow> posted_envelope e = None"
  by (simp_all add: no_posts_def)

lemma kept_append: "no_posts new \<Longrightarrow> kept vid (tr @ new) = kept vid tr"
proof -
  have "fold (\<lambda>e acc. case posted_envelope e of None \<Rightarrow> acc | Some env \<Rightarrow> if js_get env ''vault_id'' = VStr vid then Some env else acc) new a = a"
    if "list_all (\<lambda>e. posted_envelope e = None) new" for a using that by (induction new arbitrary: a) auto
  then show "no_posts new \<Longrightarrow> kept vid (tr @ new) = kept vid tr" by (simp add: kept_def no_posts_def)
qed

lemma kept_posted: "posted_envelope e = Some env \<Longrightarrow> js_get env ''vault_id'' = VStr vid \<Longrightarrow> kept vid (tr @ [e]) = Some env"
  by (simp add: kept_def)

text \<open>A step that creates no vault at the API and keeps the downloaded files.\<close>

definition calm :: "vault_client web_state \<Rightarrow> vault_client web_state \<Rightarrow> bool" where
  "calm s t \<longleftrightarrow> (\<exists>new. ws_trace t = ws_trace s @ new \<and> no_posts new) \<and> set (vc_downloads (ws_page s)) \<subseteq> set (vc_downloads (ws_page t))"

lemma calm_refl [simp]: "calm s s"
  by (simp add: calm_def)

lemma calm_trans: "calm s t \<Longrightarrow> calm t u \<Longrightarrow> calm s u"
  unfolding calm_def by force

definition calmly :: "'a vault_stmt \<Rightarrow> bool" where
  "calmly m \<longleftrightarrow> (\<forall>s. calm s (snd (m s)))"

lemma calmlyD: "calmly m \<Longrightarrow> m s = (r, t) \<Longrightarrow> calm s t"
  unfolding calmly_def by (metis snd_conv)

lemma calmly_andThen: "calmly m \<Longrightarrow> (\<And>a. calmly (f a)) \<Longrightarrow> calmly (andThen m f)"
  unfolding calmly_def andThen_def by (auto split: prod.split sum.split intro: calm_trans dest: spec)

lemma calmly_prims:
  "calmly (give_back x)" "calmly (fail_with e)" "calmly (of_vault r)" "calmly (dot v k)" "calmly (need_token w)"
  by (auto simp: calmly_def give_back_def fail_with_def of_vault_def dot_def need_token_def split: sum.split option.split)

lemma calmly_on_page: "(\<And>p. set (vc_downloads p) \<subseteq> set (vc_downloads (f p))) \<Longrightarrow> calmly (on_page f)"
  by (auto simp: calmly_def on_page_def calm_def)

lemma calmly_ask: "(\<And>r. posted_envelope (ev r) = None) \<Longrightarrow> calmly (ask q ev)"
  by (auto simp: calmly_def ask_def calm_def Let_def)

lemma calmly_try: "calmly m \<Longrightarrow> calmly (try_wrapper m ws)"
  unfolding calmly_def try_wrapper_def by (auto split: prod.split sum.split) (metis snd_conv)+

text \<open>A request: the question, its answer, and nothing else.\<close>

lemma web_api_effect:
  "\<exists>q ans. pq_path q = path \<and> pq_body q = map_option stringify body \<and>
     pq_method q = (case meth of Some m \<Rightarrow> m | None \<Rightarrow> if body \<noteq> None then ''POST'' else ''GET'') \<and> ans = ww_fetch w (ws_trace s) q \<and>
     snd (web_api w path token idk body meth s) = s \<lparr> ws_trace := ws_trace s @ [Fetched q ans] \<rparr> \<and>
     (\<forall>v. fst (web_api w path token idk body meth s) = Ok v \<longrightarrow> (\<exists>code stext txt. ans = Some (code, stext, txt) \<and> http_ok code)) \<and>
     (\<forall>code stext txt v. ans = Some (code, stext, txt) \<and> http_ok code \<and> txt \<noteq> [] \<and> json_parse txt = Some v \<longrightarrow>
        fst (web_api w path token idk body meth s) = Ok v)"
proof -
  define q where "q = \<lparr> pq_method = (case meth of Some m \<Rightarrow> m | None \<Rightarrow> if body \<noteq> None then ''POST'' else ''GET''), pq_path = path,
    pq_headers = web_headers token idk, pq_body = map_option stringify body \<rparr>"
  show ?thesis
    by (rule exI [of _ q], rule exI [of _ "ww_fetch w (ws_trace s) q"])
      (auto simp: web_api_def Let_def q_def [symmetric] split: option.splits if_splits, simp_all add: q_def)
qed

lemma calmly_web_api: "path \<noteq> ''/v1/note-vaults'' \<or> body = None \<Longrightarrow> calmly (web_api w path token idk body meth)"
  unfolding calmly_def
proof
  fix s :: "vault_client web_state"
  assume p: "path \<noteq> ''/v1/note-vaults'' \<or> body = None"
  obtain q ans where q: "pq_path q = path" "pq_body q = map_option stringify body"
      "snd (web_api w path token idk body meth s) = s \<lparr> ws_trace := ws_trace s @ [Fetched q ans] \<rparr>"
    using web_api_effect [of path body meth w s token idk] by blast
  then have "posted_envelope (Fetched q ans) = None" using p by (auto simp: posted_envelope_def split: option.split)
  then show "calm s (snd (web_api w path token idk body meth s))" using q(3) by (auto simp: calm_def)
qed


section \<open>Creating\<close>

lemmas calmly_intros = calmly_andThen calmly_prims calmly_on_page calmly_ask calmly_try

lemma calmly_wrappers:
  "calmly (passkey_wrapper w wc d u n)" "calmly (freighter_wrapper w wc d)" "calmly (file_wrapper wc d)" "calmly (password_wrapper wc d pw)"
proof -
  have p: "calmly (getPasskeyWrapperInput w c)" for c
    unfolding getPasskeyWrapperInput_def
    by (auto intro!: calmly_intros simp: posted_envelope_def split: option.split)
  show "calmly (passkey_wrapper w wc d u n)"
    unfolding passkey_wrapper_def createPasskeyWrapperInput_def
    by (auto intro!: calmly_intros p simp: posted_envelope_def split: option.split)
  show "calmly (freighter_wrapper w wc d)"
    unfolding freighter_wrapper_def web_connectFreighter_def stellarRecoverySignature_def
    by (auto intro!: calmly_intros simp: posted_envelope_def split: option.split)
  show "calmly (file_wrapper wc d)" unfolding file_wrapper_def download_def by (auto intro!: calmly_intros)
  show "calmly (password_wrapper wc d pw)" unfolding password_wrapper_def by (rule calmly_prims)
qed

text \<open>The wrappers the page makes, in its order: at most one of each method, and the two it never skips.\<close>

definition made :: "wrapper_type \<Rightarrow> vault_wrapper list \<Rightarrow> bool" where
  "made ty ws \<longleftrightarrow> ws = [] \<or> (\<exists>x. ws = [x] \<and> clean_wrapper ty x)"

lemma try_wrapper_made:
  assumes "try_wrapper m ws s = (Inr ws', t)" "\<And>x u. m s = (Inr x, u) \<Longrightarrow> clean_wrapper ty x"
  shows "\<exists>a. ws' = ws @ a \<and> made ty a"
  using assms by (fastforce simp: try_wrapper_def made_def split: prod.splits sum.splits)

lemma vault_wrappers_made:
  assumes "vault_wrappers w wc d sel pw u n s = (Inr ws, t)"
  shows "calm s t \<and> (\<exists>a b c e. ws = a @ b @ c @ e \<and> made PasskeyPrf a \<and> made StellarEd25519 b \<and> made RecoveryFileSecret c \<and> made RecoveryKitPassword e \<and>
    (sel_file sel \<longrightarrow> (\<exists>x r r'. c = [x] \<and> file_wrapper wc d r = (Inr x, r') \<and> calm r' t)) \<and>
    (sel_password sel \<and> pw \<noteq> [] \<longrightarrow> (\<exists>x r r'. e = [x] \<and> password_wrapper wc d pw r = (Inr x, r'))))"
proof -
  obtain a s1 ws2 s2 ws3 s3 where
      1: "(if sel_passkey sel then try_wrapper (passkey_wrapper w wc d u n) [] else give_back []) s = (Inr a, s1)"
    and 2: "(if sel_freighter sel then try_wrapper (freighter_wrapper w wc d) a else give_back a) s1 = (Inr ws2, s2)"
    and 3: "(if sel_file sel then andThen (file_wrapper wc d) (\<lambda>x. give_back (ws2 @ [x])) else give_back ws2) s2 = (Inr ws3, s3)"
    and 4: "(if sel_password sel \<and> pw \<noteq> [] then andThen (password_wrapper wc d pw) (\<lambda>x. give_back (ws3 @ [x])) else give_back ws3) s3 = (Inr ws, t)"
    using assms unfolding vault_wrappers_def andThen_Ok by (elim exE conjE) (rule that)
  have c1: "calm s s1" using 1 by (rule calmlyD [where m = "if sel_passkey sel then try_wrapper (passkey_wrapper w wc d u n) [] else give_back []", rotated]) (auto intro: calmly_intros calmly_wrappers)
  have c2: "calm s1 s2" using 2 by (rule calmlyD [where m = "if sel_freighter sel then try_wrapper (freighter_wrapper w wc d) a else give_back a", rotated]) (auto intro: calmly_intros calmly_wrappers)
  have c3: "calm s2 s3" using 3 by (rule calmlyD [where m = "if sel_file sel then andThen (file_wrapper wc d) (\<lambda>x. give_back (ws2 @ [x])) else give_back ws2", rotated]) (auto intro: calmly_intros calmly_wrappers)
  have c4: "calm s3 t" using 4 by (rule calmlyD [where m = "if sel_password sel \<and> pw \<noteq> [] then andThen (password_wrapper wc d pw) (\<lambda>x. give_back (ws3 @ [x])) else give_back ws3", rotated]) (auto intro: calmly_intros calmly_wrappers)
  have a: "made PasskeyPrf a"
    using 1 by (auto simp: give_back_def made_def split: if_splits dest!: try_wrapper_made [OF _ page_wrappers_clean(1)])
  obtain b where b: "ws2 = a @ b" "made StellarEd25519 b"
    using 2 by (auto simp: give_back_def made_def split: if_splits dest!: try_wrapper_made [OF _ page_wrappers_clean(2)])
  obtain c where c: "ws3 = ws2 @ c" "made RecoveryFileSecret c" "sel_file sel \<longrightarrow> (\<exists>x r'. c = [x] \<and> file_wrapper wc d s2 = (Inr x, r') \<and> r' = s3)"
    using 3 page_wrappers_clean(3) [of wc d s2] by (cases "sel_file sel") (force simp: give_back_def made_def andThen_Ok)+
  obtain e where e: "ws = ws3 @ e" "made RecoveryKitPassword e" "sel_password sel \<and> pw \<noteq> [] \<longrightarrow> (\<exists>x r'. e = [x] \<and> password_wrapper wc d pw s3 = (Inr x, r'))"
    using 4 page_wrappers_clean(4) [of wc d pw s3] by (cases "sel_password sel \<and> pw \<noteq> []") (force simp: give_back_def made_def andThen_Ok)+
  have "calm s t" using c1 c2 c3 c4 calm_trans by blast
  moreover have "ws = a @ b @ c @ e" using b(1) c(1) e(1) by simp
  moreover have "sel_file sel \<longrightarrow> (\<exists>x r r'. c = [x] \<and> file_wrapper wc d r = (Inr x, r') \<and> calm r' t)" using c(3) c4 by blast
  moreover have "sel_password sel \<and> pw \<noteq> [] \<longrightarrow> (\<exists>x r r'. e = [x] \<and> password_wrapper wc d pw r = (Inr x, r'))" using e(3) by blast
  ultimately show ?thesis using a b(2) c(2) e(2) by blast
qed

lemma made_find:
  assumes "made PasskeyPrf a" "made StellarEd25519 b" "made RecoveryFileSecret c" "made RecoveryKitPassword e"
  shows "c = [x] \<Longrightarrow> List.find (\<lambda>y. type_text (vw_type y) = ''recovery_file_secret'') (a @ b @ c @ e) = Some x"
    "e = [x] \<Longrightarrow> List.find (\<lambda>y. type_text (vw_type y) = ''recovery_kit_password'') (a @ b @ c @ e) = Some x"
    "list_all (\<lambda>y. json_pure (VObj (vw_metadata y)) \<and> walk (VObj (vw_metadata y)) = None) (a @ b @ c @ e)"
  using assms by (auto simp: made_def clean_wrapper_def simp del: json_pure.simps walk.simps)

lemma calmly_prove_backup: "calmly (prove_backup w wc d sel token envelope)"
proof -
  have f: "calmly (find_wrapper ty vs)" for ty vs by (induction vs) (auto intro!: calmly_intros)
  have l: "calmly (dot_list v k)" for v k unfolding dot_list_def by (auto intro!: calmly_intros split: jsval.split)
  have "calmly (prove_restore wc d b v)" for b v
    unfolding prove_restore_def by (auto intro!: calmly_intros f l split: option.split prod.split)
  then show ?thesis
    unfolding prove_backup_def cacheEnvelope_def setMemoryVault_def client_getVault_def client_verifyBackup_def Let_def
    by (intro calmly_andThen calmly_on_page calmly_web_api calmly_prims) auto
qed

text \<open>Once a vault is reported ready, the API holds its envelope: it validates, it decrypts under the drawn key to the vault, and the methods
  that are never skipped unwrap that key.\<close>

definition recoverable :: "webcrypto \<Rightarrow> vault_draws \<Rightarrow> vault_choice \<Rightarrow> string \<Rightarrow> vault_envelope \<Rightarrow> (string \<times> jsval) set \<Rightarrow> bool" where
  "recoverable wc d sel pw env files \<longleftrightarrow> json_pure (envelope_value env) \<and> validateVaultEnvelope (envelope_value env) = Ok () \<and>
    decryptEnvelope wc (envelope_value env) (vd_master d) = Ok (vault_value (drawn_vault d)) \<and> ve_vault_id env = nv_vault_id (drawn_vault d) \<and>
    (sel_file sel \<longrightarrow> (\<exists>x name. List.find (\<lambda>y. type_text (vw_type y) = ''recovery_file_secret'') (ve_wrappers env) = Some x \<and>
      unwrapVaultKeyWithRecoveryFileSecret wc x (vd_secret d) = Ok (vd_master d) \<and>
      (name, recovery_file_value (buildRecoveryFile (nv_vault_id (drawn_vault d)) (vd_secret d) x (vd_now d))) \<in> files)) \<and>
    (sel_password sel \<and> pw \<noteq> [] \<longrightarrow> (\<exists>x. List.find (\<lambda>y. type_text (vw_type y) = ''recovery_kit_password'') (ve_wrappers env) = Some x \<and>
      unwrapVaultKeyWithRecoveryKitPassword wc x pw = Ok (vd_master d)))"

lemma file_wrapper_unwraps:
  assumes "webcrypto_ok wc" "length (wd_iv (vd_file d)) = 12" "file_wrapper wc d r = (Inr x, r')"
  shows "unwrapVaultKeyWithRecoveryFileSecret wc x (vd_secret d) = Ok (vd_master d) \<and>
    (\<exists>name. (name, recovery_file_value (buildRecoveryFile (nv_vault_id (drawn_vault d)) (vd_secret d) x (vd_now d))) \<in> set (vc_downloads (ws_page r')))"
proof -
  have "wrapVaultKeyWithRecoveryFileSecret wc (vd_file d) (vd_master d) (vd_secret d) [(''device_hint'', VStr ''browser''), (''created_at'', VStr (vd_now d))] = Ok x"
    "\<exists>name. (name, recovery_file_value (buildRecoveryFile (nv_vault_id (drawn_vault d)) (vd_secret d) x (vd_now d))) \<in> set (vc_downloads (ws_page r'))"
    using assms(3) by (auto simp: file_wrapper_def andThen_Ok give_back_def download_def on_page_def)
  then show ?thesis
    using wrap_with_unwraps [OF assms(1,2), of "vd_master d" "SFile (vd_secret d)" "[(''device_hint'', VStr ''browser''), (''created_at'', VStr (vd_now d))]"] by auto
qed

lemma password_wrapper_unwraps:
  assumes "webcrypto_ok wc" "length (wd_iv (vd_password d)) = 12" "password_wrapper wc d pw r = (Inr x, r')"
  shows "unwrapVaultKeyWithRecoveryKitPassword wc x pw = Ok (vd_master d)"
  using wrap_with_unwraps [OF assms(1,2), of "vd_master d" "SPassword pw" "[(''created_at'', VStr (vd_now d))]"] assms(3)
  by (auto simp: password_wrapper_def)

lemma posted_by_client:
  assumes "client_createVault w token env s = (Inr v, t)" "json_pure env" "js_get env ''vault_id'' = VStr vid"
  shows "kept vid (ws_trace t) = Some env \<and> ws_page t = ws_page s"
proof -
  obtain q ans where q: "pq_path q = ''/v1/note-vaults''" "pq_body q = Some (stringify (VObj [(''envelope'', env)]))" "pq_method q = ''POST''"
      "t = s \<lparr> ws_trace := ws_trace s @ [Fetched q ans] \<rparr>" "\<exists>code stext txt. ans = Some (code, stext, txt) \<and> http_ok code"
    using web_api_effect [of "''/v1/note-vaults''" "Some (VObj [(''envelope'', env)])" None w s "Some token" None] assms(1)
    unfolding client_createVault_def by auto
  have "json_parse (stringify (VObj [(''envelope'', env)])) = Some (VObj [(''envelope'', env)])"
    by (rule json_parse_stringify) (simp add: assms(2))
  then have "posted_envelope (Fetched q ans) = Some env" using q by (auto simp: posted_envelope_def)
  then show ?thesis using q(4) kept_posted [OF _ assms(3)] by simp
qed

lemma createVault_recoverable:
  assumes "webcrypto_ok wc" "length (vd_master d) = 32" "length (wd_iv (vd_file d)) = 12" "length (wd_iv (vd_password d)) = 12"
    "createVault_body w wc d sel pw s = (Inr (), t)"
  shows "\<exists>env. kept (nv_vault_id (drawn_vault d)) (ws_trace t) = Some (envelope_value env) \<and> recoverable wc d sel pw env (set (vc_downloads (ws_page t)))"
proof -
  let ?vid = "nv_vault_id (drawn_vault d)"
  obtain token me pid u s1 where 1: "(case pid of
       VStr userId \<Rightarrow> if userId = [] then fail_with (AnyError ''could not resolve your account id'') else
      (let vault = drawn_vault d in
       andThen (vault_wrappers w wc d sel pw userId (to_String (nullish (js_get me ''email'') (VStr ''Shade user'')))) (\<lambda>wrappers.
       if filter (\<lambda>x. vw_type x \<noteq> EvmSignature) wrappers = [] then fail_with (AnyError ''no recovery method was set up'')
       else
         andThen (of_vault (createVaultEnvelope wc (vd_iv d) vault (vd_master d) userId (vd_origin d) wrappers)) (\<lambda>envelope.
         andThen (client_createVault w token (envelope_value envelope)) (\<lambda>_.
         prove_backup w wc d sel token (envelope_value envelope)))))
     | _ \<Rightarrow> fail_with (AnyError ''could not resolve your account id'')) s1 = (Inr (), t)"
    using assms(5) unfolding createVault_body_def andThen_Ok by (elim exE conjE) (rule that)
  then obtain userId where uid: "pid = VStr userId" "userId \<noteq> []"
    by (cases pid) (auto simp: fail_with_def split: if_splits)
  obtain ws s2 where ws: "vault_wrappers w wc d sel pw userId (to_String (nullish (js_get me ''email'') (VStr ''Shade user''))) s1 = (Inr ws, s2)"
    and 2: "(if filter (\<lambda>x. vw_type x \<noteq> EvmSignature) ws = [] then fail_with (AnyError ''no recovery method was set up'')
       else
         andThen (of_vault (createVaultEnvelope wc (vd_iv d) (drawn_vault d) (vd_master d) userId (vd_origin d) ws)) (\<lambda>envelope.
         andThen (client_createVault w token (envelope_value envelope)) (\<lambda>_.
         prove_backup w wc d sel token (envelope_value envelope)))) s2 = (Inr (), t)"
    using 1 uid by (auto simp: Let_def andThen_Ok)
  obtain env v s3 where env: "createVaultEnvelope wc (vd_iv d) (drawn_vault d) (vd_master d) userId (vd_origin d) ws = Ok env"
    and 3: "client_createVault w token (envelope_value env) s2 = (Inr v, s3)" and 4: "prove_backup w wc d sel token (envelope_value env) s3 = (Inr (), t)"
    using 2 by (auto simp: fail_with_def andThen_Ok split: if_splits)
  obtain a b c e where made: "ws = a @ b @ c @ e" "made PasskeyPrf a" "made StellarEd25519 b" "made RecoveryFileSecret c" "made RecoveryKitPassword e"
    and byfile: "sel_file sel \<longrightarrow> (\<exists>x r r'. c = [x] \<and> file_wrapper wc d r = (Inr x, r') \<and> calm r' s2)"
    and pass: "sel_password sel \<and> pw \<noteq> [] \<longrightarrow> (\<exists>x r r'. e = [x] \<and> password_wrapper wc d pw r = (Inr x, r'))"
    using vault_wrappers_made [OF ws] by (elim exE conjE) (rule that)
  have vid: "?vid \<noteq> []" by (simp add: drawn_vault_def createEmptyNoteVault_def)
  note good = created_envelope [OF assms(1,2) vid uid(2) made_find(3) [OF made(2-5), folded made(1)] env]
  have k: "kept ?vid (ws_trace s3) = Some (envelope_value env)" "ws_page s3 = ws_page s2" using posted_by_client [OF 3] good by simp_all
  have calm: "calm s3 t" using 4 by (rule calmlyD [OF calmly_prove_backup])
  then have "kept ?vid (ws_trace t) = Some (envelope_value env)" using k(1) kept_append by (auto simp: calm_def)
  moreover have "\<exists>x name. List.find (\<lambda>y. type_text (vw_type y) = ''recovery_file_secret'') (ve_wrappers env) = Some x \<and>
      unwrapVaultKeyWithRecoveryFileSecret wc x (vd_secret d) = Ok (vd_master d) \<and>
      (name, recovery_file_value (buildRecoveryFile ?vid (vd_secret d) x (vd_now d))) \<in> set (vc_downloads (ws_page t))" if sf: "sel_file sel"
  proof -
    obtain x r r' where x: "c = [x]" "file_wrapper wc d r = (Inr x, r')" "calm r' s2" using byfile sf by blast
    have "set (vc_downloads (ws_page r')) \<subseteq> set (vc_downloads (ws_page t))" using x(3) calm k(2) by (auto simp: calm_def)
    moreover have "List.find (\<lambda>y. type_text (vw_type y) = ''recovery_file_secret'') (ve_wrappers env) = Some x"
      using good made_find(1) [OF made(2-5) x(1)] made(1) by simp
    ultimately show ?thesis using file_wrapper_unwraps [OF assms(1,3) x(2)] by blast
  qed
  moreover have "\<exists>x. List.find (\<lambda>y. type_text (vw_type y) = ''recovery_kit_password'') (ve_wrappers env) = Some x \<and>
      unwrapVaultKeyWithRecoveryKitPassword wc x pw = Ok (vd_master d)" if sp: "sel_password sel \<and> pw \<noteq> []"
  proof -
    obtain x r r' where x: "e = [x]" "password_wrapper wc d pw r = (Inr x, r')" using pass sp by blast
    then show ?thesis using good made_find(2) [OF made(2-5) x(1)] made(1) password_wrapper_unwraps [OF assms(1,4) x(2)] by simp
  qed
  ultimately show ?thesis using good unfolding recoverable_def by blast
qed


lemma createVault_stored:
  assumes "webcrypto_ok wc" "length (vd_master d) = 32" "length (wd_iv (vd_file d)) = 12" "length (wd_iv (vd_password d)) = 12"
    "vc_stage (ws_page (createVault w wc d sel pw s)) = VaultReady"
  shows "\<exists>env. kept (nv_vault_id (drawn_vault d)) (ws_trace (createVault w wc d sel pw s)) = Some (envelope_value env) \<and>
    recoverable wc d sel pw env (set (vc_downloads (ws_page (createVault w wc d sel pw s))))"
proof -
  define s0 where "s0 = s \<lparr> ws_page := (ws_page s) \<lparr> vc_stage := VaultCreating \<rparr> \<rparr>"
  obtain r t where r: "createVault_body w wc d sel pw s0 = (r, t)" by force
  then have "r = Inr ()" using assms(5) by (cases r) (auto simp: createVault_def handled_def s0_def [symmetric])
  moreover have "createVault w wc d sel pw s = t" if "r = Inr ()" using r that by (simp add: createVault_def handled_def s0_def [symmetric])
  ultimately show ?thesis using createVault_recoverable [OF assms(1-4)] r by metis
qed


section \<open>Restoring\<close>

text \<open>What is relied on of the API: it gives back the envelope a vault was last created with.\<close>

definition keeps_vaults :: "web_world \<Rightarrow> bool" where
  "keeps_vaults w \<longleftrightarrow> (\<forall>tr q vid env. kept vid tr = Some env \<and> pq_method q = ''GET'' \<and> pq_path q = ''/v1/note-vaults/'' @ vid \<longrightarrow>
     (\<exists>code stext txt v. ww_fetch w tr q = Some (code, stext, txt) \<and> http_ok code \<and> txt \<noteq> [] \<and> json_parse txt = Some v \<and> js_get v ''envelope'' = env))"

lemma web_api_page: "ws_page (snd (web_api w path token idk body meth s)) = ws_page s"
  using web_api_effect [of path body meth w s token idk] by auto

lemma fetch_kept:
  assumes "keeps_vaults w" "kept vid (ws_trace s) = Some (envelope_value env)" "validateVaultEnvelope (envelope_value env) = Ok ()"
  shows "\<exists>u. fetchEnvelope w token vid s = (Inr (envelope_value env), u) \<and> ws_page u = ws_page s"
proof -
  let ?m = "client_getVault w token vid"
  obtain q where q: "pq_path q = ''/v1/note-vaults/'' @ vid" "pq_method q = ''GET''"
      "\<forall>code stext txt v. ww_fetch w (ws_trace s) q = Some (code, stext, txt) \<and> http_ok code \<and> txt \<noteq> [] \<and> json_parse txt = Some v \<longrightarrow> fst (?m s) = Ok v"
    using web_api_effect [of "''/v1/note-vaults/'' @ vid" None None w s "Some token" None] unfolding client_getVault_def by auto
  then obtain v where v: "fst (?m s) = Ok v" "js_get v ''envelope'' = envelope_value env"
    using assms(1,2) unfolding keeps_vaults_def by metis
  then have "v \<noteq> VNull" "v \<noteq> VUndef" by (auto simp: envelope_value_def)
  then have "fetchEnvelope w token vid s = (Inr (envelope_value env), snd (?m s))"
    using v assms(3) by (simp add: fetchEnvelope_def dot_def give_back_def of_vault_def)
  then show ?thesis using web_api_page by (simp add: client_getVault_def)
qed

lemma finish_restores:
  assumes "decryptEnvelope wc E mk = Ok (vault_value v)" "js_get E ''vault_id'' = VStr (nv_vault_id v)"
  shows "vc_memory (ws_page (snd (finish_restore w wc token E mk s))) = Some (vault_value v) \<and>
    loadCachedEnvelope (nv_vault_id v) (ws_page (snd (finish_restore w wc token E mk s))) = Some E"
proof -
  define p where "p = (ws_page s) \<lparr> vc_memory := Some (vault_value v), vc_cache := jm_set (vc_cache (ws_page s)) (nv_vault_id v) E \<rparr>"
  let ?tail = "andThen (dot_list (vault_value v) ''notes'') (\<lambda>notes.
      andThen (each (\<lambda>n. andThen (dot_text n ''commitment'') (\<lambda>_. give_back ())) notes) (\<lambda>_.
      andThen (client_markRestored w token (to_String (js_get E ''vault_id''))) (\<lambda>_. give_back ())))"
  have "ws_page (snd (?tail u)) = p" if "ws_page u = p" for u
  proof (intro andThen_inv [where P = "\<lambda>t. ws_page t = p"] each_inv [where P = "\<lambda>t. ws_page t = p"])
    show "ws_page u = p" by (rule that)
  qed (auto simp: dot_list_def dot_text_def dot_def andThen_def give_back_def fail_with_def client_markRestored_def web_api_page split: jsval.split)
  moreover have "finish_restore w wc token E mk s = ?tail (s \<lparr> ws_page := p \<rparr>)"
    using assms by (simp add: finish_restore_def of_vault_def dot_def give_back_def setMemoryVault_def cacheEnvelope_def on_page_def p_def vault_value_def)
  ultimately show ?thesis by (simp add: p_def loadCachedEnvelope_def)
qed

lemma handled_page: "(\<And>e p. f e p = p) \<Longrightarrow> handled m f (\<lambda>p. p) s = snd (m s)"
  by (cases "m s", cases "fst (m s)") (simp_all add: handled_def)

lemma restore_by_file:
  assumes "keeps_vaults w" "ww_token w (ws_trace s) = Some token" "token \<noteq> []" "kept (nv_vault_id (drawn_vault d)) (ws_trace s) = Some (envelope_value env)"
    "recoverable wc d sel pw env files" "sel_file sel"
  obtains name rf where "(name, rf) \<in> files" "\<And>content. json_parse content = Some rf \<Longrightarrow>
    vc_memory (ws_page (restoreFromFile w wc content s)) = Some (vault_value (drawn_vault d))"
proof -
  let ?v = "drawn_vault d"
  have r: "validateVaultEnvelope (envelope_value env) = Ok ()" "decryptEnvelope wc (envelope_value env) (vd_master d) = Ok (vault_value ?v)"
    "ve_vault_id env = nv_vault_id ?v" using assms(5) by (simp_all add: recoverable_def)
  obtain x name where x: "List.find (\<lambda>y. type_text (vw_type y) = ''recovery_file_secret'') (ve_wrappers env) = Some x"
      "unwrapVaultKeyWithRecoveryFileSecret wc x (vd_secret d) = Ok (vd_master d)"
      "(name, recovery_file_value (buildRecoveryFile (nv_vault_id ?v) (vd_secret d) x (vd_now d))) \<in> files"
    using assms(5,6) unfolding recoverable_def by blast
  define c where "c = s \<lparr> ws_page := (ws_page s) \<lparr> vc_memory := None, vc_cache := [] \<rparr> \<rparr>"
  have "kept (nv_vault_id ?v) (ws_trace c) = Some (envelope_value env)" using assms(4) by (simp add: c_def)
  then obtain u where u: "fetchEnvelope w token (nv_vault_id ?v) c = (Inr (envelope_value env), u)" using fetch_kept [OF assms(1) _ r(1)] by blast
  have ws: "dot_list (envelope_value env) ''wrappers'' u = (Inr (map wrapper_value (ve_wrappers env)), u)"
    by (simp add: dot_list_def dot_def andThen_def give_back_def envelope_value_def)
  have id: "js_get (envelope_value env) ''vault_id'' = VStr (nv_vault_id ?v)" using r(3) by simp
  have "vc_memory (ws_page (restoreFromFile w wc content s)) = Some (vault_value ?v)"
    if t: "json_parse content = Some (recovery_file_value (buildRecoveryFile (nv_vault_id ?v) (vd_secret d) x (vd_now d)))" for content
  proof -
    have "restoreFromFile_body w wc content s = finish_restore w wc token (envelope_value env) (vd_master d) u"
      using assms(2,3) t u ws x(1,2) by (simp add: restoreFromFile_body_def need_token_def recovery_file_value_def buildRecoveryFile_def dot_def give_back_def
        clearLocalCache_def on_page_def c_def [symmetric] find_wrapper_values of_vault_def unwrap_of_value)
    then show ?thesis using finish_restores [OF r(2) id] by (simp add: restoreFromFile_def handled_page)
  qed
  then show thesis using x(3) that by blast
qed

lemma restore_by_password:
  assumes "keeps_vaults w" "ww_token w (ws_trace s) = Some token" "token \<noteq> []" "kept (nv_vault_id (drawn_vault d)) (ws_trace s) = Some (envelope_value env)"
    "recoverable wc d sel pw env files" "sel_password sel \<and> pw \<noteq> []"
  shows "vc_memory (ws_page (restoreWith w wc (WithPassword pw) (nv_vault_id (drawn_vault d)) s)) = Some (vault_value (drawn_vault d))"
proof -
  let ?v = "drawn_vault d"
  have r: "validateVaultEnvelope (envelope_value env) = Ok ()" "decryptEnvelope wc (envelope_value env) (vd_master d) = Ok (vault_value ?v)"
    "ve_vault_id env = nv_vault_id ?v" using assms(5) by (simp_all add: recoverable_def)
  obtain x where x: "List.find (\<lambda>y. type_text (vw_type y) = ''recovery_kit_password'') (ve_wrappers env) = Some x"
      "unwrapVaultKeyWithRecoveryKitPassword wc x pw = Ok (vd_master d)"
    using assms(5,6) unfolding recoverable_def by blast
  define c where "c = s \<lparr> ws_page := (ws_page s) \<lparr> vc_memory := None, vc_cache := [] \<rparr> \<rparr>"
  have "kept (nv_vault_id ?v) (ws_trace c) = Some (envelope_value env)" using assms(4) by (simp add: c_def)
  then obtain u where u: "fetchEnvelope w token (nv_vault_id ?v) c = (Inr (envelope_value env), u)" using fetch_kept [OF assms(1) _ r(1)] by blast
  have ws: "dot_list (envelope_value env) ''wrappers'' u = (Inr (map wrapper_value (ve_wrappers env)), u)"
    by (simp add: dot_list_def dot_def andThen_def give_back_def envelope_value_def)
  have id: "js_get (envelope_value env) ''vault_id'' = VStr (nv_vault_id ?v)" using r(3) by simp
  have "nv_vault_id ?v \<noteq> []" by (simp add: drawn_vault_def createEmptyNoteVault_def)
  then have "restoreWith w wc (WithPassword pw) (nv_vault_id ?v) s = snd (finish_restore w wc token (envelope_value env) (vd_master d) u)"
    using assms(2,3) u ws x by (simp add: restoreWith_def handled_page need_token_def clearLocalCache_def on_page_def c_def [symmetric]
      restore_master_def find_wrapper_values of_vault_def give_back_def unwrap_of_value)
  then show ?thesis using finish_restores [OF r(2) id] by simp
qed


section \<open>Creation succeeds\<close>

text \<open>The user is logged in, the API knows the account, and it accepts what is posted.\<close>

definition answers :: "web_world \<Rightarrow> web_event list \<Rightarrow> page_request \<Rightarrow> jsval \<Rightarrow> bool" where
  "answers w tr q v \<longleftrightarrow> (\<exists>code stext txt. ww_fetch w tr q = Some (code, stext, txt) \<and> http_ok code \<and> txt \<noteq> [] \<and> json_parse txt = Some v)"

definition api_up :: "web_world \<Rightarrow> string \<Rightarrow> bool" where
  "api_up w uid \<longleftrightarrow> uid \<noteq> [] \<and> (\<forall>tr. \<exists>t. ww_token w tr = Some t \<and> t \<noteq> []) \<and>
     (\<forall>tr q. pq_path q = ''/v1/me'' \<longrightarrow> (\<exists>v. answers w tr q v \<and> js_get v ''privy_user_id'' = VStr uid)) \<and>
     (\<forall>tr q. pq_method q = ''POST'' \<longrightarrow> (\<exists>v. answers w tr q v))"

lemma web_api_answers:
  assumes "\<And>q. pq_path q = path \<Longrightarrow> pq_method q = (case meth of Some m \<Rightarrow> m | None \<Rightarrow> if body \<noteq> None then ''POST'' else ''GET'') \<Longrightarrow>
    \<exists>v. answers w (ws_trace s) q v \<and> P v"
  shows "\<exists>v u. web_api w path token idk body meth s = (Inr v, u) \<and> ws_page u = ws_page s \<and> P v"
proof -
  obtain q where q: "pq_path q = path" "pq_method q = (case meth of Some m \<Rightarrow> m | None \<Rightarrow> if body \<noteq> None then ''POST'' else ''GET'')"
      "\<forall>code stext txt v. ww_fetch w (ws_trace s) q = Some (code, stext, txt) \<and> http_ok code \<and> txt \<noteq> [] \<and> json_parse txt = Some v \<longrightarrow>
        fst (web_api w path token idk body meth s) = Ok v"
    using web_api_effect [of path body meth w s token idk] by auto
  obtain v where "answers w (ws_trace s) q v" "P v" using assms [OF q(1,2)] by blast
  then have "fst (web_api w path token idk body meth s) = Ok v" using q(3) unfolding answers_def by blast
  then have "web_api w path token idk body meth s = (Inr v, snd (web_api w path token idk body meth s))" by (metis prod.collapse)
  then show ?thesis using web_api_page \<open>P v\<close> by blast
qed

lemma choice_returns:
  "(P \<Longrightarrow> \<exists>a t. m s = (Inr a, t)) \<Longrightarrow> \<exists>a t. (if P then m else give_back x) s = (Inr a, t)"
  by (simp add: give_back_def)

lemma vault_wrappers_total:
  assumes "webcrypto_ok wc" "length (wd_iv (vd_file d)) = 12" "length (wd_iv (vd_password d)) = 12"
  shows "\<exists>ws t. vault_wrappers w wc d sel pw u n s = (Inr ws, t)"
proof -
  have try_tot: "\<exists>ws' t. try_wrapper m ws r = (Inr ws', t)" for m ws r by (simp add: try_wrapper_def split: prod.split sum.split)
  obtain x where x: "wrapVaultKeyWithRecoveryFileSecret wc (vd_file d) (vd_master d) (vd_secret d) [(''device_hint'', VStr ''browser''), (''created_at'', VStr (vd_now d))] = Ok x"
    using wrap_with_unwraps [OF assms(1,2), of "vd_master d" "SFile (vd_secret d)"] by (metis wrap_with.simps(4))
  obtain y where y: "wrapVaultKeyWithRecoveryKitPassword wc (vd_password d) (vd_master d) pw [(''created_at'', VStr (vd_now d))] = Ok y"
    using wrap_with_unwraps [OF assms(1,3), of "vd_master d" "SPassword pw"] by (metis wrap_with.simps(3))
  have fw: "\<exists>z t. file_wrapper wc d r = (Inr z, t)" for r unfolding file_wrapper_def x of_vault_def sum.case by (simp add: give_back_def download_def on_page_def)
  have pw: "password_wrapper wc d pw r = (Inr y, r)" for r unfolding password_wrapper_def y of_vault_def sum.case by (simp add: give_back_def)
  obtain ws1 s1 where 1: "(if sel_passkey sel then try_wrapper (passkey_wrapper w wc d u n) [] else give_back []) s = (Inr ws1, s1)"
    using choice_returns [of "sel_passkey sel" "try_wrapper (passkey_wrapper w wc d u n) []" s "[]"] try_tot by blast
  obtain ws2 s2 where 2: "(if sel_freighter sel then try_wrapper (freighter_wrapper w wc d) ws1 else give_back ws1) s1 = (Inr ws2, s2)"
    using choice_returns [of "sel_freighter sel" "try_wrapper (freighter_wrapper w wc d) ws1" s1 ws1] try_tot by blast
  have "\<exists>a t. andThen (file_wrapper wc d) (\<lambda>x. give_back (ws2 @ [x])) s2 = (Inr a, t)" unfolding andThen_Ok using fw [of s2] by (auto simp: give_back_def)
  then obtain ws3 s3 where 3: "(if sel_file sel then andThen (file_wrapper wc d) (\<lambda>x. give_back (ws2 @ [x])) else give_back ws2) s2 = (Inr ws3, s3)"
    using choice_returns [of "sel_file sel" "andThen (file_wrapper wc d) (\<lambda>x. give_back (ws2 @ [x]))" s2 ws2] by blast
  have "\<exists>a t. andThen (password_wrapper wc d pw) (\<lambda>x. give_back (ws3 @ [x])) s3 = (Inr a, t)" unfolding andThen_Ok pw by (simp add: give_back_def)
  then obtain ws4 s4 where 4: "(if sel_password sel \<and> pw \<noteq> [] then andThen (password_wrapper wc d pw) (\<lambda>x. give_back (ws3 @ [x])) else give_back ws3) s3 = (Inr ws4, s4)"
    using choice_returns [of "sel_password sel \<and> pw \<noteq> []" "andThen (password_wrapper wc d pw) (\<lambda>x. give_back (ws3 @ [x]))" s3 ws3] by blast
  show ?thesis unfolding vault_wrappers_def andThen_Ok using 1 2 3 4 by blast
qed


lemma prove_backup_returns:
  assumes "keeps_vaults w" "api_up w uid" "recoverable wc d sel pw env files" "sel_file sel"
    "kept (nv_vault_id (drawn_vault d)) (ws_trace s) = Some (envelope_value env)"
  shows "vc_stage (ws_page (snd (prove_backup w wc d sel token (envelope_value env) s))) = VaultReady \<and>
    fst (prove_backup w wc d sel token (envelope_value env) s) = Ok ()"
proof -
  let ?vid = "nv_vault_id (drawn_vault d)"
  obtain x where x: "List.find (\<lambda>y. type_text (vw_type y) = ''recovery_file_secret'') (ve_wrappers env) = Some x"
      "unwrapVaultKeyWithRecoveryFileSecret wc x (vd_secret d) = Ok (vd_master d)"
      "decryptEnvelope wc (envelope_value env) (vd_master d) = Ok (vault_value (drawn_vault d))"
    using assms(3,4) unfolding recoverable_def by blast
  define c where "c = s \<lparr> ws_page := (ws_page s) \<lparr> vc_cache := jm_set (vc_cache (ws_page s)) (ve_vault_id env) (envelope_value env),
    vc_memory := Some (vault_value (drawn_vault d)) \<rparr> \<rparr>"
  have "kept ?vid (ws_trace c) = Some (envelope_value env)" using assms(5) by (simp add: c_def)
  then obtain v u where v: "client_getVault w token ?vid c = (Inr v, u)" "js_get v ''envelope'' = envelope_value env"
    using web_api_answers [of "''/v1/note-vaults/'' @ ?vid" None None w c "\<lambda>v. js_get v ''envelope'' = envelope_value env" "Some token" None] assms(1)
    unfolding client_getVault_def keeps_vaults_def answers_def by fastforce
  then have vn: "v \<noteq> VNull" "v \<noteq> VUndef" by (auto simp: envelope_value_def)
  have ws: "dot_list (envelope_value env) ''wrappers'' u = (Inr (map wrapper_value (ve_wrappers env)), u)"
    by (simp add: dot_list_def dot_def andThen_def give_back_def envelope_value_def)
  have pr: "prove_restore wc d True (envelope_value env) u = (Inr (VStr ''recovery_file_secret''), u)"
    using ws x by (simp add: prove_restore_def find_wrapper_values of_vault_def give_back_def unwrap_of_value dot_def vault_value_def)
  let ?b = "verification_body wc d (VStr ''recovery_file_secret'')"
  obtain v' u' where vb: "client_verifyBackup w token ?vid ?b u = (Inr v', u')"
    using web_api_answers [of "''/v1/note-vaults/'' @ ?vid @ ''/verify-backup''" "Some ?b" None w u "\<lambda>_. True" "Some token" None] assms(2)
    unfolding client_verifyBackup_def api_up_def by fastforce
  have "prove_backup w wc d sel token (envelope_value env) s = on_page (\<lambda>p. p \<lparr> vc_vaultId := ?vid, vc_stage := VaultReady \<rparr>) u'"
    using v vn pr vb assms(4) by (simp add: prove_backup_def cacheEnvelope_def setMemoryVault_def on_page_def c_def [symmetric] Let_def dot_def give_back_def)
  then show ?thesis by (simp add: on_page_def)
qed

lemma createVault_ready:
  assumes "webcrypto_ok wc" "keeps_vaults w" "api_up w uid" "length (vd_master d) = 32" "length (wd_iv (vd_file d)) = 12"
    "length (wd_iv (vd_password d)) = 12" "sel_file sel"
  shows "vc_stage (ws_page (createVault w wc d sel pw s)) = VaultReady"
proof -
  let ?vid = "nv_vault_id (drawn_vault d)"
  define s0 where "s0 = s \<lparr> ws_page := (ws_page s) \<lparr> vc_stage := VaultCreating \<rparr> \<rparr>"
  obtain token where "ww_token w (ws_trace s0) = Some token" "token \<noteq> []" using assms(3) unfolding api_up_def by blast
  then have token: "need_token w s0 = (Inr token, s0)" by (simp add: need_token_def)
  obtain me s1 where me: "client_me w token s0 = (Inr me, s1)" "js_get me ''privy_user_id'' = VStr uid"
    using web_api_answers [of "''/v1/me''" None None w s0 "\<lambda>v. js_get v ''privy_user_id'' = VStr uid" "Some token" None] assms(3)
    unfolding client_me_def api_up_def by fastforce
  have men: "me \<noteq> VNull" "me \<noteq> VUndef" "uid \<noteq> []" using me(2) assms(3) by (auto simp: api_up_def)
  let ?n = "to_String (nullish (js_get me ''email'') (VStr ''Shade user''))"
  obtain ws s2 where ws: "vault_wrappers w wc d sel pw uid ?n s1 = (Inr ws, s2)" using vault_wrappers_total [OF assms(1,5,6)] by blast
  obtain a b c e x r r' where made: "ws = a @ b @ c @ e" "made PasskeyPrf a" "made StellarEd25519 b" "made RecoveryFileSecret c" "made RecoveryKitPassword e"
      "c = [x]" "file_wrapper wc d r = (Inr x, r')" "calm r' s2"
    using vault_wrappers_made [OF ws] assms(7) by blast
  have "vw_type x = RecoveryFileSecret" using page_wrappers_clean(3) [OF made(7)] by (simp add: clean_wrapper_def)
  then have some: "filter (\<lambda>x. vw_type x \<noteq> EvmSignature) ws \<noteq> []" using made(1,6) by (auto simp: filter_empty_conv)
  obtain env where env: "createVaultEnvelope wc (vd_iv d) (drawn_vault d) (vd_master d) uid (vd_origin d) ws = Ok env"
    using createVaultEnvelope_total [OF assms(1,4)] by blast
  have vid: "?vid \<noteq> []" by (simp add: drawn_vault_def createEmptyNoteVault_def)
  note good = created_envelope [OF assms(1,4) vid men(3) made_find(3) [OF made(2-5), folded made(1)] env]
  obtain v s3 where v: "client_createVault w token (envelope_value env) s2 = (Inr v, s3)"
    using web_api_answers [of "''/v1/note-vaults''" "Some (VObj [(''envelope'', envelope_value env)])" None w s2 "\<lambda>_. True" "Some token" None] assms(3)
    unfolding client_createVault_def api_up_def by fastforce
  have k: "kept ?vid (ws_trace s3) = Some (envelope_value env)" using posted_by_client [OF v] good by simp
  have "unwrapVaultKeyWithRecoveryFileSecret wc x (vd_secret d) = Ok (vd_master d)" using file_wrapper_unwraps [OF assms(1,5) made(7)] by blast
  then have "recoverable wc d (sel \<lparr> sel_password := False \<rparr>) pw env UNIV"
    using good made_find(1) [OF made(2-6)] made(1) by (auto simp: recoverable_def)
  note proved = prove_backup_returns [OF assms(2,3) this _ k, of token, simplified, OF assms(7)]
  have sel: "prove_backup w wc d (sel \<lparr> sel_password := False \<rparr>) token E = prove_backup w wc d sel token E" for E by (simp add: prove_backup_def)
  have "createVault_body w wc d sel pw s0 = prove_backup w wc d sel token (envelope_value env) s3"
    using token me men ws some env v by (simp add: createVault_body_def dot_def give_back_def Let_def of_vault_def)
  then show ?thesis using proved unfolding sel
    by (cases "prove_backup w wc d sel token (envelope_value env) s3") (simp add: createVault_def handled_def s0_def [symmetric])
qed


section \<open>A browser and an API\<close>

text \<open>An API that gives back the body a vault was created with.\<close>

definition kept_body :: "string \<Rightarrow> web_event list \<Rightarrow> string option" where
  "kept_body vid tr = fold (\<lambda>e acc. case posted_envelope e of None \<Rightarrow> acc
     | Some env \<Rightarrow> if js_get env ''vault_id'' = VStr vid then (case e of Fetched q _ \<Rightarrow> pq_body q | _ \<Rightarrow> None) else acc) tr None"

lemma kept_body_kept: "kept vid tr = Some env \<Longrightarrow> \<exists>b v. kept_body vid tr = Some b \<and> json_parse b = Some v \<and> js_get v ''envelope'' = env"
proof (induction tr arbitrary: env rule: rev_induct)
  case (snoc e tr)
  show ?case
  proof (cases "\<exists>x. posted_envelope e = Some x \<and> js_get x ''vault_id'' = VStr vid")
    case True
    then obtain x where x: "posted_envelope e = Some x" "js_get x ''vault_id'' = VStr vid" by blast
    then obtain q ans b v where "e = Fetched q ans" "pq_body q = Some b" "json_parse b = Some v" "js_get v ''envelope'' = x"
      by (auto simp: posted_envelope_def split: web_event.splits option.splits if_splits)
    then show ?thesis using x snoc.prems by (simp add: kept_def kept_body_def)
  next
    case False
    then have "kept vid (tr @ [e]) = kept vid tr" "kept_body vid (tr @ [e]) = kept_body vid tr"
      by (auto simp: kept_def kept_body_def split: option.split)
    then show ?thesis using snoc by simp
  qed
qed (simp add: kept_def)

definition demo_vault_web :: web_world where
  "demo_vault_web = demo_web \<lparr> ww_fetch := (\<lambda>tr q. Some (200, ''OK'',
     if pq_path q = ''/v1/me'' then stringify (VObj [(''privy_user_id'', VStr ''did:privy:x'')])
     else if pq_method q = ''GET'' \<and> take 16 (pq_path q) = ''/v1/note-vaults/'' then
       (case kept_body (drop 16 (pq_path q)) tr of None \<Rightarrow> stringify (VObj []) | Some b \<Rightarrow> b)
     else stringify (VObj []))) \<rparr>"

definition demo_vault_draws :: vault_draws where
  "demo_vault_draws = \<lparr> vd_master = replicate 32 7, vd_uuid = ''1'', vd_now = ''now'', vd_passkey = demo_draws, vd_stellar = demo_draws, vd_file = demo_draws,
     vd_password = demo_draws, vd_secret = replicate 32 5, vd_iv = replicate 12 9, vd_origin = ''shade.app'' \<rparr>"

definition demo_sel :: vault_choice where
  "demo_sel = \<lparr> sel_passkey = True, sel_freighter = True, sel_file = True, sel_password = True \<rparr>"

definition demo_client :: "vault_client web_state" where
  "demo_client = \<lparr> ws_trace = [], ws_page = \<lparr> vc_memory = None, vc_cache = [], vc_downloads = [], vc_stage = VaultIdle, vc_vaultId = [], vc_checkout = Idle, vc_details = [] \<rparr> \<rparr>"

lemma demo_vault_web_ok: "keeps_vaults demo_vault_web" "api_up demo_vault_web ''did:privy:x''" "ww_token demo_vault_web tr = Some ''t''"
proof -
  have ne: "json_parse [] = None" by code_simp
  show "keeps_vaults demo_vault_web"
    unfolding keeps_vaults_def
  proof (intro allI impI)
    fix tr vid env and q :: page_request
    assume a: "kept vid tr = Some env \<and> pq_method q = ''GET'' \<and> pq_path q = ''/v1/note-vaults/'' @ vid"
    then obtain b v where b: "kept_body vid tr = Some b" "json_parse b = Some v" "js_get v ''envelope'' = env" using kept_body_kept by blast
    then have "b \<noteq> []" using ne by auto
    then show "\<exists>code stext txt v. ww_fetch demo_vault_web tr q = Some (code, stext, txt) \<and> http_ok code \<and> txt \<noteq> [] \<and> json_parse txt = Some v \<and> js_get v ''envelope'' = env"
      using a b by (simp add: demo_vault_web_def http_ok_def)
  qed
  have "\<exists>v. answers demo_vault_web tr q v \<and> js_get v ''privy_user_id'' = VStr ''did:privy:x''" if "pq_path q = ''/v1/me''" for tr q
    using that json_parse_stringify [of "VObj [(''privy_user_id'', VStr ''did:privy:x'')]"] by (simp add: answers_def demo_vault_web_def http_ok_def)
  moreover have "\<exists>v. answers demo_vault_web tr q v" if "pq_method q = ''POST''" for tr q
    using that json_parse_stringify [of "VObj [(''privy_user_id'', VStr ''did:privy:x'')]"] json_parse_stringify [of "VObj []"]
    by (simp add: answers_def demo_vault_web_def http_ok_def)
  ultimately show "api_up demo_vault_web ''did:privy:x''" by (simp add: api_up_def demo_vault_web_def demo_web_def)
  show "ww_token demo_vault_web tr = Some ''t''" by (simp add: demo_vault_web_def demo_web_def)
qed


section \<open>Properties\<close>

text \<open>C32: a vault created in the browser can be recovered. When the API is up and the recovery file is chosen, creation ends
  with the vault ready, whatever passkeys and Freighter do. Whenever it ends ready, an API that keeps the envelope it was given lets the user restore
  on a browser that has lost everything: the downloaded recovery file alone puts the very vault that was created back into memory, and so does the password if one was set.\<close>

theorem created_vault_is_recoverable:
  assumes "webcrypto_ok wc" "keeps_vaults w" "length (vd_master d) = 32" "length (wd_iv (vd_file d)) = 12" "length (wd_iv (vd_password d)) = 12"
  shows "(api_up w uid \<and> sel_file sel \<longrightarrow> vc_stage (ws_page (createVault w wc d sel pw s)) = VaultReady) \<and>
    (vc_stage (ws_page (createVault w wc d sel pw s)) = VaultReady \<and> ws_trace s2 = ws_trace (createVault w wc d sel pw s) @ later \<and> no_posts later \<and>
     ww_token w (ws_trace s2) = Some token \<and> token \<noteq> [] \<longrightarrow>
     (sel_file sel \<longrightarrow> (\<exists>name rf. (name, rf) \<in> set (vc_downloads (ws_page (createVault w wc d sel pw s))) \<and>
        (\<forall>content. json_parse content = Some rf \<longrightarrow> vc_memory (ws_page (restoreFromFile w wc content s2)) = Some (vault_value (drawn_vault d))))) \<and>
     (sel_password sel \<and> pw \<noteq> [] \<longrightarrow>
        vc_memory (ws_page (restoreWith w wc (WithPassword pw) (nv_vault_id (drawn_vault d)) s2)) = Some (vault_value (drawn_vault d))))"
proof (intro conjI impI, goal_cases)
  case 1
  then show ?case using createVault_ready assms by blast
next
  case 2
  obtain env where env: "kept (nv_vault_id (drawn_vault d)) (ws_trace s2) = Some (envelope_value env)"
      "recoverable wc d sel pw env (set (vc_downloads (ws_page (createVault w wc d sel pw s))))"
    using createVault_stored [OF assms(1,3,4,5)] 2(1) kept_append by metis
  then show ?case using restore_by_file [OF assms(2) _ _ env(1,2) 2(2)] 2(1) by metis
next
  case 3
  then show ?case using createVault_stored [OF assms(1,3,4,5)] restore_by_password [OF assms(2)] kept_append by metis
qed

theorem created_vault_is_recoverable_witness:
  "vc_memory (ws_page (restoreWith demo_vault_web demo_crypto (WithPassword ''pw'') ''vault-1''
     (demo_client \<lparr> ws_trace := ws_trace (createVault demo_vault_web demo_crypto demo_vault_draws demo_sel ''pw'' demo_client) \<rparr>))) =
   Some (vault_value (createEmptyNoteVault ''vault-1'' ''now''))"
proof -
  have "webcrypto_ok demo_crypto" by (simp add: webcrypto_ok_def demo_crypto_def)
  then have "vc_stage (ws_page (createVault demo_vault_web demo_crypto demo_vault_draws demo_sel ''pw'' demo_client)) = VaultReady \<longrightarrow>
      vc_memory (ws_page (restoreWith demo_vault_web demo_crypto (WithPassword ''pw'') (nv_vault_id (drawn_vault demo_vault_draws))
        (demo_client \<lparr> ws_trace := ws_trace (createVault demo_vault_web demo_crypto demo_vault_draws demo_sel ''pw'' demo_client) \<rparr>))) =
      Some (vault_value (drawn_vault demo_vault_draws))"
    "vc_stage (ws_page (createVault demo_vault_web demo_crypto demo_vault_draws demo_sel ''pw'' demo_client)) = VaultReady"
    using created_vault_is_recoverable [of demo_crypto demo_vault_web demo_vault_draws "''did:privy:x''" demo_sel "''pw''" demo_client
        "demo_client \<lparr> ws_trace := ws_trace (createVault demo_vault_web demo_crypto demo_vault_draws demo_sel ''pw'' demo_client) \<rparr>" "[]" "''t''"]
      demo_vault_web_ok
    by (simp_all add: demo_vault_draws_def demo_sel_def demo_draws_def)
  moreover have "drawn_vault demo_vault_draws = createEmptyNoteVault ''vault-1'' ''now''" by (simp add: drawn_vault_def demo_vault_draws_def)
  ultimately show ?thesis by (simp add: createEmptyNoteVault_def)
qed

end
