(* ===== verification/WebDeposit.thy ===== *)
theory WebDeposit
  imports WebVault
begin

text \<open>
  The deposit of the web application, \<open>apps/web/src/app/deposit/page.tsx\<close>: the choice of the vault and the checkout. The amount in units of
  \<open>10\<^sup>-\<^sup>6\<close> USDC is what \<open>Math.round(parseFloat(amount) * 1e6)\<close> gives, none for a text that is no number, the amount of the note the text of
  \<open>Math.round(parseFloat(amount) * 1e7)\<close>; the draws of the note and the two readings of the clock are arguments.
  The status texts are not modelled.
\<close>

section \<open>The choice of the vault\<close>

datatype vault_pick = PickNone | PickOne vault_summary | PickMany "vault_summary list" string

definition pick_vault :: "vault_summary list \<Rightarrow> vault_pick" where
  "pick_vault vaults =
    (case filter (\<lambda>v. isDepositReady (Some v)) vaults of
       [] \<Rightarrow> PickNone
     | [v] \<Rightarrow> PickOne v
     | v # v' # vs \<Rightarrow> PickMany (v # v' # vs) (vs_vault_id v))"

definition selectedVaultId :: "vault_pick \<Rightarrow> string option" where
  "selectedVaultId p = (case p of PickNone \<Rightarrow> None | PickOne v \<Rightarrow> Some (vs_vault_id v) | PickMany _ i \<Rightarrow> Some i)"

fun STAGE_TO_STEP :: "checkout_stage \<Rightarrow> int" where
  "STAGE_TO_STEP Idle = 0"
| "STAGE_TO_STEP CheckingVault = 0"
| "STAGE_TO_STEP ApprovePending = 1"
| "STAGE_TO_STEP BurnPending = 2"
| "STAGE_TO_STEP BurnSubmitted = 2"
| "STAGE_TO_STEP RelayerValidating = 2"
| "STAGE_TO_STEP StellarCompleting = 2"
| "STAGE_TO_STEP NoteActive = 3"
| "STAGE_TO_STEP Failed = - 1"

text \<open>The button is disabled while a checkout runs.\<close>

definition deposit_disabled :: "checkout_stage \<Rightarrow> bool" where
  "deposit_disabled st = (st \<noteq> Idle \<and> st \<noteq> Failed \<and> st \<noteq> NoteActive)"


section \<open>The checkout\<close>

record evm_wallet =
  ew_address :: string
  ew_clientType :: "string option"

record checkout_input =
  ci_wallets :: "evm_wallet list"
  ci_amount6 :: "int option"
  ci_amount7 :: string
  ci_draw :: "nat \<Rightarrow> bytes"
  ci_created :: string
  ci_updated :: string

definition set_stage :: "checkout_stage \<Rightarrow> unit vault_stmt" where
  "set_stage st = on_page (\<lambda>p. p \<lparr> vc_checkout := st \<rparr>)"

definition detail :: "string \<Rightarrow> string \<Rightarrow> unit vault_stmt" where
  "detail k v = on_page (\<lambda>p. p \<lparr> vc_details := jm_set (vc_details p) k v \<rparr>)"

definition synced_wallet :: "evm_wallet \<Rightarrow> jsval" where
  "synced_wallet evm = VObj [(''wallet_type'', VStr ''EVM''), (''wallet_source'', VStr (if ew_clientType evm = Some ''privy'' then ''privy_embedded'' else ''external'')),
     (''chain'', VStr ''arbitrum-sepolia''), (''address'', VStr (ew_address evm)), (''privy_wallet_id'', VStr (ew_address evm))]"

definition checkout_request :: "evm_wallet \<Rightarrow> string \<Rightarrow> string \<Rightarrow> int \<Rightarrow> jsval" where
  "checkout_request evm vaultId commitment amount6 = VObj [(''amount_usdc_6dp'', VStr (int_to_string amount6)), (''source_chain'', VStr ''arbitrum-sepolia''),
     (''source_wallet_address'', VStr (ew_address evm)), (''vault_id'', VStr vaultId), (''commitment'', VStr commitment),
     (''encrypted_note_payload_hash'', VStr commitment), (''policy_id'', VStr ''shade:default-testnet-policy:v1'')]"

text \<open>Approve only if the allowance does not cover the amount.\<close>

definition approve_if_needed :: "web_world \<Rightarrow> string \<Rightarrow> string \<Rightarrow> string \<Rightarrow> int \<Rightarrow> unit vault_stmt" where
  "approve_if_needed w usdc account messenger amount6 =
    andThen (ask (\<lambda>tr. ww_allowance w tr usdc account messenger) (Allowance usdc account messenger)) (\<lambda>allowance.
    if allowance < amount6 then
      andThen (ask (\<lambda>tr. ww_writeContract w tr usdc ''ERC20'' ''approve'' [PlainArg (VStr messenger), BigArg amount6])
        (WroteContract usdc ''ERC20'' ''approve'' [PlainArg (VStr messenger), BigArg amount6])) (\<lambda>approveHash.
      andThen (detail ''Approve tx'' approveHash) (\<lambda>_.
      andThen (ask (\<lambda>tr. ww_receipt w tr approveHash) (Receipt approveHash)) (\<lambda>_. give_back ())))
    else give_back ())"

text \<open>The arguments of the burn: the first and the sixth are read as \<open>bigint\<close>, eight are passed.\<close>

definition burn_args :: "jsval list \<Rightarrow> ('p, chain_arg list) web" where
  "burn_args a =
    (let at = (\<lambda>i. if i < length a then a ! i else VUndef); big = (\<lambda>v. case v of VStr t \<Rightarrow> big_int_of_string t | _ \<Rightarrow> None) in
     (case (big (at 0), big (at 5)) of
        (Some amount, Some maxFee) \<Rightarrow> give_back [BigArg amount, PlainArg (at 1), PlainArg (at 2), PlainArg (at 3), PlainArg (at 4), BigArg maxFee, PlainArg (at 6), PlainArg (at 7)]
      | _ \<Rightarrow> fail_with TypeErr))"

fun checkout_loop :: "web_world \<Rightarrow> string \<Rightarrow> string \<Rightarrow> nat \<Rightarrow> unit vault_stmt" where
  "checkout_loop w token jid 0 = give_back ()"
| "checkout_loop w token jid (Suc n) =
    andThen (client_job w token jid) (\<lambda>j.
    andThen (dot j ''result'') (\<lambda>result.
    andThen (if truthy (js_get result ''mintForwardTxHash'') then
        andThen (set_stage StellarCompleting) (\<lambda>_. detail ''Bridge delivery tx'' (to_String (js_get result ''mintForwardTxHash'')))
      else give_back ()) (\<lambda>_.
    if js_get result ''state'' = VStr ''active'' \<and> truthy (js_get result ''receiveDepositTxHash'') then
      andThen (detail ''Private vault funding tx'' (to_String (js_get result ''receiveDepositTxHash''))) (\<lambda>_. set_stage NoteActive)
    else if js_get j ''status'' = VStr ''failed'' then set_stage Failed
    else checkout_loop w token jid n)))"

text \<open>The part on the source chain: the right network, the approval, the burn and the hand-over of its hash.\<close>

definition checkout_burn :: "web_world \<Rightarrow> string \<Rightarrow> evm_wallet \<Rightarrow> int \<Rightarrow> jsval \<Rightarrow> string \<Rightarrow> unit vault_stmt" where
  "checkout_burn w token evm amount6 prep depositId =
    andThen (ask (ww_switchChain w) SwitchedChain) (\<lambda>_.
    andThen (ask (ww_chainId w) ChainId) (\<lambda>chainId.
    if chainId \<noteq> 421614 then fail_with (AnyError ''Wrong network. Switch to Arbitrum Sepolia.'')
    else
      (let usdc = to_String (js_get prep ''usdc_address''); messenger = to_String (js_get prep ''token_messenger_address'') in
       andThen (set_stage ApprovePending) (\<lambda>_.
       andThen (approve_if_needed w usdc (ew_address evm) messenger amount6) (\<lambda>_.
       andThen (set_stage BurnPending) (\<lambda>_.
       andThen (dot prep ''burn_tx_request'') (\<lambda>burnRequest.
       andThen (dot_list burnRequest ''args'') (\<lambda>a.
       andThen (burn_args a) (\<lambda>args.
       andThen (ask (\<lambda>tr. ww_writeContract w tr messenger ''TokenMessenger'' ''depositForBurnWithHook'' args)
         (WroteContract messenger ''TokenMessenger'' ''depositForBurnWithHook'' args)) (\<lambda>burnHash.
       andThen (detail ''Move USDC (CCTP burn) tx'' burnHash) (\<lambda>_.
       andThen (ask (\<lambda>tr. ww_receipt w tr burnHash) (Receipt burnHash)) (\<lambda>_.
       andThen (set_stage BurnSubmitted) (\<lambda>_.
       andThen (client_burnSubmitted w token depositId (VObj [(''burn_tx_hash'', VStr burnHash), (''source_chain'', VStr ''arbitrum-sepolia''),
         (''source_wallet_address'', VStr (ew_address evm))])) (\<lambda>sub.
       andThen (dot sub ''job_id'') (\<lambda>jid.
       andThen (detail ''Network helper job id'' (to_String jid)) (\<lambda>_.
       andThen (set_stage RelayerValidating) (\<lambda>_.
       checkout_loop w token (to_String jid) 40)))))))))))))))))"

text \<open>\<open>addNoteToVault\<close> of \<open>packages/note-vault/src/index.ts\<close> on the JSON value a restored vault is: \<open>notes\<close> has to be an array, and each of its members
  is asked for its commitment.\<close>

fun other_notes :: "string \<Rightarrow> jsval list \<Rightarrow> ('p, jsval list) web" where
  "other_notes c [] = give_back []"
| "other_notes c (n # ns) =
    andThen (dot n ''commitment'') (\<lambda>k.
    andThen (other_notes c ns) (\<lambda>ks. give_back (if k \<noteq> VStr c then n # ks else ks)))"

definition spread_members :: "jsval \<Rightarrow> (string, jsval) jmap" where
  "spread_members v = (case v of VObj ms \<Rightarrow> ms | _ \<Rightarrow> [])"

definition add_note_value :: "jsval \<Rightarrow> vault_note \<Rightarrow> string \<Rightarrow> ('p, jsval) web" where
  "add_note_value vault n now =
    andThen (dot_list vault ''notes'') (\<lambda>ns.
    andThen (other_notes (vn_commitment n) ns) (\<lambda>ks.
    give_back (VObj (jm_set (jm_set (spread_members vault) ''updated_at'' (VStr now)) ''notes'' (VArr (ks @ [note_value n]))))))"

definition getMemoryVault :: "jsval option vault_stmt" where
  "getMemoryVault s = (Ok (vc_memory (ws_page s)), s)"

definition checkout_note :: "checkout_input \<Rightarrow> string \<Rightarrow> vault_note" where
  "checkout_note x commitment = \<lparr> vn_commitment = commitment, vn_asset_id = ''USDC'', vn_amount_7dp = ci_amount7 x,
     vn_note_preimage = generateNotePreimage (ci_draw x), vn_deposit_id = None, vn_status = note_status.Prepared, vn_created_at = ci_created x \<rparr>"

text \<open>A note is drawn and committed to. With a vault in memory the note is added to it; the new vault that \<open>addNoteToVault\<close> returns is the
  value of an expression statement, \<open>dropped\<close> here.\<close>

definition web_deposit_body :: "web_world \<Rightarrow> webcrypto \<Rightarrow> checkout_input \<Rightarrow> string \<Rightarrow> unit vault_stmt" where
  "web_deposit_body w wc x vaultId =
    andThen (need_token w) (\<lambda>token.
    (case find_first (\<lambda>e. take 2 (ew_address e) = ''0x'') (ci_wallets x) of
       None \<Rightarrow> fail_with (AnyError ''connect an EVM wallet first'')
     | Some evm \<Rightarrow>
        andThen (client_syncPrivyWallets w token [synced_wallet evm]) (\<lambda>_.
        (let commitment = buildNoteCommitment wc (generateNotePreimage (ci_draw x)) in
         andThen getMemoryVault (\<lambda>mem.
         andThen (case mem of
             None \<Rightarrow> give_back VUndef
           | Some vault \<Rightarrow> if truthy vault then add_note_value vault (checkout_note x commitment) (ci_updated x) else give_back VUndef) (\<lambda>dropped.
         andThen (detail ''Private receipt ID (commitment)'' commitment) (\<lambda>_.
         (case ci_amount6 x of
            None \<Rightarrow> fail_with (AnyError ''RangeError'')
          | Some amount6 \<Rightarrow>
             andThen (client_prepareDeposit w token (''dep-'' @ take 16 (drop 2 commitment)) (checkout_request evm vaultId commitment amount6)) (\<lambda>prep.
             andThen (dot prep ''deposit_id'') (\<lambda>depositId.
             andThen (detail ''Deposit id'' (to_String depositId)) (\<lambda>_.
             checkout_burn w token evm amount6 prep (to_String depositId))))))))))))"

definition web_deposit :: "web_world \<Rightarrow> webcrypto \<Rightarrow> checkout_input \<Rightarrow> string option \<Rightarrow> vault_client web_state \<Rightarrow> vault_client web_state" where
  "web_deposit w wc x vaultId s =
    (case vaultId of
       None \<Rightarrow> s
     | Some i \<Rightarrow>
        if i = [] then s
        else handled (web_deposit_body w wc x i) (\<lambda>e p. p \<lparr> vc_checkout := Failed \<rparr>) (\<lambda>p. p)
          (s \<lparr> ws_page := (ws_page s) \<lparr> vc_checkout := CheckingVault, vc_details := [] \<rparr> \<rparr>))"


section \<open>What a checkout leaves behind\<close>

text \<open>A statement that touches neither the vault in memory, nor the cached envelopes, nor the downloaded files.\<close>

definition stored :: "vault_client \<Rightarrow> jsval option \<times> (string, jsval) jmap \<times> (string \<times> jsval) list" where
  "stored p = (vc_memory p, vc_cache p, vc_downloads p)"

definition leaves_vault :: "'a vault_stmt \<Rightarrow> bool" where
  "leaves_vault m \<longleftrightarrow> (\<forall>s. stored (ws_page (snd (m s))) = stored (ws_page s))"

lemma leaves_andThen: "leaves_vault m \<Longrightarrow> (\<And>a. leaves_vault (f a)) \<Longrightarrow> leaves_vault (andThen m f)"
  unfolding leaves_vault_def by (auto intro!: andThen_inv [where P = "\<lambda>t. stored (ws_page t) = stored (ws_page s)" for s])

lemma leaves_prims:
  "leaves_vault (give_back x)" "leaves_vault (fail_with e)" "leaves_vault (dot v k)" "leaves_vault (need_token w)" "leaves_vault (ask q ev)"
  "leaves_vault (set_stage st)" "leaves_vault (detail k' v')" "leaves_vault (web_api w path token idk body meth)" "leaves_vault getMemoryVault"
  by (auto simp: getMemoryVault_def leaves_vault_def give_back_def fail_with_def dot_def need_token_def ask_def set_stage_def detail_def on_page_def stored_def Let_def web_api_page
      split: option.split)

lemma leaves_parts:
  "leaves_vault (dot_list v k)" "leaves_vault (burn_args a)" "leaves_vault (approve_if_needed w u c m n)" "leaves_vault (checkout_loop w token jid i)"
  "leaves_vault (other_notes c ns)" "leaves_vault (add_note_value vault nt now)"
proof -
  show list: "leaves_vault (dot_list v k)" for v k unfolding dot_list_def by (auto intro!: leaves_andThen leaves_prims split: jsval.split)
  show "leaves_vault (burn_args a)" unfolding burn_args_def Let_def by (auto intro!: leaves_prims split: option.split)
  show "leaves_vault (approve_if_needed w u c m n)" unfolding approve_if_needed_def by (auto intro!: leaves_andThen leaves_prims)
  show "leaves_vault (checkout_loop w token jid i)"
  proof (induction i)
    case (Suc i)
    then show ?case unfolding checkout_loop.simps client_job_def by (auto intro!: leaves_andThen leaves_prims)
  qed (simp add: leaves_prims)
  show others: "leaves_vault (other_notes c ns)" for c ns by (induction ns) (auto intro!: leaves_andThen leaves_prims)
  show "leaves_vault (add_note_value vault nt now)" unfolding add_note_value_def by (intro leaves_andThen leaves_prims list others)
qed

lemma leaves_checkout: "leaves_vault (web_deposit_body w wc x vaultId)"
proof -
  have "leaves_vault (checkout_burn w token evm n prep i)" for token evm n prep i
    unfolding checkout_burn_def client_burnSubmitted_def Let_def by (auto intro!: leaves_andThen leaves_prims leaves_parts)
  then show ?thesis
    unfolding web_deposit_body_def client_syncPrivyWallets_def client_prepareDeposit_def Let_def
    by (auto intro!: leaves_andThen leaves_prims leaves_parts split: option.split)
qed

text \<open>A statement that only adds to the trace, and what a run that returns has seen.\<close>

definition grows :: "'a vault_stmt \<Rightarrow> bool" where
  "grows m \<longleftrightarrow> (\<forall>s. \<exists>new. ws_trace (snd (m s)) = ws_trace s @ new)"

definition seen_new :: "web_event list \<Rightarrow> web_event set \<Rightarrow> vault_client web_state \<Rightarrow> bool" where
  "seen_new tr0 F s \<longleftrightarrow> (\<exists>new. ws_trace s = tr0 @ new \<and> F \<subseteq> set new)"

lemma grows_andThen: "grows m \<Longrightarrow> (\<And>a. grows (f a)) \<Longrightarrow> grows (andThen m f)"
  unfolding grows_def
proof (intro allI)
  fix s
  assume m: "\<forall>s. \<exists>new. ws_trace (snd (m s)) = ws_trace s @ new" and f: "\<And>a. \<forall>s. \<exists>new. ws_trace (snd (f a s)) = ws_trace s @ new"
  obtain r s1 new where r: "m s = (r, s1)" "ws_trace s1 = ws_trace s @ new" using m [rule_format, of s] by (cases "m s") auto
  show "\<exists>new. ws_trace (snd (andThen m f s)) = ws_trace s @ new"
    using f [rule_format, of _ s1] r by (cases r) (auto simp: andThen_def)
qed

lemma grows_prims:
  "grows (give_back x)" "grows (fail_with e)" "grows (dot v k)" "grows (need_token w)" "grows (ask q ev)" "grows (on_page f)" "grows (set_stage st)"
  "grows (detail k' v')" "grows (web_api w path token idk body meth)" "grows getMemoryVault"
proof -
  show "grows (web_api w path token idk body meth)" unfolding grows_def
  proof
    fix s
    obtain q where "snd (web_api w path token idk body meth s) = s \<lparr> ws_trace := ws_trace s @ [Fetched q (ww_fetch w (ws_trace s) q)] \<rparr>"
      using web_api_effect [of path body meth w s token idk] by blast
    then show "\<exists>new. ws_trace (snd (web_api w path token idk body meth s)) = ws_trace s @ new" by simp
  qed
qed (auto simp: getMemoryVault_def grows_def give_back_def fail_with_def dot_def need_token_def ask_def set_stage_def detail_def on_page_def Let_def
      split: option.split)

lemma grows_parts:
  "grows (dot_list v k)" "grows (burn_args a)" "grows (approve_if_needed w u c m n)" "grows (checkout_loop w token jid i)"
  "grows (other_notes c' ns)" "grows (add_note_value vault note' now)"
proof -
  show list: "grows (dot_list v k)" for v k unfolding dot_list_def by (auto intro!: grows_andThen grows_prims split: jsval.split)
  show "grows (burn_args a)" unfolding burn_args_def Let_def by (auto intro!: grows_prims split: option.split)
  show "grows (approve_if_needed w u c m n)" unfolding approve_if_needed_def by (auto intro!: grows_andThen grows_prims)
  show "grows (checkout_loop w token jid i)"
  proof (induction i)
    case (Suc i)
    then show ?case unfolding checkout_loop.simps client_job_def by (auto intro!: grows_andThen grows_prims)
  qed (simp add: grows_prims)
  show others: "grows (other_notes c' ns)" for c' ns by (induction ns) (auto intro!: grows_andThen grows_prims)
  show "grows (add_note_value vault note' now)" unfolding add_note_value_def by (intro grows_andThen grows_prims list others)
qed

abbreviation returning :: "(vault_client web_state \<Rightarrow> bool) \<Rightarrow> 'a vault_stmt \<Rightarrow> ('a \<Rightarrow> vault_client web_state \<Rightarrow> bool) \<Rightarrow> bool" where
  "returning P m Q \<equiv> triple P m Q (\<lambda>_. True)"

lemma returning_grows: "grows m \<Longrightarrow> returning (seen_new tr0 F) m (\<lambda>_. seen_new tr0 F)"
  unfolding triple_def
proof (intro allI impI)
  fix s assume "grows m" "seen_new tr0 F s"
  then obtain new new' where "ws_trace s = tr0 @ new" "F \<subseteq> set new" "ws_trace (snd (m s)) = ws_trace s @ new'"
    unfolding grows_def seen_new_def by blast
  then have "seen_new tr0 F (snd (m s))" unfolding seen_new_def by (intro exI [of _ "new @ new'"]) auto
  then show "case m s of (Inl e, s') \<Rightarrow> True | (Inr a, s') \<Rightarrow> seen_new tr0 F s'" by (auto split: prod.split sum.split)
qed

lemma returning_then:
  "grows m \<Longrightarrow> (\<And>x. returning (seen_new tr0 F) (k x) R) \<Longrightarrow> returning (seen_new tr0 F) (andThen m k) R"
  by (rule triple_andThen [OF returning_grows])

lemma returning_ask:
  assumes "\<And>x. returning (seen_new tr0 (insert (ev (Ok x)) F)) (k x) R"
  shows "returning (seen_new tr0 F) (andThen (ask q ev) k) R"
proof (rule triple_andThen)
  show "returning (seen_new tr0 F) (ask q ev) (\<lambda>x. seen_new tr0 (insert (ev (Ok x)) F))"
    unfolding triple_def ask_def seen_new_def Let_def by (fastforce split: sum.splits)
qed (rule assms)

lemma triple_ex_where: "(\<And>q a. A q a \<Longrightarrow> triple (P q a) m R E) \<Longrightarrow> triple (\<lambda>s. \<exists>q a. A q a \<and> P q a s) m R E"
  unfolding triple_def by metis

lemma returning_api:
  assumes "\<And>x q a. pq_path q = path \<Longrightarrow> pq_body q = map_option stringify body \<Longrightarrow>
      returning (seen_new tr0 (insert (Fetched q (Some a)) F)) (k x) R"
  shows "returning (seen_new tr0 F) (andThen (web_api w path token idk body meth) k) R"
proof (rule triple_andThen [where Q = "\<lambda>_ s. \<exists>q a. pq_path q = path \<and> pq_body q = map_option stringify body \<and>
    seen_new tr0 (insert (Fetched q (Some a)) F) s"])
  show "returning (seen_new tr0 F) (web_api w path token idk body meth) (\<lambda>_ s. \<exists>q a. pq_path q = path \<and> pq_body q = map_option stringify body \<and>
    seen_new tr0 (insert (Fetched q (Some a)) F) s)"
    unfolding triple_def
  proof (intro allI impI)
    fix s
    assume "seen_new tr0 F s"
    then obtain new where n: "ws_trace s = tr0 @ new" "F \<subseteq> set new" unfolding seen_new_def by blast
    define q where "q = \<lparr> pq_method = (case meth of Some m \<Rightarrow> m | None \<Rightarrow> if body \<noteq> None then ''POST'' else ''GET''), pq_path = path,
      pq_headers = web_headers token idk, pq_body = map_option stringify body \<rparr>"
    have q: "pq_path q = path" "pq_body q = map_option stringify body" by (simp_all add: q_def)
    have r: "seen_new tr0 (insert (Fetched q a) F) (s \<lparr> ws_trace := ws_trace s @ [Fetched q a] \<rparr>)" for a
      unfolding seen_new_def using n by (intro exI [of _ "new @ [Fetched q a]"]) auto
    show "case web_api w path token idk body meth s of (Inl e, s') \<Rightarrow> True
      | (Inr a, s') \<Rightarrow> \<exists>q a. pq_path q = path \<and> pq_body q = map_option stringify body \<and> seen_new tr0 (insert (Fetched q (Some a)) F) s'"
      unfolding web_api_def q_def [symmetric] Let_def using q r by (auto split: option.splits prod.splits) blast+
  qed
  show "returning (\<lambda>s. \<exists>q a. pq_path q = path \<and> pq_body q = map_option stringify body \<and> seen_new tr0 (insert (Fetched q (Some a)) F) s) (k x) R" for x
    by (rule triple_ex_where [where A = "\<lambda>q a. pq_path q = path \<and> pq_body q = map_option stringify body"
      and P = "\<lambda>q a. seen_new tr0 (insert (Fetched q (Some a)) F)", unfolded conj_assoc], erule conjE, rule assms)
qed

lemma returning_fail: "returning P (fail_with e) Q"
  by (rule triple_fail) simp

text \<open>A checkout that returns has burned: the burn was sent to the messenger, its receipt was awaited, and before that the deposit was
  prepared with the commitment of the drawn note.\<close>

definition burned :: "checkout_input \<Rightarrow> webcrypto \<Rightarrow> string \<Rightarrow> web_event list \<Rightarrow> bool" where
  "burned x wc vaultId new \<longleftrightarrow> (\<exists>evm amount6 q a messenger args h b. ci_amount6 x = Some amount6 \<and> evm \<in> set (ci_wallets x) \<and>
     Fetched q (Some a) \<in> set new \<and> pq_path q = ''/v1/deposits/prepare'' \<and>
     pq_body q = Some (stringify (checkout_request evm vaultId (buildNoteCommitment wc (generateNotePreimage (ci_draw x))) amount6)) \<and>
     WroteContract messenger ''TokenMessenger'' ''depositForBurnWithHook'' args (Ok h) \<in> set new \<and> Receipt h (Ok b) \<in> set new)"

lemma checkout_burn_returns:
  "returning (seen_new tr0 F) (checkout_burn w token evm amount6 prep depositId)
    (\<lambda>_ s. \<exists>messenger args h b. seen_new tr0 ({Receipt h (Ok b), WroteContract messenger ''TokenMessenger'' ''depositForBurnWithHook'' args (Ok h)} \<union> F) s)"
proof -
  have wait: "returning (seen_new tr0 F') (andThen (client_burnSubmitted w token d body) (\<lambda>sub. andThen (dot sub ''job_id'') (\<lambda>jid.
       andThen (detail ''Network helper job id'' (to_String jid)) (\<lambda>_. andThen (set_stage RelayerValidating) (\<lambda>_.
       checkout_loop w token (to_String jid) 40))))) (\<lambda>_. seen_new tr0 F')" for F' d body
    unfolding client_burnSubmitted_def by (intro returning_then grows_prims returning_grows grows_parts)
  have rest: "returning (seen_new tr0 F') (andThen (ask (\<lambda>tr. ww_receipt w tr burnHash) (Receipt burnHash)) (\<lambda>_.
       andThen (set_stage BurnSubmitted) (\<lambda>_.
       andThen (client_burnSubmitted w token depositId (VObj [(''burn_tx_hash'', VStr burnHash), (''source_chain'', VStr ''arbitrum-sepolia''),
         (''source_wallet_address'', VStr (ew_address evm))])) (\<lambda>sub.
       andThen (dot sub ''job_id'') (\<lambda>jid.
       andThen (detail ''Network helper job id'' (to_String jid)) (\<lambda>_.
       andThen (set_stage RelayerValidating) (\<lambda>_.
       checkout_loop w token (to_String jid) 40))))))) (\<lambda>_ s. \<exists>messenger args h b. seen_new tr0 ({Receipt h (Ok b), WroteContract messenger ''TokenMessenger'' ''depositForBurnWithHook'' args (Ok h)} \<union> F) s)"
    if "F' = insert (WroteContract messenger ''TokenMessenger'' ''depositForBurnWithHook'' args (Ok burnHash)) F" for F' messenger args burnHash
  proof (rule returning_ask, rule returning_then [OF grows_prims(7)], rule triple_weaken [OF wait])
    fix b s
    assume "seen_new tr0 (insert (Receipt burnHash (Ok b)) F') s"
    then show "\<exists>messenger args h b. seen_new tr0 ({Receipt h (Ok b), WroteContract messenger ''TokenMessenger'' ''depositForBurnWithHook'' args (Ok h)} \<union> F) s"
      unfolding that by (intro exI [of _ messenger] exI [of _ args] exI [of _ burnHash] exI [of _ b]) (simp add: insert_commute)
  qed simp_all
  show ?thesis unfolding checkout_burn_def Let_def
  proof (rule returning_then [OF grows_prims(5)], rule returning_then [OF grows_prims(5)], split if_split, intro conjI impI returning_fail)
  qed (rule returning_then [OF grows_prims(7)], rule returning_then [OF grows_parts(3)], rule returning_then [OF grows_prims(7)],
      rule returning_then [OF grows_prims(3)], rule returning_then [OF grows_parts(1)], rule returning_then [OF grows_parts(2)], rule returning_ask,
      rule returning_then [OF grows_prims(8)], rule rest, rule refl)
qed

lemma web_deposit_body_returns:
  assumes "web_deposit_body w wc x vaultId s = (Ok r, s')"
  shows "\<exists>new. ws_trace s' = ws_trace s @ new \<and> burned x wc vaultId new"
proof -
  let ?c = "buildNoteCommitment wc (generateNotePreimage (ci_draw x))"
  have "returning (seen_new (ws_trace s) {}) (web_deposit_body w wc x vaultId) (\<lambda>_ s'. \<exists>new. ws_trace s' = ws_trace s @ new \<and> burned x wc vaultId new)"
    unfolding web_deposit_body_def
  proof (rule returning_then [OF grows_prims(4)])
    fix token
    show "returning (seen_new (ws_trace s) {}) (case find_first (\<lambda>e. take 2 (ew_address e) = ''0x'') (ci_wallets x) of
       None \<Rightarrow> fail_with (AnyError ''connect an EVM wallet first'')
     | Some evm \<Rightarrow>
        andThen (client_syncPrivyWallets w token [synced_wallet evm]) (\<lambda>_.
        (let commitment = ?c in
         andThen getMemoryVault (\<lambda>mem.
         andThen (case mem of
             None \<Rightarrow> give_back VUndef
           | Some vault \<Rightarrow> if truthy vault then add_note_value vault (checkout_note x commitment) (ci_updated x) else give_back VUndef) (\<lambda>dropped.
         andThen (detail ''Private receipt ID (commitment)'' commitment) (\<lambda>_.
         (case ci_amount6 x of
            None \<Rightarrow> fail_with (AnyError ''RangeError'')
          | Some amount6 \<Rightarrow>
             andThen (client_prepareDeposit w token (''dep-'' @ take 16 (drop 2 commitment)) (checkout_request evm vaultId commitment amount6)) (\<lambda>prep.
             andThen (dot prep ''deposit_id'') (\<lambda>depositId.
             andThen (detail ''Deposit id'' (to_String depositId)) (\<lambda>_.
             checkout_burn w token evm amount6 prep (to_String depositId)))))))))))
      (\<lambda>_ s'. \<exists>new. ws_trace s' = ws_trace s @ new \<and> burned x wc vaultId new)"
    proof (cases "find_first (\<lambda>e. take 2 (ew_address e) = ''0x'') (ci_wallets x)")
      case None
      show ?thesis unfolding None option.case by (rule returning_fail)
    next
      case (Some evm)
      then have evm: "evm \<in> set (ci_wallets x)" by (auto dest: find_first_Some)
      have add: "grows (case mem of None \<Rightarrow> give_back VUndef
           | Some vault \<Rightarrow> if truthy vault then add_note_value vault (checkout_note x ?c) (ci_updated x) else give_back VUndef)" for mem
        by (auto intro!: grows_prims grows_parts split: option.split)
      have pay: "returning (seen_new (ws_trace s) {}) (andThen (client_prepareDeposit w token (''dep-'' @ take 16 (drop 2 ?c)) (checkout_request evm vaultId ?c amount6)) (\<lambda>prep.
             andThen (dot prep ''deposit_id'') (\<lambda>depositId.
             andThen (detail ''Deposit id'' (to_String depositId)) (\<lambda>_.
             checkout_burn w token evm amount6 prep (to_String depositId)))))
          (\<lambda>_ s'. \<exists>new. ws_trace s' = ws_trace s @ new \<and> burned x wc vaultId new)" if amount: "ci_amount6 x = Some amount6" for amount6
        unfolding client_prepareDeposit_def
      proof (rule returning_api, rule returning_then [OF grows_prims(3)], rule returning_then [OF grows_prims(8)], rule triple_weaken [OF checkout_burn_returns])
        fix q :: page_request and a r s'
        assume q: "pq_path q = ''/v1/deposits/prepare''" "pq_body q = map_option stringify (Some (checkout_request evm vaultId ?c amount6))"
        assume "\<exists>messenger args h b. seen_new (ws_trace s) ({Receipt h (Ok b),
          WroteContract messenger ''TokenMessenger'' ''depositForBurnWithHook'' args (Ok h)} \<union> {Fetched q (Some a)}) s'"
        then obtain messenger args h b new where "ws_trace s' = ws_trace s @ new"
          "{Receipt h (Ok b), WroteContract messenger ''TokenMessenger'' ''depositForBurnWithHook'' args (Ok h)} \<union> {Fetched q (Some a)} \<subseteq> set new"
          unfolding seen_new_def by blast
        with q amount evm show "\<exists>new. ws_trace s' = ws_trace s @ new \<and> burned x wc vaultId new"
          unfolding burned_def by (intro exI [of _ new] conjI exI [of _ evm] exI [of _ amount6] exI [of _ q] exI [of _ a] exI [of _ messenger]
            exI [of _ args] exI [of _ h] exI [of _ b]) auto
      qed simp_all
      show ?thesis unfolding Some option.case Let_def client_syncPrivyWallets_def
        by (rule returning_then [OF grows_prims(9)], rule returning_then [OF grows_prims(10)], rule returning_then [OF add],
          rule returning_then [OF grows_prims(8)], cases "ci_amount6 x") (simp_all only: option.case returning_fail pay)
    qed
  qed
  then show ?thesis using assms unfolding triple_def seen_new_def by fastforce
qed

text \<open>On a typed vault the JSON function is \<open>addNoteToVault\<close>.\<close>

lemma other_notes_value: "other_notes c (map note_value ns) s = (Ok (map note_value (filter (\<lambda>n. vn_commitment n \<noteq> c) ns)), s)"
  by (induction ns) (simp_all add: andThen_def dot_def give_back_def note_value_def)

lemma add_note_value_typed: "add_note_value (vault_value v) n now s = (Ok (vault_value (addNoteToVault v n now)), s)"
  by (simp add: add_note_value_def andThen_def dot_list_def dot_def give_back_def vault_value_def addNoteToVault_def other_notes_value spread_members_def)

definition pay_answer :: "string \<Rightarrow> jsval" where
  "pay_answer path =
    (if path = ''/v1/jobs/j'' then VObj [(''status'', VStr ''ready''), (''result'', VObj [(''state'', VStr ''active''), (''receiveDepositTxHash'', VStr ''h'')])]
     else if path = ''/v1/deposits/prepare'' then VObj [(''deposit_id'', VStr ''d''), (''usdc_address'', VStr ''u''), (''token_messenger_address'', VStr ''m''),
       (''burn_tx_request'', VObj [(''args'', VArr [VStr (int_to_string 1000000), VNull, VNull, VNull, VNull, VStr (int_to_string 500), VNull, VNull])])]
     else VObj [(''job_id'', VStr ''j'')])"

definition demo_pay_web :: web_world where
  "demo_pay_web = demo_web \<lparr> ww_fetch := (\<lambda>tr q. Some (200, ''OK'', stringify (pay_answer (pq_path q)))) \<rparr>"

definition demo_checkout :: checkout_input where
  "demo_checkout = \<lparr> ci_wallets = [\<lparr> ew_address = ''0xa'', ew_clientType = None \<rparr>], ci_amount6 = Some 1000000,
     ci_amount7 = ''10000000'', ci_draw = (\<lambda>_. [1]), ci_created = ''2026-01-01'', ci_updated = ''2026-01-01'' \<rparr>"

definition pay_event :: "string \<Rightarrow> string option \<Rightarrow> string option \<Rightarrow> jsval option \<Rightarrow> string option \<Rightarrow> web_event" where
  "pay_event path token idk body meth = Fetched
     \<lparr> pq_method = (case meth of Some m \<Rightarrow> m | None \<Rightarrow> if body \<noteq> None then ''POST'' else ''GET''), pq_path = path,
       pq_headers = web_headers token idk, pq_body = map_option stringify body \<rparr> (Some (200, ''OK'', stringify (pay_answer path)))"

lemma demo_pay_api:
  "web_api demo_pay_web path token idk body meth s = (Inr (pay_answer path), s \<lparr> ws_trace := ws_trace s @ [pay_event path token idk body meth] \<rparr>)"
proof -
  have j: "json_pure (pay_answer path)" by (simp add: pay_answer_def)
  then have ne: "stringify (pay_answer path) \<noteq> []" by (metis stringify_length length_greater_0_conv)
  show ?thesis using j ne by (simp add: web_api_def demo_pay_web_def pay_event_def Let_def json_parse_stringify http_ok_def)
qed

lemma demo_pay_sel:
  "ww_token demo_pay_web = (\<lambda>_. Some ''t'')" "ww_switchChain demo_pay_web = (\<lambda>_. Ok ())" "ww_chainId demo_pay_web = (\<lambda>_. Ok 421614)"
  "ww_allowance demo_pay_web = (\<lambda>_ _ _ _. Ok 0)" "ww_receipt demo_pay_web = (\<lambda>_ _. Ok True)"
  "ww_writeContract demo_pay_web = (\<lambda>_ _ _ fname _. Ok (if fname = ''approve'' then ''ha'' else ''hb''))"
  by (simp_all add: demo_pay_web_def demo_web_def)

lemma demo_pay_poll: "vc_checkout (ws_page (snd (checkout_loop demo_pay_web token ''j'' 40 s))) = NoteActive \<and> is_ok (fst (checkout_loop demo_pay_web token ''j'' 40 s))"
proof -
  have n: "(40 :: nat) = Suc 39" by simp
  show ?thesis unfolding n checkout_loop.simps(2)
    by (simp add: client_job_def andThen_def demo_pay_api dot_def give_back_def pay_answer_def detail_def set_stage_def on_page_def)
qed

lemma demo_burn_args: "burn_args [VStr (int_to_string 1000000), VNull, VNull, VNull, VNull, VStr (int_to_string 500), VNull, VNull] s =
  (Inr [BigArg 1000000, PlainArg VNull, PlainArg VNull, PlainArg VNull, PlainArg VNull, BigArg 500, PlainArg VNull, PlainArg VNull], s)"
  by (simp add: burn_args_def give_back_def)

lemma demo_pay_active:
  assumes "vc_memory (ws_page s) = Some (vault_value v)"
  shows "vc_checkout (ws_page (web_deposit demo_pay_web demo_crypto demo_checkout (Some ''vault-1'') s)) = NoteActive"
proof -
  have t: "truthy (vault_value v)" by (simp add: vault_value_def)
  have run: "\<exists>t. web_deposit_body demo_pay_web demo_crypto demo_checkout ''vault-1'' u = checkout_loop demo_pay_web ''t'' ''j'' 40 t"
    if "vc_memory (ws_page u) = Some (vault_value v)" for u
    by (simp add: web_deposit_body_def need_token_def demo_pay_sel demo_checkout_def client_syncPrivyWallets_def client_prepareDeposit_def checkout_burn_def
      client_burnSubmitted_def approve_if_needed_def andThen_def demo_pay_api dot_def dot_list_def give_back_def detail_def set_stage_def on_page_def ask_def
      getMemoryVault_def that t add_note_value_typed pay_answer_def demo_burn_args Let_def) (rule exI, rule refl)
  obtain t where t: "web_deposit_body demo_pay_web demo_crypto demo_checkout ''vault-1'' (s \<lparr> ws_page := (ws_page s) \<lparr> vc_checkout := CheckingVault, vc_details := [] \<rparr> \<rparr>) =
      checkout_loop demo_pay_web ''t'' ''j'' 40 t" using run [of "s \<lparr> ws_page := (ws_page s) \<lparr> vc_checkout := CheckingVault, vc_details := [] \<rparr> \<rparr>"] assms by auto
  show ?thesis using demo_pay_poll [of "''t''" t]
    by (cases "checkout_loop demo_pay_web ''t'' ''j'' 40 t"; cases "fst (checkout_loop demo_pay_web ''t'' ''j'' 40 t)")
      (simp_all add: web_deposit_def handled_def t)
qed


section \<open>Properties\<close>


definition demo_shopper :: "vault_client web_state" where
  "demo_shopper = demo_client \<lparr> ws_page := (ws_page demo_client) \<lparr> vc_memory := Some (vault_value (createEmptyNoteVault ''vault-1'' ''2026-01-01'')) \<rparr> \<rparr>"


end
