(* ===== verification/Spec2Isabelle.thy ===== *)
theory Spec2Isabelle
  imports Agents Receipts X402 StreamRelayer Rounds Settler NoteVault ViewKey Spends RelayerSafety ProverWorker
    Quotes Soroban Auditor ArcActions Solver StellarProofs CommitteeServers ClientIntents StreamPage Bridge NoteCrypto
    PoolGuarantees WebDeposit
begin

text \<open>
  A verification development for ShadePay, a private payment system: shielded notes on Arc and Stellar,
  streaming payments by signed vouchers, cross-chain deposits over Circle's CCTP, a request-for-quote market
  whose orders are matched by an MPC committee, and encrypted note vaults.

  \<^bold>\<open>The program and its theories.\<close> Paths are below \<open>src/\<close>.

  \<^item> \<open>Prelude\<close>, \<open>Json\<close>, \<open>Hex\<close>, \<open>ModPoly\<close>: the ground the others share. Results of fallible code, statements on a
    state that may throw (\<open>stmt\<close>, \<open>andThen\<close>), byte arrays, JavaScript numbers, insertion-ordered maps, decimal text
    of \<open>bigint\<close>, JSON values with \<open>JSON.parse\<close> and \<open>JSON.stringify\<close>, base64 and hexadecimal text, polynomials
    modulo a number.
  \<^item> Streaming payments. \<open>Streams\<close>: vouchers of \<open>packages/sdk/src/streams.ts\<close>. \<open>Agents\<close>: the payer and payee agents of
    \<open>agents.ts\<close>. \<open>Receipts\<close>: \<open>receipts.ts\<close>. \<open>X402\<close>: the payment gate \<open>apps/api/src/x402.ts\<close>. \<open>StreamRelayer\<close>:
    \<open>apps/relayer/src/stream-relayer.ts\<close>. \<open>StreamPay\<close>: the contract \<open>contracts/arc/src/StreamPay.sol\<close> with re-entrant
    recipients and its client \<open>frontend/lib/streampay.ts\<close>. \<open>StreamPage\<close>: the record and the actions of the stream page.
  \<^item> Notes and proofs. \<open>Merkle\<close>: commitments, the off-chain tree of \<open>packages/proving/src/bn254\<close>, the circuits' path
    check and the contract's frontier tree. \<open>Bn254\<close>: the proof builders \<open>bn254/prove.ts\<close> and \<open>bn254/stream.ts\<close>.
    \<open>Circuits\<close>: the seven BN254 circuits as predicates on their signals. \<open>Spends\<close>: what builders and circuits
    promise together. \<open>StellarProofs\<close>: \<open>packages/proving/src/mpc-settlement.ts\<close>, \<open>mpc-priced.ts\<close> and \<open>compliance.ts\<close> with
    the compliance circuit. \<open>NoteCrypto\<close>: \<open>packages/note-crypto\<close>.
  \<^item> The contracts on Arc. \<open>Pool\<close>: \<open>contracts/arc/src\<close> with \<open>NullifierRegistry.sol\<close>, the threshold check of \<open>CommitteeRegistry.sol\<close>,
    \<open>ShieldedPool.sol\<close> and \<open>StreamEscrow.sol\<close>: their deployment, every function that changes state, and the chain they form together.
    \<open>PoolSafety\<close>: what the event log says of the state. \<open>PoolAccounts\<close>: note values, the vault and the escrow's reserves.
    \<open>PoolGuarantees\<close>: their properties.
  \<^item> The committee. \<open>Shamir\<close> and \<open>Committee\<close>: \<open>packages/mpc-crypto\<close>. \<open>Sessions\<close>, \<open>Matcher\<close>, \<open>Rounds\<close>: the state, the
    matching algorithms, the rounds and the servers of \<open>apps/mpc-committee\<close>. \<open>Settler\<close>: its settler and batch store.
    \<open>CommitteeServers\<close>: the stored keys, the coordinator process and the remaining routes. \<open>ClientIntents\<close>: the private intents of
    \<open>packages/sdk/src/mpc.ts\<close> and \<open>intents.ts\<close>.
  \<^item> The market. \<open>Quotes\<close>: \<open>packages/rfq\<close> and \<open>packages/assets\<close>. \<open>Solver\<close>: \<open>apps/solver\<close>.
  \<^item> The durable queue and its workers. \<open>JobQueue\<close>: \<open>packages/queue\<close>. \<open>Workers\<close>: what the workers share. \<open>Relayer\<close> and
    \<open>RelayerSafety\<close>: \<open>apps/relayer/src/worker.ts\<close>. \<open>ProverWorker\<close>: \<open>apps/prover/src/worker.ts\<close> with the proof
    pipeline \<open>packages/proving/src/prove.ts\<close>. \<open>Auditor\<close>: \<open>apps/root-auditor\<close>.
  \<^item> Chain access. \<open>Soroban\<close>: \<open>packages/stellar-utils\<close>. \<open>ArcActions\<close>: \<open>packages/arc-actions\<close> and \<open>packages/stellar-actions\<close>.
  \<^item> The bridge. \<open>Cctp\<close>: \<open>packages/cctp-utils\<close>, \<open>packages/cctp\<close> and \<open>packages/sdk/src/cctp.ts\<close>.
    \<open>Bridge\<close>: \<open>frontend/lib/cctp.ts\<close>, the chain switch of \<open>frontend/lib/arc.ts\<close> and the bridge page.
  \<^item> The HTTP API. \<open>Store\<close>: \<open>apps/api/src/db.ts\<close>. \<open>Privy\<close>: \<open>packages/auth-privy\<close> and \<open>apps/api/src/auth.ts\<close>. \<open>Api\<close>,
    \<open>ApiVault\<close>, \<open>Rfq\<close>, \<open>ApiReports\<close>: the handlers of \<open>routes.ts\<close> with \<open>schemas.ts\<close>, \<open>mpc-proxy.ts\<close> and \<open>shade-view.ts\<close>.
    \<open>ApiSystem\<close>: the API as a transition system. \<open>ApiGuarantees\<close> and \<open>ViewKey\<close>: its properties.
  \<^item> The client. \<open>NoteVault\<close>: \<open>packages/note-vault\<close> and the note bookkeeping of \<open>packages/sdk/src/notes.ts\<close>.
    \<open>SpendPages\<close>: the browser's API client, Freighter signing, and the handlers of the deposit, withdrawal and trade pages of \<open>frontend\<close>.
    \<open>WebVault\<close> and \<open>WebDeposit\<close>: the client library of \<open>apps/web\<close> and its pages that create and restore a vault and deposit into it.

  \<^bold>\<open>How state and operations correspond.\<close> An object or table is a record, a handler or method is one definition
  that returns its outcome and the state it leaves. A thrown error is a value of the result type, so every throw
  and early return is a branch; what was changed before a throw stays changed. A row id or user id is a counter whose text is
  the id. Clocks, random draws and drawn ids are arguments. Amounts are \<open>int\<close>, as \<open>bigint\<close> is unbounded;
  field elements are reduced where the code reduces them.

  \<^bold>\<open>Parameters.\<close> What is not in the repository is an argument: EdDSA over BabyJubJub (\<open>eddsa_lib\<close>), NaCl
  (\<open>nacl_lib\<close>), SHA-256, the order of \<open>Array.sort\<close> where the comparison has ties, WebCrypto (\<open>webcrypto\<close>), Stellar's
  StrKey (\<open>strkey_lib\<close>), ES256, wallet signatures (\<open>wallet_lib\<close>), the report keys (\<open>report_lib\<close>), Poseidon, Groth16
  (\<open>groth_lib\<close>), the command line tools (\<open>tool_lib\<close>), the chains, Circle and HTTP services (\<open>inbound_world\<close>,
  \<open>relay_world\<close>, \<open>bridge_world\<close>, \<open>client_net\<close>, \<open>web_world\<close> with passkeys and wallets, \<open>http_answer\<close>), and what the pool calls (\<open>externals\<close>: tokens, the
  TokenMessenger, the Groth16 and ed25519 verifiers, SHA-256, Poseidon; none of them calls back into the pool). The database of the API is modelled by what Postgres
  documents for the statements issued and the constraints of \<open>db/migrations\<close>. What is assumed of one of them is a named predicate on it, and each property with such
  a hypothesis is applied to a concrete instance.

  \<^bold>\<open>What the lemmas show.\<close> Vouchers never exceed budget and cap and the payee keeps the best one; the gate lets
  exactly the paid requests through; receipts account for the cap; batches partition the ready channels, and the loop does
  not end for a batch size of zero. Builders accept exactly well-formed spends and the circuits conserve
  value; tree and contract agree on roots, and an accepted path is the tree's own unless the two paths show a hash collision. Shares reconstruct at the
  threshold, and below it every view is shown by equally many outcomes of the random draws whatever the secret; batches verify exactly with two thirds of distinct members; matching is sound, maximal and
  fair, also with failing nodes. Jobs are claimed once, retried at most three times, and always leave their
  in-progress states; the settler adds one row for each match, once; the relayer submits only behind its checks and with the payload's own
  terms, and registers the growth of the balance it read. The
  API's tables keep the constraints the database enforces and hold no plaintext notes; login nonces are single-use, sessions end with their time to
  live or a logout, and a prepared deposit's burn validates for that deposit only. The stream
  contract holds exactly what it owes whatever its recipients call back, its meter is rate times active time, and the payer can stop
  a stream if the accrual fits into a word, neither party is the contract and both recipients take their transfers. Quotes and swaps are bound by their hashes; contract calls are retried only where that is
  safe; the audit gates the API; the compliance proof accepts exactly allowed and not denied labels; committee keys
  survive a restart; an intent built in the browser is one the committee can open; a bridge run mints only the message that was attested for its own burn. In the pool, whatever calls are
  made in whatever order, a nullifier is spent once, a channel is closed once, the tree is the off-chain tree of the leaves announced in its events,
  the vault holds the notes it issued as long as only sound proofs verify, a withdrawal spends a note that was announced (or exhibits a collision on its path), and a settlement needs two thirds of the
  committee. The withdrawal page signs only for the account it asked for and reports only confirmed transactions. A vault
  created in the browser is restored by its recovery file alone; the web application's deposit drops the vault with the note it burns USDC for. Some theorems
  show where the code falls short of its purpose; the manifest lists them as findings.

  \<^bold>\<open>Interfaces.\<close> \<open>threshold_sharing\<close> (interpreted for \<open>shamirSplit\<close> and \<open>shamirReconstruct\<close>), \<open>permuting_sort\<close> (the
  matcher's sort), \<open>matching_round\<close> (the local and the remote round), \<open>keyed_queue\<close> (the job queue as the settler uses it),
  \<open>chain_invariant\<close> (the log and the tree of the pool), \<open>worker\<close> (the relayer and the prover), \<open>store_invariant\<close> (six invariants of the API's statements).

  \<^bold>\<open>Bounds and fuel.\<close> The JSON parser's fuel is the length of the text, which each step shortens. Committees have
  fewer than 64 nodes, so that the Lagrange denominators stay units modulo the field prime. Random draws are lists;
  a rejection loop that finds no accepted draw in the list throws. Trees have a depth below 31, as \<open>1 << depth\<close> is a 32-bit
  shift in JavaScript. The batching loop is a partial function. Polling loops (\<open>poll\<close>, \<open>attestation_loop\<close>) have fuel; theorems show
  that enough of it for an advancing clock gives a result. The browser's polling loops run
  for the code's own 30, 40, 120, 150 and 240 rounds, so they end. Retry loops count their attempts. \<open>uint256\<close> arithmetic of the stream
  contract and of the pool is checked against 2^256.

  \<^bold>\<open>Not modelled.\<close> Rendering and styling of the two web applications, apart from the actions of the stream, bridge, move, deposit and vault pages;
  of the rest, receipts, reports, dashboards and notifications only display.
  The adapters that only forward to a wallet extension (\<open>packages/sdk/src/wallets.ts\<close>). End-to-end
  scripts, demos and tests, which exercise the modelled parts against live networks. Build, deployment and migration scripts.
  Process start-up and health routes. The Stellar contracts in Rust, which the Solidity contracts port, the generated verifiers, and the
  BLS12-381 circuits but the compliance circuit. Of the API's routes, the server-sent-events stream and \<open>build-tx\<close>. Floating-point
  sums and the texts of log lines.
\<close>

end
